(* ===== verification/Prelude.thy ===== *)
theory Prelude
  imports Main "HOL-Library.Sublist"
begin

text \<open>
  Shared vocabulary of the development: the operations of Python's \<open>str\<close>,
  \<open>posixpath\<close> and \<open>pathlib\<close> that the modelled modules use, written as executable
  functions on character lists, with the lemmas every component needs about them.

  A Python \<open>str\<close> is a \<open>string\<close> (a list of characters); case folding is folded on
  the ASCII letters only. A \<open>pathlib\<close> path is its tuple \<open>parts\<close>, a list of
  strings whose first element is the root (\<open>''/''\<close> or \<open>''//''\<close>) when the path is
  absolute.
\<close>

named_theorems word_defs "the frozen spellings of a vocabulary"
named_theorems path_simps "facts about path components and path tests"

section \<open>Splitting and joining\<close>

fun split_on :: "'a \<Rightarrow> 'a list \<Rightarrow> 'a list list" where
  "split_on c [] = [ [] ]"
| "split_on c (x # xs) =
     (if x = c then [] # split_on c xs
      else (case split_on c xs of [] \<Rightarrow> [ [x] ] | y # ys \<Rightarrow> (x # y) # ys))"

fun join_on :: "'a list \<Rightarrow> 'a list list \<Rightarrow> 'a list" where
  "join_on sep [] = []"
| "join_on sep [x] = x"
| "join_on sep (x # y # ys) = x @ sep @ join_on sep (y # ys)"

lemma split_on_not_Nil [simp]: "split_on c xs \<noteq> []"
  by (induction xs) (auto split: list.splits)

lemma split_on_no_sep: "y \<in> set (split_on c xs) \<Longrightarrow> c \<notin> set y"
  by (induction xs arbitrary: y) (fastforce split: list.splits if_splits)+

lemma split_on_Cons_other:
  "x \<noteq> c \<Longrightarrow> split_on c (x # xs) = (x # hd (split_on c xs)) # tl (split_on c xs)"
  by (cases "split_on c xs") auto

lemma join_split [simp]: "join_on [c] (split_on c xs) = xs"
proof (induction xs)
  case (Cons x xs)
  show ?case
  proof (cases "x = c")
    case True
    with Cons show ?thesis by (cases "split_on c xs") auto
  next
    case False
    obtain y ys where s: "split_on c xs = y # ys" by (cases "split_on c xs") auto
    with Cons False show ?thesis by (cases ys) auto
  qed
qed simp

lemma split_on_single: "c \<notin> set xs \<Longrightarrow> split_on c xs = [xs]"
  by (induction xs) auto

lemma split_on_append_sep: "c \<notin> set xs \<Longrightarrow> split_on c (xs @ c # ys) = xs # split_on c ys"
  by (induction xs) auto

lemma split_join:
  "ys \<noteq> [] \<Longrightarrow> (\<forall>y \<in> set ys. c \<notin> set y) \<Longrightarrow> split_on c (join_on [c] ys) = ys"
  by (induction "[c]" ys rule: join_on.induct)
    (auto simp: split_on_single split_on_append_sep)

section \<open>Python string methods\<close>

definition lower_char :: "char \<Rightarrow> char" where
  "lower_char c = (let n = (of_char c :: nat) in
     if 65 \<le> n \<and> n \<le> 90 then char_of (n + 32) else c)"

definition lower :: "string \<Rightarrow> string" where
  "lower = map lower_char"

definition is_letter :: "char \<Rightarrow> bool" where
  "is_letter c = (let n = (of_char c :: nat) in
     (65 \<le> n \<and> n \<le> 90) \<or> (97 \<le> n \<and> n \<le> 122))"

definition is_digit :: "char \<Rightarrow> bool" where
  "is_digit c = (let n = (of_char c :: nat) in 48 \<le> n \<and> n \<le> 57)"

definition starts_with :: "string \<Rightarrow> string \<Rightarrow> bool" where
  "starts_with s p = prefix p s"

definition ends_with :: "string \<Rightarrow> string \<Rightarrow> bool" where
  "ends_with s p = suffix p s"

definition replace_char :: "char \<Rightarrow> char \<Rightarrow> string \<Rightarrow> string" where
  "replace_char a b = map (\<lambda>c. if c = a then b else c)"

definition lstrip_char :: "char \<Rightarrow> string \<Rightarrow> string" where
  "lstrip_char c = dropWhile (\<lambda>x. x = c)"

definition rstrip_char :: "char \<Rightarrow> string \<Rightarrow> string" where
  "rstrip_char c s = rev (dropWhile (\<lambda>x. x = c) (rev s))"

definition slashes :: "string \<Rightarrow> string" where
  "slashes = replace_char (CHR 92) (CHR 47)"

text \<open>\<open>str.strip()\<close> on the ASCII whitespace.\<close>

definition is_space :: "char \<Rightarrow> bool" where
  "is_space c = (let n = (of_char c :: nat) in n = 32 \<or> (9 \<le> n \<and> n \<le> 13) \<or> (28 \<le> n \<and> n \<le> 31))"

definition strip :: "string \<Rightarrow> string" where
  "strip s = rev (dropWhile is_space (rev (dropWhile is_space s)))"

text \<open>The same tests on the bits of a character: what evaluation uses. The last five bits of a letter
  are 1 to 26.\<close>

definition upper_bits :: "bool \<Rightarrow> bool \<Rightarrow> bool \<Rightarrow> bool \<Rightarrow> bool \<Rightarrow> bool" where
  "upper_bits b4 b3 b2 b1 b0 = ((b4 \<or> b3 \<or> b2 \<or> b1 \<or> b0) \<and> \<not> (b4 \<and> b3 \<and> (b2 \<or> (b1 \<and> b0))))"

lemma lower_char_code [code]:
  "lower_char (Char b0 b1 b2 b3 b4 b5 b6 b7) =
     Char b0 b1 b2 b3 b4 (b5 \<or> (\<not> b7 \<and> b6 \<and> upper_bits b4 b3 b2 b1 b0)) b6 b7"
  by (cases b0; cases b1; cases b2; cases b3; cases b4; cases b5; cases b6; cases b7;
      simp add: lower_char_def upper_bits_def char_of_def bit_0)

lemma is_letter_code [code]:
  "is_letter (Char b0 b1 b2 b3 b4 b5 b6 b7) = (\<not> b7 \<and> b6 \<and> upper_bits b4 b3 b2 b1 b0)"
  by (cases b0; cases b1; cases b2; cases b3; cases b4; cases b5; cases b6; cases b7;
      simp add: is_letter_def upper_bits_def)

lemma is_digit_code [code]:
  "is_digit (Char b0 b1 b2 b3 b4 b5 b6 b7) = (\<not> b7 \<and> \<not> b6 \<and> b5 \<and> b4 \<and> (\<not> b3 \<or> \<not> b2 \<and> \<not> b1))"
  by (cases b0; cases b1; cases b2; cases b3; cases b4; cases b5; cases b6; cases b7; simp add: is_digit_def)

lemma is_space_code [code]:
  "is_space (Char b0 b1 b2 b3 b4 b5 b6 b7) =
     (\<not> b7 \<and> \<not> b6 \<and>
      (if b5 then \<not> b4 \<and> \<not> b3 \<and> \<not> b2 \<and> \<not> b1 \<and> \<not> b0
       else b3 \<and> (if b4 then b2 else (b2 \<or> b1 \<or> b0) \<and> \<not> (b2 \<and> b1))))"
  by (cases b0; cases b1; cases b2; cases b3; cases b4; cases b5; cases b6; cases b7; simp add: is_space_def)
definition contains :: "string \<Rightarrow> string \<Rightarrow> bool" where
  "contains s w = sublist w s"

text \<open>\<open>s.replace(old, new)\<close>, left to right, for a non-empty \<open>old\<close>.\<close>

function replace_all :: "string \<Rightarrow> string \<Rightarrow> string \<Rightarrow> string" where
  "replace_all old new [] = []"
| "replace_all old new (c # cs) =
     (if old \<noteq> [] \<and> starts_with (c # cs) old
      then new @ replace_all old new (drop (length old - 1) cs)
      else c # replace_all old new cs)"
  by pat_completeness auto
termination by (relation "measure (\<lambda>(_, _, s). length s)") (auto simp: le_imp_less_Suc)

lemma replace_all_absent: "\<not> contains s old \<Longrightarrow> replace_all old new s = s"
  by (induction old new s rule: replace_all.induct)
    (auto simp: contains_def starts_with_def sublist_Cons_right dest: prefix_imp_sublist)

lemma starts_with_append [simp]: "starts_with (p @ s) p"
  by (simp add: starts_with_def)

lemma starts_with_Nil [simp]: "starts_with s []"
  by (simp add: starts_with_def)

lemma starts_with_iff: "starts_with s p \<longleftrightarrow> (\<exists>r. s = p @ r)"
  by (simp add: starts_with_def prefix_def)

lemma starts_with_drop: "starts_with s p \<Longrightarrow> p @ drop (length p) s = s"
  by (auto simp: starts_with_iff)

lemma length_replace_char [simp]: "length (replace_char a b s) = length s"
  by (simp add: replace_char_def)

definition upper :: "string \<Rightarrow> string" where
  "upper s = map (\<lambda>c. if (97::nat) \<le> of_char c \<and> of_char c \<le> (122::nat) then char_of ((of_char c :: nat) - 32) else c) s"

lemma lower_Nil [simp]: "lower [] = []"
  by (simp add: lower_def)

lemma lower_eq_Nil_iff [simp]: "lower s = [] \<longleftrightarrow> s = []"
  by (simp add: lower_def)

section \<open>Python mappings and truthiness\<close>

text \<open>\<open>d.get(k, dflt)\<close> and \<open>x or dflt\<close> on a string.\<close>

definition get_or :: "('k \<rightharpoonup> 'v) \<Rightarrow> 'k \<Rightarrow> 'v \<Rightarrow> 'v" where
  "get_or m k d = (case m k of None \<Rightarrow> d | Some v \<Rightarrow> v)"

definition or_else :: "'a list \<Rightarrow> 'a list \<Rightarrow> 'a list" where
  "or_else s d = (if s = [] then d else s)"

text \<open>Reading a constant table: \<open>map_of\<close>, written so that a closed key evaluates entry by
  entry.\<close>

fun lookup :: "('k \<times> 'v) list \<Rightarrow> 'k \<Rightarrow> 'v option" where
  "lookup [] k = None"
| "lookup ((a, v) # kvs) k = (if a = k then Some v else lookup kvs k)"

lemma lookup_map_of: "lookup kvs k = map_of kvs k"
  by (induction kvs k rule: lookup.induct) auto

lemma lookup_SomeD: "lookup kvs k = Some v \<Longrightarrow> (k, v) \<in> set kvs"
  by (simp add: lookup_map_of map_of_SomeD)

lemma lookup_None_iff: "lookup kvs k = None \<longleftrightarrow> k \<notin> set (map fst kvs)"
  by (induction kvs k rule: lookup.induct) auto

text \<open>A Python dict as the list of its items in insertion order: \<open>d[k] = v\<close> keeps the place of
  a key that is there and appends a new one, \<open>d.pop(k, None)\<close> drops it.\<close>

fun dict_set :: "'k \<Rightarrow> 'v \<Rightarrow> ('k \<times> 'v) list \<Rightarrow> ('k \<times> 'v) list" where
  "dict_set k v [] = [(k, v)]"
| "dict_set k v ((a, w) # kvs) = (if a = k then (a, v) # kvs else (a, w) # dict_set k v kvs)"

definition dict_del :: "'k \<Rightarrow> ('k \<times> 'v) list \<Rightarrow> ('k \<times> 'v) list" where
  "dict_del k kvs = filter (\<lambda>kv. fst kv \<noteq> k) kvs"

abbreviation keys :: "('k \<times> 'v) list \<Rightarrow> 'k list" where "keys kvs \<equiv> map fst kvs"

lemma lookup_dict_set [simp]: "lookup (dict_set k v kvs) x = (if x = k then Some v else lookup kvs x)"
  by (induction k v kvs rule: dict_set.induct) auto

lemma lookup_dict_del [simp]: "lookup (dict_del k kvs) x = (if x = k then None else lookup kvs x)"
  by (induction kvs) (auto simp: dict_del_def)

lemma set_keys_dict_set [simp]: "set (keys (dict_set k v kvs)) = insert k (set (keys kvs))"
  by (induction k v kvs rule: dict_set.induct) auto

lemma set_keys_dict_del [simp]: "set (keys (dict_del k kvs)) = set (keys kvs) - {k}"
  unfolding dict_del_def by auto

lemma distinct_dict_set [simp]: "distinct (keys (dict_set k v kvs)) \<longleftrightarrow> distinct (keys kvs)"
proof (induction k v kvs rule: dict_set.induct)
  case (2 k v a w kvs)
  then show ?case using set_keys_dict_set [of k v kvs] by (auto simp del: set_map)
qed simp

lemma distinct_dict_del: "distinct (keys kvs) \<Longrightarrow> distinct (keys (dict_del k kvs))"
  unfolding dict_del_def by (induction kvs) auto

lemma dict_set_new: "k \<notin> set (keys kvs) \<Longrightarrow> dict_set k v kvs = kvs @ [(k, v)]"
  by (induction k v kvs rule: dict_set.induct) auto

lemma lookup_in_keys: "lookup kvs k \<noteq> None \<longleftrightarrow> k \<in> set (keys kvs)"
  by (simp add: lookup_None_iff)

lemma dict_set_old_keys: "k \<in> set (keys kvs) \<Longrightarrow> keys (dict_set k v kvs) = keys kvs"
  by (induction k v kvs rule: dict_set.induct) auto

lemma dict_del_absent: "k \<notin> set (keys kvs) \<Longrightarrow> dict_del k kvs = kvs"
  by (auto simp: dict_del_def intro!: filter_True)

lemma sum_dict_set:
  fixes f :: "'v \<Rightarrow> int"
  shows "lookup kvs k = Some v \<Longrightarrow>
    (\<Sum>kv\<leftarrow>dict_set k w kvs. f (snd kv)) = (\<Sum>kv\<leftarrow>kvs. f (snd kv)) - f v + f w"
  by (induction k w kvs rule: dict_set.induct) (auto split: if_splits)

lemma sum_dict_del:
  fixes f :: "'v \<Rightarrow> int"
  shows "distinct (keys kvs) \<Longrightarrow> lookup kvs k = Some v \<Longrightarrow>
    (\<Sum>kv\<leftarrow>dict_del k kvs. f (snd kv)) = (\<Sum>kv\<leftarrow>kvs. f (snd kv)) - f v"
proof (induction kvs)
  case (Cons kv kvs)
  obtain a w where kv: "kv = (a, w)" by fastforce
  show ?case
  proof (cases "a = k")
    case True
    with Cons.prems kv have "dict_del k (kv # kvs) = kvs" "w = v"
      using dict_del_absent [of k kvs] by (auto simp: dict_del_def)
    with kv show ?thesis by simp
  next
    case False
    with Cons kv show ?thesis by (simp add: dict_del_def)
  qed
qed simp

text \<open>A value that may be Python's \<open>None\<close>, read with \<open>x or ''''\<close>.\<close>

definition opt_str :: "string option \<Rightarrow> string" where
  "opt_str x = (case x of None \<Rightarrow> [] | Some s \<Rightarrow> s)"

lemma get_or_upd [simp]: "get_or (m(k \<mapsto> v)) k' d = (if k' = k then v else get_or m k' d)"
  by (simp add: get_or_def)

lemma or_else_Nil [simp]: "or_else [] d = d"
  by (simp add: or_else_def)

lemma or_else_Cons [simp]: "or_else (x # xs) d = x # xs"
  by (simp add: or_else_def)

lemma opt_str_simps [simp]: "opt_str None = []" "opt_str (Some s) = s"
  by (simp_all add: opt_str_def)

text \<open>A JSON value, and a Python dict of them in its insertion order (a later duplicate
  key cannot occur in a dict; \<open>lookup\<close> reads the first).\<close>

datatype json = JNull | JBool bool | JNum int | JStr string | JArr "json list"
  | JObj "(string \<times> json) list"

type_synonym dict = "(string \<times> json) list"

definition dget :: "dict \<Rightarrow> string \<Rightarrow> json option" where
  "dget d k = lookup d k"

lemma dget_append: "dget (a @ b) k = (case dget a k of None \<Rightarrow> dget b k | Some v \<Rightarrow> Some v)"
  by (induction a) (auto simp: dget_def split: option.splits)

text \<open>\<open>isinstance(v, str) and v\<close>: the string a present value is, when non-empty.\<close>

definition nonempty_str :: "json option \<Rightarrow> string option" where
  "nonempty_str v = (case v of Some (JStr (c # cs)) \<Rightarrow> Some (c # cs) | _ \<Rightarrow> None)"

text \<open>Python truthiness of a value.\<close>

definition truthy :: "json option \<Rightarrow> bool" where
  "truthy v = (case v of None \<Rightarrow> False | Some JNull \<Rightarrow> False | Some (JBool b) \<Rightarrow> b
     | Some (JNum n) \<Rightarrow> n \<noteq> 0 | Some (JStr s) \<Rightarrow> s \<noteq> [] | Some (JArr xs) \<Rightarrow> xs \<noteq> []
     | Some (JObj kvs) \<Rightarrow> kvs \<noteq> [])"

lemma nonempty_str_Some: "nonempty_str v = Some s \<longleftrightarrow> v = Some (JStr s) \<and> s \<noteq> []"
  by (auto simp: nonempty_str_def split: option.splits json.splits list.splits)

section \<open>posixpath.normpath\<close>

abbreviation DOT :: string where "DOT \<equiv> ''.''"
abbreviation DOTDOT :: string where "DOTDOT \<equiv> ''..''"
abbreviation SLASH :: char where "SLASH \<equiv> CHR 47"

text \<open>One component of the loop; the accumulator is the list of components kept so far,
  last first.\<close>

definition norm_step :: "bool \<Rightarrow> string list \<Rightarrow> string \<Rightarrow> string list" where
  "norm_step rooted acc cmp =
     (if cmp = [] \<or> cmp = DOT then acc
      else if cmp \<noteq> DOTDOT \<or> (\<not> rooted \<and> acc = []) \<or> (acc \<noteq> [] \<and> hd acc = DOTDOT)
        then cmp # acc
      else (case acc of [] \<Rightarrow> [] | _ # rest \<Rightarrow> rest))"

definition norm_comps :: "bool \<Rightarrow> string list \<Rightarrow> string list" where
  "norm_comps rooted comps = rev (foldl (norm_step rooted) [] comps)"

definition initial_slashes :: "string \<Rightarrow> string" where
  "initial_slashes p =
     (if \<not> starts_with p ''/'' then []
      else if starts_with p ''//'' \<and> \<not> starts_with p ''///'' then ''//'' else ''/'')"

definition normpath :: "string \<Rightarrow> string" where
  "normpath p =
     (if p = [] then DOT
      else or_else (initial_slashes p @
              join_on ''/'' (norm_comps (starts_with p ''/'') (split_on SLASH p))) DOT)"

text \<open>What a component list looks like after the loop: for a rooted path no dot-dot is
  left; otherwise dot-dots stand only at the front.\<close>

definition plain_comps :: "string list \<Rightarrow> bool" where
  "plain_comps cs \<longleftrightarrow> (\<forall>c \<in> set cs. c \<noteq> [] \<and> c \<noteq> DOT \<and> c \<noteq> DOTDOT)"

definition settled :: "bool \<Rightarrow> string list \<Rightarrow> bool" where
  "settled rooted acc \<longleftrightarrow>
     (\<exists>k cs. acc = rev cs @ replicate k DOTDOT \<and> plain_comps cs \<and> (rooted \<longrightarrow> k = 0))"

lemma settled_Nil [simp]: "settled rooted []"
  unfolding settled_def by (rule exI [of _ 0], rule exI [of _ "[]"]) (simp add: plain_comps_def)

lemma settled_step: "settled rooted acc \<Longrightarrow> settled rooted (norm_step rooted acc c)"
proof -
  assume "settled rooted acc"
  then obtain k cs where acc: "acc = rev cs @ replicate k DOTDOT"
    and cs: "plain_comps cs" and k: "rooted \<longrightarrow> k = 0" unfolding settled_def by blast
  consider "c = [] \<or> c = DOT" | "c \<noteq> []" "c \<noteq> DOT" "c \<noteq> DOTDOT" | "c = DOTDOT" by blast
  then show ?thesis
  proof cases
    case 1
    then show ?thesis using \<open>settled rooted acc\<close> by (simp add: norm_step_def)
  next
    case 2
    then have "norm_step rooted acc c = rev (cs @ [c]) @ replicate k DOTDOT"
      by (simp add: norm_step_def acc)
    moreover from cs 2 have "plain_comps (cs @ [c])" by (simp add: plain_comps_def)
    ultimately show ?thesis using k unfolding settled_def by blast
  next
    case 3
    show ?thesis
    proof (cases cs rule: rev_cases)
      case Nil
      show ?thesis
      proof (cases "rooted")
        case True
        with Nil acc k 3 show ?thesis by (simp add: norm_step_def)
      next
        case False
        with Nil acc 3 have "norm_step rooted acc c = rev [] @ replicate (Suc k) DOTDOT"
          by (cases k) (simp_all add: norm_step_def)
        then show ?thesis using False unfolding settled_def
          by (intro exI [of _ "Suc k"] exI [of _ "[]"]) (simp add: plain_comps_def)
      qed
    next
      case (snoc ds d)
      with cs have "d \<noteq> DOTDOT" "plain_comps ds" by (auto simp: plain_comps_def)
      with snoc acc 3 have "norm_step rooted acc c = rev ds @ replicate k DOTDOT"
        by (simp add: norm_step_def)
      then show ?thesis using \<open>plain_comps ds\<close> k unfolding settled_def by blast
    qed
  qed
qed

lemma settled_foldl: "settled rooted acc \<Longrightarrow> settled rooted (foldl (norm_step rooted) acc cs)"
  by (induction cs arbitrary: acc) (auto intro: settled_step)

lemma norm_comps_form:
  "\<exists>k cs'. norm_comps rooted cs = replicate k DOTDOT @ cs' \<and> plain_comps cs' \<and> (rooted \<longrightarrow> k = 0)"
proof -
  from settled_foldl [OF settled_Nil, of rooted cs]
  obtain k cs' where "foldl (norm_step rooted) [] cs = rev cs' @ replicate k DOTDOT"
    "plain_comps cs'" "rooted \<longrightarrow> k = 0" unfolding settled_def by blast
  then show ?thesis unfolding norm_comps_def by auto
qed

lemma norm_comps_rooted_plain: "plain_comps (norm_comps True cs)"
  using norm_comps_form [of True cs] by auto

section \<open>pathlib\<close>

text \<open>The parts of \<open>PurePosixPath(s)\<close>: the root, then the components without the
  empty ones and the single dots. Dot-dots are kept.\<close>

definition path_parts :: "string \<Rightarrow> string list" where
  "path_parts s =
     (let comps = filter (\<lambda>c. c \<noteq> [] \<and> c \<noteq> DOT) (split_on SLASH s)
      in if starts_with s ''/'' then initial_slashes s # comps else comps)"

text \<open>\<open>str(path)\<close>: the root is written as it stands, the other parts are joined.\<close>

definition path_str :: "string list \<Rightarrow> string" where
  "path_str p = (case p of [] \<Rightarrow> DOT
     | r # rest \<Rightarrow> if starts_with r ''/'' then r @ join_on ''/'' rest else join_on ''/'' p)"

text \<open>The \<open>/\<close> operator: an absolute right operand replaces the left one.\<close>

definition path_div :: "string list \<Rightarrow> string \<Rightarrow> string list" where
  "path_div p s = (if starts_with s ''/'' then path_parts s else p @ path_parts s)"

definition path_name :: "string list \<Rightarrow> string" where
  "path_name p = (if p = [] then [] else if length p = 1 \<and> starts_with (hd p) ''/'' then [] else last p)"

text \<open>\<open>child == parent or child.is_relative_to(parent)\<close>\<close>

definition path_under :: "string list \<Rightarrow> string list \<Rightarrow> bool" where
  "path_under child parent = prefix parent child"

lemma path_under_refl [simp]: "path_under p p"
  by (simp add: path_under_def)

lemma path_under_append [simp]: "path_under (p @ q) p"
  by (simp add: path_under_def)

lemma path_under_trans [trans]: "path_under a b \<Longrightarrow> path_under b c \<Longrightarrow> path_under a c"
  unfolding path_under_def by (rule prefix_order.trans)

lemma path_under_same_child:
  "path_under p (a @ [x]) \<Longrightarrow> path_under p (a @ [y]) \<Longrightarrow> x = y"
  unfolding path_under_def
  by (auto simp: prefix_def)

end
