(* ===== verification/Roles.thy ===== *)
theory Roles
  imports Prelude
begin

text \<open>
  \<open>proxy/auth/roles.py\<close>: the role words, the tiers the mounts and the path policy key
  on, the rank an action floor is judged by, and the questions asked of a role.

  A role argument that Python may pass as \<open>None\<close> is the empty word here: every function
  of the module treats the two alike.
\<close>

section \<open>The words\<close>

definition ADMIN :: string where [word_defs]: "ADMIN = ''admin''"
definition CREATOR :: string where [word_defs]: "CREATOR = ''creator''"
definition MEMBER :: string where [word_defs]: "MEMBER = ''member''"
definition MANAGER :: string where [word_defs]: "MANAGER = ''manager''"
definition EDITOR :: string where [word_defs]: "EDITOR = ''editor''"
definition CONTRIBUTOR :: string where [word_defs]: "CONTRIBUTOR = ''contributor''"
definition VIEWER :: string where [word_defs]: "VIEWER = ''viewer''"
definition SERVICE :: string where [word_defs]: "SERVICE = ''agent''"
definition NO_ACCESS :: string where [word_defs]: "NO_ACCESS = []"

definition OWNER_TIER :: "string list" where "OWNER_TIER = [MANAGER, ADMIN]"
definition EDITOR_TIER :: "string list" where "EDITOR_TIER = [MANAGER, EDITOR, ADMIN]"
definition WORKSPACE_TIER :: "string list" where
  "WORKSPACE_TIER = [MANAGER, EDITOR, CONTRIBUTOR, ADMIN]"
definition CREATOR_TIER :: "string list" where "CREATOR_TIER = [ADMIN, CREATOR]"
definition SHARED_ONLY_ROLES :: "string list" where "SHARED_ONLY_ROLES = [MANAGER, EDITOR]"
definition EFFECTIVE_ROLES :: "string list" where
  "EFFECTIVE_ROLES = [VIEWER, CONTRIBUTOR, EDITOR, MANAGER, ADMIN]"
definition PLATFORM_BY_RANK :: "string list" where
  "PLATFORM_BY_RANK = [MEMBER, CREATOR, ADMIN]"

definition RANK :: "string \<rightharpoonup> nat" where
  "RANK = lookup (zip EFFECTIVE_ROLES [0, 1, 2, 3, 4])"
definition PLATFORM_RANK :: "string \<rightharpoonup> nat" where
  "PLATFORM_RANK = lookup (zip PLATFORM_BY_RANK [0, 1, 2])"

lemmas role_tables = OWNER_TIER_def EDITOR_TIER_def WORKSPACE_TIER_def CREATOR_TIER_def
  SHARED_ONLY_ROLES_def EFFECTIVE_ROLES_def PLATFORM_BY_RANK_def RANK_def PLATFORM_RANK_def

section \<open>The questions\<close>

definition is_admin :: "string \<Rightarrow> bool" where
  "is_admin role = (role = ADMIN)"

definition is_creator_or_above :: "string \<Rightarrow> bool" where
  "is_creator_or_above role = (role \<in> set CREATOR_TIER)"

definition can_manage :: "string \<Rightarrow> bool" where
  "can_manage role = (role \<in> set OWNER_TIER)"

definition can_edit :: "string \<Rightarrow> bool" where
  "can_edit role = (role \<in> set EDITOR_TIER)"

definition can_write_workspace :: "string \<Rightarrow> bool" where
  "can_write_workspace role = (role \<in> set WORKSPACE_TIER)"

definition allowed_on_shared_only :: "string \<Rightarrow> bool" where
  "allowed_on_shared_only role = (role \<in> set SHARED_ONLY_ROLES)"

definition rank :: "string \<Rightarrow> nat" where
  "rank role = get_or RANK role 0"

definition meets_floor :: "string \<Rightarrow> string \<Rightarrow> bool" where
  "meets_floor role floor =
     (let wanted = or_else floor VIEWER
      in case RANK wanted of None \<Rightarrow> False | Some w \<Rightarrow> w \<le> rank role)"

definition capped :: "string \<Rightarrow> string \<Rightarrow> string" where
  "capped role cap = (if rank role \<le> rank cap then role else cap)"

text \<open>One step of \<open>highest_platform_role\<close>'s loop, and the loop.\<close>

definition pick_higher :: "string option \<Rightarrow> string \<Rightarrow> string option" where
  "pick_higher best role =
     (case PLATFORM_RANK role of
        None \<Rightarrow> best
      | Some r \<Rightarrow>
          (case best of
             None \<Rightarrow> Some role
           | Some b \<Rightarrow> if get_or PLATFORM_RANK b 0 < r then Some role else best))"

definition highest_from :: "string option \<Rightarrow> string list \<Rightarrow> string option" where
  "highest_from = foldl pick_higher"

definition highest_platform_role :: "string list \<Rightarrow> string option" where
  "highest_platform_role roles = highest_from None roles"

definition effective_role :: "string \<Rightarrow> (string \<rightharpoonup> string) \<Rightarrow> string \<Rightarrow> string" where
  "effective_role platform_role agent_roles agent =
     (if is_admin platform_role then ADMIN
      else or_else (opt_str (agent_roles agent)) NO_ACCESS)"

definition row_role :: "(string \<rightharpoonup> string) \<Rightarrow> string \<Rightarrow> string" where
  "row_role agent_roles agent = or_else (opt_str (agent_roles agent)) NO_ACCESS"

definition acting_role :: "string \<Rightarrow> (string \<rightharpoonup> string) \<Rightarrow> string \<Rightarrow> string" where
  "acting_role platform_role agent_roles agent =
     or_else (effective_role platform_role agent_roles agent) VIEWER"

definition may_mutate_shared :: "string \<Rightarrow> bool \<Rightarrow> bool" where
  "may_mutate_shared role own = (if can_manage role then True else role = EDITOR \<and> own)"

definition label :: "string \<Rightarrow> string" where
  "label role = (if RANK role \<noteq> None \<or> PLATFORM_RANK role \<noteq> None then role else VIEWER)"

lemmas role_questions = is_admin_def is_creator_or_above_def can_manage_def can_edit_def
  can_write_workspace_def allowed_on_shared_only_def

section \<open>Facts\<close>

lemma can_manage_edit: "can_manage r \<Longrightarrow> can_edit r"
  by (auto simp: role_questions role_tables)

lemma can_edit_workspace: "can_edit r \<Longrightarrow> can_write_workspace r"
  by (auto simp: role_questions role_tables)

lemma can_manage_workspace: "can_manage r \<Longrightarrow> can_write_workspace r"
  by (rule can_edit_workspace, rule can_manage_edit)

lemma is_admin_manage: "is_admin r \<Longrightarrow> can_manage r"
  by (auto simp: role_questions role_tables)

lemma viewer_not_workspace [simp]: "\<not> can_write_workspace VIEWER"
  by (simp add: role_questions role_tables word_defs)

lemma RANK_cases:
  "RANK r = (if r = VIEWER then Some 0 else if r = CONTRIBUTOR then Some 1
     else if r = EDITOR then Some 2 else if r = MANAGER then Some 3
     else if r = ADMIN then Some 4 else None)"
  by (simp add: role_tables)

lemma PLATFORM_RANK_cases:
  "PLATFORM_RANK r = (if r = MEMBER then Some 0 else if r = CREATOR then Some 1
     else if r = ADMIN then Some 2 else None)"
  by (simp add: role_tables)

lemma role_words_distinct [simp]:
  "ADMIN \<noteq> VIEWER" "ADMIN \<noteq> CONTRIBUTOR" "ADMIN \<noteq> EDITOR" "ADMIN \<noteq> MANAGER"
  "MANAGER \<noteq> VIEWER" "MANAGER \<noteq> CONTRIBUTOR" "MANAGER \<noteq> EDITOR" "MANAGER \<noteq> ADMIN"
  "EDITOR \<noteq> VIEWER" "EDITOR \<noteq> CONTRIBUTOR" "EDITOR \<noteq> MANAGER" "EDITOR \<noteq> ADMIN"
  "CONTRIBUTOR \<noteq> VIEWER" "CONTRIBUTOR \<noteq> EDITOR" "CONTRIBUTOR \<noteq> MANAGER"
  "CONTRIBUTOR \<noteq> ADMIN" "VIEWER \<noteq> CONTRIBUTOR" "VIEWER \<noteq> EDITOR" "VIEWER \<noteq> MANAGER"
  "VIEWER \<noteq> ADMIN" "ADMIN \<noteq> []" "MANAGER \<noteq> []" "EDITOR \<noteq> []" "CONTRIBUTOR \<noteq> []"
  "VIEWER \<noteq> []" "[] \<noteq> ADMIN" "[] \<noteq> MANAGER" "[] \<noteq> EDITOR" "[] \<noteq> CONTRIBUTOR"
  "[] \<noteq> VIEWER"
  by (simp_all add: word_defs)

lemma tier_floors:
  "can_write_workspace r = meets_floor r CONTRIBUTOR" "can_edit r = meets_floor r EDITOR"
  "can_manage r = meets_floor r MANAGER" "is_admin r = meets_floor r ADMIN"
  by (auto simp: role_questions OWNER_TIER_def EDITOR_TIER_def WORKSPACE_TIER_def
      meets_floor_def rank_def get_or_def RANK_cases or_else_def)

section \<open>A tier as an interface\<close>

text \<open>What the mounts and the path gate use of a tier: it is the set of roles at or above a known
  floor.\<close>

locale role_tier =
  fixes holds :: "string \<Rightarrow> bool" and floor :: string
  assumes floor_known: "RANK floor \<noteq> None"
    and floor_of: "holds r = meets_floor r floor"
begin

lemma holds_rank: "holds r \<longleftrightarrow> rank floor \<le> rank r"
  using floor_known
  by (auto simp: floor_of meets_floor_def or_else_def rank_def get_or_def Let_def RANK_cases
      split: if_splits)

lemma mono: "holds r \<Longrightarrow> rank r \<le> rank r' \<Longrightarrow> holds r'"
  by (simp add: holds_rank)

lemma capped: "holds (capped r c) \<longleftrightarrow> holds r \<and> holds c"
  by (auto simp: holds_rank capped_def)

end

locale nested_tiers = weak: role_tier weak weak_floor + strong: role_tier strong strong_floor
  for weak weak_floor strong strong_floor +
  assumes floors: "rank weak_floor \<le> rank strong_floor"
begin

lemma nested: "strong r \<Longrightarrow> weak r"
  using floors by (simp add: weak.holds_rank strong.holds_rank)

end

interpretation workspace_tier: role_tier can_write_workspace CONTRIBUTOR
  by unfold_locales (simp_all add: tier_floors RANK_cases)

interpretation editor_tier: role_tier can_edit EDITOR
  by unfold_locales (simp_all add: tier_floors RANK_cases)

interpretation owner_tier: role_tier can_manage MANAGER
  by unfold_locales (simp_all add: tier_floors RANK_cases)

interpretation admin_tier: role_tier is_admin ADMIN
  by unfold_locales (simp_all add: tier_floors RANK_cases)

interpretation owner_in_editor: nested_tiers can_edit EDITOR can_manage MANAGER
  by unfold_locales (simp add: rank_def get_or_def RANK_cases)

text \<open>The tiers are rank floors: over every word, known or not, a role is in the
  workspace, editor or owner tier, or the admin, exactly when it clears the contributor,
  editor, manager or admin floor; and the viewer floor, like an empty floor, is cleared by
  every word.\<close>

theorem tiers_are_rank_floors:
  "can_write_workspace r = meets_floor r CONTRIBUTOR \<and>
   can_edit r = meets_floor r EDITOR \<and>
   can_manage r = meets_floor r MANAGER \<and>
   is_admin r = meets_floor r ADMIN \<and>
   meets_floor r VIEWER \<and> meets_floor r []"
  using tier_floors [of r]
  by (auto simp: meets_floor_def rank_def get_or_def RANK_cases or_else_def)

lemma highest_from_step [simp]:
  "highest_from best [] = best"
  "highest_from best (r # rs) = highest_from (pick_higher best r) rs"
  by (simp_all add: highest_from_def)

abbreviation prank :: "string \<Rightarrow> nat" where "prank r \<equiv> get_or PLATFORM_RANK r 0"

definition strongest :: "string set \<Rightarrow> string option \<Rightarrow> bool" where
  "strongest R best \<longleftrightarrow> (case best of
       None \<Rightarrow> \<forall>r \<in> R. PLATFORM_RANK r = None
     | Some h \<Rightarrow> h \<in> R \<and> PLATFORM_RANK h \<noteq> None \<and> (\<forall>r \<in> R. prank r \<le> prank h))"

lemma strongest_pick: "strongest R best \<Longrightarrow> strongest (insert role R) (pick_higher best role)"
proof (cases "PLATFORM_RANK role")
  case None
  assume "strongest R best"
  with None show ?thesis
    by (auto simp: strongest_def pick_higher_def get_or_def split: option.splits)
next
  case (Some k)
  then have k: "prank role = k" by (simp add: get_or_def)
  assume s: "strongest R best"
  show ?thesis
  proof (cases best)
    case None
    with s have "\<forall>r \<in> R. prank r = 0" by (simp add: strongest_def get_or_def)
    with None Some show ?thesis by (auto simp: strongest_def pick_higher_def)
  next
    case (Some b)
    with s k \<open>PLATFORM_RANK role = Some k\<close> show ?thesis
      by (auto simp: strongest_def pick_higher_def)
  qed
qed

lemma strongest_highest_from:
  "strongest R best \<Longrightarrow> strongest (R \<union> set roles) (highest_from best roles)"
proof (induction roles arbitrary: R best)
  case (Cons r rs)
  from Cons.IH [OF strongest_pick [OF Cons.prems, of r]] show ?case by simp
qed simp

text \<open>The OIDC group fold: \<open>highest_platform_role\<close> answers one of the given words that is
  a platform role and that no given platform role outranks, and \<open>None\<close> exactly when no given
  word is a platform role.\<close>

theorem highest_platform_role_correct:
  "case highest_platform_role roles of
     None \<Rightarrow> list_all (\<lambda>r. r \<notin> set PLATFORM_BY_RANK) roles
   | Some h \<Rightarrow> h \<in> set roles \<inter> set PLATFORM_BY_RANK \<and>
       list_all (\<lambda>r. get_or PLATFORM_RANK r 0 \<le> get_or PLATFORM_RANK h 0) roles"
proof -
  have known: "PLATFORM_RANK r = None \<longleftrightarrow> r \<notin> set PLATFORM_BY_RANK" for r
    by (simp add: PLATFORM_RANK_cases PLATFORM_BY_RANK_def)
  have "strongest {} None" by (simp add: strongest_def)
  from strongest_highest_from [OF this, of roles] show ?thesis
    by (simp add: highest_platform_role_def strongest_def known list_all_iff split: option.splits)
qed

lemma capped_rank: "rank (capped r c) = min (rank r) (rank c)"
  by (simp add: capped_def)

lemma effective_role_admin: "effective_role p rows a = ADMIN \<longleftrightarrow> is_admin p \<or> rows a = Some ADMIN"
  by (auto simp: effective_role_def is_admin_def or_else_def opt_str_def NO_ACCESS_def
      split: option.splits)

lemma acting_role_nonempty: "acting_role p rows a \<noteq> []"
  by (simp add: acting_role_def or_else_def)

lemma may_mutate_shared_edit: "may_mutate_shared r own \<Longrightarrow> can_edit r"
  by (auto simp: may_mutate_shared_def role_questions role_tables split: if_splits)

end
