(* ===== verification/Layout.thy ===== *)
theory Layout
  imports Prelude
begin

text \<open>
  \<open>proxy/core/layout.py\<close>: the agent tree's folder names, the sandbox-virtual roots, and the
  rule between a virtual path and its place under an agent directory. A host \<open>Path\<close> is its
  list of parts; the satellite translation works on strings, as the code does.
\<close>

definition USERS :: string where [word_defs]: "USERS = ''users''"
definition WORKSPACE :: string where [word_defs]: "WORKSPACE = ''workspace''"
definition KNOWLEDGE :: string where [word_defs]: "KNOWLEDGE = ''knowledge''"
definition CONFIG :: string where [word_defs]: "CONFIG = ''config''"
definition CONTEXT :: string where [word_defs]: "CONTEXT = ''context''"
definition CREDENTIALS_DIR :: string where [word_defs]: "CREDENTIALS_DIR = ''.credentials''"

definition HEADS :: "string list" where "HEADS = [USERS, WORKSPACE, KNOWLEDGE, CONFIG]"
definition FILE_HEADS :: "string list" where "FILE_HEADS = [WORKSPACE, KNOWLEDGE, USERS]"
definition USER_SUBDIRS :: "string list" where "USER_SUBDIRS = [WORKSPACE, CONTEXT]"

definition V_USERS :: string where [word_defs]: "V_USERS = ''/users''"
definition V_WORKSPACE :: string where [word_defs]: "V_WORKSPACE = ''/workspace''"
definition V_KNOWLEDGE :: string where [word_defs]: "V_KNOWLEDGE = ''/knowledge''"
definition V_CONFIG :: string where [word_defs]: "V_CONFIG = ''/config''"
definition TREE_ROOTS :: "string list" where
  "TREE_ROOTS = [V_USERS, V_WORKSPACE, V_KNOWLEDGE, V_CONFIG]"

section \<open>Relative and virtual spellings\<close>

definition user_rel :: "string \<Rightarrow> string" where
  "user_rel username = USERS @ ''/'' @ username"

definition scope_root :: "string \<Rightarrow> string" where
  "scope_root username = (if username \<noteq> [] then user_rel username else WORKSPACE)"

definition scope_workspace :: "string \<Rightarrow> string" where
  "scope_workspace username =
     (if username \<noteq> [] then user_rel username @ ''/'' @ WORKSPACE else WORKSPACE)"

definition virtual_user_root :: "string \<Rightarrow> string" where
  "virtual_user_root username = V_USERS @ ''/'' @ username"

definition virtual_workspace :: "string \<Rightarrow> string" where
  "virtual_workspace username =
     (if username \<noteq> [] then virtual_user_root username @ ''/'' @ WORKSPACE else V_WORKSPACE)"

section \<open>Host compositions\<close>

definition user_dir :: "string list \<Rightarrow> string \<Rightarrow> string list" where
  "user_dir agent_dir username = path_div (path_div agent_dir USERS) username"

definition workspace_dir :: "string list \<Rightarrow> string \<Rightarrow> string list" where
  "workspace_dir agent_dir username =
     (if username \<noteq> [] then path_div (user_dir agent_dir username) WORKSPACE
      else path_div agent_dir WORKSPACE)"

definition context_dir :: "string list \<Rightarrow> string \<Rightarrow> string list" where
  "context_dir agent_dir username = path_div (user_dir agent_dir username) CONTEXT"

definition state_dir :: "string list \<Rightarrow> string \<Rightarrow> string \<Rightarrow> string list" where
  "state_dir agent_dir username name =
     path_div (if username \<noteq> [] then user_dir agent_dir username
               else path_div agent_dir WORKSPACE) name"

section \<open>Questions about an agent-relative path\<close>

definition head_of :: "string \<Rightarrow> string" where
  "head_of rel = (let first = hd (split_on SLASH rel) in if first \<in> set HEADS then first else [])"

definition is_personal :: "string \<Rightarrow> bool" where
  "is_personal rel = starts_with rel (USERS @ ''/'')"

definition user_of :: "string \<Rightarrow> string" where
  "user_of rel = (case split_on SLASH (lstrip_char SLASH rel) of
       p0 # p1 # _ \<Rightarrow> if p0 = USERS then p1 else []
     | _ \<Rightarrow> [])"

definition under :: "string \<Rightarrow> string \<Rightarrow> bool" where
  "under path root = (path = root \<or> starts_with path (root @ ''/''))"

section \<open>The satellite's translation\<close>

fun translate_state_dirs :: "string \<Rightarrow> string \<Rightarrow> string \<Rightarrow> string list \<Rightarrow> string option" where
  "translate_state_dirs p base username [] = None"
| "translate_state_dirs p base username (name # names) =
     (let root = ''/'' @ name in
      if under p root then
        (let sfx = drop (length root) p in
         if username \<noteq> [] then
           Some (base @ ''/'' @ USERS @ ''/'' @ username @ ''/'' @ name @ sfx)
         else Some (base @ ''/'' @ WORKSPACE @ ''/'' @ name @ sfx))
      else translate_state_dirs p base username names)"

definition host_of_virtual :: "string \<Rightarrow> string \<Rightarrow> string \<Rightarrow> string list \<Rightarrow> string" where
  "host_of_virtual p agent_dir username state_dirs =
     (let base = rstrip_char SLASH agent_dir in
      case translate_state_dirs p base username state_dirs of
        Some h \<Rightarrow> h
      | None \<Rightarrow> if (\<exists>root \<in> set TREE_ROOTS. under p root) then base @ p else p)"

section \<open>Facts\<close>

lemma under_refl [simp]: "under p p"
  by (simp add: under_def)

lemma under_child [simp]: "under (p @ ''/'' @ q) p"
  by (simp add: under_def starts_with_def)

lemma under_segment:
  assumes "CHR ''/'' \<notin> set name"
  shows "under p (''/'' @ name) \<longleftrightarrow>
    starts_with p ''/'' \<and> hd (split_on SLASH (tl p)) = name"
proof
  assume "under p (''/'' @ name)"
  with assms show "starts_with p ''/'' \<and> hd (split_on SLASH (tl p)) = name"
    by (auto simp: under_def starts_with_def prefix_def split_on_single split_on_append_sep)
next
  assume a: "starts_with p ''/'' \<and> hd (split_on SLASH (tl p)) = name"
  then obtain q where p: "p = CHR ''/'' # q" by (auto simp: starts_with_def prefix_def)
  obtain rest where s: "split_on SLASH q = name # rest"
    using a p by (cases "split_on SLASH q") auto
  have "q = join_on [SLASH] (name # rest)" using join_split [of SLASH q] s by simp
  then show "under p (''/'' @ name)"
    by (cases rest) (auto simp: p under_def starts_with_def)
qed

lemma head_not_slash:
  "CHR ''/'' \<notin> set USERS" "CHR ''/'' \<notin> set WORKSPACE"
  "CHR ''/'' \<notin> set KNOWLEDGE" "CHR ''/'' \<notin> set CONFIG"
  by (simp_all add: word_defs)

lemma virtual_of_scope: "virtual_workspace u = ''/'' @ scope_workspace u"
  by (simp add: virtual_workspace_def scope_workspace_def virtual_user_root_def user_rel_def
      word_defs)

lemma user_of_user_rel:
  assumes "u \<noteq> []" "CHR ''/'' \<notin> set u"
  shows "user_of (user_rel u) = u"
    and "user_of (user_rel u @ ''/'' @ r) = u"
  using assms
  by (auto simp: user_of_def user_rel_def USERS_def lstrip_char_def split_on_single
      split_on_append_sep)

lemma translate_state_dirs_scope:
  "translate_state_dirs p base u names = Some h \<Longrightarrow> starts_with h (base @ ''/'' @ scope_root u @ ''/'')"
  by (induction names)
    (auto simp: Let_def scope_root_def user_rel_def starts_with_def prefix_def split: if_splits)

text \<open>The satellite translation confines every path it rewrites: the result is the input
  itself, or it lies under the agent directory it was given; and a path under none of the
  virtual roots and none of the state directories passes through unchanged.\<close>

theorem host_of_virtual_confined:
  "(host_of_virtual p agent_dir u dirs = p \<or>
     starts_with (host_of_virtual p agent_dir u dirs) (rstrip_char SLASH agent_dir @ ''/'')) \<and>
   ((\<forall>root \<in> set TREE_ROOTS. \<not> under p root) \<and> (\<forall>d \<in> set dirs. \<not> under p (''/'' @ d))
     \<longrightarrow> host_of_virtual p agent_dir u dirs = p)"
proof (intro conjI)
  let ?b = "rstrip_char SLASH agent_dir"
  have none: "(\<forall>d \<in> set dirs. \<not> under p (''/'' @ d)) \<Longrightarrow> translate_state_dirs p ?b u dirs = None"
    by (induction dirs) (auto simp: Let_def)
  have root: "root \<in> set TREE_ROOTS \<Longrightarrow> under p root \<Longrightarrow> starts_with p ''/''" for root
    by (auto simp: TREE_ROOTS_def word_defs under_def starts_with_def prefix_def)
  show "host_of_virtual p agent_dir u dirs = p \<or>
     starts_with (host_of_virtual p agent_dir u dirs) (?b @ ''/'')"
  proof (cases "translate_state_dirs p ?b u dirs")
    case (Some h)
    from translate_state_dirs_scope [OF Some] show ?thesis
      by (auto simp: host_of_virtual_def Some Let_def starts_with_def prefix_def)
  next
    case None
    with root show ?thesis
      by (auto simp: host_of_virtual_def Let_def starts_with_def prefix_def)
  qed
  show "(\<forall>root \<in> set TREE_ROOTS. \<not> under p root) \<and> (\<forall>d \<in> set dirs. \<not> under p (''/'' @ d))
     \<longrightarrow> host_of_virtual p agent_dir u dirs = p"
    using none by (simp add: host_of_virtual_def Let_def)
qed

theorem host_of_virtual_confined_witness:
  "host_of_virtual ''/etc/hosts'' ''/srv/a'' ''bob'' [''.claude''] = ''/etc/hosts''"
proof -
  have "(\<forall>root \<in> set TREE_ROOTS. \<not> under ''/etc/hosts'' root) \<and>
      (\<forall>d \<in> set [''.claude'']. \<not> under ''/etc/hosts'' (''/'' @ d))"
    by (simp add: TREE_ROOTS_def word_defs under_def starts_with_def)
  then show ?thesis 
    using host_of_virtual_confined by blast
qed

end
