(* ===== verification/ToolRoles.thy ===== *)
theory ToolRoles
  imports Prelude
begin

text \<open>
  \<open>proxy/core/events/tool_roles.py\<close>: the platform's tool vocabulary. A tool's role says what
  a call does, its payload what the call carries and under which input keys, and a shell has
  a dialect. The tables are association lists in the source's order; a tool input is a dict
  (an association list of JSON values) or, where the code checks \<open>isinstance\<close>, \<open>None\<close> for
  anything that is no dict.
\<close>

section \<open>The tables\<close>

definition SHELL :: string where [word_defs]: "SHELL = ''shell''"
definition READ :: string where [word_defs]: "READ = ''read''"
definition GLOB :: string where [word_defs]: "GLOB = ''glob''"
definition SEARCH :: string where [word_defs]: "SEARCH = ''search''"
definition WRITE :: string where [word_defs]: "WRITE = ''write''"
definition DELETE :: string where [word_defs]: "DELETE = ''delete''"
definition WEB_FETCH :: string where [word_defs]: "WEB_FETCH = ''web_fetch''"
definition WEB_SEARCH :: string where [word_defs]: "WEB_SEARCH = ''web_search''"
definition SUBAGENT :: string where [word_defs]: "SUBAGENT = ''subagent''"
definition CHECKLIST :: string where [word_defs]: "CHECKLIST = ''todo''"
definition TASK_READ :: string where [word_defs]: "TASK_READ = ''task_read''"
definition TASK_WRITE :: string where [word_defs]: "TASK_WRITE = ''task_write''"
definition DISCOVERY :: string where [word_defs]: "DISCOVERY = ''discovery''"
definition SKILL :: string where [word_defs]: "SKILL = ''skill''"
definition WORKFLOW :: string where [word_defs]: "WORKFLOW = ''workflow''"
definition PLAN_ENTER :: string where [word_defs]: "PLAN_ENTER = ''plan_enter''"
definition PLAN_EXIT :: string where [word_defs]: "PLAN_EXIT = ''plan_exit''"
definition QUESTION :: string where [word_defs]: "QUESTION = ''question''"
definition ESCALATION :: string where [word_defs]: "ESCALATION = ''escalation''"

definition ROLES :: "string list" where
  "ROLES = [SHELL, READ, GLOB, SEARCH, WRITE, DELETE, WEB_FETCH, WEB_SEARCH, SUBAGENT, CHECKLIST, TASK_READ, TASK_WRITE, DISCOVERY, SKILL, WORKFLOW, PLAN_ENTER, PLAN_EXIT, QUESTION, ESCALATION]"

text \<open>Payload kinds: what a call carries.\<close>

definition COMMAND :: string where [word_defs]: "COMMAND = ''command''"
definition FILE_PATH :: string where [word_defs]: "FILE_PATH = ''file_path''"
definition SEARCH_PATH :: string where [word_defs]: "SEARCH_PATH = ''path''"
definition PATCH :: string where [word_defs]: "PATCH = ''patch''"
definition URL :: string where [word_defs]: "URL = ''url''"
definition QUERY :: string where [word_defs]: "QUERY = ''query''"
definition NAME :: string where [word_defs]: "NAME = ''name''"
definition DESCRIPTION :: string where [word_defs]: "DESCRIPTION = ''description''"
definition TODOS :: string where [word_defs]: "TODOS = ''todos''"
definition NONE :: string where [word_defs]: "NONE = []"

definition PAYLOAD_KEYS :: "(string \<times> string list) list" where
  "PAYLOAD_KEYS =
    [(COMMAND, [''command'']),
     (FILE_PATH, [''file_path'', ''notebook_path'']),
     (SEARCH_PATH, [''path'']),
     (PATCH, [''command'', ''patch'', ''input'', ''patch_text'']),
     (URL, [''url'']),
     (QUERY, [''query'']),
     (NAME, [''name'']),
     (DESCRIPTION, [''description'']),
     (TODOS, [''todos''])]"

definition SHELL_PAYLOAD_KEYS :: "string list" where
  "SHELL_PAYLOAD_KEYS = [''command'', ''cmd'', ''script'']"

definition POSIX :: string where [word_defs]: "POSIX = ''posix''"
definition POWERSHELL :: string where [word_defs]: "POWERSHELL = ''powershell''"

definition TOOL_ROLES :: "(string \<times> string) list" where
  "TOOL_ROLES =
    [(''Bash'', SHELL),
     (''Monitor'', SHELL),
     (''PowerShell'', SHELL),
     (''Read'', READ),
     (''Glob'', GLOB),
     (''Grep'', SEARCH),
     (''Write'', WRITE),
     (''Edit'', WRITE),
     (''MultiEdit'', WRITE),
     (''NotebookEdit'', WRITE),
     (''apply_patch'', WRITE),
     (''Delete'', DELETE),
     (''WebFetch'', WEB_FETCH),
     (''WebSearch'', WEB_SEARCH),
     (''web_search'', WEB_SEARCH),
     (''Agent'', SUBAGENT),
     (''Task'', SUBAGENT),
     (''TodoWrite'', CHECKLIST),
     (''TodoRead'', CHECKLIST),
     (''TaskGet'', TASK_READ),
     (''TaskList'', TASK_READ),
     (''TaskOutput'', TASK_READ),
     (''TaskCreate'', TASK_WRITE),
     (''TaskUpdate'', TASK_WRITE),
     (''TaskStop'', TASK_WRITE),
     (''ToolSearch'', DISCOVERY),
     (''tool_search'', DISCOVERY),
     (''Skill'', SKILL),
     (''Workflow'', WORKFLOW),
     (''EnterPlanMode'', PLAN_ENTER),
     (''ExitPlanMode'', PLAN_EXIT),
     (''AskUserQuestion'', QUESTION),
     (''request_user_input'', QUESTION),
     (''request_user_input_async'', QUESTION),
     (''CodexEscalation'', ESCALATION),
     (''CodexTerminalInput'', ESCALATION),
     (''view_image'', READ),
     (''spawn_agent'', SUBAGENT),
     (''send_input'', SUBAGENT),
     (''resume_agent'', SUBAGENT),
     (''wait_agent'', SUBAGENT),
     (''close_agent'', SUBAGENT),
     (''list_mcp_resources'', DISCOVERY),
     (''list_mcp_resource_templates'', DISCOVERY),
     (''read_mcp_resource'', DISCOVERY)]"

definition TOOL_PAYLOADS :: "(string \<times> string) list" where
  "TOOL_PAYLOADS =
    [(''Bash'', COMMAND),
     (''Monitor'', COMMAND),
     (''PowerShell'', COMMAND),
     (''Read'', FILE_PATH),
     (''Glob'', SEARCH_PATH),
     (''Grep'', SEARCH_PATH),
     (''Write'', FILE_PATH),
     (''Edit'', FILE_PATH),
     (''MultiEdit'', FILE_PATH),
     (''NotebookEdit'', FILE_PATH),
     (''apply_patch'', PATCH),
     (''Delete'', FILE_PATH),
     (''WebFetch'', URL),
     (''WebSearch'', QUERY),
     (''web_search'', QUERY),
     (''Agent'', DESCRIPTION),
     (''Task'', DESCRIPTION),
     (''TodoWrite'', TODOS),
     (''TodoRead'', NONE),
     (''TaskGet'', NONE),
     (''TaskList'', NONE),
     (''TaskOutput'', NONE),
     (''TaskCreate'', NONE),
     (''TaskUpdate'', NONE),
     (''TaskStop'', NONE),
     (''ToolSearch'', QUERY),
     (''tool_search'', QUERY),
     (''Skill'', NAME),
     (''Workflow'', NAME),
     (''EnterPlanMode'', NONE),
     (''ExitPlanMode'', NONE),
     (''AskUserQuestion'', NONE),
     (''request_user_input'', NONE),
     (''request_user_input_async'', NONE),
     (''CodexEscalation'', NONE),
     (''CodexTerminalInput'', NONE),
     (''view_image'', SEARCH_PATH),
     (''spawn_agent'', NONE),
     (''send_input'', NONE),
     (''resume_agent'', NONE),
     (''wait_agent'', NONE),
     (''close_agent'', NONE),
     (''list_mcp_resources'', NONE),
     (''list_mcp_resource_templates'', NONE),
     (''read_mcp_resource'', NONE)]"

definition SHELL_DIALECTS :: "(string \<times> string) list" where
  "SHELL_DIALECTS = [(''Bash'', POSIX), (''Monitor'', POSIX), (''PowerShell'', POWERSHELL)]"

section \<open>The questions\<close>

definition role_of :: "string \<Rightarrow> string" where
  "role_of name = get_or (lookup TOOL_ROLES) name []"

definition payload_of :: "string \<Rightarrow> string" where
  "payload_of name = get_or (lookup TOOL_PAYLOADS) name NONE"

definition dialect_of :: "string \<Rightarrow> string" where
  "dialect_of name = get_or (lookup SHELL_DIALECTS) name []"

definition is_known :: "string \<Rightarrow> bool" where
  "is_known name = (lookup TOOL_ROLES name \<noteq> None)"

definition names_of :: "string \<Rightarrow> string list" where
  "names_of role = map fst (filter (\<lambda>(n, r). r = role) TOOL_ROLES)"

definition writes :: "string \<Rightarrow> bool" where
  "writes name = (role_of name \<in> {WRITE, DELETE})"

definition payload_key :: "string \<Rightarrow> dict option \<Rightarrow> string" where
  "payload_key name tool_input = (case tool_input of
       None \<Rightarrow> []
     | Some d \<Rightarrow>
         (case List.find (\<lambda>k. nonempty_str (dget d k) \<noteq> None)
                 (get_or (lookup PAYLOAD_KEYS) (payload_of name) []) of
            None \<Rightarrow> [] | Some k \<Rightarrow> k))"

definition payload_value :: "string \<Rightarrow> dict option \<Rightarrow> string" where
  "payload_value name tool_input =
     (let key = payload_key name tool_input
      in if key = [] then [] else opt_str (nonempty_str (dget (the tool_input) key)))"

definition carries_command :: "dict option \<Rightarrow> bool" where
  "carries_command tool_input = (case tool_input of
       None \<Rightarrow> False
     | Some d \<Rightarrow> (\<exists>k \<in> set SHELL_PAYLOAD_KEYS. nonempty_str (dget d k) \<noteq> None))"

section \<open>Facts\<close>

text \<open>The two tables read as one conditional each, so a role is decided by evaluation.\<close>

lemma role_of_cases: "role_of n = (case lookup TOOL_ROLES n of None \<Rightarrow> [] | Some r \<Rightarrow> r)"
  by (simp add: role_of_def get_or_def)

lemma role_in_table: "role_of n \<noteq> [] \<Longrightarrow> (n, role_of n) \<in> set TOOL_ROLES"
  by (auto simp: role_of_cases split: option.splits dest: lookup_SomeD)

lemma payload_in_table: "payload_of n \<noteq> [] \<Longrightarrow> (n, payload_of n) \<in> set TOOL_PAYLOADS"
  by (auto simp: payload_of_def get_or_def NONE_def split: option.splits dest: lookup_SomeD)

lemma tool_tables_same_names: "map fst TOOL_ROLES = map fst TOOL_PAYLOADS"
  by (simp add: TOOL_ROLES_def TOOL_PAYLOADS_def)

lemma is_known_role: "is_known n \<longleftrightarrow> role_of n \<noteq> []"
proof -
  have "\<forall>(m, r) \<in> set TOOL_ROLES. r \<noteq> []"
    by (simp add: TOOL_ROLES_def word_defs)
  then show ?thesis
    by (auto simp: is_known_def role_of_cases split: option.splits dest!: lookup_SomeD)
qed

lemma payload_key_found:
  assumes "payload_key n (Some d) = k" "k \<noteq> []"
  shows "nonempty_str (dget d k) \<noteq> None"
    and "k \<in> set (get_or (lookup PAYLOAD_KEYS) (payload_of n) [])"
  using assms
  by (auto simp: payload_key_def find_Some_iff split: option.splits)

lemma payload_keys_nonempty: "k \<in> set (get_or (lookup PAYLOAD_KEYS) p []) \<Longrightarrow> k \<noteq> []"
proof (cases "lookup PAYLOAD_KEYS p")
  case (Some ks)
  have all: "\<forall>e \<in> set PAYLOAD_KEYS. \<forall>k \<in> set (snd e). k \<noteq> []"
    by (simp add: PAYLOAD_KEYS_def)
  assume "k \<in> set (get_or (lookup PAYLOAD_KEYS) p [])"
  with Some have "k \<in> set (snd (p, ks))" by (simp add: get_or_def)
  with all lookup_SomeD [OF Some] show ?thesis by blast
qed (simp add: get_or_def)

lemma payload_value_Nil_iff: "payload_value n inp = [] \<longleftrightarrow> payload_key n inp = []"
proof (cases inp)
  case None
  then show ?thesis by (simp add: payload_value_def payload_key_def)
next
  case (Some d)
  show ?thesis
  proof (cases "payload_key n (Some d) = []")
    case False
    from payload_key_found(1) [OF refl False]
    obtain v where v: "nonempty_str (dget d (payload_key n (Some d))) = Some v" by blast
    then have "v \<noteq> []" by (simp add: nonempty_str_Some)
    with False Some v show ?thesis by (simp add: payload_value_def Let_def)
  qed (simp add: Some payload_value_def)
qed

text \<open>What the gates read from a call: a non-empty payload value is the string under a key
  of the tool's payload kind, and no earlier key of that kind held a non-empty string; an empty
  one means that no key of the kind holds a non-empty string.\<close>

theorem payload_value_first_key:
  "(let keys = get_or (lookup PAYLOAD_KEYS) (payload_of n) [];
        v = payload_value n (Some d)
    in (v = [] \<and> (\<forall>k \<in> set keys. nonempty_str (dget d k) = None)) \<or>
       (\<exists>pre k post. keys = pre @ k # post \<and> dget d k = Some (JStr v) \<and> v \<noteq> [] \<and>
          (\<forall>k' \<in> set pre. nonempty_str (dget d k') = None)))"
proof -
  let ?keys = "get_or (lookup PAYLOAD_KEYS) (payload_of n) []"
  let ?has = "\<lambda>k. nonempty_str (dget d k) \<noteq> None"
  show ?thesis
  proof (cases "List.find ?has ?keys")
    case None
    then have none: "\<forall>k \<in> set ?keys. nonempty_str (dget d k) = None"
      by (simp add: find_None_iff)
    from None have "payload_value n (Some d) = []"
      by (simp add: payload_value_def payload_key_def)
    with none show ?thesis by (simp add: Let_def)
  next
    case (Some k)
    then obtain i where i: "i < length ?keys" "?has (?keys ! i)" "k = ?keys ! i"
      "\<forall>j < i. \<not> ?has (?keys ! j)" by (auto simp: find_Some_iff)
    then have k: "k \<noteq> []" using payload_keys_nonempty [of k "payload_of n"] nth_mem [of i ?keys] by simp
    from i(2,3) obtain v where v: "dget d k = Some (JStr v)" "v \<noteq> []"
      by (auto simp: nonempty_str_Some)
    have "payload_value n (Some d) = v"
      using Some k v by (simp add: payload_value_def payload_key_def nonempty_str_def
          split: list.splits)
    moreover have "?keys = take i ?keys @ k # drop (Suc i) ?keys"
      using i(1,3) by (simp add: id_take_nth_drop)
    moreover have "\<forall>k' \<in> set (take i ?keys). nonempty_str (dget d k') = None"
      using i(1,4) by (auto simp: in_set_conv_nth)
    ultimately show ?thesis using v unfolding Let_def by blast
  qed
qed

theorem payload_value_first_key_witness:
  "payload_value ''Bash'' (Some [(''command'', JStr ''ls'')]) = ''ls'' \<and>
   (\<exists>k. dget [(''command'', JStr ''ls'')] k = Some (JStr ''ls''))"
proof -
  have p: "payload_of ''Bash'' = COMMAND"
    by (simp add: payload_of_def get_or_def TOOL_PAYLOADS_def)
  have keys: "get_or (lookup PAYLOAD_KEYS) COMMAND [] = [''command'']"
    by (simp add: get_or_def PAYLOAD_KEYS_def word_defs)
  have v: "payload_value ''Bash'' (Some [(''command'', JStr ''ls'')]) = ''ls''"
    by (simp add: payload_value_def payload_key_def p keys dget_def nonempty_str_def)
  show ?thesis
    using payload_value_first_key [of "''Bash''" "[(''command'', JStr ''ls'')]"]
    unfolding p keys v Let_def by auto
qed

text \<open>The names of the three roles whose payload the gates rely on.\<close>

lemma shell_names: "role_of n = SHELL \<longleftrightarrow> n \<in> {''Bash'', ''Monitor'', ''PowerShell''}"
proof
  assume "role_of n = SHELL"
  then have "(n, SHELL) \<in> set TOOL_ROLES" using role_in_table [of n] by (simp add: SHELL_def)
  then show "n \<in> {''Bash'', ''Monitor'', ''PowerShell''}"
    by (simp add: TOOL_ROLES_def word_defs)
next
  have "role_of ''Bash'' = SHELL" "role_of ''Monitor'' = SHELL" "role_of ''PowerShell'' = SHELL"
    by (simp_all add: role_of_cases TOOL_ROLES_def)
  then show "n \<in> {''Bash'', ''Monitor'', ''PowerShell''} \<Longrightarrow> role_of n = SHELL"
    by blast
qed

lemma shell_payloads:
  "payload_of ''Bash'' = COMMAND" "payload_of ''Monitor'' = COMMAND"
  "payload_of ''PowerShell'' = COMMAND"
  by (simp_all add: payload_of_def get_or_def TOOL_PAYLOADS_def)

lemma writer_names:
  "writes n \<Longrightarrow> n \<in> {''Write'', ''Edit'', ''MultiEdit'', ''NotebookEdit'', ''apply_patch'', ''Delete''}"
proof -
  assume "writes n"
  then have "(n, WRITE) \<in> set TOOL_ROLES \<or> (n, DELETE) \<in> set TOOL_ROLES"
    using role_in_table [of n] by (auto simp: writes_def word_defs)
  then show ?thesis by (simp add: TOOL_ROLES_def word_defs)
qed

lemma writer_payloads:
  "payload_of ''Write'' = FILE_PATH" "payload_of ''Edit'' = FILE_PATH"
  "payload_of ''MultiEdit'' = FILE_PATH" "payload_of ''NotebookEdit'' = FILE_PATH"
  "payload_of ''apply_patch'' = PATCH" "payload_of ''Delete'' = FILE_PATH"
  by (simp_all add: payload_of_def get_or_def TOOL_PAYLOADS_def)

text \<open>The tables agree: a name has a shell dialect exactly when its role is shell, a shell
  carries a command, and every tool that writes by path or patch carries a file path or a
  patch.\<close>

theorem tool_tables_consistent:
  "(dialect_of n \<noteq> []) = (role_of n = SHELL) \<and>
   (role_of n = SHELL \<longrightarrow> payload_of n = COMMAND) \<and>
   (writes n \<longrightarrow> payload_of n \<in> {FILE_PATH, PATCH})"
proof (intro conjI impI)
  show "(dialect_of n \<noteq> []) = (role_of n = SHELL)"
    unfolding shell_names
    by (simp add: dialect_of_def get_or_def SHELL_DIALECTS_def POSIX_def POWERSHELL_def)
  show "role_of n = SHELL \<Longrightarrow> payload_of n = COMMAND"
    unfolding shell_names using shell_payloads by blast
  show "writes n \<Longrightarrow> payload_of n \<in> {FILE_PATH, PATCH}"
    using writer_names [of n] writer_payloads by blast
qed

theorem tool_tables_consistent_witness:
  "role_of ''Bash'' = SHELL \<and> payload_of ''Bash'' = COMMAND \<and>
   writes ''Edit'' \<and> payload_of ''Edit'' \<in> {FILE_PATH, PATCH}"
proof -
  have "role_of ''Bash'' = SHELL" "writes ''Edit''"
    by (simp_all add: writes_def role_of_cases TOOL_ROLES_def)
  then show ?thesis using tool_tables_consistent by blast
qed

end
