(* ===== verification/PermissionModes.thy ===== *)
theory PermissionModes
  imports Prelude
begin

text \<open>
  \<open>proxy/core/permission_modes.py\<close>: the words a chat's permission mode holds, the words of
  releases before 1.9, and Claude Code's own word for each. The words stay strings because the
  vocabularies overlap: the stored unattended word is spelled like Claude Code's auto word.
\<close>

definition ASK_MODE :: string where [word_defs]: "ASK_MODE = ''ask''"
definition AUTO_REVIEW_MODE :: string where [word_defs]: "AUTO_REVIEW_MODE = ''autoReview''"
definition DONT_ASK_MODE :: string where [word_defs]: "DONT_ASK_MODE = ''dontAsk''"
definition PLAN_MODE :: string where [word_defs]: "PLAN_MODE = ''plan''"
definition UNATTENDED_MODE :: string where [word_defs]: "UNATTENDED_MODE = ''auto''"
definition JUDGE_MODE :: string where [word_defs]: "JUDGE_MODE = ''judge''"

definition PERMISSION_MODES :: "string list" where
  "PERMISSION_MODES = [ASK_MODE, AUTO_REVIEW_MODE, DONT_ASK_MODE, PLAN_MODE]"

definition LEGACY_MODES :: "(string \<times> string) list" where
  "LEGACY_MODES = [(''default'', ASK_MODE), (''acceptEdits'', AUTO_REVIEW_MODE)]"

definition CLI_MODES :: "(string \<times> string) list" where
  "CLI_MODES =
    [(ASK_MODE, ''default''), (AUTO_REVIEW_MODE, ''auto''), (DONT_ASK_MODE, ''dontAsk''),
     (PLAN_MODE, ''plan''), (UNATTENDED_MODE, ''default'')]"

definition STORED_ONLY_MODES :: "string list" where
  "STORED_ONLY_MODES = [UNATTENDED_MODE, JUDGE_MODE]"

definition current_mode :: "string \<Rightarrow> string" where
  "current_mode word = get_or (lookup LEGACY_MODES) word word"

definition entry_mode :: "string \<Rightarrow> string list \<Rightarrow> string" where
  "entry_mode word offered =
     (let w = current_mode word in
      if w \<in> set offered then w
      else case offered of [] \<Rightarrow> ASK_MODE | m # _ \<Rightarrow> m)"

definition offered_mode :: "string \<Rightarrow> string list \<Rightarrow> string" where
  "offered_mode word offered =
     (let w = current_mode word in
      if w \<in> set STORED_ONLY_MODES then w
      else entry_mode (or_else w AUTO_REVIEW_MODE) offered)"

text \<open>The task is read for its \<open>permission_mode\<close> attribute alone (absent reads as empty).\<close>

definition task_run_mode :: "string \<Rightarrow> string" where
  "task_run_mode task_permission_mode =
     (if task_permission_mode = AUTO_REVIEW_MODE then AUTO_REVIEW_MODE else UNATTENDED_MODE)"

definition cli_mode :: "string \<Rightarrow> string" where
  "cli_mode mode = get_or (lookup CLI_MODES) (current_mode mode) ''default''"

definition terminal_mode :: "string \<Rightarrow> string" where
  "terminal_mode mode =
     (let word = cli_mode mode in if word \<in> {''auto'', ''plan''} then word else ''default'')"

definition chat_row :: "(string \<rightharpoonup> string) \<Rightarrow> (string \<rightharpoonup> string)" where
  "chat_row row =
     (case row ''permission_mode'' of
        None \<Rightarrow> row
      | Some m \<Rightarrow>
          (case lookup LEGACY_MODES m of
             None \<Rightarrow> row
           | Some m' \<Rightarrow> row(''permission_mode'' \<mapsto> m')))"

section \<open>Facts\<close>

lemma mode_words_distinct [simp]:
  "ASK_MODE \<noteq> AUTO_REVIEW_MODE" "ASK_MODE \<noteq> DONT_ASK_MODE" "ASK_MODE \<noteq> PLAN_MODE"
  "ASK_MODE \<noteq> UNATTENDED_MODE" "ASK_MODE \<noteq> JUDGE_MODE"
  "AUTO_REVIEW_MODE \<noteq> ASK_MODE" "AUTO_REVIEW_MODE \<noteq> DONT_ASK_MODE"
  "AUTO_REVIEW_MODE \<noteq> PLAN_MODE" "AUTO_REVIEW_MODE \<noteq> UNATTENDED_MODE"
  "AUTO_REVIEW_MODE \<noteq> JUDGE_MODE"
  "DONT_ASK_MODE \<noteq> ASK_MODE" "DONT_ASK_MODE \<noteq> AUTO_REVIEW_MODE" "DONT_ASK_MODE \<noteq> PLAN_MODE"
  "DONT_ASK_MODE \<noteq> UNATTENDED_MODE" "DONT_ASK_MODE \<noteq> JUDGE_MODE"
  "PLAN_MODE \<noteq> ASK_MODE" "PLAN_MODE \<noteq> AUTO_REVIEW_MODE" "PLAN_MODE \<noteq> DONT_ASK_MODE"
  "PLAN_MODE \<noteq> UNATTENDED_MODE" "PLAN_MODE \<noteq> JUDGE_MODE"
  "UNATTENDED_MODE \<noteq> ASK_MODE" "UNATTENDED_MODE \<noteq> AUTO_REVIEW_MODE"
  "UNATTENDED_MODE \<noteq> DONT_ASK_MODE" "UNATTENDED_MODE \<noteq> PLAN_MODE"
  "UNATTENDED_MODE \<noteq> JUDGE_MODE"
  "JUDGE_MODE \<noteq> ASK_MODE" "JUDGE_MODE \<noteq> AUTO_REVIEW_MODE" "JUDGE_MODE \<noteq> DONT_ASK_MODE"
  "JUDGE_MODE \<noteq> PLAN_MODE" "JUDGE_MODE \<noteq> UNATTENDED_MODE"
  by (simp_all add: word_defs)

lemma current_mode_cases:
  "current_mode w = (if w = ''default'' then ASK_MODE
     else if w = ''acceptEdits'' then AUTO_REVIEW_MODE else w)"
  by (simp add: current_mode_def get_or_def LEGACY_MODES_def)

lemma current_mode_not_legacy: "current_mode w \<notin> {''default'', ''acceptEdits''}"
  by (simp add: current_mode_cases word_defs)

lemma current_mode_idem: "current_mode (current_mode w) = current_mode w"
  using current_mode_not_legacy [of w] by (simp add: current_mode_cases [of "current_mode w"])

lemma entry_mode_offered: "offered \<noteq> [] \<Longrightarrow> entry_mode w offered \<in> set offered"
  by (auto simp: entry_mode_def Let_def split: list.split)

lemma entry_mode_fixed: "w \<in> set offered \<Longrightarrow> current_mode w = w \<Longrightarrow> entry_mode w offered = w"
  by (simp add: entry_mode_def)

lemma PERMISSION_MODES_current: "m \<in> set PERMISSION_MODES \<Longrightarrow> current_mode m = m"
  by (auto simp: PERMISSION_MODES_def current_mode_cases word_defs)

text \<open>A mode enters clean: against an engine's non-empty offer of picked modes,
  \<open>entry_mode\<close> answers an offered mode, \<open>offered_mode\<close> an offered mode or one of the two
  stored-only words, neither is ever a pre-1.9 word, and applying \<open>offered_mode\<close> again to its
  own answer changes nothing.\<close>

theorem mode_entry_closed:
  assumes "offered \<noteq> []" and "set offered \<subseteq> set PERMISSION_MODES"
  shows "entry_mode w offered \<in> set offered \<and>
    offered_mode w offered \<in> set offered \<union> set STORED_ONLY_MODES \<and>
    entry_mode w offered \<notin> fst ` set LEGACY_MODES \<and>
    offered_mode w offered \<notin> fst ` set LEGACY_MODES \<and>
    offered_mode (offered_mode w offered) offered = offered_mode w offered"
proof -
  let ?m = "offered_mode w offered"
  from assms(1) have e: "entry_mode v offered \<in> set offered" for v by (rule entry_mode_offered)
  have m: "?m \<in> set offered \<union> set STORED_ONLY_MODES"
    using e by (auto simp: offered_mode_def Let_def)
  have pm: "v \<in> set PERMISSION_MODES \<union> set STORED_ONLY_MODES \<Longrightarrow> v \<notin> fst ` set LEGACY_MODES" for v
    by (auto simp: PERMISSION_MODES_def STORED_ONLY_MODES_def LEGACY_MODES_def word_defs)
  have fix_m: "offered_mode v offered = v" if "v \<in> set offered \<union> set STORED_ONLY_MODES" for v
  proof (cases "v \<in> set STORED_ONLY_MODES")
    case True
    then have "current_mode v = v"
      by (auto simp: STORED_ONLY_MODES_def current_mode_cases word_defs)
    with True show ?thesis by (simp add: offered_mode_def)
  next
    case False
    with that assms(2) have v: "v \<in> set offered" "v \<in> set PERMISSION_MODES" by auto
    then have "current_mode v = v" "v \<noteq> []"
      using PERMISSION_MODES_current by (auto simp: PERMISSION_MODES_def word_defs)
    with v False show ?thesis by (simp add: offered_mode_def or_else_def entry_mode_def)
  qed
  show ?thesis using e [of w] m pm fix_m [OF m] assms(2) by blast
qed

theorem mode_entry_closed_witness:
  "entry_mode ''acceptEdits'' [ASK_MODE, PLAN_MODE] \<in> set [ASK_MODE, PLAN_MODE] \<and>
   offered_mode ''acceptEdits'' [ASK_MODE, PLAN_MODE] = ASK_MODE"
proof -
  have "[ASK_MODE, PLAN_MODE] \<noteq> []" "set [ASK_MODE, PLAN_MODE] \<subseteq> set PERMISSION_MODES"
    by (simp_all add: PERMISSION_MODES_def)
  note closed = mode_entry_closed [OF this, of "''acceptEdits''"]
  have "offered_mode ''acceptEdits'' [ASK_MODE, PLAN_MODE] = ASK_MODE"
    by (simp add: offered_mode_def entry_mode_def current_mode_cases STORED_ONLY_MODES_def
        or_else_def word_defs)
  with closed show ?thesis by blast
qed

lemma chat_row_mode: "chat_row row ''permission_mode'' = map_option current_mode (row ''permission_mode'')"
  by (auto simp: chat_row_def current_mode_def get_or_def split: option.splits)

lemma terminal_mode_words: "terminal_mode m \<in> {''auto'', ''plan'', ''default''}"
  by (simp add: terminal_mode_def Let_def)

text \<open>The terminal never starts in a mode that silences Claude Code's own prompts: its
  starting word is auto, plan or default, auto exactly for the review mode and plan exactly for
  the plan mode, so a chat stored as Don't Ask, unattended or judge starts in the asking mode.\<close>

theorem terminal_mode_asks:
  "terminal_mode m \<in> {''auto'', ''plan'', ''default''} \<and>
   (terminal_mode m = ''auto'') = (current_mode m = AUTO_REVIEW_MODE) \<and>
   (terminal_mode m = ''plan'') = (current_mode m = PLAN_MODE)"
proof -
  have t: "terminal_mode m = (if current_mode m = AUTO_REVIEW_MODE then ''auto''
      else if current_mode m = PLAN_MODE then ''plan'' else ''default'')"
    by (simp add: terminal_mode_def cli_mode_def CLI_MODES_def get_or_def Let_def)
  show ?thesis unfolding t by simp
qed

end
