(* ===== verification/SessionKind.thy ===== *)
theory SessionKind
  imports Prelude
begin

text \<open>
  \<open>proxy/core/session/session_kind.py\<close>: who drives a session, the kind of a chat row, and the
  spelling a turn's driver is recorded under. A chat row is a map from column names to strings;
  a missing column, an empty one and \<open>None\<close> read alike, as in the code.
\<close>

record session_kind =
  name :: string
  source_type :: string
  mints_chat :: bool
  attended_kind :: bool
  external_driven :: bool
  judged_kind :: bool

definition DASHBOARD :: session_kind where
  "DASHBOARD = \<lparr>name = ''dashboard'', source_type = ''chat'', mints_chat = True,
     attended_kind = True, external_driven = False, judged_kind = True\<rparr>"
definition PHONE :: session_kind where
  "PHONE = \<lparr>name = ''phone'', source_type = ''phone'', mints_chat = True,
     attended_kind = False, external_driven = True, judged_kind = False\<rparr>"
definition TASK :: session_kind where
  "TASK = \<lparr>name = ''task'', source_type = ''task'', mints_chat = True,
     attended_kind = False, external_driven = False, judged_kind = True\<rparr>"
definition MEETING :: session_kind where
  "MEETING = \<lparr>name = ''meeting'', source_type = ''meeting'', mints_chat = False,
     attended_kind = False, external_driven = False, judged_kind = False\<rparr>"
definition TRIGGER :: session_kind where
  "TRIGGER = \<lparr>name = ''trigger'', source_type = [], mints_chat = False,
     attended_kind = False, external_driven = False, judged_kind = False\<rparr>"
definition INTERNAL :: session_kind where
  "INTERNAL = \<lparr>name = ''internal'', source_type = [], mints_chat = False,
     attended_kind = False, external_driven = False, judged_kind = False\<rparr>"
definition APP :: session_kind where
  "APP = \<lparr>name = ''app'', source_type = [], mints_chat = False,
     attended_kind = False, external_driven = False, judged_kind = False\<rparr>"

lemmas kind_defs = DASHBOARD_def PHONE_def TASK_def MEETING_def TRIGGER_def INTERNAL_def APP_def

definition KINDS :: "session_kind list" where
  "KINDS = [DASHBOARD, PHONE, TASK, MEETING, TRIGGER, INTERNAL, APP]"

definition BY_NAME :: "(string \<times> session_kind) list" where
  "BY_NAME = map (\<lambda>k. (name k, k)) KINDS"

definition BY_ROW_SOURCE_TYPE :: "(string \<times> session_kind) list" where
  "BY_ROW_SOURCE_TYPE = map (\<lambda>k. (source_type k, k)) (filter mints_chat KINDS)"

definition TASK_CHAT_ID_PREFIX :: string where [word_defs]: "TASK_CHAT_ID_PREFIX = ''task-''"
definition SHARED_CHAT_OWNER_PREFIX :: string where
  [word_defs]: "SHARED_CHAT_OWNER_PREFIX = ''agent::''"
definition TASK_CHAT_OWNER_PREFIX :: string where
  [word_defs]: "TASK_CHAT_OWNER_PREFIX = ''task::''"

definition EXTERNAL_DRIVEN_SOURCE_TYPES :: "string list" where
  "EXTERNAL_DRIVEN_SOURCE_TYPES = map source_type (filter external_driven KINDS)"

definition STEERABLE_SOURCE_TYPES :: "string list" where
  "STEERABLE_SOURCE_TYPES = map source_type [DASHBOARD, TASK]"

definition kind_of :: "string \<Rightarrow> session_kind option" where
  "kind_of client_type = lookup BY_NAME client_type"

definition attended :: "string \<Rightarrow> bool" where
  "attended client_type =
     (case kind_of client_type of None \<Rightarrow> True | Some k \<Rightarrow> attended_kind k)"

definition judged :: "string \<Rightarrow> bool" where
  "judged client_type =
     (case kind_of client_type of None \<Rightarrow> True | Some k \<Rightarrow> judged_kind k)"

definition source_types :: "session_kind list \<Rightarrow> string list" where
  "source_types kinds = filter (\<lambda>s. s \<noteq> []) (map source_type kinds)"

definition task_chat_id :: "string \<Rightarrow> string" where
  "task_chat_id run_id = TASK_CHAT_ID_PREFIX @ run_id"

definition is_task_chat_id :: "string \<Rightarrow> bool" where
  "is_task_chat_id chat_id = starts_with chat_id TASK_CHAT_ID_PREFIX"

definition run_id_of_chat :: "string \<Rightarrow> string" where
  "run_id_of_chat chat_id =
     (if \<not> is_task_chat_id chat_id then [] else drop (length TASK_CHAT_ID_PREFIX) chat_id)"

type_synonym row = "string \<rightharpoonup> string"

definition col :: "row \<Rightarrow> string \<Rightarrow> string" where
  "col r c = opt_str (r c)"

definition of_chat :: "row option \<Rightarrow> session_kind" where
  "of_chat chat =
     (let r = (case chat of None \<Rightarrow> Map.empty | Some r \<Rightarrow> r); v = col r ''source_type'' in
      if v \<noteq> [] \<and> v \<noteq> source_type DASHBOARD
        then (case lookup BY_ROW_SOURCE_TYPE v of None \<Rightarrow> DASHBOARD | Some k \<Rightarrow> k)
      else if is_task_chat_id (col r ''id'') then TASK
      else DASHBOARD)"

definition driver_source_type :: "string \<Rightarrow> row option \<Rightarrow> string" where
  "driver_source_type client_type chat =
     (case kind_of client_type of
        Some k \<Rightarrow>
          (if source_type k \<noteq> [] then source_type k
           else if external_driven (of_chat chat) then source_type (of_chat chat)
           else source_type DASHBOARD)
      | None \<Rightarrow>
          (if external_driven (of_chat chat) then source_type (of_chat chat)
           else source_type DASHBOARD))"

section \<open>Facts\<close>

lemma kind_of_name: "kind_of c = Some k \<Longrightarrow> k \<in> set KINDS \<and> name k = c"
  by (auto simp: kind_of_def BY_NAME_def dest!: lookup_SomeD)

lemma of_chat_cases: "of_chat c \<in> {DASHBOARD, PHONE, TASK}"
  by (simp add: of_chat_def Let_def BY_ROW_SOURCE_TYPE_def KINDS_def kind_defs split: option.split)

lemma run_id_round_trip [simp]: "run_id_of_chat (task_chat_id r) = r"
  by (simp add: run_id_of_chat_def task_chat_id_def is_task_chat_id_def)

lemma task_chat_id_of_run: "is_task_chat_id c \<Longrightarrow> task_chat_id (run_id_of_chat c) = c"
  by (simp add: is_task_chat_id_def run_id_of_chat_def task_chat_id_def starts_with_drop)

text \<open>Task chat ids: minting a chat id from a run id and reading the run id back is the
  identity, the two directions are inverse on task-shaped ids, distinct runs get distinct chats,
  and no other id carries a run.\<close>

theorem task_chat_id_round_trip:
  "run_id_of_chat (task_chat_id r) = r \<and> is_task_chat_id (task_chat_id r) \<and>
   (is_task_chat_id c \<longrightarrow> task_chat_id (run_id_of_chat c) = c) \<and>
   (\<not> is_task_chat_id c \<longrightarrow> run_id_of_chat c = []) \<and>
   (task_chat_id r = task_chat_id r' \<longrightarrow> r = r')"
  using task_chat_id_of_run [of c] is_task_chat_id_def [of "task_chat_id r"]
  by (auto simp: run_id_of_chat_def task_chat_id_def)

theorem task_chat_id_round_trip_witness:
  "task_chat_id (run_id_of_chat ''task-r1'') = ''task-r1'' \<and> run_id_of_chat ''chat-r1'' = []"
proof -
  have "is_task_chat_id ''task-r1''" "\<not> is_task_chat_id ''chat-r1''"
    by (simp_all add: is_task_chat_id_def starts_with_def word_defs)
  then show ?thesis using task_chat_id_round_trip by blast
qed

text \<open>Steering safety: the pump spelling of a turn driven into a session is always one of
  the four live spellings; a phone chat whose session kind was never recorded keeps an
  externally driven spelling (the dashboard never attaches to it), which is never one of the
  steerable spellings.\<close>

theorem driver_source_type_safe:
  "driver_source_type c chat \<in> {''chat'', ''phone'', ''task'', ''meeting''} \<and>
   (kind_of c = None \<and> of_chat chat = PHONE \<longrightarrow>
      driver_source_type c chat \<in> set EXTERNAL_DRIVEN_SOURCE_TYPES) \<and>
   set EXTERNAL_DRIVEN_SOURCE_TYPES \<inter> set STEERABLE_SOURCE_TYPES = {}"
proof -
  have ext: "source_type k = ''phone''" if "external_driven k" "k \<in> {DASHBOARD, PHONE, TASK}" for k
    using that by (auto simp: kind_defs)
  have st: "source_type k \<in> {''chat'', ''phone'', ''task'', ''meeting'', []}" if "k \<in> set KINDS" for k
    using that by (auto simp: KINDS_def kind_defs)
  have "driver_source_type c chat \<in> {''chat'', ''phone'', ''task'', ''meeting''}"
  proof (cases "kind_of c")
    case None
    then show ?thesis using ext [OF _ of_chat_cases]
      by (simp add: driver_source_type_def DASHBOARD_def)
  next
    case (Some k)
    with kind_of_name st have "source_type k \<in> {''chat'', ''phone'', ''task'', ''meeting'', []}" by blast
    with Some show ?thesis using ext [OF _ of_chat_cases]
      by (auto simp: driver_source_type_def DASHBOARD_def)
  qed
  moreover have "kind_of c = None \<and> of_chat chat = PHONE \<longrightarrow>
      driver_source_type c chat \<in> set EXTERNAL_DRIVEN_SOURCE_TYPES"
    by (simp add: driver_source_type_def EXTERNAL_DRIVEN_SOURCE_TYPES_def KINDS_def kind_defs)
  moreover have "set EXTERNAL_DRIVEN_SOURCE_TYPES \<inter> set STEERABLE_SOURCE_TYPES = {}"
    by (simp add: EXTERNAL_DRIVEN_SOURCE_TYPES_def STEERABLE_SOURCE_TYPES_def KINDS_def kind_defs)
  ultimately show ?thesis by blast
qed

theorem driver_source_type_safe_witness:
  "driver_source_type [] (Some [''source_type'' \<mapsto> ''phone'']) \<in> set EXTERNAL_DRIVEN_SOURCE_TYPES"
proof -
  have "kind_of [] = None"
    by (simp add: kind_of_def BY_NAME_def KINDS_def kind_defs)
  moreover have "of_chat (Some [''source_type'' \<mapsto> ''phone'']) = PHONE"
    by (simp add: of_chat_def Let_def col_def BY_ROW_SOURCE_TYPE_def KINDS_def kind_defs)
  ultimately show ?thesis using driver_source_type_safe by blast
qed

end
