(* ===== verification/Principals.thy ===== *)
theory Principals
  imports Roles
begin

text \<open>
  \<open>proxy/auth/providers/__init__.py\<close>: the request's principal (\<open>UserContext\<close>), the credential
  timeline a cookie or a session token is judged by, the resolution of a request to a principal,
  and the guards the routes ask.

  The database reads and the two signature checks the module calls are functions of a record
  \<open>env\<close>. A timestamp column is what \<open>datetime.fromisoformat\<close> makes of it, in microseconds;
  \<open>iat\<close> is whole seconds, or \<open>None\<close> when the claim is not an integer.
\<close>

datatype principal_kind = KIND_COOKIE | KIND_SERVICE | KIND_USER_SESSION | KIND_AGENT_SESSION

definition SESSION_SUB_PREFIX :: string where [word_defs]: "SESSION_SUB_PREFIX = ''session:''"
definition API_KEY_SUB :: string where [word_defs]: "API_KEY_SUB = ''api-key''"

record user_context =
  u_sub :: string
  u_email :: string
  u_name :: string
  u_role :: string
  u_agents :: "string list"
  u_default_agent :: string
  u_display_name :: string
  u_is_api_key :: bool
  u_agent_roles :: "(string \<times> string) list"
  u_auth_provider :: string
  u_is_owner :: bool
  u_session_id :: string
  u_agent :: string
  u_external_claim :: string
  u_external_channel :: string
  u_external_id :: string
  u_render_app :: string
  u_render_jti :: string
  u_auth_gate :: string

text \<open>A context with every optional field at its default.\<close>

definition new_context :: "string \<Rightarrow> string \<Rightarrow> string \<Rightarrow> string \<Rightarrow> user_context" where
  "new_context s e n r =
     \<lparr>u_sub = s, u_email = e, u_name = n, u_role = r, u_agents = [], u_default_agent = [],
      u_display_name = [], u_is_api_key = False, u_agent_roles = [], u_auth_provider = ''local'',
      u_is_owner = False, u_session_id = [], u_agent = [], u_external_claim = [],
      u_external_channel = [], u_external_id = [], u_render_app = [], u_render_jti = [],
      u_auth_gate = []\<rparr>"

section \<open>The questions\<close>

definition uc_is_admin :: "user_context \<Rightarrow> bool" where
  "uc_is_admin u = is_admin (u_role u)"

definition kind :: "user_context \<Rightarrow> principal_kind" where
  "kind u =
     (if \<not> u_is_api_key u then KIND_COOKIE
      else if u_sub u = API_KEY_SUB then KIND_SERVICE
      else if starts_with (u_sub u) SESSION_SUB_PREFIX then KIND_AGENT_SESSION
      else KIND_USER_SESSION)"

definition is_service :: "user_context \<Rightarrow> bool" where
  "is_service u = (kind u = KIND_SERVICE)"

definition is_session :: "user_context \<Rightarrow> bool" where
  "is_session u = (kind u = KIND_USER_SESSION \<or> kind u = KIND_AGENT_SESSION)"

definition is_no_user_session :: "user_context \<Rightarrow> bool" where
  "is_no_user_session u = (kind u = KIND_AGENT_SESSION)"

definition is_external :: "user_context \<Rightarrow> bool" where
  "is_external u = (u_external_claim u \<noteq> [] \<and> is_no_user_session u)"

definition acting_sub :: "user_context \<Rightarrow> string option" where
  "acting_sub u =
     (if u_sub u = API_KEY_SUB then None
      else if is_no_user_session u then None
      else Some (u_sub u))"

definition can_access_agent :: "user_context \<Rightarrow> string \<Rightarrow> bool" where
  "can_access_agent u a =
     (uc_is_admin u \<or> a \<in> set (u_agents u) \<or>
      (is_session u \<and> u_agent u \<noteq> [] \<and> a = u_agent u))"

definition uc_effective_role :: "user_context \<Rightarrow> string \<Rightarrow> string" where
  "uc_effective_role u a = effective_role (u_role u) (lookup (u_agent_roles u)) a"

definition uc_acting_role :: "user_context \<Rightarrow> string \<Rightarrow> string" where
  "uc_acting_role u a = acting_role (u_role u) (lookup (u_agent_roles u)) a"

definition can_manage_agent :: "user_context \<Rightarrow> string \<Rightarrow> bool" where
  "can_manage_agent u a = can_manage (uc_effective_role u a)"

definition can_edit_agent :: "user_context \<Rightarrow> string \<Rightarrow> bool" where
  "can_edit_agent u a = can_edit (uc_effective_role u a)"

definition sees_agent_automations :: "user_context \<Rightarrow> string \<Rightarrow> bool" where
  "sees_agent_automations u a =
     (if is_service u \<or> (is_no_user_session u \<and> \<not> is_external u) then True
      else can_edit_agent u a)"

definition uc_can_write_workspace :: "user_context \<Rightarrow> string \<Rightarrow> bool" where
  "uc_can_write_workspace u a = can_write_workspace (uc_effective_role u a)"

definition can_write_files :: "user_context \<Rightarrow> bool" where
  "can_write_files u = is_creator_or_above (u_role u)"

definition can_manage_tasks :: "user_context \<Rightarrow> bool" where
  "can_manage_tasks u = is_creator_or_above (u_role u)"

lemmas principal_defs = uc_is_admin_def kind_def is_service_def is_session_def
  is_no_user_session_def acting_sub_def

section \<open>The credential timeline\<close>

datatype stamp = NoStamp | BadStamp | Stamp int

record user_row =
  r_sub :: string
  r_email :: string
  r_name :: string
  r_role :: string
  r_display_name :: string
  r_is_owner :: bool
  r_auth_provider :: string
  r_must_change_password :: bool
  r_totp_enabled :: bool
  r_password_changed_at :: stamp
  r_token_epoch_at :: stamp
  r_created_at :: stamp

definition SECOND :: int where "SECOND = 1000000"

definition session_iat_after_password_change :: "user_row \<Rightarrow> int option \<Rightarrow> bool" where
  "session_iat_after_password_change user iat =
     (case r_password_changed_at user of
        NoStamp \<Rightarrow> True
      | BadStamp \<Rightarrow> iat \<noteq> None
      | Stamp changed \<Rightarrow>
          (case iat of None \<Rightarrow> False | Some i \<Rightarrow> i * SECOND \<ge> changed - 5 * SECOND))"

definition iso_ts :: "stamp \<Rightarrow> int option" where
  "iso_ts v = (case v of Stamp t \<Rightarrow> Some t | _ \<Rightarrow> None)"

definition after_token_epoch :: "user_row \<Rightarrow> int \<Rightarrow> bool" where
  "after_token_epoch user iat =
     (case iso_ts (r_token_epoch_at user) of None \<Rightarrow> True | Some e \<Rightarrow> iat \<ge> e div SECOND)"

definition session_token_is_current :: "user_row \<Rightarrow> int option \<Rightarrow> bool" where
  "session_token_is_current user iat =
     (case iat of
        None \<Rightarrow> True
      | Some i \<Rightarrow>
          if (case iso_ts (r_created_at user) of None \<Rightarrow> False
              | Some c \<Rightarrow> i * SECOND < c - 5 * SECOND) then False
          else if \<not> after_token_epoch user i then False
          else session_iat_after_password_change user iat)"

definition session_cookie_current :: "user_row \<Rightarrow> int option \<Rightarrow> bool" where
  "session_cookie_current user iat =
     (if \<not> session_iat_after_password_change user iat then False
      else (case iat of
              None \<Rightarrow> False
            | Some i \<Rightarrow>
                if (case iso_ts (r_created_at user) of None \<Rightarrow> False
                    | Some c \<Rightarrow> i * SECOND < c - 5 * SECOND) then False
                else after_token_epoch user i))"

section \<open>The forced password change and 2FA enrolment\<close>

definition GATE_CHANGE_PASSWORD :: string where
  [word_defs]: "GATE_CHANGE_PASSWORD = ''must_change_password''"
definition GATE_ENROLL_2FA :: string where [word_defs]: "GATE_ENROLL_2FA = ''must_enroll_2fa''"

definition GATE_EXEMPT :: "(string \<times> string) list" where
  "GATE_EXEMPT =
    [(''PUT'', ''/v1/users/me/password''),
     (''POST'', ''/v1/users/me/totp/setup''),
     (''POST'', ''/v1/users/me/totp/verify''),
     (''GET'', ''/v1/users/me/passkeys''),
     (''POST'', ''/v1/users/me/passkeys/register/options''),
     (''POST'', ''/v1/users/me/passkeys/register/verify''),
     (''GET'', ''/auth/me''),
     (''GET'', ''/auth/config''),
     (''POST'', ''/auth/logout''),
     (''POST'', ''/v1/push/subscribe'')]"

definition POLICY_OFF_TTL_S :: int where "POLICY_OFF_TTL_S = 10"
definition PASSKEY_TTL_S :: int where "PASSKEY_TTL_S = 60"
definition PASSKEY_CACHE_MAX :: nat where "PASSKEY_CACHE_MAX = 4096"

text \<open>The two module-level caches, and what the gate reads of the platform.\<close>

record gate_state =
  policy_off_until :: int
  passkey_until :: "(string \<times> int) list"

record gate_reads =
  gr_passkeys_enabled :: bool
  gr_require_2fa :: bool
  gr_credentials :: "string \<Rightarrow> nat"

definition clear_auth_gate_caches :: gate_state where
  "clear_auth_gate_caches = \<lparr>policy_off_until = 0, passkey_until = []\<rparr>"

definition has_passkey_cached :: "string \<Rightarrow> int \<Rightarrow> gate_state \<Rightarrow> bool \<times> gate_state" where
  "has_passkey_cached s now st =
     (case lookup (passkey_until st) s of
        None \<Rightarrow> (False, st)
      | Some t \<Rightarrow> if t > now then (True, st)
                  else (False, st\<lparr>passkey_until := dict_del s (passkey_until st)\<rparr>))"

definition auth_gate :: "user_row option \<Rightarrow> gate_reads \<Rightarrow> int \<Rightarrow> gate_state \<Rightarrow> string \<times> gate_state" where
  "auth_gate user rd now st =
     (case user of
        None \<Rightarrow> ([], st)
      | Some r \<Rightarrow>
          if \<not> starts_with (or_else (r_auth_provider r) ''local'') ''local'' then ([], st)
          else if r_must_change_password r then (GATE_CHANGE_PASSWORD, st)
          else if r_totp_enabled r then ([], st)
          else
            (let on = gr_passkeys_enabled rd;
                 (cached, st1) = (if policy_off_until st > now \<or> \<not> on then (False, st)
                                  else has_passkey_cached (r_sub r) now st)
             in if policy_off_until st > now \<or> cached then ([], st1)
                else if \<not> gr_require_2fa rd
                  then ([], st1\<lparr>policy_off_until := now + POLICY_OFF_TTL_S\<rparr>)
                else if on \<and> gr_credentials rd (r_sub r) > 0
                  then ([], st1\<lparr>passkey_until :=
                         dict_set (r_sub r) (now + PASSKEY_TTL_S)
                           (if length (passkey_until st1) \<ge> PASSKEY_CACHE_MAX then []
                            else passkey_until st1)\<rparr>)
                else (GATE_ENROLL_2FA, st1)))"

text \<open>The answer without the caches.\<close>

definition gate_rule :: "user_row option \<Rightarrow> gate_reads \<Rightarrow> string" where
  "gate_rule user rd =
     (case user of
        None \<Rightarrow> []
      | Some r \<Rightarrow>
          if \<not> starts_with (or_else (r_auth_provider r) ''local'') ''local'' then []
          else if r_must_change_password r then GATE_CHANGE_PASSWORD
          else if r_totp_enabled r \<or> \<not> gr_require_2fa rd \<or>
                  (gr_passkeys_enabled rd \<and> gr_credentials rd (r_sub r) > 0) then []
          else GATE_ENROLL_2FA)"

type_synonym http_error = "nat \<times> string"

definition gate_detail :: "string \<Rightarrow> string" where
  "gate_detail g = (if g = GATE_CHANGE_PASSWORD then ''Password change required''
                    else ''Two-factor enrolment required'')"

definition enforce_auth_gate :: "string \<Rightarrow> string \<Rightarrow> user_context \<Rightarrow> http_error + unit" where
  "enforce_auth_gate meth path u =
     (if (meth, path) \<in> set GATE_EXEMPT then Inr () else Inl (403, gate_detail (u_auth_gate u)))"

section \<open>Resolving a request\<close>

record token_payload =
  tp_sid :: string
  tp_agent :: string
  tp_user_sub :: string
  tp_ext :: string
  tp_iat :: "int option"

record cookie_payload =
  cp_sub :: string
  cp_auth_provider :: "string option"
  cp_iat :: "int option"

record request =
  authorization :: string
  session_cookie :: string
  render_cookie :: string

record env =
  is_master_key :: "string \<Rightarrow> bool"
  validate_session_token :: "string \<Rightarrow> token_payload option"
  session_token_refusal :: "token_payload \<Rightarrow> bool"
  validate_session_jwt :: "string \<Rightarrow> cookie_payload option"
  get_user :: "string \<Rightarrow> user_row option"
  get_user_agent_roles :: "string \<Rightarrow> (string \<times> string) list"
  get_user_default_agent :: "string \<Rightarrow> string"
  gate_of :: "user_row \<Rightarrow> string"
  parse_claim :: "string \<Rightarrow> (string \<times> string) option"
  principal_from_render_cookie :: "string \<Rightarrow> user_context option"

definition load_user :: "env \<Rightarrow> string \<Rightarrow> bool \<Rightarrow>
    user_row option \<times> (string \<times> string) list \<times> string" where
  "load_user e s with_default =
     (case get_user e s of
        None \<Rightarrow> (None, [], [])
      | Some r \<Rightarrow> (Some r, get_user_agent_roles e s,
                   if with_default then get_user_default_agent e s else []))"

definition load_cookie_user :: "env \<Rightarrow> string \<Rightarrow>
    user_row option \<times> (string \<times> string) list \<times> string \<times> string" where
  "load_cookie_user e s =
     (let (user, rows, dflt) = load_user e s True
      in (user, rows, dflt, case user of None \<Rightarrow> [] | Some r \<Rightarrow> gate_of e r))"

definition row_context :: "user_row \<Rightarrow> (string \<times> string) list \<Rightarrow> user_context" where
  "row_context r rows =
     (new_context (r_sub r) (r_email r) (r_name r) (r_role r))
       \<lparr>u_agents := map fst rows, u_display_name := r_display_name r,
        u_agent_roles := rows, u_is_owner := r_is_owner r\<rparr>"

definition user_context_for_sub :: "env \<Rightarrow> string \<Rightarrow> user_context option" where
  "user_context_for_sub e s =
     (if s = [] then None
      else (let (user, rows, _) = load_user e s False
            in case user of None \<Rightarrow> None | Some r \<Rightarrow> Some (row_context r rows)))"

definition parse_external_claim :: "env \<Rightarrow> string \<Rightarrow> (string \<times> string \<times> string)" where
  "parse_external_claim e claim =
     (if claim = [] then ([], [], [])
      else (case parse_claim e claim of
              None \<Rightarrow> ([], [], [])
            | Some (channel, ident) \<Rightarrow> (claim, channel, ident)))"

definition with_claim :: "string \<times> string \<times> string \<Rightarrow> user_context \<Rightarrow> user_context" where
  "with_claim ext u = (case ext of (c, ch, i) \<Rightarrow>
     u\<lparr>u_external_claim := c, u_external_channel := ch, u_external_id := i\<rparr>)"

text \<open>\<open>auth_header.split(' ', 1)\<close>, \<open>parts[0].lower() == 'bearer'\<close>: the token of a bearer
  header.\<close>

definition bearer_token :: "string \<Rightarrow> string option" where
  "bearer_token h =
     (let scheme = takeWhile (\<lambda>c. c \<noteq> CHR 32) h; rest = dropWhile (\<lambda>c. c \<noteq> CHR 32) h
      in if rest \<noteq> [] \<and> lower scheme = ''bearer'' then Some (tl rest) else None)"

definition master_context :: user_context where
  "master_context =
     (new_context API_KEY_SUB ''api@internal'' ''API Key'' ADMIN)\<lparr>u_is_api_key := True\<rparr>"

text \<open>A session token that validated.\<close>

definition session_principal :: "env \<Rightarrow> token_payload \<Rightarrow> user_context option" where
  "session_principal e p =
     (if session_token_refusal e p then None
      else
        (let ext = parse_external_claim e (tp_ext p)
         in if tp_user_sub p \<noteq> [] then
              (let (user, rows, _) = load_user e (tp_user_sub p) False
               in case user of
                    None \<Rightarrow> None
                  | Some r \<Rightarrow>
                      if \<not> session_token_is_current r (tp_iat p) then None
                      else Some (with_claim ext ((row_context r rows)
                             \<lparr>u_is_api_key := True, u_session_id := tp_sid p, u_agent := tp_agent p\<rparr>)))
            else Some (with_claim ext
                   ((new_context (SESSION_SUB_PREFIX @ tp_sid p) ''session@internal''
                       ''Session Token'' SERVICE)
                     \<lparr>u_is_api_key := True, u_session_id := tp_sid p, u_agent := tp_agent p\<rparr>))))"

definition cookie_principal :: "env \<Rightarrow> string \<Rightarrow> user_context option" where
  "cookie_principal e c =
     (case validate_session_jwt e c of
        None \<Rightarrow> None
      | Some p \<Rightarrow>
          (let (user, rows, dflt, gate) = load_cookie_user e (cp_sub p)
           in case user of
                None \<Rightarrow> None
              | Some r \<Rightarrow>
                  if \<not> session_cookie_current r (cp_iat p) then None
                  else Some ((row_context r rows)
                    \<lparr>u_default_agent := dflt,
                     u_auth_provider := or_else (r_auth_provider r)
                       (case cp_auth_provider p of None \<Rightarrow> ''local'' | Some a \<Rightarrow> a),
                     u_auth_gate := gate\<rparr>)))"

definition resolve_principal :: "env \<Rightarrow> request \<Rightarrow> user_context option" where
  "resolve_principal e req =
     (let cookies =
        (if session_cookie req \<noteq> [] then cookie_principal e (session_cookie req)
         else if render_cookie req \<noteq> [] then principal_from_render_cookie e (render_cookie req)
         else None)
      in case bearer_token (authorization req) of
           None \<Rightarrow> cookies
         | Some t \<Rightarrow>
             if is_master_key e t then Some master_context
             else (case validate_session_token e t of
                     Some p \<Rightarrow> session_principal e p
                   | None \<Rightarrow> cookies))"

text \<open>\<open>get_current_user\<close> for an HTTP request, first read of the connection: the resolved
  principal, refused when a gate holds it and the route is not exempt.\<close>

definition get_current_user ::
    "env \<Rightarrow> string \<Rightarrow> string \<Rightarrow> request \<Rightarrow> http_error + user_context option" where
  "get_current_user e meth path req =
     (case resolve_principal e req of
        None \<Rightarrow> Inr None
      | Some u \<Rightarrow>
          if u_auth_gate u = [] then Inr (Some u)
          else (case enforce_auth_gate meth path u of
                  Inl err \<Rightarrow> Inl err
                | Inr _ \<Rightarrow> Inr (Some u)))"

definition effective_role_of :: "env \<Rightarrow> user_row option \<Rightarrow> string \<Rightarrow> string \<Rightarrow> string" where
  "effective_role_of e fallback s a =
     (if s = [] then NO_ACCESS
      else effective_role
             (case get_user e s of Some r \<Rightarrow> r_role r
              | None \<Rightarrow> (case fallback of Some r \<Rightarrow> r_role r | None \<Rightarrow> []))
             (lookup (get_user_agent_roles e s)) a)"

definition acting_role_of :: "env \<Rightarrow> user_row option \<Rightarrow> string \<Rightarrow> string \<Rightarrow> string" where
  "acting_role_of e fallback s a = or_else (effective_role_of e fallback s a) VIEWER"

section \<open>The guards\<close>

definition require_auth :: "user_context option \<Rightarrow> http_error + user_context" where
  "require_auth user =
     (case user of None \<Rightarrow> Inl (401, ''Authentication required'') | Some u \<Rightarrow> Inr u)"

abbreviation NOT_API_KEY :: http_error where
  "NOT_API_KEY \<equiv> (403, ''User authentication required (not API key)'')"

definition require_human :: "user_context option \<Rightarrow> http_error + user_context" where
  "require_human user =
     (case require_auth user of
        Inl err \<Rightarrow> Inl err
      | Inr u \<Rightarrow> if u_is_api_key u then Inl NOT_API_KEY else Inr u)"

definition require_admin :: "user_context option \<Rightarrow> http_error + user_context" where
  "require_admin user =
     (case require_auth user of
        Inl err \<Rightarrow> Inl err
      | Inr u \<Rightarrow>
          if u_is_api_key u then Inl NOT_API_KEY
          else if \<not> uc_is_admin u then Inl (403, ''Admin access required'')
          else Inr u)"

definition require_creator :: "user_context option \<Rightarrow> http_error + user_context" where
  "require_creator user =
     (case require_auth user of
        Inl err \<Rightarrow> Inl err
      | Inr u \<Rightarrow>
          if u_is_api_key u then Inl NOT_API_KEY
          else if \<not> is_creator_or_above (u_role u) then Inl (403, ''Creator role required'')
          else Inr u)"

definition require_creator_interactive :: "user_context option \<Rightarrow> http_error + user_context" where
  "require_creator_interactive user =
     (case require_auth user of
        Inl err \<Rightarrow> Inl err
      | Inr u \<Rightarrow>
          if acting_sub u = None
            then Inl (403, ''User authentication required (not a service credential)'')
          else if \<not> is_creator_or_above (u_role u) then Inl (403, ''Creator role required'')
          else Inr u)"

definition session_bound_to :: "string \<Rightarrow> user_context option \<Rightarrow> http_error + unit" where
  "session_bound_to param user =
     (case user of
        None \<Rightarrow> Inr ()
      | Some u \<Rightarrow>
          if is_session u \<and> u_agent u \<noteq> param
            then Inl (403, ''A session acts only on the agent it was started for ('' @ [CHR 39] @ u_agent u @ [CHR 39] @ '')'')
          else Inr ())"

definition automation_agents :: "user_context \<Rightarrow> string list option" where
  "automation_agents u =
     (if uc_is_admin u \<or> sees_agent_automations u [] then None
      else Some (filter (sees_agent_automations u) (u_agents u)))"

definition require_agent_access :: "user_context \<Rightarrow> string \<Rightarrow> http_error + unit" where
  "require_agent_access u a =
     (if can_access_agent u a then Inr ()
      else Inl (403, ''Access denied for agent '' @ [CHR 39] @ a @ [CHR 39]))"

definition require_write :: "user_context \<Rightarrow> string \<Rightarrow> http_error + unit" where
  "require_write u a =
     (if a \<noteq> [] then
        (if can_manage_agent u a then Inr ()
         else Inl (403, ''Manager access required for this agent''))
      else if can_write_files u then Inr ()
      else Inl (403, ''Write access denied (member role)''))"

definition require_edit :: "user_context \<Rightarrow> string \<Rightarrow> http_error + unit" where
  "require_edit u a =
     (if can_edit_agent u a then Inr () else Inl (403, ''Editor access required for this agent''))"

definition require_editor_or_manager :: "user_context \<Rightarrow> string \<Rightarrow> http_error + unit" where
  "require_editor_or_manager u a =
     (if can_edit_agent u a then Inr ()
      else Inl (403, ''Editor or manager access required for this agent''))"

definition mask_email :: "string \<Rightarrow> string" where
  "mask_email m =
     (if CHR 64 \<notin> set m then ''***''
      else take 1 (takeWhile (\<lambda>c. c \<noteq> CHR 64) m) @ ''***@'' @ tl (dropWhile (\<lambda>c. c \<noteq> CHR 64) m))"

text \<open>A small platform the witnesses run on: one person, \<open>ann\<close>, a platform admin; the master
  key \<open>k\<close>, a no-user session token \<open>s\<close> and one of ann's, \<open>a\<close>.\<close>

definition ann_row :: user_row where
  "ann_row = \<lparr>r_sub = ''ann'', r_email = [], r_name = ''Ann'', r_role = ADMIN,
     r_display_name = [], r_is_owner = False, r_auth_provider = ''local'',
     r_must_change_password = False, r_totp_enabled = False,
     r_password_changed_at = Stamp 100000000, r_token_epoch_at = NoStamp,
     r_created_at = Stamp 1000000\<rparr>"

definition demo_token :: "string \<Rightarrow> token_payload" where
  "demo_token s = \<lparr>tp_sid = ''7'', tp_agent = ''helper'', tp_user_sub = s, tp_ext = [],
     tp_iat = Some 120\<rparr>"

definition demo_env :: env where
  "demo_env = \<lparr>is_master_key = (\<lambda>t. t = ''k''),
     validate_session_token = lookup [(''s'', demo_token []), (''a'', demo_token ''ann'')],
     session_token_refusal = (\<lambda>p. tp_sid p = []),
     validate_session_jwt = (\<lambda>c. None),
     get_user = lookup [(''ann'', ann_row)],
     get_user_agent_roles = (\<lambda>s. [(''helper'', EDITOR)]),
     get_user_default_agent = (\<lambda>s. []), gate_of = (\<lambda>r. []), parse_claim = (\<lambda>c. None),
     principal_from_render_cookie = (\<lambda>c. None)\<rparr>"

definition bearer_request :: "string \<Rightarrow> request" where
  "bearer_request t = \<lparr>authorization = ''Bearer '' @ t, session_cookie = [], render_cookie = []\<rparr>"

section \<open>Facts\<close>

lemma context_fields [simp]:
  "u_sub (new_context a b c d) = a" "u_role (new_context a b c d) = d"
  "u_is_api_key (new_context a b c d) = False" "u_agent_roles (new_context a b c d) = []"
  "u_agents (new_context a b c d) = []" "u_auth_gate (new_context a b c d) = []"
  "u_sub (row_context r rows) = r_sub r" "u_role (row_context r rows) = r_role r"
  "u_is_api_key (row_context r rows) = False" "u_agent_roles (row_context r rows) = rows"
  "u_agents (row_context r rows) = map fst rows"
  by (simp_all add: new_context_def row_context_def)

lemma with_claim_fields [simp]:
  "u_sub (with_claim x u) = u_sub u" "u_role (with_claim x u) = u_role u"
  "u_is_api_key (with_claim x u) = u_is_api_key u" "u_agent (with_claim x u) = u_agent u"
  "u_agent_roles (with_claim x u) = u_agent_roles u" "u_agents (with_claim x u) = u_agents u"
  by (simp_all add: with_claim_def split: prod.split)

lemma require_auth_Inr: "require_auth x = Inr u \<longleftrightarrow> x = Some u"
  by (simp add: require_auth_def split: option.split)

lemma require_human_Inr: "require_human x = Inr u \<longleftrightarrow> x = Some u \<and> \<not> u_is_api_key u"
  by (auto simp: require_human_def require_auth_def split: option.split)

lemma require_admin_Inr:
  "require_admin x = Inr u \<longleftrightarrow> x = Some u \<and> \<not> u_is_api_key u \<and> uc_is_admin u"
  by (auto simp: require_admin_def require_auth_def split: option.split)

lemma require_creator_Inr:
  "require_creator x = Inr u \<longleftrightarrow> x = Some u \<and> \<not> u_is_api_key u \<and> is_creator_or_above (u_role u)"
  by (auto simp: require_creator_def require_auth_def split: option.split)

lemma require_creator_interactive_Inr:
  "require_creator_interactive x = Inr u \<longleftrightarrow>
     x = Some u \<and> acting_sub u \<noteq> None \<and> is_creator_or_above (u_role u)"
  by (auto simp: require_creator_interactive_def require_auth_def split: option.split)

lemmas guard_Inr = require_auth_Inr require_human_Inr require_admin_Inr require_creator_Inr
  require_creator_interactive_Inr

lemma refusedI: "(\<And>u. g x \<noteq> Inr u) \<Longrightarrow> \<exists>err. g x = Inl err"
  by (cases "g x") auto

lemma admin_is_creator: "uc_is_admin u \<Longrightarrow> is_creator_or_above (u_role u)"
  by (simp add: uc_is_admin_def is_creator_or_above_def is_admin_def CREATOR_TIER_def)

lemma session_principal_api_key: "session_principal e p = Some u \<Longrightarrow> u_is_api_key u"
  by (auto simp: session_principal_def load_user_def Let_def split: if_splits option.splits)

lemma bearer_cases:
  assumes "bearer_token (authorization req) = Some t"
  shows "resolve_principal e req =
    (if is_master_key e t then Some master_context
     else case validate_session_token e t of Some p \<Rightarrow> session_principal e p
       | None \<Rightarrow> resolve_principal e (req\<lparr>authorization := []\<rparr>))"
  using assms
  by (simp add: resolve_principal_def bearer_token_def Let_def split: option.split)

lemma master_api_key [simp]: "u_is_api_key master_context" "u_sub master_context = API_KEY_SUB"
  by (simp_all add: master_context_def)

lemma bearer_is_api_key:
  assumes "bearer_token (authorization req) = Some t"
    and "is_master_key e t \<or> validate_session_token e t \<noteq> None"
    and "resolve_principal e req = Some u"
  shows "u_is_api_key u"
  using assms(2,3) session_principal_api_key
  by (auto simp: bearer_cases [OF assms(1)] split: if_splits option.splits)

text \<open>A key is never a person: a request whose bearer token is the master key or a valid
  session token reaches no admin, human or creator surface, whatever cookies it carries next to
  the token and whatever role the token's user has.\<close>

theorem bearer_reaches_no_human_surface:
  assumes "bearer_token (authorization req) = Some t"
    and "is_master_key e t \<or> validate_session_token e t \<noteq> None"
  shows "(\<exists>err. require_admin (resolve_principal e req) = Inl err) \<and>
    (\<exists>err. require_human (resolve_principal e req) = Inl err) \<and>
    (\<exists>err. require_creator (resolve_principal e req) = Inl err)"
  using bearer_is_api_key [OF assms]
  by (intro conjI refusedI) (auto simp: guard_Inr)

theorem bearer_reaches_no_human_surface_witness:
  "require_human (resolve_principal demo_env (bearer_request ''a'')) = Inl NOT_API_KEY \<and>
   (\<exists>err. require_admin (resolve_principal demo_env (bearer_request ''a'')) = Inl err)"
proof -
  have "bearer_token (authorization (bearer_request ''a'')) = Some ''a''" by code_simp
  moreover have "validate_session_token demo_env ''a'' \<noteq> None" by code_simp
  moreover have "require_human (resolve_principal demo_env (bearer_request ''a'')) = Inl NOT_API_KEY"
    by code_simp
  ultimately show ?thesis
    using bearer_reaches_no_human_surface [of "bearer_request ''a''" "''a''" demo_env] by blast
qed

lemma no_user_context:
  "u_is_api_key u \<Longrightarrow> u_sub u = SESSION_SUB_PREFIX @ s \<Longrightarrow> is_no_user_session u"
  by (simp add: principal_defs word_defs starts_with_def)

lemma service_role_no_tier:
  "u_role u = SERVICE \<Longrightarrow> u_agent_roles u = [] \<Longrightarrow> uc_effective_role u a = []"
  by (simp add: uc_effective_role_def effective_role_def is_admin_def word_defs or_else_def)

lemma no_tier: "\<not> can_edit []" "\<not> can_manage []" "\<not> can_write_workspace []"
  by (simp_all add: role_questions role_tables)

text \<open>The identity a session token gives: the session is current; a token without a user
  acts as nobody, has no editor, owner or workspace tier on any agent and clears no creator gate;
  a token that names a user resolves only while that user's row is there and the token is current
  for it, and then carries exactly that row's sub, platform role and agent roles.\<close>

theorem session_token_identity:
  assumes "bearer_token (authorization req) = Some t" "\<not> is_master_key e t"
    and "validate_session_token e t = Some p" "resolve_principal e req = Some u"
  shows "\<not> session_token_refusal e p \<and> u_agent u = tp_agent p \<and>
    (if tp_user_sub p = [] then
       acting_sub u = None \<and> is_no_user_session u \<and>
       (\<exists>err. require_creator_interactive (Some u) = Inl err) \<and>
       (\<forall>a. \<not> can_edit_agent u a \<and> \<not> can_manage_agent u a \<and> \<not> uc_can_write_workspace u a)
     else
       (\<exists>r. get_user e (tp_user_sub p) = Some r \<and> session_token_is_current r (tp_iat p) \<and>
          u_sub u = r_sub r \<and> u_role u = r_role r \<and>
          u_agent_roles u = get_user_agent_roles e (tp_user_sub p)))"
proof -
  have u: "session_principal e p = Some u"
    using assms by (simp add: bearer_cases [OF assms(1)])
  show ?thesis
  proof (cases "tp_user_sub p = []")
    case True
    with u have fields: "\<not> session_token_refusal e p" "u_agent u = tp_agent p" "u_is_api_key u"
      "u_sub u = SESSION_SUB_PREFIX @ tp_sid p" "u_role u = SERVICE" "u_agent_roles u = []"
      by (auto simp: session_principal_def Let_def split: if_splits)
    then have "is_no_user_session u" by (blast intro: no_user_context)
    moreover from this have "acting_sub u = None" by (simp add: acting_sub_def)
    moreover from this have "\<exists>err. require_creator_interactive (Some u) = Inl err"
      by (intro refusedI) (auto simp: guard_Inr)
    ultimately show ?thesis
      using fields True service_role_no_tier [OF fields(5,6)] no_tier
      by (simp add: can_edit_agent_def can_manage_agent_def uc_can_write_workspace_def)
  next
    case False
    with u show ?thesis
      by (auto simp: session_principal_def load_user_def Let_def split: if_splits option.splits)
  qed
qed

theorem session_token_identity_witness:
  "\<exists>u. resolve_principal demo_env (bearer_request ''s'') = Some u \<and> acting_sub u = None \<and>
     (\<exists>v r. resolve_principal demo_env (bearer_request ''a'') = Some v \<and>
        get_user demo_env ''ann'' = Some r \<and> u_role v = r_role r)"
proof -
  have b: "bearer_token (authorization (bearer_request ''s'')) = Some ''s''"
    "bearer_token (authorization (bearer_request ''a'')) = Some ''a''" by code_simp+
  have m: "\<not> is_master_key demo_env ''s''" "\<not> is_master_key demo_env ''a''" by code_simp+
  have t: "validate_session_token demo_env ''s'' = Some (demo_token [])"
    "validate_session_token demo_env ''a'' = Some (demo_token ''ann'')"
    by (simp_all add: demo_env_def)
  have "resolve_principal demo_env (bearer_request ''s'') \<noteq> None"
    "resolve_principal demo_env (bearer_request ''a'') \<noteq> None" by code_simp+
  then obtain u v where u: "resolve_principal demo_env (bearer_request ''s'') = Some u"
    and v: "resolve_principal demo_env (bearer_request ''a'') = Some v" by blast
  from session_token_identity [OF b(1) m(1) t(1) u] session_token_identity [OF b(2) m(2) t(2) v] u v
  show ?thesis by (auto simp: demo_token_def)
qed

text \<open>The guards nest: who passes the admin gate passes the creator gate with the same
  context, who passes the creator gate passes the human gate and (not being the key's sub) the
  interactive creator gate; none of them passes an anonymous request.\<close>

theorem guards_nest:
  "(require_admin x = Inr u \<longrightarrow> require_creator x = Inr u) \<and>
   (require_creator x = Inr u \<longrightarrow> require_human x = Inr u) \<and>
   (require_creator x = Inr u \<and> u_sub u \<noteq> API_KEY_SUB \<longrightarrow> require_creator_interactive x = Inr u) \<and>
   (require_creator_interactive x = Inr u \<longrightarrow> \<not> is_service u \<and> \<not> is_no_user_session u) \<and>
   require_human None = Inl (401, ''Authentication required'')"
  using admin_is_creator [of u]
  by (auto simp: guard_Inr acting_sub_def is_no_user_session_def is_service_def kind_def
      require_human_def require_auth_def split: if_splits)

theorem guards_nest_witness:
  "require_admin (Some (row_context ann_row [])) = Inr (row_context ann_row []) \<and>
   require_creator (Some (row_context ann_row [])) = Inr (row_context ann_row [])"
proof -
  have "require_admin (Some (row_context ann_row [])) = Inr (row_context ann_row [])"
    by (simp add: guard_Inr uc_is_admin_def is_admin_def ann_row_def)
  with guards_nest [of "Some (row_context ann_row [])" "row_context ann_row []"]
  show ?thesis by blast
qed

text \<open>The credential timeline: a cookie is current exactly when it carries an integer
  \<open>iat\<close> and a session token with that \<open>iat\<close> would be; and with every column a timestamp, that is
  an \<open>iat\<close> no earlier than five seconds before the password change, five seconds before the row's
  creation and the second of the token epoch.\<close>

theorem credential_timeline:
  "session_cookie_current r i = (i \<noteq> None \<and> session_token_is_current r i) \<and>
   session_cookie_current
     (r\<lparr>r_password_changed_at := Stamp pw, r_created_at := Stamp cr, r_token_epoch_at := Stamp ep\<rparr>)
     (Some n) =
   (n * 1000000 \<ge> pw - 5000000 \<and> n * 1000000 \<ge> cr - 5000000 \<and> n \<ge> ep div 1000000)"
  by (auto simp: session_cookie_current_def session_token_is_current_def iso_ts_def
      session_iat_after_password_change_def after_token_epoch_def SECOND_def split: option.splits)

lemma has_passkey_cached_simps:
  "fst (has_passkey_cached s now st) \<longleftrightarrow> (\<exists>t. lookup (passkey_until st) s = Some t \<and> now < t)"
  "policy_off_until (snd (has_passkey_cached s now st)) = policy_off_until st"
  "lookup (passkey_until (snd (has_passkey_cached s now st))) x = Some t \<Longrightarrow>
     lookup (passkey_until st) x = Some t"
  by (auto simp: has_passkey_cached_def split: option.splits if_splits)

text \<open>The answer of the gate given what the caches hold.\<close>

lemma auth_gate_answer:
  "fst (auth_gate user rd now st) =
     (if gate_rule user rd = GATE_ENROLL_2FA \<and>
         (policy_off_until st > now \<or>
          gr_passkeys_enabled rd \<and> fst (has_passkey_cached (r_sub (the user)) now st))
      then [] else gate_rule user rd)"
proof (cases user)
  case (Some r)
  obtain c st1 where h: "has_passkey_cached (r_sub r) now st = (c, st1)" by fastforce
  show ?thesis using Some h
    by (auto simp: auth_gate_def gate_rule_def Let_def word_defs)
qed (simp add: auth_gate_def gate_rule_def word_defs)

lemma auth_gate_deadlines:
  "policy_off_until (snd (auth_gate user rd now st)) \<le> max (policy_off_until st) (now + POLICY_OFF_TTL_S)"
  "lookup (passkey_until (snd (auth_gate user rd now st))) s = Some t \<Longrightarrow>
     lookup (passkey_until st) s = Some t \<or> t = now + PASSKEY_TTL_S"
proof -
  have "policy_off_until (snd (auth_gate user rd now st)) \<le>
      max (policy_off_until st) (now + POLICY_OFF_TTL_S) \<and>
    (lookup (passkey_until (snd (auth_gate user rd now st))) s = Some t \<longrightarrow>
      lookup (passkey_until st) s = Some t \<or> t = now + PASSKEY_TTL_S)"
  proof (cases user)
    case (Some r)
    obtain c st1 where h: "has_passkey_cached (r_sub r) now st = (c, st1)" by fastforce
    have h1: "policy_off_until st1 = policy_off_until st"
      "lookup (passkey_until st1) s = Some t \<Longrightarrow> lookup (passkey_until st) s = Some t"
      using has_passkey_cached_simps(2) [of "r_sub r" now st]
        has_passkey_cached_simps(3) [where s = "r_sub r" and now = now and st = st] by (simp_all add: h)
    show ?thesis using h1 POLICY_OFF_TTL_S_def
      by (cases "policy_off_until st > now \<or> \<not> gr_passkeys_enabled rd"; cases c)
        (auto simp: auth_gate_def Some h Let_def split: if_splits)
  qed (simp add: auth_gate_def)
  then show "policy_off_until (snd (auth_gate user rd now st)) \<le>
      max (policy_off_until st) (now + POLICY_OFF_TTL_S)"
    "lookup (passkey_until (snd (auth_gate user rd now st))) s = Some t \<Longrightarrow>
      lookup (passkey_until st) s = Some t \<or> t = now + PASSKEY_TTL_S"
    by blast+
qed

text \<open>The caches never impose the gate: with or without them the answer is the rule's, except
  that an enrolment due is forgiven while an unexpired cache entry says so; and no entry written
  by a call outlives ten seconds for the policy, sixty for a passkey.\<close>

theorem auth_gate_cache_sound:
  "fst (auth_gate user rd now st) \<in> {gate_rule user rd, []} \<and>
   (fst (auth_gate user rd now st) \<noteq> gate_rule user rd \<longrightarrow>
      gate_rule user rd = GATE_ENROLL_2FA \<and>
      (policy_off_until st > now \<or>
       (\<exists>t. lookup (passkey_until st) (r_sub (the user)) = Some t \<and> t > now))) \<and>
   policy_off_until (snd (auth_gate user rd now st)) \<le> max (policy_off_until st) (now + 10) \<and>
   (\<forall>s t. lookup (passkey_until (snd (auth_gate user rd now st))) s = Some t \<longrightarrow>
      lookup (passkey_until st) s = Some t \<or> t = now + 60)"
proof (intro conjI)
  note answer = auth_gate_answer [of user rd now st]
  show "fst (auth_gate user rd now st) \<in> {gate_rule user rd, []}"
    by (simp add: answer)
  show "fst (auth_gate user rd now st) \<noteq> gate_rule user rd \<longrightarrow>
      gate_rule user rd = GATE_ENROLL_2FA \<and>
      (policy_off_until st > now \<or>
       (\<exists>t. lookup (passkey_until st) (r_sub (the user)) = Some t \<and> t > now))"
    unfolding answer has_passkey_cached_simps(1) by auto
  show "policy_off_until (snd (auth_gate user rd now st)) \<le> max (policy_off_until st) (now + 10)"
    using auth_gate_deadlines(1) [of user rd now st] by (simp add: POLICY_OFF_TTL_S_def)
  show "\<forall>s t. lookup (passkey_until (snd (auth_gate user rd now st))) s = Some t \<longrightarrow>
      lookup (passkey_until st) s = Some t \<or> t = now + 60"
    using auth_gate_deadlines(2) [of user rd now st] unfolding PASSKEY_TTL_S_def by blast
qed

theorem auth_gate_cache_sound_witness:
  "fst (auth_gate (Some ann_row) \<lparr>gr_passkeys_enabled = True, gr_require_2fa = True,
      gr_credentials = (\<lambda>s. 0)\<rparr> 50 \<lparr>policy_off_until = 0, passkey_until = [(''ann'', 80)]\<rparr>) = [] \<and>
   (\<exists>t > 50. lookup [(''ann'', 80)] ''ann'' = Some (t :: int))"
proof -
  let ?rd = "\<lparr>gr_passkeys_enabled = True, gr_require_2fa = True, gr_credentials = (\<lambda>s. 0)\<rparr>"
  let ?st = "\<lparr>policy_off_until = 0, passkey_until = [(''ann'', 80)]\<rparr>"
  have a: "fst (auth_gate (Some ann_row) ?rd 50 ?st) = []" by code_simp
  have g: "gate_rule (Some ann_row) ?rd = GATE_ENROLL_2FA"
    by (simp add: gate_rule_def ann_row_def starts_with_def)
  have "fst (auth_gate (Some ann_row) ?rd 50 ?st) \<noteq> gate_rule (Some ann_row) ?rd"
    unfolding a g by (simp add: word_defs)
  with auth_gate_cache_sound [of "Some ann_row" ?rd 50 ?st] a show ?thesis
    by (simp add: ann_row_def)
qed

end
