(* ===== verification/OAuthStates.thy ===== *)
theory OAuthStates
  imports Prelude
begin

text \<open>
  \<open>proxy/auth/providers/__init__.py\<close>, the CSRF state store of a sign-in: the dict of live states
  in insertion order, the index of each client's states, and the four operations on them. The
  monotonic clock, the wall clock and the random state id are arguments; instants are whole
  seconds, on which \<open>math.ceil\<close> is the identity.
\<close>

definition STATE_TTL :: int where "STATE_TTL = 300"
definition STATE_MAX :: nat where "STATE_MAX = 10000"
definition STATE_MAX_PER_CLIENT :: nat where "STATE_MAX_PER_CLIENT = 8"

record state_args =
  a_redirect_uri :: "string option"
  a_purpose :: string
  a_sub :: string
  a_return_to :: string
  a_nonce :: string
  a_code_verifier :: string
  a_client :: string
  a_client_capped :: bool

record state_meta =
  expiry :: int
  redirect_uri :: "string option"
  purpose :: string
  m_sub :: string
  return_to :: string
  created_at :: int
  nonce :: string
  code_verifier :: string
  client :: string

record state_store =
  oauth_states :: "(string \<times> state_meta) list"
  client_states :: "(string \<times> string list) list"

datatype state_error = ClientStatesFull int | StateStoreFull int

definition empty_store :: state_store where
  "empty_store = \<lparr>oauth_states = [], client_states = []\<rparr>"

section \<open>The operations\<close>

definition forget :: "string \<Rightarrow> state_meta \<Rightarrow> (string \<times> string list) list \<Rightarrow> (string \<times> string list) list"
  where
  "forget s m cs =
     (case lookup cs (client m) of
        None \<Rightarrow> cs
      | Some ids \<Rightarrow>
          (let left = remove1 s ids
           in if left = [] then dict_del (client m) cs else dict_set (client m) left cs))"

text \<open>The loop that drops the lapsed states at the front.\<close>

fun lapse :: "int \<Rightarrow> (string \<times> state_meta) list \<Rightarrow> (string \<times> string list) list \<Rightarrow>
    (string \<times> state_meta) list \<times> (string \<times> string list) list" where
  "lapse now [] cs = ([], cs)"
| "lapse now ((s, m) # rest) cs =
     (if expiry m \<ge> now then ((s, m) # rest, cs) else lapse now rest (forget s m cs))"

definition lapse_store :: "int \<Rightarrow> state_store \<Rightarrow> state_store" where
  "lapse_store now st = (case lapse now (oauth_states st) (client_states st) of
     (os, cs) \<Rightarrow> \<lparr>oauth_states = os, client_states = cs\<rparr>)"

text \<open>The client's live ids, its index entry rewritten to them.\<close>

definition client_ids :: "string \<Rightarrow> state_store \<Rightarrow> string list" where
  "client_ids c st =
     filter (\<lambda>s. lookup (oauth_states st) s \<noteq> None) (get_or (lookup (client_states st)) c [])"

definition refresh_client :: "string \<Rightarrow> state_store \<Rightarrow> state_store" where
  "refresh_client c st =
     st\<lparr>client_states := (if client_ids c st = [] then dict_del c (client_states st)
                          else dict_set c (client_ids c st) (client_states st))\<rparr>"

definition expiry_of :: "string \<Rightarrow> state_store \<Rightarrow> int" where
  "expiry_of s st = (case lookup (oauth_states st) s of None \<Rightarrow> 0 | Some m \<Rightarrow> expiry m)"

definition new_meta :: "state_args \<Rightarrow> int \<Rightarrow> int \<Rightarrow> state_meta" where
  "new_meta a now wall =
     \<lparr>expiry = now + STATE_TTL, redirect_uri = a_redirect_uri a, purpose = a_purpose a,
      m_sub = a_sub a, return_to = a_return_to a, created_at = wall, nonce = a_nonce a,
      code_verifier = a_code_verifier a, client = a_client a\<rparr>"

definition add_state :: "string \<Rightarrow> state_meta \<Rightarrow> state_store \<Rightarrow> state_store" where
  "add_state s m st =
     \<lparr>oauth_states = dict_set s m (oauth_states st),
      client_states = (if client m = [] then client_states st
        else dict_set (client m) (get_or (lookup (client_states st)) (client m) [] @ [s])
               (client_states st))\<rparr>"

definition create_oauth_state ::
    "state_args \<Rightarrow> int \<Rightarrow> int \<Rightarrow> string \<Rightarrow> state_store \<Rightarrow> (state_error + string) \<times> state_store" where
  "create_oauth_state a now wall fresh st0 =
     (let st = lapse_store now st0;
          capped = (a_client a \<noteq> [] \<and> a_client_capped a);
          st1 = (if capped then refresh_client (a_client a) st else st);
          ids = client_ids (a_client a) st
      in if capped \<and> length ids \<ge> STATE_MAX_PER_CLIENT
           then (Inl (ClientStatesFull (max 1 (expiry_of (hd ids) st - now))), st1)
         else if length (oauth_states st1) \<ge> STATE_MAX
           then (Inl (StateStoreFull (max 1 (expiry (snd (hd (oauth_states st1))) - now))), st1)
         else (Inr fresh, add_state fresh (new_meta a now wall) st1))"

definition peek_oauth_state :: "string \<Rightarrow> int \<Rightarrow> state_store \<Rightarrow> state_meta option" where
  "peek_oauth_state s now st =
     (case lookup (oauth_states st) s of
        None \<Rightarrow> None
      | Some m \<Rightarrow> if now > expiry m then None else Some m)"

definition drop_state :: "string \<Rightarrow> state_meta \<Rightarrow> state_store \<Rightarrow> state_store" where
  "drop_state s m st =
     \<lparr>oauth_states = dict_del s (oauth_states st), client_states = forget s m (client_states st)\<rparr>"

definition discard_oauth_state :: "string \<Rightarrow> string \<Rightarrow> state_store \<Rightarrow> state_store" where
  "discard_oauth_state s c st =
     (case lookup (oauth_states st) s of
        None \<Rightarrow> st
      | Some m \<Rightarrow> if c \<noteq> [] \<and> client m = c then drop_state s m st else st)"

definition validate_oauth_state :: "string \<Rightarrow> int \<Rightarrow> state_store \<Rightarrow> state_meta option \<times> state_store"
  where
  "validate_oauth_state s now st =
     (case lookup (oauth_states st) s of
        None \<Rightarrow> (None, st)
      | Some m \<Rightarrow> (if now > expiry m then None else Some m, drop_state s m st))"

section \<open>The life of the store\<close>

text \<open>A store and the clock it is read at. The clock never goes back and a minted id is new.\<close>

inductive store_step :: "int \<times> state_store \<Rightarrow> int \<times> state_store \<Rightarrow> bool" where
  tick: "now \<le> now' \<Longrightarrow> store_step (now, st) (now', st)"
| create: "fresh \<notin> set (keys (oauth_states st)) \<Longrightarrow>
     store_step (now, st) (now, snd (create_oauth_state a now wall fresh st))"
| valid: "store_step (now, st) (now, snd (validate_oauth_state s now st))"
| discard: "store_step (now, st) (now, discard_oauth_state s c st)"

inductive_cases store_stepE: "store_step (now, st) (now', st')"

inductive reachable_store :: "int \<times> state_store \<Rightarrow> bool" where
  start: "reachable_store (now, empty_store)"
| more: "reachable_store c \<Longrightarrow> store_step c c' \<Longrightarrow> reachable_store c'"

text \<open>The ids a client started, in the order of the store.\<close>

definition ids_of :: "string \<Rightarrow> (string \<times> state_meta) list \<Rightarrow> string list" where
  "ids_of c os = map fst (filter (\<lambda>sm. client (snd sm) = c) os)"

definition index_exact :: "(string \<times> state_meta) list \<Rightarrow> (string \<times> string list) list \<Rightarrow> bool" where
  "index_exact os cs \<longleftrightarrow>
     (\<forall>c. lookup cs c = (if c = [] \<or> ids_of c os = [] then None else Some (ids_of c os)))"

definition store_ok :: "int \<Rightarrow> state_store \<Rightarrow> bool" where
  "store_ok now st \<longleftrightarrow>
     distinct (keys (oauth_states st)) \<and>
     sorted (map (\<lambda>sm. expiry (snd sm)) (oauth_states st)) \<and>
     (\<forall>sm \<in> set (oauth_states st). expiry (snd sm) \<le> now + STATE_TTL) \<and>
     length (oauth_states st) \<le> STATE_MAX \<and>
     index_exact (oauth_states st) (client_states st)"

section \<open>Facts\<close>

lemma lookup_in_set: "distinct (keys os) \<Longrightarrow> (s, m) \<in> set os \<Longrightarrow> lookup os s = Some m"
  by (simp add: lookup_map_of)

lemma ids_of_subset: "set (ids_of c os) \<subseteq> set (keys os)"
  by (auto simp: ids_of_def)

lemma distinct_ids_of: "distinct (keys os) \<Longrightarrow> distinct (ids_of c os)"
  by (simp add: ids_of_def distinct_map inj_on_def)

lemma ids_of_dict_del:
  "ids_of c (dict_del s os) = filter (\<lambda>x. x \<noteq> s) (ids_of c os)"
  by (induction os) (auto simp: ids_of_def dict_del_def)

lemma filter_remove1: "distinct xs \<Longrightarrow> filter (\<lambda>x. x \<noteq> s) xs = remove1 s xs"
  by (simp add: distinct_remove1_removeAll removeAll_filter_not_eq eq_commute)

lemma ids_of_other:
  "distinct (keys os) \<Longrightarrow> lookup os s = Some m \<Longrightarrow> client m \<noteq> c \<Longrightarrow> s \<notin> set (ids_of c os)"
  by (auto simp: ids_of_def dest!: lookup_in_set)

text \<open>Dropping a state and forgetting it keeps the index exact.\<close>

lemma forget_exact:
  assumes "distinct (keys os)" "lookup os s = Some m" "index_exact os cs"
  shows "index_exact (dict_del s os) (forget s m cs)"
proof -
  have mem: "s \<in> set (ids_of (client m) os)"
    using lookup_SomeD [OF assms(2)] by (force simp: ids_of_def)
  then have ne: "ids_of (client m) os \<noteq> []" by auto
  have del: "ids_of (client m) (dict_del s os) = remove1 s (ids_of (client m) os)"
    by (simp add: ids_of_dict_del filter_remove1 distinct_ids_of assms(1))
  have other: "ids_of c (dict_del s os) = ids_of c os" if "c \<noteq> client m" for c
    using ids_of_other [OF assms(1,2)] that by (auto simp: ids_of_dict_del intro!: filter_True)
  show ?thesis unfolding index_exact_def
  proof
    fix c
    show "lookup (forget s m cs) c =
      (if c = [] \<or> ids_of c (dict_del s os) = [] then None else Some (ids_of c (dict_del s os)))"
      using assms(3) ne
      by (cases "c = client m") (auto simp: forget_def Let_def index_exact_def del other)
  qed
qed

lemma dict_del_hd: "distinct (keys ((s, m) # rest)) \<Longrightarrow> dict_del s ((s, m) # rest) = rest"
  by (auto simp: dict_del_def intro!: filter_True)

text \<open>What the lapse loop keeps: a suffix of the store, every live state of it, the exact
  index.\<close>

lemma lapse_spec:
  "distinct (keys os) \<Longrightarrow> index_exact os cs \<Longrightarrow> lapse now os cs = (os', cs') \<Longrightarrow>
   os' = dropWhile (\<lambda>sm. expiry (snd sm) < now) os \<and> index_exact os' cs'"
proof (induction now os cs rule: lapse.induct)
  case (2 now s m rest cs)
  show ?case
  proof (cases "expiry m \<ge> now")
    case False
    have "lookup ((s, m) # rest) s = Some m" by simp
    from forget_exact [OF 2(2) this 2(3)] dict_del_hd [OF 2(2)]
    have "index_exact rest (forget s m cs)" by simp
    with 2 False show ?thesis by auto
  qed (use 2 in auto)
qed simp

lemma dropWhile_keys: "distinct (keys os) \<Longrightarrow> distinct (keys (dropWhile P os))"
  by (induction os) auto

lemma sorted_dropWhile_map: "sorted (map f xs) \<Longrightarrow> sorted (map f (dropWhile P xs))"
  by (induction xs) auto

lemma lapse_store_ok: "store_ok now st \<Longrightarrow> store_ok now (lapse_store now st)"
proof -
  assume ok: "store_ok now st"
  obtain os cs where l: "lapse now (oauth_states st) (client_states st) = (os, cs)" by fastforce
  from lapse_spec [OF _ _ l] ok
  have spec: "os = dropWhile (\<lambda>sm. expiry (snd sm) < now) (oauth_states st)" "index_exact os cs"
    by (auto simp: store_ok_def)
  have "length os \<le> length (oauth_states st)"
    unfolding spec(1) by (rule length_dropWhile_le)
  with ok spec show ?thesis
    by (auto simp: store_ok_def lapse_store_def l dropWhile_keys sorted_dropWhile_map
        dest: set_dropWhileD)
qed

lemma lapse_store_states:
  "store_ok now st \<Longrightarrow> oauth_states (lapse_store now st) =
     dropWhile (\<lambda>sm. expiry (snd sm) < now) (oauth_states st)"
  using lapse_spec [of "oauth_states st" "client_states st" now]
  by (auto simp: store_ok_def lapse_store_def split: prod.split)

lemma refresh_client_id:
  assumes "store_ok now st" "c \<noteq> []"
  shows "oauth_states (refresh_client c st) = oauth_states st"
    and "index_exact (oauth_states st) (client_states (refresh_client c st))"
    and "client_ids c st = ids_of c (oauth_states st)"
proof -
  from assms(1) have ix: "index_exact (oauth_states st) (client_states st)"
    by (simp add: store_ok_def)
  have "x \<in> set (keys (oauth_states st))" if "x \<in> set (ids_of c (oauth_states st))" for x
    using that ids_of_subset by blast
  then show ids: "client_ids c st = ids_of c (oauth_states st)"
    using ix assms(2) by (auto simp: client_ids_def index_exact_def get_or_def lookup_None_iff
        intro!: filter_True)
  show "oauth_states (refresh_client c st) = oauth_states st" by (simp add: refresh_client_def)
  show "index_exact (oauth_states st) (client_states (refresh_client c st))"
    using ix assms(2) by (auto simp: refresh_client_def ids index_exact_def)
qed

lemma add_state_ok:
  assumes "store_ok now st" "s \<notin> set (keys (oauth_states st))"
    and "length (oauth_states st) < STATE_MAX"
    and "expiry m = now + STATE_TTL"
  shows "store_ok now (add_state s m st)"
proof -
  have app: "dict_set s m (oauth_states st) = oauth_states st @ [(s, m)]"
    by (rule dict_set_new [OF assms(2)])
  have ids: "ids_of c (oauth_states st @ [(s, m)]) =
      ids_of c (oauth_states st) @ (if client m = c then [s] else [])" for c
    by (simp add: ids_of_def)
  from assms(1) have ix: "index_exact (oauth_states st) (client_states st)"
    by (simp add: store_ok_def)
  then have "index_exact (oauth_states st @ [(s, m)]) (client_states (add_state s m st))"
    by (auto simp: index_exact_def add_state_def ids get_or_def)
  with assms show ?thesis
    by (auto simp: store_ok_def add_state_def app sorted_append)
qed

lemma drop_state_ok:
  assumes "store_ok now st" "lookup (oauth_states st) s = Some m"
  shows "store_ok now (drop_state s m st)"
proof -
  let ?del = "dict_del s (oauth_states st)"
  have "length ?del \<le> length (oauth_states st)" "set ?del \<subseteq> set (oauth_states st)"
    "sorted (map (\<lambda>sm. expiry (snd sm)) (oauth_states st)) \<Longrightarrow>
      sorted (map (\<lambda>sm. expiry (snd sm)) ?del)"
    by (auto simp: dict_del_def sorted_filter)
  moreover have "distinct (keys ?del)" "index_exact ?del (forget s m (client_states st))"
    using assms forget_exact [OF _ assms(2)] by (auto simp: store_ok_def distinct_dict_del)
  ultimately show ?thesis using assms(1)
    by (auto simp: store_ok_def drop_state_def)
qed

text \<open>The three outcomes of a create.\<close>

lemma create_cases:
  assumes "store_ok now st0"
  obtains (client_full) e st1 where
      "create_oauth_state a now wall fresh st0 = (Inl (ClientStatesFull e), st1)"
      "a_client a \<noteq> []" "a_client_capped a"
      "length (ids_of (a_client a) (oauth_states st1)) \<ge> STATE_MAX_PER_CLIENT"
      "store_ok now st1" "oauth_states st1 = oauth_states (lapse_store now st0)"
  | (store_full) e st1 where
      "create_oauth_state a now wall fresh st0 = (Inl (StateStoreFull e), st1)"
      "length (oauth_states st1) = STATE_MAX"
      "store_ok now st1" "oauth_states st1 = oauth_states (lapse_store now st0)"
  | (made) st1 where
      "create_oauth_state a now wall fresh st0 = (Inr fresh, add_state fresh (new_meta a now wall) st1)"
      "length (oauth_states st1) < STATE_MAX"
      "a_client a \<noteq> [] \<and> a_client_capped a \<longrightarrow>
         length (ids_of (a_client a) (oauth_states st1)) < STATE_MAX_PER_CLIENT"
      "store_ok now st1" "oauth_states st1 = oauth_states (lapse_store now st0)"
proof -
  let ?st = "lapse_store now st0"
  let ?capped = "a_client a \<noteq> [] \<and> a_client_capped a"
  define st1 where "st1 = (if ?capped then refresh_client (a_client a) ?st else ?st)"
  have ok: "store_ok now ?st" by (rule lapse_store_ok [OF assms])
  have same: "oauth_states st1 = oauth_states ?st"
    using refresh_client_id(1) [OF ok] by (simp add: st1_def)
  have ok1: "store_ok now st1"
    using ok refresh_client_id(2) [OF ok] same by (auto simp: store_ok_def st1_def)
  have ids: "?capped \<Longrightarrow> client_ids (a_client a) ?st = ids_of (a_client a) (oauth_states st1)"
    using refresh_client_id(3) [OF ok] same by simp
  have le: "length (oauth_states st1) \<le> STATE_MAX" using ok1 by (simp add: store_ok_def)
  show thesis
  proof (cases "?capped \<and> length (client_ids (a_client a) ?st) \<ge> STATE_MAX_PER_CLIENT")
    case True
    with ids same ok1 show thesis
      by (intro client_full [of _ st1]) (auto simp: create_oauth_state_def Let_def st1_def)
  next
    case small: False
    show thesis
    proof (cases "length (oauth_states st1) \<ge> STATE_MAX")
      case True
      with small same ok1 le show thesis
        by (intro store_full [of _ st1]) (auto simp: create_oauth_state_def Let_def st1_def)
    next
      case False
      with small same ok1 ids show thesis
        by (intro made [of st1]) (auto simp: create_oauth_state_def Let_def st1_def)
    qed
  qed
qed

lemma fresh_after_lapse:
  "store_ok now st \<Longrightarrow> s \<notin> set (keys (oauth_states st)) \<Longrightarrow>
   s \<notin> set (keys (oauth_states (lapse_store now st)))"
  by (auto simp: lapse_store_states dest: set_dropWhileD)

lemma create_ok:
  assumes "store_ok now st" "fresh \<notin> set (keys (oauth_states st))"
  shows "store_ok now (snd (create_oauth_state a now wall fresh st))"
proof (rule create_cases [OF assms(1), of a wall fresh], goal_cases client_full store_full made)
  case (made st1)
  with fresh_after_lapse [OF assms] show ?thesis
    by (simp add: add_state_ok new_meta_def)
qed simp_all

lemma validate_ok: "store_ok now st \<Longrightarrow> store_ok now (snd (validate_oauth_state s now st))"
  by (simp add: validate_oauth_state_def drop_state_ok split: option.split)

lemma discard_ok: "store_ok now st \<Longrightarrow> store_ok now (discard_oauth_state s c st)"
  by (simp add: discard_oauth_state_def drop_state_ok split: option.split)

lemma store_step_ok: "store_step c c' \<Longrightarrow> store_ok (fst c) (snd c) \<Longrightarrow> store_ok (fst c') (snd c')"
proof (induction rule: store_step.induct)
  case (tick now now' st)
  then show ?case by (force simp: store_ok_def)
qed (simp_all add: create_ok validate_ok discard_ok)

lemma empty_store_ok: "store_ok now empty_store"
  by (simp add: store_ok_def empty_store_def index_exact_def ids_of_def STATE_MAX_def)

lemma reachable_ok: "reachable_store c \<Longrightarrow> store_ok (fst c) (snd c)"
  by (induction rule: reachable_store.induct) (simp_all add: empty_store_ok store_step_ok)

text \<open>Every state the sign-in store can reach is bounded and consistent: at most ten thousand
  states, none lapsing later than the time to live from now, in the order they lapse, and the
  index of a client lists exactly that client's states, each once, in their order.\<close>

theorem sign_in_store_invariant:
  "reachable_store (now, st) \<Longrightarrow> store_ok now st"
  using reachable_ok by fastforce

definition login_args :: state_args where
  "login_args = \<lparr>a_redirect_uri = None, a_purpose = ''login'', a_sub = [], a_return_to = [],
     a_nonce = ''n'', a_code_verifier = ''v'', a_client = ''10.0.0.1'', a_client_capped = True\<rparr>"

lemma demo_create: "\<exists>st1. create_oauth_state login_args 5 0 ''x'' empty_store = (Inr ''x'', st1)"
proof -
  have "fst (create_oauth_state login_args 5 0 ''x'' empty_store) = Inr ''x''" by code_simp
  then show ?thesis by (cases "create_oauth_state login_args 5 0 ''x'' empty_store") simp
qed

lemma demo_reachable: "reachable_store (5, snd (create_oauth_state login_args 5 0 ''x'' empty_store))"
  by (rule more [OF start [of 5] store_step.create]) (simp add: empty_store_def)

theorem sign_in_store_invariant_witness:
  "store_ok 5 (snd (create_oauth_state login_args 5 0 ''x'' empty_store)) \<and>
   oauth_states (snd (create_oauth_state login_args 5 0 ''x'' empty_store)) \<noteq> []"
proof -
  have "oauth_states (snd (create_oauth_state login_args 5 0 ''x'' empty_store)) \<noteq> []"
    by code_simp
  with sign_in_store_invariant [OF demo_reachable] show ?thesis by blast
qed

text \<open>A live state survives every operation on other states.\<close>

lemma lookup_dropWhile:
  "lookup os s = Some m \<Longrightarrow> \<not> P (s, m) \<Longrightarrow> distinct (keys os) \<Longrightarrow>
   lookup (dropWhile P os) s = Some m"
  by (induction os) (auto split: if_splits)

lemma create_keeps_live:
  assumes "store_ok now st" "fresh \<noteq> s" "lookup (oauth_states st) s = Some m" "expiry m \<ge> now"
  shows "lookup (oauth_states (snd (create_oauth_state a now wall fresh st))) s = Some m"
proof -
  have "distinct (keys (oauth_states st))" using assms(1) by (simp add: store_ok_def)
  with assms have l: "lookup (oauth_states (lapse_store now st)) s = Some m"
    by (simp add: lapse_store_states lookup_dropWhile)
  show ?thesis
    using create_cases [OF assms(1), of a wall fresh]
    by cases (use l assms(2) in \<open>simp_all add: add_state_def\<close>)
qed

text \<open>What may happen to the store meanwhile. \<open>other_step s\<close>: the clock, and every operation on
  other states; \<open>unminted_step s\<close>: every step but minting the random id \<open>s\<close> a second time.\<close>

inductive other_step :: "string \<Rightarrow> int \<times> state_store \<Rightarrow> int \<times> state_store \<Rightarrow> bool" for s where
  otick: "now \<le> now' \<Longrightarrow> other_step s (now, st) (now', st)"
| ocreate: "fresh \<notin> set (keys (oauth_states st)) \<Longrightarrow> fresh \<noteq> s \<Longrightarrow>
     other_step s (now, st) (now, snd (create_oauth_state a now wall fresh st))"
| ovalid: "x \<noteq> s \<Longrightarrow> other_step s (now, st) (now, snd (validate_oauth_state x now st))"
| odiscard: "x \<noteq> s \<Longrightarrow> other_step s (now, st) (now, discard_oauth_state x c st)"

inductive unminted_step :: "string \<Rightarrow> int \<times> state_store \<Rightarrow> int \<times> state_store \<Rightarrow> bool" for s where
  utick: "now \<le> now' \<Longrightarrow> unminted_step s (now, st) (now', st)"
| ucreate: "fresh \<notin> set (keys (oauth_states st)) \<Longrightarrow> fresh \<noteq> s \<Longrightarrow>
     unminted_step s (now, st) (now, snd (create_oauth_state a now wall fresh st))"
| uvalid: "unminted_step s (now, st) (now, snd (validate_oauth_state x now st))"
| udiscard: "unminted_step s (now, st) (now, discard_oauth_state x c st)"

lemma other_step_ok:
  assumes "other_step s c c'" "store_ok (fst c) (snd c)"
  shows "store_ok (fst c') (snd c')" and "fst c \<le> fst c'"
proof -
  from assms(1) have "store_step c c'" by cases (auto intro: store_step.intros)
  then show "store_ok (fst c') (snd c')" by (rule store_step_ok) (rule assms(2))
  from assms(1) show "fst c \<le> fst c'" by cases auto
qed

lemma unminted_step_ok:
  assumes "unminted_step s c c'" "store_ok (fst c) (snd c)"
  shows "store_ok (fst c') (snd c')"
proof -
  from assms(1) have "store_step c c'" by cases (auto intro: store_step.intros)
  then show ?thesis by (rule store_step_ok) (rule assms(2))
qed

lemma drop_state_other: "x \<noteq> s \<Longrightarrow>
  lookup (oauth_states (drop_state x m st)) s = lookup (oauth_states st) s"
  by (simp add: drop_state_def)

lemma other_step_keeps:
  assumes "other_step s c c'" "store_ok (fst c) (snd c)"
    and "lookup (oauth_states (snd c)) s = Some m" "fst c' \<le> expiry m"
  shows "lookup (oauth_states (snd c')) s = Some m"
  using assms
  by cases (auto simp: create_keeps_live validate_oauth_state_def discard_oauth_state_def
      drop_state_other split: option.split)

lemma other_steps_keep:
  assumes "(other_step s)\<^sup>*\<^sup>* c c'" "store_ok (fst c) (snd c)"
    and "lookup (oauth_states (snd c)) s = Some m"
  shows "store_ok (fst c') (snd c') \<and> fst c \<le> fst c' \<and>
    (fst c' \<le> expiry m \<longrightarrow> lookup (oauth_states (snd c')) s = Some m)"
  using assms(1)
proof (induction rule: rtranclp_induct)
  case (step d e)
  note ok = other_step_ok [OF step(2)]
  from step(3) ok have "store_ok (fst e) (snd e)" "fst c \<le> fst e" "fst d \<le> fst e"
    by fastforce+
  with step(3) other_step_keeps [OF step(2)] show ?case by fastforce
qed (use assms in simp)

lemma create_mints_only:
  assumes "store_ok now st" "fresh \<noteq> s" "lookup (oauth_states st) s = None"
  shows "lookup (oauth_states (snd (create_oauth_state a now wall fresh st))) s = None"
proof -
  from assms(1,3) have l: "lookup (oauth_states (lapse_store now st)) s = None"
    by (auto simp: lapse_store_states lookup_None_iff dest: set_dropWhileD)
  show ?thesis
    using create_cases [OF assms(1), of a wall fresh]
    by cases (use l assms(2) in \<open>simp_all add: add_state_def\<close>)
qed

lemma unminted_step_keeps_out:
  assumes "unminted_step s c c'" "store_ok (fst c) (snd c)"
    and "lookup (oauth_states (snd c)) s = None"
  shows "lookup (oauth_states (snd c')) s = None"
  using assms
  by cases (auto simp: create_mints_only validate_oauth_state_def discard_oauth_state_def
      drop_state_def split: option.split)

lemma unminted_steps_keep_out:
  assumes "(unminted_step s)\<^sup>*\<^sup>* c c'" "store_ok (fst c) (snd c)"
    and "lookup (oauth_states (snd c)) s = None"
  shows "store_ok (fst c') (snd c') \<and> lookup (oauth_states (snd c')) s = None"
  using assms(1)
  by (induction rule: rtranclp_induct)
    (use assms(2,3) unminted_step_ok unminted_step_keeps_out in \<open>blast+\<close>)

lemma created_state:
  assumes "store_ok now st" "create_oauth_state a now wall fresh st = (Inr fresh, st1)"
  shows "lookup (oauth_states st1) fresh = Some (new_meta a now wall)"
  using create_cases [OF assms(1), of a wall fresh] assms(2) by cases (auto simp: add_state_def)

text \<open>C31. A sign-in started is served, and served once. Between its create and its callback any
  operations of the store may come in any order, on other states: the clock runs, other sign-ins
  begin or are refused at either cap, others are validated or discarded. At every instant up to
  the 300 seconds the created state is still there, answered with the metadata it was created
  with, whatever was created since: nobody's sign-in pushes it out. The answer consumes it: after
  any further operations, validations and discards of the same state among them, neither a
  validation nor a peek finds it. The one step left out afterwards is a mint of the same random
  id.\<close>

theorem sign_in_state_single_use:
  assumes "reachable_store (now, st)" "fresh \<notin> set (keys (oauth_states st))"
    and "create_oauth_state a now wall fresh st = (Inr fresh, st1)"
    and "(other_step fresh)\<^sup>*\<^sup>* (now, st1) (later, st2)" "later \<le> now + 300"
  shows "(let (answer, st3) = validate_oauth_state fresh later st2
     in peek_oauth_state fresh later st2 = Some (new_meta a now wall) \<and>
        answer = Some (new_meta a now wall) \<and>
        (\<forall>c. (unminted_step fresh)\<^sup>*\<^sup>* (later, st3) c \<longrightarrow>
           fst (validate_oauth_state fresh (fst c) (snd c)) = None \<and>
           peek_oauth_state fresh (fst c) (snd c) = None))"
proof -
  let ?m = "new_meta a now wall"
  have ok: "store_ok now st" using reachable_ok [OF assms(1)] by simp
  have ok1: "store_ok now st1" using create_ok [OF ok assms(2), of a wall] assms(3) by simp
  have e: "expiry ?m = now + 300" by (simp add: new_meta_def STATE_TTL_def)
  from other_steps_keep [OF assms(4) _ , of ?m] ok1 created_state [OF ok assms(3)] assms(5) e
  have ok2: "store_ok later st2" and l: "lookup (oauth_states st2) fresh = Some ?m" by auto
  let ?st3 = "snd (validate_oauth_state fresh later st2)"
  have l3: "lookup (oauth_states ?st3) fresh = None"
    by (simp add: validate_oauth_state_def drop_state_def l)
  have out: "lookup (oauth_states (snd c)) fresh = None"
    if "(unminted_step fresh)\<^sup>*\<^sup>* (later, ?st3) c" for c
    using unminted_steps_keep_out [OF that] validate_ok [OF ok2] l3 by simp
  have "fst (validate_oauth_state fresh later st2) = Some ?m"
    "peek_oauth_state fresh later st2 = Some ?m"
    using assms(5) e by (simp_all add: validate_oauth_state_def peek_oauth_state_def l)
  with out show ?thesis
    by (auto simp: case_prod_beta Let_def validate_oauth_state_def peek_oauth_state_def)
qed

theorem sign_in_state_single_use_witness:
  "let st1 = snd (create_oauth_state login_args 5 0 ''x'' empty_store);
       st2 = snd (create_oauth_state login_args 7 0 ''y'' st1);
       (answer, st3) = validate_oauth_state ''x'' 305 st2
   in oauth_states st2 \<noteq> oauth_states st1 \<and> answer = Some (new_meta login_args 5 0) \<and>
      fst (validate_oauth_state ''x'' 305 st3) = None"
proof -
  obtain st1 where c: "create_oauth_state login_args 5 0 ''x'' empty_store = (Inr ''x'', st1)"
    using demo_create by blast
  let ?st2 = "snd (create_oauth_state login_args 7 0 ''y'' st1)"
  have f: "''x'' \<notin> set (keys (oauth_states empty_store))" by (simp add: empty_store_def)
  have "''y'' \<notin> set (keys (oauth_states
      (snd (create_oauth_state login_args 5 0 ''x'' empty_store))))" by code_simp
  then have y: "''y'' \<notin> set (keys (oauth_states st1))" by (simp add: c)
  have "other_step ''x'' (5, st1) (7, st1)" by (rule otick) simp
  moreover have "other_step ''x'' (7, st1) (7, ?st2)" by (rule ocreate [OF y]) simp
  moreover have "other_step ''x'' (7, ?st2) (305, ?st2)" by (rule otick) simp
  ultimately have "(other_step ''x'')\<^sup>*\<^sup>* (5, st1) (305, ?st2)"
    by (meson converse_rtranclp_into_rtranclp r_into_rtranclp)
  from sign_in_state_single_use [OF start f c this]
  have one: "fst (validate_oauth_state ''x'' 305 ?st2) = Some (new_meta login_args 5 0)"
    "fst (validate_oauth_state ''x'' 305 (snd (validate_oauth_state ''x'' 305 ?st2))) = None"
    by (auto simp: case_prod_beta Let_def)
  have "oauth_states (snd (create_oauth_state login_args 7 0 ''y''
      (snd (create_oauth_state login_args 5 0 ''x'' empty_store)))) \<noteq>
    oauth_states (snd (create_oauth_state login_args 5 0 ''x'' empty_store))" by code_simp
  with one show ?thesis by (simp add: case_prod_beta Let_def c)
qed

text \<open>The cap of one client: a capped create that succeeds leaves the client at most eight
  states, a client at its cap is refused by that error and no other, and either refusal leaves
  the set of live states as it was.\<close>

theorem sign_in_client_cap:
  assumes "reachable_store (now, st)" "fresh \<notin> set (keys (oauth_states st))"
    and "a_client a \<noteq> []" "a_client_capped a"
  shows "(let (res, st1) = create_oauth_state a now wall fresh st;
       held = length (filter (\<lambda>sm. client (snd sm) = a_client a) (oauth_states st1))
     in case res of
          Inr s \<Rightarrow> s = fresh \<and> held \<le> 8
        | Inl (ClientStatesFull e) \<Rightarrow> held \<ge> 8 \<and> e \<ge> 1 \<and>
            oauth_states st1 = dropWhile (\<lambda>sm. expiry (snd sm) < now) (oauth_states st)
        | Inl (StateStoreFull e) \<Rightarrow> length (oauth_states st1) = 10000 \<and> e \<ge> 1 \<and>
            oauth_states st1 = dropWhile (\<lambda>sm. expiry (snd sm) < now) (oauth_states st))"
proof -
  have ok: "store_ok now st" using reachable_ok [OF assms(1)] by simp
  note held = ids_of_def STATE_MAX_PER_CLIENT_def STATE_MAX_def lapse_store_states [OF ok]
  have new: "fresh \<notin> set (keys (oauth_states (lapse_store now st)))"
    by (rule fresh_after_lapse [OF ok assms(2)])
  have ge: "e \<ge> 1" if "create_oauth_state a now wall fresh st = (Inl err, st1)"
    "err = ClientStatesFull e \<or> err = StateStoreFull e" for err e st1
    using that by (auto simp: create_oauth_state_def Let_def split: if_splits)
  show ?thesis
  proof (rule create_cases [OF ok, of a wall fresh], goal_cases client_full store_full made)
    case (client_full e st1)
    then show ?thesis using ge [OF client_full(1)] by (simp add: held)
  next
    case (store_full e st1)
    then show ?thesis using ge [OF store_full(1)] by (simp add: held)
  next
    case (made st1)
    with new assms(3,4) show ?thesis
      by (simp add: held add_state_def dict_set_new new_meta_def)
  qed
qed

theorem sign_in_client_cap_witness:
  "length (filter (\<lambda>sm. client (snd sm) = ''10.0.0.1'')
     (oauth_states (snd (create_oauth_state login_args 5 0 ''x'' empty_store)))) \<le> 8"
proof -
  have f: "''x'' \<notin> set (keys (oauth_states empty_store))" by (simp add: empty_store_def)
  have a: "a_client login_args \<noteq> []" "a_client_capped login_args" by (simp_all add: login_args_def)
  obtain st1 where c: "create_oauth_state login_args 5 0 ''x'' empty_store = (Inr ''x'', st1)"
    using demo_create by blast
  from sign_in_client_cap [OF start f a, of 5 0] c show ?thesis
    by (simp add: login_args_def)
qed

end
