(* ===== verification/Visibility.thy ===== *)
theory Visibility
  imports Principals SessionKind
begin

text \<open>
  \<open>proxy/core/session/visibility.py\<close>: an agent's visibility mode and what a session of it mounts,
  sees and files its history under; and the rule of who opens a chat. The store reads are
  arguments: the agent row as it was read (or unreadable), the effective memory toggles, the task
  run a chat belongs to.
\<close>

definition SCOPE_USER :: string where [word_defs]: "SCOPE_USER = ''user''"
definition SCOPE_AGENT :: string where [word_defs]: "SCOPE_AGENT = ''agent''"
definition SCOPES :: "string list" where "SCOPES = [SCOPE_USER, SCOPE_AGENT]"

definition MODE_PERSONAL_SHARED :: string where
  [word_defs]: "MODE_PERSONAL_SHARED = ''personal_shared''"
definition MODE_SHARED_PERSONAL :: string where
  [word_defs]: "MODE_SHARED_PERSONAL = ''shared_personal''"
definition MODE_PERSONAL_ONLY :: string where [word_defs]: "MODE_PERSONAL_ONLY = ''personal_only''"
definition MODE_SHARED_ONLY :: string where [word_defs]: "MODE_SHARED_ONLY = ''shared_only''"

record visibility_resolution =
  mode :: string
  collaborative :: bool
  default_scope :: string
  available_scopes :: "string list"
  mount_shared :: bool
  memory_user_enabled :: bool
  memory_agent_enabled :: bool
  mount_scope :: string
  mount_username :: string
  config_visible :: bool
  effective_default_scope :: string
  vis_is_service :: bool
  history_owner :: string

section \<open>Reading the mode\<close>

text \<open>A row's two columns, each possibly absent; a failed read has no row.\<close>

record agent_row =
  row_collaborative :: "bool option"
  row_default_scope :: string

datatype agent_read = Unreadable | NoRow | Row agent_row

text \<open>\<open>None\<close> is the \<open>VisibilityUnavailable\<close> a strict read raises.\<close>

definition read_agent_mode :: "bool \<Rightarrow> agent_read \<Rightarrow> (bool \<times> string) option" where
  "read_agent_mode strict rd =
     (case rd of
        Unreadable \<Rightarrow> if strict then None else Some (False, SCOPE_USER)
      | NoRow \<Rightarrow> Some (True, SCOPE_USER)
      | Row r \<Rightarrow>
          (let scope = or_else (row_default_scope r) SCOPE_USER
           in Some (case row_collaborative r of None \<Rightarrow> True | Some b \<Rightarrow> b,
                    if scope \<in> set SCOPES then scope else SCOPE_USER)))"

record memory_read =
  master_user :: "bool option"
  master_agent :: "bool option"
  toggle_user :: "bool option"
  toggle_agent :: "bool option"

definition on_by_default :: "bool option \<Rightarrow> bool" where
  "on_by_default b = (case b of None \<Rightarrow> True | Some v \<Rightarrow> v)"

definition read_memory_toggles :: "memory_read option \<Rightarrow> bool \<times> bool" where
  "read_memory_toggles rd =
     (case rd of
        None \<Rightarrow> (True, True)
      | Some m \<Rightarrow> (on_by_default (master_user m) \<and> on_by_default (toggle_user m),
                   on_by_default (master_agent m) \<and> on_by_default (toggle_agent m)))"

definition available_scopes_for :: "bool \<Rightarrow> string \<Rightarrow> string list" where
  "available_scopes_for collab scope =
     (if collab then SCOPES else if scope = SCOPE_AGENT then [SCOPE_AGENT] else [SCOPE_USER])"

definition mode_for :: "bool \<Rightarrow> string \<Rightarrow> string" where
  "mode_for collab scope =
     (if collab then (if scope = SCOPE_USER then MODE_PERSONAL_SHARED else MODE_SHARED_PERSONAL)
      else if scope = SCOPE_AGENT then MODE_SHARED_ONLY else MODE_PERSONAL_ONLY)"

section \<open>The owners of chat rows\<close>

definition PHONE_CHAT_OWNER :: string where [word_defs]: "PHONE_CHAT_OWNER = ''phone''"

definition shared_chat_owner :: "string \<Rightarrow> string" where
  "shared_chat_owner a = SHARED_CHAT_OWNER_PREFIX @ a"

definition task_chat_owner :: "string \<Rightarrow> string" where
  "task_chat_owner a = TASK_CHAT_OWNER_PREFIX @ a"

definition is_shared_chat_owner :: "string \<Rightarrow> bool" where
  "is_shared_chat_owner owner = (owner \<noteq> [] \<and> starts_with owner SHARED_CHAT_OWNER_PREFIX)"

definition is_task_chat_owner :: "string \<Rightarrow> bool" where
  "is_task_chat_owner owner = (owner \<noteq> [] \<and> starts_with owner TASK_CHAT_OWNER_PREFIX)"

definition is_phone_chat_owner :: "string \<Rightarrow> bool" where
  "is_phone_chat_owner owner = (owner = PHONE_CHAT_OWNER)"

definition is_synthetic_owner :: "string \<Rightarrow> bool" where
  "is_synthetic_owner owner =
     (is_shared_chat_owner owner \<or> is_task_chat_owner owner \<or> is_phone_chat_owner owner)"

definition is_shared_only :: "agent_read \<Rightarrow> bool" where
  "is_shared_only rd =
     (case read_agent_mode False rd of None \<Rightarrow> False
      | Some (collab, scope) \<Rightarrow> \<not> collab \<and> scope = SCOPE_AGENT)"

definition nouser_read_targets :: "(string \<Rightarrow> string set) \<Rightarrow> user_context \<Rightarrow> string set" where
  "nouser_read_targets roster u =
     (if is_external u then {}
      else if \<not> (is_no_user_session u \<and> u_agent u \<noteq> []) then {}
      else roster (u_agent u))"

definition chat_history_owner :: "agent_read \<Rightarrow> string \<Rightarrow> string \<Rightarrow> string" where
  "chat_history_owner rd agent user_sub =
     (case read_agent_mode False rd of None \<Rightarrow> user_sub
      | Some (collab, scope) \<Rightarrow>
          if \<not> collab \<and> scope = SCOPE_AGENT then shared_chat_owner agent else user_sub)"

section \<open>The resolution of one session\<close>

definition mount_scope_of :: "string list \<Rightarrow> bool \<Rightarrow> string \<Rightarrow> string option \<Rightarrow> string" where
  "mount_scope_of available shared_only username override =
     (if username = [] then SCOPE_AGENT
      else (case override of
              Some s \<Rightarrow> if s \<in> set available then s else hd available
            | None \<Rightarrow> if shared_only then SCOPE_AGENT else SCOPE_USER))"

definition effective_scope_of :: "string list \<Rightarrow> string \<Rightarrow> string \<Rightarrow> string \<Rightarrow> string" where
  "effective_scope_of available dflt username role =
     (let eff = (if username = [] then SCOPE_AGENT
                 else if \<not> can_edit role \<and> SCOPE_USER \<in> set available then SCOPE_USER
                 else dflt)
      in if eff \<in> set available then eff else hd available)"

definition resolve_visibility ::
    "agent_read \<Rightarrow> memory_read option \<Rightarrow> string \<Rightarrow> string \<Rightarrow> string \<Rightarrow> string \<Rightarrow> string option \<Rightarrow>
     visibility_resolution option" where
  "resolve_visibility rd mem agent username user_role user_sub override =
     (case read_agent_mode True rd of
        None \<Rightarrow> None
      | Some (collab, scope) \<Rightarrow>
          (let (mem_user, mem_agent) = read_memory_toggles mem;
               available = available_scopes_for collab scope;
               shared_only = (\<not> collab \<and> scope = SCOPE_AGENT);
               mscope = mount_scope_of available shared_only username override
           in Some \<lparr>mode = mode_for collab scope,
                collaborative = collab,
                default_scope = scope,
                available_scopes = available,
                mount_shared = (SCOPE_AGENT \<in> set available),
                memory_user_enabled = (mem_user \<and> SCOPE_USER \<in> set available),
                memory_agent_enabled = (mem_agent \<and> SCOPE_AGENT \<in> set available),
                mount_scope = mscope,
                mount_username = (if mscope = SCOPE_USER then username else []),
                config_visible = (username \<noteq> [] \<and> user_role \<in> set OWNER_TIER),
                effective_default_scope = effective_scope_of available scope username user_role,
                vis_is_service = (username = []),
                history_owner = (if shared_only then shared_chat_owner agent else user_sub)\<rparr>))"

section \<open>Who opens a chat\<close>

record run_row =
  run_scope :: string
  run_created_by :: "string option"

text \<open>The store's two lookups: the run a chat carries, and a run by id.\<close>

record run_store =
  get_run_for_chat :: "string \<Rightarrow> run_row option"
  get_run :: "string \<Rightarrow> run_row option"

definition run_for_chat :: "run_store \<Rightarrow> row \<Rightarrow> run_row option" where
  "run_for_chat rs chat =
     (case get_run_for_chat rs (col chat ''id'') of
        Some r \<Rightarrow> Some r
      | None \<Rightarrow> if is_task_chat_id (col chat ''id'')
                then get_run rs (run_id_of_chat (col chat ''id'')) else None)"

definition user_scoped :: "run_row \<Rightarrow> bool" where
  "user_scoped r = (or_else (run_scope r) SCOPE_AGENT = SCOPE_USER)"

definition can_access_chat :: "run_store \<Rightarrow> user_context \<Rightarrow> row \<Rightarrow> bool" where
  "can_access_chat rs u chat =
     (if uc_is_admin u then True
      else
       (let owner = col chat ''user_sub''; agent = col chat ''agent'' in
        if of_chat (Some chat) = PHONE \<or> is_phone_chat_owner owner
          then \<not> u_is_api_key u \<and> can_manage_agent u agent
        else if owner = u_sub u then True
        else if is_shared_chat_owner owner then
          (if \<not> Principals.can_access_agent u agent then False
           else if sees_agent_automations u agent then True
           else (case run_for_chat rs chat of None \<Rightarrow> True | Some r \<Rightarrow> user_scoped r))
        else if is_task_chat_owner owner \<or> of_chat (Some chat) = TASK then
          (case run_for_chat rs chat of
             None \<Rightarrow> False
           | Some r \<Rightarrow>
               if user_scoped r then run_created_by r = Some (opt_str (acting_sub u))
               else Principals.can_access_agent u agent \<and> sees_agent_automations u agent)
        else False))"

definition task_continue_allowed :: "run_row \<Rightarrow> string \<Rightarrow> string \<Rightarrow> bool" where
  "task_continue_allowed run role user_sub =
     (if user_scoped run then run_created_by run = Some user_sub \<or> is_admin role
      else can_edit role)"

section \<open>Facts\<close>

lemma scope_words [simp]: "SCOPE_USER \<noteq> SCOPE_AGENT" "SCOPE_AGENT \<noteq> SCOPE_USER"
  "SCOPE_USER \<noteq> []" "SCOPE_AGENT \<noteq> []"
  by (simp_all add: word_defs)

lemma read_agent_mode_scope: "read_agent_mode s rd = Some (c, d) \<Longrightarrow> d \<in> {SCOPE_USER, SCOPE_AGENT}"
  by (auto simp: read_agent_mode_def SCOPES_def Let_def split: agent_read.splits if_splits)

lemma available_nonempty: "available_scopes_for c d \<noteq> []"
  by (simp add: available_scopes_for_def SCOPES_def)

lemma available_subset: "set (available_scopes_for c d) \<subseteq> {SCOPE_USER, SCOPE_AGENT}"
  by (simp add: available_scopes_for_def SCOPES_def)

text \<open>The resolution with its mode opened.\<close>

lemma resolve_visibility_cases:
  assumes "resolve_visibility rd mem agent username user_role user_sub override = Some v"
  obtains c d where "read_agent_mode True rd = Some (c, d)" "d \<in> {SCOPE_USER, SCOPE_AGENT}"
    "collaborative v = c" "default_scope v = d"
    "available_scopes v = available_scopes_for c d"
    "mode v = mode_for c d"
    "mount_scope v = mount_scope_of (available_scopes_for c d) (\<not> c \<and> d = SCOPE_AGENT) username override"
    "mount_username v = (if mount_scope v = SCOPE_USER then username else [])"
    "config_visible v = (username \<noteq> [] \<and> user_role \<in> set OWNER_TIER)"
    "effective_default_scope v = effective_scope_of (available_scopes_for c d) d username user_role"
    "history_owner v = (if \<not> c \<and> d = SCOPE_AGENT then shared_chat_owner agent else user_sub)"
    "mount_shared v = (SCOPE_AGENT \<in> set (available_scopes_for c d))"
    "memory_user_enabled v \<longrightarrow> SCOPE_USER \<in> set (available_scopes_for c d)"
    "memory_agent_enabled v \<longrightarrow> SCOPE_AGENT \<in> set (available_scopes_for c d)"
proof -
  from assms obtain c d where r: "read_agent_mode True rd = Some (c, d)"
    by (auto simp: resolve_visibility_def split: option.splits)
  from assms show thesis
    by (intro that [OF r read_agent_mode_scope [OF r]])
      (auto simp: resolve_visibility_def r Let_def split: prod.splits)
qed

lemma effective_scope_available:
  "effective_scope_of (available_scopes_for c d) d' n r \<in> set (available_scopes_for c d)"
  by (simp add: effective_scope_of_def Let_def available_nonempty)

lemma mount_scope_available:
  "n \<noteq> [] \<Longrightarrow> d \<in> {SCOPE_USER, SCOPE_AGENT} \<Longrightarrow>
   mount_scope_of (available_scopes_for c d) (\<not> c \<and> d = SCOPE_AGENT) n ov
     \<in> set (available_scopes_for c d)"
  by (auto simp: mount_scope_of_def available_scopes_for_def SCOPES_def split: option.splits)

lemma minted_owners [simp]:
  "is_shared_chat_owner (shared_chat_owner a)" "is_task_chat_owner (task_chat_owner a)"
  by (simp_all add: is_shared_chat_owner_def shared_chat_owner_def is_task_chat_owner_def
      task_chat_owner_def starts_with_def word_defs)

lemma mode_words [simp]:
  "MODE_PERSONAL_SHARED \<noteq> MODE_SHARED_ONLY" "MODE_SHARED_PERSONAL \<noteq> MODE_SHARED_ONLY"
  "MODE_PERSONAL_ONLY \<noteq> MODE_SHARED_ONLY"
  by (simp_all add: word_defs)

text \<open>The witnesses' agent and chat: a Shared-only agent; a pooled chat of its; a contributor.\<close>

definition shared_only_row :: agent_read where
  "shared_only_row = Row \<lparr>row_collaborative = Some False, row_default_scope = SCOPE_AGENT\<rparr>"

definition bob :: user_context where
  "bob = (new_context ''bob'' [] ''Bob'' MEMBER)
     \<lparr>u_agents := [''helper''], u_agent_roles := [(''helper'', CONTRIBUTOR)]\<rparr>"

lemma demo_resolution:
  "\<exists>v. resolve_visibility shared_only_row None ''helper'' ''bob'' VIEWER ''b1'' None = Some v \<and>
     available_scopes v = [SCOPE_AGENT] \<and> mode v = MODE_SHARED_ONLY"
proof -
  have "map_option (\<lambda>v. (available_scopes v, mode v))
      (resolve_visibility shared_only_row None ''helper'' ''bob'' VIEWER ''b1'' None) =
    Some ([SCOPE_AGENT], MODE_SHARED_ONLY)" by code_simp
  then show ?thesis by auto
qed

text \<open>C37. Every resolved session is inside its agent's mode: the scope a person's session mounts
  and the default scope of its tools are scopes the mode offers, the memory scopes that are on are
  offered too, a session with no person mounts the agent's tree under no user name and never sees
  the configuration, and the user name of a mount is empty exactly when the mount is the
  agent's or there is no person.\<close>

theorem visibility_within_mode:
  assumes "resolve_visibility rd mem agent username user_role user_sub override = Some v"
  shows "(username \<noteq> [] \<longrightarrow> mount_scope v \<in> set (available_scopes v)) \<and>
    effective_default_scope v \<in> set (available_scopes v) \<and>
    (memory_user_enabled v \<longrightarrow> SCOPE_USER \<in> set (available_scopes v)) \<and>
    (memory_agent_enabled v \<longrightarrow> SCOPE_AGENT \<in> set (available_scopes v)) \<and>
    mount_shared v = (SCOPE_AGENT \<in> set (available_scopes v)) \<and>
    (username = [] \<longrightarrow> mount_scope v = SCOPE_AGENT \<and> \<not> config_visible v) \<and>
    (mount_username v = []) = (mount_scope v = SCOPE_AGENT \<or> username = [])"
  using assms
proof (rule resolve_visibility_cases)
  fix c d
  assume d: "d \<in> {SCOPE_USER, SCOPE_AGENT}"
    and v: "available_scopes v = available_scopes_for c d"
    "mount_scope v = mount_scope_of (available_scopes_for c d) (\<not> c \<and> d = SCOPE_AGENT) username override"
    "mount_username v = (if mount_scope v = SCOPE_USER then username else [])"
    "config_visible v = (username \<noteq> [] \<and> user_role \<in> set OWNER_TIER)"
    "effective_default_scope v = effective_scope_of (available_scopes_for c d) d username user_role"
    "mount_shared v = (SCOPE_AGENT \<in> set (available_scopes_for c d))"
    "memory_user_enabled v \<longrightarrow> SCOPE_USER \<in> set (available_scopes_for c d)"
    "memory_agent_enabled v \<longrightarrow> SCOPE_AGENT \<in> set (available_scopes_for c d)"
  have two: "mount_scope v \<in> {SCOPE_USER, SCOPE_AGENT}" if "username \<noteq> []"
    using mount_scope_available [OF that d, of c override] available_subset [of c d] by (auto simp: v(2))
  have none: "mount_scope v = SCOPE_AGENT" if "username = []"
    using that by (simp add: v mount_scope_of_def)
  show ?thesis
    using mount_scope_available [OF _ d] effective_scope_available two none v by auto
qed

theorem visibility_within_mode_witness:
  "\<exists>v. resolve_visibility shared_only_row None ''helper'' ''bob'' VIEWER ''b1'' None = Some v \<and>
     mount_scope v = SCOPE_AGENT \<and> mount_username v = []"
proof -
  obtain v where v: "resolve_visibility shared_only_row None ''helper'' ''bob'' VIEWER ''b1'' None = Some v"
    and "available_scopes v = [SCOPE_AGENT]" using demo_resolution by blast
  with v visibility_within_mode [OF v] show ?thesis by auto
qed

text \<open>Shared history is exactly the Shared-only mode: the history of a session is filed under
  the agent's synthetic owner when the mode is Shared only, and under the person otherwise; the
  best-effort helper agrees with it whenever the mode was readable, and files under the person
  when it was not.\<close>

theorem shared_history_owner:
  assumes "resolve_visibility rd mem agent username user_role user_sub override = Some v"
    and "\<not> is_shared_chat_owner user_sub"
  shows "(mode v = MODE_SHARED_ONLY) = is_shared_chat_owner (history_owner v) \<and>
    history_owner v = (if mode v = MODE_SHARED_ONLY then shared_chat_owner agent else user_sub) \<and>
    chat_history_owner rd agent user_sub = history_owner v \<and>
    chat_history_owner Unreadable agent user_sub = user_sub"
  using assms(1)
proof (rule resolve_visibility_cases)
  fix c d
  assume r: "read_agent_mode True rd = Some (c, d)" and d: "d \<in> {SCOPE_USER, SCOPE_AGENT}"
    and v: "mode v = mode_for c d"
    "history_owner v = (if \<not> c \<and> d = SCOPE_AGENT then shared_chat_owner agent else user_sub)"
  have "read_agent_mode False rd = Some (c, d)"
    using r by (simp add: read_agent_mode_def split: agent_read.splits)
  then show ?thesis using d assms(2)
    by (auto simp: v chat_history_owner_def read_agent_mode_def [of False Unreadable] mode_for_def)
qed

theorem shared_history_owner_witness:
  "chat_history_owner shared_only_row ''helper'' ''b1'' = ''agent::helper''"
proof -
  obtain v where v: "resolve_visibility shared_only_row None ''helper'' ''bob'' VIEWER ''b1'' None = Some v"
    and "mode v = MODE_SHARED_ONLY"
    using demo_resolution by blast
  moreover have "\<not> is_shared_chat_owner ''b1''" by code_simp
  ultimately show ?thesis using shared_history_owner [OF v]
    by (simp add: shared_chat_owner_def word_defs)
qed

text \<open>The three synthetic owners never overlap, and no minted owner of one kind passes the
  test of another.\<close>

theorem synthetic_owners_disjoint:
  "is_shared_chat_owner (shared_chat_owner a) \<and> is_task_chat_owner (task_chat_owner a) \<and>
   \<not> (is_shared_chat_owner p \<and> is_task_chat_owner p) \<and>
   \<not> (is_phone_chat_owner p \<and> (is_shared_chat_owner p \<or> is_task_chat_owner p)) \<and>
   (is_synthetic_owner p =
      (p = PHONE_CHAT_OWNER \<or> (\<exists>a. p = shared_chat_owner a) \<or> (\<exists>a. p = task_chat_owner a)))"
  by (auto simp: is_shared_chat_owner_def is_task_chat_owner_def is_phone_chat_owner_def
      is_synthetic_owner_def shared_chat_owner_def task_chat_owner_def starts_with_iff word_defs)

text \<open>Who opens another's chat: a caller who is no platform admin and does not own the row
  opens it only as a manager at a dashboard (a phone call), as a principal with access to its
  agent (a shared pool, an agent-scoped run), or as the creator of its user-scoped run.\<close>

theorem chat_access_needs_a_claim:
  assumes "can_access_chat rs u chat" "\<not> uc_is_admin u" "col chat ''user_sub'' \<noteq> u_sub u"
  shows "(\<not> u_is_api_key u \<and> can_manage_agent u (col chat ''agent'')) \<or>
    Principals.can_access_agent u (col chat ''agent'') \<or>
    (\<exists>r. run_for_chat rs chat = Some r \<and> user_scoped r \<and>
       run_created_by r = Some (opt_str (acting_sub u)))"
  using assms
  by (auto simp: can_access_chat_def Let_def split: if_splits option.splits)

theorem chat_access_needs_a_claim_witness:
  "(\<not> u_is_api_key bob \<and> can_manage_agent bob ''helper'') \<or>
   Principals.can_access_agent bob ''helper'' \<or> acting_sub bob = None"
proof -
  let ?chat = "[''user_sub'' \<mapsto> ''agent::helper'', ''agent'' \<mapsto> ''helper'']"
  let ?rs = "\<lparr>get_run_for_chat = (\<lambda>c. None), get_run = (\<lambda>c. None)\<rparr>"
  have "can_access_chat ?rs bob ?chat" by code_simp
  moreover have "\<not> uc_is_admin bob" "col ?chat ''user_sub'' \<noteq> u_sub bob" "col ?chat ''agent'' = ''helper''"
    by code_simp+
  moreover have "run_for_chat ?rs ?chat = None" by code_simp
  ultimately show ?thesis using chat_access_needs_a_claim [of ?rs bob ?chat] by auto
qed

end
