(* ===== verification/Placement.thy ===== *)
theory Placement
  imports Prelude
begin

text \<open>
  \<open>proxy/core/host_os.py\<close> and \<open>proxy/core/placement.py\<close>: the host families as a table, the stored
  execution target and its offline sentinel, the guard of who runs on a machine, and the resolved
  placement of a session with the roots of the platform's own state on the machine.

  A target Python passes as \<open>None\<close> is the empty word. A JSON column is what \<open>json.loads\<close> makes of
  it; Python's \<open>str\<close> of a JSON value that is no string is the argument \<open>pystr\<close>.
\<close>

section \<open>The host families\<close>

definition LINUX :: string where [word_defs]: "LINUX = ''linux''"
definition DARWIN :: string where [word_defs]: "DARWIN = ''darwin''"
definition WINDOWS :: string where [word_defs]: "WINDOWS = ''windows''"
definition FAMILIES :: "string list" where "FAMILIES = [LINUX, DARWIN, WINDOWS]"

record host_os =
  os_name :: string
  dirname :: string
  exe_suffix :: string
  venv_bin :: string
  python_exe :: string
  base_python :: "string list"
  posix :: bool
  peercred :: bool
  case_insensitive :: bool
  conpty :: bool
  locks_running_files :: bool
  service_manager :: string
  powershell :: bool
  tray :: bool
  display_server :: string
  xdg_user_dirs :: bool
  videos_folder :: string

definition script_suffix :: "host_os \<Rightarrow> string" where
  "script_suffix r = (if powershell r then ''.ps1'' else ''.sh'')"

definition LINUX_ROW :: host_os where
  "LINUX_ROW = \<lparr>os_name = LINUX, dirname = ''.oto-dock'', exe_suffix = [], venv_bin = ''bin'',
     python_exe = ''python3'', base_python = [''bin'', ''python3''], posix = True, peercred = True,
     case_insensitive = False, conpty = False, locks_running_files = False,
     service_manager = ''systemd'', powershell = False, tray = False, display_server = [],
     xdg_user_dirs = True, videos_folder = ''Videos''\<rparr>"

definition DARWIN_ROW :: host_os where
  "DARWIN_ROW = \<lparr>os_name = DARWIN, dirname = ''.oto-dock'', exe_suffix = [], venv_bin = ''bin'',
     python_exe = ''python3'', base_python = [''bin'', ''python3''], posix = True, peercred = False,
     case_insensitive = True, conpty = False, locks_running_files = False,
     service_manager = ''launchd'', powershell = False, tray = False, display_server = ''quartz'',
     xdg_user_dirs = False, videos_folder = ''Movies''\<rparr>"

definition WINDOWS_ROW :: host_os where
  "WINDOWS_ROW = \<lparr>os_name = WINDOWS, dirname = ''OtoDock'', exe_suffix = ''.exe'',
     venv_bin = ''Scripts'', python_exe = ''python'', base_python = [''python.exe''], posix = False,
     peercred = False, case_insensitive = True, conpty = True, locks_running_files = True,
     service_manager = ''schtasks'', powershell = True, tray = True, display_server = ''windows'',
     xdg_user_dirs = False, videos_folder = ''Videos''\<rparr>"

definition OTHER_ROW :: host_os where
  "OTHER_ROW = \<lparr>os_name = [], dirname = ''.oto-dock'', exe_suffix = [], venv_bin = ''bin'',
     python_exe = ''python3'', base_python = [''bin'', ''python3''], posix = True, peercred = False,
     case_insensitive = False, conpty = False, locks_running_files = False,
     service_manager = [], powershell = False, tray = False, display_server = ''none'',
     xdg_user_dirs = False, videos_folder = ''Videos''\<rparr>"

definition ROWS :: "(string \<times> host_os) list" where
  "ROWS = [(LINUX, LINUX_ROW), (DARWIN, DARWIN_ROW), (WINDOWS, WINDOWS_ROW), ([], OTHER_ROW)]"

definition family_of :: "string \<Rightarrow> string" where
  "family_of sys_platform =
     (if sys_platform = ''win32'' then WINDOWS
      else if sys_platform = ''darwin'' then DARWIN
      else if starts_with sys_platform ''linux'' then LINUX
      else [])"

definition of_word :: "string \<Rightarrow> host_os option" where
  "of_word word =
     (let w = lower (strip word) in
      if w = [] \<or> w \<notin> set FAMILIES then None else lookup ROWS w)"

definition host_row :: "string \<Rightarrow> string \<Rightarrow> host_os option" where
  "host_row sys_platform system =
     (let fam = family_of sys_platform in
      if fam \<noteq> [] then lookup ROWS fam
      else map_option (\<lambda>r. r\<lparr>os_name := lower system\<rparr>) (lookup ROWS []))"

definition BOOTSTRAP_WORDS :: "(string \<times> string) list" where
  "BOOTSTRAP_WORDS = [(''linux'', LINUX), (''unix'', LINUX), (''macos'', DARWIN),
     (''windows'', WINDOWS), (''win'', WINDOWS), (''win32'', WINDOWS)]"

definition bootstrap_family :: "string \<Rightarrow> string" where
  "bootstrap_family word = get_or (lookup BOOTSTRAP_WORDS) word []"

section \<open>The stored target value\<close>

definition LOCAL :: string where [word_defs]: "LOCAL = ''local''"
definition OFFLINE_PREFIX :: string where [word_defs]: "OFFLINE_PREFIX = ''__offline__:''"

definition target_is_local :: "string \<Rightarrow> bool" where
  "target_is_local t = (t = [] \<or> t = LOCAL)"

definition is_offline_sentinel :: "string \<Rightarrow> bool" where
  "is_offline_sentinel t = (t \<noteq> [] \<and> starts_with t OFFLINE_PREFIX)"

definition offline_sentinel :: "string \<Rightarrow> string" where
  "offline_sentinel machine_id = OFFLINE_PREFIX @ machine_id"

definition offline_machine_of :: "string \<Rightarrow> string" where
  "offline_machine_of t =
     (if is_offline_sentinel t then drop (length OFFLINE_PREFIX) t else [])"

definition machine_of :: "string \<Rightarrow> string" where
  "machine_of t =
     (if target_is_local t then []
      else if is_offline_sentinel t then offline_machine_of t
      else t)"

definition runs_on :: "string \<Rightarrow> string \<Rightarrow> bool" where
  "runs_on t machine_id =
     (machine_id \<noteq> [] \<and> \<not> is_offline_sentinel t \<and> machine_of t = machine_id)"

section \<open>The machine row and the guard\<close>

definition KIND_LOCAL :: string where [word_defs]: "KIND_LOCAL = ''local''"
definition KIND_ADMIN_REMOTE :: string where [word_defs]: "KIND_ADMIN_REMOTE = ''admin_remote''"
definition KIND_USER_REMOTE :: string where [word_defs]: "KIND_USER_REMOTE = ''user_remote''"
definition REMOTE_KINDS :: "string list" where
  "REMOTE_KINDS = [KIND_ADMIN_REMOTE, KIND_USER_REMOTE]"
definition PAIRING_ADMIN :: string where [word_defs]: "PAIRING_ADMIN = ''admin''"
definition PAIRING_USER :: string where [word_defs]: "PAIRING_USER = ''user''"

record machine_row =
  mr_id :: string
  mr_name :: string
  mr_pairing_scope :: string
  mr_registered_by :: string
  mr_all_roles_run_here :: bool
  mr_allow_full_fs :: bool
  mr_capabilities :: "json option"
  mr_device_grants :: "json option"

definition machine_is_admin_paired :: "machine_row option \<Rightarrow> bool" where
  "machine_is_admin_paired machine =
     (case machine of None \<Rightarrow> False | Some r \<Rightarrow> mr_pairing_scope r = PAIRING_ADMIN)"

definition admits_every_role :: "machine_row option \<Rightarrow> string \<Rightarrow> bool" where
  "admits_every_role machine agent_default =
     (if \<not> machine_is_admin_paired machine then False
      else (case machine of None \<Rightarrow> False
            | Some r \<Rightarrow> mr_all_roles_run_here r \<and> mr_id r \<noteq> [] \<and> machine_of agent_default = mr_id r))"

definition may_run_on :: "machine_row option \<Rightarrow> string \<Rightarrow> bool \<Rightarrow> bool \<Rightarrow> string \<Rightarrow> bool" where
  "may_run_on machine run_sub run_can_manage user_paired_allowed agent_default =
     (case machine of
        None \<Rightarrow> False
      | Some r \<Rightarrow>
          if machine_is_admin_paired machine
          then run_sub = [] \<or> run_can_manage \<or> admits_every_role machine agent_default
          else run_sub \<noteq> [] \<and> user_paired_allowed \<and> mr_registered_by r = run_sub)"

section \<open>The resolved placement\<close>

record placement =
  p_kind :: string
  machine_id :: string
  p_label :: string
  os :: string
  home_dir :: string
  agents_dir :: string
  os_user :: string
  allow_full_fs :: bool
  claude_runtime_root :: string
  user_dirs :: dict
  device_grants :: "string list"
  has_display :: "bool option"
  reported_otodock_dir :: string
  mcps_dir :: string
  unresolved_home_dir :: string
  unresolved_otodock_dir :: string

definition placement_of_kind :: "string \<Rightarrow> string \<Rightarrow> placement" where
  "placement_of_kind k lbl =
     \<lparr>p_kind = k, machine_id = [], p_label = lbl, os = [], home_dir = [], agents_dir = [],
      os_user = [], allow_full_fs = False, claude_runtime_root = [], user_dirs = [],
      device_grants = [], has_display = None, reported_otodock_dir = [], mcps_dir = [],
      unresolved_home_dir = [], unresolved_otodock_dir = []\<rparr>"

definition LOCAL_PLACEMENT :: placement where
  "LOCAL_PLACEMENT = placement_of_kind KIND_LOCAL []"

definition is_remote :: "placement \<Rightarrow> bool" where
  "is_remote p = (p_kind p \<in> set REMOTE_KINDS)"

definition admin_paired :: "placement \<Rightarrow> bool" where
  "admin_paired p = (p_kind p = KIND_ADMIN_REMOTE)"

definition user_paired :: "placement \<Rightarrow> bool" where
  "user_paired p = (p_kind p = KIND_USER_REMOTE)"

definition isolates_with_bwrap :: "placement \<Rightarrow> bool" where
  "isolates_with_bwrap p = (\<not> is_remote p)"

definition needs_path_translation :: "placement \<Rightarrow> bool" where
  "needs_path_translation p = is_remote p"

definition counts_toward_capacity :: "placement \<Rightarrow> bool" where
  "counts_toward_capacity p = (\<not> is_remote p)"

definition site :: "placement \<Rightarrow> string" where
  "site p = (if is_remote p \<and> machine_id p \<noteq> [] then ''machine'' else ''local'')"

definition has_drive :: "string \<Rightarrow> bool" where
  "has_drive s = (case s of
     a # c # d # _ \<Rightarrow> is_letter a \<and> c = CHR 58 \<and> (d = CHR 92 \<or> d = SLASH) | _ \<Rightarrow> False)"

definition os_family :: "placement \<Rightarrow> string" where
  "os_family p =
     (if os p \<in> set FAMILIES then os p
      else if has_drive (slashes (agents_dir p)) \<or> has_drive (slashes (home_dir p)) then WINDOWS
      else if contains (home_dir p) ''/Users/'' then DARWIN
      else LINUX)"

definition family_dirname :: "placement \<Rightarrow> string" where
  "family_dirname p = (case of_word (os_family p) of None \<Rightarrow> [] | Some r \<Rightarrow> dirname r)"

definition clean_root :: "string \<Rightarrow> string" where
  "clean_root s = rstrip_char SLASH (slashes s)"

definition STATE_DIRNAMES :: "string list" where
  "STATE_DIRNAMES = map (\<lambda>f. case of_word f of None \<Rightarrow> [] | Some r \<Rightarrow> dirname r) FAMILIES"

definition derived_otodock_dir :: "placement \<Rightarrow> string" where
  "derived_otodock_dir p =
     (if home_dir p \<noteq> [] then clean_root (home_dir p) @ ''/'' @ family_dirname p
      else
        (let segs = split_on SLASH (clean_root (agents_dir p));
             parent = butlast segs
         in if last segs = ''agents'' \<and> parent \<noteq> [] \<and> last parent \<in> set STATE_DIRNAMES
            then join_on ''/'' parent else []))"

definition otodock_dir :: "placement \<Rightarrow> string" where
  "otodock_dir p = or_else (reported_otodock_dir p) (derived_otodock_dir p)"

text \<open>Adding one root: cleaned, skipped when it is empty or lies under a listed one.\<close>

definition root_key :: "bool \<Rightarrow> string \<Rightarrow> string" where
  "root_key ci s = (if ci then lower s else s)"

definition covers :: "bool \<Rightarrow> string \<Rightarrow> string \<Rightarrow> bool" where
  "covers ci have key = (key = root_key ci have \<or> starts_with key (root_key ci have @ ''/''))"

definition add_root :: "bool \<Rightarrow> string list \<Rightarrow> string \<Rightarrow> string list" where
  "add_root ci roots raw =
     (let r = clean_root raw in
      if r = [] then roots
      else if list_ex (\<lambda>have. covers ci have (root_key ci r)) roots then roots
      else roots @ [r])"

definition state_roots :: "placement \<Rightarrow> string list" where
  "state_roots p =
     (let ci = (os_family p = WINDOWS);
          homes = map clean_root (filter (\<lambda>h. h \<noteq> []) [home_dir p, unresolved_home_dir p])
      in [reported_otodock_dir p, derived_otodock_dir p, unresolved_otodock_dir p]
         @ (if unresolved_home_dir p \<noteq> [] then [last homes @ ''/'' @ family_dirname p] else [])
         @ [mcps_dir p]
         @ (if ci then map (\<lambda>h. h @ ''/.oto-dock'') homes else []))"

definition state_dirs :: "placement \<Rightarrow> string list" where
  "state_dirs p = foldl (add_root (os_family p = WINDOWS)) [] (state_roots p)"

section \<open>Reading a machine row\<close>

definition parse_device_grants :: "(json \<Rightarrow> string) \<Rightarrow> json option \<Rightarrow> string list" where
  "parse_device_grants pystr raw = (case raw of Some (JArr xs) \<Rightarrow> map pystr xs | _ \<Rightarrow> [])"

text \<open>\<open>str(caps.get(k) or '')\<close>\<close>

definition cap_str :: "(json \<Rightarrow> string) \<Rightarrow> dict \<Rightarrow> string \<Rightarrow> string" where
  "cap_str pystr caps k = (case dget caps k of None \<Rightarrow> []
     | Some v \<Rightarrow> if truthy (Some v) then (case v of JStr s \<Rightarrow> s | _ \<Rightarrow> pystr v) else [])"

definition cap_display :: "dict \<Rightarrow> bool option" where
  "cap_display caps = (case dget caps ''display'' of
     Some (JObj d) \<Rightarrow> (case dget d ''has_display'' of None \<Rightarrow> None | Some v \<Rightarrow> Some (truthy (Some v)))
   | _ \<Rightarrow> None)"

definition cap_user_dirs :: "dict \<Rightarrow> dict" where
  "cap_user_dirs caps = (case dget caps ''user_dirs'' of Some (JObj d) \<Rightarrow> d | _ \<Rightarrow> [])"

definition from_machine :: "(json \<Rightarrow> string) \<Rightarrow> string \<Rightarrow> machine_row option \<Rightarrow> placement" where
  "from_machine pystr k machine =
     (case machine of
        None \<Rightarrow> placement_of_kind k []
      | Some r \<Rightarrow>
          (case mr_capabilities r of
             Some (JObj caps) \<Rightarrow>
               \<lparr>p_kind = k, machine_id = mr_id r, p_label = mr_name r,
                os = cap_str pystr caps ''os'',
                home_dir = cap_str pystr caps ''home_dir'',
                agents_dir = cap_str pystr caps ''agents_dir'',
                os_user = cap_str pystr caps ''os_user'',
                allow_full_fs = mr_allow_full_fs r,
                claude_runtime_root = cap_str pystr caps ''claude_runtime_root'',
                user_dirs = cap_user_dirs caps,
                device_grants = parse_device_grants pystr (mr_device_grants r),
                has_display = cap_display caps,
                reported_otodock_dir = cap_str pystr caps ''otodock_dir'',
                mcps_dir = cap_str pystr caps ''mcps_dir'',
                unresolved_home_dir = cap_str pystr caps ''home_dir_unresolved'',
                unresolved_otodock_dir = cap_str pystr caps ''otodock_dir_unresolved''\<rparr>
           | _ \<Rightarrow> placement_of_kind k (mr_name r)))"

section \<open>Facts\<close>

lemma family_words [simp]:
  "of_word LINUX = Some LINUX_ROW" "of_word DARWIN = Some DARWIN_ROW"
  "of_word WINDOWS = Some WINDOWS_ROW"
  by code_simp+

lemma os_family_known: "os_family p \<in> {LINUX, DARWIN, WINDOWS}"
  by (auto simp: os_family_def FAMILIES_def)

lemma family_dirname_nonempty: "family_dirname p \<noteq> []"
  using os_family_known [of p]
  by (auto simp: family_dirname_def LINUX_ROW_def DARWIN_ROW_def WINDOWS_ROW_def)

text \<open>Targets: the sentinel of a machine names that machine, never equals a live one and is
  not local; a stored value names a machine exactly when it is neither local nor the empty
  sentinel; and a session runs on a machine only under that machine's own id.\<close>

theorem target_round_trip:
  "is_offline_sentinel (offline_sentinel m) \<and> offline_machine_of (offline_sentinel m) = m \<and>
   machine_of (offline_sentinel m) = m \<and> \<not> runs_on (offline_sentinel m) m' \<and>
   (machine_of t = []) = (target_is_local t \<or> t = offline_sentinel []) \<and>
   (runs_on t m) = (t = m \<and> m \<noteq> [] \<and> m \<noteq> LOCAL \<and> \<not> is_offline_sentinel m)"
  by (auto simp: is_offline_sentinel_def offline_sentinel_def offline_machine_of_def machine_of_def
      target_is_local_def runs_on_def starts_with_iff word_defs)

text \<open>The placement guard: a person below the owner tier runs on an admin machine only where
  its admin turned every role on and it is the agent's own default; on a personal machine only its
  owner runs, and never a run with no person; no row admits nobody.\<close>

theorem placement_guard:
  "may_run_on m run_sub can_manage allowed dflt \<longleftrightarrow>
   (\<exists>r. m = Some r \<and>
     (if mr_pairing_scope r = PAIRING_ADMIN then
        run_sub = [] \<or> can_manage \<or>
        (mr_all_roles_run_here r \<and> mr_id r \<noteq> [] \<and>
          (dflt = mr_id r \<and> dflt \<noteq> LOCAL \<and> \<not> is_offline_sentinel dflt \<or> dflt = offline_sentinel (mr_id r)))
      else run_sub \<noteq> [] \<and> allowed \<and> mr_registered_by r = run_sub))"
proof -
  have "machine_of dflt = i \<longleftrightarrow>
      dflt = i \<and> dflt \<noteq> LOCAL \<and> \<not> is_offline_sentinel dflt \<or> dflt = offline_sentinel i"
    if "i \<noteq> []" for i
    using that
    by (auto simp: machine_of_def target_is_local_def is_offline_sentinel_def offline_sentinel_def
        offline_machine_of_def starts_with_iff word_defs)
  then show ?thesis
    by (auto simp: may_run_on_def machine_is_admin_paired_def admits_every_role_def
        split: option.split if_splits)
qed

lemma covers_refl: "covers ci r (root_key ci r)"
  by (simp add: covers_def)

lemma root_key_append [simp]: "root_key ci (a @ b) = root_key ci a @ root_key ci b"
  by (simp add: root_key_def lower_def)

lemma covers_trans:
  "covers ci a (root_key ci b) \<Longrightarrow> covers ci b key \<Longrightarrow> covers ci a key"
  by (auto simp: covers_def starts_with_iff root_key_def lower_def split: if_splits)

lemma add_root_keeps: "x \<in> set roots \<Longrightarrow> x \<in> set (add_root ci roots raw)"
  by (simp add: add_root_def Let_def)

lemma foldl_add_root_keeps: "x \<in> set roots \<Longrightarrow> x \<in> set (foldl (add_root ci) roots raws)"
  by (induction raws arbitrary: roots) (auto simp: add_root_keeps)

lemma add_root_covers:
  "clean_root raw \<noteq> [] \<Longrightarrow>
   \<exists>have \<in> set (add_root ci roots raw). covers ci have (root_key ci (clean_root raw))"
  by (auto simp: add_root_def Let_def list_ex_iff covers_refl)

lemma foldl_add_root_covers:
  "raw \<in> set raws \<Longrightarrow> clean_root raw \<noteq> [] \<Longrightarrow>
   \<exists>have \<in> set (foldl (add_root ci) roots raws). covers ci have (root_key ci (clean_root raw))"
proof (induction raws arbitrary: roots)
  case (Cons r rs)
  show ?case
  proof (cases "raw = r")
    case True
    with add_root_covers [OF Cons.prems(2)] foldl_add_root_keeps show ?thesis by fastforce
  next
    case False
    with Cons show ?thesis by simp
  qed
qed simp

lemma add_root_sound:
  "x \<in> set (foldl (add_root ci) roots raws) \<Longrightarrow>
   x \<in> set roots \<or> (\<exists>raw \<in> set raws. x = clean_root raw \<and> x \<noteq> [])"
  by (induction raws arbitrary: roots) (fastforce simp: add_root_def Let_def split: if_splits)+

lemma add_root_antichain:
  "\<forall>i j. i < j \<and> j < length roots \<longrightarrow> \<not> covers ci (roots ! i) (root_key ci (roots ! j)) \<Longrightarrow>
   \<forall>i j. i < j \<and> j < length (foldl (add_root ci) roots raws) \<longrightarrow>
     \<not> covers ci (foldl (add_root ci) roots raws ! i)
         (root_key ci (foldl (add_root ci) roots raws ! j))"
proof (induction raws arbitrary: roots)
  case (Cons r rs)
  have "\<forall>i j. i < j \<and> j < length (add_root ci roots r) \<longrightarrow>
      \<not> covers ci (add_root ci roots r ! i) (root_key ci (add_root ci roots r ! j))"
    using Cons.prems
    by (auto simp: add_root_def Let_def list_ex_iff nth_append less_Suc_eq split: if_splits)
  from Cons.IH [OF this] show ?case by simp
qed simp

text \<open>The roots refused to every remote session: every root the machine reported or the proxy
  derives is at or under a listed one (Windows folds case), every listed one is such a root,
  cleaned and non-empty, and no listed one lies under an earlier one.\<close>

theorem state_dirs_cover:
  "(raw \<in> set (state_roots p) \<and> clean_root raw \<noteq> [] \<longrightarrow>
     list_ex (\<lambda>d. covers (os_family p = WINDOWS) d (root_key (os_family p = WINDOWS) (clean_root raw)))
       (state_dirs p)) \<and>
   list_all (\<lambda>d. d \<noteq> [] \<and> d \<in> clean_root ` set (state_roots p)) (state_dirs p) \<and>
   (i < j \<and> j < length (state_dirs p) \<longrightarrow>
     \<not> covers (os_family p = WINDOWS) (state_dirs p ! i)
         (root_key (os_family p = WINDOWS) (state_dirs p ! j)))"
proof (intro conjI impI)
  show "raw \<in> set (state_roots p) \<and> clean_root raw \<noteq> [] \<Longrightarrow>
     list_ex (\<lambda>d. covers (os_family p = WINDOWS) d (root_key (os_family p = WINDOWS) (clean_root raw)))
       (state_dirs p)"
    using foldl_add_root_covers unfolding state_dirs_def list_ex_iff by blast
  show "list_all (\<lambda>d. d \<noteq> [] \<and> d \<in> clean_root ` set (state_roots p)) (state_dirs p)"
    using add_root_sound [where roots = "[]"] unfolding state_dirs_def list_all_iff by fastforce
  show "i < j \<and> j < length (state_dirs p) \<Longrightarrow>
     \<not> covers (os_family p = WINDOWS) (state_dirs p ! i)
         (root_key (os_family p = WINDOWS) (state_dirs p ! j))"
    using add_root_antichain [where roots = "[]"] unfolding state_dirs_def by simp
qed

definition demo_machine :: placement where
  "demo_machine = (placement_of_kind KIND_USER_REMOTE ''pc'')
     \<lparr>os := WINDOWS, home_dir := ''C:/Users/Ann'', mcps_dir := ''D:/mcps/''\<rparr>"

theorem state_dirs_cover_witness:
  "state_dirs demo_machine = [''C:/Users/Ann/OtoDock'', ''D:/mcps'', ''C:/Users/Ann/.oto-dock''] \<and>
   list_ex (\<lambda>d. covers True d (lower ''D:/mcps'')) (state_dirs demo_machine) \<and>
   \<not> covers True (state_dirs demo_machine ! 0) (root_key True (state_dirs demo_machine ! 1))"
proof -
  have d: "state_dirs demo_machine = [''C:/Users/Ann/OtoDock'', ''D:/mcps'', ''C:/Users/Ann/.oto-dock'']"
    by code_simp
  have w: "(os_family demo_machine = WINDOWS) = True" by code_simp
  have r: "''D:/mcps/'' \<in> set (state_roots demo_machine)" "clean_root ''D:/mcps/'' \<noteq> []"
    "root_key True (clean_root ''D:/mcps/'') = lower ''D:/mcps''" by code_simp+
  have "(0::nat) < 1" "1 < length (state_dirs demo_machine)" by (simp_all add: d)
  with state_dirs_cover [of "''D:/mcps/''" demo_machine 0 1] r
  have "list_ex (\<lambda>d. covers True d (lower ''D:/mcps'')) (state_dirs demo_machine)"
    "\<not> covers True (state_dirs demo_machine ! 0) (root_key True (state_dirs demo_machine ! 1))"
    unfolding w r(3) by blast+
  with d show ?thesis by blast
qed

end
