(* ===== verification/PathRoles.thy ===== *)
theory PathRoles
  imports Roles Layout
begin

text \<open>
  \<open>proxy/services/path_roles.py\<close>: which paths hold credentials or the session's own CLI
  configuration, which belong to the session's runtime, and the virtual path a role of a manifest's
  \<open>path_env\<close> resolves to.

  A path is its \<open>pathlib\<close> parts. The credentials subpaths the installed manifests declare are the
  argument \<open>protected\<close>. The two regular expressions over raw command text are not modelled.
\<close>

definition SESSION_ID_TOKEN :: string where [word_defs]: "SESSION_ID_TOKEN = ''{session_id}''"

section \<open>Protected paths\<close>

definition is_protected_credentials_path :: "string list \<Rightarrow> string list \<Rightarrow> bool" where
  "is_protected_credentials_path protected parts = list_ex (\<lambda>part. part \<in> set protected) parts"

definition CLAUDE_DIR :: string where [word_defs]: "CLAUDE_DIR = ''.claude''"
definition CODEX_DIR :: string where [word_defs]: "CODEX_DIR = ''.codex''"
definition STATE_DIRS :: "string list" where "STATE_DIRS = [CLAUDE_DIR, CODEX_DIR]"
definition DEV_MODS_DIR :: string where [word_defs]: "DEV_MODS_DIR = ''dev-mods''"
definition CODEX_SECRET_FILES :: "string list" where
  "CODEX_SECRET_FILES = [''config.toml'', ''auth.json'']"

text \<open>The two last components of a path, as the code's negative indices read them.\<close>

definition at_scope_root :: "string list \<Rightarrow> bool" where
  "at_scope_root before =
     (if before = [] then False
      else if last before \<in> {WORKSPACE, KNOWLEDGE} then True
      else if length before \<ge> 2 \<and> before ! (length before - 2) = USERS then True
      else if before = [''/'', ''tmp''] then True
      else if last before = ''caller'' \<and> length before \<le> 2 then True
      else if ''externals'' \<in> set before then
        length (tl (dropWhile (\<lambda>p. p \<noteq> ''externals'') before)) \<in> {2, 3}
      else False)"

definition under_dev_mods :: "string list \<Rightarrow> bool" where
  "under_dev_mods parts =
     list_ex (\<lambda>i. parts ! i \<in> set STATE_DIRS \<and> parts ! (i + 1) = DEV_MODS_DIR \<and>
                  at_scope_root (take i parts)) [0 ..< length parts - 2]"

definition is_protected_agent_config_path :: "string list \<Rightarrow> bool \<Rightarrow> bool" where
  "is_protected_agent_config_path parts writing =
     (let n = length parts in
      if n < 2 then False
      else
       (let dotdir = parts ! (n - 2); raw = last parts; name = lower raw in
        if dotdir = ''tmp'' \<and> name = ''.claude.json'' then n = 3 \<and> hd parts = ''/''
        else if writing then
          (if raw \<in> set STATE_DIRS then at_scope_root (take (n - 1) parts)
           else if under_dev_mods parts then True
           else if n \<ge> 3 \<and> parts ! (n - 3) \<in> set STATE_DIRS \<and> starts_with name ''__init__.''
                   \<and> at_scope_root (take (n - 3) parts) then True
           else dotdir \<in> set STATE_DIRS \<and> at_scope_root (take (n - 2) parts))
        else if dotdir = CLAUDE_DIR then
          ends_with name ''.json'' \<and> at_scope_root (take (n - 2) parts)
        else if dotdir = CODEX_DIR then
          name \<in> set CODEX_SECRET_FILES \<and> at_scope_root (take (n - 2) parts)
        else False))"

definition in_session_state_dir :: "string list \<Rightarrow> bool" where
  "in_session_state_dir parts =
     list_ex (\<lambda>i. parts ! i \<in> set STATE_DIRS \<and> at_scope_root (take i parts)) [0 ..< length parts]"

section \<open>The session's own runtime\<close>

definition bg_segments :: "string \<Rightarrow> string list" where
  "bg_segments path = map lower (filter (\<lambda>p. p \<noteq> []) (split_on SLASH (slashes path)))"

definition is_claude_segment :: "string \<Rightarrow> bool" where
  "is_claude_segment p = (p = ''claude'' \<or> starts_with p ''claude-'')"

definition is_claude_bg_output_path :: "string \<Rightarrow> string \<Rightarrow> bool" where
  "is_claude_bg_output_path path session_id =
     (let sid = lower session_id; parts = bg_segments path in
      if sid = [] then False
      else if parts = [] \<or> \<not> ends_with (last parts) ''.output'' then False
      else (case dropWhile (\<lambda>p. \<not> is_claude_segment p) parts of
              [] \<Rightarrow> False
            | _ # after_claude \<Rightarrow>
                (case dropWhile (\<lambda>p. p \<noteq> sid) after_claude of
                   [] \<Rightarrow> False
                 | _ # after_sid \<Rightarrow> ''tasks'' \<in> set (butlast after_sid))))"

definition is_session_runtime_path :: "string \<Rightarrow> string \<Rightarrow> string \<Rightarrow> bool \<Rightarrow> bool" where
  "is_session_runtime_path path root session_id ci =
     (if root = [] \<or> session_id = [] then False
      else
       (let clean = (\<lambda>s. rstrip_char SLASH (slashes s));
            c = (if ci then lower (clean path) else clean path);
            p = (if ci then lower (clean root) else clean root)
        in if p = [] \<or> \<not> (c = p \<or> starts_with c (p @ ''/'')) then False
           else (let rel = rstrip_char SLASH (lstrip_char SLASH (drop (length p) c))
                 in if rel = [] then False else lower session_id \<in> set (split_on SLASH rel))))"

section \<open>Role resolution\<close>

definition EXTERNAL_HOME :: string where [word_defs]: "EXTERNAL_HOME = ''/caller''"

datatype role_error = UnknownRole string | MissingSubpath

definition sub_of :: "string \<Rightarrow> string \<Rightarrow> string" where
  "sub_of base sp = (if sp \<noteq> [] then base @ ''/'' @ sp else base)"

definition resolve_role ::
    "string \<Rightarrow> string \<Rightarrow> string \<Rightarrow> string \<Rightarrow> bool \<Rightarrow> bool \<Rightarrow> role_error + string" where
  "resolve_role role username user_role subpath force_config external =
     (let sp = lstrip_char SLASH subpath in
      if role = ''workspace'' then
        Inr (sub_of (if external then EXTERNAL_HOME @ ''/'' @ WORKSPACE else virtual_workspace username) sp)
      else if role = ''user_root'' then
        (if external then Inr (sub_of EXTERNAL_HOME sp)
         else if username = [] then Inr []
         else Inr (sub_of (virtual_user_root username) sp))
      else if role = ''shared_workspace'' then
        (if external then
           (if user_role \<notin> set WORKSPACE_TIER then Inr [] else Inr (sub_of V_WORKSPACE sp))
         else if username = [] then Inr (sub_of V_WORKSPACE sp)
         else if user_role \<in> set WORKSPACE_TIER then Inr (sub_of V_WORKSPACE sp)
         else Inr [])
      else if role = ''config'' then
        (if external then Inr []
         else if force_config \<or> (username \<noteq> [] \<and> user_role \<in> set OWNER_TIER) then Inr V_CONFIG
         else Inr [])
      else if role = ''knowledge_dir'' then Inr (sub_of V_KNOWLEDGE sp)
      else if role = ''credentials_dir'' then
        (if sp = [] then Inl MissingSubpath
         else if username \<noteq> []
           then Inr (virtual_user_root username @ ''/'' @ CREDENTIALS_DIR @ ''/'' @ sp)
         else Inr (V_KNOWLEDGE @ ''/'' @ CREDENTIALS_DIR @ ''/'' @ sp))
      else Inl (UnknownRole role))"

text \<open>A \<open>path_env\<close> entry: its shorthand role and subpath, or its list of them with a separator.\<close>

record path_env_decl =
  decl_role :: string
  decl_subpath :: string
  decl_values :: "(string \<times> string) list"
  decl_join :: string

fun resolve_values :: "string \<Rightarrow> string \<Rightarrow> (string \<times> string) list \<Rightarrow> role_error + string list" where
  "resolve_values username user_role [] = Inr []"
| "resolve_values username user_role ((role, sub) # items) =
     (if role = [] then resolve_values username user_role items
      else (case resolve_role role username user_role sub False False of
              Inl e \<Rightarrow> Inl e
            | Inr v \<Rightarrow> (case resolve_values username user_role items of
                Inl e \<Rightarrow> Inl e
              | Inr vs \<Rightarrow> Inr (if v \<noteq> [] then v # vs else vs))))"

definition resolve_path_env_entry :: "string \<Rightarrow> string \<Rightarrow> path_env_decl \<Rightarrow> role_error + string" where
  "resolve_path_env_entry username user_role d =
     (if decl_values d \<noteq> [] then
        (case resolve_values username user_role (decl_values d) of
           Inl e \<Rightarrow> Inl e
         | Inr vs \<Rightarrow> Inr (join_on (or_else (decl_join d) '':'') vs))
      else if decl_role d = [] then Inr []
      else resolve_role (decl_role d) username user_role (decl_subpath d) False False)"

fun resolve_path_env ::
    "string \<Rightarrow> string \<Rightarrow> (string \<times> path_env_decl) list \<Rightarrow> role_error + (string \<times> string) list" where
  "resolve_path_env username user_role [] = Inr []"
| "resolve_path_env username user_role ((k, d) # ds) =
     (case resolve_path_env_entry username user_role d of
        Inl e \<Rightarrow> Inl e
      | Inr v \<Rightarrow> (case resolve_path_env username user_role ds of
          Inl e \<Rightarrow> Inl e
        | Inr out \<Rightarrow> Inr ((k, v) # out)))"

definition get_multi_value_envs :: "(string \<times> path_env_decl) list \<Rightarrow> (string \<times> string) list" where
  "get_multi_value_envs ds =
     map (\<lambda>(k, d). (k, or_else (decl_join d) '':'')) (filter (\<lambda>(k, d). decl_values d \<noteq> []) ds)"

definition expand_session_id :: "string \<Rightarrow> string \<Rightarrow> string" where
  "expand_session_id value session_id =
     (if contains value SESSION_ID_TOKEN then replace_all SESSION_ID_TOKEN session_id value else value)"

text \<open>\<open>None\<close> stands for a value that is no string, passed through.\<close>

definition expand_session_id_in_env ::
    "(string \<times> string option) list \<Rightarrow> string \<Rightarrow> (string \<times> string option) list" where
  "expand_session_id_in_env e session_id =
     map (\<lambda>(k, v). (k, map_option (\<lambda>s. expand_session_id s session_id) v)) e"

section \<open>Facts\<close>

lemma under_sub_of [simp]: "under (sub_of base sp) base"
  by (simp add: sub_of_def under_def starts_with_iff)

lemma sub_of_nonempty [simp]: "base \<noteq> [] \<Longrightarrow> sub_of base sp \<noteq> []"
  by (simp add: sub_of_def)

lemma virtual_roots_nonempty [simp]: "V_WORKSPACE \<noteq> []" "V_KNOWLEDGE \<noteq> []" "V_CONFIG \<noteq> []"
  "V_USERS \<noteq> []" "EXTERNAL_HOME \<noteq> []"
  by (simp_all add: word_defs)

text \<open>A role resolves inside the session's reach: the config role answers a path only for an
  owner-tier person (or the forced shared-only owner) and never for an external caller, the shared
  workspace only at the workspace tier or with no person, and every answer lies under the person's
  own root, the caller's tree, or a shared root the role names; an error is an unknown role or a
  credentials role without a subpath.\<close>

theorem resolve_role_confined:
  "case resolve_role role username user_role sp force ext of
     Inl e \<Rightarrow> e = MissingSubpath \<and> role = ''credentials_dir'' \<and> lstrip_char SLASH sp = [] \<or>
       e = UnknownRole role
   | Inr v \<Rightarrow> v = [] \<or>
       under v (virtual_user_root username) \<and> username \<noteq> [] \<or>
       under v EXTERNAL_HOME \<and> ext \<or>
       under v V_KNOWLEDGE \<and> role \<in> {''knowledge_dir'', ''credentials_dir''} \<or>
       under v V_WORKSPACE \<and>
         (role = ''workspace'' \<and> username = [] \<or>
          role = ''shared_workspace'' \<and> (username = [] \<and> \<not> ext \<or> can_write_workspace user_role)) \<or>
       v = V_CONFIG \<and> role = ''config'' \<and> \<not> ext \<and> (force \<or> username \<noteq> [] \<and> can_manage user_role)"
proof -
  have deep: "under (a @ ''/'' @ b @ ''/'' @ c) a" "under (a @ ''/'' @ b) a" for a b c
    by (simp_all add: under_def starts_with_iff)
  have ws: "under (sub_of (virtual_user_root u @ SLASH # WORKSPACE) s) (virtual_user_root u)"
    "under (sub_of (EXTERNAL_HOME @ SLASH # WORKSPACE) s) EXTERNAL_HOME"
    "under (a @ SLASH # b @ SLASH # c) a" for u s a b c
    using deep by (simp_all add: sub_of_def)
  show ?thesis
    by (simp add: resolve_role_def Let_def ws virtual_workspace_def
        can_write_workspace_def can_manage_def)
qed

lemma at_scope_root_Nil [simp]: "\<not> at_scope_root []"
  by (simp add: at_scope_root_def)

lemma state_dir_words: "d \<in> set STATE_DIRS \<longleftrightarrow> d = CLAUDE_DIR \<or> d = CODEX_DIR"
  by (simp add: STATE_DIRS_def)

lemma json_not_state_dir: "ends_with (lower raw) ''.json'' \<Longrightarrow> raw \<notin> set STATE_DIRS"
proof
  assume e: "ends_with (lower raw) ''.json''" and "raw \<in> set STATE_DIRS"
  then have "raw = ''.claude'' \<or> raw = ''.codex''" by (simp add: STATE_DIRS_def word_defs)
  then have "\<not> ends_with (lower raw) ''.json''" by (elim disjE) (simp, code_simp)+
  with e show False by simp
qed

lemma secret_not_state_dir: "lower raw \<in> set CODEX_SECRET_FILES \<Longrightarrow> raw \<notin> set STATE_DIRS"
proof
  assume e: "lower raw \<in> set CODEX_SECRET_FILES" and "raw \<in> set STATE_DIRS"
  then have "raw = ''.claude'' \<or> raw = ''.codex''" by (simp add: STATE_DIRS_def word_defs)
  then have "lower raw \<notin> set CODEX_SECRET_FILES" by (elim disjE) (simp, code_simp)+
  with e show False by simp
qed

lemma in_state_dirI:
  "i < length parts \<Longrightarrow> parts ! i \<in> set STATE_DIRS \<Longrightarrow> at_scope_root (take i parts) \<Longrightarrow>
   in_session_state_dir parts"
  by (auto simp: in_session_state_dir_def list_ex_iff)

lemma read_protected_write_protected:
  "is_protected_agent_config_path parts False \<Longrightarrow> is_protected_agent_config_path parts True"
  using json_not_state_dir [of "last parts"] secret_not_state_dir [of "last parts"]
  by (auto simp: is_protected_agent_config_path_def Let_def state_dir_words split: if_splits)

lemma if_chain:
  "(if A then B else if C then D else if E then True else if F then True else G) \<Longrightarrow>
   (A \<and> B) \<or> (C \<and> D) \<or> E \<or> F \<or> G"
  by (auto split: if_splits)

lemma write_protected_state_dir:
  assumes "is_protected_agent_config_path parts True"
  shows "in_session_state_dir parts \<or> (length parts = 3 \<and> take 2 parts = [''/'', ''tmp''])"
proof -
  let ?n = "length parts"
  let ?home = "parts ! (?n - 2) = ''tmp'' \<and> lower (last parts) = ''.claude.json''"
  let ?init = "?n \<ge> 3 \<and> parts ! (?n - 3) \<in> set STATE_DIRS \<and>
    starts_with (lower (last parts)) ''__init__.'' \<and> at_scope_root (take (?n - 3) parts)"
  have n: "?n \<ge> 2" using assms
    by (rule_tac ccontr) (simp add: is_protected_agent_config_path_def Let_def)
  then have lst: "last parts = parts ! (?n - 1)" by (intro last_conv_nth) auto
  have "if ?home then ?n = 3 \<and> hd parts = ''/''
    else if last parts \<in> set STATE_DIRS then at_scope_root (take (?n - 1) parts)
    else if under_dev_mods parts then True else if ?init then True
    else parts ! (?n - 2) \<in> set STATE_DIRS \<and> at_scope_root (take (?n - 2) parts)"
    using assms n unfolding is_protected_agent_config_path_def Let_def by (simp only: if_True not_less if_False)
      (simp split del: if_split)
  from if_chain [OF this] consider
      "parts ! (?n - 2) = ''tmp''" "?n = 3" "hd parts = ''/''"
    | "parts ! (?n - 1) \<in> set STATE_DIRS" "at_scope_root (take (?n - 1) parts)"
    | "under_dev_mods parts"
    | "?n \<ge> 3" "parts ! (?n - 3) \<in> set STATE_DIRS" "at_scope_root (take (?n - 3) parts)"
    | "parts ! (?n - 2) \<in> set STATE_DIRS" "at_scope_root (take (?n - 2) parts)"
    unfolding lst by blast
  then show ?thesis
  proof cases
    case 1
    then obtain a b c where "parts = [a, b, c]" by (auto simp: numeral_3_eq_3 length_Suc_conv)
    with 1 show ?thesis by simp
  next
    case 3
    then obtain i where "i < ?n - 2" "parts ! i \<in> set STATE_DIRS" "at_scope_root (take i parts)"
      by (auto simp: under_dev_mods_def list_ex_iff)
    then show ?thesis using in_state_dirI [of i parts] by simp
  next
    case 2
    then show ?thesis using n in_state_dirI [of "?n - 1" parts] by simp
  next
    case 4
    then show ?thesis using in_state_dirI [of "?n - 3" parts] by simp
  next
    case 5
    then show ?thesis using n in_state_dirI [of "?n - 2" parts] by simp
  qed
qed

lemma state_dir_literal: "d \<in> set STATE_DIRS \<longleftrightarrow> d = ''.claude'' \<or> d = ''.codex''"
  by (simp add: STATE_DIRS_def word_defs)

text \<open>The session's own CLI configuration: what no tool may read no tool may write either; what
  no tool may write is a state directory of the session or lies in one, or is the sandbox home's
  own settings file; and a state directory itself and each file directly in one are refused to
  every write, a child that has a state directory's own name excepted.\<close>

theorem agent_config_protection:
  "(is_protected_agent_config_path parts False \<longrightarrow> is_protected_agent_config_path parts True) \<and>
   (is_protected_agent_config_path parts True \<longrightarrow>
      in_session_state_dir parts \<or> (length parts = 3 \<and> take 2 parts = [''/'', ''tmp''])) \<and>
   (at_scope_root scope \<and> d \<in> set STATE_DIRS \<longrightarrow>
      is_protected_agent_config_path (scope @ [d]) True \<and>
      (f \<notin> set STATE_DIRS \<longrightarrow> is_protected_agent_config_path (scope @ [d, f]) True))"
proof (intro conjI impI)
  show "is_protected_agent_config_path parts False \<Longrightarrow> is_protected_agent_config_path parts True"
    by (rule read_protected_write_protected)
  show "is_protected_agent_config_path parts True \<Longrightarrow>
      in_session_state_dir parts \<or> (length parts = 3 \<and> take 2 parts = [''/'', ''tmp''])"
    by (rule write_protected_state_dir)
next
  assume a: "at_scope_root scope \<and> d \<in> set STATE_DIRS"
  then have ne: "scope \<noteq> []" by auto
  from a have d: "d = ''.claude'' \<or> d = ''.codex''" by (simp add: state_dir_literal)
  then have "lower d \<noteq> ''.claude.json''" by (elim disjE) (simp, code_simp)+
  with a ne show "is_protected_agent_config_path (scope @ [d]) True"
    by (cases scope) (simp_all add: is_protected_agent_config_path_def Let_def)
  assume f: "f \<notin> set STATE_DIRS"
  have "(scope @ [d, f]) ! length scope = d" "d \<noteq> ''tmp''" using d by auto
  with a f show "is_protected_agent_config_path (scope @ [d, f]) True"
    by (simp add: is_protected_agent_config_path_def Let_def)
qed

theorem agent_config_protection_witness:
  "is_protected_agent_config_path [''/'', ''workspace'', ''.claude'', ''settings.json''] True \<and>
   is_protected_agent_config_path [''/'', ''workspace'', ''.claude''] True \<and>
   in_session_state_dir [''/'', ''workspace'', ''.claude'', ''settings.json'']"
proof -
  have r: "is_protected_agent_config_path [''/'', ''workspace'', ''.claude'', ''settings.json''] False"
    by code_simp
  have "at_scope_root [''/'', ''workspace''] \<and> ''.claude'' \<in> set STATE_DIRS" by code_simp
  with r agent_config_protection [of "[''/'', ''workspace'', ''.claude'', ''settings.json'']"
      "[''/'', ''workspace'']" "''.claude''" "[]"]
  show ?thesis by simp
qed

text \<open>The exception is real: under a scope root, a child of \<open>.claude\<close> named \<open>.claude\<close> is not in
  the write set.\<close>

lemma state_dir_child_gap:
  "at_scope_root [''/'', ''workspace''] \<and>
   \<not> is_protected_agent_config_path [''/'', ''workspace'', ''.claude'', ''.claude''] True"
  by code_simp

end
