(* ===== verification/PathResolver.thy ===== *)
theory PathResolver
  imports PathRoles Placement
begin

text \<open>
  \<open>proxy/services/path_policy_v2.py\<close>: the path policy of a session on a paired machine: the
  normalisation of a tool's path argument, the kinds of path, the denials that hold for everybody,
  and the bands a path of the machine is admitted by.

  Paths are strings here, as the machine spells them. The credentials subpaths the installed
  manifests declare are the argument \<open>prot\<close>. The resolver calls itself on the path it anchored or
  translated: it is a \<open>partial_function\<close>, so a call that would never return is \<open>None\<close>.
\<close>

section \<open>Results and context\<close>

datatype path_ref = AgentTree string | SatelliteHost string

datatype denial = EmptyPath | NulPath | OtherUserTilde | NoHomeReported | InvalidPath
  | CredentialsProtected | AgentConfigProtected | SshMaterial | EnvWrite | ContextIncomplete
  | RelativeUp | LocalAbsolute | DoubleSlash | DotOrSpace string | StreamName string
  | ShortName string | MachineState | EnvRead | HomeUnknown | OutsideHome string

record resolution =
  access_path :: string
  res_allowed :: bool
  res_error :: "denial option"
  res_ref :: "path_ref option"
  is_remote_pull :: bool
  is_remote_push :: bool
  sandbox_relative :: string
  res_protected :: bool

record policy_context =
  pc_placement :: placement
  pc_agent_slug :: string
  pc_role :: string
  pc_allowed_roots :: "string list"
  pc_work_cwd :: string
  pc_relative_anchor :: string
  pc_session_id :: string

definition reject :: "denial \<Rightarrow> bool \<Rightarrow> resolution" where
  "reject why protect = \<lparr>access_path = [], res_allowed = False, res_error = Some why, res_ref = None,
     is_remote_pull = False, is_remote_push = False, sandbox_relative = [], res_protected = protect\<rparr>"

definition admit_host :: "string \<Rightarrow> bool \<Rightarrow> resolution" where
  "admit_host p writing = \<lparr>access_path = p, res_allowed = True, res_error = None,
     res_ref = Some (SatelliteHost p), is_remote_pull = \<not> writing, is_remote_push = writing,
     sandbox_relative = [], res_protected = False\<rparr>"

text \<open>The sentence of a denial. \<open>repr\<close> of a component, and the dash two of the sentences hold, in
  UTF-8.\<close>

definition EM_DASH :: string where "EM_DASH = [CHR 0xE2, CHR 0x80, CHR 0x94]"

definition hex_digit :: "nat \<Rightarrow> char" where
  "hex_digit n = ''0123456789abcdef'' ! n"

definition repr_char :: "char \<Rightarrow> char \<Rightarrow> string" where
  "repr_char q c =
     (let n = (of_char c :: nat) in
      if c = CHR 92 \<or> c = q then [CHR 92, c]
      else if n = 9 then [CHR 92, CHR 116]
      else if n = 10 then [CHR 92, CHR 110]
      else if n = 13 then [CHR 92, CHR 114]
      else if n < 32 \<or> (127 \<le> n \<and> n \<le> 160) \<or> n = 173
        then [CHR 92, CHR 120, hex_digit (n div 16), hex_digit (n mod 16)]
      else [c])"

definition py_repr :: "string \<Rightarrow> string" where
  "py_repr s =
     (let q = (if CHR 39 \<in> set s \<and> CHR 34 \<notin> set s then CHR 34 else CHR 39)
      in q # concat (map (repr_char q) s) @ [q])"

fun error_text :: "denial \<Rightarrow> string" where
  "error_text EmptyPath = ''empty path''"
| "error_text NulPath = ''path contains NUL character''"
| "error_text OtherUserTilde = ''cannot resolve another OS user's home directory''"
| "error_text NoHomeReported = ''satellite has not reported a home directory yet '' @ EM_DASH @ '' cannot expand '' @ [CHR 39] @ ''~'' @ [CHR 39] @ '' prefix''"
| "error_text InvalidPath = ''invalid path''"
| "error_text CredentialsProtected = ''OAuth credentials are protected. Manage accounts in User Settings, Integrations''"
| "error_text AgentConfigProtected = ''agent CLI config files are protected''"
| "error_text SshMaterial = ''access to .ssh key material is denied''"
| "error_text EnvWrite = ''.env files are write-protected''"
| "error_text ContextIncomplete = ''agent context incomplete for path translation''"
| "error_text RelativeUp = ''relative '' @ [CHR 39] @ ''..'' @ [CHR 39] @ '' paths resolve against the session's own root here, not your shell's working directory '' @ EM_DASH @ '' state the absolute path instead''"
| "error_text LocalAbsolute = ''absolute paths outside the sandbox are not allowed in local sessions''"
| "error_text DoubleSlash = ''network, device and double-slash paths are not available to sessions; state the plain absolute path''"
| "error_text (DotOrSpace seg) = ''the path component '' @ py_repr seg @ '' ends in a dot or a space, which Windows drops; state the name without it''"
| "error_text (StreamName seg) = ''the path component '' @ py_repr seg @ '' names a stream; state the plain path''"
| "error_text (ShortName seg) = ''the path component '' @ py_repr seg @ '' looks like a Windows short (8.3) name; state the full name''"
| "error_text MachineState = ''the machine's own OtoDock folder and agents root are not available to sessions''"
| "error_text EnvRead = ''.env files are protected''"
| "error_text HomeUnknown = ''home directory unknown for this satellite; ask the admin to enable full filesystem access for this machine''"
| "error_text (OutsideHome raw) = ''path '' @ [CHR 39] @ raw @ [CHR 39] @ '' is outside the OS user's home directory; ask the user to enable full filesystem access for this machine if broader access is needed''"

section \<open>Normalisation and kinds\<close>

definition SANDBOX_VIRTUAL_SEGMENTS :: "string list" where
  "SANDBOX_VIRTUAL_SEGMENTS = HEADS @ [''screenshots'', ''caller'']"

definition NON_PATH_PREFIXES :: "string list" where
  "NON_PATH_PREFIXES = [''http://'', ''https://'', ''ftp://'', ''ftps://'', ''file://'', ''data:'',
     ''base64:'', ''blob:'']"

definition TEMPLATE_MARKERS :: "string list" where
  "TEMPLATE_MARKERS = [''${'', ''{{'']"

definition is_path_string :: "string \<Rightarrow> bool" where
  "is_path_string v =
     (if v = [] then False
      else if list_ex (starts_with (lower v)) NON_PATH_PREFIXES then False
      else if list_ex (contains v) TEMPLATE_MARKERS then False
      else if length v > 500 \<and> SLASH \<notin> set v \<and> CHR 92 \<notin> set v then False
      else True)"

text \<open>Runs of slashes after another character become one; the leading run stays.\<close>

fun squeeze :: "string \<Rightarrow> string" where
  "squeeze (a # b # cs) =
     (if a = SLASH \<and> b = SLASH then squeeze (b # cs) else a # squeeze (b # cs))"
| "squeeze cs = cs"

definition collapse_slashes :: "string \<Rightarrow> string" where
  "collapse_slashes s =
     takeWhile (\<lambda>c. c = SLASH) s @ squeeze (dropWhile (\<lambda>c. c = SLASH) s)"

definition lower_drive :: "string \<Rightarrow> string" where
  "lower_drive s = (case s of [] \<Rightarrow> [] | c # cs \<Rightarrow> if has_drive s then lower_char c # cs else s)"

definition normalize_path :: "string \<Rightarrow> string" where
  "normalize_path raw =
     (if raw = [] then raw
      else (let s = collapse_slashes (lower_drive (slashes raw)) in
            if length s > 1 \<and> ends_with s ''/'' \<and> \<not> ends_with s '':/'' then rstrip_char SLASH s
            else s))"

definition expand_tilde :: "string \<Rightarrow> string \<Rightarrow> string" where
  "expand_tilde raw home =
     (if raw = [] \<or> home = [] then raw
      else if raw = ''~'' then home
      else if starts_with raw ''~/'' then rstrip_char SLASH home @ tl raw
      else raw)"

definition is_other_user_tilde :: "string \<Rightarrow> bool" where
  "is_other_user_tilde raw =
     (starts_with raw ''~'' \<and> \<not> (raw = ''~'' \<or> starts_with raw ''~/''))"

datatype path_kind = SandboxVirtual | HostPath | Relative | Invalid

definition first_segment :: "string \<Rightarrow> string" where
  "first_segment rel = takeWhile (\<lambda>c. c \<noteq> SLASH) rel"

definition classify_path :: "string \<Rightarrow> path_kind" where
  "classify_path p =
     (if p = [] \<or> CHR 0x00 \<in> set p then Invalid
      else if starts_with p ''/'' then
        (if first_segment (tl p) \<in> set SANDBOX_VIRTUAL_SEGMENTS then SandboxVirtual else HostPath)
      else if has_drive p then HostPath
      else Relative)"

definition agent_tree_subroot :: "string \<Rightarrow> string" where
  "agent_tree_subroot rel =
     (let first = first_segment rel in if first \<in> set SANDBOX_VIRTUAL_SEGMENTS then first else [])"

section \<open>Comparing with a root\<close>

definition normalize_for_compare :: "string \<Rightarrow> string \<Rightarrow> string" where
  "normalize_for_compare v target_os =
     (case of_word target_os of
        None \<Rightarrow> slashes v
      | Some row \<Rightarrow> if case_insensitive row then lower (slashes v) else slashes v)"

definition is_under :: "string \<Rightarrow> string \<Rightarrow> string \<Rightarrow> bool" where
  "is_under child parent target_os =
     (if parent = [] then False
      else (let c = rstrip_char SLASH (normalize_for_compare child target_os);
                p = rstrip_char SLASH (normalize_for_compare parent target_os)
            in c = p \<or> starts_with c (p @ ''/'')))"

text \<open>The short-name shape, \<open>~[0-9]+(\.[^.]*)?$\<close>, after its tilde; \<open>$\<close> also stands before a final
  newline.\<close>

definition short_name_tail :: "string \<Rightarrow> bool" where
  "short_name_tail s =
     (let r = dropWhile is_digit s in
      s \<noteq> [] \<and> is_digit (hd s) \<and> (r = [] \<or> r = [CHR 10] \<or> (hd r = CHR 46 \<and> CHR 46 \<notin> set (tl r))))"

definition has_short_name :: "string \<Rightarrow> bool" where
  "has_short_name seg =
     list_ex (\<lambda>i. seg ! i = CHR 126 \<and> short_name_tail (drop (i + 1) seg)) [0 ..< length seg]"

definition alias_of_segment :: "string \<Rightarrow> denial option" where
  "alias_of_segment seg =
     (if seg = [] then None
      else if last seg = CHR 46 \<or> last seg = CHR 32 then Some (DotOrSpace seg)
      else if CHR 58 \<in> set seg then Some (StreamName seg)
      else if has_short_name seg then Some (ShortName seg)
      else None)"

fun first_alias :: "string list \<Rightarrow> denial option" where
  "first_alias [] = None"
| "first_alias (seg # segs) =
     (case alias_of_segment seg of Some d \<Rightarrow> Some d | None \<Rightarrow> first_alias segs)"

definition host_alias :: "string \<Rightarrow> placement \<Rightarrow> denial option" where
  "host_alias normalized place =
     (if starts_with normalized ''//'' then Some DoubleSlash
      else if os_family place \<noteq> WINDOWS then None
      else (let root = clean_root (claude_runtime_root place);
                rest = (if root \<noteq> [] \<and> is_under normalized root WINDOWS then drop (length root) normalized
                        else if has_drive normalized then drop 2 normalized
                        else normalized)
            in first_alias (split_on SLASH rest)))"

definition runtime_path :: "string \<Rightarrow> policy_context \<Rightarrow> bool" where
  "runtime_path normalized ctx =
     (let place = pc_placement ctx in
      is_session_runtime_path normalized (claude_runtime_root place) (pc_session_id ctx)
        (case of_word (os_family place) of None \<Rightarrow> False | Some row \<Rightarrow> case_insensitive row))"

section \<open>Between the tree and the machine\<close>

definition machine_base :: "policy_context \<Rightarrow> string" where
  "machine_base ctx =
     rstrip_char SLASH (agents_dir (pc_placement ctx)) @ ''/'' @ pc_agent_slug ctx"

definition virtual_to_satellite_host :: "string \<Rightarrow> policy_context \<Rightarrow> string" where
  "virtual_to_satellite_host virtual ctx =
     (if agents_dir (pc_placement ctx) = [] \<or> pc_agent_slug ctx = [] then []
      else machine_base ctx @ virtual)"

definition satellite_host_to_virtual :: "string \<Rightarrow> policy_context \<Rightarrow> string" where
  "satellite_host_to_virtual p ctx =
     (if agents_dir (pc_placement ctx) = [] \<or> pc_agent_slug ctx = [] then []
      else if \<not> is_under p (machine_base ctx) (os_family (pc_placement ctx)) then []
      else (let rel = lstrip_char SLASH (drop (length (machine_base ctx)) p) in
            if agent_tree_subroot rel = [] then [] else SLASH # rel))"

section \<open>Denials for everybody\<close>

definition is_secret_path :: "string list \<Rightarrow> string \<Rightarrow> bool \<Rightarrow> bool" where
  "is_secret_path prot normalized writing =
     (is_protected_credentials_path prot (path_parts normalized) \<or>
      is_protected_agent_config_path (path_parts normalized) writing)"

definition ssh_metadata :: "string list \<Rightarrow> bool" where
  "ssh_metadata segs =
     (length segs \<ge> 2 \<and> lower (segs ! (length segs - 2)) = ''.ssh'' \<and>
      (lower (last segs) = ''config'' \<or> starts_with (lower (last segs)) ''known_hosts''))"

definition protected_path_denial :: "string list \<Rightarrow> string \<Rightarrow> bool \<Rightarrow> denial option" where
  "protected_path_denial prot normalized writing =
     (if is_protected_credentials_path prot (path_parts normalized) then Some CredentialsProtected
      else if is_protected_agent_config_path (path_parts normalized) writing then Some AgentConfigProtected
      else (let segs = filter (\<lambda>p. p \<noteq> []) (split_on SLASH normalized) in
            if list_ex (\<lambda>s. lower s = ''.ssh'') segs \<and> \<not> (\<not> writing \<and> ssh_metadata segs)
              then Some SshMaterial
            else if writing \<and> segs \<noteq> [] \<and> lower (last segs) = ''.env'' then Some EnvWrite
            else None))"

section \<open>The resolver\<close>

text \<open>The first checks, the tilde, the normalisation and the collapse of dot-dots.\<close>

definition collapse_dots :: "string \<Rightarrow> string" where
  "collapse_dots s = (if SLASH \<in> set s then slashes (normpath s) else s)"

definition enter_path :: "policy_context \<Rightarrow> string \<Rightarrow> denial + string" where
  "enter_path ctx raw =
     (let place = pc_placement ctx in
      if raw = [] then Inl EmptyPath
      else if CHR 0x00 \<in> set raw then Inl NulPath
      else if is_other_user_tilde raw then Inl OtherUserTilde
      else if (starts_with raw ''~/'' \<or> raw = ''~'') \<and> home_dir place = [] \<and> needs_path_translation place
        then Inl NoHomeReported
      else Inr (collapse_dots (normalize_path (expand_tilde raw (home_dir place)))))"

definition resolve_virtual :: "policy_context \<Rightarrow> string \<Rightarrow> bool \<Rightarrow> resolution" where
  "resolve_virtual ctx p writing =
     (let place = pc_placement ctx; ref = Some (AgentTree (lstrip_char SLASH p)) in
      if \<not> needs_path_translation place then
        \<lparr>access_path = p, res_allowed = True, res_error = None, res_ref = ref, is_remote_pull = False,
         is_remote_push = False, sandbox_relative = p, res_protected = False\<rparr>
      else (let access = virtual_to_satellite_host p ctx in
        if access = [] then reject ContextIncomplete False
        else \<lparr>access_path = access, res_allowed = True, res_error = None, res_ref = ref,
              is_remote_pull = \<not> writing, is_remote_push = writing, sandbox_relative = p,
              res_protected = False\<rparr>))"

definition machine_roots :: "placement \<Rightarrow> string list" where
  "machine_roots place = state_dirs place @ [agents_dir place]"

text \<open>An absolute path of the machine outside the session's own tree.\<close>

definition resolve_host :: "policy_context \<Rightarrow> string \<Rightarrow> string \<Rightarrow> bool \<Rightarrow> resolution" where
  "resolve_host ctx raw p writing =
     (let place = pc_placement ctx; fam = os_family place in
      if list_ex (\<lambda>root. root \<noteq> [] \<and> is_under p root fam) (machine_roots place)
        then reject MachineState True
      else if lower (last (split_on SLASH (rstrip_char SLASH p))) = ''.env'' then reject EnvRead False
      else if \<not> writing \<and> is_claude_bg_output_path p (pc_session_id ctx) then admit_host p False
      else if runtime_path p ctx then admit_host p writing
      else if list_ex (\<lambda>root. root \<noteq> [] \<and> is_under p root fam) (pc_allowed_roots ctx)
        then admit_host p writing
      else if allow_full_fs place then admit_host p writing
      else if home_dir place = [] then reject HomeUnknown False
      else if is_under p (home_dir place) fam then admit_host p writing
      else reject (OutsideHome raw) False)"

partial_function (option) resolve_path_for_session ::
    "string list \<Rightarrow> policy_context \<Rightarrow> bool \<Rightarrow> string \<Rightarrow> resolution option" where
  "resolve_path_for_session prot ctx writing raw =
     (case enter_path ctx raw of
        Inl why \<Rightarrow> Some (reject why False)
      | Inr p \<Rightarrow>
          if classify_path p = Invalid then Some (reject InvalidPath False)
          else (case protected_path_denial prot p writing of
            Some why \<Rightarrow> Some (reject why (is_secret_path prot p writing))
          | None \<Rightarrow>
              if classify_path p = SandboxVirtual then Some (resolve_virtual ctx p writing)
              else if classify_path p = Relative then
                (if pc_work_cwd ctx \<noteq> [] then
                   resolve_path_for_session prot ctx writing
                     (normpath (rstrip_char SLASH (pc_work_cwd ctx) @ ''/'' @ p))
                 else if p = DOTDOT \<or> starts_with p ''../'' then Some (reject RelativeUp False)
                 else resolve_path_for_session prot ctx writing
                        (rstrip_char SLASH (or_else (pc_relative_anchor ctx) V_WORKSPACE) @ ''/'' @ p))
              else if \<not> needs_path_translation (pc_placement ctx) then Some (reject LocalAbsolute False)
              else (case host_alias p (pc_placement ctx) of
                Some why \<Rightarrow> Some (reject why True)
              | None \<Rightarrow>
                  if satellite_host_to_virtual p ctx \<noteq> [] then
                    resolve_path_for_session prot ctx writing (satellite_host_to_virtual p ctx)
                  else Some (resolve_host ctx raw p writing))))"

definition resolve_path_batch ::
    "string list \<Rightarrow> policy_context \<Rightarrow> (string \<times> bool) list \<Rightarrow> resolution option list" where
  "resolve_path_batch prot ctx items =
     map (\<lambda>(raw, write). resolve_path_for_session prot ctx write raw) items"

section \<open>Lengths\<close>

text \<open>What a component costs in a joined path: itself and its slash.\<close>

definition cost :: "string list \<Rightarrow> nat" where
  "cost cs = (\<Sum>c\<leftarrow>cs. length c + 1)"

lemma cost_simps [simp]: "cost [] = 0" "cost (c # cs) = length c + 1 + cost cs"
  "cost (as @ bs) = cost as + cost bs" "cost (rev cs) = cost cs"
  by (simp_all add: cost_def rev_map [symmetric])

lemma cost_join: "cs \<noteq> [] \<Longrightarrow> length (join_on ''/'' cs) + 1 = cost cs"
  by (induction "''/''" cs rule: join_on.induct) auto

lemma cost_split: "cost (split_on c s) = length s + 1"
  by (induction c s rule: split_on.induct) (auto split: list.splits)

lemma cost_norm_step: "cost (norm_step rooted acc c) \<le> cost acc + length c + 1"
  by (cases acc) (auto simp: norm_step_def)

lemma cost_norm_foldl: "cost (foldl (norm_step rooted) acc cs) \<le> cost acc + cost cs"
proof (induction cs arbitrary: acc)
  case (Cons c cs)
  from Cons.IH [of "norm_step rooted acc c"] cost_norm_step [of rooted acc c] show ?case by simp
qed simp

lemma normpath_rooted:
  assumes "starts_with s ''/''"
  shows "starts_with (normpath s) ''/'' \<and> length (normpath s) \<le> length s"
proof -
  from assms obtain t where s: "s = SLASH # t" by (auto simp: starts_with_iff)
  have split1: "split_on SLASH s = [] # split_on SLASH t" using s by simp
  define cs where "cs = norm_comps True (split_on SLASH s)"
  have n: "normpath s = initial_slashes s @ join_on ''/'' cs" and i: "starts_with (initial_slashes s) ''/''"
    using s by (auto simp: normpath_def cs_def or_else_def initial_slashes_def starts_with_def)
  have "length (initial_slashes s) + length (join_on ''/'' cs) \<le> length s"
  proof (cases "starts_with s ''//'' \<and> \<not> starts_with s ''///''")
    case True
    then obtain t' where t: "t = SLASH # t'" using s by (auto simp: starts_with_iff)
    have "cs = norm_comps True (split_on SLASH t')"
      by (simp add: cs_def split1 t norm_comps_def norm_step_def)
    then have "cost cs \<le> length t' + 1"
      using cost_norm_foldl [of True "[]" "split_on SLASH t'"] by (simp add: norm_comps_def cost_split)
    with True s t cost_join [of cs] show ?thesis
      by (cases "cs = []") (auto simp: initial_slashes_def)
  next
    case False
    have "cs = norm_comps True (split_on SLASH t)"
      by (simp add: cs_def split1 norm_comps_def norm_step_def)
    then have "cost cs \<le> length t + 1"
      using cost_norm_foldl [of True "[]" "split_on SLASH t"] by (simp add: norm_comps_def cost_split)
    moreover have "initial_slashes s = ''/''" using False assms by (auto simp: initial_slashes_def)
    ultimately show ?thesis using s cost_join [of cs] by (cases "cs = []") auto
  qed
  with n i show ?thesis by (auto simp: starts_with_iff)
qed

lemma slashes_rooted: "starts_with s ''/'' \<Longrightarrow> starts_with (slashes s) ''/''"
  by (auto simp: starts_with_iff slashes_def replace_char_def)

lemma length_slashes [simp]: "length (slashes s) = length s"
  by (simp add: slashes_def)

lemma length_squeeze: "length (squeeze s) \<le> length s"
  by (induction s rule: squeeze.induct) auto

lemma length_collapse_slashes: "length (collapse_slashes s) \<le> length s"
proof -
  have "length s = length (takeWhile (\<lambda>c. c = SLASH) s) + length (dropWhile (\<lambda>c. c = SLASH) s)"
    by (metis length_append takeWhile_dropWhile_id)
  then show ?thesis using length_squeeze [of "dropWhile (\<lambda>c. c = SLASH) s"]
    by (simp add: collapse_slashes_def)
qed

lemma rstrip_prefix: "prefix (rstrip_char c s) s"
proof -
  have "suffix (dropWhile (\<lambda>x. x = c) (rev s)) (rev s)" by (rule suffix_dropWhile)
  then show ?thesis by (simp add: rstrip_char_def suffix_to_prefix)
qed

lemma normalize_rooted:
  assumes "starts_with s ''/''"
  shows "(normalize_path s = [] \<or> starts_with (normalize_path s) ''/'') \<and>
    length (normalize_path s) \<le> length s"
proof -
  let ?t = "slashes s"
  obtain u where t: "?t = SLASH # u" using slashes_rooted [OF assms] by (auto simp: starts_with_iff)
  have "lower_drive ?t = ?t"
    by (simp add: lower_drive_def t has_drive_def is_letter_def split: list.splits)
  moreover have "starts_with (collapse_slashes ?t) ''/''"
    by (simp add: collapse_slashes_def t starts_with_def)
  moreover have "length (collapse_slashes ?t) \<le> length s"
    using length_collapse_slashes [of ?t] by simp
  moreover have "r = [] \<or> starts_with r ''/''" if "prefix r x" "starts_with x ''/''" for r x :: string
    using that by (cases r) (auto simp: starts_with_iff)
  ultimately show ?thesis
    using rstrip_prefix [of SLASH "collapse_slashes ?t"] prefix_length_le [OF rstrip_prefix [of SLASH "collapse_slashes ?t"]]
    by (auto simp: normalize_path_def Let_def)
qed

lemma enter_rooted:
  assumes "starts_with raw ''/''" "enter_path ctx raw = Inr p"
  shows "(p = [] \<or> starts_with p ''/'') \<and> length p \<le> length raw"
proof -
  from assms(1) obtain t where raw: "raw = SLASH # t" by (auto simp: starts_with_iff)
  then have "expand_tilde raw home = raw" for home by (simp add: expand_tilde_def starts_with_def)
  with assms(2) have p: "p = collapse_dots (normalize_path raw)"
    by (auto simp: enter_path_def Let_def split: if_splits)
  note n = normalize_rooted [OF assms(1)]
  show ?thesis
  proof (cases "normalize_path raw = []")
    case True
    then show ?thesis by (simp add: p collapse_dots_def)
  next
    case False
    with n have r: "starts_with (normalize_path raw) ''/''" by simp
    from normpath_rooted [OF r] slashes_rooted n r show ?thesis
      by (auto simp: p collapse_dots_def)
  qed
qed

section \<open>The resolver returns\<close>

lemma classify_rooted: "starts_with p ''/'' \<Longrightarrow> classify_path p \<noteq> Relative"
  by (simp add: classify_path_def)

lemma virtual_shorter:
  assumes "satellite_host_to_virtual p ctx = v" "v \<noteq> []"
  shows "starts_with v ''/'' \<and> length v < length p"
proof -
  let ?rel = "lstrip_char SLASH (drop (length (machine_base ctx)) p)"
  have v: "v = SLASH # ?rel" and slug: "pc_agent_slug ctx \<noteq> []" and sub: "agent_tree_subroot ?rel \<noteq> []"
    using assms by (auto simp: satellite_host_to_virtual_def Let_def split: if_splits)
  from sub have "?rel \<noteq> []"
    by (auto simp: agent_tree_subroot_def first_segment_def Let_def split: if_splits)
  moreover have "length ?rel \<le> length (drop (length (machine_base ctx)) p)"
    unfolding lstrip_char_def by (rule length_dropWhile_le)
  moreover have "2 \<le> length (machine_base ctx)"
    using slug by (cases "pc_agent_slug ctx") (auto simp: machine_base_def)
  ultimately show ?thesis using v by (cases "?rel") (auto simp: starts_with_def)
qed

lemma rooted_returns: "starts_with raw ''/'' \<Longrightarrow> \<exists>r. resolve_path_for_session prot ctx writing raw = Some r"
proof (induction raw rule: measure_induct_rule [of length])
  case (less raw)
  show ?case
  proof (cases "enter_path ctx raw")
    case (Inl why)
    then show ?thesis by (subst resolve_path_for_session.simps) simp
  next
    case (Inr p)
    note ent = enter_rooted [OF less.prems Inr]
    show ?thesis
    proof (cases "p = []")
      case True
      with Inr show ?thesis by (subst resolve_path_for_session.simps) (simp add: classify_path_def)
    next
      case False
      with ent have rel: "classify_path p \<noteq> Relative" by (simp add: classify_rooted)
      let ?v = "satellite_host_to_virtual p ctx"
      have v: "?v \<noteq> [] \<Longrightarrow> \<exists>r. resolve_path_for_session prot ctx writing ?v = Some r"
        using less.IH virtual_shorter [of p ctx ?v] ent by simp
      show ?thesis
        using Inr rel v
        by (subst resolve_path_for_session.simps) (auto split: option.splits)
    qed
  qed
qed

lemma host_returns:
  assumes "enter_path ctx raw = Inr p" "classify_path p \<noteq> Relative"
  shows "\<exists>r. resolve_path_for_session prot ctx writing raw = Some r"
  using assms virtual_shorter [of p ctx "satellite_host_to_virtual p ctx"]
    rooted_returns [of "satellite_host_to_virtual p ctx" prot ctx writing]
  by (subst resolve_path_for_session.simps) (auto split: option.splits)

lemma anchor_rooted: "starts_with a ''/'' \<Longrightarrow> starts_with (rstrip_char SLASH a @ ''/'' @ p) ''/''"
  using rstrip_prefix [of SLASH a] by (cases "rstrip_char SLASH a") (auto simp: starts_with_iff)

text \<open>C30. The resolver answers every path: its calls to itself on an anchored or translated path end,
  whatever the path, the session and the machine, when the session's working directory, if it has
  one, and its relative anchor are rooted.\<close>

theorem resolver_returns:
  assumes "pc_work_cwd ctx = [] \<or> starts_with (pc_work_cwd ctx) ''/''"
    and "pc_relative_anchor ctx = [] \<or> starts_with (pc_relative_anchor ctx) ''/''"
  shows "\<exists>r. resolve_path_for_session prot ctx writing raw = Some r"
proof (cases "enter_path ctx raw")
  case (Inl why)
  then show ?thesis by (subst resolve_path_for_session.simps) simp
next
  case (Inr p)
  show ?thesis
  proof (cases "classify_path p = Relative")
    case False
    with Inr show ?thesis by (rule host_returns)
  next
    case True
    have "starts_with V_WORKSPACE ''/''" by code_simp
    with assms(2) have "starts_with (or_else (pc_relative_anchor ctx) V_WORKSPACE) ''/''"
      by (auto simp: or_else_def)
    then have a: "\<exists>r. resolve_path_for_session prot ctx writing
        (rstrip_char SLASH (or_else (pc_relative_anchor ctx) V_WORKSPACE) @ ''/'' @ p) = Some r"
      by (intro rooted_returns anchor_rooted)
    have w: "\<exists>r. resolve_path_for_session prot ctx writing
        (normpath (rstrip_char SLASH (pc_work_cwd ctx) @ ''/'' @ p)) = Some r" if "pc_work_cwd ctx \<noteq> []"
      using that assms(1) normpath_rooted anchor_rooted by (blast intro: rooted_returns)
    show ?thesis
      using Inr True a w by (subst resolve_path_for_session.simps) (auto split: option.splits)
  qed
qed

section \<open>Where a resolution comes from\<close>

text \<open>Every answer is a denial, or a virtual path's, or a machine path's, judged on a path that no
  universal denial takes.\<close>

definition settled_at :: "string list \<Rightarrow> policy_context \<Rightarrow> bool \<Rightarrow> resolution \<Rightarrow> bool" where
  "settled_at prot ctx writing r \<longleftrightarrow>
     (\<exists>why b. r = reject why b) \<or>
     (\<exists>p. classify_path p = SandboxVirtual \<and> protected_path_denial prot p writing = None \<and>
        r = resolve_virtual ctx p writing) \<or>
     (\<exists>p raw. classify_path p = HostPath \<and> protected_path_denial prot p writing = None \<and>
        needs_path_translation (pc_placement ctx) \<and> host_alias p (pc_placement ctx) = None \<and>
        satellite_host_to_virtual p ctx = [] \<and> r = resolve_host ctx raw p writing)"

lemma resolution_settled:
  assumes "resolve_path_for_session prot ctx writing raw = Some r"
  shows "settled_at prot ctx writing r"
proof (rule resolve_path_for_session.raw_induct
    [where P = "\<lambda>prot ctx writing raw r. settled_at prot ctx writing r", OF _ assms], goal_cases)
  case (1 self prot ctx writing raw r)
  show ?case
  proof (cases "enter_path ctx raw")
    case (Inl why)
    with 1(2) show ?thesis by (auto simp: settled_at_def)
  next
    case (Inr p)
    have rej: "settled_at prot ctx writing (reject why b)" for why b by (auto simp: settled_at_def)
    have virt: "classify_path p = SandboxVirtual \<Longrightarrow> protected_path_denial prot p writing = None \<Longrightarrow>
        settled_at prot ctx writing (resolve_virtual ctx p writing)" by (auto simp: settled_at_def)
    have hst: "classify_path p = HostPath \<Longrightarrow> protected_path_denial prot p writing = None \<Longrightarrow>
        needs_path_translation (pc_placement ctx) \<Longrightarrow> host_alias p (pc_placement ctx) = None \<Longrightarrow>
        satellite_host_to_virtual p ctx = [] \<Longrightarrow> settled_at prot ctx writing (resolve_host ctx raw p writing)"
      by (auto simp: settled_at_def)
    note run = 1(2) [unfolded Inr sum.case]
    note again = 1(1)
    show ?thesis
    proof (cases "protected_path_denial prot p writing")
      case (Some why)
      with run rej show ?thesis by (auto split: if_splits)
    next
      case None
      show ?thesis
      proof (cases "classify_path p")
        case SandboxVirtual
        with run None virt show ?thesis by auto
      next
        case HostPath
        show ?thesis
        proof (cases "satellite_host_to_virtual p ctx = []")
          case True
          with run None HostPath hst rej show ?thesis by (auto split: if_splits option.splits)
        next
          case False
          with run None HostPath rej again show ?thesis by (auto split: if_splits option.splits)
        qed
      next
        case Relative
        with run None rej again show ?thesis by (auto split: if_splits)
      next
        case Invalid
        with run rej show ?thesis by auto
      qed
    qed
  qed
qed

section \<open>Properties\<close>

text \<open>Three machines for the witnesses.\<close>

definition demo_remote :: placement where
  "demo_remote = (placement_of_kind KIND_USER_REMOTE ''laptop'')
     \<lparr>machine_id := ''m1'', os := LINUX, home_dir := ''/home/bob'',
      agents_dir := ''/home/bob/.oto-dock/agents''\<rparr>"

definition demo_windows :: placement where
  "demo_windows = (placement_of_kind KIND_USER_REMOTE ''desktop'')
     \<lparr>machine_id := ''m2'', os := WINDOWS, home_dir := ''C:/Users/bob'',
      agents_dir := ''C:/Users/bob/OtoDock/agents''\<rparr>"

definition demo_session :: "placement \<Rightarrow> policy_context" where
  "demo_session place = \<lparr>pc_placement = place, pc_agent_slug = ''helper'', pc_role = MANAGER,
     pc_allowed_roots = [], pc_work_cwd = [], pc_relative_anchor = ''/users/bob'', pc_session_id = ''s1''\<rparr>"

theorem resolver_returns_witness:
  "\<exists>r. resolve_path_for_session [] (demo_session demo_remote) True ''../../etc/passwd'' = Some r"
  by (rule resolver_returns) (simp_all add: demo_session_def starts_with_def)

lemma reject_fields [simp]: "\<not> res_allowed (reject why b)" "res_ref (reject why b) = None"
  by (simp_all add: reject_def)

lemma admit_fields [simp]: "res_allowed (admit_host p w)" "res_ref (admit_host p w) = Some (SatelliteHost p)"
  "access_path (admit_host p w) = p" "is_remote_push (admit_host p w) = w"
  by (simp_all add: admit_host_def)

lemma resolve_virtual_ref:
  "res_allowed (resolve_virtual ctx p w) \<Longrightarrow>
   res_ref (resolve_virtual ctx p w) = Some (AgentTree (lstrip_char SLASH p)) \<and>
   sandbox_relative (resolve_virtual ctx p w) = p"
  by (auto simp: resolve_virtual_def Let_def split: if_splits)

lemma resolve_host_ref:
  "res_allowed (resolve_host ctx raw p w) \<Longrightarrow>
   res_ref (resolve_host ctx raw p w) = Some (SatelliteHost p) \<and> access_path (resolve_host ctx raw p w) = p"
  unfolding resolve_host_def Let_def by (simp split: if_splits)

lemma not_denied:
  "protected_path_denial prot p writing = None \<Longrightarrow>
   \<not> is_secret_path prot p writing \<and>
   (\<forall>s \<in> set (split_on SLASH p). lower s = ''.ssh'' \<longrightarrow>
      \<not> writing \<and> ssh_metadata (filter (\<lambda>s. s \<noteq> []) (split_on SLASH p))) \<and>
   (writing \<and> filter (\<lambda>s. s \<noteq> []) (split_on SLASH p) \<noteq> [] \<longrightarrow>
      lower (last (filter (\<lambda>s. s \<noteq> []) (split_on SLASH p))) \<noteq> ''.env'')"
  by (auto simp: protected_path_denial_def is_secret_path_def Let_def list_ex_iff lower_def
      split: if_splits)

text \<open>C6. No answer of the resolver opens what is nobody's, on any machine, in any band and for any
  role: the path it admits, in the spelling it admits it by, holds no credentials, is no CLI config
  of a session (nor, for a write, its hooks and settings), lies below no \<open>.ssh\<close> folder (reading its
  config and known hosts excepted), and a write is to no \<open>.env\<close> file.\<close>

theorem resolver_denies_protected:
  assumes "resolve_path_for_session prot ctx writing raw = Some r" "res_allowed r"
  shows "\<exists>p. (res_ref r = Some (AgentTree (lstrip_char SLASH p)) \<and> sandbox_relative r = p \<or>
        res_ref r = Some (SatelliteHost p) \<and> access_path r = p) \<and>
      \<not> is_secret_path prot p writing \<and>
      (\<forall>s \<in> set (split_on SLASH p). lower s = ''.ssh'' \<longrightarrow>
         \<not> writing \<and> ssh_metadata (filter (\<lambda>s. s \<noteq> []) (split_on SLASH p))) \<and>
      (writing \<and> filter (\<lambda>s. s \<noteq> []) (split_on SLASH p) \<noteq> [] \<longrightarrow>
         lower (last (filter (\<lambda>s. s \<noteq> []) (split_on SLASH p))) \<noteq> ''.env'')"
  using resolution_settled [OF assms(1)] assms(2) not_denied resolve_virtual_ref resolve_host_ref
  unfolding settled_at_def by (metis reject_fields(1))

lemma demo_read:
  "resolve_path_for_session [] (demo_session demo_remote) False ''~/notes.txt'' =
   Some (admit_host ''/home/bob/notes.txt'' False)"
  by (subst resolve_path_for_session.simps) code_simp

theorem resolver_denies_protected_witness:
  "\<exists>p. access_path (admit_host ''/home/bob/notes.txt'' False) = p \<and> \<not> is_secret_path [] p False"
  using resolver_denies_protected [OF demo_read] by auto

text \<open>A path of the machine itself is admitted only in a band the machine's owner granted: the
  whole filesystem, the owner's home, the folder the session was started in, or the session's own
  runtime tree and command output. The machine's OtoDock folders and agents root are in no band,
  whatever the pairing grants, and neither is a path the host would resolve to another spelling.\<close>

theorem machine_bands:
  assumes "resolve_path_for_session prot ctx writing raw = Some r" "res_ref r = Some (SatelliteHost p)"
  shows "needs_path_translation (pc_placement ctx) \<and> access_path r = p \<and>
    host_alias p (pc_placement ctx) = None \<and>
    (\<forall>root \<in> set (machine_roots (pc_placement ctx)). root \<noteq> [] \<longrightarrow>
       \<not> is_under p root (os_family (pc_placement ctx))) \<and>
    (allow_full_fs (pc_placement ctx) \<or>
     is_under p (home_dir (pc_placement ctx)) (os_family (pc_placement ctx)) \<or>
     (\<exists>root \<in> set (pc_allowed_roots ctx). root \<noteq> [] \<and> is_under p root (os_family (pc_placement ctx))) \<or>
     runtime_path p ctx \<or> \<not> writing \<and> is_claude_bg_output_path p (pc_session_id ctx))"
proof -
  have virt: "res_ref (resolve_virtual ctx q writing) \<noteq> Some (SatelliteHost p)" for q
    by (simp add: resolve_virtual_def Let_def reject_def)
  from resolution_settled [OF assms(1)] assms(2) virt
  obtain q raw' where q: "needs_path_translation (pc_placement ctx)" "host_alias q (pc_placement ctx) = None"
    "r = resolve_host ctx raw' q writing" by (auto simp: settled_at_def)
  from q(3) assms(2) have al: "res_allowed (resolve_host ctx raw' q writing)"
    unfolding resolve_host_def Let_def by (simp split: if_splits)
  with resolve_host_ref [OF al] q(3) assms(2) have qp: "q = p" and acc: "access_path r = p" by auto
  from al show ?thesis
    using q(1,2) acc unfolding qp resolve_host_def Let_def
    by (auto simp: list_ex_iff split: if_splits)
qed

theorem machine_bands_witness:
  "is_under ''/home/bob/notes.txt'' ''/home/bob'' LINUX"
proof -
  have p: "pc_placement (demo_session demo_remote) = demo_remote" "pc_allowed_roots (demo_session demo_remote) = []"
    "pc_session_id (demo_session demo_remote) = ''s1''" "home_dir demo_remote = ''/home/bob''"
    by (simp_all add: demo_session_def demo_remote_def)
  have f: "\<not> allow_full_fs demo_remote" "os_family demo_remote = LINUX" by code_simp+
  have ref: "res_ref (admit_host ''/home/bob/notes.txt'' False) = Some (SatelliteHost ''/home/bob/notes.txt'')"
    by simp
  have "\<not> runtime_path ''/home/bob/notes.txt'' (demo_session demo_remote)"
    and "\<not> is_claude_bg_output_path ''/home/bob/notes.txt'' ''s1''" by code_simp+
  then show ?thesis using machine_bands [OF demo_read ref] unfolding p f(2) using f(1) by auto
qed

text \<open>On the platform host the resolver admits only the virtual tree: an admitted path is one of
  its roots' paths, used as it is spelled, pulled from and pushed to nobody.\<close>

theorem local_stays_virtual:
  assumes "resolve_path_for_session prot ctx writing raw = Some r" "res_allowed r"
    and "\<not> needs_path_translation (pc_placement ctx)"
  shows "first_segment (tl (access_path r)) \<in> set SANDBOX_VIRTUAL_SEGMENTS \<and>
    starts_with (access_path r) ''/'' \<and> sandbox_relative r = access_path r \<and>
    \<not> is_remote_pull r \<and> \<not> is_remote_push r"
proof -
  from resolution_settled [OF assms(1)] assms(2,3)
  obtain p where p: "classify_path p = SandboxVirtual" "r = resolve_virtual ctx p writing"
    by (auto simp: settled_at_def)
  then show ?thesis using assms(3)
    by (auto simp: resolve_virtual_def classify_path_def split: if_splits)
qed

lemma demo_local_read:
  "map_option (\<lambda>r. (res_allowed r, access_path r))
     (resolve_path_for_session [] (demo_session LOCAL_PLACEMENT) False ''notes/../a.txt'') =
   Some (True, ''/users/bob/a.txt'')"
  by (subst resolve_path_for_session.simps, subst resolve_path_for_session.simps) code_simp

theorem local_stays_virtual_witness:
  "\<exists>r :: resolution. access_path r = ''/users/bob/a.txt'' \<and> sandbox_relative r = ''/users/bob/a.txt'' \<and> \<not> is_remote_push r"
proof -
  from demo_local_read obtain r where
    r: "resolve_path_for_session [] (demo_session LOCAL_PLACEMENT) False ''notes/../a.txt'' = Some r"
      "res_allowed r" and a: "access_path r = ''/users/bob/a.txt''" by auto
  have "\<not> needs_path_translation (pc_placement (demo_session LOCAL_PLACEMENT))" by code_simp
  from local_stays_virtual [OF r this] a show ?thesis by (intro exI [of _ r]) simp
qed

lemma rstrip_Cons_keep: "x \<noteq> c \<Longrightarrow> prefix (a @ [x]) (rstrip_char c (a @ x # w))"
proof -
  assume x: "x \<noteq> c"
  have "dropWhile (\<lambda>y. y = c) (rev w @ x # rev a) = dropWhile (\<lambda>y. y = c) (rev w) @ x # rev a"
    using x by (simp add: dropWhile_append3 dropWhile_append)
  then show ?thesis by (simp add: rstrip_char_def)
qed

lemma rstrip_id: "s \<noteq> [] \<Longrightarrow> last s \<noteq> c \<Longrightarrow> rstrip_char c s = s"
  by (cases s rule: rev_cases) (simp_all add: rstrip_char_def)

lemma compare_append:
  "normalize_for_compare (a @ b) fam = normalize_for_compare a fam @ normalize_for_compare b fam"
  by (simp add: normalize_for_compare_def slashes_def replace_char_def lower_def split: option.splits)

lemma lower_char_slash: "lower_char c = SLASH \<longleftrightarrow> c = SLASH"
proof -
  have "lower_char c \<noteq> SLASH" if "c \<noteq> SLASH"
  proof
    assume eq: "lower_char c = SLASH"
    show False
    proof (cases "65 \<le> (of_char c :: nat) \<and> (of_char c :: nat) \<le> 90")
      case True
      with eq have "char_of ((of_char c :: nat) + 32) = SLASH" by (simp add: lower_char_def)
      then have "(of_char (char_of ((of_char c :: nat) + 32) :: char) :: nat) = 47" by simp
      with True show False by (simp add: of_char_of)
    qed (use eq that in \<open>auto simp: lower_char_def Let_def split: if_splits\<close>)
  qed
  moreover have "lower_char SLASH = SLASH" by code_simp
  ultimately show ?thesis by blast
qed

lemma compare_plain_char:
  "c \<noteq> SLASH \<Longrightarrow> c \<noteq> CHR 92 \<Longrightarrow> \<exists>d. normalize_for_compare [c] fam = [d] \<and> d \<noteq> SLASH"
  by (auto simp: normalize_for_compare_def slashes_def replace_char_def lower_def lower_char_slash
      split: option.splits)

lemma compare_slash: "normalize_for_compare [SLASH] fam = [SLASH]"
  by (auto simp: normalize_for_compare_def slashes_def replace_char_def lower_def lower_char_slash
      split: option.splits)

text \<open>Inside the session's own tree the two spellings of a path are one: translating a virtual
  path to the machine and back gives it back, whatever the machine's family, for a virtual path
  below one of the tree's roots.\<close>

theorem tree_round_trip:
  assumes "agents_dir (pc_placement ctx) \<noteq> []" "pc_agent_slug ctx \<noteq> []"
    and "last (pc_agent_slug ctx) \<noteq> SLASH" "last (pc_agent_slug ctx) \<noteq> CHR 92"
    and "first_segment w \<in> set SANDBOX_VIRTUAL_SEGMENTS"
  shows "satellite_host_to_virtual (virtual_to_satellite_host (SLASH # w) ctx) ctx = SLASH # w"
proof -
  let ?fam = "os_family (pc_placement ctx)" and ?base = "machine_base ctx"
  let ?n = "\<lambda>s. normalize_for_compare s ?fam"
  have seg: "first_segment w \<noteq> []" "SLASH \<notin> set (first_segment w)" "CHR 92 \<notin> set (first_segment w)"
  proof -
    have "\<forall>s \<in> set SANDBOX_VIRTUAL_SEGMENTS. s \<noteq> [] \<and> SLASH \<notin> set s \<and> CHR 92 \<notin> set s" by code_simp
    with assms(5) show "first_segment w \<noteq> []" "SLASH \<notin> set (first_segment w)"
      "CHR 92 \<notin> set (first_segment w)" by auto
  qed
  then obtain x w' where w: "w = x # w'" and x: "x \<noteq> SLASH" by (cases w) (auto simp: first_segment_def split: if_splits)
  with seg(3) have x92: "x \<noteq> CHR 92" by (auto simp: first_segment_def)
  obtain slug' z where slug: "pc_agent_slug ctx = slug' @ [z]" using assms(2) by (cases "pc_agent_slug ctx" rule: rev_cases) auto
  with assms(3,4) have z: "z \<noteq> SLASH" "z \<noteq> CHR 92" by auto
  obtain b where b: "?base = b @ [z]" by (simp add: machine_base_def slug)
  obtain z' where z': "?n [z] = [z']" "z' \<noteq> SLASH" using compare_plain_char [OF z] by blast
  obtain x' where x': "?n [x] = [x']" "x' \<noteq> SLASH" using compare_plain_char [OF x x92] by blast
  have nb: "rstrip_char SLASH (?n ?base) = ?n ?base"
    using z' by (intro rstrip_id) (auto simp: b compare_append)
  have "?n (?base @ SLASH # w) = (?n ?base @ [SLASH]) @ x' # ?n w'"
    using compare_append [of ?base "[SLASH] @ [x] @ w'" ?fam] compare_append [of "[SLASH]" "[x] @ w'" ?fam]
      compare_append [of "[x]" w' ?fam] by (simp add: w x' compare_slash)
  then have "prefix ((?n ?base @ [SLASH]) @ [x']) (rstrip_char SLASH (?n (?base @ SLASH # w)))"
    using rstrip_Cons_keep [OF x'(2), of "?n ?base @ [SLASH]" "?n w'"] by simp
  then have "prefix (?n ?base @ [SLASH]) (rstrip_char SLASH (?n (?base @ SLASH # w)))"
    by (rule append_prefixD)
  then have "is_under (?base @ SLASH # w) ?base ?fam"
    using b nb by (simp add: is_under_def starts_with_def)
  moreover have "lstrip_char SLASH (drop (length ?base) (?base @ SLASH # w)) = w"
    using w x by (simp add: lstrip_char_def)
  ultimately show ?thesis
    using assms(1,2,5) seg(1)
    by (simp add: satellite_host_to_virtual_def virtual_to_satellite_host_def agent_tree_subroot_def Let_def)
qed

theorem tree_round_trip_witness:
  "satellite_host_to_virtual (virtual_to_satellite_host ''/workspace/a b.txt'' (demo_session demo_windows))
     (demo_session demo_windows) = ''/workspace/a b.txt''"
proof -
  have "first_segment ''workspace/a b.txt'' \<in> set SANDBOX_VIRTUAL_SEGMENTS" by code_simp
  then show ?thesis
    using tree_round_trip [of "demo_session demo_windows" "''workspace/a b.txt''"]
    by (simp add: demo_session_def demo_windows_def placement_of_kind_def)
qed

text \<open>On a Windows machine the collapse of dot-dots climbs past the drive: a drive path with one
  dot-dot too many (which Windows reads from the drive's root) loses its drive, is taken for a
  relative one and is judged as a file of the session's own tree, so the band of the machine's
  files, its OtoDock folder included, does not decide it.\<close>

lemma drive_dotdot_is_relative:
  "map_option (\<lambda>r. (res_allowed r, res_ref r))
     (resolve_path_for_session [] (demo_session demo_windows) False ''C:/../Users/bob/OtoDock/agents/x'') =
   Some (True, Some (AgentTree ''users/bob/Users/bob/OtoDock/agents/x'')) \<and>
   map_option res_error
     (resolve_path_for_session [] (demo_session demo_windows) False ''C:/Users/bob/OtoDock/agents/x'') =
   Some (Some MachineState)"
proof
  show "map_option (\<lambda>r. (res_allowed r, res_ref r))
     (resolve_path_for_session [] (demo_session demo_windows) False ''C:/../Users/bob/OtoDock/agents/x'') =
   Some (True, Some (AgentTree ''users/bob/Users/bob/OtoDock/agents/x''))"
    by (subst resolve_path_for_session.simps, subst resolve_path_for_session.simps) code_simp
  show "map_option res_error
     (resolve_path_for_session [] (demo_session demo_windows) False ''C:/Users/bob/OtoDock/agents/x'') =
   Some (Some MachineState)"
    by (subst resolve_path_for_session.simps) code_simp
qed

end
