(* ===== verification/PathPolicy.thy ===== *)
theory PathPolicy
  imports PathResolver ToolRoles
begin

text \<open>
  \<open>proxy/auth/path_policy.py\<close>: the role-based file gate, pass 1 of the permission hook, on a
  local sandbox: how a tool's path argument becomes host paths, what a role reads and writes, and
  the files of a patch.

  A resolved path is its \<open>pathlib\<close> parts. The host the proxy runs on is the record \<open>host\<close>: its
  directories, \<open>os.path.realpath\<close>, the home of an account, and the credentials subpaths the
  installed manifests declare. The dispatch of a tool call and the paths of a paired machine are
  in the theory ToolGate.
\<close>

section \<open>Contexts and decisions\<close>

record host =
  AGENTS_DIR :: "string list"
  PROXY_DIR :: "string list"
  HOME :: "string list"
  SANDBOX_TMP :: "string list"
  realpath :: "string list \<Rightarrow> string list option"
  account_home :: "string \<Rightarrow> string list option"
  protected_subpaths :: "string list"

record security_context =
  sc_role :: string
  sc_username :: string
  sc_agent :: string
  sc_is_admin_agent :: bool
  sc_display_name :: string
  sc_email :: string
  sc_placement :: placement
  cli_session_id :: string
  session_scope :: string
  sc_config_visible :: "bool option"
  sc_available_scopes :: "string list"
  knowledge_libraries :: "(string \<times> string \<times> bool) list"
  knowledge_rw :: bool
  principal :: string
  external_channel :: string
  external_id :: string
  external_home :: string
  external_ephemeral :: bool
  external_verified :: bool
  external_claim :: string
  session_allowed_roots :: "string list"
  sc_work_cwd :: string
  sc_read_only :: bool
  ssh_hosts :: "(string \<times> string) list option"

definition is_external_ctx :: "security_context \<Rightarrow> bool" where
  "is_external_ctx ctx = (principal ctx = ''external'')"

definition sc_mount_username :: "security_context \<Rightarrow> string" where
  "sc_mount_username ctx = (if session_scope ctx = ''user'' then sc_username ctx else [])"

definition sc_mount_shared :: "security_context \<Rightarrow> bool" where
  "sc_mount_shared ctx = (''agent'' \<in> set (sc_available_scopes ctx))"

definition effective_config_visible :: "security_context \<Rightarrow> bool" where
  "effective_config_visible ctx =
     (case sc_config_visible ctx of Some b \<Rightarrow> b
      | None \<Rightarrow> sc_username ctx \<noteq> [] \<and> can_manage (sc_role ctx))"

record path_decision =
  allowed :: bool
  reason :: string
  permission_tier :: string
  destructive :: bool
  updated_input :: "dict option"

definition ALLOW :: path_decision where
  "ALLOW = \<lparr>allowed = True, reason = [], permission_tier = [], destructive = False,
     updated_input = None\<rparr>"

definition deny :: "string \<Rightarrow> path_decision" where
  "deny why = \<lparr>allowed = False, reason = why, permission_tier = [], destructive = False,
     updated_input = None\<rparr>"

lemma decision_fields [simp]: "allowed ALLOW" "\<not> allowed (deny w)" "reason (deny w) = w"
  "updated_input (deny w) = None" "updated_input ALLOW = None"
  by (simp_all add: ALLOW_def deny_def)

section \<open>From a tool's argument to host paths\<close>

definition resolve :: "host \<Rightarrow> string list \<Rightarrow> string list" where
  "resolve h p = (case realpath h p of Some r \<Rightarrow> r | None \<Rightarrow> p)"

definition is_absolute :: "string list \<Rightarrow> bool" where
  "is_absolute p = (p \<noteq> [] \<and> starts_with (hd p) ''/'')"

text \<open>\<open>Path.expanduser\<close>, the error of an unknown account suppressed.\<close>

definition expanduser :: "host \<Rightarrow> string list \<Rightarrow> string list" where
  "expanduser h p = (case p of
       (CHR 126 # account) # rest \<Rightarrow>
         (case account_home h account of Some d \<Rightarrow> d @ rest | None \<Rightarrow> p)
     | _ \<Rightarrow> p)"

definition resolve_path :: "host \<Rightarrow> string \<Rightarrow> string list" where
  "resolve_path h raw =
     (let p = expanduser h (path_parts raw);
          p' = (if is_absolute p then p else AGENTS_DIR h @ p)
      in case realpath h p' of Some r \<Rightarrow> r | None \<Rightarrow> path_parts (normpath (path_str p')))"

definition agent_dir :: "host \<Rightarrow> security_context \<Rightarrow> string list" where
  "agent_dir h ctx = path_div (AGENTS_DIR h) (sc_agent ctx)"

definition translate_sandbox_path :: "host \<Rightarrow> string \<Rightarrow> security_context \<Rightarrow> string" where
  "translate_sandbox_path h raw ctx =
     (let in_tree = path_str (path_div (agent_dir h ctx) (tl raw)) in
      if isolates_with_bwrap (sc_placement ctx) \<and> (raw = ''~'' \<or> starts_with raw ''~/'')
        then ''/tmp'' @ tl raw
      else if raw = ''/caller'' \<or> starts_with raw ''/caller/'' then
        (if external_home ctx = [] then raw
         else (let rest = lstrip_char SLASH (drop (length ''/caller'') raw) in
               if rest \<noteq> [] then path_str (path_div (path_parts (external_home ctx)) rest)
               else external_home ctx))
      else if under raw V_CONFIG \<or> under raw V_KNOWLEDGE \<or> under raw V_WORKSPACE then in_tree
      else if starts_with raw (V_USERS @ ''/'') then in_tree
      else raw)"

definition session_cwd_anchor :: "host \<Rightarrow> security_context \<Rightarrow> string list" where
  "session_cwd_anchor h ctx =
     (if external_home ctx \<noteq> [] then path_parts (external_home ctx)
      else if sc_mount_username ctx \<noteq> [] then user_dir (agent_dir h ctx) (sc_mount_username ctx)
      else agent_dir h ctx @ [WORKSPACE])"

text \<open>\<open>None\<close> is the \<open>ValueError\<close> \<open>Path.resolve\<close> raises on a NUL, which the cwd anchor does not catch.\<close>

definition resolve_candidates ::
    "host \<Rightarrow> string \<Rightarrow> security_context \<Rightarrow> string list list option" where
  "resolve_candidates h raw ctx =
     (let translated = translate_sandbox_path h raw ctx;
          primary = resolve_path h translated
      in if translated \<noteq> raw \<or> starts_with raw ''~'' \<or> starts_with raw ''/'' then Some [primary]
         else (case realpath h (path_div (session_cwd_anchor h ctx) raw) of
           None \<Rightarrow> None
         | Some cwd_anchored \<Rightarrow>
             if cwd_anchored = primary then Some [primary]
             else if starts_with (normpath raw) DOTDOT then Some [cwd_anchored]
             else Some [cwd_anchored, primary]))"

section \<open>What is nobody's\<close>

definition is_other_users_dir :: "string list \<Rightarrow> string \<Rightarrow> bool" where
  "is_other_users_dir parts username =
     list_ex (\<lambda>i. parts ! i = USERS \<and> (username = [] \<or> parts ! (i + 1) \<noteq> username))
       [0 ..< length parts - 1]"

definition is_local_tmp_path :: "host \<Rightarrow> string list \<Rightarrow> security_context \<Rightarrow> bool" where
  "is_local_tmp_path h p ctx =
     (if \<not> isolates_with_bwrap (sc_placement ctx) \<or> \<not> path_under p (SANDBOX_TMP h) then False
      else \<not> (path_under p (AGENTS_DIR h) \<or> path_under p (PROXY_DIR h)))"

definition is_memory_file :: "string list \<Rightarrow> bool" where
  "is_memory_file parts =
     list_ex (\<lambda>i. parts ! i = ''memory'' \<and>
        (parts ! (i - 1) = KNOWLEDGE \<or>
         (parts ! (i - 1) = CONTEXT \<and> i \<ge> 2 \<and>
          (USERS \<in> set (take i parts) \<or> ''externals'' \<in> set (take i parts)))))
       [1 ..< length parts]"

definition always_deny_write :: "host \<Rightarrow> string list list" where
  "always_deny_write h =
     [resolve h (HOME h @ [''.claude'', ''settings.json'']),
      resolve h (HOME h @ [''.claude'', ''settings.local.json'']),
      resolve h (HOME h @ [''.claude'', ''rules'']),
      PROXY_DIR h,
      resolve h (HOME h @ [''.ssh''])]"

section \<open>External callers\<close>

definition external_read_denial ::
    "host \<Rightarrow> string list \<Rightarrow> security_context \<Rightarrow> path_decision option" where
  "external_read_denial h p ctx =
     (let ad = resolve h (agent_dir h ctx) in
      if path_under p (resolve h (ad @ [KNOWLEDGE, ''memory''])) then
        Some (deny ''Read denied: shared agent memory is not available on external routes'')
      else if path_under p (resolve h (ad @ [''externals''])) then
        (if external_home ctx = [] \<or> \<not> path_under p (resolve h (path_parts (external_home ctx)))
         then Some (deny ''Access denied: another caller's files'') else None)
      else None)"

definition EXTERNAL_WRITABLE_SUBDIRS :: "string list" where
  "EXTERNAL_WRITABLE_SUBDIRS = USER_SUBDIRS"

definition USER_DIR_WRITABLE_SUBDIRS :: "string list" where
  "USER_DIR_WRITABLE_SUBDIRS = USER_SUBDIRS @ [''.claude'', ''.codex'']"

definition external_write_verdict ::
    "host \<Rightarrow> string list \<Rightarrow> security_context \<Rightarrow> path_decision option" where
  "external_write_verdict h p ctx =
     (if \<not> is_external_ctx ctx then None
      else (case external_read_denial h p ctx of
        Some d \<Rightarrow> Some (deny (replace_all ''Read denied'' ''Write denied'' (reason d)))
      | None \<Rightarrow>
          if external_home ctx = [] then None
          else (let home = resolve h (path_parts (external_home ctx)) in
            if \<not> path_under p home then None
            else if p \<noteq> home \<and> list_ex (\<lambda>sub. path_under p (home @ [sub])) EXTERNAL_WRITABLE_SUBDIRS
              then Some ALLOW
            else Some (deny (''Write denied: the root of the caller folder is reserved; only its '' @
                   ''workspace/ and context/ subfolders are writable on this line.'')))))"

section \<open>Reading\<close>

definition check_agent_read :: "host \<Rightarrow> string list \<Rightarrow> security_context \<Rightarrow> bool" where
  "check_agent_read h p ctx =
     (let ad = resolve h (agent_dir h ctx);
          sub = (\<lambda>d. path_under p (resolve h (ad @ [d])))
      in if sc_username ctx = [] then
           sub WORKSPACE \<or> sub KNOWLEDGE \<or>
           (external_home ctx \<noteq> [] \<and> path_under p (resolve h (path_parts (external_home ctx))))
         else if sc_mount_username ctx \<noteq> [] \<and>
                 path_under p (resolve h (user_dir ad (sc_mount_username ctx))) then True
         else if sub WORKSPACE then True
         else if sub KNOWLEDGE then True
         else if sub CONFIG then can_manage (sc_role ctx)
         else False)"

definition admin_fast_path :: "security_context \<Rightarrow> bool" where
  "admin_fast_path ctx = (sc_is_admin_agent ctx \<and> is_admin (sc_role ctx))"

definition check_read_path :: "host \<Rightarrow> string list \<Rightarrow> security_context \<Rightarrow> path_decision" where
  "check_read_path h p ctx =
     (if is_protected_credentials_path (protected_subpaths h) p then
        deny ''Read denied: OAuth credentials are protected. Manage accounts in User Settings, Integrations.''
      else if is_protected_agent_config_path p False then
        deny ''Read denied: agent CLI config files are protected.''
      else if admin_fast_path ctx then ALLOW
      else if is_other_users_dir p (sc_mount_username ctx) then
        deny ''Access denied: cannot read other users' files''
      else (case (if is_external_ctx ctx then external_read_denial h p ctx else None) of
        Some d \<Rightarrow> d
      | None \<Rightarrow>
          if is_claude_bg_output_path (path_str p) (cli_session_id ctx) then ALLOW
          else if is_local_tmp_path h p ctx then ALLOW
          else if check_agent_read h p ctx then ALLOW
          else deny ''Read access denied: path outside allowed scope for your role''))"

section \<open>Writing\<close>

definition strip_root :: "string list \<Rightarrow> string list \<Rightarrow> string list" where
  "strip_root root p = drop (length root) p"

text \<open>One attachment covers a path under its library's mirror.\<close>

definition covers_mirror :: "string \<times> string \<times> bool \<Rightarrow> string \<Rightarrow> string list \<Rightarrow> bool" where
  "covers_mirror entry src sub_parts =
     (case entry of (e_src, e_subdir, e_writable) \<Rightarrow>
        e_src = src \<and> e_writable \<and>
        (let prefix = (if e_subdir \<noteq> [] then split_on SLASH e_subdir else [])
         in take (length prefix) sub_parts = prefix))"

definition mirror_verdict ::
    "host \<Rightarrow> string list \<Rightarrow> security_context \<Rightarrow> string list \<Rightarrow> bool option" where
  "mirror_verdict h p ctx ad =
     (let shared_root = resolve h (ad @ [KNOWLEDGE, ''shared'']) in
      if \<not> path_under p shared_root then None
      else (case strip_root shared_root p of
              [] \<Rightarrow> Some False
            | src # sub_parts \<Rightarrow>
                Some (list_ex (\<lambda>e. covers_mirror e src sub_parts) (knowledge_libraries ctx))))"

definition check_agent_write :: "host \<Rightarrow> string list \<Rightarrow> security_context \<Rightarrow> bool" where
  "check_agent_write h p ctx =
     (let ad = resolve h (agent_dir h ctx);
          sub = (\<lambda>d. path_under p (resolve h (ad @ [d])))
      in if sc_username ctx = [] then
           (if sub WORKSPACE then can_write_workspace (sc_role ctx)
            else if knowledge_rw ctx then
              (case mirror_verdict h p ctx ad of Some m \<Rightarrow> m | None \<Rightarrow> sub KNOWLEDGE)
            else False)
         else if \<not> can_write_workspace (sc_role ctx) then False
         else if \<not> can_manage (sc_role ctx) then sub WORKSPACE
         else if sub WORKSPACE then True
         else if sub CONFIG then True
         else (case mirror_verdict h p ctx ad of Some m \<Rightarrow> m | None \<Rightarrow> sub KNOWLEDGE))"

definition own_dir_verdict ::
    "host \<Rightarrow> string list \<Rightarrow> security_context \<Rightarrow> path_decision option" where
  "own_dir_verdict h p ctx =
     (if sc_mount_username ctx = [] then None
      else (let own = resolve h (user_dir (agent_dir h ctx) (sc_mount_username ctx)) in
        if path_under p own \<and> p \<noteq> own then
          (if list_ex (\<lambda>sub. path_under p (own @ [sub])) USER_DIR_WRITABLE_SUBDIRS then Some ALLOW
           else Some (deny (''Write denied: the root of your personal folder is reserved. Write files '' @
             ''under its workspace/ subfolder (or context/ for personal context documents).'')))
        else None))"

definition write_refusal :: "string \<Rightarrow> path_decision" where
  "write_refusal role =
     (if role = VIEWER then
        deny ''Write denied: viewers can only write to personal folders and plans''
      else if role = CONTRIBUTOR then
        deny ''Write denied: contributors write the shared workspace and their personal folders only (knowledge is owner-only)''
      else if role = EDITOR then
        deny ''Write denied: editors cannot modify agent knowledge (owner-only). Agent config is not visible to editors at all.''
      else deny ''Write denied: path outside allowed scope for your role'')"

definition check_write_path :: "host \<Rightarrow> string list \<Rightarrow> security_context \<Rightarrow> path_decision" where
  "check_write_path h p ctx =
     (if is_memory_file p then
        deny ''Write denied: memory files are managed by the platform. Use the `memory` tool to save or revise memories.''
      else if is_protected_credentials_path (protected_subpaths h) p then
        deny ''Write denied: OAuth credentials are protected. Manage accounts in User Settings, Integrations.''
      else if is_protected_agent_config_path p True then
        deny ''Write denied: agent CLI config files are protected.''
      else if list_ex (path_under p) (always_deny_write h) then
        deny ''Write denied: protected system path''
      else if path_name p = ''.env'' then deny ''Write denied: .env files are protected''
      else if admin_fast_path ctx then ALLOW
      else if is_other_users_dir p (sc_mount_username ctx) then
        deny ''Write denied: cannot write to other users' files''
      else (case external_write_verdict h p ctx of
        Some d \<Rightarrow> d
      | None \<Rightarrow>
          if is_local_tmp_path h p ctx then ALLOW
          else (case own_dir_verdict h p ctx of
            Some d \<Rightarrow> d
          | None \<Rightarrow> if check_agent_write h p ctx then ALLOW else write_refusal (sc_role ctx))))"

definition check_host_path_access ::
    "host \<Rightarrow> string list \<Rightarrow> security_context \<Rightarrow> bool \<Rightarrow> path_decision" where
  "check_host_path_access h p ctx writing =
     (if writing then check_write_path h p ctx else check_read_path h p ctx)"

section \<open>Tool arguments\<close>

fun first_allowed :: "path_decision option \<Rightarrow> path_decision list \<Rightarrow> path_decision" where
  "first_allowed first [] =
     (case first of Some d \<Rightarrow> d | None \<Rightarrow> deny ''path could not be resolved'')"
| "first_allowed first (d # ds) =
     (if allowed d then d
      else first_allowed (case first of None \<Rightarrow> Some d | Some f \<Rightarrow> Some f) ds)"

definition check_path_arg ::
    "host \<Rightarrow> string \<Rightarrow> security_context \<Rightarrow> bool \<Rightarrow> path_decision option" where
  "check_path_arg h raw ctx writing =
     (if is_other_user_tilde raw then Some (deny ''cannot resolve another OS user's home directory'')
      else (case resolve_candidates h raw ctx of
        None \<Rightarrow> None
      | Some cands \<Rightarrow>
          Some (first_allowed None (map (\<lambda>c. check_host_path_access h c ctx writing) cands))))"

section \<open>Patches\<close>

definition PATCH_KINDS :: "string list" where
  "PATCH_KINDS = [''Add File'', ''Update File'', ''Delete File'', ''Move to'']"

text \<open>One line of a patch against \<open>*** <kind>: <path>\<close>.\<close>

definition patch_header :: "string \<Rightarrow> (string \<times> string) option" where
  "patch_header ln =
     (case List.find (\<lambda>k. starts_with ln (''*** '' @ k @ '': '')) PATCH_KINDS of
        None \<Rightarrow> None
      | Some k \<Rightarrow> (let raw = drop (length (''*** '' @ k @ '': '')) ln in
          if raw = [] then None else Some (k, raw)))"

definition patch_text :: "dict \<Rightarrow> string" where
  "patch_text tool_input =
     (case List.find (\<lambda>k. truthy (dget tool_input k)) [''command'', ''patch'', ''input'', ''patch_text''] of
        None \<Rightarrow> []
      | Some k \<Rightarrow> (case dget tool_input k of Some (JStr t) \<Rightarrow> t | _ \<Rightarrow> []))"

definition patch_files :: "dict \<Rightarrow> (string \<times> string \<times> bool list) list" where
  "patch_files tool_input =
     map (\<lambda>(k, raw). (k, strip raw, if k = ''Update File'' then [False, True] else [True]))
       (filter (\<lambda>(k, raw). strip raw \<noteq> [])
         (List.map_filter patch_header (split_on (CHR 10) (patch_text tool_input))))"

fun check_patch_files ::
    "host \<Rightarrow> security_context \<Rightarrow> (string \<times> string \<times> bool) list \<Rightarrow> path_decision option" where
  "check_patch_files h ctx [] = Some ALLOW"
| "check_patch_files h ctx ((k, raw, w) # rest) =
     (case check_path_arg h raw ctx w of
        None \<Rightarrow> None
      | Some d \<Rightarrow>
          if \<not> allowed d then Some (deny (''apply_patch denied for '' @ k @ '' '' @ raw @ '': '' @ reason d))
          else check_patch_files h ctx rest)"

definition patch_checks :: "dict \<Rightarrow> (string \<times> string \<times> bool) list" where
  "patch_checks tool_input =
     concat (map (\<lambda>(k, raw, ws). map (\<lambda>w. (k, raw, w)) ws) (patch_files tool_input))"

definition check_apply_patch :: "host \<Rightarrow> dict \<Rightarrow> security_context \<Rightarrow> path_decision option" where
  "check_apply_patch h tool_input ctx = check_patch_files h ctx (patch_checks tool_input)"

section \<open>Facts\<close>

definition write_protected :: "host \<Rightarrow> string list \<Rightarrow> bool" where
  "write_protected h p \<longleftrightarrow>
     is_memory_file p \<or> is_protected_credentials_path (protected_subpaths h) p \<or>
     is_protected_agent_config_path p True \<or> list_ex (path_under p) (always_deny_write h) \<or>
     path_name p = ''.env''"

definition read_protected :: "host \<Rightarrow> string list \<Rightarrow> bool" where
  "read_protected h p \<longleftrightarrow>
     is_protected_credentials_path (protected_subpaths h) p \<or> is_protected_agent_config_path p False"

lemma check_write_open:
  "allowed (check_write_path h p ctx) \<longleftrightarrow>
     \<not> write_protected h p \<and>
     (admin_fast_path ctx \<or>
      \<not> is_other_users_dir p (sc_mount_username ctx) \<and>
      (case external_write_verdict h p ctx of
         Some d \<Rightarrow> allowed d
       | None \<Rightarrow> is_local_tmp_path h p ctx \<or>
           (case own_dir_verdict h p ctx of
              Some d \<Rightarrow> allowed d | None \<Rightarrow> check_agent_write h p ctx)))"
  by (auto simp: check_write_path_def write_protected_def write_refusal_def split: option.splits)

lemma check_read_open:
  "allowed (check_read_path h p ctx) \<longleftrightarrow>
     \<not> read_protected h p \<and>
     (admin_fast_path ctx \<or>
      \<not> is_other_users_dir p (sc_mount_username ctx) \<and>
      (case (if is_external_ctx ctx then external_read_denial h p ctx else None) of
         Some d \<Rightarrow> allowed d
       | None \<Rightarrow> is_claude_bg_output_path (path_str p) (cli_session_id ctx) \<or>
           is_local_tmp_path h p ctx \<or> check_agent_read h p ctx))"
  by (auto simp: check_read_path_def read_protected_def split: option.splits)

lemma external_read_denial_denies: "external_read_denial h p ctx = Some d \<Longrightarrow> \<not> allowed d"
  by (auto simp: external_read_denial_def Let_def split: if_splits)

text \<open>A small host and session the witnesses run on: an editor, \<open>ann\<close>, on the agent \<open>helper\<close>.\<close>

definition demo_host :: host where
  "demo_host = \<lparr>AGENTS_DIR = [''/'', ''data'', ''agents''], PROXY_DIR = [''/'', ''app''],
     HOME = [''/'', ''root''], SANDBOX_TMP = [''/'', ''tmp''],
     realpath = (\<lambda>p. if list_ex (\<lambda>c. CHR 0x00 \<in> set c) p then None else Some p),
     account_home = (\<lambda>a. if a = [] then Some [''/'', ''root''] else None),
     protected_subpaths = [''google-tokens'']\<rparr>"

definition demo_ctx :: security_context where
  "demo_ctx = \<lparr>sc_role = EDITOR, sc_username = ''ann'', sc_agent = ''helper'',
     sc_is_admin_agent = False, sc_display_name = ''Ann'', sc_email = ''ann@example.org'',
     sc_placement = LOCAL_PLACEMENT, cli_session_id = [],
     session_scope = ''user'', sc_config_visible = None, sc_available_scopes = [''user'', ''agent''],
     knowledge_libraries = [(''docs'', ''api'', True)], knowledge_rw = False, principal = ''user'',
     external_channel = [], external_id = [], external_home = [], external_ephemeral = False,
     external_verified = False, external_claim = [], session_allowed_roots = [], sc_work_cwd = [],
     sc_read_only = False, ssh_hosts = Some []\<rparr>"

definition demo_tree :: "string list \<Rightarrow> string list" where
  "demo_tree rest = [''/'', ''data'', ''agents'', ''helper''] @ rest"

text \<open>A relative path with a NUL in it is not judged: the cwd anchor's \<open>resolve\<close> raises.\<close>

lemma nul_relative_path_raises: "check_path_arg demo_host [CHR 97, CHR 0x00] demo_ctx False = None"
  by code_simp

text \<open>C5. The universal denials of the two path checks: whatever the role, the agent, the mount or the placement,
  an admin on an admin agent included, \<open>check_read_path\<close> refuses a protected credential and the
  session's own CLI configuration, and \<open>check_write_path\<close> refuses these, a memory file, a file
  named \<open>.env\<close>, the keys and the proxy's directory. (The shortcut
  \<open>check_tool_access\<close> takes for an admin on an admin agent asks neither check: see
  \<open>admin_writes_env\<close> of \<open>ToolGate\<close>.)\<close>

theorem protected_for_every_role:
  "(is_protected_credentials_path (protected_subpaths h) p \<or> is_protected_agent_config_path p False \<longrightarrow>
      \<not> allowed (check_read_path h p ctx) \<and> \<not> allowed (check_write_path h p ctx)) \<and>
   (is_memory_file p \<or> is_protected_agent_config_path p True \<or> path_name p = ''.env'' \<or>
      path_under p (PROXY_DIR h) \<or> path_under p (resolve h (HOME h @ [''.ssh''])) \<longrightarrow>
      \<not> allowed (check_write_path h p ctx))"
  using read_protected_write_protected [of p]
  by (auto simp: check_read_open check_write_open read_protected_def write_protected_def
      always_deny_write_def)

theorem protected_for_every_role_witness:
  "\<not> allowed (check_read_path demo_host (demo_tree [''users'', ''ann'', ''google-tokens'', ''t.json'']) demo_ctx) \<and>
   \<not> allowed (check_write_path demo_host (demo_tree [''workspace'', ''.env'']) demo_ctx)"
proof -
  have "is_protected_credentials_path (protected_subpaths demo_host)
      (demo_tree [''users'', ''ann'', ''google-tokens'', ''t.json''])"
    "path_name (demo_tree [''workspace'', ''.env'']) = ''.env''" by code_simp+
  then show ?thesis using protected_for_every_role by blast
qed

text \<open>C9. Nobody else's files: unless the caller is a platform admin on an admin agent, a path with
  a person's directory other than the mount's own in it is neither read nor written; a session
  that mounts no person's tree touches nobody's.\<close>

theorem cross_user_denied:
  assumes "\<not> admin_fast_path ctx" "i + 1 < length p" "p ! i = USERS"
    and "sc_mount_username ctx = [] \<or> p ! (i + 1) \<noteq> sc_mount_username ctx"
  shows "\<not> allowed (check_read_path h p ctx) \<and> \<not> allowed (check_write_path h p ctx)"
proof -
  have "is_other_users_dir p (sc_mount_username ctx)"
    using assms unfolding is_other_users_dir_def list_ex_iff by (auto intro!: bexI [of _ i])
  with assms(1) show ?thesis by (simp add: check_read_open check_write_open)
qed

theorem cross_user_denied_witness:
  "\<not> allowed (check_read_path demo_host (demo_tree [''users'', ''bob'', ''workspace'', ''x'']) demo_ctx)"
proof -
  have "\<not> admin_fast_path demo_ctx" "sc_mount_username demo_ctx = ''ann''"
    "4 + 1 < length (demo_tree [''users'', ''bob'', ''workspace'', ''x''])"
    "demo_tree [''users'', ''bob'', ''workspace'', ''x''] ! 4 = USERS"
    "demo_tree [''users'', ''bob'', ''workspace'', ''x''] ! (4 + 1) \<noteq> ''ann''" by code_simp+
  then show ?thesis
    using cross_user_denied [of demo_ctx 4 "demo_tree [''users'', ''bob'', ''workspace'', ''x'']" demo_host]
    by metis
qed

lemma own_dir_allowed:
  "own_dir_verdict h p ctx = Some d \<Longrightarrow> allowed d \<Longrightarrow>
   sc_mount_username ctx \<noteq> [] \<and>
   (\<exists>sub \<in> set USER_DIR_WRITABLE_SUBDIRS.
      path_under p (resolve h (user_dir (agent_dir h ctx) (sc_mount_username ctx)) @ [sub]))"
  by (auto simp: own_dir_verdict_def Let_def list_ex_iff split: if_splits)

lemma external_allowed:
  "external_write_verdict h p ctx = Some d \<Longrightarrow> allowed d \<Longrightarrow>
   is_external_ctx ctx \<and> external_home ctx \<noteq> [] \<and>
   (\<exists>sub \<in> set EXTERNAL_WRITABLE_SUBDIRS.
      path_under p (resolve h (path_parts (external_home ctx)) @ [sub]))"
  by (auto simp: external_write_verdict_def Let_def list_ex_iff split: if_splits option.splits)

text \<open>The tree of the session's agent, and one of its heads.\<close>

definition in_head :: "host \<Rightarrow> security_context \<Rightarrow> string \<Rightarrow> string list \<Rightarrow> bool" where
  "in_head h ctx folder p = path_under p (resolve h (resolve h (agent_dir h ctx) @ [folder]))"

definition in_mirror :: "host \<Rightarrow> security_context \<Rightarrow> string list \<Rightarrow> bool" where
  "in_mirror h ctx p = path_under p (resolve h (resolve h (agent_dir h ctx) @ [KNOWLEDGE, ''shared'']))"

lemma agent_write_matrix:
  "check_agent_write h p ctx \<Longrightarrow>
     in_head h ctx WORKSPACE p \<and> can_write_workspace (sc_role ctx) \<or>
     in_head h ctx CONFIG p \<and> can_manage (sc_role ctx) \<and> sc_username ctx \<noteq> [] \<or>
     (in_head h ctx KNOWLEDGE p \<or> in_mirror h ctx p) \<and>
       (if sc_username ctx = [] then knowledge_rw ctx else can_manage (sc_role ctx))"
  using can_manage_workspace [of "sc_role ctx"]
  by (auto simp: check_agent_write_def Let_def in_head_def in_mirror_def mirror_verdict_def
      split: if_splits option.splits list.splits)

text \<open>C29. The write matrix: outside the admin-on-admin-agent case, an allowed write is a scratch
  file of a local sandbox, a known subfolder of the person's own directory, a known subfolder of
  an external caller's own tree, the shared workspace for the workspace tier, the configuration
  for an owner-tier person, or the knowledge (its library mirrors included) for an owner-tier
  person or a task fire that carries the knowledge right.\<close>

theorem write_matrix:
  assumes "allowed (check_write_path h p ctx)" "\<not> admin_fast_path ctx"
  shows "is_local_tmp_path h p ctx \<or>
    (sc_mount_username ctx \<noteq> [] \<and>
      (\<exists>sub \<in> set USER_DIR_WRITABLE_SUBDIRS.
         path_under p (resolve h (user_dir (agent_dir h ctx) (sc_mount_username ctx)) @ [sub]))) \<or>
    (is_external_ctx ctx \<and> external_home ctx \<noteq> [] \<and>
      (\<exists>sub \<in> set EXTERNAL_WRITABLE_SUBDIRS.
         path_under p (resolve h (path_parts (external_home ctx)) @ [sub]))) \<or>
    in_head h ctx WORKSPACE p \<and> can_write_workspace (sc_role ctx) \<or>
    in_head h ctx CONFIG p \<and> can_manage (sc_role ctx) \<and> sc_username ctx \<noteq> [] \<or>
    (in_head h ctx KNOWLEDGE p \<or> in_mirror h ctx p) \<and>
      (if sc_username ctx = [] then knowledge_rw ctx else can_manage (sc_role ctx))"
proof -
  from assms consider d where "external_write_verdict h p ctx = Some d" "allowed d"
    | "is_local_tmp_path h p ctx"
    | d where "own_dir_verdict h p ctx = Some d" "allowed d"
    | "check_agent_write h p ctx"
    by (auto simp: check_write_open split: option.splits)
  then show ?thesis
    by cases (blast dest: external_allowed own_dir_allowed agent_write_matrix)+
qed

theorem write_matrix_witness:
  "allowed (check_write_path demo_host (demo_tree [''workspace'', ''a'']) demo_ctx) \<and>
   in_head demo_host demo_ctx WORKSPACE (demo_tree [''workspace'', ''a'']) \<and>
   \<not> allowed (check_write_path demo_host (demo_tree [''config'', ''a'']) demo_ctx)"
proof -
  let ?p = "demo_tree [''workspace'', ''a'']"
  have a: "allowed (check_write_path demo_host ?p demo_ctx)"
    "\<not> allowed (check_write_path demo_host (demo_tree [''config'', ''a'']) demo_ctx)" by code_simp+
  have "\<not> admin_fast_path demo_ctx" "\<not> is_local_tmp_path demo_host ?p demo_ctx"
    "\<not> is_external_ctx demo_ctx" "\<not> can_manage (sc_role demo_ctx)" "sc_username demo_ctx \<noteq> []"
    "\<not> list_ex (\<lambda>sub. path_under ?p (resolve demo_host (user_dir (agent_dir demo_host demo_ctx)
        (sc_mount_username demo_ctx)) @ [sub])) USER_DIR_WRITABLE_SUBDIRS" by code_simp+
  with write_matrix [OF a(1)] a show ?thesis by (auto simp: list_ex_iff)
qed

lemma take_length_prefix: "take (length pre) xs = pre \<longleftrightarrow> (\<exists>tl. xs = pre @ tl)"
proof
  assume "take (length pre) xs = pre"
  then have "xs = pre @ drop (length pre) xs" by (metis append_take_drop_id)
  then show "\<exists>tl. xs = pre @ tl" by blast
qed auto

lemma covers_mirror_entry:
  "covers_mirror (src, subdir, w) src0 subs \<longleftrightarrow>
     src = src0 \<and> w \<and> (\<exists>tl. subs = (if subdir = [] then [] else split_on SLASH subdir) @ tl)"
  by (simp add: covers_mirror_def Let_def take_length_prefix)

text \<open>A library mirror is decided by its attachment, segment by segment: a path under
  \<open>knowledge/shared\<close> is writable by the mirror rule exactly when a writable attachment names its
  first segment as the source and its subdirectory's segments are the next ones; the mirror root
  itself never is.\<close>

theorem mirror_segmentwise:
  "mirror_verdict h (resolve h (ad @ [KNOWLEDGE, ''shared'']) @ rest) ctx ad = Some True \<longleftrightarrow>
   (\<exists>src subdir tl. (src, subdir, True) \<in> set (knowledge_libraries ctx) \<and>
      rest = src # (if subdir = [] then [] else split_on SLASH subdir) @ tl)"
proof (cases rest)
  case Nil
  then show ?thesis by (simp add: mirror_verdict_def strip_root_def Let_def)
next
  case (Cons src0 subs)
  have "mirror_verdict h (resolve h (ad @ [KNOWLEDGE, ''shared'']) @ rest) ctx ad =
      Some (list_ex (\<lambda>e. covers_mirror e src0 subs) (knowledge_libraries ctx))"
    by (simp add: mirror_verdict_def strip_root_def Let_def Cons)
  also have "\<dots> = Some True \<longleftrightarrow> (\<exists>e \<in> set (knowledge_libraries ctx). covers_mirror e src0 subs)"
    by (simp add: list_ex_iff)
  also have "\<dots> \<longleftrightarrow> (\<exists>src subdir tl. (src, subdir, True) \<in> set (knowledge_libraries ctx) \<and>
      src = src0 \<and> subs = (if subdir = [] then [] else split_on SLASH subdir) @ tl)"
    unfolding Bex_def split_paired_Ex covers_mirror_entry ex_bool_eq by blast
  finally show ?thesis by (auto simp: Cons)
qed

text \<open>The trees the gate compares against hold no links: what \<open>realpath\<close> answers below the agents
  directory, and for an external caller's home, is the path itself.\<close>

definition plain_tree :: "host \<Rightarrow> security_context \<Rightarrow> bool" where
  "plain_tree h ctx \<longleftrightarrow> (\<forall>rest. realpath h (agent_dir h ctx @ rest) = Some (agent_dir h ctx @ rest))"

lemma plain_resolve [simp]: "plain_tree h ctx \<Longrightarrow> resolve h (agent_dir h ctx @ rest) = agent_dir h ctx @ rest"
  by (simp add: plain_tree_def resolve_def)

lemma plain_resolve_dir: "plain_tree h ctx \<Longrightarrow> resolve h (agent_dir h ctx) = agent_dir h ctx"
  using plain_resolve [of h ctx "[]"] by simp

lemma write_verdict_external_read:
  "external_write_verdict h p ctx = Some d \<Longrightarrow> allowed d \<Longrightarrow> external_read_denial h p ctx = None"
  by (auto simp: external_write_verdict_def split: if_splits option.splits)

lemma write_none_external_read:
  "external_write_verdict h p ctx = None \<Longrightarrow> is_external_ctx ctx \<Longrightarrow> external_read_denial h p ctx = None"
  by (auto simp: external_write_verdict_def split: if_splits option.splits)

lemma user_dir_append: "CHR 47 \<notin> set u \<Longrightarrow> user_dir d u = d @ [USERS] @ path_parts u"
  by (cases u) (auto simp: user_dir_def path_div_def starts_with_def path_parts_def word_defs)

lemma head_mono:
  "plain_tree h ctx \<Longrightarrow> in_mirror h ctx p \<Longrightarrow> in_head h ctx KNOWLEDGE p"
  unfolding in_mirror_def in_head_def plain_resolve_dir
  by (auto simp: plain_resolve_dir path_under_def prefix_def)

lemma head_read:
  "in_head h ctx WORKSPACE p \<or> in_head h ctx KNOWLEDGE p \<or>
     (in_head h ctx CONFIG p \<and> can_manage (sc_role ctx) \<and> sc_username ctx \<noteq> []) \<Longrightarrow>
   check_agent_read h p ctx"
  by (auto simp: check_agent_read_def in_head_def Let_def)

text \<open>What may be written may be read: on an agent tree without links, an allowed write is an
  allowed read for the same session, for every role; an external caller's own tree included when
  the session has no person.\<close>

theorem writable_is_readable:
  assumes "allowed (check_write_path h p ctx)" "plain_tree h ctx"
    and "CHR 47 \<notin> set (sc_username ctx)"
    and "is_external_ctx ctx \<longrightarrow> sc_username ctx = []"
  shows "allowed (check_read_path h p ctx)"
proof -
  have np: "\<not> read_protected h p"
    using assms(1) read_protected_write_protected [of p]
    by (auto simp: check_write_open write_protected_def read_protected_def)
  show ?thesis
  proof (cases "admin_fast_path ctx")
    case False
    with assms(1) have nu: "\<not> is_other_users_dir p (sc_mount_username ctx)"
      by (simp add: check_write_open)
    have ext: "is_external_ctx ctx \<Longrightarrow> external_read_denial h p ctx = None"
      using assms(1) False write_verdict_external_read write_none_external_read
      by (auto simp: check_write_open split: option.splits)
    have own: "check_agent_read h p ctx"
      if "sc_mount_username ctx \<noteq> []"
        "path_under p (resolve h (user_dir (agent_dir h ctx) (sc_mount_username ctx)) @ [sub])" for sub
    proof -
      have u: "sc_username ctx \<noteq> []" "CHR 47 \<notin> set (sc_mount_username ctx)"
        using that(1) assms(3) by (auto simp: sc_mount_username_def split: if_splits)
      from that(2) have "path_under p (resolve h (user_dir (agent_dir h ctx) (sc_mount_username ctx)))"
        by (auto simp: path_under_def prefix_def)
      with u that(1) show ?thesis
        by (simp add: check_agent_read_def Let_def plain_resolve_dir [OF assms(2)])
    qed
    have exth: "check_agent_read h p ctx" if "is_external_ctx ctx" "external_home ctx \<noteq> []"
        "path_under p (resolve h (path_parts (external_home ctx)) @ [sub])" for sub
    proof -
      from that(3) have "path_under p (resolve h (path_parts (external_home ctx)))"
        by (auto simp: path_under_def prefix_def)
      with that assms(4) show ?thesis by (simp add: check_agent_read_def Let_def)
    qed
    have tree: "check_agent_read h p ctx" if "check_agent_write h p ctx"
      using agent_write_matrix [OF that] head_mono [OF assms(2)] head_read by blast
    from assms(1) False consider
        d where "external_write_verdict h p ctx = Some d" "allowed d"
      | "is_local_tmp_path h p ctx"
      | d where "own_dir_verdict h p ctx = Some d" "allowed d"
      | "check_agent_write h p ctx"
      by (auto simp: check_write_open split: option.splits)
    then have "is_local_tmp_path h p ctx \<or> check_agent_read h p ctx"
    proof cases
      case 1
      with external_allowed [OF 1] exth show ?thesis by blast
    next
      case 3
      with own_dir_allowed [OF 3] own show ?thesis by blast
    qed (use tree in blast)+
    with np nu ext show ?thesis by (auto simp: check_read_open)
  qed (use np in \<open>simp add: check_read_open\<close>)
qed

theorem writable_is_readable_witness:
  "allowed (check_read_path demo_host (demo_tree [''workspace'', ''a'']) demo_ctx)"
proof -
  let ?plain = "demo_host\<lparr>realpath := Some\<rparr>"
  have a: "allowed (check_write_path ?plain (demo_tree [''workspace'', ''a'']) demo_ctx)" by code_simp
  have b: "plain_tree ?plain demo_ctx" by (simp add: plain_tree_def)
  have c: "CHR 47 \<notin> set (sc_username demo_ctx)"
    "is_external_ctx demo_ctx \<longrightarrow> sc_username demo_ctx = []"
    by (simp_all add: demo_ctx_def is_external_ctx_def)
  have "check_read_path demo_host (demo_tree [''workspace'', ''a'']) demo_ctx =
      check_read_path ?plain (demo_tree [''workspace'', ''a'']) demo_ctx" by code_simp
  with writable_is_readable [OF a b c] show ?thesis by simp
qed

lemma check_patch_files_allowed:
  "check_patch_files h ctx cs = Some d \<Longrightarrow> allowed d \<Longrightarrow>
   (k, raw, w) \<in> set cs \<Longrightarrow> \<exists>e. check_path_arg h raw ctx w = Some e \<and> allowed e"
  by (induction h ctx cs rule: check_patch_files.induct) (auto split: option.splits if_splits)

text \<open>A patch is gated file by file: when an \<open>apply_patch\<close> passes on a local sandbox, every
  file the patch announces passed the write check, and an updated file the read check too, so no
  update copies a file the session may not read.\<close>

theorem patch_gated_per_file:
  assumes "check_apply_patch h tool_input ctx = Some d" "allowed d"
    and "patch_header ln = Some (k, raw)" "strip raw \<noteq> []"
    and "ln \<in> set (split_on (CHR 10) (patch_text tool_input))"
  shows "(\<exists>e. check_path_arg h (strip raw) ctx True = Some e \<and> allowed e) \<and>
    (k = ''Update File'' \<longrightarrow> (\<exists>e. check_path_arg h (strip raw) ctx False = Some e \<and> allowed e))"
proof -
  have hdr: "(k, raw) \<in> set (List.map_filter patch_header (split_on (CHR 10) (patch_text tool_input)))"
    using assms(3,5) by (force simp: List.map_filter_def)
  have entry: "(k, strip raw, if k = ''Update File'' then [False, True] else [True])
      \<in> set (patch_files tool_input)"
    unfolding patch_files_def set_map
    by (rule image_eqI [where x = "(k, raw)"]) (use hdr assms(4) in simp_all)
  have "(k, strip raw, w) \<in> set (patch_checks tool_input)"
    if "w \<in> set (if k = ''Update File'' then [False, True] else [True])" for w
    unfolding patch_checks_def set_concat set_map image_image
    by (rule UN_I [OF entry]) (use that in simp)
  then have "(k, strip raw, True) \<in> set (patch_checks tool_input)"
    "k = ''Update File'' \<Longrightarrow> (k, strip raw, False) \<in> set (patch_checks tool_input)" by auto
  with check_patch_files_allowed [OF assms(1) [unfolded check_apply_patch_def] assms(2)]
  show ?thesis by blast
qed

definition demo_patch :: dict where
  "demo_patch = [(''command'', JStr (''*** Update File: /workspace/a'' @ [CHR 10] @ ''+x''))]"

theorem patch_gated_per_file_witness:
  "\<exists>e. check_path_arg demo_host ''/workspace/a'' demo_ctx False = Some e \<and> allowed e"
proof -
  let ?ln = "''*** Update File: /workspace/a''"
  have "map_option allowed (check_apply_patch demo_host demo_patch demo_ctx) = Some True" by code_simp
  then obtain d where d: "check_apply_patch demo_host demo_patch demo_ctx = Some d" "allowed d"
    by auto
  have h: "patch_header ?ln = Some (''Update File'', ''/workspace/a'')"
    "strip ''/workspace/a'' \<noteq> []" "?ln \<in> set (split_on (CHR 10) (patch_text demo_patch))"
    "strip ''/workspace/a'' = ''/workspace/a''" by code_simp+
  from patch_gated_per_file [OF d h(1-3)] h(4) show ?thesis by simp
qed

lemma role_update [simp]:
  "sc_mount_username (ctx\<lparr>sc_role := r\<rparr>) = sc_mount_username ctx"
  "is_external_ctx (ctx\<lparr>sc_role := r\<rparr>) = is_external_ctx ctx"
  "agent_dir h (ctx\<lparr>sc_role := r\<rparr>) = agent_dir h ctx"
  "external_read_denial h p (ctx\<lparr>sc_role := r\<rparr>) = external_read_denial h p ctx"
  "external_write_verdict h p (ctx\<lparr>sc_role := r\<rparr>) = external_write_verdict h p ctx"
  "is_local_tmp_path h p (ctx\<lparr>sc_role := r\<rparr>) = is_local_tmp_path h p ctx"
  "own_dir_verdict h p (ctx\<lparr>sc_role := r\<rparr>) = own_dir_verdict h p ctx"
  "mirror_verdict h p (ctx\<lparr>sc_role := r\<rparr>) ad = mirror_verdict h p ctx ad"
proof -
  show m: "sc_mount_username (ctx\<lparr>sc_role := r\<rparr>) = sc_mount_username ctx"
    by (simp add: sc_mount_username_def)
  show e: "is_external_ctx (ctx\<lparr>sc_role := r\<rparr>) = is_external_ctx ctx"
    by (simp add: is_external_ctx_def)
  have kl: "knowledge_libraries (ctx\<lparr>sc_role := r\<rparr>) = knowledge_libraries ctx" by simp
  have eh: "external_home (ctx\<lparr>sc_role := r\<rparr>) = external_home ctx" by simp
  show a: "agent_dir h (ctx\<lparr>sc_role := r\<rparr>) = agent_dir h ctx" by (simp add: agent_dir_def)
  show x: "external_read_denial h p (ctx\<lparr>sc_role := r\<rparr>) = external_read_denial h p ctx"
    by (simp add: external_read_denial_def a)
  show "external_write_verdict h p (ctx\<lparr>sc_role := r\<rparr>) = external_write_verdict h p ctx"
    unfolding external_write_verdict_def x e eh ..
  show "is_local_tmp_path h p (ctx\<lparr>sc_role := r\<rparr>) = is_local_tmp_path h p ctx"
    by (simp add: is_local_tmp_path_def)
  show "own_dir_verdict h p (ctx\<lparr>sc_role := r\<rparr>) = own_dir_verdict h p ctx"
    unfolding own_dir_verdict_def m a ..
  show "mirror_verdict h p (ctx\<lparr>sc_role := r\<rparr>) ad = mirror_verdict h p ctx ad"
    unfolding mirror_verdict_def kl ..
qed

lemma fast_path_mono:
  "admin_fast_path ctx \<Longrightarrow> rank (sc_role ctx) \<le> rank r \<Longrightarrow> admin_fast_path (ctx\<lparr>sc_role := r\<rparr>)"
  using admin_tier.mono by (auto simp: admin_fast_path_def)

lemma agent_read_mono:
  "check_agent_read h p ctx \<Longrightarrow> rank (sc_role ctx) \<le> rank r \<Longrightarrow>
   check_agent_read h p (ctx\<lparr>sc_role := r\<rparr>)"
  using owner_tier.mono by (auto simp: check_agent_read_def Let_def split: if_splits)

lemma agent_write_mono:
  assumes "check_agent_write h p ctx" "rank (sc_role ctx) \<le> rank r"
  shows "check_agent_write h p (ctx\<lparr>sc_role := r\<rparr>)"
  using assms(1) workspace_tier.mono [OF _ assms(2)] owner_tier.mono [OF _ assms(2)]
  by (auto simp: check_agent_write_def Let_def split: if_splits)

text \<open>C38. Roles are ordered: raising a session's role to one of no lower rank, everything else equal,
  loses no read and no write.\<close>

theorem access_monotone_in_role:
  assumes "rank (sc_role ctx) \<le> rank r"
  shows "(allowed (check_read_path h p ctx) \<longrightarrow> allowed (check_read_path h p (ctx\<lparr>sc_role := r\<rparr>))) \<and>
    (allowed (check_write_path h p ctx) \<longrightarrow> allowed (check_write_path h p (ctx\<lparr>sc_role := r\<rparr>)))"
  using assms fast_path_mono [OF _ assms] agent_read_mono [OF _ assms] agent_write_mono [OF _ assms]
  by (auto simp: check_read_open check_write_open split: option.splits if_splits)

theorem access_monotone_in_role_witness:
  "allowed (check_write_path demo_host (demo_tree [''workspace'', ''a'']) (demo_ctx\<lparr>sc_role := MANAGER\<rparr>))"
proof -
  have "rank (sc_role demo_ctx) \<le> rank MANAGER"
    "allowed (check_write_path demo_host (demo_tree [''workspace'', ''a'']) demo_ctx)" by code_simp+
  with access_monotone_in_role [of demo_ctx MANAGER] show ?thesis by blast
qed

end
