(* ===== verification/RemotePath.thy ===== *)
theory RemotePath
  imports PathPolicy
begin

text \<open>
  \<open>proxy/auth/path_policy.py\<close>, a path of a paired machine: the resolver of the theory PathResolver
  called with the session's context, and the role matrix over what it finds in the agent tree; a
  file tool's path, a patch's files and a shell word. An outer \<open>None\<close> is a raise.
\<close>

section \<open>A path of a paired machine\<close>

definition context_from_security :: "security_context \<Rightarrow> policy_context" where
  "context_from_security ctx =
     \<lparr>pc_placement = sc_placement ctx, pc_agent_slug = sc_agent ctx, pc_role = or_else (sc_role ctx) MANAGER,
      pc_allowed_roots = session_allowed_roots ctx, pc_work_cwd = normalize_path (sc_work_cwd ctx),
      pc_relative_anchor = (if sc_mount_username ctx \<noteq> [] then virtual_user_root (sc_mount_username ctx)
                            else V_WORKSPACE),
      pc_session_id = cli_session_id ctx\<rparr>"

definition resolve_tool_path :: "host \<Rightarrow> security_context \<Rightarrow> bool \<Rightarrow> string \<Rightarrow> resolution option" where
  "resolve_tool_path h ctx writing raw =
     resolve_path_for_session (protected_subpaths h) (context_from_security ctx) writing raw"

definition error_of :: "resolution \<Rightarrow> string" where
  "error_of res = (case res_error res of None \<Rightarrow> [] | Some e \<Rightarrow> error_text e)"

definition is_virtual_form :: "string \<Rightarrow> bool" where
  "is_virtual_form raw =
     (classify_path (normalize_path raw) = SandboxVirtual \<or> raw = ''~'' \<or> starts_with raw ''~/'')"

definition enforce_agent_tree_rbac :: "host \<Rightarrow> resolution \<Rightarrow> security_context \<Rightarrow> bool \<Rightarrow> path_decision" where
  "enforce_agent_tree_rbac h res ctx writing =
     (case res_ref res of
        Some (AgentTree v) \<Rightarrow>
          check_host_path_access h
            (resolve_path h (translate_sandbox_path h (or_else (sandbox_relative res) (SLASH # v)) ctx))
            ctx writing
      | _ \<Rightarrow> ALLOW)"

definition check_remote_bash_path :: "host \<Rightarrow> string \<Rightarrow> security_context \<Rightarrow> bool \<Rightarrow> path_decision option" where
  "check_remote_bash_path h raw ctx writing =
     (case resolve_tool_path h ctx writing raw of
        None \<Rightarrow> None
      | Some res \<Rightarrow>
          if \<not> res_allowed res then Some (deny (or_else (error_of res) ''path denied by machine policy''))
          else Some (enforce_agent_tree_rbac h res ctx writing))"

definition check_remote_protected_path ::
    "host \<Rightarrow> string \<Rightarrow> security_context \<Rightarrow> bool \<Rightarrow> path_decision option option" where
  "check_remote_protected_path h raw ctx writing =
     (case resolve_tool_path h ctx writing raw of
        None \<Rightarrow> None
      | Some res \<Rightarrow> if \<not> res_allowed res \<and> res_protected res then Some (Some (deny (error_of res)))
                    else Some None)"

text \<open>A file tool's call on the machine: judged, and its path rewritten to the machine's spelling.\<close>

definition check_remote_file_tool ::
    "host \<Rightarrow> string \<Rightarrow> string \<Rightarrow> dict \<Rightarrow> security_context \<Rightarrow> path_decision option" where
  "check_remote_file_tool h tool raw tool_input ctx =
     (case resolve_tool_path h ctx (writes tool) raw of
        None \<Rightarrow> None
      | Some res \<Rightarrow>
          if \<not> res_allowed res then Some (deny (error_of res))
          else
           (let upd = (if access_path res \<noteq> [] \<and> is_virtual_form raw
                       then Some (dict_set (payload_key tool (Some tool_input)) (JStr (access_path res)) tool_input)
                       else None);
                d = enforce_agent_tree_rbac h res ctx (writes tool)
            in Some (if allowed d \<and> upd \<noteq> None then d\<lparr>updated_input := upd\<rparr> else d)))"

section \<open>A patch on the machine\<close>

definition REMOTE_BANDS :: string where
  "REMOTE_BANDS = ''inside the agent tree write under workspace/ or your own folder; outside it only under the OS user's home, unless the machine allows the full filesystem''"

fun check_remote_patch_files ::
    "host \<Rightarrow> security_context \<Rightarrow> policy_context \<Rightarrow> (string \<times> string \<times> bool) list \<Rightarrow> path_decision option" where
  "check_remote_patch_files h ctx pctx [] = Some ALLOW"
| "check_remote_patch_files h ctx pctx ((k, raw, writing) # cs) =
     (case resolve_path_for_session (protected_subpaths h) pctx writing raw of
        None \<Rightarrow> None
      | Some res \<Rightarrow>
          (let pre = ''apply_patch denied for '' @ k @ '' '' @ raw @ '': '';
               d = enforce_agent_tree_rbac h res ctx writing
           in if \<not> res_allowed res then Some (deny (pre @ error_of res))
              else if is_virtual_form raw then
                Some (deny (pre @ ''Codex edits the machine's own filesystem; state the path as '' @ access_path res))
              else if \<not> allowed d then Some (deny (pre @ reason d @ '' ('' @ REMOTE_BANDS @ '')''))
              else check_remote_patch_files h ctx pctx cs))"

definition patch_context :: "security_context \<Rightarrow> policy_context" where
  "patch_context ctx =
     (let pctx = context_from_security ctx in
      if admin_fast_path ctx then pctx\<lparr>pc_placement := (pc_placement pctx)\<lparr>allow_full_fs := True\<rparr>\<rparr>
      else pctx)"

definition check_apply_patch_remote :: "host \<Rightarrow> dict \<Rightarrow> security_context \<Rightarrow> path_decision option" where
  "check_apply_patch_remote h tool_input ctx =
     check_remote_patch_files h ctx (patch_context ctx) (patch_checks tool_input)"

section \<open>Facts\<close>

lemma rbac_tree:
  "res_ref res = Some (AgentTree v) \<Longrightarrow>
   enforce_agent_tree_rbac h res ctx w =
     check_host_path_access h
       (resolve_path h (translate_sandbox_path h (or_else (sandbox_relative res) (SLASH # v)) ctx)) ctx w"
  by (simp add: enforce_agent_tree_rbac_def)

lemma rbac_host: "res_ref res = Some (SatelliteHost p) \<Longrightarrow> enforce_agent_tree_rbac h res ctx w = ALLOW"
  by (simp add: enforce_agent_tree_rbac_def)

text \<open>A session of \<open>ann\<close>, an editor, on a paired machine.\<close>

definition demo_on :: "placement \<Rightarrow> security_context" where
  "demo_on place = demo_ctx\<lparr>sc_placement := place, cli_session_id := ''s1''\<rparr>"

end
