(* ===== verification/PyText.thy ===== *)
theory PyText
  imports Prelude
begin

text \<open>
  The part of Python's \<open>str\<close>, \<open>shlex\<close> and \<open>posixpath\<close> the shell gate stands on: searching, cutting
  and stripping of strings, \<open>shlex.split\<close> and \<open>shlex.quote\<close> in their POSIX mode. A scan the code writes
  with an index into the string is a function of the rest of the string.
\<close>

section \<open>Characters\<close>

abbreviation BSLASH :: char where "BSLASH \<equiv> CHR 92"
abbreviation BTICK :: char where "BTICK \<equiv> CHR 96"
abbreviation SQUOTE :: char where "SQUOTE \<equiv> CHR 39"
abbreviation DQUOTE :: char where "DQUOTE \<equiv> CHR 34"
abbreviation NL :: char where "NL \<equiv> CHR 10"
abbreviation CR :: char where "CR \<equiv> CHR 13"
abbreviation TAB :: char where "TAB \<equiv> CHR 9"

definition is_alnum :: "char \<Rightarrow> bool" where
  "is_alnum c = (is_letter c \<or> is_digit c)"

definition is_word :: "char \<Rightarrow> bool" where
  "is_word c = (is_alnum c \<or> c = CHR ''_'')"

section \<open>Cutting and stripping\<close>

definition before :: "char \<Rightarrow> string \<Rightarrow> string" where
  "before c s = takeWhile (\<lambda>x. x \<noteq> c) s"

definition after :: "char \<Rightarrow> string \<Rightarrow> string" where
  "after c s = drop 1 (dropWhile (\<lambda>x. x \<noteq> c) s)"

text \<open>\<open>s.rsplit(c, 1)[-1]\<close>.\<close>

definition after_last :: "char \<Rightarrow> string \<Rightarrow> string" where
  "after_last c s = last (split_on c s)"

definition strip_of :: "string \<Rightarrow> string \<Rightarrow> string" where
  "strip_of cs s = rev (dropWhile (\<lambda>c. c \<in> set cs) (rev (dropWhile (\<lambda>c. c \<in> set cs) s)))"

definition lstrip :: "string \<Rightarrow> string" where
  "lstrip s = dropWhile is_space s"

definition rstrip :: "string \<Rightarrow> string" where
  "rstrip s = rev (dropWhile is_space (rev s))"

text \<open>\<open>s.split()\<close>: the maximal runs without whitespace.\<close>

fun split_words :: "string \<Rightarrow> string list" where
  "split_words [] = []"
| "split_words (c # cs) =
     (if is_space c then split_words cs
      else (case cs of
              [] \<Rightarrow> [[c]]
            | d # _ \<Rightarrow>
                if is_space d then [c] # split_words cs
                else (case split_words cs of [] \<Rightarrow> [[c]] | w # ws \<Rightarrow> (c # w) # ws)))"

definition is_identifier :: "string \<Rightarrow> bool" where
  "is_identifier s = (s \<noteq> [] \<and> \<not> is_digit (hd s) \<and> list_all is_word s)"

text \<open>\<open>str(n)\<close>.\<close>

fun nat_str :: "nat \<Rightarrow> string" where
  "nat_str n = (if n < 10 then [char_of (48 + n)] else nat_str (n div 10) @ [char_of (48 + n mod 10)])"

declare nat_str.simps [simp del]

section \<open>Paths\<close>

definition basename :: "string \<Rightarrow> string" where
  "basename p = after_last SLASH p"

text \<open>\<open>posixpath.join(a, b)\<close>.\<close>

definition path_join :: "string \<Rightarrow> string \<Rightarrow> string" where
  "path_join a b =
     (if starts_with b ''/'' then b
      else if a = [] \<or> ends_with a ''/'' then a @ b
      else a @ ''/'' @ b)"

section \<open>shlex\<close>

text \<open>The states of \<open>shlex.read_token\<close> with \<open>whitespace_split\<close> and \<open>posix\<close>: between tokens, in a
  token, in a quoted span, after a backslash (in a quoted span or not).\<close>

datatype lex_state = Blank | Plain | Quoted char | Escaped "char option"

definition shlex_space :: "char \<Rightarrow> bool" where
  "shlex_space c = (c = CHR 32 \<or> c = TAB \<or> c = CR \<or> c = NL)"

definition is_quote :: "char \<Rightarrow> bool" where
  "is_quote c = (c = SQUOTE \<or> c = DQUOTE)"

fun shlex_run :: "lex_state \<Rightarrow> string \<Rightarrow> string \<Rightarrow> string list option" where
  "shlex_run Blank tok [] = Some []"
| "shlex_run Blank tok (c # cs) =
     (if shlex_space c then shlex_run Blank [] cs
      else if c = BSLASH then shlex_run (Escaped None) [] cs
      else if is_quote c then shlex_run (Quoted c) [] cs
      else shlex_run Plain [c] cs)"
| "shlex_run Plain tok [] = Some [tok]"
| "shlex_run Plain tok (c # cs) =
     (if shlex_space c then map_option ((#) tok) (shlex_run Blank [] cs)
      else if is_quote c then shlex_run (Quoted c) tok cs
      else if c = BSLASH then shlex_run (Escaped None) tok cs
      else shlex_run Plain (tok @ [c]) cs)"
| "shlex_run (Quoted q) tok [] = None"
| "shlex_run (Quoted q) tok (c # cs) =
     (if c = q then shlex_run Plain tok cs
      else if c = BSLASH \<and> q = DQUOTE then shlex_run (Escaped (Some q)) tok cs
      else shlex_run (Quoted q) (tok @ [c]) cs)"
| "shlex_run (Escaped e) tok [] = None"
| "shlex_run (Escaped None) tok (c # cs) = shlex_run Plain (tok @ [c]) cs"
| "shlex_run (Escaped (Some q)) tok (c # cs) =
     shlex_run (Quoted q) (if c \<noteq> BSLASH \<and> c \<noteq> q then tok @ [BSLASH, c] else tok @ [c]) cs"

definition shlex_split :: "string \<Rightarrow> string list option" where
  "shlex_split s = shlex_run Blank [] s"

text \<open>\<open>shlex.quote\<close>.\<close>

definition shell_safe :: "char \<Rightarrow> bool" where
  "shell_safe c = (is_word c \<or> c \<in> set ''@%+=:,./-'')"

definition quote_char :: "char \<Rightarrow> string" where
  "quote_char c = (if c = SQUOTE then [SQUOTE, DQUOTE, SQUOTE, DQUOTE, SQUOTE] else [c])"

definition shlex_quote :: "string \<Rightarrow> string" where
  "shlex_quote s =
     (if s = [] then [SQUOTE, SQUOTE]
      else if list_all shell_safe s then s
      else SQUOTE # concat (map quote_char s) @ [SQUOTE])"

lemma shell_safe_ordinary:
  "shell_safe c \<Longrightarrow> \<not> shlex_space c \<and> \<not> is_quote c \<and> c \<noteq> BSLASH"
  by (auto simp: shell_safe_def shlex_space_def is_quote_def is_word_def is_alnum_def is_letter_def
      is_digit_def)

lemma shlex_run_safe:
  "list_all shell_safe s \<Longrightarrow> shlex_run Plain tok (s @ r) = shlex_run Plain (tok @ s) r"
  by (induction s arbitrary: tok) (auto dest: shell_safe_ordinary)

lemma shlex_run_quoted:
  "shlex_run (Quoted SQUOTE) tok (concat (map quote_char s) @ SQUOTE # r) =
     shlex_run Plain (tok @ s) r"
  by (induction s arbitrary: tok) (simp_all add: quote_char_def shlex_space_def is_quote_def)

lemma shlex_run_quote:
  "shlex_run Blank [] (shlex_quote t @ r) = shlex_run Plain t r"
proof -
  consider "t = []" | c cs where "t = c # cs" "list_all shell_safe t"
    | "t \<noteq> []" "\<not> list_all shell_safe t" by (cases t) auto
  then show ?thesis
  proof cases
    case 1
    then show ?thesis by (simp add: shlex_quote_def is_quote_def shlex_space_def)
  next
    case (2 c cs)
    then have "shell_safe c" "list_all shell_safe cs" by auto
    then show ?thesis using shell_safe_ordinary [of c] shlex_run_safe [of cs "[c]" r] 2
      by (simp add: shlex_quote_def)
  next
    case 3
    then show ?thesis using shlex_run_quoted [of "[]" t r]
      by (simp add: shlex_quote_def is_quote_def shlex_space_def)
  qed
qed

text \<open>Words that were quoted one by one and joined with blanks are read back as they were.\<close>

lemma shlex_split_join:
  "shlex_split (join_on '' '' (map shlex_quote ts)) = Some ts"
proof (cases ts)
  case Nil
  then show ?thesis by (simp add: shlex_split_def)
next
  case (Cons t us)
  have "shlex_run Plain t (concat (map (\<lambda>u. CHR 32 # shlex_quote u) us)) = Some (t # us)" for t
  proof (induction us arbitrary: t)
    case (Cons u us)
    then show ?case by (simp add: shlex_space_def shlex_run_quote)
  qed simp
  moreover have "join_on '' '' (map shlex_quote (t # us)) =
      shlex_quote t @ concat (map (\<lambda>u. CHR 32 # shlex_quote u) us)"
    by (induction us arbitrary: t) auto
  ultimately show ?thesis using Cons by (simp add: shlex_split_def shlex_run_quote)
qed

section \<open>Whitespace of a text\<close>

text \<open>The number of whitespace characters bounds the recursion of the gate: peeling a wrapper off a
  command consumes at least one.\<close>

definition blanks :: "string \<Rightarrow> nat" where
  "blanks s = length (filter is_space s)"

lemma blanks_simps [simp]:
  "blanks [] = 0"
  "blanks (c # s) = (if is_space c then Suc (blanks s) else blanks s)"
  "blanks (s @ t) = blanks s + blanks t"
  by (simp_all add: blanks_def)

lemma blanks_drop_le: "blanks (drop n s) \<le> blanks s"
proof -
  have "blanks s = blanks (take n s) + blanks (drop n s)"
    by (metis append_take_drop_id blanks_simps(3))
  then show ?thesis by simp
qed

lemma blanks_dropWhile_le: "blanks (dropWhile P s) \<le> blanks s"
  by (metis blanks_drop_le dropWhile_eq_drop)

lemma blanks_rev [simp]: "blanks (rev s) = blanks s"
  by (simp add: blanks_def flip: rev_filter)

lemma blanks_strip_le [simp]:
  "blanks (strip s) \<le> blanks s" "blanks (lstrip s) \<le> blanks s" "blanks (rstrip s) \<le> blanks s"
  unfolding strip_def lstrip_def rstrip_def
  by (metis blanks_dropWhile_le blanks_rev order_trans)+

end
