(* ===== verification/ShellSubst.thy ===== *)
theory ShellSubst
  imports PyText
begin

text \<open>
  \<open>proxy/auth/path_shell_subst.py\<close>: where a command substitution ends, and the lifting of every
  substitution of a command into a placeholder. An index into the string is the rest of the string
  from there; an end index is the rest after it, with the flag that says it closed.
\<close>

section \<open>Where a substitution ends\<close>

definition PLACEHOLDER_PREFIX :: string where
  "PLACEHOLDER_PREFIX = ''__OTO_SUBST_''"

definition has_placeholder :: "string \<Rightarrow> bool" where
  "has_placeholder text = contains text PLACEHOLDER_PREFIX"

definition placeholder :: "nat \<Rightarrow> string" where
  "placeholder n = PLACEHOLDER_PREFIX @ nat_str n @ ''__''"

text \<open>The rest after the opening backtick, scanned for the closing one.\<close>

fun backtick_end :: "string \<Rightarrow> string \<times> bool" where
  "backtick_end [] = ([], False)"
| "backtick_end (c # cs) =
     (if c = BSLASH then backtick_end (drop 1 cs)
      else if c = BTICK then (cs, True)
      else backtick_end cs)"

text \<open>A \<open>$(\<close> opens at this place, or a \<open><(\<close> or \<open>>(\<close> outside double quotes.\<close>

definition opens_subst :: "bool \<Rightarrow> string \<Rightarrow> bool" where
  "opens_subst in_d s =
     (starts_with s ''$('' \<or> (\<not> in_d \<and> (starts_with s ''<('' \<or> starts_with s ''>('')))"

function subst_scan :: "bool \<Rightarrow> bool \<Rightarrow> nat \<Rightarrow> string \<Rightarrow> string \<times> bool" where
  "subst_scan in_s in_d depth [] = ([], False)"
| "subst_scan in_s in_d depth (c # cs) =
     (if c = BSLASH \<and> \<not> in_s then subst_scan in_s in_d depth (drop 1 cs)
      else if in_s then subst_scan (c \<noteq> SQUOTE) in_d depth cs
      else if c = SQUOTE \<and> \<not> in_d then subst_scan True in_d depth cs
      else if c = DQUOTE then subst_scan in_s (\<not> in_d) depth cs
      else if c = BTICK then subst_scan in_s in_d depth (fst (backtick_end cs))
      else if opens_subst in_d (c # cs) then
        subst_scan in_s in_d depth (fst (subst_scan False False 1 (drop 1 cs)))
      else if in_d then subst_scan in_s in_d depth cs
      else if c = CHR ''('' then subst_scan in_s in_d (depth + 1) cs
      else if c = CHR '')'' then
        (if depth = 1 then (cs, True) else subst_scan in_s in_d (depth - 1) cs)
      else subst_scan in_s in_d depth cs)"
  by pat_completeness auto

lemma suffix_tail: "suffix x cs \<Longrightarrow> suffix x (c # cs)" "suffix x (drop n cs) \<Longrightarrow> suffix x (c # cs)"
  using suffix_order.trans [OF _ suffix_drop] by (auto simp: suffix_Cons)

lemma backtick_end_suffix: "suffix (fst (backtick_end s)) s"
  by (induction s rule: backtick_end.induct) (auto intro: suffix_tail)

lemma subst_scan_suffix_dom:
  "subst_scan_dom (in_s, in_d, depth, s) \<Longrightarrow> suffix (fst (subst_scan in_s in_d depth s)) s"
proof (induction in_s in_d depth s rule: subst_scan.pinduct)
  case (2 in_s in_d depth c cs)
  have branch: "(P \<Longrightarrow> suffix (fst x) m) \<Longrightarrow> (\<not> P \<Longrightarrow> suffix (fst y) m) \<Longrightarrow>
      suffix (fst (if P then x else y)) m" for P m and x y :: "string \<times> bool" by simp
  have weaken: "suffix x (fst (backtick_end cs)) \<Longrightarrow> suffix x (c # cs)"
    "suffix x y \<Longrightarrow> suffix y (drop n cs) \<Longrightarrow> suffix x (c # cs)" for x y n
    using suffix_order.trans [OF _ backtick_end_suffix, of x cs] suffix_order.trans [of x y]
    by (auto intro: suffix_tail)
  show ?case unfolding subst_scan.psimps(2) [OF 2(1)]
    apply (intro branch)
              apply (rule suffix_tail(2), rule 2(2), assumption)
             apply (rule suffix_tail(1), rule 2(3), assumption+)
            apply (rule suffix_tail(1), rule 2(4), assumption+)
           apply (rule suffix_tail(1), rule 2(5), assumption+)
          apply (rule weaken(1), rule 2(6), assumption+)
         apply (rule weaken(2), rule 2(8), assumption+, rule 2(7), assumption+)
        apply (rule suffix_tail(1), rule 2(9), assumption+)
       apply (rule suffix_tail(1), rule 2(10), assumption+)
      apply (simp add: suffix_Cons)
     apply (rule suffix_tail(1), rule 2(11), assumption+)
    apply (rule suffix_tail(1), rule 2(12), assumption+)
    done
qed (simp add: subst_scan.psimps)

lemmas backtick_end_le = suffix_length_le [OF backtick_end_suffix]

lemma subst_scan_total: "All subst_scan_dom"
proof (rule "subst_scan.termination" [of "measure (\<lambda>(_, _, _, s). length s)"], goal_cases)
  case (8 in_s in_d depth c cs)
  then have "length (fst (subst_scan False False 1 (drop 1 cs))) \<le> length (drop 1 cs)"
    by (intro suffix_length_le subst_scan_suffix_dom)
  then show ?case by simp
qed (auto simp: less_Suc_eq_le backtick_end_le)

termination subst_scan by (rule subst_scan_total)

declare subst_scan.simps [simp del]

lemma subst_scan_suffix: "suffix (fst (subst_scan in_s in_d depth s)) s"
  using subst_scan_total by (blast intro: subst_scan_suffix_dom)

text \<open>\<open>subst_end\<close> at the two characters that open a substitution.\<close>

definition subst_end :: "string \<Rightarrow> string \<times> bool" where
  "subst_end s = subst_scan False False 1 (drop 2 s)"

lemma subst_end_suffix: "suffix (fst (subst_end s)) (drop 2 s)"
  unfolding subst_end_def by (rule subst_scan_suffix)

lemmas subst_end_le = suffix_length_le [OF subst_end_suffix]

section \<open>Lifting\<close>

text \<open>The inner text of a substitution: what the scan consumed after the opening, without the closing
  character when there is one.\<close>

definition consumed :: "string \<Rightarrow> string \<Rightarrow> string" where
  "consumed s rest = take (length s - length rest) s"

definition inner_text :: "string \<Rightarrow> string \<times> bool \<Rightarrow> string" where
  "inner_text body e = (if snd e then butlast (consumed body (fst e)) else consumed body (fst e))"

text \<open>The loop of \<open>lift_substitutions\<close>, with the number of substitutions lifted so far.\<close>

function lift_run :: "bool \<Rightarrow> bool \<Rightarrow> bool \<Rightarrow> nat \<Rightarrow> string \<Rightarrow> string \<times> string list" where
  "lift_run literal in_s in_d n [] = ([], [])"
| "lift_run literal in_s in_d n (c # cs) =
     (if c = BSLASH \<and> \<not> in_s \<and> cs \<noteq> [] then
        map_prod ((@) (c # take 1 cs)) id (lift_run literal in_s in_d n (drop 1 cs))
      else if \<not> literal \<and> c = SQUOTE \<and> \<not> in_d then
        map_prod ((#) c) id (lift_run literal (\<not> in_s) in_d n cs)
      else if \<not> literal \<and> c = DQUOTE \<and> \<not> in_s then
        map_prod ((#) c) id (lift_run literal in_s (\<not> in_d) n cs)
      else if \<not> literal \<and> in_s then map_prod ((#) c) id (lift_run literal in_s in_d n cs)
      else if opens_subst (in_d \<or> literal) (c # cs) then
        (let e = subst_end (c # cs) in
         map_prod ((@) (placeholder n)) ((#) (inner_text (drop 2 (c # cs)) e))
           (lift_run literal in_s in_d (n + 1) (fst e)))
      else if c = BTICK then
        (let e = backtick_end cs in
         map_prod ((@) (placeholder n)) ((#) (inner_text cs e))
           (lift_run literal in_s in_d (n + 1) (fst e)))
      else map_prod ((#) c) id (lift_run literal in_s in_d n cs))"
  by pat_completeness auto
termination
proof (relation "measure (\<lambda>(_, _, _, _, s). length s)", goal_cases)
  case (6 literal in_s in_d n c cs e)
  with subst_end_le [of "c # cs"] show ?case by simp
qed (auto simp: less_Suc_eq_le backtick_end_le)

declare lift_run.simps [simp del]

definition lift_substitutions :: "bool \<Rightarrow> string \<Rightarrow> string \<times> string list" where
  "lift_substitutions quotes_are_literal s = lift_run quotes_are_literal False False 0 s"

definition heredoc_line_commands :: "string \<Rightarrow> string list" where
  "heredoc_line_commands line =
     map (\<lambda>inner. ''$('' @ inner @ '')'')
       (filter (\<lambda>inner. strip inner \<noteq> []) (snd (lift_substitutions True line)))"

section \<open>Facts\<close>

lemma nat_str_digits: "list_all is_digit (nat_str n)"
proof (induction n rule: nat_str.induct)
  case (1 n)
  have d: "is_digit (char_of (48 + m))" if "m < 10" for m :: nat
    using that by (simp add: is_digit_def of_char_of)
  show ?case using 1 by (subst nat_str.simps) (auto simp: d)
qed

lemma placeholder_word: "list_all is_word (placeholder n)"
  using nat_str_digits [of n]
  by (auto simp: placeholder_def PLACEHOLDER_PREFIX_def is_word_def is_alnum_def is_letter_def
      list_all_iff)

text \<open>Word characters are copied: none opens or closes anything.\<close>

lemma lift_run_word:
  "list_all is_word w \<Longrightarrow> literal \<or> \<not> in_s \<Longrightarrow>
     lift_run literal in_s in_d n (w @ s) = map_prod ((@) w) id (lift_run literal in_s in_d n s)"
proof (induction w)
  case (Cons c w)
  then have "is_word c" by simp
  then have plain: "c \<noteq> BSLASH" "c \<noteq> SQUOTE" "c \<noteq> DQUOTE" "c \<noteq> BTICK" "\<not> opens_subst d (c # x)" for d x
    by (auto simp: is_word_def is_alnum_def is_letter_def is_digit_def opens_subst_def starts_with_def)
  show ?case using Cons by (auto simp: lift_run.simps(2) plain prod.map_comp o_def)
qed (simp add: map_prod_def)

lemma lift_run_paren:
  assumes "fst (lift_run literal in_s in_d n s) = CHR ''('' # r"
  obtains r' where "s = CHR ''('' # r'"
proof (cases s)
  case (Cons c cs)
  with assms have "c = CHR ''(''"
    by (auto simp: lift_run.simps(2) placeholder_def PLACEHOLDER_PREFIX_def Let_def split: if_splits)
  with Cons that show ?thesis by simp
qed (use assms in \<open>simp add: lift_run.simps\<close>)

lemma lift_run_opens:
  "opens_subst d (c # fst (lift_run literal in_s in_d n s)) \<Longrightarrow> opens_subst d (c # s)"
  by (cases "fst (lift_run literal in_s in_d n s)"; cases s)
    (auto simp: opens_subst_def starts_with_def elim!: lift_run_paren)

text \<open>No substitution is left in the lifted text.\<close>

lemma lift_run_again:
  "lift_run literal in_s in_d m (fst (lift_run literal in_s in_d n s)) =
     (fst (lift_run literal in_s in_d n s), [])"
proof (induction literal in_s in_d n s arbitrary: m rule: lift_run.induct)
  case (2 literal in_s in_d n c cs)
  show ?case
  proof (cases "c = BSLASH \<and> \<not> in_s \<and> cs \<noteq> []")
    case True
    then obtain d ds where "cs = d # ds" by (cases cs) auto
    with True 2(1) show ?thesis by (simp add: lift_run.simps(2))
  next
    case esc: False
    show ?thesis
    proof (cases "\<not> literal \<and> (c = SQUOTE \<and> \<not> in_d \<or> c = DQUOTE \<and> \<not> in_s \<or> in_s)")
      case True
      with esc 2(2-4) show ?thesis by (auto simp: lift_run.simps(2))
    next
      case quotes: False
      show ?thesis
      proof (cases "opens_subst (in_d \<or> literal) (c # cs) \<or> c = BTICK")
        case True
        have n: "\<not> (\<not> literal \<and> c = SQUOTE \<and> \<not> in_d)" "\<not> (\<not> literal \<and> c = DQUOTE \<and> \<not> in_s)"
          "\<not> (\<not> literal \<and> in_s)" using quotes by blast+
        define rest where "rest = fst (if opens_subst (in_d \<or> literal) (c # cs)
          then subst_end (c # cs) else backtick_end cs)"
        define out where "out = fst (lift_run literal in_s in_d (n + 1) rest)"
        have "fst (lift_run literal in_s in_d n (c # cs)) = placeholder n @ out"
          unfolding lift_run.simps(2) [of literal in_s in_d n c cs] if_not_P [OF esc]
            if_not_P [OF n(1)] if_not_P [OF n(2)] if_not_P [OF n(3)]
          using True by (auto simp: Let_def out_def rest_def)
        moreover have "lift_run literal in_s in_d m out = (out, [])"
        proof (cases "opens_subst (in_d \<or> literal) (c # cs)")
          case o: True
          show ?thesis unfolding out_def rest_def if_P [OF o]
            by (rule 2(5)) (use esc quotes o in auto)
        next
          case o: False
          show ?thesis unfolding out_def rest_def if_not_P [OF o]
            by (rule 2(6)) (use True esc quotes o in auto)
        qed
        ultimately show ?thesis using quotes by (auto simp: lift_run_word placeholder_word)
      next
        case False
        have n: "\<not> (\<not> literal \<and> c = SQUOTE \<and> \<not> in_d)" "\<not> (\<not> literal \<and> c = DQUOTE \<and> \<not> in_s)"
          "\<not> (\<not> literal \<and> in_s)" using quotes by blast+
        have n': "\<not> opens_subst (in_d \<or> literal) (c # cs)" "c \<noteq> BTICK" using False by blast+
        define out where "out = fst (lift_run literal in_s in_d n cs)"
        have eq: "fst (lift_run literal in_s in_d n (c # cs)) = c # out"
          unfolding lift_run.simps(2) [of literal in_s in_d n c cs] if_not_P [OF esc]
            if_not_P [OF n(1)] if_not_P [OF n(2)] if_not_P [OF n(3)] if_not_P [OF n'(1)] if_not_P [OF n'(2)]
          by (simp add: out_def)
        have again: "lift_run literal in_s in_d m out = (out, [])"
          unfolding out_def by (rule 2(7)) (use esc n n' in auto)
        have e: "\<not> (c = BSLASH \<and> \<not> in_s \<and> out \<noteq> [])"
          using esc by (auto simp: out_def lift_run.simps(1))
        have o: "\<not> opens_subst (in_d \<or> literal) (c # out)"
          using n'(1) lift_run_opens unfolding out_def by blast
        show ?thesis
          unfolding eq lift_run.simps(2) [of literal in_s in_d m c out] if_not_P [OF e]
            if_not_P [OF n(1)] if_not_P [OF n(2)] if_not_P [OF n(3)] if_not_P [OF o] if_not_P [OF n'(2)]
          by (simp add: again)
      qed
    qed
  qed
qed (simp add: lift_run.simps)

lemma blanks_placeholder [simp]: "blanks (placeholder n) = 0"
proof -
  have "is_word c \<Longrightarrow> \<not> is_space c" for c
    by (auto simp: is_word_def is_alnum_def is_letter_def is_digit_def is_space_def Let_def)
  with placeholder_word [of n] show ?thesis by (auto simp: blanks_def list_all_iff filter_empty_conv)
qed

lemma suffix_blanks: "suffix a b \<Longrightarrow> blanks a \<le> blanks b"
  by (auto simp: suffix_def)

lemma lift_run_blanks: "blanks (fst (lift_run literal in_s in_d n s)) \<le> blanks s"
proof (induction literal in_s in_d n s rule: lift_run.induct)
  case (2 literal in_s in_d n c cs)
  have tick: "blanks (fst (backtick_end cs)) \<le> blanks cs" by (rule suffix_blanks [OF backtick_end_suffix])
  have sub: "blanks (fst (subst_end (c # cs))) \<le> blanks cs"
    using suffix_blanks [OF subst_end_suffix [of "c # cs"]] blanks_drop_le [of 1 cs] by simp
  have drop1: "blanks (take 1 cs) + blanks (drop 1 cs) = blanks cs"
    by (metis append_take_drop_id blanks_simps(3))
  have branch: "(P \<Longrightarrow> blanks (fst x) \<le> m) \<Longrightarrow> (\<not> P \<Longrightarrow> blanks (fst y) \<le> m) \<Longrightarrow>
      blanks (fst (if P then x else y)) \<le> m" for P m and x y :: "string \<times> string list" by simp
  have keep: "blanks (fst r) \<le> blanks cs \<Longrightarrow> blanks (fst (map_prod ((#) c) f r)) \<le> blanks (c # cs)"
    for f and r :: "string \<times> string list" by (cases r) simp
  have put: "blanks (fst r) \<le> x \<Longrightarrow> x \<le> blanks cs \<Longrightarrow>
      blanks (fst (map_prod ((@) (placeholder n)) f r)) \<le> blanks (c # cs)"
    for f x and r :: "string \<times> string list" by (cases r) simp
  have pair: "blanks (fst r) \<le> blanks (drop 1 cs) \<Longrightarrow>
      blanks (fst (map_prod ((@) (c # take 1 cs)) f r)) \<le> blanks (c # cs)"
    for f and r :: "string \<times> string list" using drop1 by (cases r) simp
  show ?case unfolding lift_run.simps(2) Let_def
    apply (intro branch)
          apply (rule pair, rule 2(1), assumption)
         apply (rule keep, rule 2(2), assumption+)
        apply (rule keep, rule 2(3), assumption+)
       apply (rule keep, rule 2(4), assumption+)
      apply (rule put [OF 2(5) sub], assumption+, rule refl)
     apply (rule put [OF 2(6) tick], assumption+, rule refl)
    apply (rule keep, rule 2(7), assumption+)
    done
qed (simp add: lift_run.simps)

lemma lift_blanks: "blanks (fst (lift_substitutions b s)) \<le> blanks s"
  by (simp add: lift_substitutions_def lift_run_blanks)

lemma lift_lifted:
  "lift_substitutions b (fst (lift_substitutions b s)) = (fst (lift_substitutions b s), [])"
  by (simp add: lift_substitutions_def lift_run_again)

end
