(* ===== verification/PyRegex.thy ===== *)
theory PyRegex
  imports PyText
begin

text \<open>
  Python's \<open>re\<close>, as far as the gate uses it. A pattern is a datatype; \<open>ends\<close> gives, for a position
  in the text, the positions at which a match of the pattern can end, in the order the
  backtracking matcher tries them, so the first one is Python's match and their being none is
  Python's failure. A position is the character before it (none at the start) and the text after
  it: that is what an assertion reads.
\<close>

type_synonym cursor = "char option \<times> string"

datatype regex =
    Eps
  | Chr "char \<Rightarrow> bool"
  | Seq regex regex
  | Alt regex regex
  | Star regex                  \<comment> \<open>greedy\<close>
  | Lazy regex                  \<comment> \<open>\<open>*?\<close>\<close>
  | Upto nat regex              \<comment> \<open>\<open>{0,n}\<close>, greedy\<close>
  | WordB                       \<comment> \<open>\<open>\b\<close>\<close>
  | NotBehind "char \<Rightarrow> bool"    \<comment> \<open>\<open>(?<!\<dots>)\<close> of one character\<close>
  | Ahead regex                 \<comment> \<open>\<open>(?=\<dots>)\<close>\<close>
  | NotAhead regex              \<comment> \<open>\<open>(?!\<dots>)\<close>\<close>
  | AtStart                     \<comment> \<open>\<open>^\<close>\<close>
  | AtEnd                       \<comment> \<open>\<open>$\<close>, also before a final newline\<close>
  | Atomic regex                \<comment> \<open>a possessive group\<close>

definition word_before :: "cursor \<Rightarrow> bool" where
  "word_before k = (case fst k of None \<Rightarrow> False | Some c \<Rightarrow> is_word c)"

definition word_after :: "cursor \<Rightarrow> bool" where
  "word_after k = (case snd k of [] \<Rightarrow> False | c # _ \<Rightarrow> is_word c)"

text \<open>Repetition: an iteration that consumes nothing is not repeated. The bound is the rest of the
  text, which no repetition can outlast.\<close>

fun greedy :: "nat \<Rightarrow> (cursor \<Rightarrow> cursor list) \<Rightarrow> cursor \<Rightarrow> cursor list" where
  "greedy 0 f k = [k]"
| "greedy (Suc n) f k =
     concat (map (greedy n f) (filter (\<lambda>j. length (snd j) < length (snd k)) (f k))) @ [k]"

fun reluctant :: "nat \<Rightarrow> (cursor \<Rightarrow> cursor list) \<Rightarrow> cursor \<Rightarrow> cursor list" where
  "reluctant 0 f k = [k]"
| "reluctant (Suc n) f k =
     k # concat (map (reluctant n f) (filter (\<lambda>j. length (snd j) < length (snd k)) (f k)))"

primrec ends :: "regex \<Rightarrow> cursor \<Rightarrow> cursor list" where
  "ends Eps k = [k]"
| "ends (Chr P) k = (case snd k of [] \<Rightarrow> [] | c # cs \<Rightarrow> if P c then [(Some c, cs)] else [])"
| "ends (Seq r s) k = concat (map (ends s) (ends r k))"
| "ends (Alt r s) k = ends r k @ ends s k"
| "ends (Star r) k = greedy (length (snd k)) (ends r) k"
| "ends (Lazy r) k = reluctant (length (snd k)) (ends r) k"
| "ends (Upto n r) k = greedy n (ends r) k"
| "ends WordB k = (if word_before k \<noteq> word_after k then [k] else [])"
| "ends (NotBehind P) k = (case fst k of None \<Rightarrow> [k] | Some c \<Rightarrow> if P c then [] else [k])"
| "ends (Ahead r) k = (if ends r k = [] then [] else [k])"
| "ends (NotAhead r) k = (if ends r k = [] then [k] else [])"
| "ends AtStart k = (if fst k = None then [k] else [])"
| "ends AtEnd k = (if snd k = [] \<or> snd k = [NL] then [k] else [])"
| "ends (Atomic r) k = take 1 (ends r k)"

fun cursors :: "char option \<Rightarrow> string \<Rightarrow> cursor list" where
  "cursors p [] = [(p, [])]"
| "cursors p (c # cs) = (p, c # cs) # cursors (Some c) cs"

text \<open>\<open>re.search\<close> as a truth value, \<open>re.match\<close> and \<open>re.fullmatch\<close>.\<close>

definition re_search :: "regex \<Rightarrow> string \<Rightarrow> bool" where
  "re_search r s = list_ex (\<lambda>k. ends r k \<noteq> []) (cursors None s)"

definition re_match :: "regex \<Rightarrow> string \<Rightarrow> bool" where
  "re_match r s = (ends r (None, s) \<noteq> [])"

definition re_fullmatch :: "regex \<Rightarrow> string \<Rightarrow> bool" where
  "re_fullmatch r s = list_ex (\<lambda>k. snd k = []) (ends r (None, s))"

text \<open>The text between two positions of one text.\<close>

definition span :: "cursor \<Rightarrow> cursor \<Rightarrow> string" where
  "span k j = take (length (snd k) - length (snd j)) (snd k)"

text \<open>The first match of a pattern with one group, \<open>pre(grp)post\<close>, at a position: the group and
  the end of the match.\<close>

definition group_match :: "regex \<Rightarrow> regex \<Rightarrow> regex \<Rightarrow> cursor \<Rightarrow> (string \<times> cursor) option" where
  "group_match pre grp post k =
     (case concat (map (\<lambda>i. concat (map (\<lambda>j. map (\<lambda>e. (span i j, e)) (ends post j)) (ends grp i)))
             (ends pre k)) of
        [] \<Rightarrow> None | m # _ \<Rightarrow> Some m)"

definition next_cursor :: "cursor \<Rightarrow> cursor" where
  "next_cursor k = (case snd k of [] \<Rightarrow> k | c # cs \<Rightarrow> (Some c, cs))"

text \<open>\<open>[m.group(1) for m in pattern.finditer(s)]\<close> for a pattern that matches no empty text.\<close>

function find_groups :: "regex \<Rightarrow> regex \<Rightarrow> regex \<Rightarrow> cursor \<Rightarrow> string list" where
  "find_groups pre grp post k =
     (if snd k = [] then []
      else (case group_match pre grp post k of
              Some (g, e) \<Rightarrow>
                if length (snd e) < length (snd k) then g # find_groups pre grp post e
                else find_groups pre grp post (next_cursor k)
            | None \<Rightarrow> find_groups pre grp post (next_cursor k)))"
  by pat_completeness auto
termination
  by (relation "measure (\<lambda>(_, _, _, k). length (snd k))")
    (auto simp: next_cursor_def split: list.splits)

declare find_groups.simps [simp del]

section \<open>Building patterns\<close>

primrec lit :: "string \<Rightarrow> regex" where
  "lit [] = Eps"
| "lit (c # cs) = Seq (Chr (\<lambda>x. x = c)) (lit cs)"

text \<open>A literal under \<open>(?i)\<close>: \<open>w\<close> in lower case.\<close>

primrec lit_ci :: "string \<Rightarrow> regex" where
  "lit_ci [] = Eps"
| "lit_ci (c # cs) = Seq (Chr (\<lambda>x. lower_char x = c)) (lit_ci cs)"

fun alts :: "regex list \<Rightarrow> regex" where
  "alts [] = NotAhead Eps"
| "alts [r] = r"
| "alts (r # rs) = Alt r (alts rs)"

primrec seqs :: "regex list \<Rightarrow> regex" where
  "seqs [] = Eps"
| "seqs (r # rs) = Seq r (seqs rs)"

abbreviation opt :: "regex \<Rightarrow> regex" where "opt r \<equiv> Alt r Eps"
abbreviation plus :: "regex \<Rightarrow> regex" where "plus r \<equiv> Seq r (Star r)"
abbreviation any_char :: regex where "any_char \<equiv> Chr (\<lambda>_. True)"
abbreviation not_nl :: regex where "not_nl \<equiv> Chr (\<lambda>c. c \<noteq> NL)"
abbreviation space :: regex where "space \<equiv> Chr is_space"
abbreviation one_of :: "string \<Rightarrow> regex" where "one_of cs \<equiv> Chr (\<lambda>c. c \<in> set cs)"
abbreviation none_of :: "string \<Rightarrow> regex" where "none_of cs \<equiv> Chr (\<lambda>c. c \<notin> set cs)"

section \<open>Facts\<close>

lemma greedy_suffix:
  "(\<And>k j. j \<in> set (f k) \<Longrightarrow> suffix (snd j) (snd k)) \<Longrightarrow>
     j \<in> set (greedy n f k) \<Longrightarrow> suffix (snd j) (snd k)"
proof (induction n f k arbitrary: j rule: greedy.induct)
  case (2 n f k)
  then show ?case by (simp del: split_paired_All split_paired_Ex) (metis suffix_order.trans suffix_order.refl)
qed simp

lemma reluctant_suffix:
  "(\<And>k j. j \<in> set (f k) \<Longrightarrow> suffix (snd j) (snd k)) \<Longrightarrow>
     j \<in> set (reluctant n f k) \<Longrightarrow> suffix (snd j) (snd k)"
proof (induction n f k arbitrary: j rule: reluctant.induct)
  case (2 n f k)
  then show ?case by (simp del: split_paired_All split_paired_Ex) (metis suffix_order.trans suffix_order.refl)
qed simp

text \<open>A match ends at or after the position it starts at.\<close>

lemma ends_suffix: "j \<in> set (ends r k) \<Longrightarrow> suffix (snd j) (snd k)"
proof (induction r arbitrary: k j)
  case (Chr P)
  then show ?case by (cases "snd k") (auto split: if_splits simp: suffix_Cons)
next
  case (Seq r s)
  from Seq.prems obtain i where "i \<in> set (ends r k)" "j \<in> set (ends s i)" by auto
  then show ?case using Seq.IH suffix_order.trans by blast
next
  case (Star r)
  then show ?case using greedy_suffix [of "ends r"] by auto
next
  case (Lazy r)
  then show ?case using reluctant_suffix [of "ends r"] by auto
next
  case (Upto n r)
  then show ?case using greedy_suffix [of "ends r"] by auto
next
  case (NotBehind P)
  then show ?case by (auto split: option.splits if_splits)
next
  case (Atomic r)
  from Atomic.prems have "j \<in> set (ends r k)" by (auto simp del: One_nat_def dest: in_set_takeD)
  then show ?case by (rule Atomic.IH)
qed (auto split: if_splits)

lemma cursors_append:
  "cursors p (s @ t) = map (\<lambda>k. (fst k, snd k @ t)) (butlast (cursors p s))
     @ cursors (if s = [] then p else Some (last s)) t"
  by (induction s arbitrary: p) (auto simp: neq_Nil_conv)

lemma re_search_at:
  assumes "ends r (if s = [] then None else Some (last s), t) \<noteq> []"
  shows "re_search r (s @ t)"
  using assms unfolding re_search_def cursors_append by (cases t) auto

lemma re_searchE:
  assumes "re_search r s"
  obtains a b where "s = a @ b" "ends r (if a = [] then None else Some (last a), b) \<noteq> []"
proof -
  have "\<exists>a b. s = a @ b \<and> k = (if a = [] then p else Some (last a), b)"
    if "k \<in> set (cursors p s)" for k p
    using that
  proof (induction s arbitrary: p)
    case (Cons c cs)
    then consider "k = (p, c # cs)" | "k \<in> set (cursors (Some c) cs)" by auto
    then show ?case
    proof cases
      case 1
      then have "c # cs = [] @ c # cs \<and> k = (if [] = [] then p else Some (last []), c # cs)" by simp
      then show ?thesis by blast
    next
      case 2
      from Cons.IH [OF 2] obtain a b
        where "cs = a @ b" "k = (if a = [] then Some c else Some (last a), b)" by blast
      then have "c # cs = (c # a) @ b \<and> k = (if c # a = [] then p else Some (last (c # a)), b)" by simp
      then show ?thesis by blast
    qed
  qed auto
  with assms that show ?thesis unfolding re_search_def list_ex_iff by blast
qed

lemma ends_lit:
  "ends (lit w) (p, s) =
     (if starts_with s w then [(if w = [] then p else Some (last w), drop (length w) s)] else [])"
  by (induction w arbitrary: p s) (auto simp: starts_with_def prefix_Cons split: list.splits)

lemma ends_SeqI: "j \<in> set (ends r k) \<Longrightarrow> e \<in> set (ends s j) \<Longrightarrow> e \<in> set (ends (Seq r s) k)"
  by auto

lemma ends_altsI: "r \<in> set rs \<Longrightarrow> e \<in> set (ends r k) \<Longrightarrow> e \<in> set (ends (alts rs) k)"
  by (induction rs rule: alts.induct) auto

lemma ends_litI: "(if w = [] then p else Some (last w), s) \<in> set (ends (lit w) (p, w @ s))"
  by (simp add: ends_lit)

lemma re_searchI:
  "e \<in> set (ends r (if a = [] then None else Some (last a), b)) \<Longrightarrow> re_search r (a @ b)"
  by (rule re_search_at) auto

text \<open>The search for a literal is the substring test.\<close>

lemma re_search_lit: "re_search (lit w) s \<longleftrightarrow> contains s w"
proof
  assume "re_search (lit w) s"
  then show "contains s w"
  proof (rule re_searchE)
    fix a b assume "s = a @ b" "ends (lit w) (if a = [] then None else Some (last a), b) \<noteq> []"
    then show ?thesis unfolding contains_def
      by (auto simp: ends_lit starts_with_iff split: if_splits)
  qed
next
  assume "contains s w"
  then obtain a b where "s = a @ w @ b" by (auto simp: contains_def sublist_def)
  then show "re_search (lit w) s"
    using re_search_at [of "lit w" a "w @ b"] by (simp add: ends_lit)
qed

end
