(* ===== verification/ShellWords.thy ===== *)
theory ShellWords
  imports ShellSubst PyRegex
begin

text \<open>
  \<open>proxy/auth/path_shell_words.py\<close>: a command's words as the shell reads them (\<open>words_view\<close>), the
  matcher of the recursive delete, the reader of awk programs, and the arguments of \<open>rsync\<close> and
  \<open>scp\<close>. A word under construction is the list of its characters, each with the flag that it was
  quoted; the exception of an unclosed quote is \<open>None\<close>.
\<close>

type_synonym shell_word = "(char \<times> bool) list"

abbreviation quoted_word :: "string \<Rightarrow> shell_word" where
  "quoted_word s \<equiv> map (\<lambda>c. (c, True)) s"

section \<open>Characters of the view\<close>

definition SPECIAL :: "char list" where
  "SPECIAL = [CHR 32, TAB, NL, SQUOTE, DQUOTE, BSLASH, CHR ''$'', BTICK] @ '';&|<>()#''"

definition GLOB :: "char list" where "GLOB = ''*?[]{}~''"
definition OPERATOR :: "char list" where "OPERATOR = '';&|<>()''"

definition is_blank :: "char \<Rightarrow> bool" where "is_blank c = (c = CHR 32 \<or> c = TAB)"

definition MAX_BRACE_WORDS :: nat where "MAX_BRACE_WORDS = 16"

section \<open>Quoted spans\<close>

text \<open>\<open>chr\<close> of a code point, in UTF-8.\<close>

definition py_chr :: "nat \<Rightarrow> string" where
  "py_chr n =
     (if n < 128 then [char_of n]
      else if n < 2048 then [char_of (192 + n div 64), char_of (128 + n mod 64)]
      else if n < 65536 then
        [char_of (224 + n div 4096), char_of (128 + n div 64 mod 64), char_of (128 + n mod 64)]
      else [char_of (240 + n div 262144), char_of (128 + n div 4096 mod 64),
            char_of (128 + n div 64 mod 64), char_of (128 + n mod 64)])"

definition ANSI_NAMED :: "(char \<times> char) list" where
  "ANSI_NAMED = [(CHR ''a'', CHR 7), (CHR ''b'', CHR 8), (CHR ''e'', CHR 27), (CHR ''E'', CHR 27),
     (CHR ''f'', CHR 12), (CHR ''n'', NL), (CHR ''r'', CR), (CHR ''t'', TAB), (CHR ''v'', CHR 11),
     (BSLASH, BSLASH), (SQUOTE, SQUOTE), (DQUOTE, DQUOTE), (CHR ''?'', CHR ''?'')]"

definition hex_value :: "char \<Rightarrow> nat option" where
  "hex_value c =
     (let n = (of_char c :: nat) in
      if 48 \<le> n \<and> n \<le> 57 then Some (n - 48)
      else if 97 \<le> n \<and> n \<le> 102 then Some (n - 87)
      else if 65 \<le> n \<and> n \<le> 70 then Some (n - 55)
      else None)"

definition is_octal :: "char \<Rightarrow> bool" where
  "is_octal c = (c \<in> set ''01234567'')"

definition number_in :: "nat \<Rightarrow> string \<Rightarrow> nat" where
  "number_in base ds = foldl (\<lambda>n c. base * n + (case hex_value c of None \<Rightarrow> 0 | Some v \<Rightarrow> v)) 0 ds"

definition escape_width :: "char \<Rightarrow> nat" where
  "escape_width e = (if e = CHR ''x'' then 2 else if e = CHR ''u'' then 4 else 8)"

text \<open>One escape after its backslash: what it stands for and the rest.\<close>

definition ansi_escape :: "char \<Rightarrow> string \<Rightarrow> string \<times> string" where
  "ansi_escape e r =
     (case lookup ANSI_NAMED e of
        Some v \<Rightarrow> ([v], r)
      | None \<Rightarrow>
          if is_octal e then
            (let ds = takeWhile is_octal (take 2 r)
             in (py_chr (number_in 8 (e # ds) mod 256), drop (length ds) r))
          else if e = CHR ''x'' \<or> e = CHR ''u'' \<or> e = CHR ''U'' then
            (let ds = takeWhile (\<lambda>c. hex_value c \<noteq> None) (take (escape_width e) r);
                 code = number_in 16 ds
             in if ds = [] then ([BSLASH, e], r)
                else (if code \<le> 1114111 then py_chr code else py_chr 65533, drop (length ds) r))
          else if e = CHR ''c'' \<and> r \<noteq> [] then
            ([char_of ((of_char (hd r) :: nat) mod 32)], tl r)
          else ([BSLASH, e], r))"

lemma ansi_escape_le: "length (snd (ansi_escape e r)) \<le> length r"
  by (simp add: ansi_escape_def Let_def split: option.splits)

text \<open>\<open>_ansi_c\<close>: the value of a \<open>$'\<dots>'\<close> span and the rest after its closing quote.\<close>

function ansi_c :: "string \<Rightarrow> string \<Rightarrow> (string \<times> string) option" where
  "ansi_c out [] = None"
| "ansi_c out (c # cs) =
     (if c = SQUOTE then Some (before (CHR 0x00) out, cs)
      else (case cs of
              [] \<Rightarrow> ansi_c (out @ [c]) []
            | e # r \<Rightarrow>
                if c \<noteq> BSLASH then ansi_c (out @ [c]) cs
                else ansi_c (out @ fst (ansi_escape e r)) (snd (ansi_escape e r))))"
  by pat_completeness auto
termination
  by (relation "measure (\<lambda>(_, s). length s)") (auto simp: less_Suc_eq_le ansi_escape_le le_SucI)

declare ansi_c.simps [simp del]

lemma ansi_c_le: "ansi_c out s = Some (v, r) \<Longrightarrow> length r \<le> length s"
proof (induction out s arbitrary: v r rule: ansi_c.induct)
  case (2 out c cs)
  show ?case
  proof (cases cs)
    case Nil
    with 2 show ?thesis by (auto simp: ansi_c.simps split: if_splits)
  next
    case (Cons e es)
    with 2 ansi_escape_le [of e es] show ?thesis
      by (auto simp: ansi_c.simps(2) [of out c] le_SucI split: if_splits) (meson le_SucI le_trans)+
  qed
qed (simp add: ansi_c.simps)

text \<open>\<open>_expansion_end\<close>: the rest after an expansion that starts with this \<open>$\<close>.\<close>

definition expansion_end :: "string \<Rightarrow> string" where
  "expansion_end s =
     (let cs = drop 1 s in
      if starts_with cs ''('' then fst (subst_end s)
      else if starts_with cs ''{'' then after (CHR ''}'') (drop 1 cs)
      else if cs \<noteq> [] \<and> is_word (hd cs) then dropWhile is_word cs
      else drop 1 cs)"

lemma after_le: "length (after c s) \<le> length s"
  using length_dropWhile_le [of "\<lambda>x. x \<noteq> c" s] by (simp add: after_def)

lemma expansion_end_le: "length (expansion_end (c # cs)) \<le> length cs"
  using subst_end_le [of "c # cs"] after_le [of "CHR ''}''" "drop 1 cs"]
    length_dropWhile_le [of is_word cs]
  by (auto simp: expansion_end_def Let_def)

text \<open>\<open>_double_quoted\<close>: the word extended by the span, and the rest after its closing quote.\<close>

function double_quoted :: "shell_word \<Rightarrow> string \<Rightarrow> (shell_word \<times> string) option" where
  "double_quoted w [] = None"
| "double_quoted w (c # cs) =
     (if c = DQUOTE then Some (w, cs)
      else if c = BSLASH \<and> cs \<noteq> [] then
        (if hd cs = NL then double_quoted w (tl cs)
         else if hd cs \<in> {CHR ''$'', BTICK, DQUOTE, BSLASH} then
           double_quoted (w @ [(hd cs, True)]) (tl cs)
         else double_quoted (w @ [(BSLASH, True)]) cs)
      else if c = CHR ''$'' \<and> cs \<noteq> [] \<and> \<not> is_quote (hd cs) then
        double_quoted (w @ quoted_word (consumed (c # cs) (expansion_end (c # cs))))
          (expansion_end (c # cs))
      else if c = BTICK then
        double_quoted (w @ quoted_word (consumed (c # cs) (fst (backtick_end cs))))
          (fst (backtick_end cs))
      else double_quoted (w @ [(c, True)]) cs)"
  by pat_completeness auto
termination
  by (relation "measure (\<lambda>(_, s). length s)")
    (auto simp: less_Suc_eq_le expansion_end_le backtick_end_le)

declare double_quoted.simps [simp del]

lemma double_quoted_le: "double_quoted w s = Some (v, r) \<Longrightarrow> length r \<le> length s"
proof (induction w s rule: double_quoted.induct)
  case (2 w c cs)
  have tails: "length r \<le> length (tl cs) \<Longrightarrow> length r \<le> Suc (length cs)"
    "length r \<le> length (expansion_end (c # cs)) \<Longrightarrow> length r \<le> Suc (length cs)"
    "length r \<le> length (fst (backtick_end cs)) \<Longrightarrow> length r \<le> Suc (length cs)"
    using expansion_end_le [of c cs] backtick_end_le [of cs] by auto
  show ?case using 2 by (simp add: double_quoted.simps(2) le_SucI split: if_splits) (use tails in blast)+
qed (simp add: double_quoted.simps)

section \<open>Brace groups\<close>

text \<open>The parts of a one-level group after its brace, and the rest of the word.\<close>

fun brace_group :: "shell_word \<Rightarrow> (shell_word list \<times> shell_word) option" where
  "brace_group [] = None"
| "brace_group ((c, q) # w) =
     (if \<not> q \<and> c = CHR ''{'' then None
      else if \<not> q \<and> c = CHR ''}'' then Some ([[]], w)
      else (case brace_group w of
              None \<Rightarrow> None
            | Some (parts, tail) \<Rightarrow>
                Some (if \<not> q \<and> c = CHR '','' then [] # parts
                      else ((c, q) # hd parts) # tl parts, tail)))"

text \<open>\<open>_brace_once\<close>, from the characters already passed over.\<close>

fun brace_from :: "shell_word \<Rightarrow> shell_word \<Rightarrow> shell_word list" where
  "brace_from front [] = [front]"
| "brace_from front ((c, q) # w) =
     (if c = CHR ''{'' \<and> \<not> q then
        (case brace_group w of
           Some (parts, tail) \<Rightarrow>
             if 1 < length parts \<and> length parts \<le> MAX_BRACE_WORDS
             then map (\<lambda>p. front @ p @ tail) parts
             else brace_from (front @ [(c, q)]) w
         | None \<Rightarrow> brace_from (front @ [(c, q)]) w)
      else brace_from (front @ [(c, q)]) w)"

definition brace_once :: "shell_word \<Rightarrow> shell_word list" where
  "brace_once w = brace_from [] w"

lemma brace_from_not_Nil: "brace_from front w \<noteq> []"
  by (induction front w rule: brace_from.induct) (auto split: option.splits)

lemma brace_once_length: "length ws \<le> length (concat (map brace_once ws))"
proof (induction ws)
  case (Cons w ws)
  have "1 \<le> length (brace_once w)"
    using brace_from_not_Nil [of "[]" w] by (cases "brace_once w") (auto simp: brace_once_def)
  with Cons show ?case by simp
qed simp

function brace_words :: "shell_word list \<Rightarrow> shell_word list" where
  "brace_words ws =
     (let out = concat (map brace_once ws) in
      if length out = length ws \<or> length out > MAX_BRACE_WORDS then ws else brace_words out)"
  by pat_completeness auto
termination
proof (relation "measure (\<lambda>ws. MAX_BRACE_WORDS - length ws)", goal_cases)
  case (2 ws out)
  with brace_once_length [of ws] show ?case by auto
qed simp

declare brace_words.simps [simp del]

definition written :: "shell_word \<Rightarrow> string" where
  "written w =
     (let value = map fst w in
      if value = [] then [SQUOTE, SQUOTE]
      else if list_ex (\<lambda>c. c \<in> set SPECIAL) value \<or> list_ex (\<lambda>(c, q). q \<and> c \<in> set GLOB) w then
        SQUOTE # concat (map (\<lambda>c. if c = SQUOTE then [SQUOTE, BSLASH, SQUOTE, SQUOTE] else [c]) value)
          @ [SQUOTE]
      else value)"

section \<open>The view\<close>

definition view_flush :: "string list \<Rightarrow> shell_word option \<Rightarrow> string list" where
  "view_flush out word =
     (case word of
        None \<Rightarrow> out
      | Some w \<Rightarrow>
          (let expanded = brace_words [w] in
           if length expanded > 1
           then out @ [join_on '' '' (map written (filter (\<lambda>x. x \<noteq> []) expanded))]
           else out @ [written w]))"

text \<open>A \<open>#\<close> starts a comment here: at the start, or after a blank or a separator.\<close>

definition comment_place :: "string list \<Rightarrow> bool" where
  "comment_place out =
     (out = [] \<or> (last out \<noteq> [] \<and> last (last out) \<in> {CHR 32, TAB, NL, CHR '';'', CHR ''&'', CHR ''|'', CHR ''(''}))"

definition word_of :: "shell_word option \<Rightarrow> shell_word" where
  "word_of w = (case w of None \<Rightarrow> [] | Some x \<Rightarrow> x)"

function view_loop :: "string list \<Rightarrow> shell_word option \<Rightarrow> string \<Rightarrow> string list option" where
  "view_loop out word [] = Some (view_flush out word)"
| "view_loop out word (c # cs) =
     (if word = None \<and> c = CHR ''#'' \<and> comment_place out then
        view_loop (out @ [before NL (c # cs)]) None (dropWhile (\<lambda>x. x \<noteq> NL) cs)
      else if is_blank c \<or> c = NL then view_loop (view_flush out word @ [[c]]) None cs
      else if c \<in> set OPERATOR then
        (if (c = CHR ''<'' \<or> c = CHR ''>'') \<and> starts_with cs ''('' then
           view_loop out (Some (word_of word @ quoted_word (consumed (c # cs) (fst (subst_end (c # cs))))))
             (fst (subst_end (c # cs)))
         else view_loop (view_flush out word @ [[c]]) None cs)
      else if c = BSLASH then
        (if starts_with cs [NL] then view_loop out (Some (word_of word)) (drop 1 cs)
         else view_loop out (Some (word_of word @ quoted_word (take 1 cs))) (drop 1 cs))
      else if c = SQUOTE then
        (if SQUOTE \<in> set cs then
           view_loop out (Some (word_of word @ quoted_word (before SQUOTE cs))) (after SQUOTE cs)
         else None)
      else if c = DQUOTE then
        (case double_quoted (word_of word) cs of
           None \<Rightarrow> None
         | Some (w, r) \<Rightarrow> view_loop out (Some w) r)
      else if c = CHR ''$'' \<and> starts_with cs [SQUOTE] then
        (case ansi_c [] (drop 1 cs) of
           None \<Rightarrow> None
         | Some (v, r) \<Rightarrow> view_loop out (Some (word_of word @ quoted_word v)) r)
      else if c = CHR ''$'' \<and> starts_with cs [DQUOTE] then
        (case double_quoted (word_of word) (drop 1 cs) of
           None \<Rightarrow> None
         | Some (w, r) \<Rightarrow> view_loop out (Some w) r)
      else if c = CHR ''$'' then
        view_loop out (Some (word_of word @ quoted_word (consumed (c # cs) (expansion_end (c # cs)))))
          (expansion_end (c # cs))
      else if c = BTICK then
        view_loop out (Some (word_of word @ quoted_word (consumed (c # cs) (fst (backtick_end cs)))))
          (fst (backtick_end cs))
      else view_loop out (Some (word_of word @ [(c, False)])) cs)"
  by pat_completeness auto
termination
proof (relation "measure (\<lambda>(_, _, s). length s)", goal_cases)
  case (4 out word c cs)
  with subst_end_le [of "c # cs"] show ?case by simp
qed (auto simp: less_Suc_eq_le dest!: double_quoted_le ansi_c_le simp: expansion_end_le backtick_end_le after_le length_dropWhile_le)

declare view_loop.simps [simp del]

definition words_view :: "string \<Rightarrow> string option" where
  "words_view text = map_option concat (view_loop [] None text)"

definition has_shell_quoting :: "string \<Rightarrow> bool" where
  "has_shell_quoting text = list_ex (\<lambda>c. c \<in> {SQUOTE, DQUOTE, BSLASH, CHR ''{''}) text"

end
