(* ===== verification/ShellArgs.thy ===== *)
theory ShellArgs
  imports ShellWords
begin

text \<open>
  \<open>proxy/auth/path_shell_words.py\<close>, the readers of a command's arguments: the recursive delete
  (\<open>RootDelete\<close>), awk programs, and the operands and remote shells of \<open>rsync\<close> and \<open>scp\<close>.
\<close>

section \<open>The recursive delete of the root or the home\<close>

definition RM_START :: regex where
  "RM_START = Seq WordB (Seq (lit ''rm'') (Ahead (Chr is_blank)))"

definition RM_MAX_TOKENS :: nat where "RM_MAX_TOKENS = 33"

definition token_char :: "char \<Rightarrow> bool" where
  "token_char c = (\<not> is_blank c \<and> c \<notin> set [NL, CHR '';'', CHR ''&'', CHR ''|''])"

text \<open>\<open>_RM_TOKEN\<close> at a position: the token and the rest.\<close>

definition rm_token :: "string \<Rightarrow> (string \<times> string) option" where
  "rm_token s =
     (let r = dropWhile is_blank s; tok = take 1024 (takeWhile token_char r) in
      if s = [] \<or> \<not> is_blank (hd s) \<or> tok = [] then None else Some (tok, drop (length tok) r))"

text \<open>\<open>_RM_ROOT\<close>: the root or the home, or a glob right under it, between equal quotes or none.\<close>

definition RM_ROOT_BODY :: regex where
  "RM_ROOT_BODY =
     Seq (Alt (lit ''/'') (Seq (lit ''~'') (opt (lit ''/''))))
       (opt (Seq (lit ''*'')
          (Star (none_of [CHR 32, TAB, NL, CHR '';'', CHR ''&'', CHR ''|'', SQUOTE, DQUOTE]))))"

definition RM_ROOT :: regex where
  "RM_ROOT = alts (map (\<lambda>q. seqs [lit q, RM_ROOT_BODY, lit q]) [[SQUOTE], [DQUOTE], []])"

text \<open>\<open>re.sub(r"/+", "/", s)\<close>.\<close>

fun one_slash :: "string \<Rightarrow> string" where
  "one_slash (a # b # cs) =
     (if a = SLASH \<and> b = SLASH then one_slash (b # cs) else a # one_slash (b # cs))"
| "one_slash cs = cs"

definition root_operand :: "string \<Rightarrow> bool" where
  "root_operand token =
     (if re_fullmatch RM_ROOT token then True
      else
        (let quoted = length token > 1 \<and> is_quote (hd token) \<and> last token = hd token;
             body = (if quoted then butlast (tl token) else token);
             folded = normpath (one_slash body)
         in if SLASH \<notin> set body \<or> \<not> (starts_with body ''/'' \<or> starts_with body ''~'') then False
            else folded \<noteq> body \<and> re_fullmatch RM_ROOT folded))"

definition long_flag :: "string \<Rightarrow> string \<Rightarrow> bool" where
  "long_flag token name =
     (let body = before (CHR ''='') (drop 2 token) in body \<noteq> [] \<and> starts_with name body)"

text \<open>The loop of \<open>_command_at\<close>: tokens left to read, what was seen, whether \<open>--\<close> ended the options.\<close>

fun command_at :: "nat \<Rightarrow> bool \<Rightarrow> bool \<Rightarrow> bool \<Rightarrow> bool \<Rightarrow> string \<Rightarrow> bool" where
  "command_at 0 recursive force root options_done s = (recursive \<and> force \<and> root)"
| "command_at (Suc n) recursive force root options_done s =
     (case rm_token s of
        None \<Rightarrow> recursive \<and> force \<and> root
      | Some (token, r) \<Rightarrow>
          if starts_with token ''#'' then recursive \<and> force \<and> root
          else
           (let ends_here = (r = [] \<or> is_blank (hd r) \<or> hd r \<in> {CHR '';'', CHR ''&'', CHR ''|''});
                dashes = (\<not> options_done \<and> token = ''--'');
                long = (\<not> options_done \<and> \<not> dashes \<and> starts_with token ''--'');
                short = (\<not> options_done \<and> \<not> dashes \<and> \<not> long \<and> starts_with token ''-'' \<and> length token > 1);
                recursive' = (recursive \<or> (long \<and> long_flag token ''recursive'') \<or>
                   (short \<and> (CHR ''r'' \<in> set (tl token) \<or> CHR ''R'' \<in> set (tl token))));
                force' = (force \<or> (long \<and> long_flag token ''force'') \<or> (short \<and> CHR ''f'' \<in> set (tl token)));
                root' = (root \<or> (\<not> dashes \<and> \<not> long \<and> \<not> short \<and> ends_here \<and> root_operand token));
                done' = (options_done \<or> dashes)
            in if r \<noteq> [] \<and> hd r \<in> {NL, CHR '';'', CHR ''&'', CHR ''|''}
               then recursive' \<and> force' \<and> root'
               else command_at n recursive' force' root' done' r))"

definition root_delete :: "string \<Rightarrow> bool" where
  "root_delete text =
     list_ex (\<lambda>k. list_ex (\<lambda>e. command_at RM_MAX_TOKENS False False False False (snd e)) (ends RM_START k))
       (cursors None text)"

section \<open>awk\<close>

definition AWK_PROGRAM_LONG :: "string list" where "AWK_PROGRAM_LONG = [''file'', ''exec'']"
definition AWK_SOURCE_LONG :: "string list" where "AWK_SOURCE_LONG = [''source'']"
definition AWK_CODE_LONG :: "string list" where
  "AWK_CODE_LONG = [''include'', ''load'', ''dump-variables'', ''pretty-print'', ''profile'', ''debug'']"
definition AWK_VALUE_LONG :: "string list" where "AWK_VALUE_LONG = [''assign'', ''field-separator'']"
definition AWK_CODE_LETTERS :: string where "AWK_CODE_LETTERS = ''fEildopD''"
definition AWK_VALUE_LETTERS :: string where "AWK_VALUE_LETTERS = ''eEfFilvW''"
definition AWK_OPTIONAL_LETTERS :: string where "AWK_OPTIONAL_LETTERS = ''dDop''"

definition AWK_RUNS :: regex where
  "AWK_RUNS = alts
     [seqs [WordB, lit ''system'', Star (Chr is_blank), lit ''(''],
      seqs [WordB, lit ''getline'', WordB],
      Seq (lit ''@load'') WordB, Seq (lit ''@include'') WordB]"

definition AWK_INDIRECT_CALL :: regex where
  "AWK_INDIRECT_CALL =
     seqs [lit ''@'', Chr (\<lambda>c. is_letter c \<or> c = CHR ''_''), Star (Chr is_word), Star (Chr is_blank), lit ''('']"

definition AWK_PIPE :: regex where
  "AWK_PIPE = seqs [NotBehind (\<lambda>c. c = CHR ''|''), lit ''|'', NotAhead (lit ''|'')]"

text \<open>A long option that is one of the names, and whether its value is the next argument.\<close>

definition awk_long :: "string \<Rightarrow> string list \<Rightarrow> bool \<times> bool" where
  "awk_long arg names =
     (let body = before (CHR ''='') (drop 2 arg) in
      if body \<noteq> [] \<and> list_ex (\<lambda>name. starts_with name body) names
      then (True, CHR ''='' \<notin> set (drop 2 arg)) else (False, False))"

text \<open>The first letter of a cluster that takes a value or writes a file, and what follows it.\<close>

fun cluster_from :: "(char \<Rightarrow> bool) \<Rightarrow> string \<Rightarrow> (char \<times> string) option" where
  "cluster_from P [] = None"
| "cluster_from P (c # cs) = (if P c then Some (c, cs) else cluster_from P cs)"

definition awk_cluster :: "string \<Rightarrow> (char \<times> string) option" where
  "awk_cluster arg =
     cluster_from (\<lambda>c. c \<in> set AWK_VALUE_LETTERS \<or> c \<in> set AWK_OPTIONAL_LETTERS) (drop 1 arg)"

datatype w_kind = WCode | WSource | WOther

definition awk_w_kind :: "string \<Rightarrow> w_kind" where
  "awk_w_kind value =
     (let as_long = ''--'' @ value in
      if fst (awk_long as_long (AWK_PROGRAM_LONG @ AWK_CODE_LONG)) then WCode
      else if fst (awk_long as_long AWK_SOURCE_LONG) then WSource
      else WOther)"

text \<open>For the path extraction: the argument supplies the program; its value is the next one.\<close>

definition awk_option :: "string \<Rightarrow> bool \<times> bool" where
  "awk_option arg =
     (if starts_with arg ''--'' then
        (let prog = awk_long arg (AWK_PROGRAM_LONG @ AWK_SOURCE_LONG);
             other = awk_long arg (AWK_CODE_LONG @ AWK_VALUE_LONG)
         in if fst prog then (True, snd prog) else if fst other then (False, snd other) else (False, False))
      else (case awk_cluster arg of
              None \<Rightarrow> (False, False)
            | Some (letter, rest) \<Rightarrow>
                if letter \<in> set ''fEe'' then (True, rest = [])
                else if letter \<in> set AWK_VALUE_LETTERS then (False, rest = [])
                else (False, False)))"

text \<open>The rest after a string literal, from after its opening quote, and after a regex literal.\<close>

fun skip_awk_string :: "string \<Rightarrow> string" where
  "skip_awk_string [] = []"
| "skip_awk_string (c # cs) =
     (if c = DQUOTE then cs
      else if c = BSLASH then skip_awk_string (drop 1 cs)
      else skip_awk_string cs)"

function skip_awk_regex :: "string \<Rightarrow> string" where
  "skip_awk_regex [] = []"
| "skip_awk_regex (c # cs) =
     (if c = SLASH \<or> c = NL then cs
      else if c = CHR ''['' then skip_awk_regex (after (CHR '']'') (drop 1 cs))
      else if c = BSLASH then skip_awk_regex (drop 1 cs)
      else skip_awk_regex cs)"
  by pat_completeness auto
termination
  by (relation "measure length") (auto simp: less_Suc_eq_le intro: order_trans [OF after_le])

lemma skip_awk_string_le: "length (skip_awk_string s) \<le> length s"
  by (induction s rule: skip_awk_string.induct) auto

lemma skip_awk_regex_le: "length (skip_awk_regex s) \<le> length s"
proof (induction s rule: skip_awk_regex.induct)
  case (2 c cs)
  have "length (after (CHR '']'') (drop 1 cs)) \<le> length cs"
    using after_le [of "CHR '']''" "drop 1 cs"] by simp
  with 2 show ?case by auto
qed simp

definition regex_opens_after :: "char option \<Rightarrow> bool" where
  "regex_opens_after prev =
     (case prev of None \<Rightarrow> True
      | Some c \<Rightarrow> c \<in> set ''(,{};!~&|=:?'' \<or> c = NL \<or> c \<in> set ''*%<>^'')"

text \<open>\<open>_awk_code\<close>, with the last character that counts.\<close>

function awk_code_from :: "char option \<Rightarrow> string \<Rightarrow> string" where
  "awk_code_from prev [] = []"
| "awk_code_from prev (c # cs) =
     (if c = DQUOTE then awk_code_from (Some DQUOTE) (skip_awk_string cs)
      else if c = SLASH \<and> regex_opens_after prev then awk_code_from (Some SLASH) (skip_awk_regex cs)
      else if c = CHR ''#'' then awk_code_from prev (dropWhile (\<lambda>x. x \<noteq> NL) cs)
      else c # awk_code_from (if \<not> is_space c \<or> c = NL then Some c else prev) cs)"
  by pat_completeness auto
termination
  by (relation "measure (\<lambda>(_, s). length s)")
    (auto simp: less_Suc_eq_le skip_awk_string_le skip_awk_regex_le length_dropWhile_le)

definition awk_code :: "string \<Rightarrow> string" where
  "awk_code program = awk_code_from None program"

definition is_assignment :: "string \<Rightarrow> bool" where
  "is_assignment t = (CHR ''='' \<in> set t \<and> is_identifier (before (CHR ''='') t))"

definition first_or_empty :: "string list \<Rightarrow> string" where
  "first_or_empty xs = (case xs of [] \<Rightarrow> [] | x # _ \<Rightarrow> x)"

text \<open>The argument loop: \<open>None\<close> when an option gives awk code from elsewhere or names a file it
  writes; otherwise the program texts and the positionals.\<close>

function awk_args :: "string list \<Rightarrow> string list \<Rightarrow> string list \<Rightarrow> bool \<Rightarrow> (string list \<times> string list \<times> bool) option"
  where
  "awk_args [] programs positional from_flag = Some (programs, positional, from_flag)"
| "awk_args (arg # args) programs positional from_flag =
     (if arg = ''--'' then Some (programs, positional @ args, from_flag)
      else if \<not> starts_with arg ''-'' \<or> arg = ''-'' then
        awk_args args programs (positional @ [arg]) from_flag
      else if starts_with arg ''--'' then
        (if fst (awk_long arg (AWK_PROGRAM_LONG @ AWK_CODE_LONG)) then None
         else if fst (awk_long arg AWK_SOURCE_LONG) then
           (if snd (awk_long arg AWK_SOURCE_LONG)
            then awk_args (drop 1 args) (programs @ [first_or_empty args]) positional True
            else awk_args args (programs @ [after (CHR ''='') arg]) positional True)
         else awk_args (if awk_long arg AWK_VALUE_LONG = (True, True) then drop 1 args else args)
                programs positional from_flag)
      else (case awk_cluster arg of
              None \<Rightarrow> awk_args args programs positional from_flag
            | Some (letter, value) \<Rightarrow>
                if letter \<in> set AWK_CODE_LETTERS then None
                else
                 (let fetch = (letter \<in> set AWK_VALUE_LETTERS \<and> value = []);
                      v = (if fetch then first_or_empty args else value);
                      args' = (if fetch then drop 1 args else args)
                  in if letter = CHR ''e'' then awk_args args' (programs @ [v]) positional True
                     else if letter = CHR ''W'' then
                       (case awk_w_kind v of
                          WCode \<Rightarrow> None
                        | WSource \<Rightarrow> awk_args args' (programs @ [after (CHR ''='') v]) positional True
                        | WOther \<Rightarrow> awk_args args' programs positional from_flag)
                     else awk_args args' programs positional from_flag)))"
  by pat_completeness auto
termination
  by (relation "measure (\<lambda>(args, _). length args)") auto

declare awk_args.simps [simp del]

definition awk_program_runs :: "string \<Rightarrow> bool" where
  "awk_program_runs program =
     (re_search AWK_RUNS program \<or> re_search AWK_INDIRECT_CALL (awk_code program) \<or>
      re_search AWK_PIPE (awk_code program))"

definition awk_runs_commands :: "string \<Rightarrow> bool" where
  "awk_runs_commands segment =
     (case shlex_split segment of
        None \<Rightarrow> True
      | Some tokens \<Rightarrow>
          (case awk_args (drop 1 (dropWhile is_assignment tokens)) [] [] False of
             None \<Rightarrow> True
           | Some (programs, positional, from_flag) \<Rightarrow>
               list_ex awk_program_runs
                 (programs @ (if \<not> from_flag then take 1 positional else []))))"

section \<open>rsync and scp\<close>

definition remote_operand :: "string \<Rightarrow> bool" where
  "remote_operand arg =
     (let open_part = before (CHR ''['') arg; host = before (CHR '':'') arg in
      if starts_with (lower arg) ''rsync://'' then True
      else if CHR ''['' \<in> set arg \<and> (open_part = [] \<or> last open_part = CHR ''@'') then
        CHR '']'' \<in> set (after (CHR ''['') arg) \<and>
        starts_with (after (CHR '']'') (after (CHR ''['') arg)) '':''
      else if CHR '':'' \<notin> set arg \<or> host = [] then False
      else if SLASH \<in> set host then False
      else \<not> (length host = 1 \<and> is_letter (hd arg) \<and> take 1 (drop 2 arg) \<in> {[], [SLASH], [BSLASH]}))"

definition RSYNC_VALUE_LETTERS :: string where "RSYNC_VALUE_LETTERS = ''BefMT@''"
definition RSYNC_RSH :: string where "RSYNC_RSH = ''--rsh''"
definition RSYNC_DEFAULT_RSH :: string where "RSYNC_DEFAULT_RSH = ''ssh''"
definition RSYNC_PATH :: string where "RSYNC_PATH = ''--rsync-path''"

definition RSYNC_LONG_VALUES :: "string list" where
  "RSYNC_LONG_VALUES =
    [''--address'', ''--backup-dir'', ''--block-size'', ''--bwlimit'', ''--checksum-choice'',
     ''--checksum-seed'', ''--chmod'', ''--chown'', ''--compare-dest'', ''--compress-choice'',
     ''--compress-level'', ''--contimeout'', ''--copy-as'', ''--copy-dest'', ''--debug'',
     ''--early-input'', ''--exclude'', ''--exclude-from'', ''--files-from'', ''--filter'',
     ''--groupmap'', ''--iconv'', ''--include'', ''--include-from'', ''--info'', ''--link-dest'',
     ''--log-file'', ''--log-file-format'', ''--max-alloc'', ''--max-delete'', ''--max-size'',
     ''--min-size'', ''--modify-window'', ''--only-write-batch'', ''--out-format'', ''--outbuf'',
     ''--partial-dir'', ''--password-file'', ''--port'', ''--protocol'', ''--read-batch'',
     ''--remote-option'', ''--skip-compress'', ''--sockopts'', ''--stderr'', ''--stop-after'',
     ''--stop-at'', ''--suffix'', ''--temp-dir'', ''--timeout'', ''--usermap'', ''--write-batch'']"

text \<open>Whether an argument names the remote shell, with the value it carries.\<close>

definition rsync_shell_option :: "string \<Rightarrow> bool \<times> string option" where
  "rsync_shell_option arg =
     (if arg = RSYNC_RSH then (True, None)
      else if starts_with arg (RSYNC_RSH @ ''='') then (True, Some (drop (length RSYNC_RSH + 1) arg))
      else if starts_with arg ''--'' \<or> \<not> starts_with arg ''-'' then (False, None)
      else (case cluster_from (\<lambda>c. c \<in> set RSYNC_VALUE_LETTERS) (drop 1 arg) of
              None \<Rightarrow> (False, None)
            | Some (letter, rest) \<Rightarrow> (letter = CHR ''e'', if rest = [] then None else Some rest)))"

record rsync_args =
  shells :: "string list"
  rsync_paths :: "string list"
  operands :: "string list"

function rsync_scan :: "string list \<Rightarrow> bool \<Rightarrow> rsync_args \<Rightarrow> rsync_args" where
  "rsync_scan [] finished ws = ws"
| "rsync_scan (arg # args) finished ws =
     (if finished \<or> \<not> starts_with arg ''-'' \<or> arg = ''-'' then
        rsync_scan args finished (ws\<lparr>operands := operands ws @ [arg]\<rparr>)
      else if arg = ''--'' then rsync_scan args True ws
      else
       (let shell = rsync_shell_option arg; name = before (CHR ''='') arg; fused = CHR ''='' \<in> set arg in
        if fst shell \<or> name = RSYNC_PATH then
          (let value = (if fst shell then snd shell else if fused then Some (after (CHR ''='') arg) else None);
               v = (case value of Some x \<Rightarrow> x | None \<Rightarrow> first_or_empty args);
               args' = (if value = None then drop 1 args else args)
           in rsync_scan args' finished
                (if fst shell then ws\<lparr>shells := shells ws @ [v]\<rparr>
                 else ws\<lparr>rsync_paths := rsync_paths ws @ [v]\<rparr>))
        else if name \<in> set RSYNC_LONG_VALUES \<and> \<not> fused then rsync_scan (drop 1 args) finished ws
        else if \<not> starts_with arg ''--'' then
          (case cluster_from (\<lambda>c. c \<in> set RSYNC_VALUE_LETTERS) (drop 1 arg) of
             Some (_, []) \<Rightarrow> rsync_scan (drop 1 args) finished ws
           | _ \<Rightarrow> rsync_scan args finished ws)
        else rsync_scan args finished ws))"
  by pat_completeness auto
termination
  by (relation "measure (\<lambda>(args, _). length args)") auto

declare rsync_scan.simps [simp del]

definition rsync_words :: "string \<Rightarrow> rsync_args" where
  "rsync_words segment =
     (case shlex_split segment of
        None \<Rightarrow> \<lparr>shells = [], rsync_paths = [], operands = []\<rparr>
      | Some tokens \<Rightarrow>
          rsync_scan (drop 1 (dropWhile is_assignment tokens)) False
            \<lparr>shells = map (after (CHR ''=''))
                 (filter (\<lambda>t. before (CHR ''='') t = ''RSYNC_RSH'') (takeWhile is_assignment tokens)),
             rsync_paths = [], operands = []\<rparr>)"

definition rsync_remote_shells :: "string \<Rightarrow> string list" where
  "rsync_remote_shells segment =
     filter (\<lambda>shell. strip shell \<notin> {[], RSYNC_DEFAULT_RSH}) (shells (rsync_words segment))"

definition rsync_reaches_host :: "string \<Rightarrow> bool" where
  "rsync_reaches_host segment = list_ex remote_operand (operands (rsync_words segment))"

definition SCP_VALUE_LETTERS :: string where "SCP_VALUE_LETTERS = ''cDFiJloPSX''"

function scp_scan :: "string list \<Rightarrow> bool \<Rightarrow> string list" where
  "scp_scan [] finished = []"
| "scp_scan (arg # args) finished =
     (if finished \<or> \<not> starts_with arg ''-'' \<or> arg = ''-'' then arg # scp_scan args finished
      else if arg = ''--'' then scp_scan args True
      else (case cluster_from (\<lambda>c. c \<in> set SCP_VALUE_LETTERS) (drop 1 arg) of
              Some (_, []) \<Rightarrow> scp_scan (drop 1 args) finished
            | _ \<Rightarrow> scp_scan args finished))"
  by pat_completeness auto
termination
  by (relation "measure (\<lambda>(args, _). length args)") auto

declare scp_scan.simps [simp del]

definition scp_operands :: "string \<Rightarrow> string list" where
  "scp_operands segment =
     (case shlex_split segment of
        None \<Rightarrow> []
      | Some tokens \<Rightarrow> scp_scan (drop 1 (dropWhile is_assignment tokens)) False)"

definition SHELL_SEPARATORS :: "char list" where
  "SHELL_SEPARATORS = '';|&$'' @ [BTICK, NL]"

text \<open>The path of a remote operand as the far side gets it.\<close>

definition remote_path :: "string \<Rightarrow> string option" where
  "remote_path arg =
     (let low = lower arg in
      if starts_with low ''rsync://'' then None
      else if starts_with low ''scp://'' then
        (let tail = drop 6 arg in Some (if SLASH \<in> set tail then after SLASH tail else []))
      else
       (let rest = (if CHR ''['' \<in> set arg \<and> CHR '']'' \<in> set arg
                    then drop 1 (after (CHR '']'') arg)
                    else if CHR '':'' \<in> set arg then after (CHR '':'') arg else arg)
        in if starts_with rest '':'' then None else Some rest))"

definition remote_shell_paths :: "string \<Rightarrow> string \<Rightarrow> string list" where
  "remote_shell_paths cmd_name segment =
     (let ops = (if cmd_name = ''scp'' then scp_operands segment
                 else if cmd_name = ''rsync'' then operands (rsync_words segment) else [])
      in filter (\<lambda>p. list_ex (\<lambda>c. c \<in> set SHELL_SEPARATORS) p)
           (List.map_filter remote_path (filter remote_operand ops)))"

text \<open>The folder a key is judged as.\<close>

definition identity_scope :: "string \<Rightarrow> string" where
  "identity_scope path =
     (let parts = split_on SLASH path; front = takeWhile (\<lambda>p. lower p \<noteq> ''.ssh'') parts in
      if length front < length parts then
        or_else (join_on ''/'' front) (if starts_with path ''/'' then ''/'' else ''.'')
      else path)"

end
