(* ===== verification/ShellLexer.thy ===== *)
theory ShellLexer
  imports ShellArgs
begin

text \<open>
  \<open>proxy/auth/path_shell.py\<close>, the reading of a command line: its segments with the heredocs between
  them, the redirections of a segment, the shell structure and the wrappers around its command, and
  the inner commands of \<open>find -exec\<close>. A \<open>ValueError\<close> is \<open>None\<close>.
\<close>

section \<open>Heredocs\<close>

definition SHELL_DASH_C :: "string list" where
  "SHELL_DASH_C = [''bash'', ''sh'', ''zsh'', ''dash'', ''ksh'', ''ash'']"

record heredoc =
  delim :: string
  strip_tabs :: bool
  body_is_shell :: bool
  body_expands :: bool

text \<open>The delimiter after an operator: the word, whether the body expands, and the rest after it.\<close>

definition heredoc_delimiter :: "string \<Rightarrow> (string \<times> bool) option \<times> string" where
  "heredoc_delimiter r =
     (let s = dropWhile is_blank r in
      if s \<noteq> [] \<and> is_quote (hd s) then
        (if hd s \<in> set (tl s) then (Some (before (hd s) (tl s), False), after (hd s) (tl s)) else (None, s))
      else
       (let w = takeWhile (\<lambda>c. \<not> is_blank c \<and> c \<notin> {NL, CR, BTICK} \<and> c \<notin> set '';|&<>()'') s in
        if w = [] then (None, s)
        else (Some (filter (\<lambda>c. c \<noteq> BSLASH) w, BSLASH \<notin> set w), drop (length w) s)))"

text \<open>A \<open><<\<close> or \<open><<-\<close>: the chunk it adds to the segment, the heredoc it queues, the rest.\<close>

definition heredoc_operator :: "string list \<Rightarrow> string \<Rightarrow> string \<times> heredoc list \<times> string" where
  "heredoc_operator current s =
     (let tabs = starts_with (drop 2 s) ''-'';
          d = heredoc_delimiter (drop (if tabs then 3 else 2) s)
      in case fst d of
           Some (w, expands) \<Rightarrow>
             if w \<noteq> [] \<and> \<not> is_digit (hd w) \<and> hd w \<noteq> CHR ''$'' then
               (consumed s (snd d),
                [\<lparr>delim = w, strip_tabs = tabs,
                  body_is_shell = list_ex (\<lambda>t. after_last SLASH t \<in> set SHELL_DASH_C) (split_words (concat current)),
                  body_expands = expands\<rparr>], snd d)
             else (''<<'', [], drop 2 s)
         | None \<Rightarrow> (''<<'', [], drop 2 s))"

text \<open>One body up to its terminator line: the segments it gives and the rest.\<close>

function consume_heredoc :: "heredoc \<Rightarrow> string \<Rightarrow> string list \<times> string" where
  "consume_heredoc h s =
     (if s = [] then ([], [])
      else
       (let line = before NL s; rest = after NL s; bare = rstrip_char CR line;
            check = (if strip_tabs h then lstrip_char TAB bare else bare)
        in if check = delim h then ([], rest)
           else map_prod ((@) (if body_is_shell h then (if strip line = [] then [] else [strip line])
                               else if body_expands h then heredoc_line_commands line else [])) id
                  (consume_heredoc h rest)))"
  by pat_completeness auto
termination
proof (relation "measure (\<lambda>(_, s). length s)", goal_cases)
  case (2 h s line rest bare check)
  moreover have "length (dropWhile (\<lambda>x. x \<noteq> NL) s) \<le> length s" by (rule length_dropWhile_le)
  ultimately show ?case by (cases s) (auto simp: after_def)
qed simp

declare consume_heredoc.simps [simp del]

fun consume_heredocs :: "heredoc list \<Rightarrow> string \<Rightarrow> string list \<times> string" where
  "consume_heredocs [] s = ([], s)"
| "consume_heredocs (h # hs) s =
     (case consume_heredoc h s of (segs, r) \<Rightarrow> map_prod ((@) segs) id (consume_heredocs hs r))"

lemma consume_heredoc_le: "length (snd (consume_heredoc h s)) \<le> length s"
proof (induction h s rule: consume_heredoc.induct)
  case (1 h s)
  show ?case
  proof (cases "s = []")
    case False
    with 1 [OF False refl refl refl refl] show ?thesis
      using after_le [of NL s] by (subst consume_heredoc.simps) (auto simp: Let_def intro: order_trans)
  qed (simp add: consume_heredoc.simps)
qed

lemma consume_heredocs_le: "length (snd (consume_heredocs hs s)) \<le> length s"
proof (induction hs arbitrary: s)
  case (Cons h hs)
  obtain segs r where r: "consume_heredoc h s = (segs, r)" by fastforce
  with consume_heredoc_le [of h s] Cons [of r] show ?case by (simp split: prod.split)
qed simp

lemma heredoc_operator_le:
  assumes "starts_with s ''<<''"
  shows "length (snd (snd (heredoc_operator current s))) < length s"
proof -
  have "length (snd (heredoc_delimiter r)) \<le> length r" for r
  proof -
    let ?s = "dropWhile is_blank r"
    have "length ?s \<le> length r" by (rule length_dropWhile_le)
    moreover have "length (after (hd ?s) (tl ?s)) \<le> length ?s"
      using after_le [of "hd ?s" "tl ?s"] by simp
    ultimately show ?thesis by (auto simp: heredoc_delimiter_def Let_def)
  qed
  from this [of "drop 2 s"] this [of "drop 3 s"] show ?thesis using assms
    by (auto simp: heredoc_operator_def Let_def starts_with_iff split: option.splits)
qed

section \<open>Segments\<close>

definition push_segment :: "string list \<Rightarrow> string list \<Rightarrow> string list" where
  "push_segment current segs =
     (if strip (concat current) = [] then segs else strip (concat current) # segs)"

text \<open>The loop of \<open>_split_command_segments\<close>: the chunks of the current segment, the open quotes, the
  queued heredocs, the rest.\<close>

function split_run :: "string list \<Rightarrow> bool \<Rightarrow> bool \<Rightarrow> heredoc list \<Rightarrow> string \<Rightarrow> string list option" where
  "split_run cur in_s in_d pend [] = (if in_s \<or> in_d then None else Some (push_segment cur []))"
| "split_run cur in_s in_d pend (c # cs) =
     (if c = BSLASH \<and> \<not> in_s \<and> cs \<noteq> [] then
        (if hd cs = NL then split_run cur in_s in_d pend (drop 1 cs)
         else if starts_with cs [CR, NL] then split_run cur in_s in_d pend (drop 2 cs)
         else split_run (cur @ [[c], take 1 cs]) in_s in_d pend (drop 1 cs))
      else if c = SQUOTE \<and> \<not> in_d then split_run (cur @ [[c]]) (\<not> in_s) in_d pend cs
      else if c = DQUOTE \<and> \<not> in_s then split_run (cur @ [[c]]) in_s (\<not> in_d) pend cs
      else if \<not> in_s \<and> opens_subst in_d (c # cs) then
        split_run (cur @ [consumed (c # cs) (fst (subst_end (c # cs)))]) in_s in_d pend
          (fst (subst_end (c # cs)))
      else if c = BTICK \<and> \<not> in_s then
        split_run (cur @ [consumed (c # cs) (fst (backtick_end cs))]) in_s in_d pend (fst (backtick_end cs))
      else if in_s \<or> in_d then split_run (cur @ [[c]]) in_s in_d pend cs
      else if starts_with (c # cs) ''<<<'' then split_run (cur @ [''<<<'']) in_s in_d pend (drop 2 cs)
      else if starts_with (c # cs) ''<<'' then
        (case heredoc_operator cur (c # cs) of
           (chunk, queued, rest) \<Rightarrow> split_run (cur @ [chunk]) in_s in_d (pend @ queued) rest)
      else if c = NL \<or> c = CR then
        (case consume_heredocs pend cs of
           (segs, rest) \<Rightarrow>
             map_option (\<lambda>more. push_segment cur (segs @ more)) (split_run [] in_s in_d [] rest))
      else if c = CHR '';'' then map_option (push_segment cur) (split_run [] in_s in_d pend cs)
      else if starts_with (c # cs) ''&&'' then
        map_option (push_segment cur) (split_run [] in_s in_d pend (drop 1 cs))
      else if c = CHR ''|'' \<and> cur \<noteq> [] \<and> last cur = ''>'' then split_run (cur @ [[c]]) in_s in_d pend cs
      else if starts_with (c # cs) ''||'' \<or> starts_with (c # cs) ''|&'' then
        map_option (push_segment cur) (split_run [] in_s in_d pend (drop 1 cs))
      else if c = CHR ''|'' then map_option (push_segment cur) (split_run [] in_s in_d pend cs)
      else split_run (cur @ [[c]]) in_s in_d pend cs)"
  by pat_completeness auto
termination
proof (relation "measure (\<lambda>(_, _, _, _, s). length s)", goal_cases)
  case (7 cur in_s in_d pend c cs)
  with subst_end_le [of "c # cs"] show ?case by simp
next
  case (11 cur in_s in_d pend c cs)
  then have "starts_with (c # cs) ''<<''" by blast
  from heredoc_operator_le [OF this, of cur] 11 show ?case by (cases "heredoc_operator cur (c # cs)") simp
next
  case (12 cur in_s in_d pend c cs)
  with consume_heredocs_le [of pend cs] show ?case by (cases "consume_heredocs pend cs") (simp add: less_Suc_eq_le)
qed (auto simp: less_Suc_eq_le backtick_end_le)

declare split_run.simps [simp del]

definition split_command_segments :: "string \<Rightarrow> string list option" where
  "split_command_segments command = split_run [] False False [] command"

section \<open>Words of a segment\<close>

definition extract_command_name :: "string \<Rightarrow> string option" where
  "extract_command_name segment =
     (case shlex_split segment of
        None \<Rightarrow> None
      | Some tokens \<Rightarrow>
          (case dropWhile is_assignment tokens of
             [] \<Rightarrow> None
           | t # _ \<Rightarrow>
              (let name = after_last BSLASH (after_last SLASH t) in
               Some (if ends_with (lower name) ''.exe'' then take (length name - 4) name else name))))"

text \<open>The word after a redirection operator, up to a blank or a separator.\<close>

definition redirect_word :: "string \<Rightarrow> string" where
  "redirect_word s = takeWhile (\<lambda>c. c \<notin> {CHR 32, CHR '';'', CHR ''&'', CHR ''|'', NL}) s"

definition quotes_off :: "string \<Rightarrow> string" where
  "quotes_off s = strip_of [SQUOTE, DQUOTE] s"

text \<open>An output operator from after its first \<open>></\<close>: whether it duplicates a descriptor, and the rest
  after the blanks.\<close>

definition output_operator :: "string \<Rightarrow> bool \<times> string" where
  "output_operator s =
     (let a = (if starts_with s ''>'' then drop 1 s else s);
          b = (if starts_with a ''|'' then drop 1 a else a);
          dup = starts_with b ''&''
      in (dup, dropWhile (\<lambda>c. c = CHR 32) (if dup then drop 1 b else b)))"

lemma output_operator_le: "length (snd (output_operator s)) \<le> length s"
proof -
  have "length (snd (output_operator s)) \<le> length r \<Longrightarrow> length r \<le> length s \<Longrightarrow> ?thesis" for r
    by simp
  then show ?thesis
    by (auto simp: output_operator_def Let_def intro!: order_trans [OF length_dropWhile_le])
qed

function redirect_scan :: "bool \<Rightarrow> bool \<Rightarrow> string \<Rightarrow> string list" where
  "redirect_scan in_s in_d [] = []"
| "redirect_scan in_s in_d (c # cs) =
     (if c = BSLASH \<and> \<not> in_s \<and> cs \<noteq> [] then redirect_scan in_s in_d (drop 1 cs)
      else if c = SQUOTE \<and> \<not> in_d then redirect_scan (\<not> in_s) in_d cs
      else if c = DQUOTE \<and> \<not> in_s then redirect_scan in_s (\<not> in_d) cs
      else if in_s \<or> in_d then redirect_scan in_s in_d cs
      else if c = CHR ''>'' then
        (let op = output_operator cs; w = redirect_word (snd op); raw = quotes_off w;
             skip = (w = [] \<or> (fst op \<and> ((raw \<noteq> [] \<and> list_all is_digit raw) \<or> raw = ''-'')))
         in (if skip then [] else [raw]) @ redirect_scan in_s in_d (drop (length w) (snd op)))
      else redirect_scan in_s in_d cs)"
  by pat_completeness auto
termination
proof (relation "measure (\<lambda>(_, _, s). length s)", goal_cases)
  case (6 in_s in_d c cs op w raw skip)
  with output_operator_le [of cs] show ?case by simp
qed auto

declare redirect_scan.simps [simp del]

definition extract_redirect_targets :: "string \<Rightarrow> string list" where
  "extract_redirect_targets segment = redirect_scan False False segment"

function input_scan :: "bool \<Rightarrow> bool \<Rightarrow> string \<Rightarrow> string list" where
  "input_scan in_s in_d [] = []"
| "input_scan in_s in_d (c # cs) =
     (if c = BSLASH \<and> \<not> in_s \<and> cs \<noteq> [] then input_scan in_s in_d (drop 1 cs)
      else if c = SQUOTE \<and> \<not> in_d then input_scan (\<not> in_s) in_d cs
      else if c = DQUOTE \<and> \<not> in_s then input_scan in_s (\<not> in_d) cs
      else if in_s \<or> in_d then input_scan in_s in_d cs
      else if c = CHR ''<'' then
        (if cs \<noteq> [] \<and> hd cs \<in> {CHR ''('', CHR ''<'', CHR ''&''} then input_scan in_s in_d (drop 1 cs)
         else (let s = dropWhile (\<lambda>x. x = CHR 32) cs;
                   w = takeWhile (\<lambda>x. x \<notin> {CHR 32, CHR '';'', CHR ''&'', CHR ''|'', NL, CHR ''<'', CHR ''>''}) s
               in (if w = [] then [] else [quotes_off w]) @ input_scan in_s in_d (drop (length w) s)))
      else input_scan in_s in_d cs)"
  by pat_completeness auto
termination
proof (relation "measure (\<lambda>(_, _, s). length s)", goal_cases)
  case (7 in_s in_d c cs s w)
  with length_dropWhile_le [of "\<lambda>x. x = CHR 32" cs] show ?case by simp
qed auto

declare input_scan.simps [simp del]

definition extract_input_redirects :: "string \<Rightarrow> string list" where
  "extract_input_redirects segment = input_scan False False segment"

definition REDIRECT_TOKENS :: "string list" where
  "REDIRECT_TOKENS = [''>'', ''>>'', ''>|'', ''>&'', ''&>'', ''&>>'', ''2>'', ''2>>'', ''1>'', ''1>>'',
     ''<'', ''0<'', ''<<'', ''<<-'']"

text \<open>A redirection fused with its target.\<close>

definition fused_redirect :: "string \<Rightarrow> bool" where
  "fused_redirect arg =
     (starts_with (if arg \<noteq> [] \<and> hd arg \<in> set ''012'' then tl arg else arg) ''>'' \<or>
      starts_with (dropWhile is_digit arg) ''<'')"

fun filter_redirect_tokens :: "string list \<Rightarrow> string list" where
  "filter_redirect_tokens [] = []"
| "filter_redirect_tokens (arg # args) =
     (if arg \<in> set REDIRECT_TOKENS then (case args of [] \<Rightarrow> [] | _ # rest \<Rightarrow> filter_redirect_tokens rest)
      else if fused_redirect arg then filter_redirect_tokens args
      else arg # filter_redirect_tokens args)"

section \<open>Dropping words\<close>

text \<open>The rest from the end of the word that starts here.\<close>

fun skip_token :: "bool \<Rightarrow> bool \<Rightarrow> string \<Rightarrow> string" where
  "skip_token in_s in_d [] = []"
| "skip_token in_s in_d (c # cs) =
     (if c = BSLASH \<and> \<not> in_s \<and> cs \<noteq> [] then skip_token in_s in_d (drop 1 cs)
      else if c = SQUOTE \<and> \<not> in_d then skip_token (\<not> in_s) in_d cs
      else if c = DQUOTE \<and> \<not> in_s then skip_token in_s (\<not> in_d) cs
      else if \<not> in_s \<and> \<not> in_d \<and> is_space c then c # cs
      else skip_token in_s in_d cs)"

fun drop_leading_tokens :: "nat \<Rightarrow> string \<Rightarrow> string" where
  "drop_leading_tokens 0 s = lstrip s"
| "drop_leading_tokens (Suc n) s =
     (if s = [] then [] else drop_leading_tokens n (skip_token False False (lstrip s)))"

end
