(* ===== verification/ShellUnwrap.thy ===== *)
theory ShellUnwrap
  imports ShellLexer
begin

text \<open>
  \<open>proxy/auth/path_shell.py\<close>, what is taken off a segment before its command is judged: the shell
  structure (subshell parentheses, leading keywords, case labels), the wrappers (\<open>bash -c\<close>, \<open>eval\<close>,
  \<open>timeout\<close>, \<open>env\<close>, \<open>command\<close>), and the inner commands of \<open>find -exec\<close>. The measure \<open>blanks\<close> (the
  whitespace of a text) falls at each wrapper that is taken off.
\<close>

section \<open>Tables\<close>

definition PREFIX_WRAPPERS :: "string list" where
  "PREFIX_WRAPPERS = [''timeout'', ''xargs'', ''nohup'', ''time'', ''stdbuf'', ''nice'', ''ionice'', ''setsid'',
     ''env'', ''exec'']"

definition EVAL_CMDS :: "string list" where "EVAL_CMDS = [''eval'']"

definition LEADING_KEYWORDS :: "string list" where
  "LEADING_KEYWORDS = [''do'', ''then'', ''else'', ''elif'', ''if'', ''while'', ''until'', ''!'', ''{'']"

definition CASE_LABEL_RE :: regex where
  "CASE_LABEL_RE =
     seqs [AtStart, plus (Chr (\<lambda>c. \<not> is_space c \<and> c \<noteq> CHR ''('')), lit '')'', AtEnd]"

definition COMMAND_WRAPPERS :: "string list" where "COMMAND_WRAPPERS = [''command'', ''builtin'']"

definition DURATION_RE :: regex where
  "DURATION_RE =
     seqs [AtStart, plus (Chr is_digit), opt (Seq (lit ''.'') (plus (Chr is_digit))), opt (one_of ''smhd''),
       AtEnd]"

section \<open>Wrappers\<close>

datatype unwrapped = UString string | USegment string | UNone

definition wrapper_word :: "string \<Rightarrow> bool" where
  "wrapper_word t =
     (starts_with t ''-'' \<or> re_match DURATION_RE t \<or> t = ''{}'' \<or> is_assignment t)"

definition dash_c :: "string \<Rightarrow> bool" where
  "dash_c t = (starts_with t ''-'' \<and> \<not> starts_with t ''--'' \<and> CHR ''c'' \<in> set (tl t))"

definition describes :: "string \<Rightarrow> bool" where
  "describes t = (CHR ''v'' \<in> set (tl t) \<or> CHR ''V'' \<in> set (tl t))"

definition unwrap_segment :: "string \<Rightarrow> unwrapped" where
  "unwrap_segment segment =
     (case shlex_split segment of
        None \<Rightarrow> UNone
      | Some tokens \<Rightarrow>
          (let idx = length (takeWhile is_assignment tokens) in
           case drop idx tokens of
             [] \<Rightarrow> UNone
           | t # rest \<Rightarrow>
              (let cmd = after_last SLASH t in
               if cmd \<in> set EVAL_CMDS then
                 (if rest = [] then UNone else UString (join_on '' '' rest))
               else if cmd \<in> set SHELL_DASH_C then
                 (case dropWhile (\<lambda>x. \<not> dash_c x) rest of _ # s # _ \<Rightarrow> UString s | _ \<Rightarrow> UNone)
               else if cmd \<in> set PREFIX_WRAPPERS then
                 (let j = length (takeWhile wrapper_word rest) in
                  if length rest \<le> j then UNone else USegment (drop_leading_tokens (idx + 1 + j) segment))
               else if cmd \<in> set COMMAND_WRAPPERS then
                 (let opts = takeWhile (\<lambda>x. starts_with x ''-'') rest in
                  if list_ex describes opts \<or> length rest \<le> length opts then UNone
                  else USegment (drop_leading_tokens (idx + 1 + length opts) segment))
               else UNone)))"

section \<open>Structure\<close>

text \<open>The state: the open quotes and whether the last character read was a bare \<open>)\<close>.\<close>

fun bare_paren_last :: "bool \<Rightarrow> bool \<Rightarrow> bool \<Rightarrow> string \<Rightarrow> bool" where
  "bare_paren_last in_s in_d seen [] = seen"
| "bare_paren_last in_s in_d seen (c # cs) =
     (if c = BSLASH \<and> \<not> in_s \<and> cs \<noteq> [] then bare_paren_last in_s in_d False (drop 1 cs)
      else if c = SQUOTE \<and> \<not> in_d then bare_paren_last (\<not> in_s) in_d False cs
      else if c = DQUOTE \<and> \<not> in_s then bare_paren_last in_s (\<not> in_d) False cs
      else bare_paren_last in_s in_d (c = CHR '')'' \<and> \<not> in_s \<and> \<not> in_d) cs)"

definition unquoted_trailing_paren :: "string \<Rightarrow> bool" where
  "unquoted_trailing_paren s = bare_paren_last False False False s"

text \<open>One turn of the peeling loop: the text with one layer off, or \<open>None\<close> where the loop ends.\<close>

datatype peeled = Done string | Again string

definition peel :: "string \<Rightarrow> peeled" where
  "peel s =
     (if s = [] then Done []
      else if starts_with s ''(('' then Done s
      else if starts_with s ''('' then Again (lstrip (drop 1 s))
      else if ends_with s '')'' \<and> unquoted_trailing_paren s then Again (rstrip (butlast s))
      else (case shlex_split s of
              None \<Rightarrow> Done s
            | Some [] \<Rightarrow> Done []
            | Some (first # ws) \<Rightarrow>
                if first \<in> set LEADING_KEYWORDS \<or> re_match CASE_LABEL_RE first then
                  Again (drop_leading_tokens 1 s)
                else if first = ''case'' \<and> 3 \<le> length ws \<and> ws ! 1 = ''in'' \<and>
                        re_match CASE_LABEL_RE (ws ! 2) then Again (drop_leading_tokens 4 s)
                else Done s))"

lemma skip_token_suffix: "suffix (skip_token in_s in_d s) s"
  by (induction in_s in_d s rule: skip_token.induct) (auto intro: suffix_tail simp: suffix_ConsI)

lemma lstrip_suffix: "suffix (lstrip s) s"
  unfolding lstrip_def by (rule suffix_dropWhile)

lemma drop_leading_suffix: "suffix (drop_leading_tokens n s) s"
proof (induction n s rule: drop_leading_tokens.induct)
  case (2 n s)
  then show ?case
    using suffix_order.trans [OF skip_token_suffix lstrip_suffix] by (auto intro: suffix_order.trans)
qed (simp add: lstrip_suffix)

lemma skip_token_head:
  "skip_token in_s in_d s = [] \<or> is_space (hd (skip_token in_s in_d s))"
  by (induction in_s in_d s rule: skip_token.induct) auto

lemma skip_token_less:
  assumes "s \<noteq> []" "\<not> is_space (hd s)"
  shows "length (skip_token False False s) < length s"
proof (cases s)
  case (Cons c cs)
  have le: "length (skip_token a b t) \<le> length t" for a b t
    by (rule suffix_length_le [OF skip_token_suffix])
  have "length (skip_token a b (drop 1 cs)) < length s" "length (skip_token a b cs) < length s" for a b
    using Cons le [of a b "drop 1 cs"] le [of a b cs] by simp_all
  with assms Cons show ?thesis by auto
qed (use assms in simp)

lemma lstrip_head: "lstrip s = [] \<or> \<not> is_space (hd (lstrip s))"
  unfolding lstrip_def by (metis hd_dropWhile)

lemma drop_leading_less:
  assumes "s \<noteq> []"
  shows "length (drop_leading_tokens (Suc n) s) < length s"
proof -
  let ?t = "lstrip s"
  have "length (drop_leading_tokens n (skip_token False False ?t)) \<le> length (skip_token False False ?t)"
    by (rule suffix_length_le [OF drop_leading_suffix])
  also have "\<dots> < length s"
  proof (cases "?t = []")
    case False
    with skip_token_less lstrip_head have "length (skip_token False False ?t) < length ?t" by blast
    also have "\<dots> \<le> length s" by (rule suffix_length_le [OF lstrip_suffix])
    finally show ?thesis .
  qed (use assms in simp)
  finally show ?thesis using assms by simp
qed

text \<open>Taking words off a text leaves fewer blanks, or nothing.\<close>

lemma blanks_lstrip_less:
  assumes "s \<noteq> []" "is_space (hd s)"
  shows "blanks (lstrip s) < blanks s"
  using assms blanks_dropWhile_le [of is_space "tl s"]
  by (cases s) (auto simp: lstrip_def less_Suc_eq_le)

lemma drop_leading_blanks:
  assumes "s \<noteq> []"
  shows "drop_leading_tokens (Suc n) s = [] \<or> blanks (drop_leading_tokens (Suc n) s) < blanks s"
  using assms
proof (induction n arbitrary: s)
  case 0
  let ?r = "skip_token False False (lstrip s)"
  have "blanks ?r \<le> blanks s"
    by (rule suffix_blanks) (rule suffix_order.trans [OF skip_token_suffix lstrip_suffix])
  moreover have "?r \<noteq> [] \<Longrightarrow> blanks (lstrip ?r) < blanks ?r"
    using blanks_lstrip_less skip_token_head by blast
  ultimately show ?case using 0 by (cases "?r = []") (auto simp: lstrip_def)
next
  case (Suc n)
  let ?r = "skip_token False False (lstrip s)"
  have "blanks ?r \<le> blanks s"
    by (rule suffix_blanks) (rule suffix_order.trans [OF skip_token_suffix lstrip_suffix])
  with Suc.IH [of ?r] Suc.prems show ?case by (cases "?r = []") auto
qed

lemma unwrap_blanks:
  assumes "unwrap_segment s = USegment r" "strip r \<noteq> []"
  shows "blanks r < blanks s"
proof -
  have "\<exists>n. r = drop_leading_tokens (Suc n) s"
    using assms(1)
    by (auto simp: unwrap_segment_def Let_def split: option.splits list.splits if_splits)
  then obtain n where r: "r = drop_leading_tokens (Suc n) s" ..
  with assms(2) have "r \<noteq> []" by (auto simp: strip_def)
  with r have "s \<noteq> []" using suffix_length_le [OF drop_leading_suffix, of "Suc n" s] by auto
  from drop_leading_blanks [OF this, of n] r \<open>r \<noteq> []\<close> show ?thesis by auto
qed

lemma peel_less: "peel s = Again r \<Longrightarrow> length r < length s \<and> blanks r \<le> blanks s"
proof -
  assume *: "peel s = Again r"
  then have s: "s \<noteq> []" by (auto simp: peel_def)
  have 1: "length (lstrip (drop 1 s)) < length s" "blanks (lstrip (drop 1 s)) \<le> blanks s"
    using s suffix_length_le [OF lstrip_suffix, of "drop 1 s"]
      suffix_blanks [OF suffix_order.trans [OF lstrip_suffix suffix_drop], of 1 s]
    by (cases s; auto simp: less_Suc_eq_le)+
  have "length (rstrip (butlast s)) \<le> length (butlast s)"
    unfolding rstrip_def using length_dropWhile_le [of is_space "rev (butlast s)"] by simp
  moreover have "blanks (rstrip (butlast s)) \<le> blanks (butlast s)"
    unfolding rstrip_def using blanks_dropWhile_le [of is_space "rev (butlast s)"] by simp
  moreover have b: "blanks (butlast s) \<le> blanks s"
    using s by (cases s rule: rev_cases) (auto simp: blanks_def)
  ultimately have 2: "length (rstrip (butlast s)) < length s" "blanks (rstrip (butlast s)) \<le> blanks s"
    using s by (auto simp: order_le_less_trans intro: order_trans [OF _ b])
  have 3: "length (drop_leading_tokens (Suc n) s) < length s" "blanks (drop_leading_tokens (Suc n) s) \<le> blanks s" for n
    using drop_leading_less [OF s] suffix_blanks [OF drop_leading_suffix, of "Suc n" s] by blast+
  from * 1 2 3 [of 0] 3 [of 3] show ?thesis
    by (auto simp: peel_def eval_nat_numeral split: if_splits option.splits list.splits)
qed

function peel_all :: "string \<Rightarrow> string" where
  "peel_all s = (case peel s of Done r \<Rightarrow> r | Again r \<Rightarrow> peel_all r)"
  by pat_completeness auto
termination
  by (relation "measure length") (auto dest: peel_less)

declare peel_all.simps [simp del]

definition strip_shell_structure :: "string \<Rightarrow> string" where
  "strip_shell_structure segment = peel_all (strip segment)"

lemma peel_done: "peel s = Done r \<Longrightarrow> r = s \<or> r = []"
  by (auto simp: peel_def split: if_splits option.splits list.splits)

lemma peel_all_blanks: "blanks (peel_all s) \<le> blanks s"
proof (induction s rule: peel_all.induct)
  case (1 s)
  show ?case
  proof (cases "peel s")
    case (Done r)
    with peel_done [OF Done] show ?thesis by (subst peel_all.simps) auto
  next
    case (Again r)
    with 1 [OF Again] peel_less [OF Again] show ?thesis by (subst peel_all.simps) auto
  qed
qed

lemma structure_blanks: "blanks (strip_shell_structure s) \<le> blanks s"
  unfolding strip_shell_structure_def by (rule order_trans [OF peel_all_blanks]) simp

text \<open>Nothing is left to peel.\<close>

lemma peel_all_done: "peel (peel_all s) = Done (peel_all s)"
proof (induction s rule: peel_all.induct)
  case (1 s)
  show ?case
  proof (cases "peel s")
    case (Done r)
    then have "peel_all s = r" by (simp add: peel_all.simps)
    moreover have "peel [] = Done []" by (simp add: peel_def)
    ultimately show ?thesis using peel_done [OF Done] Done by metis
  next
    case (Again r)
    then have "peel_all s = peel_all r" by (subst peel_all.simps) simp
    with 1 [OF Again] show ?thesis by simp
  qed
qed

definition is_command_less :: "string \<Rightarrow> bool" where
  "is_command_less segment =
     (case shlex_split segment of
        None \<Rightarrow> False
      | Some [] \<Rightarrow> False
      | Some tokens \<Rightarrow> list_all is_assignment (filter_redirect_tokens tokens))"

section \<open>\<open>find\<close>\<close>

definition find_has_delete :: "string \<Rightarrow> bool" where
  "find_has_delete segment =
     (case shlex_split segment of None \<Rightarrow> False | Some tokens \<Rightarrow> ''-delete'' \<in> set tokens)"

definition FIND_EXEC_FLAGS :: "string list" where
  "FIND_EXEC_FLAGS = [''-exec'', ''-execdir'', ''-ok'', ''-okdir'']"

definition clause_end :: "string \<Rightarrow> bool" where
  "clause_end t = (t = '';'' \<or> t = ''+'' \<or> t = [BSLASH, CHR '';''])"

function exec_clauses :: "string list \<Rightarrow> string list list" where
  "exec_clauses [] = []"
| "exec_clauses (t # ts) =
     (if t \<notin> set FIND_EXEC_FLAGS then exec_clauses ts
      else (let clause = takeWhile (\<lambda>x. \<not> clause_end x) ts;
                cut = filter (\<lambda>x. x \<noteq> ''{}'') clause
            in (if cut = [] then [] else [cut]) @ exec_clauses (drop (length clause) ts)))"
  by pat_completeness auto
termination by (relation "measure length") auto

declare exec_clauses.simps [simp del]

definition find_exec_inners :: "string \<Rightarrow> string list" where
  "find_exec_inners segment =
     (case shlex_split segment of
        None \<Rightarrow> []
      | Some tokens \<Rightarrow> map (\<lambda>cut. join_on '' '' (map shlex_quote cut)) (exec_clauses tokens))"

text \<open>The command of a \<open>find -exec\<close> clause survives its rewriting: the gate takes the words of every
  clause out, quotes them and joins them into a command of its own, and a shell that reads that
  command splits it into exactly the clause's words again, quotes, blanks and separators in a word
  included, so the command the gate judges is the one \<open>find\<close> runs.\<close>

theorem find_exec_round_trip:
  assumes "shlex_split segment = Some tokens"
  shows "map shlex_split (find_exec_inners segment) = map Some (exec_clauses tokens)"
  using assms by (simp add: find_exec_inners_def shlex_split_join)

definition demo_find :: string where
  "demo_find = ''find . -exec rm '' @ [DQUOTE] @ ''a b'' @ [DQUOTE] @ '' {} +''"

text \<open>The word with a blank in it stays one word of the inner command.\<close>

theorem find_exec_round_trip_witness:
  "map shlex_split (find_exec_inners demo_find) = [Some [''rm'', ''a b'']]"
proof -
  have split: "shlex_split demo_find = Some [''find'', ''.'', ''-exec'', ''rm'', ''a b'', ''{}'', ''+'']"
    by code_simp
  have "exec_clauses [''find'', ''.'', ''-exec'', ''rm'', ''a b'', ''{}'', ''+''] = [[''rm'', ''a b'']]" by code_simp
  then show ?thesis using find_exec_round_trip [OF split] by simp
qed

section \<open>Words of a text that does not parse\<close>

definition PATH_TOKEN_PREFIXES :: "string list" where
  "PATH_TOKEN_PREFIXES = [''/'', ''~'', ''./'', ''../'']"

definition path_looking_tokens :: "string \<Rightarrow> string list" where
  "path_looking_tokens segment =
     filter (\<lambda>t. list_ex (starts_with t) PATH_TOKEN_PREFIXES)
       (map (\<lambda>w. rstrip_char BSLASH (quotes_off w)) (split_words segment)) @
     extract_redirect_targets segment @ extract_input_redirects segment"

end
