(* ===== verification/ShellPaths.thy ===== *)
theory ShellPaths
  imports ShellUnwrap
begin

text \<open>
  \<open>proxy/auth/path_shell.py\<close>, the path arguments of a command: which of its words it reads as files and
  which it writes. A loop that appends to \<open>read_paths\<close> and \<open>write_paths\<close> is a function to the pair of
  both lists.
\<close>

section \<open>Tables\<close>

definition READ_PATH_COMMANDS :: "string list" where
  "READ_PATH_COMMANDS = [''cat'', ''head'', ''tail'', ''less'', ''more'', ''file'', ''stat'', ''wc'', ''md5sum'',
     ''sha256sum'', ''sha1sum'', ''diff'', ''tree'', ''du'', ''readlink'', ''ls'', ''sort'', ''uniq'', ''cut'',
     ''column'', ''nl'', ''tac'', ''base64'', ''base32'', ''xxd'', ''od'', ''hexdump'', ''strings'', ''cmp'',
     ''comm'', ''join'', ''paste'', ''fold'', ''fmt'', ''rev'', ''source'', ''.'']"

definition WRITE_PATH_COMMANDS :: "string list" where
  "WRITE_PATH_COMMANDS = [''rm'', ''rmdir'', ''touch'', ''mkdir'']"

definition COPY_COMMANDS :: "string list" where
  "COPY_COMMANDS = [''cp'', ''mv'', ''ln'', ''install'', ''rsync'', ''scp'']"

definition REMOTE_COPY_COMMANDS :: "string list" where
  "REMOTE_COPY_COMMANDS = [''rsync'', ''scp'']"

definition COPY_VALUE_FLAGS :: "(string \<times> string list) list" where
  "COPY_VALUE_FLAGS =
     [(''cp'', [''-S'', ''--suffix'']), (''mv'', [''-S'', ''--suffix'']), (''ln'', [''-S'', ''--suffix'']),
      (''install'', [''-S'', ''--suffix'', ''-m'', ''--mode'', ''-o'', ''--owner'', ''-g'', ''--group'']),
      (''scp'', [''-c'', ''-D'', ''-F'', ''-i'', ''-J'', ''-l'', ''-o'', ''-P'', ''-S'', ''-X'']),
      (''rsync'', [''--rsync-path''])]"

definition COPY_READ_VALUE_FLAGS :: "(string \<times> string list) list" where
  "COPY_READ_VALUE_FLAGS = [(''scp'', [''-F'', ''-i''])]"

definition GREP_COMMANDS :: "string list" where
  "GREP_COMMANDS = [''grep'', ''egrep'', ''fgrep'']"

definition INPLACE_FLAG_COMMANDS :: "(string \<times> string) list" where
  "INPLACE_FLAG_COMMANDS = [(''sed'', ''-i'')]"

definition PROGRAM_FIRST_READ_COMMANDS :: "string list" where
  "PROGRAM_FIRST_READ_COMMANDS = [''awk'', ''jq'', ''rg'']"

definition PROGRAM_FLAGS_BY_CMD :: "(string \<times> string list) list" where
  "PROGRAM_FLAGS_BY_CMD =
     [(''rg'', [''-e'', ''--regexp'', ''-f'', ''--file'']), (''jq'', [''-f'', ''--from-file''])]"

definition WRITE_VALUE_FLAGS_BY_CMD :: "(string \<times> string list) list" where
  "WRITE_VALUE_FLAGS_BY_CMD = [(''sort'', [''-o'', ''--output''])]"

definition VALUE_FLAGS_BY_CMD :: "(string \<times> string list) list" where
  "VALUE_FLAGS_BY_CMD =
     [(''head'', [''-c'', ''-n'', ''--bytes'', ''--lines'']),
      (''tail'', [''-c'', ''-n'', ''--bytes'', ''--lines'']),
      (''tree'', [''-L'', ''-P'', ''-I'']),
      (''du'', [''-d'', ''-B'', ''--max-depth'', ''--block-size'', ''--threshold'']),
      (''stat'', [''-c'', ''--format'', ''--printf'']),
      (''diff'', [''-x'', ''--exclude'', ''-I'', ''--ignore-matching-lines'']),
      (''ls'', [''-w'', ''-T'', ''--width'', ''--tabsize'', ''--block-size'']),
      (''sort'', [''-k'', ''-t'', ''-S'', ''-T'', ''--key'', ''--field-separator'', ''--buffer-size'',
         ''--temporary-directory'']),
      (''uniq'', [''-f'', ''-s'', ''-w'', ''--skip-fields'', ''--skip-chars'', ''--check-chars'']),
      (''cut'', [''-d'', ''-f'', ''-c'', ''-b'', ''--delimiter'', ''--fields'', ''--characters'', ''--bytes'',
         ''--output-delimiter'']),
      (''column'', [''-c'', ''-s'', ''-o'', ''--columns'', ''--separator'', ''--output-separator'',
         ''--table-columns'']),
      (''nl'', [''-b'', ''-d'', ''-f'', ''-h'', ''-i'', ''-l'', ''-n'', ''-s'', ''-v'', ''-w'']),
      (''tac'', [''-s'', ''--separator'']),
      (''jq'', [''-L'', ''--indent'', ''--arg'', ''--argjson'', ''--slurpfile'', ''--rawfile'']),
      (''rg'', [''-A'', ''-B'', ''-C'', ''--after-context'', ''--before-context'', ''--context'', ''-m'',
         ''--max-count'', ''-g'', ''--glob'', ''-t'', ''--type'', ''-T'', ''--type-not'', ''--max-depth'', ''-M'',
         ''--max-columns'', ''-r'', ''--replace'', ''-E'', ''--encoding'', ''--color'', ''--colors''])]"

text \<open>\<open>table.get(cmd, set())\<close>.\<close>

definition flags_of :: "(string \<times> string list) list \<Rightarrow> string \<Rightarrow> string list" where
  "flags_of table cmd = (case lookup table cmd of None \<Rightarrow> [] | Some fs \<Rightarrow> fs)"

section \<open>Readers and writers\<close>

type_synonym paths = "string list \<times> string list"

abbreviation dashed :: "string \<Rightarrow> bool" where "dashed a \<equiv> starts_with a ''-''"

definition positionals :: "string list \<Rightarrow> string list" where
  "positionals args = filter (\<lambda>a. \<not> dashed a) args"

fun read_command_loop :: "string list \<Rightarrow> string list \<Rightarrow> string list \<Rightarrow> paths" where
  "read_command_loop values writes [] = ([], [])"
| "read_command_loop values writes (arg # args) =
     (if arg \<in> set writes then
        (case args of [] \<Rightarrow> ([], []) | w # rest \<Rightarrow> apsnd ((#) w) (read_command_loop values writes rest))
      else if arg \<in> set values then
        (case args of [] \<Rightarrow> ([], []) | _ # rest \<Rightarrow> read_command_loop values writes rest)
      else if \<not> dashed arg then apfst ((#) arg) (read_command_loop values writes args)
      else read_command_loop values writes args)"

definition read_command_paths :: "string \<Rightarrow> string list \<Rightarrow> paths" where
  "read_command_paths cmd args =
     read_command_loop (flags_of VALUE_FLAGS_BY_CMD cmd) (flags_of WRITE_VALUE_FLAGS_BY_CMD cmd) args"

definition grep_paths :: "string \<Rightarrow> string list \<Rightarrow> paths" where
  "grep_paths cmd args = (drop 1 (positionals args), [])"

text \<open>The positionals, and whether an option gives the program.\<close>

fun program_loop :: "string \<Rightarrow> string list \<Rightarrow> bool \<Rightarrow> string list \<times> bool" where
  "program_loop cmd [] from_flag = ([], from_flag)"
| "program_loop cmd (arg # args) from_flag =
     (if cmd = ''awk'' \<and> dashed arg \<and> arg \<noteq> ''-'' then
        (let o1 = awk_option arg in
         if snd o1 then
           (case args of [] \<Rightarrow> ([], from_flag \<or> fst o1)
            | _ # rest \<Rightarrow> program_loop cmd rest (from_flag \<or> fst o1))
         else program_loop cmd args (from_flag \<or> fst o1))
      else if arg \<in> set (flags_of PROGRAM_FLAGS_BY_CMD cmd) then
        (case args of [] \<Rightarrow> ([], True) | _ # rest \<Rightarrow> program_loop cmd rest True)
      else if arg \<in> set (flags_of VALUE_FLAGS_BY_CMD cmd) then
        (case args of [] \<Rightarrow> ([], from_flag) | _ # rest \<Rightarrow> program_loop cmd rest from_flag)
      else if \<not> dashed arg then apfst ((#) arg) (program_loop cmd args from_flag)
      else program_loop cmd args from_flag)"

definition program_first_paths :: "string \<Rightarrow> string list \<Rightarrow> paths" where
  "program_first_paths cmd args =
     (case program_loop cmd args False of
        (positional, from_flag) \<Rightarrow> (if from_flag then positional else drop 1 positional, []))"

definition find_paths :: "string \<Rightarrow> string list \<Rightarrow> paths" where
  "find_paths cmd args = (takeWhile (\<lambda>a. \<not> dashed a) args, [])"

definition write_command_paths :: "string \<Rightarrow> string list \<Rightarrow> paths" where
  "write_command_paths cmd args = ([], positionals args)"

section \<open>Copies\<close>

definition read_value :: "string \<Rightarrow> string \<Rightarrow> string" where
  "read_value flag v = (if flag = ''-i'' then identity_scope v else v)"

text \<open>What the option loop waits for in the next argument: a target directory, a value, or the file a
  flag reads.\<close>

datatype expects = ExpectTarget | ExpectValue | ExpectRead string

record copy_state =
  cp_reads :: "string list"
  cp_positional :: "string list"
  cp_target :: "string option"

definition cluster_target :: "string \<Rightarrow> string" where
  "cluster_target arg = drop 1 (dropWhile (\<lambda>c. c \<noteq> CHR ''t'') (tl arg))"

definition copy_option :: "string \<Rightarrow> string \<Rightarrow> copy_state \<Rightarrow> copy_state \<times> expects option" where
  "copy_option cmd arg st =
     (let reads = flags_of COPY_READ_VALUE_FLAGS cmd; values = flags_of COPY_VALUE_FLAGS cmd;
          takes_target = cmd \<notin> set REMOTE_COPY_COMMANDS;
          shell = rsync_shell_option arg
      in if arg \<in> set reads then (st, Some (ExpectRead arg))
         else if cmd = ''rsync'' \<and> fst shell then (st, if snd shell = None then Some ExpectValue else None)
         else if take 2 arg \<in> set reads \<and> 2 < length arg then
           (st\<lparr>cp_reads := cp_reads st @ [read_value (take 2 arg) (drop 2 arg)]\<rparr>, None)
         else if takes_target \<and> arg = ''--target-directory'' then (st, Some ExpectTarget)
         else if takes_target \<and> starts_with arg ''--target-directory='' then
           (st\<lparr>cp_target := Some (after (CHR ''='') arg)\<rparr>, None)
         else if arg \<in> set values then (st, Some ExpectValue)
         else if takes_target \<and> \<not> starts_with arg ''--'' \<and> CHR ''t'' \<in> set (tl arg) then
           (if cluster_target arg \<noteq> [] then (st\<lparr>cp_target := Some (cluster_target arg)\<rparr>, None)
            else (st, Some ExpectTarget))
         else (st, None))"

definition copy_expected :: "expects \<Rightarrow> string \<Rightarrow> copy_state \<Rightarrow> copy_state" where
  "copy_expected e arg st =
     (case e of
        ExpectTarget \<Rightarrow> st\<lparr>cp_target := Some arg\<rparr>
      | ExpectValue \<Rightarrow> st
      | ExpectRead flag \<Rightarrow> st\<lparr>cp_reads := cp_reads st @ [read_value flag arg]\<rparr>)"

fun copy_loop :: "string \<Rightarrow> expects option \<Rightarrow> bool \<Rightarrow> string list \<Rightarrow> copy_state \<Rightarrow> copy_state" where
  "copy_loop cmd expect done [] st = st"
| "copy_loop cmd (Some e) done (arg # args) st = copy_loop cmd None done args (copy_expected e arg st)"
| "copy_loop cmd None done (arg # args) st =
     (if done \<or> \<not> dashed arg \<or> arg = ''-'' then
        copy_loop cmd None done args (st\<lparr>cp_positional := cp_positional st @ [arg]\<rparr>)
      else if arg = ''--'' then copy_loop cmd None True args st
      else (case copy_option cmd arg st of (st', e) \<Rightarrow> copy_loop cmd e done args st'))"

text \<open>The name a source gets under a directory destination.\<close>

definition under_dest :: "string \<Rightarrow> string \<Rightarrow> string list" where
  "under_dest dest src =
     (let base = basename (rstrip_char SLASH src) in
      if strip_of ''.'' base = [] then [] else [path_join dest base])"

definition copy_paths :: "string \<Rightarrow> string list \<Rightarrow> paths" where
  "copy_paths cmd args =
     (let st = copy_loop cmd None False args \<lparr>cp_reads = [], cp_positional = [], cp_target = None\<rparr>;
          ps = cp_positional st;
          sources = (if cp_target st \<noteq> None then ps else butlast ps);
          dest0 = (if cp_target st \<noteq> None then cp_target st else if ps = [] then None else Some (last ps));
          remote = (cmd \<in> set REMOTE_COPY_COMMANDS);
          local = (if remote then filter (\<lambda>s. \<not> remote_operand s) sources else sources);
          dest = (case dest0 of Some d \<Rightarrow> if remote \<and> remote_operand d then None else Some d | None \<Rightarrow> None)
      in (cp_reads st @ local,
          (if cmd = ''mv'' then sources else []) @
          (case dest of None \<Rightarrow> [] | Some d \<Rightarrow> d # concat (map (under_dest d) sources))))"

section \<open>The other commands\<close>

definition inplace_paths :: "string \<Rightarrow> string list \<Rightarrow> paths" where
  "inplace_paths cmd args =
     (let flag = opt_str (lookup INPLACE_FLAG_COMMANDS cmd); files = drop 1 (positionals args)
      in if list_ex (\<lambda>a. starts_with a flag) args then ([], files) else (files, []))"

definition tee_paths :: "string \<Rightarrow> string list \<Rightarrow> paths" where
  "tee_paths cmd args = ([], positionals args)"

definition mode_owner_paths :: "string \<Rightarrow> string list \<Rightarrow> paths" where
  "mode_owner_paths cmd args = ([], drop 1 (positionals args))"

fun tar_paths :: "string \<Rightarrow> string list \<Rightarrow> paths" where
  "tar_paths cmd [] = ([], [])"
| "tar_paths cmd [arg] = ([], [])"
| "tar_paths cmd (arg # v # args) =
     (if arg = ''-C'' \<or> arg = ''--directory'' then apsnd ((#) v) (tar_paths cmd (v # args))
      else if arg = ''-f'' \<or> arg = ''--file'' then apfst ((#) v) (tar_paths cmd (v # args))
      else tar_paths cmd (v # args))"

definition command_paths :: "string \<Rightarrow> string list \<Rightarrow> paths" where
  "command_paths cmd args =
     (if cmd \<in> set READ_PATH_COMMANDS then read_command_paths cmd args
      else if cmd \<in> set GREP_COMMANDS then grep_paths cmd args
      else if cmd \<in> set PROGRAM_FIRST_READ_COMMANDS then program_first_paths cmd args
      else if cmd = ''find'' then find_paths cmd args
      else if cmd \<in> set WRITE_PATH_COMMANDS then write_command_paths cmd args
      else if cmd \<in> set COPY_COMMANDS then copy_paths cmd args
      else if cmd \<in> set (keys INPLACE_FLAG_COMMANDS) then inplace_paths cmd args
      else if cmd = ''tee'' then tee_paths cmd args
      else if cmd \<in> set [''chmod'', ''chown'', ''chgrp''] then mode_owner_paths cmd args
      else if cmd = ''tar'' then tar_paths cmd args
      else ([], []))"

definition extract_path_args :: "string \<Rightarrow> string \<Rightarrow> paths" where
  "extract_path_args cmd segment =
     (case shlex_split segment of
        None \<Rightarrow> ([], [])
      | Some tokens \<Rightarrow>
          command_paths cmd (filter_redirect_tokens (drop 1 (dropWhile is_assignment tokens))))"

section \<open>Facts\<close>

text \<open>A copy writes its destination and, for each source with a name, the path it takes under it: a
  protected file cannot be reached through its directory.\<close>

lemma copy_loop_plain:
  assumes "\<And>a. a \<in> set args \<Longrightarrow> \<not> dashed a"
  shows "copy_loop cmd None done args st = st\<lparr>cp_positional := cp_positional st @ args\<rparr>"
  using assms by (induction args arbitrary: st) auto

lemma copy_paths_plain:
  assumes "\<And>a. a \<in> set (srcs @ [dest]) \<Longrightarrow> \<not> dashed a" and "cmd \<in> set [''cp'', ''mv'', ''ln'', ''install'']"
  shows "copy_paths cmd (srcs @ [dest]) =
    (srcs, (if cmd = ''mv'' then srcs else []) @ dest # concat (map (under_dest dest) srcs))"
proof -
  have "cmd \<notin> set REMOTE_COPY_COMMANDS" using assms(2) by (auto simp: REMOTE_COPY_COMMANDS_def)
  then show ?thesis
    unfolding copy_paths_def
    by (subst copy_loop_plain [OF assms(1)]) (simp_all add: Let_def butlast_append)
qed

end
