(* ===== verification/ShellRemote.thy ===== *)
theory ShellRemote
  imports ShellArgs
begin

text \<open>
  \<open>proxy/auth/path_shell_remote.py\<close>: the simple commands of a text, the \<open>ssh\<close> among them as OpenSSH
  reads it, and the text without the words it sends to another host. A place in the text is the
  length of the text from there, so a word spans the places between two lengths. The exception of a
  form that does not close is \<open>None\<close>.
\<close>

section \<open>Words\<close>

definition OPERATOR_CHARS :: "char list" where "OPERATOR_CHARS = '';&|()'' @ [NL]"
definition BLANKS :: "char list" where "BLANKS = [CHR 32, TAB]"

record ssh_word =
  w_from :: nat
  w_to :: nat
  w_value :: string
  expands_here :: bool

text \<open>The inside of a double-quoted span: the value so far, whether it expands, the rest after the
  closing quote.\<close>

function read_quoted :: "string \<Rightarrow> bool \<Rightarrow> string \<Rightarrow> (string \<times> bool \<times> string) option" where
  "read_quoted out expands [] = None"
| "read_quoted out expands (d # ds) =
     (if d = DQUOTE then Some (out, expands, ds)
      else if d = BSLASH \<and> ds \<noteq> [] \<and> hd ds \<in> {DQUOTE, BSLASH, CHR ''$'', BTICK, NL} then
        read_quoted (if hd ds \<noteq> NL then out @ [hd ds] else out) expands (tl ds)
      else if starts_with (d # ds) ''$('' then
        (let e = subst_end (d # ds) in
         if snd e then read_quoted (out @ consumed (d # ds) (fst e)) True (fst e) else None)
      else if d = BTICK then
        (let e = backtick_end ds in
         if snd e then read_quoted (out @ consumed (d # ds) (fst e)) True (fst e) else None)
      else read_quoted (out @ [d]) expands ds)"
  by pat_completeness auto
termination
proof (relation "measure (\<lambda>(_, _, s). length s)", goal_cases)
  case (3 out expands d ds e)
  with subst_end_le [of "d # ds"] show ?case by simp
qed (auto simp: less_Suc_eq_le backtick_end_le)

declare read_quoted.simps [simp del]

lemma read_quoted_le: "read_quoted out x s = Some (v, y, r) \<Longrightarrow> length r \<le> length s"
proof (induction out x s rule: read_quoted.induct)
  case (2 out x d ds)
  have tails: "length r \<le> length (tl ds) \<Longrightarrow> length r \<le> Suc (length ds)"
    "length r \<le> length (fst (subst_end (d # ds))) \<Longrightarrow> length r \<le> Suc (length ds)"
    "length r \<le> length (fst (backtick_end ds)) \<Longrightarrow> length r \<le> Suc (length ds)"
    using subst_end_le [of "d # ds"] backtick_end_le [of ds] by auto
  show ?case using 2
    by (simp add: read_quoted.simps(2) Let_def le_SucI split: if_splits) (use tails in blast)+
qed (simp add: read_quoted.simps)

text \<open>A word ends here.\<close>

definition word_stops :: "string \<Rightarrow> bool" where
  "word_stops s =
     (case s of [] \<Rightarrow> True
      | c # cs \<Rightarrow> c \<in> set BLANKS \<or> c \<in> set OPERATOR_CHARS \<or>
          ((c = CHR ''<'' \<or> c = CHR ''>'') \<and> \<not> starts_with cs ''(''))"

function read_word :: "string \<Rightarrow> bool \<Rightarrow> string \<Rightarrow> (string \<times> bool \<times> string) option" where
  "read_word out expands [] = Some (out, expands, [])"
| "read_word out expands (c # cs) =
     (if word_stops (c # cs) then Some (out, expands, c # cs)
      else if opens_subst False (c # cs) then
        (let e = subst_end (c # cs) in
         if snd e then read_word (out @ consumed (c # cs) (fst e)) True (fst e) else None)
      else if c = BSLASH then
        (if starts_with cs [NL] then read_word out expands (drop 1 cs)
         else read_word (out @ take 1 cs) expands (drop 1 cs))
      else if c = SQUOTE then
        (if SQUOTE \<in> set cs then read_word (out @ before SQUOTE cs) expands (after SQUOTE cs) else None)
      else if c = DQUOTE then
        (case read_quoted out expands cs of
           None \<Rightarrow> None
         | Some (v, x, r) \<Rightarrow> read_word v x r)
      else if c = BTICK then
        (let e = backtick_end cs in
         if snd e then read_word (out @ consumed (c # cs) (fst e)) True (fst e) else None)
      else read_word (out @ [c]) expands cs)"
  by pat_completeness auto
termination
proof (relation "measure (\<lambda>(_, _, s). length s)", goal_cases)
  case (2 out expands c cs e)
  with subst_end_le [of "c # cs"] show ?case by simp
qed (auto simp: less_Suc_eq_le backtick_end_le after_le dest!: read_quoted_le)

declare read_word.simps [simp del]

lemma read_word_le: "read_word out x s = Some (v, y, r) \<Longrightarrow> length r \<le> length s"
proof (induction out x s rule: read_word.induct)
  case (2 out x c cs)
  have "length (fst (subst_end (c # cs))) \<le> length cs"
    "length (fst (backtick_end cs)) \<le> length cs" "length (after SQUOTE cs) \<le> length cs"
    using subst_end_le [of "c # cs"] backtick_end_le [of cs] after_le [of SQUOTE cs] by auto
  with 2 show ?case
    by (simp add: read_word.simps(2) Let_def split: if_splits option.splits prod.splits)
      (force dest!: read_quoted_le)+
qed (simp add: read_word.simps)

text \<open>A word that does not stop where it begins consumes something.\<close>

lemma read_word_progress:
  assumes "read_word out x (c # cs) = Some (v, y, r)" "\<not> word_stops (c # cs)"
  shows "length r \<le> length cs"
proof -
  have "length (fst (subst_end (c # cs))) \<le> length cs"
    "length (fst (backtick_end cs)) \<le> length cs" "length (after SQUOTE cs) \<le> length cs"
    using subst_end_le [of "c # cs"] backtick_end_le [of cs] after_le [of SQUOTE cs] by auto
  with assms show ?thesis
    by (simp add: read_word.simps(2) Let_def split: if_splits option.splits prod.splits)
      (auto dest!: read_word_le read_quoted_le)
qed

section \<open>Simple commands\<close>

definition REDIRECTIONS :: "string list" where
  "REDIRECTIONS = [''<<<'', ''<<-'', ''&>>'', ''<<'', ''<>'', ''<&'', ''>>'', ''>&'', ''>|'', ''&>'', ''<'', ''>'']"

text \<open>The rest after the redirection operator that starts here.\<close>

definition redirection_end :: "string \<Rightarrow> string" where
  "redirection_end s =
     (case find (starts_with s) REDIRECTIONS of Some op \<Rightarrow> drop (length op) s | None \<Rightarrow> drop 1 s)"

lemma redirection_end_le: "length (redirection_end (c # cs)) \<le> length cs"
proof -
  have "op \<noteq> []" if "find P REDIRECTIONS = Some op" for op P
    using that by (auto simp: REDIRECTIONS_def split: if_splits)
  then show ?thesis by (auto simp: redirection_end_def split: option.splits) (metis
        One_nat_def Suc_le_eq diff_le_mono2 length_greater_0_conv diff_Suc_1 length_Cons)
qed

text \<open>Where a redirection starts in the rest, its descriptor's digits passed over.\<close>

definition redirection_at :: "string \<Rightarrow> string option" where
  "redirection_at s =
     (let r = dropWhile is_digit s in
      if r \<noteq> [] \<and> (hd r = CHR ''<'' \<or> hd r = CHR ''>'') \<and> \<not> starts_with (tl r) ''('' then Some r
      else if starts_with s ''&>'' then Some s
      else None)"

text \<open>The word the redirection goes to is dropped with it.\<close>

definition skip_target :: "string \<Rightarrow> string option" where
  "skip_target s =
     (let r = dropWhile (\<lambda>c. c \<in> set BLANKS) s in
      if r \<noteq> [] \<and> hd r \<notin> set OPERATOR_CHARS then map_option (\<lambda>(_, _, q). q) (read_word [] False r)
      else Some r)"

lemma skip_target_le: "skip_target s = Some r \<Longrightarrow> length r \<le> length s"
  using length_dropWhile_le [of "\<lambda>c. c \<in> set BLANKS" s]
  by (auto simp: skip_target_def Let_def split: if_splits dest!: read_word_le)

lemma redirection_at_le: "redirection_at s = Some r \<Longrightarrow> length r \<le> length s \<and> r \<noteq> []"
  using length_dropWhile_le [of is_digit s]
  by (auto simp: redirection_at_def Let_def starts_with_def split: if_splits)

function commands_from :: "char option \<Rightarrow> ssh_word list \<Rightarrow> string \<Rightarrow> ssh_word list list option" where
  "commands_from prev ws [] = Some (if ws = [] then [] else [ws])"
| "commands_from prev ws (c # cs) =
     (if c \<in> set BLANKS then commands_from (Some c) ws cs
      else if c = BSLASH \<and> starts_with cs [NL] then commands_from (Some NL) ws (drop 1 cs)
      else if c = CHR ''#'' \<and> (case prev of None \<Rightarrow> True | Some p \<Rightarrow> p \<in> set (BLANKS @ OPERATOR_CHARS)) then
        commands_from (Some (last (before NL (c # cs)))) ws (dropWhile (\<lambda>x. x \<noteq> NL) cs)
      else (case redirection_at (c # cs) of
        Some r \<Rightarrow>
          (case skip_target (redirection_end r) of
             None \<Rightarrow> None
           | Some q \<Rightarrow> commands_from (Some (last (consumed (c # cs) q))) ws q)
      | None \<Rightarrow>
          if c \<in> set OPERATOR_CHARS then
            (if ws = [] then commands_from (Some c) [] cs
             else map_option ((#) ws) (commands_from (Some c) [] cs))
          else (case read_word [] False (c # cs) of
             None \<Rightarrow> None
           | Some (v, x, q) \<Rightarrow>
               commands_from (Some (last (consumed (c # cs) q)))
                 (ws @ [\<lparr>w_from = length (c # cs), w_to = length q, w_value = v, expands_here = x\<rparr>]) q)))"
  by pat_completeness auto
termination
proof (relation "measure (\<lambda>(_, _, s). length s)", goal_cases)
  case (7 prev ws c cs e v y x q)
  then have "\<not> word_stops (c # cs)"
    by (auto simp: word_stops_def redirection_at_def Let_def is_digit_def split: if_splits)
  with 7 read_word_progress [of "[]" False c cs v x q] show ?case by auto
next
  case (8 prev ws c cs r q)
  then obtain d ds where r: "r = d # ds" "length r \<le> length (c # cs)"
    by (cases r) (auto dest!: redirection_at_le)
  with 8 skip_target_le [of "redirection_end r" q] redirection_end_le [of d ds] show ?case by simp
qed (auto simp: less_Suc_eq_le length_dropWhile_le)

declare commands_from.simps [simp del]

definition simple_commands :: "string \<Rightarrow> ssh_word list list option" where
  "simple_commands s = commands_from None [] s"

section \<open>An ssh command line\<close>

definition VALUE_OPTS :: string where "VALUE_OPTS = ''BbcDEeFIiJLlmOopPQRSWw''"

definition SSH_PREFIX_WRAPPERS :: "string list" where
  "SSH_PREFIX_WRAPPERS = [''timeout'', ''nohup'', ''time'', ''stdbuf'', ''nice'', ''ionice'', ''setsid'',
     ''env'', ''exec'', ''command'', ''builtin'']"

definition SSH_LEADING_KEYWORDS :: "string list" where
  "SSH_LEADING_KEYWORDS = [''{'', ''!'', ''do'', ''then'', ''else'', ''elif'', ''if'', ''while'', ''until'']"

type_synonym ssh_option = "char \<times> string"

text \<open>The letters of one bundle: each with its value, and whether the last one takes the next word.\<close>

fun option_letters :: "string \<Rightarrow> ssh_option list \<times> bool" where
  "option_letters [] = ([], False)"
| "option_letters (c # cs) =
     (if c \<in> set VALUE_OPTS then ([(c, cs)], cs = [])
      else map_prod ((#) (c, [])) id (option_letters cs))"

text \<open>The options, the first word that is not one with the words after it, and whether \<open>--\<close> ended
  them.\<close>

function parse_options :: "ssh_word list \<Rightarrow> ssh_option list \<times> ssh_word list \<times> bool" where
  "parse_options [] = ([], [], False)"
| "parse_options (w # ws) =
     (if w_value w = ''--'' then ([], ws, True)
      else if \<not> starts_with (w_value w) ''-'' \<or> w_value w = ''-'' then ([], w # ws, False)
      else
       (let letters = option_letters (tl (w_value w)) in
        if snd letters then
          map_prod ((@) (butlast (fst letters) @
             [(fst (last (fst letters)), case ws of [] \<Rightarrow> [] | v # _ \<Rightarrow> w_value v)])) id
            (parse_options (drop 1 ws))
        else map_prod ((@) (fst letters)) id (parse_options ws)))"
  by pat_completeness auto
termination by (relation "measure length") auto

declare parse_options.simps [simp del]

text \<open>The words after a wrapper's options, durations and assignments; \<open>None\<close> when the wrapper only
  describes a command.\<close>

definition wrapper_argument :: "string \<Rightarrow> bool" where
  "wrapper_argument v =
     (let d = rev (dropWhile (\<lambda>c. c \<in> set ''smhd'') (rev (before (CHR ''.'') v @ after (CHR ''.'') v))) in
      starts_with v ''-'' \<or> is_assignment v \<or> (d \<noteq> [] \<and> list_all is_digit d))"

fun wrapper_arguments :: "string \<Rightarrow> ssh_word list \<Rightarrow> ssh_word list option" where
  "wrapper_arguments name [] = Some []"
| "wrapper_arguments name (w # ws) =
     (let v = w_value w in
      if name \<in> {''command'', ''builtin''} \<and> starts_with v ''-'' \<and> (CHR ''v'' \<in> set v \<or> CHR ''V'' \<in> set v)
        then None
      else if wrapper_argument v then wrapper_arguments name ws
      else Some (w # ws))"

lemma wrapper_arguments_le: "wrapper_arguments name ws = Some vs \<Longrightarrow> length vs \<le> length ws"
  by (induction name ws rule: wrapper_arguments.induct) (auto simp: Let_def le_SucI split: if_splits)

function strip_wrappers :: "ssh_word list \<Rightarrow> ssh_word list option" where
  "strip_wrappers [] = Some []"
| "strip_wrappers (w # ws) =
     (let name = after_last SLASH (w_value w) in
      if name \<in> set SSH_PREFIX_WRAPPERS then
        (case wrapper_arguments name ws of None \<Rightarrow> None | Some vs \<Rightarrow> strip_wrappers vs)
      else Some (w # ws))"
  by pat_completeness auto
termination
  by (relation "measure length") (auto simp: less_Suc_eq_le dest!: wrapper_arguments_le)

declare strip_wrappers.simps [simp del]

text \<open>The options, the destination and the remote words, when the command line runs ssh.\<close>

definition invocation ::
    "ssh_word list \<Rightarrow> (ssh_option list \<times> ssh_word option \<times> ssh_word list) option" where
  "invocation ws =
     (case strip_wrappers (dropWhile (\<lambda>w. is_assignment (w_value w))
             (dropWhile (\<lambda>w. w_value w \<in> set SSH_LEADING_KEYWORDS) ws)) of
        None \<Rightarrow> None
      | Some [] \<Rightarrow> None
      | Some (w # rest) \<Rightarrow>
          if after_last SLASH (w_value w) \<noteq> ''ssh'' then None
          else (case parse_options rest of
              (opts, [], _) \<Rightarrow> Some (opts, None, [])
            | (opts, dest # tail, ended) \<Rightarrow>
                if ended then Some (opts, Some dest, tail)
                else (case parse_options tail of
                        (opts', remote, _) \<Rightarrow> Some (opts @ opts', Some dest, remote))))"

definition ssh_calls :: "string \<Rightarrow> (ssh_option list \<times> ssh_word option \<times> ssh_word list) list" where
  "ssh_calls text =
     (case simple_commands text of None \<Rightarrow> [] | Some cmds \<Rightarrow> List.map_filter invocation cmds)"

definition words_sent :: "ssh_word list \<Rightarrow> ssh_word list" where
  "words_sent remote = filter (\<lambda>w. \<not> expands_here w) remote"

record ssh_call =
  call_options :: "ssh_option list"
  destination :: string
  remote :: "string list"

definition ssh_call_of :: "string \<Rightarrow> ssh_call option" where
  "ssh_call_of text =
     (case ssh_calls text of
        [] \<Rightarrow> None
      | (opts, dest, words) # _ \<Rightarrow>
          Some \<lparr>call_options = opts, destination = (case dest of None \<Rightarrow> [] | Some w \<Rightarrow> w_value w),
                remote = map w_value (words_sent words)\<rparr>)"

text \<open>An \<open>-o\<close> value: the keyword in lower case, and its argument.\<close>

definition ssh_keyword :: "string \<Rightarrow> string \<times> string" where
  "ssh_keyword value =
     (let s = lstrip value; keyword = takeWhile is_alnum s;
          r = lstrip (dropWhile is_alnum s);
          arg = strip (if starts_with r ''='' then tl r else r)
      in (lower keyword,
          if length arg \<ge> 2 \<and> hd arg = DQUOTE \<and> last arg = DQUOTE then butlast (tl arg) else arg))"

section \<open>The two views\<close>

fun blank_places :: "(nat \<times> nat) list \<Rightarrow> string \<Rightarrow> string" where
  "blank_places spans [] = []"
| "blank_places spans (c # cs) =
     (if c \<noteq> NL \<and> list_ex (\<lambda>(a, b). b < length (c # cs) \<and> length (c # cs) \<le> a) spans then CHR 32 else c)
       # blank_places spans cs"

text \<open>What of the text runs on this host.\<close>

definition local_view :: "string \<Rightarrow> string" where
  "local_view text =
     blank_places (concat (map (\<lambda>(_, _, words). map (\<lambda>w. (w_from w, w_to w)) (words_sent words)) (ssh_calls text)))
       text"

text \<open>What the first ssh of the text runs on the other host, when it sends a command.\<close>

definition remote_command :: "string \<Rightarrow> string option" where
  "remote_command text =
     (case ssh_call_of text of
        None \<Rightarrow> None
      | Some call \<Rightarrow>
          (let command = join_on '' '' (remote call);
               given = map snd (filter (\<lambda>ka. fst ka = ''remotecommand'')
                 (map (\<lambda>v. ssh_keyword (snd v)) (filter (\<lambda>v. fst v = CHR ''o'') (call_options call))));
               chosen = (if command = [] then first_or_empty given else command)
           in if chosen = [] then None else Some chosen))"

section \<open>Facts\<close>

lemma length_local_view [simp]: "length (local_view text) = length text"
proof -
  have "length (blank_places spans s) = length s" for spans s by (induction s) auto
  then show ?thesis by (simp add: local_view_def)
qed

lemma blank_places_none [simp]: "blank_places [] s = s"
  by (induction s) auto

text \<open>A text that runs no ssh is local as a whole.\<close>

lemma local_view_no_ssh: "ssh_calls text = [] \<Longrightarrow> local_view text = text"
  by (simp add: local_view_def)

end
