(* ===== verification/ShellFloor.thy ===== *)
theory ShellFloor
  imports ShellPaths ShellRemote PathPolicy
begin

text \<open>
  \<open>proxy/auth/path_shell.py\<close>, the command floor: the catastrophe patterns, which refuse for every role
  on every host, and the host-state patterns, which refuse where the command runs on a host that does
  not let them ask. A compiled pattern is a \<open>regex\<close>; the two matchers with a \<open>search\<close> of their own
  (\<open>RootDelete\<close>, \<open>_TargetWrite\<close>) are functions on the text.
\<close>

section \<open>Write targets\<close>

definition ENDS_THE_HOST_REASON :: string where
  "ENDS_THE_HOST_REASON = ''Write to /proc/sysrq-trigger or /sys/power/state blocked''"

definition PROC_FD_RE :: regex where
  "PROC_FD_RE =
     seqs [AtStart, lit ''/proc/'', alts [lit ''self'', lit ''thread-self'', plus (Chr is_digit)],
       lit ''/fd/'', plus (Chr is_digit), AtEnd]"

definition plain_text :: "string \<Rightarrow> string" where
  "plain_text s = filter (\<lambda>c. c \<noteq> SQUOTE \<and> c \<noteq> DQUOTE \<and> c \<noteq> BSLASH) s"

definition normalised :: "string \<Rightarrow> string" where
  "normalised path =
     (let p = plain_text path in
      if \<not> starts_with p ''/'' then p else normpath (''/'' @ lstrip_char SLASH p))"

definition ends_the_host :: "string \<Rightarrow> bool" where
  "ends_the_host path =
     (let p = normalised path in
      p \<in> set [''/proc/sysrq-trigger'', ''sysrq-trigger'', ''/sys/power/state''] \<or>
      (starts_with p ''/proc/'' \<and>
       (ends_with p ''/root/proc/sysrq-trigger'' \<or> ends_with p ''/root/sys/power/state'')))"

definition host_state_path :: "string \<Rightarrow> bool" where
  "host_state_path path =
     (let p = normalised path in
      (p \<in> set [''/proc'', ''/sys''] \<or> starts_with p ''/proc/'' \<or> starts_with p ''/sys/'') \<and>
      \<not> re_match PROC_FD_RE p)"

definition PSEUDO_PATHS :: "string list" where
  "PSEUDO_PATHS = [''/dev/null'', ''/dev/stdin'', ''/dev/stdout'', ''/dev/stderr'']"

definition PSEUDO_PREFIXES :: "string list" where
  "PSEUDO_PREFIXES = [''/dev/fd/'', ''/dev/tcp/'', ''/dev/udp/'']"

definition is_pseudo_path :: "string \<Rightarrow> bool" where
  "is_pseudo_path rp = (rp \<in> set PSEUDO_PATHS \<or> list_ex (starts_with rp) PSEUDO_PREFIXES)"

definition bash_denied :: "string \<Rightarrow> path_decision" where
  "bash_denied why = deny (''Bash denied: '' @ why)"

text \<open>The denial and whether a target that may be written makes the call destructive.\<close>

fun host_state_write_floor :: "string list \<Rightarrow> bool \<Rightarrow> path_decision option \<times> bool" where
  "host_state_write_floor [] asks = (None, False)"
| "host_state_write_floor (rp # rps) asks =
     (if rp = [] \<or> is_pseudo_path rp \<or> has_placeholder rp then host_state_write_floor rps asks
      else if ends_the_host rp then (Some (bash_denied ENDS_THE_HOST_REASON), False)
      else if host_state_path rp then
        (if \<not> asks then
           (Some (bash_denied (''Write to '' @ (if starts_with (normalised rp) ''/proc'' then ''/proc'' else ''/sys'')
              @ '' blocked'')), False)
         else (case host_state_write_floor rps asks of (d, w) \<Rightarrow> (d, if d = None then True else w)))
      else host_state_write_floor rps asks)"

section \<open>The write of a target in the raw text\<close>

definition target_char :: "char \<Rightarrow> bool" where
  "target_char c = (\<not> is_space c \<and> c \<notin> set ''<>;&|()`'')"

definition TARGET_WORD :: regex where
  "TARGET_WORD = Seq (Chr target_char) (Upto 1023 (Chr target_char))"

definition OPERANDS :: regex where
  "OPERANDS =
     (let operand = seqs [plus (Chr is_blank), Chr (\<lambda>c. target_char c \<and> c \<noteq> CHR ''#''),
                          Upto 1023 (Chr target_char)]
      in Seq operand (Upto 32 operand))"

definition groups_after :: "regex \<Rightarrow> regex \<Rightarrow> string \<Rightarrow> string list" where
  "groups_after pre grp text = find_groups pre grp Eps (None, text)"

definition REDIRECT_PRE :: regex where
  "REDIRECT_PRE = seqs [lit ''>'', opt (one_of ''>|&''), Star (Chr is_blank)]"

definition DD_OF_PRE :: regex where "DD_OF_PRE = Seq WordB (lit ''of='')"

definition TEE_PRE :: regex where "TEE_PRE = seqs [WordB, lit ''tee'', WordB]"

definition COPY_PRE :: regex where
  "COPY_PRE = seqs [WordB, alts (map lit [''cp'', ''mv'', ''install'', ''ln'', ''rsync'']), WordB]"

definition target_write :: "string \<Rightarrow> bool" where
  "target_write text =
     ((contains (plain_text text) ''sysrq-trigger'' \<or> contains (plain_text text) ''power'') \<and>
      (list_ex ends_the_host (groups_after REDIRECT_PRE TARGET_WORD text) \<or>
       list_ex ends_the_host (groups_after DD_OF_PRE TARGET_WORD text) \<or>
       list_ex (\<lambda>g. list_ex ends_the_host (split_words g)) (groups_after TEE_PRE OPERANDS text) \<or>
       list_ex (\<lambda>g. ends_the_host (last (split_words g))) (groups_after COPY_PRE OPERANDS text)))"

section \<open>The patterns\<close>

definition FORK_BOMB :: regex where
  "FORK_BOMB = seqs [lit '':()'', Star space, lit ''{'', Star not_nl, lit ''|'', Star not_nl, lit ''}'']"

definition DEVICE_WRITE :: regex where
  "DEVICE_WRITE =
     (let a_z = Chr (\<lambda>c. is_letter c \<and> lower_char c = c) in
      seqs [lit ''>'', Star space, lit ''/dev/'',
        alts [Seq (lit ''sd'') a_z, lit ''nvme'', Seq (lit ''vd'') a_z, Seq (lit ''xvd'') a_z]])"

definition DD_DEVICE :: regex where
  "DD_DEVICE =
     seqs [WordB, lit ''dd'', WordB, Star not_nl, WordB, lit ''of'', Star space, lit ''='', Star space, lit ''/dev/'']"

definition CAT_SHADOW :: regex where
  "CAT_SHADOW =
     seqs [WordB, lit ''cat'', WordB, Star not_nl, NotBehind (\<lambda>c. is_word c \<or> c = SLASH),
       lit ''/etc/shadow'', WordB]"

definition CATASTROPHE_PATTERNS :: "((string \<Rightarrow> bool) \<times> string) list" where
  "CATASTROPHE_PATTERNS =
     [(root_delete, ''Recursive force-delete of / or ~ is blocked''),
      (re_search FORK_BOMB, ''Fork bomb detected''),
      (re_search DEVICE_WRITE, ''Direct device write blocked''),
      (re_search DD_DEVICE, ''dd to device blocked''),
      (target_write, ENDS_THE_HOST_REASON),
      (re_search CAT_SHADOW, ''Reading /etc/shadow blocked'')]"

definition HOST_STATE_WRITE :: "string \<Rightarrow> regex" where
  "HOST_STATE_WRITE dir = seqs [lit ''>'', opt (one_of ''|&''), Star space, lit dir]"

definition KERNEL_MODULES :: regex where
  "KERNEL_MODULES = seqs [WordB, alts (map lit [''insmod'', ''modprobe'', ''rmmod'']), WordB]"

definition HOST_STATE_PATTERNS :: "((string \<Rightarrow> bool) \<times> string) list" where
  "HOST_STATE_PATTERNS =
     [(re_search (HOST_STATE_WRITE ''/proc/''), ''Write to /proc blocked''),
      (re_search (HOST_STATE_WRITE ''/sys/''), ''Write to /sys blocked''),
      (re_search KERNEL_MODULES, ''Kernel module operations blocked'')]"

definition DANGEROUS_PATTERNS :: "((string \<Rightarrow> bool) \<times> string) list" where
  "DANGEROUS_PATTERNS = CATASTROPHE_PATTERNS @ HOST_STATE_PATTERNS"

definition NUL :: char where "NUL = CHR 0x00"

definition NUL_REASON :: string where "NUL_REASON = ''a command holding a NUL byte is refused''"

text \<open>The reason of the first pattern that matches.\<close>

fun first_match :: "((string \<Rightarrow> bool) \<times> string) list \<Rightarrow> string \<Rightarrow> string option" where
  "first_match [] text = None"
| "first_match ((p, why) # ps) text = (if p text then Some why else first_match ps text)"

section \<open>The floor\<close>

definition host_state_asks :: "security_context \<Rightarrow> bool" where
  "host_state_asks ctx =
     (is_remote (sc_placement ctx) \<and> allow_full_fs (sc_placement ctx) \<and> can_edit (sc_role ctx))"

definition catastrophe_seen :: "string \<Rightarrow> bool \<Rightarrow> string option" where
  "catastrophe_seen text words =
     (case first_match CATASTROPHE_PATTERNS text of
        Some why \<Rightarrow> Some why
      | None \<Rightarrow>
          if words \<and> has_shell_quoting text then
            (case words_view text of
               Some view \<Rightarrow> if view \<noteq> text then first_match CATASTROPHE_PATTERNS view else None
             | None \<Rightarrow> None)
          else None)"

definition floor_denial :: "bool \<Rightarrow> bool \<Rightarrow> bool \<Rightarrow> string \<Rightarrow> path_decision option" where
  "floor_denial remote_host host_asks words text =
     (case catastrophe_seen text words of
        Some why \<Rightarrow> Some (bash_denied why)
      | None \<Rightarrow>
          if remote_host \<or> host_asks then None
          else map_option bash_denied (first_match HOST_STATE_PATTERNS (local_view text)))"

definition host_state_seen :: "string \<Rightarrow> bool" where
  "host_state_seen text = (first_match HOST_STATE_PATTERNS (local_view text) \<noteq> None)"

section \<open>Facts\<close>

lemma first_match_None: "first_match ps t = None \<longleftrightarrow> \<not> list_ex (\<lambda>(p, _). p t) ps"
  by (induction ps t rule: first_match.induct) auto

lemma not_allowed [simp]: "\<not> allowed (deny why)" "\<not> allowed (bash_denied why)"
  by (simp_all add: bash_denied_def deny_def)

definition catastrophic :: "string \<Rightarrow> bool" where
  "catastrophic text = list_ex (\<lambda>(p, _). p text) CATASTROPHE_PATTERNS"

text \<open>The readings of one command the floor judges: as written and as the shell reads its words.\<close>

definition readings :: "bool \<Rightarrow> string \<Rightarrow> string list" where
  "readings words text =
     text # (case words_view text of
               Some view \<Rightarrow> if words \<and> has_shell_quoting text then [view] else []
             | None \<Rightarrow> [])"

lemma catastrophic_iff: "catastrophic t \<longleftrightarrow> first_match CATASTROPHE_PATTERNS t \<noteq> None"
  by (simp add: catastrophic_def first_match_None)

lemma catastrophe_seen_None:
  "catastrophe_seen text words = None \<longleftrightarrow> (\<forall>t \<in> set (readings words text). \<not> catastrophic t)"
proof (cases "first_match CATASTROPHE_PATTERNS text")
  case None
  then show ?thesis
    by (cases "words_view text") (auto simp: catastrophe_seen_def readings_def catastrophic_iff)
next
  case (Some why)
  then show ?thesis by (simp add: catastrophe_seen_def readings_def catastrophic_iff)
qed

lemma floor_denial_None:
  "floor_denial rh asks words text = None \<longleftrightarrow>
     (\<forall>t \<in> set (readings words text). \<not> catastrophic t) \<and> (rh \<or> asks \<or> \<not> host_state_seen text)"
  unfolding catastrophe_seen_None [symmetric]
  by (cases "catastrophe_seen text words") (simp_all add: floor_denial_def host_state_seen_def)

lemma floor_denial_denies: "floor_denial rh asks words text = Some d \<Longrightarrow> \<not> allowed d"
  by (auto simp: floor_denial_def split: option.splits if_splits)

lemma host_state_write_denies: "host_state_write_floor rps asks = (Some d, w) \<Longrightarrow> \<not> allowed d"
  by (induction rps asks rule: host_state_write_floor.induct) (auto split: if_splits prod.splits)

text \<open>A target that ends the host is refused whatever the host lets ask.\<close>

lemma host_state_write_ends:
  assumes "rp \<in> set rps" "ends_the_host rp" "rp \<noteq> []" "\<not> is_pseudo_path rp" "\<not> has_placeholder rp"
  shows "fst (host_state_write_floor rps asks) \<noteq> None"
  using assms
proof (induction rps)
  case (Cons r rps)
  then show ?case by (cases "r = rp"; cases "host_state_write_floor rps asks") auto
qed simp

text \<open>Where the host does not let them ask, no target under \<open>/proc\<close> or \<open>/sys\<close> passes.\<close>

lemma host_state_write_blocks:
  assumes "rp \<in> set rps" "host_state_path rp" "rp \<noteq> []" "\<not> is_pseudo_path rp" "\<not> has_placeholder rp"
  shows "fst (host_state_write_floor rps False) \<noteq> None"
  using assms
proof (induction rps)
  case (Cons r rps)
  then show ?case by (cases "r = rp") auto
qed simp

end
