(* ===== verification/PyNet.thy ===== *)
theory PyNet
  imports ShellWords "HOL-Library.Word"
begin

text \<open>
  Python's \<open>ipaddress\<close> and \<open>urllib.parse\<close>, as far as the gate uses them: an address literal with its
  canonical text and the special-purpose ranges, and the host, user and port of a URL. A
  \<open>ValueError\<close> is \<open>None\<close>. An address is a word of its width; a network is its base and its prefix
  length.
\<close>

unbundle bit_operations_syntax

section \<open>Addresses\<close>

datatype ip = V4 "32 word" | V6 "128 word" "string option"

text \<open>\<open>int(s)\<close> of decimal digits.\<close>

definition dec_value :: "string \<Rightarrow> nat" where
  "dec_value ds = foldl (\<lambda>n c. 10 * n + (of_char c - 48)) 0 ds"

definition parse_octet :: "string \<Rightarrow> nat option" where
  "parse_octet s =
     (if s = [] \<or> \<not> list_all is_digit s \<or> length s > 3 then None
      else if s \<noteq> ''0'' \<and> hd s = CHR ''0'' then None
      else if dec_value s > 255 then None
      else Some (dec_value s))"

fun all_some :: "'a option list \<Rightarrow> 'a list option" where
  "all_some [] = Some []"
| "all_some (None # xs) = None"
| "all_some (Some x # xs) = map_option ((#) x) (all_some xs)"

definition parse_v4 :: "string \<Rightarrow> (32 word) option" where
  "parse_v4 s =
     (if length (split_on (CHR ''.'') s) \<noteq> 4 then None
      else map_option (\<lambda>os. word_of_nat (foldl (\<lambda>n d. 256 * n + d) 0 os))
             (all_some (map parse_octet (split_on (CHR ''.'') s))))"

definition parse_hextet :: "string \<Rightarrow> nat option" where
  "parse_hextet s =
     (if s = [] \<or> \<not> list_all (\<lambda>c. hex_value c \<noteq> None) s \<or> length s > 4 then None
      else Some (number_in 16 s))"

fun hex_str :: "nat \<Rightarrow> string" where
  "hex_str n = (if n < 16 then [''0123456789abcdef'' ! n]
     else hex_str (n div 16) @ [''0123456789abcdef'' ! (n mod 16)])"

declare hex_str.simps [simp del]

text \<open>The parts between the colons, a dotted last part written as two.\<close>

definition v6_parts :: "string \<Rightarrow> string list option" where
  "v6_parts s =
     (let parts = split_on (CHR '':'') s in
      if length parts < 3 then None
      else if CHR ''.'' \<in> set (last parts) then
        map_option (\<lambda>w. butlast parts @ [hex_str (unat (drop_bit 16 w)), hex_str (unat (w AND 65535))])
          (parse_v4 (last parts))
      else Some parts)"

definition hextets_of :: "string list \<Rightarrow> nat list option" where
  "hextets_of parts =
     (let n = length parts; skips = filter (\<lambda>i. parts ! i = []) [1 ..< n - 1] in
      if n > 9 then None
      else (case skips of
              [] \<Rightarrow> if n \<noteq> 8 \<or> hd parts = [] \<or> last parts = [] then None
                    else all_some (map parse_hextet parts)
            | [i] \<Rightarrow>
                (let hi = (if hd parts = [] then i - 1 else i);
                     lo = (if last parts = [] then n - i - 2 else n - i - 1)
                 in if (hd parts = [] \<and> hi \<noteq> 0) \<or> (last parts = [] \<and> lo \<noteq> 0) \<or> hi + lo > 7 then None
                    else (case (all_some (map parse_hextet (take hi parts)),
                                all_some (map parse_hextet (drop (n - lo) parts))) of
                            (Some a, Some b) \<Rightarrow> Some (a @ replicate (8 - (hi + lo)) 0 @ b)
                          | _ \<Rightarrow> None))
            | _ \<Rightarrow> None))"

definition parse_v6 :: "string \<Rightarrow> (128 word) option" where
  "parse_v6 s =
     (case v6_parts s of None \<Rightarrow> None
      | Some parts \<Rightarrow> map_option (\<lambda>hs. word_of_nat (foldl (\<lambda>n h. 65536 * n + h) 0 hs)) (hextets_of parts))"

text \<open>\<open>ipaddress.ip_address\<close>.\<close>

definition ip_address :: "string \<Rightarrow> ip option" where
  "ip_address s =
     (let addr = before (CHR ''%'') s; scope = after (CHR ''%'') s in
      if SLASH \<in> set s then None
      else (case parse_v4 s of
              Some w \<Rightarrow> Some (V4 w)
            | None \<Rightarrow>
                if CHR ''%'' \<notin> set s then map_option (\<lambda>w. V6 w None) (parse_v6 s)
                else if scope = [] \<or> CHR ''%'' \<in> set scope then None
                else map_option (\<lambda>w. V6 w (Some scope)) (parse_v6 addr)))"

section \<open>The canonical text\<close>

definition dotted :: "32 word \<Rightarrow> string" where
  "dotted w = join_on ''.'' (map (\<lambda>k. nat_str (unat (drop_bit k w AND 255))) [24, 16, 8, 0])"

definition hextets :: "128 word \<Rightarrow> nat list" where
  "hextets w = map (\<lambda>k. unat (drop_bit k w AND 65535)) [112, 96, 80, 64, 48, 32, 16, 0]"

text \<open>The first longest run of zeros: its start and its length.\<close>

fun best_run :: "nat \<Rightarrow> nat \<Rightarrow> nat \<times> nat \<Rightarrow> nat list \<Rightarrow> nat \<times> nat" where
  "best_run i len best [] = best"
| "best_run i len best (h # hs) =
     (if h = 0
      then best_run (i + 1) (len + 1) (if len + 1 > snd best then (i - len, len + 1) else best) hs
      else best_run (i + 1) 0 best hs)"

definition compress_hextets :: "nat list \<Rightarrow> string list" where
  "compress_hextets hs =
     (let best = best_run 0 0 (0, 0) hs; start = fst best; stop = fst best + snd best; ws = map hex_str hs in
      if snd best > 1 then
        (if start = 0 then [[]] else []) @ take start ws @ [[]] @ drop stop ws
          @ (if stop = length hs then [[]] else [])
      else ws)"

definition compressed :: "ip \<Rightarrow> string" where
  "compressed a =
     (case a of
        V4 w \<Rightarrow> dotted w
      | V6 w scope \<Rightarrow> join_on '':'' (compress_hextets (hextets w)) @
          (case scope of None \<Rightarrow> [] | Some s \<Rightarrow> CHR ''%'' # s))"

section \<open>Special-purpose ranges\<close>

definition in_net :: "'a::len word \<Rightarrow> 'a word \<times> nat \<Rightarrow> bool" where
  "in_net w net = (drop_bit (LENGTH('a) - snd net) w = drop_bit (LENGTH('a) - snd net) (fst net))"

definition quad :: "nat \<Rightarrow> nat \<Rightarrow> nat \<Rightarrow> nat \<Rightarrow> 32 word" where
  "quad a b c d = word_of_nat (((a * 256 + b) * 256 + c) * 256 + d)"

definition v4_private :: "(32 word \<times> nat) list" where
  "v4_private =
    [(quad 0 0 0 0, 8), (quad 10 0 0 0, 8), (quad 127 0 0 0, 8), (quad 169 254 0 0, 16),
     (quad 172 16 0 0, 12), (quad 192 0 0 0, 24), (quad 192 0 0 170, 31), (quad 192 0 2 0, 24),
     (quad 192 168 0 0, 16), (quad 198 18 0 0, 15), (quad 198 51 100 0, 24), (quad 203 0 113 0, 24),
     (quad 240 0 0 0, 4), (quad 255 255 255 255, 32)]"

definition v4_private_exceptions :: "(32 word \<times> nat) list" where
  "v4_private_exceptions = [(quad 192 0 0 9, 32), (quad 192 0 0 10, 32)]"

definition v4_is_private :: "32 word \<Rightarrow> bool" where
  "v4_is_private w =
     (list_ex (in_net w) v4_private \<and> \<not> list_ex (in_net w) v4_private_exceptions)"

text \<open>A network written by its first hextets.\<close>

definition v6_base :: "nat list \<Rightarrow> 128 word" where
  "v6_base hs = word_of_nat (foldl (\<lambda>n h. 65536 * n + h) 0 (hs @ replicate (8 - length hs) 0))"

definition v6_private :: "(128 word \<times> nat) list" where
  "v6_private =
    [(v6_base [0, 0, 0, 0, 0, 0, 0, 1], 128), (v6_base [], 128), (v6_base [0, 0, 0, 0, 0, 0xffff], 96),
     (v6_base [0x64, 0xff9b, 1], 48), (v6_base [0x100], 64), (v6_base [0x2001], 23),
     (v6_base [0x2001, 0xdb8], 32), (v6_base [0x2002], 16), (v6_base [0xfc00], 7), (v6_base [0xfe80], 10)]"

definition v6_private_exceptions :: "(128 word \<times> nat) list" where
  "v6_private_exceptions =
    [(v6_base [0x2001, 1, 0, 0, 0, 0, 0, 1], 128), (v6_base [0x2001, 1, 0, 0, 0, 0, 0, 2], 128),
     (v6_base [0x2001, 3], 32), (v6_base [0x2001, 4, 0x112], 48), (v6_base [0x2001, 0x20], 28),
     (v6_base [0x2001, 0x30], 28)]"

definition v6_reserved :: "(128 word \<times> nat) list" where
  "v6_reserved =
    [(v6_base [], 8), (v6_base [0x100], 8), (v6_base [0x200], 7), (v6_base [0x400], 6), (v6_base [0x800], 5),
     (v6_base [0x1000], 4), (v6_base [0x4000], 3), (v6_base [0x6000], 3), (v6_base [0x8000], 3),
     (v6_base [0xa000], 3), (v6_base [0xc000], 3), (v6_base [0xe000], 4), (v6_base [0xf000], 5),
     (v6_base [0xf800], 6), (v6_base [0xfe00], 9)]"

text \<open>\<open>is_private or is_loopback or is_link_local or is_reserved\<close>.\<close>

definition is_special :: "ip \<Rightarrow> bool" where
  "is_special a =
     (case a of
        V4 w \<Rightarrow> v4_is_private w \<or> in_net w (quad 127 0 0 0, 8) \<or> in_net w (quad 169 254 0 0, 16) \<or>
                in_net w (quad 240 0 0 0, 4)
      | V6 w _ \<Rightarrow>
          (if drop_bit 32 w = 0xffff then v4_is_private (ucast w)
           else list_ex (in_net w) v6_private \<and> \<not> list_ex (in_net w) v6_private_exceptions) \<or>
          w = 1 \<or> in_net w (v6_base [0xfe80], 10) \<or> list_ex (in_net w) v6_reserved)"

section \<open>URLs\<close>

definition rpartition :: "char \<Rightarrow> string \<Rightarrow> (string \<times> string) option" where
  "rpartition c s =
     (if c \<in> set s then Some (join_on [c] (butlast (split_on c s)), last (split_on c s)) else None)"

text \<open>The bracketed host is an IPv6 or a later address.\<close>

definition bracketed_ok :: "string \<Rightarrow> bool" where
  "bracketed_ok h =
     (if starts_with h ''v'' then
        (let d = dropWhile (\<lambda>c. hex_value c \<noteq> None) (tl h) in
         d \<noteq> tl h \<and> starts_with d ''.'' \<and> length d > 1)
      else (case ip_address h of Some (V6 _ _) \<Rightarrow> True | _ \<Rightarrow> False))"

definition scheme_char :: "char \<Rightarrow> bool" where
  "scheme_char c = (is_alnum c \<or> c \<in> set ''+-.'')"

text \<open>The network location of \<open>urlsplit\<close>.\<close>

definition url_netloc :: "string \<Rightarrow> string option" where
  "url_netloc raw =
     (let s = filter (\<lambda>c. c \<notin> {TAB, CR, NL}) (dropWhile (\<lambda>c. (of_char c :: nat) \<le> 32) raw);
          scheme = before (CHR '':'') s;
          rest = (if CHR '':'' \<in> set s \<and> scheme \<noteq> [] \<and> is_letter (hd s) \<and> list_all scheme_char scheme
                  then after (CHR '':'') s else s);
          netloc = (if starts_with rest ''//''
                    then takeWhile (\<lambda>c. c \<notin> set ''/?#'') (drop 2 rest) else [])
      in if (CHR ''['' \<in> set netloc) \<noteq> (CHR '']'' \<in> set netloc) then None
         else if CHR ''['' \<in> set netloc \<and> \<not> bracketed_ok (before (CHR '']'') (after (CHR ''['') netloc)) then None
         else Some netloc)"

definition url_hostinfo :: "string \<Rightarrow> string" where
  "url_hostinfo netloc = (case rpartition (CHR ''@'') netloc of None \<Rightarrow> netloc | Some (_, h) \<Rightarrow> h)"

definition url_username :: "string \<Rightarrow> string option" where
  "url_username netloc = map_option (\<lambda>(u, _). before (CHR '':'') u) (rpartition (CHR ''@'') netloc)"

definition url_hostname :: "string \<Rightarrow> string" where
  "url_hostname netloc =
     (let info = url_hostinfo netloc;
          h = (if CHR ''['' \<in> set info then before (CHR '']'') (after (CHR ''['') info)
               else before (CHR '':'') info)
      in lower (before (CHR ''%'') h) @ dropWhile (\<lambda>c. c \<noteq> CHR ''%'') h)"

text \<open>\<open>parts.port\<close> raises on a port that is no number of 16 bits.\<close>

definition url_port_ok :: "string \<Rightarrow> bool" where
  "url_port_ok netloc =
     (let info = url_hostinfo netloc;
          p = (if CHR ''['' \<in> set info then after (CHR '':'') (after (CHR '']'') (after (CHR ''['') info))
               else after (CHR '':'') info)
      in p = [] \<or> (list_all is_digit p \<and> dec_value p \<le> 65535))"

end
