(* ===== verification/ShellHosts.thy ===== *)
theory ShellHosts
  imports ShellRemote PyNet PathPolicy "HOL-Library.List_Lexorder" "HOL-Library.Char_ord"
begin

text \<open>
  \<open>proxy/auth/path_shell_hosts.py\<close>: the one opening of the admin tier on the local sandbox. A manager
  or an editor runs \<open>ssh\<close>, \<open>scp\<close>, \<open>sftp\<close> and \<open>rsync\<close> to the hosts an admin attached to the agent, as
  their user; \<open>local_refusal\<close> reads the command and answers the refusal or the local files its
  options read and write.
\<close>

section \<open>The tables\<close>

definition SSH_COMMANDS :: "string list" where "SSH_COMMANDS = [''ssh'', ''scp'', ''sftp'', ''rsync'']"
definition SSH_FLAGS :: string where "SSH_FLAGS = ''46aCfGkMNnqsTtVvxy''"
definition SSH_VALUES :: string where "SSH_VALUES = ''cemPpQ''"
definition SSH_FILE_LETTERS :: string where "SSH_FILE_LETTERS = ''ES''"
definition SSH_CONTROL :: "string list" where "SSH_CONTROL = [''check'', ''exit'', ''stop'']"

definition SSH_KEYWORDS :: "string list" where
  "SSH_KEYWORDS =
    [''addressfamily'', ''batchmode'', ''casignaturealgorithms'', ''checkhostip'', ''ciphers'',
     ''clearallforwardings'', ''compression'', ''connectionattempts'', ''connecttimeout'',
     ''controlmaster'', ''controlpersist'', ''escapechar'', ''exitonforwardfailure'', ''fingerprinthash'',
     ''forkafterauthentication'', ''gssapiauthentication'', ''hashknownhosts'', ''hostbasedacceptedalgorithms'',
     ''hostbasedauthentication'', ''hostkeyalgorithms'', ''hostkeyalias'', ''identitiesonly'',
     ''ipqos'', ''kbdinteractiveauthentication'', ''kbdinteractivedevices'', ''kexalgorithms'',
     ''loglevel'', ''logverbose'', ''macs'', ''nohostauthenticationforlocalhost'',
     ''numberofpasswordprompts'', ''obscurekeystroketiming'', ''passwordauthentication'', ''port'',
     ''preferredauthentications'', ''pubkeyacceptedalgorithms'', ''pubkeyacceptedkeytypes'',
     ''pubkeyauthentication'', ''rekeylimit'', ''remotecommand'', ''requesttty'', ''requiredrsasize'',
     ''sendenv'', ''serveralivecountmax'', ''serveraliveinterval'', ''sessiontype'', ''setenv'',
     ''stdinnull'', ''stricthostkeychecking'', ''tag'', ''tcpkeepalive'', ''updatehostkeys'',
     ''verifyhostkeydns'', ''visualhostkey'']"

definition READ_KEYWORDS :: "string list" where "READ_KEYWORDS = [''identityfile'', ''globalknownhostsfile'']"
definition WRITE_KEYWORD :: string where "WRITE_KEYWORD = ''userknownhostsfile''"
definition SOCKET_KEYWORD :: string where "SOCKET_KEYWORD = ''controlpath''"
definition NO_FILE :: "string list" where
  "NO_FILE = [''none'', ''/dev/null'', ''/dev/stdout'', ''/dev/stderr'']"
definition SCP_FLAGS :: string where "SCP_FLAGS = ''346BCOpqRrsTv''"
definition SCP_VALUES :: string where "SCP_VALUES = ''clPX''"
definition SFTP_FLAGS :: string where "SFTP_FLAGS = ''46aCfNpqrv''"
definition SFTP_VALUES :: string where "SFTP_VALUES = ''BclPRsX''"
definition SFTP_VALUE_LETTERS :: string where "SFTP_VALUE_LETTERS = ''BbcDFiJloPRSsX''"

section \<open>Hosts\<close>

definition normal_host :: "string \<Rightarrow> string" where
  "normal_host text =
     (let a = lower (strip text);
          b = (if starts_with a ''['' \<and> ends_with a '']'' then butlast (tl a) else a);
          c = (if ends_with b ''.'' then butlast b else b)
      in case ip_address c of Some a \<Rightarrow> compressed a | None \<Rightarrow> c)"

definition attached_host :: "string \<Rightarrow> string \<Rightarrow> string \<times> string" where
  "attached_host host user = (normal_host host, strip user)"

definition takes_attached_hosts :: "security_context \<Rightarrow> bool" where
  "takes_attached_hosts ctx = (\<not> is_external_ctx ctx \<and> \<not> sc_read_only ctx \<and> can_edit (sc_role ctx))"

record reach =
  refusal :: "string option"
  reach_reads :: "string list"
  reach_writes :: "string list"

record reading =
  r_form :: string
  r_unreadable :: string
  r_daemon :: string
  r_shell :: string
  r_no_host :: bool
  r_users :: "string list"
  r_targets :: "(string \<times> string) list"
  r_reads :: "string list"
  r_writes :: "string list"

definition NO_READING :: reading where
  "NO_READING = \<lparr>r_form = [], r_unreadable = [], r_daemon = [], r_shell = [], r_no_host = False,
     r_users = [], r_targets = [], r_reads = [], r_writes = []\<rparr>"

section \<open>Options\<close>

definition option_form :: "char \<Rightarrow> string \<Rightarrow> string" where
  "option_form letter value =
     (if letter = CHR ''o'' then
        (case split_words (before (CHR ''='') (strip value)) of
           [] \<Rightarrow> ''-o '' @ value | w # _ \<Rightarrow> ''-o '' @ w)
      else if letter = CHR ''O'' then ''-O '' @ value
      else [CHR ''-'', letter])"

definition named_files :: "string list \<Rightarrow> string list" where
  "named_files values = filter (\<lambda>v. v \<noteq> [] \<and> v \<notin> set NO_FILE \<and> CHR ''$'' \<notin> set v) values"

text \<open>One \<open>-o\<close>: \<open>None\<close> when the gate cannot follow it.\<close>

definition keyword_step :: "bool \<Rightarrow> string \<Rightarrow> reading \<Rightarrow> reading option" where
  "keyword_step users value r =
     (let keyword = fst (ssh_keyword value); arg = snd (ssh_keyword value) in
      if keyword = ''user'' \<and> users then Some (r\<lparr>r_users := r_users r @ [arg]\<rparr>)
      else if keyword \<in> set READ_KEYWORDS then Some (r\<lparr>r_reads := r_reads r @ named_files [arg]\<rparr>)
      else if keyword \<in> {WRITE_KEYWORD, SOCKET_KEYWORD} then
        Some (r\<lparr>r_writes := r_writes r @
          named_files (if keyword = WRITE_KEYWORD then split_words arg else [arg])\<rparr>)
      else if keyword \<notin> set SSH_KEYWORDS then None
      else Some r)"

fun ssh_options :: "bool \<Rightarrow> ssh_option list \<Rightarrow> reading \<Rightarrow> reading" where
  "ssh_options users [] r = r"
| "ssh_options users ((letter, value) # opts) r =
     (if letter \<in> set SSH_FLAGS \<or> letter \<in> set SSH_VALUES then ssh_options users opts r
      else if letter = CHR ''l'' \<and> users then ssh_options users opts (r\<lparr>r_users := r_users r @ [value]\<rparr>)
      else if letter = CHR ''i'' then
        ssh_options users opts (r\<lparr>r_reads := r_reads r @ named_files [value]\<rparr>)
      else if letter \<in> set SSH_FILE_LETTERS then
        ssh_options users opts (r\<lparr>r_writes := r_writes r @ named_files [value]\<rparr>)
      else if letter = CHR ''O'' \<and> value \<in> set SSH_CONTROL then ssh_options users opts r
      else (case (if letter = CHR ''o'' then keyword_step users value r else None) of
              Some r' \<Rightarrow> ssh_options users opts r'
            | None \<Rightarrow> r\<lparr>r_form := option_form letter value\<rparr>))"

definition unreadable_host :: "string \<Rightarrow> bool" where
  "unreadable_host text =
     (text = [] \<or> has_placeholder text \<or> CHR ''$'' \<in> set text \<or> BTICK \<in> set text)"

definition add_target :: "string \<Rightarrow> string \<Rightarrow> reading \<Rightarrow> reading" where
  "add_target host user r =
     r\<lparr>r_unreadable := (if unreadable_host host then or_else (r_unreadable r) (or_else host ''(no host)'')
                        else r_unreadable r),
       r_targets := r_targets r @ [(host, user)]\<rparr>"

definition add_targets :: "string \<Rightarrow> string list \<Rightarrow> reading \<Rightarrow> reading" where
  "add_targets host users r = foldl (\<lambda>r who. add_target host who r) r users"

definition opt_list :: "string option \<Rightarrow> string list" where
  "opt_list x = (case x of None \<Rightarrow> [] | Some s \<Rightarrow> [s])"

text \<open>\<open>[user@]host\<close>.\<close>

definition user_at_host :: "string \<Rightarrow> string option \<times> string" where
  "user_at_host s =
     (case rpartition (CHR ''@'') s of None \<Rightarrow> (None, s) | Some (u, h) \<Rightarrow> (Some u, h))"

section \<open>The four readers\<close>

definition read_ssh :: "string \<Rightarrow> reading" where
  "read_ssh segment =
     (case ssh_call_of segment of
        None \<Rightarrow> NO_READING\<lparr>r_form := ''ssh''\<rparr>
      | Some call \<Rightarrow>
         (let dest = destination call;
              r = (ssh_options True (call_options call) NO_READING)\<lparr>r_no_host := (dest = [])\<rparr>
          in if r_form r \<noteq> [] \<or> r_no_host r then r
             else if starts_with (lower dest) ''ssh://'' then
               (case url_netloc dest of
                  None \<Rightarrow> r\<lparr>r_form := dest\<rparr>
                | Some netloc \<Rightarrow>
                    if \<not> url_port_ok netloc then r\<lparr>r_form := dest\<rparr>
                    else (let named = opt_list (url_username netloc) @ r_users r
                          in add_targets (url_hostname netloc) (if named = [] then [[]] else named) r))
             else (let named = opt_list (fst (user_at_host dest)) @ r_users r
                   in add_targets (snd (user_at_host dest)) (if named = [] then [[]] else named) r)))"

definition command_args :: "string \<Rightarrow> string list option" where
  "command_args segment = map_option (\<lambda>tokens. drop 1 (dropWhile is_assignment tokens)) (shlex_split segment)"

text \<open>The user and host of a remote operand.\<close>

definition operand_target :: "string \<Rightarrow> string option \<times> string" where
  "operand_target arg =
     (let front = before (CHR ''['') arg; rest = after (CHR ''['') arg in
      if CHR ''['' \<in> set arg \<and> (front = [] \<or> last front = CHR ''@'') then
        (if front = [] then None else Some (butlast front),
         if CHR '']'' \<in> set rest then before (CHR '']'') rest else butlast rest)
      else user_at_host (if CHR '':'' \<in> set arg then before (CHR '':'') arg else butlast arg))"

text \<open>scp's and sftp's options: the operands, and what the options named.\<close>

function copy_options ::
    "string \<Rightarrow> string \<Rightarrow> string \<Rightarrow> string list \<Rightarrow> bool \<Rightarrow> reading \<Rightarrow> string list \<times> reading" where
  "copy_options flags vals letters [] finished r = ([], r)"
| "copy_options flags vals letters (arg # args) finished r =
     (if r_form r \<noteq> [] then ([], r)
      else if finished \<or> \<not> starts_with arg ''-'' \<or> arg = ''-'' then
        map_prod ((#) arg) id (copy_options flags vals letters args finished r)
      else if arg = ''--'' then copy_options flags vals letters args True r
      else (case cluster_from (\<lambda>c. c \<notin> set flags) (drop 1 arg) of
              None \<Rightarrow> copy_options flags vals letters args finished r
            | Some (letter, fused) \<Rightarrow>
                if letter \<notin> set letters then ([], r\<lparr>r_form := [CHR ''-'', letter]\<rparr>)
                else
                 (let value = (if fused = [] then first_or_empty args else fused);
                      args' = (if fused = [] then drop 1 args else args);
                      r' = (if letter = CHR ''i'' then r\<lparr>r_reads := r_reads r @ [value]\<rparr>
                            else if letter = CHR ''o'' then
                              (case keyword_step True value r of
                                 Some q \<Rightarrow> q | None \<Rightarrow> r\<lparr>r_form := option_form letter value\<rparr>)
                            else if letter \<notin> set vals then r\<lparr>r_form := [CHR ''-'', letter]\<rparr>
                            else r)
                  in copy_options flags vals letters args' finished r')))"
  by pat_completeness auto
termination
  by (relation "measure (\<lambda>(_, _, _, args, _). length args)") auto

declare copy_options.simps [simp del]

definition url_target :: "string \<Rightarrow> string \<Rightarrow> reading \<Rightarrow> reading" where
  "url_target arg default_user r =
     (case url_netloc arg of
        None \<Rightarrow> r\<lparr>r_form := arg\<rparr>
      | Some netloc \<Rightarrow>
          if \<not> url_port_ok netloc then r\<lparr>r_form := arg\<rparr>
          else add_target (url_hostname netloc) (or_else (opt_str (url_username netloc)) default_user) r)"

definition scp_target :: "string \<Rightarrow> string \<Rightarrow> reading \<Rightarrow> reading" where
  "scp_target default_user arg r =
     (if starts_with (lower arg) ''scp://'' then url_target arg default_user r
      else if remote_operand arg then
        (case operand_target arg of
           (user, host) \<Rightarrow> add_target host (case user of None \<Rightarrow> default_user | Some u \<Rightarrow> u) r)
      else r)"

definition read_scp :: "string \<Rightarrow> reading" where
  "read_scp segment =
     (case command_args segment of
        None \<Rightarrow> NO_READING\<lparr>r_form := ''scp''\<rparr>
      | Some args \<Rightarrow>
          (case copy_options SCP_FLAGS SCP_VALUES SCP_VALUE_LETTERS args False NO_READING of
             (ops, r) \<Rightarrow>
               if r_form r \<noteq> [] then r
               else foldl (\<lambda>r arg. scp_target (first_or_empty (r_users r)) arg r)
                      (r\<lparr>r_no_host := \<not> list_ex (\<lambda>a. starts_with (lower a) ''scp://'' \<or> remote_operand a) ops\<rparr>)
                      ops))"

definition read_sftp :: "string \<Rightarrow> reading" where
  "read_sftp segment =
     (case command_args segment of
        None \<Rightarrow> NO_READING\<lparr>r_form := ''sftp''\<rparr>
      | Some args \<Rightarrow>
          (case copy_options SFTP_FLAGS SFTP_VALUES SFTP_VALUE_LETTERS args False NO_READING of
             (ops, q) \<Rightarrow>
              (let r = q\<lparr>r_no_host := (ops = [])\<rparr>; default_user = first_or_empty (r_users r);
                   dest = first_or_empty ops
               in if r_form r \<noteq> [] \<or> r_no_host r then r
                  else if starts_with (lower dest) ''sftp://'' then url_target dest default_user r
                  else (case (if remote_operand dest then operand_target dest else user_at_host dest) of
                          (user, host) \<Rightarrow>
                            add_target host (case user of None \<Rightarrow> default_user | Some u \<Rightarrow> u) r))))"

text \<open>The remote shells of an rsync: each plain ssh with options only.\<close>

fun rsync_shells :: "string list \<Rightarrow> reading \<Rightarrow> reading" where
  "rsync_shells [] r = r"
| "rsync_shells (shell # rest) r =
     (if strip shell \<in> {[], ''ssh''} then rsync_shells rest r
      else (case (shlex_split shell, ssh_call_of shell) of
              (Some (w # _), Some call) \<Rightarrow>
                if basename w \<noteq> ''ssh'' \<or> destination call \<noteq> [] \<or> remote call \<noteq> []
                then r\<lparr>r_shell := shell\<rparr>
                else (let r' = ssh_options True (call_options call) r
                      in if r_form r' \<noteq> [] then r' else rsync_shells rest r')
            | _ \<Rightarrow> r\<lparr>r_shell := shell\<rparr>))"

fun rsync_operands :: "string list \<Rightarrow> reading \<Rightarrow> reading" where
  "rsync_operands [] r = r\<lparr>r_no_host := (r_targets r = [])\<rparr>"
| "rsync_operands (arg # rest) r =
     (if \<not> remote_operand arg then rsync_operands rest r
      else if starts_with (lower arg) ''rsync://'' \<or>
              starts_with (dropWhile (\<lambda>c. c \<noteq> CHR '':'') arg) ''::''
        then r\<lparr>r_daemon := arg\<rparr>
      else (case operand_target arg of
              (user, host) \<Rightarrow>
               (let named = r_users r @ opt_list user
                in rsync_operands rest (add_targets host (if named = [] then [[]] else named) r))))"

definition read_rsync :: "string \<Rightarrow> reading" where
  "read_rsync segment =
     (let ws = rsync_words segment; r = rsync_shells (shells ws) NO_READING in
      if r_shell r \<noteq> [] \<or> r_form r \<noteq> [] then r else rsync_operands (operands ws) r)"

text \<open>Each remote shell with the host it reaches.\<close>

definition rsync_shell_commands :: "string \<Rightarrow> string list" where
  "rsync_shell_commands segment =
     (let shs = rsync_remote_shells segment;
          remotes = filter (\<lambda>a. remote_operand a \<and> \<not> starts_with (lower a) ''rsync://'')
                      (operands (rsync_words segment))
      in case remotes of
           [] \<Rightarrow> shs
         | arg # _ \<Rightarrow>
             (case operand_target arg of
                (user, host) \<Rightarrow>
                  map (\<lambda>shell. shell @ '' '' @
                    shlex_quote ((case user of None \<Rightarrow> [] | Some u \<Rightarrow> u @ ''@'') @ host)) shs))"

section \<open>The answer\<close>

definition read_command :: "string \<Rightarrow> string \<Rightarrow> reading" where
  "read_command cmd_name segment =
     (if cmd_name = ''ssh'' then read_ssh segment
      else if cmd_name = ''scp'' then read_scp segment
      else if cmd_name = ''sftp'' then read_sftp segment
      else read_rsync segment)"

definition admin_only :: "string \<Rightarrow> string \<Rightarrow> string" where
  "admin_only cmd_name role =
     [SQUOTE] @ cmd_name @ [SQUOTE] @ '' requires platform admin role on local sandbox sessions (current role: ''
       @ role @ ''). These commands touch host state outside the sandbox.''"

definition q1 :: "string \<Rightarrow> string" where "q1 s = [SQUOTE] @ s @ [SQUOTE]"

text \<open>The first target that is not an attached host with its user, as the sentence that says so.\<close>

fun unattached :: "string \<Rightarrow> (string \<times> string) list \<Rightarrow> (string \<times> string) list \<Rightarrow> string option" where
  "unattached cmd_name attached [] = None"
| "unattached cmd_name attached ((host, user) # targets) =
     (let wanted = attached_host host user;
          users = sort (remdups (map snd (filter (\<lambda>hu. fst hu = fst wanted) attached)));
          named = join_on '' or '' (map (\<lambda>u. if u \<noteq> [] then ''the user '' @ q1 u else ''no user'') users);
          login = join_on '' or '' (map (\<lambda>u. if u \<noteq> [] then q1 (u @ ''@'' @ host) else q1 host) users)
      in if wanted \<in> set attached then unattached cmd_name attached targets
         else if users = [] then
           Some (''on this agent's sandbox, '' @ q1 cmd_name @ '' reaches only the SSH hosts an admin attached to the agent, and ''
             @ q1 host @ '' is not one of them.'')
         else Some (''the SSH host '' @ q1 host @ '' is attached for '' @ named @ '': log in as '' @ login @ ''.''))"

definition refuse :: "string \<Rightarrow> reach" where
  "refuse why = \<lparr>refusal = Some why, reach_reads = [], reach_writes = []\<rparr>"

definition local_refusal :: "string \<Rightarrow> string \<Rightarrow> security_context \<Rightarrow> reach" where
  "local_refusal cmd_name segment ctx =
     (if cmd_name \<notin> set SSH_COMMANDS then refuse (admin_only cmd_name (sc_role ctx))
      else if sc_read_only ctx then refuse ''a check's judge does not reach other hosts.''
      else if \<not> takes_attached_hosts ctx then
        refuse (''on this agent's sandbox, '' @ q1 cmd_name @ '' runs for a platform admin, or for a manager or editor to the SSH hosts attached to the agent (current role: '' @ sc_role ctx @ '').'')
      else (case ssh_hosts ctx of
        None \<Rightarrow> refuse ''the agent's SSH hosts could not be read right now. Try again.''
      | Some hosts \<Rightarrow>
         (let attached = map (\<lambda>(h, u). attached_host h u) hosts; r = read_command cmd_name segment in
          if attached = [] then
            refuse (''on this agent's sandbox, '' @ q1 cmd_name @ '' reaches only the SSH hosts an admin attached to the agent, and none is attached.'')
          else if r_form r \<noteq> [] then
            refuse (q1 (r_form r) @ '' on '' @ q1 cmd_name @ '' is for platform admins on this agent's sandbox: the gate cannot tell where it leads.'')
          else if r_shell r \<noteq> [] then
            refuse (''rsync's remote shell must be plain '' @ q1 ''ssh'' @ '' to reach an attached host; '' @ q1 (r_shell r) @ '' is for platform admins on this agent's sandbox.'')
          else if r_daemon r \<noteq> [] then
            refuse (q1 (r_daemon r) @ '' asks for an rsync server, which is for platform admins on this agent's sandbox: rsync reaches an attached host over SSH.'')
          else if r_no_host r then
            refuse (''on this agent's sandbox, '' @ q1 cmd_name @ '' must name the attached SSH host it reaches; this command names none.'')
          else if r_unreadable r \<noteq> [] then
            refuse (q1 cmd_name @ '' reaches an attached SSH host written out as the admin attached it; the gate cannot read the host '' @ q1 (r_unreadable r) @ ''.'')
          else (case unattached cmd_name attached (r_targets r) of
                  Some why \<Rightarrow> refuse why
                | None \<Rightarrow> \<lparr>refusal = None, reach_reads = r_reads r, reach_writes = r_writes r\<rparr>))))"

end
