(* ===== verification/PathBackstop.thy ===== *)
theory PathBackstop
  imports PathRoles PyRegex
begin

text \<open>
  \<open>proxy/services/path_roles.py\<close>, the two backstops on the raw text of a shell command: a reference
  to a credentials folder, and one to the agent's own CLI configuration or hook scripts.
\<close>

definition boundary_before :: regex where
  "boundary_before = Alt AtStart (Chr (\<lambda>c. is_space c \<or> c \<in> {SLASH, BSLASH, DQUOTE, SQUOTE, CHR ''=''}))"

text \<open>The pattern of one credentials subpath.\<close>

definition subpath_pattern :: "string \<Rightarrow> regex" where
  "subpath_pattern sub =
     seqs [boundary_before, lit sub,
       alts [lit ''/'', AtEnd,
         Seq (Chr (\<lambda>c. is_space c \<or> c = DQUOTE \<or> c = SQUOTE)) (Star space)]]"

definition command_references_protected_path :: "string list \<Rightarrow> string \<Rightarrow> bool" where
  "command_references_protected_path protected command =
     (command \<noteq> [] \<and> list_ex (\<lambda>sub. re_search (subpath_pattern sub) command) protected)"

definition HOOK_SCRIPTS :: "string list" where
  "HOOK_SCRIPTS = [''permission_gate.py'', ''stdio_path_interceptor.py'', ''stop_tracker.py'',
     ''subagent_tracker.py'', ''tool_result_forwarder.py'']"

definition name_char :: "char \<Rightarrow> bool" where
  "name_char c = (\<not> (is_space c \<or> c \<in> {SLASH, DQUOTE, SQUOTE}))"

definition ends_command :: "char \<Rightarrow> bool" where
  "ends_command c = (is_space c \<or> c \<in> {DQUOTE, SQUOTE} \<or> c \<in> set '';|&)<>'')"

definition dev_mods_pattern :: regex where
  "dev_mods_pattern =
     Seq (lit ''dev-mods'') (opt (Seq (lit ''/'') (Star (Chr (\<lambda>c. \<not> ends_command c)))))"

definition AGENT_CONFIG_CMD_RE :: regex where
  "AGENT_CONFIG_CMD_RE =
     seqs [boundary_before,
       Alt
        (seqs [
          alts [Seq (lit ''users/'') (plus (Chr name_char)), lit ''workspace'', lit ''knowledge'', lit ''tmp''],
          lit ''/.'',
          Alt
           (Seq (lit ''claude/'')
             (alts ([Seq (Star (Chr name_char)) (lit ''.json''), dev_mods_pattern] @ map lit HOOK_SCRIPTS)))
           (Seq (lit ''codex/'')
             (alts ([lit ''config.toml'', lit ''auth.json'', lit ''hooks.json'', dev_mods_pattern]
               @ map lit HOOK_SCRIPTS)))])
        (lit ''tmp/.claude.json''),
       Alt AtEnd (Chr ends_command)]"

definition command_references_protected_agent_config :: "string \<Rightarrow> bool" where
  "command_references_protected_agent_config command =
     (command \<noteq> [] \<and> re_search AGENT_CONFIG_CMD_RE command)"

text \<open>A credentials folder named as a path component is seen wherever it stands in the command.\<close>

lemma boundary_before_ends:
  "is_space c \<or> c \<in> {SLASH, BSLASH, DQUOTE, SQUOTE, CHR ''=''} \<Longrightarrow>
     (Some c, s) \<in> set (ends boundary_before (p, c # s))"
  by (auto simp: boundary_before_def)

lemma references_protected_component:
  assumes "sub \<in> set protected" "is_space c \<or> c \<in> {SLASH, BSLASH, DQUOTE, SQUOTE, CHR ''=''}"
  shows "command_references_protected_path protected (a @ c # sub @ CHR ''/'' # b)"
proof -
  define k where "k = (if sub = [] then Some c else Some (last sub), CHR ''/'' # b)"
  have snd_k: "snd k = SLASH # b" by (simp add: k_def)
  have slash: "(Some (CHR ''/''), b) \<in> set (ends (lit ''/'') k)" by (simp add: k_def)
  have "k \<in> set (ends (lit sub) (Some c, sub @ CHR ''/'' # b))" unfolding k_def by (rule ends_litI)
  then have "(Some (CHR ''/''), b) \<in> set (ends (subpath_pattern sub) (if a = [] then None else Some (last a), c # sub @ CHR ''/'' # b))"
    unfolding subpath_pattern_def seqs.simps
    by (intro ends_SeqI [OF boundary_before_ends [OF assms(2)]] ends_SeqI [where r = "lit sub"]
        ends_SeqI [where s = Eps] ends_altsI [OF _ slash]) (auto simp: snd_k)
  then have "re_search (subpath_pattern sub) (a @ c # sub @ CHR ''/'' # b)" by (rule re_searchI)
  with assms(1) show ?thesis by (auto simp: command_references_protected_path_def list_ex_iff)
qed

end
