(* ===== verification/ShellCheck.thy ===== *)
theory ShellCheck
  imports ShellFloor ShellHosts RemotePath PathBackstop
begin

text \<open>
  \<open>proxy/auth/path_shell.py\<close>, the parts of a segment's classification that do not recurse: the tier
  tables, the checks of \<open>_CommandCheck\<close> and their order. A decision is a \<open>path_decision option\<close>, \<open>None\<close>
  the raise of the path resolution; where a check may also have no answer the option is doubled.
\<close>

section \<open>Tiers\<close>

definition TIER_READ :: string where "TIER_READ = ''read''"
definition TIER_EDIT :: string where "TIER_EDIT = ''edit''"
definition TIER_EXTENDED :: string where "TIER_EXTENDED = ''extended''"
definition TIER_ASK :: string where "TIER_ASK = ''ask''"
definition TIER_ADMIN :: string where "TIER_ADMIN = ''admin''"

lemmas tier_defs = TIER_READ_def TIER_EDIT_def TIER_EXTENDED_def TIER_ASK_def TIER_ADMIN_def

definition BASH_TIER_READ :: "string list" where
  "BASH_TIER_READ =
     [''ls'', ''find'', ''cat'', ''head'', ''tail'', ''grep'', ''egrep'', ''fgrep'', ''wc'', ''diff'', ''stat'',
      ''file'', ''tree'', ''du'', ''df'', ''echo'', ''printf'', ''date'', ''pwd'', ''which'', ''whoami'',
      ''hostname'', ''id'', ''sort'', ''uniq'', ''cut'', ''tr'', ''awk'', ''sed'', ''jq'', ''column'', ''less'',
      ''more'', ''basename'', ''dirname'', ''realpath'', ''readlink'', ''md5sum'', ''sha256sum'', ''sha1sum'',
      ''test'', ''true'', ''false'', ''sleep'', ''seq'', ''expr'', ''bc'', ''cd'', ''rg'', ''nl'', ''tac'',
      ''printenv'', ''ps'', ''pgrep'', ''pidof'', ''free'', ''vmstat'', ''uptime'', ''uname'', ''arch'', ''nproc'',
      ''getconf'', ''locale'', ''tty'', ''groups'', ''users'', ''who'', ''w'', ''lscpu'', ''lsblk'', ''lsusb'',
      ''lspci'', ''lsof'', ''getent'', ''cal'', ''type'', ''command'', ''ping'', ''ping6'', ''dig'', ''host'',
      ''nslookup'', ''base64'', ''base32'', ''xxd'', ''od'', ''hexdump'', ''strings'', ''cmp'', ''comm'', ''join'',
      ''paste'', ''fold'', ''fmt'', ''rev'', ''pdftotext'', ''pdfinfo'', ''pdfimages'', ''pdftohtml'']"

definition BASH_TIER_EDIT :: "string list" where
  "BASH_TIER_EDIT =
     [''rm'', ''cp'', ''mv'', ''mkdir'', ''rmdir'', ''touch'', ''tee'', ''tar'', ''zip'', ''unzip'', ''gzip'',
      ''gunzip'', ''bzip2'', ''bunzip2'', ''xz'', ''chmod'', ''ln'', ''patch'', ''rsync'', ''install'', ''git'',
      ''gh'', ''pdfseparate'', ''pdfunite'', ''sqlite3'']"

definition BASH_TIER_EXTENDED :: "string list" where
  "BASH_TIER_EXTENDED =
     [''curl'', ''wget'', ''python3'', ''python'', ''node'', ''deno'', ''uv'', ''uvx'', ''xargs'', ''pip'', ''pip3'',
      ''npm'', ''npx'', ''yarn'', ''pnpm'', ''pn'', ''pnx'', ''make'', ''cmake'', ''go'', ''cargo'', ''gcc'', ''g++'']"

definition BASH_TIER_ADMIN :: "string list" where
  "BASH_TIER_ADMIN =
     [''docker'', ''docker-compose'', ''podman'', ''systemctl'', ''journalctl'', ''ssh'', ''scp'', ''sftp'',
      ''ssh-copy-id'', ''apt'', ''apt-get'']"

text \<open>The combined table, in which a later assignment wins.\<close>

definition bash_command_tier :: "string \<Rightarrow> string option" where
  "bash_command_tier cmd =
     (if cmd \<in> set BASH_TIER_ADMIN then Some TIER_ADMIN
      else if cmd \<in> set BASH_TIER_EXTENDED then Some TIER_EXTENDED
      else if cmd \<in> set BASH_TIER_EDIT then Some TIER_EDIT
      else if cmd \<in> set BASH_TIER_READ then Some TIER_READ
      else None)"

definition TIER_ORDER :: "(string \<times> nat) list" where
  "TIER_ORDER = [([], 0), (''read'', 1), (''edit'', 2), (''extended'', 3), (''ask'', 3), (''admin'', 4)]"

definition tier_rank :: "string \<Rightarrow> nat" where
  "tier_rank t = (case lookup TIER_ORDER t of None \<Rightarrow> 0 | Some n \<Rightarrow> n)"

text \<open>The running maximum: the new tier where it ranks higher, else the old.\<close>

definition tier_max :: "string \<Rightarrow> string \<Rightarrow> string" where
  "tier_max cur t = (if tier_rank t > tier_rank cur then t else cur)"

definition granted :: "string \<Rightarrow> bool \<Rightarrow> path_decision" where
  "granted tier destr = ALLOW\<lparr>permission_tier := tier, destructive := destr\<rparr>"

section \<open>Commands\<close>

definition SHELL_STRUCTURAL :: "string list" where
  "SHELL_STRUCTURAL =
     [''for'', ''while'', ''until'', ''if'', ''then'', ''else'', ''elif'', ''fi'', ''do'', ''done'', ''case'',
      ''esac'', ''select'', ''function'', ''in'', ''{'', ''}'', ''[['', '']]'', ''!'', ''['', '':'', ''cd'', ''export'',
      ''set'', ''unset'', ''shift'', ''return'', ''local'', ''declare'', ''typeset'', ''readonly'', ''pushd'',
      ''popd'', ''dirs'', ''alias'', ''unalias'', ''wait'', ''trap'', ''exit'', ''break'', ''continue'', ''let'',
      ''read'', ''mapfile'', ''readarray'', ''getopts'']"

definition DESTRUCTIVE_COMMANDS :: "string list" where
  "DESTRUCTIVE_COMMANDS =
     [''rm'', ''rmdir'', ''shred'', ''truncate'', ''dd'', ''mkfs'', ''mke2fs'', ''mkswap'', ''wipefs'',
      ''blkdiscard'', ''fdisk'', ''sgdisk'', ''parted'']"

definition is_destructive_command :: "string \<Rightarrow> bool" where
  "is_destructive_command cmd = (cmd \<in> set DESTRUCTIVE_COMMANDS \<or> starts_with cmd ''mkfs.'')"

definition MAX_BASH_DEPTH :: nat where "MAX_BASH_DEPTH = 8"

text \<open>What \<open>_CommandCheck\<close> carries: the platform's host, the session, where the command runs, the flags
  of the floor pass and of another host.\<close>

record command_check =
  cc_host :: host
  cc_ctx :: security_context
  cc_remote :: bool
  cc_floor_only :: bool
  cc_other_host :: bool
  cc_host_asks :: bool

definition state_asks :: "command_check \<Rightarrow> bool" where
  "state_asks k = (cc_host_asks k \<or> cc_other_host k)"

definition floor_of :: "command_check \<Rightarrow> bool \<Rightarrow> string \<Rightarrow> path_decision option" where
  "floor_of k words s = floor_denial (cc_other_host k) (cc_host_asks k) words s"

section \<open>Paths\<close>

definition bash_path_decision :: "command_check \<Rightarrow> bool \<Rightarrow> string \<Rightarrow> path_decision option" where
  "bash_path_decision k writing rp =
     (if cc_remote k then check_remote_bash_path (cc_host k) rp (cc_ctx k) writing
      else check_path_arg (cc_host k) rp (cc_ctx k) writing)"

text \<open>The first path refused, in order, and what the refusal says of it.\<close>

fun check_each ::
    "(string \<Rightarrow> path_decision option) \<Rightarrow> (string \<Rightarrow> string \<Rightarrow> string) \<Rightarrow> string list \<Rightarrow> path_decision option option"
  where
  "check_each check say [] = Some None"
| "check_each check say (rp # rps) =
     (case check rp of
        None \<Rightarrow> None
      | Some d \<Rightarrow> if \<not> allowed d then Some (Some (bash_denied (say rp (reason d)))) else check_each check say rps)"

text \<open>Checks in sequence: the first raise or refusal ends them.\<close>

fun first_refusal :: "path_decision option option list \<Rightarrow> path_decision \<Rightarrow> path_decision option" where
  "first_refusal [] answer = Some answer"
| "first_refusal (c # cs) answer =
     (case c of None \<Rightarrow> None | Some (Some d) \<Rightarrow> Some d | Some None \<Rightarrow> first_refusal cs answer)"

definition judged :: "string list \<Rightarrow> string list" where
  "judged rps = filter (\<lambda>rp. \<not> is_pseudo_path rp \<and> \<not> has_placeholder rp) rps"

definition literal :: "string list \<Rightarrow> string list" where
  "literal rps = filter (\<lambda>rp. \<not> has_placeholder rp) rps"

text \<open>A refused path in a message; the dash the code writes is the UTF-8 of an em dash.\<close>

definition EM_DASH :: string where "EM_DASH = [CHR 0xE2, CHR 0x80, CHR 0x94]"

definition quoted_path :: "string \<Rightarrow> string \<Rightarrow> string \<Rightarrow> string" where
  "quoted_path what rp why = what @ '' '' @ q1 rp @ '' '' @ EM_DASH @ '' '' @ why"

definition redirect_checks :: "command_check \<Rightarrow> string \<Rightarrow> path_decision option option list" where
  "redirect_checks k seg =
     [check_each (bash_path_decision k True) (quoted_path ''redirect target'') (judged (extract_redirect_targets seg)),
      check_each (bash_path_decision k False) (quoted_path ''input redirect'') (judged (extract_input_redirects seg))]"

definition remote_protected_denial :: "command_check \<Rightarrow> string \<Rightarrow> string \<Rightarrow> path_decision option option" where
  "remote_protected_denial k cmd segment =
     (let args = (if cmd = [] then ([], []) else extract_path_args cmd segment);
          check = (\<lambda>writing rp.
            case check_remote_protected_path (cc_host k) rp (cc_ctx k) writing of
              None \<Rightarrow> None | Some None \<Rightarrow> Some ALLOW | Some (Some d) \<Rightarrow> Some d);
          say = (\<lambda>rp why. ''path '' @ q1 rp @ '': '' @ why);
          reads = check_each (check False) say
            (judged (fst args @ extract_input_redirects segment));
          writes = check_each (check True) say
            (judged (snd args @ extract_redirect_targets segment))
      in (case reads of None \<Rightarrow> None | Some (Some d) \<Rightarrow> Some (Some d) | Some None \<Rightarrow> writes))"

section \<open>The checks of a segment\<close>

definition structural_decision :: "command_check \<Rightarrow> string \<Rightarrow> path_decision option" where
  "structural_decision k seg =
     (let comparison = (starts_with (lstrip seg) ''[['' \<or> starts_with (lstrip seg) ''((''); 
          state = (if comparison then (None, False)
                   else host_state_write_floor (extract_redirect_targets seg) (state_asks k))
      in case fst state of
           Some d \<Rightarrow> Some d
         | None \<Rightarrow>
            if cc_floor_only k then
              first_refusal (if cc_remote k \<and> \<not> cc_other_host k then [remote_protected_denial k [] seg] else [])
                (granted TIER_READ (snd state))
            else if comparison then Some (granted TIER_READ False)
            else first_refusal (redirect_checks k seg)
                   (granted (if judged (extract_redirect_targets seg) = [] then TIER_READ else TIER_EDIT) (snd state)))"

definition unparsed :: "command_check \<Rightarrow> string \<Rightarrow> path_decision option" where
  "unparsed k segment =
     (if cc_floor_only k then Some (granted TIER_READ False)
      else first_refusal
             [check_each (bash_path_decision k True) (quoted_path ''could not parse command, and it names'')
                (judged (path_looking_tokens segment))]
             (granted TIER_ASK False))"

text \<open>The commands a segment hides: \<open>find -exec\<close> and rsync's remote shell on this host, \<open>ssh\<close>'s remote
  command, \<open>--rsync-path\<close> and a remote path a shell reads on the other.\<close>

definition exec_inners :: "string \<Rightarrow> string \<Rightarrow> string list" where
  "exec_inners cmd segment =
     (if cmd = ''find'' then find_exec_inners segment
      else if cmd = ''rsync'' then rsync_shell_commands segment else [])"

definition remote_texts :: "string \<Rightarrow> string \<Rightarrow> string list" where
  "remote_texts cmd segment =
     filter (\<lambda>r. r \<noteq> [])
       ((if cmd = ''ssh'' then [opt_str (remote_command segment)]
         else if cmd = ''rsync'' then rsync_paths (rsync_words segment) else []) @
        remote_shell_paths cmd segment)"

definition floor_pass :: "command_check \<Rightarrow> string \<Rightarrow> string \<Rightarrow> bool \<Rightarrow> path_decision option" where
  "floor_pass k cmd segment destr =
     first_refusal (if cc_remote k \<and> \<not> cc_other_host k then [remote_protected_denial k cmd segment] else [])
       (case host_state_write_floor (snd (extract_path_args cmd segment) @ extract_redirect_targets segment)
               (state_asks k) of
          (Some d, _) \<Rightarrow> d
        | (None, state) \<Rightarrow> granted TIER_READ (destr \<or> state))"

definition command_tier :: "string \<Rightarrow> string \<Rightarrow> string \<Rightarrow> string" where
  "command_tier cmd segment exec_tier =
     (let known = (case bash_command_tier cmd of None \<Rightarrow> TIER_ASK | Some t \<Rightarrow> t);
          awk = (if cmd = ''awk'' \<and> awk_runs_commands segment then TIER_EXTENDED else known);
          exec = tier_max awk exec_tier
      in if cmd = ''rsync'' \<and> rsync_reaches_host segment then TIER_ADMIN else exec)"

definition role_gate :: "command_check \<Rightarrow> string \<Rightarrow> string \<Rightarrow> string \<Rightarrow> path_decision option option" where
  "role_gate k cmd tier segment =
     (if tier \<noteq> TIER_ADMIN then Some None
      else if cc_remote k then
        (if can_edit (sc_role (cc_ctx k)) then Some None
         else Some (Some (bash_denied (q1 cmd @ '' is restricted to manager / editor / admin roles on remote satellites (current role: '' @ sc_role (cc_ctx k) @ '').''))))
      else if is_admin (sc_role (cc_ctx k)) then Some None
      else
        (let r = local_refusal cmd segment (cc_ctx k) in
         case refusal r of
           Some why \<Rightarrow> Some (Some (bash_denied why))
         | None \<Rightarrow>
            (case check_each (bash_path_decision k False) (quoted_path (q1 cmd @ '' reads''))
                    (map identity_scope (reach_reads r)) of
               None \<Rightarrow> None
             | Some (Some d) \<Rightarrow> Some (Some d)
             | Some None \<Rightarrow>
                check_each (bash_path_decision k True) (quoted_path (q1 cmd @ '' writes'')) (reach_writes r))))"

definition path_checks :: "command_check \<Rightarrow> string \<Rightarrow> string \<Rightarrow> string \<Rightarrow> bool \<Rightarrow> path_decision option" where
  "path_checks k cmd segment tier destr =
     (let ps = extract_path_args cmd segment; targets = extract_redirect_targets segment;
          writes = literal (snd ps) @ judged targets
      in case host_state_write_floor (snd ps @ targets) (state_asks k) of
           (Some d, _) \<Rightarrow> Some d
         | (None, state) \<Rightarrow>
            first_refusal
              ([check_each (bash_path_decision k False) (quoted_path ''read path'') (literal (fst ps)),
                check_each (bash_path_decision k True) (quoted_path ''write path'') (literal (snd ps))] @
               redirect_checks k segment)
              (granted (if writes = [] then tier else tier_max tier TIER_EDIT) (destr \<or> state)))"

text \<open>What follows the nested commands' checks.\<close>

definition judge_command ::
    "command_check \<Rightarrow> string \<Rightarrow> string \<Rightarrow> string \<Rightarrow> bool \<Rightarrow> bool \<Rightarrow> path_decision option" where
  "judge_command k cmd segment exec_tier exec_destr ssh_destr =
     (if cc_floor_only k then floor_pass k cmd segment (exec_destr \<or> ssh_destr)
      else
       (let tier = command_tier cmd segment exec_tier in
        case role_gate k cmd tier segment of
          None \<Rightarrow> None
        | Some (Some d) \<Rightarrow> Some d
        | Some None \<Rightarrow>
           path_checks k cmd segment tier
             (is_destructive_command cmd \<or> exec_destr \<or> ssh_destr \<or> (cmd = ''find'' \<and> find_has_delete segment))))"

text \<open>Nested answers in order: the first raise or refusal, or the highest tier and whether any is
  destructive.\<close>

fun gather :: "string \<Rightarrow> bool \<Rightarrow> path_decision option list \<Rightarrow> (path_decision + string \<times> bool) option" where
  "gather tier destr [] = Some (Inr (tier, destr))"
| "gather tier destr (r # rs) =
     (case r of
        None \<Rightarrow> None
      | Some d \<Rightarrow>
          if \<not> allowed d then Some (Inl d)
          else gather (tier_max tier (or_else (permission_tier d) TIER_READ)) (destr \<or> destructive d) rs)"

definition next_text :: "string \<Rightarrow> unwrapped" where
  "next_text body =
     (case unwrap_segment body of
        USegment r \<Rightarrow> if r \<noteq> body \<and> strip r \<noteq> [] then USegment r else UNone
      | u \<Rightarrow> u)"

text \<open>A segment's answer from its substitutions' and its outer command's.\<close>

definition segment_answer ::
    "command_check \<Rightarrow> bool \<Rightarrow> string \<Rightarrow> bool \<Rightarrow> path_decision \<Rightarrow> path_decision" where
  "segment_answer k holed sub_tier sub_destr outer =
     (if \<not> allowed outer then outer
      else if cc_floor_only k then granted (permission_tier outer) (destructive outer \<or> sub_destr)
      else if \<not> holed then outer
      else granted (tier_max (tier_max TIER_ASK (or_else (permission_tier outer) TIER_READ)) sub_tier)
             (destructive outer \<or> sub_destr))"

end
