(* ===== verification/ShellGate.thy ===== *)
theory ShellGate
  imports ShellCheck
begin

text \<open>
  \<open>proxy/auth/path_shell.py\<close>, the Bash gate: a command string is split into segments, a segment loses its
  substitutions, its structure and its wrappers, and every command found inside is checked as a
  command string of its own one level deeper. The recursion ends: a string is refused past
  \<open>MAX_BASH_DEPTH\<close>, and a wrapper, which the code takes off without that test, leaves fewer blanks.
\<close>

section \<open>The recursion\<close>

function check_command_string :: "command_check \<Rightarrow> nat \<Rightarrow> string \<Rightarrow> path_decision option"
  and classify_segment :: "command_check \<Rightarrow> nat \<Rightarrow> string \<Rightarrow> path_decision option"
  and classify_command :: "command_check \<Rightarrow> nat \<Rightarrow> string \<Rightarrow> path_decision option"
  where
  "check_command_string k depth command =
     (if depth > MAX_BASH_DEPTH then Some (bash_denied ''command nesting too deep'')
      else if strip command = [] then Some (granted TIER_READ False)
      else
       (case floor_of k False (strip command) of
          Some d \<Rightarrow> Some d
        | None \<Rightarrow>
           (let seen = (\<lambda>t. state_asks k \<and> host_state_seen t) in
            case split_command_segments (strip command) of
              None \<Rightarrow> Some (bash_denied ''Unclosed quote in command'')
            | Some segments \<Rightarrow>
                (case gather TIER_READ (seen (strip command))
                       (map (\<lambda>seg.
                          case floor_of k True seg of
                            Some d \<Rightarrow> Some d
                          | None \<Rightarrow> map_option (\<lambda>d. if allowed d then d\<lparr>destructive := seen seg \<or> destructive d\<rparr> else d)
                                     (classify_segment k depth seg)) segments) of
                   None \<Rightarrow> None
                 | Some (Inl d) \<Rightarrow> Some d
                 | Some (Inr (tier, destr)) \<Rightarrow> Some (granted tier destr)))))"
| "classify_segment k depth segment =
     (case lift_substitutions False segment of
        (lifted, inners) \<Rightarrow>
          (case gather TIER_READ False
                 (map (\<lambda>inner. check_command_string k (depth + 1) inner) (filter (\<lambda>i. strip i \<noteq> []) inners)) of
             None \<Rightarrow> None
           | Some (Inl d) \<Rightarrow> Some d
           | Some (Inr (sub_tier, sub_destr)) \<Rightarrow>
              (case (if inners = [] then None else floor_of k True lifted) of
                 Some d \<Rightarrow> Some d
               | None \<Rightarrow>
                  map_option (segment_answer k (inners \<noteq> [] \<or> has_placeholder segment) sub_tier sub_destr)
                    (classify_command k depth lifted))))"
| "classify_command k depth segment =
     (let body = strip_shell_structure segment in
      if body = [] then structural_decision k segment
      else
       (case (if body = strip segment then None else floor_of k True body) of
          Some d \<Rightarrow> Some d
        | None \<Rightarrow>
           (case next_text body of
              UString inner \<Rightarrow> check_command_string k (depth + 1) inner
            | USegment inner \<Rightarrow> classify_segment k (depth + 1) inner
            | UNone \<Rightarrow>
               if starts_with body ''(('' \<or> is_command_less body then structural_decision k body
               else
                (case extract_command_name body of
                   None \<Rightarrow> unparsed k body
                 | Some cmd \<Rightarrow>
                    if cmd \<in> set SHELL_STRUCTURAL then structural_decision k body
                    else
                     (case gather [] False (map (\<lambda>e. check_command_string k (depth + 1) e) (exec_inners cmd body)) of
                        None \<Rightarrow> None
                      | Some (Inl d) \<Rightarrow> Some d
                      | Some (Inr (exec_tier, exec_destr)) \<Rightarrow>
                         (case gather [] False
                                (map (\<lambda>r. check_command_string
                                        (k\<lparr>cc_floor_only := True, cc_other_host := True, cc_host_asks := False\<rparr>)
                                        (depth + 1) r)
                                   (remote_texts cmd body)) of
                            None \<Rightarrow> None
                          | Some (Inl d) \<Rightarrow> Some d
                          | Some (Inr (_, ssh_destr)) \<Rightarrow>
                              judge_command k cmd body exec_tier exec_destr ssh_destr))))))"
  by pat_completeness auto

text \<open>The measure: the levels left, then the blanks of the text.\<close>

definition levels :: "bool \<Rightarrow> nat \<Rightarrow> nat" where
  "levels string_level depth =
     (if string_level then (if depth > MAX_BASH_DEPTH then 0 else 2 * (9 - depth) + 1) else 2 * (9 - depth))"

lemma levels_deeper:
  "levels True (Suc d) \<le> levels False d"
  "levels False (Suc d) \<le> levels False d"
  "d \<le> MAX_BASH_DEPTH \<Longrightarrow> levels False d < levels True d"
  by (auto simp: levels_def MAX_BASH_DEPTH_def)

lemma next_text_blanks: "next_text body = USegment r \<Longrightarrow> blanks r < blanks body"
  by (auto simp: next_text_def dest: unwrap_blanks split: unwrapped.splits if_splits)

termination check_command_string
proof (relation "inv_image (less_than <*lex*> less_than <*lex*> less_than)
    (\<lambda>x. case x of
       Inl (k, d, s) \<Rightarrow> (levels True d, 0, 0)
     | Inr (Inl (k, d, s)) \<Rightarrow> (levels False d, blanks s, 2)
     | Inr (Inr (k, d, s)) \<Rightarrow> (levels False d, blanks s, 1::nat))", goal_cases)
  case 1
  show ?case by (intro wf_inv_image wf_lex_prod wf_less_than)
next
  case (2 k depth command)
  with levels_deeper(3) [of depth] show ?case by simp
next
  case (3 k depth segment)
  with levels_deeper(1) [of depth] show ?case by (auto simp: le_less)
next
  case (4 k depth segment)
  with lift_blanks [of False segment] show ?case
    by (cases "lift_substitutions False segment") (auto simp: le_less)
next
  case 5
  with levels_deeper(1) show ?case by (auto simp: le_less)
next
  case (6 k depth segment)
  then have "blanks (strip_shell_structure segment) \<le> blanks segment" by (intro structure_blanks)
  with 6 levels_deeper(2) [of depth] next_text_blanks show ?case by (fastforce simp: le_less)
next
  case 7
  with levels_deeper(1) show ?case by (auto simp: le_less)
next
  case 8
  with levels_deeper(1) show ?case by (auto simp: le_less)
qed

declare check_command_string.simps [simp del] classify_segment.simps [simp del]
  classify_command.simps [simp del]

definition bash_check :: "host \<Rightarrow> security_context \<Rightarrow> bool \<Rightarrow> command_check" where
  "bash_check h ctx floor_only =
     \<lparr>cc_host = h, cc_ctx = ctx, cc_remote = is_remote (sc_placement ctx), cc_floor_only = floor_only,
      cc_other_host = False, cc_host_asks = host_state_asks ctx\<rparr>"

definition check_bash :: "host \<Rightarrow> string \<Rightarrow> security_context \<Rightarrow> path_decision option" where
  "check_bash h command ctx =
     (if NUL \<in> set command then Some (bash_denied NUL_REASON)
      else if command_references_protected_path (protected_subpaths h) command then
        Some (bash_denied ''command references OAuth credentials directory. Manage accounts in User Settings, Integrations.'')
      else if command_references_protected_agent_config command then
        Some (bash_denied ''agent CLI config files are protected.'')
      else if strip command = [] then Some (deny ''Empty bash command'')
      else if sc_is_admin_agent ctx \<and> is_admin (sc_role ctx) \<and> \<not> sc_read_only ctx then
        map_option (\<lambda>floor. if \<not> allowed floor then floor else granted TIER_ADMIN False)
          (check_command_string (bash_check h ctx True) 0 command)
      else check_command_string (bash_check h ctx False) 0 command)"

end
