(* ===== verification/PyCodec.thy ===== *)
theory PyCodec
  imports ShellWords
begin

text \<open>
  The two codecs of Python's library the PowerShell gate decodes an encoded command with:
  \<open>base64.b64decode\<close> without validation and the strict \<open>utf-16-le\<close> decoder, to UTF-8 bytes as every
  text here. A \<open>ValueError\<close> is \<open>None\<close>.
\<close>

definition b64_char :: "char \<Rightarrow> bool" where
  "b64_char c = (is_alnum c \<or> c = CHR ''+'' \<or> c = CHR ''/'')"

definition b64_value :: "char \<Rightarrow> nat" where
  "b64_value c =
     (let n = of_char c :: nat in
      if 97 \<le> n then n - 71 else if 65 \<le> n then n - 65
      else if 48 \<le> n then n + 4 else if c = CHR ''+'' then 62 else 63)"

text \<open>The loop of \<open>a2b_base64\<close>: the place in the quad, the bits carried over, the pads seen since the
  last digit. A pad sequence that completes the quad ends the data.\<close>

fun b64_run :: "nat \<Rightarrow> nat \<Rightarrow> nat \<Rightarrow> string \<Rightarrow> nat list option" where
  "b64_run quad left pads [] = (if quad = 0 then Some [] else None)"
| "b64_run quad left pads (c # cs) =
     (let v = b64_value c in
      if c = CHR ''='' then
        (if 2 \<le> quad \<and> 4 \<le> quad + pads + 1 then Some []
         else b64_run quad left (if 2 \<le> quad then pads + 1 else pads) cs)
      else if \<not> b64_char c then b64_run quad left pads cs
      else if quad = 0 then b64_run 1 v 0 cs
      else if quad = 1 then map_option ((#) (4 * left + v div 16)) (b64_run 2 (v mod 16) 0 cs)
      else if quad = 2 then map_option ((#) (16 * left + v div 4)) (b64_run 3 (v mod 4) 0 cs)
      else map_option ((#) (64 * left + v)) (b64_run 0 0 0 cs))"

definition b64decode :: "string \<Rightarrow> nat list option" where
  "b64decode s = b64_run 0 0 0 s"

definition high_surrogate :: "nat \<Rightarrow> bool" where "high_surrogate u = (0xD800 \<le> u \<and> u < 0xDC00)"
definition low_surrogate :: "nat \<Rightarrow> bool" where "low_surrogate u = (0xDC00 \<le> u \<and> u < 0xE000)"

fun utf16le :: "nat list \<Rightarrow> string option" where
  "utf16le [] = Some []"
| "utf16le [a] = None"
| "utf16le (a # b # bs) =
     (let u = a + 256 * b in
      if low_surrogate u then None
      else if high_surrogate u then
        (case bs of
           c # d # rest \<Rightarrow>
             (let v = c + 256 * d in
              if low_surrogate v
              then map_option ((@) (py_chr (0x10000 + 0x400 * (u - 0xD800) + (v - 0xDC00)))) (utf16le rest)
              else None)
         | _ \<Rightarrow> None)
      else map_option ((@) (py_chr u)) (utf16le bs))"

definition decode_command :: "string \<Rightarrow> string option" where
  "decode_command blob = (case b64decode blob of None \<Rightarrow> None | Some bytes \<Rightarrow> utf16le bytes)"

end
