(* ===== verification/PowerShell.thy ===== *)
theory PowerShell
  imports ShellCheck PyCodec
begin

text \<open>
  \<open>proxy/auth/path_shell.py\<close>, the PowerShell gate: the tables of verbs, aliases and cmdlets, the
  catastrophe patterns, the tokenizer and the splitter, the paths of a cmdlet, and the check of a
  command string, which recurses into encoded commands and shell wrappers.
\<close>

section \<open>Tables\<close>

definition verbs :: "string \<Rightarrow> string list \<Rightarrow> (string \<times> string) list" where
  "verbs tier vs = map (\<lambda>v. (v, tier)) vs"

definition POWERSHELL_VERB_TIER :: "(string \<times> string) list" where
  "POWERSHELL_VERB_TIER =
     verbs TIER_READ [''get'', ''select'', ''where'', ''sort'', ''measure'', ''test'', ''compare'', ''find'',
       ''search'', ''show'', ''format'', ''read'', ''resolve'', ''trace'', ''group'', ''convertfrom'',
       ''convertto'', ''write'', ''tee'', ''split'', ''join'', ''out''] @
     verbs TIER_EDIT [''set'', ''new'', ''add'', ''copy'', ''move'', ''rename'', ''export'', ''import'', ''update'',
       ''save'', ''mount'', ''dismount'', ''compress'', ''expand'', ''edit'', ''checkpoint'', ''restore'',
       ''remove'', ''clear'', ''reset''] @
     verbs TIER_EXTENDED [''invoke'', ''start'', ''install'', ''uninstall'', ''register'', ''unregister'',
       ''enable'', ''disable'', ''wait''] @
     verbs TIER_ADMIN [''stop'', ''restart'', ''suspend'', ''resume'']"

definition aliases :: "string \<Rightarrow> string list \<Rightarrow> (string \<times> string) list" where
  "aliases cmdlet names = map (\<lambda>a. (a, cmdlet)) names"

definition POWERSHELL_ALIASES :: "(string \<times> string) list" where
  "POWERSHELL_ALIASES =
     aliases ''get-childitem'' [''gci'', ''ls'', ''dir''] @ aliases ''get-content'' [''gc'', ''cat'', ''type''] @
     [(''gi'', ''get-item''), (''gp'', ''get-itemproperty''), (''gm'', ''get-member'')] @
     aliases ''get-process'' [''gps'', ''ps''] @ [(''gsv'', ''get-service'')] @
     aliases ''get-location'' [''pwd'', ''gl''] @ [(''gu'', ''get-unique''), (''select'', ''select-object'')] @
     aliases ''where-object'' [''where'', ''?''] @ aliases ''foreach-object'' [''foreach'', ''%''] @
     [(''sort'', ''sort-object''), (''measure'', ''measure-object''), (''group'', ''group-object''),
      (''fl'', ''format-list''), (''ft'', ''format-table''), (''fw'', ''format-wide'')] @
     aliases ''write-output'' [''echo'', ''write''] @ [(''sc'', ''set-content''), (''set'', ''set-item'')] @
     aliases ''copy-item'' [''cp'', ''copy''] @ aliases ''move-item'' [''mv'', ''move''] @
     aliases ''rename-item'' [''ren'', ''rni''] @ aliases ''new-item'' [''ni'', ''md'', ''mkdir''] @
     aliases ''remove-item'' [''rm'', ''del'', ''rd'', ''ri'', ''erase'', ''rmdir''] @
     [(''rp'', ''remove-itemproperty''), (''iex'', ''invoke-expression''), (''icm'', ''invoke-command''),
      (''iwr'', ''invoke-webrequest''), (''irm'', ''invoke-restmethod''), (''saps'', ''start-process'')] @
     aliases ''stop-process'' [''spps'', ''kill''] @ aliases ''set-location'' [''cd'', ''sl''] @
     [(''pushd'', ''push-location''), (''popd'', ''pop-location'')] @
     aliases ''clear-host'' [''cls'', ''clear''] @ [(''tee'', ''tee-object'')]"

definition POWERSHELL_DESTRUCTIVE_CMDLETS :: "string list" where
  "POWERSHELL_DESTRUCTIVE_CMDLETS =
     [''remove-item'', ''remove-itemproperty'', ''clear-content'', ''clear-item'', ''clear-itemproperty'',
      ''remove-partition'']"

definition POWERSHELL_CMDLET_TIER :: "(string \<times> string) list" where
  "POWERSHELL_CMDLET_TIER =
     verbs TIER_EDIT [''out-file'', ''out-printer'', ''tee-object''] @
     verbs TIER_READ [''clear-host'', ''clear-variable'', ''clear-history'', ''set-location'',
       ''push-location'', ''pop-location'', ''write-output'', ''write-host'', ''write-error'',
       ''write-warning'', ''write-verbose'', ''write-debug''] @
     verbs TIER_EXTENDED [''invoke-expression'', ''invoke-command'', ''invoke-webrequest'',
       ''invoke-restmethod'']"

definition POWERSHELL_READ_PATH_CMDLETS :: "string list" where
  "POWERSHELL_READ_PATH_CMDLETS =
     [''get-content'', ''get-item'', ''get-childitem'', ''get-itemproperty'', ''test-path'',
      ''select-string'', ''import-csv'', ''import-clixml'', ''resolve-path'', ''copy-item'', ''move-item'']"

definition POWERSHELL_WRITE_PATH_CMDLETS :: "string list" where
  "POWERSHELL_WRITE_PATH_CMDLETS =
     [''set-content'', ''add-content'', ''clear-content'', ''out-file'', ''new-item'', ''remove-item'',
      ''rename-item'', ''set-itemproperty'', ''export-csv'', ''export-clixml'']"

section \<open>The floor\<close>

definition PS_RECURSE :: regex where
  "PS_RECURSE = seqs [lit_ci ''-r'', opt (alts (map lit_ci [''ecurse'', ''ecurs'', ''ecur'', ''ecu'', ''ec'', ''e''])), WordB]"

definition PS_FORCE :: regex where
  "PS_FORCE = seqs [lit_ci ''-fo'', opt (alts (map lit_ci [''rce'', ''rc'', ''r''])), WordB]"

definition slash_any :: regex where "slash_any = Chr (\<lambda>c. c = SLASH \<or> c = BSLASH)"

definition PS_ROOT_TARGET :: regex where
  "PS_ROOT_TARGET =
     Seq (alts [seqs [Chr is_letter, lit '':'', Star slash_any], plus slash_any, lit ''~'', lit_ci ''$home'',
            Seq (lit_ci ''$env:'') (alts (map lit_ci
              [''systemroot'', ''windir'', ''userprofile'', ''systemdrive'', ''programfiles'']))])
         (Alt (Ahead (Chr (\<lambda>c. is_quote c \<or> is_space c \<or> c \<in> set '';,|&''))) AtEnd)"

definition ci_words :: "string list \<Rightarrow> regex" where
  "ci_words ws = seqs [WordB, alts (map lit_ci ws), WordB]"

definition PS_DELETE_CMDLET :: regex where
  "PS_DELETE_CMDLET = ci_words [''remove-item'', ''ri'', ''rm'', ''del'', ''erase'', ''rd'', ''rmdir'']"

definition later :: "regex \<Rightarrow> regex" where "later r = Ahead (Seq (Star any_char) r)"

definition quote_or_space :: regex where
  "quote_or_space = Chr (\<lambda>c. is_quote c \<or> is_space c)"

definition PS_ROOT_DELETE :: regex where
  "PS_ROOT_DELETE =
     seqs [PS_DELETE_CMDLET, later PS_RECURSE, later PS_FORCE, Lazy any_char, quote_or_space, PS_ROOT_TARGET]"

definition PS_DRIVE :: regex where
  "PS_DRIVE = lit_ci [BSLASH, BSLASH, CHR ''.'', BSLASH, CHR ''p'', CHR ''h'', CHR ''y'', CHR ''s'', CHR ''i'',
     CHR ''c'', CHR ''a'', CHR ''l'', CHR ''d'', CHR ''r'', CHR ''i'', CHR ''v'', CHR ''e'']"

definition PS_HKLM :: regex where
  "PS_HKLM =
     seqs [ci_words [''remove-item'', ''ri''], later PS_RECURSE, later PS_FORCE, Star any_char, WordB,
       lit_ci ''hk'', alts [lit_ci ''lm'', lit_ci ''ey_local_machine''], lit '':'']"

definition PS_CMD_DELETE :: regex where
  "PS_CMD_DELETE =
     seqs [ci_words [''rd'', ''rmdir''], later (Seq (lit_ci ''/s'') WordB), Lazy any_char, quote_or_space,
       PS_ROOT_TARGET]"

definition PS_CMD_FORMAT :: regex where
  "PS_CMD_FORMAT =
     seqs [Alt AtStart (Chr (\<lambda>c. is_space c \<or> c \<in> set '';&|'')), lit_ci ''format'', plus space, Chr is_letter,
       lit '':'']"

definition POWERSHELL_DANGEROUS_PATTERNS :: "((string \<Rightarrow> bool) \<times> string) list" where
  "POWERSHELL_DANGEROUS_PATTERNS =
     [(re_search PS_ROOT_DELETE, ''Recursive force-delete of a drive / system root is blocked''),
      (re_search (ci_words [''format-volume'']), ''Format-Volume is blocked''),
      (re_search (ci_words [''clear-disk'', ''initialize-disk'', ''remove-partition'']), ''Disk-clearing cmdlet is blocked''),
      (re_search PS_DRIVE, ''Raw physical-drive write is blocked''),
      (re_search PS_HKLM, ''Recursive force-delete of HKLM registry is blocked''),
      (re_search PS_CMD_DELETE, ''Recursive directory delete of a drive root (cmd) is blocked''),
      (re_search PS_CMD_FORMAT, ''Drive format (cmd) is blocked'')]"

section \<open>Encoded and wrapped commands\<close>

definition PS_ENCODED_PRE :: regex where
  "PS_ENCODED_PRE =
     seqs [lit_ci ''-e'', opt (alts (map lit_ci [''c'', ''nc'', ''ncodedcommand''])), WordB, plus space]"

definition PS_ENCODED_BLOB :: regex where
  "PS_ENCODED_BLOB = (let ch = Chr (\<lambda>c. b64_char c \<or> c = CHR ''='') in Seq (seqs (replicate 16 ch)) (Star ch))"

definition encoded_blobs :: "string \<Rightarrow> string list" where
  "encoded_blobs command = groups_after PS_ENCODED_PRE PS_ENCODED_BLOB command"

definition PS_SHELL_UNWRAP_PRE :: regex where
  "PS_SHELL_UNWRAP_PRE =
     (let switch = Seq (Seq (plus space) (lit ''-''))
            (Alt (alts (map lit_ci [''noprofile'', ''nop'', ''nologo'', ''noninteractive'', ''nonint'', ''mta'', ''sta'']))
              (seqs [lit_ci ''windowstyle'', plus space, plus (Chr (\<lambda>c. \<not> is_space c))]));
          dir = Seq (plus (Chr (\<lambda>c. \<not> is_space c \<and> \<not> is_quote c \<and> c \<notin> set [CHR ''|'', CHR ''&'', CHR '';'', BSLASH, SLASH])))
            slash_any
      in seqs [AtStart, Star space, opt (Seq (Chr is_letter) (lit '':'')), opt slash_any, Atomic (Star dir),
           Alt (seqs [alts [lit_ci ''powershell'', lit_ci ''pwsh''], opt (lit_ci ''.exe''), Atomic (Star switch),
                  plus space, lit_ci ''-c'', opt (lit_ci ''ommand'')])
               (seqs [lit_ci ''cmd'', opt (lit_ci ''.exe''), plus space, lit_ci ''/c'']),
           Atomic (plus space)])"

text \<open>The tail after the prefix: between equal quotes, or bare.\<close>

definition unquoted :: "string \<Rightarrow> string" where
  "unquoted r =
     (if 2 \<le> length r \<and> is_quote (hd r) \<and> last r = hd r then butlast (tl r) else r)"

definition ps_unwrap_shell :: "string \<Rightarrow> string option" where
  "ps_unwrap_shell command =
     (case ends PS_SHELL_UNWRAP_PRE (None, rstrip command) of [] \<Rightarrow> None | e # _ \<Rightarrow> Some (unquoted (snd e)))"

section \<open>Tokens and segments\<close>

definition have_token :: "string option \<Rightarrow> string" where
  "have_token cur = (case cur of None \<Rightarrow> [] | Some t \<Rightarrow> t)"

text \<open>The current token is \<open>None\<close> between tokens.\<close>

fun ps_tokens :: "bool \<Rightarrow> bool \<Rightarrow> string option \<Rightarrow> string \<Rightarrow> string list option" where
  "ps_tokens in_s in_d cur [] =
     (if in_s \<or> in_d then None else Some (case cur of None \<Rightarrow> [] | Some t \<Rightarrow> [t]))"
| "ps_tokens in_s in_d cur (c # cs) =
     (if c = BTICK \<and> \<not> in_s \<and> cs \<noteq> [] then ps_tokens in_s in_d (Some (have_token cur @ take 1 cs)) (drop 1 cs)
      else if c = SQUOTE \<and> \<not> in_d then ps_tokens (\<not> in_s) in_d (Some (have_token cur)) cs
      else if c = DQUOTE \<and> \<not> in_s then ps_tokens in_s (\<not> in_d) (Some (have_token cur)) cs
      else if c \<in> {CHR '' '', TAB, NL, CR} \<and> \<not> in_s \<and> \<not> in_d then
        (case cur of
           None \<Rightarrow> ps_tokens in_s in_d None cs
         | Some t \<Rightarrow> map_option ((#) t) (ps_tokens in_s in_d None cs))
      else ps_tokens in_s in_d (Some (have_token cur @ [c])) cs)"

definition ps_tokenize :: "string \<Rightarrow> string list option" where
  "ps_tokenize s = ps_tokens False False None s"

fun ps_split :: "string \<Rightarrow> bool \<Rightarrow> bool \<Rightarrow> string \<Rightarrow> string list option" where
  "ps_split cur in_s in_d [] = (if in_s \<or> in_d then None else Some (push_segment [cur] []))"
| "ps_split cur in_s in_d (c # cs) =
     (if c = BTICK \<and> \<not> in_s \<and> cs \<noteq> [] then ps_split (cur @ [c] @ take 1 cs) in_s in_d (drop 1 cs)
      else if c = SQUOTE \<and> \<not> in_d then ps_split (cur @ [c]) (\<not> in_s) in_d cs
      else if c = DQUOTE \<and> \<not> in_s then ps_split (cur @ [c]) in_s (\<not> in_d) cs
      else if in_s \<or> in_d then ps_split (cur @ [c]) in_s in_d cs
      else if c = NL \<or> c = CR \<or> c = CHR '';'' then map_option (push_segment [cur]) (ps_split [] in_s in_d cs)
      else if c = CHR ''|'' then
        map_option (push_segment [cur]) (ps_split [] in_s in_d (if starts_with cs ''|'' then drop 1 cs else cs))
      else if c = CHR ''&'' \<and> starts_with cs ''&'' then map_option (push_segment [cur]) (ps_split [] in_s in_d (drop 1 cs))
      else ps_split (cur @ [c]) in_s in_d cs)"

definition split_powershell_segments :: "string \<Rightarrow> string list option" where
  "split_powershell_segments command = ps_split [] False False command"

definition ps_normalize_token :: "string \<Rightarrow> string" where
  "ps_normalize_token token =
     (let t = after_last SLASH (after_last BSLASH (quotes_off token));
          low = lower (if ends_with (lower t) ''.exe'' then take (length t - 4) t else t)
      in case lookup POWERSHELL_ALIASES low of None \<Rightarrow> low | Some cmdlet \<Rightarrow> cmdlet)"

definition PS_ASSIGN_PRE :: regex where
  "PS_ASSIGN_PRE =
     seqs [AtStart, lit ''$'', Chr (\<lambda>c. is_letter c \<or> c = CHR ''_''), Star (Chr (\<lambda>c. is_word c \<or> c = CHR '':'')),
       Star space, lit ''='', Star space]"

definition ps_cmdlet_name :: "string \<Rightarrow> string option" where
  "ps_cmdlet_name segment =
     (let seg = strip segment;
          call = (seg \<noteq> [] \<and> hd seg \<in> {CHR ''&'', CHR ''.''} \<and>
                  (length seg = 1 \<or> seg ! 1 \<in> {CHR '' '', TAB, DQUOTE, SQUOTE}));
          seg1 = (if call then strip (tl seg) else seg);
          seg2 = (case ends PS_ASSIGN_PRE (None, seg1) of [] \<Rightarrow> seg1 | e # _ \<Rightarrow> strip (snd e))
      in if seg = [] \<or> seg2 = [] then None
         else (case ps_tokenize seg2 of Some (first # _) \<Rightarrow> Some (ps_normalize_token first) | _ \<Rightarrow> None))"

section \<open>Paths\<close>

definition ps_is_literal_path :: "string \<Rightarrow> bool" where
  "ps_is_literal_path tok =
     (let t = quotes_off tok in
      t \<noteq> [] \<and> \<not> starts_with t ''-'' \<and> CHR ''$'' \<notin> set t \<and> hd t \<notin> {CHR ''('', CHR ''@'', CHR ''{''})"

definition PS_PATH_FLAGS :: "string list" where
  "PS_PATH_FLAGS = [''-path'', ''-literalpath'', ''-filepath'']"

definition PS_SWITCH_FLAGS :: "string list" where
  "PS_SWITCH_FLAGS = [''-recurse'', ''-r'', ''-force'', ''-fo'', ''-whatif'', ''-confirm'', ''-verbose'', ''-debug'',
     ''-passthru'', ''-nonewline'', ''-append'', ''-wait'', ''-quiet'', ''-asjob'', ''-hidden'', ''-directory'',
     ''-file'', ''-readonly'', ''-followsymlink'']"

definition put_path :: "bool \<Rightarrow> string \<Rightarrow> paths \<Rightarrow> paths" where
  "put_path writing p ps = (if writing then apsnd ((#) p) ps else apfst ((#) p) ps)"

text \<open>The loop over the tokens after the cmdlet: whether a positional was taken, whether the last
  token was a flag that takes a value.\<close>

fun ps_path_loop :: "bool \<Rightarrow> bool \<Rightarrow> bool \<Rightarrow> bool \<Rightarrow> string list \<Rightarrow> paths" where
  "ps_path_loop writing path_cmdlet taken after_flag [] = ([], [])"
| "ps_path_loop writing path_cmdlet taken after_flag (raw # rest) =
     (if lower raw \<in> set PS_PATH_FLAGS \<or> lower raw = ''-destination'' then
        (case rest of
           [] \<Rightarrow> ([], [])
         | v # rest' \<Rightarrow>
             (let ps = ps_path_loop writing path_cmdlet taken False rest' in
              if ps_is_literal_path v then put_path (writing \<or> lower raw = ''-destination'') v ps else ps))
      else if dashed raw then
        ps_path_loop writing path_cmdlet taken (lower raw \<notin> set PS_SWITCH_FLAGS) rest
      else if \<not> after_flag \<and> path_cmdlet \<and> \<not> taken \<and> ps_is_literal_path raw then
        put_path writing raw (ps_path_loop writing path_cmdlet True False rest)
      else ps_path_loop writing path_cmdlet taken False rest)"

definition extract_powershell_paths :: "string \<Rightarrow> string \<Rightarrow> paths" where
  "extract_powershell_paths cmdlet segment =
     (let writing = (cmdlet \<in> set POWERSHELL_WRITE_PATH_CMDLETS);
          path_cmdlet = (writing \<or> cmdlet \<in> set POWERSHELL_READ_PATH_CMDLETS);
          tokens = (case ps_tokenize segment of None \<Rightarrow> [] | Some ts \<Rightarrow> ts);
          from = dropWhile (\<lambda>t. ps_normalize_token t \<noteq> cmdlet) tokens;
          args = drop 1 (if from = [] then tokens else from)
      in apsnd (\<lambda>ws. ws @ filter (\<lambda>rp. rp \<noteq> ''/dev/null'') (extract_redirect_targets segment))
           (ps_path_loop writing path_cmdlet False False args))"

end
