(* ===== verification/PowerShellGate.thy ===== *)
theory PowerShellGate
  imports PowerShell
begin

text \<open>
  \<open>proxy/auth/path_shell.py\<close>, the check of a PowerShell command, and
  \<open>proxy/auth/path_policy.py\<close>, the net for a tool the vocabulary does not know.
\<close>

section \<open>PowerShell\<close>

definition ps_denied :: "string \<Rightarrow> path_decision" where
  "ps_denied why = deny (''PowerShell denied: '' @ why)"

fun ps_check_each ::
    "(string \<Rightarrow> path_decision option) \<Rightarrow> (string \<Rightarrow> string \<Rightarrow> string) \<Rightarrow> string list \<Rightarrow> path_decision option option"
  where
  "ps_check_each check say [] = Some None"
| "ps_check_each check say (rp # rps) =
     (case check rp of
        None \<Rightarrow> None
      | Some d \<Rightarrow> if \<not> allowed d then Some (Some (ps_denied (say rp (reason d)))) else ps_check_each check say rps)"

definition ps_tier :: "string \<Rightarrow> string" where
  "ps_tier cmdlet =
     (case lookup POWERSHELL_CMDLET_TIER cmdlet of
        Some t \<Rightarrow> t
      | None \<Rightarrow>
          (case lookup POWERSHELL_VERB_TIER (if CHR ''-'' \<in> set cmdlet then before (CHR ''-'') cmdlet else []) of
             Some t \<Rightarrow> t | None \<Rightarrow> TIER_ASK))"

definition ps_role_gate :: "command_check \<Rightarrow> string \<Rightarrow> string \<Rightarrow> path_decision option" where
  "ps_role_gate k cmdlet tier =
     (if tier \<noteq> TIER_ADMIN then None
      else if cc_remote k then
        (if can_edit (sc_role (cc_ctx k)) then None
         else Some (ps_denied (q1 cmdlet @ '' is restricted to manager / editor / admin roles on remote satellites (current role: '' @ sc_role (cc_ctx k) @ '').'')))
      else if is_admin (sc_role (cc_ctx k)) then None
      else Some (ps_denied (q1 cmdlet @ '' requires platform admin role (current role: '' @ sc_role (cc_ctx k) @ '').'')))"

definition classify_powershell_segment :: "command_check \<Rightarrow> string \<Rightarrow> path_decision option" where
  "classify_powershell_segment k segment =
     (case ps_cmdlet_name segment of
        None \<Rightarrow> Some (granted TIER_READ False)
      | Some cmdlet \<Rightarrow>
         (let ps = extract_powershell_paths cmdlet segment in
          if cc_floor_only k then
            (let check = (\<lambda>writing rp.
               case check_remote_protected_path (cc_host k) rp (cc_ctx k) writing of
                 None \<Rightarrow> None | Some None \<Rightarrow> Some ALLOW | Some (Some d) \<Rightarrow> Some d);
               say = (\<lambda>rp why. ''path '' @ q1 rp @ '': '' @ why)
             in first_refusal
                  (if cc_remote k then [ps_check_each (check False) say (fst ps), ps_check_each (check True) say (snd ps)]
                   else []) (granted TIER_READ False))
          else
            (let destr = (cmdlet \<in> set POWERSHELL_DESTRUCTIVE_CMDLETS);
                 tier = (if destr then tier_max (ps_tier cmdlet) TIER_EDIT else ps_tier cmdlet)
             in case ps_role_gate k cmdlet tier of
                  Some d \<Rightarrow> Some d
                | None \<Rightarrow>
                    first_refusal
                      [ps_check_each (bash_path_decision k False) (quoted_path ''read path'') (fst ps),
                       ps_check_each (bash_path_decision k True) (quoted_path ''write path'') (snd ps)]
                      (granted (if snd ps = [] then tier else tier_max tier TIER_EDIT) destr))))"

text \<open>The text of an encoded command, empty where it does not decode.\<close>

definition decoded :: "string \<Rightarrow> string" where
  "decoded blob = (case decode_command blob of None \<Rightarrow> [] | Some text \<Rightarrow> text)"

text \<open>The command inside a shell wrapper, where it differs from the command itself.\<close>

definition ps_inner :: "string \<Rightarrow> string option" where
  "ps_inner command =
     (case ps_unwrap_shell command of
        None \<Rightarrow> None
      | Some inner \<Rightarrow> if strip inner \<noteq> [] \<and> inner \<noteq> command then Some inner else None)"

definition check_powershell_segments :: "command_check \<Rightarrow> string \<Rightarrow> path_decision option" where
  "check_powershell_segments k command =
     (case split_powershell_segments command of
        None \<Rightarrow> Some (ps_denied ''Unclosed quote in PowerShell command'')
      | Some segments \<Rightarrow>
          (case gather TIER_READ False (map (classify_powershell_segment k) segments) of
             None \<Rightarrow> None
           | Some (Inl d) \<Rightarrow> Some d
           | Some (Inr (tier, destr)) \<Rightarrow> Some (granted tier destr)))"

function check_powershell_string :: "command_check \<Rightarrow> nat \<Rightarrow> string \<Rightarrow> path_decision option" where
  "check_powershell_string k depth raw =
     (if depth > MAX_BASH_DEPTH then Some (ps_denied ''command nesting too deep'')
      else
       (let command = strip raw; blobs = encoded_blobs command in
        if command = [] then Some (granted TIER_READ False)
        else
         (case first_match POWERSHELL_DANGEROUS_PATTERNS command of
            Some why \<Rightarrow> Some (ps_denied why)
          | None \<Rightarrow>
             if blobs \<noteq> [] then
               (case gather TIER_READ False
                       (map (\<lambda>b. check_powershell_string k (depth + 1) (decoded b))
                          (filter (\<lambda>b. strip (decoded b) \<noteq> []) blobs)) of
                  None \<Rightarrow> None
                | Some (Inl d) \<Rightarrow> Some d
                | Some (Inr (tier, destr)) \<Rightarrow>
                    Some (if cc_floor_only k then granted TIER_READ False else granted (tier_max TIER_ASK tier) destr))
             else
              (case ps_inner command of
                 Some inner \<Rightarrow> check_powershell_string k (depth + 1) inner
               | None \<Rightarrow> check_powershell_segments k command))))"
  by pat_completeness auto
termination
  by (relation "measure (\<lambda>(_, depth, _). 9 - depth)") (auto simp: MAX_BASH_DEPTH_def)

declare check_powershell_string.simps [simp del]

definition ps_check :: "host \<Rightarrow> security_context \<Rightarrow> bool \<Rightarrow> command_check" where
  "ps_check h ctx floor_only =
     \<lparr>cc_host = h, cc_ctx = ctx, cc_remote = is_remote (sc_placement ctx), cc_floor_only = floor_only,
      cc_other_host = False, cc_host_asks = False\<rparr>"

definition check_powershell :: "host \<Rightarrow> string \<Rightarrow> security_context \<Rightarrow> path_decision option" where
  "check_powershell h command ctx =
     (if NUL \<in> set command then Some (ps_denied NUL_REASON)
      else if command_references_protected_path (protected_subpaths h) command then
        Some (ps_denied ''command references OAuth credentials directory. Manage accounts in User Settings, Integrations.'')
      else if command_references_protected_agent_config command then
        Some (ps_denied ''agent CLI config files are protected.'')
      else if strip command = [] then Some (deny ''Empty PowerShell command'')
      else if sc_is_admin_agent ctx \<and> is_admin (sc_role ctx) then
        map_option (\<lambda>floor. if \<not> allowed floor then floor else granted TIER_ADMIN False)
          (check_powershell_string (ps_check h ctx True) 0 command)
      else check_powershell_string (ps_check h ctx False) 0 command)"

section \<open>Unknown tools\<close>

definition scan_denied :: "string \<Rightarrow> path_decision" where
  "scan_denied why = deny (''Denied (dangerous command): '' @ why)"

definition scan_value :: "string \<Rightarrow> string option" where
  "scan_value v =
     (if NUL \<in> set v then Some NUL_REASON
      else case first_match DANGEROUS_PATTERNS v of
        Some why \<Rightarrow> Some why
      | None \<Rightarrow>
         (case catastrophe_seen v True of
            Some why \<Rightarrow> Some why
          | None \<Rightarrow> first_match POWERSHELL_DANGEROUS_PATTERNS v))"

fun unknown_tool_dangerous_scan :: "dict \<Rightarrow> path_decision" where
  "unknown_tool_dangerous_scan [] = ALLOW"
| "unknown_tool_dangerous_scan ((key, value) # kvs) =
     (case nonempty_str (Some value) of
        None \<Rightarrow> unknown_tool_dangerous_scan kvs
      | Some v \<Rightarrow> (case scan_value v of Some why \<Rightarrow> scan_denied why | None \<Rightarrow> unknown_tool_dangerous_scan kvs))"

end
