(* ===== verification/UrlGate.thy ===== *)
theory UrlGate
  imports PathPolicy PyNet
begin

text \<open>
  \<open>proxy/auth/path_shell.py\<close>, the gate of a fetched URL: the private host names and the
  special-purpose addresses it refuses.
\<close>

section \<open>URLs\<close>

definition PRIVATE_HOSTNAMES :: "string list" where "PRIVATE_HOSTNAMES = [''localhost'']"
definition PRIVATE_SUFFIXES :: "string list" where "PRIVATE_SUFFIXES = [''.local'', ''.internal'']"

definition check_webfetch :: "string \<Rightarrow> security_context \<Rightarrow> path_decision" where
  "check_webfetch url ctx =
     (if sc_is_admin_agent ctx \<and> is_admin (sc_role ctx) then ALLOW
      else if is_external_ctx ctx \<and> is_remote (sc_placement ctx) then
        deny ''WebFetch is not available on external routes on a remote machine''
      else (case url_netloc url of
        None \<Rightarrow> deny ''WebFetch denied: malformed URL''
      | Some netloc \<Rightarrow>
         (let hostname = url_hostname netloc; private = deny ''WebFetch denied: private/internal address'' in
          if hostname = [] then deny ''WebFetch denied: no hostname in URL''
          else if lower hostname \<in> set PRIVATE_HOSTNAMES then private
          else if list_ex (ends_with (lower hostname)) PRIVATE_SUFFIXES then private
          else (case ip_address hostname of
                  Some a \<Rightarrow> if is_special a then private else ALLOW
                | None \<Rightarrow> ALLOW))))"

section \<open>Dotted addresses\<close>

definition digit :: "nat \<Rightarrow> char" where "digit d = char_of (48 + d)"

lemma digit_facts:
  assumes "d < 10"
  shows "(of_char (digit d) :: nat) = 48 + d" "is_digit (digit d)" "digit d = CHR ''0'' \<longleftrightarrow> d = 0"
proof -
  show 1: "(of_char (digit d) :: nat) = 48 + d" using assms by (simp add: digit_def)
  then show "is_digit (digit d)" using assms by (simp add: is_digit_def)
  have "(of_char (CHR ''0'') :: nat) = 48" by simp
  with 1 show "digit d = CHR ''0'' \<longleftrightarrow> d = 0" by (metis add_cancel_right_right of_char_eq_iff)
qed

lemma nat_str_small:
  "n < 10 \<Longrightarrow> nat_str n = [digit n]"
  "10 \<le> n \<Longrightarrow> n < 100 \<Longrightarrow> nat_str n = [digit (n div 10), digit (n mod 10)]"
  "100 \<le> n \<Longrightarrow> n < 1000 \<Longrightarrow> nat_str n = [digit (n div 100), digit (n div 10 mod 10), digit (n mod 10)]"
proof -
  show 1: "nat_str n = [digit n]" if "n < 10" for n
    using that by (simp add: nat_str.simps [of n] digit_def)
  show 2: "nat_str n = [digit (n div 10), digit (n mod 10)]" if "10 \<le> n" "n < 100" for n
    using that 1 [of "n div 10"] by (simp add: nat_str.simps [of n] digit_def)
  show "nat_str n = [digit (n div 100), digit (n div 10 mod 10), digit (n mod 10)]" if "100 \<le> n" "n < 1000" for n
    using that 2 [of "n div 10"] by (simp add: nat_str.simps [of n] digit_def div_mult2_eq [symmetric])
qed

lemma dec_digits:
  assumes "a < 10" "b < 10" "c < 10"
  shows "dec_value [digit a] = a" "dec_value [digit a, digit b] = 10 * a + b"
    "dec_value [digit a, digit b, digit c] = 100 * a + 10 * b + c"
  using assms by (simp_all add: dec_value_def digit_facts(1))

lemma parse_digits:
  assumes "list_all (\<lambda>d. d < 10) ds" "ds \<noteq> []" "length ds \<le> 3" "hd ds \<noteq> 0 \<or> length ds = 1"
    and "dec_value (map digit ds) = n" "n < 256"
  shows "parse_octet (map digit ds) = Some n"
proof -
  have "list_all is_digit (map digit ds)" using assms(1) digit_facts(2) by (auto simp: list_all_iff)
  moreover have "map digit ds = ''0'' \<or> hd (map digit ds) \<noteq> CHR ''0''"
    using assms(1,2,4) digit_facts(3) [of "hd ds"] by (cases ds) auto
  ultimately show ?thesis using assms by (auto simp: parse_octet_def)
qed

lemma octets_parse:
  assumes "n < 256"
  shows "parse_octet (nat_str n) = Some n"
proof -
  consider (one) "n < 10" | (two) "10 \<le> n" "n < 100" | (three) "100 \<le> n" "n < 1000" using assms by linarith
  then show ?thesis
  proof cases
    case one
    with parse_digits [of "[n]" n] dec_digits(1) [of n] assms show ?thesis by (simp add: nat_str_small)
  next
    case two
    define a b where "a = n div 10" and "b = n mod 10"
    have d: "a < 10" "a \<noteq> 0" "b < 10" "10 * a + b = n" using two by (auto simp: a_def b_def)
    have "nat_str n = map digit [a, b]" using nat_str_small(2) [OF two] by (simp add: a_def b_def)
    moreover have "parse_octet (map digit [a, b]) = Some n"
      by (rule parse_digits) (use d assms dec_digits(2) [of a b] in simp_all)
    ultimately show ?thesis by (simp only:)
  next
    case three
    define a b c where "a = n div 100" and "b = n div 10 mod 10" and "c = n mod 10"
    have d: "a < 10" "a \<noteq> 0" "b < 10" "c < 10" using three by (auto simp: a_def b_def c_def)
    have "a = n div 10 div 10" by (simp add: a_def div_mult2_eq [symmetric])
    then have "10 * a + b = n div 10" unfolding b_def using mult_div_mod_eq [of 10 "n div 10"] by (simp only:)
    then have e: "100 * a + 10 * b + c = n" unfolding c_def using mult_div_mod_eq [of 10 n] by linarith
    have "nat_str n = map digit [a, b, c]" using nat_str_small(3) [OF three] by (simp add: a_def b_def c_def)
    moreover have "parse_octet (map digit [a, b, c]) = Some n"
      by (rule parse_digits) (use d e assms dec_digits(3) [of a b c] in simp_all)
    ultimately show ?thesis by (simp only:)
  qed
qed

lemma byte_of_word: "unat (drop_bit k (w :: 32 word) AND 255) = unat w div 2 ^ k mod 256"
proof -
  have "drop_bit k w AND 255 = take_bit 8 (drop_bit k w)"
    by (simp add: take_bit_eq_mask mask_eq_exp_minus_1)
  then have "unat (drop_bit k w AND 255) = take_bit 8 (drop_bit k (unat w))"
    by (simp only: unsigned_take_bit_eq unat_drop_bit_eq)
  then show ?thesis by (simp only: take_bit_eq_mod drop_bit_eq_div) simp
qed

lemma dotted_chars: "c \<in> set (dotted w) \<Longrightarrow> is_digit c \<or> c = CHR ''.''"
proof -
  have "set (nat_str n) \<subseteq> {c. is_digit c}" for n using nat_str_digits [of n] by (auto simp: list_all_iff)
  then show "c \<in> set (dotted w) \<Longrightarrow> is_digit c \<or> c = CHR ''.''" unfolding dotted_def by auto
qed

lemma dotted_parses: "parse_v4 (dotted w) = Some w"
proof -
  define b where "b = (\<lambda>k. unat (drop_bit k w AND 255))"
  have byte: "b k = unat w div 2 ^ k mod 256" for k unfolding b_def by (rule byte_of_word)
  have no_dot: "CHR ''.'' \<notin> set (nat_str n)" for n
    using nat_str_digits [of n] by (auto simp: list_all_iff is_digit_def)
  have "dotted w = join_on ''.'' (map (\<lambda>k. nat_str (b k)) [24, 16, 8, 0])"
    by (simp add: dotted_def b_def)
  then have "split_on (CHR ''.'') (dotted w) = map (\<lambda>k. nat_str (b k)) [24, 16, 8, 0]"
    using split_join [of "map (\<lambda>k. nat_str (b k)) [24, 16, 8, 0]" "CHR ''.''"] no_dot by simp
  moreover have "parse_octet (nat_str (b k)) = Some (b k)" for k
    by (rule octets_parse) (simp add: byte)
  moreover have "256 * (256 * (256 * b 24 + b 16) + b 8) + b 0 = unat w"
  proof -
    have "unat w < 2 ^ 32" using unsigned_less [of w] by simp
    then have "unat w div 2 ^ 24 mod 256 = unat w div 2 ^ 24" by (simp add: div_less_iff_less_mult less_mult_imp_div_less)
    moreover have "unat w div 2 ^ 16 = 256 * (unat w div 2 ^ 24) + unat w div 2 ^ 16 mod 256"
      "unat w div 2 ^ 8 = 256 * (unat w div 2 ^ 16) + unat w div 2 ^ 8 mod 256"
      "unat w = 256 * (unat w div 2 ^ 8) + unat w mod 256"
      using mult_div_mod_eq [of 256 "unat w div 2 ^ 16"] mult_div_mod_eq [of 256 "unat w div 2 ^ 8"]
        mult_div_mod_eq [of 256 "unat w"]
      by (simp_all add: div_mult2_eq [symmetric])
    ultimately show ?thesis unfolding byte by simp
  qed
  ultimately show ?thesis by (simp add: parse_v4_def)
qed

section \<open>Properties\<close>

lemma take_dotted: "takeWhile (\<lambda>c. c \<notin> set ''/?#'') (dotted w @ SLASH # s) = dotted w"
proof -
  have "takeWhile (\<lambda>c. c \<notin> set ''/?#'') (dotted w) = dotted w"
    using dotted_chars [of _ w] by (fastforce simp: is_digit_def)
  moreover have "\<forall>c \<in> set (dotted w). c \<notin> set ''/?#''"
    using dotted_chars [of _ w] by (fastforce simp: is_digit_def)
  ultimately show ?thesis by (subst takeWhile_append2) auto
qed

lemma dotted_url: "url_netloc (''http://'' @ dotted w @ SLASH # s) = Some (dotted w)"
proof -
  let ?f = "filter (\<lambda>c. c \<notin> {TAB, CR, NL})"
  have f: "?f (dotted w) = dotted w"
    using dotted_chars [of _ w] by (fastforce simp: is_digit_def intro: filter_True)
  have b: "CHR ''['' \<notin> set (dotted w)" "CHR '']'' \<notin> set (dotted w)"
    using dotted_chars [of _ w] by (fastforce simp: is_digit_def)+
  have "url_netloc (''http://'' @ dotted w @ SLASH # s) =
      (let netloc = takeWhile (\<lambda>c. c \<notin> set ''/?#'') (dotted w @ SLASH # ?f s)
       in if (CHR ''['' \<in> set netloc) \<noteq> (CHR '']'' \<in> set netloc) then None
         else if CHR ''['' \<in> set netloc \<and> \<not> bracketed_ok (before (CHR '']'') (after (CHR ''['') netloc)) then None
         else Some netloc)"
    unfolding url_netloc_def using f
    by (simp add: Let_def before_def after_def starts_with_def scheme_char_def is_alnum_def is_letter_def)
  then show ?thesis using b by (simp only: take_dotted Let_def) simp
qed

lemma dotted_hostname: "url_hostname (dotted w) = dotted w"
proof -
  have c: "CHR ''@'' \<notin> set (dotted w)" "CHR ''['' \<notin> set (dotted w)" "\<forall>c \<in> set (dotted w). c \<noteq> CHR '':''"
    "\<forall>c \<in> set (dotted w). c \<noteq> CHR ''%''"
    using dotted_chars [of _ w] by (fastforce simp: is_digit_def)+
  have l: "lower (dotted w) = dotted w"
    unfolding lower_def using dotted_chars [of _ w]
    by (intro map_idI) (fastforce simp: lower_char_def is_digit_def Let_def)
  have t: "takeWhile (\<lambda>x. x \<noteq> CHR '':'') (dotted w) = dotted w" "takeWhile (\<lambda>x. x \<noteq> CHR ''%'') (dotted w) = dotted w"
    "dropWhile (\<lambda>x. x \<noteq> CHR ''%'') (dotted w) = []"
    using c(3,4) by (simp_all add: takeWhile_eq_all_conv)
  show ?thesis
    using c(1,2) l by (simp add: url_hostname_def url_hostinfo_def rpartition_def before_def Let_def t)
qed

text \<open>A fetched URL never reaches a private address written out as one: for every IPv4 address in a
  private, loopback, link-local or reserved range, written in dotted decimals, the gate refuses the
  URL to everybody but an admin on an admin agent.\<close>

theorem private_address_refused:
  assumes "is_special (V4 w)" "\<not> (sc_is_admin_agent ctx \<and> is_admin (sc_role ctx))"
  shows "\<not> allowed (check_webfetch (''http://'' @ dotted w @ SLASH # s) ctx)"
proof -
  have "SLASH \<notin> set (dotted w)" using dotted_chars [of SLASH w] by (auto simp: is_digit_def)
  then have "ip_address (dotted w) = Some (V4 w)" by (simp add: ip_address_def dotted_parses Let_def)
  with assms show ?thesis
    unfolding check_webfetch_def dotted_url option.case Let_def dotted_hostname by (simp add: deny_def)
qed

theorem private_address_refused_witness:
  "\<not> allowed (check_webfetch (''http://'' @ dotted (quad 169 254 169 254) @ ''/latest/meta-data'') demo_ctx)"
proof -
  have "is_special (V4 (quad 169 254 169 254))"
    by (simp add: is_special_def in_net_def quad_def)
  moreover have "\<not> (sc_is_admin_agent demo_ctx \<and> is_admin (sc_role demo_ctx))" by code_simp
  ultimately show ?thesis
    using private_address_refused [of "quad 169 254 169 254" demo_ctx "''latest/meta-data''"] by simp
qed

text \<open>The same host written with its root dot passes. The gate compares the host's text: \<open>localhost.\<close>
  and \<open>127.0.0.1.\<close>, which name the same hosts, are neither a private name nor an address to it, and
  an editor's fetch of them is allowed, where \<open>localhost\<close> is refused.\<close>

theorem root_dot_passes:
  "allowed (check_webfetch ''http://localhost./'' demo_ctx) \<and> allowed (check_webfetch ''http://127.0.0.1./'' demo_ctx) \<and>
   \<not> allowed (check_webfetch ''http://localhost/'' demo_ctx)"
proof -
  have n: "url_netloc ''http://localhost./'' = Some ''localhost.''" "url_netloc ''http://127.0.0.1./'' = Some ''127.0.0.1.''"
    "url_netloc ''http://localhost/'' = Some ''localhost''"
    by (simp_all add: url_netloc_def Let_def before_def after_def starts_with_def scheme_char_def is_alnum_def is_letter_def)
  have h: "url_hostname ''localhost.'' = ''localhost.''" "url_hostname ''127.0.0.1.'' = ''127.0.0.1.''"
    "url_hostname ''localhost'' = ''localhost''" by code_simp+
  have i: "ip_address ''localhost.'' = None" "ip_address ''127.0.0.1.'' = None"
    by (simp_all add: ip_address_def Let_def before_def after_def parse_v4_def parse_v6_def v6_parts_def parse_octet_def is_digit_def)
  have c: "sc_is_admin_agent demo_ctx = False" "is_external_ctx demo_ctx = False" by code_simp+
  have p: "(lower ''localhost.'' \<in> set PRIVATE_HOSTNAMES) = False" "(lower ''127.0.0.1.'' \<in> set PRIVATE_HOSTNAMES) = False"
    "(lower ''localhost'' \<in> set PRIVATE_HOSTNAMES) = True"
    "list_ex (ends_with (lower ''localhost.'')) PRIVATE_SUFFIXES = False"
    "list_ex (ends_with (lower ''127.0.0.1.'')) PRIVATE_SUFFIXES = False" by code_simp+
  show ?thesis
    unfolding check_webfetch_def n h option.case Let_def i c p by (simp add: ALLOW_def deny_def)
qed

end
