(* ===== verification/ToolGate.thy ===== *)
theory ToolGate
  imports ShellGate PowerShellGate UrlGate
begin

text \<open>
  \<open>proxy/auth/path_policy.py\<close>, the dispatch of a tool call: a command to the shell gates, a URL to its
  gate, a patch and a file tool on the platform host to the checks of the theory PathPolicy and on a
  paired machine to those of the theory RemotePath, an unknown tool to the net. An outer \<open>None\<close> is a
  raise.
\<close>

section \<open>The entry point\<close>

fun protected_candidate :: "host \<Rightarrow> string \<Rightarrow> bool \<Rightarrow> string list list \<Rightarrow> path_decision option" where
  "protected_candidate h verb writing [] = None"
| "protected_candidate h verb writing (c # cs) =
     (if is_protected_credentials_path (protected_subpaths h) c then
        Some (deny (verb @ '' denied: OAuth credentials are protected. Manage accounts in User Settings, Integrations.''))
      else if is_protected_agent_config_path c writing then
        Some (deny (verb @ '' denied: agent CLI config files are protected.''))
      else protected_candidate h verb writing cs)"

text \<open>The universal denies of a file tool's path: the outer option is the raise.\<close>

definition protected_tool_path_denial ::
    "host \<Rightarrow> string \<Rightarrow> dict \<Rightarrow> security_context \<Rightarrow> path_decision option option" where
  "protected_tool_path_denial h tool tool_input ctx =
     (if payload_of tool \<notin> {FILE_PATH, SEARCH_PATH} then Some None
      else
        (let raw = payload_value tool (Some tool_input); writing = writes tool;
             verb = (if writing then ''Write'' else ''Read'')
         in if raw = [] then Some None
            else if needs_path_translation (sc_placement ctx) then
              (case resolve_tool_path h ctx writing raw of
                 None \<Rightarrow> None
               | Some res \<Rightarrow> if \<not> res_allowed res \<and> res_protected res
                   then Some (Some (deny (verb @ '' denied: '' @ error_of res))) else Some None)
            else (case resolve_candidates h raw ctx of
                    None \<Rightarrow> None
                  | Some cands \<Rightarrow> Some (protected_candidate h verb writing cands))))"

definition plans_dir :: "host \<Rightarrow> string list" where
  "plans_dir h = resolve h (HOME h @ [''.claude'', ''plans''])"

text \<open>A declared tool below the shell, URL and patch dispatch: the decision and the new plan
  file's name; \<open>None\<close> is the raise.\<close>

definition check_declared_tool ::
    "host \<Rightarrow> string \<Rightarrow> dict \<Rightarrow> security_context \<Rightarrow> (path_decision \<times> string option) option" where
  "check_declared_tool h tool tool_input ctx =
     (let payload = payload_of tool; raw = payload_value tool (Some tool_input) in
      if admin_fast_path ctx then
        (case protected_tool_path_denial h tool tool_input ctx of
           None \<Rightarrow> None
         | Some None \<Rightarrow> Some (ALLOW, None)
         | Some (Some d) \<Rightarrow> Some (d, None))
      else if needs_path_translation (sc_placement ctx) then
        (if payload \<notin> {FILE_PATH, SEARCH_PATH} \<or> raw = [] then Some (ALLOW, None)
         else map_option (\<lambda>d. (d, None)) (check_remote_file_tool h tool raw tool_input ctx))
      else if payload = FILE_PATH then
        (if raw = [] then Some (ALLOW, None)
         else (let p = resolve_path h (translate_sandbox_path h raw ctx) in
           if path_under p (plans_dir h)
             then Some (ALLOW, if writes tool then Some (path_name p) else None)
           else map_option (\<lambda>d. (d, None)) (check_path_arg h raw ctx (writes tool))))
      else if payload = SEARCH_PATH then
        (if raw = [] then Some (ALLOW, None)
         else map_option (\<lambda>d. (d, None)) (check_path_arg h raw ctx False))
      else Some (ALLOW, None))"

definition extra_paths :: "string \<Rightarrow> dict \<Rightarrow> string list" where
  "extra_paths tool tool_input =
     (if role_of tool = WRITE \<and> payload_of tool = FILE_PATH then
        (case dget tool_input ''_codex_paths'' of
           Some (JArr xs) \<Rightarrow> List.map_filter (\<lambda>x. nonempty_str (Some x)) (drop 1 xs)
         | _ \<Rightarrow> [])
      else [])"

fun check_extra_paths ::
    "host \<Rightarrow> string \<Rightarrow> security_context \<Rightarrow> string list \<Rightarrow> path_decision option" where
  "check_extra_paths h tool ctx [] = Some ALLOW"
| "check_extra_paths h tool ctx (x # xs) =
     (case check_declared_tool h tool [(''file_path'', JStr x)] ctx of
        None \<Rightarrow> None
      | Some (d, _) \<Rightarrow> if \<not> allowed d then Some d else check_extra_paths h tool ctx xs)"

definition check_tool_access ::
    "host \<Rightarrow> string \<Rightarrow> dict \<Rightarrow> security_context \<Rightarrow> (path_decision \<times> string option) option" where
  "check_tool_access h tool tool_input ctx =
     (if starts_with tool ''mcp__'' then Some (ALLOW, None)
      else if role_of tool = [] then
        (if carries_command (Some tool_input) then
           Some (deny (tool @ '' is not a tool this platform knows; a command tool must be declared in core/events/tool_roles.py''), None)
         else Some (unknown_tool_dangerous_scan tool_input, None))
      else if role_of tool = SHELL then
        (let command = payload_value tool (Some tool_input) in
         map_option (\<lambda>d. (d, None))
           (if dialect_of tool = POWERSHELL then check_powershell h command ctx else check_bash h command ctx))
      else if role_of tool = WEB_FETCH then
        Some (check_webfetch (payload_value tool (Some tool_input)) ctx, None)
      else if payload_of tool = PATCH then
        (if needs_path_translation (sc_placement ctx) then map_option (\<lambda>d. (d, None)) (check_apply_patch_remote h tool_input ctx)
         else map_option (\<lambda>d. (d, None)) (check_apply_patch h tool_input ctx))
      else (case check_extra_paths h tool ctx (extra_paths tool tool_input) of
              None \<Rightarrow> None
            | Some d \<Rightarrow> if \<not> allowed d then Some (d, None)
                        else check_declared_tool h tool tool_input ctx))"

section \<open>Properties of the dispatch\<close>

text \<open>An undeclared tool never runs a command: whatever the role, the placement or the admin
  standing, a call of a tool the vocabulary does not know that carries a command payload is
  denied.\<close>

theorem undeclared_command_denied:
  assumes "role_of tool = []" "\<not> starts_with tool ''mcp__''" "carries_command (Some tool_input)"
  shows "\<exists>d. check_tool_access h tool tool_input ctx = Some (d, None) \<and> \<not> allowed d"
  using assms by (simp add: check_tool_access_def)

theorem undeclared_command_denied_witness:
  "\<exists>d. check_tool_access demo_host ''RunIt'' [(''cmd'', JStr ''ls'')] demo_ctx = Some (d, None) \<and>
     \<not> allowed d"
proof (rule undeclared_command_denied)
  show "role_of ''RunIt'' = []" by (simp add: role_of_cases TOOL_ROLES_def)
  show "\<not> starts_with ''RunIt'' ''mcp__''" by code_simp
  show "carries_command (Some [(''cmd'', JStr ''ls'')])" by code_simp
qed

text \<open>A multi-file write is gated file by file: when a write whose \<open>_codex_paths\<close> lists more
  files passes on a local sandbox, every extra file passed as a write of its own.\<close>

theorem extra_paths_gated:
  assumes "check_tool_access h tool tool_input ctx = Some (d, plan)" "allowed d"
    and "role_of tool = WRITE" "payload_of tool = FILE_PATH" "\<not> starts_with tool ''mcp__''"
    and "x \<in> set (extra_paths tool tool_input)"
  shows "\<exists>e q. check_declared_tool h tool [(''file_path'', JStr x)] ctx = Some (e, q) \<and> allowed e"
proof -
  have step: "\<exists>e q. check_declared_tool h tool [(''file_path'', JStr x)] ctx = Some (e, q) \<and> allowed e"
    if "check_extra_paths h tool ctx xs = Some d" "allowed d" "x \<in> set xs" for xs d
    using that by (induction xs) (auto split: option.splits if_splits)
  have "WRITE \<noteq> SHELL" "WRITE \<noteq> WEB_FETCH" "WRITE \<noteq> []" "FILE_PATH \<noteq> PATCH"
    by (simp_all add: word_defs)
  with assms obtain d' where "check_extra_paths h tool ctx (extra_paths tool tool_input) = Some d'"
    "allowed d'"
    by (auto simp: check_tool_access_def split: option.splits if_splits)
  with step assms(6) show ?thesis by blast
qed

theorem extra_paths_gated_witness:
  "\<exists>e q. check_declared_tool demo_host ''Edit'' [(''file_path'', JStr ''/workspace/b'')] demo_ctx
     = Some (e, q) \<and> allowed e"
proof -
  let ?in = "[(''file_path'', JStr ''/workspace/a''),
    (''_codex_paths'', JArr [JStr ''/workspace/a'', JStr ''/workspace/b''])]"
  have r: "role_of ''Edit'' = WRITE" "payload_of ''Edit'' = FILE_PATH"
    by (simp_all add: role_of_cases TOOL_ROLES_def payload_of_def get_or_def TOOL_PAYLOADS_def)
  have m: "\<not> starts_with ''Edit'' ''mcp__''" by code_simp
  have x: "''/workspace/b'' \<in> set (extra_paths ''Edit'' ?in)"
    by (simp add: extra_paths_def r dget_def nonempty_str_def List.map_filter_def)
  have v: "payload_value ''Edit'' (Some ?in) = ''/workspace/a''"
    "payload_value ''Edit'' (Some [(''file_path'', JStr ''/workspace/b'')]) = ''/workspace/b''"
    by code_simp+
  have "map_option (allowed \<circ> fst) (check_tool_access demo_host ''Edit'' ?in demo_ctx) = Some True"
    by code_simp
  then obtain d q where "check_tool_access demo_host ''Edit'' ?in demo_ctx = Some (d, q)" "allowed d"
    by auto
  from extra_paths_gated [OF this r m x] show ?thesis .
qed

text \<open>C23. A file tool that names a path on a paired machine passes two gates, in every session but an admin's on an
  admin agent: the machine's resolver admits the path, and when the path it resolves to is in the agent tree,
  the role matrix of the platform admits the same path there.\<close>

theorem remote_tool_gated_twice:
  assumes "check_declared_tool h tool tool_input ctx = Some (d, plan)" "allowed d"
    and "\<not> admin_fast_path ctx" "needs_path_translation (sc_placement ctx)"
    and "payload_of tool = FILE_PATH \<or> payload_of tool = SEARCH_PATH"
    and "payload_value tool (Some tool_input) = raw" "raw \<noteq> []"
  shows "\<exists>res. resolve_path_for_session (protected_subpaths h) (context_from_security ctx) (writes tool) raw
       = Some res \<and> res_allowed res \<and>
     (\<forall>v. res_ref res = Some (AgentTree v) \<longrightarrow>
        allowed (check_host_path_access h
          (resolve_path h (translate_sandbox_path h (or_else (sandbox_relative res) (SLASH # v)) ctx))
          ctx (writes tool)))"
proof -
  have "check_remote_file_tool h tool raw tool_input ctx = Some d"
    using assms by (auto simp: check_declared_tool_def Let_def)
  then obtain res where r: "resolve_tool_path h ctx (writes tool) raw = Some res" "res_allowed res"
    "allowed (enforce_agent_tree_rbac h res ctx (writes tool))"
    using assms(2) by (auto simp: check_remote_file_tool_def Let_def split: option.splits if_splits)
  then show ?thesis unfolding resolve_tool_path_def using rbac_tree [of res _ h ctx "writes tool"] by auto
qed

lemma read_tool: "payload_of ''Read'' = FILE_PATH" "\<not> writes ''Read''"
  by (simp_all add: role_of_cases TOOL_ROLES_def payload_of_def get_or_def TOOL_PAYLOADS_def writes_def word_defs)

lemma demo_remote_read:
  "\<exists>d. check_declared_tool demo_host ''Read'' [(''file_path'', JStr ''/workspace/a'')] (demo_on demo_remote) = Some (d, None) \<and> allowed d"
proof -
  have "map_option (\<lambda>(d, q). (allowed d, q))
      (check_declared_tool demo_host ''Read'' [(''file_path'', JStr ''/workspace/a'')] (demo_on demo_remote)) =
    Some (True, None)"
    unfolding check_declared_tool_def check_remote_file_tool_def resolve_tool_path_def
    by (subst resolve_path_for_session.simps) code_simp
  then show ?thesis by auto
qed

theorem remote_tool_gated_twice_witness:
  "\<exists>res. resolve_path_for_session (protected_subpaths demo_host) (context_from_security (demo_on demo_remote))
     (writes ''Read'') ''/workspace/a'' = Some res \<and> res_allowed res"
proof -
  obtain d where d: "check_declared_tool demo_host ''Read'' [(''file_path'', JStr ''/workspace/a'')]
      (demo_on demo_remote) = Some (d, None)" "allowed d" using demo_remote_read by blast
  have c: "\<not> admin_fast_path (demo_on demo_remote)" "needs_path_translation (sc_placement (demo_on demo_remote))"
    "payload_value ''Read'' (Some [(''file_path'', JStr ''/workspace/a'')]) = ''/workspace/a''"
    "''/workspace/a'' \<noteq> []" by code_simp+
  show ?thesis
    using remote_tool_gated_twice [OF d c(1,2) disjI1 [OF read_tool(1)] c(3,4)] by blast
qed

lemma remote_patch_files_allowed:
  "check_remote_patch_files h ctx pctx cs = Some d \<Longrightarrow> allowed d \<Longrightarrow> (k, raw, w) \<in> set cs \<Longrightarrow>
   \<exists>res. resolve_path_for_session (protected_subpaths h) pctx w raw = Some res \<and> res_allowed res \<and>
     \<not> is_virtual_form raw \<and> allowed (enforce_agent_tree_rbac h res ctx w)"
  by (induction h ctx pctx cs rule: check_remote_patch_files.induct)
    (auto simp: Let_def split: option.splits if_splits)

text \<open>A patch on a paired machine is gated file by file: when it passes, every file it announces
  was admitted by the machine's resolver for a write (an updated file for a read too), is spelled
  as the machine spells it, and passed the role matrix when it lies in the agent tree. An admin on
  an admin agent is held to the same, the home band apart.\<close>

theorem remote_patch_gated_per_file:
  assumes "check_apply_patch_remote h tool_input ctx = Some d" "allowed d"
    and "(k, raw, w) \<in> set (patch_checks tool_input)"
  shows "\<exists>res. resolve_path_for_session (protected_subpaths h) (patch_context ctx) w raw = Some res \<and>
      res_allowed res \<and> \<not> is_virtual_form raw \<and>
      (\<forall>v. res_ref res = Some (AgentTree v) \<longrightarrow>
        allowed (check_host_path_access h
          (resolve_path h (translate_sandbox_path h (or_else (sandbox_relative res) (SLASH # v)) ctx)) ctx w))"
proof -
  from assms(1) have "check_remote_patch_files h ctx (patch_context ctx) (patch_checks tool_input) = Some d"
    by (simp add: check_apply_patch_remote_def)
  from remote_patch_files_allowed [OF this assms(2,3)] show ?thesis by (metis rbac_tree)
qed

definition demo_remote_patch :: dict where
  "demo_remote_patch = [(''command'', JStr (''*** Add File: /home/bob/notes.txt'' @ [CHR 10] @ ''+x''))]"

theorem remote_patch_gated_per_file_witness:
  "\<exists>res. resolve_path_for_session (protected_subpaths demo_host) (patch_context (demo_on demo_remote)) True
     ''/home/bob/notes.txt'' = Some res \<and> res_allowed res \<and> \<not> is_virtual_form ''/home/bob/notes.txt''"
proof -
  have chk: "patch_checks demo_remote_patch = [(''Add File'', ''/home/bob/notes.txt'', True)]" by code_simp
  have "map_option allowed (check_apply_patch_remote demo_host demo_remote_patch (demo_on demo_remote)) = Some True"
    unfolding check_apply_patch_remote_def chk
    by (subst check_remote_patch_files.simps, subst resolve_path_for_session.simps) code_simp
  then obtain d where "check_apply_patch_remote demo_host demo_remote_patch (demo_on demo_remote) = Some d"
    "allowed d" by auto
  from remote_patch_gated_per_file [OF this, of "''Add File''" "''/home/bob/notes.txt''" True] chk
  show ?thesis by auto
qed

lemma protected_candidate_None:
  "protected_candidate h verb w cs = None \<Longrightarrow> c \<in> set cs \<Longrightarrow>
   \<not> is_protected_credentials_path (protected_subpaths h) c \<and> \<not> is_protected_agent_config_path c w"
  by (induction h verb w cs rule: protected_candidate.induct) (auto split: if_splits)

lemma protected_candidate_denies: "protected_candidate h verb w cs = Some d \<Longrightarrow> \<not> allowed d"
  by (induction h verb w cs rule: protected_candidate.induct) (auto split: if_splits)

text \<open>An admin on an admin agent skips the role matrix and never the protected files: a file
  tool that passes there names, in none of the spellings the platform would resolve it to,
  credentials or the CLI configuration, and on a machine no path the resolver refuses to everybody,
  the machine's own OtoDock folder included.\<close>

theorem admin_keeps_protected:
  assumes "check_declared_tool h tool tool_input ctx = Some (d, plan)" "allowed d" "admin_fast_path ctx"
    and "payload_of tool = FILE_PATH \<or> payload_of tool = SEARCH_PATH"
    and "payload_value tool (Some tool_input) = raw" "raw \<noteq> []"
  shows "if needs_path_translation (sc_placement ctx)
    then \<exists>res. resolve_path_for_session (protected_subpaths h) (context_from_security ctx) (writes tool) raw
           = Some res \<and> (res_allowed res \<or> \<not> res_protected res)
    else \<exists>cands. resolve_candidates h raw ctx = Some cands \<and>
           (\<forall>c \<in> set cands. \<not> is_protected_credentials_path (protected_subpaths h) c \<and>
              \<not> is_protected_agent_config_path c (writes tool))"
proof -
  obtain v where v: "protected_tool_path_denial h tool tool_input ctx = Some v" "v = None \<or> v = Some d"
    using assms(1,3) by (auto simp: check_declared_tool_def Let_def split: option.splits)
  have payload: "payload_of tool \<in> {FILE_PATH, SEARCH_PATH}" using assms(4) by auto
  have shape: "protected_tool_path_denial h tool tool_input ctx =
     (if needs_path_translation (sc_placement ctx) then
        (case resolve_tool_path h ctx (writes tool) raw of None \<Rightarrow> None
         | Some res \<Rightarrow> if \<not> res_allowed res \<and> res_protected res
             then Some (Some (deny ((if writes tool then ''Write'' else ''Read'') @ '' denied: '' @ error_of res)))
             else Some None)
      else (case resolve_candidates h raw ctx of None \<Rightarrow> None
         | Some cands \<Rightarrow> Some (protected_candidate h (if writes tool then ''Write'' else ''Read'') (writes tool) cands)))"
    using payload assms(5,6) unfolding protected_tool_path_denial_def Let_def by simp
  show ?thesis
  proof (cases "needs_path_translation (sc_placement ctx)")
    case True
    with v shape assms(2) show ?thesis
      by (auto simp: resolve_tool_path_def split: option.splits if_splits)
  next
    case False
    with v(1) shape obtain cands where c: "resolve_candidates h raw ctx = Some cands"
      "v = protected_candidate h (if writes tool then ''Write'' else ''Read'') (writes tool) cands"
      by (auto split: option.splits)
    with v(2) assms(2) protected_candidate_denies
    have "protected_candidate h (if writes tool then ''Write'' else ''Read'') (writes tool) cands = None"
      by metis
    from protected_candidate_None [OF this] c(1) False show ?thesis by simp
  qed
qed

definition demo_admin :: security_context where
  "demo_admin = demo_ctx\<lparr>sc_role := ADMIN, sc_is_admin_agent := True\<rparr>"

theorem admin_keeps_protected_witness:
  "\<exists>cands. resolve_candidates demo_host ''/config/a'' demo_admin = Some cands \<and>
     (\<exists>c \<in> set cands. \<not> is_protected_agent_config_path c False)"
proof -
  let ?in = "[(''file_path'', JStr ''/config/a'')]"
  have c: "admin_fast_path demo_admin" "payload_value ''Read'' (Some ?in) = ''/config/a''" "''/config/a'' \<noteq> []"
    "\<not> needs_path_translation (sc_placement demo_admin)" by code_simp+
  have "map_option (allowed \<circ> fst) (check_declared_tool demo_host ''Read'' ?in demo_admin) = Some True"
    by code_simp
  then obtain d q where d: "check_declared_tool demo_host ''Read'' ?in demo_admin = Some (d, q)" "allowed d" by auto
  have ne: "map_option (\<lambda>cs. cs \<noteq> []) (resolve_candidates demo_host ''/config/a'' demo_admin) = Some True"
    by code_simp
  from admin_keeps_protected [OF d c(1) disjI1 [OF read_tool(1)] c(2,3)] c(4) read_tool(2)
  obtain cands where cs: "resolve_candidates demo_host ''/config/a'' demo_admin = Some cands"
    "\<forall>x \<in> set cands. \<not> is_protected_agent_config_path x False" by auto
  with ne obtain x where "x \<in> set cands" by (cases cands) auto
  with cs show ?thesis by blast
qed

text \<open>The shortcut asks for the protected paths only, not for what \<open>check_write_path\<close> never lets
  anyone write: an admin on an admin agent writes a \<open>.env\<close> and a memory file through the gate,
  which the write check itself refuses them.\<close>

lemma admin_writes_env:
  "map_option (allowed \<circ> fst)
     (check_tool_access demo_host ''Write'' [(''file_path'', JStr ''/workspace/.env'')] demo_admin) = Some True"
  "map_option (allowed \<circ> fst)
     (check_tool_access demo_host ''Write'' [(''file_path'', JStr ''/users/ann/context/memory/a.md'')] demo_admin) =
   Some True"
  "\<not> allowed (check_write_path demo_host (demo_tree [''workspace'', ''.env'']) demo_admin)"
  "\<not> allowed (check_write_path demo_host
     (demo_tree [''users'', ''ann'', ''context'', ''memory'', ''a.md'']) demo_admin)"
  by code_simp+

text \<open>On a Windows machine the home band can be walked around. A drive path with one dot-dot too
  many, which Windows reads from the drive's root, loses its drive when the proxy collapses the
  dots and is judged as a file of the session's own folder: the gate lets an editor read it and
  leaves the tool's input as it is, while the same file spelled plainly is refused.\<close>

theorem drive_dotdot_escapes_band:
  "map_option (\<lambda>(d, q). (allowed d, updated_input d))
     (check_declared_tool demo_host ''Read'' [(''file_path'', JStr ''C:/../Windows/win.ini'')]
        (demo_on demo_windows)) = Some (True, None) \<and>
   map_option (\<lambda>(d, q). allowed d)
     (check_declared_tool demo_host ''Read'' [(''file_path'', JStr ''C:/Windows/win.ini'')]
        (demo_on demo_windows)) = Some False"
proof
  show "map_option (\<lambda>(d, q). (allowed d, updated_input d))
     (check_declared_tool demo_host ''Read'' [(''file_path'', JStr ''C:/../Windows/win.ini'')]
        (demo_on demo_windows)) = Some (True, None)"
    unfolding check_declared_tool_def check_remote_file_tool_def resolve_tool_path_def
    by (subst resolve_path_for_session.simps, subst resolve_path_for_session.simps) code_simp
  show "map_option (\<lambda>(d, q). allowed d)
     (check_declared_tool demo_host ''Read'' [(''file_path'', JStr ''C:/Windows/win.ini'')]
        (demo_on demo_windows)) = Some False"
    unfolding check_declared_tool_def check_remote_file_tool_def resolve_tool_path_def
    by (subst resolve_path_for_session.simps) code_simp
qed

end
