(* ===== verification/Admission.thy ===== *)
theory Admission
  imports Placement "HOL-Library.List_Lexorder" "HOL-Library.Char_ord" "HOL-Library.Product_Lexorder"
begin

text \<open>
  \<open>proxy/core/concurrency.py\<close>: the admission of local sessions. The module's globals are the record
  \<open>ledger\<close>; everything done in one hold of its condition variable is one function of the ledger,
  and the inductive relation \<open>slot_step\<close> interleaves those holds, so any number of concurrent
  acquires, evictions and releases is a sequence of steps.

  Instants are whole milliseconds, memory whole megabytes. One hold reads the clock and the free
  memory once (the record \<open>box\<close>); the session pools the eviction scans are its argument. The
  coroutines that wait are the line, the ring and \<open>parked_wakes\<close>, which holds one entry per
  suspended background wake.
\<close>

section \<open>State\<close>

record limits =
  budget_mb :: int
  floor_mb :: int
  est_heavy :: int
  est_light :: int
  max_local :: nat
  max_per_user :: nat

record ledger =
  sessions :: "(string \<times> string) list"
  session_est :: "(string \<times> int) list"
  session_added_at :: "(string \<times> int) list"
  session_owner :: "(string \<times> string) list"
  reserved_mb :: int
  waiting_line :: "nat list"
  parked_tasks :: int
  task_ring :: "(string \<times> (string \<times> int) list) list"
  task_ring_order :: "string list"
  parked_wakes :: "string list"
  pw_entries :: "string list"

definition empty_ledger :: ledger where
  "empty_ledger = \<lparr>sessions = [], session_est = [], session_added_at = [], session_owner = [],
     reserved_mb = 0, waiting_line = [], parked_tasks = 0, task_ring = [], task_ring_order = [],
     parked_wakes = [], pw_entries = []\<rparr>"

record box =
  now_ms :: int
  live_mb :: int

datatype denial = Busy | BusyBackground nat | HostMemory int | UserCap nat | Speculative

datatype admission = Admitted | Denied denial

definition reason_of :: "denial \<Rightarrow> string" where
  "reason_of d = (case d of Busy \<Rightarrow> ''busy'' | BusyBackground _ \<Rightarrow> ''busy_background''
     | HostMemory _ \<Rightarrow> ''host_memory'' | UserCap _ \<Rightarrow> ''user_cap'' | Speculative \<Rightarrow> ''speculative'')"

definition GROW_WINDOW_MS :: int where "GROW_WINDOW_MS = 90000"
definition RECONCILE_GRACE_MS :: int where "RECONCILE_GRACE_MS = 120000"
definition DIRECT_BASE_MB :: int where "DIRECT_BASE_MB = 100"
definition DIRECT_STDIO_MCP_MB :: int where "DIRECT_STDIO_MCP_MB = 65"
definition SURFACES :: "string list" where
  "SURFACES = [''chat'', ''task'', ''meeting'', ''phone'']"

section \<open>Estimates and gates\<close>

text \<open>\<open>in_process\<close>: the engine has no process of its own.\<close>

definition estimate_mb :: "limits \<Rightarrow> bool \<Rightarrow> nat \<Rightarrow> int" where
  "estimate_mb c in_process stdio_mcps =
     (if \<not> in_process then est_heavy c
      else if stdio_mcps = 0 then est_light c
      else min (est_heavy c) (max (est_light c) (DIRECT_BASE_MB + int stdio_mcps * DIRECT_STDIO_MCP_MB)))"

definition swap_credit_mb :: "int \<Rightarrow> int \<Rightarrow> int" where
  "swap_credit_mb credit swap_free = (if credit \<le> 0 then 0 else min (swap_free div 2) credit)"

text \<open>The reading of the free memory, \<open>None\<close> when it failed.\<close>

definition live_available_mb :: "int \<Rightarrow> int \<Rightarrow> int option \<Rightarrow> int" where
  "live_available_mb credit swap_free read =
     (case read of None \<Rightarrow> 0 | Some mb \<Rightarrow> if mb \<noteq> 0 then mb + swap_credit_mb credit swap_free else 0)"

definition tracked :: "string \<Rightarrow> ledger \<Rightarrow> bool" where
  "tracked sid L = (lookup (sessions L) sid \<noteq> None)"

definition gate1 :: "limits \<Rightarrow> ledger \<Rightarrow> int \<Rightarrow> bool \<Rightarrow> bool" where
  "gate1 c L est is_task =
     (if max_local c \<noteq> 0 \<and>
         length (sessions L) + (if is_task \<and> max_local c \<ge> 2 then 1 else 0) \<ge> max_local c then False
      else reserved_mb L + est \<le> budget_mb c - (if is_task then est_heavy c else 0))"

definition growin_of :: "ledger \<Rightarrow> int \<Rightarrow> string \<times> int \<Rightarrow> int" where
  "growin_of L now entry = (case entry of (sid, added) \<Rightarrow>
     (let elapsed = now - added in
      if elapsed < GROW_WINDOW_MS
      then get_or (lookup (session_est L)) sid 0 * (GROW_WINDOW_MS - elapsed) div GROW_WINDOW_MS
      else 0))"

definition growin_debit_mb :: "ledger \<Rightarrow> int \<Rightarrow> int" where
  "growin_debit_mb L now = sum_list (map (growin_of L now) (session_added_at L))"

definition gate2 :: "limits \<Rightarrow> box \<Rightarrow> ledger \<Rightarrow> int \<Rightarrow> bool \<Rightarrow> bool" where
  "gate2 c b L est is_task =
     (live_mb b - growin_debit_mb L (now_ms b) - est
        \<ge> floor_mb c + (if is_task then est_heavy c else 0))"

definition has_room :: "limits \<Rightarrow> box \<Rightarrow> ledger \<Rightarrow> int \<Rightarrow> bool \<Rightarrow> bool" where
  "has_room c b L est is_task = (gate1 c L est is_task \<and> gate2 c b L est is_task)"

definition cap_owner :: "ledger \<Rightarrow> string \<Rightarrow> string" where
  "cap_owner L sid = get_or (lookup (session_owner L)) sid []"

definition owned :: "ledger \<Rightarrow> string \<Rightarrow> nat" where
  "owned L owner = length (filter (\<lambda>(sid, kind). kind = ''chat'' \<and> cap_owner L sid = owner) (sessions L))"

definition at_user_cap :: "limits \<Rightarrow> ledger \<Rightarrow> string \<Rightarrow> bool" where
  "at_user_cap c L owner = (owned L owner \<ge> max_per_user c)"

definition speculative_room :: "limits \<Rightarrow> box \<Rightarrow> ledger \<Rightarrow> int \<Rightarrow> string \<Rightarrow> bool" where
  "speculative_room c b L est owner =
     (if max_local c \<noteq> 0 \<and> length (sessions L) + 2 > max_local c then False
      else if parked_tasks L > 0 \<or> waiting_line L \<noteq> [] then False
      else if owner \<noteq> [] \<and> max_per_user c > 0 \<and> at_user_cap c L owner then False
      else if reserved_mb L + est + est_heavy c > budget_mb c then False
      else live_mb b - growin_debit_mb L (now_ms b) - est - est_heavy c \<ge> floor_mb c)"

section \<open>The entries\<close>

definition add :: "string \<Rightarrow> string \<Rightarrow> int \<Rightarrow> string \<Rightarrow> int \<Rightarrow> ledger \<Rightarrow> ledger" where
  "add sid kind est owner now L =
     L\<lparr>sessions := dict_set sid kind (sessions L),
       session_est := dict_set sid est (session_est L),
       session_added_at := dict_set sid now (session_added_at L),
       session_owner := (if owner \<noteq> [] then dict_set sid owner (session_owner L) else session_owner L),
       reserved_mb := reserved_mb L + est\<rparr>"

definition fill_owner :: "string \<Rightarrow> string \<Rightarrow> ledger \<Rightarrow> ledger" where
  "fill_owner sid owner L =
     (if owner \<noteq> [] \<and> tracked sid L \<and> cap_owner L sid = []
      then L\<lparr>session_owner := dict_set sid owner (session_owner L)\<rparr> else L)"

definition remove :: "string \<Rightarrow> ledger \<Rightarrow> ledger" where
  "remove sid L =
     L\<lparr>sessions := dict_del sid (sessions L),
       session_est := dict_del sid (session_est L),
       session_added_at := dict_del sid (session_added_at L),
       session_owner := dict_del sid (session_owner L),
       reserved_mb := (case lookup (session_est L) sid of
          None \<Rightarrow> reserved_mb L
        | Some est \<Rightarrow> if est \<noteq> 0 then max 0 (reserved_mb L - est) else reserved_mb L)\<rparr>"

definition release :: "string \<Rightarrow> ledger \<Rightarrow> ledger" where
  "release sid L = remove sid L"

definition release_unless_live :: "string \<Rightarrow> string list \<Rightarrow> ledger \<Rightarrow> bool \<times> ledger" where
  "release_unless_live sid live L =
     (if \<not> tracked sid L \<or> sid \<in> set live then (False, L) else (True, release sid L))"

section \<open>Interactive admission\<close>

text \<open>A speculative acquire, in one hold.\<close>

definition acquire_speculative ::
    "limits \<Rightarrow> box \<Rightarrow> string \<Rightarrow> string \<Rightarrow> int \<Rightarrow> string \<Rightarrow> ledger \<Rightarrow> admission \<times> ledger" where
  "acquire_speculative c b sid kind est owner L =
     (if tracked sid L then (Admitted, fill_owner sid owner L)
      else if \<not> speculative_room c b L est owner then (Denied Speculative, L)
      else (Admitted, add sid kind est owner (now_ms b) L))"

text \<open>The first look of an interactive acquire; \<open>None\<close> goes on to the eviction loop.\<close>

definition first_look ::
    "limits \<Rightarrow> box \<Rightarrow> string \<Rightarrow> string \<Rightarrow> int \<Rightarrow> string \<Rightarrow> string \<Rightarrow> ledger \<Rightarrow>
     admission option \<times> ledger" where
  "first_look c b sid kind est owner capped L =
     (if tracked sid L then (Some Admitted, fill_owner sid owner L)
      else if has_room c b L est False then
        (if capped \<noteq> [] \<and> at_user_cap c L capped then (Some (Denied (UserCap (owned L capped))), L)
         else (Some Admitted, add sid kind est owner (now_ms b) L))
      else (None, L))"

definition sessions_account :: "limits \<Rightarrow> box \<Rightarrow> ledger \<Rightarrow> int \<Rightarrow> bool" where
  "sessions_account c b L est =
     (reserved_mb L \<ge> est + floor_mb c + growin_debit_mb L (now_ms b) - live_mb b)"

text \<open>One hold of the eviction loop; \<open>None\<close> goes on to evict.\<close>

definition attempt ::
    "limits \<Rightarrow> box \<Rightarrow> string \<Rightarrow> string \<Rightarrow> int \<Rightarrow> string \<Rightarrow> string \<Rightarrow> ledger \<Rightarrow>
     admission option \<times> ledger" where
  "attempt c b sid kind est owner capped L =
     (if tracked sid L then (Some Admitted, fill_owner sid owner L)
      else if capped \<noteq> [] \<and> at_user_cap c L capped then (Some (Denied (UserCap (owned L capped))), L)
      else if has_room c b L est False then (Some Admitted, add sid kind est owner (now_ms b) L)
      else if sessions L = [] then (Some Admitted, add sid kind est owner (now_ms b) L)
      else if gate1 c L est False \<and> \<not> sessions_account c b L est
        then (Some (Denied (HostMemory (est + floor_mb c))), L)
      else (None, L))"

section \<open>Eviction\<close>

text \<open>What a session pool shows of one session.\<close>

record pooled =
  ps_sid :: string
  ps_source :: string
  ps_user_sub :: string
  ps_idle :: int
  ps_turn_live :: bool
  ps_pending :: bool

record scan_args =
  min_idle :: int
  prefer_user :: string
  only_user :: "string option"
  pending_leash :: "int option"
  turn_leash :: "int option"
  prewarm_any_age :: bool

type_synonym eviction_key = "nat \<times> int \<times> string \<times> string \<times> bool"

datatype consideration = Skipped | SparedLive | SparedBackground | Candidate eviction_key

definition within_leash :: "int option \<Rightarrow> int \<Rightarrow> bool" where
  "within_leash leash age = (case leash of None \<Rightarrow> False | Some l \<Rightarrow> age < l)"

definition consider_one :: "ledger \<Rightarrow> scan_args \<Rightarrow> pooled \<Rightarrow> consideration" where
  "consider_one L a s =
     (let sid = ps_sid s; age = ps_idle s; is_pw = (sid \<in> set (pw_entries L));
          owner = or_else (cap_owner L sid) (ps_user_sub s);
          grp = (if is_pw then 0 else if prefer_user a \<noteq> [] \<and> owner = prefer_user a then 1 else 2)
      in if lookup (sessions L) sid \<noteq> Some ''chat'' then Skipped
         else if (case only_user a of None \<Rightarrow> False | Some u \<Rightarrow> cap_owner L sid \<noteq> u) then Skipped
         else if is_pw \<and> prewarm_any_age a then Candidate (grp, - age, sid, ps_source s, is_pw)
         else if age < min_idle a then Skipped
         else if within_leash (turn_leash a) age \<and> ps_turn_live s then SparedLive
         else if within_leash (pending_leash a) age \<and> ps_pending s then SparedBackground
         else Candidate (grp, - age, sid, ps_source s, is_pw))"

definition candidates :: "ledger \<Rightarrow> scan_args \<Rightarrow> pooled list \<Rightarrow> eviction_key list" where
  "candidates L a pool =
     List.map_filter (\<lambda>s. case consider_one L a s of Candidate k \<Rightarrow> Some k | _ \<Rightarrow> None) pool"

record scan =
  victim :: "(string \<times> string \<times> bool) option"
  spared_background :: nat
  spared_live :: nat

definition oldest_evictable_local :: "ledger \<Rightarrow> scan_args \<Rightarrow> pooled list \<Rightarrow> scan" where
  "oldest_evictable_local L a pool =
     \<lparr>victim = (case candidates L a pool of [] \<Rightarrow> None
        | k # ks \<Rightarrow> (case fold min ks k of (_, _, sid, source, is_pw) \<Rightarrow> Some (sid, source, is_pw))),
      spared_background = length (filter (\<lambda>s. consider_one L a s = SparedBackground) pool),
      spared_live = length (filter (\<lambda>s. consider_one L a s = SparedLive) pool)\<rparr>"

text \<open>The victim's reservation is freed in one hold, a pre-warm's after its registry entry was
  claimed; the close itself comes later and releases nothing more.\<close>

definition evict_one :: "string \<Rightarrow> bool \<Rightarrow> ledger \<Rightarrow> bool \<times> ledger" where
  "evict_one sid is_prewarm L =
     (if is_prewarm \<and> sid \<notin> set (pw_entries L) then (False, L)
      else (let L1 = (if is_prewarm then L\<lparr>pw_entries := remove1 sid (pw_entries L)\<rparr> else L) in
            if \<not> tracked sid L1 then (False, L1) else (True, remove sid L1)))"

definition interactive_scan :: "int \<Rightarrow> int \<Rightarrow> string \<Rightarrow> scan_args" where
  "interactive_scan floor_age ceiling prefer =
     \<lparr>min_idle = floor_age, prefer_user = prefer, only_user = None, pending_leash = Some ceiling,
      turn_leash = Some ceiling, prewarm_any_age = True\<rparr>"

definition final_denial :: "limits \<Rightarrow> box \<Rightarrow> ledger \<Rightarrow> int \<Rightarrow> nat \<Rightarrow> denial" where
  "final_denial c b L est skipped =
     (if gate1 c L est False \<and> \<not> sessions_account c b L est then HostMemory (est + floor_mb c)
      else if skipped \<noteq> 0 then BusyBackground skipped
      else Busy)"

lemma dict_del_length_less: "lookup kvs k \<noteq> None \<Longrightarrow> length (dict_del k kvs) < length kvs"
proof -
  assume "lookup kvs k \<noteq> None"
  then have "k \<in> set (keys kvs)" by (simp add: lookup_None_iff)
  then obtain kv where "kv \<in> set kvs" "fst kv = k" by auto
  then show ?thesis unfolding dict_del_def by (intro length_filter_less) auto
qed

lemma evict_one_less: "evict_one sid pw L = (True, L') \<Longrightarrow> length (sessions L') < length (sessions L)"
  by (auto simp: evict_one_def remove_def tracked_def Let_def dict_del_length_less split: if_splits)

section \<open>The per-person cap\<close>

datatype cap_outcome = CapDone admission | CapFree | CapFull nat

definition user_cap_hold :: "limits \<Rightarrow> string \<Rightarrow> string \<Rightarrow> ledger \<Rightarrow> cap_outcome \<times> ledger" where
  "user_cap_hold c sid owner L =
     (if tracked sid L then (CapDone Admitted, fill_owner sid owner L)
      else if owned L owner < max_per_user c then (CapFree, L)
      else (CapFull (owned L owner), L))"

definition own_scan :: "int \<Rightarrow> int \<Rightarrow> string \<Rightarrow> scan_args" where
  "own_scan floor_age ceiling owner =
     \<lparr>min_idle = floor_age, prefer_user = owner, only_user = Some owner,
      pending_leash = Some ceiling, turn_leash = Some ceiling, prewarm_any_age = True\<rparr>"

section \<open>The admission line\<close>

definition queue_join :: "nat \<Rightarrow> ledger \<Rightarrow> ledger" where
  "queue_join t L = L\<lparr>waiting_line := waiting_line L @ [t]\<rparr>"

definition queue_leave :: "nat \<Rightarrow> ledger \<Rightarrow> ledger" where
  "queue_leave t L = L\<lparr>waiting_line := remove1 t (waiting_line L)\<rparr>"

text \<open>\<open>finished\<close>: the tickets whose coroutine has ended.\<close>

definition is_head :: "nat set \<Rightarrow> nat \<Rightarrow> ledger \<Rightarrow> bool \<times> ledger" where
  "is_head finished t L =
     (let ln = dropWhile (\<lambda>x. x \<noteq> t \<and> x \<in> finished) (waiting_line L)
      in (ln \<noteq> [] \<and> hd ln = t, L\<lparr>waiting_line := ln\<rparr>))"

definition queued_hold ::
    "limits \<Rightarrow> box \<Rightarrow> nat set \<Rightarrow> nat \<Rightarrow> string \<Rightarrow> string \<Rightarrow> int \<Rightarrow> string \<Rightarrow> string \<Rightarrow> ledger \<Rightarrow>
     admission option \<times> ledger" where
  "queued_hold c b finished t sid kind est owner capped L =
     (if tracked sid L then (Some Admitted, fill_owner sid owner L)
      else (let (hd_now, L1) = is_head finished t L in
        if hd_now \<and> has_room c b L1 est False then
          (if capped \<noteq> [] \<and> at_user_cap c L1 capped then (Some (Denied (UserCap (owned L1 capped))), L1)
           else (Some Admitted, add sid kind est owner (now_ms b) L1))
        else (None, L1)))"

section \<open>Tasks\<close>

definition ring_join :: "string \<Rightarrow> string \<times> int \<Rightarrow> ledger \<Rightarrow> ledger" where
  "ring_join key t L =
     (case lookup (task_ring L) key of
        None \<Rightarrow> L\<lparr>task_ring := dict_set key [t] (task_ring L), task_ring_order := task_ring_order L @ [key]\<rparr>
      | Some ln \<Rightarrow> L\<lparr>task_ring := dict_set key (ln @ [t]) (task_ring L)\<rparr>)"

definition ring_leave :: "string \<Rightarrow> string \<times> int \<Rightarrow> ledger \<Rightarrow> ledger" where
  "ring_leave key t L =
     (case lookup (task_ring L) key of
        None \<Rightarrow> L
      | Some ln \<Rightarrow>
          (let left = remove1 t ln in
           if left = [] then L\<lparr>task_ring := dict_del key (task_ring L),
                               task_ring_order := remove1 key (task_ring_order L)\<rparr>
           else L\<lparr>task_ring := dict_set key left (task_ring L)\<rparr>))"

text \<open>The head the ring admits now: the first creator's, in ring order, that fits.\<close>

definition ring_head :: "limits \<Rightarrow> box \<Rightarrow> ledger \<Rightarrow> string \<Rightarrow> (string \<times> int) option" where
  "ring_head c b L key =
     (case lookup (task_ring L) key of
        Some (t # _) \<Rightarrow> if has_room c b L (snd t) True then Some t else None
      | _ \<Rightarrow> None)"

definition ring_turn :: "limits \<Rightarrow> box \<Rightarrow> ledger \<Rightarrow> string \<Rightarrow> string \<times> int \<Rightarrow> bool" where
  "ring_turn c b L key t =
     (case List.find (\<lambda>k. ring_head c b L k \<noteq> None) (task_ring_order L) of
        None \<Rightarrow> False
      | Some k \<Rightarrow> k = key \<and> ring_head c b L k = Some t)"

definition ring_rotate :: "string \<Rightarrow> ledger \<Rightarrow> ledger" where
  "ring_rotate key L =
     L\<lparr>task_ring_order := remove1 key (task_ring_order L) @
        (if lookup (task_ring L) key \<noteq> None then [key] else [])\<rparr>"

definition ring_exit :: "string \<Rightarrow> string \<times> int \<Rightarrow> ledger \<Rightarrow> ledger" where
  "ring_exit key t L =
     ring_rotate key (ring_leave key t (L\<lparr>parked_tasks := parked_tasks L - 1\<rparr>))"

definition ring_key :: "string \<Rightarrow> string" where
  "ring_key k = or_else k ''-''"

definition task_arrive ::
    "limits \<Rightarrow> box \<Rightarrow> string \<Rightarrow> string \<Rightarrow> int \<Rightarrow> string \<Rightarrow> string \<Rightarrow> ledger \<Rightarrow> admission option \<times> ledger" where
  "task_arrive c b sid kind est owner key L =
     (if tracked sid L then (Some Admitted, fill_owner sid owner L)
      else if \<not> has_room c b L est True \<or> task_ring L \<noteq> [] then
        (None, (ring_join (ring_key key) (sid, est) L)\<lparr>parked_tasks := parked_tasks L + 1\<rparr>)
      else (Some Admitted, add sid kind est owner (now_ms b) L))"

definition task_resume ::
    "limits \<Rightarrow> box \<Rightarrow> string \<Rightarrow> string \<Rightarrow> int \<Rightarrow> string \<Rightarrow> string \<Rightarrow> ledger \<Rightarrow> admission option \<times> ledger" where
  "task_resume c b sid kind est owner key L =
     (if \<not> (tracked sid L \<or> ring_turn c b L (ring_key key) (sid, est)) then (None, L)
      else (let L1 = ring_exit (ring_key key) (sid, est) L in
            if tracked sid L1 then (Some Admitted, fill_owner sid owner L1)
            else (Some Admitted, add sid kind est owner (now_ms b) L1)))"

section \<open>Background wakes\<close>

datatype wake = Reserved | Superseded | Timeout

definition wake_arrive ::
    "limits \<Rightarrow> box \<Rightarrow> string \<Rightarrow> int \<Rightarrow> bool \<Rightarrow> ledger \<Rightarrow> wake option \<times> ledger" where
  "wake_arrive c b sid est superseded L =
     (if tracked sid L \<or> superseded then (Some Superseded, L)
      else if has_room c b L est True then (Some Reserved, add sid ''chat'' est [] (now_ms b) L)
      else (None, L\<lparr>parked_tasks := parked_tasks L + 1, parked_wakes := parked_wakes L @ [sid]\<rparr>))"

definition wake_leave :: "string \<Rightarrow> ledger \<Rightarrow> ledger" where
  "wake_leave sid L =
     L\<lparr>parked_tasks := parked_tasks L - 1, parked_wakes := remove1 sid (parked_wakes L)\<rparr>"

definition wake_slice ::
    "limits \<Rightarrow> box \<Rightarrow> string \<Rightarrow> int \<Rightarrow> bool \<Rightarrow> ledger \<Rightarrow> wake option \<times> ledger" where
  "wake_slice c b sid est superseded L =
     (if tracked sid L \<or> superseded then (Some Superseded, wake_leave sid L)
      else if has_room c b L est True
        then (Some Reserved, wake_leave sid (add sid ''chat'' est [] (now_ms b) L))
      else (None, L))"

section \<open>Meetings, reconciliation, statistics\<close>

definition acquire_meeting ::
    "limits \<Rightarrow> box \<Rightarrow> (string \<times> int) list \<Rightarrow> ledger \<Rightarrow> admission \<times> ledger" where
  "acquire_meeting c b ests L =
     (let local_new = filter (\<lambda>se. \<not> tracked (fst se) L) ests;
          total = sum_list (map snd local_new)
      in if max_local c \<noteq> 0 \<and> length (sessions L) + length local_new > max_local c then (Denied Busy, L)
         else if reserved_mb L + total > budget_mb c then (Denied Busy, L)
         else if \<not> gate2 c b L total False then (Denied (HostMemory (total + floor_mb c)), L)
         else (Admitted, fold (\<lambda>(sid, est). add sid ''meeting'' est [] (now_ms b)) local_new L))"

definition release_meeting_slots :: "string list \<Rightarrow> ledger \<Rightarrow> ledger" where
  "release_meeting_slots sids L = fold release sids L"

definition orphaned :: "int \<Rightarrow> string list \<Rightarrow> ledger \<Rightarrow> string list" where
  "orphaned now live L =
     map fst (filter (\<lambda>(sid, kind). kind \<noteq> ''task'' \<and> sid \<notin> set live \<and>
         \<not> now - get_or (lookup (session_added_at L)) sid 0 < RECONCILE_GRACE_MS) (sessions L))"

definition reconcile_chat_slots :: "int \<Rightarrow> string list \<Rightarrow> ledger \<Rightarrow> nat \<times> ledger" where
  "reconcile_chat_slots now live L =
     (length (orphaned now live L), fold remove (orphaned now live L) L)"

definition budget_full :: "limits \<Rightarrow> ledger \<Rightarrow> bool" where
  "budget_full c L = (\<not> gate1 c L (est_heavy c) True)"

definition maintenance_scan :: "int \<Rightarrow> int \<Rightarrow> int \<Rightarrow> scan_args" where
  "maintenance_scan evict_floor idle_timeout ceiling =
     \<lparr>min_idle = min evict_floor idle_timeout, prefer_user = [], only_user = None,
      pending_leash = Some (2 * idle_timeout), turn_leash = Some ceiling, prewarm_any_age = False\<rparr>"

definition fit_count :: "limits \<Rightarrow> box \<Rightarrow> ledger \<Rightarrow> int \<Rightarrow> int" where
  "fit_count c b L est =
     min (max 0 (budget_mb c - reserved_mb L) div max 1 est)
         (max 0 (live_mb b - floor_mb c) div max 1 est)"

section \<open>The interleaving of the holds\<close>

definition limits_ok :: "limits \<Rightarrow> bool" where
  "limits_ok c \<longleftrightarrow> 0 \<le> budget_mb c \<and> 0 \<le> est_light c \<and> 0 \<le> est_heavy c"

inductive slot_step :: "limits \<Rightarrow> ledger \<Rightarrow> ledger \<Rightarrow> bool" for c where
  speculative: "slot_step c L (snd (acquire_speculative c b sid kind (estimate_mb c ip n) owner L))"
| look: "slot_step c L (snd (first_look c b sid kind (estimate_mb c ip n) owner capped L))"
| attempted: "slot_step c L (snd (attempt c b sid kind (estimate_mb c ip n) owner capped L))"
| evict: "slot_step c L (snd (evict_one sid pw L))"
| capcheck: "slot_step c L (snd (user_cap_hold c sid owner L))"
| join: "slot_step c L (queue_join t L)"
| leave: "slot_step c L (queue_leave t L)"
| queued: "slot_step c L (snd (queued_hold c b finished t sid kind (estimate_mb c ip n) owner capped L))"
| task_in: "slot_step c L (snd (task_arrive c b sid kind (estimate_mb c ip n) owner key L))"
| task_go: "lookup (task_ring L) (ring_key key) = Some ln \<Longrightarrow> (sid, estimate_mb c ip n) \<in> set ln \<Longrightarrow>
    slot_step c L (snd (task_resume c b sid kind (estimate_mb c ip n) owner key L))"
| task_cancel: "lookup (task_ring L) (ring_key key) = Some ln \<Longrightarrow> t \<in> set ln \<Longrightarrow>
    slot_step c L (ring_exit (ring_key key) t L)"
| wake_in: "slot_step c L (snd (wake_arrive c b sid (estimate_mb c ip n) s L))"
| wake_go: "sid \<in> set (parked_wakes L) \<Longrightarrow>
    slot_step c L (snd (wake_slice c b sid (estimate_mb c ip n) s L))"
| wake_out: "sid \<in> set (parked_wakes L) \<Longrightarrow> slot_step c L (wake_leave sid L)"
| meeting: "distinct (map fst ps) \<Longrightarrow>
    slot_step c L (snd (acquire_meeting c b (map (\<lambda>(sid, ip, n). (sid, estimate_mb c ip n)) ps) L))"
| release: "slot_step c L (release sid L)"
| reconcile: "slot_step c L (snd (reconcile_chat_slots now live L))"
| prewarms: "slot_step c L (L\<lparr>pw_entries := ps\<rparr>)"

inductive reachable_ledger :: "limits \<Rightarrow> ledger \<Rightarrow> bool" for c where
  start: "reachable_ledger c empty_ledger"
| more: "reachable_ledger c L \<Longrightarrow> slot_step c L L' \<Longrightarrow> reachable_ledger c L'"

section \<open>A ledger of reservations as an interface\<close>

text \<open>What the admission paths rely on: an entry is reserved once, at an estimate fixed when it is
  put, and the running sum is the sum of the entries.\<close>

locale slot_ledger =
  fixes ok :: "'l \<Rightarrow> bool" and ids :: "'l \<Rightarrow> 'i set" and est :: "'l \<Rightarrow> 'i \<Rightarrow> int"
    and reserved :: "'l \<Rightarrow> int" and put :: "'i \<Rightarrow> int \<Rightarrow> 'l \<Rightarrow> 'l" and drop_id :: "'i \<Rightarrow> 'l \<Rightarrow> 'l"
  assumes finite_ids: "ok l \<Longrightarrow> finite (ids l)"
    and reserved_sum: "ok l \<Longrightarrow> reserved l = sum (est l) (ids l)"
    and est_nonneg: "ok l \<Longrightarrow> i \<in> ids l \<Longrightarrow> 0 \<le> est l i"
    and put_ok: "ok l \<Longrightarrow> i \<notin> ids l \<Longrightarrow> 0 \<le> e \<Longrightarrow> ok (put i e l)"
    and ids_put: "ids (put i e l) = insert i (ids l)"
    and est_put: "est (put i e l) j = (if j = i then e else est l j)"
    and drop_ok: "ok l \<Longrightarrow> ok (drop_id i l)"
    and ids_drop: "ids (drop_id i l) = ids l - {i}"
    and est_drop: "j \<noteq> i \<Longrightarrow> est (drop_id i l) j = est l j"
begin

lemma reserved_nonneg: "ok l \<Longrightarrow> 0 \<le> reserved l"
  using est_nonneg by (simp add: reserved_sum sum_nonneg)

lemma reserved_put:
  assumes "ok l" "i \<notin> ids l" "0 \<le> e"
  shows "reserved (put i e l) = reserved l + e"
proof -
  have "reserved (put i e l) = sum (est (put i e l)) (insert i (ids l))"
    using reserved_sum [OF put_ok [OF assms]] by (simp add: ids_put)
  also have "\<dots> = e + sum (est (put i e l)) (ids l)"
    using assms(1,2) by (simp add: finite_ids est_put)
  also have "sum (est (put i e l)) (ids l) = sum (est l) (ids l)"
    using assms(2) by (intro sum.cong) (auto simp: est_put)
  finally show ?thesis using assms(1) by (simp add: reserved_sum)
qed

lemma reserved_drop:
  assumes "ok l"
  shows "reserved (drop_id i l) = reserved l - (if i \<in> ids l then est l i else 0)"
proof -
  have "reserved (drop_id i l) = sum (est (drop_id i l)) (ids l - {i})"
    using reserved_sum [OF drop_ok [OF assms]] by (simp add: ids_drop)
  also have "\<dots> = sum (est l) (ids l - {i})"
    by (intro sum.cong) (auto simp: est_drop)
  finally show ?thesis
    using assms by (auto simp: reserved_sum finite_ids sum_diff1)
qed

lemma drop_le: "ok l \<Longrightarrow> reserved (drop_id i l) \<le> reserved l"
  using est_nonneg by (simp add: reserved_drop)

lemma drop_twice: "ok l \<Longrightarrow> reserved (drop_id i (drop_id i l)) = reserved (drop_id i l)"
  by (simp add: reserved_drop [OF drop_ok] ids_drop)

lemma put_drop: "ok l \<Longrightarrow> i \<notin> ids l \<Longrightarrow> 0 \<le> e \<Longrightarrow> reserved (drop_id i (put i e l)) = reserved l"
  by (simp add: reserved_drop [OF put_ok] reserved_put ids_put est_put)

end

text \<open>A budget over a ledger: what the gate lets in fits.\<close>

locale budgeted_ledger = slot_ledger +
  fixes budget :: int and fits :: "'a \<Rightarrow> int \<Rightarrow> bool"
  assumes fits_budget: "fits l e \<Longrightarrow> reserved l + e \<le> budget"
begin

lemma put_within: "ok l \<Longrightarrow> i \<notin> ids l \<Longrightarrow> 0 \<le> e \<Longrightarrow> fits l e \<Longrightarrow> reserved (put i e l) \<le> budget"
  by (simp add: reserved_put fits_budget)

end

text \<open>The module's dicts agree: one entry per id in each, the sum running over them.\<close>

definition core_ok :: "ledger \<Rightarrow> bool" where
  "core_ok L \<longleftrightarrow>
     distinct (keys (sessions L)) \<and> distinct (keys (session_est L)) \<and>
     set (keys (session_est L)) = set (keys (sessions L)) \<and>
     set (keys (session_added_at L)) = set (keys (sessions L)) \<and>
     set (keys (session_owner L)) \<subseteq> set (keys (sessions L)) \<and>
     (\<forall>e \<in> set (map snd (session_est L)). 0 \<le> e) \<and>
     reserved_mb L = sum_list (map snd (session_est L))"

definition ids_of_ledger :: "ledger \<Rightarrow> string set" where
  "ids_of_ledger L = set (keys (session_est L))"

definition est_of :: "ledger \<Rightarrow> string \<Rightarrow> int" where
  "est_of L sid = get_or (lookup (session_est L)) sid 0"

lemma core_tracked: "core_ok L \<Longrightarrow> tracked sid L \<longleftrightarrow> sid \<in> set (keys (session_est L))"
  by (simp add: core_ok_def tracked_def lookup_None_iff)

lemma tracked_sessions: "tracked sid L \<longleftrightarrow> sid \<in> set (keys (sessions L))"
  by (simp add: tracked_def lookup_None_iff)

lemma add_core:
  assumes "core_ok L" "\<not> tracked sid L" "0 \<le> e"
  shows "core_ok (add sid kind e owner t L)"
proof -
  have new: "sid \<notin> set (keys (session_est L))" "sid \<notin> set (keys (sessions L))"
    using assms core_tracked tracked_sessions by auto
  show ?thesis
    using assms new
    by (auto simp: core_ok_def add_def dict_set_new simp del: set_map)
qed

lemma dict_del_subset: "set (dict_del k kvs) \<subseteq> set kvs"
  by (auto simp: dict_del_def)

lemma est_sum_nonneg: "core_ok L \<Longrightarrow> lookup (session_est L) sid = Some e \<Longrightarrow>
   0 \<le> e \<and> e \<le> reserved_mb L"
proof -
  assume ok: "core_ok L" and "lookup (session_est L) sid = Some e"
  then have "e \<in> set (map snd (session_est L))" by (force dest!: lookup_SomeD)
  with ok show "0 \<le> e \<and> e \<le> reserved_mb L"
    by (auto simp: core_ok_def intro!: member_le_sum_list simp del: set_map)
qed

lemma remove_reserved:
  "core_ok L \<Longrightarrow> reserved_mb (remove sid L) = reserved_mb L - est_of L sid"
  using est_sum_nonneg [of L sid]
  by (auto simp: remove_def est_of_def get_or_def split: option.splits)

lemma remove_core:
  assumes "core_ok L"
  shows "core_ok (remove sid L)"
proof -
  have "reserved_mb (remove sid L) = sum_list (map snd (dict_del sid (session_est L)))"
  proof (cases "lookup (session_est L) sid")
    case None
    then have "dict_del sid (session_est L) = session_est L"
      by (simp add: dict_del_absent lookup_None_iff)
    with None assms show ?thesis by (simp add: remove_def core_ok_def)
  next
    case (Some e)
    with assms sum_dict_del [of "session_est L" sid e "\<lambda>x. x"]
    show ?thesis by (simp add: remove_reserved est_of_def get_or_def core_ok_def)
  qed
  moreover have "\<forall>e \<in> set (map snd (dict_del sid (session_est L))). 0 \<le> e"
    using assms dict_del_subset [of sid "session_est L"] by (auto simp: core_ok_def)
  ultimately show ?thesis
    using assms by (auto simp: core_ok_def remove_def distinct_dict_del simp del: set_map)
qed

text \<open>The module's ledger is a ledger, for whatever surface, owner and instant an entry is put
  with; and the reservation gate is its budget.\<close>

interpretation entries: slot_ledger core_ok ids_of_ledger est_of reserved_mb
    "\<lambda>sid e. add sid kind e owner t" remove
  for kind owner t
proof unfold_locales
  fix l :: ledger and i j :: string and e :: int
  show "core_ok l \<Longrightarrow> finite (ids_of_ledger l)" by (simp add: ids_of_ledger_def)
  show "core_ok l \<Longrightarrow> reserved_mb l = sum (est_of l) (ids_of_ledger l)"
  proof -
    have "sum_list (map snd kvs) = sum (\<lambda>k. get_or (lookup kvs) k 0) (set (keys kvs))"
      if "distinct (keys kvs)" for kvs :: "(string \<times> int) list"
      using that
    proof (induction kvs)
      case (Cons kv kvs)
      obtain a w where kv: "kv = (a, w)" by fastforce
      have "sum (\<lambda>k. get_or (lookup (kv # kvs)) k 0) (set (keys kvs)) =
          sum (\<lambda>k. get_or (lookup kvs) k 0) (set (keys kvs))"
        using Cons.prems kv by (intro sum.cong) (auto simp: get_or_def)
      with Cons kv show ?case by (simp add: get_or_def)
    qed simp
    then show "core_ok l \<Longrightarrow> reserved_mb l = sum (est_of l) (ids_of_ledger l)"
      by (simp add: core_ok_def est_of_def [abs_def] ids_of_ledger_def)
  qed
  show "core_ok l \<Longrightarrow> i \<in> ids_of_ledger l \<Longrightarrow> 0 \<le> est_of l i"
    using est_sum_nonneg [of l i]
    by (auto simp: est_of_def get_or_def split: option.splits)
  show "core_ok l \<Longrightarrow> i \<notin> ids_of_ledger l \<Longrightarrow> 0 \<le> e \<Longrightarrow> core_ok (add i kind e owner t l)"
    by (simp add: add_core core_tracked ids_of_ledger_def)
  show "ids_of_ledger (add i kind e owner t l) = insert i (ids_of_ledger l)"
    by (simp add: ids_of_ledger_def add_def del: set_map)
  show "est_of (add i kind e owner t l) j = (if j = i then e else est_of l j)"
    by (simp add: est_of_def add_def get_or_def)
  show "core_ok l \<Longrightarrow> core_ok (remove i l)" by (rule remove_core)
  show "ids_of_ledger (remove i l) = ids_of_ledger l - {i}"
    by (simp add: ids_of_ledger_def remove_def del: set_map)
  show "j \<noteq> i \<Longrightarrow> est_of (remove i l) j = est_of l j"
    by (simp add: est_of_def remove_def get_or_def)
qed

lemma gate1_room: "gate1 c L e is_task \<Longrightarrow>
   reserved_mb L + e \<le> budget_mb c - (if is_task then est_heavy c else 0)"
  by (simp add: gate1_def split: if_splits)

lemma gate1_count: "gate1 c L e is_task \<Longrightarrow> max_local c \<noteq> 0 \<Longrightarrow> length (sessions L) < max_local c"
  by (simp add: gate1_def split: if_splits)

interpretation gated: budgeted_ledger core_ok ids_of_ledger est_of reserved_mb
    "\<lambda>sid e. add sid kind e owner t" remove "budget_mb c" "\<lambda>L e. gate1 c L e False"
  for kind owner t c
  using gate1_room by unfold_locales fastforce

section \<open>What every hold keeps\<close>

lemma estimate_nonneg: "limits_ok c \<Longrightarrow> 0 \<le> estimate_mb c ip n"
  by (simp add: limits_ok_def estimate_mb_def le_max_iff_disj)

text \<open>The shape of a hold: it leaves the entries alone, adds one at a non-negative estimate, or
  removes some; and what it adds passed a gate, or was the only session.\<close>

definition same_entries :: "ledger \<Rightarrow> ledger \<Rightarrow> bool" where
  "same_entries L L' \<longleftrightarrow> sessions L' = sessions L \<and> session_est L' = session_est L \<and>
     session_added_at L' = session_added_at L \<and> reserved_mb L' = reserved_mb L \<and>
     (session_owner L' = session_owner L \<or>
      (\<exists>sid w. tracked sid L \<and> session_owner L' = dict_set sid w (session_owner L)))"

definition admits :: "limits \<Rightarrow> ledger \<Rightarrow> int \<Rightarrow> bool" where
  "admits c L e \<longleftrightarrow> (reserved_mb L + e \<le> budget_mb c \<or> sessions L = []) \<and>
     (max_local c \<noteq> 0 \<longrightarrow> length (sessions L) < max_local c)"

definition within_limits :: "limits \<Rightarrow> ledger \<Rightarrow> bool" where
  "within_limits c L \<longleftrightarrow>
     (reserved_mb L \<le> budget_mb c \<or> length (sessions L) = 1) \<and>
     (max_local c \<noteq> 0 \<longrightarrow> length (sessions L) \<le> max_local c)"

lemma same_entries_refl [simp]: "same_entries L L"
  by (simp add: same_entries_def)

lemma same_entries_core: "same_entries L L' \<Longrightarrow> core_ok L \<Longrightarrow> core_ok L'"
  by (auto simp: same_entries_def core_ok_def tracked_sessions simp del: set_map)

lemma same_entries_within: "same_entries L L' \<Longrightarrow> within_limits c L \<Longrightarrow> within_limits c L'"
  by (simp add: same_entries_def within_limits_def)

lemma same_entries_fill [simp]: "same_entries L (fill_owner sid owner L)"
  by (auto simp: same_entries_def fill_owner_def)

lemma same_entries_other [simp]:
  "same_entries L (L\<lparr>waiting_line := w\<rparr>)" "same_entries L (L\<lparr>parked_tasks := n\<rparr>)"
  "same_entries L (L\<lparr>pw_entries := p\<rparr>)" "same_entries L (L\<lparr>parked_tasks := n, parked_wakes := ws\<rparr>)"
  "same_entries L (queue_join t L)" "same_entries L (queue_leave t L)"
  "same_entries L (wake_leave sid L)" "same_entries L (ring_exit key tk L)"
  "same_entries L ((ring_join key tk L)\<lparr>parked_tasks := n\<rparr>)"
  by (auto simp: same_entries_def queue_join_def queue_leave_def wake_leave_def ring_exit_def
      ring_rotate_def ring_leave_def ring_join_def Let_def split: option.splits)

text \<open>Fields the gates do not read.\<close>

lemma admits_other:
  "sessions L' = sessions L \<Longrightarrow> reserved_mb L' = reserved_mb L \<Longrightarrow> admits c L' e = admits c L e"
  by (simp add: admits_def)

lemma gate1_admits: "limits_ok c \<Longrightarrow> gate1 c L e is_task \<Longrightarrow> admits c L e"
  using gate1_room [of c L e is_task] gate1_count [of c L e is_task]
  by (auto simp: admits_def limits_ok_def split: if_splits)

lemma has_room_admits: "limits_ok c \<Longrightarrow> has_room c b L e is_task \<Longrightarrow> admits c L e"
  by (auto simp: has_room_def intro: gate1_admits)

lemma speculative_admits: "limits_ok c \<Longrightarrow> speculative_room c b L e owner \<Longrightarrow> admits c L e"
  by (auto simp: speculative_room_def admits_def limits_ok_def split: if_splits)

lemma empty_admits: "sessions L = [] \<Longrightarrow> admits c L e"
  by (simp add: admits_def)

lemma length_sessions_add: "\<not> tracked sid L \<Longrightarrow> length (sessions (add sid kind e owner t L)) = length (sessions L) + 1"
  by (simp add: add_def dict_set_new tracked_sessions)

lemma add_within:
  assumes "\<not> tracked sid L" "admits c L e" "within_limits c L"
  shows "within_limits c (add sid kind e owner t L)"
  using assms length_sessions_add [OF assms(1), of kind e owner t]
  by (auto simp: within_limits_def admits_def add_def)

lemma remove_length: "length (sessions (remove sid L)) \<le> length (sessions L)"
  by (simp add: remove_def dict_del_def)

lemma remove_within:
  assumes "limits_ok c" "core_ok L" "within_limits c L"
  shows "within_limits c (remove sid L)"
proof -
  note ok' = remove_core [OF assms(2), of sid]
  have le: "reserved_mb (remove sid L) \<le> reserved_mb L" by (rule entries.drop_le [OF assms(2)])
  show ?thesis
  proof (cases "sessions (remove sid L) = []")
    case True
    with ok' have "session_est (remove sid L) = []" by (auto simp: core_ok_def)
    with ok' have "reserved_mb (remove sid L) = 0" by (simp add: core_ok_def)
    with True assms(1) show ?thesis by (simp add: within_limits_def limits_ok_def)
  next
    case False
    then have "length (sessions (remove sid L)) \<ge> 1" by (cases "sessions (remove sid L)") auto
    with le remove_length [of sid L] assms(3) show ?thesis
      by (auto simp: within_limits_def)
  qed
qed

definition kept :: "limits \<Rightarrow> ledger \<Rightarrow> ledger \<Rightarrow> bool" where
  "kept c L L' \<longleftrightarrow> (core_ok L \<longrightarrow> core_ok L' \<and> (within_limits c L \<longrightarrow> within_limits c L'))"

lemma kept_same: "same_entries L L' \<Longrightarrow> kept c L L'"
  using same_entries_core same_entries_within by (auto simp: kept_def)

lemma kept_trans: "kept c L L1 \<Longrightarrow> kept c L1 L2 \<Longrightarrow> kept c L L2"
  by (simp add: kept_def)

lemma kept_remove: "limits_ok c \<Longrightarrow> kept c L (remove sid L)"
  by (simp add: kept_def remove_core remove_within)

lemma kept_add: "\<not> tracked sid L \<Longrightarrow> admits c L e \<Longrightarrow> 0 \<le> e \<Longrightarrow> kept c L (add sid kind e owner t L)"
  by (simp add: kept_def add_core add_within)

lemma same_entries_tracked: "same_entries L L' \<Longrightarrow> tracked sid L' = tracked sid L"
  by (simp add: same_entries_def tracked_def)

lemma same_entries_admits: "same_entries L L' \<Longrightarrow> admits c L' e = admits c L e"
  by (simp add: same_entries_def admits_def)

lemma kept_same_add:
  "same_entries L L1 \<Longrightarrow> \<not> tracked sid L1 \<Longrightarrow> admits c L1 e \<Longrightarrow> 0 \<le> e \<Longrightarrow>
   kept c L (add sid kind e owner t L1)"
  using kept_same kept_add kept_trans by blast

lemma kept_add_same:
  "\<not> tracked sid L \<Longrightarrow> admits c L e \<Longrightarrow> 0 \<le> e \<Longrightarrow>
   same_entries (add sid kind e owner t L) L' \<Longrightarrow> kept c L L'"
  using kept_same kept_add kept_trans by blast

lemma fold_add_meeting:
  assumes "core_ok L" "distinct (map fst es)" "\<forall>se \<in> set es. \<not> tracked (fst se) L \<and> 0 \<le> snd se"
  shows "core_ok (fold (\<lambda>(sid, e). add sid k e [] t) es L) \<and>
    reserved_mb (fold (\<lambda>(sid, e). add sid k e [] t) es L) = reserved_mb L + sum_list (map snd es) \<and>
    length (sessions (fold (\<lambda>(sid, e). add sid k e [] t) es L)) = length (sessions L) + length es"
  using assms
proof (induction es arbitrary: L)
  case (Cons se es)
  obtain sid e where se: "se = (sid, e)" by fastforce
  let ?L = "add sid k e [] t L"
  have nt: "\<not> tracked sid L" "0 \<le> e" using Cons.prems(3) se by auto
  have "core_ok ?L" using Cons.prems(1) nt by (rule add_core)
  moreover have "\<forall>x \<in> set es. \<not> tracked (fst x) ?L \<and> 0 \<le> snd x"
    using Cons.prems(2,3) se by (auto simp: tracked_def add_def)
  ultimately have ih: "core_ok (fold (\<lambda>(sid, e). add sid k e [] t) es ?L) \<and>
      reserved_mb (fold (\<lambda>(sid, e). add sid k e [] t) es ?L) = reserved_mb ?L + sum_list (map snd es) \<and>
      length (sessions (fold (\<lambda>(sid, e). add sid k e [] t) es ?L)) = length (sessions ?L) + length es"
    using Cons.IH [of ?L] Cons.prems(2) by simp
  have "reserved_mb ?L = reserved_mb L + e" by (simp add: add_def)
  with ih se length_sessions_add [OF nt(1)] show ?case by simp
qed simp

lemma kept_meeting:
  assumes "limits_ok c" "distinct (map fst ests)" "\<forall>se \<in> set ests. 0 \<le> snd se"
  shows "kept c L (snd (acquire_meeting c b ests L))"
proof -
  let ?new = "filter (\<lambda>se. \<not> tracked (fst se) L) ests"
  have "distinct (map fst ?new)" using assms(2) by (rule distinct_map_filter)
  moreover have "\<forall>se \<in> set ?new. \<not> tracked (fst se) L \<and> 0 \<le> snd se" using assms(3) by auto
  ultimately have f: "core_ok L \<Longrightarrow> core_ok (fold (\<lambda>(sid, e). add sid ''meeting'' e [] (now_ms b)) ?new L) \<and>
    reserved_mb (fold (\<lambda>(sid, e). add sid ''meeting'' e [] (now_ms b)) ?new L) =
      reserved_mb L + sum_list (map snd ?new) \<and>
    length (sessions (fold (\<lambda>(sid, e). add sid ''meeting'' e [] (now_ms b)) ?new L)) =
      length (sessions L) + length ?new"
    by (intro fold_add_meeting)
  let ?F = "fold (\<lambda>(sid, e). add sid ''meeting'' e [] (now_ms b)) ?new L"
  let ?total = "sum_list (map snd ?new)"
  define bad where "bad \<longleftrightarrow> (max_local c \<noteq> 0 \<and> length (sessions L) + length ?new > max_local c) \<or>
    reserved_mb L + ?total > budget_mb c \<or> \<not> gate2 c b L ?total False"
  show ?thesis
  proof (cases bad)
    case True
    then have "snd (acquire_meeting c b ests L) = L"
      unfolding acquire_meeting_def Let_def bad_def by auto
    then show ?thesis by (simp add: kept_same)
  next
    case False
    then have "snd (acquire_meeting c b ests L) = ?F"
      unfolding acquire_meeting_def Let_def bad_def by auto
    with False f show ?thesis unfolding kept_def within_limits_def bad_def by auto
  qed
qed

lemma kept_fold_remove: "limits_ok c \<Longrightarrow> kept c L (fold remove sids L)"
proof (induction sids arbitrary: L)
  case (Cons sid sids)
  then show ?case using kept_remove kept_trans by fastforce
qed (simp add: kept_def)

lemma kept_evict: "limits_ok c \<Longrightarrow> kept c L (snd (evict_one sid pw L))"
proof -
  assume c: "limits_ok c"
  define L1 where "L1 = (if pw then L\<lparr>pw_entries := remove1 sid (pw_entries L)\<rparr> else L)"
  have same: "kept c L L1" by (simp add: L1_def kept_same)
  have "snd (evict_one sid pw L) \<in> {L, L1, remove sid L1}"
    by (simp add: evict_one_def L1_def Let_def)
  with same kept_trans [OF same kept_remove [OF c]] show ?thesis
    using kept_same [of L L] by auto
qed

lemma kept_queued:
  "limits_ok c \<Longrightarrow> 0 \<le> e \<Longrightarrow> kept c L (snd (queued_hold c b fin t sid kind e owner capped L))"
proof -
  assume c: "limits_ok c" "0 \<le> e"
  obtain h L1 where ih: "is_head fin t L = (h, L1)" by fastforce
  then have same: "same_entries L L1" by (auto simp: is_head_def Let_def)
  show ?thesis
  proof (cases "tracked sid L")
    case True
    then show ?thesis by (simp add: queued_hold_def kept_same)
  next
    case False
    then have nt: "\<not> tracked sid L1" by (simp add: same_entries_tracked [OF same])
    have "has_room c b L1 e False \<Longrightarrow> kept c L (add sid kind e owner (now_ms b) L1)"
      by (rule kept_same_add [OF same nt has_room_admits [OF c(1)] c(2)])
    with kept_same [OF same] False show ?thesis
      by (simp add: queued_hold_def ih)
  qed
qed

lemma kept_simps [simp]: "kept c L L" "kept c L (fill_owner sid owner L)"
  "kept c L (queue_join t L)" "kept c L (queue_leave t L)" "kept c L (wake_leave sid L)"
  "kept c L (ring_exit key tk L)" "kept c L ((ring_join key tk L)\<lparr>parked_tasks := n\<rparr>)"
  "kept c L (L\<lparr>parked_tasks := n, parked_wakes := ws\<rparr>)" "kept c L (L\<lparr>pw_entries := p\<rparr>)"
  by (simp_all add: kept_same)

lemma kept_look:
  assumes "limits_ok c" "0 \<le> e"
  shows "kept c L (snd (acquire_speculative c b sid kind e owner L))"
    and "kept c L (snd (first_look c b sid kind e owner capped L))"
    and "kept c L (snd (attempt c b sid kind e owner capped L))"
  using assms has_room_admits [OF assms(1)] speculative_admits [OF assms(1)] empty_admits
  by (auto simp: acquire_speculative_def first_look_def attempt_def intro!: kept_add)

lemma kept_cap: "kept c L (snd (user_cap_hold c sid owner L))"
  by (simp add: user_cap_hold_def)

lemma kept_background:
  assumes "limits_ok c" "0 \<le> e"
  shows "kept c L (snd (task_arrive c b sid kind e owner key L))"
    and "kept c L (snd (wake_arrive c b sid e taken L))"
    and "kept c L (snd (wake_slice c b sid e taken L))"
  using assms has_room_admits [OF assms(1)]
  by (auto simp: task_arrive_def wake_arrive_def wake_slice_def
      intro!: kept_add kept_add_same [OF _ _ _ same_entries_other(7)])

lemma kept_task_resume:
  "limits_ok c \<Longrightarrow> 0 \<le> e \<Longrightarrow> kept c L (snd (task_resume c b sid kind e owner key L))"
proof -
  assume c: "limits_ok c" "0 \<le> e"
  let ?L1 = "ring_exit (ring_key key) (sid, e) L"
  have adm: "admits c L e" if "ring_turn c b L (ring_key key) (sid, e)"
    using that has_room_admits [OF c(1)]
    by (auto simp: ring_turn_def ring_head_def split: option.splits list.splits if_splits)
  have same: "same_entries L ?L1" by simp
  show ?thesis
  proof (cases "tracked sid L \<or> ring_turn c b L (ring_key key) (sid, e)")
    case True
    show ?thesis
    proof (cases "tracked sid ?L1")
      case tr: True
      then have "snd (task_resume c b sid kind e owner key L) = fill_owner sid owner ?L1"
        using True by (simp add: task_resume_def Let_def)
      then show ?thesis using kept_same [OF same] kept_same [OF same_entries_fill]
        by (metis kept_trans)
    next
      case nt: False
      then have "ring_turn c b L (ring_key key) (sid, e)"
        using True same_entries_tracked [OF same] by simp
      with nt adm same_entries_admits [OF same] have "admits c ?L1 e" by simp
      with nt c(2) show ?thesis using kept_same_add [OF same nt] True
        by (simp add: task_resume_def Let_def)
    qed
  qed (simp add: task_resume_def kept_same)
qed

lemma step_kept:
  assumes "slot_step c L L'" "limits_ok c"
  shows "kept c L L'"
  using assms(1)
proof cases
  case (meeting ps b)
  have "\<forall>se \<in> set (map (\<lambda>(sid, ip, n). (sid, estimate_mb c ip n)) ps). 0 \<le> snd se"
    using estimate_nonneg [OF assms(2)] by auto
  moreover have "map fst (map (\<lambda>(sid, ip, n). (sid, estimate_mb c ip n)) ps) = map fst ps"
    by (simp add: case_prod_beta comp_def)
  ultimately show ?thesis using meeting kept_meeting [OF assms(2)] by metis
qed (use kept_cap kept_look [OF assms(2)] kept_background [OF assms(2)] estimate_nonneg [OF assms(2)]
    kept_evict [OF assms(2)] kept_remove [OF assms(2)] kept_fold_remove [OF assms(2)]
    kept_queued [OF assms(2)] kept_task_resume [OF assms(2)]
    in \<open>simp_all add: release_def reconcile_chat_slots_def\<close>)

section \<open>The ring and the parked count\<close>

definition ring_count :: "(string \<times> (string \<times> int) list) list \<Rightarrow> int" where
  "ring_count r = (\<Sum>kv\<leftarrow>r. int (length (snd kv)))"

definition ring_ok :: "ledger \<Rightarrow> bool" where
  "ring_ok L \<longleftrightarrow>
     distinct (keys (task_ring L)) \<and> distinct (task_ring_order L) \<and>
     set (task_ring_order L) = set (keys (task_ring L)) \<and>
     (\<forall>k. lookup (task_ring L) k \<noteq> Some []) \<and>
     parked_tasks L = ring_count (task_ring L) + int (length (parked_wakes L))"

lemma ring_count_set:
  "lookup r k = Some ln \<Longrightarrow> ring_count (dict_set k ln' r) = ring_count r - int (length ln) + int (length ln')"
  unfolding ring_count_def by (rule sum_dict_set)

lemma ring_count_del:
  "distinct (keys r) \<Longrightarrow> lookup r k = Some ln \<Longrightarrow> ring_count (dict_del k r) = ring_count r - int (length ln)"
  unfolding ring_count_def by (rule sum_dict_del)

lemma ring_count_new:
  "k \<notin> set (keys r) \<Longrightarrow> ring_count (dict_set k ln r) = ring_count r + int (length ln)"
  by (simp add: ring_count_def dict_set_new)

lemma ring_join_ok:
  assumes "ring_ok L"
  shows "ring_ok ((ring_join k t L)\<lparr>parked_tasks := parked_tasks L + 1\<rparr>)"
proof (cases "lookup (task_ring L) k")
  case None
  then have new: "k \<notin> set (keys (task_ring L))" by (simp add: lookup_None_iff)
  with assms None show ?thesis
    by (auto simp: ring_ok_def ring_join_def ring_count_new simp del: set_map)
next
  case (Some ln)
  then have old: "k \<in> set (keys (task_ring L))" using lookup_in_keys [of "task_ring L" k] by simp
  with assms Some show ?thesis
    by (auto simp: ring_ok_def ring_join_def ring_count_set dict_set_old_keys simp del: set_map)
qed

lemma ring_exit_cases:
  assumes "lookup (task_ring L) k = Some ln"
  shows "ring_exit k t L =
    (if remove1 t ln = []
     then L\<lparr>parked_tasks := parked_tasks L - 1, task_ring := dict_del k (task_ring L),
            task_ring_order := remove1 k (remove1 k (task_ring_order L))\<rparr>
     else L\<lparr>parked_tasks := parked_tasks L - 1, task_ring := dict_set k (remove1 t ln) (task_ring L),
            task_ring_order := remove1 k (task_ring_order L) @ [k]\<rparr>)"
  using assms by (simp add: ring_exit_def ring_leave_def ring_rotate_def Let_def)

lemma remove1_twice: "distinct xs \<Longrightarrow> remove1 k (remove1 k xs) = remove1 k xs"
  by (simp add: remove1_idem)

lemma length_remove1_int: "x \<in> set xs \<Longrightarrow> int (length (remove1 x xs)) = int (length xs) - 1"
  by (cases "length xs") (auto simp: length_remove1)

lemma ring_exit_ok:
  assumes "ring_ok L" "lookup (task_ring L) k = Some ln" "t \<in> set ln"
  shows "ring_ok (ring_exit k t L)"
proof -
  have len: "int (length (remove1 t ln)) = int (length ln) - 1"
    using assms(3) by (rule length_remove1_int)
  have k: "k \<in> set (keys (task_ring L))" using assms(2) lookup_in_keys [of "task_ring L" k] by simp
  have d: "distinct (keys (task_ring L))" "distinct (task_ring_order L)"
    "set (task_ring_order L) = set (keys (task_ring L))"
    using assms(1) by (simp_all add: ring_ok_def)
  show ?thesis
  proof (cases "remove1 t ln = []")
    case True
    with len have "length ln = 1" by simp
    with True assms d show ?thesis
      by (auto simp: ring_exit_cases [OF assms(2)] ring_ok_def ring_count_del distinct_dict_del
          remove1_twice simp del: set_map)
  next
    case False
    with assms d k len show ?thesis
      by (auto simp: ring_exit_cases [OF assms(2)] ring_ok_def ring_count_set dict_set_old_keys
          simp del: set_map)
  qed
qed

lemma wake_leave_ok: "ring_ok L \<Longrightarrow> sid \<in> set (parked_wakes L) \<Longrightarrow> ring_ok (wake_leave sid L)"
proof -
  assume "ring_ok L" and w: "sid \<in> set (parked_wakes L)"
  moreover from w have "int (length (remove1 sid (parked_wakes L))) = int (length (parked_wakes L)) - 1"
    by (rule length_remove1_int)
  ultimately show ?thesis by (simp add: ring_ok_def wake_leave_def)
qed

definition same_ring :: "ledger \<Rightarrow> ledger \<Rightarrow> bool" where
  "same_ring L L' \<longleftrightarrow> task_ring L' = task_ring L \<and> task_ring_order L' = task_ring_order L \<and>
     parked_tasks L' = parked_tasks L \<and> parked_wakes L' = parked_wakes L"

lemma same_ring_ok: "same_ring L L' \<Longrightarrow> ring_ok L' = ring_ok L"
  by (simp add: same_ring_def ring_ok_def)

lemma ring_untouched [simp]:
  "ring_ok (add sid kind e owner t L) = ring_ok L" "ring_ok (fill_owner sid owner L) = ring_ok L"
  "ring_ok (remove sid L) = ring_ok L" "ring_ok (queue_join tk L) = ring_ok L"
  "ring_ok (queue_leave tk L) = ring_ok L" "ring_ok (L\<lparr>pw_entries := p\<rparr>) = ring_ok L"
  "ring_ok (L\<lparr>waiting_line := w\<rparr>) = ring_ok L"
  by (simp_all add: ring_ok_def add_def fill_owner_def remove_def queue_join_def queue_leave_def)

lemma ring_fold_remove [simp]: "ring_ok (fold remove sids L) = ring_ok L"
  by (induction sids arbitrary: L) simp_all

lemma ring_fold_add [simp]: "ring_ok (fold (\<lambda>(sid, e). add sid k e [] t) es L) = ring_ok L"
  by (induction es arbitrary: L) (simp_all add: case_prod_beta)

lemma wake_park_ok: "ring_ok L \<Longrightarrow>
   ring_ok (L\<lparr>parked_tasks := parked_tasks L + 1, parked_wakes := parked_wakes L @ [sid]\<rparr>)"
  by (simp add: ring_ok_def)

lemma tracked_wake_leave: "parked_wakes (add sid k e w t L) = parked_wakes L"
  by (simp add: add_def)

lemma step_ring: "slot_step c L L' \<Longrightarrow> ring_ok L \<Longrightarrow> ring_ok L'"
proof (induction rule: slot_step.induct)
  case (task_go L key ln sid ip n b kind owner)
  then have "ring_ok (ring_exit (ring_key key) (sid, estimate_mb c ip n) L)"
    by (intro ring_exit_ok)
  with task_go show ?case by (simp add: task_resume_def Let_def)
next
  case (task_cancel L key ln t)
  then show ?case by (intro ring_exit_ok)
next
  case (wake_go sid L b ip n s)
  then show ?case by (simp add: wake_slice_def wake_leave_ok tracked_wake_leave)
qed (simp_all add: acquire_speculative_def first_look_def attempt_def evict_one_def user_cap_hold_def
    queued_hold_def is_head_def Let_def task_arrive_def ring_join_ok wake_arrive_def wake_leave_ok
    acquire_meeting_def release_def reconcile_chat_slots_def wake_park_ok)

lemma empty_ledger_ok: "limits_ok c \<Longrightarrow> core_ok empty_ledger \<and> within_limits c empty_ledger \<and> ring_ok empty_ledger"
  by (simp add: core_ok_def within_limits_def ring_ok_def ring_count_def empty_ledger_def limits_ok_def)

lemma reachable_kept:
  "reachable_ledger c L \<Longrightarrow> limits_ok c \<Longrightarrow> core_ok L \<and> within_limits c L \<and> ring_ok L"
proof (induction rule: reachable_ledger.induct)
  case start
  then show ?case by (rule empty_ledger_ok)
next
  case (more L L')
  with step_kept [OF more.hyps(2)] step_ring [OF more.hyps(2)] show ?case
    by (simp add: kept_def)
qed

section \<open>Properties of the admission\<close>

lemma reachable_core: "reachable_ledger c L \<Longrightarrow> limits_ok c \<Longrightarrow> core_ok L"
  using reachable_kept by blast

lemma tracked_ids: "core_ok L \<Longrightarrow> ids_of_ledger L = {sid. tracked sid L}"
  by (auto simp: ids_of_ledger_def core_tracked)

lemma tracked_add: "tracked x (add sid kind e owner t L) \<longleftrightarrow> x = sid \<or> tracked x L"
  by (simp add: tracked_def add_def)

lemma tracked_remove: "tracked x (remove sid L) \<longleftrightarrow> x \<noteq> sid \<and> tracked x L"
  by (simp add: tracked_def remove_def)

text \<open>A small box for the witnesses: 1200 MB, 400 for a session, 100 to stay free.\<close>

definition demo_limits :: limits where
  "demo_limits = \<lparr>budget_mb = 1200, floor_mb = 100, est_heavy = 400, est_light = 100,
     max_local = 3, max_per_user = 2\<rparr>"

definition demo_box :: "int \<Rightarrow> box" where
  "demo_box t = \<lparr>now_ms = t, live_mb = 4000\<rparr>"

definition demo_one :: ledger where
  "demo_one = snd (first_look demo_limits (demo_box 0) ''a'' ''chat''
     (estimate_mb demo_limits False 0) ''u'' ''u'' empty_ledger)"

definition demo_two :: ledger where
  "demo_two = snd (task_arrive demo_limits (demo_box 1) ''b'' ''task''
     (estimate_mb demo_limits False 0) ''u'' ''u'' demo_one)"

lemma demo_limits_ok: "limits_ok demo_limits"
  by code_simp

lemma demo_one_reachable: "reachable_ledger demo_limits demo_one"
  unfolding demo_one_def by (rule reachable_ledger.more [OF reachable_ledger.start slot_step.look])

lemma demo_two_reachable: "reachable_ledger demo_limits demo_two"
  unfolding demo_two_def
  by (rule reachable_ledger.more [OF demo_one_reachable slot_step.task_in])

text \<open>C10. With a budget and estimates that are not negative, whatever the interleaving of acquires, evictions,
  releases, cancelled waits, meetings, wakes and reconciliations: the sessions, their estimates and their
  start instants are kept for the same ids, an owner only for some of them (a session without an owner has no
  entry), the reserved memory is the sum of the estimates of the tracked ones, it exceeds the budget only
  when a single session is running (the one an idle box always takes), and the hard session cap, when it is
  set, is never passed.\<close>

theorem ledger_invariant:
  assumes "reachable_ledger c L" "limits_ok c"
  shows "distinct (keys (sessions L)) \<and>
    set (keys (session_est L)) = {sid. tracked sid L} \<and>
    set (keys (session_added_at L)) = {sid. tracked sid L} \<and>
    set (keys (session_owner L)) \<subseteq> {sid. tracked sid L} \<and>
    reserved_mb L = sum (est_of L) {sid. tracked sid L} \<and>
    (reserved_mb L \<le> budget_mb c \<or> length (sessions L) = 1) \<and>
    (max_local c \<noteq> 0 \<longrightarrow> length (sessions L) \<le> max_local c)"
proof -
  from reachable_kept [OF assms] have ok: "core_ok L" and lim: "within_limits c L" by simp_all
  have tr: "{sid. tracked sid L} = set (keys (sessions L))"
    unfolding tracked_sessions by simp
  have sum: "reserved_mb L = sum (est_of L) {sid. tracked sid L}"
    using entries.reserved_sum [OF ok] unfolding tracked_ids [OF ok] .
  show ?thesis
    using ok lim sum unfolding tr core_ok_def within_limits_def by blast
qed

theorem ledger_invariant_witness:
  "reserved_mb demo_two = 800 \<and> reserved_mb demo_two = sum (est_of demo_two) {sid. tracked sid demo_two}"
proof
  show "reserved_mb demo_two = 800" by code_simp
  show "reserved_mb demo_two = sum (est_of demo_two) {sid. tracked sid demo_two}"
    using ledger_invariant [OF demo_two_reachable demo_limits_ok] by blast
qed

text \<open>A release gives back exactly the estimate the session was admitted with and touches no
  other session; releasing twice, or releasing a session that is not tracked, gives nothing back; a
  session admitted and released leaves the reserved memory as it was.\<close>

theorem release_exact:
  assumes "reachable_ledger c L" "limits_ok c"
  shows "reserved_mb (release sid L) = reserved_mb L - (if tracked sid L then est_of L sid else 0) \<and>
    (\<forall>x. tracked x (release sid L) \<longleftrightarrow> x \<noteq> sid \<and> tracked x L) \<and>
    (\<forall>x. x \<noteq> sid \<longrightarrow> est_of (release sid L) x = est_of L x) \<and>
    reserved_mb (release sid (release sid L)) = reserved_mb (release sid L) \<and>
    (\<not> tracked sid L \<longrightarrow>
       reserved_mb (release sid (add sid kind (estimate_mb c ip n) owner t L)) = reserved_mb L)"
proof -
  have ok: "core_ok L" by (rule reachable_core [OF assms])
  have "reserved_mb (release sid L) = reserved_mb L - (if tracked sid L then est_of L sid else 0)"
    using entries.reserved_drop [OF ok, of sid] by (simp add: release_def tracked_ids [OF ok])
  moreover have "\<not> tracked sid L \<Longrightarrow>
      reserved_mb (release sid (add sid kind (estimate_mb c ip n) owner t L)) = reserved_mb L"
    using entries.put_drop [OF ok, of sid "estimate_mb c ip n" kind owner t] estimate_nonneg [OF assms(2)]
    by (simp add: release_def tracked_ids [OF ok])
  ultimately show ?thesis
    using entries.drop_twice [OF ok, of sid] entries.est_drop
    by (simp add: release_def tracked_remove)
qed

theorem release_exact_witness:
  "reserved_mb (release ''a'' demo_two) = reserved_mb demo_two - est_of demo_two ''a'' \<and>
   est_of demo_two ''a'' = 400"
proof
  have tr: "tracked ''a'' demo_two" by code_simp
  show "reserved_mb (release ''a'' demo_two) = reserved_mb demo_two - est_of demo_two ''a''"
    using release_exact [OF demo_two_reachable demo_limits_ok, of "''a''"] tr by simp
  show "est_of demo_two ''a'' = 400" by code_simp
qed

text \<open>A task, a parked task and a background wake are only let in when a whole heavy session
  still fits beside them, in the reserved budget and in the free memory, and below the last slot of
  a cap of two or more: background work never takes the last interactive seat.\<close>

theorem task_headroom:
  assumes "\<not> tracked sid L"
    and "task_arrive c b sid kind e owner key L = (Some Admitted, L') \<or>
      task_resume c b sid kind e owner key L = (Some Admitted, L') \<or>
      wake_arrive c b sid e superseded L = (Some Reserved, L') \<or>
      wake_slice c b sid e superseded L = (Some Reserved, L')"
  shows "reserved_mb L' = reserved_mb L + e \<and> reserved_mb L' + est_heavy c \<le> budget_mb c \<and>
    (max_local c \<ge> 2 \<longrightarrow> length (sessions L') < max_local c) \<and>
    floor_mb c + e + est_heavy c \<le> live_mb b - growin_debit_mb L (now_ms b)"
proof -
  have len: "length (sessions (add sid k e w t L0)) = length (sessions L) + 1"
    if "sessions L0 = sessions L" for L0 k w t
  proof -
    have "sid \<notin> set (keys (sessions L))" using assms(1) by (simp add: tracked_sessions)
    then show ?thesis using that by (simp add: add_def dict_set_new)
  qed
  have same: "same_entries L (ring_exit (ring_key key) (sid, e) L)" by simp
  have nt: "\<not> tracked sid (ring_exit (ring_key key) (sid, e) L)"
    using assms(1) same_entries_tracked [OF same] by simp
  have turn: "has_room c b L e True" if "ring_turn c b L (ring_key key) (sid, e)"
    using that by (auto simp: ring_turn_def ring_head_def split: option.splits list.splits if_splits)
  have room: "has_room c b L e True"
    using assms nt turn
    by (auto simp: task_arrive_def task_resume_def wake_arrive_def wake_slice_def Let_def split: if_splits)
  have res: "reserved_mb L' = reserved_mb L + e" and n: "length (sessions L') = length (sessions L) + 1"
    using assms nt same len
    by (auto simp: task_arrive_def task_resume_def wake_arrive_def wake_slice_def wake_leave_def
        same_entries_def Let_def add_def split: if_splits)
  show ?thesis
    using room res n by (auto simp: has_room_def gate1_def gate2_def split: if_splits)
qed

theorem task_headroom_witness:
  "reserved_mb demo_two + est_heavy demo_limits \<le> budget_mb demo_limits"
proof -
  have nt: "\<not> tracked ''b'' demo_one"
    and run: "task_arrive demo_limits (demo_box 1) ''b'' ''task'' 400 ''u'' ''u'' demo_one =
      (Some Admitted, demo_two)"
    by code_simp+
  show ?thesis using task_headroom [OF nt disjI1 [OF run]] by simp
qed

lemma owned_add:
  assumes "core_ok L" "\<not> tracked sid L" "w \<noteq> []"
  shows "owned (add sid ''chat'' e w t L) u = owned L u + (if u = w then 1 else 0)"
proof -
  have new: "sid \<notin> set (keys (sessions L))" using assms(2) by (simp add: tracked_sessions)
  have "filter (\<lambda>(x, k). k = ''chat'' \<and> cap_owner (add sid ''chat'' e w t L) x = u) (sessions L) =
      filter (\<lambda>(x, k). k = ''chat'' \<and> cap_owner L x = u) (sessions L)"
    using new assms(3) by (intro filter_cong) (force simp: cap_owner_def add_def get_or_def)+
  with new assms(3) show ?thesis
    by (simp add: owned_def add_def dict_set_new cap_owner_def get_or_def)
qed

text \<open>A person's cap holds at every door an interactive chat comes in by: the first look, the
  eviction loop and the line admit a new chat only while its owner has fewer than the cap, so the
  owner's count afterwards is within it, and nobody else's count moves.\<close>

theorem user_cap_held:
  assumes "reachable_ledger c L" "limits_ok c" "\<not> tracked sid L" "u \<noteq> []"
    and "first_look c b sid ''chat'' e u u L = (Some Admitted, L') \<or>
      attempt c b sid ''chat'' e u u L = (Some Admitted, L') \<or>
      queued_hold c b finished t sid ''chat'' e u u L = (Some Admitted, L')"
  shows "owned L' u \<le> max_per_user c \<and> owned L' u = owned L u + 1 \<and>
    (\<forall>v. v \<noteq> u \<longrightarrow> owned L' v = owned L v)"
proof -
  have ok: "core_ok L" by (rule reachable_core [OF assms(1,2)])
  let ?L1 = "snd (is_head finished t L)"
  have q: "sessions ?L1 = sessions L" "session_owner ?L1 = session_owner L" "core_ok ?L1 = core_ok L"
    "tracked sid ?L1 = tracked sid L"
    by (simp_all add: is_head_def Let_def core_ok_def tracked_def)
  then have own: "owned ?L1 v = owned L v" for v by (simp add: owned_def cap_owner_def)
  obtain L0 where L0: "L' = add sid ''chat'' e u (now_ms b) L0" "\<not> at_user_cap c L0 u"
    "core_ok L0" "\<not> tracked sid L0" "\<forall>v. owned L0 v = owned L v"
  proof -
    have "(L' = add sid ''chat'' e u (now_ms b) L \<and> \<not> at_user_cap c L u) \<or>
        (L' = add sid ''chat'' e u (now_ms b) ?L1 \<and> \<not> at_user_cap c ?L1 u)"
      using assms(3-5)
      by (auto simp: first_look_def attempt_def queued_hold_def case_prod_beta Let_def split: if_splits)
    then show ?thesis using that ok assms(3) q own by blast
  qed
  show ?thesis
    using L0 assms(4) owned_add [OF L0(3,4) assms(4)] by (auto simp: at_user_cap_def)
qed

theorem user_cap_held_witness: "owned demo_one ''u'' \<le> max_per_user demo_limits"
proof -
  have nt: "\<not> tracked ''a'' empty_ledger" and u: "''u'' \<noteq> []"
    and run: "first_look demo_limits (demo_box 0) ''a'' ''chat'' 400 ''u'' ''u'' empty_ledger =
      (Some Admitted, demo_one)"
    by code_simp+
  show ?thesis
    using user_cap_held [OF reachable_ledger.start demo_limits_ok nt u disjI1 [OF run]] by simp
qed

lemma find_split:
  "List.find P xs = Some x \<Longrightarrow> \<exists>pre post. xs = pre @ x # post \<and> P x \<and> (\<forall>y \<in> set pre. \<not> P y)"
proof (induction xs)
  case (Cons a xs)
  show ?case
  proof (cases "P a")
    case True
    with Cons.prems show ?thesis by (intro exI [of _ "[]"] exI [of _ xs]) simp
  next
    case False
    with Cons obtain pre post where "xs = pre @ x # post" "P x" "\<forall>y \<in> set pre. \<not> P y" by auto
    with False show ?thesis by (intro exI [of _ "a # pre"] exI [of _ post]) simp
  qed
qed simp

lemma ring_head_Some:
  "ring_head c b L k = Some t \<longleftrightarrow> (\<exists>ln. lookup (task_ring L) k = Some (t # ln)) \<and> has_room c b L (snd t) True"
  by (auto simp: ring_head_def split: option.splits list.splits)

lemma ring_exit_order:
  assumes "distinct (pre @ k # post)" "task_ring_order L = pre @ k # post"
    and "lookup (task_ring L) k = Some (t # ln)"
  shows "task_ring_order (ring_exit k t L) = pre @ post @ (if ln = [] then [] else [k])"
  using assms by (simp add: ring_exit_cases remove1_append remove1_twice remove1_idem)

text \<open>The ring serves one task at a time: at most one parked task has the turn, it heads its
  creator's line, it fits, and no creator before its own in the ring has a head that fits. Letting
  it in moves its creator behind every other one, or out of the ring when the line is empty, so a
  creator with many parked tasks cannot be served twice before the others whose head fits. And a
  parked head that fits always gives the turn to somebody.\<close>

theorem ring_fair:
  assumes "reachable_ledger c L" "limits_ok c"
  shows "(ring_turn c b L key t \<longrightarrow>
      (\<exists>pre post ln. task_ring_order L = pre @ key # post \<and> lookup (task_ring L) key = Some (t # ln) \<and>
         has_room c b L (snd t) True \<and> (\<forall>k \<in> set pre. ring_head c b L k = None) \<and>
         task_ring_order (ring_exit key t L) = pre @ post @ (if ln = [] then [] else [key])) \<and>
      (\<forall>key' t'. ring_turn c b L key' t' \<longrightarrow> key' = key \<and> t' = t)) \<and>
    ((\<exists>k t ln. lookup (task_ring L) k = Some (t # ln) \<and> has_room c b L (snd t) True) \<longrightarrow>
      (\<exists>key t. ring_turn c b L key t))"
proof (intro conjI impI)
  from reachable_kept [OF assms] have ok: "ring_ok L" by simp
  show "\<exists>pre post ln. task_ring_order L = pre @ key # post \<and> lookup (task_ring L) key = Some (t # ln) \<and>
         has_room c b L (snd t) True \<and> (\<forall>k \<in> set pre. ring_head c b L k = None) \<and>
         task_ring_order (ring_exit key t L) = pre @ post @ (if ln = [] then [] else [key])"
    if turn: "ring_turn c b L key t"
  proof -
    from turn have f: "List.find (\<lambda>k. ring_head c b L k \<noteq> None) (task_ring_order L) = Some key"
      and hd: "ring_head c b L key = Some t"
      by (auto simp: ring_turn_def split: option.splits)
    from find_split [OF f] obtain pre post where ord: "task_ring_order L = pre @ key # post"
      and pre: "\<forall>k \<in> set pre. ring_head c b L k = None" by blast
    from hd obtain ln where ln: "lookup (task_ring L) key = Some (t # ln)"
      and room: "has_room c b L (snd t) True" by (auto simp: ring_head_Some)
    from ok ord have "distinct (pre @ key # post)" by (simp add: ring_ok_def)
    from ord pre ln room ring_exit_order [OF this ord ln] show ?thesis by blast
  qed
  show "\<forall>key' t'. ring_turn c b L key' t' \<longrightarrow> key' = key \<and> t' = t" if "ring_turn c b L key t"
    using that by (auto simp: ring_turn_def split: option.splits)
  show "\<exists>key t. ring_turn c b L key t"
    if "\<exists>k t ln. lookup (task_ring L) k = Some (t # ln) \<and> has_room c b L (snd t) True"
  proof -
    from that obtain k t ln where k: "lookup (task_ring L) k = Some (t # ln)" "has_room c b L (snd t) True"
      by blast
    then have "ring_head c b L k \<noteq> None" using ring_head_Some [of c b L k t] by simp
    moreover have "k \<in> set (task_ring_order L)"
      using k(1) ok lookup_in_keys [of "task_ring L" k] by (simp add: ring_ok_def)
    ultimately obtain k' where "List.find (\<lambda>k. ring_head c b L k \<noteq> None) (task_ring_order L) = Some k'"
      using find_None_iff [of "\<lambda>k. ring_head c b L k \<noteq> None" "task_ring_order L"] by fastforce
    moreover from find_split [OF this] obtain t' where "ring_head c b L k' = Some t'" by auto
    ultimately have "ring_turn c b L k' t'" by (simp add: ring_turn_def)
    then show ?thesis by blast
  qed
qed

definition demo_parked :: ledger where
  "demo_parked = snd (task_arrive demo_limits (demo_box 2) ''c'' ''task''
     (estimate_mb demo_limits False 0) ''v'' ''v'' demo_two)"

theorem ring_fair_witness:
  "\<exists>pre post ln. task_ring_order (release ''b'' demo_parked) = pre @ ''v'' # post \<and>
     lookup (task_ring (release ''b'' demo_parked)) ''v'' = Some ((''c'', 400) # ln) \<and>
     task_ring_order (ring_exit ''v'' (''c'', 400) (release ''b'' demo_parked)) =
       pre @ post @ (if ln = [] then [] else [''v''])"
proof -
  have "reachable_ledger demo_limits demo_parked"
    unfolding demo_parked_def
    by (rule reachable_ledger.more [OF demo_two_reachable slot_step.task_in])
  then have r: "reachable_ledger demo_limits (release ''b'' demo_parked)"
    by (rule reachable_ledger.more [OF _ slot_step.release])
  have turn: "ring_turn demo_limits (demo_box 3) (release ''b'' demo_parked) ''v'' (''c'', 400)"
    by code_simp
  then show ?thesis
    using ring_fair [OF r demo_limits_ok, of "demo_box 3" "''v''" "(''c'', 400)"] by blast
qed

end
