(* ===== verification/Acquire.thy ===== *)
theory Acquire
  imports Admission
begin

text \<open>
  \<open>proxy/core/concurrency.py\<close>, an acquire from its first check to its answer: the loop that makes
  room under a person's cap, the first look, the eviction loop, and the maintenance pass. Here the
  holds of one call follow each other with no other coroutine's hold between them; the theory
  Admission interleaves the single holds. The \<open>i\<close>-th round of a loop reads the box and the session
  pools \<open>reads i\<close>.
\<close>

section \<open>Victims\<close>

lemma fold_min_mem: "fold min ks (k :: 'a :: linorder) \<in> set (k # ks)"
proof (induction ks arbitrary: k)
  case (Cons x ks)
  from Cons.IH [of "min x k"] show ?case by (auto simp: min_def split: if_splits)
qed simp

lemma consider_one_candidate:
  assumes "consider_one L a s = Candidate key"
  shows "lookup (sessions L) (ps_sid s) = Some ''chat''"
    and "key = (fst key, - ps_idle s, ps_sid s, ps_source s, ps_sid s \<in> set (pw_entries L))"
    and "ps_sid s \<in> set (pw_entries L) \<or> min_idle a \<le> ps_idle s"
    and "\<forall>u. only_user a = Some u \<longrightarrow> cap_owner L (ps_sid s) = u"
  using assms by (auto simp: consider_one_def Let_def split: if_splits)

lemma map_filter_candidate:
  assumes "k \<in> set (List.map_filter (\<lambda>s. case f s of Candidate k \<Rightarrow> Some k | _ \<Rightarrow> None) pool)"
  obtains s where "s \<in> set pool" "f s = Candidate k"
proof -
  from assms obtain s where s: "s \<in> set pool" "(case f s of Candidate k \<Rightarrow> Some k | _ \<Rightarrow> None) = Some k"
    by (auto simp: List.map_filter_def)
  show ?thesis by (cases "f s"; use s that in simp)
qed

text \<open>A victim is a chat that a pool holds, idle past the floor or an unclaimed pre-warm, and it is
  always there to be evicted.\<close>

lemma victim_spec:
  assumes "victim (oldest_evictable_local L a pool) = Some (v, src, pw)"
  obtains s where "s \<in> set pool" "ps_sid s = v" "v \<in> set (pw_entries L) \<or> min_idle a \<le> ps_idle s"
    "lookup (sessions L) v = Some ''chat''" "evict_one v pw L = (True, snd (evict_one v pw L))"
    "\<forall>u. only_user a = Some u \<longrightarrow> cap_owner L v = u"
proof -
  obtain k ks where c: "candidates L a pool = k # ks"
    using assms by (cases "candidates L a pool") (simp_all add: oldest_evictable_local_def)
  obtain g i v' src' pw' where f: "fold min ks k = (g, i, v', src', pw')"
    by (rule prod_cases5)
  with assms c have f: "fold min ks k = (g, i, v, src, pw)"
    by (simp add: oldest_evictable_local_def)
  have "(g, i, v, src, pw) \<in> set (candidates L a pool)"
    using fold_min_mem [of ks k] by (simp only: c f)
  then obtain s where s: "s \<in> set pool" "consider_one L a s = Candidate (g, i, v, src, pw)"
    unfolding candidates_def by (rule map_filter_candidate)
  note cand = consider_one_candidate [OF s(2)]
  from cand(2) have v: "ps_sid s = v" "pw = (v \<in> set (pw_entries L))" by auto
  have "evict_one v pw L = (True, snd (evict_one v pw L))"
    using cand(1) v by (simp add: evict_one_def Let_def tracked_def)
  with cand s(1) v that show ?thesis by blast
qed

lemma evicted_less:
  "victim (oldest_evictable_local L a pool) = Some (v, src, pw) \<Longrightarrow>
   length (sessions (snd (evict_one v pw L))) < length (sessions L)"
  by (metis victim_spec evict_one_less)

lemma evict_one_lookup:
  "evict_one v pw L = (True, L') \<Longrightarrow>
   lookup (sessions L') x = (if x = v then None else lookup (sessions L) x)"
  by (auto simp: evict_one_def Let_def remove_def split: if_splits)

lemma evict_one_pw: "set (pw_entries (snd (evict_one v pw L))) \<subseteq> set (pw_entries L)"
  using set_remove1_subset [of v "pw_entries L"]
  by (auto simp: evict_one_def Let_def remove_def)

lemma evict_one_core: "core_ok L \<Longrightarrow> core_ok (snd (evict_one v pw L))"
proof -
  assume ok: "core_ok L"
  then have "core_ok (L\<lparr>pw_entries := p\<rparr>)" for p by (simp add: core_ok_def)
  with ok show ?thesis by (simp add: evict_one_def Let_def remove_core)
qed

section \<open>The loops\<close>

text \<open>Every round that goes on has evicted a session, so the number of sessions bounds the rounds.\<close>

function admit_with_eviction ::
    "limits \<Rightarrow> (nat \<Rightarrow> box \<times> pooled list) \<Rightarrow> scan_args \<Rightarrow> string \<Rightarrow> string \<Rightarrow> int \<Rightarrow> string \<Rightarrow> string \<Rightarrow>
     nat \<Rightarrow> ledger \<Rightarrow> admission \<times> ledger" where
  "admit_with_eviction c reads a sid kind est owner capped i L =
     (case attempt c (fst (reads i)) sid kind est owner capped L of
        (Some adm, L') \<Rightarrow> (adm, L')
      | (None, _) \<Rightarrow>
          (let sc = oldest_evictable_local L a (snd (reads i)) in
           case victim sc of
             None \<Rightarrow> (Denied (final_denial c (fst (reads (i + 1))) L est (spared_background sc)), L)
           | Some (vid, _, is_pw) \<Rightarrow>
               admit_with_eviction c reads a sid kind est owner capped (i + 1)
                 (snd (evict_one vid is_pw L))))"
  by pat_completeness auto
termination
  by (relation "measure (\<lambda>(c, reads, a, sid, kind, est, owner, capped, i, L). length (sessions L))")
    (auto intro: evicted_less)

declare admit_with_eviction.simps [simp del]

function make_room_under_user_cap ::
    "limits \<Rightarrow> (nat \<Rightarrow> pooled list) \<Rightarrow> scan_args \<Rightarrow> string \<Rightarrow> string \<Rightarrow> nat \<Rightarrow> ledger \<Rightarrow>
     admission option \<times> ledger" where
  "make_room_under_user_cap c pools a sid owner i L =
     (case user_cap_hold c sid owner L of
        (CapDone adm, L') \<Rightarrow> (Some adm, L')
      | (CapFree, L') \<Rightarrow> (None, L')
      | (CapFull held, L') \<Rightarrow>
          (case victim (oldest_evictable_local L a (pools i)) of
             None \<Rightarrow> (Some (Denied (UserCap held)), L)
           | Some (vid, _, is_pw) \<Rightarrow>
               make_room_under_user_cap c pools a sid owner (i + 1) (snd (evict_one vid is_pw L))))"
  by pat_completeness auto
termination
  by (relation "measure (\<lambda>(c, pools, a, sid, owner, i, L). length (sessions L))")
    (auto intro: evicted_less)

declare make_room_under_user_cap.simps [simp del]

section \<open>An acquire\<close>

definition session_estimate :: "limits \<Rightarrow> bool \<Rightarrow> string \<Rightarrow> string \<Rightarrow> (string \<Rightarrow> nat) \<Rightarrow> ledger \<Rightarrow> int" where
  "session_estimate c in_process sid mcp_config_path stdio_mcp_count L =
     estimate_mb c in_process
       (if mcp_config_path \<noteq> [] \<and> \<not> tracked sid L \<and> in_process
        then stdio_mcp_count mcp_config_path else 0)"

definition prewarm_allowed :: "limits \<Rightarrow> box \<Rightarrow> bool \<Rightarrow> string \<Rightarrow> ledger \<Rightarrow> bool" where
  "prewarm_allowed c b in_process user_sub L =
     speculative_room c b L (estimate_mb c in_process 0) user_sub"

text \<open>Whom a new interactive session is held to the cap for; empty for nobody.\<close>

definition capped_owner :: "limits \<Rightarrow> string \<Rightarrow> bool \<Rightarrow> string \<Rightarrow> string" where
  "capped_owner c owner per_user_cap kind =
     (if owner \<noteq> [] \<and> per_user_cap \<and> kind = ''chat'' \<and> max_per_user c > 0 then owner else [])"

record readings =
  cap_pools :: "nat \<Rightarrow> pooled list"
  look_box :: box
  evict_reads :: "nat \<Rightarrow> box \<times> pooled list"

definition acquire_interactive ::
    "limits \<Rightarrow> readings \<Rightarrow> int \<Rightarrow> int \<Rightarrow> string \<Rightarrow> string \<Rightarrow> int \<Rightarrow> string \<Rightarrow> string \<Rightarrow> ledger \<Rightarrow>
     admission \<times> ledger" where
  "acquire_interactive c r floor_age ceiling sid kind est owner capped L =
     (case (if capped \<noteq> []
            then make_room_under_user_cap c (cap_pools r) (own_scan floor_age ceiling capped) sid capped 0 L
            else (None, L)) of
        (Some adm, L1) \<Rightarrow> (adm, L1)
      | (None, L1) \<Rightarrow>
          (case first_look c (look_box r) sid kind est owner capped L1 of
             (Some adm, L2) \<Rightarrow> (adm, L2)
           | (None, L2) \<Rightarrow>
               admit_with_eviction c (evict_reads r) (interactive_scan floor_age ceiling owner)
                 sid kind est owner capped 0 L2))"

text \<open>An acquire that neither parks nor queues: the answer of a remote target, of a pre-warm, of an
  interactive session.\<close>

definition acquire ::
    "limits \<Rightarrow> readings \<Rightarrow> int \<Rightarrow> int \<Rightarrow> string \<Rightarrow> string \<Rightarrow> string \<Rightarrow> int \<Rightarrow> string \<Rightarrow> bool \<Rightarrow> bool \<Rightarrow>
     ledger \<Rightarrow> admission \<times> ledger" where
  "acquire c r floor_age ceiling sid kind target est owner per_user_cap speculative L =
     (if \<not> target_is_local target then (Admitted, L)
      else if speculative then acquire_speculative c (look_box r) sid kind est owner L
      else acquire_interactive c r floor_age ceiling sid kind est owner
             (capped_owner c owner per_user_cap kind) L)"

text \<open>One maintenance tick: with something parked and the budget full, one victim goes.\<close>

definition maintenance_pass :: "limits \<Rightarrow> int \<Rightarrow> int \<Rightarrow> int \<Rightarrow> pooled list \<Rightarrow> ledger \<Rightarrow> ledger" where
  "maintenance_pass c evict_floor idle_timeout ceiling pool L =
     (if parked_tasks L \<le> 0 then L
      else if budget_full c L then
        (case victim (oldest_evictable_local L (maintenance_scan evict_floor idle_timeout ceiling) pool) of
           None \<Rightarrow> L
         | Some (vid, _, is_pw) \<Rightarrow> snd (evict_one vid is_pw L))
      else L)"

section \<open>What the loops shed\<close>

definition evictable :: "pooled set \<Rightarrow> scan_args \<Rightarrow> ledger \<Rightarrow> string \<Rightarrow> bool" where
  "evictable S a L x \<longleftrightarrow> lookup (sessions L) x = Some ''chat'' \<and>
     (\<exists>s \<in> S. ps_sid s = x \<and> (x \<in> set (pw_entries L) \<or> min_idle a \<le> ps_idle s)) \<and>
     (\<forall>u. only_user a = Some u \<longrightarrow> cap_owner L x = u)"

definition sheds :: "string \<Rightarrow> pooled set \<Rightarrow> scan_args \<Rightarrow> ledger \<Rightarrow> ledger \<Rightarrow> bool" where
  "sheds sid S a L L' \<longleftrightarrow>
     (\<forall>x. x \<noteq> sid \<longrightarrow> lookup (sessions L') x = lookup (sessions L) x \<or>
        lookup (sessions L') x = None \<and> evictable S a L x) \<and>
     set (pw_entries L') \<subseteq> set (pw_entries L)"

lemma sheds_refl [simp]: "sheds sid S a L L"
  by (simp add: sheds_def)

lemma sheds_fill [simp]: "sheds sid S a L (fill_owner w owner L)"
  by (simp add: sheds_def fill_owner_def)

lemma sheds_add [simp]: "sheds sid S a L (add sid kind e owner t L)"
  by (simp add: sheds_def add_def)

lemma evict_one_owner:
  "evict_one v pw L = (True, L1) \<Longrightarrow> x \<noteq> v \<Longrightarrow> cap_owner L1 x = cap_owner L x"
  by (auto simp: evict_one_def Let_def remove_def cap_owner_def get_or_def split: if_splits)

lemma evictable_evict:
  assumes "evict_one v pw L = (True, L1)" "evictable S a L1 x"
  shows "evictable S a L x"
proof -
  have "x \<noteq> v" using assms by (auto simp: evictable_def evict_one_lookup [OF assms(1)])
  then show ?thesis
    using assms(2) evict_one_pw [of v pw L] assms(1)
    by (auto simp: evictable_def evict_one_lookup [OF assms(1)] evict_one_owner [OF assms(1)])
qed

lemma sheds_evict:
  assumes v: "victim (oldest_evictable_local L a pool) = Some (v, src, pw)" and S: "set pool \<subseteq> S"
    and sh: "sheds sid S a (snd (evict_one v pw L)) L'"
  shows "sheds sid S a L L'"
proof -
  obtain s where s: "s \<in> set pool" "ps_sid s = v" "v \<in> set (pw_entries L) \<or> min_idle a \<le> ps_idle s"
    "lookup (sessions L) v = Some ''chat''" and e: "evict_one v pw L = (True, snd (evict_one v pw L))"
    and o: "\<forall>u. only_user a = Some u \<longrightarrow> cap_owner L v = u"
    by (rule victim_spec [OF v])
  from s S o have "evictable S a L v" by (auto simp: evictable_def)
  then show ?thesis
    using sh evict_one_pw [of v pw L] evictable_evict [OF e]
    unfolding sheds_def evict_one_lookup [OF e] by (metis subset_trans)
qed

lemma victim_other:
  assumes "victim (oldest_evictable_local L a pool) = Some (v, src, pw)" "\<not> tracked sid L"
  shows "\<not> tracked sid (snd (evict_one v pw L))"
proof -
  from assms(1) obtain L1 where e: "evict_one v pw L = (True, L1)" by (metis victim_spec)
  with assms(2) show ?thesis by (simp add: tracked_def evict_one_lookup [OF e])
qed

lemma attempt_cases:
  "attempt c b sid kind e owner capped L = (r, L') \<Longrightarrow>
   (r = Some Admitted \<and> tracked sid L \<and> L' = fill_owner sid owner L) \<or>
   (r = Some Admitted \<and> \<not> tracked sid L \<and> L' = add sid kind e owner (now_ms b) L \<and>
      (has_room c b L e False \<or> sessions L = []) \<and> \<not> (capped \<noteq> [] \<and> at_user_cap c L capped)) \<or>
   (r \<noteq> Some Admitted \<and> \<not> tracked sid L \<and> L' = L)"
  by (auto simp: attempt_def split: if_splits)

lemma tracked_fill: "tracked x (fill_owner sid owner L) = tracked x L"
  by (simp add: tracked_def fill_owner_def)

lemma admit_with_eviction_sheds:
  assumes "admit_with_eviction c reads a sid kind e owner capped i L = (adm, L')"
    and "\<forall>j. set (snd (reads j)) \<subseteq> S"
  shows "(adm = Admitted \<longleftrightarrow> tracked sid L') \<and> sheds sid S a L L'"
  using assms
proof (induction c reads a sid kind e owner capped i L rule: admit_with_eviction.induct)
  case (1 c reads a sid kind e owner capped i L)
  obtain r L0 where att: "attempt c (fst (reads i)) sid kind e owner capped L = (r, L0)" by fastforce
  note run = 1(2) [unfolded admit_with_eviction.simps [of c reads a sid kind e owner capped i L] att]
  show ?case
  proof (cases r)
    case (Some adm0)
    with run have res: "adm = adm0" "L' = L0" by simp_all
    from attempt_cases [OF att] Some res show ?thesis
      by (auto simp: tracked_add tracked_fill)
  next
    case None
    with attempt_cases [OF att] have nt: "\<not> tracked sid L" by auto
    show ?thesis
    proof (cases "victim (oldest_evictable_local L a (snd (reads i)))")
      case vn: None
      with run None nt show ?thesis by (auto simp: Let_def)
    next
      case (Some v3)
      obtain v src pw where v: "v3 = (v, src, pw)" by (cases v3) auto
      with Some have vic: "victim (oldest_evictable_local L a (snd (reads i))) = Some (v, src, pw)" by simp
      with run None have next_run:
        "admit_with_eviction c reads a sid kind e owner capped (i + 1) (snd (evict_one v pw L)) = (adm, L')"
        by (simp add: Let_def)
      have "set (snd (reads i)) \<subseteq> S" using 1(3) by blast
      with 1(1) [OF att [unfolded None, symmetric] refl refl Some v [symmetric] refl next_run 1(3)]
      show ?thesis using sheds_evict [OF vic] by blast
    qed
  qed
qed

lemma make_room_sheds:
  assumes "make_room_under_user_cap c pools a sid owner i L = (r, L')"
    and "\<forall>j. set (pools j) \<subseteq> S"
  shows "(r = None \<longrightarrow> \<not> tracked sid L' \<and> owned L' owner < max_per_user c) \<and>
    (r = Some Admitted \<longleftrightarrow> tracked sid L') \<and> sheds sid S a L L'"
  using assms
proof (induction c pools a sid owner i L rule: make_room_under_user_cap.induct)
  case (1 c pools a sid owner i L)
  obtain o1 L0 where hold: "user_cap_hold c sid owner L = (o1, L0)" by fastforce
  note run = 1(2) [unfolded make_room_under_user_cap.simps [of c pools a sid owner i L] hold]
  show ?case
  proof (cases o1)
    case (CapDone adm)
    with run hold show ?thesis
      by (auto simp: user_cap_hold_def tracked_fill split: if_splits)
  next
    case CapFree
    with run hold show ?thesis by (auto simp: user_cap_hold_def split: if_splits)
  next
    case (CapFull held)
    with hold have nt: "\<not> tracked sid L" by (auto simp: user_cap_hold_def split: if_splits)
    show ?thesis
    proof (cases "victim (oldest_evictable_local L a (pools i))")
      case None
      with run CapFull nt show ?thesis by auto
    next
      case (Some v3)
      obtain v src pw where v: "v3 = (v, src, pw)" by (cases v3) auto
      with Some have vic: "victim (oldest_evictable_local L a (pools i)) = Some (v, src, pw)" by simp
      with run CapFull have next_run:
        "make_room_under_user_cap c pools a sid owner (i + 1) (snd (evict_one v pw L)) = (r, L')"
        by simp
      have "set (pools i) \<subseteq> S" using 1(3) by blast
      with 1(1) [OF hold [unfolded CapFull, symmetric] refl Some v [symmetric] refl next_run 1(3)]
      show ?thesis using sheds_evict [OF vic] by blast
    qed
  qed
qed

lemma make_room_core:
  "make_room_under_user_cap c pools a sid owner i L = (r, L') \<Longrightarrow> core_ok L \<Longrightarrow> core_ok L'"
proof (induction c pools a sid owner i L rule: make_room_under_user_cap.induct)
  case (1 c pools a sid owner i L)
  obtain o1 L0 where hold: "user_cap_hold c sid owner L = (o1, L0)" by fastforce
  then have "core_ok L0" using 1(3) same_entries_core [OF same_entries_fill]
    by (auto simp: user_cap_hold_def split: if_splits)
  with 1 hold evict_one_core show ?case
    unfolding make_room_under_user_cap.simps [of c pools a sid owner i L]
    by (auto split: cap_outcome.splits option.splits)
qed

lemma make_room_untracked:
  "make_room_under_user_cap c pools a sid owner i L = (r, L') \<Longrightarrow> \<not> tracked sid L \<Longrightarrow> \<not> tracked sid L'"
proof (induction c pools a sid owner i L rule: make_room_under_user_cap.induct)
  case (1 c pools a sid owner i L)
  show ?case
  proof (cases "owned L owner < max_per_user c")
    case True
    with 1(2,3) show ?thesis
      by (simp add: make_room_under_user_cap.simps [of c pools a sid owner i L] user_cap_hold_def)
  next
    case False
    then have full: "user_cap_hold c sid owner L = (CapFull (owned L owner), L)"
      using 1(3) by (simp add: user_cap_hold_def)
    note run = 1(2) [unfolded make_room_under_user_cap.simps [of c pools a sid owner i L] full]
    show ?thesis
    proof (cases "victim (oldest_evictable_local L a (pools i))")
      case None
      with run 1(3) show ?thesis by simp
    next
      case (Some v3)
      obtain v src pw where v: "v3 = (v, src, pw)" by (cases v3) auto
      with Some have vic: "victim (oldest_evictable_local L a (pools i)) = Some (v, src, pw)" by simp
      with run have "make_room_under_user_cap c pools a sid owner (i + 1) (snd (evict_one v pw L)) = (r, L')"
        by simp
      from 1(1) [OF full [symmetric] refl Some v [symmetric] refl this victim_other [OF vic 1(3)]]
      show ?thesis .
    qed
  qed
qed

lemma look_outcome:
  assumes "first_look c b sid kind e owner capped L = (r, L')"
  shows "(r = None \<longrightarrow> L' = L \<and> \<not> tracked sid L) \<and> (r = Some Admitted \<longleftrightarrow> tracked sid L') \<and>
    sheds sid S a L L'"
  using assms by (auto simp: first_look_def tracked_add tracked_fill split: if_splits)

lemma sheds_trans:
  assumes "sheds sid S a L L1" "sheds sid S a' L1 L'" "min_idle a = min_idle a'"
    and "only_user a' = None"
  shows "sheds sid S (a'\<lparr>only_user := None\<rparr>) L L'"
proof -
  have e: "evictable S a L x \<Longrightarrow> evictable S (a'\<lparr>only_user := None\<rparr>) L x" for x
    using assms(3) by (auto simp: evictable_def)
  have e1: "lookup (sessions L1) x = lookup (sessions L) x \<Longrightarrow> evictable S a' L1 x \<Longrightarrow>
      evictable S (a'\<lparr>only_user := None\<rparr>) L x" for x
    using assms(1) by (auto simp: evictable_def sheds_def)
  show ?thesis
    unfolding sheds_def
  proof (intro conjI allI impI)
    fix x assume "x \<noteq> sid"
    with assms(1,2) have "lookup (sessions L1) x = lookup (sessions L) x \<or>
        lookup (sessions L1) x = None \<and> evictable S a L x"
      and "lookup (sessions L') x = lookup (sessions L1) x \<or>
        lookup (sessions L') x = None \<and> evictable S a' L1 x" by (simp_all add: sheds_def)
    moreover have "lookup (sessions L1) x = None \<Longrightarrow> \<not> evictable S a' L1 x" by (simp add: evictable_def)
    ultimately show "lookup (sessions L') x = lookup (sessions L) x \<or>
        lookup (sessions L') x = None \<and> evictable S (a'\<lparr>only_user := None\<rparr>) L x"
      using e e1 by metis
  next
    show "set (pw_entries L') \<subseteq> set (pw_entries L)" using assms(1,2) by (auto simp: sheds_def)
  qed
qed

section \<open>Properties of an acquire\<close>

lemma acquire_interactive_sheds:
  assumes run: "acquire_interactive c r fl ce sid kind e owner capped L = (adm, L')"
    and S: "\<forall>j. set (cap_pools r j) \<subseteq> S" "\<forall>j. set (snd (evict_reads r j)) \<subseteq> S"
  shows "(adm = Admitted \<longleftrightarrow> tracked sid L') \<and> sheds sid S (interactive_scan fl ce owner) L L'"
proof -
  let ?a = "own_scan fl ce capped" and ?b = "interactive_scan fl ce owner"
  have b: "?b\<lparr>only_user := None\<rparr> = ?b" by (simp add: interactive_scan_def)
  have only: "only_user ?b = None" by (simp add: interactive_scan_def)
  define m where "m = (if capped \<noteq> [] then make_room_under_user_cap c (cap_pools r) ?a sid capped 0 L
    else (None, L))"
  obtain r1 L1 where m1: "m = (r1, L1)" by fastforce
  have room: "sheds sid S ?a L L1" "capped \<noteq> [] \<Longrightarrow> r1 = Some Admitted \<longleftrightarrow> tracked sid L1"
      "capped = [] \<Longrightarrow> r1 = None"
    using m1 make_room_sheds [where pools = "cap_pools r" and i = 0, OF _ S(1)]
    by (auto simp: m_def split: if_splits)
  have idle: "min_idle ?a = min_idle ?b" by (simp add: own_scan_def interactive_scan_def)
  note shed = sheds_trans [OF room(1) _ idle only, unfolded b]
  note run' = run [unfolded acquire_interactive_def, folded m_def, unfolded m1]
  show ?thesis
  proof (cases r1)
    case (Some adm1)
    with run' have "adm = adm1" "L' = L1" by simp_all
    with Some room shed [OF sheds_refl] show ?thesis by (cases "capped = []") auto
  next
    case None
    obtain r2 L2 where look: "first_look c (look_box r) sid kind e owner capped L1 = (r2, L2)" by fastforce
    note out = look_outcome [OF look, of S ?b]
    show ?thesis
    proof (cases r2)
      case (Some adm2)
      with run' None look have "adm = adm2" "L' = L2" by simp_all
      with out Some shed show ?thesis by auto
    next
      case n2: None
      with run' None look have "admit_with_eviction c (evict_reads r) ?b sid kind e owner capped 0 L2 = (adm, L')"
        by simp
      from admit_with_eviction_sheds [OF this S(2)] out n2 shed show ?thesis by auto
    qed
  qed
qed

text \<open>An interactive acquire always comes to an answer (its loops are total: each round that
  goes on has evicted a session). It answers Admitted exactly when the session is tracked
  afterwards, and the sessions it costs are only chats that a pool shows idle past the floor or an
  unclaimed pre-warm: tasks, meetings, phone calls and fresher chats survive it.\<close>

theorem eviction_outcome:
  assumes "acquire_interactive c r fl ce sid kind e owner capped L = (adm, L')"
  shows "(adm = Admitted \<longleftrightarrow> tracked sid L') \<and>
    (\<forall>x. x \<noteq> sid \<longrightarrow> lookup (sessions L') x = lookup (sessions L) x \<or>
       lookup (sessions L') x = None \<and> lookup (sessions L) x = Some ''chat'' \<and>
       (\<exists>s. (\<exists>j. s \<in> set (cap_pools r j) \<or> s \<in> set (snd (evict_reads r j))) \<and>
          ps_sid s = x \<and> (x \<in> set (pw_entries L) \<or> fl \<le> ps_idle s)))"
proof -
  let ?S = "{s. \<exists>j. s \<in> set (cap_pools r j) \<or> s \<in> set (snd (evict_reads r j))}"
  have "(adm = Admitted \<longleftrightarrow> tracked sid L') \<and> sheds sid ?S (interactive_scan fl ce owner) L L'"
    by (rule acquire_interactive_sheds [OF assms]) auto
  then show ?thesis
    by (auto simp: sheds_def evictable_def interactive_scan_def)
qed

definition demo_pool :: "pooled list" where
  "demo_pool = [\<lparr>ps_sid = ''a'', ps_source = ''direct'', ps_user_sub = ''u'', ps_idle = 900,
     ps_turn_live = False, ps_pending = False\<rparr>]"

definition demo_readings :: readings where
  "demo_readings = \<lparr>cap_pools = (\<lambda>_. demo_pool), look_box = demo_box 2,
     evict_reads = (\<lambda>_. (demo_box 2, demo_pool))\<rparr>"

lemma admit_now:
  "attempt c (fst (reads i)) sid kind e owner capped L = (Some adm, L') \<Longrightarrow>
   admit_with_eviction c reads a sid kind e owner capped i L = (adm, L')"
  by (subst admit_with_eviction.simps) simp

lemma admit_after_eviction:
  "attempt c (fst (reads i)) sid kind e owner capped L = (None, L0) \<Longrightarrow>
   victim (oldest_evictable_local L a (snd (reads i))) = Some (v, src, pw) \<Longrightarrow>
   admit_with_eviction c reads a sid kind e owner capped i L =
     admit_with_eviction c reads a sid kind e owner capped (i + 1) (snd (evict_one v pw L))"
  by (subst admit_with_eviction.simps) (simp add: Let_def)

text \<open>A third session of 500 MB does not fit beside the chat and the task: the idle chat goes.\<close>

lemma demo_acquire:
  "acquire_interactive demo_limits demo_readings 300 1800 ''c'' ''chat'' 500 ''v'' [] demo_two =
   (Admitted, add ''c'' ''chat'' 500 ''v'' 2 (remove ''a'' demo_two))"
proof -
  let ?L1 = "remove ''a'' demo_two" and ?reads = "\<lambda>_ :: nat. (demo_box 2, demo_pool)"
  have look: "first_look demo_limits (demo_box 2) ''c'' ''chat'' 500 ''v'' [] demo_two = (None, demo_two)"
    by code_simp
  have att: "attempt demo_limits (demo_box 2) ''c'' ''chat'' 500 ''v'' [] demo_two = (None, demo_two)"
    by code_simp
  have vic: "victim (oldest_evictable_local demo_two (interactive_scan 300 1800 ''v'') demo_pool) =
      Some (''a'', ''direct'', False)"
    by code_simp
  have "tracked ''a'' demo_two" by code_simp
  then have ev: "snd (evict_one ''a'' False demo_two) = ?L1" by (simp add: evict_one_def)
  have "\<not> tracked ''c'' ?L1" and "has_room demo_limits (demo_box 2) ?L1 500 False"
    by code_simp+
  then have att2: "attempt demo_limits (demo_box 2) ''c'' ''chat'' 500 ''v'' [] ?L1 =
      (Some Admitted, add ''c'' ''chat'' 500 ''v'' 2 ?L1)"
    by (simp add: attempt_def demo_box_def)
  have "admit_with_eviction demo_limits ?reads (interactive_scan 300 1800 ''v'')
      ''c'' ''chat'' 500 ''v'' [] 0 demo_two = (Admitted, add ''c'' ''chat'' 500 ''v'' 2 ?L1)"
    using admit_after_eviction [where reads = ?reads and i = 0, unfolded fst_conv snd_conv, OF att vic]
      admit_now [where reads = ?reads and i = "0 + 1", unfolded fst_conv, OF att2]
    unfolding ev by (rule trans)
  then show ?thesis
    unfolding acquire_interactive_def demo_readings_def
    by (simp only: look readings.simps prod.case option.case simp_thms if_False)
qed

theorem eviction_outcome_witness:
  "tracked ''c'' (add ''c'' ''chat'' 500 ''v'' 2 (remove ''a'' demo_two)) \<and>
   lookup (sessions (add ''c'' ''chat'' 500 ''v'' 2 (remove ''a'' demo_two))) ''b'' = Some ''task''"
proof -
  note out = eviction_outcome [OF demo_acquire]
  have b: "lookup (sessions demo_two) ''b'' = Some ''task''" by code_simp
  from conjunct1 [OF out] conjunct2 [OF out, THEN spec, of "''b''"] b show ?thesis by simp
qed

text \<open>Making room under a person's cap costs only that person: every session it closes is a chat
  the ledger counts for them, and when it lets the acquire go on they hold fewer chats than the
  cap.\<close>

theorem cap_room_is_own:
  assumes "make_room_under_user_cap c pools (own_scan fl ce u) sid u 0 L = (r, L')"
  shows "(\<forall>x. x \<noteq> sid \<longrightarrow> lookup (sessions L') x \<noteq> lookup (sessions L) x \<longrightarrow>
       cap_owner L x = u \<and> lookup (sessions L) x = Some ''chat'') \<and>
    (r = None \<longrightarrow> owned L' u < max_per_user c) \<and> (r = Some Admitted \<longleftrightarrow> tracked sid L')"
proof -
  let ?S = "{s. \<exists>j. s \<in> set (pools j)}"
  have "(r = None \<longrightarrow> \<not> tracked sid L' \<and> owned L' u < max_per_user c) \<and>
    (r = Some Admitted \<longleftrightarrow> tracked sid L') \<and> sheds sid ?S (own_scan fl ce u) L L'"
    by (rule make_room_sheds [OF assms]) auto
  then show ?thesis by (auto simp: sheds_def evictable_def own_scan_def)
qed

definition demo_full :: ledger where
  "demo_full = add ''d'' ''chat'' 100 ''u'' 1 demo_one"

lemma demo_cap_room:
  "make_room_under_user_cap demo_limits (\<lambda>_. demo_pool) (own_scan 300 1800 ''u'') ''c'' ''u'' 0 demo_full =
   (None, remove ''a'' demo_full)"
proof -
  have "user_cap_hold demo_limits ''c'' ''u'' demo_full = (CapFull 2, demo_full)" by code_simp
  moreover have "victim (oldest_evictable_local demo_full (own_scan 300 1800 ''u'') demo_pool) =
      Some (''a'', ''direct'', False)" by code_simp
  moreover have "tracked ''a'' demo_full" by code_simp
  then have "snd (evict_one ''a'' False demo_full) = remove ''a'' demo_full" by (simp add: evict_one_def)
  moreover have "fst (user_cap_hold demo_limits ''c'' ''u'' (remove ''a'' demo_full)) = CapFree" by code_simp
  then have "user_cap_hold demo_limits ''c'' ''u'' (remove ''a'' demo_full) = (CapFree, remove ''a'' demo_full)"
    by (simp add: user_cap_hold_def split: if_splits)
  ultimately show ?thesis
    by (simp add: make_room_under_user_cap.simps [of _ _ _ _ _ 0]
        make_room_under_user_cap.simps [of _ _ _ _ _ "Suc 0"])
qed

theorem cap_room_is_own_witness: "owned (remove ''a'' demo_full) ''u'' < 2"
  using cap_room_is_own [OF demo_cap_room] by (simp add: demo_limits_def)

lemma admit_with_eviction_owned:
  assumes "admit_with_eviction c reads a sid kind e owner capped i L = (Admitted, L')"
    and "core_ok L" "\<not> tracked sid L" "capped \<noteq> []" "kind = ''chat''" "owner = capped"
  shows "owned L' capped \<le> max_per_user c"
  using assms
proof (induction c reads a sid kind e owner capped i L rule: admit_with_eviction.induct)
  case (1 c reads a sid kind e owner capped i L)
  obtain r L0 where att: "attempt c (fst (reads i)) sid kind e owner capped L = (r, L0)" by fastforce
  note run = 1(2) [unfolded admit_with_eviction.simps [of c reads a sid kind e owner capped i L] att]
  show ?case
  proof (cases r)
    case (Some adm0)
    with run have "r = Some Admitted" "L' = L0" by simp_all
    with attempt_cases [OF att] 1(4-7) have "L' = add sid ''chat'' e capped (now_ms (fst (reads i))) L"
      and "\<not> at_user_cap c L capped" by auto
    with owned_add [OF 1(3,4,5)] show ?thesis by (simp add: at_user_cap_def)
  next
    case None
    show ?thesis
    proof (cases "victim (oldest_evictable_local L a (snd (reads i)))")
      case vn: None
      with run None show ?thesis by (simp add: Let_def)
    next
      case (Some v3)
      obtain v src pw where v: "v3 = (v, src, pw)" by (cases v3) auto
      with Some have vic: "victim (oldest_evictable_local L a (snd (reads i))) = Some (v, src, pw)" by simp
      with run None have next_run:
        "admit_with_eviction c reads a sid kind e owner capped (i + 1) (snd (evict_one v pw L)) = (Admitted, L')"
        by (simp add: Let_def)
      show ?thesis
        by (rule 1(1) [OF att [unfolded None, symmetric] refl refl Some v [symmetric] refl next_run
              evict_one_core [OF 1(3)] victim_other [OF vic 1(4)] 1(5-7)])
    qed
  qed
qed

text \<open>A person's interactive acquire never takes them past their cap: when it admits a new chat,
  whatever it evicted on the way, they hold at most the cap.\<close>

theorem acquire_within_cap:
  assumes "reachable_ledger c L" "limits_ok c" "\<not> tracked sid L" "u \<noteq> []" "max_per_user c > 0"
    and run: "acquire c r fl ce sid ''chat'' LOCAL e u True False L = (Admitted, L')"
  shows "owned L' u \<le> max_per_user c"
proof -
  have ok: "core_ok L" by (rule reachable_core [OF assms(1,2)])
  have "target_is_local LOCAL" by code_simp
  then have run: "acquire_interactive c r fl ce sid ''chat'' e u u L = (Admitted, L')"
    using run assms(4,5) by (simp add: acquire_def capped_owner_def)
  obtain r1 L1 where m: "make_room_under_user_cap c (cap_pools r) (own_scan fl ce u) sid u 0 L = (r1, L1)"
    by fastforce
  have room: "(r1 = None \<longrightarrow> \<not> tracked sid L1) \<and> (r1 = Some Admitted \<longleftrightarrow> tracked sid L1) \<and>
      sheds sid UNIV (own_scan fl ce u) L L1"
    using make_room_sheds [OF m, of UNIV] by simp
  have ok1: "core_ok L1" by (rule make_room_core [OF m ok])
  have n1: "r1 = None"
  proof (cases r1)
    case (Some adm)
    with run assms(4) m have "adm = Admitted" by (simp add: acquire_interactive_def)
    with Some room have "tracked sid L1" by simp
    moreover have "\<not> tracked sid L1" using make_room_untracked [OF m assms(3)] .
    ultimately show ?thesis by simp
  qed
  with room have nt1: "\<not> tracked sid L1" by simp
  obtain r2 L2 where look: "first_look c (look_box r) sid ''chat'' e u u L1 = (r2, L2)" by fastforce
  show ?thesis
  proof (cases r2)
    case (Some adm)
    with run assms(4) m n1 look have "adm = Admitted" "L' = L2" by (simp_all add: acquire_interactive_def)
    with Some look nt1 assms(4) have "L' = add sid ''chat'' e u (now_ms (look_box r)) L1"
      and "\<not> at_user_cap c L1 u" by (auto simp: first_look_def split: if_splits)
    with owned_add [OF ok1 nt1 assms(4)] show ?thesis by (simp add: at_user_cap_def)
  next
    case None
    with run assms(4) m n1 look
    have "admit_with_eviction c (evict_reads r) (interactive_scan fl ce u) sid ''chat'' e u u 0 L2 = (Admitted, L')"
      by (simp add: acquire_interactive_def)
    moreover have "L2 = L1" using look_outcome [OF look] None by blast
    ultimately show ?thesis using admit_with_eviction_owned ok1 nt1 assms(4) by blast
  qed
qed

lemma demo_acquire_capped:
  "acquire demo_limits demo_readings 300 1800 ''c'' ''chat'' LOCAL 100 ''u'' True False demo_one =
   (Admitted, add ''c'' ''chat'' 100 ''u'' 2 demo_one)"
proof -
  have "target_is_local LOCAL" and "capped_owner demo_limits ''u'' True ''chat'' = ''u''" by code_simp+
  moreover have "user_cap_hold demo_limits ''c'' ''u'' demo_one = (CapFree, demo_one)" by code_simp
  then have "make_room_under_user_cap demo_limits (cap_pools demo_readings) (own_scan 300 1800 ''u'')
      ''c'' ''u'' 0 demo_one = (None, demo_one)"
    by (subst make_room_under_user_cap.simps) simp
  moreover have "\<not> tracked ''c'' demo_one" and "has_room demo_limits (demo_box 2) demo_one 100 False"
    and "\<not> at_user_cap demo_limits demo_one ''u''" by code_simp+
  then have "first_look demo_limits (look_box demo_readings) ''c'' ''chat'' 100 ''u'' ''u'' demo_one =
      (Some Admitted, add ''c'' ''chat'' 100 ''u'' 2 demo_one)"
    by (simp add: first_look_def demo_readings_def demo_box_def)
  ultimately show ?thesis by (simp add: acquire_def acquire_interactive_def)
qed

theorem acquire_within_cap_witness: "owned (add ''c'' ''chat'' 100 ''u'' 2 demo_one) ''u'' \<le> 2"
proof -
  have nt: "\<not> tracked ''c'' demo_one" and u: "''u'' \<noteq> []" and pos: "0 < max_per_user demo_limits"
    by code_simp+
  show ?thesis
    using acquire_within_cap [OF demo_one_reachable demo_limits_ok nt u pos demo_acquire_capped]
    by (simp add: demo_limits_def)
qed

text \<open>An idle platform is never locked: with no local session at all, an interactive acquire is
  admitted whatever the free memory, the estimate and the person, and reserves exactly its
  estimate.\<close>

theorem idle_box_admits:
  assumes "sessions L = []"
  shows "fst (acquire c r fl ce sid kind LOCAL e u per_user_cap False L) = Admitted \<and>
    reserved_mb (snd (acquire c r fl ce sid kind LOCAL e u per_user_cap False L)) = reserved_mb L + e"
proof -
  let ?capped = "capped_owner c u per_user_cap kind"
  have "target_is_local LOCAL" by code_simp
  then have acq: "acquire c r fl ce sid kind LOCAL e u per_user_cap False L =
      acquire_interactive c r fl ce sid kind e u ?capped L" by (simp add: acquire_def)
  have nt: "\<not> tracked sid L" using assms by (simp add: tracked_def)
  have none: "owned L w = 0" for w using assms by (simp add: owned_def)
  have cap: "?capped \<noteq> [] \<Longrightarrow> max_per_user c > 0" by (simp add: capped_owner_def split: if_splits)
  have room: "?capped \<noteq> [] \<Longrightarrow> make_room_under_user_cap c (cap_pools r) (own_scan fl ce ?capped)
      sid ?capped 0 L = (None, L)"
    using cap none nt by (subst make_room_under_user_cap.simps) (simp add: user_cap_hold_def)
  have ncap: "?capped \<noteq> [] \<Longrightarrow> \<not> at_user_cap c L ?capped" using cap none by (simp add: at_user_cap_def)
  have look: "first_look c (look_box r) sid kind e u ?capped L =
      (if has_room c (look_box r) L e False then (Some Admitted, add sid kind e u (now_ms (look_box r)) L)
       else (None, L))"
    using nt ncap by (auto simp: first_look_def)
  have loop: "admit_with_eviction c (evict_reads r) (interactive_scan fl ce u) sid kind e u ?capped 0 L =
      (Admitted, add sid kind e u (now_ms (fst (evict_reads r 0))) L)"
    using nt ncap assms by (intro admit_now) (auto simp: attempt_def)
  show ?thesis
    unfolding acq acquire_interactive_def
    using room look loop by (cases "?capped = []") (simp_all add: add_def)
qed

theorem idle_box_admits_witness:
  "fst (acquire demo_limits demo_readings 300 1800 ''c'' ''chat'' LOCAL 99999 ''u'' True False empty_ledger) =
   Admitted"
  using idle_box_admits [of empty_ledger demo_limits demo_readings 300 1800 "''c''" "''chat''" 99999 "''u''" True]
  by (simp add: empty_ledger_def)

end
