(* ===== verification/ShellHidden.thy ===== *)
theory ShellHidden
  imports ShellGate
begin

text \<open>
  What the Bash gate says of a command, and of every command hidden in it. \<open>inner_step\<close> relates a text
  the gate is asked about to the texts it asks about next, as the code recurses: the segments of a
  string, a segment's substitutions and its outer command, a command's wrapped, executed and remote
  commands. The gate's answer for a text bounds its answer for everything inside.
\<close>

section \<open>The texts inside a text\<close>

datatype asked =
    AskString command_check nat string
  | AskSegment command_check nat string
  | AskCommand command_check nat string

fun answer :: "asked \<Rightarrow> path_decision option" where
  "answer (AskString k d s) = check_command_string k d s"
| "answer (AskSegment k d s) = classify_segment k d s"
| "answer (AskCommand k d s) = classify_command k d s"

text \<open>The command word a segment is judged by, when it is neither structure nor a wrapper.\<close>

definition plain_word :: "string \<Rightarrow> string option" where
  "plain_word body =
     (if body = [] \<or> next_text body \<noteq> UNone \<or> starts_with body ''(('' \<or> is_command_less body then None
      else (case extract_command_name body of
              None \<Rightarrow> None | Some cmd \<Rightarrow> if cmd \<in> set SHELL_STRUCTURAL then None else Some cmd))"

abbreviation far_side :: "command_check \<Rightarrow> command_check" where
  "far_side k \<equiv> k\<lparr>cc_floor_only := True, cc_other_host := True, cc_host_asks := False\<rparr>"

inductive inner_step :: "asked \<Rightarrow> asked \<Rightarrow> bool" where
  part: "split_command_segments (strip s) = Some segs \<Longrightarrow> seg \<in> set segs \<Longrightarrow>
     inner_step (AskString k d s) (AskSegment k d seg)"
| subst: "inner \<in> set (snd (lift_substitutions False s)) \<Longrightarrow> strip inner \<noteq> [] \<Longrightarrow>
     inner_step (AskSegment k d s) (AskString k (d + 1) inner)"
| outer: "inner_step (AskSegment k d s) (AskCommand k d (fst (lift_substitutions False s)))"
| shell: "strip_shell_structure s \<noteq> [] \<Longrightarrow> next_text (strip_shell_structure s) = UString inner \<Longrightarrow>
     inner_step (AskCommand k d s) (AskString k (d + 1) inner)"
| wrapped: "strip_shell_structure s \<noteq> [] \<Longrightarrow> next_text (strip_shell_structure s) = USegment inner \<Longrightarrow>
     inner_step (AskCommand k d s) (AskSegment k (d + 1) inner)"
| exec: "plain_word (strip_shell_structure s) = Some cmd \<Longrightarrow> e \<in> set (exec_inners cmd (strip_shell_structure s)) \<Longrightarrow>
     inner_step (AskCommand k d s) (AskString k (d + 1) e)"
| far: "plain_word (strip_shell_structure s) = Some cmd \<Longrightarrow> r \<in> set (remote_texts cmd (strip_shell_structure s)) \<Longrightarrow>
     inner_step (AskCommand k d s) (AskString (far_side k) (d + 1) r)"

inductive_cases inner_stepE: "inner_step x y"

section \<open>Tiers and gathered answers\<close>

definition rank :: "path_decision \<Rightarrow> nat" where
  "rank d = tier_rank (or_else (permission_tier d) TIER_READ)"

lemma granted_simps [simp]:
  "allowed (granted t b)" "permission_tier (granted t b) = t" "destructive (granted t b) = b"
  by (simp_all add: granted_def ALLOW_def)

lemma tier_ranks [simp]:
  "tier_rank TIER_READ = 1" "tier_rank TIER_EDIT = 2" "tier_rank TIER_EXTENDED = 3"
  "tier_rank TIER_ASK = 3" "tier_rank TIER_ADMIN = 4" "tier_rank [] = 0"
  by (simp_all add: tier_rank_def TIER_ORDER_def tier_defs)

lemma rank_granted: "tier_rank t \<le> rank (granted t b)"
  by (cases t) (simp_all add: rank_def)

lemma tier_max_rank [simp]: "tier_rank (tier_max a b) = max (tier_rank a) (tier_rank b)"
  by (simp add: tier_max_def)

lemma gather_bounds:
  "gather t b rs = Some (Inr (t', b')) \<Longrightarrow>
     tier_rank t \<le> tier_rank t' \<and> (b \<longrightarrow> b') \<and>
     (\<forall>r \<in> set rs. \<exists>d. r = Some d \<and> allowed d \<and> rank d \<le> tier_rank t' \<and> (destructive d \<longrightarrow> b'))"
proof (induction t b rs rule: gather.induct)
  case (2 t b r rs)
  then obtain d where d: "r = Some d" "allowed d" by (cases r) (auto split: if_splits)
  let ?t = "tier_max t (or_else (permission_tier d) TIER_READ)"
  from 2 d have "gather ?t (b \<or> destructive d) rs = Some (Inr (t', b'))" by simp
  from 2(1) [OF d(1) _ this] d show ?case by (auto simp: rank_def)
qed simp

lemma gather_denies:
  "gather t b rs = Some (Inl d) \<Longrightarrow> \<not> allowed d"
  by (induction t b rs rule: gather.induct) (auto split: option.splits if_splits)

lemma tier_max_read: "tier_max TIER_READ (or_else TIER_READ TIER_READ) = TIER_READ"
  by code_simp

lemma gather_read:
  "gather TIER_READ b rs = Some (Inr (t', b')) \<Longrightarrow>
   (\<And>d. Some d \<in> set rs \<Longrightarrow> allowed d \<Longrightarrow> permission_tier d = TIER_READ) \<Longrightarrow> t' = TIER_READ"
proof (induction rs arbitrary: b)
  case (Cons r rs)
  then obtain d where d: "r = Some d" "allowed d" by (cases r) (auto split: if_splits)
  with Cons.prems(2) [of d] have "permission_tier d = TIER_READ" by simp
  with d Cons.prems(1) have "gather TIER_READ (b \<or> destructive d) rs = Some (Inr (t', b'))"
    by (simp add: tier_max_read)
  with Cons show ?case by simp
qed simp

lemma first_refusal_allowed:
  assumes "first_refusal cs a = Some d" "allowed d" "\<And>c e. c \<in> set cs \<Longrightarrow> c = Some (Some e) \<Longrightarrow> \<not> allowed e"
  shows "d = a \<and> (\<forall>c \<in> set cs. c = Some None)"
  using assms by (induction cs a rule: first_refusal.induct) (auto split: option.splits)

lemma check_each_denies: "check_each check say rps = Some (Some d) \<Longrightarrow> \<not> allowed d"
  by (induction check say rps rule: check_each.induct) (auto split: option.splits if_splits)

lemma check_each_passes:
  "check_each check say rps = Some None \<Longrightarrow> \<forall>rp \<in> set rps. \<exists>d. check rp = Some d \<and> allowed d"
  by (induction check say rps rule: check_each.induct) (auto split: option.splits if_splits)

lemma remote_protected_denies: "remote_protected_denial k cmd s = Some (Some d) \<Longrightarrow> \<not> allowed d"
  by (auto simp: remote_protected_denial_def Let_def dest: check_each_denies split: option.splits)

lemma redirect_checks_deny: "c \<in> set (redirect_checks k s) \<Longrightarrow> c = Some (Some d) \<Longrightarrow> \<not> allowed d"
  by (auto simp: redirect_checks_def dest!: sym [of "Some (Some d)"] sym [THEN check_each_denies])

section \<open>A command's own judgement\<close>

lemma command_tier_rank: "1 \<le> tier_rank (command_tier cmd s t) \<and> tier_rank t \<le> tier_rank (command_tier cmd s t)"
proof -
  have "tier_rank t \<le> 4" by (simp add: tier_rank_def TIER_ORDER_def)
  then show ?thesis
    by (auto simp: command_tier_def Let_def bash_command_tier_def split: option.splits if_splits)
qed

lemma machine_refusal:
  "first_refusal (if b then [remote_protected_denial k cmd s] else []) a = Some d \<Longrightarrow> allowed d \<Longrightarrow> d = a"
  by (cases b) (auto dest: remote_protected_denies split: option.splits)

lemma rank_read: "permission_tier d = TIER_READ \<Longrightarrow> rank d = 1"
  by (simp add: rank_def tier_rank_def TIER_ORDER_def TIER_READ_def)

lemma rank_edit: "permission_tier d = TIER_EDIT \<Longrightarrow> rank d = 2"
  by (simp add: rank_def tier_rank_def TIER_ORDER_def TIER_EDIT_def)

lemma host_state_writeD: "host_state_write_floor rps asks = (Some d, w) \<Longrightarrow> allowed d \<Longrightarrow> False"
  using host_state_write_denies by blast

lemma path_checks_allowed:
  assumes "path_checks k cmd s tier destr = Some d" "allowed d"
  shows "tier_rank tier \<le> rank d \<and> (destr \<longrightarrow> destructive d) \<and>
    (\<forall>rp \<in> set (literal (fst (extract_path_args cmd s))).
       \<exists>e. bash_path_decision k False rp = Some e \<and> allowed e) \<and>
    (\<forall>rp \<in> set (literal (snd (extract_path_args cmd s)) @ judged (extract_redirect_targets s)).
       \<exists>e. bash_path_decision k True rp = Some e \<and> allowed e)"
proof -
  let ?ps = "extract_path_args cmd s"
  let ?t = "if literal (snd ?ps) @ judged (extract_redirect_targets s) = [] then tier else tier_max tier TIER_EDIT"
  let ?cs = "[check_each (bash_path_decision k False) (quoted_path ''read path'') (literal (fst ?ps)),
     check_each (bash_path_decision k True) (quoted_path ''write path'') (literal (snd ?ps))] @ redirect_checks k s"
  obtain state where "first_refusal ?cs (granted ?t (destr \<or> state)) = Some d"
    using assms
    by (cases "host_state_write_floor (snd ?ps @ extract_redirect_targets s) (state_asks k)")
      (auto simp: path_checks_def Let_def dest: host_state_writeD split: option.splits)
  from first_refusal_allowed [OF this assms(2)] redirect_checks_deny [of _ k s] check_each_denies
  have d: "d = granted ?t (destr \<or> state)" and c: "\<forall>c \<in> set ?cs. c = Some None"
    by fastforce+
  have "tier_rank tier \<le> tier_rank ?t" by simp
  also have "\<dots> \<le> rank d" unfolding d by (rule rank_granted)
  finally have "tier_rank tier \<le> rank d" .
  moreover have "check_each (bash_path_decision k False) (quoted_path ''read path'') (literal (fst ?ps)) = Some None"
    "check_each (bash_path_decision k True) (quoted_path ''write path'') (literal (snd ?ps)) = Some None"
    "check_each (bash_path_decision k True) (quoted_path ''redirect target'') (judged (extract_redirect_targets s)) = Some None"
    using c by (simp_all add: redirect_checks_def)
  note this [THEN check_each_passes]
  ultimately show ?thesis using d by (simp add: ball_Un)
qed

lemma role_gate_denies: "role_gate k cmd tier s = Some (Some d) \<Longrightarrow> \<not> allowed d"
  by (auto simp: role_gate_def Let_def dest: check_each_denies split: if_splits option.splits)

lemma floor_pass_allowed:
  assumes "floor_pass k cmd s destr = Some d" "allowed d"
  shows "permission_tier d = TIER_READ \<and> (destr \<longrightarrow> destructive d)"
proof -
  let ?a = "host_state_write_floor (snd (extract_path_args cmd s) @ extract_redirect_targets s) (state_asks k)"
  have "d = (case ?a of (Some d, _) \<Rightarrow> d | (None, state) \<Rightarrow> granted TIER_READ (destr \<or> state))"
    using assms unfolding floor_pass_def by (rule machine_refusal)
  with assms(2) host_state_writeD show ?thesis by (cases ?a) (auto split: option.splits)
qed

lemma judge_command_allowed:
  assumes "judge_command k cmd s et ed sd = Some d" "allowed d"
  shows "(ed \<or> sd \<longrightarrow> destructive d) \<and> 1 \<le> rank d \<and> (cc_floor_only k \<or> tier_rank et \<le> rank d)"
proof (cases "cc_floor_only k")
  case True
  with assms floor_pass_allowed [of k cmd s "ed \<or> sd" d] show ?thesis
    by (auto simp: judge_command_def rank_read)
next
  case False
  let ?t = "command_tier cmd s et"
  let ?b = "is_destructive_command cmd \<or> ed \<or> sd \<or> (cmd = ''find'' \<and> find_has_delete s)"
  from assms False role_gate_denies have "path_checks k cmd s ?t ?b = Some d"
    by (auto simp: judge_command_def Let_def split: option.splits)
  from path_checks_allowed [OF this assms(2)] command_tier_rank [of cmd s et] show ?thesis by auto
qed

text \<open>In the floor pass every answer is of the read tier.\<close>

lemma structural_floor:
  assumes "structural_decision k s = Some d" "allowed d" "cc_floor_only k"
  shows "permission_tier d = TIER_READ"
proof -
  obtain b where "first_refusal (if cc_remote k \<and> \<not> cc_other_host k then [remote_protected_denial k [] s] else [])
      (granted TIER_READ b) = Some d"
    using assms
    by (cases "host_state_write_floor (extract_redirect_targets s) (state_asks k)")
      (auto simp: structural_decision_def Let_def dest: host_state_writeD split: option.splits if_splits)
  from machine_refusal [OF this assms(2)] show ?thesis by simp
qed

lemma judge_floor:
  "judge_command k cmd s et ed sd = Some d \<Longrightarrow> allowed d \<Longrightarrow> cc_floor_only k \<Longrightarrow> permission_tier d = TIER_READ"
  using floor_pass_allowed by (auto simp: judge_command_def)

lemma unparsed_floor: "unparsed k s = Some d \<Longrightarrow> cc_floor_only k \<Longrightarrow> permission_tier d = TIER_READ"
  by (auto simp: unparsed_def)

section \<open>Inversion of the three functions\<close>

definition segment_results :: "command_check \<Rightarrow> nat \<Rightarrow> string list \<Rightarrow> path_decision option list" where
  "segment_results k depth segs =
     map (\<lambda>seg. case floor_of k True seg of
                   Some d \<Rightarrow> Some d
                 | None \<Rightarrow> map_option (\<lambda>d. if allowed d
                     then d\<lparr>destructive := (state_asks k \<and> host_state_seen seg) \<or> destructive d\<rparr> else d)
                   (classify_segment k depth seg)) segs"

lemma string_allowed:
  assumes "check_command_string k depth s = Some e" "allowed e"
  shows "depth \<le> MAX_BASH_DEPTH \<and>
    (strip s = [] \<and> e = granted TIER_READ False \<or>
     strip s \<noteq> [] \<and> floor_of k False (strip s) = None \<and>
     (\<exists>segs t b. split_command_segments (strip s) = Some segs \<and> e = granted t b \<and>
        gather TIER_READ (state_asks k \<and> host_state_seen (strip s)) (segment_results k depth segs) = Some (Inr (t, b))))"
proof -
  have d: "\<not> depth > MAX_BASH_DEPTH"
    using assms by (subst (asm) check_command_string.simps) (auto split: if_splits)
  show ?thesis
  proof (cases "strip s = []")
    case True
    with assms(1) d show ?thesis by (subst (asm) check_command_string.simps) simp
  next
    case False
    note eq = assms(1) [unfolded check_command_string.simps [of k depth s] if_not_P [OF d] if_not_P [OF False] Let_def]
    have fl: "floor_of k False (strip s) = None"
      using eq assms(2) by (auto simp: floor_of_def split: option.splits dest: floor_denial_denies)
    note eq = eq [unfolded fl option.case]
    then obtain segs where segs: "split_command_segments (strip s) = Some segs"
      using assms(2) by (auto split: option.splits)
    note eq = eq [unfolded segs option.case, folded segment_results_def]
    then obtain t b where "gather TIER_READ (state_asks k \<and> host_state_seen (strip s)) (segment_results k depth segs)
        = Some (Inr (t, b))" "e = granted t b"
      using assms(2) by (auto dest: gather_denies split: option.splits sum.splits prod.splits)
    with d False fl segs show ?thesis by auto
  qed
qed

lemma segment_allowed:
  assumes "classify_segment k depth s = Some e" "allowed e" "lift_substitutions False s = (lifted, inners)"
  shows "\<exists>t b outer.
    gather TIER_READ False (map (check_command_string k (depth + 1)) (filter (\<lambda>i. strip i \<noteq> []) inners))
      = Some (Inr (t, b)) \<and>
    (inners \<noteq> [] \<longrightarrow> floor_of k True lifted = None) \<and>
    classify_command k depth lifted = Some outer \<and> allowed outer \<and>
    e = segment_answer k (inners \<noteq> [] \<or> has_placeholder s) t b outer"
proof -
  note eq = assms(1) [unfolded classify_segment.simps [of k depth s] assms(3) prod.case]
  let ?rs = "map (check_command_string k (depth + 1)) (filter (\<lambda>i. strip i \<noteq> []) inners)"
  obtain t b where g: "gather TIER_READ False ?rs = Some (Inr (t, b))"
    using eq assms(2) by (auto dest: gather_denies split: option.splits sum.splits prod.splits)
  note eq = eq [unfolded g option.case sum.case prod.case]
  have fl: "(if inners = [] then None else floor_of k True lifted) = None"
    using eq assms(2) by (auto simp: floor_of_def split: option.splits dest: floor_denial_denies)
  note eq = eq [unfolded fl option.case]
  then obtain outer where o: "classify_command k depth lifted = Some outer"
    "e = segment_answer k (inners \<noteq> [] \<or> has_placeholder s) t b outer"
    by (cases "classify_command k depth lifted") auto
  moreover have "allowed outer" using o(2) assms(2) by (auto simp: segment_answer_def split: if_splits)
  ultimately show ?thesis using g fl by (auto split: if_splits)
qed

definition exec_results :: "command_check \<Rightarrow> nat \<Rightarrow> string \<Rightarrow> string \<Rightarrow> path_decision option list" where
  "exec_results k depth cmd body = map (check_command_string k (depth + 1)) (exec_inners cmd body)"

definition far_results :: "command_check \<Rightarrow> nat \<Rightarrow> string \<Rightarrow> string \<Rightarrow> path_decision option list" where
  "far_results k depth cmd body = map (check_command_string (far_side k) (depth + 1)) (remote_texts cmd body)"

lemma command_floor:
  assumes "classify_command k depth s = Some e" "allowed e" "strip_shell_structure s \<noteq> []"
  shows "(if strip_shell_structure s = strip s then None else floor_of k True (strip_shell_structure s)) = None"
  using assms
  by (subst (asm) classify_command.simps)
    (auto simp: Let_def floor_of_def split: option.splits dest: floor_denial_denies)

lemma command_allowed:
  assumes "classify_command k depth s = Some e" "allowed e"
  obtains (structural) t where "plain_word (strip_shell_structure s) = None"
      "strip_shell_structure s = [] \<or> next_text (strip_shell_structure s) = UNone"
      "structural_decision k t = Some e \<or> unparsed k t = Some e"
  | (shell) inner where "strip_shell_structure s \<noteq> []" "next_text (strip_shell_structure s) = UString inner"
      "check_command_string k (depth + 1) inner = Some e"
  | (wrapped) inner where "strip_shell_structure s \<noteq> []" "next_text (strip_shell_structure s) = USegment inner"
      "classify_segment k (depth + 1) inner = Some e"
  | (plain) cmd et ed ft sd where "plain_word (strip_shell_structure s) = Some cmd"
      "gather [] False (exec_results k depth cmd (strip_shell_structure s)) = Some (Inr (et, ed))"
      "gather [] False (far_results k depth cmd (strip_shell_structure s)) = Some (Inr (ft, sd))"
      "judge_command k cmd (strip_shell_structure s) et ed sd = Some e"
proof -
  let ?b = "strip_shell_structure s"
  show thesis
  proof (cases "?b = []")
    case True
    with assms(1) have "structural_decision k s = Some e" by (simp add: classify_command.simps)
    with True show thesis by (intro structural) (auto simp: plain_word_def)
  next
    case False
    note fl = command_floor [OF assms False]
    note eq = assms(1) [unfolded classify_command.simps [of k depth s] Let_def fl if_not_P [OF False] option.case]
    show thesis
    proof (cases "next_text ?b")
      case (UString inner)
      with False eq shell show thesis by simp
    next
      case (USegment inner)
      with False eq wrapped show thesis by simp
    next
      case UNone
      show thesis
      proof (cases "plain_word ?b")
        case None
        with UNone False eq structural show thesis
          by (auto simp: plain_word_def split: if_splits option.splits)
      next
        case (Some cmd)
        then have g: "\<not> (starts_with ?b ''(('' \<or> is_command_less ?b)" "extract_command_name ?b = Some cmd"
          "cmd \<notin> set SHELL_STRUCTURAL"
          by (auto simp: plain_word_def split: if_splits option.splits)
        note eq = eq [unfolded UNone unwrapped.case if_not_P [OF g(1)] g(2) option.case if_not_P [OF g(3)],
          folded exec_results_def far_results_def]
        with Some assms(2) plain show thesis
          by (auto dest: gather_denies split: option.splits sum.splits prod.splits)
      qed
    qed
  qed
qed

lemma segment_result_allowed:
  assumes "Some d \<in> set (segment_results k depth segs)" "allowed d"
  obtains seg e where "seg \<in> set segs" "floor_of k True seg = None" "classify_segment k depth seg = Some e"
    "allowed e" "d = e\<lparr>destructive := (state_asks k \<and> host_state_seen seg) \<or> destructive e\<rparr>"
proof -
  from assms(1) obtain seg where seg: "seg \<in> set segs" and
    d: "Some d = (case floor_of k True seg of Some d \<Rightarrow> Some d
         | None \<Rightarrow> map_option (\<lambda>d. if allowed d
             then d\<lparr>destructive := (state_asks k \<and> host_state_seen seg) \<or> destructive d\<rparr> else d)
           (classify_segment k depth seg))"
    unfolding segment_results_def by auto
  have fl: "floor_of k True seg = None"
    using d assms(2) floor_denial_denies by (cases "floor_of k True seg") (auto simp: floor_of_def)
  with d obtain e where e: "classify_segment k depth seg = Some e"
    by (cases "classify_segment k depth seg") auto
  with d fl assms(2) have "allowed e" "d = e\<lparr>destructive := (state_asks k \<and> host_state_seen seg) \<or> destructive e\<rparr>"
    by (auto split: if_splits)
  with seg fl e that show thesis by blast
qed

lemma command_plain:
  assumes "classify_command k d s = Some e" "allowed e" "plain_word (strip_shell_structure s) = Some cmd"
  shows "\<exists>et ed ft sd.
    gather [] False (exec_results k d cmd (strip_shell_structure s)) = Some (Inr (et, ed)) \<and>
    gather [] False (far_results k d cmd (strip_shell_structure s)) = Some (Inr (ft, sd)) \<and>
    judge_command k cmd (strip_shell_structure s) et ed sd = Some e"
  using assms(1,2) assms(3) by (cases rule: command_allowed) (auto simp: plain_word_def split: if_splits)

text \<open>In the floor pass every answer of the recursion is of the read tier.\<close>

lemma floor_only_reads:
  "\<And>e. check_command_string k depth s = Some e \<Longrightarrow> allowed e \<Longrightarrow> cc_floor_only k \<Longrightarrow> permission_tier e = TIER_READ"
  "\<And>e. classify_segment k depth s = Some e \<Longrightarrow> allowed e \<Longrightarrow> cc_floor_only k \<Longrightarrow> permission_tier e = TIER_READ"
  "\<And>e. classify_command k depth s = Some e \<Longrightarrow> allowed e \<Longrightarrow> cc_floor_only k \<Longrightarrow> permission_tier e = TIER_READ"
proof (induction k depth s and k depth s and k depth s
    rule: check_command_string_classify_segment_classify_command.induct)
  case (1 k depth s)
  from string_allowed [OF 1(2,3)] show ?case
  proof (elim conjE disjE exE)
    fix segs t b
    assume *: "strip s \<noteq> []" "floor_of k False (strip s) = None" "split_command_segments (strip s) = Some segs"
      "e = granted t b" "depth \<le> MAX_BASH_DEPTH"
      and g: "gather TIER_READ (state_asks k \<and> host_state_seen (strip s)) (segment_results k depth segs) = Some (Inr (t, b))"
    have "permission_tier d = TIER_READ" if "Some d \<in> set (segment_results k depth segs)" "allowed d" for d
      using that
    proof (rule segment_result_allowed)
      fix seg e
      assume "seg \<in> set segs" "floor_of k True seg = None" "classify_segment k depth seg = Some e" "allowed e"
        "d = e\<lparr>destructive := (state_asks k \<and> host_state_seen seg) \<or> destructive e\<rparr>"
      with 1(1) [OF _ *(1,2) refl *(3)] 1(4) *(5) show ?thesis by simp
    qed
    from gather_read [OF g this] *(4) show ?thesis by simp
  qed simp
next
  case (2 k depth s)
  obtain lifted inners where l: "lift_substitutions False s = (lifted, inners)" by fastforce
  from segment_allowed [OF 2(3,4) l] obtain t b outer where *:
    "gather TIER_READ False (map (check_command_string k (depth + 1)) (filter (\<lambda>i. strip i \<noteq> []) inners)) = Some (Inr (t, b))"
    "inners \<noteq> [] \<longrightarrow> floor_of k True lifted = None"
    "classify_command k depth lifted = Some outer" "allowed outer"
    "e = segment_answer k (inners \<noteq> [] \<or> has_placeholder s) t b outer" by blast
  have "permission_tier outer = TIER_READ"
    using 2(2) [OF l [symmetric] *(1) refl refl _ *(3,4) 2(5)] *(2) by simp
  with *(4,5) 2(5) show ?case by (simp add: segment_answer_def)
next
  case (3 k depth s)
  show ?case
    using 3(5,6)
  proof (cases rule: command_allowed)
    case (structural t)
    with structural_floor unparsed_floor 3(6,7) show ?thesis by blast
  next
    case (shell inner)
    with 3(1) [OF refl shell(1) _ shell(2) shell(3)] 3(6,7) command_floor [OF 3(5,6) shell(1)] show ?thesis by simp
  next
    case (wrapped inner)
    with 3(2) [OF refl wrapped(1) _ wrapped(2) wrapped(3)] 3(6,7) command_floor [OF 3(5,6) wrapped(1)] show ?thesis by simp
  next
    case (plain cmd et ed ft sd)
    from judge_floor [OF plain(4) 3(6,7)] show ?thesis .
  qed
qed

section \<open>What is inside an allowed text\<close>

text \<open>\<open>outranks x y\<close>: where the gate lets \<open>x\<close> through it let \<open>y\<close> through, at no higher tier and no more
  destructive.\<close>

definition outranks :: "path_decision option \<Rightarrow> path_decision option \<Rightarrow> bool" where
  "outranks a b =
     (\<forall>d. a = Some d \<longrightarrow> allowed d \<longrightarrow>
        (\<exists>e. b = Some e \<and> allowed e \<and> rank e \<le> rank d \<and> (destructive e \<longrightarrow> destructive d)))"

lemma outranks_refl [simp]: "outranks a a" by (simp add: outranks_def)

lemma outranksD:
  "outranks a b \<Longrightarrow> a = Some d \<Longrightarrow> allowed d \<Longrightarrow>
     \<exists>e. b = Some e \<and> allowed e \<and> rank e \<le> rank d \<and> (destructive e \<longrightarrow> destructive d)"
  by (simp add: outranks_def)

lemma outranksI:
  "(\<And>d. a = Some d \<Longrightarrow> allowed d \<Longrightarrow>
      \<exists>e. b = Some e \<and> allowed e \<and> rank e \<le> rank d \<and> (destructive e \<longrightarrow> destructive d)) \<Longrightarrow> outranks a b"
  by (simp add: outranks_def)

lemma outranks_trans:
  assumes "outranks a b" "outranks b c"
  shows "outranks a c"
proof (rule outranksI)
  fix d assume "a = Some d" "allowed d"
  from outranksD [OF assms(1) this] obtain e where e: "b = Some e" "allowed e" "rank e \<le> rank d"
    "destructive e \<longrightarrow> destructive d" by blast
  from outranksD [OF assms(2) e(1,2)] e(3,4)
  show "\<exists>f. c = Some f \<and> allowed f \<and> rank f \<le> rank d \<and> (destructive f \<longrightarrow> destructive d)"
    by (auto intro: order_trans)
qed

lemma segment_answer_bounds:
  assumes "e = segment_answer k holed t b outer" "allowed outer" "b \<longrightarrow> holed"
    "cc_floor_only k \<Longrightarrow> permission_tier outer = TIER_READ" "cc_floor_only k \<Longrightarrow> t = TIER_READ"
  shows "rank outer \<le> rank e \<and> (holed \<longrightarrow> tier_rank t \<le> rank e) \<and> (destructive outer \<or> b \<longrightarrow> destructive e)"
proof (cases "cc_floor_only k")
  case True
  with assms show ?thesis by (auto simp: segment_answer_def rank_read)
next
  case floor: False
  show ?thesis
  proof (cases holed)
    case True
    let ?m = "tier_max (tier_max TIER_ASK (or_else (permission_tier outer) TIER_READ)) t"
    from True floor assms(1,2) have e: "e = granted ?m (destructive outer \<or> b)"
      by (simp add: segment_answer_def)
    have "tier_rank ?m \<le> rank e" unfolding e by (rule rank_granted)
    then show ?thesis using e by (auto simp: rank_def)
  next
    case False
    with floor assms show ?thesis by (auto simp: segment_answer_def)
  qed
qed

text \<open>A segment's answer against the answers it is made of.\<close>

lemma segment_parts:
  assumes "classify_segment k d s = Some e" "allowed e" "lift_substitutions False s = (lifted, inners)"
  shows "(\<exists>outer. classify_command k d lifted = Some outer \<and> allowed outer \<and> rank outer \<le> rank e \<and>
      (destructive outer \<longrightarrow> destructive e)) \<and>
    (\<forall>inner \<in> set inners. strip inner \<noteq> [] \<longrightarrow>
      (\<exists>f. check_command_string k (d + 1) inner = Some f \<and> allowed f \<and> rank f \<le> rank e \<and>
        (destructive f \<longrightarrow> destructive e)))"
proof -
  from segment_allowed [OF assms] obtain t b outer where g:
    "gather TIER_READ False (map (check_command_string k (d + 1)) (filter (\<lambda>i. strip i \<noteq> []) inners)) = Some (Inr (t, b))"
    and o: "classify_command k d lifted = Some outer" "allowed outer"
    "e = segment_answer k (inners \<noteq> [] \<or> has_placeholder s) t b outer" by blast
  have t: "t = TIER_READ" if "cc_floor_only k"
    by (rule gather_read [OF g]) (use floor_only_reads(1) [of k "d + 1"] that in \<open>auto dest: sym\<close>)
  have b: "b \<longrightarrow> inners \<noteq> [] \<or> has_placeholder s" using g by (cases "inners = []") auto
  from segment_answer_bounds [OF o(3,2) b floor_only_reads(3) [OF o(1,2)] t]
  have r: "rank outer \<le> rank e" "inners \<noteq> [] \<longrightarrow> tier_rank t \<le> rank e" "destructive outer \<or> b \<longrightarrow> destructive e"
    by auto
  have "\<exists>f. check_command_string k (d + 1) inner = Some f \<and> allowed f \<and> rank f \<le> rank e \<and>
      (destructive f \<longrightarrow> destructive e)" if "inner \<in> set inners" "strip inner \<noteq> []" for inner
  proof -
    from gather_bounds [OF g] that obtain f where "check_command_string k (d + 1) inner = Some f" "allowed f"
      "rank f \<le> tier_rank t" "destructive f \<longrightarrow> b" by auto
    moreover have "inners \<noteq> []" using that by auto
    ultimately show ?thesis using r by (auto intro: order_trans)
  qed
  with o r show ?thesis by blast
qed

lemma split_nothing: "split_command_segments [] = Some []"
  by (simp add: split_command_segments_def split_run.simps push_segment_def strip_def)

lemma inner_step_outranks:
  assumes "inner_step x y"
  shows "outranks (answer x) (answer y)"
  using assms
proof (cases rule: inner_step.cases)
  case (part s segs seg k d)
  show ?thesis
    unfolding part answer.simps
  proof (rule outranksI)
    fix e assume e: "check_command_string k d s = Some e" "allowed e"
    have "strip s \<noteq> []" using part(3,4) split_nothing by auto
    with string_allowed [OF e] part(3) obtain t b where e': "e = granted t b"
      and g: "gather TIER_READ (state_asks k \<and> host_state_seen (strip s)) (segment_results k d segs) = Some (Inr (t, b))"
      by auto
    let ?r = "case floor_of k True seg of Some d \<Rightarrow> Some d
      | None \<Rightarrow> map_option (\<lambda>d. if allowed d
          then d\<lparr>destructive := (state_asks k \<and> host_state_seen seg) \<or> destructive d\<rparr> else d)
        (classify_segment k d seg)"
    have "?r \<in> set (segment_results k d segs)" using part(4) by (auto simp: segment_results_def)
    with gather_bounds [OF g] obtain c where c: "?r = Some c" "allowed c" "rank c \<le> tier_rank t" "destructive c \<longrightarrow> b"
      by meson
    then have "Some c \<in> set (segment_results k d [seg])" by (auto simp: segment_results_def)
    then show "\<exists>f. classify_segment k d seg = Some f \<and> allowed f \<and> rank f \<le> rank e \<and> (destructive f \<longrightarrow> destructive e)"
      using c(2)
    proof (rule segment_result_allowed)
      fix sg f
      assume "sg \<in> set [seg]" "classify_segment k d sg = Some f" "allowed f"
        "c = f\<lparr>destructive := (state_asks k \<and> host_state_seen sg) \<or> destructive f\<rparr>"
      moreover from this have "rank f = rank c" by (simp add: rank_def)
      moreover have "rank c \<le> rank e" using c(3) rank_granted [of t b] e' by simp
      ultimately show ?thesis using c(4) e' by auto
    qed
  qed
next
  case (subst inner s k d)
  obtain lifted inners where l: "lift_substitutions False s = (lifted, inners)" by fastforce
  with subst segment_parts [OF _ _ l] show ?thesis by (auto intro!: outranksI)
next
  case (outer k d s)
  obtain lifted inners where l: "lift_substitutions False s = (lifted, inners)" by fastforce
  with outer segment_parts [OF _ _ l] show ?thesis by (auto intro!: outranksI)
next
  case (shell s inner k d)
  show ?thesis
    unfolding shell answer.simps
  proof (rule outranksI)
    fix e assume e: "classify_command k d s = Some e" "allowed e"
    then show "\<exists>f. check_command_string k (d + 1) inner = Some f \<and> allowed f \<and> rank f \<le> rank e \<and>
        (destructive f \<longrightarrow> destructive e)"
      using shell(3,4) by (cases rule: command_allowed) (auto simp: plain_word_def e(2) split: if_splits)
  qed
next
  case (wrapped s inner k d)
  show ?thesis
    unfolding wrapped answer.simps
  proof (rule outranksI)
    fix e assume e: "classify_command k d s = Some e" "allowed e"
    then show "\<exists>f. classify_segment k (d + 1) inner = Some f \<and> allowed f \<and> rank f \<le> rank e \<and>
        (destructive f \<longrightarrow> destructive e)"
      using wrapped(3,4) by (cases rule: command_allowed) (auto simp: plain_word_def e(2) split: if_splits)
  qed
next
  case (exec s cmd t k d)
  show ?thesis
    unfolding exec answer.simps
  proof (rule outranksI)
    fix e assume e: "classify_command k d s = Some e" "allowed e"
    from command_plain [OF this exec(3)] obtain et ed ft sd where g:
      "gather [] False (exec_results k d cmd (strip_shell_structure s)) = Some (Inr (et, ed))"
      and j: "judge_command k cmd (strip_shell_structure s) et ed sd = Some e" by blast
    from gather_bounds [OF g] exec(4) obtain f where f: "check_command_string k (d + 1) t = Some f" "allowed f"
      "rank f \<le> tier_rank et" "destructive f \<longrightarrow> ed" by (auto simp: exec_results_def)
    have "rank f = 1" if "cc_floor_only k" using floor_only_reads(1) [OF f(1,2) that] by (rule rank_read)
    with f judge_command_allowed [OF j e(2)]
    show "\<exists>f. check_command_string k (d + 1) t = Some f \<and> allowed f \<and> rank f \<le> rank e \<and>
        (destructive f \<longrightarrow> destructive e)" by auto
  qed
next
  case (far s cmd r k d)
  show ?thesis
    unfolding far answer.simps
  proof (rule outranksI)
    fix e assume e: "classify_command k d s = Some e" "allowed e"
    from command_plain [OF this far(3)] obtain et ed ft sd where g:
      "gather [] False (far_results k d cmd (strip_shell_structure s)) = Some (Inr (ft, sd))"
      and j: "judge_command k cmd (strip_shell_structure s) et ed sd = Some e" by blast
    from gather_bounds [OF g] far(4) obtain f where f: "check_command_string (far_side k) (d + 1) r = Some f" "allowed f"
      "destructive f \<longrightarrow> sd" by (auto simp: far_results_def)
    have "rank f = 1" using floor_only_reads(1) [OF f(1,2)] by (simp add: rank_read)
    with f judge_command_allowed [OF j e(2)]
    show "\<exists>f. check_command_string (far_side k) (d + 1) r = Some f \<and> allowed f \<and> rank f \<le> rank e \<and>
        (destructive f \<longrightarrow> destructive e)" by auto
  qed
qed

lemma inside_outranks: "inner_step\<^sup>*\<^sup>* x y \<Longrightarrow> outranks (answer x) (answer y)"
  by (induction rule: rtranclp_induct) (auto intro: outranks_trans inner_step_outranks)

end
