(* ===== verification/ShellSafety.thy ===== *)
theory ShellSafety
  imports ShellHidden
begin

text \<open>
  The Bash gate's promises: what an allowed command, and every command hidden in it, has passed.
\<close>

section \<open>The two passes\<close>

definition floor_only_session :: "security_context \<Rightarrow> bool" where
  "floor_only_session ctx = (sc_is_admin_agent ctx \<and> is_admin (sc_role ctx) \<and> \<not> sc_read_only ctx)"

abbreviation asked_first :: "host \<Rightarrow> security_context \<Rightarrow> string \<Rightarrow> asked" where
  "asked_first h ctx command \<equiv> AskString (bash_check h ctx (floor_only_session ctx)) 0 command"

lemma check_bash_allowed:
  assumes "check_bash h command ctx = Some d" "allowed d"
  shows "NUL \<notin> set command \<and> \<not> command_references_protected_path (protected_subpaths h) command \<and>
    \<not> command_references_protected_agent_config command \<and> strip command \<noteq> [] \<and>
    (\<exists>e. answer (asked_first h ctx command) = Some e \<and> allowed e \<and>
       (\<not> floor_only_session ctx \<longrightarrow> e = d))"
proof -
  have g: "NUL \<notin> set command" "\<not> command_references_protected_path (protected_subpaths h) command"
    "\<not> command_references_protected_agent_config command" "strip command \<noteq> []"
    using assms by (auto simp: check_bash_def split: if_splits)
  with assms show ?thesis
    by (auto simp: check_bash_def floor_only_session_def split: if_splits)
qed

lemma inside_allowed:
  assumes "check_bash h command ctx = Some d" "allowed d" "inner_step\<^sup>*\<^sup>* (asked_first h ctx command) y"
  shows "\<exists>e. answer y = Some e \<and> allowed e \<and>
    (\<not> floor_only_session ctx \<longrightarrow> rank e \<le> rank d \<and> (destructive e \<longrightarrow> destructive d))"
proof -
  from check_bash_allowed [OF assms(1,2)] obtain e where e: "answer (asked_first h ctx command) = Some e" "allowed e"
    "\<not> floor_only_session ctx \<longrightarrow> e = d" by blast
  from outranksD [OF inside_outranks [OF assms(3)] e(1,2)] e(3) show ?thesis by auto
qed

section \<open>A hidden delete\<close>

text \<open>\<open>ann\<close>'s session runs a substitution that removes a file of the shared folder.\<close>

definition demo_text :: string where "demo_text = ''echo $(rm /workspace/b)''"
definition demo_inner :: string where "demo_inner = ''rm /workspace/b''"

abbreviation demo_check :: command_check where "demo_check \<equiv> bash_check demo_host demo_ctx False"

lemma demo_allowed:
  "\<exists>d. check_bash demo_host demo_text demo_ctx = Some d \<and> allowed d \<and> permission_tier d = TIER_ASK"
proof -
  have "map_option (\<lambda>d. (allowed d, permission_tier d)) (check_bash demo_host demo_text demo_ctx) = Some (True, TIER_ASK)"
    by code_simp
  then show ?thesis by auto
qed

lemma demo_sessions: "\<not> floor_only_session demo_ctx" "\<not> cc_floor_only demo_check" "\<not> is_remote (sc_placement demo_ctx)"
  by code_simp+

lemma demo_part: "inner_step (AskString demo_check 0 demo_text) (AskSegment demo_check 0 demo_text)"
proof -
  have "split_command_segments (strip demo_text) = Some [demo_text]" by code_simp
  then show ?thesis by (rule inner_step.part) simp
qed

lemma demo_subst: "inner_step (AskSegment demo_check 0 demo_text) (AskString demo_check (0 + 1) demo_inner)"
proof (rule inner_step.subst)
  have "snd (lift_substitutions False demo_text) = [demo_inner]" by code_simp
  then show "demo_inner \<in> set (snd (lift_substitutions False demo_text))" by simp
  show "strip demo_inner \<noteq> []" by code_simp
qed

lemma demo_rm:
  "inner_step (AskString demo_check 1 demo_inner) (AskSegment demo_check 1 demo_inner)"
  "inner_step (AskSegment demo_check 1 demo_inner) (AskCommand demo_check 1 demo_inner)"
proof -
  have "split_command_segments (strip demo_inner) = Some [demo_inner]" by code_simp
  then show "inner_step (AskString demo_check 1 demo_inner) (AskSegment demo_check 1 demo_inner)"
    by (rule inner_step.part) simp
  have "fst (lift_substitutions False demo_inner) = demo_inner" by code_simp
  with inner_step.outer [of demo_check 1 demo_inner]
  show "inner_step (AskSegment demo_check 1 demo_inner) (AskCommand demo_check 1 demo_inner)" by simp
qed

lemma demo_reaches:
  "inner_step\<^sup>*\<^sup>* (AskString demo_check 0 demo_text) (AskString demo_check 1 demo_inner)"
  "inner_step\<^sup>*\<^sup>* (AskString demo_check 0 demo_text) (AskCommand demo_check 1 demo_inner)"
proof -
  show 1: "inner_step\<^sup>*\<^sup>* (AskString demo_check 0 demo_text) (AskString demo_check 1 demo_inner)"
    using rtranclp.rtrancl_into_rtrancl [OF r_into_rtranclp [where r = inner_step, OF demo_part] demo_subst] by simp
  show "inner_step\<^sup>*\<^sup>* (AskString demo_check 0 demo_text) (AskCommand demo_check 1 demo_inner)"
    by (rule rtranclp.rtrancl_into_rtrancl [OF rtranclp.rtrancl_into_rtrancl [OF 1 demo_rm(1)] demo_rm(2)])
qed


section \<open>Properties\<close>

text \<open>C2. Nothing hidden in a command makes it look tamer than it is. In every session but an admin's on an admin
  agent (whose command the gate judges whole, in the admin tier, by the floor alone): for every text the gate
  finds inside an allowed command, through any nesting of separators, substitutions, shells, wrappers,
  \<open>find -exec\<close> and \<open>ssh\<close>, the gate allowed that text too, the command's tier ranks
  at least as high as the text's, and the command is marked destructive when the text is.\<close>

theorem hidden_commands_bound:
  assumes "check_bash h command ctx = Some d" "allowed d" "\<not> floor_only_session ctx"
    and "inner_step\<^sup>*\<^sup>* (AskString (bash_check h ctx False) 0 command) y"
  shows "\<exists>e. answer y = Some e \<and> allowed e \<and> rank e \<le> rank d \<and> (destructive e \<longrightarrow> destructive d)"
  using inside_allowed [OF assms(1,2), of y] assms(3,4) by simp

theorem hidden_commands_bound_witness:
  "\<exists>e. check_command_string demo_check 1 demo_inner = Some e \<and> allowed e \<and> rank e \<le> 3"
proof -
  obtain d where d: "check_bash demo_host demo_text demo_ctx = Some d" "allowed d" "permission_tier d = TIER_ASK"
    using demo_allowed by blast
  have "rank d = 3" using d(3) by (simp add: rank_def TIER_ASK_def tier_rank_def TIER_ORDER_def)
  with hidden_commands_bound [OF d(1,2) demo_sessions(1) demo_reaches(1)] show ?thesis by auto
qed

lemma catastrophic_Nil: "\<not> catastrophic []"
  by code_simp

lemma string_floor:
  assumes "answer (AskString k n s) = Some e" "allowed e"
  shows "n \<le> MAX_BASH_DEPTH \<and> \<not> catastrophic (strip s) \<and>
    (\<forall>seg t. inner_step (AskString k n s) (AskSegment k n seg) \<longrightarrow> t \<in> set (readings True seg) \<longrightarrow> \<not> catastrophic t) \<and>
    (\<not> state_asks k \<longrightarrow> \<not> host_state_seen (strip s) \<or> strip s = [])"
proof -
  note r = string_allowed [OF assms [unfolded answer.simps]]
  have c: "\<not> catastrophic (strip s)"
    using r catastrophic_Nil by (auto simp: floor_of_def floor_denial_None readings_def)
  have "\<not> catastrophic t" if st: "inner_step (AskString k n s) (AskSegment k n seg)" "t \<in> set (readings True seg)" for seg t
  proof -
    from st(1) obtain segs where segs: "split_command_segments (strip s) = Some segs" "seg \<in> set segs"
      by (auto elim: inner_stepE)
    with split_nothing have "strip s \<noteq> []" by auto
    with r segs obtain t b where g:
      "gather TIER_READ (state_asks k \<and> host_state_seen (strip s)) (segment_results k n segs) = Some (Inr (t, b))"
      by auto
    let ?r = "case floor_of k True seg of Some d \<Rightarrow> Some d
      | None \<Rightarrow> map_option (\<lambda>d. if allowed d
          then d\<lparr>destructive := (state_asks k \<and> host_state_seen seg) \<or> destructive d\<rparr> else d)
        (classify_segment k n seg)"
    have "?r \<in> set (segment_results k n segs)" using segs by (auto simp: segment_results_def)
    with gather_bounds [OF g] obtain c where "?r = Some c" "allowed c" by meson
    then have "floor_of k True seg = None"
      using floor_denial_denies by (cases "floor_of k True seg") (auto simp: floor_of_def)
    with st(2) show ?thesis by (simp add: floor_of_def floor_denial_None)
  qed
  with r c show ?thesis
    by (auto simp: floor_of_def floor_denial_None state_asks_def)
qed

text \<open>C4. The catastrophe floor holds for everybody and at every level. Whoever the session belongs to,
  an admin on an admin agent included, no command string the gate finds inside an allowed command
  matches a catastrophe pattern, nor does any of its segments, read as written or as the shell reads
  its words; and no string is nested deeper than the gate looks.\<close>

theorem floor_holds_for_all:
  assumes "check_bash h command ctx = Some d" "allowed d"
    and "inner_step\<^sup>*\<^sup>* (AskString (bash_check h ctx (floor_only_session ctx)) 0 command) (AskString k n s)"
  shows "n \<le> MAX_BASH_DEPTH \<and> \<not> catastrophic (strip s) \<and>
    (\<forall>seg t. inner_step (AskString k n s) (AskSegment k n seg) \<longrightarrow> t \<in> set (readings True seg) \<longrightarrow> \<not> catastrophic t)"
  using inside_allowed [OF assms] string_floor by blast

theorem floor_holds_for_all_witness: "\<not> catastrophic demo_inner"
proof -
  obtain d where d: "check_bash demo_host demo_text demo_ctx = Some d" "allowed d" using demo_allowed by blast
  have f: "floor_only_session demo_ctx = False" using demo_sessions(1) by simp
  have "strip demo_inner = demo_inner" by code_simp
  with floor_holds_for_all [OF d, unfolded f, OF demo_reaches(1)] show ?thesis by simp
qed

text \<open>A credentials folder cannot be named in a command, by anybody and in any place of it: a
  command that contains the folder's name as a path component, after a separator, a quote or an
  equals sign, is refused before anything else is read of it.\<close>

theorem credentials_never_named:
  assumes "sub \<in> set (protected_subpaths h)" "c \<in> set [SLASH, BSLASH, DQUOTE, SQUOTE, CHR ''='', CHR '' '']"
  shows "\<exists>d. check_bash h (pre @ c # sub @ CHR ''/'' # post) ctx = Some d \<and> \<not> allowed d"
proof -
  have "is_space (CHR '' '')" by code_simp
  with assms(2) have "is_space c \<or> c \<in> {SLASH, BSLASH, DQUOTE, SQUOTE, CHR ''=''}" by auto
  from references_protected_component [OF assms(1) this] show ?thesis by (simp add: check_bash_def)
qed

theorem credentials_never_named_witness:
  "\<exists>d. check_bash demo_host (''cat '' @ CHR ''/'' # ''google-tokens'' @ CHR ''/'' # ''x'') demo_ctx = Some d \<and> \<not> allowed d"
  by (rule credentials_never_named) (simp_all add: demo_host_def)

text \<open>A substituted value never rides on an automatic approval: where any segment inside an allowed
  command holds a substitution, or the placeholder the gate puts in its place, the command's tier
  is neither read nor edit.\<close>

theorem substitution_asks:
  assumes "check_bash h command ctx = Some d" "allowed d" "\<not> floor_only_session ctx"
    and "inner_step\<^sup>*\<^sup>* (AskString (bash_check h ctx False) 0 command) (AskSegment k n s)" "\<not> cc_floor_only k"
    and "has_placeholder s \<or> snd (lift_substitutions False s) \<noteq> []"
  shows "permission_tier d \<noteq> TIER_READ \<and> permission_tier d \<noteq> TIER_EDIT"
proof -
  from inside_allowed [OF assms(1,2), of "AskSegment k n s"] assms(3,4) obtain e where
    e: "classify_segment k n s = Some e" "allowed e" "rank e \<le> rank d" by auto
  obtain lifted inners where l: "lift_substitutions False s = (lifted, inners)" by fastforce
  from segment_allowed [OF e(1,2) l] obtain t b outer where
    "e = segment_answer k (inners \<noteq> [] \<or> has_placeholder s) t b outer" "allowed outer" by blast
  moreover have "inners \<noteq> [] \<or> has_placeholder s" using assms(6) l by auto
  ultimately have "3 \<le> rank e"
    using assms(5) order_trans [OF _ rank_granted] by (auto simp: segment_answer_def)
  with e(3) have "3 \<le> rank d" by simp
  then show ?thesis using rank_read [of d] rank_edit [of d] by auto
qed

theorem substitution_asks_witness:
  "\<exists>d. check_bash demo_host demo_text demo_ctx = Some d \<and> permission_tier d \<noteq> TIER_READ"
proof -
  obtain d where d: "check_bash demo_host demo_text demo_ctx = Some d" "allowed d" using demo_allowed by blast
  have "snd (lift_substitutions False demo_text) \<noteq> []" by code_simp
  with substitution_asks [OF d demo_sessions(1) r_into_rtranclp [where r = inner_step, OF demo_part] demo_sessions(2)] d(1) show ?thesis by blast
qed

text \<open>A command of its own tier passed the tier's gate and its paths.\<close>

lemma plain_command_allowed:
  assumes "answer (AskCommand k n s) = Some e" "allowed e" "plain_word (strip_shell_structure s) = Some cmd"
    and "\<not> cc_floor_only k"
  shows "\<exists>tier. role_gate k cmd tier (strip_shell_structure s) = Some None \<and> tier_rank tier \<le> rank e \<and>
    (bash_command_tier cmd = Some TIER_ADMIN \<longrightarrow> tier = TIER_ADMIN) \<and>
    (is_destructive_command cmd \<longrightarrow> destructive e) \<and>
    (\<forall>rp \<in> set (literal (fst (extract_path_args cmd (strip_shell_structure s)))).
       \<exists>e. bash_path_decision k False rp = Some e \<and> allowed e) \<and>
    (\<forall>rp \<in> set (literal (snd (extract_path_args cmd (strip_shell_structure s))) @
                judged (extract_redirect_targets (strip_shell_structure s))).
       \<exists>e. bash_path_decision k True rp = Some e \<and> allowed e)"
proof -
  let ?b = "strip_shell_structure s"
  from command_plain [OF assms(1) [unfolded answer.simps] assms(2,3)] obtain et ed sd where
    "judge_command k cmd ?b et ed sd = Some e" by blast
  with assms(2,4) role_gate_denies obtain destr where g: "role_gate k cmd (command_tier cmd ?b et) ?b = Some None"
    and p: "path_checks k cmd ?b (command_tier cmd ?b et) destr = Some e" and "is_destructive_command cmd \<longrightarrow> destr"
    by (auto simp: judge_command_def Let_def split: option.splits)
  moreover have "command_tier cmd ?b et = TIER_ADMIN" if "bash_command_tier cmd = Some TIER_ADMIN"
  proof -
    have "tier_rank et \<le> 4" by (simp add: tier_rank_def TIER_ORDER_def)
    moreover from that have "cmd \<noteq> ''awk''" by (auto simp: bash_command_tier_def BASH_TIER_ADMIN_def tier_defs split: if_splits)
    ultimately show ?thesis using that by (simp add: command_tier_def tier_max_def)
  qed
  ultimately show ?thesis using path_checks_allowed [OF p assms(2)] by auto
qed

text \<open>The host-touching commands stay with the roles that may run them. Where a command inside an
  allowed one is of the admin tier, on a paired machine the role is an editor's or above; on the
  platform's sandbox it is an admin's, or the command is one of the ssh family and leads to an SSH
  host an admin attached to the agent.\<close>

theorem admin_tier_gated:
  assumes "check_bash h command ctx = Some d" "allowed d" "\<not> floor_only_session ctx"
    and "inner_step\<^sup>*\<^sup>* (AskString (bash_check h ctx False) 0 command) (AskCommand (bash_check h ctx False) n s)"
    and "plain_word (strip_shell_structure s) = Some cmd" "bash_command_tier cmd = Some TIER_ADMIN"
  shows "if is_remote (sc_placement ctx) then can_edit (sc_role ctx)
    else is_admin (sc_role ctx) \<or>
      (cmd \<in> set SSH_COMMANDS \<and> refusal (local_refusal cmd (strip_shell_structure s) ctx) = None)"
proof -
  let ?k = "bash_check h ctx False"
  from inside_allowed [OF assms(1,2), of "AskCommand ?k n s"] assms(3,4) obtain e where
    e: "answer (AskCommand ?k n s) = Some e" "allowed e" by auto
  have "\<not> cc_floor_only ?k" by (simp add: bash_check_def)
  from plain_command_allowed [OF e assms(5) this] assms(6)
  have "role_gate ?k cmd TIER_ADMIN (strip_shell_structure s) = Some None" by auto
  then show ?thesis
    by (auto simp: role_gate_def bash_check_def Let_def local_refusal_def refuse_def split: if_splits option.splits)
qed

definition demo_ssh :: security_context where
  "demo_ssh = demo_ctx\<lparr>ssh_hosts := Some [(''web1'', ''ops'')]\<rparr>"

definition demo_login :: string where "demo_login = ''ssh ops@web1 ls''"

theorem admin_tier_gated_witness: "refusal (local_refusal ''ssh'' demo_login demo_ssh) = None"
proof -
  let ?k = "bash_check demo_host demo_ssh False"
  have "map_option allowed (check_bash demo_host demo_login demo_ssh) = Some True" by code_simp
  then obtain d where d: "check_bash demo_host demo_login demo_ssh = Some d" "allowed d" by auto
  have "split_command_segments (strip demo_login) = Some [demo_login]" by code_simp
  then have 1: "inner_step (AskString ?k 0 demo_login) (AskSegment ?k 0 demo_login)" by (rule inner_step.part) simp
  have "fst (lift_substitutions False demo_login) = demo_login" by code_simp
  with inner_step.outer [of ?k 0 demo_login] have 2: "inner_step (AskSegment ?k 0 demo_login) (AskCommand ?k 0 demo_login)"
    by simp
  have s: "strip_shell_structure demo_login = demo_login" "plain_word (strip_shell_structure demo_login) = Some ''ssh''"
    "bash_command_tier ''ssh'' = Some TIER_ADMIN" "\<not> floor_only_session demo_ssh" "is_admin (sc_role demo_ssh) = False"
    "is_remote (sc_placement demo_ssh) = False" by code_simp+
  have r: "inner_step\<^sup>*\<^sup>* (AskString ?k 0 demo_login) (AskCommand ?k 0 demo_login)"
    by (rule rtranclp.rtrancl_into_rtrancl [OF r_into_rtranclp [where r = inner_step, OF 1] 2])
  from admin_tier_gated [OF d s(4) r s(2,3)] show ?thesis by (simp add: s(1,5,6))
qed



section \<open>What the reading misses\<close>

definition judged_as :: "string \<Rightarrow> (bool \<times> string \<times> bool) option" where
  "judged_as command =
     map_option (\<lambda>d. (allowed d, permission_tier d, destructive d)) (check_bash demo_host command demo_ctx)"

text \<open>An escaped \<open>>\<close> hides the command after the next pipe. The splitter takes a \<open>|\<close> after a
  \<open>>\<close> for the operator \<open>>|\<close> also where the \<open>>\<close> was escaped and is text: \<open>echo \>\<close> piped into a
  delete is one segment, judged as an \<open>echo\<close> of the read tier, while the same pipe after a blank is
  the edit tier and destructive.\<close>

theorem escaped_redirect_hides_pipe:
  "judged_as (''echo '' @ [BSLASH] @ ''>|rm /workspace/b'') = Some (True, TIER_READ, False) \<and>
   judged_as (''echo '' @ [BSLASH] @ ''> |rm /workspace/b'') = Some (True, TIER_EDIT, True)"
  by (intro conjI) code_simp+

text \<open>A second redirection written without a blank is not seen. A target ends at a blank or a
  separator and not at a \<open>>\<close>, so of two chained redirections the gate reads one path, under the
  session's own folder, and allows the write of a file outside the tree that it refuses when a blank
  stands between the two.\<close>

theorem chained_redirect_unseen:
  "map_option fst (judged_as ''echo x >workspace/a>/etc/f'') = Some True \<and>
   map_option fst (judged_as ''echo x >workspace/a >/etc/f'') = Some False"
  by (intro conjI) code_simp+

end
