(* ===== verification/ShellTotal.thy ===== *)
theory ShellTotal
  imports ShellSafety
begin

text \<open>
  The Bash gate answers: on the platform's sandbox, where the path policy resolves every path, every
  text has a decision, however malformed.
\<close>

definition resolves :: "command_check \<Rightarrow> bool" where
  "resolves k = (\<not> cc_remote k \<and> (\<forall>rp w. check_path_arg (cc_host k) rp (cc_ctx k) w \<noteq> None))"

lemma resolves_far [simp]: "resolves (far_side k) = resolves k"
  by (simp add: resolves_def)

lemma check_each_answers:
  "(\<And>rp. check rp \<noteq> None) \<Longrightarrow> check_each check say rps \<noteq> None"
  by (induction check say rps rule: check_each.induct) (auto split: option.splits)

lemma first_refusal_answers: "\<forall>c \<in> set cs. c \<noteq> None \<Longrightarrow> first_refusal cs a \<noteq> None"
  by (induction cs a rule: first_refusal.induct) (auto split: option.splits)

lemma gather_answers: "\<forall>r \<in> set rs. r \<noteq> None \<Longrightarrow> gather t b rs \<noteq> None"
  by (induction t b rs rule: gather.induct) (auto split: option.splits)

lemma path_answers: "resolves k \<Longrightarrow> bash_path_decision k w rp \<noteq> None"
  by (simp add: resolves_def bash_path_decision_def)

lemma each_path_answers: "resolves k \<Longrightarrow> check_each (bash_path_decision k w) say rps \<noteq> None"
  by (rule check_each_answers) (rule path_answers)

lemma redirects_answer: "resolves k \<Longrightarrow> \<forall>c \<in> set (redirect_checks k s). c \<noteq> None"
  using each_path_answers by (simp add: redirect_checks_def)

lemma structural_answers: "resolves k \<Longrightarrow> structural_decision k s \<noteq> None"
  using first_refusal_answers redirects_answer
  by (auto simp: structural_decision_def Let_def resolves_def split: option.splits)

lemma unparsed_answers: "resolves k \<Longrightarrow> unparsed k s \<noteq> None"
  using each_path_answers [of k]
  by (auto simp: unparsed_def simp del: not_None_eq split: option.splits)

lemma floor_pass_answers: "resolves k \<Longrightarrow> floor_pass k cmd s b \<noteq> None"
  by (simp add: floor_pass_def resolves_def)

lemma role_gate_answers: "resolves k \<Longrightarrow> role_gate k cmd t s \<noteq> None"
  using each_path_answers [of k]
  by (auto simp: role_gate_def Let_def resolves_def simp del: not_None_eq split: option.splits)

lemma path_checks_answers:
  assumes "resolves k"
  shows "path_checks k cmd s t b \<noteq> None"
proof -
  have "first_refusal
      ([check_each (bash_path_decision k False) (quoted_path ''read path'') rs,
        check_each (bash_path_decision k True) (quoted_path ''write path'') ws] @ redirect_checks k s) a \<noteq> None"
    for rs ws a
    using each_path_answers [OF assms] redirects_answer [OF assms, of s]
    by (intro first_refusal_answers) simp
  then show ?thesis
    unfolding path_checks_def Let_def by (auto simp del: first_refusal.simps append.simps check_each.simps split: prod.split option.split)
qed

lemma judge_answers: "resolves k \<Longrightarrow> judge_command k cmd s et ed sd \<noteq> None"
  using floor_pass_answers [of k cmd s] role_gate_answers [of k cmd _ s] path_checks_answers [of k cmd s]
  by (auto simp: judge_command_def Let_def simp del: not_None_eq split: option.splits)

lemma string_answers:
  assumes "\<And>segs seg. split_command_segments (strip s) = Some segs \<Longrightarrow> seg \<in> set segs \<Longrightarrow>
      strip s \<noteq> [] \<Longrightarrow> floor_of k False (strip s) = None \<Longrightarrow> floor_of k True seg = None \<Longrightarrow>
      depth \<le> MAX_BASH_DEPTH \<Longrightarrow> classify_segment k depth seg \<noteq> None"
  shows "check_command_string k depth s \<noteq> None"
proof (cases "depth > MAX_BASH_DEPTH \<or> strip s = [] \<or> floor_of k False (strip s) \<noteq> None \<or>
    split_command_segments (strip s) = None")
  case True
  then show ?thesis
    by (subst check_command_string.simps) (auto simp: Let_def split: option.split)
next
  case False
  then obtain segs where segs: "split_command_segments (strip s) = Some segs" by auto
  have "\<forall>r \<in> set (segment_results k depth segs). r \<noteq> None"
    using assms [OF segs] False by (auto simp: segment_results_def split: option.splits)
  from gather_answers [OF this, of TIER_READ "state_asks k \<and> host_state_seen (strip s)"] obtain r where
    "gather TIER_READ (state_asks k \<and> host_state_seen (strip s)) (segment_results k depth segs) = Some r" by auto
  then show ?thesis using False segs
    by (subst check_command_string.simps)
      (auto simp: Let_def segment_results_def [symmetric] split: sum.split)
qed

lemma segment_answers:
  assumes "lift_substitutions False s = (lifted, inners)"
    and "\<And>inner. inner \<in> set inners \<Longrightarrow> strip inner \<noteq> [] \<Longrightarrow> check_command_string k (depth + 1) inner \<noteq> None"
    and "\<And>t b. gather TIER_READ False (map (check_command_string k (depth + 1)) (filter (\<lambda>i. strip i \<noteq> []) inners)) = Some (Inr (t, b)) \<Longrightarrow>
      (if inners = [] then None else floor_of k True lifted) = None \<Longrightarrow> classify_command k depth lifted \<noteq> None"
  shows "classify_segment k depth s \<noteq> None"
proof -
  have "\<forall>r \<in> set (map (check_command_string k (depth + 1)) (filter (\<lambda>i. strip i \<noteq> []) inners)). r \<noteq> None"
    using assms(2) by auto
  from gather_answers [OF this, of TIER_READ False] assms(1,3) show ?thesis
    unfolding classify_segment.simps [of k depth s]
    by (auto simp: simp del: not_None_eq split: sum.split option.split prod.split)
qed

lemma command_answers:
  assumes "resolves k"
    and "\<And>inner. strip_shell_structure s \<noteq> [] \<Longrightarrow>
      (if strip_shell_structure s = strip s then None else floor_of k True (strip_shell_structure s)) = None \<Longrightarrow>
      next_text (strip_shell_structure s) = UString inner \<Longrightarrow> check_command_string k (depth + 1) inner \<noteq> None"
    and "\<And>inner. strip_shell_structure s \<noteq> [] \<Longrightarrow>
      (if strip_shell_structure s = strip s then None else floor_of k True (strip_shell_structure s)) = None \<Longrightarrow>
      next_text (strip_shell_structure s) = USegment inner \<Longrightarrow> classify_segment k (depth + 1) inner \<noteq> None"
    and "\<And>cmd. strip_shell_structure s \<noteq> [] \<Longrightarrow>
      (if strip_shell_structure s = strip s then None else floor_of k True (strip_shell_structure s)) = None \<Longrightarrow>
      plain_word (strip_shell_structure s) = Some cmd \<Longrightarrow>
      gather [] False (exec_results k depth cmd (strip_shell_structure s)) \<noteq> None \<and>
      (\<forall>a. gather [] False (exec_results k depth cmd (strip_shell_structure s)) = Some (Inr a) \<longrightarrow>
         gather [] False (far_results k depth cmd (strip_shell_structure s)) \<noteq> None)"
  shows "classify_command k depth s \<noteq> None"
proof (cases "strip_shell_structure s = []")
  case True
  then show ?thesis using structural_answers [OF assms(1)] by (simp add: classify_command.simps del: not_None_eq)
next
  case False
  let ?b = "strip_shell_structure s"
  show ?thesis
  proof (cases "if ?b = strip s then None else floor_of k True ?b")
    case (Some d)
    then show ?thesis unfolding classify_command.simps [of k depth s] Let_def if_not_P [OF False] by simp
  next
    case None
    note eq = classify_command.simps [of k depth s, unfolded Let_def if_not_P [OF False] None option.case,
        folded exec_results_def far_results_def]
    show ?thesis
    proof (cases "next_text ?b")
      case UNone
      show ?thesis
      proof (cases "plain_word ?b")
        case None
        then show ?thesis using UNone False structural_answers [OF assms(1)] unparsed_answers [OF assms(1)]
          unfolding eq by (auto simp: plain_word_def simp del: not_None_eq split: if_splits option.splits)
      next
        case (Some cmd)
        then have g: "\<not> (starts_with ?b ''(('' \<or> is_command_less ?b)" "extract_command_name ?b = Some cmd"
          "cmd \<notin> set SHELL_STRUCTURAL"
          by (auto simp: plain_word_def split: if_splits option.splits)
        note eq = eq [unfolded UNone unwrapped.case if_not_P [OF g(1)] g(2) option.case if_not_P [OF g(3)]]
        show ?thesis
          unfolding eq using assms(4) [OF False None Some] judge_answers [OF assms(1)]
          by (auto simp del: not_None_eq split: option.split sum.split prod.split)
      qed
    qed (use assms(2,3) [OF False None] in \<open>simp_all add: eq del: not_None_eq\<close>)
  qed
qed

lemma answers:
  "resolves k \<Longrightarrow> check_command_string k depth s \<noteq> None"
  "resolves k \<Longrightarrow> classify_segment k depth s \<noteq> None"
  "resolves k \<Longrightarrow> classify_command k depth s \<noteq> None"
proof (induction k depth s and k depth s and k depth s
    rule: check_command_string_classify_segment_classify_command.induct)
  case (1 k depth s)
  show ?case
    by (rule string_answers) (use 1 in auto)
next
  case (2 k depth s)
  show ?case
  proof (cases "lift_substitutions False s")
    case (Pair lifted inners)
    show ?thesis
      by (rule segment_answers [OF Pair])
        (use 2(1) [OF Pair [symmetric]] 2(2) [OF Pair [symmetric] _ refl refl] 2(3) in \<open>auto simp del: not_None_eq\<close>)
  qed
next
  case (3 k depth s)
  note ih = 3
  show ?case
  proof (rule command_answers [OF 3(5)], goal_cases)
    case (1 inner)
    with 3(1) [OF refl 1] 3(5) show ?case by simp
  next
    case (2 inner)
    with 3(2) [OF refl 2] 3(5) show ?case by simp
  next
    case (3 cmd)
    let ?b = "strip_shell_structure s"
    from 3(3) have g: "next_text ?b = UNone" "\<not> (starts_with ?b ''(('' \<or> is_command_less ?b)"
      "extract_command_name ?b = Some cmd" "cmd \<notin> set SHELL_STRUCTURAL"
      by (auto simp: plain_word_def split: if_splits option.splits)
    have e: "\<forall>r \<in> set (exec_results k depth cmd ?b). r \<noteq> None"
      using ih(3) [OF refl 3(1,2) g] ih(5) by (simp add: exec_results_def)
    have f: "\<forall>r \<in> set (far_results k depth cmd ?b). r \<noteq> None"
      if "gather [] False (exec_results k depth cmd ?b) = Some (Inr a)" for a
      using ih(4) [OF refl 3(1,2) g that [unfolded exec_results_def] refl, of "fst a" "snd a"] ih(5)
      by (simp add: far_results_def)
    show ?case
      by (intro conjI allI impI) (rule gather_answers, rule e, rule gather_answers, erule f)
  qed
qed

text \<open>The gate adds no failure of its own. On the platform's sandbox, where the path policy resolves
  every path, a command of any shape, with unclosed quotes, runaway nesting or no command word at
  all, has a decision: no branch of the gate raises, and the recursion returns. (Python's recursion limit is
  not modelled: a very long run of wrapper words ends in a \<open>RecursionError\<close>.)\<close>

theorem bash_gate_answers:
  assumes "\<not> is_remote (sc_placement ctx)" "\<And>rp w. check_path_arg h rp ctx w \<noteq> None"
  shows "check_bash h command ctx \<noteq> None"
proof -
  have "resolves (bash_check h ctx b)" for b using assms by (simp add: resolves_def bash_check_def)
  from answers(1) [OF this, of _ 0 command] show ?thesis
    unfolding check_bash_def by (simp add: option.map_disc_iff del: not_None_eq)
qed

text \<open>A host on which every path resolves.\<close>

definition plain_host :: host where "plain_host = demo_host\<lparr>realpath := Some\<rparr>"

theorem bash_gate_answers_witness: "check_bash plain_host ''bash -c \"'' demo_ctx \<noteq> None"
proof (rule bash_gate_answers)
  show "\<not> is_remote (sc_placement demo_ctx)" by code_simp
  show "check_path_arg plain_host rp demo_ctx w \<noteq> None" for rp w
    by (simp add: check_path_arg_def resolve_candidates_def plain_host_def Let_def)
qed

end
