(* ===== verification/PowerShellSafety.thy ===== *)
theory PowerShellSafety
  imports PowerShellGate ShellHidden
begin

text \<open>
  The PowerShell gate's promises: the floor at every level of encoding and wrapping, and what an
  encoded argument leaves unchecked.
\<close>

section \<open>Nested commands\<close>

text \<open>The command strings the check recurses into: what an encoded argument decodes to and, where there is
  none, what a shell wrapper holds.\<close>

inductive ps_step :: "nat \<times> string \<Rightarrow> nat \<times> string \<Rightarrow> bool" where
  encoded: "b \<in> set (encoded_blobs (strip s)) \<Longrightarrow> strip (decoded b) \<noteq> [] \<Longrightarrow> strip s \<noteq> [] \<Longrightarrow>
     ps_step (n, s) (Suc n, decoded b)"
| wrapped: "encoded_blobs (strip s) = [] \<Longrightarrow> ps_inner (strip s) = Some inner \<Longrightarrow> strip s \<noteq> [] \<Longrightarrow>
     ps_step (n, s) (Suc n, inner)"

definition ps_dangerous :: "string \<Rightarrow> bool" where
  "ps_dangerous s = list_ex (\<lambda>(p, _). p s) POWERSHELL_DANGEROUS_PATTERNS"

lemma ps_not_allowed [simp]: "\<not> allowed (ps_denied why)"
  by (simp add: ps_denied_def)

text \<open>What an allowed string passed.\<close>

lemma ps_string_allowed:
  assumes "check_powershell_string k n s = Some d" "allowed d"
  shows "n \<le> MAX_BASH_DEPTH \<and> (strip s \<noteq> [] \<longrightarrow> \<not> ps_dangerous (strip s))"
proof -
  have n: "\<not> n > MAX_BASH_DEPTH"
    using assms by (subst (asm) check_powershell_string.simps) (auto split: if_splits)
  have "\<not> ps_dangerous (strip s)" if "strip s \<noteq> []"
  proof -
    note eq = assms(1) [unfolded check_powershell_string.simps [of k n s] if_not_P [OF n] Let_def if_not_P [OF that]]
    then have "first_match POWERSHELL_DANGEROUS_PATTERNS (strip s) = None"
      using assms(2) by (cases "first_match POWERSHELL_DANGEROUS_PATTERNS (strip s)") auto
    then show ?thesis by (simp add: ps_dangerous_def first_match_None)
  qed
  with n show ?thesis by auto
qed

lemma ps_step_allowed:
  assumes "ps_step (n, s) (m, t)" "check_powershell_string k n s = Some d" "allowed d"
  shows "\<exists>e. check_powershell_string k m t = Some e \<and> allowed e"
proof -
  have n: "\<not> n > MAX_BASH_DEPTH" and ne: "strip s \<noteq> []" using ps_string_allowed [OF assms(2,3)] assms(1)
    by (auto elim: ps_step.cases)
  then have fm: "first_match POWERSHELL_DANGEROUS_PATTERNS (strip s) = None"
    using ps_string_allowed [OF assms(2,3)] by (simp add: ps_dangerous_def first_match_None)
  note eq = assms(2) [unfolded check_powershell_string.simps [of k n s] if_not_P [OF n] Let_def if_not_P [OF ne]
      fm option.case]
  show ?thesis
    using assms(1)
  proof (cases rule: ps_step.cases)
    case (encoded b)
    let ?rs = "map (\<lambda>b. check_powershell_string k (n + 1) (decoded b))
      (filter (\<lambda>b. strip (decoded b) \<noteq> []) (encoded_blobs (strip s)))"
    from encoded(3) have "encoded_blobs (strip s) \<noteq> []" by auto
    note eq = eq [unfolded if_P [OF this]]
    then obtain tier destr where "gather TIER_READ False ?rs = Some (Inr (tier, destr))"
      using assms(3) by (auto dest: gather_denies split: option.splits sum.splits prod.splits)
    from gather_bounds [OF this] encoded show ?thesis by auto
  next
    case wrapped
    with eq assms(3) show ?thesis by simp
  qed
qed

lemma ps_inside_allowed:
  "ps_step\<^sup>*\<^sup>* (n, s) (m, t) \<Longrightarrow> check_powershell_string k n s = Some d \<Longrightarrow> allowed d \<Longrightarrow>
     \<exists>e. check_powershell_string k m t = Some e \<and> allowed e"
proof (induction "(m, t)" arbitrary: m t rule: rtranclp_induct)
  case (step y)
  then show ?case using ps_step_allowed by (cases y) blast
qed auto

lemma check_powershell_allowed:
  assumes "check_powershell h command ctx = Some d" "allowed d"
  shows "\<exists>b e. check_powershell_string (ps_check h ctx b) 0 command = Some e \<and> allowed e"
  using assms by (auto simp: check_powershell_def split: if_splits)

text \<open>The PowerShell floor holds for everybody and under every wrapping: in an allowed command, an
  admin's on an admin agent included, neither the command nor any command inside it, decoded from an
  encoded argument or taken out of a shell wrapper, matches a catastrophe pattern, and none is
  nested deeper than the gate looks.\<close>

theorem ps_floor_holds:
  assumes "check_powershell h command ctx = Some d" "allowed d" "ps_step\<^sup>*\<^sup>* (0, command) (n, s)"
  shows "n \<le> MAX_BASH_DEPTH \<and> (strip s = [] \<or> \<not> ps_dangerous (strip s))"
proof -
  obtain b e where "check_powershell_string (ps_check h ctx b) 0 command = Some e" "allowed e"
    using check_powershell_allowed [OF assms(1,2)] by blast
  with ps_inside_allowed [OF assms(3)] ps_string_allowed show ?thesis by blast
qed

lemma ps_string_plain:
  assumes "strip s = c" "c \<noteq> []" "first_match POWERSHELL_DANGEROUS_PATTERNS c = None" "encoded_blobs c = []"
    "ps_inner c = None" "n \<le> MAX_BASH_DEPTH"
  shows "check_powershell_string k n s = check_powershell_segments k c"
  using assms by (simp add: check_powershell_string.simps [of k n s] Let_def)

lemma ps_string_blank_blobs:
  assumes "strip s = c" "c \<noteq> []" "first_match POWERSHELL_DANGEROUS_PATTERNS c = None" "encoded_blobs c \<noteq> []"
    "\<forall>b \<in> set (encoded_blobs c). strip (decoded b) = []" "n \<le> MAX_BASH_DEPTH"
  shows "check_powershell_string k n s =
    Some (if cc_floor_only k then granted TIER_READ False else granted TIER_ASK False)"
proof -
  have "filter (\<lambda>b. strip (decoded b) \<noteq> []) (encoded_blobs c) = []" using assms(5) by (simp add: filter_empty_conv)
  moreover have "tier_max TIER_ASK TIER_READ = TIER_ASK" by code_simp
  ultimately show ?thesis using assms by (simp add: check_powershell_string.simps [of k n s] Let_def)
qed

text \<open>An encoded argument switches the rest of the gate off. Where a command carries an argument that
  looks like an encoded command and does not decode, nothing else of it is classified: past the
  catastrophe patterns and the raw backstops it is allowed for every user at the ask tier, whatever
  cmdlet it runs, whatever the role and whatever path it names.\<close>

theorem encoded_argument_skips_checks:
  assumes "encoded_blobs (strip command) \<noteq> []" "\<forall>b \<in> set (encoded_blobs (strip command)). strip (decoded b) = []"
    and "\<not> ps_dangerous (strip command)" "strip command \<noteq> []" "NUL \<notin> set command"
    and "\<not> command_references_protected_path (protected_subpaths h) command"
    and "\<not> command_references_protected_agent_config command"
    and "\<not> (sc_is_admin_agent ctx \<and> is_admin (sc_role ctx))"
  shows "check_powershell h command ctx = Some (granted TIER_ASK False)"
proof -
  have "first_match POWERSHELL_DANGEROUS_PATTERNS (strip command) = None"
    using assms(3) by (simp add: ps_dangerous_def first_match_None)
  from ps_string_blank_blobs [OF refl assms(4) this assms(1,2), of 0] assms(4-)
  show ?thesis by (auto simp: check_powershell_def ps_check_def)
qed

theorem encoded_argument_skips_checks_witness:
  "check_powershell demo_host ''Stop-Service x -e AAAAAAAAAAAAAAAAA'' demo_ctx = Some (granted TIER_ASK False) \<and>
   map_option allowed (check_powershell demo_host ''Stop-Service x'' demo_ctx) = Some False"
proof
  let ?c = "''Stop-Service x -e AAAAAAAAAAAAAAAAA''"
  show "check_powershell demo_host ?c demo_ctx = Some (granted TIER_ASK False)"
    by (rule encoded_argument_skips_checks; code_simp)
  let ?p = "''Stop-Service x''"
  have "map_option allowed (check_powershell_segments (ps_check demo_host demo_ctx False) ?p) = Some False"
    by code_simp
  moreover have "check_powershell_string (ps_check demo_host demo_ctx False) 0 ?p =
      check_powershell_segments (ps_check demo_host demo_ctx False) ?p"
    by (rule ps_string_plain; code_simp)
  moreover have "NUL \<notin> set ?p" "\<not> command_references_protected_path (protected_subpaths demo_host) ?p"
    "\<not> command_references_protected_agent_config ?p" "strip ?p \<noteq> []" "\<not> sc_is_admin_agent demo_ctx" by code_simp+
  ultimately show "map_option allowed (check_powershell demo_host ?p demo_ctx) = Some False"
    by (simp only: check_powershell_def) simp
qed

text \<open>A judge's commands are classified in one shell and not in the other. In a judge session an
  admin's Bash command on an admin agent is classified, so that a listing is of the read tier and
  may run; the same listing in PowerShell takes the admin's fast path and comes out at the admin
  tier.\<close>

definition demo_judge :: security_context where
  "demo_judge = demo_ctx\<lparr>sc_role := ADMIN, sc_is_admin_agent := True, sc_read_only := True\<rparr>"

theorem judge_shells_differ:
  "map_option permission_tier (check_bash demo_host ''ls'' demo_judge) = Some TIER_READ \<and>
   map_option permission_tier (check_powershell demo_host ''ls'' demo_judge) = Some TIER_ADMIN"
proof
  show "map_option permission_tier (check_bash demo_host ''ls'' demo_judge) = Some TIER_READ" by code_simp
  have "map_option allowed (check_powershell_segments (ps_check demo_host demo_judge True) ''ls'') = Some True" by code_simp
  moreover have "check_powershell_string (ps_check demo_host demo_judge True) 0 ''ls'' =
      check_powershell_segments (ps_check demo_host demo_judge True) ''ls''"
    by (rule ps_string_plain; code_simp)
  moreover have "NUL \<notin> set ''ls''" "\<not> command_references_protected_path (protected_subpaths demo_host) ''ls''"
    "\<not> command_references_protected_agent_config ''ls''" "strip ''ls'' \<noteq> []" "sc_is_admin_agent demo_judge"
    "is_admin (sc_role demo_judge)" by code_simp+
  ultimately show "map_option permission_tier (check_powershell demo_host ''ls'' demo_judge) = Some TIER_ADMIN"
    by (simp only: check_powershell_def) (auto simp: granted_simps)
qed

lemma demo_ps_allowed:
  "map_option allowed (check_powershell demo_host ''cmd /c ls'' demo_ctx) = Some True"
proof -
  let ?k = "ps_check demo_host demo_ctx False"
  have "map_option allowed (check_powershell_segments ?k ''ls'') = Some True" by code_simp
  moreover have "check_powershell_string ?k 1 ''ls'' = check_powershell_segments ?k ''ls''"
    by (rule ps_string_plain; code_simp)
  moreover have s: "strip ''cmd /c ls'' = ''cmd /c ls''" "first_match POWERSHELL_DANGEROUS_PATTERNS ''cmd /c ls'' = None"
    "encoded_blobs ''cmd /c ls'' = []" "ps_inner ''cmd /c ls'' = Some ''ls''" "\<not> 0 > MAX_BASH_DEPTH" by code_simp+
  moreover have "check_powershell_string ?k 0 ''cmd /c ls'' = check_powershell_string ?k 1 ''ls''"
    unfolding check_powershell_string.simps [of ?k 0] Let_def s by simp
  moreover have "NUL \<notin> set ''cmd /c ls''" "\<not> command_references_protected_path (protected_subpaths demo_host) ''cmd /c ls''"
    "\<not> command_references_protected_agent_config ''cmd /c ls''" "strip ''cmd /c ls'' \<noteq> []" "\<not> sc_is_admin_agent demo_ctx"
    by code_simp+
  ultimately show ?thesis by (simp only: check_powershell_def) simp
qed

theorem ps_floor_holds_witness: "\<not> ps_dangerous ''ls''"
proof -
  obtain d where d: "check_powershell demo_host ''cmd /c ls'' demo_ctx = Some d" "allowed d"
    using demo_ps_allowed by auto
  have s: "strip ''cmd /c ls'' = ''cmd /c ls''" "encoded_blobs ''cmd /c ls'' = []" "ps_inner ''cmd /c ls'' = Some ''ls''"
    "strip ''ls'' = ''ls''" by code_simp+
  have "ps_step\<^sup>*\<^sup>* (0, ''cmd /c ls'') (Suc 0, ''ls'')"
    by (rule r_into_rtranclp, rule ps_step.wrapped) (simp_all only: s, simp_all)
  from ps_floor_holds [OF d this] s(4) show ?thesis by simp
qed

end
