(* ===== verification/SecurityIndex.thy ===== *)
theory SecurityIndex
  imports PathPolicy "HOL-Library.Monad_Syntax" "HOL-Library.List_Lexorder" "HOL-Library.Char_ord"
begin

text \<open>
  A session's security context as the index file keeps it
  (\<open>core/session/session_state.py\<close>, \<open>_serialize_security_ctx\<close> and \<open>_deserialize_security_ctx\<close>): the
  placement is flattened into keys of its own, a set becomes a sorted list, a tuple a list. The fields
  are those of the record \<open>security_context\<close>. A value of another type than the field's, which no
  release wrote, is read as unreadable.
\<close>

section \<open>Writing\<close>

definition jstrs :: "string list \<Rightarrow> json" where "jstrs xs = JArr (map JStr xs)"

definition library_json :: "string \<times> string \<times> bool \<Rightarrow> json" where
  "library_json p = (case p of (slug, subdir, writable) \<Rightarrow> JArr [JStr slug, JStr subdir, JBool writable])"

definition host_json :: "string \<times> string \<Rightarrow> json" where
  "host_json p = (case p of (address, user) \<Rightarrow> JArr [JStr address, JStr user])"

definition opt_json :: "('a \<Rightarrow> json) \<Rightarrow> 'a option \<Rightarrow> json" where
  "opt_json f x = (case x of None \<Rightarrow> JNull | Some v \<Rightarrow> f v)"

definition placement_json :: "placement \<Rightarrow> dict" where
  "placement_json p =
     [(''target_kind'', JStr (p_kind p)), (''target_label'', JStr (p_label p)),
      (''target_agents_dir'', JStr (agents_dir p)), (''target_machine_id'', JStr (machine_id p)),
      (''target_home_dir'', JStr (home_dir p)), (''target_allow_full_fs'', JBool (allow_full_fs p)),
      (''target_claude_runtime_root'', JStr (claude_runtime_root p)), (''target_os_user'', JStr (os_user p)),
      (''target_os'', JStr (os p)), (''target_user_dirs'', JObj (user_dirs p)),
      (''target_device_grants'', jstrs (sort (device_grants p))),
      (''target_otodock_dir'', JStr (reported_otodock_dir p)), (''target_mcps_dir'', JStr (mcps_dir p)),
      (''target_unresolved_home_dir'', JStr (unresolved_home_dir p)),
      (''target_unresolved_otodock_dir'', JStr (unresolved_otodock_dir p))]"

definition serialize_security_ctx :: "security_context \<Rightarrow> dict" where
  "serialize_security_ctx ctx =
     [(''role'', JStr (sc_role ctx)), (''username'', JStr (sc_username ctx)), (''agent'', JStr (sc_agent ctx)),
      (''is_admin_agent'', JBool (sc_is_admin_agent ctx)),
      (''display_name'', JStr (sc_display_name ctx)), (''email'', JStr (sc_email ctx)),
      (''session_allowed_roots'', jstrs (session_allowed_roots ctx)), (''work_cwd'', JStr (sc_work_cwd ctx)),
      (''cli_session_id'', JStr (cli_session_id ctx)), (''session_scope'', JStr (session_scope ctx)),
      (''config_visible'', opt_json JBool (sc_config_visible ctx)),
      (''available_scopes'', jstrs (sc_available_scopes ctx)),
      (''knowledge_libraries'', JArr (map library_json (knowledge_libraries ctx))),
      (''knowledge_rw'', JBool (knowledge_rw ctx)), (''read_only'', JBool (sc_read_only ctx)),
      (''principal'', JStr (principal ctx)), (''external_channel'', JStr (external_channel ctx)),
      (''external_id'', JStr (external_id ctx)), (''external_home'', JStr (external_home ctx)),
      (''external_ephemeral'', JBool (external_ephemeral ctx)), (''external_verified'', JBool (external_verified ctx)),
      (''external_claim'', JStr (external_claim ctx)),
      (''ssh_hosts'', opt_json (\<lambda>hs. JArr (map host_json hs)) (ssh_hosts ctx))] @
     placement_json (sc_placement ctx)"

section \<open>Reading\<close>

text \<open>A key that is missing has the field's default; a placement's string that is null is empty.\<close>

definition str_field :: "dict \<Rightarrow> string \<Rightarrow> string option \<Rightarrow> string option" where
  "str_field d k dflt = (case dget d k of None \<Rightarrow> dflt | Some (JStr s) \<Rightarrow> Some s | _ \<Rightarrow> None)"

definition bool_field :: "dict \<Rightarrow> string \<Rightarrow> bool option \<Rightarrow> bool option" where
  "bool_field d k dflt = (case dget d k of None \<Rightarrow> dflt | Some (JBool b) \<Rightarrow> Some b | _ \<Rightarrow> None)"

fun strs_of :: "json list \<Rightarrow> string list option" where
  "strs_of [] = Some []"
| "strs_of (JStr s # xs) = map_option ((#) s) (strs_of xs)"
| "strs_of (_ # xs) = None"

definition strs_field :: "dict \<Rightarrow> string \<Rightarrow> string list \<Rightarrow> string list option" where
  "strs_field d k dflt = (case dget d k of None \<Rightarrow> Some dflt | Some (JArr xs) \<Rightarrow> strs_of xs | _ \<Rightarrow> None)"

text \<open>An entry of a release before subdirectories is a pair: the whole folder.\<close>

fun libraries_of :: "json list \<Rightarrow> (string \<times> string \<times> bool) list option" where
  "libraries_of [] = Some []"
| "libraries_of (JArr [JStr slug, JBool w] # xs) = map_option ((#) (slug, [], w)) (libraries_of xs)"
| "libraries_of (JArr [JStr slug, JStr subdir, JBool w] # xs) = map_option ((#) (slug, subdir, w)) (libraries_of xs)"
| "libraries_of (_ # xs) = None"

fun hosts_of :: "json list \<Rightarrow> (string \<times> string) list option" where
  "hosts_of [] = Some []"
| "hosts_of (JArr [JStr address, JStr user] # xs) = map_option ((#) (address, user)) (hosts_of xs)"
| "hosts_of (_ # xs) = None"

definition placement_str :: "dict \<Rightarrow> string \<Rightarrow> string \<Rightarrow> string option" where
  "placement_str d k dflt =
     (case dget d k of None \<Rightarrow> Some dflt | Some JNull \<Rightarrow> Some [] | Some (JStr s) \<Rightarrow> Some s | _ \<Rightarrow> None)"

definition read_placement :: "dict \<Rightarrow> placement option" where
  "read_placement d =
     do { kind \<leftarrow> placement_str d ''target_kind'' KIND_LOCAL;
          lbl \<leftarrow> placement_str d ''target_label'' [];
          agents \<leftarrow> placement_str d ''target_agents_dir'' [];
          machine \<leftarrow> placement_str d ''target_machine_id'' [];
          home \<leftarrow> placement_str d ''target_home_dir'' [];
          full \<leftarrow> bool_field d ''target_allow_full_fs'' (Some False);
          runtime \<leftarrow> placement_str d ''target_claude_runtime_root'' [];
          user \<leftarrow> placement_str d ''target_os_user'' [];
          system \<leftarrow> placement_str d ''target_os'' [];
          dirs \<leftarrow> (case dget d ''target_user_dirs'' of None \<Rightarrow> Some [] | Some JNull \<Rightarrow> Some []
                  | Some (JObj kvs) \<Rightarrow> Some kvs | _ \<Rightarrow> None);
          grants \<leftarrow> (case dget d ''target_device_grants'' of None \<Rightarrow> Some [] | Some JNull \<Rightarrow> Some []
                  | Some (JArr xs) \<Rightarrow> strs_of xs | _ \<Rightarrow> None);
          otodock \<leftarrow> placement_str d ''target_otodock_dir'' [];
          mcps \<leftarrow> placement_str d ''target_mcps_dir'' [];
          raw_home \<leftarrow> placement_str d ''target_unresolved_home_dir'' [];
          raw_otodock \<leftarrow> placement_str d ''target_unresolved_otodock_dir'' [];
          Some \<lparr>p_kind = kind, machine_id = machine, p_label = lbl, os = system, home_dir = home,
            agents_dir = agents, os_user = user, allow_full_fs = full, claude_runtime_root = runtime,
            user_dirs = dirs, device_grants = remdups grants, has_display = None,
            reported_otodock_dir = otodock, mcps_dir = mcps, unresolved_home_dir = raw_home,
            unresolved_otodock_dir = raw_otodock\<rparr> }"

definition deserialize_security_ctx :: "dict \<Rightarrow> security_context option" where
  "deserialize_security_ctx d =
     do { role \<leftarrow> str_field d ''role'' None;
          username \<leftarrow> str_field d ''username'' None;
          agent \<leftarrow> str_field d ''agent'' None;
          admin_agent \<leftarrow> bool_field d ''is_admin_agent'' None;
          display \<leftarrow> str_field d ''display_name'' (Some []);
          mail \<leftarrow> str_field d ''email'' (Some []);
          roots \<leftarrow> strs_field d ''session_allowed_roots'' [];
          cwd \<leftarrow> str_field d ''work_cwd'' (Some []);
          sid \<leftarrow> str_field d ''cli_session_id'' (Some []);
          scope \<leftarrow> str_field d ''session_scope'' (Some ''user'');
          visible \<leftarrow> (case dget d ''config_visible'' of None \<Rightarrow> Some None | Some JNull \<Rightarrow> Some None
                  | Some (JBool b) \<Rightarrow> Some (Some b) | _ \<Rightarrow> None);
          scopes \<leftarrow> strs_field d ''available_scopes'' [''user'', ''agent''];
          libraries \<leftarrow> (case dget d ''knowledge_libraries'' of None \<Rightarrow> Some [] | Some (JArr xs) \<Rightarrow> libraries_of xs
                  | _ \<Rightarrow> None);
          rw \<leftarrow> bool_field d ''knowledge_rw'' (Some False);
          ro \<leftarrow> bool_field d ''read_only'' (Some False);
          who \<leftarrow> str_field d ''principal'' (Some ''user'');
          channel \<leftarrow> str_field d ''external_channel'' (Some []);
          ext_id \<leftarrow> str_field d ''external_id'' (Some []);
          ext_home \<leftarrow> str_field d ''external_home'' (Some []);
          ephemeral \<leftarrow> bool_field d ''external_ephemeral'' (Some False);
          verified \<leftarrow> bool_field d ''external_verified'' (Some False);
          claim \<leftarrow> str_field d ''external_claim'' (Some []);
          hosts \<leftarrow> (case dget d ''ssh_hosts'' of None \<Rightarrow> Some (Some []) | Some JNull \<Rightarrow> Some None
                  | Some (JArr xs) \<Rightarrow> map_option Some (hosts_of xs) | _ \<Rightarrow> None);
          p \<leftarrow> read_placement d;
          Some \<lparr>sc_role = role, sc_username = username, sc_agent = agent, sc_is_admin_agent = admin_agent,
            sc_display_name = display, sc_email = mail, sc_placement = p, cli_session_id = sid, session_scope = scope, sc_config_visible = visible,
            sc_available_scopes = scopes, knowledge_libraries = libraries, knowledge_rw = rw, principal = who,
            external_channel = channel, external_id = ext_id, external_home = ext_home, external_ephemeral = ephemeral,
            external_verified = verified, external_claim = claim, session_allowed_roots = roots, sc_work_cwd = cwd, sc_read_only = ro,
            ssh_hosts = hosts\<rparr> }"

section \<open>Round trip\<close>

lemma strs_of_map [simp]: "strs_of (map JStr xs) = Some xs"
  by (induction xs) auto

lemma libraries_of_map [simp]: "libraries_of (map library_json ps) = Some ps"
  by (induction ps) (auto simp: library_json_def)

lemma hosts_of_map [simp]: "hosts_of (map host_json hs) = Some hs"
  by (induction hs) (auto simp: host_json_def)

text \<open>What a restart keeps of a context: everything but the reported display, which the index has no
  key for.\<close>

definition reloaded_placement :: "placement \<Rightarrow> placement" where
  "reloaded_placement p = p\<lparr>device_grants := remdups (sort (device_grants p)), has_display := None\<rparr>"

definition reloaded_ctx :: "security_context \<Rightarrow> security_context" where
  "reloaded_ctx ctx = ctx\<lparr>sc_placement := reloaded_placement (sc_placement ctx)\<rparr>"

lemma dget_Cons: "dget ((a, v) # d) k = (if a = k then Some v else dget d k)"
  by (simp add: dget_def)

lemma read_placement_json: "read_placement (pre @ placement_json p @ more_keys) = Some (reloaded_placement p)"
  if "list_all (\<lambda>k. \<not> starts_with k ''target_'') (keys pre)"
proof -
  have skip: "dget (pre @ d) k = dget d k" if "starts_with k ''target_''" for k d
  proof -
    have "dget pre k = None"
      using \<open>list_all _ (keys pre)\<close> that by (force simp: dget_def lookup_None_iff list_all_iff)
    then show ?thesis by (simp add: dget_append)
  qed
  show ?thesis
    by (simp add: read_placement_def placement_str_def bool_field_def skip starts_with_iff placement_json_def
        dget_Cons jstrs_def reloaded_placement_def)
qed

lemma deserialize_entry:
  "deserialize_security_ctx (serialize_security_ctx ctx @ more_keys) = Some (reloaded_ctx ctx)"
proof -
  have p: "read_placement (serialize_security_ctx ctx @ more_keys) = Some (reloaded_placement (sc_placement ctx))"
    unfolding serialize_security_ctx_def append_assoc
    by (rule read_placement_json) (simp add: starts_with_iff)
  show ?thesis
    unfolding deserialize_security_ctx_def p
    by (simp add: serialize_security_ctx_def str_field_def bool_field_def strs_field_def dget_Cons jstrs_def opt_json_def
        reloaded_ctx_def split: option.splits)
qed

lemma deserialize_serialize: "deserialize_security_ctx (serialize_security_ctx ctx) = Some (reloaded_ctx ctx)"
  using deserialize_entry [of ctx "[]"] by simp

end
