(* ===== verification/SessionState.thy ===== *)
theory SessionState
  imports SecurityIndex PermissionModes
begin

text \<open>
  The live tables of a session (\<open>core/session/session_state.py\<close>): its permission mode, its security
  context with the index file that carries it over a crash, the words its terminal reports, and the
  liveness of its id, by which a session token is judged. The module's dicts and sets are the fields
  of one record, with the two clocks (\<open>now\<close>, monotonic milliseconds, and \<open>wall\<close>, epoch seconds) and
  the ids the engine registries hold.
\<close>

section \<open>The state\<close>

record session_state =
  session_modes :: "(string \<times> string) list"
  pre_plan_modes :: "(string \<times> string) list"
  paused_reviews :: "string list"
  review_reentries :: "(string \<times> nat) list"
  live_words :: "(string \<times> string) list"
  session_tool_allows :: "(string \<times> string list) list"
  session_security :: "(string \<times> security_context) list"
  security_ts :: "(string \<times> int) list"
  reloaded_states :: "(string \<times> string \<times> int) list"
  security_index :: "(string \<times> dict) list"
  index_writable :: bool
  index_readable :: bool
  starting :: "(string \<times> int) list"
  closing :: "(string \<times> int) list"
  headless_live :: "string list"
  token_floor :: "(string \<times> int) list"
  next_sweep :: int
  registered :: "string list"
  now :: int
  wall :: int

definition SECURITY_TTL_S :: int where "SECURITY_TTL_S = 86400"
definition CLOSING_WINDOW_MS :: int where "CLOSING_WINDOW_MS = 30000"
definition START_MARK_TTL_MS :: int where "START_MARK_TTL_MS = 600000"
definition REMOTE_START_MARK_TTL_MS :: int where "REMOTE_START_MARK_TTL_MS = 900000"
definition READOPT_MARK_TTL_MS :: int where "READOPT_MARK_TTL_MS = 180000"
definition SWEEP_EVERY_MS :: int where "SWEEP_EVERY_MS = 60000"

section \<open>Modes\<close>

definition reloaded_state :: "string \<Rightarrow> session_state \<Rightarrow> string \<times> int" where
  "reloaded_state sid st = (case lookup (reloaded_states st) sid of None \<Rightarrow> ([], 0) | Some p \<Rightarrow> p)"

definition recorded_session_mode :: "string \<Rightarrow> session_state \<Rightarrow> string" where
  "recorded_session_mode sid st =
     (case lookup (session_modes st) sid of None \<Rightarrow> fst (reloaded_state sid st) | Some m \<Rightarrow> m)"

definition get_session_mode :: "string \<Rightarrow> session_state \<Rightarrow> string" where
  "get_session_mode sid st = or_else (recorded_session_mode sid st) ''auto''"

definition pre_plan_mode :: "string \<Rightarrow> session_state \<Rightarrow> string" where
  "pre_plan_mode sid st = or_else (opt_str (lookup (pre_plan_modes st) sid)) ASK_MODE"

definition pause_review :: "string \<Rightarrow> session_state \<Rightarrow> session_state" where
  "pause_review sid st = st\<lparr>paused_reviews := List.insert sid (paused_reviews st)\<rparr>"

definition review_paused :: "string \<Rightarrow> session_state \<Rightarrow> bool" where
  "review_paused sid st = (sid \<in> set (paused_reviews st))"

definition note_review_reentry :: "string \<Rightarrow> session_state \<Rightarrow> nat \<times> session_state" where
  "note_review_reentry sid st =
     (let done = (case lookup (review_reentries st) sid of None \<Rightarrow> 0 | Some n \<Rightarrow> n)
      in (done, st\<lparr>review_reentries := dict_set sid (done + 1) (review_reentries st)\<rparr>))"

definition note_live_word :: "string \<Rightarrow> string \<Rightarrow> session_state \<Rightarrow> bool \<times> session_state" where
  "note_live_word sid word st =
     (let prev = lookup (live_words st) sid
      in (prev \<noteq> None \<and> prev \<noteq> Some word, st\<lparr>live_words := dict_set sid word (live_words st)\<rparr>))"

definition remember_session_tool_allow :: "string \<Rightarrow> string \<Rightarrow> session_state \<Rightarrow> session_state" where
  "remember_session_tool_allow sid tool st =
     st\<lparr>session_tool_allows :=
          dict_set sid (List.insert tool (case lookup (session_tool_allows st) sid of None \<Rightarrow> [] | Some ts \<Rightarrow> ts))
            (session_tool_allows st)\<rparr>"

definition is_session_tool_allowed :: "string \<Rightarrow> string \<Rightarrow> session_state \<Rightarrow> bool" where
  "is_session_tool_allowed sid tool st =
     (case lookup (session_tool_allows st) sid of None \<Rightarrow> False | Some ts \<Rightarrow> tool \<in> set ts)"

section \<open>Security contexts and their index\<close>

text \<open>The whole file is replaced from memory: a session with a context and nothing else. The write is best-effort: where
  the disk does not take it (\<open>index_writable\<close>), the old file stays and the failure is only logged. Every entry of
  the model is JSON, so none is skipped.\<close>

definition index_entry :: "session_state \<Rightarrow> string \<Rightarrow> security_context \<Rightarrow> dict" where
  "index_entry st sid ctx =
     serialize_security_ctx ctx @
     [(''_saved_at'', JNum (case lookup (security_ts st) sid of None \<Rightarrow> wall st | Some t \<Rightarrow> t)),
      (''_mode'', JStr (case lookup (session_modes st) sid of None \<Rightarrow> fst (reloaded_state sid st) | Some m \<Rightarrow> m)),
      (''_floor'', JNum (case lookup (token_floor st) sid of None \<Rightarrow> snd (reloaded_state sid st) | Some f \<Rightarrow> f))]"

definition save_session_security :: "session_state \<Rightarrow> session_state" where
  "save_session_security st =
     (if index_writable st
      then st\<lparr>security_index := map (\<lambda>(sid, ctx). (sid, index_entry st sid ctx)) (session_security st)\<rparr>
      else st)"

definition get_session_security :: "string \<Rightarrow> session_state \<Rightarrow> security_context option" where
  "get_session_security sid st = lookup (session_security st) sid"

text \<open>\<open>uuid.UUID(text)\<close> does not raise: thirty-two characters that \<open>int\<close> reads in base sixteen, once
  the prefixes, the braces and the hyphens are gone.\<close>

definition is_hex :: "char \<Rightarrow> bool" where
  "is_hex c = (is_digit c \<or> lower_char c \<in> set ''abcdef'')"

definition reads_as_hex :: "string \<Rightarrow> bool" where
  "reads_as_hex s =
     (let t = strip s;
          u = (if starts_with t ''+'' \<or> starts_with t ''-'' then drop 1 t else t);
          p = starts_with (lower u) ''0x'';
          v = (if p then drop 2 u else u);
          digits = (if p \<and> starts_with v ''_'' then drop 1 v else v)
      in list_all (\<lambda>g. g \<noteq> [] \<and> list_all is_hex g) (split_on (CHR ''_'') digits))"

definition is_uuid :: "string \<Rightarrow> bool" where
  "is_uuid s =
     (let bare = replace_all ''uuid:'' [] (replace_all ''urn:'' [] s);
          braces = (\<lambda>c. c = CHR ''{'' \<or> c = CHR ''}'');
          h = filter (\<lambda>c. c \<noteq> CHR ''-'') (rev (dropWhile braces (rev (dropWhile braces bare))))
      in length h = 32 \<and> reads_as_hex h)"

definition set_session_security :: "string \<Rightarrow> security_context \<Rightarrow> session_state \<Rightarrow> session_state" where
  "set_session_security sid ctx0 st =
     (let ctx = (if cli_session_id ctx0 = [] \<and> is_uuid sid then ctx0\<lparr>cli_session_id := lower sid\<rparr> else ctx0)
      in save_session_security
           (st\<lparr>session_security := dict_set sid ctx (session_security st),
               security_ts := dict_set sid (wall st) (security_ts st)\<rparr>))"

definition set_session_mode :: "string \<Rightarrow> string \<Rightarrow> session_state \<Rightarrow> session_state" where
  "set_session_mode sid mode0 st =
     (let prev = lookup (session_modes st) sid; mode = current_mode mode0;
          st1 = st\<lparr>session_modes := dict_set sid mode (session_modes st)\<rparr>;
          st2 = (if prev \<noteq> Some mode then
                   st1\<lparr>paused_reviews := removeAll sid (paused_reviews st1),
                       pre_plan_modes :=
                         (case prev of
                            Some p \<Rightarrow> if mode = PLAN_MODE \<and> p \<noteq> [] \<and> p \<noteq> PLAN_MODE
                                     then dict_set sid p (pre_plan_modes st1) else pre_plan_modes st1
                          | None \<Rightarrow> pre_plan_modes st1)\<rparr>
                 else st1)
      in if prev \<noteq> None \<and> prev \<noteq> Some mode \<and> get_session_security sid st2 \<noteq> None
         then save_session_security st2 else st2)"

definition security_context_expired :: "string \<Rightarrow> session_state \<Rightarrow> bool" where
  "security_context_expired sid st =
     (case lookup (security_ts st) sid of None \<Rightarrow> False | Some t \<Rightarrow> wall st - t > SECURITY_TTL_S)"

definition live_state :: "string \<Rightarrow> session_state \<Rightarrow> string \<times> int" where
  "live_state sid st =
     (opt_str (lookup (session_modes st) sid), case lookup (token_floor st) sid of None \<Rightarrow> 0 | Some f \<Rightarrow> f)"

text \<open>A machine's flag or its grants, swapped in the contexts of every live session on it.\<close>

definition refresh_contexts ::
    "(security_context \<Rightarrow> bool) \<Rightarrow> (placement \<Rightarrow> placement) \<Rightarrow> session_state \<Rightarrow> nat \<times> session_state" where
  "refresh_contexts due change st =
     (let st' = st\<lparr>session_security :=
                     map (\<lambda>(sid, ctx). (sid, if due ctx then ctx\<lparr>sc_placement := change (sc_placement ctx)\<rparr> else ctx))
                       (session_security st)\<rparr>;
          updated = length (filter (\<lambda>(sid, ctx). due ctx) (session_security st))
      in (updated, if updated \<noteq> 0 then save_session_security st' else st'))"

definition refresh_target_allow_full_fs :: "string \<Rightarrow> bool \<Rightarrow> session_state \<Rightarrow> nat \<times> session_state" where
  "refresh_target_allow_full_fs mid full st =
     refresh_contexts
       (\<lambda>ctx. machine_id (sc_placement ctx) = mid \<and> allow_full_fs (sc_placement ctx) \<noteq> full)
       (\<lambda>p. p\<lparr>allow_full_fs := full\<rparr>) st"

definition refresh_target_device_grants :: "string \<Rightarrow> string list \<Rightarrow> session_state \<Rightarrow> nat \<times> session_state" where
  "refresh_target_device_grants mid grants st =
     refresh_contexts
       (\<lambda>ctx. machine_id (sc_placement ctx) = mid \<and> set (device_grants (sc_placement ctx)) \<noteq> set grants)
       (\<lambda>p. p\<lparr>device_grants := grants\<rparr>) st"

end
