(* ===== verification/SessionLife.thy ===== *)
theory SessionLife
  imports SessionState
begin

text \<open>
  The lives of a session id (\<open>core/session/session_state.py\<close>): its registration and re-adoption, the
  windows in which it starts and closes, the token floor of its current life, the load of the index
  after a restart and the end. The other tables a close empties (prompts, badges, secrets) are not
  part of this record.
\<close>

section \<open>Liveness\<close>

definition mark_starting :: "string \<Rightarrow> int \<Rightarrow> session_state \<Rightarrow> session_state" where
  "mark_starting sid ttl st =
     (if sid \<noteq> [] then st\<lparr>starting := dict_set sid (now st + ttl) (starting st)\<rparr> else st)"

definition clear_starting :: "string \<Rightarrow> session_state \<Rightarrow> session_state" where
  "clear_starting sid st = st\<lparr>starting := dict_del sid (starting st)\<rparr>"

definition mark_closing :: "string \<Rightarrow> int option \<Rightarrow> session_state \<Rightarrow> session_state" where
  "mark_closing sid ttl st =
     (if sid \<noteq> []
      then st\<lparr>closing := dict_set sid (now st + (case ttl of None \<Rightarrow> CLOSING_WINDOW_MS | Some t \<Rightarrow> t)) (closing st)\<rparr>
      else st)"

definition mark_headless_live :: "string \<Rightarrow> session_state \<Rightarrow> session_state" where
  "mark_headless_live sid st =
     (if sid \<noteq> [] then st\<lparr>headless_live := List.insert sid (headless_live st)\<rparr> else st)"

definition clear_headless_live :: "string \<Rightarrow> session_state \<Rightarrow> session_state" where
  "clear_headless_live sid st = st\<lparr>headless_live := removeAll sid (headless_live st)\<rparr>"

definition session_is_held :: "string \<Rightarrow> session_state \<Rightarrow> bool" where
  "session_is_held sid st = (sid \<noteq> [] \<and> (sid \<in> set (headless_live st) \<or> sid \<in> set (registered st)))"

definition within :: "(string \<times> int) list \<Rightarrow> string \<Rightarrow> int \<Rightarrow> bool" where
  "within table sid t = (case lookup table sid of None \<Rightarrow> False | Some deadline \<Rightarrow> t \<le> deadline)"

definition unexpired :: "int \<Rightarrow> (string \<times> int) list \<Rightarrow> (string \<times> int) list" where
  "unexpired t table = filter (\<lambda>kv. t \<le> snd kv) table"

definition sweep_liveness :: "session_state \<Rightarrow> session_state" where
  "sweep_liveness st =
     (if now st < next_sweep st then st
      else
       (let st1 = st\<lparr>next_sweep := now st + SWEEP_EVERY_MS, starting := unexpired (now st) (starting st),
                     closing := unexpired (now st) (closing st)\<rparr>
        in st1\<lparr>token_floor :=
                 filter (\<lambda>kv. fst kv \<in> set (keys (starting st1)) \<or> fst kv \<in> set (keys (closing st1)) \<or>
                              session_is_held (fst kv) st1) (token_floor st1)\<rparr>))"

text \<open>A window that has passed is dropped as it is read. \<open>or\<close> stops at the first that holds.\<close>

definition forget_window :: "string \<Rightarrow> int \<Rightarrow> (string \<times> int) list \<Rightarrow> (string \<times> int) list" where
  "forget_window sid t table = (if within table sid t then table else dict_del sid table)"

definition session_is_live :: "string \<Rightarrow> session_state \<Rightarrow> bool \<times> session_state" where
  "session_is_live sid st =
     (if sid = [] then (False, st)
      else
       (let st1 = sweep_liveness st in
        if session_is_held sid st1 then (True, st1)
        else if within (starting st1) sid (now st1) then (True, st1)
        else
         (let st2 = st1\<lparr>starting := forget_window sid (now st1) (starting st1)\<rparr> in
          if within (closing st2) sid (now st2) then (True, st2)
          else (False, st2\<lparr>closing := forget_window sid (now st2) (closing st2)\<rparr>))))"

datatype token_answer = Accepted | NotLive | Stale

definition claim_int :: "json option \<Rightarrow> int option" where
  "claim_int v = (case v of Some (JNum n) \<Rightarrow> Some n | Some (JBool b) \<Rightarrow> Some (if b then 1 else 0) | _ \<Rightarrow> None)"

definition judge_iat :: "string \<Rightarrow> int \<Rightarrow> session_state \<Rightarrow> token_answer" where
  "judge_iat sid iat st =
     (case lookup (token_floor st) sid of
        None \<Rightarrow>
          (let kept = snd (reloaded_state sid st) in if kept \<noteq> 0 \<and> iat < kept then Stale else Accepted)
      | Some floor \<Rightarrow> if iat \<ge> floor \<or> \<not> session_is_held sid st then Accepted else Stale)"

definition session_token_refusal :: "dict \<Rightarrow> session_state \<Rightarrow> token_answer \<times> session_state" where
  "session_token_refusal claims st =
     (case nonempty_str (dget claims ''sid'') of
        None \<Rightarrow> (NotLive, st)
      | Some sid \<Rightarrow>
         (case session_is_live sid st of
            (False, st') \<Rightarrow> (NotLive, st')
          | (True, st') \<Rightarrow>
              ((case claim_int (dget claims ''iat'') of None \<Rightarrow> Accepted | Some iat \<Rightarrow> judge_iat sid iat st'), st')))"

section \<open>Lives\<close>

definition register_session_state ::
    "string \<Rightarrow> string \<Rightarrow> security_context option \<Rightarrow> int \<Rightarrow> session_state \<Rightarrow> session_state" where
  "register_session_state sid mode ctx token_minted_at st =
     (let st1 = (if \<not> session_is_held sid st then
                   st\<lparr>token_floor := dict_set sid (if token_minted_at \<noteq> 0 then token_minted_at else wall st) (token_floor st),
                      live_words := dict_set sid (terminal_mode mode) (live_words st)\<rparr>
                 else st);
          st2 = st1\<lparr>session_modes := dict_set sid (current_mode mode) (session_modes st1),
                    reloaded_states := dict_del sid (reloaded_states st1)\<rparr>
      in case ctx of None \<Rightarrow> st2 | Some c \<Rightarrow> set_session_security sid c st2)"

definition restore_session_state :: "string \<Rightarrow> string \<Rightarrow> int \<Rightarrow> session_state \<Rightarrow> session_state" where
  "restore_session_state sid mode floor st =
     (let st1 = st\<lparr>session_modes := dict_set sid (current_mode mode) (session_modes st),
                   token_floor := (if floor \<noteq> 0 then dict_set sid floor (token_floor st) else dict_del sid (token_floor st)),
                   reloaded_states := dict_del sid (reloaded_states st)\<rparr>
      in if get_session_security sid st1 \<noteq> None then save_session_security st1 else st1)"

definition cleanup_session :: "string \<Rightarrow> session_state \<Rightarrow> session_state" where
  "cleanup_session sid st =
     (let st1 = st\<lparr>session_modes := dict_del sid (session_modes st), pre_plan_modes := dict_del sid (pre_plan_modes st),
                   paused_reviews := removeAll sid (paused_reviews st),
                   review_reentries := dict_del sid (review_reentries st), live_words := dict_del sid (live_words st),
                   session_tool_allows := dict_del sid (session_tool_allows st),
                   session_security := dict_del sid (session_security st),
                   security_ts := dict_del sid (security_ts st), token_floor := dict_del sid (token_floor st),
                   reloaded_states := dict_del sid (reloaded_states st)\<rparr>
      in if get_session_security sid st \<noteq> None then save_session_security st1 else st1)"

definition drop_reloaded_contexts_of :: "string \<Rightarrow> session_state \<Rightarrow> string list \<times> session_state" where
  "drop_reloaded_contexts_of username st =
     (if username = [] then ([], st)
      else
       (let dropped = map fst (filter (\<lambda>(sid, ctx). sid \<in> set (keys (reloaded_states st)) \<and> sc_username ctx = username \<and>
                                  \<not> session_is_held sid st) (session_security st))
        in (dropped, foldl (\<lambda>s sid. cleanup_session sid s) st dropped)))"

section \<open>A restart\<close>

definition fresh_process :: "(string \<times> dict) list \<Rightarrow> int \<Rightarrow> int \<Rightarrow> session_state" where
  "fresh_process index t w =
     \<lparr>session_modes = [], pre_plan_modes = [], paused_reviews = [], review_reentries = [], live_words = [],
      session_tool_allows = [], session_security = [], security_ts = [], reloaded_states = [],
      security_index = index, index_writable = True, index_readable = True, starting = [], closing = [], headless_live = [], token_floor = [], next_sweep = 0,
      registered = [], now = t, wall = w\<rparr>"

text \<open>An entry of the index that comes back: no older than a session token lives, no phone call's, and
  readable. \<open>_saved_at\<close>, \<open>_mode\<close> and \<open>_floor\<close> default to nothing.\<close>

definition num_or_zero :: "json option \<Rightarrow> int option" where
  "num_or_zero v = (case v of None \<Rightarrow> Some 0 | Some JNull \<Rightarrow> Some 0 | v' \<Rightarrow> claim_int v')"

definition load_entry :: "int \<Rightarrow> dict \<Rightarrow> (security_context \<times> int \<times> string \<times> int) option" where
  "load_entry w d =
     (case num_or_zero (dget d ''_saved_at'') of
        None \<Rightarrow> None
      | Some saved \<Rightarrow>
          if w - saved > SECURITY_TTL_S then None
          else if dget d ''principal'' = Some (JStr ''external'') then None
          else (case deserialize_security_ctx d of
                  None \<Rightarrow> None
                | Some ctx \<Rightarrow>
                   (case num_or_zero (dget d ''_floor'') of
                      None \<Rightarrow> None
                    | Some f \<Rightarrow>
                        Some (ctx, if saved \<noteq> 0 then saved else w,
                              current_mode (opt_str (nonempty_str (dget d ''_mode''))), f))))"

fun load_entries :: "(string \<times> dict) list \<Rightarrow> nat \<times> session_state \<Rightarrow> nat \<times> session_state" where
  "load_entries [] acc = acc"
| "load_entries ((sid, d) # rest) (n, st) =
     load_entries rest
       (case load_entry (wall st) d of
          None \<Rightarrow> (n, st)
        | Some (ctx, ts, mode, f) \<Rightarrow>
            (n + 1, st\<lparr>session_security := dict_set sid ctx (session_security st),
                       security_ts := dict_set sid ts (security_ts st),
                       reloaded_states := dict_set sid (mode, f) (reloaded_states st)\<rparr>))"

definition load_session_security :: "session_state \<Rightarrow> session_state" where
  "load_session_security st =
     (if \<not> index_readable st then st
      else (case load_entries (security_index st) (0, st) of
              (loaded, st') \<Rightarrow> if loaded \<noteq> 0 then save_session_security st' else st'))"

definition restart :: "int \<Rightarrow> int \<Rightarrow> session_state \<Rightarrow> session_state" where
  "restart t w st =
     load_session_security
       ((fresh_process (security_index st) t w)\<lparr>index_writable := index_writable st, index_readable := index_readable st\<rparr>)"

end
