(* ===== verification/SessionSafety.thy ===== *)
theory SessionSafety
  imports SessionLife
begin

text \<open>
  What the live tables promise over any run: the operations of \<open>SessionState\<close> and \<open>SessionLife\<close>, the
  registries of the engines, the two clocks and the disk as one step function, a crash with the restart
  after it included. Shown: while the disk takes its writes the index file speaks for memory after
  every operation; a session whose close was written stays closed, whatever the disk does before and after; a session that was open at a crash comes back with the context and mode it had, and a token
  of an earlier life is refused while the id is held.
\<close>

section \<open>Runs\<close>

datatype op =
    Register string string "security_context option" int
  | Restore string string int
  | SetMode string string
  | SetSecurity string security_context
  | Cleanup string
  | DropOf string
  | RefreshFs string bool
  | RefreshGrants string "string list"
  | MarkStarting string int
  | ClearStarting string
  | MarkClosing string "int option"
  | MarkHeadless string
  | ClearHeadless string
  | AskLive string
  | Judge dict
  | LayerInsert string
  | LayerPop string
  | Tick nat nat
  | Disk bool bool
  | Crash int nat

fun exec :: "op \<Rightarrow> session_state \<Rightarrow> session_state" where
  "exec (Register sid mode ctx minted) st = register_session_state sid mode ctx minted st"
| "exec (Restore sid mode floor) st = restore_session_state sid mode floor st"
| "exec (SetMode sid mode) st = set_session_mode sid mode st"
| "exec (SetSecurity sid ctx) st = set_session_security sid ctx st"
| "exec (Cleanup sid) st = cleanup_session sid st"
| "exec (DropOf username) st = snd (drop_reloaded_contexts_of username st)"
| "exec (RefreshFs mid full) st = snd (refresh_target_allow_full_fs mid full st)"
| "exec (RefreshGrants mid grants) st = snd (refresh_target_device_grants mid grants st)"
| "exec (MarkStarting sid ttl) st = mark_starting sid ttl st"
| "exec (ClearStarting sid) st = clear_starting sid st"
| "exec (MarkClosing sid ttl) st = mark_closing sid ttl st"
| "exec (MarkHeadless sid) st = mark_headless_live sid st"
| "exec (ClearHeadless sid) st = clear_headless_live sid st"
| "exec (AskLive sid) st = snd (session_is_live sid st)"
| "exec (Judge claims) st = snd (session_token_refusal claims st)"
| "exec (LayerInsert sid) st = st\<lparr>registered := List.insert sid (registered st)\<rparr>"
| "exec (LayerPop sid) st = st\<lparr>registered := removeAll sid (registered st)\<rparr>"
| "exec (Tick ms s) st = st\<lparr>now := now st + int ms, wall := wall st + int s\<rparr>"
| "exec (Disk takes gives) st = st\<lparr>index_writable := takes, index_readable := gives\<rparr>"
| "exec (Crash t s) st = restart t (wall st + int s) st"

definition run :: "op list \<Rightarrow> session_state \<Rightarrow> session_state" where
  "run ops st = foldl (\<lambda>s c. exec c s) st ops"

text \<open>A program that has run from an empty index file, on a disk that takes and gives back the file.\<close>

definition disk_works :: "op \<Rightarrow> bool" where
  "disk_works c = (case c of Disk takes gives \<Rightarrow> takes \<and> gives | _ \<Rightarrow> True)"

inductive reachable_session :: "session_state \<Rightarrow> bool" where
  first: "reachable_session (fresh_process [] t w)"
| step: "reachable_session st \<Longrightarrow> disk_works c \<Longrightarrow> reachable_session (exec c st)"

section \<open>The index file speaks for memory\<close>

definition tables_ok :: "session_state \<Rightarrow> bool" where
  "tables_ok st =
     (index_writable st \<and> index_readable st \<and> distinct (keys (session_security st)) \<and>
      (\<forall>sid ctx. lookup (session_security st) sid = Some ctx \<longrightarrow> (\<exists>t. lookup (security_ts st) sid = Some t)))"

text \<open>A context in memory is in the file with its time; what is in the file alone will not load.\<close>

definition file_ok :: "session_state \<Rightarrow> bool" where
  "file_ok st =
     (distinct (keys (security_index st)) \<and>
      (\<forall>sid ctx. lookup (session_security st) sid = Some ctx \<longrightarrow>
         (\<exists>t m f. lookup (security_ts st) sid = Some t \<and> lookup (security_index st) sid =
            Some (serialize_security_ctx ctx @ [(''_saved_at'', JNum t), (''_mode'', JStr m), (''_floor'', JNum f)]))) \<and>
      (\<forall>sid d. lookup (session_security st) sid = None \<and> lookup (security_index st) sid = Some d \<longrightarrow>
         load_entry (wall st) d = None))"

definition consistent :: "session_state \<Rightarrow> bool" where
  "consistent st = (tables_ok st \<and> file_ok st)"

lemma lookup_map_pairs: "lookup (map (\<lambda>(k, v). (k, g k v)) kvs) x = map_option (g x) (lookup kvs x)"
  by (induction kvs) auto

lemma keys_map_pairs: "keys (map (\<lambda>(k, v). (k, g k v)) kvs) = keys kvs"
  by (induction kvs) auto

lemma save_frame [simp]:
  "session_security (save_session_security st) = session_security st"
  "security_ts (save_session_security st) = security_ts st"
  "token_floor (save_session_security st) = token_floor st"
  "session_modes (save_session_security st) = session_modes st"
  "reloaded_states (save_session_security st) = reloaded_states st"
  "headless_live (save_session_security st) = headless_live st"
  "registered (save_session_security st) = registered st"
  "starting (save_session_security st) = starting st" "closing (save_session_security st) = closing st"
  "now (save_session_security st) = now st" "wall (save_session_security st) = wall st"
  "index_writable (save_session_security st) = index_writable st"
  "index_readable (save_session_security st) = index_readable st"
  by (simp_all add: save_session_security_def)

lemma saved_index:
  "lookup (security_index (save_session_security st)) sid =
     (if index_writable st then map_option (index_entry st sid) (lookup (session_security st) sid)
      else lookup (security_index st) sid)"
  "index_writable st \<Longrightarrow> keys (security_index (save_session_security st)) = keys (session_security st)"
  using keys_map_pairs [of "index_entry st" "session_security st"]
  by (simp_all add: save_session_security_def lookup_map_pairs del: map_map)

lemma save_consistent: "tables_ok st \<Longrightarrow> consistent (save_session_security st)"
  unfolding consistent_def tables_ok_def file_ok_def save_frame index_entry_def
  by (intro conjI allI impI) (auto simp: saved_index index_entry_def simp del: set_map)

lemma load_entry_later: "load_entry w d = None \<Longrightarrow> w \<le> w' \<Longrightarrow> load_entry w' d = None"
  by (auto simp: load_entry_def split: option.splits if_splits)

text \<open>An operation that leaves contexts, times and file alone keeps both.\<close>

lemma consistent_frame:
  assumes "consistent st" "session_security st' = session_security st" "security_index st' = security_index st"
    and "wall st \<le> wall st'" and "index_writable st' = index_writable st" "index_readable st' = index_readable st"
    and "\<And>sid ctx. lookup (session_security st) sid = Some ctx \<Longrightarrow> lookup (security_ts st') sid = lookup (security_ts st) sid"
  shows "consistent st'"
proof -
  have "load_entry (wall st') d = None" if "load_entry (wall st) d = None" for d
    by (rule load_entry_later [OF that assms(4)])
  with assms(1) show ?thesis
    unfolding consistent_def tables_ok_def file_ok_def assms(2,3,5,6) by (simp add: assms(7))
qed

lemma set_security_consistent: "consistent st \<Longrightarrow> consistent (set_session_security sid ctx st)"
  unfolding set_session_security_def Let_def
  by (rule save_consistent) (auto simp: consistent_def tables_ok_def simp del: set_map)

lemma set_mode_consistent: "consistent st \<Longrightarrow> consistent (set_session_mode sid mode st)"
proof -
  assume c: "consistent st"
  have k: "consistent s'" if "session_security s' = session_security st" "security_index s' = security_index st"
    "wall s' = wall st" "security_ts s' = security_ts st" "index_writable s' = index_writable st"
    "index_readable s' = index_readable st" for s'
    by (rule consistent_frame [OF c]) (simp_all add: that)
  have "tables_ok s' \<Longrightarrow> consistent (save_session_security s')" for s' by (rule save_consistent)
  with k show ?thesis
    by (simp add: set_session_mode_def Let_def) (simp add: consistent_def)
qed

lemma cleanup_consistent: "consistent st \<Longrightarrow> consistent (cleanup_session sid st)"
proof -
  assume c: "consistent st"
  show ?thesis
  proof (cases "lookup (session_security st) sid")
    case None
    then have d: "dict_del sid (session_security st) = session_security st"
      by (metis dict_del_absent lookup_in_keys)
    show ?thesis
      by (rule consistent_frame [OF c])
        (use None d in \<open>auto simp: cleanup_session_def get_session_security_def Let_def\<close>)
  next
    case (Some ctx)
    then show ?thesis
      using c unfolding cleanup_session_def get_session_security_def Let_def option.simps if_True
      by (simp, intro save_consistent) (auto simp: consistent_def tables_ok_def distinct_dict_del simp del: set_map)
  qed
qed

lemma drop_consistent: "consistent st \<Longrightarrow> consistent (snd (drop_reloaded_contexts_of u st))"
proof -
  have "consistent s \<Longrightarrow> consistent (foldl (\<lambda>s sid. cleanup_session sid s) s ids)" for s ids
    by (induction ids arbitrary: s) (auto intro: cleanup_consistent)
  then show "consistent st \<Longrightarrow> ?thesis" by (simp add: drop_reloaded_contexts_of_def Let_def)
qed

lemma refresh_consistent: "consistent st \<Longrightarrow> consistent (snd (refresh_contexts due change st))"
proof -
  assume c: "consistent st"
  let ?f = "\<lambda>(sid, ctx). (sid, if due ctx then ctx\<lparr>sc_placement := change (sc_placement ctx)\<rparr> else ctx)"
  define st' where "st' = st\<lparr>session_security := map ?f (session_security st)\<rparr>"
  show ?thesis
  proof (cases "filter (\<lambda>(sid, ctx). due ctx) (session_security st) = []")
    case True
    then have "map ?f (session_security st) = session_security st"
      by (induction "session_security st") (auto intro!: map_idI simp: filter_empty_conv)
    with c True show ?thesis by (simp add: refresh_contexts_def)
  next
    case False
    have "tables_ok st'"
      using c keys_map_pairs [of "\<lambda>(sid::string) ctx. if due ctx then ctx\<lparr>sc_placement := change (sc_placement ctx)\<rparr> else ctx"]
      by (auto simp: consistent_def tables_ok_def st'_def lookup_map_pairs simp del: map_map set_map)
    then have "consistent (save_session_security st')" by (rule save_consistent)
    with False show ?thesis by (simp add: refresh_contexts_def Let_def st'_def)
  qed
qed

lemma live_frame [simp]:
  "session_security (snd (session_is_live sid st)) = session_security st"
  "security_ts (snd (session_is_live sid st)) = security_ts st"
  "security_index (snd (session_is_live sid st)) = security_index st"
  "reloaded_states (snd (session_is_live sid st)) = reloaded_states st"
  "session_modes (snd (session_is_live sid st)) = session_modes st"
  "headless_live (snd (session_is_live sid st)) = headless_live st"
  "registered (snd (session_is_live sid st)) = registered st"
  "index_writable (snd (session_is_live sid st)) = index_writable st"
  "index_readable (snd (session_is_live sid st)) = index_readable st"
  "wall (snd (session_is_live sid st)) = wall st" "now (snd (session_is_live sid st)) = now st"
  by (simp_all add: session_is_live_def sweep_liveness_def Let_def)

lemma judge_state:
  "snd (session_token_refusal claims st) =
     (case nonempty_str (dget claims ''sid'') of None \<Rightarrow> st | Some sid \<Rightarrow> snd (session_is_live sid st))"
  by (auto simp: session_token_refusal_def split: option.splits prod.splits bool.splits)

lemma live_tables_consistent:
  assumes "consistent st"
  shows "consistent (snd (session_is_live sid st))" "consistent (snd (session_token_refusal claims st))"
proof -
  show l: "consistent (snd (session_is_live sid st))" for sid
    by (rule consistent_frame [OF assms]) simp_all
  show "consistent (snd (session_token_refusal claims st))"
    by (cases "nonempty_str (dget claims ''sid'')") (simp_all add: judge_state assms l)
qed

lemma register_consistent: "consistent st \<Longrightarrow> consistent (register_session_state sid mode ctx minted st)"
proof -
  assume c: "consistent st"
  let ?s = "register_session_state sid mode None minted st"
  have "consistent ?s"
    by (rule consistent_frame [OF c]) (simp_all add: register_session_state_def Let_def)
  moreover have "register_session_state sid mode (Some x) minted st = set_session_security sid x ?s" for x
    by (simp add: register_session_state_def Let_def)
  ultimately show ?thesis by (cases ctx) (simp_all add: set_security_consistent)
qed

lemma restore_consistent: "consistent st \<Longrightarrow> consistent (restore_session_state sid mode floor st)"
proof -
  assume c: "consistent st"
  have "consistent s'" if "session_security s' = session_security st" "security_index s' = security_index st"
    "wall s' = wall st" "security_ts s' = security_ts st" "index_writable s' = index_writable st"
    "index_readable s' = index_readable st" for s'
    by (rule consistent_frame [OF c]) (simp_all add: that)
  moreover from this have "tables_ok s'" if "session_security s' = session_security st"
    "security_ts s' = security_ts st" "index_writable s' = index_writable st" "index_readable s' = index_readable st" for s'
    using c that by (simp add: consistent_def tables_ok_def)
  ultimately show ?thesis
    by (simp add: restore_session_state_def Let_def save_consistent)
qed

section \<open>A restart\<close>

text \<open>The load reads an index whose keys are distinct entry by entry.\<close>

lemma load_entries_spec:
  assumes "load_entries es (n, st) = (n', st')" "distinct (keys es)"
  shows "lookup (session_security st') sid =
      (case Option.bind (lookup es sid) (load_entry (wall st)) of
         None \<Rightarrow> lookup (session_security st) sid | Some (ctx, t, m, f) \<Rightarrow> Some ctx) \<and>
    lookup (security_ts st') sid =
      (case Option.bind (lookup es sid) (load_entry (wall st)) of
         None \<Rightarrow> lookup (security_ts st) sid | Some (ctx, t, m, f) \<Rightarrow> Some t) \<and>
    lookup (reloaded_states st') sid =
      (case Option.bind (lookup es sid) (load_entry (wall st)) of
         None \<Rightarrow> lookup (reloaded_states st) sid | Some (ctx, t, m, f) \<Rightarrow> Some (m, f)) \<and>
    (distinct (keys (session_security st)) \<longrightarrow> distinct (keys (session_security st'))) \<and>
    wall st' = wall st \<and> security_index st' = security_index st \<and>
    index_writable st' = index_writable st \<and> index_readable st' = index_readable st \<and>
    n \<le> n' \<and> (n' = n \<longrightarrow> st' = st \<and> (\<forall>kv \<in> set es. load_entry (wall st) (snd kv) = None))"
  using assms
proof (induction es "(n, st)" arbitrary: n st rule: load_entries.induct)
  case (2 k d rest n st)
  have k: "k = sid \<Longrightarrow> lookup rest sid = None" using 2(3) by (auto simp: lookup_None_iff)
  show ?case
  proof (cases "load_entry (wall st) d")
    case None
    with 2 show ?thesis by (cases "k = sid") (auto simp: k simp del: set_map)
  next
    case (Some p)
    obtain ctx t m f where p: "p = (ctx, t, m, f)" by (cases p) auto
    from 2(1) [OF _] Some p 2(2,3) show ?thesis
      by (cases "k = sid") (auto simp: k simp del: set_map split: option.splits)
  qed
qed auto

lemma restart_consistent:
  assumes c: "consistent st" and w: "wall st \<le> w"
  shows "consistent (restart t w st)"
proof -
  define es where "es = security_index st"
  define s0 where "s0 = (fresh_process es t w)\<lparr>index_writable := index_writable st, index_readable := index_readable st\<rparr>"
  have es: "distinct (keys es)" using c by (simp add: consistent_def file_ok_def es_def)
  obtain n s1 where l: "load_entries es (0, s0) = (n, s1)" by fastforce
  note spec = load_entries_spec [OF l es]
  have s0: "session_security s0 = []" "security_ts s0 = []" "wall s0 = w" "security_index s0 = es" "index_writable s0" "index_readable s0"
    using c by (simp_all add: s0_def fresh_process_def consistent_def tables_ok_def)
  have "index_writable s1" "index_readable s1" "distinct (keys (session_security s1))"
    using spec [of undefined] s0 by simp_all
  moreover have "\<exists>t. lookup (security_ts s1) x = Some t" if "lookup (session_security s1) x = Some cx" for x cx
    using that spec [of x] s0(1) by (auto split: option.splits)
  ultimately have tb: "tables_ok s1" by (simp add: tables_ok_def)
  have r: "restart t w st = (if n \<noteq> 0 then save_session_security s1 else s1)"
    using l s0(4-) by (simp add: restart_def load_session_security_def s0_def es_def)
  show ?thesis
  proof (cases "n = 0")
    case False
    with r tb show ?thesis by (simp add: save_consistent)
  next
    case True
    with spec have s1: "s1 = s0" and none: "\<And>kv. kv \<in> set es \<Longrightarrow> load_entry w (snd kv) = None"
      using s0(3) by auto
    have "file_ok s1"
      using es none unfolding file_ok_def s1 s0 by (auto dest!: lookup_SomeD simp del: set_map)
    with tb True r show ?thesis by (simp add: consistent_def)
  qed
qed

lemma exec_consistent: "disk_works c \<Longrightarrow> consistent st \<Longrightarrow> consistent (exec c st)"
proof (cases c)
  case (Disk takes gives)
  then show "disk_works c \<Longrightarrow> consistent st \<Longrightarrow> ?thesis"
    by (simp add: disk_works_def consistent_def tables_ok_def file_ok_def)
next
  case (Crash t s)
  then show "disk_works c \<Longrightarrow> consistent st \<Longrightarrow> ?thesis" by (simp add: restart_consistent)
next
  case (SetMode sid mode)
  then show "disk_works c \<Longrightarrow> consistent st \<Longrightarrow> ?thesis" by (simp add: set_mode_consistent)
qed (auto simp: register_consistent restore_consistent set_security_consistent cleanup_consistent drop_consistent
    refresh_target_allow_full_fs_def refresh_target_device_grants_def refresh_consistent live_tables_consistent
    mark_starting_def clear_starting_def mark_closing_def mark_headless_live_def clear_headless_live_def
    elim!: consistent_frame)

text \<open>After every operation of every run on a working disk the index file speaks for memory.\<close>

lemma reachable_consistent: "reachable_session st \<Longrightarrow> consistent st"
proof (induction rule: reachable_session.induct)
  case (first t w)
  show ?case by (simp add: consistent_def tables_ok_def file_ok_def fresh_process_def)
qed (rule exec_consistent)

section \<open>What a restart brings back\<close>

lemma load_saved_entry:
  "load_entry w (serialize_security_ctx ctx @ [(''_saved_at'', JNum t), (''_mode'', JStr m), (''_floor'', JNum f)]) =
     (if w - t > SECURITY_TTL_S \<or> principal ctx = ''external'' then None
      else Some (reloaded_ctx ctx, if t \<noteq> 0 then t else w, current_mode m, f))"
proof -
  let ?e = "serialize_security_ctx ctx @ [(''_saved_at'', JNum t), (''_mode'', JStr m), (''_floor'', JNum f)]"
  have d: "dget ?e ''_saved_at'' = Some (JNum t)" "dget ?e ''_mode'' = Some (JStr m)"
    "dget ?e ''_floor'' = Some (JNum f)" "dget ?e ''principal'' = Some (JStr (principal ctx))"
    by (simp_all add: serialize_security_ctx_def placement_json_def dget_Cons)
  have m: "opt_str (nonempty_str (Some (JStr m))) = m" by (cases m) (simp_all add: nonempty_str_def)
  show ?thesis
    unfolding load_entry_def d deserialize_entry m by (simp add: num_or_zero_def claim_int_def)
qed

lemma restart_lookup:
  assumes "consistent st"
  shows "lookup (session_security (restart t w st)) sid =
      map_option fst (Option.bind (lookup (security_index st) sid) (load_entry w))"
    and "lookup (reloaded_states (restart t w st)) sid =
      map_option (\<lambda>p. snd (snd p)) (map_option snd (map_option (Pair ()) (Option.bind (lookup (security_index st) sid) (load_entry w))))"
    and "token_floor (restart t w st) = []" "session_modes (restart t w st) = []"
proof -
  define es where "es = security_index st"
  define s0 where "s0 = (fresh_process es t w)\<lparr>index_writable := index_writable st, index_readable := index_readable st\<rparr>"
  have es: "distinct (keys es)" using assms by (simp add: consistent_def file_ok_def es_def)
  obtain n s1 where l: "load_entries es (0, s0) = (n, s1)" by fastforce
  note spec = load_entries_spec [OF l es, of sid]
  have s0: "session_security s0 = []" "reloaded_states s0 = []" "wall s0 = w" "security_index s0 = es" "index_writable s0" "index_readable s0"
    "token_floor s0 = []" "session_modes s0 = []"
    using assms by (simp_all add: s0_def fresh_process_def consistent_def tables_ok_def)
  have fl: "token_floor (snd (load_entries es a)) = token_floor (snd a)"
    "session_modes (snd (load_entries es a)) = session_modes (snd a)" for es a
    by (induction es a rule: load_entries.induct) (auto split: option.splits)
  have r: "restart t w st = (if n \<noteq> 0 then save_session_security s1 else s1)"
    using l s0(4-) by (simp add: restart_def load_session_security_def s0_def es_def)
  show "token_floor (restart t w st) = []" "session_modes (restart t w st) = []"
    using fl [of es "(0, s0)"] l r s0 by simp_all
  show "lookup (session_security (restart t w st)) sid =
      map_option fst (Option.bind (lookup (security_index st) sid) (load_entry w))"
    and "lookup (reloaded_states (restart t w st)) sid =
      map_option (\<lambda>p. snd (snd p)) (map_option snd (map_option (Pair ()) (Option.bind (lookup (security_index st) sid) (load_entry w))))"
    using spec s0 unfolding r by (auto simp: es_def split: option.splits)
qed

text \<open>C12. A session that is open when the proxy dies keeps being gated: in any state reachable while the disk takes and
  gives back the index file, a session with a context that is not an external visitor's and with a time not older
  than a session token lives has its context back after the restart, every field of it but the machine's
  reported display.\<close>
theorem session_survives_crash:
  assumes "reachable_session st" and "get_session_security sid st = Some ctx"
    and "lookup (security_ts st) sid = Some t0" and "w - t0 \<le> SECURITY_TTL_S" and "principal ctx \<noteq> ''external''"
  shows "get_session_security sid (restart t w st) = Some (reloaded_ctx ctx)"
proof -
  have c: "consistent st" using assms(1) by (rule reachable_consistent)
  then obtain m f where "lookup (security_index st) sid =
      Some (serialize_security_ctx ctx @ [(''_saved_at'', JNum t0), (''_mode'', JStr m), (''_floor'', JNum f)])"
    using assms(2,3) by (fastforce simp: consistent_def file_ok_def get_session_security_def)
  with assms(4,5) show ?thesis
    unfolding get_session_security_def restart_lookup(1) [OF c] by (simp add: load_saved_entry)
qed

section \<open>A closed session\<close>

definition opens :: "string \<Rightarrow> op \<Rightarrow> bool" where
  "opens sid c =
     (case c of Register s _ (Some _) _ \<Rightarrow> s = sid | SetSecurity s _ \<Rightarrow> s = sid | _ \<Rightarrow> False)"

lemma lookup_refreshed:
  "lookup (session_security (snd (refresh_contexts due change st))) sid =
     map_option (\<lambda>ctx. if due ctx then ctx\<lparr>sc_placement := change (sc_placement ctx)\<rparr> else ctx)
       (lookup (session_security st) sid)"
  using lookup_map_pairs [of "\<lambda>(sid::string) ctx. if due ctx then ctx\<lparr>sc_placement := change (sc_placement ctx)\<rparr> else ctx"]
  by (simp add: refresh_contexts_def Let_def)

lemma cleanup_lookup:
  "lookup (session_security (cleanup_session s st)) sid = (if sid = s then None else lookup (session_security st) sid)"
  by (simp add: cleanup_session_def Let_def)

lemma cleanup_all_lookup:
  "lookup (session_security (foldl (\<lambda>s sid. cleanup_session sid s) st ids)) sid =
     (if sid \<in> set ids then None else lookup (session_security st) sid)"
  by (induction ids arbitrary: st) (auto simp: cleanup_lookup)

text \<open>Neither memory nor the file has the session.\<close>

definition gone :: "string \<Rightarrow> session_state \<Rightarrow> bool" where
  "gone sid st = (lookup (session_security st) sid = None \<and> lookup (security_index st) sid = None)"

lemma gone_frame:
  "gone sid st \<Longrightarrow> session_security st' = session_security st \<Longrightarrow> security_index st' = security_index st \<Longrightarrow> gone sid st'"
  by (simp add: gone_def)

lemma gone_save: "gone sid st \<Longrightarrow> gone sid (save_session_security st)"
  by (simp add: gone_def saved_index)

lemma gone_set: "gone sid st \<Longrightarrow> s \<noteq> sid \<Longrightarrow> gone sid (set_session_security s ctx st)"
  unfolding set_session_security_def Let_def by (rule gone_save) (simp add: gone_def)

lemma gone_cleanup: "gone sid st \<Longrightarrow> gone sid (cleanup_session s st)"
proof -
  assume g: "gone sid st"
  have k: "gone sid s'" if "session_security s' = dict_del s (session_security st)" "security_index s' = security_index st" for s'
    using g that by (simp add: gone_def)
  show ?thesis by (simp add: cleanup_session_def Let_def k gone_save)
qed

lemma gone_cleanups: "gone sid st \<Longrightarrow> gone sid (foldl (\<lambda>s x. cleanup_session x s) st ids)"
  by (induction ids arbitrary: st) (auto intro: gone_cleanup)

lemma gone_refresh: "gone sid st \<Longrightarrow> gone sid (snd (refresh_contexts due change st))"
proof -
  assume g: "gone sid st"
  define st' where "st' = st\<lparr>session_security :=
      map (\<lambda>(sid, ctx). (sid, if due ctx then ctx\<lparr>sc_placement := change (sc_placement ctx)\<rparr> else ctx)) (session_security st)\<rparr>"
  have "gone sid st'"
    using g lookup_map_pairs [of "\<lambda>(sid::string) ctx. if due ctx then ctx\<lparr>sc_placement := change (sc_placement ctx)\<rparr> else ctx"]
    by (simp add: gone_def st'_def)
  then show ?thesis by (simp add: refresh_contexts_def Let_def gone_save flip: st'_def)
qed

lemma load_skips:
  "lookup es sid = None \<Longrightarrow> gone sid (snd a) \<Longrightarrow> gone sid (snd (load_entries es a))"
proof (induction es a rule: load_entries.induct)
  case (2 k d rest n st)
  then show ?case by (auto simp: gone_def split: option.splits if_splits)
qed simp

lemma gone_restart: "gone sid st \<Longrightarrow> gone sid (restart t w st)"
proof -
  assume g: "gone sid st"
  define s0 where "s0 = (fresh_process (security_index st) t w)\<lparr>index_writable := index_writable st, index_readable := index_readable st\<rparr>"
  have s0: "gone sid s0" "lookup (security_index s0) sid = None" using g by (simp_all add: s0_def gone_def fresh_process_def)
  obtain n s1 where l: "load_entries (security_index s0) (0, s0) = (n, s1)" by fastforce
  with load_skips [of "security_index s0" sid "(0, s0)"] s0 have "gone sid s1" by simp
  with s0(1) l show ?thesis by (simp add: restart_def load_session_security_def gone_save flip: s0_def)
qed

lemma stays_gone:
  assumes "gone sid st" "\<not> opens sid c"
  shows "gone sid (exec c st)"
proof (cases c)
  case (Register s m x i)
  let ?s = "register_session_state s m None i st"
  have "gone sid ?s" by (rule gone_frame [OF assms(1)]) (simp_all add: register_session_state_def Let_def)
  moreover have "register_session_state s m (Some y) i st = set_session_security s y ?s" for y
    by (simp add: register_session_state_def Let_def)
  ultimately show ?thesis using Register assms(2) by (cases x) (auto simp: opens_def gone_set)
next
  case (Restore s m f)
  have "gone sid s'" if "session_security s' = session_security st" "security_index s' = security_index st" for s'
    by (rule gone_frame [OF assms(1) that])
  then show ?thesis by (simp add: Restore restore_session_state_def Let_def gone_save)
next
  case (SetMode s m)
  have "gone sid s'" if "session_security s' = session_security st" "security_index s' = security_index st" for s'
    by (rule gone_frame [OF assms(1) that])
  then show ?thesis by (simp add: SetMode set_session_mode_def Let_def gone_save)
qed (use assms in \<open>auto simp: opens_def gone_set gone_cleanup gone_cleanups gone_restart gone_refresh
    drop_reloaded_contexts_of_def refresh_target_allow_full_fs_def refresh_target_device_grants_def Let_def
    mark_starting_def clear_starting_def mark_closing_def mark_headless_live_def clear_headless_live_def judge_state
    split: option.splits elim!: gone_frame\<close>)

text \<open>C11. A close is final: after the clean-up of a session whose rewrite of the index file landed (or whose id was not
  in the file), whatever runs (other sessions, sweeps, reads, writes of the file that fail, any number of
  crashes with restarts, on a file that can be read or not) until an operation gives that id a context again,
  the id has none, and a hook of the closed session has nothing to be judged under.\<close>
theorem closed_session_stays_closed:
  assumes "get_session_security sid st \<noteq> None \<and> index_writable st \<or> lookup (security_index st) sid = None"
    and "list_all (\<lambda>c. \<not> opens sid c) ops"
  shows "get_session_security sid (run ops (cleanup_session sid st)) = None"
proof -
  have "gone sid (cleanup_session sid st)"
    using assms(1) by (auto simp: cleanup_session_def Let_def gone_def saved_index get_session_security_def)
  moreover have "gone sid s \<Longrightarrow> list_all (\<lambda>c. \<not> opens sid c) cs \<Longrightarrow> gone sid (run cs s)" for cs s
    by (induction cs arbitrary: s) (auto simp: run_def stays_gone)
  ultimately show ?thesis using assms(2) by (simp add: gone_def get_session_security_def)
qed

text \<open>Where the close's rewrite fails, the file keeps the context and the next restart brings it back.\<close>

definition a_ctx :: security_context where
  "a_ctx =
     \<lparr>sc_role = ''editor'', sc_username = ''bob'', sc_agent = ''main'', sc_is_admin_agent = False,
      sc_display_name = [], sc_email = [],
      sc_placement = \<lparr>p_kind = KIND_LOCAL, machine_id = [], p_label = [], os = [], home_dir = [], agents_dir = [],
        os_user = [], allow_full_fs = False, claude_runtime_root = [], user_dirs = [], device_grants = [],
        has_display = None, reported_otodock_dir = [], mcps_dir = [], unresolved_home_dir = [],
        unresolved_otodock_dir = []\<rparr>,
      cli_session_id = [], session_scope = ''user'', sc_config_visible = None, sc_available_scopes = [],
      knowledge_libraries = [], knowledge_rw = False, principal = ''user'', external_channel = [], external_id = [], external_home = [],
      external_ephemeral = False, external_verified = False, external_claim = [],
      session_allowed_roots = [], sc_work_cwd = [], sc_read_only = False, ssh_hosts = None\<rparr>"

definition a_life :: "op list" where
  "a_life = [MarkStarting ''s'' 600000, Register ''s'' ''plan'' (Some a_ctx) 1000, LayerInsert ''s'', Tick 5000 5]"

lemma run_reachable: "reachable_session st \<Longrightarrow> list_all disk_works ops \<Longrightarrow> reachable_session (run ops st)"
  by (induction ops arbitrary: st) (auto simp: run_def intro: reachable_session.step)

lemma a_life_reachable: "reachable_session (run a_life (fresh_process [] 0 1000))"
  by (rule run_reachable [OF reachable_session.first]) (simp add: a_life_def disk_works_def)

lemma failed_close_returns:
  "get_session_security ''s'' (run [Disk False True, Cleanup ''s'', Disk True True, Crash 0 3]
     (run a_life (fresh_process [] 0 1000))) = Some a_ctx"
  by code_simp

theorem session_survives_crash_witness:
  "get_session_security ''s'' (restart 0 2000 (run a_life (fresh_process [] 0 1000))) = Some (reloaded_ctx a_ctx)"
proof -
  have "get_session_security ''s'' (run a_life (fresh_process [] 0 1000)) = Some a_ctx"
    "lookup (security_ts (run a_life (fresh_process [] 0 1000))) ''s'' = Some 1000" by code_simp+
  moreover have "2000 - 1000 \<le> SECURITY_TTL_S" "principal a_ctx \<noteq> ''external''" by code_simp+
  ultimately show ?thesis by (rule session_survives_crash [OF a_life_reachable])
qed

theorem closed_session_stays_closed_witness:
  "get_session_security ''s'' (run [SetMode ''s'' ''ask'', Crash 0 3, Disk False False, LayerInsert ''s'', Crash 7 9]
     (cleanup_session ''s'' (run a_life (fresh_process [] 0 1000)))) = None"
proof (rule closed_session_stays_closed)
  show "get_session_security ''s'' (run a_life (fresh_process [] 0 1000)) \<noteq> None \<and>
      index_writable (run a_life (fresh_process [] 0 1000)) \<or>
      lookup (security_index (run a_life (fresh_process [] 0 1000))) ''s'' = None"
    by code_simp
  show "list_all (\<lambda>c. \<not> opens ''s'' c) [SetMode ''s'' ''ask'', Crash 0 3, Disk False False, LayerInsert ''s'', Crash 7 9]"
    by code_simp
qed

section \<open>Tokens\<close>

definition ends_life :: "string \<Rightarrow> op \<Rightarrow> bool" where
  "ends_life sid c =
     (case c of Cleanup s \<Rightarrow> s = sid | Restore s _ _ \<Rightarrow> s = sid | Crash _ _ \<Rightarrow> True | _ \<Rightarrow> False)"

text \<open>A run in which the id is held at every moment and its life is neither ended nor begun again.\<close>

fun held_through :: "string \<Rightarrow> op list \<Rightarrow> session_state \<Rightarrow> bool" where
  "held_through sid [] st = session_is_held sid st"
| "held_through sid (c # cs) st = (session_is_held sid st \<and> \<not> ends_life sid c \<and> held_through sid cs (exec c st))"

lemma live_floor:
  "session_is_held sid st \<Longrightarrow>
    lookup (token_floor (snd (session_is_live s st))) sid = lookup (token_floor st) sid"
proof -
  assume h: "session_is_held sid st"
  have f: "lookup (filter (\<lambda>kv. P (fst kv)) kvs) sid = lookup kvs sid" if "P sid" for P and kvs :: "(string \<times> int) list"
    using that by (induction kvs) auto
  have "lookup (token_floor (sweep_liveness st)) sid = lookup (token_floor st) sid"
    unfolding sweep_liveness_def Let_def
    using h f [where P = "\<lambda>k. k \<in> set (keys (unexpired (now st) (starting st))) \<or>
        k \<in> set (keys (unexpired (now st) (closing st))) \<or> session_is_held k st"]
    by (simp add: session_is_held_def)
  then show ?thesis by (simp add: session_is_live_def Let_def)
qed

lemma cleanup_floor:
  "lookup (token_floor (cleanup_session s st)) sid = (if sid = s then None else lookup (token_floor st) sid)"
  by (simp add: cleanup_session_def Let_def)

lemma cleanup_all_floor:
  "lookup (token_floor (foldl (\<lambda>s sid. cleanup_session sid s) st ids)) sid =
     (if sid \<in> set ids then None else lookup (token_floor st) sid)"
  by (induction ids arbitrary: st) (auto simp: cleanup_floor)

lemma exec_floor:
  "session_is_held sid st \<Longrightarrow> \<not> ends_life sid c \<Longrightarrow> lookup (token_floor (exec c st)) sid = lookup (token_floor st) sid"
  by (cases c)
    (auto simp: ends_life_def register_session_state_def restore_session_state_def set_session_mode_def Let_def
      set_session_security_def cleanup_floor drop_reloaded_contexts_of_def cleanup_all_floor
      refresh_target_allow_full_fs_def refresh_target_device_grants_def refresh_contexts_def live_floor
      mark_starting_def clear_starting_def mark_closing_def mark_headless_live_def clear_headless_live_def judge_state
      split: option.splits)

text \<open>A token of an earlier life is dead while the id is held: from a state that holds the id with the
  floor of its current life, through any run that keeps holding it (a re-warm, mode changes, sweeps,
  machine refreshes, other sessions' closes), a token minted before the floor is refused as stale.\<close>
theorem earlier_life_token_refused:
  assumes "lookup (token_floor st) sid = Some life" and "held_through sid ops st"
    and "nonempty_str (dget claims ''sid'') = Some sid" and "claim_int (dget claims ''iat'') = Some iat" and "iat < life"
  shows "fst (session_token_refusal claims (run ops st)) = Stale"
proof -
  have k: "held_through sid cs s \<Longrightarrow> session_is_held sid (run cs s) \<and>
      lookup (token_floor (run cs s)) sid = lookup (token_floor s) sid" for cs s
    by (induction cs arbitrary: s) (auto simp: run_def exec_floor)
  define e where "e = run ops st"
  have h: "session_is_held sid e" and f: "lookup (token_floor e) sid = Some life"
    using k [OF assms(2)] assms(1) by (simp_all add: e_def)
  have ne: "sid \<noteq> []" using h by (simp add: session_is_held_def)
  have "session_is_held sid (sweep_liveness e)"
    using h by (simp add: session_is_held_def sweep_liveness_def Let_def)
  then obtain e' where live: "session_is_live sid e = (True, e')"
    using ne by (simp add: session_is_live_def Let_def)
  then have "session_is_held sid e'" "lookup (token_floor e') sid = Some life"
    using h live_floor [OF h, of sid] f live_frame [of sid e] by (simp_all add: session_is_held_def)
  with live assms(3-5) show ?thesis
    unfolding e_def [symmetric] session_token_refusal_def by (simp add: judge_iat_def)
qed

definition second_life :: session_state where
  "second_life = (fresh_process [] 70000 1000)\<lparr>registered := [''s''], token_floor := [(''s'', 1000)]\<rparr>"

theorem earlier_life_token_refused_witness:
  "fst (session_token_refusal [(''sid'', JStr ''s''), (''iat'', JNum 990)]
     (run [AskLive ''s'', Register ''s'' ''ask'' None 0] second_life)) = Stale"
  by (rule earlier_life_token_refused [of _ "''s''" 1000 _ _ 990]; code_simp)

text \<open>The floor of a life outlives the proxy: a session registered as a new life with its context, the
  proxy dead and back with a clock inside the token's time, is remembered with its mode and its floor,
  and a token minted before that floor is not accepted before the session is taken back.\<close>
theorem restart_keeps_the_life:
  assumes "reachable_session st" and "\<not> session_is_held sid st" and "minted \<noteq> 0" and "principal ctx \<noteq> ''external''"
    and "wall st \<le> w" and "w \<le> wall st + SECURITY_TTL_S"
    and "claim_int (dget claims ''iat'') = Some iat" and "iat < minted" and "nonempty_str (dget claims ''sid'') = Some sid"
    and st'_def: "st' = restart t w (register_session_state sid mode (Some ctx) minted st)"
  shows "recorded_session_mode sid st' = current_mode mode \<and> snd (reloaded_state sid st') = minted \<and>
    fst (session_token_refusal claims st') \<noteq> Accepted"
proof -
  define r where "r = register_session_state sid mode (Some ctx) minted st"
  define ctx' where "ctx' = (if cli_session_id ctx = [] \<and> is_uuid sid then ctx\<lparr>cli_session_id := lower sid\<rparr> else ctx)"
  have c': "principal ctx' = principal ctx" by (simp add: ctx'_def)
  have i': "lookup (security_index r) sid = Some (serialize_security_ctx ctx' @
      [(''_saved_at'', JNum (wall st)), (''_mode'', JStr (current_mode mode)), (''_floor'', JNum minted)])"
    using assms(2,3) reachable_consistent [OF assms(1)]
    unfolding r_def register_session_state_def set_session_security_def Let_def consistent_def tables_ok_def
    by (simp add: saved_index index_entry_def ctx'_def)
  have cr: "consistent r" unfolding r_def by (rule register_consistent [OF reachable_consistent [OF assms(1)]])
  have "lookup (reloaded_states st') sid = Some (current_mode (current_mode mode), minted)"
    unfolding st'_def r_def [symmetric] restart_lookup(2) [OF cr] i'
    using assms(4,6) c' by (simp add: load_saved_entry)
  then have k: "reloaded_state sid st' = (current_mode mode, minted)"
    by (simp add: reloaded_state_def current_mode_idem)
  have z: "session_modes st' = []" "token_floor st' = []"
    unfolding st'_def r_def [symmetric] using restart_lookup(3,4) [OF cr] by simp_all
  obtain b e where live: "session_is_live sid st' = (b, e)" by fastforce
  have "token_floor (snd (session_is_live sid st')) = []"
    using z by (simp add: session_is_live_def sweep_liveness_def Let_def)
  with live have "token_floor e = []" by simp
  moreover have "reloaded_state sid e = (current_mode mode, minted)"
    using k live live_frame(4) [of sid st'] by (simp add: reloaded_state_def)
  ultimately have "judge_iat sid iat e = Stale"
    using assms(3,8) by (simp add: judge_iat_def)
  with live assms(7,9) have "fst (session_token_refusal claims st') \<noteq> Accepted"
    by (cases b) (simp_all add: session_token_refusal_def)
  with k z show ?thesis by (simp add: recorded_session_mode_def)
qed

theorem restart_keeps_the_life_witness:
  "recorded_session_mode ''s'' (restart 5 2000 (register_session_state ''s'' ''plan'' (Some a_ctx) 1500 (fresh_process [] 0 1600))) = ''plan''"
proof -
  have "reachable_session (fresh_process [] 0 1600)"
    by (rule reachable_session.first)
  moreover have "\<not> session_is_held ''s'' (fresh_process [] 0 1600)" "principal a_ctx \<noteq> ''external''"
    "wall (fresh_process [] 0 1600) \<le> 2000" "2000 \<le> wall (fresh_process [] 0 1600) + SECURITY_TTL_S"
    "claim_int (dget [(''sid'', JStr ''s''), (''iat'', JNum 1200)] ''iat'') = Some 1200"
    "nonempty_str (dget [(''sid'', JStr ''s''), (''iat'', JNum 1200)] ''sid'') = Some ''s''"
    "current_mode ''plan'' = ''plan''" by code_simp+
  ultimately show ?thesis
    using restart_keeps_the_life [of "fresh_process [] 0 1600" "''s''" 1500 a_ctx 2000
        "[(''sid'', JStr ''s''), (''iat'', JNum 1200)]" 1200 _ 5 "''plan''"] by simp
qed

end
