(* ===== verification/PromptWaits.thy ===== *)
theory PromptWaits
  imports Prelude
begin

text \<open>
  The prompts that wait on a person (\<open>core/session/session_state.py\<close>): the request ids that can be
  answered, the answers taken, the index by which an abort or a close releases a session's prompts, and
  the watch that tells a prompt nobody answered. An asyncio event is the flag it sets; a wait is its
  opening (\<open>open_permission_wait\<close>) and its end, which the code's \<open>finally\<close> makes the same for an answer,
  a time-out and a cancellation.
\<close>

section \<open>The tables\<close>

record prompts =
  permission_events :: "(string \<times> bool) list"
  permission_decisions :: "(string \<times> bool) list"
  session_permission_requests :: "(string \<times> string list) list"
  permission_request_sessions :: "(string \<times> string) list"
  prompt_watch :: "(string \<times> bool) list"

definition no_prompts :: prompts where
  "no_prompts = \<lparr>permission_events = [], permission_decisions = [], session_permission_requests = [],
     permission_request_sessions = [], prompt_watch = []\<rparr>"

definition PROMPT_WAIT_S :: nat where "PROMPT_WAIT_S = 3 * 24 * 3600"

definition requests_of :: "string \<Rightarrow> prompts \<Rightarrow> string list" where
  "requests_of sid p = (case lookup (session_permission_requests p) sid of None \<Rightarrow> [] | Some rids \<Rightarrow> rids)"

definition prompt_waits :: "string \<Rightarrow> prompts \<Rightarrow> bool" where
  "prompt_waits rid p = (lookup (permission_events p) rid \<noteq> None)"

definition has_pending_prompt :: "string \<Rightarrow> prompts \<Rightarrow> bool" where
  "has_pending_prompt sid p = list_ex (\<lambda>rid. prompt_waits rid p) (requests_of sid p)"

definition prompt_answered :: "string \<Rightarrow> prompts \<Rightarrow> bool" where
  "prompt_answered rid p = (lookup (permission_events p) rid = Some True)"

definition get_permission_request_session :: "string \<Rightarrow> prompts \<Rightarrow> string option" where
  "get_permission_request_session rid p = lookup (permission_request_sessions p) rid"

section \<open>Operations\<close>

definition open_permission_wait :: "string \<Rightarrow> string \<Rightarrow> prompts \<Rightarrow> prompts" where
  "open_permission_wait rid sid p =
     (let p1 = (if lookup (permission_events p) rid = None
                then p\<lparr>permission_events := dict_set rid False (permission_events p)\<rparr> else p)
      in if sid \<noteq> [] then
           p1\<lparr>session_permission_requests :=
                dict_set sid (List.insert rid (requests_of sid p)) (session_permission_requests p1),
              permission_request_sessions := dict_set rid sid (permission_request_sessions p1)\<rparr>
         else p1)"

definition watch_prompt :: "string \<Rightarrow> prompts \<Rightarrow> prompts" where
  "watch_prompt rid p = p\<lparr>prompt_watch := dict_set rid False (prompt_watch p)\<rparr>"

definition took_no_answer :: "string \<Rightarrow> prompts \<Rightarrow> bool \<times> prompts" where
  "took_no_answer rid p =
     (lookup (prompt_watch p) rid = Some True, p\<lparr>prompt_watch := dict_del rid (prompt_watch p)\<rparr>)"

definition note_no_answer :: "string \<Rightarrow> prompts \<Rightarrow> prompts" where
  "note_no_answer rid p =
     (if lookup (prompt_watch p) rid \<noteq> None then p\<lparr>prompt_watch := dict_set rid True (prompt_watch p)\<rparr> else p)"

definition resolve_permission :: "string \<Rightarrow> bool \<Rightarrow> prompts \<Rightarrow> bool \<times> prompts" where
  "resolve_permission rid approved p =
     (if lookup (permission_events p) rid = Some False then
        (True, p\<lparr>permission_decisions := dict_set rid approved (permission_decisions p),
                 permission_events := dict_set rid True (permission_events p)\<rparr>)
      else (False, p))"

text \<open>The release of a session's prompts: how many it took, over its ids in any order.\<close>

fun release :: "string list \<Rightarrow> bool \<Rightarrow> nat \<times> prompts \<Rightarrow> nat \<times> prompts" where
  "release [] approved (n, p) = (n, p)"
| "release (rid # rids) approved (n, p) =
     (case resolve_permission rid approved (note_no_answer rid p) of
        (took, p') \<Rightarrow> release rids approved (if took then n + 1 else n, p'))"

definition resolve_session_permissions :: "string \<Rightarrow> bool \<Rightarrow> prompts \<Rightarrow> nat \<times> prompts" where
  "resolve_session_permissions sid approved p =
     (case release (requests_of sid p) approved (0, p) of
        (n, p') \<Rightarrow> (n, p'\<lparr>session_permission_requests := dict_del sid (session_permission_requests p')\<rparr>))"

text \<open>The end of a wait. \<open>Answered\<close>: the event was set; the decision is taken, and approves where there
  is none. \<open>RanOut\<close>: the time-out. \<open>Cancelled\<close>: the waiter's task was cancelled and returns nothing.\<close>

datatype wait_end = Answered | RanOut | Cancelled

definition close_wait :: "string \<Rightarrow> string \<Rightarrow> prompts \<Rightarrow> prompts" where
  "close_wait rid sid p =
     (let p1 = p\<lparr>permission_events := dict_del rid (permission_events p)\<rparr>
      in if sid \<noteq> [] then
           p1\<lparr>permission_request_sessions := dict_del rid (permission_request_sessions p1),
              session_permission_requests :=
                (case lookup (session_permission_requests p1) sid of
                   None \<Rightarrow> session_permission_requests p1
                 | Some rids \<Rightarrow>
                     (let left = removeAll rid rids in
                      if left = [] then dict_del sid (session_permission_requests p1)
                      else dict_set sid left (session_permission_requests p1)))\<rparr>
         else p1)"

definition end_wait :: "string \<Rightarrow> string \<Rightarrow> wait_end \<Rightarrow> prompts \<Rightarrow> bool option \<times> prompts" where
  "end_wait rid sid how p =
     (case how of
        Answered \<Rightarrow>
          (Some (case lookup (permission_decisions p) rid of None \<Rightarrow> True | Some a \<Rightarrow> a),
           close_wait rid sid (p\<lparr>permission_decisions := dict_del rid (permission_decisions p)\<rparr>))
      | RanOut \<Rightarrow> (Some False, close_wait rid sid (note_no_answer rid p))
      | Cancelled \<Rightarrow> (None, close_wait rid sid p))"

section \<open>Runs\<close>

text \<open>A run of the tables: \<open>answers\<close> logs every answer that was taken (a person's, or a release's), the
  open waits are those whose end has not come. A request id has one waiter: the ids are random, one per
  card. A wait that ends as answered ends because its event was set.\<close>

record wait_run =
  tables :: prompts
  waiting :: "(string \<times> string) list"
  answers :: "(string \<times> bool) list"
  verdicts :: "(string \<times> bool) list"

inductive wait_step :: "wait_run \<Rightarrow> wait_run \<Rightarrow> bool" where
  opens: "wait_step r (r\<lparr>tables := open_permission_wait rid sid (tables r)\<rparr>)"
| waits: "rid \<notin> fst ` set (waiting r) \<Longrightarrow>
     wait_step r (r\<lparr>tables := open_permission_wait rid sid (tables r), waiting := (rid, sid) # waiting r\<rparr>)"
| watches: "wait_step r (r\<lparr>tables := watch_prompt rid (tables r)\<rparr>)"
| unwatches: "wait_step r (r\<lparr>tables := snd (took_no_answer rid (tables r))\<rparr>)"
| answered: "resolve_permission rid a (tables r) = (True, p) \<Longrightarrow>
     wait_step r (r\<lparr>tables := p, answers := (rid, a) # answers r\<rparr>)"
| released: "resolve_session_permissions sid False (tables r) = (n, p) \<Longrightarrow>
     wait_step r (r\<lparr>tables := p, answers := map (\<lambda>rid. (rid, False)) (requests_of sid (tables r)) @ answers r\<rparr>)"
| ends: "(rid, sid) \<in> set (waiting r) \<Longrightarrow> how = Answered \<Longrightarrow> prompt_answered rid (tables r) \<Longrightarrow>
     end_wait rid sid how (tables r) = (Some v, p) \<Longrightarrow>
     wait_step r (r\<lparr>tables := p, waiting := removeAll (rid, sid) (waiting r), verdicts := (rid, v) # verdicts r\<rparr>)"
| runs_out: "(rid, sid) \<in> set (waiting r) \<Longrightarrow> end_wait rid sid RanOut (tables r) = (Some v, p) \<Longrightarrow>
     wait_step r (r\<lparr>tables := p, waiting := removeAll (rid, sid) (waiting r), verdicts := (rid, v) # verdicts r\<rparr>)"
| is_cancelled: "(rid, sid) \<in> set (waiting r) \<Longrightarrow> end_wait rid sid Cancelled (tables r) = (v, p) \<Longrightarrow>
     wait_step r (r\<lparr>tables := p, waiting := removeAll (rid, sid) (waiting r)\<rparr>)"

inductive wait_reaches :: "wait_run \<Rightarrow> bool" where
  start: "wait_reaches \<lparr>tables = no_prompts, waiting = [], answers = [], verdicts = []\<rparr>"
| more_steps: "wait_reaches r \<Longrightarrow> wait_step r r' \<Longrightarrow> wait_reaches r'"

definition waits_ok :: "wait_run \<Rightarrow> bool" where
  "waits_ok r =
     ((\<forall>rid. lookup (permission_events (tables r)) rid = Some True \<longrightarrow>
         (\<exists>a. lookup (permission_decisions (tables r)) rid = Some a)) \<and>
      (\<forall>rid a. lookup (permission_decisions (tables r)) rid = Some a \<longrightarrow> (rid, a) \<in> set (answers r)) \<and>
      (\<forall>rid. (rid, True) \<in> set (verdicts r) \<longrightarrow> (rid, True) \<in> set (answers r)))"

lemma note_frame [simp]:
  "permission_events (note_no_answer rid p) = permission_events p"
  "permission_decisions (note_no_answer rid p) = permission_decisions p"
  "session_permission_requests (note_no_answer rid p) = session_permission_requests p"
  "permission_request_sessions (note_no_answer rid p) = permission_request_sessions p"
  by (simp_all add: note_no_answer_def)

lemma open_lookup:
  "lookup (permission_events (open_permission_wait rid sid p)) x =
     (if x = rid \<and> lookup (permission_events p) rid = None then Some False else lookup (permission_events p) x)"
  "permission_decisions (open_permission_wait rid sid p) = permission_decisions p"
  by (simp_all add: open_permission_wait_def Let_def)

lemma close_lookup:
  "lookup (permission_events (close_wait rid sid p)) x = (if x = rid then None else lookup (permission_events p) x)"
  "permission_decisions (close_wait rid sid p) = permission_decisions p"
  by (simp_all add: close_wait_def Let_def)

text \<open>The release sets every open event of its ids and leaves the answers that were there.\<close>

lemma release_spec:
  "release rids a (n, p) = (n', p') \<Longrightarrow>
    (\<forall>x. lookup (permission_events p') x =
       (if x \<in> set rids \<and> lookup (permission_events p) x = Some False then Some True else lookup (permission_events p) x)) \<and>
    (\<forall>x. lookup (permission_decisions p') x =
       (if x \<in> set rids \<and> lookup (permission_events p) x = Some False then Some a else lookup (permission_decisions p) x)) \<and>
    session_permission_requests p' = session_permission_requests p \<and>
    permission_request_sessions p' = permission_request_sessions p"
proof (induction rids arbitrary: n p)
  case (Cons rid rids)
  obtain took q where q: "resolve_permission rid a (note_no_answer rid p) = (took, q)" by fastforce
  with Cons.prems have "release rids a (if took then n + 1 else n, q) = (n', p')" by simp
  note ih = Cons.IH [OF this]
  have ev: "lookup (permission_events q) x =
      (if x = rid \<and> lookup (permission_events p) rid = Some False then Some True else lookup (permission_events p) x)"
    and de: "lookup (permission_decisions q) x =
      (if x = rid \<and> lookup (permission_events p) rid = Some False then Some a else lookup (permission_decisions p) x)"
    and "session_permission_requests q = session_permission_requests p"
    and "permission_request_sessions q = permission_request_sessions p" for x
    using q by (auto simp: resolve_permission_def split: if_splits)
  then show ?case using ih by (auto simp: ev de)
qed simp

lemma wait_step_ok: "wait_step r r' \<Longrightarrow> waits_ok r \<Longrightarrow> waits_ok r'"
proof (induction rule: wait_step.induct)
  case (answered rid a r p)
  then show ?case by (auto simp: waits_ok_def resolve_permission_def split: if_splits)
next
  case (released sid r n p)
  then obtain q where q: "release (requests_of sid (tables r)) False (0, tables r) = (n, q)"
    and p: "p = q\<lparr>session_permission_requests := dict_del sid (session_permission_requests q)\<rparr>"
    by (auto simp: resolve_session_permissions_def split: prod.splits)
  from released(2) release_spec [OF q] show ?case
    by (auto simp: waits_ok_def p split: if_splits)
next
  case (ends rid sid r how v p)
  then show ?case
    by (auto simp: waits_ok_def end_wait_def close_lookup prompt_answered_def split: option.splits if_splits)
next
  case (runs_out rid sid r v p)
  then show ?case by (auto simp: waits_ok_def end_wait_def close_lookup split: if_splits)
next
  case (is_cancelled rid sid r v p)
  then show ?case by (auto simp: waits_ok_def end_wait_def close_lookup split: if_splits)
qed (auto simp: waits_ok_def open_lookup watch_prompt_def took_no_answer_def)

lemma wait_reaches_ok: "wait_reaches r \<Longrightarrow> waits_ok r"
proof (induction rule: wait_reaches.induct)
  case start
  show ?case by (simp add: waits_ok_def no_prompts_def)
qed (rule wait_step_ok)

section \<open>Properties\<close>

text \<open>C13. Only an answer approves: in every run of the tables, a wait that tells its hook the call is
  approved had an approving answer, taken by \<open>resolve_permission\<close> for its own request id. A wait that
  runs out, a release by an abort or a close, and a stale answer to another id never approve.\<close>
theorem only_an_answer_approves:
  assumes "wait_reaches r" and "(rid, True) \<in> set (verdicts r)"
  shows "(rid, True) \<in> set (answers r)"
  using wait_reaches_ok [OF assms(1)] assms(2) by (simp add: waits_ok_def)

text \<open>C32. An abort or a close strands nobody: it sets the event of every prompt of the session that still
  waits, with a refusal, and changes no answer a person had already given.\<close>
theorem release_strands_nobody:
  assumes "resolve_session_permissions sid False p = (n, p')" and "rid \<in> set (requests_of sid p)" and "prompt_waits rid p"
  shows "prompt_answered rid p' \<and> requests_of sid p' = [] \<and>
    (\<not> prompt_answered rid p \<longrightarrow> fst (end_wait rid s Answered p') = Some False) \<and>
    (prompt_answered rid p \<longrightarrow> fst (end_wait rid s Answered p') = fst (end_wait rid s Answered p))"
proof -
  obtain q where q: "release (requests_of sid p) False (0, p) = (n, q)"
    and p': "p' = q\<lparr>session_permission_requests := dict_del sid (session_permission_requests q)\<rparr>"
    using assms(1) by (auto simp: resolve_session_permissions_def split: prod.splits)
  obtain b where b: "lookup (permission_events p) rid = Some b"
    using assms(3) by (auto simp: prompt_waits_def)
  show ?thesis
    using release_spec [OF q] assms(2) b
    by (cases b) (auto simp: p' prompt_answered_def requests_of_def end_wait_def)
qed

definition two_cards :: prompts where
  "two_cards = snd (resolve_permission ''r1'' True (open_permission_wait ''r2'' ''s'' (open_permission_wait ''r1'' ''s'' no_prompts)))"

theorem release_strands_nobody_witness:
  "prompt_answered ''r2'' (snd (resolve_session_permissions ''s'' False two_cards))"
  by (rule conjunct1 [OF release_strands_nobody [where sid = "''s''" and p = two_cards and s = "''s''" and
        n = "fst (resolve_session_permissions ''s'' False two_cards)"]]; code_simp)

definition one_card :: wait_run where
  "one_card = \<lparr>tables = open_permission_wait ''r1'' ''s'' no_prompts, waiting = [(''r1'', ''s'')], answers = [], verdicts = []\<rparr>"

theorem only_an_answer_approves_witness:
  "\<exists>r. wait_reaches r \<and> (''r1'', True) \<in> set (verdicts r) \<and> (''r1'', True) \<in> set (answers r)"
proof -
  let ?p = "snd (resolve_permission ''r1'' True (tables one_card))"
  let ?a = "one_card\<lparr>tables := ?p, answers := [(''r1'', True)]\<rparr>"
  let ?q = "snd (end_wait ''r1'' ''s'' Answered ?p)"
  let ?b = "?a\<lparr>tables := ?q, waiting := removeAll (''r1'', ''s'') [(''r1'', ''s'')], verdicts := [(''r1'', True)]\<rparr>"
  have "wait_reaches one_card"
    using more_steps [OF start waits [of "''r1''" _ "''s''"]] by (simp add: one_card_def)
  moreover have "wait_step one_card ?a"
    using answered [of "''r1''" True one_card ?p] by (simp add: one_card_def resolve_permission_def open_lookup no_prompts_def)
  moreover have "end_wait ''r1'' ''s'' Answered ?p = (Some True, ?q)" "prompt_answered ''r1'' ?p" by code_simp+
  then have "wait_step ?a ?b"
    using ends [of "''r1''" "''s''" ?a Answered True ?q] by (simp add: one_card_def)
  ultimately have "wait_reaches ?b" by (meson more_steps)
  moreover have "(''r1'', True) \<in> set (verdicts ?b)" by simp
  ultimately show ?thesis using only_an_answer_approves by blast
qed

text \<open>What the default of the decision would do without one waiter per id: a second waiter that saw the
  event set finds the decision taken, and is told the call is approved, of a prompt that was refused.\<close>

lemma second_waiter_is_approved:
  "fst (end_wait rid sid Answered (snd (end_wait rid sid' Answered p))) = Some True"
  by (simp add: end_wait_def close_lookup)

text \<open>A release counts a prompt that a person has just answered as one nobody answered.\<close>

lemma answered_prompt_reads_unanswered:
  "fst (took_no_answer ''r1'' (snd (resolve_session_permissions ''s'' False
     (snd (resolve_permission ''r1'' True (watch_prompt ''r1'' (open_permission_wait ''r1'' ''s'' no_prompts)))))))"
  by code_simp

end
