(* ===== verification/PyGlob.thy ===== *)
theory PyGlob
  imports PyRegex
begin

text \<open>
  \<open>fnmatch.fnmatchcase\<close> of the standard library: a shell pattern is translated into a regular
  expression (\<open>*\<close>, \<open>?\<close>, \<open>[seq]\<close>, \<open>[!seq]\<close>) that must match the whole name. Names and patterns are
  ASCII here, a character is a byte.
\<close>

text \<open>The body of a bracket is cut at the hyphens that make a range: not at its first character, and
  not right after the end of another range.\<close>

definition hyphen_from :: "nat \<Rightarrow> string \<Rightarrow> nat option" where
  "hyphen_from n s =
     (if CHR ''-'' \<in> set (drop n s) then Some (n + length (takeWhile (\<lambda>c. c \<noteq> CHR ''-'') (drop n s))) else None)"

lemma takeWhile_less: "c \<in> set s \<Longrightarrow> length (takeWhile (\<lambda>x. x \<noteq> c) s) < length s"
  by (induction s) auto

lemma hyphen_from_less: "hyphen_from n s = Some k \<Longrightarrow> k < length s"
  using takeWhile_less [of "CHR ''-''" "drop n s"] by (auto simp: hyphen_from_def split: if_splits)

function glob_chunks :: "nat \<Rightarrow> string \<Rightarrow> string list" where
  "glob_chunks n s =
     (case hyphen_from n s of
        None \<Rightarrow> [s]
      | Some k \<Rightarrow> take k s # glob_chunks 2 (drop (k + 1) s))"
  by pat_completeness auto
termination by (relation "measure (\<lambda>(_, s). length s)") (auto dest: hyphen_from_less)

declare glob_chunks.simps [simp del]

text \<open>A hyphen at the very end is itself; a range whose ends are the wrong way round is dropped.\<close>

fun keep_last_hyphen :: "string list \<Rightarrow> string list" where
  "keep_last_hyphen [] = []"
| "keep_last_hyphen [a] = [a]"
| "keep_last_hyphen [a, b] = (if b = [] then [a @ ''-''] else [a, b])"
| "keep_last_hyphen (a # b # c # cs) = a # keep_last_hyphen (b # c # cs)"

definition char_le :: "char \<Rightarrow> char \<Rightarrow> bool" where
  "char_le a b = ((of_char a :: nat) \<le> of_char b)"

fun drop_empty_ranges :: "string list \<Rightarrow> string list" where
  "drop_empty_ranges [] = []"
| "drop_empty_ranges (a # cs) =
     (case drop_empty_ranges cs of
        [] \<Rightarrow> [a]
      | b # ds \<Rightarrow> if \<not> char_le (last a) (hd b) then (butlast a @ tl b) # ds else a # b # ds)"

fun in_ranges :: "char \<Rightarrow> string list \<Rightarrow> bool" where
  "in_ranges c [] = False"
| "in_ranges c [a] = (c \<in> set a)"
| "in_ranges c (a # b # ds) =
     (c \<in> set a \<or> (char_le (last a) c \<and> char_le c (hd b)) \<or> in_ranges c (b # ds))"

definition bracket :: "string \<Rightarrow> char \<Rightarrow> bool" where
  "bracket body c = in_ranges c (drop_empty_ranges (keep_last_hyphen (glob_chunks 1 body)))"

text \<open>What follows a \<open>[\<close>: whether the set is negated, its body and the rest; nothing when no \<open>]\<close>
  closes it, a \<open>]\<close> right at the start being one of the set.\<close>

definition bracket_parts :: "string \<Rightarrow> (bool \<times> string \<times> string) option" where
  "bracket_parts r =
     (let neg = starts_with r ''!''; b = (if neg then drop 1 r else r);
          n = (if starts_with b '']'' then 1 else 0)
      in if CHR '']'' \<in> set (drop n b)
         then Some (neg, take n b @ before (CHR '']'') (drop n b), after (CHR '']'') (drop n b))
         else None)"

lemma after_length: "length (after c s) \<le> length s"
  unfolding after_def by (metis length_drop length_dropWhile_le diff_le_self order_trans)

lemma bracket_parts_less: "bracket_parts r = Some (neg, body, rest) \<Longrightarrow> length rest \<le> length r"
  using after_length [of "CHR '']''"]
  by (fastforce simp: bracket_parts_def Let_def split: if_splits intro: order_trans [OF after_length])

function glob_regex :: "string \<Rightarrow> regex" where
  "glob_regex [] = Eps"
| "glob_regex (c # cs) =
     (if c = CHR ''*'' then Seq (Star any_char) (glob_regex cs)
      else if c = CHR ''?'' then Seq any_char (glob_regex cs)
      else if c = CHR ''['' then
        (case bracket_parts cs of
           None \<Rightarrow> Seq (Chr (\<lambda>x. x = c)) (glob_regex cs)
         | Some (neg, body, rest) \<Rightarrow> Seq (Chr (\<lambda>x. bracket body x \<noteq> neg)) (glob_regex rest))
      else Seq (Chr (\<lambda>x. x = c)) (glob_regex cs))"
  by pat_completeness auto
termination by (relation "measure length") (auto simp: less_Suc_eq_le dest: bracket_parts_less)

declare glob_regex.simps [simp del]

definition fnmatchcase :: "string \<Rightarrow> string \<Rightarrow> bool" where
  "fnmatchcase name pat = re_fullmatch (glob_regex pat) name"

end
