(* ===== verification/McpTiers.thy ===== *)
theory McpTiers
  imports PermissionModes PyGlob "HOL-Library.List_Lexorder" "HOL-Library.Char_ord"
begin

text \<open>
  The permission tier of an MCP tool (\<open>services/mcp/mcp_permissions.py\<close>, and the \<open>permissions\<close> block of
  a manifest in \<open>services/mcp/mcp_manifest_parse.py\<close>): the parsed and bounded block, the tools' own
  hints, the tier they resolve to and what the tier means in a mode. The manifests in the registry's
  order, the hints the platform read and the file system are the record \<open>mcp_world\<close>.
\<close>

section \<open>The block of a manifest\<close>

definition PERMISSION_TIERS :: "string list" where
  "PERMISSION_TIERS = [''open'', ''standard'', ''sensitive'', ''critical'']"

record permission_rule =
  pr_tool :: string
  pr_tier :: string

record permissions_block =
  pb_default_tier :: string
  pb_rules :: "permission_rule list"

text \<open>The structural defects a block is refused for.\<close>

datatype block_error =
    NotAnObject | BadDefaultTier | RulesNotAList | RuleNotAnObject nat | RuleTool nat | RuleToolPrefixed nat
  | RuleTier nat | RuleUnknownKeys nat | RuleDuplicate nat

definition is_glob :: "string \<Rightarrow> bool" where
  "is_glob pattern = list_ex (\<lambda>c. c \<in> {CHR ''*'', CHR ''?'', CHR ''[''}) pattern"

definition one_tier :: "json option \<Rightarrow> string option" where
  "one_tier v = (case v of Some (JStr s) \<Rightarrow> if s \<in> set PERMISSION_TIERS then Some s else None | _ \<Rightarrow> None)"

definition parse_rule :: "nat \<Rightarrow> json \<Rightarrow> block_error + permission_rule" where
  "parse_rule idx raw =
     (case raw of
        JObj kvs \<Rightarrow>
          (case dget kvs ''tool'' of
             Some (JStr s) \<Rightarrow>
               (if strip s = [] then Inl (RuleTool idx)
                else if starts_with (strip s) ''mcp__'' then Inl (RuleToolPrefixed idx)
                else (case one_tier (dget kvs ''tier'') of
                        None \<Rightarrow> Inl (RuleTier idx)
                      | Some tier \<Rightarrow>
                          if list_ex (\<lambda>k. k \<noteq> ''tool'' \<and> k \<noteq> ''tier'') (keys kvs) then Inl (RuleUnknownKeys idx)
                          else Inr \<lparr>pr_tool = strip s, pr_tier = tier\<rparr>))
           | _ \<Rightarrow> Inl (RuleTool idx))
      | _ \<Rightarrow> Inl (RuleNotAnObject idx))"

fun parse_rules :: "nat \<Rightarrow> string list \<Rightarrow> json list \<Rightarrow> block_error + permission_rule list" where
  "parse_rules idx seen_exact [] = Inr []"
| "parse_rules idx seen_exact (raw # raws) =
     (case parse_rule idx raw of
        Inl e \<Rightarrow> Inl e
      | Inr r \<Rightarrow>
          if \<not> is_glob (pr_tool r) \<and> pr_tool r \<in> set seen_exact then Inl (RuleDuplicate idx)
          else map_sum id ((#) r)
                 (parse_rules (idx + 1) (if is_glob (pr_tool r) then seen_exact else pr_tool r # seen_exact) raws))"

definition parse_permissions_block :: "json option \<Rightarrow> block_error + permissions_block option" where
  "parse_permissions_block raw =
     (case raw of
        None \<Rightarrow> Inr None
      | Some JNull \<Rightarrow> Inr None
      | Some (JObj kvs) \<Rightarrow>
          (case one_tier (Some (case dget kvs ''default_tier'' of None \<Rightarrow> JStr ''standard'' | Some v \<Rightarrow> v)) of
             None \<Rightarrow> Inl BadDefaultTier
           | Some tier \<Rightarrow>
               (case (case dget kvs ''rules'' of None \<Rightarrow> JArr [] | Some v \<Rightarrow> v) of
                  JArr raws \<Rightarrow>
                    map_sum id (\<lambda>rs. Some \<lparr>pb_default_tier = tier, pb_rules = rs\<rparr>) (parse_rules 0 [] raws)
                | _ \<Rightarrow> Inl RulesNotAList))
      | _ \<Rightarrow> Inl NotAnObject)"

definition lowered :: "string \<Rightarrow> string" where
  "lowered tier = (if tier = ''critical'' then ''sensitive'' else tier)"

definition bounded_tiers :: "bool \<Rightarrow> permissions_block option \<Rightarrow> permissions_block option" where
  "bounded_tiers ships block =
     (case block of
        None \<Rightarrow> None
      | Some b \<Rightarrow>
          if ships \<or> (pb_default_tier b \<noteq> ''critical'' \<and> list_all (\<lambda>r. pr_tier r \<noteq> ''critical'') (pb_rules b))
          then Some b
          else Some \<lparr>pb_default_tier = lowered (pb_default_tier b),
                     pb_rules = map (\<lambda>r. r\<lparr>pr_tier := lowered (pr_tier r)\<rparr>) (pb_rules b)\<rparr>)"

section \<open>The registry\<close>

record manifest =
  mf_name :: string
  mf_server_name :: string
  mf_dir :: "string list"
  mf_permissions :: "permissions_block option"
  mf_device_capability :: string

type_synonym hints = "(string \<times> bool) list"

record mcp_world =
  MCPS_DIR :: "string list"
  resolved :: "string list \<Rightarrow> string list option"
  manifests :: "manifest list"
  hint_cache :: "(string \<times> (string \<times> hints) list) list"

definition ships_with_platform :: "mcp_world \<Rightarrow> string list \<Rightarrow> bool" where
  "ships_with_platform w mcp_dir =
     (case (resolved w mcp_dir, resolved w (MCPS_DIR w @ [''custom''])) of
        (Some d, Some c) \<Rightarrow> butlast d = c
      | _ \<Rightarrow> False)"

definition is_bundled :: "mcp_world \<Rightarrow> manifest \<Rightarrow> bool" where
  "is_bundled w m = ships_with_platform w (mf_dir m)"

definition manifest_for :: "mcp_world \<Rightarrow> string \<Rightarrow> manifest option" where
  "manifest_for w server_name =
     find (\<lambda>m. or_else (mf_server_name m) (mf_name m) = server_name) (manifests w)"

definition device_capability_for_server :: "mcp_world \<Rightarrow> string \<Rightarrow> string" where
  "device_capability_for_server w server_name =
     (if server_name = [] then []
      else (case manifest_for w server_name of None \<Rightarrow> [] | Some m \<Rightarrow> mf_device_capability m))"

text \<open>How a manifest comes into the registry: its block is parsed, then bounded by its folder.\<close>

definition load_permissions :: "mcp_world \<Rightarrow> string list \<Rightarrow> json option \<Rightarrow> block_error + permissions_block option" where
  "load_permissions w mcp_dir raw =
     map_sum id (bounded_tiers (ships_with_platform w mcp_dir)) (parse_permissions_block raw)"

section \<open>The tools' own hints\<close>

definition HINT_KEYS :: "string list" where
  "HINT_KEYS = [''readOnlyHint'', ''destructiveHint'', ''idempotentHint'', ''openWorldHint'']"

definition STRICTNESS :: "(string \<times> nat) list" where
  "STRICTNESS = [(''open'', 0), (''standard'', 1), (''sensitive'', 2), (''critical'', 3)]"

definition DEFAULT_TIER :: string where "DEFAULT_TIER = ''sensitive''"

definition hint_tier :: "hints option \<Rightarrow> string option" where
  "hint_tier hs =
     (case hs of
        None \<Rightarrow> None
      | Some h \<Rightarrow>
          if \<not> list_ex (\<lambda>k. k \<in> set (keys h)) HINT_KEYS then None
          else if lookup h ''readOnlyHint'' = Some True then Some ''open''
          else if lookup h ''destructiveHint'' = Some True then Some ''sensitive''
          else if lookup h ''destructiveHint'' = Some False \<and> lookup h ''openWorldHint'' = Some False then Some ''standard''
          else Some ''sensitive'')"

definition codex_asks :: "hints option \<Rightarrow> bool" where
  "codex_asks hs = (hint_tier hs = None \<or> hint_tier hs = Some ''sensitive'')"

definition server_hints :: "mcp_world \<Rightarrow> string \<Rightarrow> (string \<times> hints) list" where
  "server_hints w server_name = (case lookup (hint_cache w) server_name of None \<Rightarrow> [] | Some ts \<Rightarrow> ts)"

definition tool_hints :: "mcp_world \<Rightarrow> string \<Rightarrow> string \<Rightarrow> hints option" where
  "tool_hints w server_name tool_name = lookup (server_hints w server_name) tool_name"

definition known_tools :: "mcp_world \<Rightarrow> string \<Rightarrow> string list" where
  "known_tools w server_name = sort (keys (server_hints w server_name))"

text \<open>The fresh hints of a tool list: the boolean annotations of every tool with a name, the last of
  two tools of one name.\<close>

definition fresh_hints :: "dict \<Rightarrow> hints" where
  "fresh_hints h =
     List.map_filter (\<lambda>k. case dget h k of Some (JBool b) \<Rightarrow> Some (k, b) | _ \<Rightarrow> None) HINT_KEYS"

definition fresh_tools :: "(string \<times> dict option) list \<Rightarrow> (string \<times> hints) list" where
  "fresh_tools tools =
     foldl (\<lambda>d (name, h). dict_set name (fresh_hints (case h of None \<Rightarrow> [] | Some x \<Rightarrow> x)) d) []
       (filter (\<lambda>(name, h). name \<noteq> []) tools)"

text \<open>Two dicts are equal in Python when they hold the same pairs, whatever the order.\<close>

definition same_hints :: "(string \<times> hints) list \<Rightarrow> (string \<times> hints) list \<Rightarrow> bool" where
  "same_hints a b =
     (set (keys a) = set (keys b) \<and>
      list_all (\<lambda>t. set (case lookup a t of None \<Rightarrow> [] | Some x \<Rightarrow> x) = set (case lookup b t of None \<Rightarrow> [] | Some x \<Rightarrow> x)) (keys a))"

definition record_tool_hints :: "string \<Rightarrow> (string \<times> dict option) list \<Rightarrow> mcp_world \<Rightarrow> mcp_world" where
  "record_tool_hints server_name tools w =
     (if server_name = [] then w
      else (let fresh = fresh_tools tools in
            if same_hints (server_hints w server_name) fresh then w
            else w\<lparr>hint_cache := dict_set server_name fresh (hint_cache w)\<rparr>))"

section \<open>The tier of a tool\<close>

fun first_rule :: "string \<Rightarrow> permission_rule list \<Rightarrow> permission_rule option" where
  "first_rule tool_name [] = None"
| "first_rule tool_name (r # rs) =
     (if pr_tool r = tool_name \<or> (is_glob (pr_tool r) \<and> fnmatchcase tool_name (pr_tool r)) then Some r
      else first_rule tool_name rs)"

definition resolve_tool_tier :: "mcp_world \<Rightarrow> string \<Rightarrow> string \<Rightarrow> string" where
  "resolve_tool_tier w server_name tool_name =
     (if server_name = [] \<or> tool_name = [] then DEFAULT_TIER
      else
       (let hinted = hint_tier (tool_hints w server_name tool_name) in
        case Option.bind (manifest_for w server_name) (\<lambda>m. map_option (Pair m) (mf_permissions m)) of
          None \<Rightarrow> (case hinted of None \<Rightarrow> DEFAULT_TIER | Some t \<Rightarrow> t)
        | Some (m, block) \<Rightarrow>
            (case first_rule tool_name (pb_rules block) of
               Some r \<Rightarrow>
                 if pr_tier r = ''open'' \<and> \<not> is_bundled w m \<and> pr_tool r \<noteq> tool_name then ''standard''
                 else pr_tier r
             | None \<Rightarrow>
                (case hinted of
                   Some t \<Rightarrow> t
                 | None \<Rightarrow>
                     if pb_default_tier block = ''open'' \<and> \<not> is_bundled w m then ''standard''
                     else pb_default_tier block))))"

datatype outcome = Allow | Prompt | Refuse

definition NO_HUMAN_MODES :: "string list" where "NO_HUMAN_MODES = [UNATTENDED_MODE]"

definition tier_decision :: "string \<Rightarrow> string \<Rightarrow> outcome" where
  "tier_decision tier0 mode0 =
     (let tier = (if tier0 \<in> set PERMISSION_TIERS then tier0 else DEFAULT_TIER);
          mode = current_mode mode0
      in if tier = ''open'' then Allow
         else if mode = PLAN_MODE then Refuse
         else if tier = ''critical'' then (if mode \<in> set NO_HUMAN_MODES then Refuse else Prompt)
         else if mode = DONT_ASK_MODE \<or> mode = UNATTENDED_MODE then Allow
         else if tier = ''standard'' then (if mode = AUTO_REVIEW_MODE then Allow else Prompt)
         else Prompt)"

section \<open>Codex's own tables\<close>

definition rule_names :: "mcp_world \<Rightarrow> string \<Rightarrow> string list" where
  "rule_names w server_name =
     (case Option.bind (manifest_for w server_name) mf_permissions of
        None \<Rightarrow> []
      | Some block \<Rightarrow> map pr_tool (filter (\<lambda>r. \<not> is_glob (pr_tool r)) (pb_rules block)))"

definition codex_server_default :: "mcp_world \<Rightarrow> string \<Rightarrow> string option" where
  "codex_server_default w server_name =
     (if known_tools w server_name \<noteq> [] then None
      else (case Option.bind (manifest_for w server_name) mf_permissions of
              None \<Rightarrow> None
            | Some block \<Rightarrow>
                if list_ex (\<lambda>r. is_glob (pr_tool r) \<and> pr_tier r \<in> {''sensitive'', ''critical''}) (pb_rules block)
                then Some ''prompt'' else None))"

definition codex_approval :: "mcp_world \<Rightarrow> string \<Rightarrow> string \<Rightarrow> string option" where
  "codex_approval w server_name name =
     (let tier = resolve_tool_tier w server_name name; asks = codex_asks (tool_hints w server_name name)
      in if tier = ''critical'' \<or> (tier \<in> {''open'', ''standard''} \<and> asks) then Some ''approve''
         else if tier = ''sensitive'' \<and> \<not> asks then Some ''prompt''
         else None)"

definition codex_tool_approvals :: "mcp_world \<Rightarrow> string \<Rightarrow> (string \<times> string) list" where
  "codex_tool_approvals w server_name =
     List.map_filter (\<lambda>name. map_option (Pair name) (codex_approval w server_name name))
       (sort (remdups (known_tools w server_name @ rule_names w server_name)))"

section \<open>What a block may say\<close>

definition known_block :: "permissions_block option \<Rightarrow> bool" where
  "known_block block =
     (case block of
        None \<Rightarrow> True
      | Some b \<Rightarrow> pb_default_tier b \<in> set PERMISSION_TIERS \<and>
                  list_all (\<lambda>r. pr_tier r \<in> set PERMISSION_TIERS) (pb_rules b))"

definition no_critical :: "permissions_block option \<Rightarrow> bool" where
  "no_critical block =
     (case block of
        None \<Rightarrow> True
      | Some b \<Rightarrow> pb_default_tier b \<noteq> ''critical'' \<and> list_all (\<lambda>r. pr_tier r \<noteq> ''critical'') (pb_rules b))"

lemma one_tier_known: "one_tier v = Some t \<Longrightarrow> t \<in> set PERMISSION_TIERS"
  by (auto simp: one_tier_def split: option.splits json.splits if_splits)

lemma parse_rule_known: "parse_rule idx raw = Inr r \<Longrightarrow> pr_tier r \<in> set PERMISSION_TIERS"
  by (auto simp: parse_rule_def dest: one_tier_known split: option.splits json.splits if_splits)

lemma parse_rules_known:
  "parse_rules idx seen raws = Inr rs \<Longrightarrow> list_all (\<lambda>r. pr_tier r \<in> set PERMISSION_TIERS) rs"
proof (induction raws arbitrary: idx seen rs)
  case (Cons raw raws)
  then obtain r seen' rs' where "parse_rule idx raw = Inr r" "parse_rules (idx + 1) seen' raws = Inr rs'" "rs = r # rs'"
    by (auto split: sum.splits if_splits simp: map_sum_def)
  with Cons.IH parse_rule_known show ?case by simp
qed simp

lemma parse_permissions_known: "parse_permissions_block raw = Inr b \<Longrightarrow> known_block b"
  by (auto simp: parse_permissions_block_def known_block_def map_sum_def dest: one_tier_known parse_rules_known
      split: option.splits json.splits sum.splits)

lemma lowered_known: "t \<in> set PERMISSION_TIERS \<Longrightarrow> lowered t \<in> set PERMISSION_TIERS" "lowered t \<noteq> ''critical''"
  by (auto simp: lowered_def PERMISSION_TIERS_def)

lemma bounded_tiers_known: "known_block b \<Longrightarrow> known_block (bounded_tiers ships b)"
  by (auto simp: bounded_tiers_def known_block_def lowered_known list_all_iff split: option.splits)

lemma bounded_tiers_no_critical: "no_critical (bounded_tiers False b)"
  by (auto simp: bounded_tiers_def no_critical_def lowered_known list_all_iff split: option.splits)

lemma load_permissions_known: "load_permissions w d raw = Inr b \<Longrightarrow> known_block b"
  by (auto simp: load_permissions_def map_sum_def dest: parse_permissions_known
      intro: bounded_tiers_known split: sum.splits)

lemma load_permissions_bounded:
  "load_permissions w d raw = Inr b \<Longrightarrow> \<not> ships_with_platform w d \<Longrightarrow> no_critical b"
  by (auto simp: load_permissions_def map_sum_def intro: bounded_tiers_no_critical split: sum.splits)

lemma first_rule_some:
  "first_rule t rs = Some r \<Longrightarrow>
    r \<in> set rs \<and> (pr_tool r = t \<or> (is_glob (pr_tool r) \<and> fnmatchcase t (pr_tool r)))"
  by (induction rs) (auto split: if_splits)

lemma hint_tier_range: "hint_tier hs = Some t \<Longrightarrow> t \<in> {''open'', ''standard'', ''sensitive''}"
  by (auto simp: hint_tier_def split: option.splits if_splits)

lemma manifest_for_in: "manifest_for w s = Some m \<Longrightarrow> m \<in> set (manifests w)"
  by (auto simp: manifest_for_def find_Some_iff)

definition known_registry :: "mcp_world \<Rightarrow> bool" where
  "known_registry w = list_all (\<lambda>m. known_block (mf_permissions m)) (manifests w)"

lemma resolve_tool_tier_known: "known_registry w \<Longrightarrow> resolve_tool_tier w s t \<in> set PERMISSION_TIERS"
proof -
  assume k: "known_registry w"
  have h: "hint_tier x = Some y \<Longrightarrow> y \<in> set PERMISSION_TIERS" for x y
    using hint_tier_range [of x y] by (auto simp: PERMISSION_TIERS_def)
  have b: "m \<in> set (manifests w) \<Longrightarrow> mf_permissions m = Some b \<Longrightarrow>
      pb_default_tier b \<in> set PERMISSION_TIERS \<and> (\<forall>r \<in> set (pb_rules b). pr_tier r \<in> set PERMISSION_TIERS)" for m b
    using k by (auto simp: known_registry_def known_block_def list_all_iff split: option.splits)
  have "DEFAULT_TIER \<in> set PERMISSION_TIERS" "''standard'' \<in> set PERMISSION_TIERS" "''open'' \<in> set PERMISSION_TIERS"
    by (simp_all add: DEFAULT_TIER_def PERMISSION_TIERS_def)
  then show ?thesis
    by (auto simp: resolve_tool_tier_def Let_def dest: h b first_rule_some manifest_for_in
        split: option.splits if_splits bind_splits)
qed

section \<open>Properties\<close>

text \<open>C27. The bound of a community MCP: a manifest that does not ship with the platform, loaded as the
  registry loads one, resolves none of its tools to critical (so it cannot take over the card that is
  a bundled tool's one judge), and resolves one to open only by a rule that names exactly that tool or
  by the tool's own read-only annotation where no rule speaks of it: neither a glob nor the block's
  default opens a tool.\<close>
theorem community_tiers_bounded:
  assumes "manifest_for w server = Some m" and "\<not> is_bundled w m"
    and "load_permissions w (mf_dir m) raw = Inr (mf_permissions m)"
  shows "resolve_tool_tier w server tool \<noteq> ''critical'' \<and>
    (resolve_tool_tier w server tool = ''open'' \<longrightarrow>
      (\<exists>b r. mf_permissions m = Some b \<and> r \<in> set (pb_rules b) \<and> pr_tool r = tool \<and> pr_tier r = ''open'') \<or>
      (hint_tier (tool_hints w server tool) = Some ''open'' \<and>
       (\<forall>b. mf_permissions m = Some b \<longrightarrow> first_rule tool (pb_rules b) = None)))"
proof -
  have nc: "no_critical (mf_permissions m)"
    using assms load_permissions_bounded by (simp add: is_bundled_def)
  show ?thesis
    using assms(1,2) nc hint_tier_range [of "tool_hints w server tool"]
    by (auto simp: resolve_tool_tier_def Let_def DEFAULT_TIER_def no_critical_def list_all_iff
        dest!: first_rule_some split: option.splits if_splits)
qed

definition weather_block :: json where
  "weather_block = JObj
     [(''default_tier'', JStr ''critical''),
      (''rules'', JArr [JObj [(''tool'', JStr ''get_*''), (''tier'', JStr ''open'')],
                        JObj [(''tool'', JStr ''now''), (''tier'', JStr ''open'')]])]"

definition weather :: manifest where
  "weather = \<lparr>mf_name = ''weather-mcp'', mf_server_name = ''weather'', mf_dir = [''m'', ''community'', ''weather-mcp''],
     mf_permissions = Some \<lparr>pb_default_tier = ''sensitive'',
        pb_rules = [\<lparr>pr_tool = ''get_*'', pr_tier = ''open''\<rparr>, \<lparr>pr_tool = ''now'', pr_tier = ''open''\<rparr>]\<rparr>,
     mf_device_capability = []\<rparr>"

definition weather_world :: mcp_world where
  "weather_world = \<lparr>MCPS_DIR = [''m''], resolved = Some, manifests = [weather],
     hint_cache = [(''weather'', [(''list'', [(''readOnlyHint'', True)]), (''put'', [(''readOnlyHint'', False)])])]\<rparr>"

theorem community_tiers_bounded_witness:
  "resolve_tool_tier weather_world ''weather'' ''get_all'' \<noteq> ''critical'' \<and>
   resolve_tool_tier weather_world ''weather'' ''get_all'' = ''standard'' \<and>
   resolve_tool_tier weather_world ''weather'' ''now'' = ''open''"
proof -
  have "manifest_for weather_world ''weather'' = Some weather" "\<not> is_bundled weather_world weather"
    "load_permissions weather_world (mf_dir weather) (Some weather_block) = Inr (mf_permissions weather)"
    by code_simp+
  note community_tiers_bounded [OF this, of "''get_all''"]
  moreover have "resolve_tool_tier weather_world ''weather'' ''get_all'' = ''standard''"
    "resolve_tool_tier weather_world ''weather'' ''now'' = ''open''" by code_simp+
  ultimately show ?thesis by simp
qed

definition codex_prompts :: "mcp_world \<Rightarrow> string \<Rightarrow> string \<Rightarrow> bool" where
  "codex_prompts w server name =
     (case lookup (codex_tool_approvals w server) name of
        Some word \<Rightarrow> word = ''prompt''
      | None \<Rightarrow> codex_asks (tool_hints w server name))"

lemma lookup_map_filter:
  "lookup (List.map_filter (\<lambda>n. map_option (Pair n) (f n)) ns) x = (if x \<in> set ns then f x else None)"
  by (induction ns) (auto simp: List.map_filter_simps split: option.splits)

text \<open>C28. The two judges agree: over a registry of parsed blocks, for every tool whose list was read or
  that a rule names, what Codex does with the approval tables the platform writes it (its own rule of
  the annotations where no table speaks) is to ask exactly for a sensitive tool. A critical tool is
  left to the hook's card, an open or standard one runs.\<close>
theorem codex_tables_agree:
  assumes "known_registry w" and "name \<in> set (known_tools w server) \<or> name \<in> set (rule_names w server)"
  shows "codex_prompts w server name \<longleftrightarrow> resolve_tool_tier w server name = ''sensitive''"
  using assms resolve_tool_tier_known [OF assms(1), of server name]
  by (auto simp: codex_prompts_def codex_tool_approvals_def lookup_map_filter codex_approval_def Let_def
      PERMISSION_TIERS_def split: if_splits)

theorem codex_tables_agree_witness:
  "\<not> codex_prompts weather_world ''weather'' ''now'' \<and> codex_prompts weather_world ''weather'' ''put''"
proof -
  have k: "known_registry weather_world" "''now'' \<in> set (rule_names weather_world ''weather'')"
    "''put'' \<in> set (known_tools weather_world ''weather'')"
    "resolve_tool_tier weather_world ''weather'' ''now'' = ''open''"
    "resolve_tool_tier weather_world ''weather'' ''put'' = ''sensitive''" by code_simp+
  show ?thesis
    using codex_tables_agree [OF k(1), of "''now''" "''weather''"] codex_tables_agree [OF k(1), of "''put''" "''weather''"] k
    by simp
qed

lemma tier_decision_tiers:
  "tier_decision ''open'' mode = Allow"
  "tier_decision ''standard'' mode =
     (if current_mode mode = PLAN_MODE then Refuse
      else if current_mode mode \<in> {DONT_ASK_MODE, UNATTENDED_MODE, AUTO_REVIEW_MODE} then Allow else Prompt)"
  "tier_decision ''sensitive'' mode =
     (if current_mode mode = PLAN_MODE then Refuse
      else if current_mode mode \<in> {DONT_ASK_MODE, UNATTENDED_MODE} then Allow else Prompt)"
  "tier_decision ''critical'' mode =
     (if current_mode mode \<in> {PLAN_MODE, UNATTENDED_MODE} then Refuse else Prompt)"
  by (simp_all add: tier_decision_def PERMISSION_TIERS_def NO_HUMAN_MODES_def Let_def)

definition freedom :: "outcome \<Rightarrow> nat" where
  "freedom x = (case x of Allow \<Rightarrow> 2 | Prompt \<Rightarrow> 1 | Refuse \<Rightarrow> 0)"

text \<open>A stricter tier is never answered more freely, in any mode: the outcome follows the order of the
  tiers. Of an open tool every mode says allow, of a critical one none does.\<close>
theorem tier_decision_monotone:
  assumes "lookup STRICTNESS t1 = Some a" and "lookup STRICTNESS t2 = Some b" and "a \<le> b"
  shows "freedom (tier_decision t2 mode) \<le> freedom (tier_decision t1 mode)"
proof -
  have tiers: "(t = ''open'' \<and> n = 0) \<or> (t = ''standard'' \<and> n = 1) \<or> (t = ''sensitive'' \<and> n = 2) \<or> (t = ''critical'' \<and> n = 3)"
    if "lookup STRICTNESS t = Some n" for t n
    using lookup_SomeD [OF that] by (auto simp: STRICTNESS_def)
  show ?thesis
    using tiers [OF assms(1)] tiers [OF assms(2)] assms(3)
    by (elim disjE conjE) (simp_all add: tier_decision_tiers freedom_def)
qed

theorem tier_decision_monotone_witness:
  "freedom (tier_decision ''critical'' ''autoReview'') \<le> freedom (tier_decision ''standard'' ''autoReview'')"
  by (rule tier_decision_monotone [of _ 1 _ 3]) (simp_all add: STRICTNESS_def)

end
