(* ===== verification/GitReads.thy ===== *)
theory GitReads
  imports PyRegex
begin

text \<open>
  The git commands that only read (\<open>auth/git_reads.py\<close>), for the read-only profiles of the
  permission authority: \<open>read_only_git\<close> for a check's judge, \<open>is_git_version\<close> for Plan.
\<close>

definition GLOBAL_WITH_VALUE :: "string list" where
  "GLOBAL_WITH_VALUE = [''-C'', ''--git-dir'', ''--work-tree'']"

definition READ_SUBCOMMANDS :: "string list" where
  "READ_SUBCOMMANDS =
     [''status'', ''diff'', ''log'', ''show'', ''blame'', ''rev-parse'', ''ls-files'', ''ls-tree'', ''describe'',
      ''shortlog'', ''grep'', ''cat-file'']"

definition LISTING_FORMS :: "(string \<times> string list) list" where
  "LISTING_FORMS =
     [(''branch'', [[], ''-a'', ''-r'', ''-v'', ''-vv'', ''--all'', ''--remotes'', ''--list'', ''-l'',
        ''--show-current'', ''--verbose'', ''--no-color'']),
      (''remote'', [[], ''-v'', ''--verbose'']),
      (''stash'', [''list'']),
      (''tag'', [''-l'', ''--list'']),
      (''worktree'', [''list''])]"

definition UNSAFE_LONG :: "string list" where
  "UNSAFE_LONG =
     [''--output'', ''--open-files-in-pager'', ''--ext-diff'', ''--textconv'', ''--filters'', ''--no-index'', ''--exec'']"

definition PAGER_SHORT :: char where "PAGER_SHORT = CHR ''O''"
definition LED_SHORT :: char where "LED_SHORT = CHR ''c''"

definition SHELL_JOINERS :: "char list" where
  "SHELL_JOINERS = [NL, CR, CHR ''|'', CHR '';'', CHR ''&'', CHR ''<'', CHR ''>'', BTICK, CHR ''$'']"

definition VERSION_RE :: regex where
  "VERSION_RE =
     (let gap = Chr (\<lambda>c. c = CHR 32 \<or> c = TAB) in
      seqs [Star gap, lit ''git'', plus gap, Alt (lit ''--version'') (lit ''version''), Star gap])"

definition is_git_version :: "string \<Rightarrow> bool" where
  "is_git_version command = (command \<noteq> [] \<and> re_fullmatch VERSION_RE command)"

definition unsafe_option :: "string \<Rightarrow> bool" where
  "unsafe_option token =
     (if token = ''--'' then False
      else if starts_with token ''--'' then
        (let name = before (CHR ''='') token in
         list_ex (\<lambda>u. starts_with u name \<or> starts_with name u) UNSAFE_LONG)
      else if starts_with token ''-'' \<and> 1 < length token then
        token ! 1 = LED_SHORT \<or> PAGER_SHORT \<in> set (tl token)
      else False)"

text \<open>The loop over the flags before the subcommand: what is left, nothing where a flag is not one of
  those that only say where the repository is.\<close>

fun skip_globals :: "string list \<Rightarrow> string list option" where
  "skip_globals [] = Some []"
| "skip_globals (flag # ts) =
     (if \<not> starts_with flag ''-'' then Some (flag # ts)
      else if flag \<in> set GLOBAL_WITH_VALUE \<and> ts \<noteq> [] then
        (case ts of [] \<Rightarrow> Some [] | _ # rest \<Rightarrow> skip_globals rest)
      else if flag = ''--no-pager'' \<or> before (CHR ''='') flag \<in> {''--git-dir'', ''--work-tree''} then skip_globals ts
      else None)"

definition reads_only :: "string \<Rightarrow> string list \<Rightarrow> bool" where
  "reads_only sub rest =
     (case lookup LISTING_FORMS sub of
        Some forms \<Rightarrow> if rest \<noteq> [] then list_all (\<lambda>t. t \<in> set forms) rest else [] \<in> set forms
      | None \<Rightarrow> sub \<in> set READ_SUBCOMMANDS \<and> \<not> list_ex unsafe_option rest)"

definition read_only_git :: "string \<Rightarrow> bool" where
  "read_only_git command =
     (if command = [] \<or> list_ex (\<lambda>c. c \<in> set SHELL_JOINERS) command then False
      else (case shlex_split command of
              Some (t # ts) \<Rightarrow>
                t = ''git'' \<and>
                (case skip_globals ts of Some (sub # rest) \<Rightarrow> reads_only sub rest | _ \<Rightarrow> False)
            | _ \<Rightarrow> False))"

section \<open>What it admits\<close>

lemma before_prefix: "prefix (before c s) s"
  unfolding before_def prefix_def by (metis takeWhile_dropWhile_id)

text \<open>No abbreviation of an unsafe long option is admitted, and no longer spelling of one.\<close>

lemma unsafe_long:
  assumes "u \<in> set UNSAFE_LONG" "starts_with token ''--''" "token \<noteq> ''--''"
    and "starts_with u (before (CHR ''='') token) \<or> starts_with token u"
  shows "unsafe_option token"
proof -
  have "CHR ''='' \<notin> set u" using assms(1) by (auto simp: UNSAFE_LONG_def)
  then have "starts_with token u \<Longrightarrow> starts_with (before (CHR ''='') token) u"
    by (auto simp: starts_with_def prefix_def before_def takeWhile_append)
  with assms show ?thesis by (auto simp: unsafe_option_def Let_def list_ex_iff)
qed

lemma unsafe_short:
  assumes "token = CHR ''-'' # cs" "cs \<noteq> []" "hd cs \<noteq> CHR ''-''" "PAGER_SHORT \<in> set cs \<or> hd cs = LED_SHORT"
  shows "unsafe_option token"
  using assms by (cases cs) (auto simp: unsafe_option_def starts_with_def)

lemma read_only_shape:
  assumes "read_only_git command"
  obtains ts sub rest where "shlex_split command = Some (''git'' # ts)" "skip_globals ts = Some (sub # rest)"
    "reads_only sub rest"
proof -
  from assms obtain t ts where t: "shlex_split command = Some (t # ts)"
    by (auto simp: read_only_git_def split: if_splits option.splits list.splits)
  with assms have g: "t = ''git''" and r: "case skip_globals ts of Some (sub # rest) \<Rightarrow> reads_only sub rest | _ \<Rightarrow> False"
    by (simp_all add: read_only_git_def split: if_splits)
  from r obtain sub rest where "skip_globals ts = Some (sub # rest)" "reads_only sub rest"
    by (auto split: option.splits list.splits)
  with t g that show thesis by simp
qed

lemma skip_globals_word: "skip_globals ts = Some (sub # rest) \<Longrightarrow> \<not> starts_with sub ''-''"
  by (induction ts rule: skip_globals.induct) (auto split: if_splits list.splits)

lemma skip_globals_suffix: "skip_globals ts = Some r \<Longrightarrow> suffix r ts"
  by (induction ts rule: skip_globals.induct) (auto split: if_splits list.splits intro: suffix_ConsI)

text \<open>What a command that is let through as a read of the repository is: one program, \<open>git\<close>, in no
  company (no pipe, redirect, separator, substitution or variable), its subcommand in the two tables;
  a subcommand that lists runs with the listed forms only, and in another no argument abbreviates or
  spells out a long option that writes a file or runs a program, and no short cluster holds the
  pager's letter or begins with the one that sets a configuration value.\<close>
theorem git_reads_bounded:
  assumes "read_only_git command"
  shows "(\<forall>c \<in> set command. c \<notin> set SHELL_JOINERS) \<and>
    (\<exists>g sub rest. shlex_split command = Some (''git'' # g @ sub # rest) \<and> \<not> starts_with sub ''-'' \<and>
      ((\<exists>forms. lookup LISTING_FORMS sub = Some forms \<and> set rest \<subseteq> set forms) \<or>
       (sub \<in> set READ_SUBCOMMANDS \<and>
        (\<forall>t \<in> set rest.
          (\<forall>u \<in> set UNSAFE_LONG. starts_with t ''--'' \<and> t \<noteq> ''--'' \<longrightarrow>
             \<not> starts_with u (before (CHR ''='') t) \<and> \<not> starts_with t u) \<and>
          (\<forall>cs. t = CHR ''-'' # cs \<and> cs \<noteq> [] \<and> hd cs \<noteq> CHR ''-'' \<longrightarrow>
             PAGER_SHORT \<notin> set cs \<and> hd cs \<noteq> LED_SHORT)))))"
proof -
  from assms obtain ts sub rest where sh: "shlex_split command = Some (''git'' # ts)"
    and sk: "skip_globals ts = Some (sub # rest)" and ro: "reads_only sub rest"
    by (rule read_only_shape)
  from skip_globals_suffix [OF sk] obtain g where g: "ts = g @ sub # rest" by (auto simp: suffix_def)
  have "\<forall>c \<in> set command. c \<notin> set SHELL_JOINERS"
    using assms by (auto simp: read_only_git_def list_ex_iff split: if_splits)
  moreover have "(\<exists>forms. lookup LISTING_FORMS sub = Some forms \<and> set rest \<subseteq> set forms) \<or>
      (sub \<in> set READ_SUBCOMMANDS \<and> \<not> list_ex unsafe_option rest)"
    using ro by (cases "lookup LISTING_FORMS sub") (auto simp: reads_only_def list_all_iff split: if_splits)
  ultimately show ?thesis
    using sh skip_globals_word [OF sk] unsafe_long unsafe_short
    unfolding g list_ex_iff by blast
qed

theorem git_reads_bounded_witness:
  "read_only_git ''git -C sub diff --stat HEAD'' \<and>
   list_all (\<lambda>c. c \<notin> set SHELL_JOINERS) ''git -C sub diff --stat HEAD''"
proof -
  have "read_only_git ''git -C sub diff --stat HEAD''" by code_simp
  with git_reads_bounded [OF this] show ?thesis unfolding list_all_iff by blast
qed

text \<open>What the check does not see: git reads two files named to \<open>diff\<close> outside the work tree as if
  \<open>--no-index\<close> were given, the option the table refuses.\<close>

lemma two_files_pass: "read_only_git ''git diff /dev/null /etc/shadow''"
  "\<not> read_only_git ''git diff --no-index /dev/null /etc/shadow''"
  by code_simp+

end
