(* ===== verification/MeetingRouting.thy ===== *)
theory MeetingRouting
  imports ToolRoles
begin

text \<open>
  Meetings at the permission hook (\<open>api/hooks/routing.py\<close>, and the meeting table of
  \<open>core/session/session_state.py\<close>): where a participant's hook calls belong, and the floor under the
  end of its turn. \<open>str_of\<close> is Python's text of a JSON value.
\<close>

section \<open>The table\<close>

record meeting_info =
  mi_parent_session_id :: string
  mi_pump_session_id :: string
  mi_agent_slug :: string
  mi_parent_chat_id :: string
  mi_is_moderator :: bool
  mi_routed_tool :: string
  mi_turn_text_chars :: nat

type_synonym meetings = "(string \<times> meeting_info) list"

definition set_meeting_session_info ::
    "string \<Rightarrow> string \<Rightarrow> string \<Rightarrow> string \<Rightarrow> string \<Rightarrow> bool \<Rightarrow> meetings \<Rightarrow> meetings" where
  "set_meeting_session_info sid parent pump slug chat moderator ms =
     dict_set sid
       \<lparr>mi_parent_session_id = parent, mi_pump_session_id = pump, mi_agent_slug = slug, mi_parent_chat_id = chat,
        mi_is_moderator = moderator, mi_routed_tool = [], mi_turn_text_chars = 0\<rparr> ms"

definition get_meeting_session_info :: "string \<Rightarrow> meetings \<Rightarrow> meeting_info option" where
  "get_meeting_session_info sid ms = lookup ms sid"

definition change_info :: "string \<Rightarrow> (meeting_info \<Rightarrow> meeting_info) \<Rightarrow> meetings \<Rightarrow> meetings" where
  "change_info sid f ms = (case lookup ms sid of None \<Rightarrow> ms | Some i \<Rightarrow> dict_set sid (f i) ms)"

definition mark_meeting_turn_routed :: "string \<Rightarrow> string \<Rightarrow> meetings \<Rightarrow> meetings" where
  "mark_meeting_turn_routed sid tool =
     change_info sid
       (\<lambda>i. if mi_routed_tool i = [] \<or> tool \<in> {''end_meeting'', ''leave_meeting''} then i\<lparr>mi_routed_tool := tool\<rparr> else i)"

definition clear_meeting_turn_routed :: "string \<Rightarrow> meetings \<Rightarrow> meetings" where
  "clear_meeting_turn_routed sid = change_info sid (\<lambda>i. i\<lparr>mi_routed_tool := [], mi_turn_text_chars := 0\<rparr>)"

definition note_meeting_turn_text :: "string \<Rightarrow> nat \<Rightarrow> meetings \<Rightarrow> meetings" where
  "note_meeting_turn_text sid chars = change_info sid (\<lambda>i. i\<lparr>mi_turn_text_chars := chars\<rparr>)"

definition cleanup_meeting_session_info :: "string \<Rightarrow> meetings \<Rightarrow> meetings" where
  "cleanup_meeting_session_info sid = dict_del sid"

section \<open>The route of a hook call\<close>

record hook_route =
  queue_session_id :: string
  hr_chat_id :: string
  meeting_agent :: string
  parent_session_id :: string
  is_meeting :: bool
  is_moderator :: bool
  routed_tool :: string

definition resolve_hook_route :: "string \<Rightarrow> meetings \<Rightarrow> hook_route" where
  "resolve_hook_route sid ms =
     (case get_meeting_session_info sid ms of
        Some info \<Rightarrow>
          \<lparr>queue_session_id = mi_pump_session_id info, hr_chat_id = mi_parent_chat_id info,
           meeting_agent = mi_agent_slug info, parent_session_id = mi_parent_session_id info, is_meeting = True,
           is_moderator = mi_is_moderator info, routed_tool = mi_routed_tool info\<rparr>
      | None \<Rightarrow>
          \<lparr>queue_session_id = sid, hr_chat_id = [], meeting_agent = [], parent_session_id = [], is_meeting = False,
           is_moderator = False, routed_tool = []\<rparr>)"

definition resolve_hook_chat_id :: "(string \<Rightarrow> string option) \<Rightarrow> string \<Rightarrow> meetings \<Rightarrow> string" where
  "resolve_hook_chat_id chat_by_session sid ms =
     or_else (hr_chat_id (resolve_hook_route sid ms)) (opt_str (chat_by_session sid))"

section \<open>The end of a turn\<close>

definition MEETING_ROUTING_TOOLS :: "string list" where
  "MEETING_ROUTING_TOOLS = [''direct_to'', ''end_meeting'', ''propose_conclude'', ''leave_meeting'']"

definition MEETING_SUMMARY_MIN_CHARS :: nat where "MEETING_SUMMARY_MIN_CHARS = 300"

definition meeting_prefix :: string where "meeting_prefix = ''mcp__meetings-mcp__''"

definition meeting_tool_short_name :: "string \<Rightarrow> string" where
  "meeting_tool_short_name tool =
     (if starts_with tool meeting_prefix then drop (length meeting_prefix) tool else [])"

definition meeting_turn_over_reason :: "hook_route \<Rightarrow> nat \<Rightarrow> string" where
  "meeting_turn_over_reason route text_chars =
     (let routed = routed_tool route in
      if routed = ''direct_to'' then
        ''Your meeting turn ended when you called direct_to. The agents you addressed speak only after your response ends, and their replies reach you in your next turn. Stop now: no more tools, no more text.''
      else if routed = ''end_meeting'' then
        (if text_chars < MEETING_SUMMARY_MIN_CHARS
         then ''The meeting is concluded and this session closes when your response ends. Write the meeting summary now as plain response text, then stop. No more tools.''
         else ''The meeting is concluded: the summary you wrote above is the final message and this session closes when your response ends. Stop now: no more tools, no more text.'')
      else ''Your meeting turn is over after '' @ routed @ ''. Stop now: no more tools, no more text.'')"

text \<open>The deny's reason, if the call is denied, and the table with the routing tool recorded.\<close>

definition meeting_turn_end_backstop ::
    "(json \<Rightarrow> string) \<Rightarrow> string \<Rightarrow> hook_route \<Rightarrow> string \<Rightarrow> dict \<Rightarrow> meetings \<Rightarrow> string option \<times> meetings" where
  "meeting_turn_end_backstop str_of sid route tool tool_input ms =
     (let short = meeting_tool_short_name tool in
      if short \<noteq> [] then
        (None,
         if short \<in> set MEETING_ROUTING_TOOLS \<and> (short \<noteq> ''end_meeting'' \<or> is_moderator route)
         then mark_meeting_turn_routed sid short ms else ms)
      else if routed_tool route = [] then (None, ms)
      else if role_of tool = DISCOVERY \<and>
              contains (lower (case dget tool_input ''query'' of None \<Rightarrow> [] | Some v \<Rightarrow> str_of v)) ''meeting''
        then (None, ms)
      else if starts_with tool ''mcp__memory-mcp__'' then (None, ms)
      else (Some (meeting_turn_over_reason route
                    (case get_meeting_session_info sid ms of None \<Rightarrow> 0 | Some i \<Rightarrow> mi_turn_text_chars i)), ms))"

section \<open>A turn\<close>

text \<open>What can reach the table while a participant's turn runs: its own and other participants' hook
  calls, the orchestrator's text counts, and the boundaries of other participants' turns.\<close>

datatype turn_event =
    HookCall string string dict
  | TurnText string nat
  | TurnBoundary string
  | Joins string string string string string bool
  | Leaves string

fun turn_step :: "(json \<Rightarrow> string) \<Rightarrow> turn_event \<Rightarrow> meetings \<Rightarrow> meetings" where
  "turn_step str_of (HookCall sid tool tool_input) ms =
     snd (meeting_turn_end_backstop str_of sid (resolve_hook_route sid ms) tool tool_input ms)"
| "turn_step str_of (TurnText sid n) ms = note_meeting_turn_text sid n ms"
| "turn_step str_of (TurnBoundary sid) ms = clear_meeting_turn_routed sid ms"
| "turn_step str_of (Joins sid parent pump slug chat moderator) ms =
     set_meeting_session_info sid parent pump slug chat moderator ms"
| "turn_step str_of (Leaves sid) ms = cleanup_meeting_session_info sid ms"

definition turn_run :: "(json \<Rightarrow> string) \<Rightarrow> turn_event list \<Rightarrow> meetings \<Rightarrow> meetings" where
  "turn_run str_of es ms = foldl (\<lambda>m e. turn_step str_of e m) ms es"

fun ends_turn :: "string \<Rightarrow> turn_event \<Rightarrow> bool" where
  "ends_turn sid (TurnBoundary s) = (s = sid)"
| "ends_turn sid (Joins s _ _ _ _ _) = (s = sid)"
| "ends_turn sid (Leaves s) = (s = sid)"
| "ends_turn sid _ = False"

definition routed :: "string \<Rightarrow> meetings \<Rightarrow> bool" where
  "routed sid ms = (\<exists>i. lookup ms sid = Some i \<and> mi_routed_tool i \<noteq> [])"

lemma lookup_change_info:
  "lookup (change_info s f ms) sid = (if sid = s then map_option f (lookup ms s) else lookup ms sid)"
  by (auto simp: change_info_def split: option.splits)

lemma mark_routed:
  "routed sid ms \<Longrightarrow> t \<noteq> [] \<Longrightarrow> routed sid (mark_meeting_turn_routed s t ms)"
  "lookup ms sid = Some i \<Longrightarrow> t \<noteq> [] \<Longrightarrow> routed sid (mark_meeting_turn_routed sid t ms)"
  by (cases "lookup ms s"; auto simp: routed_def mark_meeting_turn_routed_def lookup_change_info;
      cases "sid = s"; auto)
    (auto simp: routed_def mark_meeting_turn_routed_def lookup_change_info)

lemma turn_step_routed: "routed sid ms \<Longrightarrow> \<not> ends_turn sid e \<Longrightarrow> routed sid (turn_step str_of e ms)"
proof (cases e)
  case (HookCall s tool tool_input)
  then show "routed sid ms \<Longrightarrow> ?thesis"
    by (auto simp: meeting_turn_end_backstop_def Let_def intro: mark_routed)
qed (auto simp: routed_def note_meeting_turn_text_def clear_meeting_turn_routed_def lookup_change_info
    set_meeting_session_info_def cleanup_meeting_session_info_def)

lemma turn_run_routed: "routed sid ms \<Longrightarrow> list_all (\<lambda>e. \<not> ends_turn sid e) es \<Longrightarrow> routed sid (turn_run str_of es ms)"
  by (induction es arbitrary: ms) (auto simp: turn_run_def turn_step_routed)

text \<open>A participant that has routed does no more work: once the hook of a turn has let a routing tool
  of the participant pass (its \<open>end_meeting\<close> only as the moderator), then until the orchestrator begins
  its next turn every tool call of it is denied with a reason, whatever the other participants and the
  text counts do meanwhile, except another meeting tool, a look-up of the meeting tools' schemas, and
  its memory.\<close>
theorem routed_turn_denies:
  assumes "lookup ms sid = Some info" and "tool = meeting_prefix @ short" and "short \<in> set MEETING_ROUTING_TOOLS"
    and "short = ''end_meeting'' \<longrightarrow> mi_is_moderator info"
    and "list_all (\<lambda>e. \<not> ends_turn sid e) es"
    and "\<not> starts_with later meeting_prefix" and "\<not> starts_with later ''mcp__memory-mcp__''" and "role_of later \<noteq> DISCOVERY"
    and "ms' = turn_run str_of (HookCall sid tool tool_input # es) ms"
  shows "\<exists>reason. meeting_turn_end_backstop str_of sid (resolve_hook_route sid ms') later later_input ms' = (Some reason, ms')"
proof -
  have s: "meeting_tool_short_name tool = short" "short \<noteq> []"
    using assms(2,3) by (auto simp: meeting_tool_short_name_def MEETING_ROUTING_TOOLS_def)
  have "routed sid (turn_step str_of (HookCall sid tool tool_input) ms)"
    using assms(1,3,4) s
    by (auto simp: meeting_turn_end_backstop_def Let_def resolve_hook_route_def get_meeting_session_info_def
        intro: mark_routed(2))
  then have "routed sid ms'"
    unfolding assms(9) using turn_run_routed [OF _ assms(5)] by (simp add: turn_run_def)
  then obtain i where "lookup ms' sid = Some i" "mi_routed_tool i \<noteq> []" by (auto simp: routed_def)
  with assms(6-8) show ?thesis
    by (simp add: meeting_turn_end_backstop_def Let_def meeting_tool_short_name_def resolve_hook_route_def
        get_meeting_session_info_def)
qed

definition board :: meetings where
  "board = set_meeting_session_info ''m'' ''p'' ''meeting-1'' ''main'' ''chat'' True
     (set_meeting_session_info ''a'' ''p'' ''meeting-1'' ''helper'' ''chat'' False [])"

theorem routed_turn_denies_witness:
  "\<exists>reason. meeting_turn_end_backstop (\<lambda>_. []) ''m''
     (resolve_hook_route ''m'' (turn_run (\<lambda>_. []) [HookCall ''m'' ''mcp__meetings-mcp__direct_to'' [], TurnText ''m'' 12,
        TurnBoundary ''a'', HookCall ''a'' ''Read'' []] board)) ''Bash'' []
     (turn_run (\<lambda>_. []) [HookCall ''m'' ''mcp__meetings-mcp__direct_to'' [], TurnText ''m'' 12,
        TurnBoundary ''a'', HookCall ''a'' ''Read'' []] board) =
   (Some reason, turn_run (\<lambda>_. []) [HookCall ''m'' ''mcp__meetings-mcp__direct_to'' [], TurnText ''m'' 12,
        TurnBoundary ''a'', HookCall ''a'' ''Read'' []] board)"
proof -
  have "lookup board ''m'' = Some \<lparr>mi_parent_session_id = ''p'', mi_pump_session_id = ''meeting-1'',
      mi_agent_slug = ''main'', mi_parent_chat_id = ''chat'', mi_is_moderator = True, mi_routed_tool = [],
      mi_turn_text_chars = 0\<rparr>"
    by (simp add: board_def set_meeting_session_info_def)
  moreover have "''mcp__meetings-mcp__direct_to'' = meeting_prefix @ ''direct_to''" by (simp add: meeting_prefix_def)
  moreover have "''direct_to'' \<in> set MEETING_ROUTING_TOOLS" by code_simp
  moreover have "list_all (\<lambda>e. \<not> ends_turn ''m'' e) [TurnText ''m'' 12, TurnBoundary ''a'', HookCall ''a'' ''Read'' []]"
    by code_simp
  moreover have "\<not> starts_with ''Bash'' meeting_prefix" "\<not> starts_with ''Bash'' ''mcp__memory-mcp__''"
    "role_of ''Bash'' \<noteq> DISCOVERY" by code_simp+
  ultimately show ?thesis
    by (intro routed_turn_denies [where short = "''direct_to''" and info = "\<lparr>mi_parent_session_id = ''p'',
      mi_pump_session_id = ''meeting-1'', mi_agent_slug = ''main'', mi_parent_chat_id = ''chat'',
      mi_is_moderator = True, mi_routed_tool = [], mi_turn_text_chars = 0\<rparr>" and ms = board and tool_input = "[]"
      and tool = "''mcp__meetings-mcp__direct_to''" and es = "[TurnText ''m'' 12, TurnBoundary ''a'', HookCall ''a'' ''Read'' []]"])
      simp_all
qed

end
