(* ===== verification/EnginePrompts.thy ===== *)
theory EnginePrompts
  imports SessionState SessionKind ToolRoles
begin

text \<open>
  The engine's own permission requests (\<open>core/session/engine_prompts.py\<close>): the gate's records of the
  calls it allowed and the asks they answer, the request after the reviewer's decline limit, what a
  frame read off a session's stdout does, how long a request waits and how its wait is answered, and
  the cards the hook shows between turns. \<open>digest\<close> is the SHA-256 of a call's canonical input; times
  are monotonic milliseconds. The ids, names and modes of the CLI's frames are strings.
\<close>

section \<open>The state\<close>

record gate_record =
  gr_tool :: string
  gr_digest :: string
  gr_expiry :: int
  gr_kind :: string

record engine_prompt =
  ep_request_id :: string
  ep_session_id :: string
  ep_chat_id :: string
  ep_tool_name :: string
  ep_tool_input :: dict
  ep_frame :: dict
  ep_frame_type :: string
  ep_action :: string

record engine_state =
  es_pending :: "(string \<times> engine_prompt) list"
  es_withdrawn :: "string list"
  hook_cards :: "(string \<times> engine_prompt) list"
  withdrawn_early :: "(string \<times> int) list"
  gate_allowed :: "(string \<times> (string \<times> gate_record) list) list"
  set_modes :: "(string \<times> string) list"
  deny_messages :: "(string \<times> string) list"

definition UNATTENDED_WAIT_MS :: int where "UNATTENDED_WAIT_MS = 600000"
definition PERSON_WAIT_MS :: int where "PERSON_WAIT_MS = 3 * 24 * 3600 * 1000"
definition ANSWER_SATELLITE_VERSION :: string where "ANSWER_SATELLITE_VERSION = ''0.5.140''"
definition REVIEW_DECLINE_REASON :: string where "REVIEW_DECLINE_REASON = ''classifier''"
definition REVIEW_REENTRIES :: nat where "REVIEW_REENTRIES = 2"
definition REVIEW_LIMIT_MESSAGE :: string where
  "REVIEW_LIMIT_MESSAGE = ''The reviewer declined several actions in a row. Do not retry this one now: tell the person what you wanted to do and why, and wait for their reply.''"
definition EARLY_WITHDRAWAL_MS :: int where "EARLY_WITHDRAWAL_MS = 60000"
definition GATE_ALLOW_MS :: int where "GATE_ALLOW_MS = 120000"
definition PLAN_RECORD :: string where "PLAN_RECORD = ''plan''"
definition HOOK_RECORD :: string where "HOOK_RECORD = ''hook''"
definition PLAN_FLOOR_REASONS :: "string list" where "PLAN_FLOOR_REASONS = [''mode'', ''other'', ''workingDir'']"
definition HOOK_CHECK_REASONS :: "string list" where "HOOK_CHECK_REASONS = [''safetyCheck'', ''subcommandResults'']"

definition text_field :: "dict \<Rightarrow> string \<Rightarrow> string" where
  "text_field d k = opt_str (nonempty_str (dget d k))"

definition dict_field :: "dict \<Rightarrow> string \<Rightarrow> dict" where
  "dict_field d k = (case dget d k of Some (JObj kvs) \<Rightarrow> kvs | _ \<Rightarrow> [])"

section \<open>The gate's records\<close>

definition mark_withdrawn_early :: "int \<Rightarrow> string \<Rightarrow> engine_state \<Rightarrow> engine_state" where
  "mark_withdrawn_early t rid es =
     es\<lparr>withdrawn_early := dict_set rid t (filter (\<lambda>kv. t - snd kv \<le> EARLY_WITHDRAWAL_MS) (withdrawn_early es))\<rparr>"

definition withdrawn_before_registered :: "string \<Rightarrow> engine_state \<Rightarrow> bool" where
  "withdrawn_before_registered rid es = (rid \<in> set (keys (withdrawn_early es)))"

definition live_records ::
    "int \<Rightarrow> (string \<times> (string \<times> gate_record) list) list \<Rightarrow> (string \<times> (string \<times> gate_record) list) list" where
  "live_records t table =
     filter (\<lambda>kv. snd kv \<noteq> []) (map (\<lambda>(sid, calls). (sid, filter (\<lambda>c. gr_expiry (snd c) > t) calls)) table)"

definition calls_of :: "string \<Rightarrow> (string \<times> (string \<times> gate_record) list) list \<Rightarrow> (string \<times> gate_record) list" where
  "calls_of sid table = (case lookup table sid of None \<Rightarrow> [] | Some calls \<Rightarrow> calls)"

definition note_gate_allow ::
    "int \<Rightarrow> string \<Rightarrow> string \<Rightarrow> string \<Rightarrow> string \<Rightarrow> string \<Rightarrow> engine_state \<Rightarrow> engine_state" where
  "note_gate_allow t sid tool_use_id tool dgst kind es =
     (if sid = [] \<or> tool_use_id = [] then es
      else (let table = live_records t (gate_allowed es) in
            es\<lparr>gate_allowed :=
                 dict_set sid
                   (dict_set tool_use_id
                      \<lparr>gr_tool = tool, gr_digest = dgst, gr_expiry = t + GATE_ALLOW_MS, gr_kind = kind\<rparr>
                      (calls_of sid table)) table\<rparr>))"

text \<open>Whether a record answers an ask, by its kind.\<close>

definition record_answers :: "(json option \<Rightarrow> string) \<Rightarrow> int \<Rightarrow> gate_record \<Rightarrow> dict \<Rightarrow> bool" where
  "record_answers digest t r request =
     (let reason = dget request ''decision_reason_type'';
          among = (\<lambda>words. case reason of Some (JStr w) \<Rightarrow> w \<in> set words | _ \<Rightarrow> False);
          same = (digest (dget request ''input'') = gr_digest r)
      in gr_expiry r > t \<and> dget request ''tool_name'' = Some (JStr (gr_tool r)) \<and>
         \<not> truthy (dget request ''decision_reason_code'') \<and>
         (if gr_kind r = HOOK_RECORD then
            dget request ''classifier_approvable'' = Some (JBool False) \<and> among HOOK_CHECK_REASONS \<and> same
          else
            dget request ''classifier_approvable'' = None \<and>
            (if role_of (gr_tool r) = PLAN_EXIT \<and> (reason = None \<or> reason = Some JNull)
             then truthy (dget request ''requires_user_interaction'')
             else among PLAN_FLOOR_REASONS \<and> same)))"

definition take_gate_allow ::
    "(json option \<Rightarrow> string) \<Rightarrow> int \<Rightarrow> string \<Rightarrow> dict \<Rightarrow> engine_state \<Rightarrow> bool \<times> engine_state" where
  "take_gate_allow digest t sid request es =
     (let tuid = text_field request ''tool_use_id''; calls = calls_of sid (gate_allowed es) in
      case lookup calls tuid of
        None \<Rightarrow> (False, es)
      | Some r \<Rightarrow>
          if \<not> record_answers digest t r request then (False, es)
          else (let left = dict_del tuid calls in
                (True, es\<lparr>gate_allowed := (if left = [] then dict_del sid (gate_allowed es)
                                          else dict_set sid left (gate_allowed es))\<rparr>)))"

section \<open>How long a request waits\<close>

definition version_tuple :: "string \<Rightarrow> nat list" where
  "version_tuple v =
     map (\<lambda>part. foldl (\<lambda>n c. 10 * n + (of_char c - 48)) 0 (filter is_digit part)) (split_on (CHR ''.'') v)"

fun tuple_le :: "nat list \<Rightarrow> nat list \<Rightarrow> bool" where
  "tuple_le [] ys = True"
| "tuple_le (x # xs) [] = False"
| "tuple_le (x # xs) (y # ys) = (x < y \<or> (x = y \<and> tuple_le xs ys))"

text \<open>\<open>machine\<close> is the session's remote machine (empty for a local one), \<open>have\<close> its satellite's version.\<close>

definition satellite_answers :: "string \<Rightarrow> string \<Rightarrow> bool" where
  "satellite_answers machine have =
     (machine = [] \<or> tuple_le (version_tuple ANSWER_SATELLITE_VERSION) (version_tuple have))"

datatype refusal = NobodyAnswered | PhoneCall | OldSatellite

definition prompt_bound :: "string \<Rightarrow> bool \<Rightarrow> int \<times> refusal" where
  "prompt_bound client_type answers_back =
     (if kind_of client_type = Some PHONE then (0, PhoneCall)
      else if \<not> answers_back then (0, OldSatellite)
      else if attended client_type then (PERSON_WAIT_MS, NobodyAnswered)
      else (UNATTENDED_WAIT_MS, NobodyAnswered))"

section \<open>A frame off a session's stdout\<close>

text \<open>What reading a frame starts: the answer written to the engine, the refusal after the decline
  limit, or a card.\<close>

datatype engine_action =
    AnswerAllowed string dict
  | RefuseReviewLimit string dict
  | Surface dict
  | ResolveWithdrawn string
  | Nothing

definition note_implement_mode :: "string \<Rightarrow> string \<Rightarrow> string \<Rightarrow> engine_state \<Rightarrow> engine_state" where
  "note_implement_mode mode rid tool es =
     (if role_of tool = PLAN_EXIT \<and> mode \<in> {AUTO_REVIEW_MODE, ASK_MODE}
      then es\<lparr>set_modes := dict_set rid (cli_mode mode) (set_modes es)\<rparr> else es)"

definition answer_gate_allow ::
    "(json option \<Rightarrow> string) \<Rightarrow> int \<Rightarrow> string \<Rightarrow> bool \<Rightarrow> string \<Rightarrow> string \<Rightarrow> dict \<Rightarrow> engine_state \<Rightarrow> bool \<times> engine_state" where
  "answer_gate_allow digest t mode answers_back sid rid request es =
     (if rid = [] \<or> sid = [] \<or> lookup (es_pending es) rid \<noteq> None then (False, es)
      else (case take_gate_allow digest t sid request es of
              (False, es') \<Rightarrow> (False, es')
            | (True, es') \<Rightarrow>
                if \<not> answers_back then (False, es')
                else (True, note_implement_mode mode rid (text_field request ''tool_name'') (mark_withdrawn_early t rid es'))))"

definition refuse_review_fallback :: "int \<Rightarrow> string \<Rightarrow> string \<Rightarrow> engine_state \<Rightarrow> engine_state" where
  "refuse_review_fallback t sid rid es =
     (if rid = [] \<or> sid = [] then es
      else (mark_withdrawn_early t rid es)\<lparr>deny_messages := dict_set rid REVIEW_LIMIT_MESSAGE (deny_messages es)\<rparr>)"

definition withdraw :: "int \<Rightarrow> string \<Rightarrow> engine_state \<Rightarrow> engine_action \<times> engine_state" where
  "withdraw t rid es =
     (if lookup (es_pending es) rid = None then (Nothing, if rid \<noteq> [] then mark_withdrawn_early t rid es else es)
      else (ResolveWithdrawn rid, es\<lparr>es_withdrawn := List.insert rid (es_withdrawn es)\<rparr>))"

definition surfaced :: "string \<Rightarrow> string \<Rightarrow> dict \<Rightarrow> dict" where
  "surfaced sid rid request =
     [(''request_id'', JStr rid),
      (''tool_name'', case dget request ''tool_name'' of None \<Rightarrow> JStr [] | Some v \<Rightarrow> v),
      (''tool_input'', case dget request ''input'' of None \<Rightarrow> JObj [] | Some v \<Rightarrow> v),
      (''tool_use_id'', case dget request ''tool_use_id'' of None \<Rightarrow> JStr [] | Some v \<Rightarrow> v),
      (''description'', case dget request ''description'' of None \<Rightarrow> JStr [] | Some v \<Rightarrow> v),
      (''session_id'', JStr sid)]"

definition read_frame ::
    "(json option \<Rightarrow> string) \<Rightarrow> int \<Rightarrow> string \<Rightarrow> bool \<Rightarrow> string \<Rightarrow> dict \<Rightarrow> bool \<Rightarrow> engine_state \<Rightarrow> engine_action \<times> engine_state" where
  "read_frame digest t mode answers_back sid data in_turn es =
     (let rid = text_field data ''request_id''; request = dict_field data ''request'' in
      if dget data ''type'' = Some (JStr ''control_cancel_request'') then withdraw t rid es
      else if dget data ''type'' \<noteq> Some (JStr ''control_request'') then (Nothing, es)
      else if dget request ''subtype'' \<noteq> Some (JStr ''can_use_tool'') then (Nothing, es)
      else if dget request ''decision_reason_type'' = Some (JStr REVIEW_DECLINE_REASON) then
        (if rid = [] \<or> sid = [] then Nothing else RefuseReviewLimit rid (dict_field request ''input''),
         refuse_review_fallback t sid rid es)
      else (case answer_gate_allow digest t mode answers_back sid rid request es of
              (True, es') \<Rightarrow> (AnswerAllowed rid (dict_field request ''input''), es')
            | (False, es') \<Rightarrow>
                if in_turn \<or> rid = [] \<or> lookup (es_pending es') rid \<noteq> None \<or> withdrawn_before_registered rid es'
                then (Nothing, es') else (Surface (surfaced sid rid request), es')))"

text \<open>The decline limit: refused, then auto re-entered while the session is still in it, at most twice.\<close>

definition refuse_and_reenter :: "string \<Rightarrow> session_state \<Rightarrow> bool \<times> session_state" where
  "refuse_and_reenter sid st =
     (if get_session_mode sid st \<noteq> AUTO_REVIEW_MODE then (False, st)
      else (case note_review_reentry sid st of
              (done, st') \<Rightarrow> if done \<ge> REVIEW_REENTRIES then (False, pause_review sid st') else (True, st')))"

section \<open>The wait and its answer\<close>

definition watch_request :: "string \<Rightarrow> string \<Rightarrow> dict \<Rightarrow> engine_state \<Rightarrow> engine_state option" where
  "watch_request sid chat data es =
     (let rid = text_field data ''request_id'' in
      if rid = [] \<or> sid = [] \<or> lookup (es_pending es) rid \<noteq> None \<or> withdrawn_before_registered rid es then None
      else Some (es\<lparr>es_pending := dict_set rid
             \<lparr>ep_request_id = rid, ep_session_id = sid, ep_chat_id = chat, ep_tool_name = text_field data ''tool_name'',
              ep_tool_input = dict_field data ''tool_input'',
              ep_frame = filter (\<lambda>kv. fst kv \<in> {''request_id'', ''tool_name'', ''tool_input'', ''tool_use_id'', ''description''}) data,
              ep_frame_type = [], ep_action = []\<rparr> (es_pending es)\<rparr>))"

datatype wait_outcome = RetiredUnanswered | AnswerWritten bool | RefusedAndNoted refusal

definition wait_and_answer :: "int \<times> refusal \<Rightarrow> bool \<Rightarrow> bool \<Rightarrow> bool \<Rightarrow> int \<Rightarrow> wait_outcome" where
  "wait_and_answer bnd approved no_answer was_withdrawn elapsed =
     (let answered = (\<not> no_answer \<and> fst bnd > 0);
          timed_out = (\<not> answered \<and> (fst bnd \<le> 0 \<or> elapsed \<ge> fst bnd - 1000))
      in if was_withdrawn then RetiredUnanswered
         else if \<not> answered \<and> \<not> timed_out then RetiredUnanswered
         else if answered then AnswerWritten approved
         else RefusedAndNoted (snd bnd))"

definition end_request :: "string \<Rightarrow> engine_state \<Rightarrow> engine_state" where
  "end_request rid es = es\<lparr>es_pending := dict_del rid (es_pending es), es_withdrawn := removeAll rid (es_withdrawn es)\<rparr>"

text \<open>The frame the CLI parses.\<close>

definition answer_frame :: "string \<Rightarrow> bool \<Rightarrow> dict option \<Rightarrow> engine_state \<Rightarrow> dict \<times> engine_state" where
  "answer_frame rid approved tool_input es =
     (let mode = opt_str (lookup (set_modes es) rid);
          es1 = es\<lparr>set_modes := dict_del rid (set_modes es)\<rparr>;
          allow = (''behavior'', JStr ''allow'') #
            (case tool_input of None \<Rightarrow> [] | Some i \<Rightarrow> [(''updatedInput'', JObj i)]) @
            (if mode \<noteq> [] then [(''updatedPermissions'', JArr [JObj [(''type'', JStr ''setMode''), (''mode'', JStr mode),
               (''destination'', JStr ''session'')]])] else []);
          message = (case lookup (deny_messages es) rid of None \<Rightarrow> ''The request was not approved.'' | Some m \<Rightarrow> m);
          decision = (if approved then allow else [(''behavior'', JStr ''deny''), (''message'', JStr message)])
      in ([(''type'', JStr ''control_response''),
           (''response'', JObj [(''subtype'', JStr ''success''), (''request_id'', JStr rid), (''response'', JObj decision)])],
          if approved then es1 else es1\<lparr>deny_messages := dict_del rid (deny_messages es1)\<rparr>))"

definition owns :: "string \<Rightarrow> engine_state \<Rightarrow> bool" where
  "owns rid es = (lookup (es_pending es) rid \<noteq> None)"

definition input_of :: "string \<Rightarrow> engine_state \<Rightarrow> dict" where
  "input_of rid es = (case lookup (es_pending es) rid of None \<Rightarrow> [] | Some p \<Rightarrow> ep_tool_input p)"

definition pending_for_chat :: "string \<Rightarrow> engine_state \<Rightarrow> engine_prompt list" where
  "pending_for_chat chat es =
     filter (\<lambda>p. chat \<noteq> [] \<and> ep_chat_id p = chat) (map snd (es_pending es) @ map snd (hook_cards es))"

section \<open>The life of a record\<close>

datatype gate_event =
    Noted int string string string string string
  | Asked int string dict

definition no_engine_state :: engine_state where
  "no_engine_state = \<lparr>es_pending = [], es_withdrawn = [], hook_cards = [], withdrawn_early = [], gate_allowed = [],
     set_modes = [], deny_messages = []\<rparr>"

fun gate_step :: "(json option \<Rightarrow> string) \<Rightarrow> gate_event \<Rightarrow> engine_state \<Rightarrow> engine_state" where
  "gate_step digest (Noted t sid tuid tool dgst kind) es = note_gate_allow t sid tuid tool dgst kind es"
| "gate_step digest (Asked t sid request) es = snd (take_gate_allow digest t sid request es)"

definition gate_run :: "(json option \<Rightarrow> string) \<Rightarrow> gate_event list \<Rightarrow> engine_state" where
  "gate_run digest evs = foldl (\<lambda>es e. gate_step digest e es) no_engine_state evs"

text \<open>The asks of one call answered from a record, and the records written for it.\<close>

fun grants :: "(json option \<Rightarrow> string) \<Rightarrow> string \<Rightarrow> string \<Rightarrow> gate_event list \<Rightarrow> engine_state \<Rightarrow> nat" where
  "grants digest sid tuid [] es = 0"
| "grants digest sid tuid (e # evs) es =
     (case e of
        Asked t s request \<Rightarrow>
          if s = sid \<and> text_field request ''tool_use_id'' = tuid \<and> fst (take_gate_allow digest t s request es) then 1 else 0
      | _ \<Rightarrow> 0) + grants digest sid tuid evs (gate_step digest e es)"

definition notes_of :: "string \<Rightarrow> string \<Rightarrow> gate_event list \<Rightarrow> nat" where
  "notes_of sid tuid evs =
     length (filter (\<lambda>e. case e of Noted _ s u _ _ _ \<Rightarrow> s = sid \<and> u = tuid | _ \<Rightarrow> False) evs)"

definition record_of :: "string \<Rightarrow> string \<Rightarrow> engine_state \<Rightarrow> gate_record option" where
  "record_of sid tuid es = lookup (calls_of sid (gate_allowed es)) tuid"

definition records_ok :: "engine_state \<Rightarrow> bool" where
  "records_ok es = (distinct (keys (gate_allowed es)) \<and> (\<forall>(sid, calls) \<in> set (gate_allowed es). distinct (keys calls)))"

lemma lookup_pair: "distinct (keys kvs) \<Longrightarrow> lookup kvs k = Some v \<longleftrightarrow> (k, v) \<in> set kvs"
  by (simp add: lookup_map_of)

lemma calls_of_in: "calls_of sid table = calls \<Longrightarrow> calls \<noteq> [] \<Longrightarrow> (sid, calls) \<in> set table"
  by (auto simp: calls_of_def dest: lookup_SomeD split: option.splits)

lemma live_keys: "distinct (keys table) \<Longrightarrow> distinct (keys (live_records t table))"
  unfolding live_records_def by (induction table) force+

lemma live_lookup:
  assumes "distinct (keys table)" "\<forall>(s, calls) \<in> set table. distinct (keys calls)"
    and "lookup (calls_of sid (live_records t table)) tuid = Some r"
  shows "lookup (calls_of sid table) tuid = Some r"
proof -
  obtain calls where "(sid, calls) \<in> set (live_records t table)" "lookup calls tuid = Some r"
    using assms(3) by (metis calls_of_in lookup.simps(1) option.distinct(1))
  then obtain cs where cs: "(sid, cs) \<in> set table" "calls = filter (\<lambda>c. gr_expiry (snd c) > t) cs"
    by (auto simp: live_records_def)
  with \<open>lookup calls tuid = Some r\<close> have "(tuid, r) \<in> set cs" by (auto dest: lookup_SomeD)
  with cs(1) assms(1,2) have "lookup cs tuid = Some r" "lookup table sid = Some cs"
    by (auto simp: lookup_pair)
  then show ?thesis by (simp add: calls_of_def)
qed

lemma calls_of_dict_set: "calls_of s (dict_set sid calls table) = (if s = sid then calls else calls_of s table)"
  by (simp add: calls_of_def)

lemma calls_of_dict_del: "calls_of s (dict_del sid table) = (if s = sid then [] else calls_of s table)"
  by (simp add: calls_of_def)

lemma set_dict_set: "set (dict_set k v kvs) \<subseteq> insert (k, v) (set kvs)"
  by (induction k v kvs rule: dict_set.induct) auto

lemma set_dict_del: "set (dict_del k kvs) \<subseteq> set kvs"
  by (auto simp: dict_del_def)

lemma calls_of_all: "\<forall>(s, calls) \<in> set table. P calls \<Longrightarrow> P [] \<Longrightarrow> P (calls_of sid table)"
  by (auto simp: calls_of_def dest: lookup_SomeD split: option.splits)

lemma calls_of_left:
  "calls_of s (if left = [] then dict_del sid table else dict_set sid left table) = (if s = sid then left else calls_of s table)"
  by (simp add: calls_of_dict_set calls_of_dict_del)

lemma calls_of_distinct: "records_ok es \<Longrightarrow> distinct (keys (calls_of sid (gate_allowed es)))"
  by (rule calls_of_all [where P = "\<lambda>calls. distinct (keys calls)"]) (simp_all add: records_ok_def)

lemma gate_step_ok: "records_ok es \<Longrightarrow> records_ok (gate_step digest e es)"
proof (cases e)
  case (Noted t sid tuid tool dgst kind)
  assume ok: "records_ok es"
  let ?live = "live_records t (gate_allowed es)"
  have d: "distinct (keys ?live)" using ok live_keys by (auto simp: records_ok_def)
  have c: "\<forall>(s, calls) \<in> set ?live. distinct (keys calls)"
    using ok by (auto simp: records_ok_def live_records_def distinct_map_filter)
  have "distinct (keys (calls_of sid ?live))"
    by (rule calls_of_all [where P = "\<lambda>calls. distinct (keys calls)", OF c]) simp
  with ok d c show ?thesis
    by (auto simp: Noted note_gate_allow_def Let_def records_ok_def simp del: set_map
        dest!: subsetD [OF set_dict_set])
next
  case (Asked t sid request)
  assume ok: "records_ok es"
  have "distinct (keys (dict_del u (calls_of sid (gate_allowed es))))" for u
    by (rule distinct_dict_del) (rule calls_of_distinct [OF ok])
  with ok show ?thesis
    by (auto simp: Asked take_gate_allow_def Let_def records_ok_def distinct_dict_del simp del: set_map
        dest!: subsetD [OF set_dict_set] subsetD [OF set_dict_del] split: option.splits)
qed

lemma note_record:
  assumes "records_ok es" "record_of sid tuid (note_gate_allow t s u tool dgst kind es) = Some r"
  shows "(s = sid \<and> u = tuid \<and> r = \<lparr>gr_tool = tool, gr_digest = dgst, gr_expiry = t + GATE_ALLOW_MS, gr_kind = kind\<rparr>) \<or>
    record_of sid tuid es = Some r"
  using assms live_lookup [of "gate_allowed es"]
  by (auto simp: record_of_def note_gate_allow_def Let_def calls_of_dict_set records_ok_def split: if_splits)

lemma take_record:
  "record_of sid tuid (snd (take_gate_allow digest t s request es)) =
     (if fst (take_gate_allow digest t s request es) \<and> s = sid \<and> text_field request ''tool_use_id'' = tuid
      then None else record_of sid tuid es)"
  unfolding record_of_def take_gate_allow_def Let_def
  by (cases "lookup (calls_of s (gate_allowed es)) (text_field request ''tool_use_id'')")
    (auto simp: calls_of_left simp del: if_split, auto simp: calls_of_dict_set calls_of_dict_del)

lemma take_needs_record:
  "fst (take_gate_allow digest t s request es) \<Longrightarrow>
    \<exists>r. record_of s (text_field request ''tool_use_id'') es = Some r \<and> record_answers digest t r request"
  by (auto simp: record_of_def take_gate_allow_def Let_def split: option.splits if_splits)

lemma grants_bound:
  "records_ok es \<Longrightarrow>
    grants digest sid tuid evs es \<le> notes_of sid tuid evs + (if record_of sid tuid es = None then 0 else 1)"
proof (induction evs arbitrary: es)
  case (Cons e evs)
  note ih = Cons.IH [OF gate_step_ok [OF Cons.prems, of digest e]]
  show ?case
  proof (cases e)
    case (Noted t s u tool dgst kind)
    have "record_of sid tuid (note_gate_allow t s u tool dgst kind es) = None \<or> (s = sid \<and> u = tuid) \<or> record_of sid tuid es \<noteq> None"
      using note_record [OF Cons.prems, of sid tuid t s u tool dgst kind] by fastforce
    with ih show ?thesis by (auto simp: Noted notes_of_def split: if_splits)
  next
    case (Asked t s request)
    show ?thesis
      using ih take_needs_record [of digest t s request es]
      by (auto simp: Asked notes_of_def take_record split: if_splits)
  qed
qed (simp add: notes_of_def)

lemma gate_run_snoc: "gate_run digest (evs @ [e]) = gate_step digest e (gate_run digest evs)"
  by (simp add: gate_run_def)

lemma gate_run_ok: "records_ok (gate_run digest evs)"
  by (induction evs rule: rev_induct)
    (auto simp: gate_run_snoc gate_step_ok, simp add: gate_run_def records_ok_def no_engine_state_def)

lemma record_was_noted:
  "record_of sid tuid (gate_run digest evs) = Some r \<Longrightarrow>
    \<exists>t. Noted t sid tuid (gr_tool r) (gr_digest r) (gr_kind r) \<in> set evs \<and> gr_expiry r = t + GATE_ALLOW_MS"
proof (induction evs rule: rev_induct)
  case (snoc e evs)
  show ?case
  proof (cases e)
    case (Noted t s u tool dgst kind)
    with snoc.prems note_record [OF gate_run_ok, of sid tuid t s u tool dgst kind digest evs r] snoc.IH
    show ?thesis by (auto simp: gate_run_snoc)
  next
    case (Asked t s request)
    with snoc show ?thesis by (auto simp: gate_run_snoc take_record split: if_splits)
  qed
qed (simp add: gate_run_def record_of_def no_engine_state_def calls_of_def)

section \<open>Properties\<close>

text \<open>C14. An ask of the engine is answered from a record only for the call the gate allowed: in every run
  of the gate's notes and the engine's asks, an ask that is answered had a note of the same session and
  call, not two minutes old, of the same tool, and names no reason code; for a record of the hook its reason is
  one of the CLI's own checks of an input the gate judged; for another, one of the floors of Plan, with the
  input the gate judged, or it is the plan-exit tool's own question to the person, which has no reason.\<close>
theorem record_answers_its_call:
  assumes "fst (take_gate_allow digest at sid request (gate_run digest evs))"
  shows "\<exists>t tool dgst kind. Noted t sid (text_field request ''tool_use_id'') tool dgst kind \<in> set evs \<and>
    at < t + GATE_ALLOW_MS \<and> dget request ''tool_name'' = Some (JStr tool) \<and>
    \<not> truthy (dget request ''decision_reason_code'') \<and>
    (if kind = HOOK_RECORD then
       (\<exists>w \<in> set HOOK_CHECK_REASONS. dget request ''decision_reason_type'' = Some (JStr w)) \<and>
       dget request ''classifier_approvable'' = Some (JBool False) \<and> digest (dget request ''input'') = dgst
     else
       dget request ''classifier_approvable'' = None \<and>
       (if role_of tool = PLAN_EXIT \<and> dget request ''decision_reason_type'' \<in> {None, Some JNull}
        then truthy (dget request ''requires_user_interaction'')
        else (\<exists>w \<in> set PLAN_FLOOR_REASONS. dget request ''decision_reason_type'' = Some (JStr w)) \<and>
          digest (dget request ''input'') = dgst))"
proof -
  obtain r where r: "record_of sid (text_field request ''tool_use_id'') (gate_run digest evs) = Some r"
    and a: "record_answers digest at r request"
    using take_needs_record [OF assms] by blast
  obtain t where "Noted t sid (text_field request ''tool_use_id'') (gr_tool r) (gr_digest r) (gr_kind r) \<in> set evs"
    "gr_expiry r = t + GATE_ALLOW_MS"
    using record_was_noted [OF r] by blast
  with a show ?thesis
    by (intro exI [of _ t] exI [of _ "gr_tool r"] exI [of _ "gr_digest r"] exI [of _ "gr_kind r"])
      (auto simp: record_answers_def Let_def split: if_splits option.splits json.splits)
qed

definition ask_rm :: dict where
  "ask_rm = [(''tool_use_id'', JStr ''t1''), (''tool_name'', JStr ''Bash''), (''decision_reason_type'', JStr ''safetyCheck''),
     (''classifier_approvable'', JBool False), (''input'', JObj [(''command'', JStr ''rm -rf out'')])]"

definition size_digest :: "json option \<Rightarrow> string" where
  "size_digest v = (case v of Some (JObj [(_, JStr s)]) \<Rightarrow> s | _ \<Rightarrow> [])"

theorem record_answers_its_call_witness:
  "fst (take_gate_allow size_digest 500 ''s'' ask_rm (gate_run size_digest [Noted 0 ''s'' ''t1'' ''Bash'' ''rm -rf out'' HOOK_RECORD]))
   \<and> (\<exists>t tool dgst kind. Noted t ''s'' ''t1'' tool dgst kind \<in> set [Noted 0 ''s'' ''t1'' ''Bash'' ''rm -rf out'' HOOK_RECORD])"
proof -
  have a: "fst (take_gate_allow size_digest 500 ''s'' ask_rm (gate_run size_digest [Noted 0 ''s'' ''t1'' ''Bash'' ''rm -rf out'' HOOK_RECORD]))"
    and u: "text_field ask_rm ''tool_use_id'' = ''t1''" by code_simp+
  show ?thesis using a record_answers_its_call [OF a] unfolding u by blast
qed

text \<open>A record is used once: however the asks and the notes of all sessions interleave, the asks of one
  call answered from the table are at most the times the gate allowed that call.\<close>
theorem record_used_once:
  "grants digest sid tuid evs no_engine_state \<le> notes_of sid tuid evs"
  using grants_bound [of no_engine_state digest sid tuid evs]
  by (simp add: records_ok_def no_engine_state_def record_of_def calls_of_def)

end
