(* ===== verification/PermissionHook.thy ===== *)
theory PermissionHook
  imports ToolGate McpTiers GitReads MeetingRouting EnginePrompts
begin

text \<open>
  The permission authority of a tool call (\<open>api/hooks/permission.py\<close>): the facts of a call, the stages
  in their order and the record of an allow. What the hook asks of the engine behind a session, of the
  stores and of the terminals is the record \<open>hook_env\<close>; what a call changes is \<open>hook_world\<close>. A card that
  waits on a person is the argument \<open>wait\<close>: the answer and the world the wait ends in, in which other
  calls and the person's mode switch may have happened. Where the path policy raises, the call has no
  decision (\<open>None\<close>). Cards, logs and the activity stamp are not part of the world.
\<close>

section \<open>What a call reads and changes\<close>

record engine_layer =
  canonical_tool_name :: "string \<Rightarrow> string"
  engine_reviews :: "string \<Rightarrow> bool"
  hook_can_ask :: bool
  terminal_reports_mode :: bool

record hook_env =
  he_host :: host
  he_mcp :: mcp_world
  he_layer :: "string \<Rightarrow> engine_layer option"
  he_interactive :: "string \<Rightarrow> bool"
  he_client_type :: "string \<Rightarrow> string"
  he_chat_mode :: "string \<Rightarrow> string"
  he_machine_known :: "string \<Rightarrow> bool"
  he_ssh_hosts :: "string \<Rightarrow> (string \<times> string) list option"
  he_implementing :: "string \<Rightarrow> bool"
  he_str :: "json \<Rightarrow> string"
  he_digest :: "json option \<Rightarrow> string"

record hook_world =
  hw_state :: session_state
  hw_meetings :: meetings
  hw_engine :: engine_state
  hw_allowed :: "(string \<times> (string \<times> int) list) list"

type_synonym person_wait = "hook_world \<Rightarrow> bool \<times> hook_world"

datatype hook_decision = HAllow | HDeny string | HAsk string | HDefer

record tool_call =
  tc_session_id :: string
  tc_tool :: string
  tc_input :: dict
  tc_role :: string
  tc_auto_approved :: bool
  tc_file_edit :: bool
  tc_mode :: string
  tc_client_type :: string
  tc_route :: hook_route
  tc_reviews :: bool
  tc_attended :: bool
  tc_live :: string
  tc_ctx :: "security_context option"
  tc_path :: "path_decision option"
  tc_server :: string
  tc_tool_only :: string
  tc_tier :: "string option"
  tc_record :: string
  tc_updated :: "dict option"

section \<open>The facts of a call\<close>

definition AUTO_APPROVED_ROLES :: "string list" where
  "AUTO_APPROVED_ROLES =
     [READ, GLOB, SEARCH, WEB_FETCH, WEB_SEARCH, DISCOVERY, SUBAGENT, TASK_READ, CHECKLIST]"

definition HOOK_ONLY_MODES :: "string list" where "HOOK_ONLY_MODES = [DONT_ASK_MODE, UNATTENDED_MODE]"

definition MEETING_STORED_MODES :: "string list" where
  "MEETING_STORED_MODES = PERMISSION_MODES @ [UNATTENDED_MODE]"

definition CLI_LIVE_MODE_MAP :: "(string \<times> string) list" where
  "CLI_LIVE_MODE_MAP =
     [(''default'', ASK_MODE), (''acceptEdits'', AUTO_REVIEW_MODE), (''plan'', PLAN_MODE),
      (''bypassPermissions'', DONT_ASK_MODE), (''dontAsk'', DONT_ASK_MODE), (''auto'', AUTO_REVIEW_MODE)]"

definition ALLOWED_CALL_MS :: int where "ALLOWED_CALL_MS = 120000"

definition is_interactive_session :: "hook_env \<Rightarrow> string \<Rightarrow> bool" where
  "is_interactive_session e sid = (sid \<noteq> [] \<and> he_interactive e sid)"

text \<open>A participant's mode is its host's. A stored mode that cannot be read is empty.\<close>

definition meeting_mode :: "hook_env \<Rightarrow> hook_route \<Rightarrow> session_state \<Rightarrow> string" where
  "meeting_mode e route st =
     (let m = (if parent_session_id route \<noteq> [] then recorded_session_mode (parent_session_id route) st else [])
      in if m \<noteq> [] then current_mode m
         else (let stored = (if hr_chat_id route \<noteq> [] then current_mode (he_chat_mode e (hr_chat_id route)) else [])
               in if stored \<in> set MEETING_STORED_MODES then stored else ASK_MODE))"

text \<open>The text Python gives a JSON value: a string is itself, anything else its \<open>repr\<close> (a character is a code
  point below 256).\<close>

definition hex_digit :: "nat \<Rightarrow> char" where
  "hex_digit n = char_of (if n < 10 then 48 + n else 87 + n)"

definition repr_char :: "char \<Rightarrow> char \<Rightarrow> string" where
  "repr_char q c =
     (let n = (of_char c :: nat) in
      if c = q \<or> n = 92 then [CHR 0x5C, c]
      else if n = 9 then [CHR 0x5C, CHR ''t'']
      else if n = 10 then [CHR 0x5C, CHR ''n'']
      else if n = 13 then [CHR 0x5C, CHR ''r'']
      else if n < 32 \<or> 127 \<le> n \<and> n \<le> 160 \<or> n = 173
      then [CHR 0x5C, CHR ''x'', hex_digit (n div 16), hex_digit (n mod 16)]
      else [c])"

definition repr_str :: "string \<Rightarrow> string" where
  "repr_str s =
     (let q = (if CHR 0x27 \<in> set s \<and> CHR 0x22 \<notin> set s then CHR 0x22 else CHR 0x27) in
      [q] @ concat (map (repr_char q) s) @ [q])"

primrec py_repr :: "json \<Rightarrow> string" where
  "py_repr JNull = ''None''"
| "py_repr (JBool b) = (if b then ''True'' else ''False'')"
| "py_repr (JNum i) = (if i < 0 then ''-'' else []) @ nat_str (nat \<bar>i\<bar>)"
| "py_repr (JStr s) = repr_str s"
| "py_repr (JArr xs) = ''['' @ join_on '', '' (map py_repr xs) @ '']''"
| "py_repr (JObj kvs) =
     ''{'' @ join_on '', '' (map (\<lambda>(k, v). repr_str k @ '': '' @ v) (map (map_prod id py_repr) kvs)) @ ''}''"

definition py_str :: "json \<Rightarrow> string" where
  "py_str j = (case j of JStr s \<Rightarrow> s | _ \<Rightarrow> py_repr j)"

definition call_key :: "string \<Rightarrow> string \<Rightarrow> dict \<Rightarrow> string" where
  "call_key role tool tool_input =
     (if role = SHELL then
        (let unwrapped = dget tool_input ''_codex_command'';
             txt = (if truthy unwrapped then py_str (the unwrapped) else payload_value tool (Some tool_input))
         in if truthy unwrapped \<or> txt \<noteq> [] then ''cmd:'' @ strip txt else [])
      else if role = WRITE then
        (let files = (case dget tool_input ''_codex_paths'' of
                        Some (JArr xs) \<Rightarrow> map py_str xs
                      | _ \<Rightarrow> map (\<lambda>(kind, path, checks). path) (patch_files tool_input))
         in if files = [] then [] else ''files:'' @ join_on [NL] (sort files))
      else [])"

definition remember_allowed_call ::
    "int \<Rightarrow> string \<Rightarrow> string \<Rightarrow> (string \<times> (string \<times> int) list) list \<Rightarrow> (string \<times> (string \<times> int) list) list" where
  "remember_allowed_call t sid key table =
     (let kept = filter (\<lambda>(s, calls). s = sid \<or> list_ex (\<lambda>c. snd c > t) calls) table;
          calls = filter (\<lambda>c. snd c > t) (case lookup kept sid of None \<Rightarrow> [] | Some cs \<Rightarrow> cs)
      in dict_set sid (dict_set key (t + ALLOWED_CALL_MS) calls) kept)"

definition take_allowed_call ::
    "int \<Rightarrow> string \<Rightarrow> string \<Rightarrow> (string \<times> (string \<times> int) list) list \<Rightarrow> bool \<times> (string \<times> (string \<times> int) list) list" where
  "take_allowed_call t sid key table =
     (let calls = (case lookup table sid of None \<Rightarrow> [] | Some cs \<Rightarrow> cs); left = dict_del key calls
      in (case lookup calls key of None \<Rightarrow> False | Some expiry \<Rightarrow> expiry > t,
          if left = [] then dict_del sid table else dict_set sid left table))"

text \<open>The chat follows the word its terminal reports.\<close>

definition follow_terminal :: "string \<Rightarrow> string \<Rightarrow> string \<Rightarrow> session_state \<Rightarrow> string \<times> session_state" where
  "follow_terminal sid mode live st =
     (case note_live_word sid live st of
        (changed, st') \<Rightarrow>
          (case lookup CLI_LIVE_MODE_MAP live of
             None \<Rightarrow> (mode, st')
           | Some new \<Rightarrow> if \<not> changed \<or> new = mode then (mode, st') else (new, set_session_mode sid new st')))"

definition resolve_call ::
    "hook_env \<Rightarrow> string \<Rightarrow> string \<Rightarrow> dict \<Rightarrow> string \<Rightarrow> hook_world \<Rightarrow> tool_call \<times> hook_world" where
  "resolve_call e sid tool0 tool_input live w =
     (let layer = he_layer e sid;
          tool = (case layer of None \<Rightarrow> tool0 | Some l \<Rightarrow> canonical_tool_name l tool0);
          role = role_of tool;
          route = resolve_hook_route sid (hw_meetings w);
          mode0 = (if is_meeting route then meeting_mode e route (hw_state w)
                   else current_mode (get_session_mode sid (hw_state w)));
          attended0 = (if is_meeting route
                      then attended (if parent_session_id route \<noteq> [] then he_client_type e (parent_session_id route) else [])
                      else attended (he_client_type e sid));
          client = (if is_meeting route then session_kind.name DASHBOARD else he_client_type e sid);
          follows = (live \<noteq> [] \<and> mode0 \<in> set PERMISSION_MODES \<and> client = session_kind.name DASHBOARD \<and> \<not> is_meeting route \<and>
                     is_interactive_session e sid \<and> (case layer of None \<Rightarrow> False | Some l \<Rightarrow> terminal_reports_mode l));
          (mode, st) = (if follows then follow_terminal sid mode0 live (hw_state w) else (mode0, hw_state w));
          reviews = (mode = AUTO_REVIEW_MODE \<and> (case layer of None \<Rightarrow> False | Some l \<Rightarrow> engine_reviews l live) \<and>
                     \<not> review_paused sid st)
      in (\<lparr>tc_session_id = sid, tc_tool = tool, tc_input = tool_input, tc_role = role,
           tc_auto_approved = (role \<in> set AUTO_APPROVED_ROLES),
           tc_file_edit = (role = WRITE \<and> payload_of tool = FILE_PATH), tc_mode = mode, tc_client_type = client,
           tc_route = route, tc_reviews = reviews, tc_attended = attended0, tc_live = live, tc_ctx = None, tc_path = None,
           tc_server = [], tc_tool_only = [], tc_tier = None, tc_record = [], tc_updated = None\<rparr>,
          w\<lparr>hw_state := st\<rparr>))"

section \<open>The stages\<close>

text \<open>A stage answers or passes on, with the call and the world it leaves; the outer option is a raise of
  the path policy.\<close>

type_synonym stage = "tool_call \<times> hook_world \<Rightarrow> (hook_decision option \<times> tool_call \<times> hook_world) option"

definition pass_on :: "tool_call \<times> hook_world \<Rightarrow> (hook_decision option \<times> tool_call \<times> hook_world) option" where
  "pass_on cw = Some (None, cw)"

definition says :: "hook_decision \<Rightarrow> tool_call \<times> hook_world \<Rightarrow> (hook_decision option \<times> tool_call \<times> hook_world) option" where
  "says d cw = Some (Some d, cw)"

definition plan_allow :: "tool_call \<times> hook_world \<Rightarrow> (hook_decision option \<times> tool_call \<times> hook_world) option" where
  "plan_allow cw = says HAllow ((fst cw)\<lparr>tc_record := PLAN_RECORD\<rparr>, snd cw)"

definition person_present :: "hook_env \<Rightarrow> tool_call \<Rightarrow> bool" where
  "person_present e c = (is_interactive_session e (tc_session_id c) \<and> attended (tc_client_type c))"

definition no_context :: stage where
  "no_context = (\<lambda>(c, w).
     case get_session_security (tc_session_id c) (hw_state w) of
       None \<Rightarrow> says (HDeny ''Session is no longer active. Send a new message to continue.'') (c, w)
     | Some ctx \<Rightarrow> pass_on (c\<lparr>tc_ctx := Some ctx\<rparr>, w))"

definition meeting_backstop :: "hook_env \<Rightarrow> stage" where
  "meeting_backstop e = (\<lambda>(c, w).
     if is_meeting (tc_route c) then
       (case meeting_turn_end_backstop (he_str e) (tc_session_id c) (tc_route c) (tc_tool c) (tc_input c) (hw_meetings w) of
          (None, ms) \<Rightarrow> pass_on (c, w\<lparr>hw_meetings := ms\<rparr>)
        | (Some why, ms) \<Rightarrow> says (HDeny why) (c, w\<lparr>hw_meetings := ms\<rparr>))
     else pass_on (c, w))"

definition plan_enter :: stage where
  "plan_enter = (\<lambda>(c, w). if tc_role c = PLAN_ENTER then says HAllow (c, w) else pass_on (c, w))"

definition question :: "hook_env \<Rightarrow> stage" where
  "question e = (\<lambda>(c, w).
     if tc_role c \<noteq> QUESTION then pass_on (c, w)
     else if person_present e c then says HAllow (c, w)
     else says (HDeny (''Questions have been displayed to the user in the chat interface. The user will reply in their next message. Do NOT re-ask these questions or call '' @ tc_tool c @ '' again this turn.'')) (c, w))"

definition leave_plan :: "string \<Rightarrow> session_state \<Rightarrow> session_state" where
  "leave_plan sid st = (if get_session_mode sid st = PLAN_MODE then set_session_mode sid ASK_MODE st else st)"

definition plan_exit :: "hook_env \<Rightarrow> person_wait \<Rightarrow> stage" where
  "plan_exit e wait = (\<lambda>(c, w).
     let sid = tc_session_id c in
     if tc_role c \<noteq> PLAN_EXIT then pass_on (c, w)
     else if person_present e c then says HDefer (c, w)
     else if tc_mode c = PLAN_MODE \<and> tc_client_type c = session_kind.name DASHBOARD then
       (if he_implementing e sid then plan_allow (c, w\<lparr>hw_state := leave_plan sid (hw_state w)\<rparr>)
        else (case wait w of
                (True, w') \<Rightarrow> plan_allow (c, w'\<lparr>hw_state := leave_plan sid (hw_state w')\<rparr>)
              | (False, w') \<Rightarrow>
                  if get_session_mode sid (hw_state w') \<noteq> PLAN_MODE
                  then says (HDeny ''The person cancelled this plan. Stop here and wait for their next message.'') (c, w')
                  else says (HDeny ''The user wants to modify the plan. Stay in plan mode and wait for the user's feedback in their next message. Do NOT call ExitPlanMode again until the user approves the revised plan.'') (c, w')))
     else plan_allow (c, w))"

definition wants_attached_ssh_hosts :: "security_context \<Rightarrow> string \<Rightarrow> bool" where
  "wants_attached_ssh_hosts ctx command =
     (\<not> is_remote (sc_placement ctx) \<and> \<not> is_admin (sc_role ctx) \<and> takes_attached_hosts ctx \<and>
      list_ex (\<lambda>n. contains command n) SSH_COMMANDS)"

definition attached_ssh_hosts :: "hook_env \<Rightarrow> stage" where
  "attached_ssh_hosts e = (\<lambda>(c, w).
     case tc_ctx c of
       None \<Rightarrow> pass_on (c, w)
     | Some ctx \<Rightarrow>
         if tc_role c = SHELL \<and> wants_attached_ssh_hosts ctx (payload_value (tc_tool c) (Some (tc_input c)))
         then pass_on (c\<lparr>tc_ctx := Some (ctx\<lparr>ssh_hosts := he_ssh_hosts e (sc_agent ctx)\<rparr>)\<rparr>, w)
         else pass_on (c, w))"

definition check_target_still_valid :: "hook_env \<Rightarrow> security_context \<Rightarrow> string" where
  "check_target_still_valid e ctx =
     (let p = sc_placement ctx in
      if \<not> is_remote p \<or> machine_id p = [] \<or> he_machine_known e (machine_id p) then []
      else ''This chat's remote machine has been unpaired. Please start a new chat to continue.'')"

definition path_gate :: "hook_env \<Rightarrow> stage" where
  "path_gate e = (\<lambda>(c, w).
     case tc_ctx c of
       None \<Rightarrow> pass_on (c, w)
     | Some ctx \<Rightarrow>
         if principal ctx = ''external'' \<and> tc_role c = SHELL
         then says (HDeny (tc_tool c @ '' is not available on external routes.'')) (c, w)
         else if check_target_still_valid e ctx \<noteq> [] then says (HDeny (check_target_still_valid e ctx)) (c, w)
         else (case check_tool_access (he_host e) (tc_tool c) (tc_input c) ctx of
                 None \<Rightarrow> None
               | Some (d, new_plan) \<Rightarrow>
                   if \<not> allowed d then says (HDeny (reason d)) (c\<lparr>tc_path := Some d\<rparr>, w)
                   else pass_on (c\<lparr>tc_path := Some d,
                           tc_updated := (case updated_input d of None \<Rightarrow> tc_updated c | Some u \<Rightarrow> Some u)\<rparr>, w)))"

text \<open>\<open>mcp__server__tool\<close>: the text up to the next double underscore, and what follows it.\<close>

fun cut_dunder :: "string \<Rightarrow> string \<times> string option" where
  "cut_dunder [] = ([], None)"
| "cut_dunder [x] = ([x], None)"
| "cut_dunder (x # y # s) =
     (if x = CHR ''_'' \<and> y = CHR ''_'' then ([], Some s)
      else (case cut_dunder (y # s) of (a, b) \<Rightarrow> (x # a, b)))"

definition resolve_mcp_tier :: "hook_env \<Rightarrow> stage" where
  "resolve_mcp_tier e = (\<lambda>(c, w).
     if starts_with (tc_tool c) ''mcp__'' then
       (case cut_dunder (drop 5 (tc_tool c)) of
          (server, rest) \<Rightarrow>
            (let tool_only = opt_str rest in
             pass_on (c\<lparr>tc_server := server, tc_tool_only := tool_only,
                        tc_tier := Some (resolve_tool_tier (he_mcp e) server tool_only)\<rparr>, w)))
     else pass_on (c\<lparr>tc_server := [], tc_tool_only := [], tc_tier := None\<rparr>, w))"

definition call_destructive :: "tool_call \<Rightarrow> bool" where
  "call_destructive c = (case tc_path c of None \<Rightarrow> False | Some d \<Rightarrow> destructive d)"

definition call_tier :: "tool_call \<Rightarrow> string" where
  "call_tier c = (case tc_path c of None \<Rightarrow> [] | Some d \<Rightarrow> permission_tier d)"

definition bash_tier_auto_approve :: "tool_call \<Rightarrow> bool" where
  "bash_tier_auto_approve c =
     (if call_tier c = [] then False
      else if call_destructive c then False
      else if call_tier c = TIER_READ then True
      else if call_tier c = TIER_EDIT then tc_mode c \<in> {AUTO_REVIEW_MODE, DONT_ASK_MODE, UNATTENDED_MODE}
      else if call_tier c = TIER_ADMIN then tc_mode c \<in> {DONT_ASK_MODE, UNATTENDED_MODE}
      else False)"

definition is_mcp :: "tool_call \<Rightarrow> bool" where "is_mcp c = starts_with (tc_tool c) ''mcp__''"
definition is_critical :: "tool_call \<Rightarrow> bool" where "is_critical c = (tc_tier c = Some ''critical'')"

definition device_granted :: "hook_env \<Rightarrow> tool_call \<Rightarrow> bool" where
  "device_granted e c =
     (let cap = device_capability_for_server (he_mcp e) (tc_server c) in
      cap \<noteq> [] \<and> (case tc_ctx c of None \<Rightarrow> False | Some ctx \<Rightarrow> cap \<in> set (device_grants (sc_placement ctx))))"

definition auto_allows :: "hook_env \<Rightarrow> tool_call \<Rightarrow> session_state \<Rightarrow> bool" where
  "auto_allows e c st =
     (if tc_auto_approved c \<or> tc_file_edit c then True
      else if tc_role c = SHELL then bash_tier_auto_approve c
      else if \<not> is_mcp c \<or> is_critical c then False
      else if tier_decision (opt_str (tc_tier c)) AUTO_REVIEW_MODE = Allow then True
      else device_granted e c \<or> is_session_tool_allowed (tc_session_id c) (tc_tool c) st)"

definition PLAN_REFUSAL :: string where
  "PLAN_REFUSAL = ''Plan mode only reads. This call would change something or run a command that is not read-only. It can run once the plan is approved.''"

definition names_plan_file :: "tool_call \<Rightarrow> bool" where
  "names_plan_file c =
     contains (normpath (replace_char BSLASH SLASH (payload_value (tc_tool c) (Some (tc_input c))))) ''/.claude/plans/''"

definition plan_mode :: stage where
  "plan_mode = (\<lambda>(c, w).
     if tc_mode c \<noteq> PLAN_MODE then pass_on (c, w)
     else if tc_auto_approved c then plan_allow (c, w)
     else if tc_tier c = Some ''open'' then plan_allow (c, w)
     else if tc_role c = SHELL \<and> tc_path c \<noteq> None \<and>
             (call_tier c = TIER_READ \<or>
              ((case tc_path c of None \<Rightarrow> False | Some d \<Rightarrow> allowed d) \<and>
               is_git_version (payload_value (tc_tool c) (Some (tc_input c))))) then plan_allow (c, w)
     else if tc_file_edit c \<and> names_plan_file c then says HAllow (c, w)
     else says (HDeny PLAN_REFUSAL) (c, w))"

definition judge_mode :: stage where
  "judge_mode = (\<lambda>(c, w).
     let is_allowed = (case tc_path c of None \<Rightarrow> False | Some d \<Rightarrow> allowed d) in
     if tc_mode c \<noteq> JUDGE_MODE then pass_on (c, w)
     else if tc_auto_approved c then says HAllow (c, w)
     else if tc_role c = SHELL \<and> call_tier c = TIER_READ \<and> \<not> call_destructive c then says HAllow (c, w)
     else if tc_role c = SHELL \<and> is_allowed \<and> \<not> call_destructive c \<and>
             read_only_git (payload_value (tc_tool c) (Some (tc_input c))) then says HAllow (c, w)
     else if is_mcp c \<and> tc_tier c \<in> {Some ''open'', Some ''standard'', Some ''sensitive''} then says HAllow (c, w)
     else says (HDeny (''a judge reads, it does not write '' @ EM_DASH @ '' report the finding instead'')) (c, w))"

definition refused_without_review :: "tool_call \<Rightarrow> hook_decision" where
  "refused_without_review c =
     HDeny (tc_tool c @ '' needs a review in Auto and this run cannot get one. Report what you wanted to do so a person can run it.'')"

section \<open>A dashboard session\<close>

text \<open>The call's rest, once no tier, memory or grant has settled it: the terminal's own permission engine,
  or a person's card.\<close>

definition terminal_residual :: "hook_env \<Rightarrow> stage" where
  "terminal_residual e = (\<lambda>(c, w).
     if is_critical c \<and> tc_mode c = AUTO_REVIEW_MODE \<and>
        (case he_layer e (tc_session_id c) of None \<Rightarrow> False | Some l \<Rightarrow> \<not> hook_can_ask l)
     then says (HDeny ''OtoDock: this action needs a person's approval; a Codex terminal in Auto cannot ask for it. Switch the chat to Ask, or run it from the chat.'') (c, w)
     else if is_critical c \<or> (\<not> tc_reviews c \<and> call_destructive c)
     then says (HAsk ''OtoDock: this action always needs your approval'') (c, w)
     else if tc_updated c \<noteq> None then says HAllow (c, w)
     else says HDefer (c, w))"

definition person_card :: "person_wait \<Rightarrow> stage" where
  "person_card wait = (\<lambda>(c, w).
     let sid = tc_session_id c in
     case wait w of
       (approved, w') \<Rightarrow>
         (let w1 =
            (if approved \<and> is_mcp c then
               (if \<not> is_critical c then w'\<lparr>hw_state := remember_session_tool_allow sid (tc_tool c) (hw_state w')\<rparr> else w')
             else if approved \<and> tc_live c \<noteq> [] \<and> tc_role c \<in> {SHELL, WRITE} \<and>
                     call_key (tc_role c) (tc_tool c) (tc_input c) \<noteq> []
               then w'\<lparr>hw_allowed := remember_allowed_call (now (hw_state w')) sid
                         (call_key (tc_role c) (tc_tool c) (tc_input c)) (hw_allowed w')\<rparr>
             else w');
              c1 = (if approved \<and> tc_mode c = ASK_MODE then c\<lparr>tc_record := HOOK_RECORD\<rparr> else c)
          in says (if approved then HAllow else HDeny []) (c1, w1)))"

definition ask_person :: "hook_env \<Rightarrow> person_wait \<Rightarrow> stage" where
  "ask_person e wait = (\<lambda>(c, w).
     if person_present e c then terminal_residual e (c, w)
     else if is_interactive_session e (tc_session_id c)
     then says (HAsk (''OtoDock '' @ [SQUOTE] @ tc_mode c @ [SQUOTE] @ '' mode: this action needs your approval'')) (c, w)
     else person_card wait (c, w))"

definition mcp_shortcuts :: "hook_env \<Rightarrow> person_wait \<Rightarrow> stage" where
  "mcp_shortcuts e wait = (\<lambda>(c, w).
     if is_mcp c \<and> \<not> is_critical c \<and>
        (device_granted e c \<or> is_session_tool_allowed (tc_session_id c) (tc_tool c) (hw_state w) \<or>
         tier_decision (opt_str (tc_tier c)) (tc_mode c) = Allow)
     then says HAllow (c, w) else ask_person e wait (c, w))"

text \<open>The bridge's request for the call the person has just allowed on the hook's card.\<close>

definition bridge_allow :: "hook_env \<Rightarrow> person_wait \<Rightarrow> stage" where
  "bridge_allow e wait = (\<lambda>(c, w).
     let key = call_key (tc_role c) (tc_tool c) (tc_input c) in
     if tc_live c = [] \<and> tc_role c \<in> {SHELL, WRITE} \<and> key \<noteq> [] then
       (case take_allowed_call (now (hw_state w)) (tc_session_id c) key (hw_allowed w) of
          (True, t) \<Rightarrow> says HAllow (c, w\<lparr>hw_allowed := t\<rparr>)
        | (False, t) \<Rightarrow> mcp_shortcuts e wait (c, w\<lparr>hw_allowed := t\<rparr>))
     else mcp_shortcuts e wait (c, w))"

definition ask_mode_allows :: "tool_call \<Rightarrow> bool" where
  "ask_mode_allows c =
     (if tc_role c = SHELL then bash_tier_auto_approve c
      else if tc_mode c = AUTO_REVIEW_MODE then tc_auto_approved c \<or> tc_file_edit c
      else tc_auto_approved c)"

definition dashboard :: "hook_env \<Rightarrow> person_wait \<Rightarrow> stage" where
  "dashboard e wait = (\<lambda>(c, w).
     let rest = (if ask_mode_allows c then says HAllow (c, w) else bridge_allow e wait (c, w)) in
     if tc_client_type c \<noteq> session_kind.name DASHBOARD then pass_on (c, w)
     else if tc_mode c \<in> {DONT_ASK_MODE, UNATTENDED_MODE} \<and> \<not> is_critical c then says HAllow (c, w)
     else if tc_mode c = AUTO_REVIEW_MODE \<and> \<not> is_critical c then
       (if auto_allows e c (hw_state w) then says HAllow (c, w)
        else if tc_reviews c then says HDefer (c, w)
        else if person_present e c \<and> \<not> call_destructive c then
          says (if tc_updated c \<noteq> None then HAllow else HDefer) (c, w)
        else if \<not> tc_attended c then says (refused_without_review c) (c, w)
        else rest)
     else rest)"

section \<open>The decision\<close>

definition unattended :: "hook_env \<Rightarrow> tool_call \<Rightarrow> session_state \<Rightarrow> hook_decision" where
  "unattended e c st =
     (if is_critical c then HDeny (tc_tool c @ '' requires interactive user approval and this session runs unattended. Ask the user to run it from a chat.'')
      else if tc_mode c = AUTO_REVIEW_MODE \<and> \<not> auto_allows e c st
      then (if tc_reviews c then HDefer else refused_without_review c)
      else HAllow)"

definition STAGES :: "hook_env \<Rightarrow> person_wait \<Rightarrow> stage list" where
  "STAGES e wait =
     [no_context, meeting_backstop e, plan_enter, question e, plan_exit e wait, attached_ssh_hosts e, path_gate e,
      resolve_mcp_tier e, plan_mode, judge_mode, dashboard e wait]"

fun run_stages :: "stage list \<Rightarrow> stage" where
  "run_stages [] cw = pass_on cw"
| "run_stages (s # ss) cw =
     (case s cw of
        None \<Rightarrow> None
      | Some (Some d, cw') \<Rightarrow> Some (Some d, cw')
      | Some (None, cw') \<Rightarrow> run_stages ss cw')"

definition decide_call ::
    "hook_env \<Rightarrow> person_wait \<Rightarrow> string \<Rightarrow> string \<Rightarrow> dict \<Rightarrow> string \<Rightarrow> hook_world \<Rightarrow>
     (hook_decision \<times> tool_call \<times> hook_world) option" where
  "decide_call e wait sid tool tool_input live w =
     (case run_stages (STAGES e wait) (resolve_call e sid tool tool_input live w) of
        None \<Rightarrow> None
      | Some (Some d, c, w') \<Rightarrow> Some (d, c, w')
      | Some (None, c, w') \<Rightarrow> Some (unattended e c (hw_state w'), c, w'))"

text \<open>An allow is recorded for the CLI's own ask: only for an engine that asks, never for a terminal.\<close>

definition record_gate_allow ::
    "hook_env \<Rightarrow> string \<Rightarrow> string \<Rightarrow> string \<Rightarrow> dict \<Rightarrow> string \<Rightarrow> hook_world \<Rightarrow> hook_world" where
  "record_gate_allow e sid tool_use_id tool judged_input kind w =
     (case he_layer e sid of
        None \<Rightarrow> w
      | Some l \<Rightarrow>
          if \<not> hook_can_ask l \<or> is_interactive_session e sid then w
          else w\<lparr>hw_engine := note_gate_allow (now (hw_state w)) sid tool_use_id tool
                    (he_digest e (Some (JObj judged_input))) kind (hw_engine w)\<rparr>)"

definition decide_tool_permission ::
    "hook_env \<Rightarrow> person_wait \<Rightarrow> string \<Rightarrow> string \<Rightarrow> dict \<Rightarrow> string \<Rightarrow> string \<Rightarrow> hook_world \<Rightarrow>
     (hook_decision \<times> dict option \<times> hook_world) option" where
  "decide_tool_permission e wait sid tool tool_input live tool_use_id w =
     (case decide_call e wait sid tool tool_input live w of
        None \<Rightarrow> None
      | Some (d, c, w') \<Rightarrow>
          (let rewritten = (case tc_updated c of Some (x # xs) \<Rightarrow> Some (x # xs) | _ \<Rightarrow> None);
               judged = (case rewritten of None \<Rightarrow> tool_input | Some u \<Rightarrow> u);
               kind = or_else (tc_record c) (if tc_mode c \<in> set HOOK_ONLY_MODES then HOOK_RECORD else []);
               w1 = (if d = HAllow \<and> tool_use_id \<noteq> [] \<and> kind \<noteq> []
                     then record_gate_allow e sid tool_use_id tool judged kind w' else w')
           in Some (d, case d of HDeny _ \<Rightarrow> None | _ \<Rightarrow> rewritten, w1)))"

end
