(* ===== verification/HookSafety.thy ===== *)
theory HookSafety
  imports PermissionHook ShellSafety SessionLife
begin

text \<open>
  What the permission authority promises: no stage after the gate lifts the gate, Plan and the judge's
  profile only let through what they name, a critical MCP tool needs a person's Allow, a destructive
  command in Ask and Auto needs a person or the engine's reviewer, and the hook answers every call the
  gate answers. The inversion of a decision (\<open>decide_inv\<close>) carries the proofs.
\<close>

section \<open>The two halves of a decision\<close>

definition gate_stages :: "hook_env \<Rightarrow> person_wait \<Rightarrow> stage list" where
  "gate_stages e wait =
     [no_context, meeting_backstop e, plan_enter, question e, plan_exit e wait, attached_ssh_hosts e, path_gate e,
      resolve_mcp_tier e]"

definition mode_stages :: "hook_env \<Rightarrow> person_wait \<Rightarrow> stage list" where
  "mode_stages e wait = [plan_mode, judge_mode, dashboard e wait]"

definition decide_rest ::
    "hook_env \<Rightarrow> person_wait \<Rightarrow> tool_call \<times> hook_world \<Rightarrow> (hook_decision \<times> tool_call \<times> hook_world) option" where
  "decide_rest e wait cw =
     (case run_stages (mode_stages e wait) cw of
        None \<Rightarrow> None
      | Some (Some d, c, w') \<Rightarrow> Some (d, c, w')
      | Some (None, c, w') \<Rightarrow> Some (unattended e c (hw_state w'), c, w'))"

lemma run_stages_append:
  "run_stages (xs @ ys) cw =
     (case run_stages xs cw of
        None \<Rightarrow> None
      | Some (Some d, cw') \<Rightarrow> Some (Some d, cw')
      | Some (None, cw') \<Rightarrow> run_stages ys cw')"
  by (induction xs arbitrary: cw) (auto simp: pass_on_def split: option.splits)

lemma decide_call_halves:
  "decide_call e wait sid tool inp live w =
     (case run_stages (gate_stages e wait) (resolve_call e sid tool inp live w) of
        None \<Rightarrow> None
      | Some (Some d, c, w') \<Rightarrow> Some (d, c, w')
      | Some (None, cw) \<Rightarrow> decide_rest e wait cw)"
proof -
  have "STAGES e wait = gate_stages e wait @ mode_stages e wait"
    by (simp add: STAGES_def gate_stages_def mode_stages_def)
  then show ?thesis
    by (simp add: decide_call_def decide_rest_def run_stages_append split: option.splits prod.splits)
qed

section \<open>The gate's half\<close>

definition gate_passed :: "hook_env \<Rightarrow> tool_call \<Rightarrow> security_context \<Rightarrow> security_context \<Rightarrow> path_decision \<Rightarrow> bool" where
  "gate_passed e c ctx ctx' dec =
     ((ctx' = ctx \<or> ctx' = ctx\<lparr>ssh_hosts := he_ssh_hosts e (sc_agent ctx)\<rparr>) \<and>
      \<not> (principal ctx = ''external'' \<and> tc_role c = SHELL) \<and> check_target_still_valid e ctx = [] \<and>
      (\<exists>plan. check_tool_access (he_host e) (tc_tool c) (tc_input c) ctx' = Some (dec, plan)) \<and> allowed dec)"

text \<open>The tier the registry gives \<open>mcp__server__tool\<close>.\<close>

definition tool_tier :: "mcp_world \<Rightarrow> string \<Rightarrow> string" where
  "tool_tier w tool = (case cut_dunder (drop 5 tool) of (server, rest) \<Rightarrow> resolve_tool_tier w server (opt_str rest))"

definition tiered :: "hook_env \<Rightarrow> tool_call \<Rightarrow> bool" where
  "tiered e c = (tc_tier c = (if is_mcp c then Some (tool_tier (he_mcp e) (tc_tool c)) else None))"

text \<open>What each stage of the gate's half may do to a call that is no plan or question tool.\<close>

lemma run_stages_Cons:
  assumes "run_stages (s # ss) cw = Some r"
  obtains d cw' where "s cw = Some (Some d, cw')" "r = (Some d, cw')"
  | cw' where "s cw = Some (None, cw')" "run_stages ss cw' = Some r"
  using assms by (auto split: option.splits)

lemma no_context_stage:
  "no_context (c, w) = Some (od, cw') \<Longrightarrow>
    (\<exists>why. od = Some (HDeny why)) \<or>
    (\<exists>ctx. od = None \<and> cw' = (c\<lparr>tc_ctx := Some ctx\<rparr>, w) \<and> get_session_security (tc_session_id c) (hw_state w) = Some ctx)"
  by (auto simp: no_context_def says_def pass_on_def split: option.splits)

lemma same_meetings: "\<exists>ms. w = w\<lparr>hw_meetings := ms\<rparr>"
  by (rule exI [of _ "hw_meetings w"]) simp

lemma backstop_stage:
  "meeting_backstop e (c, w) = Some (od, cw') \<Longrightarrow>
    (\<exists>why. od = Some (HDeny why)) \<or> (\<exists>ms. od = None \<and> cw' = (c, w\<lparr>hw_meetings := ms\<rparr>))"
  using same_meetings [of w]
  by (auto simp: meeting_backstop_def says_def pass_on_def split: option.splits prod.splits if_splits)

lemma plan_stages:
  assumes "tc_role c \<notin> {PLAN_ENTER, QUESTION, PLAN_EXIT}"
  shows "plan_enter (c, w) = Some (None, c, w)" "question e (c, w) = Some (None, c, w)"
    "plan_exit e wait (c, w) = Some (None, c, w)"
  using assms by (simp_all add: plan_enter_def question_def plan_exit_def pass_on_def)

lemma hosts_stage:
  "attached_ssh_hosts e (c\<lparr>tc_ctx := Some ctx\<rparr>, w) = Some (od, cw') \<Longrightarrow>
    \<exists>ctx'. od = None \<and> cw' = (c\<lparr>tc_ctx := Some ctx'\<rparr>, w) \<and>
      (ctx' = ctx \<or> ctx' = ctx\<lparr>ssh_hosts := he_ssh_hosts e (sc_agent ctx)\<rparr>)"
  by (auto simp: attached_ssh_hosts_def pass_on_def split: if_splits)

lemma path_stage:
  "path_gate e (c\<lparr>tc_ctx := Some ctx\<rparr>, w) = Some (od, cw') \<Longrightarrow>
    (\<exists>why. od = Some (HDeny why)) \<or>
    (\<exists>dec plan. od = None \<and> \<not> (principal ctx = ''external'' \<and> tc_role c = SHELL) \<and> check_target_still_valid e ctx = [] \<and>
      check_tool_access (he_host e) (tc_tool c) (tc_input c) ctx = Some (dec, plan) \<and> allowed dec \<and>
      cw' = (c\<lparr>tc_ctx := Some ctx, tc_path := Some dec,
               tc_updated := (case updated_input dec of None \<Rightarrow> tc_updated c | Some u \<Rightarrow> Some u)\<rparr>, w))"
  by (auto simp: path_gate_def says_def pass_on_def split: option.splits if_splits prod.splits)

lemma tier_stage:
  "resolve_mcp_tier e (c, w) = Some (od, cw') \<Longrightarrow>
    \<exists>server only tier. od = None \<and> cw' = (c\<lparr>tc_server := server, tc_tool_only := only, tc_tier := tier\<rparr>, w) \<and>
      tier = (if is_mcp c then Some (tool_tier (he_mcp e) (tc_tool c)) else None)"
  by (auto simp: resolve_mcp_tier_def pass_on_def is_mcp_def tool_tier_def Let_def split: if_splits prod.splits)

lemma gate_half:
  assumes r: "run_stages (gate_stages e wait) (c0, w0) = Some (od, c, w)"
    and role: "tc_role c0 \<notin> {PLAN_ENTER, QUESTION, PLAN_EXIT}"
  shows "(\<exists>why. od = Some (HDeny why)) \<or>
    (od = None \<and> (\<exists>ctx ctx' dec. get_session_security (tc_session_id c0) (hw_state w0) = Some ctx \<and>
       gate_passed e c0 ctx ctx' dec \<and> tiered e c \<and>
       c = c0\<lparr>tc_ctx := Some ctx', tc_path := Some dec,
              tc_updated := (case updated_input dec of None \<Rightarrow> tc_updated c0 | Some u \<Rightarrow> Some u),
              tc_server := tc_server c, tc_tool_only := tc_tool_only c, tc_tier := tc_tier c\<rparr> \<and>
       hw_state w = hw_state w0 \<and> hw_allowed w = hw_allowed w0 \<and> hw_engine w = hw_engine w0))"
    (is "?deny \<or> ?pass")
proof (cases ?deny)
  case False
  have all: "run_stages (no_context # meeting_backstop e # plan_enter # question e # plan_exit e wait #
      attached_ssh_hosts e # path_gate e # [resolve_mcp_tier e]) (c0, w0) = Some (od, c, w)"
    using r by (simp add: gate_stages_def)
  obtain ctx where ctx: "get_session_security (tc_session_id c0) (hw_state w0) = Some ctx"
    and r1: "run_stages (meeting_backstop e # plan_enter # question e # plan_exit e wait # attached_ssh_hosts e #
      path_gate e # [resolve_mcp_tier e]) (c0\<lparr>tc_ctx := Some ctx\<rparr>, w0) = Some (od, c, w)"
    by (rule run_stages_Cons [OF all]) (use False in \<open>auto dest!: no_context_stage simp del: run_stages.simps\<close>)
  obtain ms where r1': "run_stages (plan_enter # question e # plan_exit e wait # attached_ssh_hosts e # path_gate e #
      [resolve_mcp_tier e]) (c0\<lparr>tc_ctx := Some ctx\<rparr>, w0\<lparr>hw_meetings := ms\<rparr>) = Some (od, c, w)"
    by (rule run_stages_Cons [OF r1]) (use False in \<open>auto dest!: backstop_stage simp del: run_stages.simps\<close>)
  from r1' have r1'': "run_stages (attached_ssh_hosts e # path_gate e # [resolve_mcp_tier e])
      (c0\<lparr>tc_ctx := Some ctx\<rparr>, w0\<lparr>hw_meetings := ms\<rparr>) = Some (od, c, w)"
    using plan_stages [of "c0\<lparr>tc_ctx := Some ctx\<rparr>"] role by simp
  obtain ctx' where h: "ctx' = ctx \<or> ctx' = ctx\<lparr>ssh_hosts := he_ssh_hosts e (sc_agent ctx)\<rparr>"
    and r2: "run_stages (path_gate e # [resolve_mcp_tier e]) (c0\<lparr>tc_ctx := Some ctx'\<rparr>, w0\<lparr>hw_meetings := ms\<rparr>) = Some (od, c, w)"
    by (rule run_stages_Cons [OF r1'']) (auto dest!: hosts_stage simp del: run_stages.simps)
  from h have same: "principal ctx' = principal ctx" "check_target_still_valid e ctx' = check_target_still_valid e ctx"
    by (auto simp: check_target_still_valid_def)
  obtain dec plan where p: "\<not> (principal ctx' = ''external'' \<and> tc_role c0 = SHELL)" "check_target_still_valid e ctx' = []"
      "check_tool_access (he_host e) (tc_tool c0) (tc_input c0) ctx' = Some (dec, plan)" "allowed dec"
    and r3: "run_stages [resolve_mcp_tier e] (c0\<lparr>tc_ctx := Some ctx', tc_path := Some dec,
      tc_updated := (case updated_input dec of None \<Rightarrow> tc_updated c0 | Some u \<Rightarrow> Some u)\<rparr>, w0\<lparr>hw_meetings := ms\<rparr>) = Some (od, c, w)"
    by (rule run_stages_Cons [OF r2]) (use False in \<open>auto dest!: path_stage simp del: run_stages.simps\<close>)
  define c1 where "c1 = c0\<lparr>tc_ctx := Some ctx', tc_path := Some dec,
      tc_updated := (case updated_input dec of None \<Rightarrow> tc_updated c0 | Some u \<Rightarrow> Some u)\<rparr>"
  have r4: "run_stages [resolve_mcp_tier e] (c1, w0\<lparr>hw_meetings := ms\<rparr>) = Some (od, c, w)"
    unfolding c1_def by (rule r3)
  obtain od' cw where "resolve_mcp_tier e (c1, w0\<lparr>hw_meetings := ms\<rparr>) = Some (od', cw)"
    using r4 by (cases "resolve_mcp_tier e (c1, w0\<lparr>hw_meetings := ms\<rparr>)") auto
  moreover from tier_stage [OF this] obtain server only tier where t: "od' = None"
    "cw = (c1\<lparr>tc_server := server, tc_tool_only := only, tc_tier := tier\<rparr>, w0\<lparr>hw_meetings := ms\<rparr>)"
    "tier = (if is_mcp c1 then Some (tool_tier (he_mcp e) (tc_tool c1)) else None)" by blast
  ultimately have u: "od = None" "w = w0\<lparr>hw_meetings := ms\<rparr>"
    "c = c1\<lparr>tc_server := server, tc_tool_only := only, tc_tier := tier\<rparr>"
    using r4 by (simp_all add: pass_on_def)
  have "tiered e c" unfolding u(3) tiered_def t(3) by (auto simp: is_mcp_def)
  moreover have "gate_passed e c0 ctx ctx' dec" using p h same by (auto simp: gate_passed_def)
  moreover have "c = c0\<lparr>tc_ctx := Some ctx', tc_path := Some dec,
      tc_updated := (case updated_input dec of None \<Rightarrow> tc_updated c0 | Some u \<Rightarrow> Some u),
      tc_server := tc_server c, tc_tool_only := tc_tool_only c, tc_tier := tc_tier c\<rparr>"
    unfolding u(3) c1_def by simp
  moreover note u(1,2)
  ultimately show ?thesis using ctx
    by (intro disjI2 conjI exI [of _ ctx] exI [of _ ctx'] exI [of _ dec]) simp_all
qed simp

text \<open>A decision that is no deny, of a call that is no plan or question tool: it passed the gate, and the
  stages of its mode gave it.\<close>

lemma follow_frame:
  "session_security (snd (follow_terminal sid mode live st)) = session_security st"
  "session_tool_allows (snd (follow_terminal sid mode live st)) = session_tool_allows st"
  by (auto simp: follow_terminal_def note_live_word_def set_session_mode_def Let_def save_session_security_def
      split: prod.splits option.splits)

lemma follow_same:
  "follow_terminal sid mode live st = (m, st') \<Longrightarrow>
    session_security st' = session_security st \<and> session_tool_allows st' = session_tool_allows st"
  using follow_frame [of sid mode live st] by simp

lemma resolve_frame:
  assumes "resolve_call e sid tool inp live w = (c, w0)"
  shows "session_security (hw_state w0) = session_security (hw_state w)" "hw_allowed w0 = hw_allowed w"
    "tc_session_id c = sid" "tc_role c = role_of (tc_tool c)" "tc_input c = inp" "tc_live c = live"
    "tc_auto_approved c \<longleftrightarrow> tc_role c \<in> set AUTO_APPROVED_ROLES"
    "tc_file_edit c \<longleftrightarrow> tc_role c = WRITE \<and> payload_of (tc_tool c) = FILE_PATH"
    "tc_reviews c \<Longrightarrow> tc_mode c = AUTO_REVIEW_MODE"
    "tc_updated c = None" "tc_record c = []"
  using assms by (auto dest!: follow_same simp: resolve_call_def Let_def split: prod.splits if_splits)

lemma decide_inv:
  assumes d: "decide_call e wait sid tool inp live w = Some (d, c', w')" and nd: "\<And>why. d \<noteq> HDeny why"
    and c0: "resolve_call e sid tool inp live w = (c0, w0)" and role: "tc_role c0 \<notin> {PLAN_ENTER, QUESTION, PLAN_EXIT}"
  obtains ctx ctx' dec c w1 where "get_session_security sid (hw_state w) = Some ctx" "gate_passed e c0 ctx ctx' dec"
    "tiered e c" "decide_rest e wait (c, w1) = Some (d, c', w')" "hw_state w1 = hw_state w0" "hw_allowed w1 = hw_allowed w"
    "c = c0\<lparr>tc_ctx := Some ctx', tc_path := Some dec,
         tc_updated := (case updated_input dec of None \<Rightarrow> tc_updated c0 | Some u \<Rightarrow> Some u),
         tc_server := tc_server c, tc_tool_only := tc_tool_only c, tc_tier := tc_tier c\<rparr>"
proof -
  obtain od c w1 where r: "run_stages (gate_stages e wait) (c0, w0) = Some (od, c, w1)"
    using d c0 by (auto simp: decide_call_halves split: option.splits)
  have od: "od = None"
    using d c0 r gate_half [OF r role] nd by (cases od) (auto simp: decide_call_halves)
  then have dr: "decide_rest e wait (c, w1) = Some (d, c', w')"
    using d c0 r by (simp add: decide_call_halves)
  show thesis
    using gate_half [OF r role] od dr resolve_frame(1-3) [OF c0] that
    by (simp add: get_session_security_def) blast
qed

lemma decision_of:
  assumes "decide_tool_permission e wait sid tool inp live tuid w = Some (d, u, w')"
  obtains c w1 where "decide_call e wait sid tool inp live w = Some (d, c, w1)"
  using assms by (auto simp: decide_tool_permission_def Let_def split: option.splits prod.splits)

lemma mcp_no_role: "starts_with t ''mcp__'' \<Longrightarrow> role_of t = []"
proof (rule ccontr)
  assume "starts_with t ''mcp__''" "role_of t \<noteq> []"
  moreover have "\<forall>(n, r) \<in> set TOOL_ROLES. \<not> starts_with n ''mcp__''" by code_simp
  ultimately show False using role_in_table by fastforce
qed

lemma plan_rest:
  assumes "decide_rest e wait (c, w) = Some (d, c', w')" "tc_mode c = PLAN_MODE"
  shows "(\<exists>why. d = HDeny why) \<or>
    (d = HAllow \<and> (tc_auto_approved c \<or> tc_tier c = Some ''open'' \<or>
       (tc_role c = SHELL \<and> (call_tier c = TIER_READ \<or> is_git_version (payload_value (tc_tool c) (Some (tc_input c))))) \<or>
       (tc_file_edit c \<and> names_plan_file c)))"
  using assms by (auto simp: decide_rest_def mode_stages_def plan_mode_def plan_allow_def says_def split: if_splits)

lemma judge_rest:
  assumes "decide_rest e wait (c, w) = Some (d, c', w')" "tc_mode c = JUDGE_MODE"
  shows "(\<exists>why. d = HDeny why) \<or>
    (d = HAllow \<and> (tc_auto_approved c \<or>
       (tc_role c = SHELL \<and> \<not> call_destructive c \<and>
         (call_tier c = TIER_READ \<or> read_only_git (payload_value (tc_tool c) (Some (tc_input c))))) \<or>
       (is_mcp c \<and> \<not> is_critical c)))"
  using assms
  by (auto simp: decide_rest_def mode_stages_def plan_mode_def judge_mode_def says_def pass_on_def is_critical_def Let_def
      split: if_splits)

text \<open>A critical tool: a deny, the CLI's own question, or what the person answered on the card.\<close>

lemma ask_critical:
  assumes "ask_person e wait (c, w) = Some (od, c', w')" "is_critical c" "is_mcp c"
  shows "(\<exists>why. od = Some (HDeny why)) \<or> (\<exists>why. od = Some (HAsk why) \<and> is_interactive_session e (tc_session_id c)) \<or>
    (od = Some HAllow \<and> fst (wait w) \<and> \<not> is_interactive_session e (tc_session_id c))"
  using assms
  by (auto simp: ask_person_def terminal_residual_def person_card_def says_def person_present_def Let_def
      split: if_splits prod.splits)

lemma critical_rest:
  assumes "decide_rest e wait (c, w) = Some (d, c', w')" "is_critical c" "is_mcp c" "tc_role c = []"
    "\<not> tc_auto_approved c" "\<not> tc_file_edit c"
  shows "(\<exists>why. d = HDeny why) \<or> (\<exists>why. d = HAsk why \<and> is_interactive_session e (tc_session_id c)) \<or>
    (d = HAllow \<and> fst (wait w) \<and> tc_client_type c = session_kind.name DASHBOARD)"
proof -
  have r: "[] \<noteq> SHELL" "[] \<noteq> WRITE" by (simp_all add: SHELL_def WRITE_def)
  have b: "bridge_allow e wait (c, w) = ask_person e wait (c, w)"
    using assms(2,4) r by (simp add: bridge_allow_def mcp_shortcuts_def Let_def)
  have a: "\<not> ask_mode_allows c" using assms(4-6) r by (auto simp: ask_mode_allows_def)
  show ?thesis
    using assms(1-3) a b ask_critical [of e wait c w]
    by (auto simp: decide_rest_def mode_stages_def plan_mode_def judge_mode_def dashboard_def unattended_def says_def
        pass_on_def is_critical_def assms(4-6) r Let_def split: if_splits option.splits)
qed

text \<open>A destructive shell call of a dashboard session in Ask or Auto.\<close>

lemma ask_destructive:
  assumes "ask_person e wait (c, w) = Some (od, c', w')" "call_destructive c" "\<not> tc_reviews c"
  shows "(\<exists>why. od = Some (HDeny why)) \<or> (\<exists>why. od = Some (HAsk why) \<and> is_interactive_session e (tc_session_id c)) \<or>
    (od = Some HAllow \<and> fst (wait w))"
  using assms
  by (auto simp: ask_person_def terminal_residual_def person_card_def says_def person_present_def Let_def
      split: if_splits prod.splits)

text \<open>The dashboard stage answers every call of a dashboard session.\<close>

lemma ask_answers: "ask_person e wait (c, w) = Some (od, cw') \<Longrightarrow> od \<noteq> None"
  by (auto simp: ask_person_def terminal_residual_def person_card_def says_def Let_def split: if_splits prod.splits)

lemma shortcuts_answers: "mcp_shortcuts e wait (c, w) = Some (od, cw') \<Longrightarrow> od \<noteq> None"
  unfolding mcp_shortcuts_def says_def by (auto split: if_splits dest!: ask_answers)

lemma bridge_answers: "bridge_allow e wait (c, w) = Some (od, cw') \<Longrightarrow> od \<noteq> None"
  unfolding bridge_allow_def says_def Let_def
  by (auto split: if_splits prod.splits bool.splits dest!: shortcuts_answers)

lemma dashboard_answers:
  "tc_client_type c = session_kind.name DASHBOARD \<Longrightarrow> dashboard e wait (c, w) = Some (od, cw') \<Longrightarrow> od \<noteq> None"
  unfolding dashboard_def says_def Let_def by (auto split: if_splits dest!: bridge_answers)

lemma dashboard_decides:
  assumes "decide_rest e wait (c, w) = Some (d, c', w')" "tc_client_type c = session_kind.name DASHBOARD"
    "tc_mode c \<notin> {PLAN_MODE, JUDGE_MODE}"
  shows "dashboard e wait (c, w) = Some (Some d, c', w')"
proof -
  have "plan_mode (c, w) = Some (None, c, w)" "judge_mode (c, w) = Some (None, c, w)"
    using assms(3) by (simp_all add: plan_mode_def judge_mode_def pass_on_def Let_def)
  with assms(1) dashboard_answers [OF assms(2), of e wait w None] show ?thesis
    by (cases "dashboard e wait (c, w)") (auto simp: decide_rest_def mode_stages_def split: option.splits)
qed

lemma bridge_cases:
  assumes "tc_role c = SHELL"
  shows "(tc_live c = [] \<and> (\<exists>w2. bridge_allow e wait (c, w) = says HAllow (c, w2)) \<and>
      fst (take_allowed_call (now (hw_state w)) (tc_session_id c) (call_key SHELL (tc_tool c) (tc_input c)) (hw_allowed w))) \<or>
    (\<exists>w2. bridge_allow e wait (c, w) = mcp_shortcuts e wait (c, w2))"
  using assms unfolding bridge_allow_def Let_def by (auto split: prod.splits bool.splits)

lemma destructive_rest:
  assumes "decide_rest e wait (c, w) = Some (d, c', w')" "tc_role c = SHELL" "call_destructive c"
    "tc_client_type c = session_kind.name DASHBOARD" "tc_mode c \<in> {ASK_MODE, AUTO_REVIEW_MODE}"
    "\<not> tc_auto_approved c" "\<not> tc_file_edit c" "\<not> is_mcp c" "\<not> is_critical c"
    "tc_reviews c \<Longrightarrow> tc_mode c = AUTO_REVIEW_MODE"
  shows "(\<exists>why. d = HDeny why) \<or> (\<exists>why. d = HAsk why \<and> is_interactive_session e (tc_session_id c)) \<or>
    (d = HDefer \<and> tc_reviews c) \<or>
    (d = HAllow \<and> ((\<exists>w1. fst (wait w1)) \<or>
       (tc_live c = [] \<and> fst (take_allowed_call (now (hw_state w)) (tc_session_id c)
          (call_key SHELL (tc_tool c) (tc_input c)) (hw_allowed w)))))"
proof -
  have na: "\<not> ask_mode_allows c" "\<not> auto_allows e c st" for st
    using assms(2,3,6,7) by (simp_all add: ask_mode_allows_def auto_allows_def bash_tier_auto_approve_def)
  have m: "mcp_shortcuts e wait (c, w2) = ask_person e wait (c, w2)" for w2
    using assms(8) by (simp add: mcp_shortcuts_def)
  have b: "(\<exists>why. od = Some (HDeny why)) \<or> (\<exists>why. od = Some (HAsk why) \<and> is_interactive_session e (tc_session_id c)) \<or>
      (od = Some HAllow \<and> ((\<exists>w1. fst (wait w1)) \<or>
        (tc_live c = [] \<and> fst (take_allowed_call (now (hw_state w)) (tc_session_id c)
          (call_key SHELL (tc_tool c) (tc_input c)) (hw_allowed w)))))"
    if br: "bridge_allow e wait (c, w) = Some (od, c2, w2)" and nr: "\<not> tc_reviews c" for od c2 w2
  proof -
    consider (taken) "tc_live c = []" "od = Some HAllow" "fst (take_allowed_call (now (hw_state w)) (tc_session_id c)
        (call_key SHELL (tc_tool c) (tc_input c)) (hw_allowed w))"
      | (asks) w3 where "ask_person e wait (c, w3) = Some (od, c2, w2)"
      using bridge_cases [OF assms(2), of e wait w] br unfolding m says_def by auto
    then show ?thesis
    proof cases
      case asks
      from ask_destructive [OF this assms(3) nr] show ?thesis by blast
    qed simp
  qed
  have D: "dashboard e wait (c, w) = Some (Some d, c', w')"
    using assms(1,4,5) by (intro dashboard_decides) auto
  show ?thesis
    using D assms(4,5,9,10) na b
    by (auto simp: dashboard_def says_def refused_without_review_def Let_def assms(3) split: if_splits)
qed

section \<open>A session to judge\<close>

definition demo_engine :: engine_layer where
  "demo_engine = \<lparr>canonical_tool_name = id, engine_reviews = (\<lambda>_. False), hook_can_ask = True, terminal_reports_mode = True\<rparr>"

definition demo_env :: hook_env where
  "demo_env = \<lparr>he_host = demo_host, he_mcp = weather_world, he_layer = (\<lambda>_. Some demo_engine), he_interactive = (\<lambda>_. False),
     he_client_type = (\<lambda>_. session_kind.name DASHBOARD), he_chat_mode = (\<lambda>_. []), he_machine_known = (\<lambda>_. True),
     he_ssh_hosts = (\<lambda>_. Some []), he_implementing = (\<lambda>_. False), he_str = (\<lambda>_. []), he_digest = (\<lambda>_. [])\<rparr>"

definition demo_world :: "string \<Rightarrow> hook_world" where
  "demo_world mode =
     \<lparr>hw_state = (fresh_process [] 0 0)\<lparr>session_modes := [(''s'', mode)], session_security := [(''s'', demo_ctx)],
        security_ts := [(''s'', 1)]\<rparr>,
      hw_meetings = [], hw_engine = no_engine_state, hw_allowed = []\<rparr>"

definition nobody :: person_wait where "nobody w = (False, w)"
definition yes :: person_wait where "yes w = (True, w)"

definition hook_answer :: "(hook_decision \<times> dict option \<times> hook_world) option \<Rightarrow> hook_decision option" where
  "hook_answer r = map_option fst r"

section \<open>Properties\<close>

text \<open>C1. No mode lifts the gate. A call that is allowed, handed to a person or left to the engine, whatever
  its mode, tier, memory, grant or terminal, is of a session with a security context, not a shell of an
  external caller, on a machine still paired, and the path policy allowed the tool's input under that
  context (with the SSH hosts the agent's instances name now, for a shell). Entering and leaving Plan
  and the question tool carry nothing to judge.\<close>
theorem no_mode_lifts_the_gate:
  assumes "decide_tool_permission e wait sid tool inp live tuid w = Some (d, u, w')" and "\<And>why. d \<noteq> HDeny why"
    and "resolve_call e sid tool inp live w = (c, w0)" and "tc_role c \<notin> {PLAN_ENTER, QUESTION, PLAN_EXIT}"
  shows "\<exists>ctx ctx' dec plan. get_session_security sid (hw_state w) = Some ctx \<and>
    (ctx' = ctx \<or> ctx' = ctx\<lparr>ssh_hosts := he_ssh_hosts e (sc_agent ctx)\<rparr>) \<and>
    \<not> (principal ctx = ''external'' \<and> tc_role c = SHELL) \<and> check_target_still_valid e ctx = [] \<and>
    check_tool_access (he_host e) (tc_tool c) inp ctx' = Some (dec, plan) \<and> allowed dec"
proof -
  from assms(1) obtain c1 w1 where "decide_call e wait sid tool inp live w = Some (d, c1, w1)"
    by (rule decision_of)
  from decide_inv [OF this assms(2-4)] obtain ctx ctx' dec where
    "get_session_security sid (hw_state w) = Some ctx" "gate_passed e c ctx ctx' dec" by metis
  then show ?thesis using resolve_frame(5) [OF assms(3)] unfolding gate_passed_def by blast
qed

lemma demo_facts:
  "tc_mode (fst (resolve_call demo_env ''s'' ''Bash'' [(''command'', JStr ''ls'')] [] (demo_world PLAN_MODE))) = PLAN_MODE"
  "tc_role (fst (resolve_call demo_env ''s'' ''Bash'' [(''command'', JStr ''ls'')] [] (demo_world PLAN_MODE))) \<notin> {PLAN_ENTER, QUESTION, PLAN_EXIT}"
  "hook_answer (decide_tool_permission demo_env nobody ''s'' ''Bash'' [(''command'', JStr ''ls'')] [] [] (demo_world PLAN_MODE)) = Some HAllow"
  by code_simp+

theorem no_mode_lifts_the_gate_witness:
  "\<exists>ctx ctx' dec plan. get_session_security ''s'' (hw_state (demo_world PLAN_MODE)) = Some ctx \<and>
     check_tool_access demo_host ''Bash'' [(''command'', JStr ''ls'')] ctx' = Some (dec, plan) \<and> allowed dec"
proof -
  let ?i = "[(''command'', JStr ''ls'')]"
  obtain u w' where d: "decide_tool_permission demo_env nobody ''s'' ''Bash'' ?i [] [] (demo_world PLAN_MODE) = Some (HAllow, u, w')"
    using demo_facts(3) by (auto simp: hook_answer_def)
  obtain c w0 where c: "resolve_call demo_env ''s'' ''Bash'' ?i [] (demo_world PLAN_MODE) = (c, w0)" by fastforce
  have "tc_tool (fst (resolve_call demo_env ''s'' ''Bash'' ?i [] (demo_world PLAN_MODE))) = ''Bash''" by code_simp
  with c have t: "tc_tool c = ''Bash''" by simp
  show ?thesis
    using no_mode_lifts_the_gate [OF d _ c] demo_facts(2) c t by (auto simp: demo_env_def)
qed

text \<open>Plan only lets through what it names: in a session in Plan, a call that is not denied is allowed
  outright, and is of a role that reads, an MCP tool of the open tier, a shell call the command gate put
  in the read tier (or git's version check), or an edit of a file under a plans folder. Nothing in Plan
  is handed to a person or to the engine.\<close>
theorem plan_mode_reads:
  assumes "decide_tool_permission e wait sid tool inp live tuid w = Some (d, u, w')" and "\<And>why. d \<noteq> HDeny why"
    and "resolve_call e sid tool inp live w = (c, w0)" and "tc_role c \<notin> {PLAN_ENTER, QUESTION, PLAN_EXIT}"
    and "tc_mode c = PLAN_MODE"
  shows "d = HAllow \<and>
    (tc_role c \<in> set AUTO_APPROVED_ROLES \<or>
     (starts_with (tc_tool c) ''mcp__'' \<and> tool_tier (he_mcp e) (tc_tool c) = ''open'') \<or>
     (tc_role c = SHELL \<and>
       (is_git_version (payload_value (tc_tool c) (Some inp)) \<or>
        (\<exists>ctx dec plan. check_tool_access (he_host e) (tc_tool c) inp ctx = Some (dec, plan) \<and> allowed dec \<and>
           permission_tier dec = TIER_READ))) \<or>
     (tc_role c = WRITE \<and> names_plan_file c))"
proof -
  from assms(1) obtain c1 w1 where "decide_call e wait sid tool inp live w = Some (d, c1, w1)"
    by (rule decision_of)
  from decide_inv [OF this assms(2-4)] obtain ctx ctx' dec c2 w2 where g: "gate_passed e c ctx ctx' dec" "tiered e c2"
    "decide_rest e wait (c2, w2) = Some (d, c1, w1)"
    and c2: "c2 = c\<lparr>tc_ctx := Some ctx', tc_path := Some dec,
         tc_updated := (case updated_input dec of None \<Rightarrow> tc_updated c | Some u \<Rightarrow> Some u),
         tc_server := tc_server c2, tc_tool_only := tc_tool_only c2, tc_tier := tc_tier c2\<rparr>" by metis
  have f: "tc_mode c2 = PLAN_MODE" "tc_tool c2 = tc_tool c" "tc_role c2 = tc_role c" "tc_input c2 = inp"
    "tc_path c2 = Some dec" "tc_auto_approved c2 \<longleftrightarrow> tc_role c \<in> set AUTO_APPROVED_ROLES"
    "tc_file_edit c2 \<longleftrightarrow> tc_role c = WRITE \<and> payload_of (tc_tool c) = FILE_PATH"
    using resolve_frame [OF assms(3)] assms(5) by (subst c2, simp)+
  have np: "names_plan_file c2 = names_plan_file c"
    using f resolve_frame(5) [OF assms(3)] by (simp add: names_plan_file_def)
  have t: "tc_tier c2 = Some ''open'' \<Longrightarrow>
      starts_with (tc_tool c) ''mcp__'' \<and> tool_tier (he_mcp e) (tc_tool c) = ''open''"
    using g(2) f(2) by (auto simp: tiered_def is_mcp_def split: if_splits)
  have p: "call_tier c2 = permission_tier dec" using f(5) by (simp add: call_tier_def)
  have "\<exists>plan. check_tool_access (he_host e) (tc_tool c) inp ctx' = Some (dec, plan)" "allowed dec"
    using g(1) resolve_frame(5) [OF assms(3)] by (simp_all add: gate_passed_def)
  with plan_rest [OF g(3) f(1)] assms(2) t show ?thesis
    unfolding p f(2-4) f(6,7) np by blast
qed

theorem plan_mode_reads_witness:
  "\<exists>ctx dec plan. check_tool_access demo_host ''Bash'' [(''command'', JStr ''ls'')] ctx = Some (dec, plan) \<and> permission_tier dec = TIER_READ"
proof -
  let ?i = "[(''command'', JStr ''ls'')]"
  obtain u w' where d: "decide_tool_permission demo_env nobody ''s'' ''Bash'' ?i [] [] (demo_world PLAN_MODE) = Some (HAllow, u, w')"
    using demo_facts(3) by (auto simp: hook_answer_def)
  obtain c w0 where c: "resolve_call demo_env ''s'' ''Bash'' ?i [] (demo_world PLAN_MODE) = (c, w0)" by fastforce
  have "tc_tool (fst (resolve_call demo_env ''s'' ''Bash'' ?i [] (demo_world PLAN_MODE))) = ''Bash''"
    "tc_role (fst (resolve_call demo_env ''s'' ''Bash'' ?i [] (demo_world PLAN_MODE))) = SHELL" by code_simp+
  with c have t: "tc_tool c = ''Bash''" "tc_role c = SHELL" by simp_all
  have "SHELL \<notin> set AUTO_APPROVED_ROLES" "\<not> starts_with ''Bash'' ''mcp__''" "SHELL \<noteq> WRITE"
    "\<not> is_git_version (payload_value ''Bash'' (Some ?i))" by code_simp+
  then show ?thesis
    using plan_mode_reads [OF d _ c] demo_facts(1,2) c t by (auto simp: demo_env_def)
qed

text \<open>What the read tier of Plan lets through: a \<open>find\<close> that deletes is of the read tier and marked
  destructive; the judge's profile refuses it by the mark, Plan looks at the tier alone.\<close>
theorem plan_lets_find_delete:
  "hook_answer (decide_tool_permission demo_env nobody ''s'' ''Bash'' [(''command'', JStr ''find . -delete'')] [] []
      (demo_world PLAN_MODE)) = Some HAllow \<and>
   hook_answer (decide_tool_permission demo_env nobody ''s'' ''Bash'' [(''command'', JStr ''find . -delete'')] [] []
      (demo_world ASK_MODE)) = Some (HDeny []) \<and>
   (\<exists>why. hook_answer (decide_tool_permission demo_env nobody ''s'' ''Bash'' [(''command'', JStr ''find . -delete'')] [] []
      (demo_world JUDGE_MODE)) = Some (HDeny why))"
proof -
  have p: "hook_answer (decide_tool_permission demo_env nobody ''s'' ''Bash'' [(''command'', JStr ''find . -delete'')] [] []
      (demo_world PLAN_MODE)) = Some HAllow"
    by code_simp
  have a: "hook_answer (decide_tool_permission demo_env nobody ''s'' ''Bash'' [(''command'', JStr ''find . -delete'')] [] []
      (demo_world ASK_MODE)) = Some (HDeny [])"
    by code_simp
  have "hook_answer (decide_tool_permission demo_env nobody ''s'' ''Bash'' [(''command'', JStr ''find . -delete'')] [] []
      (demo_world JUDGE_MODE)) = Some (HDeny (''a judge reads, it does not write '' @ EM_DASH @ '' report the finding instead''))"
    by code_simp
  with p a show ?thesis by blast
qed

text \<open>Plan looks at the first file of a patch: one whose first file is under a plans folder writes the
  others too, where the path policy admits them.\<close>

lemma plan_judges_first_file:
  "hook_answer (decide_tool_permission demo_env nobody ''s'' ''Write''
     [(''file_path'', JStr ''~/.claude/plans/p.md''),
      (''_codex_paths'', JArr [JStr ''~/.claude/plans/p.md'', JStr ''workspace/x.txt''])] [] [] (demo_world PLAN_MODE)) =
   Some HAllow"
  by code_simp



text \<open>A check's judge writes nothing: in the judge's profile a call that is not denied is of a role that
  reads, a shell command in the read tier or a read of a git repository and in both cases not marked
  destructive, or an MCP tool below the critical tier.\<close>
theorem judge_only_reads:
  assumes "decide_tool_permission e wait sid tool inp live tuid w = Some (d, u, w')" and "\<And>why. d \<noteq> HDeny why"
    and "resolve_call e sid tool inp live w = (c, w0)" and "tc_role c \<notin> {PLAN_ENTER, QUESTION, PLAN_EXIT}"
    and "tc_mode c = JUDGE_MODE"
  shows "d = HAllow \<and>
    (tc_role c \<in> set AUTO_APPROVED_ROLES \<or>
     (starts_with (tc_tool c) ''mcp__'' \<and> tool_tier (he_mcp e) (tc_tool c) \<noteq> ''critical'') \<or>
     (\<exists>ctx dec plan. tc_role c = SHELL \<and> check_tool_access (he_host e) (tc_tool c) inp ctx = Some (dec, plan) \<and>
        allowed dec \<and> \<not> destructive dec \<and>
        (permission_tier dec = TIER_READ \<or> read_only_git (payload_value (tc_tool c) (Some inp)))))"
proof -
  from assms(1) obtain c1 w1 where "decide_call e wait sid tool inp live w = Some (d, c1, w1)"
    by (rule decision_of)
  from decide_inv [OF this assms(2-4)] obtain ctx ctx' dec c2 w2 where g: "gate_passed e c ctx ctx' dec" "tiered e c2"
    "decide_rest e wait (c2, w2) = Some (d, c1, w1)"
    and c2: "c2 = c\<lparr>tc_ctx := Some ctx', tc_path := Some dec,
         tc_updated := (case updated_input dec of None \<Rightarrow> tc_updated c | Some u \<Rightarrow> Some u),
         tc_server := tc_server c2, tc_tool_only := tc_tool_only c2, tc_tier := tc_tier c2\<rparr>" by metis
  have f: "tc_mode c2 = JUDGE_MODE" "tc_tool c2 = tc_tool c" "tc_role c2 = tc_role c" "tc_input c2 = inp"
    "tc_path c2 = Some dec" "tc_auto_approved c2 \<longleftrightarrow> tc_role c \<in> set AUTO_APPROVED_ROLES"
    using resolve_frame [OF assms(3)] assms(5) by (subst c2, simp)+
  have t: "is_mcp c2 \<Longrightarrow> \<not> is_critical c2 \<Longrightarrow>
      starts_with (tc_tool c) ''mcp__'' \<and> tool_tier (he_mcp e) (tc_tool c) \<noteq> ''critical''"
    using g(2) f(2) by (auto simp: tiered_def is_mcp_def is_critical_def)
  have p: "call_tier c2 = permission_tier dec" "call_destructive c2 = destructive dec"
    using f(5) by (simp_all add: call_tier_def call_destructive_def)
  have "\<exists>plan. check_tool_access (he_host e) (tc_tool c) inp ctx' = Some (dec, plan)" "allowed dec"
    using g(1) resolve_frame(5) [OF assms(3)] by (simp_all add: gate_passed_def)
  with judge_rest [OF g(3) f(1)] assms(2) t show ?thesis
    unfolding p f(2-4) f(6) by blast
qed

theorem judge_only_reads_witness:
  "\<exists>ctx dec plan. check_tool_access demo_host ''Bash'' [(''command'', JStr ''ls'')] ctx = Some (dec, plan) \<and> \<not> destructive dec"
proof -
  let ?i = "[(''command'', JStr ''ls'')]"
  have h: "hook_answer (decide_tool_permission demo_env nobody ''s'' ''Bash'' ?i [] [] (demo_world JUDGE_MODE)) = Some HAllow"
    by code_simp
  then obtain u w' where d: "decide_tool_permission demo_env nobody ''s'' ''Bash'' ?i [] [] (demo_world JUDGE_MODE) = Some (HAllow, u, w')"
    by (auto simp: hook_answer_def)
  obtain c w0 where c: "resolve_call demo_env ''s'' ''Bash'' ?i [] (demo_world JUDGE_MODE) = (c, w0)" by fastforce
  have "tc_tool (fst (resolve_call demo_env ''s'' ''Bash'' ?i [] (demo_world JUDGE_MODE))) = ''Bash''"
    "tc_role (fst (resolve_call demo_env ''s'' ''Bash'' ?i [] (demo_world JUDGE_MODE))) = SHELL"
    "tc_mode (fst (resolve_call demo_env ''s'' ''Bash'' ?i [] (demo_world JUDGE_MODE))) = JUDGE_MODE" by code_simp+
  with c have t: "tc_tool c = ''Bash''" "tc_role c = SHELL" "tc_mode c = JUDGE_MODE" by simp_all
  have "SHELL \<notin> set AUTO_APPROVED_ROLES" "\<not> starts_with ''Bash'' ''mcp__''" "SHELL \<notin> {PLAN_ENTER, QUESTION, PLAN_EXIT}"
    by code_simp+
  then show ?thesis
    using judge_only_reads [OF d _ c _ t(3)] t by (auto simp: demo_env_def)
qed

text \<open>C7. A critical MCP tool needs a person: whatever the mode, the grants, the memory and the session, a
  call of a tool whose tier is critical is denied, put to the person in their own terminal, or allowed
  by the answer of the person to the card of this very call, in a session of the dashboard; it is never
  left to the engine, and a run nobody attends refuses it.\<close>
theorem critical_needs_a_person:
  assumes "decide_tool_permission e wait sid tool inp live tuid w = Some (d, u, w')"
    and "resolve_call e sid tool inp live w = (c, w0)" and "starts_with (tc_tool c) ''mcp__''"
    and "tool_tier (he_mcp e) (tc_tool c) = ''critical''"
  shows "(\<exists>why. d = HDeny why) \<or> (\<exists>why. d = HAsk why \<and> is_interactive_session e sid) \<or>
    (d = HAllow \<and> (\<exists>w1. fst (wait w1)) \<and> tc_client_type c = session_kind.name DASHBOARD)"
proof (cases "\<exists>why. d = HDeny why")
  case False
  then have nd: "d \<noteq> HDeny why" for why by blast
  note rf = resolve_frame [OF assms(2)]
  have role: "tc_role c = []" using mcp_no_role [OF assms(3)] rf(4) by simp
  then have nr: "tc_role c \<notin> {PLAN_ENTER, QUESTION, PLAN_EXIT}" by (simp add: word_defs)
  from assms(1) obtain c1 w1 where "decide_call e wait sid tool inp live w = Some (d, c1, w1)"
    by (rule decision_of)
  from decide_inv [OF this nd assms(2) nr] obtain ctx' dec c2 w2 where g: "tiered e c2"
    "decide_rest e wait (c2, w2) = Some (d, c1, w1)"
    and c2: "c2 = c\<lparr>tc_ctx := Some ctx', tc_path := Some dec,
         tc_updated := (case updated_input dec of None \<Rightarrow> tc_updated c | Some u \<Rightarrow> Some u),
         tc_server := tc_server c2, tc_tool_only := tc_tool_only c2, tc_tier := tc_tier c2\<rparr>" by metis
  have f: "is_mcp c2" "tc_role c2 = []" "\<not> tc_auto_approved c2" "\<not> tc_file_edit c2"
    "tc_session_id c2 = sid" "tc_client_type c2 = tc_client_type c"
    using rf(3,7,8) role assms(3) by (subst c2, simp add: is_mcp_def AUTO_APPROVED_ROLES_def word_defs)+
  have "tc_tool c2 = tc_tool c" by (subst c2) simp
  then have "is_critical c2" using g(1) f(1) assms(4) by (simp add: tiered_def is_critical_def)
  from critical_rest [OF g(2) this f(1-4)] show ?thesis unfolding f(5,6) by blast
qed simp

definition clock_world :: mcp_world where
  "clock_world = \<lparr>MCPS_DIR = [''m''], resolved = Some,
     manifests = [\<lparr>mf_name = ''platform'', mf_server_name = [], mf_dir = [''m'', ''custom'', ''platform''],
       mf_permissions = Some \<lparr>pb_default_tier = ''standard'', pb_rules = [\<lparr>pr_tool = ''grant'', pr_tier = ''critical''\<rparr>]\<rparr>,
       mf_device_capability = []\<rparr>],
     hint_cache = []\<rparr>"

theorem critical_needs_a_person_witness:
  "\<exists>d. hook_answer (decide_tool_permission (demo_env\<lparr>he_mcp := clock_world\<rparr>) yes ''s'' ''mcp__platform__grant'' [] [] []
     (demo_world DONT_ASK_MODE)) = Some d \<and> d \<noteq> HDefer"
proof -
  let ?e = "demo_env\<lparr>he_mcp := clock_world\<rparr>"
  have h: "hook_answer (decide_tool_permission ?e yes ''s'' ''mcp__platform__grant'' [] [] [] (demo_world DONT_ASK_MODE)) = Some HAllow"
    by code_simp
  then obtain u w' where d: "decide_tool_permission ?e yes ''s'' ''mcp__platform__grant'' [] [] [] (demo_world DONT_ASK_MODE) = Some (HAllow, u, w')"
    by (auto simp: hook_answer_def)
  obtain c w0 where c: "resolve_call ?e ''s'' ''mcp__platform__grant'' [] [] (demo_world DONT_ASK_MODE) = (c, w0)" by fastforce
  have "tc_tool (fst (resolve_call ?e ''s'' ''mcp__platform__grant'' [] [] (demo_world DONT_ASK_MODE))) = ''mcp__platform__grant''"
    by code_simp
  with c have t: "tc_tool c = ''mcp__platform__grant''" by simp
  have "starts_with (tc_tool c) ''mcp__''" "tool_tier (he_mcp ?e) (tc_tool c) = ''critical''" unfolding t by code_simp+
  from critical_needs_a_person [OF d c this] h show ?thesis by auto
qed

text \<open>A destructive command needs a person or the engine's reviewer: in a session of the dashboard in Ask
  or Auto, a shell call the command gate marks destructive is denied, put to the person in the terminal,
  left to a reviewer that runs for this call, or allowed by the person, on a card or, for the bridge's
  second request for the same command, by the Allow just given for it.\<close>
theorem destructive_needs_a_person:
  assumes "decide_tool_permission e wait sid tool inp live tuid w = Some (d, u, w')"
    and "resolve_call e sid tool inp live w = (c, w0)" and "tc_role c = SHELL" and "tc_mode c \<in> {ASK_MODE, AUTO_REVIEW_MODE}"
    and "tc_client_type c = session_kind.name DASHBOARD"
    and "get_session_security sid (hw_state w) = Some ctx"
    and "\<And>hosts dec plan. hosts = ssh_hosts ctx \<or> hosts = he_ssh_hosts e (sc_agent ctx) \<Longrightarrow>
      check_tool_access (he_host e) (tc_tool c) inp (ctx\<lparr>ssh_hosts := hosts\<rparr>) = Some (dec, plan) \<Longrightarrow> destructive dec"
  shows "(\<exists>why. d = HDeny why) \<or> (\<exists>why. d = HAsk why \<and> is_interactive_session e sid) \<or> (d = HDefer \<and> tc_reviews c) \<or>
    (d = HAllow \<and> ((\<exists>w1. fst (wait w1)) \<or>
       (live = [] \<and> fst (take_allowed_call (now (hw_state w0)) sid (call_key SHELL (tc_tool c) inp) (hw_allowed w)))))"
proof (cases "\<exists>why. d = HDeny why")
  case False
  then have nd: "d \<noteq> HDeny why" for why by blast
  note rf = resolve_frame [OF assms(2)]
  have nr: "tc_role c \<notin> {PLAN_ENTER, QUESTION, PLAN_EXIT}" by (simp add: assms(3) word_defs)
  from assms(1) obtain c1 w1 where "decide_call e wait sid tool inp live w = Some (d, c1, w1)"
    by (rule decision_of)
  from decide_inv [OF this nd assms(2) nr] obtain ctx0 ctx' dec c2 w2 where
    s: "get_session_security sid (hw_state w) = Some ctx0" and g: "gate_passed e c ctx0 ctx' dec" "tiered e c2"
    "decide_rest e wait (c2, w2) = Some (d, c1, w1)" "hw_state w2 = hw_state w0" "hw_allowed w2 = hw_allowed w"
    and c2: "c2 = c\<lparr>tc_ctx := Some ctx', tc_path := Some dec,
         tc_updated := (case updated_input dec of None \<Rightarrow> tc_updated c | Some u \<Rightarrow> Some u),
         tc_server := tc_server c2, tc_tool_only := tc_tool_only c2, tc_tier := tc_tier c2\<rparr>" by metis
  have "ctx0 = ctx" using s assms(6) by simp
  with g(1) rf(5) obtain plan where "check_tool_access (he_host e) (tc_tool c) inp ctx' = Some (dec, plan)"
    "ctx' = ctx\<lparr>ssh_hosts := ssh_hosts ctx\<rparr> \<or> ctx' = ctx\<lparr>ssh_hosts := he_ssh_hosts e (sc_agent ctx)\<rparr>"
    by (auto simp: gate_passed_def)
  then have dd: "destructive dec" using assms(7) by blast
  have tool: "tc_tool c2 = tc_tool c" "tc_input c2 = inp" "tc_session_id c2 = sid" "tc_live c2 = live" "tc_reviews c2 = tc_reviews c"
    using rf(3,5,6) by (subst c2, simp)+
  have f: "tc_role c2 = SHELL" "call_destructive c2" "tc_client_type c2 = session_kind.name DASHBOARD"
    "tc_mode c2 \<in> {ASK_MODE, AUTO_REVIEW_MODE}" "\<not> tc_auto_approved c2" "\<not> tc_file_edit c2"
    "tc_mode c2 = tc_mode c"
    using rf(7,8) assms(3-5) dd by (subst c2, simp add: call_destructive_def AUTO_APPROVED_ROLES_def word_defs)+
  have nm: "\<not> is_mcp c2"
    using mcp_no_role [of "tc_tool c"] rf(4) assms(3) tool(1) by (auto simp: is_mcp_def SHELL_def)
  have nc: "\<not> is_critical c2" using g(2) nm by (simp add: tiered_def is_critical_def)
  have rv: "tc_reviews c2 \<Longrightarrow> tc_mode c2 = AUTO_REVIEW_MODE" using rf(9) tool(5) f(7) by simp
  from destructive_rest [OF g(3) f(1-6) nm nc rv] show ?thesis unfolding tool g(4,5) by blast
qed simp

theorem destructive_needs_a_person_witness:
  "\<exists>d. hook_answer (decide_tool_permission demo_env nobody ''s'' ''Bash'' [(''command'', JStr ''find . -delete'')] ''x'' []
     (demo_world AUTO_REVIEW_MODE)) = Some d \<and> d \<noteq> HAllow"
proof -
  let ?i = "[(''command'', JStr ''find . -delete'')]"
  have h: "hook_answer (decide_tool_permission demo_env nobody ''s'' ''Bash'' ?i ''x'' [] (demo_world AUTO_REVIEW_MODE)) \<noteq> None"
    by code_simp
  then obtain d u w' where d: "decide_tool_permission demo_env nobody ''s'' ''Bash'' ?i ''x'' [] (demo_world AUTO_REVIEW_MODE) = Some (d, u, w')"
    by (auto simp: hook_answer_def)
  obtain c w0 where c: "resolve_call demo_env ''s'' ''Bash'' ?i ''x'' (demo_world AUTO_REVIEW_MODE) = (c, w0)" by fastforce
  have "tc_tool (fst (resolve_call demo_env ''s'' ''Bash'' ?i ''x'' (demo_world AUTO_REVIEW_MODE))) = ''Bash''"
    "tc_role (fst (resolve_call demo_env ''s'' ''Bash'' ?i ''x'' (demo_world AUTO_REVIEW_MODE))) = SHELL"
    "tc_mode (fst (resolve_call demo_env ''s'' ''Bash'' ?i ''x'' (demo_world AUTO_REVIEW_MODE))) = AUTO_REVIEW_MODE"
    "tc_client_type (fst (resolve_call demo_env ''s'' ''Bash'' ?i ''x'' (demo_world AUTO_REVIEW_MODE))) = session_kind.name DASHBOARD"
    by code_simp+
  with c have t: "tc_tool c = ''Bash''" "tc_role c = SHELL" "tc_mode c \<in> {ASK_MODE, AUTO_REVIEW_MODE}"
    "tc_client_type c = session_kind.name DASHBOARD" by simp_all
  have s: "get_session_security ''s'' (hw_state (demo_world AUTO_REVIEW_MODE)) = Some demo_ctx" by code_simp
  have hosts: "ssh_hosts demo_ctx = Some []" "he_ssh_hosts demo_env (sc_agent demo_ctx) = Some []" "he_host demo_env = demo_host"
    by (simp_all add: demo_ctx_def demo_env_def)
  have "map_option (\<lambda>(dec, plan). destructive dec) (check_tool_access demo_host ''Bash'' ?i (demo_ctx\<lparr>ssh_hosts := Some []\<rparr>)) = Some True"
    by code_simp
  then have "check_tool_access demo_host ''Bash'' ?i (demo_ctx\<lparr>ssh_hosts := Some []\<rparr>) = Some (dec, plan) \<Longrightarrow> destructive dec" for dec plan
    by simp
  then have "d = HAllow \<Longrightarrow> (\<exists>w1. fst (nobody w1)) \<or> ''x'' = []"
    using destructive_needs_a_person [OF d c t(2-4) s] t(1) hosts by auto
  with d show ?thesis by (auto simp: nobody_def hook_answer_def)
qed

text \<open>A stage that answers or passes on, and leaves the tool and its input.\<close>

definition keeps_call :: "string \<Rightarrow> dict \<Rightarrow> stage \<Rightarrow> bool" where
  "keeps_call tool inp s =
     (\<forall>c w. tc_tool c = tool \<and> tc_input c = inp \<longrightarrow>
        (\<exists>od c' w'. s (c, w) = Some (od, c', w') \<and> tc_tool c' = tool \<and> tc_input c' = inp))"

lemma run_keeps:
  "list_all (keeps_call tool inp) ss \<Longrightarrow> tc_tool c = tool \<Longrightarrow> tc_input c = inp \<Longrightarrow> run_stages ss (c, w) \<noteq> None"
proof (induction ss arbitrary: c w)
  case (Cons s ss)
  from Cons.prems obtain od c' w' where s: "s (c, w) = Some (od, c', w')" "tc_tool c' = tool" "tc_input c' = inp"
    by (simp add: keeps_call_def) blast
  with Cons.IH [of c' w'] Cons.prems show ?case by (cases od) auto
qed (simp add: pass_on_def)

lemma early_keep:
  "keeps_call tool inp no_context" "keeps_call tool inp (meeting_backstop e)" "keeps_call tool inp plan_enter"
  "keeps_call tool inp (question e)" "keeps_call tool inp (plan_exit e wait)" "keeps_call tool inp (attached_ssh_hosts e)"
  "keeps_call tool inp (resolve_mcp_tier e)" "keeps_call tool inp plan_mode" "keeps_call tool inp judge_mode"
  by (auto simp: keeps_call_def no_context_def meeting_backstop_def plan_enter_def question_def plan_exit_def
      attached_ssh_hosts_def resolve_mcp_tier_def plan_mode_def judge_mode_def plan_allow_def says_def pass_on_def Let_def
      split: option.splits prod.splits bool.splits)

lemma path_keeps:
  "(\<And>ctx. check_tool_access (he_host e) tool inp ctx \<noteq> None) \<Longrightarrow> keeps_call tool inp (path_gate e)"
  by (auto simp: keeps_call_def path_gate_def says_def pass_on_def split: option.splits prod.splits)
    (metis option.distinct(1))+

lemma dashboard_keeps: "keeps_call tool inp (dashboard e wait)"
proof -
  have a: "\<exists>od c' w'. ask_person e wait (c, w) = Some (od, c', w') \<and> tc_tool c' = tc_tool c \<and> tc_input c' = tc_input c" for c w
    by (auto simp: ask_person_def terminal_residual_def person_card_def says_def Let_def split: prod.splits)
  have m: "\<exists>od c' w'. mcp_shortcuts e wait (c, w) = Some (od, c', w') \<and> tc_tool c' = tc_tool c \<and> tc_input c' = tc_input c" for c w
    using a by (simp add: mcp_shortcuts_def says_def)
  have b: "\<exists>od c' w'. bridge_allow e wait (c, w) = Some (od, c', w') \<and> tc_tool c' = tc_tool c \<and> tc_input c' = tc_input c" for c w
    using m by (simp add: bridge_allow_def says_def Let_def split: prod.splits bool.splits)
  show ?thesis
    using b by (simp add: keeps_call_def dashboard_def says_def pass_on_def Let_def) blast
qed

text \<open>The hook answers: whenever the path policy answers the call (it does not raise, for the contexts the
  session may be judged under), the hook returns a decision, whatever the mode and whatever the wait on
  a person brings.\<close>
theorem hook_always_answers:
  assumes "\<And>ctx. check_tool_access (he_host e) (tc_tool (fst (resolve_call e sid tool inp live w))) inp ctx \<noteq> None"
  shows "\<exists>d u w'. decide_tool_permission e wait sid tool inp live tuid w = Some (d, u, w')"
proof -
  obtain c0 w0 where c0: "resolve_call e sid tool inp live w = (c0, w0)" by fastforce
  have "list_all (keeps_call (tc_tool c0) inp) (STAGES e wait)"
    using assms by (simp add: STAGES_def early_keep path_keeps dashboard_keeps c0)
  then have "run_stages (STAGES e wait) (c0, w0) \<noteq> None"
    by (rule run_keeps) (simp_all add: resolve_frame(5) [OF c0])
  then have "decide_call e wait sid tool inp live w \<noteq> None"
    by (auto simp: decide_call_def c0 split: option.splits)
  then show ?thesis
    by (auto simp: decide_tool_permission_def Let_def)
qed

theorem hook_always_answers_witness:
  "\<exists>d u w'. decide_tool_permission demo_env nobody ''s'' ''mcp__weather__now'' [] [] ''t'' (demo_world ASK_MODE) = Some (d, u, w')"
proof (rule hook_always_answers)
  have "tc_tool (fst (resolve_call demo_env ''s'' ''mcp__weather__now'' [] [] (demo_world ASK_MODE))) = ''mcp__weather__now''"
    by code_simp
  then show "check_tool_access (he_host demo_env)
      (tc_tool (fst (resolve_call demo_env ''s'' ''mcp__weather__now'' [] [] (demo_world ASK_MODE)))) [] ctx \<noteq> None" for ctx
    by (simp add: check_tool_access_def starts_with_def)
qed

end
