(* ===== verification/GhFlags.thy ===== *)
theory GhFlags
  imports Prelude
begin

text \<open>
  gh's flags by command (\<open>auth/gh_flags.py\<close>): the ones that take a value and the ones that do not, by
  group and, where a group's commands differ, by command. The tables are the module's, entry by entry.
\<close>

definition GLOBAL_BOOLEAN :: "string list" where
  "GLOBAL_BOOLEAN = [''--help'', ''-h'']"

definition VALUE_FLAGS :: "(string \<times> string list) list" where
  "VALUE_FLAGS = [
     (''api'', [''--cache'', ''--field'', ''--header'', ''--hostname'', ''--input'', ''--jq'',
       ''--method'', ''--preview'', ''--raw-field'', ''--template'', ''-F'', ''-H'', ''-X'', ''-f'',
       ''-p'', ''-q'', ''-t'']),
     (''auth'', [''--force'', ''--git-protocol'', ''--hostname'', ''--jq'', ''--json'',
       ''--remove-scopes'', ''--scopes'', ''--template'', ''--user'', ''-f'', ''-h'', ''-p'', ''-r'',
       ''-s'', ''-u'']),
     (''browse'', [''--branch'', ''--commit'', ''--repo'', ''-R'', ''-b'', ''-c'']),
     (''cache'', [''--jq'', ''--json'', ''--key'', ''--limit'', ''--order'', ''--ref'', ''--repo'',
       ''--sort'', ''--succeed-on-no-caches'', ''--template'', ''-L'', ''-O'', ''-R'', ''-S'', ''-k'',
       ''-q'', ''-r'', ''-t'']),
     (''gist'', [''--add'', ''--desc'', ''--filename'', ''--filter'', ''--limit'', ''--remove'', ''-L'',
       ''-a'', ''-d'', ''-f'']),
     (''issue'', [''--add-assignee'', ''--add-blocked-by'', ''--add-blocking'', ''--add-label'',
       ''--add-project'', ''--add-sub-issue'', ''--app'', ''--assignee'', ''--attach'', ''--author'',
       ''--base'', ''--blocked-by'', ''--blocking'', ''--body'', ''--body-file'', ''--branch-repo'',
       ''--comment'', ''--dir'', ''--duplicate-of'', ''--jq'', ''--json'', ''--label'', ''--limit'',
       ''--mention'', ''--milestone'', ''--name'', ''--output'', ''--parent'', ''--project'', ''--reason'',
       ''--recover'', ''--remove-assignee'', ''--remove-blocked-by'', ''--remove-blocking'',
       ''--remove-label'', ''--remove-project'', ''--remove-sub-issue'', ''--repo'', ''--restore-version'',
       ''--search'', ''--state'', ''--template'', ''--title'', ''--type'', ''--version'', ''--worktree'',
       ''-A'', ''-D'', ''-F'', ''-L'', ''-O'', ''-R'', ''-S'', ''-T'', ''-a'', ''-b'', ''-m'', ''-n'',
       ''-p'', ''-q'', ''-r'', ''-s'', ''-t'']),
     (''label'', [''--color'', ''--description'', ''--jq'', ''--json'', ''--limit'', ''--name'',
       ''--order'', ''--repo'', ''--search'', ''--sort'', ''--template'', ''-L'', ''-R'', ''-S'', ''-c'',
       ''-d'', ''-n'', ''-q'', ''-t'']),
     (''pr'', [''--add-assignee'', ''--add-label'', ''--add-project'', ''--add-reviewer'', ''--app'',
       ''--assignee'', ''--attach'', ''--author'', ''--author-email'', ''--base'', ''--body'',
       ''--body-file'', ''--branch'', ''--color'', ''--exclude'', ''--head'', ''--interval'', ''--jq'',
       ''--json'', ''--label'', ''--limit'', ''--match-head-commit'', ''--milestone'', ''--project'',
       ''--reason'', ''--recover'', ''--remove-assignee'', ''--remove-label'', ''--remove-project'',
       ''--remove-reviewer'', ''--repo'', ''--reviewer'', ''--search'', ''--state'', ''--subject'',
       ''--template'', ''--title'', ''--worktree'', ''-A'', ''-B'', ''-F'', ''-H'', ''-L'', ''-R'', ''-S'',
       ''-T'', ''-b'', ''-i'', ''-l'', ''-p'', ''-q'', ''-t'']),
     (''release'', [''--archive'', ''--dir'', ''--discussion-category'', ''--format'', ''--jq'',
       ''--json'', ''--limit'', ''--notes'', ''--notes-file'', ''--notes-start-tag'', ''--order'',
       ''--output'', ''--pattern'', ''--repo'', ''--tag'', ''--target'', ''--template'', ''--title'',
       ''-A'', ''-D'', ''-F'', ''-L'', ''-O'', ''-R'', ''-n'', ''-q'', ''-t'']),
     (''repo'', [''--add-topic'', ''--branch'', ''--default-branch'', ''--description'', ''--fork-name'',
       ''--gitignore'', ''--homepage'', ''--jq'', ''--json'', ''--language'', ''--license'', ''--limit'',
       ''--org'', ''--output'', ''--ref'', ''--remote-name'', ''--remove-topic'', ''--repo'',
       ''--squash-merge-commit-message'', ''--team'', ''--title'', ''--topic'', ''--upstream-remote-name'',
       ''--visibility'', ''-L'', ''-R'', ''-b'', ''-d'', ''-g'', ''-h'', ''-l'', ''-o'', ''-p'', ''-q'',
       ''-r'', ''-s'', ''-t'']),
     (''ruleset'', [''--limit'', ''--org'', ''--repo'', ''-L'', ''-R'', ''-o'']),
     (''run'', [''--attempt'', ''--branch'', ''--commit'', ''--created'', ''--dir'', ''--event'',
       ''--interval'', ''--job'', ''--jq'', ''--json'', ''--limit'', ''--name'', ''--pattern'', ''--repo'',
       ''--status'', ''--template'', ''--user'', ''--workflow'', ''-D'', ''-L'', ''-R'', ''-b'', ''-c'',
       ''-e'', ''-i'', ''-j'', ''-n'', ''-p'', ''-q'', ''-s'', ''-t'', ''-u'']),
     (''search'', [''--app'', ''--assignee'', ''--author'', ''--author-date'', ''--author-email'',
       ''--author-name'', ''--base'', ''--checks'', ''--closed'', ''--commenter'', ''--comments'',
       ''--committer'', ''--committer-date'', ''--committer-email'', ''--committer-name'', ''--created'',
       ''--extension'', ''--filename'', ''--followers'', ''--forks'', ''--good-first-issues'', ''--hash'',
       ''--head'', ''--help-wanted-issues'', ''--include-forks'', ''--interactions'', ''--involves'',
       ''--jq'', ''--json'', ''--label'', ''--language'', ''--license'', ''--limit'', ''--match'',
       ''--mentions'', ''--merged-at'', ''--milestone'', ''--number-topics'', ''--order'', ''--owner'',
       ''--parent'', ''--project'', ''--reactions'', ''--repo'', ''--review'', ''--review-requested'',
       ''--reviewed-by'', ''--search-type'', ''--size'', ''--sort'', ''--stars'', ''--state'',
       ''--team-mentions'', ''--template'', ''--topic'', ''--tree'', ''--updated'', ''--visibility'',
       ''-B'', ''-H'', ''-L'', ''-R'', ''-q'', ''-t'']),
     (''secret'', [''--app'', ''--body'', ''--env'', ''--env-file'', ''--jq'', ''--json'', ''--org'',
       ''--repo'', ''--repos'', ''--template'', ''--visibility'', ''-R'', ''-a'', ''-b'', ''-e'', ''-f'',
       ''-o'', ''-q'', ''-r'', ''-t'', ''-v'']),
     (''status'', [''--exclude'', ''--org'', ''-e'', ''-o'']),
     (''variable'', [''--body'', ''--env'', ''--env-file'', ''--jq'', ''--json'', ''--org'', ''--repo'',
       ''--repos'', ''--template'', ''--visibility'', ''-R'', ''-b'', ''-e'', ''-f'', ''-o'', ''-q'',
       ''-r'', ''-t'', ''-v'']),
     (''workflow'', [''--field'', ''--jq'', ''--limit'', ''--raw-field'', ''--ref'', ''--repo'',
       ''--template'', ''-F'', ''-L'', ''-R'', ''-f'', ''-q'', ''-r'', ''-t''])]"

definition BOOLEAN_FLAGS :: "(string \<times> string list) list" where
  "BOOLEAN_FLAGS = [
     (''api'', [''--allow-escape-sequences'', ''--include'', ''--paginate'', ''--silent'', ''--slurp'',
       ''--verbose'', ''-i'']),
     (''auth'', [''--active'', ''--clipboard'', ''--expiring'', ''--insecure-storage'', ''--no-refresh'',
       ''--reset-scopes'', ''--show-token'', ''--skip-ssh-key'', ''--web'', ''--with-token'', ''-a'',
       ''-c'', ''-t'', ''-w'']),
     (''browse'', [''--actions'', ''--blame'', ''--no-browser'', ''--projects'', ''--releases'',
       ''--settings'', ''--wiki'', ''-a'', ''-n'', ''-p'', ''-r'', ''-s'', ''-w'']),
     (''cache'', [''--all'', ''-a'']),
     (''gist'', [''--allow-escape-sequences'', ''--files'', ''--include-content'', ''--public'', ''--raw'',
       ''--secret'', ''--web'', ''--yes'', ''-p'', ''-w'']),
     (''issue'', [''--checkout'', ''--clobber'', ''--comments'', ''--create-if-none'', ''--delete-last'',
       ''--edit-last'', ''--editor'', ''--list'', ''--remove-milestone'', ''--remove-parent'',
       ''--remove-type'', ''--skip-existing'', ''--web'', ''--yes'', ''-e'', ''-w'']),
     (''label'', [''--force'', ''--web'', ''--yes'', ''-f'', ''-w'']),
     (''pr'', [''--admin'', ''--allow-escape-sequences'', ''--approve'', ''--auto'', ''--comments'',
       ''--conflict-status'', ''--create-if-none'', ''--delete-branch'', ''--delete-last'', ''--detach'',
       ''--disable-auto'', ''--draft'', ''--dry-run'', ''--edit-last'', ''--editor'', ''--fail-fast'',
       ''--fill'', ''--fill-first'', ''--fill-verbose'', ''--force'', ''--merge'', ''--name-only'',
       ''--no-maintainer-edit'', ''--patch'', ''--rebase'', ''--recurse-submodules'',
       ''--remove-milestone'', ''--request-changes'', ''--required'', ''--squash'', ''--undo'',
       ''--watch'', ''--web'', ''--yes'', ''-d'', ''-f'', ''-w'']),
     (''release'', [''--allow-escape-sequences'', ''--cleanup-tag'', ''--clobber'', ''--draft'',
       ''--exclude-drafts'', ''--exclude-pre-releases'', ''--fail-on-no-commits'', ''--generate-notes'',
       ''--latest'', ''--notes-from-tag'', ''--prerelease'', ''--skip-existing'', ''--verify-tag'',
       ''--web'', ''--yes'', ''-d'', ''-w'', ''-y'']),
     (''repo'', [''--accept-visibility-change-consequences'', ''--add-readme'',
       ''--allow-escape-sequences'', ''--allow-forking'', ''--allow-update-branch'', ''--allow-write'',
       ''--archived'', ''--clobber'', ''--clone'', ''--default-branch-only'', ''--delete-branch-on-merge'',
       ''--disable-issues'', ''--disable-wiki'', ''--enable-advanced-security'', ''--enable-auto-merge'',
       ''--enable-discussions'', ''--enable-issues'', ''--enable-merge-commit'', ''--enable-projects'',
       ''--enable-rebase-merge'', ''--enable-secret-scanning'',
       ''--enable-secret-scanning-push-protection'', ''--enable-squash-merge'', ''--enable-wiki'',
       ''--force'', ''--fork'', ''--include-all-branches'', ''--internal'', ''--no-archived'',
       ''--no-upstream'', ''--numeric'', ''--private'', ''--public'', ''--push'', ''--unset'', ''--view'',
       ''--web'', ''--yes'', ''-c'', ''-n'', ''-v'', ''-w'', ''-y'']),
     (''ruleset'', [''--default'', ''--parents'', ''--web'', ''-p'', ''-w'']),
     (''run'', [''--all'', ''--compact'', ''--debug'', ''--exit-status'', ''--failed'', ''--force'',
       ''--log'', ''--log-failed'', ''--verbose'', ''--web'', ''-d'', ''-v'']),
     (''search'', [''--archived'', ''--draft'', ''--include-prs'', ''--locked'', ''--merge'', ''--merged'',
       ''--no-assignee'', ''--no-label'', ''--no-milestone'', ''--no-project'', ''--web'', ''-w'']),
     (''secret'', [''--no-repos-selected'', ''--no-store'', ''--user'', ''-u'']),
     (''workflow'', [''--all'', ''--web'', ''--yaml'', ''-a'', ''-w'', ''-y''])]"

definition COMMAND_VALUE :: "(string \<times> string list) list" where
  "COMMAND_VALUE = [
     (''gist edit'', [''-r'']),
     (''issue close'', [''-c'']),
     (''issue create'', [''-l'']),
     (''issue list'', [''-l'']),
     (''issue reopen'', [''-c'']),
     (''pr close'', [''--comment'', ''-c'']),
     (''pr create'', [''-a'', ''-m'', ''-r'']),
     (''pr diff'', [''-e'']),
     (''pr edit'', [''-m'']),
     (''pr list'', [''-a'', ''-s'']),
     (''pr lock'', [''-r'']),
     (''pr reopen'', [''--comment'', ''-c'']),
     (''release download'', [''-p'']),
     (''repo autolink'', [''--template'']),
     (''repo clone'', [''-u'']),
     (''repo create'', [''--remote'', ''--source'', ''--template'']),
     (''repo deploy-key'', [''--template'']),
     (''repo list'', [''--template'']),
     (''repo read-dir'', [''--template'']),
     (''repo read-file'', [''--template'']),
     (''repo sync'', [''--source'']),
     (''repo view'', [''--template'']),
     (''run list'', [''-w'']),
     (''run view'', [''-a'']),
     (''workflow list'', [''--json''])]"

definition COMMAND_BOOLEAN :: "(string \<times> string list) list" where
  "COMMAND_BOOLEAN = [
     (''gist view'', [''-r'']),
     (''issue develop'', [''-c'', ''-l'']),
     (''issue view'', [''-c'']),
     (''pr comment'', [''-e'']),
     (''pr create'', [''-e'']),
     (''pr merge'', [''-m'', ''-r'', ''-s'']),
     (''pr review'', [''--comment'', ''-a'', ''-c'', ''-r'']),
     (''pr status'', [''-c'']),
     (''pr view'', [''-c'']),
     (''release create'', [''-p'']),
     (''repo edit'', [''--template'']),
     (''repo fork'', [''--remote'']),
     (''repo list'', [''--source'']),
     (''repo set-default'', [''-u'']),
     (''run list'', [''-a'']),
     (''run view'', [''-w'']),
     (''workflow run'', [''--json''])]"


text \<open>\<open>flag in TABLE.get(key, ())\<close>.\<close>

definition listed :: "(string \<times> string list) list \<Rightarrow> string \<Rightarrow> string \<Rightarrow> bool" where
  "listed table key flag = (case lookup table key of None \<Rightarrow> False | Some flags \<Rightarrow> flag \<in> set flags)"

text \<open>Whether a flag takes a value, \<open>None\<close> for a flag gh's help does not list. A command's own entry
  wins over its group's.\<close>

definition takes_value :: "string \<Rightarrow> string \<Rightarrow> string \<Rightarrow> bool option" where
  "takes_value grp verb flag =
     (let command = (if verb \<noteq> [] then grp @ '' '' @ verb else grp) in
      if listed COMMAND_VALUE command flag then Some True
      else if listed COMMAND_BOOLEAN command flag then Some False
      else if listed VALUE_FLAGS grp flag then Some True
      else if listed BOOLEAN_FLAGS grp flag \<or> flag \<in> set GLOBAL_BOOLEAN then Some False
      else None)"

text \<open>No group and no command lists a flag with both arities, except \<open>-h\<close>, where the group's value
  flag wins over the flag of every command.\<close>

definition disjoint_tables :: "(string \<times> string list) list \<Rightarrow> (string \<times> string list) list \<Rightarrow> bool" where
  "disjoint_tables A B = list_all (\<lambda>(k, fs). list_all (\<lambda>f. \<not> listed B k f) fs) A"

lemma gh_tables_disjoint:
  "disjoint_tables VALUE_FLAGS BOOLEAN_FLAGS" "disjoint_tables COMMAND_VALUE COMMAND_BOOLEAN"
  by code_simp+

lemma gh_repo_flags_take_values:
  "list_all (\<lambda>g. takes_value g [] ''--repo'' \<in> {Some True, None} \<and> takes_value g [] ''-R'' \<in> {Some True, None})
     (map fst VALUE_FLAGS)"
  by code_simp

end
