(* ===== verification/GithubReach.thy ===== *)
theory GithubReach
  imports GhFlags PyNet PyRegex "HOL-Library.List_Lexorder" "HOL-Library.Char_ord"
begin

text \<open>
  The GitHub reach of an agent (\<open>auth/github_reach.py\<close>, with \<open>auth/request_path.py\<close>): the repositories
  a binding or a person narrows the agent to, whether it may write, and the judges of the GitHub MCP's
  calls, of git's credential requests and of gh's commands. Text is ASCII. The frozen set of the
  repositories is a list read as a set (\<open>sorted_names\<close> is \<open>sorted\<close> of it); a parsed JSON body is a
  \<open>json\<close> value whose objects still hold every key the text gave; a refusal is its sentence and \<open>[]\<close> is
  none. A call that raises \<open>ValueError\<close> (an address \<open>urlsplit\<close> refuses) is \<open>None\<close>.
\<close>

section \<open>The path guard\<close>

definition has_traversal :: "string \<Rightarrow> bool" where
  "has_traversal path =
     (let low = lower path in
      list_ex (contains low) [''%2e'', ''%2f'', ''%5c'', ''%00''] \<or> BSLASH \<in> set path \<or> CHR 0x00 \<in> set path \<or>
      list_ex (\<lambda>seg. seg \<in> {DOT, DOTDOT}) (split_on SLASH path))"

section \<open>Addresses\<close>

text \<open>\<open>unquote\<close>: an escape that is none stays as it is.\<close>

fun unquote :: "string \<Rightarrow> string" where
  "unquote [] = []"
| "unquote (c # s) =
     (case s of
        a # b # t \<Rightarrow>
          (if c = CHR ''%'' then
             (case (hex_value a, hex_value b) of
                (Some x, Some y) \<Rightarrow> char_of (16 * x + y) # unquote t
              | _ \<Rightarrow> c # unquote s)
           else c # unquote s)
      | _ \<Rightarrow> c # unquote s)"

text \<open>The scheme, network location and path of \<open>urlsplit\<close>.\<close>

definition url_clean :: "string \<Rightarrow> string" where
  "url_clean raw = filter (\<lambda>c. c \<notin> {TAB, CR, NL}) (dropWhile (\<lambda>c. (of_char c :: nat) \<le> 32) raw)"

definition has_scheme :: "string \<Rightarrow> bool" where
  "has_scheme s = (CHR '':'' \<in> set s \<and> before (CHR '':'') s \<noteq> [] \<and> is_letter (hd s) \<and>
     list_all scheme_char (before (CHR '':'') s))"

definition url_scheme :: "string \<Rightarrow> string" where
  "url_scheme raw = (let s = url_clean raw in if has_scheme s then lower (before (CHR '':'') s) else [])"

definition url_path :: "string \<Rightarrow> string" where
  "url_path raw =
     (let s = url_clean raw;
          rest = (if has_scheme s then after (CHR '':'') s else s);
          tail = (if starts_with rest ''//'' then dropWhile (\<lambda>c. c \<notin> set ''/?#'') (drop 2 rest) else rest)
      in takeWhile (\<lambda>c. c \<notin> set ''?#'') tail)"

section \<open>Names\<close>

definition GITHUB_HOSTS :: "string list" where "GITHUB_HOSTS = [''github.com'', ''www.github.com'']"
definition API_HOST :: string where "API_HOST = ''api.github.com''"
definition GIT_SUFFIX :: string where "GIT_SUFFIX = ''.git''"

definition name_char :: "char \<Rightarrow> bool" where
  "name_char c = (c \<in> set ''abcdefghijklmnopqrstuvwxyz0123456789'')"

definition OWNER_RE :: regex where
  "OWNER_RE = seqs [AtStart, Chr name_char, Upto 38 (Chr (\<lambda>c. name_char c \<or> c = CHR ''-'')), AtEnd]"

definition repo_char :: "char \<Rightarrow> bool" where "repo_char c = (name_char c \<or> c \<in> set ''._-'')"

definition NAME_RE :: regex where
  "NAME_RE = seqs [AtStart, Chr repo_char, Upto 99 (Chr repo_char), AtEnd]"

definition drop_suffix :: "string \<Rightarrow> string \<Rightarrow> string" where
  "drop_suffix suf s = (if ends_with s suf then take (length s - length suf) s else s)"

text \<open>\<open>owner/name\<close> in lower case, \<open>[]\<close> when it is not a repository's name.\<close>

definition normalize_name :: "string \<Rightarrow> string" where
  "normalize_name full =
     (let text' = drop_suffix GIT_SUFFIX (lower (strip_of [SLASH] (strip full)));
          owner = before SLASH text'; nm = after SLASH text'
      in if SLASH \<notin> set text' \<or> has_traversal text' \<or> \<not> re_match OWNER_RE owner \<or> \<not> re_match NAME_RE nm then []
         else owner @ [SLASH] @ nm)"

section \<open>A reach\<close>

record reach =
  repositories :: "string list"
  read_only :: bool
  personal :: bool

definition sorted_names :: "reach \<Rightarrow> string list" where
  "sorted_names r = sort (remdups (repositories r))"

definition narrows :: "reach \<Rightarrow> bool" where
  "narrows r = (repositories r \<noteq> [] \<or> read_only r)"

definition allows :: "reach \<Rightarrow> string \<Rightarrow> bool" where
  "allows r full = (repositories r = [] \<or> normalize_name full \<in> set (repositories r))"

definition judged :: "reach \<Rightarrow> dict" where
  "judged r = [(''repositories'', JArr (map JStr (sorted_names r))), (''read_only'', JBool (read_only r))]"

definition to_dict :: "reach \<Rightarrow> dict" where
  "to_dict r = judged r @ (if personal r then [(''personal'', JBool True)] else [])"

text \<open>An unreadable name is dropped. A name that is no string has no \<open>owner/name\<close> form in its \<open>str\<close>.\<close>

definition reach_of :: "string list \<Rightarrow> bool \<Rightarrow> bool \<Rightarrow> reach" where
  "reach_of names ro own =
     \<lparr>repositories = remdups (filter (\<lambda>n. n \<noteq> []) (map normalize_name names)), read_only = ro, personal = own\<rparr>"

definition strings_in :: "json list \<Rightarrow> string list" where
  "strings_in vs = concat (map (\<lambda>v. case v of JStr s \<Rightarrow> [s] | _ \<Rightarrow> []) vs)"

definition from_dict :: "json option \<Rightarrow> reach option" where
  "from_dict data =
     (case data of
        Some (JObj d) \<Rightarrow>
          Some (reach_of (case dget d ''repositories'' of Some (JArr vs) \<Rightarrow> strings_in vs | _ \<Rightarrow> [])
                  (truthy (dget d ''read_only'')) (dget d ''personal'' = Some (JBool True)))
      | _ \<Rightarrow> None)"

text \<open>The stored column is a JSON list; \<open>None\<close> is text that is no JSON.\<close>

definition parse_stored :: "json option \<Rightarrow> string list" where
  "parse_stored value = (case value of Some (JArr vs) \<Rightarrow> strings_in vs | _ \<Rightarrow> [])"

definition dump_stored :: "string list \<Rightarrow> json" where
  "dump_stored names = JArr (map JStr names)"

section \<open>The sentences\<close>

definition MAX_REPOSITORIES :: nat where "MAX_REPOSITORIES = 100"
definition MAX_ADDED_QUALIFIERS :: nat where "MAX_ADDED_QUALIFIERS = 10"
definition PUSH_MARKER :: string where "PUSH_MARKER = ''otodock-read-only''"
definition SHOWN_NAMES :: nat where "SHOWN_NAMES = 5"

definition first_names :: "string list \<Rightarrow> string" where
  "first_names ns =
     join_on '', '' (take SHOWN_NAMES ns) @ '' and '' @ nat_str (length ns - SHOWN_NAMES) @ '' more''"

definition names_shown :: "reach \<Rightarrow> string" where
  "names_shown r =
     (let ns = sorted_names r in if length ns \<le> SHOWN_NAMES then join_on '', '' ns else first_names ns)"

definition names_listed :: "reach \<Rightarrow> string" where
  "names_listed r =
     (let ns = sorted_names r in
      if length ns > SHOWN_NAMES then first_names ns
      else if length ns \<le> 1 then concat ns
      else join_on '', '' (butlast ns) @ '' and '' @ last ns)"

definition only_these :: "reach \<Rightarrow> string" where
  "only_these r =
     (if personal r then ''You limited this agent to '' @ names_listed r @ '' in your GitHub connection.''
      else ''This agent may reach only these GitHub repositories: '' @ names_shown r @ ''.'')"

definition reads_only_sentence :: "reach \<Rightarrow> string" where
  "reads_only_sentence r =
     (if personal r then ''You made this agent read only in your GitHub connection.''
      else ''This agent may only read on GitHub.'')"

definition outside_sentence :: "reach \<Rightarrow> string \<Rightarrow> string" where
  "outside_sentence r nm = only_these r @ '' '' @ nm @ '' is not one of them.''"

definition read_only_sentence :: "reach \<Rightarrow> string \<Rightarrow> string \<Rightarrow> string" where
  "read_only_sentence r what outcome =
     reads_only_sentence r @ '' '' @ what @ '' changes something, so '' @ outcome @ ''.''"

definition push_refused :: "reach \<Rightarrow> string" where
  "push_refused r = reads_only_sentence r @ '' git push was refused.''"

definition helper_too_old :: "reach \<Rightarrow> string" where
  "helper_too_old r =
     (if personal r then ''You limited this agent to some repositories in your GitHub connection''
      else ''This agent may reach only some GitHub repositories'') @
     '', and this session's credential helper does not say which one a command needs. Start a new session.''"

definition EVERY_CHANGE :: string where
  "EVERY_CHANGE = ''Every change (a commit, a push, an issue, a comment, a merge) is refused.''"

definition instructions_line :: "reach \<Rightarrow> string" where
  "instructions_line r = join_on [NL]
     ([''## Your GitHub reach'', []] @
      (if repositories r \<noteq> [] then
         [(if personal r
           then ''Your user limited this agent to '' @ names_listed r @ '' in their GitHub connection.''
           else only_these r) @
          '' Any other repository is refused, in the GitHub tool and in git and gh.'']
       else []) @
      (if read_only r then
         [(if personal r then ''Your user made this agent read only in their GitHub connection.''
           else reads_only_sentence r) @ '' '' @ EVERY_CHANGE]
       else []))"

definition widening_sentence :: "reach \<Rightarrow> string" where
  "widening_sentence r = only_these r @
     '' A search names them with repo:owner/name. It may not use org:, user:, owner:, OR, or NOT before repo:, and gh may not use --owner, --org or --user.''"

definition UNREADABLE :: string where
  "UNREADABLE = ''This request to GitHub could not be read, so it was refused.''"
definition METHOD_REFUSED :: string where
  "METHOD_REFUSED = ''This agent's GitHub reach does not allow this request.''"
definition PATH_REFUSED :: string where
  "PATH_REFUSED = ''A path in this request could lead outside the repository, so it was refused.''"

section \<open>Names in a request\<close>

abbreviation segments :: "string \<Rightarrow> string list" where
  "segments s \<equiv> filter (\<lambda>x. x \<noteq> []) (split_on SLASH s)"

definition name_of_url :: "string \<Rightarrow> string" where
  "name_of_url url =
     (let u = strip url in
      case url_netloc u of
        None \<Rightarrow> []
      | Some n \<Rightarrow>
          (let h = url_hostname n; segs = map unquote (segments (url_path u)) in
           if h \<in> set GITHUB_HOSTS \<and> length segs \<ge> 2 then normalize_name (segs ! 0 @ [SLASH] @ segs ! 1)
           else if h = API_HOST \<and> length segs \<ge> 3 \<and> segs ! 0 = ''repos''
           then normalize_name (segs ! 1 @ [SLASH] @ segs ! 2)
           else []))"

text \<open>The scp form \<open>user@host:path\<close>: the host and the path. Such a text has no scheme and does not begin
  with a slash, so \<open>urlsplit\<close> gives it no network location.\<close>

definition host_char :: "char \<Rightarrow> bool" where "host_char c = (is_word c \<or> c \<in> set ''.-'')"

definition scp_form :: "string \<Rightarrow> (string \<times> string) option" where
  "scp_form s =
     (let user = takeWhile host_char s; t = drop (length user) s;
          h = takeWhile host_char (tl t); u = drop (length h) (tl t)
      in if user \<noteq> [] \<and> starts_with t ''@'' \<and> h \<noteq> [] \<and> starts_with u '':'' \<and> tl u \<noteq> [] \<and> NL \<notin> set (tl u)
         then Some (h, tl u) else None)"

definition name_of_remote :: "string \<Rightarrow> string" where
  "name_of_remote remote =
     (case scp_form (strip remote) of
        Some (h, path) \<Rightarrow> if lower h \<in> set GITHUB_HOSTS then normalize_name path else []
      | None \<Rightarrow> name_of_url (strip remote))"

definition PAIRS :: "(string \<times> string) list" where
  "PAIRS = [(''owner'', ''repo''), (''parent_owner'', ''parent_repo''), (''item_owner'', ''item_repo''),
     (''owner'', ''repository_name'')]"
definition FULL_NAME_KEYS :: "string list" where "FULL_NAME_KEYS = [''repo'', ''repository'', ''full_name'']"
definition QUERY_KEYS :: "string list" where "QUERY_KEYS = [''query'', ''q'']"
definition FREE_TEXT_KEYS :: "string list" where
  "FREE_TEXT_KEYS = [''body'', ''title'', ''content'', ''message'', ''commit_message'', ''commit_title'',
     ''description'', ''query'', ''q'', ''value'', ''labels'', ''field_name'', ''field_option_name'']"
definition URL_KEY_SUFFIX :: string where "URL_KEY_SUFFIX = ''url''"
definition MAX_DEPTH :: nat where "MAX_DEPTH = 6"

definition raw_pair :: "string \<Rightarrow> string \<Rightarrow> string" where
  "raw_pair owner repo = lower (strip owner) @ [SLASH] @ lower (strip repo)"

definition pair_names :: "dict \<Rightarrow> string list" where
  "pair_names d = concat (map (\<lambda>(ok, rk).
     case (nonempty_str (dget d ok), nonempty_str (dget d rk)) of
       (Some owner, Some repo) \<Rightarrow> [or_else (normalize_name (owner @ [SLASH] @ repo)) (raw_pair owner repo)]
     | _ \<Rightarrow> []) PAIRS)"

definition value_names :: "dict \<Rightarrow> string \<Rightarrow> string \<Rightarrow> string list" where
  "value_names d key v =
     (if v = [] then []
      else if lower key \<in> set FULL_NAME_KEYS \<and> SLASH \<in> set v \<and> \<not> truthy (dget d ''owner'')
      then [or_else (normalize_name v) (lower (strip v))]
      else if ends_with (lower key) URL_KEY_SUFFIX \<and> name_of_url v \<noteq> [] then [name_of_url v]
      else [])"

text \<open>\<open>levels\<close> is the depth left: \<open>MAX_DEPTH + 1\<close> at the top, nothing is read at 0.\<close>

fun named_in_arguments :: "nat \<Rightarrow> json \<Rightarrow> string list" where
  "named_in_arguments 0 args = []"
| "named_in_arguments (Suc levels) args =
     (case args of
        JArr xs \<Rightarrow> concat (map (named_in_arguments levels) xs)
      | JObj d \<Rightarrow> pair_names d @
          concat (map (\<lambda>(key, v). case v of
             JObj _ \<Rightarrow> named_in_arguments levels v
           | JArr _ \<Rightarrow> named_in_arguments levels v
           | JStr s \<Rightarrow> value_names d key s
           | _ \<Rightarrow> []) d)
      | _ \<Rightarrow> [])"

fun steps_out :: "nat \<Rightarrow> string \<Rightarrow> json \<Rightarrow> bool" where
  "steps_out 0 key args = True"
| "steps_out (Suc levels) key args =
     (case args of
        JObj d \<Rightarrow> list_ex (\<lambda>(k, v). steps_out levels (lower k) v) d
      | JArr xs \<Rightarrow> list_ex (steps_out levels key) xs
      | JStr s \<Rightarrow> key \<notin> set FREE_TEXT_KEYS \<and> (has_traversal s \<or> CHR ''%'' \<in> set s)
      | _ \<Rightarrow> False)"

section \<open>Searches\<close>

definition QUERY_MAX :: nat where "QUERY_MAX = 1024"

text \<open>The start of the text, or after a blank or an opening parenthesis.\<close>

definition qualifier_start :: regex where
  "qualifier_start = NotBehind (\<lambda>c. \<not> is_space c \<and> c \<noteq> CHR ''('')"

definition WIDENING_QUALIFIER :: regex where
  "WIDENING_QUALIFIER = seqs [qualifier_start, opt (lit ''-''),
     alts [lit_ci ''org'', lit_ci ''user'', lit_ci ''owner'', lit_ci ''enterprise''], lit '':'']"

definition OR_OPERATOR :: regex where
  "OR_OPERATOR = seqs [qualifier_start, lit ''OR'', Ahead (Alt (Chr (\<lambda>c. is_space c \<or> c = CHR '')'')) AtEnd)]"

definition NOT_REPO :: regex where
  "NOT_REPO = seqs [qualifier_start, lit_ci ''not'', Atomic (plus space),
     Star (Chr (\<lambda>c. c = CHR ''('' \<or> is_space c)), opt (lit ''-''), lit_ci ''repo:'']"

definition widens :: "string \<Rightarrow> bool" where
  "widens query = (length query > QUERY_MAX \<or> re_search WIDENING_QUALIFIER query \<or> re_search OR_OPERATOR query \<or>
     re_search NOT_REPO query)"

text \<open>The pattern \<open>_REPO_QUALIFIER\<close> at a position: whether it is negated, the name, where it ends. Its
  last group repeats the quote its second one read.\<close>

definition repo_qualifier :: "cursor \<Rightarrow> (bool \<times> string \<times> cursor) option" where
  "repo_qualifier k =
     (let neg = starts_with (snd k) ''-''; s = (if neg then tl (snd k) else snd k);
          t = drop 5 s; quoted = starts_with t [DQUOTE]; u = (if quoted then tl t else t);
          nm = takeWhile (\<lambda>c. \<not> is_space c \<and> c \<noteq> DQUOTE \<and> c \<noteq> CHR '')'') u; v = drop (length nm) u
      in if (case fst k of None \<Rightarrow> True | Some c \<Rightarrow> is_space c \<or> c = CHR ''('') \<and> lower (take 5 s) = ''repo:'' \<and> nm \<noteq> []
         then (if \<not> quoted then Some (neg, nm, (Some (last nm), v))
               else if starts_with v [DQUOTE] then Some (neg, nm, (Some DQUOTE, tl v))
               else None)
         else None)"

lemma repo_qualifier_less:
  assumes "repo_qualifier k = Some (neg, nm, e)"
  shows "length (snd e) < length (snd k)"
proof -
  define s where "s = (if starts_with (snd k) ''-'' then tl (snd k) else snd k)"
  have "lower (take 5 s) = ''repo:''"
    using assms by (auto simp: repo_qualifier_def Let_def s_def split: if_splits)
  then have "length (lower (take 5 s)) = 5" by simp
  then have "length (take 5 s) = 5" by (simp add: lower_def)
  then have "5 \<le> length s" by simp
  moreover have "length s \<le> length (snd k)" by (simp add: s_def)
  moreover have "length (snd e) \<le> length (drop 5 s)"
    using assms by (auto simp: repo_qualifier_def Let_def s_def split: if_splits)
  ultimately show ?thesis by simp
qed

text \<open>\<open>finditer\<close> of the pattern: every match in turn, the next one after the end of the last.\<close>

function repo_qualifiers :: "cursor \<Rightarrow> (bool \<times> string) list" where
  "repo_qualifiers k =
     (if snd k = [] then []
      else (case repo_qualifier k of
              Some (neg, nm, e) \<Rightarrow> (neg, nm) # repo_qualifiers e
            | None \<Rightarrow> repo_qualifiers (next_cursor k)))"
  by pat_completeness auto
termination
  by (relation "measure (length \<circ> snd)")
    (auto simp: next_cursor_def dest: repo_qualifier_less split: list.splits)

declare repo_qualifiers.simps [simp del]

definition named_in_query :: "string \<Rightarrow> string list" where
  "named_in_query query =
     (if length query > QUERY_MAX then []
      else map (\<lambda>(_, nm). or_else (normalize_name nm) (lower nm)) (filter (\<lambda>(neg, _). \<not> neg) (repo_qualifiers (None, query))))"

section \<open>The MCP's tool calls\<close>

definition IDENTITY_TOOLS :: "string list" where "IDENTITY_TOOLS = [''get_me'', ''get_teams'', ''get_team_members'']"
definition REFUSED_TOOLS :: "string list" where
  "REFUSED_TOOLS = [''create_repository'', ''fork_repository'', ''sub_issue_write'']"
definition SEARCH_TOOLS :: "string list" where
  "SEARCH_TOOLS = [''search_code'', ''search_issues'', ''search_pull_requests'', ''search_repositories'',
     ''search_commits'']"

definition first_outside :: "reach \<Rightarrow> string list \<Rightarrow> string" where
  "first_outside r ns =
     (case find (\<lambda>n. n \<notin> set (repositories r)) ns of None \<Rightarrow> [] | Some n \<Rightarrow> outside_sentence r n)"

definition query_key_of :: "string \<Rightarrow> dict \<Rightarrow> string option" where
  "query_key_of tool args =
     (if tool \<in> set SEARCH_TOOLS
      then find (\<lambda>k. case dget args k of Some (JStr _) \<Rightarrow> True | _ \<Rightarrow> False) QUERY_KEYS else None)"

definition query_of :: "dict \<Rightarrow> string \<Rightarrow> string" where
  "query_of args k = (case dget args k of Some (JStr q) \<Rightarrow> q | _ \<Rightarrow> [])"

definition added_qualifiers :: "reach \<Rightarrow> string" where
  "added_qualifiers r = join_on '' '' (map (\<lambda>n. ''repo:'' @ n) (sorted_names r))"

text \<open>The refusal, and the arguments when the judge changed them.\<close>

definition judge_call :: "(string \<Rightarrow> bool option) \<Rightarrow> reach \<Rightarrow> string \<Rightarrow> dict \<Rightarrow> string \<times> dict option" where
  "judge_call writes r tool args =
     (if read_only r \<and> writes tool = Some True
      then (read_only_sentence r (''The tool '' @ tool) ''it was refused'', None)
      else if repositories r = [] \<or> tool \<in> set IDENTITY_TOOLS then ([], None)
      else if tool \<in> set REFUSED_TOOLS
      then (only_these r @ '' The tool '' @ tool @ '' is not allowed for it.'', None)
      else if steps_out (MAX_DEPTH + 1) [] (JObj args) then (PATH_REFUSED, None)
      else
        (let named = named_in_arguments (MAX_DEPTH + 1) (JObj args) in
         case query_key_of tool args of
           Some k \<Rightarrow>
             (let q = query_of args k; ns = named @ named_in_query q in
              if widens q then (widening_sentence r, None)
              else if first_outside r ns \<noteq> [] then (first_outside r ns, None)
              else if ns \<noteq> [] then ([], None)
              else if length (sorted_names r) > MAX_ADDED_QUALIFIERS
              then (only_these r @ '' Add repo:owner/name to the search.'', None)
              else ([], Some (dict_set k (JStr (strip (q @ '' '' @ added_qualifiers r))) args)))
         | None \<Rightarrow>
             if first_outside r named \<noteq> [] then (first_outside r named, None)
             else if named \<noteq> [] then ([], None)
             else (only_these r @ '' The tool '' @ tool @ '' names none of them.'', None)))"

definition PLAIN_METHODS :: "string list" where
  "PLAIN_METHODS = [''initialize'', ''ping'', ''tools/list'', ''resources/list'', ''resources/templates/list'',
     ''prompts/list'', ''logging/setLevel'']"
definition PLAIN_PREFIXES :: "string list" where "PLAIN_PREFIXES = [''notifications/'', ''tasks/'']"
definition ENVELOPE_KEYS :: "string list" where "ENVELOPE_KEYS = [''jsonrpc'', ''id'', ''method'', ''params'']"
definition ANSWER_KEYS :: "string list" where "ANSWER_KEYS = [''jsonrpc'', ''id'', ''result'', ''error'']"
definition JUDGED_PARAMS :: "string list" where
  "JUDGED_PARAMS = [''name'', ''arguments'', ''uri'', ''_meta'', ''task'']"
definition KNOWN_KEYS :: "string list" where
  "KNOWN_KEYS = ENVELOPE_KEYS @ ANSWER_KEYS @ JUDGED_PARAMS @ concat (map (\<lambda>(a, b). [a, b]) PAIRS) @
     FULL_NAME_KEYS @ QUERY_KEYS"

text \<open>\<open>{k: d[k] for k in ks if k in d}\<close>.\<close>

definition restricted :: "string list \<Rightarrow> dict \<Rightarrow> dict" where
  "restricted ks d = concat (map (\<lambda>k. case dget d k of None \<Rightarrow> [] | Some v \<Rightarrow> [(k, v)]) ks)"

text \<open>\<open>str(v or "")\<close>, for a value that is no string through the parameter \<open>str_of\<close>.\<close>

definition str_or_empty :: "(json \<Rightarrow> string) \<Rightarrow> json option \<Rightarrow> string" where
  "str_or_empty str_of v =
     (if \<not> truthy v then []
      else (case v of Some (JStr s) \<Rightarrow> s | Some j \<Rightarrow> str_of j | None \<Rightarrow> []))"

definition resource_name :: "string \<Rightarrow> string option" where
  "resource_name uri =
     (if uri = [] then Some []
      else (case url_netloc uri of
              None \<Rightarrow> None
            | Some n \<Rightarrow>
                (let segs = segments (n @ url_path uri) in
                 Some (if url_scheme uri = ''repo'' \<and> length segs \<ge> 2
                       then normalize_name (join_on [SLASH] (take 2 segs)) else []))))"

definition judge_resource :: "reach \<Rightarrow> string \<Rightarrow> string option" where
  "judge_resource r uri =
     (if repositories r = [] then Some []
      else if has_traversal uri \<or> CHR ''%'' \<in> set uri then Some PATH_REFUSED
      else map_option (\<lambda>nm.
        if nm = [] then only_these r @ '' This resource names none of them.''
        else if nm \<notin> set (repositories r) then outside_sentence r nm
        else []) (resource_name uri))"

definition judge_prompt :: "reach \<Rightarrow> json option \<Rightarrow> string" where
  "judge_prompt r args =
     (if repositories r = [] then []
      else (case args of
              None \<Rightarrow> []
            | Some a \<Rightarrow>
                if steps_out (MAX_DEPTH + 1) [] a then PATH_REFUSED
                else first_outside r (named_in_arguments (MAX_DEPTH + 1) a)))"

text \<open>What a judge needs of outside: which tools write (a server's annotations), \<open>str\<close> of a value that
  is no string.\<close>

record judge_env =
  je_writes :: "string \<Rightarrow> bool option"
  je_str :: "json \<Rightarrow> string"

definition params_of :: "dict \<Rightarrow> dict" where
  "params_of msg = (case dget msg ''params'' of Some (JObj p) \<Rightarrow> p | _ \<Rightarrow> [])"

definition judged_envelope :: "dict \<Rightarrow> dict" where
  "judged_envelope msg =
     (if dget msg ''params'' \<in> {None, Some JNull} then restricted ENVELOPE_KEYS msg
      else dict_set ''params'' (JObj (restricted JUDGED_PARAMS (params_of msg))) (restricted ENVELOPE_KEYS msg))"

definition judge_tool_message :: "judge_env \<Rightarrow> reach \<Rightarrow> dict \<Rightarrow> string \<times> json" where
  "judge_tool_message e r msg =
     (let params = params_of msg;
          args = (case dget params ''arguments'' of Some (JObj a) \<Rightarrow> a | _ \<Rightarrow> []);
          (refusal, new) = judge_call (je_writes e) r (str_or_empty (je_str e) (dget params ''name'')) args
      in case (refusal, new) of
           ([], Some a) \<Rightarrow>
             ([], JObj (dict_set ''params'' (JObj (dict_set ''arguments'' (JObj a) (restricted JUDGED_PARAMS params)))
                    (judged_envelope msg)))
         | _ \<Rightarrow> (refusal, JObj (judged_envelope msg)))"

text \<open>One JSON-RPC message: its refusal, and the message to forward. Outer \<open>None\<close> is a raise.\<close>

definition judge_message :: "judge_env \<Rightarrow> reach \<Rightarrow> json \<Rightarrow> (string \<times> json) option" where
  "judge_message e r m =
     (case m of
        JObj msg \<Rightarrow>
          (case dget msg ''method'' of
             None \<Rightarrow> Some (if dget msg ''result'' = None \<and> dget msg ''error'' = None then (UNREADABLE, m)
                           else ([], JObj (restricted ANSWER_KEYS msg)))
           | Some JNull \<Rightarrow> Some (if dget msg ''result'' = None \<and> dget msg ''error'' = None then (UNREADABLE, m)
                           else ([], JObj (restricted ANSWER_KEYS msg)))
           | Some (JStr meth) \<Rightarrow>
               if meth \<in> set PLAIN_METHODS \<or> list_ex (starts_with meth) PLAIN_PREFIXES
               then Some ([], JObj (restricted ENVELOPE_KEYS msg))
               else if (case dget msg ''params'' of None \<Rightarrow> False | Some JNull \<Rightarrow> False | Some (JObj _) \<Rightarrow> False | _ \<Rightarrow> True)
               then Some (UNREADABLE, m)
               else if meth = ''tools/call'' then Some (judge_tool_message e r msg)
               else if meth = ''resources/read''
               then map_option (\<lambda>refusal. (refusal, JObj (judged_envelope msg)))
                      (judge_resource r (str_or_empty (je_str e) (dget (params_of msg) ''uri'')))
               else if meth = ''prompts/get''
               then Some (judge_prompt r (dget (params_of msg) ''arguments''), JObj (judged_envelope msg))
               else Some (METHOD_REFUSED, JObj (judged_envelope msg))
           | _ \<Rightarrow> Some (UNREADABLE, m))
      | _ \<Rightarrow> Some (UNREADABLE, m))"

text \<open>The strict reading of an object: no key twice, not even in another case, no key the judge reads in
  another case, only printable characters.\<close>

definition printable :: "char \<Rightarrow> bool" where
  "printable c = (let n = (of_char c :: nat) in 0x20 \<le> n \<and> n \<le> 0x7E)"

definition strict_keys :: "string list \<Rightarrow> bool" where
  "strict_keys ks = (list_all (list_all printable) ks \<and> distinct (map lower ks) \<and>
     list_all (\<lambda>k. lower k \<in> set KNOWN_KEYS \<longrightarrow> k = lower k) ks)"

fun strict_object :: "json \<Rightarrow> bool" where
  "strict_object (JObj kvs) = (strict_keys (map fst kvs) \<and> list_all (\<lambda>(_, v). strict_object v) kvs)"
| "strict_object (JArr vs) = list_all strict_object vs"
| "strict_object _ = True"

text \<open>The verdict of a POST body: the refusal, and what to forward when it is none (\<open>None\<close>: the body as it
  came). \<open>doc\<close> is the body's JSON, \<open>None\<close> when it is no text or no JSON.\<close>

record verdict =
  refusal :: string
  forward :: "json option"

fun judge_messages :: "judge_env \<Rightarrow> reach \<Rightarrow> json list \<Rightarrow> (string \<times> json list) option" where
  "judge_messages e r [] = Some ([], [])"
| "judge_messages e r (m # ms) =
     (case judge_message e r m of
        None \<Rightarrow> None
      | Some (bad, new) \<Rightarrow>
          if bad \<noteq> [] then Some (bad, [])
          else map_option (\<lambda>(bad', out). (bad', new # out)) (judge_messages e r ms))"

definition judge_mcp :: "judge_env \<Rightarrow> reach \<Rightarrow> bool \<Rightarrow> json option \<Rightarrow> verdict option" where
  "judge_mcp e r no_body doc =
     (if \<not> narrows r \<or> no_body then Some \<lparr>refusal = [], forward = None\<rparr>
      else (case doc of
              None \<Rightarrow> Some \<lparr>refusal = UNREADABLE, forward = None\<rparr>
            | Some d \<Rightarrow>
                if \<not> strict_object d \<or> (case d of JObj _ \<Rightarrow> False | JArr ms \<Rightarrow> ms = [] | _ \<Rightarrow> True)
                then Some \<lparr>refusal = UNREADABLE, forward = None\<rparr>
                else map_option (\<lambda>(bad, out).
                       if bad \<noteq> [] then \<lparr>refusal = bad, forward = None\<rparr>
                       else \<lparr>refusal = [], forward = Some (case d of JArr _ \<Rightarrow> JArr out | _ \<Rightarrow> out ! 0)\<rparr>)
                     (judge_messages e r (case d of JArr ms \<Rightarrow> ms | _ \<Rightarrow> [d]))))"

section \<open>git\<close>

definition judge_git :: "reach \<Rightarrow> string \<Rightarrow> string" where
  "judge_git r path =
     (if \<not> narrows r then []
      else
        (let t = strip path; segs = segments t in
         if segs \<noteq> [] \<and> lower (hd segs) = PUSH_MARKER then push_refused r
         else if has_traversal t \<or> CHR ''%'' \<in> set t then UNREADABLE
         else if repositories r = [] then []
         else if length segs < 2 then helper_too_old r
         else
           (let full = segs ! 0 @ [SLASH] @ segs ! 1; nm = or_else (normalize_name full) (lower full) in
            if nm \<notin> set (repositories r) then outside_sentence r nm else [])))"

section \<open>gh\<close>

definition GH_READS :: "(string \<times> string list) list" where
  "GH_READS = [
     (''repo'', [''view'', ''list'', ''clone'', ''read-file'', ''read-dir'']),
     (''pr'', [''view'', ''list'', ''diff'', ''checks'', ''status'', ''checkout'']),
     (''issue'', [''view'', ''list'', ''status'']),
     (''release'', [''view'', ''list'', ''download'']),
     (''run'', [''view'', ''list'', ''watch'', ''download'']),
     (''workflow'', [''view'', ''list'']),
     (''label'', [''list'']),
     (''gist'', [''view'', ''list'']),
     (''cache'', [''list'']),
     (''ruleset'', [''view'', ''list'', ''check'']),
     (''auth'', [''status'']),
     (''search'', [''*'']),
     (''status'', [''*'']),
     (''browse'', [''*'']),
     (''api'', [''*''])]"

definition GH_NO_VERB :: "string list" where "GH_NO_VERB = [''api'', ''status'', ''browse'']"
definition GH_IN_A_REPOSITORY :: "string list" where
  "GH_IN_A_REPOSITORY = [''pr'', ''issue'', ''release'', ''run'', ''workflow'', ''label'', ''cache'', ''ruleset'',
     ''secret'', ''variable'', ''browse'', ''repo'']"
definition GH_REPO_FLAGS :: "string list" where "GH_REPO_FLAGS = [''-R'', ''--repo'']"
definition GH_WRITE_FLAGS :: "string list" where
  "GH_WRITE_FLAGS = [''-f'', ''-F'', ''--field'', ''--raw-field'', ''--input'']"
definition GH_METHOD_FLAGS :: "string list" where "GH_METHOD_FLAGS = [''-X'', ''--method'']"
definition GH_HOST_FLAGS :: "string list" where "GH_HOST_FLAGS = [''--hostname'']"
definition GH_SHOW_TOKEN :: "string list" where "GH_SHOW_TOKEN = [''-t'', ''--show-token'']"
definition GH_TOKEN_VERBS :: "string list" where "GH_TOKEN_VERBS = [''token'', ''git-credential'']"
definition GH_PLACEHOLDERS :: "string list" where "GH_PLACEHOLDERS = [''{owner}'', ''{repo}'']"
definition GH_REPO_TARGET :: "string list" where
  "GH_REPO_TARGET = [''view'', ''clone'', ''edit'', ''delete'', ''archive'', ''unarchive'', ''sync'', ''set-default'']"
definition GH_REPO_NOT_ALLOWED :: "string list" where "GH_REPO_NOT_ALLOWED = [''create'', ''fork'', ''list'']"
definition GH_QUERY_FLAGS :: "string list" where "GH_QUERY_FLAGS = [''--search'', ''-S'']"
definition GH_QUERY_GROUPS :: "string list" where "GH_QUERY_GROUPS = [''pr'', ''issue'']"
definition GH_WIDENING_FLAGS :: "(string \<times> string list) list" where
  "GH_WIDENING_FLAGS = [(''search'', [''--owner'']), (''secret'', [''--org'', ''-o'', ''--user'', ''-u'']),
     (''variable'', [''--org'', ''-o'']), (''ruleset'', [''--org'', ''-o''])]"
definition GH_UNREADABLE :: string where
  "GH_UNREADABLE = ''OtoDock does not know a flag of this gh command, so it did not run. Write the flag and its value as --name=value.''"
definition GH_SHOWS_TOKEN :: string where
  "GH_SHOWS_TOKEN = ''This gh command would print the token, so it did not run.''"

record gh_command =
  gc_words :: "string list"
  gc_flags :: "(string \<times> string option) list"
  gc_unreadable :: bool

definition no_command :: gh_command where
  "no_command = \<lparr>gc_words = [], gc_flags = [], gc_unreadable = False\<rparr>"

definition flag_values :: "string list \<Rightarrow> gh_command \<Rightarrow> string list" where
  "flag_values fs c = concat (map (\<lambda>(f, v). if f \<in> set fs then (case v of None \<Rightarrow> [] | Some x \<Rightarrow> [x]) else []) (gc_flags c))"

definition has_flag :: "string list \<Rightarrow> gh_command \<Rightarrow> bool" where
  "has_flag fs c = list_ex (\<lambda>(f, _). f \<in> set fs) (gc_flags c)"

definition gh_group :: "gh_command \<Rightarrow> string" where
  "gh_group c = (case gc_words c of [] \<Rightarrow> [] | g # _ \<Rightarrow> g)"

definition gh_verb :: "gh_command \<Rightarrow> string" where
  "gh_verb c = (case gc_words c of g # v # _ \<Rightarrow> if g \<in> set GH_NO_VERB then [] else v | _ \<Rightarrow> [])"

definition gh_args :: "gh_command \<Rightarrow> string list" where
  "gh_args c = drop (if gh_group c \<in> set GH_NO_VERB then 1 else 2) (gc_words c)"

definition add_flag :: "string \<Rightarrow> string option \<Rightarrow> gh_command \<Rightarrow> gh_command" where
  "add_flag f v c = c\<lparr>gc_flags := gc_flags c @ [(f, v)]\<rparr>"

definition doubt :: "bool \<Rightarrow> gh_command \<Rightarrow> gh_command" where
  "doubt b c = c\<lparr>gc_unreadable := gc_unreadable c \<or> b\<rparr>"

definition plain_next :: "string option \<Rightarrow> bool" where
  "plain_next nxt = (case nxt of None \<Rightarrow> False | Some w \<Rightarrow> \<not> starts_with w ''-'')"

text \<open>A long flag, and a bundle of short ones: the command, and whether the next word was taken.\<close>

definition long_flag :: "string \<Rightarrow> string option \<Rightarrow> gh_command \<Rightarrow> gh_command \<times> bool" where
  "long_flag word nxt c =
     (let nm = before (CHR ''='') word; arity = takes_value (gh_group c) (gh_verb c) nm in
      if CHR ''='' \<in> set word then (add_flag nm (Some (after (CHR ''='') word)) c, False)
      else (case (arity, nxt) of
              (Some True, Some w) \<Rightarrow> (add_flag nm (Some w) c, True)
            | _ \<Rightarrow> (add_flag nm None (doubt (arity = None \<and> plain_next nxt) c), False)))"

fun short_flags :: "string \<Rightarrow> string option \<Rightarrow> gh_command \<Rightarrow> gh_command \<times> bool" where
  "short_flags [] nxt c = (c, False)"
| "short_flags (ch # rest) nxt c =
     (let nm = ''-'' @ [ch]; arity = takes_value (gh_group c) (gh_verb c) nm in
      if arity = Some True then
        (if rest \<noteq> [] then (add_flag nm (Some (if starts_with rest ''='' then tl rest else rest)) c, False)
         else (case nxt of Some w \<Rightarrow> (add_flag nm (Some w) c, True) | None \<Rightarrow> (add_flag nm None c, False)))
      else short_flags rest nxt (add_flag nm None (doubt (arity = None \<and> (rest \<noteq> [] \<or> plain_next nxt)) c)))"

definition next_word :: "string list \<Rightarrow> string option" where
  "next_word ws = (case ws of [] \<Rightarrow> None | w # _ \<Rightarrow> Some w)"

function gh_parse :: "gh_command \<Rightarrow> string list \<Rightarrow> gh_command" where
  "gh_parse c [] = c"
| "gh_parse c (word # ws) =
     (if word = ''--'' then c
      else if starts_with word ''-'' \<and> length word > 1 then
        (let (c', taken) = (if starts_with word ''--'' then long_flag word (next_word ws) c
                            else short_flags (tl word) (next_word ws) c)
         in gh_parse c' (if taken then drop 1 ws else ws))
      else gh_parse (c\<lparr>gc_words := gc_words c @ [word]\<rparr>) ws)"
  by pat_completeness auto
termination
  by (relation "measure (length \<circ> snd)") auto

declare gh_parse.simps [simp del]

definition gh_method :: "gh_command \<Rightarrow> string" where
  "gh_method c =
     (case flag_values GH_METHOD_FLAGS c of
        [] \<Rightarrow> if has_flag GH_WRITE_FLAGS c then ''POST'' else ''GET''
      | vs \<Rightarrow> upper (last vs))"

text \<open>A repository as gh takes it. An address \<open>urlsplit\<close> refuses raises.\<close>

definition gh_repo_flag :: "string \<Rightarrow> string option" where
  "gh_repo_flag value =
     (let t = strip value in
      case url_netloc t of
        None \<Rightarrow> None
      | Some n \<Rightarrow>
          Some (if n \<noteq> [] \<and> name_of_url t \<noteq> [] then name_of_url t
                else
                  (let parts = segments t;
                       own = (if length parts = 3 \<and> lower (hd parts) \<in> set GITHUB_HOSTS then tl parts else parts)
                   in or_else (normalize_name (join_on [SLASH] own)) (lower t))))"

text \<open>What a gh command names before its group's own rules: the flags, \<open>GH_REPO\<close> and the addresses among
  its words.\<close>

definition named_first :: "gh_command \<Rightarrow> string \<Rightarrow> string list option" where
  "named_first c gh_repo =
     map_option (\<lambda>ns. ns @ filter (\<lambda>n. n \<noteq> []) (map name_of_url (tl (gc_words c))))
       (all_some (map gh_repo_flag
          (flag_values GH_REPO_FLAGS c @ (if strip gh_repo \<noteq> [] then [gh_repo] else []))))"

text \<open>The searches of a command: a refusal, or what they name.\<close>

fun named_in_queries :: "reach \<Rightarrow> string list \<Rightarrow> string + string list" where
  "named_in_queries r [] = Inr []"
| "named_in_queries r (q # qs) =
     (if widens q then Inl (widening_sentence r)
      else (case named_in_queries r qs of Inl bad \<Rightarrow> Inl bad | Inr ns \<Rightarrow> Inr (named_in_query q @ ns)))"

definition repo_names :: "reach \<Rightarrow> gh_command \<Rightarrow> (string + string list) option" where
  "repo_names r c =
     (if gh_group c \<noteq> ''repo'' then Some (Inr [])
      else if gh_verb c \<in> set GH_REPO_NOT_ALLOWED
      then Some (Inl (only_these r @ '' The command gh repo '' @ gh_verb c @ '' is not allowed for it.''))
      else
        (let sources = all_some (map gh_repo_flag (flag_values [''--source''] c)) in
         if gh_verb c \<in> set GH_REPO_TARGET \<and> gh_args c \<noteq> [] then
           (let target = hd (gh_args c) in
            if SLASH \<notin> set target \<and> url_netloc target = None then None
            else if SLASH \<notin> set target \<and> url_netloc target = Some []
            then Some (Inl (only_these r @ '' '' @ target @ '' names no owner. Write it as owner/name.''))
            else (case (gh_repo_flag target, sources) of
                    (Some n, Some ns) \<Rightarrow> Some (Inr (n # ns)) | _ \<Rightarrow> None))
         else map_option Inr sources))"

definition api_path :: "gh_command \<Rightarrow> string" where
  "api_path c =
     (if gh_group c = ''api'' \<and> gh_args c \<noteq> [] then strip_of [SLASH] (before (CHR ''?'') (hd (gh_args c))) else [])"

text \<open>The endpoint of \<open>gh api\<close>: a refusal, or what it names and whether gh fills its placeholders.\<close>

definition api_names :: "reach \<Rightarrow> gh_command \<Rightarrow> string + string list \<times> bool" where
  "api_names r c =
     (if gh_group c \<noteq> ''api'' then Inr ([], False)
      else
        (let segs = split_on SLASH (api_path c) in
         if has_traversal (api_path c) \<or> CHR ''%'' \<in> set (api_path c) then Inl PATH_REFUSED
         else if length segs < 3 \<or> hd segs \<noteq> ''repos'' then Inl (only_these r @ '' This gh api call names none of them.'')
         else if take 2 (tl segs) = GH_PLACEHOLDERS then Inr ([], True)
         else (let full = segs ! 1 @ [SLASH] @ segs ! 2 in Inr ([or_else (normalize_name full) (lower full)], False))))"

text \<open>Every repository a command names, before the working directory is asked: a refusal, or the names and
  whether the command works in one.\<close>

definition gh_names :: "reach \<Rightarrow> gh_command \<Rightarrow> string \<Rightarrow> (string + string list \<times> bool) option" where
  "gh_names r c gh_repo =
     (case named_first c gh_repo of
        None \<Rightarrow> None
      | Some ns1 \<Rightarrow>
          (case named_in_queries r (if gh_group c \<in> set GH_QUERY_GROUPS then flag_values GH_QUERY_FLAGS c else []) of
             Inl bad \<Rightarrow> Some (Inl bad)
           | Inr ns2 \<Rightarrow>
               (case repo_names r c of
                  None \<Rightarrow> None
                | Some (Inl bad) \<Rightarrow> Some (Inl bad)
                | Some (Inr ns3) \<Rightarrow>
                    (case named_in_queries r (if gh_group c = ''search'' then [join_on '' '' (gh_args c)] else []) of
                       Inl bad \<Rightarrow> Some (Inl bad)
                     | Inr ns4 \<Rightarrow>
                         (case api_names r c of
                            Inl bad \<Rightarrow> Some (Inl bad)
                          | Inr (ns5, filled) \<Rightarrow>
                              Some (Inr (ns1 @ ns2 @ ns3 @ ns4 @ ns5,
                                filled \<or> gh_group c \<in> set GH_IN_A_REPOSITORY)))))))"

text \<open>What the judge compares: the names of the command, the working directory's when it names none.\<close>

definition judged_names :: "string list \<times> bool \<Rightarrow> string list \<Rightarrow> string list" where
  "judged_names named remotes =
     (if fst named = [] \<and> snd named then filter (\<lambda>n. n \<noteq> []) (map name_of_remote remotes) else fst named)"

definition gh_identity :: "gh_command \<Rightarrow> bool" where
  "gh_identity c = (gh_group c = ''auth'' \<and> gh_verb c = ''status'' \<or> gh_group c = ''api'' \<and> api_path c = ''user'')"

definition gh_reads :: "gh_command \<Rightarrow> bool" where
  "gh_reads c = (case lookup GH_READS (gh_group c) of None \<Rightarrow> False
     | Some vs \<Rightarrow> (''*'' \<in> set vs \<or> gh_verb c \<in> set vs) \<and> (gh_group c = ''api'' \<longrightarrow> gh_method c = ''GET''))"

definition foreign_host :: "gh_command \<Rightarrow> string \<Rightarrow> string option" where
  "foreign_host c gh_host =
     find (\<lambda>h. strip h \<noteq> [] \<and> lower (strip h) \<notin> set GITHUB_HOSTS) (gh_host # flag_values GH_HOST_FLAGS c)"

definition judge_gh :: "reach \<Rightarrow> string list \<Rightarrow> string list \<Rightarrow> string \<Rightarrow> string \<Rightarrow> string option" where
  "judge_gh r argv remotes gh_repo gh_host =
     (if \<not> narrows r then Some []
      else
        (let c = gh_parse no_command argv in
         if gc_unreadable c then Some GH_UNREADABLE
         else if gh_group c = ''auth'' \<and> (gh_verb c \<in> set GH_TOKEN_VERBS \<or> has_flag GH_SHOW_TOKEN c) then Some GH_SHOWS_TOKEN
         else if read_only r \<and> \<not> gh_reads c then Some (read_only_sentence r ''This gh command'' ''it did not run'')
         else if repositories r = [] \<or> gh_identity c then Some []
         else (case foreign_host c gh_host of
                 Some h \<Rightarrow> Some (only_these r @ '' This gh command is set to another host, '' @ strip h @ ''.'')
               | None \<Rightarrow>
                   if has_flag (case lookup GH_WIDENING_FLAGS (gh_group c) of None \<Rightarrow> [] | Some fs \<Rightarrow> fs) c
                   then Some (widening_sentence r)
                   else (case gh_names r c gh_repo of
                           None \<Rightarrow> None
                         | Some (Inl bad) \<Rightarrow> Some bad
                         | Some (Inr named) \<Rightarrow>
                             (let ns = judged_names named remotes in
                              Some (if ns = [] then only_these r @ '' This gh command names none of them.''
                                    else first_outside r ns))))))"

section \<open>An installation's own narrowing\<close>

definition WRITE_ONLY_PERMISSIONS :: "string list" where
  "WRITE_ONLY_PERMISSIONS = [''workflows'', ''organization_copilot_seat_management'', ''profile'']"
definition LEVELS :: "string list" where "LEVELS = [''read'', ''write'', ''admin'']"

definition read_only_permissions :: "dict \<Rightarrow> (string \<times> string) list" where
  "read_only_permissions granted =
     concat (map (\<lambda>(k, v). if k \<notin> set WRITE_ONLY_PERMISSIONS \<and> (\<exists>l \<in> set LEVELS. v = JStr l) then [(k, ''read'')] else []) granted)"

text \<open>A name of another account's repository raises; the sentence names it.\<close>

fun account_names :: "string \<Rightarrow> string list \<Rightarrow> string + string list" where
  "account_names owner [] = Inr []"
| "account_names owner (full # fs) =
     (if owner = [] \<or> before SLASH full \<noteq> owner
      then Inl (full @ '' is not a repository of the installation's account'')
      else (case account_names owner fs of Inl e \<Rightarrow> Inl e | Inr ns \<Rightarrow> Inr (after SLASH full # ns)))"

definition repository_names :: "reach \<Rightarrow> string \<Rightarrow> string + string list" where
  "repository_names r account = account_names (lower (strip account)) (sorted_names r)"

section \<open>The broker's question\<close>

text \<open>The wrapper sends the first 256 arguments of a command (\<open>hooks/credential_helper.py\<close>), the broker judges
  the first 1024 characters of each (\<open>api/hooks/permission.py\<close>); the wrapper then runs the command whole.\<close>

definition wrapper_command :: "string list \<Rightarrow> string list" where
  "wrapper_command args = take 256 args"

record cli_request =
  cr_path :: string
  cr_command :: "string list"
  cr_remotes :: "string list"
  cr_gh_repo :: string
  cr_gh_host :: string

definition reach_refusal :: "json option \<Rightarrow> cli_request \<Rightarrow> string option" where
  "reach_refusal stored q =
     (case from_dict stored of
        None \<Rightarrow> Some []
      | Some r \<Rightarrow>
          if \<not> narrows r then Some []
          else if cr_command q \<noteq> []
          then judge_gh r (map (take 1024) (cr_command q)) (cr_remotes q) (cr_gh_repo q) (cr_gh_host q)
          else Some (judge_git r (cr_path q)))"

end
