(* ===== verification/GithubSafety.thy ===== *)
theory GithubSafety
  imports GithubReach
begin

text \<open>
  What a narrowed GitHub reach guarantees: a gh command, a git credential request and a call of the GitHub
  MCP that pass name only repositories of the reach, a read-only reach lets only reads through, what the
  MCP receives is what was judged, and a reach survives its stored form. The lemmas at the end show where
  a judged command differs from the one that runs.
\<close>

definition one_repo :: reach where
  "one_repo = \<lparr>repositories = [''acme/site''], read_only = False, personal = False\<rparr>"

definition site_remote :: string where "site_remote = ''git@github.com:acme/site.git''"

lemma demo_normalize:
  "normalize_name ''/Acme/Site.git '' = ''acme/site''" "name_of_remote site_remote = ''acme/site''"
  "name_of_url ''https://github.com/acme/site/pull/3'' = ''acme/site''"
  by code_simp+

section \<open>What a passed command names\<close>

lemma only_these_nonempty [simp]: "only_these r \<noteq> []"
  by (simp add: only_these_def)

lemma widening_nonempty [simp]: "widening_sentence r \<noteq> []"
  by (simp add: widening_sentence_def)

lemma first_outside_Nil: "first_outside r ns = [] \<longleftrightarrow> set ns \<subseteq> set (repositories r)"
  using find_None_iff [of "\<lambda>n. n \<notin> set (repositories r)" ns]
  by (cases "find (\<lambda>n. n \<notin> set (repositories r)) ns") (auto simp: first_outside_def outside_sentence_def)

lemma all_some_Some: "all_some xs = Some ys \<longleftrightarrow> xs = map Some ys"
  by (induction xs arbitrary: ys rule: all_some.induct) (auto simp: Cons_eq_map_conv)

lemma all_some_mem:
  assumes "all_some (map f xs) = Some ys" "x \<in> set xs"
  shows "\<exists>y \<in> set ys. f x = Some y"
proof -
  have "f x \<in> set (map f xs)" using assms(2) by simp
  with assms(1) show ?thesis by (auto simp: all_some_Some simp del: set_map) auto
qed

lemma named_in_queries_Inr:
  "named_in_queries r qs = Inr ns \<longleftrightarrow> (\<forall>q \<in> set qs. \<not> widens q) \<and> ns = concat (map named_in_query qs)"
proof (induction qs arbitrary: ns)
  case (Cons q qs)
  from Cons.IH [of "concat (map named_in_query qs)"] Cons.IH show ?case
    by (cases "named_in_queries r qs") auto
qed auto

lemma named_in_queries_Inl: "named_in_queries r qs = Inl bad \<Longrightarrow> bad \<noteq> []"
  by (induction qs) (auto simp: widening_sentence_def split: if_splits sum.splits)

lemma gh_names_Inl: "gh_names r c gh_repo = Some (Inl bad) \<Longrightarrow> bad \<noteq> []"
  by (auto simp: gh_names_def repo_names_def api_names_def PATH_REFUSED_def Let_def dest: named_in_queries_Inl
      split: option.splits sum.splits if_splits)

lemma judge_gh_inv:
  assumes "judge_gh r argv remotes gh_repo gh_host = Some []" "repositories r \<noteq> []"
    and "c = gh_parse no_command argv" "\<not> gh_identity c"
  obtains ns inside where "gh_names r c gh_repo = Some (Inr (ns, inside))"
    "judged_names (ns, inside) remotes \<noteq> []" "set (judged_names (ns, inside) remotes) \<subseteq> set (repositories r)"
    "foreign_host c gh_host = None" "\<not> gc_unreadable c"
    "\<not> has_flag (case lookup GH_WIDENING_FLAGS (gh_group c) of None \<Rightarrow> [] | Some fs \<Rightarrow> fs) c"
  using assms
  by (auto simp: judge_gh_def Let_def narrows_def GH_UNREADABLE_def GH_SHOWS_TOKEN_def read_only_sentence_def
      reads_only_sentence_def widening_sentence_def first_outside_Nil dest: gh_names_Inl
      split: if_splits option.splits sum.splits)

lemma gh_names_inv:
  assumes "gh_names r c gh_repo = Some (Inr (ns, inside))"
  obtains ns1 ns2 ns3 ns4 ns5 filled where "named_first c gh_repo = Some ns1"
    "named_in_queries r (if gh_group c \<in> set GH_QUERY_GROUPS then flag_values GH_QUERY_FLAGS c else []) = Inr ns2"
    "repo_names r c = Some (Inr ns3)"
    "named_in_queries r (if gh_group c = ''search'' then [join_on '' '' (gh_args c)] else []) = Inr ns4"
    "api_names r c = Inr (ns5, filled)" "ns = ns1 @ ns2 @ ns3 @ ns4 @ ns5"
proof -
  from assms show ?thesis
    unfolding gh_names_def by (clarsimp split: option.splits sum.splits prod.splits) (rule that; simp)
qed

lemma judged_include: "set (fst named) \<subseteq> set (judged_names named remotes)"
  by (auto simp: judged_names_def)

lemma named_first_flags:
  assumes "named_first c gh_repo = Some ns"
  shows "v \<in> set (flag_values GH_REPO_FLAGS c) \<Longrightarrow> \<exists>n \<in> set ns. gh_repo_flag v = Some n"
    and "strip gh_repo \<noteq> [] \<Longrightarrow> \<exists>n \<in> set ns. gh_repo_flag gh_repo = Some n"
    and "w \<in> set (tl (gc_words c)) \<Longrightarrow> name_of_url w \<in> insert [] (set ns)"
proof -
  from assms obtain ns' where n: "ns = ns' @ filter (\<lambda>n. n \<noteq> []) (map name_of_url (tl (gc_words c)))"
    "all_some (map gh_repo_flag
       (flag_values GH_REPO_FLAGS c @ (if strip gh_repo \<noteq> [] then [gh_repo] else []))) = Some ns'"
    by (auto simp: named_first_def)
  note mem = all_some_mem [OF n(2)]
  show "v \<in> set (flag_values GH_REPO_FLAGS c) \<Longrightarrow> \<exists>n \<in> set ns. gh_repo_flag v = Some n"
    using mem [of v] by (auto simp: n(1))
  show "strip gh_repo \<noteq> [] \<Longrightarrow> \<exists>n \<in> set ns. gh_repo_flag gh_repo = Some n"
    using mem [of gh_repo] by (auto simp: n(1))
  show "w \<in> set (tl (gc_words c)) \<Longrightarrow> name_of_url w \<in> insert [] (set ns)" by (auto simp: n(1))
qed

lemma repo_target_named:
  assumes "repo_names r c = Some (Inr ns)" "gh_group c = ''repo''" "gh_verb c \<in> set GH_REPO_TARGET" "gh_args c \<noteq> []"
  shows "\<exists>n \<in> set ns. gh_repo_flag (hd (gh_args c)) = Some n"
  using assms by (auto simp: repo_names_def Let_def split: if_splits option.splits)

lemma api_named:
  assumes "api_names r c = Inr (ns, filled)" "gh_group c = ''api''"
  shows "\<exists>a b rest. split_on SLASH (api_path c) = ''repos'' # a # b # rest \<and> \<not> has_traversal (api_path c) \<and>
    CHR ''%'' \<notin> set (api_path c) \<and>
    ([a, b] = GH_PLACEHOLDERS \<or> or_else (normalize_name (a @ [SLASH] @ b)) (lower (a @ [SLASH] @ b)) \<in> set ns)"
proof -
  let ?segs = "split_on SLASH (api_path c)"
  from assms have "\<not> length ?segs < 3" "hd ?segs = ''repos''"
    by (auto simp: api_names_def Let_def split: if_splits)
  then obtain a b rest where "?segs = ''repos'' # a # b # rest"
    by (cases ?segs rule: list.exhaust; cases "tl ?segs"; cases "tl (tl ?segs)") auto
  with assms show ?thesis by (auto simp: api_names_def Let_def split: if_splits)
qed

text \<open>C21. What the judge of gh reads of a passing command is of the reach. For a command that passes under a list
  of repositories, other than the two that only read who is signed in (\<open>gh_identity\<close>: neither
  repository nor host is judged there): the value of each of its repository flags
  (\<open>GH_REPO_FLAGS\<close>), \<open>GH_REPO\<close>, each address among its words, the target of
  \<open>gh repo\<close>, and the endpoint of \<open>gh api\<close> (but for gh's own placeholders for the
  checkout's repository) name repositories of the reach; the words of \<open>gh search\<close> do not widen
  and name only such; and each host of a flag or of \<open>GH_HOST\<close> is GitHub's. (The queries of other
  flags and the sources gh itself reads are not in this statement.)\<close>

theorem gh_stays_in_reach:
  assumes "judge_gh r argv remotes gh_repo gh_host = Some []" and "repositories r \<noteq> []"
    and "c = gh_parse no_command argv" and "\<not> gh_identity c"
  shows "(\<forall>v \<in> set (flag_values GH_REPO_FLAGS c). \<exists>n \<in> set (repositories r). gh_repo_flag v = Some n) \<and>
    (strip gh_repo \<noteq> [] \<longrightarrow> (\<exists>n \<in> set (repositories r). gh_repo_flag gh_repo = Some n)) \<and>
    (\<forall>w \<in> set (tl (gc_words c)). name_of_url w \<in> insert [] (set (repositories r))) \<and>
    (gh_group c = ''repo'' \<and> gh_verb c \<in> set GH_REPO_TARGET \<and> gh_args c \<noteq> [] \<longrightarrow>
       (\<exists>n \<in> set (repositories r). gh_repo_flag (hd (gh_args c)) = Some n)) \<and>
    (gh_group c = ''api'' \<longrightarrow> (\<exists>a b rest. split_on SLASH (api_path c) = ''repos'' # a # b # rest \<and>
       \<not> has_traversal (api_path c) \<and> CHR ''%'' \<notin> set (api_path c) \<and> ([a, b] = GH_PLACEHOLDERS \<or>
         or_else (normalize_name (a @ [SLASH] @ b)) (lower (a @ [SLASH] @ b)) \<in> set (repositories r)))) \<and>
    (gh_group c = ''search'' \<longrightarrow> \<not> widens (join_on '' '' (gh_args c)) \<and>
       set (named_in_query (join_on '' '' (gh_args c))) \<subseteq> set (repositories r)) \<and>
    (\<forall>h \<in> set (gh_host # flag_values GH_HOST_FLAGS c). strip h = [] \<or> lower (strip h) \<in> set GITHUB_HOSTS)"
proof -
  from assms obtain ns inside where n: "gh_names r c gh_repo = Some (Inr (ns, inside))"
    "set (judged_names (ns, inside) remotes) \<subseteq> set (repositories r)" "foreign_host c gh_host = None"
    by (rule judge_gh_inv)
  from n(1) obtain ns1 ns2 ns3 ns4 ns5 filled where p: "named_first c gh_repo = Some ns1"
    "repo_names r c = Some (Inr ns3)"
    "named_in_queries r (if gh_group c = ''search'' then [join_on '' '' (gh_args c)] else []) = Inr ns4"
    "api_names r c = Inr (ns5, filled)" "ns = ns1 @ ns2 @ ns3 @ ns4 @ ns5"
    by (rule gh_names_inv)
  have sub: "set ns1 \<subseteq> set (repositories r)" "set ns3 \<subseteq> set (repositories r)" "set ns4 \<subseteq> set (repositories r)"
    "set ns5 \<subseteq> set (repositories r)"
    using n(2) judged_include [of "(ns, inside)" remotes] by (auto simp: p(5))
  have q: "gh_group c = ''search'' \<Longrightarrow> \<not> widens (join_on '' '' (gh_args c)) \<and> set (named_in_query (join_on '' '' (gh_args c))) \<subseteq> set (repositories r)"
    using p(3) sub(3) by (auto simp: named_in_queries_Inr simp del: named_in_queries.simps)
  have h: "\<forall>h \<in> set (gh_host # flag_values GH_HOST_FLAGS c). strip h = [] \<or> lower (strip h) \<in> set GITHUB_HOSTS"
    using n(3) unfolding foreign_host_def find_None_iff by blast
  show ?thesis
    using named_first_flags [OF p(1)] repo_target_named [OF p(2)] api_named [OF p(4)] q h sub by blast
qed

theorem gh_stays_in_reach_witness:
  "\<exists>n \<in> set (repositories one_repo). gh_repo_flag ''github.com/acme/site'' = Some n"
proof -
  let ?argv = "[''pr'', ''view'', ''3'', ''-R'', ''github.com/acme/site'']"
  have "judge_gh one_repo ?argv [] [] [] = Some []" "repositories one_repo \<noteq> []" "\<not> gh_identity (gh_parse no_command ?argv)"
    "''github.com/acme/site'' \<in> set (flag_values GH_REPO_FLAGS (gh_parse no_command ?argv))" by code_simp+
  with gh_stays_in_reach [of one_repo ?argv "[]" "[]" "[]"] show ?thesis by blast
qed

section \<open>What the MCP receives\<close>

definition args_of :: "dict \<Rightarrow> dict" where
  "args_of msg = (case dget (params_of msg) ''arguments'' of Some (JObj a) \<Rightarrow> a | _ \<Rightarrow> [])"

definition tool_of :: "judge_env \<Rightarrow> dict \<Rightarrow> string" where
  "tool_of e msg = str_or_empty (je_str e) (dget (params_of msg) ''name'')"

definition uri_of :: "judge_env \<Rightarrow> dict \<Rightarrow> string" where
  "uri_of e msg = str_or_empty (je_str e) (dget (params_of msg) ''uri'')"

abbreviation all_named :: "json \<Rightarrow> string list" where
  "all_named \<equiv> named_in_arguments (MAX_DEPTH + 1)"

text \<open>A search stays inside: its query names repositories of the reach and does not widen, or it is a query
  that did not widen with the reach's own qualifiers added.\<close>

definition query_inside :: "reach \<Rightarrow> string \<Rightarrow> bool" where
  "query_inside r q =
     (\<not> widens q \<and> set (named_in_query q) \<subseteq> set (repositories r) \<or>
      (\<exists>q0. \<not> widens q0 \<and> named_in_query q0 = [] \<and> q = strip (q0 @ '' '' @ added_qualifiers r)))"

definition call_inside :: "reach \<Rightarrow> string \<Rightarrow> dict \<Rightarrow> bool" where
  "call_inside r tool args =
     (tool \<notin> set REFUSED_TOOLS \<and> set (all_named (JObj args)) \<subseteq> set (repositories r) \<and>
      (case query_key_of tool args of
         None \<Rightarrow> all_named (JObj args) \<noteq> []
       | Some k \<Rightarrow> query_inside r (query_of args k)))"

definition call_allowed :: "judge_env \<Rightarrow> reach \<Rightarrow> dict \<Rightarrow> bool" where
  "call_allowed e r msg =
     (\<not> (read_only r \<and> je_writes e (tool_of e msg) = Some True) \<and>
      (repositories r = [] \<or> tool_of e msg \<in> set IDENTITY_TOOLS \<or> call_inside r (tool_of e msg) (args_of msg)))"

definition resource_allowed :: "reach \<Rightarrow> string \<Rightarrow> bool" where
  "resource_allowed r uri =
     (repositories r = [] \<or>
      \<not> has_traversal uri \<and> CHR ''%'' \<notin> set uri \<and> (\<exists>n \<in> set (repositories r). n \<noteq> [] \<and> resource_name uri = Some n))"

text \<open>What a message under a reach may be when it goes on.\<close>

definition message_allowed :: "judge_env \<Rightarrow> reach \<Rightarrow> dict \<Rightarrow> bool" where
  "message_allowed e r msg =
     (set (keys msg) \<subseteq> set ANSWER_KEYS \<or>
      set (keys msg) \<subseteq> set ENVELOPE_KEYS \<and>
      (\<exists>meth. dget msg ''method'' = Some (JStr meth) \<and>
         (meth \<in> set PLAIN_METHODS \<or> list_ex (starts_with meth) PLAIN_PREFIXES \<or>
          set (keys (params_of msg)) \<subseteq> set JUDGED_PARAMS \<and>
          (meth = ''tools/call'' \<and> call_allowed e r msg \<or>
           meth = ''resources/read'' \<and> resource_allowed r (uri_of e msg) \<or>
           meth = ''prompts/get'' \<and> judge_prompt r (dget (params_of msg) ''arguments'') = []))))"

subsection \<open>The rebuilt message\<close>

lemma dget_restricted: "dget (restricted ks d) k = (if k \<in> set ks then dget d k else None)"
proof (induction ks)
  case (Cons x ks)
  have "restricted (x # ks) d = (case dget d x of None \<Rightarrow> [] | Some v \<Rightarrow> [(x, v)]) @ restricted ks d"
    by (simp add: restricted_def)
  then show ?case using Cons.IH by (cases "dget d x") (auto simp: dget_append dget_def split: option.splits)
qed (simp add: restricted_def dget_def)

lemma keys_restricted: "set (keys (restricted ks d)) \<subseteq> set ks"
  by (auto simp: restricted_def split: option.splits)

lemma dget_dict_set: "dget (dict_set k v d) x = (if x = k then Some v else dget d x)"
  by (simp add: dget_def)

lemma envelope_keys: "set (keys (judged_envelope msg)) \<subseteq> set ENVELOPE_KEYS"
  using keys_restricted [of ENVELOPE_KEYS msg]
  by (cases "dget msg ''params'' \<in> {None, Some JNull}")
    (simp_all add: judged_envelope_def ENVELOPE_KEYS_def del: set_map)

lemma envelope_method: "dget (judged_envelope msg) ''method'' = dget msg ''method''"
  by (simp add: judged_envelope_def dget_dict_set dget_restricted ENVELOPE_KEYS_def)

lemma envelope_params: "params_of (judged_envelope msg) = restricted JUDGED_PARAMS (params_of msg)"
proof (cases "dget msg ''params'' \<in> {None, Some JNull}")
  case True
  then have "params_of msg = []" "params_of (judged_envelope msg) = []"
    by (auto simp: params_of_def judged_envelope_def dget_restricted ENVELOPE_KEYS_def)
  then show ?thesis by (simp add: restricted_def dget_def JUDGED_PARAMS_def)
next
  case False
  then show ?thesis by (auto simp: params_of_def judged_envelope_def dget_dict_set)
qed

lemma judged_param: "k \<in> set JUDGED_PARAMS \<Longrightarrow> dget (params_of (judged_envelope msg)) k = dget (params_of msg) k"
  by (simp add: envelope_params dget_restricted)

subsection \<open>A call\<close>

text \<open>The query of a search names no repository where the arguments are read.\<close>

lemma query_key_plain:
  assumes "k \<in> set QUERY_KEYS"
  shows "k \<noteq> ''owner''" "value_names d k s = []"
proof -
  have "list_all (\<lambda>k. k \<noteq> ''owner'' \<and> lower k \<notin> set FULL_NAME_KEYS \<and> \<not> ends_with (lower k) URL_KEY_SUFFIX) QUERY_KEYS"
    by code_simp
  with assms show "k \<noteq> ''owner''" "value_names d k s = []" by (auto simp: list_all_iff value_names_def)
qed

lemma query_key_of_Some:
  assumes "query_key_of tool args = Some k"
  shows "k \<in> set QUERY_KEYS" "dget args k = Some (JStr (query_of args k))"
proof -
  from assms have "find (\<lambda>k. case dget args k of Some (JStr _) \<Rightarrow> True | _ \<Rightarrow> False) QUERY_KEYS = Some k"
    by (simp add: query_key_of_def split: if_splits)
  then show "k \<in> set QUERY_KEYS" "dget args k = Some (JStr (query_of args k))"
    by (auto simp: find_Some_iff query_of_def split: option.splits json.splits)
qed

lemma pair_names_set:
  assumes "k \<in> set QUERY_KEYS" shows "pair_names (dict_set k v d) = pair_names d"
  using assms by (auto simp: pair_names_def PAIRS_def QUERY_KEYS_def dget_dict_set)

definition entry_names :: "bool \<Rightarrow> nat \<Rightarrow> string \<times> json \<Rightarrow> string list" where
  "entry_names owned levels kv =
     (case snd kv of
        JObj _ \<Rightarrow> named_in_arguments levels (snd kv)
      | JArr _ \<Rightarrow> named_in_arguments levels (snd kv)
      | JStr s \<Rightarrow> value_names (if owned then [(''owner'', JBool True)] else []) (fst kv) s
      | _ \<Rightarrow> [])"

lemma value_names_owner:
  "value_names d k s = value_names (if truthy (dget d ''owner'') then [(''owner'', JBool True)] else []) k s"
proof -
  have "truthy (dget (if b then [(''owner'', JBool True)] else []) ''owner'') = b" for b
    by (simp add: dget_def truthy_def)
  then show ?thesis by (simp add: value_names_def)
qed

lemma named_entries:
  "named_in_arguments (Suc levels) (JObj d) =
     pair_names d @ concat (map (entry_names (truthy (dget d ''owner'')) levels) d)"
proof -
  have "(case v of JObj _ \<Rightarrow> named_in_arguments levels v | JArr _ \<Rightarrow> named_in_arguments levels v
     | JStr s \<Rightarrow> value_names d k s | _ \<Rightarrow> []) = entry_names (truthy (dget d ''owner'')) levels (k, v)" for k v
  proof (cases v)
    case (JStr s)
    then show ?thesis using value_names_owner [of d k s] by (simp add: entry_names_def)
  qed (simp_all add: entry_names_def)
  then show ?thesis by (simp add: case_prod_beta')
qed

lemma entries_set:
  assumes "k \<in> set QUERY_KEYS"
  shows "dget d k = Some (JStr q) \<Longrightarrow>
    concat (map (entry_names b levels) (dict_set k (JStr q') d)) = concat (map (entry_names b levels) d)"
  using query_key_plain(2) [OF assms]
  by (induction d) (auto simp: dget_def entry_names_def)

lemma named_query_set:
  assumes "k \<in> set QUERY_KEYS" "dget d k = Some (JStr q)"
  shows "all_named (JObj (dict_set k (JStr q') d)) = all_named (JObj d)"
proof -
  have o: "dget (dict_set k (JStr q') d) ''owner'' = dget d ''owner''"
    using query_key_plain(1) [OF assms(1)] by (simp add: dget_dict_set)
  show ?thesis
    unfolding Suc_eq_plus1 [symmetric] named_entries pair_names_set [OF assms(1)] o entries_set [OF assms] ..
qed

lemma query_key_set:
  assumes "query_key_of tool args = Some k"
  shows "query_key_of tool (dict_set k (JStr q) args) = Some k"
proof -
  have "(\<lambda>x. case dget (dict_set k (JStr q) args) x of Some (JStr _) \<Rightarrow> True | _ \<Rightarrow> False) =
      (\<lambda>x. case dget args x of Some (JStr _) \<Rightarrow> True | _ \<Rightarrow> False)"
    using query_key_of_Some(2) [OF assms] by (auto simp: dget_dict_set)
  with assms show ?thesis by (simp add: query_key_of_def split: if_splits)
qed

lemma judge_call_inside:
  assumes "judge_call writes r tool args = ([], new)"
  shows "\<not> (read_only r \<and> writes tool = Some True)"
    and "repositories r \<noteq> [] \<Longrightarrow> tool \<notin> set IDENTITY_TOOLS \<Longrightarrow>
      call_inside r tool (case new of None \<Rightarrow> args | Some a \<Rightarrow> a)"
proof -
  show "\<not> (read_only r \<and> writes tool = Some True)"
    using assms by (auto simp: judge_call_def read_only_sentence_def reads_only_sentence_def)
  assume l: "repositories r \<noteq> []" "tool \<notin> set IDENTITY_TOOLS"
  have t: "tool \<notin> set REFUSED_TOOLS"
  proof
    assume "tool \<in> set REFUSED_TOOLS"
    with assms l show False
      by (simp add: judge_call_def read_only_sentence_def reads_only_sentence_def split: if_splits)
  qed
  show "call_inside r tool (case new of None \<Rightarrow> args | Some a \<Rightarrow> a)"
  proof (cases "query_key_of tool args")
    case None
    with assms l t have "first_outside r (all_named (JObj args)) = [] \<and> all_named (JObj args) \<noteq> [] \<and> new = None"
      by (auto simp: judge_call_def read_only_sentence_def reads_only_sentence_def PATH_REFUSED_def Let_def
          simp del: named_in_arguments.simps split: if_splits)
    with None t show ?thesis by (simp add: call_inside_def first_outside_Nil)
  next
    case (Some k)
    note k = query_key_of_Some [OF Some]
    let ?q = "query_of args k" let ?ns = "all_named (JObj args) @ named_in_query ?q"
    have j: "\<not> widens ?q" "first_outside r ?ns = []"
      "?ns \<noteq> [] \<and> new = None \<or> ?ns = [] \<and> new = Some (dict_set k (JStr (strip (?q @ '' '' @ added_qualifiers r))) args)"
      using assms l t Some
      by (auto simp: judge_call_def read_only_sentence_def reads_only_sentence_def PATH_REFUSED_def Let_def
          simp del: named_in_arguments.simps split: if_splits)
    from j(3) show ?thesis
    proof
      assume "?ns \<noteq> [] \<and> new = None"
      with j(1,2) Some t show ?thesis by (auto simp: call_inside_def query_inside_def first_outside_Nil)
    next
      assume n: "?ns = [] \<and> new = Some (dict_set k (JStr (strip (?q @ '' '' @ added_qualifiers r))) args)"
      moreover have "query_of (dict_set k (JStr x) args) k = x" for x by (simp add: query_of_def dget_dict_set)
      ultimately show ?thesis
        using j(1) t query_key_set [OF Some] named_query_set [OF k]
        by (auto simp: call_inside_def query_inside_def simp del: named_in_arguments.simps)
    qed
  qed
qed

subsection \<open>A message and a body\<close>

lemma resource_passes: "judge_resource r uri = Some [] \<Longrightarrow> resource_allowed r uri"
  by (auto simp: judge_resource_def resource_allowed_def PATH_REFUSED_def outside_sentence_def split: if_splits)

lemma with_arguments:
  assumes "m = dict_set ''params'' (JObj (dict_set ''arguments'' (JObj a) (restricted JUDGED_PARAMS (params_of msg))))
     (judged_envelope msg)"
  shows "params_of m = dict_set ''arguments'' (JObj a) (restricted JUDGED_PARAMS (params_of msg))"
    and "args_of m = a" and "tool_of e m = tool_of e msg" and "dget m ''method'' = dget msg ''method''"
    and "set (keys m) \<subseteq> set ENVELOPE_KEYS" and "set (keys (params_of m)) \<subseteq> set JUDGED_PARAMS"
proof -
  show p: "params_of m = dict_set ''arguments'' (JObj a) (restricted JUDGED_PARAMS (params_of msg))"
    by (simp add: assms params_of_def dget_dict_set)
  show "args_of m = a" by (simp add: args_of_def p dget_dict_set)
  show "tool_of e m = tool_of e msg" by (simp add: tool_of_def p dget_dict_set dget_restricted JUDGED_PARAMS_def)
  show "dget m ''method'' = dget msg ''method''" by (simp add: assms dget_dict_set envelope_method)
  show "set (keys m) \<subseteq> set ENVELOPE_KEYS"
    using envelope_keys [of msg] by (simp add: assms ENVELOPE_KEYS_def del: set_map)
  show "set (keys (params_of m)) \<subseteq> set JUDGED_PARAMS"
    using keys_restricted [of JUDGED_PARAMS "params_of msg"] by (simp add: p JUDGED_PARAMS_def del: set_map)
qed

lemma judged_fields:
  "args_of (judged_envelope msg) = args_of msg" "tool_of e (judged_envelope msg) = tool_of e msg"
  "uri_of e (judged_envelope msg) = uri_of e msg"
  "set (keys (params_of (judged_envelope msg))) \<subseteq> set JUDGED_PARAMS"
  using keys_restricted [of JUDGED_PARAMS "params_of msg"]
  by (simp_all add: args_of_def tool_of_def uri_of_def envelope_params dget_restricted JUDGED_PARAMS_def del: set_map)

lemma tool_message_allowed:
  assumes "judge_tool_message e r msg = ([], out)" "dget msg ''method'' = Some (JStr ''tools/call'')"
  shows "\<exists>m. out = JObj m \<and> message_allowed e r m"
proof -
  obtain bad new where j: "judge_call (je_writes e) r (tool_of e msg) (args_of msg) = (bad, new)" by fastforce
  have "bad = []"
    using assms(1) j by (cases bad; cases new) (auto simp: judge_tool_message_def Let_def tool_of_def args_of_def)
  note c = judge_call_inside [OF j [unfolded this]]
  show ?thesis
  proof (cases new)
    case None
    then have "out = JObj (judged_envelope msg)"
      using assms(1) j by (auto simp: judge_tool_message_def Let_def tool_of_def args_of_def split: list.splits)
    moreover have "message_allowed e r (judged_envelope msg)"
      using c None assms(2) envelope_keys judged_fields envelope_method
      by (auto simp: message_allowed_def call_allowed_def simp del: set_map)
    ultimately show ?thesis by blast
  next
    case (Some a)
    let ?m = "dict_set ''params'' (JObj (dict_set ''arguments'' (JObj a) (restricted JUDGED_PARAMS (params_of msg))))
      (judged_envelope msg)"
    have "out = JObj ?m"
      using assms(1) j Some \<open>bad = []\<close> by (auto simp: judge_tool_message_def Let_def tool_of_def args_of_def)
    moreover have "message_allowed e r ?m"
      using c Some assms(2) with_arguments [where m = ?m and a = a and msg = msg, OF refl]
      by (auto simp: message_allowed_def call_allowed_def simp del: set_map)
    ultimately show ?thesis by blast
  qed
qed

lemma answer_allowed: "message_allowed e r (restricted ANSWER_KEYS msg)"
  using keys_restricted [of ANSWER_KEYS msg] by (simp add: message_allowed_def del: set_map)

lemma plain_allowed:
  assumes "dget msg ''method'' = Some (JStr meth)" "meth \<in> set PLAIN_METHODS \<or> list_ex (starts_with meth) PLAIN_PREFIXES"
  shows "message_allowed e r (restricted ENVELOPE_KEYS msg)"
proof -
  have "dget (restricted ENVELOPE_KEYS msg) ''method'' = Some (JStr meth)"
    using assms(1) by (simp add: dget_restricted ENVELOPE_KEYS_def)
  then show ?thesis
    using assms(2) keys_restricted [of ENVELOPE_KEYS msg] unfolding message_allowed_def by blast
qed

lemma envelope_allowed:
  assumes "dget msg ''method'' = Some (JStr meth)"
    and "meth = ''resources/read'' \<and> resource_allowed r (uri_of e msg) \<or>
      meth = ''prompts/get'' \<and> judge_prompt r (dget (params_of msg) ''arguments'') = []"
  shows "message_allowed e r (judged_envelope msg)"
proof -
  have "dget (params_of (judged_envelope msg)) ''arguments'' = dget (params_of msg) ''arguments''"
    by (simp add: judged_param JUDGED_PARAMS_def)
  then show ?thesis
    using assms envelope_keys [of msg] judged_fields [where msg = msg] envelope_method [of msg]
    unfolding message_allowed_def by (elim disjE) (simp_all del: set_map)
qed

lemma judge_message_allowed:
  assumes "judge_message e r m = Some ([], out)"
  shows "\<exists>msg. out = JObj msg \<and> message_allowed e r msg"
proof -
  obtain msg where m: "m = JObj msg" using assms by (cases m) (auto simp: judge_message_def UNREADABLE_def)
  show ?thesis
  proof (cases "\<exists>meth. dget msg ''method'' = Some (JStr meth)")
    case False
    then have "out = JObj (restricted ANSWER_KEYS msg)"
      using assms by (auto simp: m judge_message_def UNREADABLE_def split: option.splits json.splits if_splits)
    then show ?thesis using answer_allowed by blast
  next
    case True
    then obtain meth where k: "dget msg ''method'' = Some (JStr meth)" by blast
    show ?thesis
    proof (cases "meth \<in> set PLAIN_METHODS \<or> list_ex (starts_with meth) PLAIN_PREFIXES")
      case True
      then have "out = JObj (restricted ENVELOPE_KEYS msg)" using assms by (simp add: m judge_message_def k)
      then show ?thesis using plain_allowed [OF k True] by blast
    next
      case False
      with assms consider "judge_tool_message e r msg = ([], out)" "meth = ''tools/call''"
        | "meth = ''resources/read''" "judge_resource r (uri_of e msg) = Some []" "out = JObj (judged_envelope msg)"
        | "meth = ''prompts/get''" "judge_prompt r (dget (params_of msg) ''arguments'') = []" "out = JObj (judged_envelope msg)"
        unfolding m judge_message_def
        by (simp add: k uri_of_def UNREADABLE_def METHOD_REFUSED_def split: if_splits)
      then show ?thesis
      proof cases
        case 1
        then show ?thesis using tool_message_allowed k by blast
      next
        case 2
        then show ?thesis using envelope_allowed [OF k] resource_passes by blast
      next
        case 3
        then show ?thesis using envelope_allowed [OF k] by blast
      qed
    qed
  qed
qed

lemma judge_messages_allowed:
  "judge_messages e r ms = Some ([], out) \<Longrightarrow>
     length out = length ms \<and> (\<forall>m \<in> set out. \<exists>msg. m = JObj msg \<and> message_allowed e r msg)"
proof (induction ms arbitrary: out)
  case (Cons m ms)
  then obtain new out' where o: "judge_message e r m = Some ([], new)" "judge_messages e r ms = Some ([], out')" "out = new # out'"
    by (auto split: option.splits if_splits)
  with Cons.IH [OF o(2)] judge_message_allowed [OF o(1)] show ?case by auto
qed simp

definition messages_of :: "json \<Rightarrow> json list" where
  "messages_of d = (case d of JArr ms \<Rightarrow> ms | _ \<Rightarrow> [d])"

lemma forwarded_messages:
  assumes "judge_mcp e r False (Some d) = Some v" and "narrows r" and "refusal v = []"
  shows "\<exists>out. forward v = Some out \<and> strict_object d \<and> length (messages_of out) = length (messages_of d) \<and>
    (\<forall>m \<in> set (messages_of out). \<exists>msg. m = JObj msg \<and> message_allowed e r msg)"
proof -
  from assms have s: "strict_object d" "messages_of d \<noteq> []"
    by (auto simp: judge_mcp_def UNREADABLE_def messages_of_def split: if_splits json.splits)
  from assms s obtain out where o: "judge_messages e r (messages_of d) = Some ([], out)"
    "forward v = Some (case d of JArr _ \<Rightarrow> JArr out | _ \<Rightarrow> out ! 0)"
    by (auto simp: judge_mcp_def UNREADABLE_def messages_of_def split: if_splits json.splits)
  note a = judge_messages_allowed [OF o(1)]
  show ?thesis
  proof (cases "\<exists>ms. d = JArr ms")
    case True
    with o a s show ?thesis by (auto simp: messages_of_def)
  next
    case False
    then have "messages_of d = [d]" by (cases d) (auto simp: messages_of_def)
    with a obtain msg where "out = [JObj msg]" "message_allowed e r msg" by (cases out) auto
    moreover from False o(2) this have "forward v = Some (JObj msg)" by (cases d) auto
    ultimately show ?thesis using s \<open>messages_of d = [d]\<close> by (auto simp: messages_of_def)
  qed
qed

lemma forwarded_allowed:
  assumes "judge_mcp e r False (Some d) = Some v" "narrows r" "refusal v = []" "forward v = Some out"
    "JObj msg \<in> set (messages_of out)"
  shows "message_allowed e r msg"
  using forwarded_messages [OF assms(1-3)] assms(4,5) by auto

text \<open>C22. Under a narrowing reach the MCP receives only what was judged by its kind. A body that is forwarded was
  read strictly and has as many messages; each is an answer, or has only the keys of an envelope and is one
  of the protocol's own messages (passed as it is), or carries only the judged parameters and is a tool call
  that does not write under a read-only reach and, under a list of repositories, is an identity tool or names
  only repositories of the list (a search: in a query that does not widen, or in one that named none and got
  the list's qualifiers appended), a resource of the list, or a judged prompt. A batch with one refused
  message is refused whole. (A query ending in NOT widens once the qualifiers are appended: see
  \<open>trailing_not_widens\<close>.)\<close>

theorem mcp_forwards_what_it_judged:
  assumes "judge_mcp e r False (Some d) = Some v" and "narrows r" and "refusal v = []"
  shows "\<exists>out. forward v = Some out \<and> strict_object d \<and> length (messages_of out) = length (messages_of d) \<and>
    (\<forall>m \<in> set (messages_of out). \<exists>msg. m = JObj msg \<and> message_allowed e r msg)"
  by (rule forwarded_messages [OF assms])

definition demo_judge :: judge_env where
  "demo_judge = \<lparr>je_writes = (\<lambda>t. Some (t = ''create_issue'')), je_str = (\<lambda>_. [])\<rparr>"

definition call_body :: "string \<Rightarrow> dict \<Rightarrow> json" where
  "call_body tool args = JObj [(''jsonrpc'', JStr ''2.0''), (''id'', JNum 1), (''method'', JStr ''tools/call''),
     (''params'', JObj [(''name'', JStr tool), (''arguments'', JObj args)])]"

theorem mcp_forwards_what_it_judged_witness:
  "\<exists>out. map_option forward (judge_mcp demo_judge one_repo False
       (Some (call_body ''get_issue'' [(''owner'', JStr ''Acme''), (''repo'', JStr ''site'')]))) = Some (Some out) \<and>
     length (messages_of out) = 1"
proof -
  let ?d = "call_body ''get_issue'' [(''owner'', JStr ''Acme''), (''repo'', JStr ''site'')]"
  have "map_option refusal (judge_mcp demo_judge one_repo False (Some ?d)) = Some []" by code_simp
  then obtain v where v: "judge_mcp demo_judge one_repo False (Some ?d) = Some v" "refusal v = []" by auto
  have "narrows one_repo" by code_simp
  from mcp_forwards_what_it_judged [OF v(1) this v(2)] v(1) show ?thesis
    by (auto simp: messages_of_def call_body_def)
qed

section \<open>Reading only\<close>

text \<open>Under a read-only reach only reads pass: a gh command is one of the listed reads (an api call is a GET),
  git gets no credential for a push, and no forwarded call of the MCP is a tool its server marks as a write.\<close>

theorem read_only_reach_reads:
  assumes "read_only r"
  shows "(judge_gh r argv remotes gh_repo gh_host = Some [] \<longrightarrow> gh_reads (gh_parse no_command argv)) \<and>
    (judge_git r path = [] \<and> segments (strip path) \<noteq> [] \<longrightarrow> lower (hd (segments (strip path))) \<noteq> PUSH_MARKER) \<and>
    (\<forall>d v out msg. judge_mcp e r False (Some d) = Some v \<and> refusal v = [] \<and> forward v = Some out \<and>
       JObj msg \<in> set (messages_of out) \<and> dget msg ''method'' = Some (JStr ''tools/call'') \<longrightarrow>
       je_writes e (tool_of e msg) \<noteq> Some True)"
proof (intro conjI allI impI)
  assume "judge_gh r argv remotes gh_repo gh_host = Some []"
  then show "gh_reads (gh_parse no_command argv)"
    using assms by (auto simp: judge_gh_def Let_def narrows_def GH_UNREADABLE_def GH_SHOWS_TOKEN_def
        read_only_sentence_def reads_only_sentence_def split: if_splits)
next
  assume "judge_git r path = [] \<and> segments (strip path) \<noteq> []"
  then show "lower (hd (segments (strip path))) \<noteq> PUSH_MARKER"
    using assms by (auto simp: judge_git_def Let_def narrows_def push_refused_def split: if_splits)
next
  fix d v out msg
  assume h: "judge_mcp e r False (Some d) = Some v \<and> refusal v = [] \<and> forward v = Some out \<and>
       JObj msg \<in> set (messages_of out) \<and> dget msg ''method'' = Some (JStr ''tools/call'')"
  have "narrows r" using assms by (simp add: narrows_def)
  then have "message_allowed e r msg" using h forwarded_allowed by blast
  moreover have "\<not> set (keys msg) \<subseteq> set ANSWER_KEYS"
  proof -
    have "''method'' \<in> set (keys msg)" using h by (metis dget_def lookup_in_keys option.distinct(1))
    moreover have "''method'' \<notin> set ANSWER_KEYS" by (simp add: ANSWER_KEYS_def)
    ultimately show ?thesis by blast
  qed
  moreover have "''tools/call'' \<notin> set PLAIN_METHODS" "\<not> list_ex (starts_with ''tools/call'') PLAIN_PREFIXES" by code_simp+
  ultimately show "je_writes e (tool_of e msg) \<noteq> Some True"
    using h assms by (auto simp: message_allowed_def call_allowed_def simp del: set_map)
qed

theorem read_only_reach_reads_witness:
  "gh_reads (gh_parse no_command [''pr'', ''view'', ''3''])"
proof -
  have "judge_gh (one_repo\<lparr>read_only := True\<rparr>) [''pr'', ''view'', ''3''] [site_remote] [] [] = Some []" by code_simp
  then show ?thesis
    using read_only_reach_reads [of "one_repo\<lparr>read_only := True\<rparr>" "[''pr'', ''view'', ''3'']"] by simp
qed

section \<open>git\<close>

lemma git_stays_in_reach:
  assumes "judge_git r path = []" "repositories r \<noteq> []"
  shows "\<exists>a b rest. segments (strip path) = a # b # rest \<and> \<not> has_traversal (strip path) \<and>
    or_else (normalize_name (a @ [SLASH] @ b)) (lower (a @ [SLASH] @ b)) \<in> set (repositories r)"
proof -
  let ?s = "segments (strip path)"
  from assms have n: "\<not> length ?s < 2" "\<not> has_traversal (strip path)"
    by (auto simp: judge_git_def Let_def narrows_def push_refused_def UNREADABLE_def helper_too_old_def split: if_splits)
  then obtain a b rest where s: "?s = a # b # rest" by (cases ?s; cases "tl ?s") auto
  with assms n show ?thesis
    by (auto simp: judge_git_def Let_def narrows_def push_refused_def UNREADABLE_def outside_sentence_def split: if_splits)
qed

section \<open>The stored form\<close>

lemma greedy_chars:
  "j \<in> set (greedy n (ends (Chr P)) k) \<Longrightarrow> \<exists>u. snd k = u @ snd j \<and> list_all P u"
proof (induction n arbitrary: k)
  case (Suc n)
  show ?case
  proof (cases "j = k")
    case False
    with Suc.prems obtain i where i: "i \<in> set (ends (Chr P) k)" "j \<in> set (greedy n (ends (Chr P)) i)"
      by (auto simp del: ends.simps)
    then obtain c cs where "snd k = c # cs" "P c" "snd i = cs" by (cases "snd k") (auto split: if_splits)
    with Suc.IH [OF i(2)] show ?thesis by (auto intro: exI [of _ "c # _"])
  qed simp
qed simp

lemma name_regex:
  assumes "re_match (seqs [AtStart, Chr P, Upto n (Chr Q), AtEnd]) s"
  obtains c u where "s = c # u \<or> s = c # u @ [NL]" "P c" "list_all Q u"
proof -
  from assms obtain c cs j where s: "s = c # cs" "P c" "j \<in> set (greedy n (ends (Chr Q)) (Some c, cs))"
    "snd j = [] \<or> snd j = [NL]"
    by (cases s) (auto simp: re_match_def split: if_splits)
  from greedy_chars [OF s(3)] obtain u where "cs = u @ snd j" "list_all Q u" by auto
  with s that [of c u] show ?thesis by auto
qed

lemma repo_char_facts:
  assumes "repo_char c" shows "\<not> is_space c" "c \<noteq> SLASH"
proof -
  have "list_all (\<lambda>c. \<not> is_space c \<and> c \<noteq> SLASH) ''abcdefghijklmnopqrstuvwxyz0123456789._-''" by code_simp
  with assms show "\<not> is_space c" "c \<noteq> SLASH" by (auto simp: repo_char_def name_char_def list_all_iff)
qed

lemma strip_ends:
  assumes "s \<noteq> []" "\<not> P (hd s)" "\<not> P (last s)"
  shows "rev (dropWhile P (rev (dropWhile P s))) = s"
proof -
  have "dropWhile P s = s" using assms by (cases s) auto
  moreover have "dropWhile P (rev s) = rev s" using assms by (cases s rule: rev_cases) auto
  ultimately show ?thesis by simp
qed

lemma lower_idem [simp]: "lower (lower s) = lower s"
proof -
  have "lower_char (lower_char c) = lower_char c" for c
    by (cases "(of_char c :: nat) \<in> {65..90}") (auto simp: lower_char_def)
  then show ?thesis by (simp add: lower_def)
qed

lemma lower_take: "lower (take n s) = take n (lower s)"
  by (simp add: lower_def take_map)

lemma normalize_shape:
  assumes "normalize_name x = n" "n \<noteq> []"
  obtains "SLASH \<in> set n" "\<not> has_traversal n" "re_match OWNER_RE (before SLASH n)" "re_match NAME_RE (after SLASH n)"
    "lower n = n"
proof -
  let ?t = "drop_suffix GIT_SUFFIX (lower (strip_of [SLASH] (strip x)))"
  have t: "SLASH \<in> set ?t" "\<not> has_traversal ?t" "re_match OWNER_RE (before SLASH ?t)" "re_match NAME_RE (after SLASH ?t)"
    "n = before SLASH ?t @ [SLASH] @ after SLASH ?t"
    using assms by (auto simp: normalize_name_def Let_def split: if_splits)
  have "before c s @ [c] @ after c s = s" if "c \<in> set s" for c and s :: string
    using that by (induction s) (auto simp: before_def after_def)
  from this [OF t(1)] t(5) have n: "n = ?t" by simp
  have "lower ?t = ?t" by (simp add: drop_suffix_def lower_take)
  with that t(1-4) n show ?thesis by simp
qed

lemma normalize_fixed:
  assumes "normalize_name x = n" "n \<noteq> []" "\<not> ends_with n GIT_SUFFIX" "last n \<noteq> NL"
  shows "normalize_name n = n"
proof -
  from assms(1,2) have n: "SLASH \<in> set n" "\<not> has_traversal n" "re_match OWNER_RE (before SLASH n)"
    "re_match NAME_RE (after SLASH n)" "lower n = n" by (rule normalize_shape; blast)+
  have cut: "n = before SLASH n @ [SLASH] @ after SLASH n"
    using n(1) by (induction n) (auto simp: before_def after_def)
  from n(3) obtain c u where o: "before SLASH n = c # u \<or> before SLASH n = c # u @ [NL]" "name_char c"
    unfolding OWNER_RE_def by (rule name_regex)
  from n(4) obtain c' u' where a: "after SLASH n = c' # u' \<or> after SLASH n = c' # u' @ [NL]" "repo_char c'" "list_all repo_char u'"
    unfolding NAME_RE_def by (rule name_regex)
  have "hd n = c" using o(1) cut by (metis append_Cons list.sel(1))
  then have h: "repo_char (hd n)" using o(2) by (simp add: repo_char_def)
  have "after SLASH n = c' # u'" using a(1) assms(4) cut by (metis last.simps last_append last_snoc list.discI append_Cons)
  then have "last n = last (c' # u')" using cut by (metis last_appendR list.discI append_is_Nil_conv)
  then have l: "repo_char (last n)" using a(2,3) by (auto simp: list_all_iff)
  have "strip n = n" unfolding strip_def using strip_ends assms(2) repo_char_facts(1) h l by blast
  moreover have "strip_of [SLASH] n = n"
    unfolding strip_of_def using strip_ends [of n "\<lambda>c. c \<in> set [SLASH]"] assms(2) repo_char_facts(2) h l by simp
  moreover have "drop_suffix GIT_SUFFIX n = n" using assms(3) by (simp add: drop_suffix_def)
  ultimately show ?thesis using n cut by (simp add: normalize_name_def Let_def)
qed

lemma strings_in_strs: "strings_in (map JStr ss) = ss"
  by (induction ss) (simp_all add: strings_in_def)

text \<open>A reach survives the form a credential carries: read back, it has the same repositories, the same
  read-only switch and the same author, provided no stored name still ends in \<open>.git\<close> or in a line break.\<close>

theorem reach_round_trip:
  assumes "r = reach_of names ro own" and "\<And>n. n \<in> set (repositories r) \<Longrightarrow> \<not> ends_with n GIT_SUFFIX \<and> last n \<noteq> NL"
  shows "\<exists>r'. from_dict (Some (JObj (to_dict r))) = Some r' \<and> set (repositories r') = set (repositories r) \<and>
    read_only r' = ro \<and> personal r' = own \<and> allows r' = allows r \<and> judged r' = judged r"
proof -
  have fixed: "normalize_name n = n \<and> n \<noteq> []" if m: "n \<in> set (repositories r)" for n
  proof -
    from m assms(1) obtain x where "normalize_name x = n" "n \<noteq> []" by (auto simp: reach_of_def)
    with normalize_fixed assms(2) [OF m] show ?thesis by blast
  qed
  let ?r' = "reach_of (sorted_names r) ro own"
  have "from_dict (Some (JObj (to_dict r))) = Some ?r'"
    by (auto simp: from_dict_def to_dict_def judged_def dget_def truthy_def strings_in_strs assms(1) reach_of_def)
  moreover have s: "set (repositories ?r') = set (repositories r)"
    using fixed by (force simp: reach_of_def sorted_names_def)
  moreover have "repositories ?r' = [] \<longleftrightarrow> repositories r = []" using s by (metis set_empty)
  moreover have "sorted_names ?r' = sorted_names r"
    using s unfolding sorted_names_def by (metis distinct_remdups set_remdups sorted_list_of_set_sort_remdups)
  ultimately show ?thesis
    by (auto simp: allows_def judged_def assms(1) reach_of_def fun_eq_iff)
qed

theorem reach_round_trip_witness:
  "\<exists>r'. from_dict (Some (JObj (to_dict (reach_of [''Acme/Site.git''] True False)))) = Some r' \<and> allows r' ''acme/site''"
proof -
  let ?r = "reach_of [''Acme/Site.git''] True False"
  have r: "repositories ?r = [''acme/site'']" and x: "\<not> ends_with ''acme/site'' GIT_SUFFIX \<and> last ''acme/site'' \<noteq> NL"
    and y: "allows ?r ''acme/site''" by code_simp+
  have "\<not> ends_with n GIT_SUFFIX \<and> last n \<noteq> NL" if "n \<in> set (repositories ?r)" for n
    using that x unfolding r by simp
  from reach_round_trip [OF refl this] y show ?thesis by metis
qed

text \<open>A name that ends in \<open>.git\<close> twice is cut once more at each reading, so the reach moves to another
  repository.\<close>

lemma stored_name_drifts:
  "repositories (reach_of [''acme/site.git.git''] False False) = [''acme/site.git'']"
  "map_option repositories (from_dict (Some (JObj (to_dict (reach_of [''acme/site.git.git''] False False))))) =
     Some [''acme/site'']"
  by code_simp+

section \<open>Where the judge and the command differ\<close>

text \<open>A query that ends in \<open>NOT\<close> does not widen; with the reach's own qualifier added it does.\<close>

lemma trailing_not_widens:
  "judge_call (\<lambda>_. None) one_repo ''search_code'' [(''query'', JStr ''secret NOT'')] =
     ([], Some [(''query'', JStr ''secret NOT repo:acme/site'')])"
  "\<not> widens ''secret NOT''" "widens ''secret NOT repo:acme/site''"
  by code_simp+

text \<open>The wrapper sends 256 arguments and runs all of them: a repository named after the 256th is not judged.\<close>

definition padded :: "string list" where
  "padded = [''pr'', ''list''] @ replicate 254 ''-w''"

lemma gh_parse_padding:
  assumes "takes_value (gh_group c) (gh_verb c) ''-w'' = Some False"
  shows "gh_parse c (replicate n ''-w'') = c\<lparr>gc_flags := gc_flags c @ replicate n (''-w'', None)\<rparr>"
  using assms
proof (induction n arbitrary: c)
  case (Suc n)
  let ?c = "add_flag ''-w'' None (doubt False c)"
  have "gh_parse c (replicate (Suc n) ''-w'') = gh_parse ?c (replicate n ''-w'')"
    using Suc.prems by (simp add: gh_parse.simps starts_with_def)
  also have "\<dots> = ?c\<lparr>gc_flags := gc_flags ?c @ replicate n (''-w'', None)\<rparr>"
    using Suc.prems by (intro Suc.IH) (simp add: add_flag_def doubt_def gh_group_def gh_verb_def)
  finally show ?case by (simp add: add_flag_def doubt_def)
qed (simp add: gh_parse.simps)

lemma padding_flags:
  "flag_values fs (c\<lparr>gc_flags := replicate n (f, None)\<rparr>) = []"
  "has_flag fs (c\<lparr>gc_flags := replicate n (f, None)\<rparr>) \<longleftrightarrow> n > 0 \<and> f \<in> set fs"
  by (auto simp: flag_values_def has_flag_def list_ex_iff)

lemma padding_command:
  "gh_parse no_command padded = \<lparr>gc_words = [''pr'', ''list''], gc_flags = replicate 254 (''-w'', None), gc_unreadable = False\<rparr>"
proof -
  have "gh_parse no_command padded =
      gh_parse \<lparr>gc_words = [''pr'', ''list''], gc_flags = [], gc_unreadable = False\<rparr> (replicate 254 ''-w'')"
    by (simp add: padded_def gh_parse.simps starts_with_def no_command_def)
  moreover have "takes_value ''pr'' ''list'' ''-w'' = Some False" by code_simp
  ultimately show ?thesis by (simp add: gh_parse_padding gh_group_def gh_verb_def GH_NO_VERB_def)
qed

lemma cut_arguments_unjudged:
  "wrapper_command (padded @ [''-R'', ''acme/secret'']) = padded"
  "judge_gh one_repo padded [site_remote] [] [] = Some []"
  "judge_gh one_repo [''pr'', ''list'', ''-R'', ''acme/secret''] [site_remote] [] [] \<noteq> Some []"
proof -
  show "wrapper_command (padded @ [''-R'', ''acme/secret'']) = padded"
    by (simp add: wrapper_command_def padded_def)
  let ?base = "\<lparr>gc_words = [''pr'', ''list''], gc_flags = [], gc_unreadable = False\<rparr>"
  let ?pad = "?base\<lparr>gc_flags := replicate 254 (''-w'', None)\<rparr>"
  have c: "gh_parse no_command padded = ?pad" by (simp add: padding_command)
  have c0: "gh_parse no_command [''pr'', ''list''] = ?base"
    by (simp add: gh_parse.simps starts_with_def) (simp add: no_command_def)
  have grp: "gh_group ?pad = ''pr''" "gh_group ?base = ''pr''" "gc_unreadable ?pad = False" "gc_unreadable ?base = False"
    "read_only one_repo = False"
    by (simp_all add: gh_group_def one_repo_def)
  have b: "flag_values fs ?base = []" "has_flag fs ?base = False" for fs
    by (simp_all add: flag_values_def has_flag_def)
  note p = padding_flags [where c = ?base and n = 254 and f = "''-w''"]
  have same: "gh_group ?pad = gh_group ?base" "gh_verb ?pad = gh_verb ?base" "gh_args ?pad = gh_args ?base"
    "gc_words ?pad = gc_words ?base" "flag_values fs ?pad = flag_values fs ?base" for fs
    using p(1) by (simp_all add: gh_group_def gh_verb_def gh_args_def b)
  have parts: "named_first ?pad [] = named_first ?base []" "repo_names one_repo ?pad = repo_names one_repo ?base"
    "api_path ?pad = api_path ?base" "api_names one_repo ?pad = api_names one_repo ?base"
    by (simp_all only: named_first_def repo_names_def api_path_def api_names_def same)
  have eqs: "gh_names one_repo ?pad [] = gh_names one_repo ?base []" "foreign_host ?pad [] = foreign_host ?base []"
    "gh_identity ?pad = gh_identity ?base"
    "has_flag (case lookup GH_WIDENING_FLAGS ''pr'' of None \<Rightarrow> [] | Some fs \<Rightarrow> fs) ?pad =
     has_flag (case lookup GH_WIDENING_FLAGS ''pr'' of None \<Rightarrow> [] | Some fs \<Rightarrow> fs) ?base"
    by (simp_all only: gh_names_def foreign_host_def gh_identity_def same parts)
      (use p(2) in \<open>simp add: GH_WIDENING_FLAGS_def b\<close>)
  have "judge_gh one_repo padded [site_remote] [] [] = judge_gh one_repo [''pr'', ''list''] [site_remote] [] []"
    unfolding judge_gh_def Let_def c c0 grp eqs by simp
  moreover have "judge_gh one_repo [''pr'', ''list''] [site_remote] [] [] = Some []" by code_simp
  ultimately show "judge_gh one_repo padded [site_remote] [] [] = Some []" by simp
  show "judge_gh one_repo [''pr'', ''list'', ''-R'', ''acme/secret''] [site_remote] [] [] \<noteq> Some []" by code_simp
qed

text \<open>gh's own aliases: \<open>gh repo new\<close> is \<open>gh repo create\<close>, which the judge refuses, and \<open>gh repo ls\<close> is
  \<open>gh repo list\<close>. The second repository of \<open>gh issue transfer\<close> and of \<open>gh label clone\<close> is not read.\<close>

lemma alias_passes:
  "judge_gh one_repo [''repo'', ''new'', ''acme/other''] [site_remote] [] [] = Some []"
  "judge_gh one_repo [''repo'', ''create'', ''acme/other''] [site_remote] [] [] \<noteq> Some []"
  "judge_gh one_repo [''repo'', ''ls'', ''other''] [site_remote] [] [] = Some []"
  "judge_gh one_repo [''issue'', ''transfer'', ''5'', ''acme/secret''] [site_remote] [] [] = Some []"
  "judge_gh one_repo [''label'', ''clone'', ''acme/secret''] [site_remote] [] [] = Some []"
  by code_simp+

end
