(* ===== verification/SpawnAuthz.thy ===== *)
theory SpawnAuthz
  imports Principals Visibility
begin

text \<open>
  Who may start a delegated worker (\<open>services/delegation/spawn_authz.py\<close>): the limits an admin sets, the
  walk up a lane's ancestors, the authorisation of one spawn and the overrides it may carry. The stores the
  module reads are the record \<open>spawn_world\<close>; a denial is a \<open>spawn_error\<close>, with the status the route answers.
\<close>

section \<open>What the module reads\<close>

text \<open>An agent's row: whether it is collaborative, its default scope as stored and its primary engine.\<close>

record target_row =
  t_collaborative :: bool
  t_default_scope :: string
  t_execution_path :: string

text \<open>\<open>sw_enabled\<close> is the delegation MCP's state row (\<open>None\<close>: never scanned); the two limits are the stored
  texts; a chat is its agent and its parent; \<open>sw_active\<close> counts a creator's live workers.\<close>

record spawn_world =
  sw_enabled :: "bool option"
  sw_max_spawns :: "string option"
  sw_max_depth :: "string option"
  sw_agents :: "string \<Rightarrow> target_row option"
  sw_targets :: "string \<Rightarrow> string list"
  sw_chats :: "string \<Rightarrow> (string \<times> string) option"
  sw_active :: "string \<Rightarrow> nat"

definition DEFAULT_MAX_PARALLEL_SPAWNS :: int where "DEFAULT_MAX_PARALLEL_SPAWNS = 4"
definition DEFAULT_MAX_DELEGATION_DEPTH :: int where "DEFAULT_MAX_DELEGATION_DEPTH = 4"
definition CHAIN_WALK_HARD_CAP :: nat where "CHAIN_WALK_HARD_CAP = 32"

section \<open>The limits\<close>

text \<open>\<open>int(text)\<close>: blanks around it, a sign, digits with single underscores between them.\<close>

fun digit_groups :: "string \<Rightarrow> string option" where
  "digit_groups [] = None"
| "digit_groups [c] = (if is_digit c then Some [c] else None)"
| "digit_groups (c # d # ds) =
     (if \<not> is_digit c then None
      else if d = CHR ''_'' then map_option ((#) c) (digit_groups ds)
      else map_option ((#) c) (digit_groups (d # ds)))"

definition digits_value :: "string \<Rightarrow> int" where
  "digits_value ds = foldl (\<lambda>n c. 10 * n + (int (of_char c) - 48)) 0 ds"

definition py_int :: "string \<Rightarrow> int option" where
  "py_int s =
     (let t = strip s in
      if starts_with t ''-'' then map_option (\<lambda>ds. - digits_value ds) (digit_groups (tl t))
      else map_option digits_value (digit_groups (if starts_with t ''+'' then tl t else t)))"

definition max_parallel_spawns :: "spawn_world \<Rightarrow> int" where
  "max_parallel_spawns w =
     (case sw_max_spawns w of
        None \<Rightarrow> DEFAULT_MAX_PARALLEL_SPAWNS
      | Some raw \<Rightarrow> (case py_int raw of None \<Rightarrow> DEFAULT_MAX_PARALLEL_SPAWNS
                      | Some v \<Rightarrow> if v \<ge> 0 then v else DEFAULT_MAX_PARALLEL_SPAWNS))"

definition max_delegation_depth :: "spawn_world \<Rightarrow> int" where
  "max_delegation_depth w =
     (case sw_max_depth w of
        None \<Rightarrow> DEFAULT_MAX_DELEGATION_DEPTH
      | Some raw \<Rightarrow> (case py_int raw of None \<Rightarrow> DEFAULT_MAX_DELEGATION_DEPTH
                      | Some v \<Rightarrow> if v > 0 then v else DEFAULT_MAX_DELEGATION_DEPTH))"

section \<open>Denials\<close>

datatype spawn_error =
    ExternalRoute
  | DelegationOff
  | InvalidScope string
  | UnknownAgent string
  | NotATarget string string
  | NoAccess string
  | UserScopeOnly string
  | NoUserIdentity
  | MasterKeyUser
  | NeedsEditor
  | ZeroCap
  | LimitReached nat int bool       \<comment> \<open>live workers, the cap, whether it is a follow-up\<close>
  | DelegationCycle string "string list"
  | ChainTooDeep nat int
  | LayerNotEnabled string string "string list"
  | ModelOnNoLayer string string
  | ModelNotOnLayer string string

definition error_status :: "spawn_error \<Rightarrow> nat" where
  "error_status e =
     (case e of
        InvalidScope _ \<Rightarrow> 400 | MasterKeyUser \<Rightarrow> 400 | LayerNotEnabled _ _ _ \<Rightarrow> 400 | ModelOnNoLayer _ _ \<Rightarrow> 400
      | ModelNotOnLayer _ _ \<Rightarrow> 400 | UnknownAgent _ \<Rightarrow> 404 | _ \<Rightarrow> 403)"

section \<open>The chain of a lane\<close>

text \<open>The agents of a lane's ancestors, nearest first, at most \<open>n\<close> of them. A chat that is gone ends it.\<close>

fun ancestors :: "(string \<Rightarrow> (string \<times> string) option) \<Rightarrow> nat \<Rightarrow> string \<Rightarrow> string list" where
  "ancestors chats 0 cid = []"
| "ancestors chats (Suc n) cid =
     (if cid = [] then []
      else (case chats cid of None \<Rightarrow> [] | Some (agent, parent) \<Rightarrow> agent # ancestors chats n parent))"

definition check_delegation_chain :: "spawn_world \<Rightarrow> string \<Rightarrow> string \<Rightarrow> string \<Rightarrow> spawn_error option" where
  "check_delegation_chain w parent source target =
     (if parent = [] then None
      else
        (let as = ancestors (sw_chats w) CHAIN_WALK_HARD_CAP parent in
         if target \<noteq> source \<and> target \<in> set as then Some (DelegationCycle target (rev as))
         else if int (length as) > max_delegation_depth w then Some (ChainTooDeep (length as) (max_delegation_depth w))
         else None))"

section \<open>One spawn\<close>

record spawn_authz =
  created_by :: string
  spawn_acting :: "string option"
  spawn_scope :: string
  scope_clamped :: bool
  chat_owner :: string
  source_agent :: string

definition check_spawn_cap :: "spawn_world \<Rightarrow> string \<Rightarrow> bool \<Rightarrow> spawn_error option" where
  "check_spawn_cap w creator follow_up =
     (let cap = max_parallel_spawns w; active = sw_active w creator in
      if cap = 0 then Some ZeroCap
      else if int active + 1 > cap then Some (LimitReached active cap follow_up)
      else None)"

definition spawn_source :: "user_context \<Rightarrow> string option \<Rightarrow> string option \<Rightarrow> string \<Rightarrow> string" where
  "spawn_source u header body target =
     or_else (u_agent u) (or_else (if is_service u then or_else (opt_str header) (opt_str body) else []) target)"

text \<open>The scope after the clamp, and whether it was clamped.\<close>

definition clamp_scope :: "user_context \<Rightarrow> target_row \<Rightarrow> string \<Rightarrow> string \<Rightarrow> spawn_error + string \<times> bool" where
  "clamp_scope u row target requested =
     (let avail = available_scopes_for (t_collaborative row) (or_else (t_default_scope row) ''user'') in
      if requested \<in> set avail then Inr (requested, False)
      else if hd avail = ''user'' \<and> acting_sub u = None then Inl (UserScopeOnly target)
      else Inr (hd avail, True))"

definition spawn_creator :: "user_context \<Rightarrow> string \<Rightarrow> string \<Rightarrow> spawn_error + string" where
  "spawn_creator u scope source =
     (case acting_sub u of
        Some sub \<Rightarrow> Inr sub
      | None \<Rightarrow> if scope = ''user'' then Inl (if is_no_user_session u then NoUserIdentity else MasterKeyUser)
                else Inr source)"

definition spawn_owner :: "user_context \<Rightarrow> target_row \<Rightarrow> string \<Rightarrow> string" where
  "spawn_owner u row target =
     (if available_scopes_for (t_collaborative row) (or_else (t_default_scope row) ''user'') = [''agent'']
      then SHARED_CHAT_OWNER_PREFIX @ target
      else (case acting_sub u of None \<Rightarrow> SHARED_CHAT_OWNER_PREFIX @ target | Some sub \<Rightarrow> sub))"

definition spawn_cap :: "spawn_world \<Rightarrow> string \<Rightarrow> bool \<Rightarrow> spawn_error option" where
  "spawn_cap w creator continuing =
     (if \<not> continuing then check_spawn_cap w creator False
      else if max_parallel_spawns w = 0 then Some ZeroCap
      else None)"

definition authorize_spawn ::
  "spawn_world \<Rightarrow> user_context \<Rightarrow> string \<Rightarrow> string \<Rightarrow> string option \<Rightarrow> string option \<Rightarrow> bool \<Rightarrow> spawn_error + spawn_authz"
where
  "authorize_spawn w u target requested body header continuing =
     (if is_external u then Inl ExternalRoute
      else if sw_enabled w \<noteq> Some True then Inl DelegationOff
      else if requested \<notin> {''user'', ''agent''} then Inl (InvalidScope requested)
      else (case sw_agents w target of
        None \<Rightarrow> Inl (UnknownAgent target)
      | Some row \<Rightarrow>
          (let source = spawn_source u header body target in
           if source \<noteq> target \<and> target \<notin> set (sw_targets w source) then Inl (NotATarget source target)
           else if acting_sub u \<noteq> None \<and> \<not> can_access_agent u target then Inl (NoAccess target)
           else (case clamp_scope u row target requested of
             Inl e \<Rightarrow> Inl e
           | Inr (scope, clamped) \<Rightarrow>
               (case spawn_creator u scope source of
                  Inl e \<Rightarrow> Inl e
                | Inr creator \<Rightarrow>
                    if scope = ''agent'' \<and> acting_sub u \<noteq> None \<and> \<not> can_edit_agent u target then Inl NeedsEditor
                    else (case spawn_cap w creator continuing of
                      Some e \<Rightarrow> Inl e
                    | None \<Rightarrow>
                        Inr \<lparr>created_by = creator, spawn_acting = acting_sub u, spawn_scope = scope,
                              scope_clamped = clamped, chat_owner = spawn_owner u row target,
                              source_agent = source\<rparr>))))))"

section \<open>The overrides of a spawn\<close>

text \<open>What the engines say: the engines an agent allows, the one a person's roster marks, the engine that
  offers a model, the enabled models of an engine. A registry that cannot be read is \<open>None\<close>.\<close>

record engine_world =
  ew_allowed :: "string \<Rightarrow> string list"
  ew_session_engine :: "string \<Rightarrow> string \<Rightarrow> string option"
  ew_engine_for :: "string \<Rightarrow> string \<Rightarrow> string \<Rightarrow> string option"
  ew_models :: "string \<Rightarrow> string list option"

definition model_without_layer :: "spawn_world \<Rightarrow> engine_world \<Rightarrow> string \<Rightarrow> string \<Rightarrow> string \<Rightarrow> spawn_error option" where
  "model_without_layer w e target model user_sub =
     (let own = (case sw_agents w target of None \<Rightarrow> [] | Some row \<Rightarrow> t_execution_path row) in
      case (if user_sub \<noteq> [] then ew_session_engine e target user_sub else Some []) of
        None \<Rightarrow> None
      | Some marked \<Rightarrow>
          (case ew_engine_for e target model (or_else marked own) of
             None \<Rightarrow> None
           | Some path \<Rightarrow> if path = [] then Some (ModelOnNoLayer model target) else None))"

definition validate_spawn_overrides ::
  "spawn_world \<Rightarrow> engine_world \<Rightarrow> string \<Rightarrow> string \<Rightarrow> string \<Rightarrow> string \<Rightarrow> spawn_error option"
where
  "validate_spawn_overrides w e target layer model user_sub =
     (if layer = [] \<and> model = [] then None
      else if layer \<noteq> [] \<and> layer \<notin> set (ew_allowed e target)
      then Some (LayerNotEnabled layer target (ew_allowed e target))
      else if layer = [] then model_without_layer w e target model user_sub
      else if model = [] then None
      else (case ew_models e layer of
              None \<Rightarrow> None
            | Some models \<Rightarrow> if model \<in> set models then None else Some (ModelNotOnLayer model layer)))"

section \<open>What an authorised spawn may do\<close>

lemma avail_scopes:
  "set (available_scopes_for c d) \<subseteq> {''user'', ''agent''}" "hd (available_scopes_for c d) \<in> set (available_scopes_for c d)"
  by (auto simp: available_scopes_for_def SCOPES_def SCOPE_USER_def SCOPE_AGENT_def)

lemma clamp_scope_Inr:
  assumes "clamp_scope u row target requested = Inr (scope, clamped)"
  shows "scope \<in> set (available_scopes_for (t_collaborative row) (or_else (t_default_scope row) ''user''))"
    and "\<not> clamped \<Longrightarrow> scope = requested"
  using assms avail_scopes(2) by (auto simp: clamp_scope_def Let_def split: if_splits)

lemma spawn_creator_Inr:
  "spawn_creator u scope source = Inr creator \<longleftrightarrow>
     (case acting_sub u of Some sub \<Rightarrow> creator = sub | None \<Rightarrow> scope \<noteq> ''user'' \<and> creator = source)"
  by (auto simp: spawn_creator_def split: option.splits)

lemma spawn_cap_None:
  "spawn_cap w creator continuing = None \<Longrightarrow>
     max_parallel_spawns w \<noteq> 0 \<and> (\<not> continuing \<longrightarrow> int (sw_active w creator) + 1 \<le> max_parallel_spawns w)"
  by (auto simp: spawn_cap_def check_spawn_cap_def Let_def split: if_splits)

text \<open>C16. An authorised spawn stays within everybody's rights: the platform switch is on and the caller is not an
  external one; the source is the agent the caller's token names (the target itself where it names none; a
  claimed one counts for the master key only) and is the target or lists it; a real person acts under their
  own name on an agent they may open, and works in its shared scope as an editor at least; a caller with no
  person gets no person's scope; the scope is one the target offers; the limit is not zero, and a new worker
  (not the continuation of one) is within the limit of whoever pays for it.\<close>

theorem spawn_within_rights:
  assumes "authorize_spawn w u target requested body header continuing = Inr a"
  shows "\<not> is_external u \<and> sw_enabled w = Some True \<and>
    (\<exists>row. sw_agents w target = Some row \<and>
       spawn_scope a \<in> set (available_scopes_for (t_collaborative row) (or_else (t_default_scope row) ''user''))) \<and>
    (source_agent a = target \<or> target \<in> set (sw_targets w (source_agent a))) \<and>
    (\<not> is_service u \<longrightarrow> source_agent a = or_else (u_agent u) target) \<and>
    (case acting_sub u of
       Some sub \<Rightarrow> created_by a = sub \<and> can_access_agent u target \<and>
         (spawn_scope a = ''agent'' \<longrightarrow> can_edit_agent u target)
     | None \<Rightarrow> created_by a = source_agent a \<and> spawn_scope a = ''agent'') \<and>
    max_parallel_spawns w \<noteq> 0 \<and>
    (\<not> continuing \<longrightarrow> int (sw_active w (created_by a)) + 1 \<le> max_parallel_spawns w)"
proof -
  from assms obtain row scope clamped creator where r: "sw_agents w target = Some row"
    and c: "clamp_scope u row target requested = Inr (scope, clamped)"
    and o: "spawn_creator u scope (spawn_source u header body target) = Inr creator"
    and p: "spawn_cap w creator continuing = None"
    and a: "a = \<lparr>created_by = creator, spawn_acting = acting_sub u, spawn_scope = scope, scope_clamped = clamped,
      chat_owner = spawn_owner u row target, source_agent = spawn_source u header body target\<rparr>"
    and g: "\<not> is_external u" "sw_enabled w = Some True"
      "spawn_source u header body target = target \<or> target \<in> set (sw_targets w (spawn_source u header body target))"
      "acting_sub u = None \<or> can_access_agent u target"
      "scope = ''agent'' \<Longrightarrow> acting_sub u = None \<or> can_edit_agent u target"
    by (auto simp: authorize_spawn_def Let_def split: if_splits option.splits sum.splits)
  have "scope \<in> {''user'', ''agent''}" using clamp_scope_Inr(1) [OF c] avail_scopes(1) by blast
  moreover have "\<not> is_service u \<Longrightarrow> spawn_source u header body target = or_else (u_agent u) target"
    by (simp add: spawn_source_def)
  ultimately show ?thesis
    using r g clamp_scope_Inr(1) [OF c] o spawn_cap_None [OF p]
    by (auto simp: a spawn_creator_Inr split: option.splits)
qed

definition demo_worker_world :: spawn_world where
  "demo_worker_world = \<lparr>sw_enabled = Some True, sw_max_spawns = Some '' 2 '', sw_max_depth = None,
     sw_agents = (\<lambda>a. if a = ''writer'' then Some \<lparr>t_collaborative = True, t_default_scope = [], t_execution_path = ''cli''\<rparr> else None),
     sw_targets = (\<lambda>a. if a = ''editor'' then [''writer''] else []), sw_chats = (\<lambda>_. None), sw_active = (\<lambda>_. 1)\<rparr>"

definition demo_caller :: user_context where
  "demo_caller = (new_context ''s1'' [] [] ''member'')\<lparr>u_is_api_key := True, u_agent := ''editor'', u_agents := [''writer'']\<rparr>"

theorem spawn_within_rights_witness:
  "\<exists>a. authorize_spawn demo_worker_world demo_caller ''writer'' ''user'' None None False = Inr a \<and>
     source_agent a = ''editor'' \<and> created_by a = ''s1''"
proof -
  have f: "acting_sub demo_caller = Some ''s1''" "is_service demo_caller = False" "u_agent demo_caller = ''editor''"
    by code_simp+
  have "case authorize_spawn demo_worker_world demo_caller ''writer'' ''user'' None None False of Inl _ \<Rightarrow> False | Inr _ \<Rightarrow> True"
    by code_simp
  then obtain a where a: "authorize_spawn demo_worker_world demo_caller ''writer'' ''user'' None None False = Inr a"
    by (auto split: sum.splits)
  from spawn_within_rights [OF a] f a show ?thesis by simp
qed

section \<open>The chain of lanes\<close>

text \<open>The whole chain above a lane: it ends at a root, or at a chat that is gone.\<close>

inductive lane :: "(string \<Rightarrow> (string \<times> string) option) \<Rightarrow> string \<Rightarrow> string list \<Rightarrow> bool" for chats where
  lane_root: "lane chats [] []"
| lane_gone: "chats cid = None \<Longrightarrow> lane chats cid []"
| lane_up: "cid \<noteq> [] \<Longrightarrow> chats cid = Some (agent, parent) \<Longrightarrow> lane chats parent as \<Longrightarrow> lane chats cid (agent # as)"

text \<open>A walk that ends before its bound has seen the whole chain.\<close>

lemma walk_is_lane: "length (ancestors chats n cid) < n \<Longrightarrow> lane chats cid (ancestors chats n cid)"
  by (induction n arbitrary: cid) (auto split: option.splits prod.splits intro: lane.intros)

lemma chain_walk:
  assumes "check_delegation_chain w parent source target = None" and "max_delegation_depth w < int CHAIN_WALK_HARD_CAP"
  shows "\<exists>as. lane (sw_chats w) parent as \<and> int (length as) \<le> max_delegation_depth w \<and>
    (target = source \<or> target \<notin> set as)"
proof (cases "parent = []")
  case True
  have "0 < max_delegation_depth w"
    by (auto simp: max_delegation_depth_def DEFAULT_MAX_DELEGATION_DEPTH_def split: option.splits)
  with True show ?thesis by (auto intro: lane_root)
next
  case False
  let ?as = "ancestors (sw_chats w) CHAIN_WALK_HARD_CAP parent"
  from assms(1) False have "int (length ?as) \<le> max_delegation_depth w" "target = source \<or> target \<notin> set ?as"
    by (auto simp: check_delegation_chain_def Let_def split: if_splits)
  moreover from this assms(2) have "lane (sw_chats w) parent ?as" by (intro walk_is_lane) linarith
  ultimately show ?thesis by blast
qed

text \<open>A fresh spawn extends a chain no further than the admin's depth, when that is below the bound of the
  walk, and never back to an agent of the chain: the whole chain above the new worker is finite and at most as
  long as the limit, and the target is none of its agents unless an agent delegates to itself.\<close>

theorem chain_bounded:
  assumes "check_delegation_chain w parent source target = None" and "max_delegation_depth w < int CHAIN_WALK_HARD_CAP"
  shows "\<exists>as. lane (sw_chats w) parent as \<and> int (length as) \<le> max_delegation_depth w \<and>
    (target = source \<or> target \<notin> set as)"
  by (rule chain_walk [OF assms])

theorem chain_bounded_witness:
  "\<exists>as. lane (\<lambda>c. if c = ''c1'' then Some (''editor'', []) else None) ''c1'' as \<and> ''writer'' \<notin> set as"
proof -
  let ?w = "demo_worker_world\<lparr>sw_chats := (\<lambda>c. if c = ''c1'' then Some (''editor'', []) else None)\<rparr>"
  have "check_delegation_chain ?w ''c1'' ''editor'' ''writer'' = None" "max_delegation_depth ?w < int CHAIN_WALK_HARD_CAP"
    by code_simp+
  from chain_bounded [OF this] show ?thesis by auto
qed

text \<open>A limit of 32 and above is none: the walk stops at 32 ancestors, and 32 is not more than the limit.\<close>

lemma ancestors_le: "length (ancestors chats n cid) \<le> n"
  by (induction n arbitrary: cid) (auto split: option.splits)

lemma high_limit_never_refuses:
  assumes "max_delegation_depth w \<ge> int CHAIN_WALK_HARD_CAP"
  shows "check_delegation_chain w parent source source = None"
  using assms ancestors_le [of "sw_chats w" CHAIN_WALK_HARD_CAP parent]
  by (auto simp: check_delegation_chain_def Let_def)

subsection \<open>Every order of spawns\<close>

text \<open>The table of chats as spawns and deletions change it: a worker's row names the chat it was delegated
  from, under an id that no chat has or names.\<close>

inductive chats_step :: "spawn_world \<Rightarrow> spawn_world \<Rightarrow> bool" where
  spawn: "new \<noteq> [] \<Longrightarrow> sw_chats w new = None \<Longrightarrow> (\<And>c a. sw_chats w c \<noteq> Some (a, new)) \<Longrightarrow> parent \<noteq> new \<Longrightarrow>
     check_delegation_chain w parent source target = None \<Longrightarrow>
     chats_step w (w\<lparr>sw_chats := (sw_chats w)(new \<mapsto> (target, parent))\<rparr>)"
| delete: "chats_step w (w\<lparr>sw_chats := (sw_chats w)(gone := None)\<rparr>)"

inductive reachable_chats :: "spawn_world \<Rightarrow> spawn_world \<Rightarrow> bool" for w0 where
  start: "reachable_chats w0 w0"
| step: "reachable_chats w0 w \<Longrightarrow> chats_step w w' \<Longrightarrow> reachable_chats w0 w'"

lemma lane_other:
  assumes "lane chats c as" "c \<noteq> new" "\<And>x a. chats x \<noteq> Some (a, new)"
  shows "lane (chats(new \<mapsto> v)) c as"
  using assms
proof (induction rule: lane.induct)
  case (lane_up cid agent parent as)
  then have "parent \<noteq> new" by blast
  with lane_up show ?case by (auto intro: lane.lane_up)
qed (auto intro: lane.intros)

lemma lane_deleted: "lane chats c as \<Longrightarrow> \<exists>as'. lane (chats(gone := None)) c as' \<and> length as' \<le> length as"
proof (induction rule: lane.induct)
  case (lane_up cid agent parent as)
  then obtain as' where "lane (chats(gone := None)) parent as'" "length as' \<le> length as" by blast
  show ?case
  proof (cases "cid = gone")
    case True
    then show ?thesis by (intro exI [of _ "[]"]) (simp add: lane_gone)
  next
    case False
    with lane_up.hyps(1,2) \<open>lane (chats(gone := None)) parent as'\<close> have "lane (chats(gone := None)) cid (agent # as')"
      by (intro lane.lane_up) auto
    moreover have "length (agent # as') \<le> length (agent # as)" using \<open>length as' \<le> length as\<close> by simp
    ultimately show ?thesis by blast
  qed
qed (auto intro!: exI [of _ "[]"] intro: lane.intros)

definition lanes_within :: "spawn_world \<Rightarrow> bool" where
  "lanes_within w = (\<forall>c. \<exists>as. lane (sw_chats w) c as \<and> int (length as) \<le> max_delegation_depth w + 1)"

lemma chats_step_within:
  assumes "chats_step w w'" "lanes_within w" "max_delegation_depth w < int CHAIN_WALK_HARD_CAP"
  shows "lanes_within w' \<and> max_delegation_depth w' = max_delegation_depth w"
  using assms
proof (induction rule: chats_step.induct)
  case (spawn new w parent source target)
  let ?w = "w\<lparr>sw_chats := (sw_chats w)(new \<mapsto> (target, parent))\<rparr>"
  have d: "max_delegation_depth ?w = max_delegation_depth w" by (simp add: max_delegation_depth_def)
  from chain_walk [OF spawn.hyps(5) spawn.prems(2)] obtain as where
    l: "lane (sw_chats w) parent as" "int (length as) \<le> max_delegation_depth w" by blast
  have n: "lane (sw_chats ?w) new (target # as)"
    using spawn.hyps lane_other [OF l(1) spawn.hyps(4) spawn.hyps(3)] by (auto intro: lane_up)
  have "\<exists>bs. lane (sw_chats ?w) c bs \<and> int (length bs) \<le> max_delegation_depth w + 1" for c
  proof (cases "c = new")
    case True
    with n l(2) show ?thesis by (intro exI [of _ "target # as"]) simp
  next
    case False
    from spawn.prems(1) obtain bs where "lane (sw_chats w) c bs" "int (length bs) \<le> max_delegation_depth w + 1"
      unfolding lanes_within_def by blast
    with lane_other [OF this(1) False spawn.hyps(3)] show ?thesis by auto
  qed
  with d show ?case by (simp add: lanes_within_def)
next
  case (delete w gone)
  have "max_delegation_depth (w\<lparr>sw_chats := (sw_chats w)(gone := None)\<rparr>) = max_delegation_depth w"
    by (simp add: max_delegation_depth_def)
  moreover have "\<exists>bs. lane ((sw_chats w)(gone := None)) c bs \<and> int (length bs) \<le> max_delegation_depth w + 1" for c
    using delete.prems(1) lane_deleted unfolding lanes_within_def by (meson dual_order.trans of_nat_le_iff)
  ultimately show ?case by (simp add: lanes_within_def)
qed

text \<open>C19. Delegation cannot ping-pong for ever: from an empty platform whose depth limit stays as it is and below
  the 32 ancestors a walk follows, whatever the order of fresh spawns and deletions, every lane's chain is
  finite and at most one longer than the limit. (At 32 or more the limit never refuses: see
  \<open>high_limit_never_refuses\<close>.)\<close>

theorem lanes_stay_bounded:
  assumes "reachable_chats w0 w" and "sw_chats w0 = (\<lambda>_. None)" and "max_delegation_depth w0 < int CHAIN_WALK_HARD_CAP"
  shows "\<exists>as. lane (sw_chats w) cid as \<and> int (length as) \<le> max_delegation_depth w0 + 1"
proof -
  have "lanes_within w \<and> max_delegation_depth w = max_delegation_depth w0"
    using assms
  proof (induction rule: reachable_chats.induct)
    case start
    have "0 < max_delegation_depth w0"
      by (auto simp: max_delegation_depth_def DEFAULT_MAX_DELEGATION_DEPTH_def split: option.splits)
    with start show ?case by (auto simp: lanes_within_def intro!: exI [of _ "[]"] lane_gone)
  next
    case (step w w')
    then show ?case using chats_step_within [of w w'] by auto
  qed
  then show ?thesis unfolding lanes_within_def by metis
qed

theorem lanes_stay_bounded_witness:
  "\<exists>as. lane (Map.empty(''c1'' \<mapsto> (''editor'', []))) ''c1'' as \<and> length as \<le> 5"
proof -
  have "chats_step demo_worker_world (demo_worker_world\<lparr>sw_chats := (sw_chats demo_worker_world)(''c1'' \<mapsto> (''editor'', []))\<rparr>)"
    by (rule chats_step.spawn [where source = "''x''"]) (simp_all add: demo_worker_world_def check_delegation_chain_def)
  with reachable_chats.start have "reachable_chats demo_worker_world (demo_worker_world\<lparr>sw_chats := Map.empty(''c1'' \<mapsto> (''editor'', []))\<rparr>)"
    by (auto intro: reachable_chats.step simp: demo_worker_world_def)
  moreover have "max_delegation_depth demo_worker_world = 4" "CHAIN_WALK_HARD_CAP = 32" by code_simp+
  moreover have "sw_chats demo_worker_world = (\<lambda>_. None)" by (simp add: demo_worker_world_def)
  ultimately show ?thesis using lanes_stay_bounded [of demo_worker_world _ "''c1''"] by fastforce
qed

end
