(* ===== verification/RateLimiter.thy ===== *)
theory RateLimiter
  imports Prelude "HOL-Library.List_Lexorder" "HOL-Library.Char_ord"
begin

text \<open>
  The keyed rate limiter, the account tarpit and the trusted devices (\<open>auth/rate_limiter.py\<close>). The table of
  attempts with its count per bucket is the record \<open>limiter\<close>; every operation is one function of the instant it
  reads (milliseconds; the thresholds of a rule are seconds). What the module writes only to its log is left
  out. The thresholds and the bound of a bucket are the record \<open>limits\<close>.
\<close>

section \<open>The table\<close>

record rule =
  r_max :: int
  r_window :: int
  r_base_block :: int
  r_max_block :: int

record limits =
  rl_rules :: "(string \<times> rule) list"
  rl_login :: rule
  rl_max_keys :: int

record attempt =
  a_count :: int
  first_at :: int
  blocked_until :: int
  block_count :: nat
  tags :: "(string \<times> int) list"

type_synonym attempt_key = "string \<times> string"

record limiter =
  attempts :: "(attempt_key \<times> attempt) list"
  per_bucket :: "(string \<times> int) list"
  full_until :: "(string \<times> int) list"
  last_cleanup :: int

definition empty_limiter :: limiter where
  "empty_limiter = \<lparr>attempts = [], per_bucket = [], full_until = [], last_cleanup = 0\<rparr>"

definition CLEANUP_EVERY :: int where "CLEANUP_EVERY = 300"
definition EVICT_FRACTION :: int where "EVICT_FRACTION = 10"
definition FULL_RESCAN_S :: int where "FULL_RESCAN_S = 60"

abbreviation secs :: "int \<Rightarrow> int" where "secs n \<equiv> 1000 * n"

definition count_of :: "limiter \<Rightarrow> string \<Rightarrow> int" where
  "count_of L b = (case lookup (per_bucket L) b of None \<Rightarrow> 0 | Some n \<Rightarrow> n)"

text \<open>The dict that counts its keys: setting, deleting, popping and clearing an entry.\<close>

definition set_item :: "attempt_key \<Rightarrow> attempt \<Rightarrow> limiter \<Rightarrow> limiter" where
  "set_item k v L =
     L\<lparr>attempts := dict_set k v (attempts L),
       per_bucket := (if k \<in> set (keys (attempts L)) then per_bucket L
                      else dict_set (fst k) (count_of L (fst k) + 1) (per_bucket L))\<rparr>"

definition dec_count :: "string \<Rightarrow> limiter \<Rightarrow> limiter" where
  "dec_count b L =
     L\<lparr>per_bucket := (if count_of L b - 1 \<le> 0 then dict_del b (per_bucket L)
                      else dict_set b (count_of L b - 1) (per_bucket L))\<rparr>"

definition del_item :: "attempt_key \<Rightarrow> limiter \<Rightarrow> limiter" where
  "del_item k L = dec_count (fst k) (L\<lparr>attempts := dict_del k (attempts L)\<rparr>)"

definition pop_item :: "attempt_key \<Rightarrow> limiter \<Rightarrow> limiter" where
  "pop_item k L = (if k \<in> set (keys (attempts L)) then del_item k L else L)"

definition clear_limiter :: "limiter \<Rightarrow> limiter" where
  "clear_limiter L = L\<lparr>attempts := [], per_bucket := [], full_until := []\<rparr>"

section \<open>The operations\<close>

definition rule_of :: "limits \<Rightarrow> string \<Rightarrow> rule" where
  "rule_of cfg b = (case lookup (rl_rules cfg) b of None \<Rightarrow> rl_login cfg | Some r \<Rightarrow> r)"

text \<open>An entry that may be forgotten: idle past the longest block and serving none.\<close>

definition is_stale :: "limits \<Rightarrow> int \<Rightarrow> attempt_key \<Rightarrow> attempt \<Rightarrow> bool" where
  "is_stale cfg now k a = (now - first_at a > secs (r_max_block (rule_of cfg (fst k))) \<and> blocked_until a < now)"

definition stale_keys :: "limits \<Rightarrow> int \<Rightarrow> (attempt_key \<times> attempt) list \<Rightarrow> attempt_key list" where
  "stale_keys cfg now kvs = map fst (filter (\<lambda>(k, a). is_stale cfg now k a) kvs)"

definition del_items :: "attempt_key list \<Rightarrow> limiter \<Rightarrow> limiter" where
  "del_items ks L = foldl (\<lambda>l k. del_item k l) L ks"

definition cleanup :: "limits \<Rightarrow> int \<Rightarrow> limiter \<Rightarrow> limiter" where
  "cleanup cfg now L =
     (if now - last_cleanup L < secs CLEANUP_EVERY then L
      else del_items (stale_keys cfg now (attempts L)) (L\<lparr>last_cleanup := now\<rparr>))"

text \<open>The answer: allowed, and the seconds to wait.\<close>

definition block_duration :: "rule \<Rightarrow> nat \<Rightarrow> int" where
  "block_duration r n = min (r_base_block r * 2 ^ n) (r_max_block r)"

definition check_rate_limit :: "limits \<Rightarrow> int \<Rightarrow> string \<Rightarrow> string \<Rightarrow> limiter \<Rightarrow> limiter \<times> bool \<times> int" where
  "check_rate_limit cfg now b key L0 =
     (let L = cleanup cfg now L0; r = rule_of cfg b in
      case lookup (attempts L) (b, key) of
        None \<Rightarrow> (L, True, 0)
      | Some a \<Rightarrow>
          if blocked_until a > now then (L, False, (blocked_until a - now) div 1000)
          else if now - first_at a > secs (r_window r) then
            (set_item (b, key) (a\<lparr>a_count := 0, first_at := now, blocked_until := 0, tags := []\<rparr>) L, True, 0)
          else if a_count a < r_max r then (L, True, 0)
          else
            (let d = block_duration r (block_count a) in
             (set_item (b, key) (a\<lparr>blocked_until := now + secs d, block_count := block_count a + 1\<rparr>) L, False, d)))"

text \<open>The keys of a full bucket that were never blocked, oldest first.\<close>

definition quiet_keys :: "string \<Rightarrow> int \<Rightarrow> (attempt_key \<times> attempt) list \<Rightarrow> attempt_key list" where
  "quiet_keys b now kvs =
     map snd (sort_key fst (sort_key (snd \<circ> snd)
       (map (\<lambda>(k, a). (first_at a, k))
         (filter (\<lambda>(k, a). fst k = b \<and> block_count a = 0 \<and> blocked_until a < now) kvs))))"

definition make_room :: "limits \<Rightarrow> int \<Rightarrow> string \<Rightarrow> limiter \<Rightarrow> limiter \<times> bool" where
  "make_room cfg now b L =
     (let mine = filter (\<lambda>(k, _). fst k = b) (attempts L);
          L1 = del_items (stale_keys cfg now mine) L; cap = rl_max_keys cfg in
      if count_of L1 b < cap then (L1, True)
      else
        (let n = nat (max 1 (cap div EVICT_FRACTION));
             L2 = del_items (take n (quiet_keys b now (attempts L1))) L1 in
         if count_of L2 b < cap then (L2, True)
         else (L2\<lparr>full_until := dict_set b (now + secs FULL_RESCAN_S) (full_until L2)\<rparr>, False)))"

definition bump_tag :: "string \<Rightarrow> attempt \<Rightarrow> attempt" where
  "bump_tag t a =
     (if t = [] then a
      else a\<lparr>tags := dict_set t ((case lookup (tags a) t of None \<Rightarrow> 0 | Some n \<Rightarrow> n) + 1) (tags a)\<rparr>)"

definition counted :: "limits \<Rightarrow> int \<Rightarrow> string \<Rightarrow> string \<Rightarrow> string \<Rightarrow> limiter \<Rightarrow> limiter" where
  "counted cfg now b key tag L =
     (let fresh = \<lparr>a_count = 1, first_at = now, blocked_until = 0, block_count = 0, tags = []\<rparr> in
      set_item (b, key) (bump_tag tag
        (case lookup (attempts L) (b, key) of
           None \<Rightarrow> fresh
         | Some a \<Rightarrow>
             if now - first_at a > secs (r_window (rule_of cfg b)) \<and> \<not> blocked_until a > now
             then fresh\<lparr>block_count := block_count a\<rparr>
             else a\<lparr>a_count := a_count a + 1\<rparr>)) L)"

definition record_attempt :: "limits \<Rightarrow> int \<Rightarrow> string \<Rightarrow> string \<Rightarrow> string \<Rightarrow> limiter \<Rightarrow> limiter" where
  "record_attempt cfg now b key tag L =
     (if lookup (attempts L) (b, key) = None \<and> count_of L b \<ge> rl_max_keys cfg then
        (if now < (case lookup (full_until L) b of None \<Rightarrow> 0 | Some t \<Rightarrow> t) then L
         else (let (L', room) = make_room cfg now b L in if room then counted cfg now b key tag L' else L'))
      else counted cfg now b key tag L)"

text \<open>The clock is read twice.\<close>

definition hit :: "limits \<Rightarrow> int \<times> int \<Rightarrow> string \<Rightarrow> string \<Rightarrow> limiter \<Rightarrow> limiter \<times> bool \<times> int" where
  "hit cfg t b key L =
     (let (L', answer) = check_rate_limit cfg (fst t) b key L in (record_attempt cfg (snd t) b key [] L', answer))"

definition release_attempt :: "string \<Rightarrow> string \<Rightarrow> limiter \<Rightarrow> limiter" where
  "release_attempt b key L =
     (case lookup (attempts L) (b, key) of
        None \<Rightarrow> L
      | Some a \<Rightarrow> if a_count a > 0 then set_item (b, key) (a\<lparr>a_count := a_count a - 1\<rparr>) L else L)"

definition release_tag :: "string \<Rightarrow> string \<Rightarrow> string \<Rightarrow> limiter \<Rightarrow> limiter" where
  "release_tag b key t L =
     (case lookup (attempts L) (b, key) of
        None \<Rightarrow> L
      | Some a \<Rightarrow>
          (let n = (case lookup (tags a) t of None \<Rightarrow> 0 | Some n \<Rightarrow> n); a' = a\<lparr>tags := dict_del t (tags a)\<rparr> in
           set_item (b, key) (if n \<noteq> 0 then a'\<lparr>a_count := max 0 (a_count a - n)\<rparr> else a') L))"

definition clear_rate_limit :: "string \<Rightarrow> string \<Rightarrow> limiter \<Rightarrow> limiter" where
  "clear_rate_limit b key L = pop_item (b, key) L"

definition hit_login :: "limits \<Rightarrow> int \<times> int \<Rightarrow> string \<Rightarrow> limiter \<Rightarrow> limiter \<times> bool \<times> int" where
  "hit_login cfg t key L = hit cfg t ''login'' key L"

definition release_login_attempt :: "string \<Rightarrow> limiter \<Rightarrow> limiter" where
  "release_login_attempt key L = release_attempt ''login'' key L"

section \<open>The account tarpit\<close>

definition TARPIT_THRESHOLD :: int where "TARPIT_THRESHOLD = 5"
definition TARPIT_BASE_DELAY :: int where "TARPIT_BASE_DELAY = 1"
definition TARPIT_MAX_DELAY :: int where "TARPIT_MAX_DELAY = 16"

text \<open>The failures of an account and its last one as stored (\<open>Some None\<close>: a text that is no instant). The wait is
  in milliseconds; \<open>None\<close> is the \<open>OverflowError\<close> of \<open>1.0 * 2 ** excess\<close>: a power of two from \<open>2 ^ 1024\<close> up is no
  float.\<close>

type_synonym account = "int \<times> int option option"

definition FLOAT_MAX_EXP :: nat where "FLOAT_MAX_EXP = 1024"

definition tarpit_delay :: "int \<Rightarrow> int option" where
  "tarpit_delay failures =
     (let excess = nat (failures - TARPIT_THRESHOLD) in
      if excess \<ge> FLOAT_MAX_EXP then None
      else Some (min (TARPIT_BASE_DELAY * 2 ^ excess) TARPIT_MAX_DELAY))"

definition check_account_tarpit :: "account option \<Rightarrow> int \<Rightarrow> (bool \<times> int) option" where
  "check_account_tarpit user now =
     (case user of
        None \<Rightarrow> Some (True, 0)
      | Some (failures, last_failed) \<Rightarrow>
          if failures < TARPIT_THRESHOLD then Some (True, 0)
          else (case last_failed of
                  None \<Rightarrow> Some (True, 0)
                | Some instant \<Rightarrow>
                    (case tarpit_delay failures of
                       None \<Rightarrow> None
                     | Some delay \<Rightarrow>
                         (case instant of
                            None \<Rightarrow> Some (True, 0)
                          | Some t \<Rightarrow> if now - t \<ge> secs delay then Some (True, 0)
                                      else Some (False, secs delay - (now - t))))))"

section \<open>Trusted devices\<close>

text \<open>The claims of a verified device token (its account, its id, its issue second) and the account's row: its
  id and its last password change (\<open>None\<close>: never; \<open>Some None\<close>: a text that is no instant).\<close>

record device_claims =
  dc_sub :: string
  dc_jti :: string
  dc_iat :: int

definition device_token_claims :: "device_claims option \<Rightarrow> device_claims option" where
  "device_token_claims verified =
     (case verified of None \<Rightarrow> None | Some c \<Rightarrow> if dc_sub c = [] \<or> dc_jti c = [] then None else Some c)"

definition trusted_device_for ::
  "limits \<Rightarrow> int \<times> int \<Rightarrow> device_claims option \<Rightarrow> string \<Rightarrow> int option option \<Rightarrow> limiter \<Rightarrow> limiter \<times> string"
where
  "trusted_device_for cfg t claims sub changed L =
     (case claims of
        None \<Rightarrow> (L, [])
      | Some c \<Rightarrow>
          if dc_sub c \<noteq> sub then (L, [])
          else if (case changed of None \<Rightarrow> False | Some None \<Rightarrow> True | Some (Some ch) \<Rightarrow> secs (dc_iat c) < ch - secs 5)
          then (L, [])
          else
            (let (L', ok, _) = check_rate_limit cfg (fst t) ''login_device'' (dc_jti c) L in
             if \<not> ok then (L', [])
             else (record_attempt cfg (snd t) ''login_device'' (dc_jti c) [] L', dc_jti c)))"

definition release_device_attempt :: "string \<Rightarrow> limiter \<Rightarrow> limiter" where
  "release_device_attempt key L = release_attempt ''login_device'' key L"

section \<open>The count of each bucket\<close>

definition bucket_keys :: "limiter \<Rightarrow> string \<Rightarrow> attempt_key list" where
  "bucket_keys L b = filter (\<lambda>k. fst k = b) (keys (attempts L))"

definition exact :: "limiter \<Rightarrow> bool" where
  "exact L = (distinct (keys (attempts L)) \<and> (\<forall>b. count_of L b = int (length (bucket_keys L b))))"

lemma set_item_fields [simp]:
  "attempts (set_item k v L) = dict_set k v (attempts L)"
  "count_of (set_item k v L) b = count_of L b + (if fst k = b \<and> k \<notin> set (keys (attempts L)) then 1 else 0)"
  by (simp_all add: set_item_def count_of_def)

lemma del_item_fields [simp]:
  "attempts (del_item k L) = dict_del k (attempts L)"
  "count_of (del_item k L) b = (if fst k = b then max 0 (count_of L b - 1) else count_of L b)"
  by (auto simp: del_item_def dec_count_def count_of_def)

lemma exact_set_item:
  assumes "exact L"
  shows "exact (set_item k v L)"
proof (cases "k \<in> set (keys (attempts L))")
  case True
  with assms show ?thesis unfolding exact_def bucket_keys_def by (simp add: dict_set_old_keys del: set_map)
next
  case False
  with assms show ?thesis unfolding exact_def bucket_keys_def by (simp add: dict_set_new del: set_map)
qed

lemma keys_dict_del: "keys (dict_del k kvs) = filter (\<lambda>x. x \<noteq> k) (keys kvs)"
  by (induction kvs) (auto simp: dict_del_def)

lemma length_bucket_del:
  assumes "distinct ks" "k \<in> set ks"
  shows "length (filter (\<lambda>x. fst x = b) ks) =
    length (filter (\<lambda>x. fst x = b) (filter (\<lambda>x. x \<noteq> k) ks)) + (if fst k = b then 1 else 0)"
  using assms by (induction ks) (auto simp: filter_id_conv intro!: arg_cong [where f = length] filter_cong)

lemma exact_del_item:
  assumes "exact L" "k \<in> set (keys (attempts L))"
  shows "exact (del_item k L)"
  using assms length_bucket_del [of "keys (attempts L)" k]
  unfolding exact_def bucket_keys_def by (auto simp: keys_dict_del simp del: set_map)

lemma del_items_simps [simp]:
  "del_items [] L = L" "del_items (k # ks) L = del_items ks (del_item k L)"
  by (simp_all add: del_items_def)

lemma exact_del_items:
  assumes "exact L" "distinct ks" "set ks \<subseteq> set (keys (attempts L))"
  shows "exact (del_items ks L)"
  using assms
proof (induction ks arbitrary: L)
  case (Cons k ks)
  then have "exact (del_item k L)" "set ks \<subseteq> set (keys (attempts (del_item k L)))"
    using set_keys_dict_del [of k "attempts L"] by (auto intro: exact_del_item simp del: set_map)
  with Cons show ?case by simp
qed simp

lemma lookup_del_items: "lookup (attempts (del_items ks L)) x = (if x \<in> set ks then None else lookup (attempts L) x)"
  by (induction ks arbitrary: L) auto

lemma count_del_items: "count_of (del_items ks L) b \<le> max 0 (count_of L b)"
proof (induction ks arbitrary: L)
  case (Cons k ks)
  from Cons [of "del_item k L"] show ?case by (auto split: if_splits)
qed simp

text \<open>What may be dropped is in the table, serves no block, and is dropped once.\<close>

definition droppable :: "int \<Rightarrow> limiter \<Rightarrow> attempt_key list \<Rightarrow> bool" where
  "droppable now L ks =
     (distinct ks \<and> (\<forall>k\<in>set ks. \<exists>a. lookup (attempts L) k = Some a \<and> blocked_until a < now))"

lemma lookup_of_mem: "distinct (keys kvs) \<Longrightarrow> (k, a) \<in> set kvs \<Longrightarrow> lookup kvs k = Some a"
  by (simp add: lookup_map_of)

lemma droppable_exact:
  assumes "exact L" "droppable now L ks"
  shows "exact (del_items ks L)"
proof (rule exact_del_items)
  show "set ks \<subseteq> set (keys (attempts L))"
    using assms(2) lookup_in_keys [of "attempts L"] unfolding droppable_def by (metis option.distinct(1) subsetI)
qed (use assms in \<open>auto simp: droppable_def\<close>)

lemma droppable_keeps:
  assumes "droppable now L ks" "lookup (attempts L) k = Some a" "blocked_until a \<ge> now"
  shows "lookup (attempts (del_items ks L)) k = Some a"
  using assms by (auto simp: lookup_del_items droppable_def)

lemma distinct_filter_keys: "distinct (keys kvs) \<Longrightarrow> distinct (keys (filter P kvs))"
  by (induction kvs) auto

lemma droppable_stale: "exact L \<Longrightarrow> droppable now L (stale_keys cfg now (filter P (attempts L)))"
  unfolding droppable_def stale_keys_def exact_def
  by (auto simp: is_stale_def distinct_filter_keys lookup_of_mem)

lemma quiet_keys_set:
  "set (quiet_keys b now kvs) = {k. \<exists>a. (k, a) \<in> set kvs \<and> fst k = b \<and> block_count a = 0 \<and> blocked_until a < now}"
  by (auto simp: quiet_keys_def image_iff)

lemma distinct_sort_key_map: "distinct (map f (sort_key g xs)) = distinct (map f xs)"
  by (metis distinct_map distinct_sort set_sort)

lemma distinct_quiet_keys: "distinct (keys kvs) \<Longrightarrow> distinct (quiet_keys b now kvs)"
proof -
  assume "distinct (keys kvs)"
  moreover have "map snd (map (\<lambda>(k, a). (first_at a, k)) xs) = keys xs" for xs :: "(attempt_key \<times> attempt) list"
    by (induction xs) auto
  ultimately show ?thesis
    unfolding quiet_keys_def distinct_sort_key_map by (simp add: distinct_filter_keys del: map_map)
qed

lemma droppable_quiet: "exact L \<Longrightarrow> droppable now L (take n (quiet_keys b now (attempts L)))"
  unfolding droppable_def exact_def
  by (auto simp: distinct_quiet_keys quiet_keys_set lookup_of_mem dest!: in_set_takeD)

text \<open>A state that has lost some of what may be dropped.\<close>

definition drops :: "int \<Rightarrow> limiter \<Rightarrow> limiter \<Rightarrow> bool" where
  "drops now L L' =
     (\<exists>ks. droppable now L ks \<and> attempts L' = attempts (del_items ks L) \<and> count_of L' = count_of (del_items ks L))"

lemma exact_cong: "attempts L' = attempts L \<Longrightarrow> count_of L' = count_of L \<Longrightarrow> exact L' = exact L"
  by (simp add: exact_def bucket_keys_def)

lemma drops_exact: "drops now L L' \<Longrightarrow> exact L \<Longrightarrow> exact L'"
  unfolding drops_def using droppable_exact exact_cong by blast

lemma drops_keeps: "drops now L L' \<Longrightarrow> lookup (attempts L) k = Some a \<Longrightarrow> blocked_until a \<ge> now \<Longrightarrow> lookup (attempts L') k = Some a"
  unfolding drops_def using droppable_keeps by metis

lemma drops_absent: "drops now L L' \<Longrightarrow> lookup (attempts L) k = None \<Longrightarrow> lookup (attempts L') k = None"
  unfolding drops_def by (auto simp: lookup_del_items)

lemma drops_count: "drops now L L' \<Longrightarrow> count_of L' b \<le> max 0 (count_of L b)"
  unfolding drops_def using count_del_items by metis

lemma drops_refl: "drops now L L"
  unfolding drops_def droppable_def by (intro exI [of _ "[]"]) simp

lemma drops_del_items: "droppable now L ks \<Longrightarrow> drops now L (del_items ks L)"
  unfolding drops_def by blast

lemma del_items_append: "del_items (ks @ ks') L = del_items ks' (del_items ks L)"
  by (simp add: del_items_def)

lemma drops_more:
  assumes "droppable now L ks" "droppable now (del_items ks L) ks'"
  shows "drops now L (del_items ks' (del_items ks L))"
proof -
  have "droppable now L (ks @ ks')"
    using assms unfolding droppable_def by (auto simp: lookup_del_items split: if_splits)
  then show ?thesis by (metis drops_del_items del_items_append)
qed

lemma drops_cong: "drops now L L' \<Longrightarrow> attempts L2 = attempts L' \<Longrightarrow> count_of L2 = count_of L' \<Longrightarrow> drops now L L2"
  by (simp add: drops_def)

lemma del_item_stamp: "del_item k (L\<lparr>last_cleanup := t\<rparr>) = (del_item k L)\<lparr>last_cleanup := t\<rparr>"
  by (simp add: del_item_def dec_count_def count_of_def)

lemma del_items_stamp:
  "del_items ks (L\<lparr>last_cleanup := t\<rparr>) = (del_items ks L)\<lparr>last_cleanup := t\<rparr>"
  by (induction ks arbitrary: L) (simp_all add: del_item_stamp)

lemma count_of_stamp [simp]:
  "count_of (L\<lparr>last_cleanup := t\<rparr>) = count_of L" "count_of (L\<lparr>full_until := f\<rparr>) = count_of L"
  by (simp_all add: count_of_def fun_eq_iff)

lemma cleanup_drops: "exact L \<Longrightarrow> drops now L (cleanup cfg now L)"
  using drops_cong [OF drops_del_items [OF droppable_stale [where P = "\<lambda>_. True"]]]
  by (auto simp: cleanup_def del_items_stamp intro: drops_refl)

lemma make_room_drops:
  assumes "exact L"
  shows "drops now L (fst (make_room cfg now b L)) \<and>
    (snd (make_room cfg now b L) \<longrightarrow> count_of (fst (make_room cfg now b L)) b < rl_max_keys cfg)"
proof -
  let ?ks = "stale_keys cfg now (filter (\<lambda>(k, _). fst k = b) (attempts L))"
  note d = droppable_stale [OF assms, of now cfg "\<lambda>(k, _). fst k = b"]
  note q = droppable_quiet [OF droppable_exact [OF assms d], of now]
  show ?thesis
    by (auto simp: make_room_def Let_def intro: drops_del_items [OF d] drops_more [OF d q]
        drops_cong [OF drops_more [OF d q]])
qed

section \<open>Every order of operations\<close>

text \<open>The operations a request calls; \<open>hit\<close> is a check and a record.\<close>

datatype limiter_op =
    Check string string
  | Record string string string
  | Release string string
  | ReleaseTag string string string
  | Clear string string

fun run_op :: "limits \<Rightarrow> int \<times> limiter_op \<Rightarrow> limiter \<Rightarrow> limiter" where
  "run_op cfg (now, Check b key) L = fst (check_rate_limit cfg now b key L)"
| "run_op cfg (now, Record b key t) L = record_attempt cfg now b key t L"
| "run_op cfg (now, Release b key) L = release_attempt b key L"
| "run_op cfg (now, ReleaseTag b key t) L = release_tag b key t L"
| "run_op cfg (now, Clear b key) L = clear_rate_limit b key L"

definition run_ops :: "limits \<Rightarrow> (int \<times> limiter_op) list \<Rightarrow> limiter \<Rightarrow> limiter" where
  "run_ops cfg ops L = foldl (\<lambda>l op. run_op cfg op l) L ops"

lemma run_ops_snoc [simp]: "run_ops cfg (ops @ [op]) L = run_op cfg op (run_ops cfg ops L)"
  by (simp add: run_ops_def)

lemma run_ops_simps [simp]: "run_ops cfg [] L = L" "run_ops cfg (op # ops) L = run_ops cfg ops (run_op cfg op L)"
  by (simp_all add: run_ops_def)

lemma hit_ops: "fst (hit cfg (t1, t2) b key L) = run_ops cfg [(t1, Check b key), (t2, Record b key [])] L"
  by (simp add: hit_def split: prod.split)

subsection \<open>The count stays exact and the bucket bounded\<close>

definition limiter_ok :: "limits \<Rightarrow> limiter \<Rightarrow> bool" where
  "limiter_ok cfg L = (exact L \<and> (\<forall>b. count_of L b \<le> rl_max_keys cfg))"

lemma limiter_ok_drops: "limiter_ok cfg L \<Longrightarrow> drops now L L' \<Longrightarrow> 0 \<le> rl_max_keys cfg \<Longrightarrow> limiter_ok cfg L'"
  unfolding limiter_ok_def using drops_exact drops_count by (meson max.boundedI order_trans)

lemma limiter_ok_set_item:
  assumes "limiter_ok cfg L" "lookup (attempts L) k \<noteq> None \<or> count_of L (fst k) < rl_max_keys cfg"
  shows "limiter_ok cfg (set_item k v L)"
  using assms lookup_in_keys [of "attempts L" k] exact_set_item [of L k v]
  unfolding limiter_ok_def by (auto simp del: set_map)

lemma check_ok:
  assumes "limiter_ok cfg L" "0 \<le> rl_max_keys cfg"
  shows "limiter_ok cfg (fst (check_rate_limit cfg now b key L))"
proof -
  have "limiter_ok cfg (cleanup cfg now L)"
    using assms cleanup_drops limiter_ok_drops unfolding limiter_ok_def by blast
  then show ?thesis
    by (auto simp: check_rate_limit_def Let_def intro!: limiter_ok_set_item split: option.splits)
qed

lemma record_ok:
  assumes "limiter_ok cfg L" "0 \<le> rl_max_keys cfg"
  shows "limiter_ok cfg (record_attempt cfg now b key tag L)"
proof -
  have m: "limiter_ok cfg (fst (make_room cfg now b L))"
    "snd (make_room cfg now b L) \<Longrightarrow> count_of (fst (make_room cfg now b L)) b < rl_max_keys cfg"
    using assms make_room_drops limiter_ok_drops unfolding limiter_ok_def by blast+
  with assms show ?thesis
    by (auto simp: record_attempt_def counted_def Let_def not_le intro!: limiter_ok_set_item split: prod.splits)
qed

lemma limiter_ok_del_item: "limiter_ok cfg L \<Longrightarrow> k \<in> set (keys (attempts L)) \<Longrightarrow> 0 \<le> rl_max_keys cfg \<Longrightarrow> limiter_ok cfg (del_item k L)"
  unfolding limiter_ok_def by (auto intro: exact_del_item simp: max_def simp del: set_map) (smt (verit))

lemma run_op_ok: "limiter_ok cfg L \<Longrightarrow> 0 \<le> rl_max_keys cfg \<Longrightarrow> limiter_ok cfg (run_op cfg op L)"
  by (cases op rule: prod.exhaust, rename_tac t o', case_tac o')
    (auto simp: check_ok record_ok release_attempt_def release_tag_def clear_rate_limit_def pop_item_def Let_def
      intro!: limiter_ok_set_item limiter_ok_del_item simp del: set_map split: option.splits)

lemma run_ops_ok:
  assumes "0 \<le> rl_max_keys cfg"
  shows "limiter_ok cfg (run_ops cfg ops empty_limiter)"
proof (induction ops rule: rev_induct)
  case Nil
  from assms show ?case by (simp add: limiter_ok_def exact_def bucket_keys_def count_of_def empty_limiter_def)
qed (use assms in \<open>simp add: run_op_ok\<close>)

text \<open>The limiter's memory is bounded: whatever the operations, in any order and on any keys, the count a
  bucket keeps is the number of its keys in the table, and no bucket holds more than the configured number.\<close>

theorem limiter_bounded:
  assumes "0 \<le> rl_max_keys cfg"
  shows "let L = run_ops cfg ops empty_limiter in
    count_of L b = int (length (bucket_keys L b)) \<and> int (length (bucket_keys L b)) \<le> rl_max_keys cfg"
proof -
  from run_ops_ok [OF assms, of ops] have ok: "limiter_ok cfg (run_ops cfg ops empty_limiter)" .
  then have "count_of (run_ops cfg ops empty_limiter) b \<le> rl_max_keys cfg" by (simp add: limiter_ok_def)
  moreover from ok have "count_of (run_ops cfg ops empty_limiter) b = int (length (bucket_keys (run_ops cfg ops empty_limiter) b))"
    by (simp add: limiter_ok_def exact_def)
  ultimately show ?thesis by (simp add: Let_def)
qed

definition demo_limits :: limits where
  "demo_limits = \<lparr>rl_rules = [], rl_login = \<lparr>r_max = 2, r_window = 900, r_base_block = 900, r_max_block = 14400\<rparr>,
     rl_max_keys = 100\<rparr>"

theorem limiter_bounded_witness:
  "int (length (bucket_keys (run_ops demo_limits [(5000000, Record ''login'' ''a'' []), (5001000, Record ''login'' ''b'' [])]
     empty_limiter) ''login'')) \<le> 100"
  using limiter_bounded [of demo_limits "[(5000000, Record ''login'' ''a'' []), (5001000, Record ''login'' ''b'' [])]" "''login''"]
  by (simp add: Let_def demo_limits_def)

subsection \<open>A block is served\<close>

definition blocked_till :: "limiter \<Rightarrow> attempt_key \<Rightarrow> int \<Rightarrow> bool" where
  "blocked_till L k T = (\<exists>a. lookup (attempts L) k = Some a \<and> blocked_until a = T)"

lemma blocked_drops: "drops now L L' \<Longrightarrow> blocked_till L k T \<Longrightarrow> now \<le> T \<Longrightarrow> blocked_till L' k T"
  unfolding blocked_till_def using drops_keeps by blast

lemma blocked_set_item:
  "blocked_till L k T \<Longrightarrow> (k' = k \<Longrightarrow> blocked_until v = T) \<Longrightarrow> blocked_till (set_item k' v L) k T"
  unfolding blocked_till_def by simp

lemma bump_tag_fields [simp]:
  "blocked_until (bump_tag t a) = blocked_until a" "a_count (bump_tag t a) = a_count a"
  "first_at (bump_tag t a) = first_at a" "block_count (bump_tag t a) = block_count a"
  by (simp_all add: bump_tag_def)

lemma check_blocked:
  assumes "exact L" "blocked_till L k T" "now < T"
  shows "blocked_till (fst (check_rate_limit cfg now b key L)) k T"
proof -
  have c: "blocked_till (cleanup cfg now L) k T"
    using blocked_drops [OF cleanup_drops [OF assms(1)] assms(2)] assms(3) by simp
  with assms(3) show ?thesis
    by (auto simp: check_rate_limit_def Let_def blocked_till_def split: option.splits)
qed

lemma record_blocked:
  assumes "exact L" "blocked_till L k T" "now < T"
  shows "blocked_till (record_attempt cfg now b key tag L) k T"
proof -
  have c: "blocked_till (counted cfg now b key tag M) k T" if "blocked_till M k T" for M
    using that assms(3) by (auto simp: counted_def Let_def blocked_till_def split: option.splits)
  have m: "blocked_till (fst (make_room cfg now b L)) k T"
    using blocked_drops [OF _ assms(2), of now] make_room_drops [OF assms(1)] assms(3) by simp
  from c [OF this] c [OF assms(2)] m assms(2) show ?thesis
    by (simp add: record_attempt_def split: prod.split) auto
qed

lemma run_op_blocked:
  assumes "exact L" "blocked_till L (b, key) T" "fst op < T" "snd op \<noteq> Clear b key"
  shows "blocked_till (run_op cfg op L) (b, key) T"
proof -
  obtain t o' where op: "op = (t, o')" by fastforce
  show ?thesis
  proof (cases o')
    case (Clear b' key')
    with assms op show ?thesis
      by (auto simp: clear_rate_limit_def pop_item_def blocked_till_def)
  qed (use assms op check_blocked record_blocked in
      \<open>auto simp: release_attempt_def release_tag_def Let_def blocked_till_def split: option.splits\<close>)
qed

text \<open>C25. A block is served to its end: once a key is blocked until an instant, a check of it before that instant
  is refused with the time left, whatever was done to the table in between by this key or by others (checks,
  records that make room in a full bucket, attempts given back, clean-ups, in any order of their clocks), unless
  the key itself was cleared.\<close>

theorem block_is_served:
  assumes "blocked_till (run_ops cfg before empty_limiter) (b, key) T"
    and "\<forall>op\<in>set ops. fst op < T \<and> snd op \<noteq> Clear b key" and "now < T" and "0 \<le> rl_max_keys cfg"
  shows "snd (check_rate_limit cfg now b key (run_ops cfg (before @ ops) empty_limiter)) = (False, (T - now) div 1000)"
proof -
  have e: "exact (run_ops cfg (before @ ops) empty_limiter)" for ops
    using run_ops_ok [OF assms(4)] by (simp add: limiter_ok_def)
  have "blocked_till (run_ops cfg (before @ ops) empty_limiter) (b, key) T"
    using assms(2)
  proof (induction ops rule: rev_induct)
    case (snoc op ops)
    then have "blocked_till (run_ops cfg (before @ ops) empty_limiter) (b, key) T" by simp
    from run_op_blocked [OF e this] snoc.prems show ?case by (simp flip: append_assoc)
  qed (use assms(1) in simp)
  then have "blocked_till (cleanup cfg now (run_ops cfg (before @ ops) empty_limiter)) (b, key) T"
    using blocked_drops [OF cleanup_drops [OF e]] assms(3) by simp
  with assms(3) show ?thesis by (auto simp: check_rate_limit_def Let_def blocked_till_def)
qed

text \<open>Two failed sign-ins and the check that blocks.\<close>

definition demo_ops :: "(int \<times> limiter_op) list" where
  "demo_ops = [(5000000, Record ''login'' ''a'' []), (5001000, Record ''login'' ''a'' []), (5002000, Check ''login'' ''a'')]"

theorem block_is_served_witness:
  "snd (check_rate_limit demo_limits 5100000 ''login'' ''a''
     (run_ops demo_limits (demo_ops @ [(5050000, Record ''login'' ''b'' [])]) empty_limiter)) = (False, 802)"
proof -
  have "case lookup (attempts (run_ops demo_limits demo_ops empty_limiter)) (''login'', ''a'') of
      None \<Rightarrow> False | Some a \<Rightarrow> blocked_until a = 5902000" by code_simp
  then have "blocked_till (run_ops demo_limits demo_ops empty_limiter) (''login'', ''a'') 5902000"
    by (auto simp: blocked_till_def split: option.splits)
  from block_is_served [OF this, of "[(5050000, Record ''login'' ''b'' [])]" 5100000] show ?thesis
    by (simp add: demo_limits_def)
qed

subsection \<open>A burst\<close>

text \<open>Hits in a row, each with its two readings of the clock.\<close>

fun hits :: "limits \<Rightarrow> string \<Rightarrow> string \<Rightarrow> (int \<times> int) list \<Rightarrow> limiter \<Rightarrow> bool list" where
  "hits cfg b key [] L = []"
| "hits cfg b key (t # ts) L =
     (let (L', allowed, _) = hit cfg t b key L in allowed # hits cfg b key ts L')"

text \<open>The entry of a burst that began at \<open>t0\<close> after \<open>n\<close> hits.\<close>

definition in_burst :: "limits \<Rightarrow> string \<Rightarrow> string \<Rightarrow> int \<Rightarrow> nat \<Rightarrow> limiter \<Rightarrow> bool" where
  "in_burst cfg b key t0 n L =
     (\<exists>a. lookup (attempts L) (b, key) = Some a \<and> first_at a = t0 \<and> a_count a = int n \<and>
        (int n < r_max (rule_of cfg b) \<longrightarrow> blocked_until a \<le> t0))"

lemma cleanup_keeps_young:
  assumes "lookup (attempts L) (b, key) = Some a" "now - first_at a \<le> secs (r_max_block (rule_of cfg b))" "exact L"
  shows "lookup (attempts (cleanup cfg now L)) (b, key) = Some a"
proof -
  have "(b, key) \<notin> set (stale_keys cfg now (attempts L))"
    using assms by (auto simp: stale_keys_def is_stale_def exact_def dest: lookup_of_mem)
  with assms(1) show ?thesis by (simp add: cleanup_def del_items_stamp lookup_del_items)
qed

lemma hit_in_burst:
  assumes "in_burst cfg b key t0 n L" "exact L"
    and "t0 \<le> t1" "t1 - t0 \<le> secs (r_window (rule_of cfg b))" "t0 \<le> t2" "t2 - t0 \<le> secs (r_window (rule_of cfg b))"
    and "r_window (rule_of cfg b) \<le> r_max_block (rule_of cfg b)"
  shows "in_burst cfg b key t0 (Suc n) (fst (hit cfg (t1, t2) b key L)) \<and>
    fst (snd (hit cfg (t1, t2) b key L)) = (int n < r_max (rule_of cfg b))"
proof -
  from assms(1) obtain a where a: "lookup (attempts L) (b, key) = Some a" "first_at a = t0" "a_count a = int n"
    "int n < r_max (rule_of cfg b) \<Longrightarrow> blocked_until a \<le> t0" unfolding in_burst_def by blast
  have c: "lookup (attempts (cleanup cfg t1 L)) (b, key) = Some a"
    using assms a by (intro cleanup_keeps_young) auto
  have "\<exists>a'. lookup (attempts (fst (check_rate_limit cfg t1 b key L))) (b, key) = Some a' \<and> first_at a' = t0 \<and>
      a_count a' = int n \<and> (int n < r_max (rule_of cfg b) \<longrightarrow> blocked_until a' \<le> t0) \<and>
      fst (snd (check_rate_limit cfg t1 b key L)) = (int n < r_max (rule_of cfg b))"
    using c a assms(3,4) by (auto simp: check_rate_limit_def Let_def)
  moreover have "in_burst cfg b key t0 (Suc n) (record_attempt cfg t2 b key [] M)"
    if "lookup (attempts M) (b, key) = Some a'" "first_at a' = t0" "a_count a' = int n"
      "int n < r_max (rule_of cfg b) \<longrightarrow> blocked_until a' \<le> t0" for M a'
    using that assms(5,6) by (auto simp: record_attempt_def counted_def in_burst_def)
  ultimately show ?thesis by (auto simp: hit_def split: prod.split)
qed

lemma hits_in_burst:
  assumes "in_burst cfg b key t0 n L" "limiter_ok cfg L" "0 \<le> rl_max_keys cfg"
    and "\<forall>t\<in>set ts. t0 \<le> fst t \<and> fst t - t0 \<le> secs (r_window (rule_of cfg b)) \<and>
      t0 \<le> snd t \<and> snd t - t0 \<le> secs (r_window (rule_of cfg b))"
    and "r_window (rule_of cfg b) \<le> r_max_block (rule_of cfg b)"
  shows "hits cfg b key ts L = map (\<lambda>i. int i < r_max (rule_of cfg b)) [n..<n + length ts]"
  using assms
proof (induction ts arbitrary: n L)
  case (Cons t ts)
  obtain t1 t2 where t: "t = (t1, t2)" by fastforce
  have e: "exact L" using Cons.prems by (simp add: limiter_ok_def)
  from hit_in_burst [OF Cons.prems(1) e, of t1 t2] Cons.prems t
  have h: "in_burst cfg b key t0 (Suc n) (fst (hit cfg t b key L))"
    "fst (snd (hit cfg t b key L)) = (int n < r_max (rule_of cfg b))" by auto
  have "limiter_ok cfg (fst (hit cfg t b key L))"
    unfolding t hit_ops using run_op_ok Cons.prems by (simp del: run_op.simps)
  from Cons.IH [OF h(1) this] Cons.prems
  have "hits cfg b key ts (fst (hit cfg t b key L)) = map (\<lambda>i. int i < r_max (rule_of cfg b)) [Suc n..<Suc n + length ts]"
    by simp
  moreover have "[n..<n + length (t # ts)] = n # [Suc n..<Suc n + length ts]"
    by (simp add: upt_conv_Cons del: upt_Suc)
  ultimately show ?case using h(2) by (auto simp: Let_def simp del: upt_Suc split: prod.split)
qed simp

text \<open>C26. A burst cannot slip under the cap: of any number of hits of one key in a row (nothing else touches the
  table between them), the key not in the table yet, its bucket not full, its rule letting at least one
  through and blocking for at least a window, all within one window of the first, exactly the first
  \<open>max\<close> are let through, whatever the blocks armed and served on the way.\<close>

theorem burst_is_capped:
  assumes "lookup (attempts (run_ops cfg before empty_limiter)) (b, key) = None"
    and "count_of (run_ops cfg before empty_limiter) b < rl_max_keys cfg" and "0 \<le> rl_max_keys cfg"
    and "0 < r_max (rule_of cfg b)" and "0 \<le> t0" and "r_window (rule_of cfg b) \<le> r_max_block (rule_of cfg b)"
    and "\<forall>t\<in>set ts. t0 \<le> fst t \<and> fst t - t0 \<le> secs (r_window (rule_of cfg b)) \<and>
      t0 \<le> snd t \<and> snd t - t0 \<le> secs (r_window (rule_of cfg b))"
  shows "hits cfg b key ((t, t0) # ts) (run_ops cfg before empty_limiter) =
    map (\<lambda>i. int i < r_max (rule_of cfg b)) [0..<Suc (length ts)]"
proof -
  let ?L = "run_ops cfg before empty_limiter"
  let ?M = "cleanup cfg t ?L"
  have ok: "limiter_ok cfg ?L" using assms(3) by (rule run_ops_ok)
  then have d: "drops t ?L ?M" by (simp add: cleanup_drops limiter_ok_def)
  have n: "lookup (attempts ?M) (b, key) = None" using drops_absent [OF d assms(1)] .
  have c: "count_of ?M b < rl_max_keys cfg" using drops_count [OF d, of b] assms(2,3) ok
    by (auto simp: limiter_ok_def exact_def max_def split: if_splits)
  have k: "check_rate_limit cfg t b key ?L = (?M, True, 0)" using n by (simp add: check_rate_limit_def)
  have h: "hit cfg (t, t0) b key ?L = (record_attempt cfg t0 b key [] ?M, True, 0)" by (simp add: hit_def k)
  have "in_burst cfg b key t0 1 (record_attempt cfg t0 b key [] ?M)"
    using n c assms(5) by (simp add: record_attempt_def counted_def in_burst_def)
  moreover have "limiter_ok cfg (record_attempt cfg t0 b key [] ?M)"
    using record_ok [OF limiter_ok_drops [OF ok d assms(3)] assms(3)] .
  ultimately have "hits cfg b key ts (record_attempt cfg t0 b key [] ?M) =
      map (\<lambda>i. int i < r_max (rule_of cfg b)) [1..<1 + length ts]"
    using assms(3,7,6) by (rule hits_in_burst)
  moreover have "[0..<Suc (length ts)] = 0 # [1..<1 + length ts]" by (simp add: upt_conv_Cons del: upt_Suc)
  ultimately show ?thesis using h assms(4) by (simp del: upt_Suc)
qed

theorem burst_is_capped_witness:
  "hits demo_limits ''login'' ''a'' [(5000000, 5000000), (5000001, 5000002), (5001000, 5001000)] empty_limiter =
    [True, True, False]"
  using burst_is_capped [of demo_limits "[]" "''login''" "''a''" 5000000 "[(5000001, 5000002), (5001000, 5001000)]" 5000000]
  by (simp add: empty_limiter_def count_of_def demo_limits_def rule_of_def upt_rec)

section \<open>The tarpit\<close>

lemma tarpit_delay_cases:
  "TARPIT_THRESHOLD \<le> f \<Longrightarrow>
   (case tarpit_delay f of
      None \<Rightarrow> f \<ge> TARPIT_THRESHOLD + int FLOAT_MAX_EXP
    | Some d \<Rightarrow> f < TARPIT_THRESHOLD + int FLOAT_MAX_EXP \<and> 1 \<le> d \<and> d \<le> TARPIT_MAX_DELAY)"
  unfolding tarpit_delay_def Let_def TARPIT_BASE_DELAY_def TARPIT_MAX_DELAY_def TARPIT_THRESHOLD_def FLOAT_MAX_EXP_def
  by (auto simp: min_le_iff_disj nat_le_iff)

lemma tarpit_delay_full:
  assumes "9 \<le> f" "f < TARPIT_THRESHOLD + int FLOAT_MAX_EXP"
  shows "tarpit_delay f = Some TARPIT_MAX_DELAY"
proof -
  have "(2::int) ^ 4 \<le> 2 ^ nat (f - 5)" using assms(1) by (intro power_increasing) auto
  with assms show ?thesis
    unfolding tarpit_delay_def Let_def TARPIT_BASE_DELAY_def TARPIT_MAX_DELAY_def TARPIT_THRESHOLD_def FLOAT_MAX_EXP_def
    by (auto simp: nat_le_iff)
qed

text \<open>A wait is never longer than 16 seconds, and over when they have passed.\<close>

lemma tarpit_wait_bounded:
  assumes "check_account_tarpit (Some (f, Some (Some t))) now = Some (allowed, wait)"
  shows "(now - t \<ge> secs TARPIT_MAX_DELAY \<longrightarrow> allowed) \<and> (t \<le> now \<longrightarrow> wait \<le> secs TARPIT_MAX_DELAY)"
  using assms tarpit_delay_cases [of f] by (auto simp: check_account_tarpit_def TARPIT_MAX_DELAY_def split: if_splits option.splits)

text \<open>From 1029 failures on the delay is no float and the check raises, whatever the instant.\<close>

lemma tarpit_gives_out:
  "TARPIT_THRESHOLD + int FLOAT_MAX_EXP \<le> f \<Longrightarrow> check_account_tarpit (Some (f, Some instant)) now = None"
  by (auto simp: check_account_tarpit_def tarpit_delay_def TARPIT_THRESHOLD_def FLOAT_MAX_EXP_def Let_def)

end
