(* ===== verification/SignIn.thy ===== *)
theory SignIn
  imports RateLimiter
begin

text \<open>
  The password sign-in: the local provider with its tarpit (\<open>auth/providers/local_provider.py\<close>), the second step
  with its one-session tokens, its codes and its recovery codes (\<open>auth/totp.py\<close>), the writes of a user row they
  make (\<open>storage/identity/db_users.py\<close>) and the two login routes (\<open>api/auth/identity.py\<close>). The state the routes
  share is the record \<open>sign_ins\<close>. A route is cut where it waits for a password hash: what runs before is one
  function, what runs after another, and any other request may run between them. Secrets are stored encrypted;
  here a row holds the decrypted value.
\<close>

section \<open>The account rows\<close>

record local_user =
  lu_sub :: string
  lu_email :: string
  lu_provider :: string
  lu_hash :: string
  lu_failures :: int
  lu_last_failed :: "int option option"
  lu_changed :: "int option option"
  lu_local_only :: bool
  lu_totp :: bool
  lu_totp_secret :: string
  lu_totp_last :: int
  lu_recovery :: "string list option"

record sign_ins =
  users :: "(string \<times> local_user) list"
  limiter :: limiter
  tarpitted :: "(string \<times> int) list"        \<comment> \<open>monotonic clock\<close>
  used_jtis :: "(string \<times> int) list"
  reserved_jtis :: "(string \<times> int) list"

definition update_user :: "string \<Rightarrow> (local_user \<Rightarrow> local_user) \<Rightarrow> sign_ins \<Rightarrow> sign_ins" where
  "update_user s f st =
     (case lookup (users st) s of None \<Rightarrow> st | Some u \<Rightarrow> st\<lparr>users := dict_set s (f u) (users st)\<rparr>)"

definition get_user_by_email :: "string \<Rightarrow> sign_ins \<Rightarrow> local_user option" where
  "get_user_by_email email st = find (\<lambda>u. lower (lu_email u) = lower email) (map snd (users st))"

definition record_failed_login :: "string \<Rightarrow> int \<Rightarrow> sign_ins \<Rightarrow> sign_ins" where
  "record_failed_login s now = update_user s (\<lambda>u. u\<lparr>lu_failures := lu_failures u + 1, lu_last_failed := Some (Some now)\<rparr>)"

definition undo_failed_login :: "string \<Rightarrow> sign_ins \<Rightarrow> sign_ins" where
  "undo_failed_login s =
     update_user s (\<lambda>u. u\<lparr>lu_failures := max (lu_failures u - 1) 0,
                          lu_last_failed := (if lu_failures u \<le> 1 then None else lu_last_failed u)\<rparr>)"

definition clear_failed_logins :: "string \<Rightarrow> sign_ins \<Rightarrow> sign_ins" where
  "clear_failed_logins s = update_user s (\<lambda>u. u\<lparr>lu_failures := 0, lu_last_failed := None\<rparr>)"

definition reset_login_attempts :: "string \<Rightarrow> sign_ins \<Rightarrow> sign_ins" where
  "reset_login_attempts s = update_user s (\<lambda>u. u\<lparr>lu_failures := 0\<rparr>)"

definition record_successful_login :: "string \<Rightarrow> sign_ins \<Rightarrow> sign_ins" where
  "record_successful_login s st = reset_login_attempts s (clear_failed_logins s st)"

text \<open>One conditional update: the step is recorded when it is past the stored one.\<close>

definition claim_totp_step :: "string \<Rightarrow> int \<Rightarrow> sign_ins \<Rightarrow> sign_ins \<times> bool" where
  "claim_totp_step s step st =
     (case lookup (users st) s of
        None \<Rightarrow> (st, False)
      | Some u \<Rightarrow> if lu_totp_last u < step then (update_user s (\<lambda>u. u\<lparr>lu_totp_last := step\<rparr>) st, True) else (st, False))"

section \<open>The local provider\<close>

text \<open>A refusal: what was missing, the one answer of every wrong credential (with the account's id when a
  password was really checked), the tarpit's with its seconds.\<close>

datatype auth_result =
    FieldsRequired
  | Invalid "string option"
  | Locked int
  | StepNeeded string
  | SignedIn local_user

record ticket =
  tk_user :: local_user
  tk_device :: string

datatype opened =
    Answered auth_result
  | NoAccount           \<comment> \<open>a throwaway hash, then \<open>Invalid None\<close>\<close>
  | TarpitRaised        \<comment> \<open>the \<open>OverflowError\<close> of the delay\<close>
  | Hashing ticket      \<comment> \<open>the password is being checked\<close>

datatype verdict = Right | Wrong | Busy

text \<open>The readings of the clocks: the limiter's two, the tarpit's two (the check and the stamp of the counted
  failure), the monotonic clock before and after.\<close>

record clocks =
  ck_limiter :: "int \<times> int"
  ck_tarpit :: "int \<times> int"
  ck_mono :: "int \<times> int"

definition check_and_count :: "string \<Rightarrow> int \<times> int \<Rightarrow> sign_ins \<Rightarrow> sign_ins \<times> (bool \<times> int) option" where
  "check_and_count s t st =
     (case check_account_tarpit (map_option (\<lambda>u. (lu_failures u, lu_last_failed u)) (lookup (users st) s)) (fst t) of
        None \<Rightarrow> (st, None)
      | Some (ok, wait) \<Rightarrow> (if ok then record_failed_login s (snd t) st else st, Some (ok, wait)))"

text \<open>The seconds a locked answer names, of a wait in milliseconds.\<close>

definition locked :: "int \<Rightarrow> auth_result" where
  "locked wait = Locked (max 1 (wait div 1000))"

definition local_account :: "local_user option \<Rightarrow> bool" where
  "local_account user =
     (case user of None \<Rightarrow> False | Some u \<Rightarrow> starts_with (lu_provider u) ''local'' \<and> lu_hash u \<noteq> [])"

text \<open>Without a trusted device: the memory of the last refusal, then the check and the count under the account's
  lock.\<close>

definition tarpit_gate :: "clocks \<Rightarrow> local_user \<Rightarrow> sign_ins \<Rightarrow> sign_ins \<times> opened" where
  "tarpit_gate c u st =
     (let s = lu_sub u; until = (case lookup (tarpitted st) s of None \<Rightarrow> 0 | Some t \<Rightarrow> t) in
      if until > fst (ck_mono c) then (st, Answered (locked (until - fst (ck_mono c))))
      else (case check_and_count s (ck_tarpit c) st of
              (st', None) \<Rightarrow> (st', TarpitRaised)
            | (st', Some (False, wait)) \<Rightarrow>
                (st'\<lparr>tarpitted := dict_set s (snd (ck_mono c) + wait) (tarpitted st')\<rparr>, Answered (locked wait))
            | (st', Some (True, _)) \<Rightarrow>
                (st'\<lparr>tarpitted := dict_del s (tarpitted st')\<rparr>, Hashing \<lparr>tk_user = u, tk_device = []\<rparr>)))"

definition open_attempt ::
  "limits \<Rightarrow> clocks \<Rightarrow> string \<Rightarrow> string \<Rightarrow> device_claims option \<Rightarrow> sign_ins \<Rightarrow> sign_ins \<times> opened"
where
  "open_attempt cfg c email password device st =
     (let address = lower (strip email) in
      if address = [] \<or> password = [] then (st, Answered FieldsRequired)
      else (let user = get_user_by_email address st in
        if \<not> local_account user then (st, NoAccount)
        else (case user of
          None \<Rightarrow> (st, NoAccount)
        | Some u \<Rightarrow>
            (let (L, vouched) = trusted_device_for cfg (ck_limiter c) device (lu_sub u) (lu_changed u) (limiter st);
                 st1 = st\<lparr>limiter := L\<rparr> in
             if vouched \<noteq> [] then (st1, Hashing \<lparr>tk_user = u, tk_device = vouched\<rparr>)
             else tarpit_gate c u st1))))"

text \<open>The rest, once the hash answers: \<open>None\<close> raises \<open>HashBusy\<close>.\<close>

definition close_attempt :: "verdict \<Rightarrow> ticket \<Rightarrow> sign_ins \<Rightarrow> sign_ins \<times> auth_result option" where
  "close_attempt v tk st =
     (let u = tk_user tk; s = lu_sub u; d = tk_device tk in
      case v of
        Busy \<Rightarrow> (if d \<noteq> [] then st\<lparr>limiter := release_device_attempt d (limiter st)\<rparr> else undo_failed_login s st, None)
      | Wrong \<Rightarrow> (st, Some (Invalid (Some s)))
      | Right \<Rightarrow>
          (let st1 = (if d \<noteq> [] then st\<lparr>limiter := release_device_attempt d (limiter st)\<rparr> else clear_failed_logins s st) in
           (st1\<lparr>tarpitted := dict_del s (tarpitted st1)\<rparr>, Some (if lu_totp u then StepNeeded s else SignedIn u))))"

section \<open>The second step\<close>

record step_token =
  st_sub :: string
  st_jti :: string
  st_exp :: int

text \<open>The claims of a verified two-factor token: its account, its id and its expiry in seconds, if it has one.\<close>

type_synonym step_claims = "string \<times> string \<times> int option"

definition STEP_TOKEN_TTL :: int where "STEP_TOKEN_TTL = 300"

definition step_payload :: "step_claims option \<Rightarrow> step_claims option" where
  "step_payload verified =
     (case verified of None \<Rightarrow> None | Some (s, jti, exp) \<Rightarrow> if jti = [] \<or> s = [] then None else verified)"

definition validate_2fa_session_token :: "step_claims option \<Rightarrow> sign_ins \<Rightarrow> string option" where
  "validate_2fa_session_token verified st =
     (case step_payload verified of
        None \<Rightarrow> None
      | Some (s, jti, exp) \<Rightarrow> if jti \<in> set (keys (used_jtis st)) then None else Some s)"

definition sweep_used_jtis :: "int \<Rightarrow> sign_ins \<Rightarrow> sign_ins" where
  "sweep_used_jtis now st =
     st\<lparr>used_jtis := filter (\<lambda>kv. \<not> snd kv < now) (used_jtis st),
        reserved_jtis := filter (\<lambda>kv. \<not> snd kv < now) (reserved_jtis st)\<rparr>"

datatype reserved = NoToken | TokenBusy | Reserved step_token

definition reserve_2fa_session_token :: "int \<Rightarrow> step_claims option \<Rightarrow> sign_ins \<Rightarrow> sign_ins \<times> reserved" where
  "reserve_2fa_session_token now verified st =
     (case step_payload verified of
        None \<Rightarrow> (st, NoToken)
      | Some (s, jti, exp) \<Rightarrow>
          (let st1 = sweep_used_jtis now st in
           if jti \<in> set (keys (used_jtis st1)) then (st1, NoToken)
           else if jti \<in> set (keys (reserved_jtis st1)) then (st1, TokenBusy)
           else
             (let e = (case exp of None \<Rightarrow> now + secs STEP_TOKEN_TTL
                                 | Some x \<Rightarrow> if x = 0 then now + secs STEP_TOKEN_TTL else secs x) in
              (st1\<lparr>reserved_jtis := dict_set jti e (reserved_jtis st1)\<rparr>,
               Reserved \<lparr>st_sub = s, st_jti = jti, st_exp = e\<rparr>))))"

definition release_2fa_session_token :: "step_token \<Rightarrow> sign_ins \<Rightarrow> sign_ins" where
  "release_2fa_session_token step st = st\<lparr>reserved_jtis := dict_del (st_jti step) (reserved_jtis st)\<rparr>"

definition spend_2fa_session_token :: "step_token \<Rightarrow> sign_ins \<Rightarrow> sign_ins" where
  "spend_2fa_session_token step st =
     st\<lparr>reserved_jtis := dict_del (st_jti step) (reserved_jtis st),
        used_jtis := dict_set (st_jti step) (st_exp step) (used_jtis st)\<rparr>"

text \<open>The authenticator (\<open>pyotp\<close>): its interval in seconds and the code of a step. The digest of a recovery code
  and the NFKC form of a string.\<close>

record factor_env =
  fe_interval :: int
  fe_otp :: "string \<Rightarrow> int \<Rightarrow> string"
  fe_digest :: "string \<Rightarrow> string"
  fe_nfkc :: "string \<Rightarrow> string"

definition totp_step :: "factor_env \<Rightarrow> string \<Rightarrow> string \<Rightarrow> int \<Rightarrow> int option" where
  "totp_step e secret raw now =
     (let code = fe_nfkc e raw in
      if length code \<noteq> 6 \<or> \<not> list_all is_digit code then None
      else (let current = now div secs (fe_interval e) in
            find (\<lambda>step. code = fe_otp e secret step) [current + 1, current, current - 1]))"

definition canonical_recovery_code :: "string \<Rightarrow> string" where
  "canonical_recovery_code code = upper (filter (\<lambda>c. c \<noteq> CHR ''-'' \<and> c \<noteq> CHR '' '') code)"

definition hash_recovery_codes :: "factor_env \<Rightarrow> string list \<Rightarrow> string list" where
  "hash_recovery_codes e codes = map (\<lambda>c. fe_digest e (canonical_recovery_code c)) codes"

definition verify_recovery_code :: "factor_env \<Rightarrow> string \<Rightarrow> string list \<Rightarrow> bool \<times> string list" where
  "verify_recovery_code e code hashed =
     (let h = fe_digest e (canonical_recovery_code code) in
      if h \<in> set hashed then (True, filter (\<lambda>x. x \<noteq> h) hashed) else (False, hashed))"

section \<open>The routes\<close>

text \<open>Where a request comes from, as \<open>lan_check.resolve\<close> answers: through the internal listener, through a
  forwarder that is not trusted or named no client, or from a client address (\<open>gateway\<close>: the container's own).\<close>

record origin =
  og_internal :: bool
  og_case :: string
  og_client :: string
  og_gateway :: string
  og_in_docker :: bool
  og_private :: "string \<Rightarrow> bool"

definition check_local_auth_allowed :: "origin \<Rightarrow> local_user \<Rightarrow> bool" where
  "check_local_auth_allowed o' u =
     (if \<not> lu_local_only u then True
      else if og_internal o' then False
      else if og_case o' = ''untrusted_forwarder'' then False
      else if og_case o' = ''edge_without_xff'' then False
      else if og_in_docker o' \<and> og_client o' \<noteq> [] \<and> og_client o' = og_gateway o' then False
      else og_private o' (og_client o'))"

datatype response =
    TooMany int
  | BotRefused
  | ServerError
  | HashesBusy
  | AccountLocked int
  | Unauthorized
  | LocalNetworkOnly
  | SecondStep "string list"
  | Conflict
  | NotConfigured
  | BadRequest
  | HandedOff string
  | Session string

text \<open>The part of the local route before the provider: the address is counted first. \<open>human\<close> is the bot check's
  answer (\<open>True\<close> where none is configured).\<close>

definition login_open ::
  "limits \<Rightarrow> int \<times> int \<Rightarrow> clocks \<Rightarrow> string \<Rightarrow> bool \<Rightarrow> string \<Rightarrow> string \<Rightarrow> device_claims option \<Rightarrow>
   sign_ins \<Rightarrow> sign_ins \<times> (response + opened)"
where
  "login_open cfg t c key human email password device st =
     (let (L, ok, retry) = hit_login cfg t key (limiter st); st1 = st\<lparr>limiter := L\<rparr> in
      if \<not> ok then (st1, Inl (TooMany retry))
      else if \<not> human then (st1, Inl BotRefused)
      else (let (st2, o') = open_attempt cfg c email password (device_token_claims device) st1 in (st2, Inr o')))"

text \<open>Whether passkeys are on, how many an account has, the mode of the sign-in page and the stored setting.\<close>

record passkey_env =
  pe_enabled :: bool
  pe_count :: "string \<Rightarrow> nat"
  pe_mode :: string
  pe_require_2fa :: string

definition give_back :: "string \<Rightarrow> sign_ins \<Rightarrow> sign_ins" where
  "give_back key st = st\<lparr>limiter := release_login_attempt key (limiter st)\<rparr>"

definition after_password :: "passkey_env \<Rightarrow> string \<Rightarrow> bool \<Rightarrow> sign_ins \<Rightarrow> sign_ins \<times> response" where
  "after_password pk s totp st =
     (let n = (if pe_enabled pk then pe_count pk s else 0); mode = (if pe_enabled pk then pe_mode pk else []);
          factors = (if n \<noteq> 0 then [''passkey''] else []) @ (if totp then [''totp''] else []) in
      if totp then (st, SecondStep factors)
      else if n \<noteq> 0 \<and> (mode = ''second_factor'' \<or> pe_require_2fa pk = ''1'') then (st, SecondStep factors)
      else (record_successful_login s st, Session s))"

definition login_close ::
  "passkey_env \<Rightarrow> origin \<Rightarrow> string \<Rightarrow> auth_result option \<Rightarrow> sign_ins \<Rightarrow> sign_ins \<times> response"
where
  "login_close pk o' key result st =
     (case result of
        None \<Rightarrow> (give_back key st, HashesBusy)
      | Some (Locked wait) \<Rightarrow> (give_back key st, AccountLocked wait)
      | Some FieldsRequired \<Rightarrow> (st, Unauthorized)
      | Some (Invalid _) \<Rightarrow> (st, Unauthorized)
      | Some r \<Rightarrow>
          (let s = (case r of SignedIn u \<Rightarrow> lu_sub u | StepNeeded s \<Rightarrow> s | _ \<Rightarrow> []); st1 = give_back key st in
           if (case lookup (users st1) s of None \<Rightarrow> False | Some u \<Rightarrow> \<not> check_local_auth_allowed o' u)
           then (st1, LocalNetworkOnly)
           else after_password pk s (case r of StepNeeded _ \<Rightarrow> True | _ \<Rightarrow> False) st1))"

text \<open>The second step: the address's count and the token before the first wait.\<close>

definition two_factor_open ::
  "limits \<Rightarrow> int \<times> int \<Rightarrow> int \<Rightarrow> string \<Rightarrow> step_claims option \<Rightarrow> sign_ins \<Rightarrow> sign_ins \<times> (response + step_token)"
where
  "two_factor_open cfg t now key token st =
     (let (L, ok, retry) = hit cfg t ''2fa'' key (limiter st); st1 = st\<lparr>limiter := L\<rparr> in
      if \<not> ok then (st1, Inl (TooMany retry))
      else (case reserve_2fa_session_token now token st1 of
              (st2, TokenBusy) \<Rightarrow> (st2, Inl Conflict)
            | (st2, NoToken) \<Rightarrow> (st2, Inl Unauthorized)
            | (st2, Reserved step) \<Rightarrow> (st2, Inr step)))"

text \<open>A recovery code is read again and consumed under one lock.\<close>

definition use_recovery_code :: "factor_env \<Rightarrow> string \<Rightarrow> string \<Rightarrow> sign_ins \<Rightarrow> sign_ins \<times> bool" where
  "use_recovery_code e code s st =
     (case lookup (users st) s of
        None \<Rightarrow> (st, False)
      | Some u \<Rightarrow>
          (case lu_recovery u of
             None \<Rightarrow> (st, False)
           | Some hashed \<Rightarrow>
               (let (matched, rest) = verify_recovery_code e code hashed in
                if matched then (update_user s (\<lambda>u. u\<lparr>lu_recovery := Some rest\<rparr>) st, True) else (st, False))))"

text \<open>The factor: an authenticator's code is claimed, anything else is tried as a recovery code.\<close>

definition use_factor :: "factor_env \<Rightarrow> string \<Rightarrow> int \<Rightarrow> string \<Rightarrow> string \<Rightarrow> sign_ins \<Rightarrow> sign_ins \<times> bool" where
  "use_factor e code now s secret st =
     (case totp_step e secret code now of
        Some step \<Rightarrow> claim_totp_step s step st
      | None \<Rightarrow> use_recovery_code e code s st)"

definition two_factor_close ::
  "factor_env \<Rightarrow> origin \<Rightarrow> string \<Rightarrow> string \<Rightarrow> int \<Rightarrow> step_token \<Rightarrow> sign_ins \<Rightarrow> sign_ins \<times> response"
where
  "two_factor_close e o' key code now step st =
     (let s = st_sub step in
      case lookup (users st) s of
        None \<Rightarrow> (release_2fa_session_token step st, Unauthorized)
      | Some u \<Rightarrow>
          if \<not> check_local_auth_allowed o' u then (release_2fa_session_token step st, LocalNetworkOnly)
          else if lu_totp_secret u = [] then (release_2fa_session_token step st, NotConfigured)
          else
            (let (st1, ok) = use_factor e (strip code) now s (lu_totp_secret u) st in
             if \<not> ok then (release_2fa_session_token step st1, Unauthorized)
             else
               (let st2 = record_successful_login s (spend_2fa_session_token step st1) in
                (st2\<lparr>limiter := release_attempt ''2fa'' key (limiter st2)\<rparr>, Session s))))"

end
