(* ===== verification/Passkey.thy ===== *)
theory Passkey
  imports SignIn
begin

text \<open>
  The passkey sign-in (\<open>api/auth/webauthn.py\<close>): the store of ceremony challenges, the one-time tokens that hand
  a sign-in back to the app, and the routes that start a login, finish it and exchange such a token. At the
  second step the verify route takes the same one-session tokens as the codes' route (\<open>auth/totp.py\<close>); it is
  cut, like that one, at its first wait. Which account a stored credential is of, and what the WebAuthn
  library says of an assertion, are arguments; the random ids are too.
\<close>

section \<open>Challenges and handoffs\<close>

definition CHALLENGE_TTL :: int where "CHALLENGE_TTL = 300"
definition NATIVE_TOKEN_TTL :: int where "NATIVE_TOKEN_TTL = 60"

record passkeys =
  challenges :: "(string \<times> (string \<times> string \<times> int)) list"
  native_tokens :: "(string \<times> (string \<times> string \<times> int)) list"

text \<open>Both stores: an entry of two strings and its expiry; the lapsed go when one is put, one is popped once.\<close>

definition put_entry :: "int \<Rightarrow> int \<Rightarrow> string \<Rightarrow> string \<Rightarrow> string \<Rightarrow>
    (string \<times> (string \<times> string \<times> int)) list \<Rightarrow> (string \<times> (string \<times> string \<times> int)) list" where
  "put_entry ttl now k a b store =
     dict_set k (a, b, now + secs ttl) (filter (\<lambda>kv. \<not> snd (snd (snd kv)) < now) store)"

definition pop_entry :: "int \<Rightarrow> string \<Rightarrow> (string \<times> (string \<times> string \<times> int)) list \<Rightarrow>
    (string \<times> (string \<times> string \<times> int)) list \<times> (string \<times> string) option" where
  "pop_entry now k store =
     (dict_del k store,
      case lookup store k of None \<Rightarrow> None | Some (a, b, e) \<Rightarrow> if e < now then None else Some (a, b))"

definition put_challenge :: "int \<Rightarrow> string \<Rightarrow> string \<Rightarrow> string \<Rightarrow> passkeys \<Rightarrow> passkeys" where
  "put_challenge now state challenge s pk =
     pk\<lparr>challenges := put_entry CHALLENGE_TTL now state challenge s (challenges pk)\<rparr>"

definition pop_challenge :: "int \<Rightarrow> string \<Rightarrow> passkeys \<Rightarrow> passkeys \<times> (string \<times> string) option" where
  "pop_challenge now state pk =
     (let (store, entry) = pop_entry now state (challenges pk) in (pk\<lparr>challenges := store\<rparr>, entry))"

definition mint_native_token :: "int \<Rightarrow> string \<Rightarrow> string \<Rightarrow> string \<Rightarrow> passkeys \<Rightarrow> passkeys" where
  "mint_native_token now token s handoff pk =
     pk\<lparr>native_tokens := put_entry NATIVE_TOKEN_TTL now token s handoff (native_tokens pk)\<rparr>"

definition pop_native_token :: "int \<Rightarrow> string \<Rightarrow> passkeys \<Rightarrow> passkeys \<times> (string \<times> string) option" where
  "pop_native_token now token pk =
     (let (store, entry) = pop_entry now token (native_tokens pk) in (pk\<lparr>native_tokens := store\<rparr>, entry))"

section \<open>The routes\<close>

text \<open>The setting of the sign-in page, read with its default.\<close>

definition passkey_login_mode :: "string \<Rightarrow> string" where
  "passkey_login_mode setting =
     (if setting = ''passwordless'' \<or> setting = ''second_factor'' then setting else ''passwordless'')"

text \<open>A body that carries a step token gives the claims the token's signature vouches for, if any; without one
  the route signs in with the passkey alone.\<close>

definition passkey_login_options ::
  "limits \<Rightarrow> int \<times> int \<Rightarrow> int \<Rightarrow> passkey_env \<Rightarrow> string \<Rightarrow> step_claims option option \<Rightarrow> string \<Rightarrow> string \<Rightarrow>
   passkeys \<Rightarrow> sign_ins \<Rightarrow> passkeys \<times> sign_ins \<times> (response + string)"
where
  "passkey_login_options cfg t now env key token state challenge pk st =
     (let (L, ok, retry) = hit cfg t ''passkey'' key (limiter st); st1 = st\<lparr>limiter := L\<rparr>;
          step_sub = (case token of None \<Rightarrow> []
                      | Some v \<Rightarrow> (case validate_2fa_session_token v st1 of None \<Rightarrow> [] | Some s \<Rightarrow> s)) in
      if \<not> ok then (pk, st1, Inl (TooMany retry))
      else if \<not> pe_enabled env then (pk, st1, Inl BadRequest)
      else if token \<noteq> None \<and> step_sub = [] then (pk, st1, Inl Unauthorized)
      else if passkey_login_mode (pe_mode env) = ''second_factor'' \<and> step_sub = [] then (pk, st1, Inl BadRequest)
      else (put_challenge now state challenge step_sub pk, st1, Inr state))"

record verify_request =
  vr_state :: string
  vr_credential :: string
  vr_native :: bool
  vr_handoff :: string
  vr_token :: "step_claims option option"

definition handoff_ok :: "string \<Rightarrow> bool" where
  "handoff_ok h \<longleftrightarrow> 16 \<le> length h \<and> length h \<le> 64 \<and>
     list_all (\<lambda>c. is_letter c \<or> is_digit c \<or> c = CHR ''_'' \<or> c = CHR ''-'') h"

text \<open>The part of the verify route before its first wait: the address is counted, the step token taken.\<close>

definition passkey_open ::
  "limits \<Rightarrow> int \<times> int \<Rightarrow> int \<Rightarrow> bool \<Rightarrow> string \<Rightarrow> verify_request \<Rightarrow> sign_ins \<Rightarrow>
   sign_ins \<times> (response + step_token option)"
where
  "passkey_open cfg t now enabled key req st =
     (let (L, ok, retry) = hit cfg t ''passkey'' key (limiter st); st1 = st\<lparr>limiter := L\<rparr> in
      if \<not> ok then (st1, Inl (TooMany retry))
      else if \<not> enabled then (st1, Inl BadRequest)
      else if vr_native req \<and> \<not> handoff_ok (vr_handoff req) then (st1, Inl BadRequest)
      else (case vr_token req of
              None \<Rightarrow> (st1, Inr None)
            | Some v \<Rightarrow>
                (case reserve_2fa_session_token now v st1 of
                   (st2, TokenBusy) \<Rightarrow> (st2, Inl Conflict)
                 | (st2, NoToken) \<Rightarrow> (st2, Inl Unauthorized)
                 | (st2, Reserved step) \<Rightarrow> (st2, Inr (Some step)))))"

text \<open>What \<open>verify_authentication_response\<close> says of the assertion: verified, a \<open>WebAuthnException\<close>, or
  any other exception.\<close>

datatype assertion = Verified | Unverified | AssertionRaised

text \<open>Whom the assertion signs in. A challenge or a step token of an account completes with a credential of that
  account only; the network rule is judged after the assertion.\<close>

definition passkey_judge ::
  "(string \<Rightarrow> string option) \<Rightarrow> (string \<Rightarrow> string \<Rightarrow> assertion) \<Rightarrow> origin \<Rightarrow> string \<Rightarrow> string \<Rightarrow> string \<Rightarrow> string \<Rightarrow>
   sign_ins \<Rightarrow> response + string"
where
  "passkey_judge owner_of verify o' step_sub challenge bound credential st =
     (case owner_of credential of
        None \<Rightarrow> Inl Unauthorized
      | Some owner \<Rightarrow>
          if bound \<noteq> [] \<and> owner \<noteq> bound then Inl Unauthorized
          else if step_sub \<noteq> [] \<and> owner \<noteq> step_sub then Inl Unauthorized
          else (case lookup (users st) owner of
                  None \<Rightarrow> Inl Unauthorized
                | Some u \<Rightarrow>
                    (case verify challenge credential of
                       Unverified \<Rightarrow> Inl Unauthorized
                     | AssertionRaised \<Rightarrow> Inl ServerError
                     | Verified \<Rightarrow> if check_local_auth_allowed o' u then Inr (lu_sub u) else Inl LocalNetworkOnly)))"

definition passkey_verify ::
  "(string \<Rightarrow> string option) \<Rightarrow> (string \<Rightarrow> string \<Rightarrow> assertion) \<Rightarrow> origin \<Rightarrow> string \<Rightarrow> int \<Rightarrow> verify_request \<Rightarrow> string \<Rightarrow>
   passkeys \<Rightarrow> sign_ins \<Rightarrow> passkeys \<times> (response + string)"
where
  "passkey_verify owner_of verify o' setting now req step_sub pk st =
     (if passkey_login_mode setting = ''second_factor'' \<and> step_sub = [] then (pk, Inl BadRequest)
      else (case pop_challenge now (vr_state req) pk of
              (pk1, None) \<Rightarrow> (pk1, Inl Unauthorized)
            | (pk1, Some (challenge, bound)) \<Rightarrow>
                (pk1, passkey_judge owner_of verify o' step_sub challenge bound (vr_credential req) st)))"

text \<open>The rest: the step token is spent when the factor is accepted and given back on every other exit. The
  app's request gets a handoff token, any other the session.\<close>

definition passkey_close ::
  "(string \<Rightarrow> string option) \<Rightarrow> (string \<Rightarrow> string \<Rightarrow> assertion) \<Rightarrow> origin \<Rightarrow> string \<Rightarrow> int \<Rightarrow> string \<Rightarrow> verify_request \<Rightarrow>
   step_token option \<Rightarrow> passkeys \<Rightarrow> sign_ins \<Rightarrow> passkeys \<times> sign_ins \<times> response"
where
  "passkey_close owner_of verify o' setting now token req step pk st =
     (case passkey_verify owner_of verify o' setting now req (case step of None \<Rightarrow> [] | Some p \<Rightarrow> st_sub p) pk st of
        (pk1, Inl r) \<Rightarrow> (pk1, (case step of None \<Rightarrow> st | Some p \<Rightarrow> release_2fa_session_token p st), r)
      | (pk1, Inr s) \<Rightarrow>
          (let st1 = (case step of None \<Rightarrow> st | Some p \<Rightarrow> spend_2fa_session_token p st) in
           if vr_native req then (mint_native_token now token s (vr_handoff req) pk1, st1, HandedOff s)
           else (pk1, st1, Session s)))"

text \<open>The app's exchange: \<open>ring\<close> holds the nonces of the cookie of the browser that asks.\<close>

definition passkey_native_exchange ::
  "limits \<Rightarrow> int \<times> int \<Rightarrow> int \<Rightarrow> origin \<Rightarrow> string \<Rightarrow> string \<Rightarrow> string list \<Rightarrow> passkeys \<Rightarrow> sign_ins \<Rightarrow>
   passkeys \<times> sign_ins \<times> response"
where
  "passkey_native_exchange cfg t now o' key token ring pk st =
     (let (L, ok, retry) = hit cfg t ''passkey'' key (limiter st); st1 = st\<lparr>limiter := L\<rparr> in
      if \<not> ok then (pk, st1, TooMany retry)
      else (case pop_native_token now token pk of
              (pk1, None) \<Rightarrow> (pk1, st1, Unauthorized)
            | (pk1, Some (s, handoff)) \<Rightarrow>
                if handoff = [] \<or> handoff \<notin> set ring then (pk1, st1, Unauthorized)
                else (case lookup (users st1) s of
                        None \<Rightarrow> (pk1, st1, Unauthorized)
                      | Some u \<Rightarrow> if check_local_auth_allowed o' u then (pk1, st1, Session (lu_sub u))
                                  else (pk1, st1, LocalNetworkOnly))))"

section \<open>Facts\<close>

lemma pop_entry_once: "snd (pop_entry now' k (fst (pop_entry now k store))) = None"
  by (simp add: pop_entry_def)

text \<open>A challenge completes one ceremony and a handoff token one exchange.\<close>

lemma challenge_answered_once:
  "snd (pop_challenge now' state (fst (pop_challenge now state pk))) = None"
  by (simp add: pop_challenge_def pop_entry_def)

lemma handoff_exchanged_once:
  assumes "passkey_native_exchange cfg t now o' key token ring pk st = (pk', st', Session s)"
  shows "\<exists>h. lookup (native_tokens pk) token \<noteq> None \<and> h \<in> set ring \<and> h \<noteq> [] \<and>
    snd (pop_native_token now token pk) \<noteq> None \<and> snd (pop_native_token now' token pk') = None"
  using assms
  by (auto simp: passkey_native_exchange_def pop_native_token_def pop_entry_def Let_def
      split: if_splits prod.splits option.splits)

text \<open>What an accepted passkey proves: its credential is of the account that signs in, the account the step token
  and the challenge name when they name one.\<close>

lemma passkey_close_accepts:
  assumes "passkey_close owner_of verify o' setting now token req step pk st = (pk', st', r)"
    and "r = Session s \<or> r = HandedOff s"
  shows "\<exists>u challenge bound owner. owner_of (vr_credential req) = Some owner \<and> lookup (users st) owner = Some u \<and>
    lu_sub u = s \<and> verify challenge (vr_credential req) = Verified \<and> check_local_auth_allowed o' u \<and>
    snd (pop_challenge now (vr_state req) pk) = Some (challenge, bound) \<and> (bound = [] \<or> bound = owner) \<and>
    (case step of None \<Rightarrow> passkey_login_mode setting \<noteq> ''second_factor'' | Some p \<Rightarrow> st_sub p = [] \<or> st_sub p = owner)"
proof -
  obtain pk1 x where v: "passkey_verify owner_of verify o' setting now req
      (case step of None \<Rightarrow> [] | Some p \<Rightarrow> st_sub p) pk st = (pk1, x)" by fastforce
  with assms have "x = Inr s \<or> (\<exists>r'. x = Inl r' \<and> r' = r)"
    by (auto simp: passkey_close_def Let_def split: sum.splits if_splits)
  moreover have "r' \<noteq> Session s' \<and> r' \<noteq> HandedOff s'" if "x = Inl r'" for r' s'
    using v that by (auto simp: passkey_verify_def passkey_judge_def
        split: if_splits option.splits prod.splits assertion.splits)
  ultimately have "x = Inr s" using assms(2) by auto
  with v show ?thesis
    by (auto simp: passkey_verify_def passkey_judge_def
        split: if_splits option.splits prod.splits assertion.splits)
qed

text \<open>The step token's tables over the two halves.\<close>

lemma passkey_close_tables:
  assumes "passkey_close owner_of verify o' setting now token req (Some step) pk st = (pk', st', r)"
  shows "(if \<exists>s. r = Session s \<or> r = HandedOff s
      then used_jtis st' = dict_set (st_jti step) (st_exp step) (used_jtis st)
      else used_jtis st' = used_jtis st) \<and>
    reserved_jtis st' = dict_del (st_jti step) (reserved_jtis st) \<and> users st' = users st"
proof -
  obtain pk1 x where v: "passkey_verify owner_of verify o' setting now req (st_sub step) pk st = (pk1, x)" by fastforce
  have "r' \<noteq> Session s' \<and> r' \<noteq> HandedOff s'" if "x = Inl r'" for r' s'
    using v that by (auto simp: passkey_verify_def passkey_judge_def
        split: if_splits option.splits prod.splits assertion.splits)
  with assms v show ?thesis
    by (cases x) (auto simp: passkey_close_def Let_def release_2fa_session_token_def spend_2fa_session_token_def
        split: if_splits)
qed

end
