(* ===== verification/SignInSafety.thy ===== *)
theory SignInSafety
  imports Passkey
begin

text \<open>
  What the password sign-in keeps in every order of its requests: how many passwords an account's tarpit lets
  through, that a step token opens one session and a code is good once, what a password alone opens, and where
  the tarpit gives out.
\<close>

section \<open>The failures of an account\<close>

definition failures_of :: "string \<Rightarrow> sign_ins \<Rightarrow> account option" where
  "failures_of s st = map_option (\<lambda>u. (lu_failures u, lu_last_failed u)) (lookup (users st) s)"

text \<open>Every row is stored under its own id.\<close>

definition rows_ok :: "sign_ins \<Rightarrow> bool" where
  "rows_ok st = (\<forall>kv\<in>set (users st). lu_sub (snd kv) = fst kv)"

lemma dict_set_members: "kv \<in> set (dict_set k v kvs) \<Longrightarrow> kv = (k, v) \<or> kv \<in> set kvs"
  by (induction k v kvs rule: dict_set.induct) (auto split: if_splits)

lemma update_user_rows: "rows_ok st \<Longrightarrow> (\<And>u. lu_sub (f u) = lu_sub u) \<Longrightarrow> rows_ok (update_user s f st)"
  unfolding update_user_def rows_ok_def
  by (auto split: option.splits dest!: dict_set_members lookup_SomeD)

lemma update_user_lookup [simp]:
  "lookup (users (update_user s f st)) x = (if x = s then map_option f (lookup (users st) x) else lookup (users st) x)"
  by (auto simp: update_user_def split: option.splits)

lemma update_user_rest [simp]:
  "limiter (update_user s f st) = limiter st" "tarpitted (update_user s f st) = tarpitted st"
  "used_jtis (update_user s f st) = used_jtis st" "reserved_jtis (update_user s f st) = reserved_jtis st"
  by (simp_all add: update_user_def split: option.split)

lemma rows_ok_fields [simp]:
  "rows_ok (st\<lparr>limiter := L\<rparr>) = rows_ok st" "rows_ok (st\<lparr>tarpitted := d\<rparr>) = rows_ok st"
  "rows_ok (st\<lparr>used_jtis := d\<rparr>) = rows_ok st" "rows_ok (st\<lparr>reserved_jtis := d\<rparr>) = rows_ok st"
  by (simp_all add: rows_ok_def)

lemma failures_of_fields [simp]:
  "failures_of s (st\<lparr>limiter := L\<rparr>) = failures_of s st" "failures_of s (st\<lparr>tarpitted := d\<rparr>) = failures_of s st"
  "failures_of s (st\<lparr>used_jtis := d\<rparr>) = failures_of s st" "failures_of s (st\<lparr>reserved_jtis := d\<rparr>) = failures_of s st"
  by (simp_all add: failures_of_def)

lemmas row_writes = record_failed_login_def undo_failed_login_def clear_failed_logins_def reset_login_attempts_def
  record_successful_login_def

lemma failures_of_writes [simp]:
  "failures_of s (record_failed_login x t st) =
     (if x = s then map_option (\<lambda>(f, _). (f + 1, Some (Some t))) (failures_of s st) else failures_of s st)"
  "failures_of s (undo_failed_login x st) =
     (if x = s then map_option (\<lambda>(f, l). (max (f - 1) 0, if f \<le> 1 then None else l)) (failures_of s st)
      else failures_of s st)"
  "x \<noteq> s \<Longrightarrow> failures_of s (clear_failed_logins x st) = failures_of s st"
  "x \<noteq> s \<Longrightarrow> failures_of s (record_successful_login x st) = failures_of s st"
  by (auto simp: failures_of_def row_writes option.map_comp comp_def)

lemma rows_ok_writes [simp]:
  "rows_ok st \<Longrightarrow> rows_ok (record_failed_login x t st)" "rows_ok st \<Longrightarrow> rows_ok (undo_failed_login x st)"
  "rows_ok st \<Longrightarrow> rows_ok (clear_failed_logins x st)" "rows_ok st \<Longrightarrow> rows_ok (record_successful_login x st)"
  by (simp_all add: row_writes update_user_rows)

lemma give_back_frame [simp]:
  "failures_of s (give_back key st) = failures_of s st" "rows_ok (give_back key st) = rows_ok st"
  by (simp_all add: give_back_def)

lemma row_of_email:
  assumes "rows_ok st" "get_user_by_email email st = Some u"
  shows "failures_of (lu_sub u) st \<noteq> None"
proof -
  from assms(2) have "u \<in> snd ` set (users st)"
    unfolding get_user_by_email_def by (auto simp: find_Some_iff in_set_conv_nth) (metis image_eqI nth_mem)
  with assms(1) have "lu_sub u \<in> set (keys (users st))" unfolding rows_ok_def by force
  then show ?thesis unfolding failures_of_def using lookup_in_keys [of "users st" "lu_sub u"] by (simp del: set_map)
qed

section \<open>Guesses at one account\<close>

text \<open>The requests of a stretch in which nobody signs in to \<open>s\<close>: the state, the passwords being checked, how many
  were checked against \<open>s\<close> without a trusted device, and the instant.\<close>

record stretch =
  sx_state :: sign_ins
  sx_hashing :: "ticket list"
  sx_checked :: nat
  sx_clock :: int

definition guess_at :: "string \<Rightarrow> ticket \<Rightarrow> bool" where
  "guess_at s tk = (lu_sub (tk_user tk) = s \<and> tk_device tk = [])"

definition pending_at :: "string \<Rightarrow> stretch \<Rightarrow> nat" where
  "pending_at s x = length (filter (guess_at s) (sx_hashing x))"

inductive failing_step :: "limits \<Rightarrow> string \<Rightarrow> stretch \<Rightarrow> stretch \<Rightarrow> bool" for cfg s where
  opened: "login_open cfg t c key human email password device (sx_state x) = (st, r) \<Longrightarrow>
     sx_clock x \<le> fst (ck_tarpit c) \<Longrightarrow> fst (ck_tarpit c) \<le> snd (ck_tarpit c) \<Longrightarrow>
     failing_step cfg s x (x\<lparr>sx_state := st,
       sx_hashing := (case r of Inr (Hashing tk) \<Rightarrow> tk # sx_hashing x | _ \<Rightarrow> sx_hashing x),
       sx_clock := snd (ck_tarpit c)\<rparr>)"
| closed: "tk \<in> set (sx_hashing x) \<Longrightarrow> close_attempt v tk (sx_state x) = (st1, result) \<Longrightarrow>
     login_close pk o' key result st1 = (st, r) \<Longrightarrow> v = Right \<Longrightarrow> lu_sub (tk_user tk) \<noteq> s \<Longrightarrow>
     failing_step cfg s x (x\<lparr>sx_state := st, sx_hashing := remove1 tk (sx_hashing x)\<rparr>)"
| failed: "tk \<in> set (sx_hashing x) \<Longrightarrow> close_attempt v tk (sx_state x) = (st1, result) \<Longrightarrow>
     login_close pk o' key result st1 = (st, r) \<Longrightarrow> v \<noteq> Right \<Longrightarrow>
     failing_step cfg s x (x\<lparr>sx_state := st, sx_hashing := remove1 tk (sx_hashing x),
       sx_checked := (if guess_at s tk \<and> v = Wrong then Suc (sx_checked x) else sx_checked x)\<rparr>)"
| answered: "result \<in> {None, Some FieldsRequired, Some (Invalid None)} \<or> result = Some (Locked w) \<Longrightarrow>
     login_close pk o' key result (sx_state x) = (st, r) \<Longrightarrow> failing_step cfg s x (x\<lparr>sx_state := st\<rparr>)"
| second_opened: "two_factor_open cfg t now key tok (sx_state x) = (st, r2) \<Longrightarrow> failing_step cfg s x (x\<lparr>sx_state := st\<rparr>)"
| second_closed: "two_factor_close e o' key code now step (sx_state x) = (st, r) \<Longrightarrow> r \<noteq> Session s \<Longrightarrow>
     failing_step cfg s x (x\<lparr>sx_state := st\<rparr>)"
| passkey_opened: "passkey_open cfg t now enabled key req (sx_state x) = (st, r3) \<Longrightarrow>
     failing_step cfg s x (x\<lparr>sx_state := st\<rparr>)"
| passkey_closed: "passkey_close owner_of verify o' setting now token req held pk (sx_state x) = (pk', st, r) \<Longrightarrow>
     failing_step cfg s x (x\<lparr>sx_state := st\<rparr>)"

inductive failing :: "limits \<Rightarrow> string \<Rightarrow> stretch \<Rightarrow> stretch \<Rightarrow> bool" for cfg s where
  nothing: "failing cfg s x x"
| another: "failing cfg s x y \<Longrightarrow> failing_step cfg s y z \<Longrightarrow> failing cfg s x z"

text \<open>The failures count every password checked or being checked; past \<open>F\<close> of them the last one is 16 seconds after
  the one before.\<close>

fun paced_account :: "int \<Rightarrow> int \<Rightarrow> int \<Rightarrow> nat \<Rightarrow> int \<Rightarrow> account \<Rightarrow> bool" where
  "paced_account t0 f0 F n clock (f, le) =
     (f0 + int n \<le> f \<and> (f \<le> F \<or>
       (case le of Some (Some l) \<Rightarrow> l \<le> clock \<and> t0 + 16000 * (f - F - 1) \<le> l | _ \<Rightarrow> False)))"

definition paced :: "string \<Rightarrow> int \<Rightarrow> int \<Rightarrow> int \<Rightarrow> sign_ins \<Rightarrow> nat \<Rightarrow> int \<Rightarrow> bool" where
  "paced s t0 f0 F st n clock =
     (rows_ok st \<and> t0 \<le> clock \<and>
      (case failures_of s st of None \<Rightarrow> False | Some a \<Rightarrow> paced_account t0 f0 F n clock a))"

lemma paced_account_later: "paced_account t0 f0 F n clock a \<Longrightarrow> clock \<le> clock' \<Longrightarrow> paced_account t0 f0 F n clock' a"
  by (cases a) (auto split: option.splits)

lemma paced_frame:
  assumes "paced s t0 f0 F st n clock" "rows_ok st'" "failures_of s st' = failures_of s st" "clock \<le> clock'"
  shows "paced s t0 f0 F st' n clock'"
  using assms paced_account_later unfolding paced_def by (auto split: option.splits)

lemma paced_account_undo:
  "paced_account t0 f0 F (Suc n) clock (f, l) \<Longrightarrow> 0 \<le> f0 \<Longrightarrow> 9 \<le> F \<Longrightarrow>
   paced_account t0 f0 F n clock (max (f - 1) 0, if f \<le> 1 then None else l)"
  by (auto split: option.splits)

lemma paced_undo:
  assumes "paced s t0 f0 F st (Suc n) clock" "0 \<le> f0" "9 \<le> F"
  shows "paced s t0 f0 F (undo_failed_login s st) n clock"
  using assms paced_account_undo [OF _ assms(2,3)] unfolding paced_def by (auto split: option.splits)

lemma tarpit_admits:
  assumes "check_account_tarpit (Some (f, le)) t1 = Some (True, wait)" "9 \<le> f" "le = Some (Some l)"
  shows "l + 16000 \<le> t1"
proof -
  have "f < TARPIT_THRESHOLD + int FLOAT_MAX_EXP"
    using assms(1,3) tarpit_gives_out [of f "Some l" t1] by (cases "f < TARPIT_THRESHOLD + int FLOAT_MAX_EXP") auto
  with assms show ?thesis
    by (auto simp: check_account_tarpit_def tarpit_delay_full TARPIT_THRESHOLD_def TARPIT_MAX_DELAY_def split: if_splits)
qed

lemma paced_account_admitted:
  assumes "paced_account t0 f0 F n clock (f, le)" "check_account_tarpit (Some (f, le)) t1 = Some (True, wait)"
    and "clock \<le> t1" "t1 \<le> t2" "t0 \<le> clock" "9 \<le> F"
  shows "paced_account t0 f0 F (Suc n) t2 (f + 1, Some (Some t2))"
  using assms tarpit_admits [OF assms(2)] by (cases "f \<le> F") (auto split: option.splits)

lemma check_and_count_paced:
  assumes "paced s t0 f0 F st n clock" "check_and_count x (t1, t2) st = (st', r)"
    and "clock \<le> t1" "t1 \<le> t2" "9 \<le> F" "x = s \<Longrightarrow> failures_of s st \<noteq> None"
  shows "paced s t0 f0 F st' (if x = s \<and> fst (the r) \<and> r \<noteq> None then Suc n else n) t2"
proof (cases "x = s \<and> r \<noteq> None \<and> fst (the r)")
  case True
  then obtain wait where r: "r = Some (True, wait)" by auto
  with assms(6) True obtain f le where f: "failures_of s st = Some (f, le)" by auto
  with assms(2) r True have c: "check_account_tarpit (Some (f, le)) t1 = Some (True, wait)" "st' = record_failed_login s t2 st"
    by (auto simp: check_and_count_def failures_of_def split: option.splits)
  from assms(1) f have p: "paced_account t0 f0 F n clock (f, le)" "t0 \<le> clock" "rows_ok st" by (auto simp: paced_def)
  from paced_account_admitted [OF p(1) c(1) assms(3,4) p(2) assms(5)] p(2,3) assms(3,4) True r f c(2) show ?thesis
    by (simp add: paced_def)
next
  case False
  have "rows_ok st" using assms(1) by (simp add: paced_def)
  with assms(2) False have "rows_ok st' \<and> failures_of s st' = failures_of s st"
    by (auto simp: check_and_count_def split: option.splits)
  with paced_frame [OF assms(1)] assms(3,4) False show ?thesis by auto
qed

lemma tarpit_gate_paced:
  assumes "tarpit_gate c u st = (st', o')" "paced s t0 f0 F st n clock" "9 \<le> F"
    and "clock \<le> fst (ck_tarpit c)" "fst (ck_tarpit c) \<le> snd (ck_tarpit c)"
    and "lu_sub u = s \<Longrightarrow> failures_of s st \<noteq> None"
  shows "paced s t0 f0 F st' (case o' of Hashing tk \<Rightarrow> if guess_at s tk then Suc n else n | _ \<Rightarrow> n) (snd (ck_tarpit c))"
proof -
  obtain st1 r where c: "check_and_count (lu_sub u) (ck_tarpit c) st = (st1, r)" by fastforce
  have p: "paced s t0 f0 F st1 (if lu_sub u = s \<and> fst (the r) \<and> r \<noteq> None then Suc n else n) (snd (ck_tarpit c))"
    using assms(2) c assms(4-5) assms(3,6) by (intro check_and_count_paced) auto
  have q: "paced s t0 f0 F st n (snd (ck_tarpit c))"
    using paced_frame [OF assms(2)] assms(2,4,5) by (auto simp: paced_def)
  have d: "paced s t0 f0 F (st1\<lparr>tarpitted := d\<rparr>) m k = paced s t0 f0 F st1 m k" for d m k by (simp add: paced_def)
  show ?thesis
  proof (cases "(case lookup (tarpitted st) (lu_sub u) of None \<Rightarrow> 0 | Some t \<Rightarrow> t) > fst (ck_mono c)")
    case True
    with assms(1) q show ?thesis by (auto simp: tarpit_gate_def Let_def)
  next
    case False
    with assms(1) c p d show ?thesis
      by (cases "r = None"; cases "fst (the r)") (auto simp: tarpit_gate_def Let_def guess_at_def split: bool.splits)
  qed
qed

lemma open_attempt_paced:
  assumes "open_attempt cfg c email password device st = (st', o')" "paced s t0 f0 F st n clock" "9 \<le> F"
    and "clock \<le> fst (ck_tarpit c)" "fst (ck_tarpit c) \<le> snd (ck_tarpit c)"
  shows "paced s t0 f0 F st' (case o' of Hashing tk \<Rightarrow> if guess_at s tk then Suc n else n | _ \<Rightarrow> n) (snd (ck_tarpit c))"
proof -
  have q: "paced s t0 f0 F (st\<lparr>limiter := L\<rparr>) n k" if "clock \<le> k" for L k
    by (rule paced_frame [OF assms(2)]) (use assms(2) that in \<open>simp_all add: paced_def\<close>)
  have ok: "rows_ok st" using assms(2) by (simp add: paced_def)
  let ?u = "get_user_by_email (lower (strip email)) st"
  show ?thesis
  proof (cases "lower (strip email) = [] \<or> password = [] \<or> \<not> local_account ?u \<or> ?u = None")
    case True
    with assms(1) q [of _ "limiter st"] assms(4,5) show ?thesis
      by (auto simp: open_attempt_def Let_def split: if_splits option.splits)
  next
    case False
    then obtain u where u: "?u = Some u" by auto
    obtain L d where v: "trusted_device_for cfg (ck_limiter c) device (lu_sub u) (lu_changed u) (limiter st) = (L, d)" by fastforce
    have g: "failures_of (lu_sub u) (st\<lparr>limiter := L\<rparr>) \<noteq> None" using row_of_email [OF ok u] by simp
    show ?thesis
    proof (cases "d = []")
      case True
      with assms(1) False u v have "tarpit_gate c u (st\<lparr>limiter := L\<rparr>) = (st', o')"
        by (simp add: open_attempt_def Let_def)
      from tarpit_gate_paced [OF this q [of clock L] assms(3-5)] g show ?thesis by auto
    next
      case d: False
      with assms(1) False u v have "st' = st\<lparr>limiter := L\<rparr>" "o' = Hashing \<lparr>tk_user = u, tk_device = d\<rparr>"
        by (auto simp: open_attempt_def Let_def)
      with d q assms(4,5) show ?thesis by (simp add: guess_at_def)
    qed
  qed
qed

lemma after_password_frame:
  assumes "after_password pk s' totp st = (st', r)" "s' \<noteq> s" "rows_ok st"
  shows "rows_ok st' \<and> failures_of s st' = failures_of s st"
  using assms by (auto simp: after_password_def Let_def split: if_splits)

lemma login_close_frame:
  assumes "login_close pk o' key result st = (st', r)" "rows_ok st"
    and "case result of Some (SignedIn u) \<Rightarrow> lu_sub u \<noteq> s | Some (StepNeeded s') \<Rightarrow> s' \<noteq> s | _ \<Rightarrow> True"
  shows "rows_ok st' \<and> failures_of s st' = failures_of s st"
proof (cases "\<exists>res. result = Some res \<and> (\<exists>x. res = SignedIn x \<or> res = StepNeeded (lu_sub x))")
  case False
  with assms show ?thesis
    by (auto simp: login_close_def Let_def split: option.splits auth_result.splits if_splits
        dest!: after_password_frame [where s = s])
next
  case True
  with assms show ?thesis
    by (auto simp: login_close_def Let_def split: if_splits dest!: after_password_frame [where s = s])
qed

lemma close_attempt_frame:
  assumes "close_attempt v tk st = (st', r)" "rows_ok st" "lu_sub (tk_user tk) \<noteq> s \<or> tk_device tk \<noteq> [] \<or> v = Wrong"
  shows "rows_ok st' \<and> failures_of s st' = failures_of s st"
  using assms by (auto simp: close_attempt_def Let_def split: verdict.splits if_splits)

lemma close_attempt_result:
  "close_attempt v tk st = (st', r) \<Longrightarrow> v \<noteq> Right \<Longrightarrow> r = None \<or> r = Some (Invalid (Some (lu_sub (tk_user tk))))"
  "close_attempt Right tk st = (st', r) \<Longrightarrow> r = Some (SignedIn (tk_user tk)) \<or> r = Some (StepNeeded (lu_sub (tk_user tk)))"
  by (auto simp: close_attempt_def Let_def split: verdict.splits)

lemma reserve_frame:
  assumes "reserve_2fa_session_token now tok st = (st', r)"
  shows "rows_ok st' = rows_ok st \<and> failures_of s st' = failures_of s st"
  using assms by (auto simp: reserve_2fa_session_token_def sweep_used_jtis_def Let_def split: option.splits prod.splits if_splits)

lemma use_factor_frame:
  assumes "use_factor e code now x secret st = (st', ok)" "rows_ok st"
  shows "rows_ok st' \<and> failures_of s st' = failures_of s st"
proof -
  have "rows_ok (update_user x f st) \<and> failures_of s (update_user x f st) = failures_of s st"
    if "\<And>u. lu_sub (f u) = lu_sub u \<and> lu_failures (f u) = lu_failures u \<and> lu_last_failed (f u) = lu_last_failed u" for f
    using that update_user_rows [OF assms(2)] by (auto simp: failures_of_def option.map_comp comp_def)
  with assms show ?thesis
    by (auto simp: use_factor_def claim_totp_step_def use_recovery_code_def Let_def split: option.splits if_splits prod.splits)
qed

lemma two_factor_close_frame:
  assumes "two_factor_close e o' key code now step st = (st', r)" "rows_ok st" "r \<noteq> Session s"
  shows "rows_ok st' \<and> failures_of s st' = failures_of s st"
  using assms
  by (auto simp: two_factor_close_def Let_def release_2fa_session_token_def spend_2fa_session_token_def
      split: option.splits if_splits prod.splits dest!: use_factor_frame [where s = s])

lemma passkey_open_frame:
  assumes "passkey_open cfg t now enabled key req st = (st', r)"
  shows "rows_ok st' = rows_ok st \<and> failures_of s st' = failures_of s st"
  using assms
  by (auto simp: passkey_open_def Let_def split: if_splits prod.splits reserved.splits option.splits
      dest!: reserve_frame [where s = s])

lemma passkey_close_frame:
  assumes "passkey_close owner_of verify o' setting now token req held pk st = (pk', st', r)"
  shows "rows_ok st' = rows_ok st \<and> failures_of s st' = failures_of s st"
  using assms
  by (auto simp: passkey_close_def Let_def release_2fa_session_token_def spend_2fa_session_token_def
      split: if_splits prod.splits sum.splits option.splits)

definition stretch_paced :: "string \<Rightarrow> int \<Rightarrow> int \<Rightarrow> int \<Rightarrow> stretch \<Rightarrow> bool" where
  "stretch_paced s t0 f0 F x = paced s t0 f0 F (sx_state x) (sx_checked x + pending_at s x) (sx_clock x)"

lemma pending_at_remove:
  assumes "tk \<in> set (sx_hashing x)"
  shows "pending_at s x = length (filter (guess_at s) (remove1 tk (sx_hashing x))) + (if guess_at s tk then 1 else 0)"
proof -
  have "length (filter (guess_at s) xs) = length (filter (guess_at s) (remove1 tk xs)) + (if guess_at s tk then 1 else 0)"
    if "tk \<in> set xs" for xs
    using that by (induction xs) auto
  with assms show ?thesis by (simp add: pending_at_def)
qed

lemma failing_step_paced:
  assumes "failing_step cfg s x y" "stretch_paced s t0 f0 F x" "0 \<le> f0" "9 \<le> F"
  shows "stretch_paced s t0 f0 F y"
  using assms
proof (induction rule: failing_step.induct)
  case (opened t c key human email password device x st r)
  obtain L ok retry where h: "hit_login cfg t key (limiter (sx_state x)) = (L, ok, retry)" by (metis prod_cases3)
  let ?n = "sx_checked x + pending_at s x"
  have p: "paced s t0 f0 F ((sx_state x)\<lparr>limiter := L\<rparr>) ?n k" if "sx_clock x \<le> k" for k
    by (rule paced_frame [where clock = "sx_clock x"])
      (use opened.prems(1) that in \<open>auto simp: stretch_paced_def paced_def\<close>)
  show ?case
  proof (cases "ok \<and> human")
    case True
    with opened.hyps(1) h obtain o' where
      o': "open_attempt cfg c email password (device_token_claims device) ((sx_state x)\<lparr>limiter := L\<rparr>) = (st, o')" "r = Inr o'"
      by (auto simp: login_open_def Let_def split: prod.splits)
    from open_attempt_paced [OF o'(1) p opened.prems(3) opened.hyps(2,3)] o'(2) show ?thesis
      by (auto simp: stretch_paced_def pending_at_def split: opened.splits)
  next
    case False
    with opened.hyps(1) h have "st = (sx_state x)\<lparr>limiter := L\<rparr>" "\<exists>e. r = Inl e"
      by (auto simp: login_open_def Let_def split: if_splits)
    with p [of "snd (ck_tarpit c)"] opened.hyps(2,3) show ?thesis
      by (auto simp: stretch_paced_def pending_at_def)
  qed
next
  case (closed tk x v st1 result pk o' key st r)
  have ok: "rows_ok (sx_state x)" using closed.prems(1) by (simp add: stretch_paced_def paced_def)
  from close_attempt_frame [OF closed.hyps(2) ok] closed.hyps(5)
  have f: "rows_ok st1 \<and> failures_of s st1 = failures_of s (sx_state x)" by blast
  from close_attempt_result(2) closed.hyps(2,4,5)
  have "case result of Some (SignedIn u) \<Rightarrow> lu_sub u \<noteq> s | Some (StepNeeded s') \<Rightarrow> s' \<noteq> s | _ \<Rightarrow> True" by fastforce
  from login_close_frame [OF closed.hyps(3) _ this] f
  have g: "rows_ok st" "failures_of s st = failures_of s (sx_state x)" by auto
  have "\<not> guess_at s tk" using closed.hyps(5) by (simp add: guess_at_def)
  with pending_at_remove [OF closed.hyps(1), of s] closed.prems(1) show ?case
    unfolding stretch_paced_def using paced_frame [OF _ g] by (simp add: pending_at_def)
next
  case (failed tk x v st1 result pk o' key st r)
  have ok: "rows_ok (sx_state x)" using failed.prems(1) by (simp add: stretch_paced_def paced_def)
  from close_attempt_result(1) [OF failed.hyps(2,4)]
  have res: "case result of Some (SignedIn u) \<Rightarrow> lu_sub u \<noteq> s | Some (StepNeeded s') \<Rightarrow> s' \<noteq> s | _ \<Rightarrow> True" by auto
  note n = pending_at_remove [OF failed.hyps(1), of s]
  show ?case
  proof (cases "guess_at s tk \<and> v = Busy")
    case True
    with failed.hyps(2) have st1: "st1 = undo_failed_login s (sx_state x)"
      by (auto simp: close_attempt_def Let_def guess_at_def)
    with ok have "rows_ok st1" by simp
    from login_close_frame [OF failed.hyps(3) this res] st1
    have g: "rows_ok st" "failures_of s st = failures_of s (undo_failed_login s (sx_state x))" by auto
    have "paced s t0 f0 F (undo_failed_login s (sx_state x))
        (sx_checked x + length (filter (guess_at s) (remove1 tk (sx_hashing x)))) (sx_clock x)"
      using failed.prems n True by (intro paced_undo) (simp_all add: stretch_paced_def)
    from paced_frame [OF this g] True show ?thesis by (simp add: stretch_paced_def pending_at_def)
  next
    case False
    have "lu_sub (tk_user tk) \<noteq> s \<or> tk_device tk \<noteq> [] \<or> v = Wrong"
      using False failed.hyps(4) by (cases v) (auto simp: guess_at_def)
    from close_attempt_frame [OF failed.hyps(2) ok this]
    have f: "rows_ok st1" "failures_of s st1 = failures_of s (sx_state x)" by auto
    from login_close_frame [OF failed.hyps(3) f(1) res] f(2)
    have g: "rows_ok st" "failures_of s st = failures_of s (sx_state x)" by auto
    have "guess_at s tk \<Longrightarrow> v = Wrong" using False failed.hyps(4) by (cases v) auto
    with n failed.prems(1) paced_frame [OF _ g] show ?thesis
      by (auto simp: stretch_paced_def pending_at_def)
  qed
next
  case (answered result w pk o' key x st r)
  have ok: "rows_ok (sx_state x)" using answered.prems(1) by (simp add: stretch_paced_def paced_def)
  have "case result of Some (SignedIn u) \<Rightarrow> lu_sub u \<noteq> s | Some (StepNeeded s') \<Rightarrow> s' \<noteq> s | _ \<Rightarrow> True"
    using answered.hyps(1) by auto
  from login_close_frame [OF answered.hyps(2) ok this] answered.prems(1) show ?case
    unfolding stretch_paced_def using paced_frame by (auto simp: pending_at_def)
next
  case (second_opened t now key tok x st r2)
  have ok: "rows_ok (sx_state x)" using second_opened.prems(1) by (simp add: stretch_paced_def paced_def)
  have "rows_ok st \<and> failures_of s st = failures_of s (sx_state x)"
    using second_opened.hyps ok
    by (auto simp: two_factor_open_def Let_def split: if_splits prod.splits reserved.splits
        dest!: reserve_frame [where s = s])
  with second_opened.prems(1) show ?case
    unfolding stretch_paced_def using paced_frame by (auto simp: pending_at_def)
next
  case (second_closed e o' key code now step x st r)
  have ok: "rows_ok (sx_state x)" using second_closed.prems(1) by (simp add: stretch_paced_def paced_def)
  from two_factor_close_frame [OF second_closed.hyps(1) ok second_closed.hyps(2)] second_closed.prems(1) show ?case
    unfolding stretch_paced_def using paced_frame by (auto simp: pending_at_def)
next
  case (passkey_opened t now enabled key req x st r3)
  have ok: "rows_ok (sx_state x)" using passkey_opened.prems(1) by (simp add: stretch_paced_def paced_def)
  from passkey_open_frame [OF passkey_opened.hyps(1)] ok passkey_opened.prems(1) show ?case
    unfolding stretch_paced_def using paced_frame by (auto simp: pending_at_def)
next
  case (passkey_closed owner_of verify o' setting now token req held pk x pk' st r)
  have ok: "rows_ok (sx_state x)" using passkey_closed.prems(1) by (simp add: stretch_paced_def paced_def)
  from passkey_close_frame [OF passkey_closed.hyps(1)] ok passkey_closed.prems(1) show ?case
    unfolding stretch_paced_def using paced_frame by (auto simp: pending_at_def)
qed

text \<open>C15. The tarpit bounds online guessing: over a stretch of the sign-in's requests that starts with no password
  being checked, and in which no right password of an account reaches its check and no code opens a session
  for it, whatever else happens in whatever order (its guesses from any addresses, in parallel or not, hashes
  refused for load and given back, trusted devices, other people signing in, second steps, passkeys), the
  passwords checked against it from browsers it does not know are at most ten and one for every sixteen
  seconds. (A right password clears the count, also where a second step or the network rule then stops the
  sign-in.)\<close>

theorem guesses_bounded:
  assumes "failing cfg s x y" and "rows_ok (sx_state x)" and "failures_of s (sx_state x) = Some (f0, l0)" and "0 \<le> f0"
    and "sx_hashing x = []" and "sx_checked x = 0"
  shows "int (sx_checked y) \<le> 10 + (sx_clock y - sx_clock x) div 16000"
proof -
  let ?F = "max 9 f0"
  have "stretch_paced s (sx_clock x) f0 ?F x"
    using assms(2-6) by (simp add: stretch_paced_def paced_def pending_at_def)
  with assms(1) have "stretch_paced s (sx_clock x) f0 ?F y"
    by (induction rule: failing.induct) (auto intro: failing_step_paced [OF _ _ assms(4)])
  then obtain f le where a: "paced_account (sx_clock x) f0 ?F (sx_checked y + pending_at s y) (sx_clock y) (f, le)"
    by (auto simp: stretch_paced_def paced_def split: option.splits)
  have "int (sx_checked y) \<le> f - f0" using a by simp
  moreover have "f - f0 \<le> 10 + (sx_clock y - sx_clock x) div 16000"
  proof (cases "f \<le> ?F")
    case True
    moreover from \<open>stretch_paced s (sx_clock x) f0 ?F y\<close> have "sx_clock x \<le> sx_clock y"
      by (simp add: stretch_paced_def paced_def)
    ultimately show ?thesis using assms(4) by (simp add: max_def split: if_splits)
  next
    case False
    with a have "16000 * (f - ?F - 1) \<le> sx_clock y - sx_clock x" by (auto split: option.splits)
    from zdiv_mono1 [OF this, of 16000] have "f - ?F - 1 \<le> (sx_clock y - sx_clock x) div 16000" by simp
    then show ?thesis using assms(4) by (simp add: max_def split: if_splits)
  qed
  ultimately show ?thesis by linarith
qed

definition ann_login :: local_user where
  "ann_login = \<lparr>lu_sub = ''s1'', lu_email = ''Ann@x.org'', lu_provider = ''local'', lu_hash = ''h'', lu_failures = 0,
     lu_last_failed = None, lu_changed = None, lu_local_only = False, lu_totp = True, lu_totp_secret = ''k'',
     lu_totp_last = 0, lu_recovery = Some [''d1'']\<rparr>"

definition demo_sign_ins :: sign_ins where
  "demo_sign_ins = \<lparr>users = [(''s1'', ann_login)], limiter = empty_limiter, tarpitted = [], used_jtis = [],
     reserved_jtis = []\<rparr>"

definition demo_stretch :: stretch where
  "demo_stretch = \<lparr>sx_state = demo_sign_ins, sx_hashing = [], sx_checked = 0, sx_clock = 5000000\<rparr>"

definition demo_clocks :: clocks where
  "demo_clocks = \<lparr>ck_limiter = (5000000, 5000000), ck_tarpit = (5000000, 5000001), ck_mono = (1000, 1001)\<rparr>"

definition demo_opened :: "sign_ins \<times> (response + opened)" where
  "demo_opened = login_open demo_limits (5000000, 5000000) demo_clocks ''ip'' True ''ann@x.org'' ''pw'' None demo_sign_ins"

theorem guesses_bounded_witness:
  "\<exists>y. failing demo_limits ''s1'' demo_stretch y \<and> sx_hashing y \<noteq> [] \<and>
     int (sx_checked y) \<le> 10 + (sx_clock y - 5000000) div 16000"
proof -
  have h: "case snd demo_opened of Inr (Hashing tk) \<Rightarrow> True | _ \<Rightarrow> False" unfolding demo_opened_def by code_simp
  let ?y = "demo_stretch\<lparr>sx_state := fst demo_opened,
    sx_hashing := (case snd demo_opened of Inr (Hashing tk) \<Rightarrow> tk # sx_hashing demo_stretch | _ \<Rightarrow> sx_hashing demo_stretch),
    sx_clock := snd (ck_tarpit demo_clocks)\<rparr>"
  have "login_open demo_limits (5000000, 5000000) demo_clocks ''ip'' True ''ann@x.org'' ''pw'' None (sx_state demo_stretch) =
      (fst demo_opened, snd demo_opened)"
    by (simp add: demo_opened_def demo_stretch_def)
  then have s: "failing_step demo_limits ''s1'' demo_stretch ?y"
    by (rule failing_step.opened) (simp_all add: demo_stretch_def demo_clocks_def)
  have f: "failing demo_limits ''s1'' demo_stretch ?y" by (rule failing.another [OF failing.nothing s])
  have "rows_ok (sx_state demo_stretch)" "failures_of ''s1'' (sx_state demo_stretch) = Some (0, None)"
    by (simp_all add: rows_ok_def failures_of_def demo_stretch_def demo_sign_ins_def ann_login_def)
  from guesses_bounded [OF f this] f h show ?thesis
    by (intro exI [of _ ?y]) (auto simp: demo_stretch_def split: sum.splits opened.splits)
qed

section \<open>Where the tarpit gives out\<close>

text \<open>Guesses from a browser the account does not know, one every sixteen seconds, all of them wrong.\<close>

definition spaced_guesses :: "string \<Rightarrow> nat \<Rightarrow> sign_ins \<Rightarrow> sign_ins" where
  "spaced_guesses s n st =
     foldl (\<lambda>st i. fst (check_and_count s (16000 * int i, 16000 * int i) st)) st [0..<n]"

lemma spaced_guesses_Suc: 
  "spaced_guesses s (Suc n) st = fst (check_and_count s (16000 * int n, 16000 * int n) (spaced_guesses s n st))"
  by (simp add: spaced_guesses_def)

lemma tarpit_lets_through:
  assumes "0 \<le> f" "f < TARPIT_THRESHOLD + int FLOAT_MAX_EXP" "le = None \<or> (\<exists>l. le = Some (Some l) \<and> l + 16000 \<le> now)"
  shows "check_account_tarpit (Some (f, le)) now = Some (True, 0)"
proof (cases "TARPIT_THRESHOLD \<le> f")
  case True
  with tarpit_delay_cases [OF True] assms show ?thesis
    by (auto simp: check_account_tarpit_def TARPIT_MAX_DELAY_def split: option.splits)
qed (simp add: check_account_tarpit_def)

lemma spaced_guesses_counted:
  assumes "failures_of s st = Some (0, None)" "int n \<le> TARPIT_THRESHOLD + int FLOAT_MAX_EXP"
  shows "failures_of s (spaced_guesses s n st) =
    Some (int n, if n = 0 then None else Some (Some (16000 * (int n - 1))))"
  using assms(2)
proof (induction n)
  case 0
  with assms(1) show ?case by (simp add: spaced_guesses_def)
next
  case (Suc n)
  let ?st = "spaced_guesses s n st" and ?le = "if n = 0 then None else Some (Some (16000 * (int n - 1)))"
  have f: "failures_of s ?st = Some (int n, ?le)" using Suc by simp
  have "check_account_tarpit (Some (int n, ?le)) (16000 * int n) = Some (True, 0)"
    using Suc.prems by (intro tarpit_lets_through) auto
  with f show ?case
    by (simp add: spaced_guesses_Suc check_and_count_def flip: failures_of_def)
qed

text \<open>The tarpit gives out at 1029 failures: after that many wrong passwords sixteen seconds apart (under five
  hours, from anywhere) the delay of the account is no float, and from then on the check of every attempt from a
  browser it does not know raises, at every instant and for the right password too, and counts nothing.\<close>

theorem tarpit_locks_out:
  assumes "failures_of s st = Some (0, None)"
  shows "check_and_count s t (spaced_guesses s 1029 st) = (spaced_guesses s 1029 st, None)"
proof -
  have "int 1029 \<le> TARPIT_THRESHOLD + int FLOAT_MAX_EXP"
    by (simp add: TARPIT_THRESHOLD_def FLOAT_MAX_EXP_def)
  from spaced_guesses_counted [OF assms this]
  have "failures_of s (spaced_guesses s 1029 st) = Some (1029, Some (Some (16000 * 1028)))" by simp
  moreover have "TARPIT_THRESHOLD + int FLOAT_MAX_EXP \<le> 1029" by (simp add: TARPIT_THRESHOLD_def FLOAT_MAX_EXP_def)
  ultimately show ?thesis
    using tarpit_gives_out by (simp add: check_and_count_def flip: failures_of_def)
qed

theorem tarpit_locks_out_witness:
  "check_and_count ''s1'' (10 ^ 12, 10 ^ 12) (spaced_guesses ''s1'' 1029 demo_sign_ins) =
    (spaced_guesses ''s1'' 1029 demo_sign_ins, None)"
  by (rule tarpit_locks_out) (simp add: failures_of_def demo_sign_ins_def ann_login_def)

section \<open>One session per step token\<close>

text \<open>The requests that hold or spent a step token, and the instant. Everything a token says is fixed by its id:
  \<open>claims_of\<close> is its account and its expiry in seconds. A request opens a session with its answer or with the
  token it hands back to the app.\<close>

definition opens_session :: "response \<Rightarrow> bool" where
  "opens_session r = (case r of Session s \<Rightarrow> True | HandedOff s \<Rightarrow> True | _ \<Rightarrow> False)"

record step_world =
  sw_state :: sign_ins
  sw_held :: "step_token list"
  sw_opened :: "step_token list"
  sw_clock :: int

inductive second_step :: "(string \<Rightarrow> string \<times> int) \<Rightarrow> limits \<Rightarrow> step_world \<Rightarrow> step_world \<Rightarrow> bool" for claims_of cfg where
  taken: "two_factor_open cfg t now key (Some (fst (claims_of jti), jti, Some (snd (claims_of jti)))) (sw_state x) = (st, r) \<Longrightarrow>
     sw_clock x \<le> now \<Longrightarrow> now \<le> secs (snd (claims_of jti)) \<Longrightarrow> 0 < snd (claims_of jti) \<Longrightarrow>
     second_step claims_of cfg x (x\<lparr>sw_state := st, sw_clock := now,
       sw_held := (case r of Inr step \<Rightarrow> step # sw_held x | _ \<Rightarrow> sw_held x)\<rparr>)"
| taken_by_passkey: "passkey_open cfg t now enabled key req (sw_state x) = (st, r) \<Longrightarrow>
     vr_token req = Some (Some (fst (claims_of jti), jti, Some (snd (claims_of jti)))) \<Longrightarrow>
     sw_clock x \<le> now \<Longrightarrow> now \<le> secs (snd (claims_of jti)) \<Longrightarrow> 0 < snd (claims_of jti) \<Longrightarrow>
     second_step claims_of cfg x (x\<lparr>sw_state := st, sw_clock := now,
       sw_held := (case r of Inr (Some step) \<Rightarrow> step # sw_held x | _ \<Rightarrow> sw_held x)\<rparr>)"
| finished: "step \<in> set (sw_held x) \<Longrightarrow> two_factor_close e o' key code now step (sw_state x) = (st, r) \<Longrightarrow>
     second_step claims_of cfg x (x\<lparr>sw_state := st, sw_held := remove1 step (sw_held x),
       sw_opened := (if opens_session r then step # sw_opened x else sw_opened x)\<rparr>)"
| finished_by_passkey: "step \<in> set (sw_held x) \<Longrightarrow>
     passkey_close owner_of verify o' setting now token req (Some step) pk (sw_state x) = (pk', st, r) \<Longrightarrow>
     second_step claims_of cfg x (x\<lparr>sw_state := st, sw_held := remove1 step (sw_held x),
       sw_opened := (if opens_session r then step # sw_opened x else sw_opened x)\<rparr>)"
| elsewhere: "used_jtis st = used_jtis (sw_state x) \<Longrightarrow> reserved_jtis st = reserved_jtis (sw_state x) \<Longrightarrow>
     second_step claims_of cfg x (x\<lparr>sw_state := st\<rparr>)"

inductive second_steps :: "(string \<Rightarrow> string \<times> int) \<Rightarrow> limits \<Rightarrow> step_world \<Rightarrow> step_world \<Rightarrow> bool" for claims_of cfg where
  none: "second_steps claims_of cfg x x"
| more: "second_steps claims_of cfg x y \<Longrightarrow> second_step claims_of cfg y z \<Longrightarrow> second_steps claims_of cfg x z"

text \<open>A token that a request holds is reserved and one that opened a session is spent, until it expires.\<close>

definition kept :: "(string \<times> int) list \<Rightarrow> int \<Rightarrow> step_token \<Rightarrow> bool" where
  "kept table clock step = (lookup table (st_jti step) = Some (st_exp step) \<or> st_exp step < clock)"

definition tokens_ok :: "(string \<Rightarrow> string \<times> int) \<Rightarrow> step_world \<Rightarrow> bool" where
  "tokens_ok claims_of x =
     (distinct (map st_jti (sw_held x @ sw_opened x)) \<and>
      (\<forall>step\<in>set (sw_held x @ sw_opened x). st_exp step = secs (snd (claims_of (st_jti step)))) \<and>
      (\<forall>step\<in>set (sw_held x). kept (reserved_jtis (sw_state x)) (sw_clock x) step) \<and>
      (\<forall>step\<in>set (sw_opened x). kept (used_jtis (sw_state x)) (sw_clock x) step))"

lemma lookup_swept:
  "lookup kvs k = Some v \<Longrightarrow> \<not> v < now \<Longrightarrow> lookup (filter (\<lambda>kv. \<not> snd kv < now) kvs) k = Some v"
  by (induction kvs k rule: lookup.induct) (auto split: if_splits)

lemma kept_swept: "kept table clock step \<Longrightarrow> clock \<le> now \<Longrightarrow> kept (filter (\<lambda>kv. \<not> snd kv < now) table) now step"
  unfolding kept_def using lookup_swept by (cases "st_exp step < now") auto

lemma kept_set: "kept table clock step \<Longrightarrow> st_jti step \<noteq> j \<Longrightarrow> kept (dict_set j e table) clock step"
  by (simp add: kept_def)

lemma kept_del: "kept table clock step \<Longrightarrow> st_jti step \<noteq> j \<Longrightarrow> kept (dict_del j table) clock step"
  by (simp add: kept_def)

lemma kept_known: "kept table clock step \<Longrightarrow> \<not> st_exp step < clock \<Longrightarrow> st_jti step \<in> set (keys table)"
  unfolding kept_def using lookup_in_keys [of table "st_jti step"] by (auto simp del: set_map)

text \<open>The two ways a step token is taken, and the two ways it is let go.\<close>

inductive taking :: "int \<Rightarrow> step_claims \<Rightarrow> sign_ins \<Rightarrow> sign_ins \<Rightarrow> step_token option \<Rightarrow> bool" for now c st where
  untried: "taking now c st (st\<lparr>limiter := L\<rparr>) None"
| denied: "reserve_2fa_session_token now (Some c) (st\<lparr>limiter := L\<rparr>) = (st', r) \<Longrightarrow> r \<in> {NoToken, TokenBusy} \<Longrightarrow>
     taking now c st st' None"
| got: "reserve_2fa_session_token now (Some c) (st\<lparr>limiter := L\<rparr>) = (st', Reserved step) \<Longrightarrow>
     taking now c st st' (Some step)"

lemma two_factor_open_taking:
  assumes "two_factor_open cfg t now key (Some c) st = (st', r)"
  shows "taking now c st st' (case r of Inr step \<Rightarrow> Some step | _ \<Rightarrow> None)"
  using assms unfolding two_factor_open_def Let_def
  by (auto split: if_splits prod.splits reserved.splits intro: taking.intros)

lemma passkey_open_taking:
  assumes "passkey_open cfg t now enabled key req st = (st', r)" "vr_token req = Some (Some c)"
  shows "taking now c st st' (case r of Inr (Some step) \<Rightarrow> Some step | _ \<Rightarrow> None)"
  using assms unfolding passkey_open_def Let_def
  by (auto split: if_splits prod.splits reserved.splits intro: taking.intros)

definition letting_go :: "step_token \<Rightarrow> sign_ins \<Rightarrow> sign_ins \<Rightarrow> bool \<Rightarrow> bool" where
  "letting_go step st st' opens =
     (used_jtis st' = (if opens then dict_set (st_jti step) (st_exp step) (used_jtis st) else used_jtis st) \<and>
      reserved_jtis st' = dict_del (st_jti step) (reserved_jtis st))"

lemma two_factor_close_letting_go:
  assumes "two_factor_close e o' key code now step st = (st', r)"
  shows "letting_go step st st' (opens_session r)"
proof -
  have f: "used_jtis st1 = used_jtis st \<and> reserved_jtis st1 = reserved_jtis st"
    if "use_factor e c now s secret st = (st1, ok)" for c s secret st1 ok
    using that by (auto simp: use_factor_def claim_totp_step_def use_recovery_code_def Let_def
        split: option.splits if_splits prod.splits)
  from assms show ?thesis
    by (auto simp: letting_go_def opens_session_def two_factor_close_def Let_def release_2fa_session_token_def
        spend_2fa_session_token_def row_writes split: option.splits if_splits prod.splits dest!: f)
qed

lemma passkey_close_letting_go:
  assumes "passkey_close owner_of verify o' setting now token req (Some step) pk st = (pk', st', r)"
  shows "letting_go step st st' (opens_session r)"
proof -
  have "opens_session r = (\<exists>s. r = Session s \<or> r = HandedOff s)" by (auto simp: opens_session_def split: response.splits)
  with passkey_close_tables [OF assms] show ?thesis by (simp add: letting_go_def)
qed

lemma taking_ok:
  assumes "taking now (fst (claims_of jti), jti, Some (snd (claims_of jti))) (sw_state x) st got" "tokens_ok claims_of x"
    and "sw_clock x \<le> now" "now \<le> secs (snd (claims_of jti))" "0 < snd (claims_of jti)"
  shows "tokens_ok claims_of (x\<lparr>sw_state := st, sw_clock := now,
    sw_held := (case got of Some step \<Rightarrow> step # sw_held x | None \<Rightarrow> sw_held x)\<rparr>)"
proof -
  let ?sweep = "filter (\<lambda>kv. \<not> snd kv < now) :: (string \<times> int) list \<Rightarrow> (string \<times> int) list"
  let ?U = "used_jtis (sw_state x)" and ?R = "reserved_jtis (sw_state x)"
  from assms(2,3) have k:
    "\<forall>step\<in>set (sw_held x). kept (?sweep ?R) now step" "\<forall>step\<in>set (sw_opened x). kept (?sweep ?U) now step"
    "\<forall>step\<in>set (sw_held x). kept ?R now step" "\<forall>step\<in>set (sw_opened x). kept ?U now step"
    by (auto simp: tokens_ok_def intro: kept_swept) (auto simp: kept_def)
  show ?thesis
  proof (cases got)
    case None
    with assms(1) have "used_jtis st \<in> {?U, ?sweep ?U} \<and> reserved_jtis st \<in> {?R, ?sweep ?R}"
      by cases (auto simp: reserve_2fa_session_token_def step_payload_def sweep_used_jtis_def Let_def
          split: if_splits prod.splits)
    then have a: "used_jtis st = ?U \<or> used_jtis st = ?sweep ?U" "reserved_jtis st = ?R \<or> reserved_jtis st = ?sweep ?R"
      by blast+
    from k a have "\<forall>step\<in>set (sw_held x). kept (reserved_jtis st) now step"
      "\<forall>step\<in>set (sw_opened x). kept (used_jtis st) now step" by auto
    with assms(2) None show ?thesis by (simp add: tokens_ok_def)
  next
    case (Some step)
    from assms(1) [unfolded Some] assms(5) have
      "step = \<lparr>st_sub = fst (claims_of jti), st_jti = jti, st_exp = secs (snd (claims_of jti))\<rparr> \<and>
       used_jtis st = ?sweep ?U \<and> reserved_jtis st = dict_set jti (secs (snd (claims_of jti))) (?sweep ?R) \<and>
       jti \<notin> set (keys (?sweep ?U)) \<and> jti \<notin> set (keys (?sweep ?R))"
      by cases (auto simp: reserve_2fa_session_token_def step_payload_def sweep_used_jtis_def Let_def
          simp del: set_map split: if_splits)
    then have s: "step = \<lparr>st_sub = fst (claims_of jti), st_jti = jti, st_exp = secs (snd (claims_of jti))\<rparr>"
      "used_jtis st = ?sweep ?U" "reserved_jtis st = dict_set jti (secs (snd (claims_of jti))) (?sweep ?R)"
      "jti \<notin> set (keys (?sweep ?U))" "jti \<notin> set (keys (?sweep ?R))" by blast+
    have n: "st_jti p \<noteq> jti" if "p \<in> set (sw_held x @ sw_opened x)" for p
    proof
      assume j: "st_jti p = jti"
      from assms(2) that have "st_exp p = secs (snd (claims_of (st_jti p)))" unfolding tokens_ok_def by blast
      with j assms(4) have "\<not> st_exp p < now" by simp
      with that k(1,2) j s(4,5) show False using kept_known by (auto simp del: set_map)
    qed
    have "kept (dict_set jti (secs (snd (claims_of jti))) (?sweep ?R)) now p" if "p \<in> set (step # sw_held x)" for p
    proof (cases "p = step")
      case True
      then show ?thesis by (simp add: kept_def s(1))
    next
      case False
      with that k(1) n show ?thesis by (auto intro: kept_set)
    qed
    moreover have "st_jti step \<notin> set (map st_jti (sw_held x @ sw_opened x))" using n s(1) by auto
    moreover have "st_exp step = secs (snd (claims_of (st_jti step)))" using s(1) by simp
    moreover have "\<forall>p\<in>set (sw_opened x). kept (used_jtis st) now p" using k(2) s(2) by simp
    ultimately show ?thesis using assms(2) Some s(3) by (simp add: tokens_ok_def)
  qed
qed

lemma letting_go_ok:
  assumes "step \<in> set (sw_held x)" "letting_go step (sw_state x) st opens" "tokens_ok claims_of x"
  shows "tokens_ok claims_of (x\<lparr>sw_state := st, sw_held := remove1 step (sw_held x),
    sw_opened := (if opens then step # sw_opened x else sw_opened x)\<rparr>)"
proof -
  from assms(1) obtain l l' where h: "sw_held x = l @ step # l'" "step \<notin> set l" by (meson split_list_first)
  have j: "st_jti p \<noteq> st_jti step" if "p \<in> set l \<union> set l' \<union> set (sw_opened x)" for p
  proof -
    have "distinct (map st_jti (l @ step # l' @ sw_opened x))" using assms(3) h(1) by (simp add: tokens_ok_def)
    then have "st_jti step \<notin> set (map st_jti (l @ l' @ sw_opened x))" by auto
    moreover from that have "st_jti p \<in> set (map st_jti (l @ l' @ sw_opened x))" by auto
    ultimately show ?thesis by metis
  qed
  have m: "remove1 step (sw_held x) = l @ l'" using h by (simp add: remove1_append)
  note u = assms(2) [unfolded letting_go_def]
  have r: "kept (reserved_jtis st) (sw_clock x) p" if "p \<in> set (l @ l')" for p
    using that assms(3) j u h by (auto simp: tokens_ok_def intro!: kept_del)
  show ?thesis
  proof (cases opens)
    case True
    then have t: "used_jtis st = dict_set (st_jti step) (st_exp step) (used_jtis (sw_state x))" using u by simp
    have "kept (used_jtis st) (sw_clock x) step" by (simp add: kept_def t)
    moreover have "kept (used_jtis st) (sw_clock x) p" if "p \<in> set (sw_opened x)" for p
      unfolding t using that assms(3) j by (intro kept_set) (auto simp: tokens_ok_def)
    moreover have "distinct (map st_jti ((l @ l') @ step # sw_opened x))" using assms(3) h(1)
      by (auto simp: tokens_ok_def)
    moreover have "\<forall>p\<in>set ((l @ l') @ step # sw_opened x). st_exp p = secs (snd (claims_of (st_jti p)))"
      using assms(3) h(1) by (simp add: tokens_ok_def)
    ultimately show ?thesis using True m r by (auto simp: tokens_ok_def simp del: distinct_append)
  next
    case False
    with r u h m assms(3) show ?thesis by (auto simp: tokens_ok_def)
  qed
qed

lemma second_step_ok:
  assumes "second_step claims_of cfg x y" "tokens_ok claims_of x"
  shows "tokens_ok claims_of y"
  using assms
proof (induction rule: second_step.induct)
  case (taken t now key jti x st r)
  from taking_ok [OF two_factor_open_taking [OF taken.hyps(1)] taken.prems taken.hyps(2-4)] show ?case
    by (cases r) simp_all
next
  case (taken_by_passkey t now enabled key req x st r jti)
  from taking_ok [OF passkey_open_taking [OF taken_by_passkey.hyps(1,2)] taken_by_passkey.prems
      taken_by_passkey.hyps(3-5)] show ?case
    by (auto split: sum.splits option.splits)
next
  case (finished step x e o' key code now st r)
  from letting_go_ok [OF finished.hyps(1) two_factor_close_letting_go [OF finished.hyps(2)] finished.prems]
  show ?case .
next
  case (finished_by_passkey step x owner_of verify o' setting now token req pk pk' st r)
  from letting_go_ok [OF finished_by_passkey.hyps(1) passkey_close_letting_go [OF finished_by_passkey.hyps(2)]
      finished_by_passkey.prems]
  show ?case .
qed (simp add: tokens_ok_def)

text \<open>C20. A step token opens one session at most. In every order of the second steps that carry it, whether a code or
  a passkey finishes them, with wrong codes and refused assertions that give it back, requests that hold it at
  once, sweeps of the tables and everything else that leaves these tables alone in between, no token is twice
  among those that opened a session (the answer of either route, or the token the passkey route hands back to
  the app). A token's id fixes its account and expiry, and every token is read while it lives: its expiry is not
  before the instant the table is swept.\<close>

theorem step_token_opens_one_session:
  assumes "second_steps claims_of cfg \<lparr>sw_state = st, sw_held = [], sw_opened = [], sw_clock = t0\<rparr> y"
  shows "distinct (map st_jti (sw_opened y))"
proof -
  have "tokens_ok claims_of y"
    using assms
  proof (induction "\<lparr>sw_state = st, sw_held = [], sw_opened = [], sw_clock = t0\<rparr>" y rule: second_steps.induct)
    case none
    then show ?case by (simp add: tokens_ok_def)
  qed (rule second_step_ok)
  then show ?thesis by (simp add: tokens_ok_def)
qed

text \<open>At the token's last instant: read before its expiry and swept after it, a spent token is taken again.\<close>

lemma spent_token_taken_at_expiry:
  assumes "secs e < now" "0 < e" "jti \<noteq> []" "s \<noteq> []" "st_jti step = jti" "st_exp step = secs e"
    and "used_jtis st = []" "reserved_jtis st = []"
  shows "snd (reserve_2fa_session_token now (Some (s, jti, Some e)) (spend_2fa_session_token step st)) =
    Reserved \<lparr>st_sub = s, st_jti = jti, st_exp = secs e\<rparr>"
  using assms by (simp add: reserve_2fa_session_token_def step_payload_def spend_2fa_session_token_def
      sweep_used_jtis_def Let_def dict_del_def)

definition demo_factor :: factor_env where
  "demo_factor = \<lparr>fe_interval = 30, fe_otp = (\<lambda>_ _. ''123456''), fe_digest = (\<lambda>c. if c = ''AB'' then ''d1'' else c), fe_nfkc = (\<lambda>c. c)\<rparr>"

definition demo_token :: step_token where
  "demo_token = \<lparr>st_sub = ''s1'', st_jti = ''j1'', st_exp = 5300000\<rparr>"

definition demo_origin :: origin where
  "demo_origin = \<lparr>og_internal = False, og_case = [], og_client = ''203.0.113.9'', og_gateway = [], og_in_docker = True,
     og_private = (\<lambda>_. False)\<rparr>"

definition demo_step_opened :: "sign_ins \<times> (response + step_token)" where
  "demo_step_opened =
     two_factor_open demo_limits (5000000, 5000000) 5000000 ''ip'' (Some (''s1'', ''j1'', Some 5300)) demo_sign_ins"

definition demo_step_closed :: "sign_ins \<times> response" where
  "demo_step_closed = two_factor_close demo_factor demo_origin ''ip'' ''a-b'' 5010000 demo_token (fst demo_step_opened)"

theorem step_token_opens_one_session_witness:
  "\<exists>y. second_steps (\<lambda>_. (''s1'', 5300)) demo_limits
      \<lparr>sw_state = demo_sign_ins, sw_held = [], sw_opened = [], sw_clock = 0\<rparr> y \<and>
    sw_opened y = [demo_token] \<and> distinct (map st_jti (sw_opened y))"
proof -
  let ?x = "\<lparr>sw_state = demo_sign_ins, sw_held = [], sw_opened = [], sw_clock = 0\<rparr>"
  have t: "snd demo_step_opened = Inr demo_token" and c: "snd demo_step_closed = Session ''s1''"
    unfolding demo_step_closed_def demo_step_opened_def demo_token_def by code_simp+
  have "two_factor_open demo_limits (5000000, 5000000) 5000000 ''ip''
      (Some (fst ((\<lambda>_. (''s1'', 5300)) ''j1''), ''j1'', Some (snd ((\<lambda>_. (''s1'', 5300)) ''j1'')))) (sw_state ?x) =
      (fst demo_step_opened, Inr demo_token)"
    using t by (simp add: demo_step_opened_def prod_eq_iff)
  note a = second_step.taken [OF this]
  let ?y = "\<lparr>sw_state = fst demo_step_opened, sw_held = [demo_token], sw_opened = [], sw_clock = 5000000\<rparr>"
  have a: "second_step (\<lambda>_. (''s1'', 5300)) demo_limits ?x ?y" using a by simp
  have "two_factor_close demo_factor demo_origin ''ip'' ''a-b'' 5010000 demo_token (sw_state ?y) =
      (fst demo_step_closed, Session ''s1'')"
    using c by (simp add: demo_step_closed_def prod_eq_iff)
  note b = second_step.finished [OF _ this, unfolded opens_session_def]
  let ?z = "\<lparr>sw_state = fst demo_step_closed, sw_held = [], sw_opened = [demo_token], sw_clock = 5000000\<rparr>"
  have b: "second_step (\<lambda>_. (''s1'', 5300)) demo_limits ?y ?z" using b by simp
  have f: "second_steps (\<lambda>_. (''s1'', 5300)) demo_limits ?x ?z"
    by (rule second_steps.more [OF second_steps.more [OF second_steps.none a] b])
  from step_token_opens_one_session [OF f] f show ?thesis by (intro exI [of _ ?z]) simp
qed

section \<open>A code is good once\<close>

text \<open>Second steps of any accounts: the instant, the account, its secret and the code.\<close>

definition run_factors :: "factor_env \<Rightarrow> (int \<times> string \<times> string \<times> string) list \<Rightarrow> sign_ins \<Rightarrow> sign_ins" where
  "run_factors e ops st = foldl (\<lambda>st (now, s, secret, code). fst (use_factor e code now s secret st)) st ops"

lemma run_factors_snoc [simp]:
  "run_factors e [] st = st"
  "run_factors e (ops @ [(now, s, secret, code)]) st = fst (use_factor e code now s secret (run_factors e ops st))"
  by (simp_all add: run_factors_def)

text \<open>What an account has spent: the authenticator's steps up to one, a digest that is not among its recovery codes.\<close>

definition step_spent :: "string \<Rightarrow> int \<Rightarrow> sign_ins \<Rightarrow> bool" where
  "step_spent s n st = (\<forall>u. lookup (users st) s = Some u \<longrightarrow> n \<le> lu_totp_last u)"

definition recovery_spent :: "string \<Rightarrow> string \<Rightarrow> sign_ins \<Rightarrow> bool" where
  "recovery_spent s d st =
     (\<forall>u hs. lookup (users st) s = Some u \<longrightarrow> lu_recovery u = Some hs \<longrightarrow> d \<notin> set hs)"

lemma use_factor_spent:
  "step_spent s n st \<Longrightarrow> step_spent s n (fst (use_factor e code now x secret st))"
  "recovery_spent s d st \<Longrightarrow> recovery_spent s d (fst (use_factor e code now x secret st))"
  by (auto simp: step_spent_def recovery_spent_def use_factor_def claim_totp_step_def use_recovery_code_def
      verify_recovery_code_def Let_def split: option.splits if_splits prod.splits)

lemma run_factors_spent:
  "(step_spent s n st \<longrightarrow> step_spent s n (run_factors e ops st)) \<and>
   (recovery_spent s d st \<longrightarrow> recovery_spent s d (run_factors e ops st))"
proof (induction ops rule: rev_induct)
  case (snoc op ops)
  then show ?case by (cases op) (simp add: use_factor_spent)
qed simp

lemma use_factor_spends:
  assumes "use_factor e code now s secret st = (st', True)"
  shows "case totp_step e secret code now of
      Some n \<Rightarrow> step_spent s n st'
    | None \<Rightarrow> recovery_spent s (fe_digest e (canonical_recovery_code code)) st'"
  using assms
  by (auto simp: step_spent_def recovery_spent_def use_factor_def claim_totp_step_def use_recovery_code_def
      verify_recovery_code_def Let_def split: option.splits if_splits prod.splits)

text \<open>C24. A code is good once: after a code was accepted for an account, and whatever second steps of any accounts
  follow, the same code is refused: an authenticator's code, in whatever digits it is typed (it is read in its
  NFKC form), for the step it was accepted for and every earlier one, a recovery code in any of its spellings
  (dashes, spaces, case).\<close>

theorem code_good_once:
  assumes "use_factor e code now s secret st = (st1, True)"
    and "case (totp_step e secret code now, totp_step e secret' code' now') of
        (Some n, Some n') \<Rightarrow> n' \<le> n
      | (None, None) \<Rightarrow> canonical_recovery_code code' = canonical_recovery_code code
      | _ \<Rightarrow> False"
  shows "snd (use_factor e code' now' s secret' (run_factors e ops st1)) = False"
proof (cases "totp_step e secret code now")
  case None
  with use_factor_spends [OF assms(1)] run_factors_spent
  have "recovery_spent s (fe_digest e (canonical_recovery_code code)) (run_factors e ops st1)" by auto
  with assms(2) None show ?thesis
    by (auto simp: recovery_spent_def use_factor_def use_recovery_code_def verify_recovery_code_def Let_def
        split: option.splits)
next
  case (Some n)
  with use_factor_spends [OF assms(1)] run_factors_spent have "step_spent s n (run_factors e ops st1)" by auto
  with assms(2) Some show ?thesis
    by (auto simp: step_spent_def use_factor_def claim_totp_step_def split: option.splits)
qed

theorem code_good_once_witness:
  "snd (use_factor demo_factor ''AB'' 9000000 ''s1'' ''k''
     (run_factors demo_factor [(8000000, ''s1'', ''k'', ''123456'')]
       (fst (use_factor demo_factor ''a-b'' 5000000 ''s1'' ''k'' demo_sign_ins)))) = False"
proof -
  have a: "snd (use_factor demo_factor ''a-b'' 5000000 ''s1'' ''k'' demo_sign_ins) = True"
    and b: "totp_step demo_factor ''k'' ''a-b'' 5000000 = None" "totp_step demo_factor ''k'' ''AB'' 9000000 = None"
    "canonical_recovery_code ''AB'' = canonical_recovery_code ''a-b''" by code_simp+
  from a have "use_factor demo_factor ''a-b'' 5000000 ''s1'' ''k'' demo_sign_ins =
      (fst (use_factor demo_factor ''a-b'' 5000000 ''s1'' ''k'' demo_sign_ins), True)" by (metis prod.collapse)
  from code_good_once [OF this, of "''AB''" "''k''" 9000000 "[(8000000, ''s1'', ''k'', ''123456'')]"] b
  show ?thesis by simp
qed

section \<open>What a password opens\<close>

text \<open>A password alone opens a session only where the account has no second factor to give: the answer of the
  local route is a session of somebody only when the hash said the password is theirs, their account has no
  authenticator, no passkey that the page or the platform asks for after a password, and may be used from where
  the request comes from. With an authenticator the session comes from the second route, for the account of a
  step token that nobody spent.\<close>

theorem password_opens_alone:
  assumes "close_attempt v tk st = (st1, result)" and "login_close pk o' key result st1 = (st2, Session s)"
  shows "v = Right \<and> s = lu_sub (tk_user tk) \<and> \<not> lu_totp (tk_user tk) \<and>
    (pe_enabled pk \<longrightarrow> pe_count pk s = 0 \<or> pe_mode pk \<noteq> ''second_factor'' \<and> pe_require_2fa pk \<noteq> ''1'') \<and>
    (case lookup (users st1) s of None \<Rightarrow> True | Some u \<Rightarrow> check_local_auth_allowed o' u)"
proof -
  have r: "v = Right" "result = Some (SignedIn (tk_user tk)) \<and> \<not> lu_totp (tk_user tk)"
    using assms by (auto simp: close_attempt_def login_close_def after_password_def Let_def give_back_def
        split: verdict.splits if_splits option.splits)
  with assms(2) show ?thesis
    by (auto simp: login_close_def after_password_def give_back_def Let_def split: if_splits option.splits)
qed

definition ben_login :: local_user where
  "ben_login = ann_login\<lparr>lu_sub := ''s2'', lu_totp := False\<rparr>"

theorem password_opens_alone_witness:
  "snd (login_close \<lparr>pe_enabled = True, pe_count = (\<lambda>_. 1), pe_mode = ''passwordless'', pe_require_2fa = []\<rparr> demo_origin ''ip''
     (snd (close_attempt Right \<lparr>tk_user = ben_login, tk_device = []\<rparr> demo_sign_ins))
     (fst (close_attempt Right \<lparr>tk_user = ben_login, tk_device = []\<rparr> demo_sign_ins))) = Session ''s2'' \<and>
   \<not> lu_totp ben_login"
proof -
  let ?c = "close_attempt Right \<lparr>tk_user = ben_login, tk_device = []\<rparr> demo_sign_ins"
  let ?pk = "\<lparr>pe_enabled = True, pe_count = (\<lambda>_. 1), pe_mode = ''passwordless'', pe_require_2fa = []\<rparr>"
  have r: "snd (login_close ?pk demo_origin ''ip'' (snd ?c) (fst ?c)) = Session ''s2''" by code_simp
  from password_opens_alone [of Right "\<lparr>tk_user = ben_login, tk_device = []\<rparr>" demo_sign_ins "fst ?c" "snd ?c" ?pk demo_origin "''ip''"
      "fst (login_close ?pk demo_origin ''ip'' (snd ?c) (fst ?c))" "''s2''"] r
  show ?thesis by (simp add: prod_eq_iff)
qed

end
