(* ===== verification/Revocation.thy ===== *)
theory Revocation
  imports PyText
begin

text \<open>
  How a sign-in and an agent's token end: the denylist of revoked sign-ins with its rows
  (\<open>auth/session_revocation.py\<close>, \<open>storage/identity/db_session_revocations.py\<close>), the reading of a dashboard cookie
  against it (\<open>auth/providers\<close>), and the cached answers about the holder of a session token
  (\<open>auth/token_holder.py\<close>). Clocks are arguments, in milliseconds; the claims of a token are seconds.
\<close>

section \<open>The denylist\<close>

text \<open>The claims of a sign-in cookie: \<open>None\<close> is a claim that is missing or of another type.\<close>

record cookie =
  ck_jti :: "string option"
  ck_sub :: string
  ck_iat :: nat
  ck_exp :: "int option"

text \<open>What is in memory, the next sweep, and the rows of the store.\<close>

record denylist =
  revoked :: "(string \<times> int) list"
  next_sweep :: int
  rows :: "(string \<times> int) list"

definition SWEEP_EVERY :: int where "SWEEP_EVERY = 3600000"
definition MIN_RETENTION :: int where "MIN_RETENTION = 30 * 86400000"

definition session_cookie_id :: "cookie \<Rightarrow> string" where
  "session_cookie_id p =
     (if opt_str (ck_jti p) \<noteq> [] then opt_str (ck_jti p)
      else ''legacy:'' @ ck_sub p @ ''@'' @ nat_str (ck_iat p))"

definition sweep_revoked :: "int \<Rightarrow> denylist \<Rightarrow> denylist" where
  "sweep_revoked now d =
     (if now < next_sweep d then d
      else d\<lparr>next_sweep := now + SWEEP_EVERY, revoked := filter (\<lambda>kv. \<not> snd kv < now) (revoked d)\<rparr>)"

definition is_revoked :: "int \<Rightarrow> string \<Rightarrow> denylist \<Rightarrow> denylist \<times> bool" where
  "is_revoked now cid d =
     (let d' = sweep_revoked now d in
      (d', case lookup (revoked d') cid of None \<Rightarrow> False | Some until \<Rightarrow> until \<ge> now))"

definition revoked_until :: "cookie \<Rightarrow> int \<Rightarrow> int \<Rightarrow> int" where
  "revoked_until p lifetime now =
     max (case ck_exp p of Some e \<Rightarrow> 1000 * e | None \<Rightarrow> now) (now + max lifetime MIN_RETENTION)"

definition revoke :: "cookie \<Rightarrow> int \<Rightarrow> int \<Rightarrow> denylist \<Rightarrow> denylist \<times> string" where
  "revoke p lifetime now d =
     (let cid = session_cookie_id p in
      (d\<lparr>revoked := dict_set cid (revoked_until p lifetime now) (revoked d)\<rparr>, cid))"

text \<open>The upsert keeps the later of the two instants.\<close>

definition add_row :: "string \<Rightarrow> int \<Rightarrow> denylist \<Rightarrow> denylist" where
  "add_row cid expires d =
     d\<lparr>rows := dict_set cid (case lookup (rows d) cid of None \<Rightarrow> expires | Some e \<Rightarrow> max e expires) (rows d)\<rparr>"

text \<open>\<open>ok\<close>: the store took the row; a failure is logged.\<close>

definition persist :: "bool \<Rightarrow> string \<Rightarrow> denylist \<Rightarrow> denylist" where
  "persist ok cid d =
     (case lookup (revoked d) cid of
        None \<Rightarrow> d
      | Some expires \<Rightarrow> if ok then add_row cid expires d else d)"

definition load_live :: "int \<Rightarrow> denylist \<Rightarrow> denylist" where
  "load_live now d = d\<lparr>rows := filter (\<lambda>kv. \<not> snd kv < now) (rows d)\<rparr>"

definition load :: "int \<Rightarrow> denylist \<Rightarrow> denylist" where
  "load now d =
     (let d' = load_live now d in
      d'\<lparr>revoked := foldl (\<lambda>m (cid, expires). dict_set cid expires m) (revoked d') (rows d')\<rparr>)"

text \<open>The process starts with an empty memory.\<close>

definition restart :: "int \<Rightarrow> denylist \<Rightarrow> denylist" where
  "restart now d = load now (d\<lparr>revoked := [], next_sweep := 0\<rparr>)"

text \<open>A cookie whose signature and expiry were judged (\<open>None\<close>: refused there).\<close>

definition validate_session_cookie :: "int \<Rightarrow> cookie option \<Rightarrow> denylist \<Rightarrow> denylist \<times> cookie option" where
  "validate_session_cookie now verified d =
     (case verified of
        None \<Rightarrow> (d, None)
      | Some p \<Rightarrow> (let (d', r) = is_revoked now (session_cookie_id p) d in (d', if r then None else Some p)))"

text \<open>A logout reads its cookie, waits for the configured lifetime, revokes in memory, and waits for the row: three
  steps, between which any other request may run. The first is \<open>validate_session_cookie\<close>, the last
  \<open>persist\<close> of the id the second answers.\<close>

definition logout_close :: "cookie \<Rightarrow> int \<Rightarrow> int \<Rightarrow> denylist \<Rightarrow> denylist" where
  "logout_close p lifetime now d = fst (revoke p lifetime now d)"

section \<open>A logout is for good\<close>

text \<open>The steps of any requests and of the process: a cookie is read (by a logout too), a logout that read its cookie
  revokes it, a row is written or not (\<open>Row\<close>: an upsert whose instant was read before), the process starts
  again.\<close>

datatype denylist_op =
    Read cookie
  | Close cookie int
  | Persist bool string
  | Row string int
  | Restart

fun run_denylist :: "int \<times> denylist_op \<Rightarrow> denylist \<Rightarrow> denylist" where
  "run_denylist (now, Read p) d = fst (validate_session_cookie now (Some p) d)"
| "run_denylist (now, Close p lifetime) d = logout_close p lifetime now d"
| "run_denylist (now, Persist ok cid) d = persist ok cid d"
| "run_denylist (now, Row cid expires) d = add_row cid expires d"
| "run_denylist (now, Restart) d = restart now d"

definition run_denylists :: "(int \<times> denylist_op) list \<Rightarrow> denylist \<Rightarrow> denylist" where
  "run_denylists ops d = foldl (\<lambda>d op. run_denylist op d) d ops"

lemma run_denylists_simps [simp]:
  "run_denylists [] d = d"
  "run_denylists (op # ops) d = run_denylists ops (run_denylist op d)"
  by (simp_all add: run_denylists_def)

text \<open>The id's row is written before the process starts again, if it does.\<close>

fun row_first :: "string \<Rightarrow> (int \<times> denylist_op) list \<Rightarrow> bool" where
  "row_first cid [] = True"
| "row_first cid ((t, Restart) # ops) = False"
| "row_first cid ((t, Persist ok c) # ops) = (ok \<and> c = cid \<or> row_first cid ops)"
| "row_first cid (op # ops) = row_first cid ops"

text \<open>What a later close of the same id writes is not before \<open>U\<close>.\<close>

definition closes_keep :: "string \<Rightarrow> int \<Rightarrow> int \<times> denylist_op \<Rightarrow> bool" where
  "closes_keep cid U op =
     (case snd op of Close q l \<Rightarrow> session_cookie_id q = cid \<longrightarrow> U \<le> revoked_until q l (fst op) | _ \<Rightarrow> True)"

text \<open>In memory, and in the store, until an instant at least; the store has one row per id.\<close>

definition out_until :: "string \<Rightarrow> int \<Rightarrow> (string \<times> int) list \<Rightarrow> bool" where
  "out_until cid U table = (\<exists>e. lookup table cid = Some e \<and> U \<le> e)"

lemma out_until_swept: "out_until cid U kvs \<Longrightarrow> now \<le> U \<Longrightarrow> out_until cid U (filter (\<lambda>kv. \<not> snd kv < now) kvs)"
  unfolding out_until_def by (induction kvs) (auto split: if_splits)

lemma out_until_loaded:
  "(\<forall>e. (cid, e) \<in> set kvs \<longrightarrow> U \<le> e) \<Longrightarrow> cid \<in> set (keys kvs) \<or> out_until cid U m \<Longrightarrow>
   out_until cid U (foldl (\<lambda>m (c, expires). dict_set c expires m) m kvs)"
proof (induction kvs arbitrary: m)
  case (Cons kv kvs)
  then show ?case by (cases kv) (auto simp: out_until_def)
qed simp

definition held_out :: "string \<Rightarrow> int \<Rightarrow> denylist \<Rightarrow> bool" where
  "held_out cid U d = (out_until cid U (revoked d) \<and> distinct (keys (rows d)))"

definition logged_out :: "string \<Rightarrow> int \<Rightarrow> denylist \<Rightarrow> bool" where
  "logged_out cid U d = (held_out cid U d \<and> out_until cid U (rows d))"

lemmas out_defs = logged_out_def held_out_def out_until_def

lemma distinct_keys_filter: "distinct (keys kvs) \<Longrightarrow> distinct (keys (filter P kvs))"
  by (induction kvs) auto

lemma restart_logged_out:
  assumes "logged_out cid U d" "now \<le> U"
  shows "logged_out cid U (restart now d)"
proof -
  let ?r = "filter (\<lambda>kv. \<not> snd kv < now) (rows d)"
  have r: "out_until cid U ?r" "distinct (keys ?r)"
    using assms out_until_swept distinct_keys_filter unfolding logged_out_def held_out_def by blast+
  then obtain e where e: "lookup ?r cid = Some e" "U \<le> e" unfolding out_until_def by blast
  have "cid \<in> set (keys ?r)" using lookup_in_keys [of ?r cid] e(1) by (simp del: set_map)
  moreover have "\<forall>x. (cid, x) \<in> set ?r \<longrightarrow> U \<le> x"
    using r(2) e by (metis lookup_map_of map_of_is_SomeI option.inject)
  ultimately show ?thesis
    using r out_until_loaded by (simp add: logged_out_def held_out_def restart_def load_def load_live_def Let_def)
qed

lemma sweep_held_out: "held_out cid U d \<Longrightarrow> now \<le> U \<Longrightarrow> held_out cid U (sweep_revoked now d)"
  by (simp add: held_out_def sweep_revoked_def out_until_swept)

lemma sweep_rows [simp]: "rows (sweep_revoked now d) = rows d"
  by (simp add: sweep_revoked_def)

lemma read_held_out:
  "held_out cid U d \<Longrightarrow> now \<le> U \<Longrightarrow> held_out cid U (fst (validate_session_cookie now v d))"
  "rows (fst (validate_session_cookie now v d)) = rows d"
  by (simp_all add: validate_session_cookie_def is_revoked_def Let_def sweep_held_out split: option.split)

lemma read_answer:
  assumes "held_out (session_cookie_id p) U d" "now \<le> U"
  shows "snd (validate_session_cookie now (Some p) d) = None"
proof -
  from sweep_held_out [OF assms] obtain e where
    "lookup (revoked (sweep_revoked now d)) (session_cookie_id p) = Some e" "U \<le> e"
    unfolding held_out_def out_until_def by blast
  with assms(2) show ?thesis by (simp add: validate_session_cookie_def is_revoked_def Let_def)
qed

lemma add_row_out:
  "held_out cid U d \<Longrightarrow> held_out cid U (add_row x e d)"
  "out_until cid U (rows d) \<Longrightarrow> out_until cid U (rows (add_row x e d))"
  by (auto simp: out_defs add_row_def split: option.split)

lemma persist_out:
  "held_out cid U d \<Longrightarrow> held_out cid U (persist ok x d)"
  "out_until cid U (rows d) \<Longrightarrow> out_until cid U (rows (persist ok x d))"
  "held_out cid U d \<Longrightarrow> out_until cid U (rows (persist True cid d))"
  by (auto simp: persist_def add_row_out split: option.split)
    (auto simp: out_defs add_row_def split: option.split)

text \<open>A logout that closes later overwrites the instant in memory, not the row.\<close>

lemma close_out:
  "held_out cid U d \<Longrightarrow> session_cookie_id p = cid \<longrightarrow> U \<le> revoked_until p lifetime now \<Longrightarrow>
     held_out cid U (logout_close p lifetime now d)"
  "rows (logout_close p lifetime now d) = rows d"
  by (auto simp: logout_close_def revoke_def held_out_def out_until_def Let_def)

lemma closed_out:
  "distinct (keys (rows d)) \<Longrightarrow> U \<le> revoked_until p lifetime now \<Longrightarrow>
   held_out (session_cookie_id p) U (logout_close p lifetime now d)"
  by (simp add: logout_close_def revoke_def held_out_def out_until_def Let_def)

lemma run_denylist_logged_out:
  "logged_out cid U d \<Longrightarrow> fst op \<le> U \<Longrightarrow> closes_keep cid U op \<Longrightarrow> logged_out cid U (run_denylist op d)"
  by (cases op; cases "snd op")
    (auto simp: logged_out_def closes_keep_def read_held_out add_row_out persist_out close_out
      restart_logged_out [unfolded logged_out_def])

lemma run_denylist_held_out:
  "held_out cid U d \<Longrightarrow> fst op \<le> U \<Longrightarrow> closes_keep cid U op \<Longrightarrow> snd op \<noteq> Restart \<Longrightarrow>
   held_out cid U (run_denylist op d)"
  by (cases op; cases "snd op")
    (auto simp: closes_keep_def read_held_out add_row_out persist_out close_out)

lemma run_denylists_logged_out:
  "logged_out cid U d \<Longrightarrow> \<forall>op\<in>set ops. fst op \<le> U \<and> closes_keep cid U op \<Longrightarrow>
   logged_out cid U (run_denylists ops d)"
  by (induction ops arbitrary: d) (simp_all add: run_denylist_logged_out)

lemma run_denylists_held_out:
  "held_out cid U d \<Longrightarrow> \<forall>op\<in>set ops. fst op \<le> U \<and> closes_keep cid U op \<Longrightarrow> row_first cid ops \<Longrightarrow>
   held_out cid U (run_denylists ops d)"
proof (induction cid ops arbitrary: d rule: row_first.induct)
  case (3 cid t ok c ops)
  have h: "held_out cid U (persist ok c d)" by (rule persist_out(1) [OF 3(2)])
  show ?case
  proof (cases "ok \<and> c = cid")
    case True
    with h persist_out(3) [OF 3(2)] have "logged_out cid U (persist ok c d)" by (simp add: logged_out_def)
    from run_denylists_logged_out [OF this] 3(3) show ?thesis by (simp add: logged_out_def)
  next
    case False
    with 3 h show ?thesis by auto
  qed
qed (simp_all add: run_denylist_held_out del: run_denylist.simps)

text \<open>C39. A logout is for good. Once a logout has revoked its cookie in memory, every cookie of the same sign-in (its
  re-mints, whatever their expiry) is refused for the thirty days that follow, and beyond them until the later of
  the cookie's expiry and the longer of the cookie lifetime and thirty days, through every sequence of reads,
  rows written, late or not at all, other logouts that were already under way, and restarts of the process (the
  first one after the id's row was written; the table has one row per id and the clock never goes back before the
  logout). Beyond the thirty days there is one condition: another logout of the same sign-in, which read its
  cookie before and closes after, replaces the instant in memory by its own, so the refusal lasts until the
  earliest of these.\<close>

theorem logout_is_for_good:
  assumes "distinct (keys (rows d))" and "row_first (session_cookie_id p) ops"
    and "\<forall>op\<in>set ops. t2 \<le> fst op \<and> fst op \<le> now"
    and "now \<le> t2 + MIN_RETENTION \<or>
      now \<le> revoked_until p lifetime t2 \<and> (\<forall>op\<in>set ops. closes_keep (session_cookie_id p) now op)"
    and "session_cookie_id q = session_cookie_id p"
  shows "snd (validate_session_cookie now (Some q) (run_denylists ops (logout_close p lifetime t2 d))) = None"
proof -
  have "closes_keep (session_cookie_id p) now op" if "op \<in> set ops" "now \<le> t2 + MIN_RETENTION" for op
    using that assms(3) by (fastforce simp: closes_keep_def revoked_until_def split: denylist_op.split)
  with assms(3,4) have k: "\<forall>op\<in>set ops. fst op \<le> now \<and> closes_keep (session_cookie_id p) now op" by blast
  from assms(4) have "now \<le> revoked_until p lifetime t2" by (auto simp: revoked_until_def)
  from run_denylists_held_out [OF closed_out [OF assms(1) this] k assms(2)] assms(5)
  show ?thesis by (metis read_answer order_refl)
qed

definition demo_cookie :: cookie where
  "demo_cookie = \<lparr>ck_jti = None, ck_sub = ''s1'', ck_iat = 1000, ck_exp = Some 5000000\<rparr>"

definition demo_denylist :: denylist where
  "demo_denylist = \<lparr>revoked = [], next_sweep = 0, rows = []\<rparr>"

definition demo_denylist_ops :: "(int \<times> denylist_op) list" where
  "demo_denylist_ops =
     [(2000002, Read demo_cookie), (2000003, Close demo_cookie 3600000),
      (2000004, Persist True (session_cookie_id demo_cookie)), (2500000000, Restart)]"

theorem logout_is_for_good_witness:
  "snd (validate_session_cookie 2590000000 (Some (demo_cookie\<lparr>ck_exp := Some 6000000\<rparr>))
     (run_denylists demo_denylist_ops (logout_close demo_cookie 3600000 2000001 demo_denylist))) = None"
  by (rule logout_is_for_good)
    (simp_all add: demo_denylist_def demo_denylist_ops_def MIN_RETENTION_def session_cookie_id_def demo_cookie_def)

text \<open>The one condition is real: of two logouts of one sign-in, the second to close lowers the instant in memory
  when its own copy expires earlier; the row keeps the later one.\<close>

lemma overlapping_logout_lowers:
  "let d1 = persist True (session_cookie_id demo_cookie) (logout_close demo_cookie 3600000 2000001 demo_denylist);
       d2 = persist True (session_cookie_id demo_cookie)
         (logout_close (demo_cookie\<lparr>ck_exp := Some 3600\<rparr>) 3600000 2000002 d1)
   in lookup (revoked d1) (session_cookie_id demo_cookie) = Some 5000000000 \<and>
      lookup (revoked d2) (session_cookie_id demo_cookie) = Some 2594000002 \<and>
      lookup (rows d2) (session_cookie_id demo_cookie) = Some 5000000000"
  by (simp add: Let_def logout_close_def revoke_def persist_def add_row_def session_cookie_id_def demo_cookie_def
      demo_denylist_def revoked_until_def MIN_RETENTION_def)

section \<open>The holder of a session token\<close>

text \<open>The claims of a session token: its person, its issue second (\<open>0\<close> where it is no number) and its expiry. The
  cached answers are by person and issue time with the monotonic instant they stand until; a person's generation
  moves with each \<open>forget\<close>.\<close>

record holder_claims =
  hc_sub :: string
  hc_iat :: int
  hc_exp :: "int option"

type_synonym holder_key = "string \<times> int"

record holder_cache =
  hc_answers :: "(holder_key \<times> bool \<times> int) list"
  hc_generation :: "(string \<times> nat) list"

definition HOLDER_TTL :: int where "HOLDER_TTL = 60000"
definition ANSWERS_MAX :: nat where "ANSWERS_MAX = 4096"

definition holder_key :: "holder_claims \<Rightarrow> holder_key option" where
  "holder_key p = (if hc_sub p = [] then None else Some (hc_sub p, hc_iat p))"

definition generation_of :: "holder_cache \<Rightarrow> string \<Rightarrow> nat" where
  "generation_of h s = (case lookup (hc_generation h) s of None \<Rightarrow> 0 | Some n \<Rightarrow> n)"

definition make_answers_room :: "int \<Rightarrow> (holder_key \<times> bool \<times> int) list \<Rightarrow> (holder_key \<times> bool \<times> int) list" where
  "make_answers_room now kvs =
     (if length kvs \<ge> ANSWERS_MAX then
        (let kept = filter (\<lambda>(_, good, until). \<not> (good \<or> until < now)) kvs in
         if length kept \<ge> ANSWERS_MAX then [] else kept)
      else kvs)"

text \<open>\<open>wall\<close> is the clock a token's expiry is read on, \<open>now\<close> the monotonic one.\<close>

definition remember :: "holder_key \<Rightarrow> bool \<Rightarrow> holder_claims \<Rightarrow> int \<Rightarrow> int \<Rightarrow> holder_cache \<Rightarrow> holder_cache" where
  "remember k ok p now wall h =
     (let left = (case hc_exp p of None \<Rightarrow> 0 | Some e \<Rightarrow> 1000 * e - wall);
          until = (if ok then now + HOLDER_TTL else now + max HOLDER_TTL left) in
      h\<lparr>hc_answers := dict_set k (ok, until) (make_answers_room now (hc_answers h))\<rparr>)"

text \<open>A question is answered from the table, or it reads the store: it notes the generation first and writes its
  answer after, if the generation is still the same.\<close>

datatype asked = Known bool | Reading holder_key nat

definition holder_asked :: "holder_claims \<Rightarrow> int \<Rightarrow> holder_cache \<Rightarrow> asked" where
  "holder_asked p now h =
     (case holder_key p of
        None \<Rightarrow> Known True
      | Some k \<Rightarrow>
          (case lookup (hc_answers h) k of
             Some (ok, until) \<Rightarrow> if until \<ge> now then Known ok else Reading k (generation_of h (fst k))
           | None \<Rightarrow> Reading k (generation_of h (fst k))))"

definition holder_read :: "holder_key \<Rightarrow> nat \<Rightarrow> bool \<Rightarrow> holder_claims \<Rightarrow> int \<Rightarrow> int \<Rightarrow> holder_cache \<Rightarrow> holder_cache" where
  "holder_read k generation ok p now wall h =
     (if generation_of h (fst k) = generation then remember k ok p now wall h else h)"

definition forget :: "string \<Rightarrow> holder_cache \<Rightarrow> holder_cache" where
  "forget s h =
     h\<lparr>hc_generation := dict_set s (generation_of h s + 1) (hc_generation h),
       hc_answers := filter (\<lambda>kv. fst (fst kv) \<noteq> s) (hc_answers h)\<rparr>"

subsection \<open>A forgotten person is read again\<close>

text \<open>The cache, what the store would answer now, the people whose credentials changed and who were not forgotten
  since, and the reads under way (the key, the noted generation, and the store's answer once it is there).\<close>

record holder_world =
  hw_cache :: holder_cache
  hw_truth :: "holder_key \<Rightarrow> bool"
  hw_changed :: "string set"
  hw_reads :: "(holder_key \<times> nat \<times> bool option) list"

inductive holder_step :: "holder_world \<Rightarrow> holder_world \<Rightarrow> bool" where
  asks: "holder_asked p now (hw_cache w) = Reading k g \<Longrightarrow> holder_step w (w\<lparr>hw_reads := (k, g, None) # hw_reads w\<rparr>)"
| reads: "(k, g, None) \<in> set (hw_reads w) \<Longrightarrow>
     holder_step w (w\<lparr>hw_reads := (k, g, Some (hw_truth w k)) # remove1 (k, g, None) (hw_reads w)\<rparr>)"
| writes: "(k, g, Some ok) \<in> set (hw_reads w) \<Longrightarrow> holder_key p = Some k \<Longrightarrow>
     holder_step w (w\<lparr>hw_cache := holder_read k g ok p now wall (hw_cache w),
       hw_reads := remove1 (k, g, Some ok) (hw_reads w)\<rparr>)"
| changes: "(\<And>k. fst k \<noteq> s \<Longrightarrow> truth k = hw_truth w k) \<Longrightarrow>
     holder_step w (w\<lparr>hw_truth := truth, hw_changed := insert s (hw_changed w)\<rparr>)"
| forgets: "holder_step w (w\<lparr>hw_cache := forget s (hw_cache w), hw_changed := hw_changed w - {s}\<rparr>)"

inductive reachable_holder :: "holder_world \<Rightarrow> bool" where
  start: "hw_cache w = \<lparr>hc_answers = [], hc_generation = []\<rparr> \<Longrightarrow> hw_reads w = [] \<Longrightarrow> reachable_holder w"
| step: "reachable_holder w \<Longrightarrow> holder_step w w' \<Longrightarrow> reachable_holder w'"

text \<open>For a person whose changes were all forgotten, what is cached and what a read of this generation will cache is
  what the store says; no read is of a later generation.\<close>

definition holder_ok_world :: "holder_world \<Rightarrow> bool" where
  "holder_ok_world w =
     (distinct (keys (hc_answers (hw_cache w))) \<and> length (hc_answers (hw_cache w)) \<le> ANSWERS_MAX \<and>
      (\<forall>k ok until. lookup (hc_answers (hw_cache w)) k = Some (ok, until) \<longrightarrow> fst k \<notin> hw_changed w \<longrightarrow> ok = hw_truth w k) \<and>
      (\<forall>k g ok. (k, g, ok) \<in> set (hw_reads w) \<longrightarrow> g \<le> generation_of (hw_cache w) (fst k)) \<and>
      (\<forall>k g ok. (k, g, Some ok) \<in> set (hw_reads w) \<longrightarrow> fst k \<notin> hw_changed w \<longrightarrow>
         g = generation_of (hw_cache w) (fst k) \<longrightarrow> ok = hw_truth w k))"

lemma lookup_filter_keys: "lookup (filter (\<lambda>kv. P (fst kv)) kvs) k = (if P k then lookup kvs k else None)"
  by (induction kvs) (auto split: if_splits)

lemma lookup_filter_SomeD:
  "distinct (keys kvs) \<Longrightarrow> lookup (filter P kvs) k = Some v \<Longrightarrow> lookup kvs k = Some v"
  by (metis filter_is_subset lookup_SomeD lookup_map_of map_of_is_SomeI subsetD)

lemma length_dict_set_le: "length (dict_set k v kvs) \<le> Suc (length kvs)"
  by (induction k v kvs rule: dict_set.induct) auto

lemma answers_room:
  assumes "distinct (keys kvs)"
  shows "distinct (keys (make_answers_room now kvs))" "length (make_answers_room now kvs) < ANSWERS_MAX"
    "lookup (make_answers_room now kvs) k = Some v \<Longrightarrow> lookup kvs k = Some v"
  using assms lookup_filter_SomeD
  by (auto simp: make_answers_room_def Let_def distinct_keys_filter ANSWERS_MAX_def split: if_splits)

lemma generation_simps [simp]:
  "generation_of (remember k ok p now wall h) s = generation_of h s"
  "generation_of (holder_read k g ok p now wall h) s = generation_of h s"
  "generation_of (forget x h) s = (if s = x then generation_of h s + 1 else generation_of h s)"
  by (auto simp: generation_of_def remember_def holder_read_def forget_def Let_def)

lemma holder_read_answers:
  assumes "distinct (keys (hc_answers h))" "length (hc_answers h) \<le> ANSWERS_MAX"
  shows "distinct (keys (hc_answers (holder_read k g ok p now wall h)))"
    and "length (hc_answers (holder_read k g ok p now wall h)) \<le> ANSWERS_MAX"
    and "lookup (hc_answers (holder_read k g ok p now wall h)) x = Some (a, u) \<Longrightarrow>
      x = k \<and> a = ok \<and> g = generation_of h (fst k) \<or> lookup (hc_answers h) x = Some (a, u)"
proof -
  note r = answers_room [OF assms(1), of now]
  show "distinct (keys (hc_answers (holder_read k g ok p now wall h)))"
    using assms(1) r(1) by (simp add: holder_read_def remember_def Let_def del: set_map)
  show "length (hc_answers (holder_read k g ok p now wall h)) \<le> ANSWERS_MAX"
    using assms(2) r(2) length_dict_set_le [of k _ "make_answers_room now (hc_answers h)"]
    by (simp add: holder_read_def remember_def Let_def) (meson Suc_leI le_trans)
  show "lookup (hc_answers (holder_read k g ok p now wall h)) x = Some (a, u) \<Longrightarrow>
      x = k \<and> a = ok \<and> g = generation_of h (fst k) \<or> lookup (hc_answers h) x = Some (a, u)"
    using r(3) by (auto simp: holder_read_def remember_def Let_def split: if_splits)
qed

lemma holder_step_ok:
  assumes "holder_step w w'" "holder_ok_world w"
  shows "holder_ok_world w'"
  using assms
proof (induction rule: holder_step.induct)
  case (asks p now w k g)
  then have "g = generation_of (hw_cache w) (fst k)"
    by (auto simp: holder_asked_def split: option.splits prod.splits if_splits)
  with asks.prems show ?case by (auto simp: holder_ok_world_def)
next
  case (reads k g w)
  from reads.hyps reads.prems have g: "g \<le> generation_of (hw_cache w) (fst k)" unfolding holder_ok_world_def by blast
  have sub: "x \<in> set (hw_reads w)" if "x \<in> set (remove1 (k, g, None) (hw_reads w))" for x
    using that by (meson notin_set_remove1)
  from g reads.prems show ?case unfolding holder_ok_world_def by (auto dest!: sub) blast
next
  case (writes k g ok w p now wall)
  have h: "distinct (keys (hc_answers (hw_cache w)))" "length (hc_answers (hw_cache w)) \<le> ANSWERS_MAX"
    using writes.prems by (simp_all add: holder_ok_world_def)
  note r = holder_read_answers [OF h, of k g ok p now wall]
  have sub: "x \<in> set (hw_reads w)" if "x \<in> set (remove1 (k, g, Some ok) (hw_reads w))" for x
    using that by (meson notin_set_remove1)
  have "a = hw_truth w x" if "lookup (hc_answers (holder_read k g ok p now wall (hw_cache w))) x = Some (a, u)"
      "fst x \<notin> hw_changed w" for x a u
    using r(3) [OF that(1)] that(2) writes.prems writes.hyps(1) unfolding holder_ok_world_def by blast
  moreover have "\<forall>k' g' ok'. (k', g', ok') \<in> set (remove1 (k, g, Some ok) (hw_reads w)) \<longrightarrow>
      g' \<le> generation_of (hw_cache w) (fst k')"
    using sub writes.prems unfolding holder_ok_world_def by blast
  moreover have "\<forall>k' g' ok'. (k', g', Some ok') \<in> set (remove1 (k, g, Some ok) (hw_reads w)) \<longrightarrow>
      fst k' \<notin> hw_changed w \<longrightarrow> g' = generation_of (hw_cache w) (fst k') \<longrightarrow> ok' = hw_truth w k'"
    using sub writes.prems unfolding holder_ok_world_def by blast
  ultimately show ?case using r(1,2) unfolding holder_ok_world_def by simp
next
  case (changes s truth w)
  then show ?case by (auto simp: holder_ok_world_def)
next
  case (forgets w s)
  have l: "lookup (hc_answers (forget s (hw_cache w))) k = (if fst k \<noteq> s then lookup (hc_answers (hw_cache w)) k else None)" for k
    using lookup_filter_keys [of "\<lambda>k. fst k \<noteq> s" "hc_answers (hw_cache w)" k] by (simp add: forget_def)
  from forgets have g: "\<forall>k g ok. (k, g, ok) \<in> set (hw_reads w) \<longrightarrow> g \<le> generation_of (hw_cache w) (fst k)"
    unfolding holder_ok_world_def by blast
  have "ok = hw_truth w k" if "lookup (hc_answers (forget s (hw_cache w))) k = Some (ok, until)" "fst k \<notin> hw_changed w - {s}"
    for k ok until
    using that forgets l [of k] unfolding holder_ok_world_def by (metis DiffI option.distinct(1) singletonD)
  moreover have "ok = hw_truth w k" if "(k, generation_of (forget s (hw_cache w)) (fst k), Some ok) \<in> set (hw_reads w)"
      "fst k \<notin> hw_changed w - {s}" for k ok
  proof (cases "fst k = s")
    case True
    with that(1) g show ?thesis by fastforce
  next
    case False
    with that forgets show ?thesis unfolding holder_ok_world_def by simp (metis prod.collapse)
  qed
  moreover have "n \<le> generation_of (forget s (hw_cache w)) (fst k)" if "(k, n, ok) \<in> set (hw_reads w)" for k n ok
  proof -
    from g that have "n \<le> generation_of (hw_cache w) (fst k)" by blast
    then show ?thesis by auto
  qed
  moreover have "length (hc_answers (forget s (hw_cache w))) \<le> ANSWERS_MAX"
    using forgets by (simp add: holder_ok_world_def forget_def) (meson le_trans length_filter_le)
  moreover have "distinct (keys (hc_answers (forget s (hw_cache w))))"
    using forgets by (simp add: holder_ok_world_def forget_def distinct_keys_filter)
  ultimately show ?case unfolding holder_ok_world_def by simp
qed

text \<open>C40. A bump ends a person's tokens at once: in every order of questions, reads of the store, changes of
  credentials and forgets, an answer served from the table about a person none of whose changes is still to be
  forgotten is what the store says now, whatever reads were under way when the change happened; and the table
  never holds more answers than its bound.\<close>

theorem forgotten_holder_is_read_again:
  assumes "reachable_holder w" and "hc_sub p \<notin> hw_changed w" and "holder_asked p now (hw_cache w) = Known ok"
  shows "ok = (case holder_key p of None \<Rightarrow> True | Some k \<Rightarrow> hw_truth w k) \<and> length (hc_answers (hw_cache w)) \<le> ANSWERS_MAX"
proof -
  have "holder_ok_world w"
    using assms(1)
  proof (induction rule: reachable_holder.induct)
    case (start w)
    then show ?case by (simp add: holder_ok_world_def)
  qed (rule holder_step_ok)
  with assms(2,3) show ?thesis
    by (auto simp: holder_ok_world_def holder_asked_def holder_key_def split: option.splits prod.splits if_splits)
qed

definition demo_holder :: holder_world where
  "demo_holder = \<lparr>hw_cache = \<lparr>hc_answers = [], hc_generation = []\<rparr>, hw_truth = (\<lambda>_. True), hw_changed = {}, hw_reads = []\<rparr>"

definition demo_claims :: holder_claims where
  "demo_claims = \<lparr>hc_sub = ''s1'', hc_iat = 1000, hc_exp = None\<rparr>"

theorem forgotten_holder_is_read_again_witness:
  "\<exists>w. reachable_holder w \<and> hw_reads w = [] \<and> holder_asked demo_claims 20000 (hw_cache w) = Known True \<and>
     length (hc_answers (hw_cache w)) \<le> ANSWERS_MAX"
proof -
  let ?k = "(''s1'', 1000) :: holder_key"
  let ?a = "demo_holder\<lparr>hw_reads := [(?k, 0, None)]\<rparr>"
  let ?b = "demo_holder\<lparr>hw_reads := [(?k, 0, Some True)]\<rparr>"
  let ?c = "demo_holder\<lparr>hw_cache := holder_read ?k 0 True demo_claims 10000 10000 (hw_cache demo_holder)\<rparr>"
  have k: "holder_key demo_claims = Some ?k" by (simp add: holder_key_def demo_claims_def)
  have "holder_step demo_holder ?a"
    using holder_step.asks [of demo_claims 5000 demo_holder ?k 0] k
    by (simp add: holder_asked_def demo_holder_def generation_of_def)
  moreover have "holder_step ?a ?b"
    using holder_step.reads [of ?k 0 ?a] by (simp add: demo_holder_def)
  moreover have "holder_step ?b ?c"
    using holder_step.writes [of ?k 0 True ?b demo_claims 10000 10000] k by (simp add: demo_holder_def)
  moreover have "reachable_holder demo_holder" by (rule reachable_holder.start) (simp_all add: demo_holder_def)
  ultimately have r: "reachable_holder ?c" by (meson reachable_holder.step)
  have "holder_asked demo_claims 20000 (hw_cache ?c) = Known True"
    by (simp add: holder_asked_def holder_key_def holder_read_def remember_def demo_holder_def generation_of_def demo_claims_def
        make_answers_room_def ANSWERS_MAX_def HOLDER_TTL_def Let_def)
  with r forgotten_holder_is_read_again [OF r _ this] show ?thesis
    by (intro exI [of _ ?c]) (simp add: demo_holder_def)
qed

end
