(* ===== verification/SubscriptionWindows.thy ===== *)
theory SubscriptionWindows
  imports Complex_Main Prelude
begin

text \<open>
  What the pool asks of a vendor's reading of an account's windows (\<open>services/engines/subscription_windows.py\<close>): the
  settled reading of an instant, whether it leaves the account out of service for a spawn, and when it frees.
  Instants and lengths are milliseconds; a percentage is a rational. The reading (\<open>core/execution_layer.py\<close>) carries
  the specs it was read against.
\<close>

section \<open>Readings\<close>

record window_spec =
  spec_length :: int
  spec_role :: string

record window =
  w_pct :: rat
  w_resets_at :: "int option"

record scoped_window =
  s_key :: string
  s_pct :: rat
  s_resets_at :: "int option"
  s_active :: bool

record windows =
  specs :: "(string \<times> window_spec) list"
  wins :: "(string \<times> window) list"
  scoped :: "scoped_window list"
  reached :: string
  observed_at :: int
  reading_source :: string

definition scoped_for :: "windows \<Rightarrow> string \<Rightarrow> scoped_window option" where
  "scoped_for w key = find (\<lambda>s. s_key s = key) (scoped w)"

definition quota_key :: "windows \<Rightarrow> string" where
  "quota_key w = (case find (\<lambda>(_, spec). spec_role spec = ''quota'') (specs w) of None \<Rightarrow> [] | Some (key, _) \<Rightarrow> key)"

definition spill_pct :: "window_spec \<Rightarrow> rat" where
  "spill_pct spec = (if spec_role spec = ''session'' then 90 else if spec_role spec = ''quota'' then 95 else 100)"

definition quota_spec :: "(string \<times> window_spec) list \<Rightarrow> window_spec option" where
  "quota_spec sps = map_option snd (find (\<lambda>(_, spec). spec_role spec = ''quota'') sps)"

definition scoped_name :: "string \<Rightarrow> string" where
  "scoped_name key = ''scoped:'' @ key"

section \<open>What a reading says about now\<close>

definition settle :: "int \<Rightarrow> int \<Rightarrow> window option \<Rightarrow> int \<Rightarrow> window option" where
  "settle now age win len =
     (case win of
        None \<Rightarrow> None
      | Some w \<Rightarrow>
          if age > len then None
          else (case w_resets_at w of
                  Some r \<Rightarrow> if r \<le> now then Some \<lparr>w_pct = 0, w_resets_at = None\<rparr> else Some w
                | None \<Rightarrow> if w_pct w > 0 then None else Some w))"

definition reset_passed :: "int \<Rightarrow> int option \<Rightarrow> bool" where
  "reset_passed now r = (case r of None \<Rightarrow> False | Some t \<Rightarrow> t \<le> now)"

fun settle_specs ::
  "windows \<Rightarrow> int \<Rightarrow> (string \<times> window_spec) list \<Rightarrow> (string \<times> window) list \<times> string \<Rightarrow> (string \<times> window) list \<times> string"
where
  "settle_specs w now [] out = out"
| "settle_specs w now ((key, spec) # sps) (ws, r) =
     (let src = lookup (wins w) key; dst = settle now (now - observed_at w) src (spec_length spec);
          ws' = (case dst of None \<Rightarrow> ws | Some d \<Rightarrow> dict_set key d ws);
          past = (case src of None \<Rightarrow> False | Some s \<Rightarrow> reset_passed now (w_resets_at s));
          r' = (if r = key \<and> (dst = None \<or> past) then [] else r) in
      settle_specs w now sps (ws', r'))"

definition scoped_length :: "windows \<Rightarrow> int" where
  "scoped_length w =
     (case quota_spec (specs w) of
        Some q \<Rightarrow> spec_length q
      | None \<Rightarrow> if specs w = [] then 0 else Max (set (map (\<lambda>kv. spec_length (snd kv)) (specs w))))"

fun settle_scoped ::
  "windows \<Rightarrow> int \<Rightarrow> scoped_window list \<Rightarrow> scoped_window list \<times> string \<Rightarrow> scoped_window list \<times> string"
where
  "settle_scoped w now [] out = out"
| "settle_scoped w now (s # ss) (out, r) =
     (case settle now (now - observed_at w) (Some \<lparr>w_pct = s_pct s, w_resets_at = s_resets_at s\<rparr>) (scoped_length w) of
        None \<Rightarrow> settle_scoped w now ss (out, if r = scoped_name (s_key s) then [] else r)
      | Some d \<Rightarrow>
          (let past = reset_passed now (s_resets_at s) in
           settle_scoped w now ss
             (out @ [s\<lparr>s_pct := w_pct d, s_resets_at := w_resets_at d, s_active := s_active s \<and> \<not> past\<rparr>],
              if past \<and> r = scoped_name (s_key s) then [] else r)))"

definition effective :: "windows \<Rightarrow> int \<Rightarrow> windows" where
  "effective w now =
     (let (ws, r1) = settle_specs w now (specs w) ([], reached w);
          (ss, r2) = settle_scoped w now (scoped w) ([], r1) in
      w\<lparr>wins := ws, scoped := ss, reached := r2\<rparr>)"

section \<open>The questions the pool asks\<close>

definition SCOPED_SPILL :: rat where "SCOPED_SPILL = 95"

definition exhausted_overall :: "windows \<Rightarrow> bool" where
  "exhausted_overall w =
     (list_ex (\<lambda>(key, win). case lookup (specs w) key of None \<Rightarrow> False | Some spec \<Rightarrow> w_pct win \<ge> spill_pct spec) (wins w) \<or>
      reached w \<in> set (keys (specs w)))"

definition scoped_out :: "windows \<Rightarrow> scoped_window \<Rightarrow> bool" where
  "scoped_out w s = (s_pct s \<ge> SCOPED_SPILL \<or> reached w = scoped_name (s_key s))"

definition exhausted :: "windows \<Rightarrow> string \<Rightarrow> bool" where
  "exhausted w scope =
     (exhausted_overall w \<or>
      scope \<noteq> [] \<and> (case scoped_for w scope of None \<Rightarrow> False | Some s \<Rightarrow> scoped_out w s))"

definition exhausted_any :: "windows \<Rightarrow> bool" where
  "exhausted_any w = (exhausted_overall w \<or> list_ex (scoped_out w) (scoped w))"

definition has_headroom :: "windows \<Rightarrow> string \<Rightarrow> bool" where
  "has_headroom w key =
     (if starts_with key ''scoped:'' then
        (case scoped_for w (drop 7 key) of
           None \<Rightarrow> False | Some s \<Rightarrow> s_pct s < SCOPED_SPILL \<and> reached w \<noteq> key)
      else (case (lookup (wins w) key, lookup (specs w) key) of
              (Some win, Some spec) \<Rightarrow> w_pct win < spill_pct spec \<and> reached w \<noteq> key
            | _ \<Rightarrow> False))"

definition earliest :: "int list \<Rightarrow> int option" where
  "earliest ts = (if ts = [] then None else Some (foldl min (hd ts) (tl ts)))"

definition frees_at :: "windows \<Rightarrow> string \<Rightarrow> int option" where
  "frees_at w scope =
     (let overall = concat (map (\<lambda>(key, win).
            case (lookup (specs w) key, w_resets_at win) of
              (Some spec, Some r) \<Rightarrow> if w_pct win \<ge> spill_pct spec \<or> reached w = key then [r] else []
            | _ \<Rightarrow> []) (wins w));
          own = (if scope = [] then []
                 else (case scoped_for w scope of
                         None \<Rightarrow> []
                       | Some s \<Rightarrow> if scoped_out w s then (case s_resets_at s of None \<Rightarrow> [] | Some r \<Rightarrow> [r]) else [])) in
      earliest (overall @ own))"

definition quota_reset :: "windows \<Rightarrow> int option" where
  "quota_reset w = (case lookup (wins w) (quota_key w) of None \<Rightarrow> None | Some win \<Rightarrow> w_resets_at win)"

text \<open>The newest sample, with the per-model windows of the newest poll where that sample is a stream event.\<close>

definition merged_reading :: "windows \<Rightarrow> windows option \<Rightarrow> int \<Rightarrow> windows" where
  "merged_reading newest poll now =
     (let e = effective newest now in
      if reading_source newest \<noteq> ''poll'' then
        (case poll of
           None \<Rightarrow> e
         | Some p0 \<Rightarrow>
             (let p = effective p0 now in
              e\<lparr>scoped := scoped p,
                reached := (if reached e = [] \<and> starts_with (reached p) ''scoped:'' then reached p else reached e)\<rparr>))
      else e)"

section \<open>An exhausted account frees\<close>

text \<open>A window that says nothing any more: too old, or past its reset.\<close>

definition over :: "windows \<Rightarrow> int \<Rightarrow> int \<Rightarrow> int option \<Rightarrow> bool" where
  "over w now len resets = (now - observed_at w > len \<or> reset_passed now resets)"

definition all_over :: "windows \<Rightarrow> int \<Rightarrow> bool" where
  "all_over w now =
     (list_all (\<lambda>(key, spec). case lookup (wins w) key of
          None \<Rightarrow> True | Some win \<Rightarrow> over w now (spec_length spec) (w_resets_at win)) (specs w) \<and>
      list_all (\<lambda>s. over w now (scoped_length w) (s_resets_at s)) (scoped w))"

lemma settle_over:
  "over w now len (w_resets_at win) \<Longrightarrow> settle now (now - observed_at w) (Some win) len \<in> {None, Some \<lparr>w_pct = 0, w_resets_at = None\<rparr>}"
  "over w now len (w_resets_at win) \<Longrightarrow> settle now (now - observed_at w) (Some win) len = None \<or> reset_passed now (w_resets_at win)"
  by (auto simp: over_def settle_def reset_passed_def split: option.splits)

lemma values_dict_set: "(\<forall>kv\<in>set kvs. P (snd kv)) \<Longrightarrow> P v \<Longrightarrow> \<forall>kv\<in>set (dict_set k v kvs). P (snd kv)"
  by (induction k v kvs rule: dict_set.induct) auto

lemma settle_specs_over:
  assumes "list_all (\<lambda>(key, spec). case lookup (wins w) key of
      None \<Rightarrow> True | Some win \<Rightarrow> over w now (spec_length spec) (w_resets_at win)) sps"
    and "\<forall>kv\<in>set ws. w_pct (snd kv) = 0"
  shows "(\<forall>kv\<in>set (fst (settle_specs w now sps (ws, r))). w_pct (snd kv) = 0) \<and>
    snd (settle_specs w now sps (ws, r)) = (if r \<in> set (keys sps) then [] else r)"
  using assms
proof (induction w now sps "(ws, r)" arbitrary: ws r rule: settle_specs.induct)
  case (2 w now key spec sps ws r)
  let ?d = "settle now (now - observed_at w) (lookup (wins w) key) (spec_length spec)"
  let ?past = "case lookup (wins w) key of None \<Rightarrow> False | Some s \<Rightarrow> reset_passed now (w_resets_at s)"
  let ?ws = "case ?d of None \<Rightarrow> ws | Some d \<Rightarrow> dict_set key d ws"
  have d: "?d = None \<or> ?d = Some \<lparr>w_pct = 0, w_resets_at = None\<rparr>" "?d = None \<or> ?past"
  proof -
    have "(?d = None \<or> ?d = Some \<lparr>w_pct = 0, w_resets_at = None\<rparr>) \<and> (?d = None \<or> ?past)"
    proof (cases "lookup (wins w) key")
      case (Some win)
      with "2.prems"(1) have "over w now (spec_length spec) (w_resets_at win)" by simp
      from settle_over [OF this] Some show ?thesis by auto
    qed (simp add: settle_def)
    then show "?d = None \<or> ?d = Some \<lparr>w_pct = 0, w_resets_at = None\<rparr>" "?d = None \<or> ?past" by blast+
  qed
  have "\<forall>kv\<in>set ?ws. w_pct (snd kv) = 0"
    using d(1) "2.prems"(2) values_dict_set [of ws "\<lambda>v. w_pct v = 0" "\<lparr>w_pct = 0, w_resets_at = None\<rparr>" key] by auto
  from "2.hyps" [OF refl refl refl refl refl] this "2.prems"(1) d(2) show ?case
    by (auto simp: Let_def)
qed simp

lemma scoped_name_not_Nil [simp]: "scoped_name k \<noteq> []" "[] \<noteq> scoped_name k"
  by (simp_all add: scoped_name_def)

lemma settle_scoped_over:
  assumes "list_all (\<lambda>s. over w now (scoped_length w) (s_resets_at s)) ss" "\<forall>s\<in>set out. s_pct s = 0"
  shows "(\<forall>s\<in>set (fst (settle_scoped w now ss (out, r))). s_pct s = 0 \<and> s_key s \<in> s_key ` set (out @ ss)) \<and>
    snd (settle_scoped w now ss (out, r)) = (if r \<in> scoped_name ` s_key ` set ss then [] else r)"
  using assms
proof (induction ss arbitrary: out r)
  case (Cons s ss)
  let ?win = "\<lparr>w_pct = s_pct s, w_resets_at = s_resets_at s\<rparr>"
  have o: "over w now (scoped_length w) (w_resets_at ?win)" using Cons.prems(1) by simp
  have t: "list_all (\<lambda>s. over w now (scoped_length w) (s_resets_at s)) ss" using Cons.prems(1) by simp
  show ?case
  proof (cases "settle now (now - observed_at w) (Some ?win) (scoped_length w)")
    case None
    note i = Cons.IH [OF t Cons.prems(2), of "if r = scoped_name (s_key s) then [] else r"]
    from i None show ?thesis by (simp add: image_Un)
  next
    case (Some d)
    with settle_over [OF o] have d: "w_pct d = 0" "reset_passed now (s_resets_at s)" by auto
    let ?out = "out @ [s\<lparr>s_pct := w_pct d, s_resets_at := w_resets_at d, s_active := False\<rparr>]"
    have "\<forall>x\<in>set ?out. s_pct x = 0" using Cons.prems(2) d(1) by simp
    note i = Cons.IH [OF t this, of "if r = scoped_name (s_key s) then [] else r"]
    from i Some d show ?thesis by (simp add: image_Un Let_def)
  qed
qed simp

text \<open>C36. A reading never keeps an account out for good: once every window of it is past its reset or older than
  its length, the settled reading leaves the account in service for every model, whatever was full and whatever
  the vendor called reached.\<close>

theorem reading_lets_go:
  assumes "all_over w now" and "[] \<notin> set (keys (specs w))"
  shows "\<not> exhausted (effective w now) scope"
proof -
  obtain ws r1 where a: "settle_specs w now (specs w) ([], reached w) = (ws, r1)" by fastforce
  obtain ss r2 where b: "settle_scoped w now (scoped w) ([], r1) = (ss, r2)" by fastforce
  have 1: "\<forall>kv\<in>set ws. w_pct (snd kv) = 0" "r1 = (if reached w \<in> set (keys (specs w)) then [] else reached w)"
    using settle_specs_over [of w now "specs w" "[]" "reached w"] assms(1) a by (auto simp: all_over_def)
  have 2: "\<forall>s\<in>set ss. s_pct s = 0" "\<forall>s\<in>set ss. s_key s \<in> s_key ` set (scoped w)"
    "r2 = (if r1 \<in> scoped_name ` s_key ` set (scoped w) then [] else r1)"
    using settle_scoped_over [of w now "scoped w" "[]" r1] assms(1) b by (auto simp: all_over_def)
  have e: "effective w now = w\<lparr>wins := ws, scoped := ss, reached := r2\<rparr>" by (simp add: effective_def a b)
  have "r2 \<notin> set (keys (specs w))" using 1(2) 2(3) assms(2) by (auto simp del: set_map)
  moreover have "\<not> spill_pct spec \<le> 0" for spec by (simp add: spill_pct_def)
  ultimately have "\<not> exhausted_overall (effective w now)"
    using 1(1) by (auto simp: e exhausted_overall_def list_ex_iff split: option.splits)
  moreover have "\<not> scoped_out (effective w now) s" if "s \<in> set ss" for s
  proof -
    have "s_key s \<in> s_key ` set (scoped w)" using 2(2) that by auto
    with 2 that show ?thesis by (auto simp: e scoped_out_def SCOPED_SPILL_def scoped_name_def)
  qed
  ultimately show ?thesis by (auto simp: exhausted_def scoped_for_def e find_Some_iff split: option.splits)
qed

text \<open>A reading of two full windows: the session's, which resets in an hour, and the week's, in five days.\<close>

definition demo_reading :: windows where
  "demo_reading = \<lparr>
     specs = [(''five_hour'', \<lparr>spec_length = 18000000, spec_role = ''session''\<rparr>),
              (''seven_day'', \<lparr>spec_length = 604800000, spec_role = ''quota''\<rparr>)],
     wins = [(''five_hour'', \<lparr>w_pct = 97, w_resets_at = Some 3600000\<rparr>),
             (''seven_day'', \<lparr>w_pct = 100, w_resets_at = Some 432000000\<rparr>)],
     scoped = [], reached = ''seven_day'', observed_at = 0, reading_source = ''poll''\<rparr>"

theorem reading_lets_go_witness: "\<not> exhausted (effective demo_reading 432000000) ''opus''"
proof (rule reading_lets_go)
  show "all_over demo_reading 432000000" by code_simp
  show "[] \<notin> set (keys (specs demo_reading))" by code_simp
qed

text \<open>The instant \<open>frees_at\<close> gives is the first reset of the windows that are full, and the account is still out after
  it: of two accounts out of service, the one whose week is full reads as the first to free.\<close>

lemma frees_at_too_early:
  "frees_at demo_reading ''opus'' = Some 3600000"
  "exhausted (effective demo_reading 3600000) ''opus''"
  "exhausted (effective demo_reading 431999999) ''opus''"
  by code_simp+

end
