(* ===== verification/SubscriptionPool.thy ===== *)
theory SubscriptionPool
  imports SubscriptionWindows "HOL-Library.Product_Lexorder"
begin

text \<open>
  The subscription pool (\<open>services/engines/subscription_pool.py\<close>): the rests of an account, the choice of one for a
  spawn, the credential scope that sticks to it, the seats and the bindings of sessions. The memory of the module
  with the two tables of the store it writes (\<open>storage/billing/subscription_store.py\<close>) is the record \<open>pool\<close>; the
  rows a spawn may take, the vendor's readings, the consumption, the credentials and the caps are read through
  \<open>pool_env\<close>. Instants are milliseconds; a write of the store lands before the next operation reads it.
\<close>

section \<open>The pool\<close>

record sub_row =
  sr_id :: string
  sr_layer :: string
  sr_provider :: string
  sr_auth :: string

record handle =
  h_id :: string
  h_layer :: string
  h_provider :: string
  h_auth :: string
  h_api_key :: "string option"
  h_token :: "string option"
  h_endpoint :: "string option"

text \<open>A persisted binding: the account, and the context it was acquired with (\<open>None\<close>: not stamped).\<close>

record binding_row =
  bd_sub :: string
  bd_layer :: string
  bd_user :: "string option"
  bd_scope :: string

record pool =
  throttled_until :: "(string \<times> int) list"
  throttled_hard :: "string list"
  window_rests :: "(string \<times> string \<times> int) list"
  scoped_rests :: "((string \<times> string) \<times> int \<times> int) list"
  session_subs :: "(string \<times> string) list"
  binding_ctx :: "(string \<times> string \<times> string) list"
  scope_keys :: "(string \<times> string) list"
  scope_recent :: "(string \<times> string \<times> int) list"
  bindings :: "(string \<times> binding_row) list"       \<comment> \<open>the store's, newest first\<close>
  seats :: "(string \<times> nat) list"                  \<comment> \<open>\<open>active_sessions\<close> of each row\<close>

record cap_status =
  cap_allowed :: bool
  cap_on_reached :: string

record pool_env =
  env_personal :: "string \<Rightarrow> string \<Rightarrow> string \<Rightarrow> sub_row list"
  env_platform :: "string \<Rightarrow> string \<Rightarrow> sub_row list"
  env_platform_auth :: "string \<Rightarrow> bool"
  env_windows_on :: bool
  env_reading :: "string \<Rightarrow> windows option"        \<comment> \<open>the settled reading of an account\<close>
  env_scope_key :: "string \<Rightarrow> string \<Rightarrow> string"     \<comment> \<open>the engine's \<open>usage_scope_key\<close>\<close>
  env_consumption :: "string \<Rightarrow> rat \<times> rat"
  env_credential :: "string \<Rightarrow> string option \<times> string option \<times> string option"
  env_cap :: "string \<Rightarrow> string \<Rightarrow> string \<Rightarrow> cap_status option"
  env_live :: "string \<Rightarrow> bool option"              \<comment> \<open>the registries; \<open>None\<close>: cannot be asked\<close>
  env_boot_grace :: bool

definition THROTTLE_COOLDOWN :: int where "THROTTLE_COOLDOWN = 900000"
definition OVERLOAD_COOLDOWN :: int where "OVERLOAD_COOLDOWN = 10000"
definition SCOPE_RECENT_TTL :: int where "SCOPE_RECENT_TTL = 180000"
definition USER_BORROWABLE_AUTH_TYPES :: "string list" where
  "USER_BORROWABLE_AUTH_TYPES = [''api_key'', ''relay'', ''local_endpoint'']"
definition ACTIVITY_AUTH_TYPES :: "string list" where
  "ACTIVITY_AUTH_TYPES = [''oauth'', ''local_endpoint'']"

section \<open>Rests\<close>

definition end_rest :: "string \<Rightarrow> pool \<Rightarrow> pool" where
  "end_rest s P =
     P\<lparr>throttled_until := dict_del s (throttled_until P), throttled_hard := removeAll s (throttled_hard P),
       window_rests := dict_del s (window_rests P)\<rparr>"

definition is_throttled :: "int \<Rightarrow> string \<Rightarrow> pool \<Rightarrow> pool \<times> bool" where
  "is_throttled now s P =
     (case lookup (throttled_until P) s of
        None \<Rightarrow> (P, False)
      | Some until \<Rightarrow> if now \<ge> until then (end_rest s P, False) else (P, True))"

definition account_resting :: "int \<Rightarrow> string \<Rightarrow> pool \<Rightarrow> pool \<times> bool" where
  "account_resting = is_throttled"

definition scope_resting :: "int \<Rightarrow> string \<Rightarrow> string \<Rightarrow> pool \<Rightarrow> pool \<times> bool" where
  "scope_resting now s scope P =
     (if scope = [] then (P, False)
      else (case lookup (scoped_rests P) (s, scope) of
              None \<Rightarrow> (P, False)
            | Some (until, _) \<Rightarrow>
                if now \<ge> until then (P\<lparr>scoped_rests := dict_del (s, scope) (scoped_rests P)\<rparr>, False) else (P, True)))"

definition rest_account :: "int \<Rightarrow> string \<Rightarrow> int \<Rightarrow> string \<Rightarrow> pool \<Rightarrow> pool \<times> bool" where
  "rest_account now s until win P =
     (if until \<le> (case lookup (throttled_until P) s of None \<Rightarrow> 0 | Some t \<Rightarrow> t) then (P, False)
      else (P\<lparr>throttled_until := dict_set s until (throttled_until P),
              window_rests := (if win \<noteq> [] then dict_set s (win, now) (window_rests P) else dict_del s (window_rests P))\<rparr>,
            True))"

definition get_session_subscription :: "string \<Rightarrow> pool \<Rightarrow> string option" where
  "get_session_subscription sid P =
     (case lookup (session_subs P) sid of
        Some s \<Rightarrow> if s \<noteq> [] then Some s
                  else (case lookup (bindings P) sid of None \<Rightarrow> None | Some b \<Rightarrow> if bd_sub b = [] then None else Some (bd_sub b))
      | None \<Rightarrow> (case lookup (bindings P) sid of None \<Rightarrow> None | Some b \<Rightarrow> if bd_sub b = [] then None else Some (bd_sub b)))"

definition mark_subscription_throttled :: "int \<Rightarrow> string \<Rightarrow> int \<Rightarrow> pool \<Rightarrow> pool" where
  "mark_subscription_throttled now sid cooldown P =
     (case get_session_subscription sid P of
        None \<Rightarrow> P
      | Some s \<Rightarrow>
          (let P1 = fst (rest_account now s (now + cooldown) [] P) in
           if cooldown \<ge> THROTTLE_COOLDOWN then P1\<lparr>throttled_hard := List.insert s (throttled_hard P1)\<rparr> else P1))"

definition LIMIT_ERROR_MARKERS :: "string list" where
  "LIMIT_ERROR_MARKERS =
     [''rate_limit'', ''rate limit'', ''ratelimit'', ''429'', ''too many requests'', ''usage limit'', ''usage credits'',
      ''out of usage'', ''quota'', ''insufficient_quota'']"

definition OVERLOAD_MARKERS :: "string list" where
  "OVERLOAD_MARKERS = [''overloaded'', ''529'']"

definition throttle_cooldown_for :: "string \<Rightarrow> int option" where
  "throttle_cooldown_for message =
     (let m = lower message in
      if list_ex (contains m) LIMIT_ERROR_MARKERS then Some THROTTLE_COOLDOWN
      else if list_ex (contains m) OVERLOAD_MARKERS then Some OVERLOAD_COOLDOWN
      else None)"

definition looks_like_limit_error :: "string \<Rightarrow> bool" where
  "looks_like_limit_error message = (throttle_cooldown_for message \<noteq> None)"

definition throttle_from_cli_error :: "int \<Rightarrow> string \<Rightarrow> string \<Rightarrow> pool \<Rightarrow> pool" where
  "throttle_from_cli_error now sid text0 P =
     (case throttle_cooldown_for text0 of None \<Rightarrow> P | Some c \<Rightarrow> mark_subscription_throttled now sid c P)"

text \<open>A limit ending: the window it names and its reset. \<open>declared\<close> are the specs to judge the window by: the
  engine's the session was acquired for, else those of every engine.\<close>

definition window_length :: "(string \<times> window_spec) list list \<Rightarrow> string \<Rightarrow> int option" where
  "window_length declared win =
     (let lengths = concat (map (\<lambda>sps.
            if starts_with win ''scoped:'' then (case quota_spec sps of None \<Rightarrow> [] | Some q \<Rightarrow> [spec_length q])
            else (case lookup sps win of None \<Rightarrow> [] | Some spec \<Rightarrow> [spec_length spec])) declared) in
      if lengths = [] then None else Some (foldl max (hd lengths) (tl lengths)))"

definition declared_specs ::
  "(string \<Rightarrow> (string \<times> window_spec) list) \<Rightarrow> string list \<Rightarrow> string \<Rightarrow> pool \<Rightarrow> (string \<times> window_spec) list list"
where
  "declared_specs specs_of layers sid P =
     (case lookup (binding_ctx P) sid of
        Some (layer, _) \<Rightarrow> if layer \<noteq> [] then [specs_of layer] else map specs_of layers
      | None \<Rightarrow> map specs_of layers)"

definition rest_until_reset ::
  "int \<Rightarrow> (string \<times> window_spec) list list \<Rightarrow> string \<Rightarrow> string \<Rightarrow> int option \<Rightarrow> pool \<Rightarrow> pool \<times> bool"
where
  "rest_until_reset now declared sid win resets P =
     (case resets of
        None \<Rightarrow> (P, False)
      | Some reset \<Rightarrow>
          if win = [] \<or> reset \<le> now then (P, False)
          else (case (window_length declared win, get_session_subscription sid P) of
                  (Some len, Some s) \<Rightarrow>
                    (let until = min reset (now + len) in
                     if starts_with win ''scoped:'' then
                       (let scope = drop 7 win in
                        if scope = [] then (P, False)
                        else
                          (if (case lookup (scoped_rests P) (s, scope) of None \<Rightarrow> True | Some (held, _) \<Rightarrow> held < until)
                           then P\<lparr>scoped_rests := dict_set (s, scope) (until, now) (scoped_rests P)\<rparr> else P,
                           True))
                     else
                       (let P1 = fst (rest_account now s until win P) in
                        (P1\<lparr>throttled_hard := List.insert s (throttled_hard P1)\<rparr>, True)))
                | _ \<Rightarrow> (P, False)))"

text \<open>What ended the turn: a typed usage limit, or an error's text.\<close>

datatype turn_end = Limit string "int option" | Failed string

definition rest_after_limit ::
  "int \<Rightarrow> (string \<times> window_spec) list list \<Rightarrow> string \<Rightarrow> turn_end \<Rightarrow> pool \<Rightarrow> pool"
where
  "rest_after_limit now declared sid ending P =
     (case ending of
        Limit win resets \<Rightarrow>
          (let (P1, rested) = rest_until_reset now declared sid win resets P in
           if rested then P1 else mark_subscription_throttled now sid THROTTLE_COOLDOWN P1)
      | Failed msg \<Rightarrow>
          (case throttle_cooldown_for msg of None \<Rightarrow> P | Some c \<Rightarrow> mark_subscription_throttled now sid c P))"

definition clear_rests_with_headroom :: "string \<Rightarrow> windows \<Rightarrow> pool \<Rightarrow> pool" where
  "clear_rests_with_headroom s reading P =
     (let P1 = (case lookup (window_rests P) s of
                  None \<Rightarrow> P
                | Some (win, rested_at) \<Rightarrow>
                    if observed_at reading > rested_at \<and> has_headroom reading win then end_rest s P else P) in
      P1\<lparr>scoped_rests := filter (\<lambda>((rs, scope), (_, rested_at)).
           \<not> (rs = s \<and> observed_at reading > rested_at \<and> has_headroom reading (scoped_name scope))) (scoped_rests P1)\<rparr>)"

section \<open>The choice of an account\<close>

text \<open>Only an account of a vendor login has windows.\<close>

definition window_reading :: "pool_env \<Rightarrow> sub_row \<Rightarrow> windows option" where
  "window_reading e c = (if env_windows_on e \<and> sr_auth c = ''oauth'' then env_reading e (sr_id c) else None)"

definition scope_key :: "pool_env \<Rightarrow> string \<Rightarrow> string \<Rightarrow> string" where
  "scope_key e layer model = (if model = [] \<or> layer = [] then [] else env_scope_key e layer model)"

definition window_exhausted_for :: "pool_env \<Rightarrow> sub_row \<Rightarrow> string \<Rightarrow> bool" where
  "window_exhausted_for e c model =
     (case window_reading e c of None \<Rightarrow> False | Some r \<Rightarrow> exhausted r (scope_key e (sr_layer c) model))"

definition out_for :: "pool_env \<Rightarrow> int \<Rightarrow> sub_row \<Rightarrow> string \<Rightarrow> pool \<Rightarrow> pool \<times> bool" where
  "out_for e now c model P =
     (if window_exhausted_for e c model then (P, True)
      else scope_resting now (sr_id c) (scope_key e (sr_layer c) model) P)"

definition auth_allowed :: "string list option \<Rightarrow> sub_row \<Rightarrow> bool" where
  "auth_allowed allowed c = (case allowed of None \<Rightarrow> True | Some auths \<Rightarrow> sr_auth c \<in> set auths)"

definition is_resting :: "pool_env \<Rightarrow> int \<Rightarrow> string \<Rightarrow> sub_row \<Rightarrow> pool \<Rightarrow> pool \<times> bool" where
  "is_resting e now model c P =
     (let (P1, t) = is_throttled now (sr_id c) P in
      if t then (P1, True) else scope_resting now (sr_id c) (scope_key e (sr_layer c) model) P1)"

fun resting_ids :: "pool_env \<Rightarrow> int \<Rightarrow> string \<Rightarrow> sub_row list \<Rightarrow> pool \<Rightarrow> pool \<times> string list" where
  "resting_ids e now model [] P = (P, [])"
| "resting_ids e now model (c # cs) P =
     (let (P1, r) = is_resting e now model c P; (P2, ids) = resting_ids e now model cs P1 in
      (P2, if r then sr_id c # ids else ids))"

text \<open>When an account's rests end: the later of the account's and the model scope's.\<close>

definition rest_end :: "int \<Rightarrow> string \<Rightarrow> string \<Rightarrow> pool \<Rightarrow> int option" where
  "rest_end now s scope P =
     (let own = (case lookup (throttled_until P) s of Some u \<Rightarrow> if now < u then [u] else [] | None \<Rightarrow> []);
          scoped' = (if scope = [] then []
                     else (case lookup (scoped_rests P) (s, scope) of
                             Some (u, _) \<Rightarrow> if now < u then [u] else [] | None \<Rightarrow> [])) in
      case own @ scoped' of [] \<Rightarrow> None | u # us \<Rightarrow> Some (foldl max u us))"

text \<open>The instant the order goes by: the reset of the quota window; in the fallback, when the account frees. \<open>None\<close>
  is the far future.\<close>

definition order_instant :: "pool_env \<Rightarrow> int \<Rightarrow> string \<Rightarrow> bool \<Rightarrow> pool \<Rightarrow> sub_row \<Rightarrow> int option" where
  "order_instant e now model fallback P c =
     (let scope = scope_key e (sr_layer c) model; reading = window_reading e c in
      if fallback then
        (let known = (case rest_end now (sr_id c) scope P of None \<Rightarrow> [] | Some u \<Rightarrow> [u]) @
                     (case reading of None \<Rightarrow> []
                      | Some r \<Rightarrow> (case frees_at r scope of None \<Rightarrow> [] | Some t \<Rightarrow> [t])) in
         case known of [] \<Rightarrow> None | u # us \<Rightarrow> Some (foldl max u us))
      else (case reading of None \<Rightarrow> None | Some r \<Rightarrow> quota_reset r))"

type_synonym order_key = "bool \<times> bool \<times> int \<times> rat \<times> rat"

definition order_key :: "pool_env \<Rightarrow> int \<Rightarrow> string \<Rightarrow> bool \<Rightarrow> pool \<Rightarrow> sub_row \<Rightarrow> order_key" where
  "order_key e now model fallback P c =
     (let i = order_instant e now model fallback P c in
      (sr_auth c = ''relay'', i = None, (case i of None \<Rightarrow> 0 | Some t \<Rightarrow> t), env_consumption e (sr_id c)))"

definition build_handle :: "pool_env \<Rightarrow> sub_row \<Rightarrow> handle" where
  "build_handle e c =
     (let (key, token, endpoint) = env_credential e (sr_id c) in
      \<lparr>h_id = sr_id c, h_layer = sr_layer c, h_provider = sr_provider c, h_auth = sr_auth c,
       h_api_key = key, h_token = token, h_endpoint = endpoint\<rparr>)"

definition usable :: "handle \<Rightarrow> bool" where
  "usable h = (opt_str (h_api_key h) \<noteq> [] \<or> opt_str (h_token h) \<noteq> [] \<or> opt_str (h_endpoint h) \<noteq> [] \<or> h_auth h = ''relay'')"

definition set_seats :: "string \<Rightarrow> (nat \<Rightarrow> nat) \<Rightarrow> pool \<Rightarrow> pool" where
  "set_seats s f P =
     (case lookup (seats P) s of None \<Rightarrow> P | Some n \<Rightarrow> P\<lparr>seats := dict_set s (f n) (seats P)\<rparr>)"

definition increment_active_sessions :: "string \<Rightarrow> pool \<Rightarrow> pool" where
  "increment_active_sessions s = set_seats s (\<lambda>n. n + 1)"

definition decrement_active_sessions :: "string \<Rightarrow> pool \<Rightarrow> pool" where
  "decrement_active_sessions s = set_seats s (\<lambda>n. n - 1)"

definition lower_active_sessions :: "string \<Rightarrow> nat \<Rightarrow> pool \<Rightarrow> pool" where
  "lower_active_sessions s n = set_seats s (\<lambda>m. if m > n then n else m)"

definition reset_active_sessions :: "pool \<Rightarrow> pool" where
  "reset_active_sessions P = P\<lparr>seats := map (\<lambda>(s, _). (s, 0)) (seats P)\<rparr>"

text \<open>The candidates in the order they are tried: the ones that neither rest nor are out of window, or all of them
  when none is left.\<close>

definition select_order ::
  "pool_env \<Rightarrow> int \<Rightarrow> sub_row list \<Rightarrow> string list option \<Rightarrow> string \<Rightarrow> pool \<Rightarrow> pool \<times> sub_row list"
where
  "select_order e now candidates allowed model P =
     (let ok = filter (auth_allowed allowed) candidates;
          out = map sr_id (filter (\<lambda>c. window_exhausted_for e c model) ok);
          (P1, resting) = resting_ids e now model ok P;
          fresh = filter (\<lambda>c. sr_id c \<notin> set resting \<and> sr_id c \<notin> set out) ok in
      if fresh = [] then (P1, sort_key (order_key e now model True P1) ok)
      else (P1, sort_key (order_key e now model False P1) fresh))"

definition select_one ::
  "pool_env \<Rightarrow> int \<Rightarrow> sub_row list \<Rightarrow> string list option \<Rightarrow> string \<Rightarrow> pool \<Rightarrow> pool \<times> handle option"
where
  "select_one e now candidates allowed model P =
     (let (P1, ordered) = select_order e now candidates allowed model P in
      case find (\<lambda>c. usable (build_handle e c)) ordered of
        None \<Rightarrow> (P1, None)
      | Some c \<Rightarrow> (increment_active_sessions (sr_id c) P1, Some (build_handle e c)))"

section \<open>The credential scope\<close>

definition credential_scope_key :: "string \<Rightarrow> string \<Rightarrow> string" where
  "credential_scope_key target host_dir = (if host_dir = [] then [] else or_else target ''local'' @ '':'' @ host_dir)"

definition session_registered_live :: "pool_env \<Rightarrow> string \<Rightarrow> pool \<Rightarrow> bool option" where
  "session_registered_live e sid P = (if sid \<in> set (keys (session_subs P)) then Some True else env_live e sid)"

text \<open>The rows of a scope, newest first: a dead session's row is deleted on sight.\<close>

fun scan_bindings :: "pool_env \<Rightarrow> string \<Rightarrow> (string \<times> binding_row) list \<Rightarrow> pool \<Rightarrow> pool \<times> string option" where
  "scan_bindings e scope [] P = (P, None)"
| "scan_bindings e scope ((sid, b) # rest) P =
     (if bd_scope b \<noteq> scope then scan_bindings e scope rest P
      else if sid \<noteq> [] \<and> session_registered_live e sid P = Some False
      then scan_bindings e scope rest (P\<lparr>bindings := dict_del sid (bindings P)\<rparr>)
      else if bd_sub b \<noteq> [] then (P, Some (bd_sub b))
      else scan_bindings e scope rest P)"

definition live_sticky :: "string \<Rightarrow> pool \<Rightarrow> string option" where
  "live_sticky scope P =
     (case filter (\<lambda>(sid, k). k = scope \<and> opt_str (lookup (session_subs P) sid) \<noteq> []) (scope_keys P) of
        [] \<Rightarrow> None
      | (sid, _) # _ \<Rightarrow> lookup (session_subs P) sid)"

definition persisted_sticky :: "pool_env \<Rightarrow> string \<Rightarrow> pool \<Rightarrow> pool \<times> string option" where
  "persisted_sticky e scope P =
     (if scope = [] then (P, None)
      else if env_boot_grace e then
        (P, (case find (\<lambda>(_, b). bd_scope b = scope) (bindings P) of
               None \<Rightarrow> None | Some (_, b) \<Rightarrow> if bd_sub b = [] then None else Some (bd_sub b)))
      else scan_bindings e scope (bindings P) P)"

definition sticky_subscription_id :: "pool_env \<Rightarrow> int \<Rightarrow> string \<Rightarrow> pool \<Rightarrow> pool \<times> string option" where
  "sticky_subscription_id e now scope P =
     (case live_sticky scope P of
        Some s \<Rightarrow> (P, Some s)
      | None \<Rightarrow>
          (case lookup (scope_recent P) scope of
             Some (s, ts) \<Rightarrow>
               if now - ts \<le> SCOPE_RECENT_TTL then (P, Some s)
               else persisted_sticky e scope (P\<lparr>scope_recent := dict_del scope (scope_recent P)\<rparr>)
           | None \<Rightarrow> persisted_sticky e scope P))"

text \<open>Whether another candidate can serve the model.\<close>

fun others_serve ::
  "pool_env \<Rightarrow> int \<Rightarrow> string \<Rightarrow> string list option \<Rightarrow> string \<Rightarrow> sub_row list \<Rightarrow> pool \<Rightarrow> pool \<times> bool"
where
  "others_serve e now pinned allowed model [] P = (P, False)"
| "others_serve e now pinned allowed model (c # cs) P =
     (if sr_id c = pinned \<or> \<not> auth_allowed allowed c then others_serve e now pinned allowed model cs P
      else (let (P1, out) = out_for e now c model P; (P2, r) = others_serve e now pinned allowed model cs P1 in
            (P2, \<not> out \<or> r)))"

definition select_sticky ::
  "pool_env \<Rightarrow> int \<Rightarrow> string \<Rightarrow> sub_row list \<Rightarrow> string list option \<Rightarrow> string \<Rightarrow> pool \<Rightarrow> pool \<times> handle option"
where
  "select_sticky e now scope candidates allowed model P =
     (if scope = [] then (P, None)
      else
        (let (P1, pinned) = sticky_subscription_id e now scope P in
         case pinned of
           None \<Rightarrow> (P1, None)
         | Some s \<Rightarrow>
             (case filter (\<lambda>c. sr_id c = s) candidates of
                [] \<Rightarrow> (P1, None)
              | c # match \<Rightarrow>
                  (let (P2, out) = out_for e now c model P1;
                       (P3, others) = (if out then others_serve e now s allowed model candidates P2 else (P2, False)) in
                   if out \<and> others then (P3, None)
                   else select_one e now (c # match) allowed model P3))))"

section \<open>Acquiring\<close>

datatype pool_error = PoolCap | PoolCapNoKey | LocalOnly | NotBorrowable

definition select_either ::
  "pool_env \<Rightarrow> int \<Rightarrow> string \<Rightarrow> sub_row list \<Rightarrow> string list option \<Rightarrow> string \<Rightarrow> pool \<Rightarrow> pool \<times> handle option"
where
  "select_either e now scope rows allowed model P =
     (case select_sticky e now scope rows allowed model P of
        (P1, Some h) \<Rightarrow> (P1, Some h)
      | (P1, None) \<Rightarrow> select_one e now rows allowed model P1)"

definition rows_without_login :: "sub_row list \<Rightarrow> sub_row list" where
  "rows_without_login rows = filter (\<lambda>c. sr_auth c \<noteq> ''oauth'') rows"

definition cap_status_of :: "pool_env \<Rightarrow> string \<Rightarrow> string \<Rightarrow> cap_status option" where
  "cap_status_of e layer user = (if user \<noteq> [] then env_cap e ''user'' user layer else env_cap e ''platform'' [] layer)"

definition borrowable :: "string list option \<Rightarrow> string list" where
  "borrowable allowed =
     (case allowed of None \<Rightarrow> USER_BORROWABLE_AUTH_TYPES | Some a \<Rightarrow> filter (\<lambda>x. x \<in> set a) USER_BORROWABLE_AUTH_TYPES)"

definition user_handle ::
  "pool_env \<Rightarrow> int \<Rightarrow> string \<Rightarrow> string \<Rightarrow> string \<Rightarrow> string \<Rightarrow> string \<Rightarrow> bool \<Rightarrow> string list option \<Rightarrow> pool \<Rightarrow> pool \<times> (pool_error + handle option)"
where
  "user_handle e now layer user provider scope model drop_oauth allowed P =
     (let own = env_personal e layer user provider;
          own' = (if drop_oauth then rows_without_login own else own) in
      case select_either e now scope own' allowed model P of
        (P1, Some h) \<Rightarrow> (P1, Inr (Some h))
      | (P1, None) \<Rightarrow>
          if \<not> env_platform_auth e user then (P1, Inr None)
          else (case select_either e now scope (env_platform e layer provider) (Some (borrowable allowed)) model P1 of
                  (P2, None) \<Rightarrow> (P2, Inr None)
                | (P2, Some h) \<Rightarrow>
                    if h_auth h \<in> set USER_BORROWABLE_AUTH_TYPES then (P2, Inr (Some h)) else (P2, Inl NotBorrowable)))"

definition agent_handle ::
  "pool_env \<Rightarrow> int \<Rightarrow> string \<Rightarrow> string \<Rightarrow> string \<Rightarrow> string \<Rightarrow> bool \<Rightarrow> string list option \<Rightarrow> pool \<Rightarrow> pool \<times> (pool_error + handle option)"
where
  "agent_handle e now layer provider scope model drop_oauth allowed P =
     (let rows = env_platform e layer provider;
          rows' = (if drop_oauth then rows_without_login rows else rows); (P1, h) = select_either e now scope rows' allowed model P in
      (P1, Inr h))"

text \<open>The scope is committed to the account until the session binds.\<close>

definition commit_scope :: "int \<Rightarrow> string \<Rightarrow> string \<Rightarrow> pool \<Rightarrow> pool" where
  "commit_scope now scope s P = P\<lparr>scope_recent := dict_set scope (s, now) (scope_recent P)\<rparr>"

definition acquire_subscription ::
  "pool_env \<Rightarrow> int \<Rightarrow> string \<Rightarrow> string option \<Rightarrow> string \<Rightarrow> string \<Rightarrow> string \<Rightarrow> bool \<Rightarrow> string list option \<Rightarrow>
   pool \<Rightarrow> pool \<times> (pool_error + handle option)"
where
  "acquire_subscription e now layer user_sub provider scope model enforce_caps allowed P =
     (let user = opt_str user_sub; cap = (if enforce_caps then cap_status_of e layer user else None);
          hit = (case cap of None \<Rightarrow> False | Some c \<Rightarrow> \<not> cap_allowed c);
          stop = (case cap of None \<Rightarrow> False | Some c \<Rightarrow> \<not> cap_allowed c \<and> cap_on_reached c \<noteq> ''continue'') in
      if stop then (P, Inl PoolCap)
      else
        (case (if user \<noteq> [] then user_handle e now layer user provider scope model hit allowed P
               else agent_handle e now layer provider scope model hit allowed P) of
           (P1, Inl err) \<Rightarrow> (P1, Inl err)
         | (P1, Inr None) \<Rightarrow>
             if allowed \<noteq> None then (P1, Inl LocalOnly)
             else if hit then (P1, Inl PoolCapNoKey)
             else (P1, Inr None)
         | (P1, Inr (Some h)) \<Rightarrow>
             if scope \<noteq> [] then (commit_scope now scope (h_id h) (fst (sticky_subscription_id e now scope P1)), Inr (Some h))
             else (P1, Inr (Some h))))"

section \<open>Bindings\<close>

text \<open>The upsert makes a row the newest.\<close>

definition upsert_binding :: "string \<Rightarrow> binding_row \<Rightarrow> pool \<Rightarrow> pool" where
  "upsert_binding sid b P = P\<lparr>bindings := (sid, b) # dict_del sid (bindings P)\<rparr>"

definition bind_session :: "string \<Rightarrow> string \<Rightarrow> string \<Rightarrow> string option \<Rightarrow> string \<Rightarrow> pool \<Rightarrow> pool" where
  "bind_session sid s layer user scope P =
     (let prior = opt_str (lookup (session_subs P) sid);
          P1 = P\<lparr>session_subs := dict_set sid s (session_subs P),
                 binding_ctx := (case user of
                    Some u \<Rightarrow> if layer \<noteq> [] then dict_set sid (layer, u) (binding_ctx P) else dict_del sid (binding_ctx P)
                  | None \<Rightarrow> dict_del sid (binding_ctx P)),
                 scope_keys := (if scope \<noteq> [] then dict_set sid scope (scope_keys P) else dict_del sid (scope_keys P)),
                 scope_recent := (if scope \<noteq> [] then dict_del scope (scope_recent P) else scope_recent P)\<rparr>;
          P2 = upsert_binding sid \<lparr>bd_sub = s, bd_layer = layer, bd_user = user, bd_scope = scope\<rparr> P1 in
      if prior \<noteq> [] then decrement_active_sessions prior P2 else P2)"

definition session_bound :: "string \<Rightarrow> pool \<Rightarrow> bool" where
  "session_bound sid P = (sid \<in> set (keys (session_subs P)))"

definition bound_attribution :: "string \<Rightarrow> pool \<Rightarrow> string option \<times> string option" where
  "bound_attribution sid P =
     ((case lookup (session_subs P) sid of None \<Rightarrow> None | Some s \<Rightarrow> if s = [] then None else Some s),
      map_option snd (lookup (binding_ctx P) sid))"

definition release_subscription :: "string \<Rightarrow> pool \<Rightarrow> pool" where
  "release_subscription sid P =
     (let s = opt_str (lookup (session_subs P) sid);
          P1 = P\<lparr>session_subs := dict_del sid (session_subs P), binding_ctx := dict_del sid (binding_ctx P),
                 scope_keys := dict_del sid (scope_keys P), bindings := dict_del sid (bindings P)\<rparr> in
      if s \<noteq> [] then decrement_active_sessions s P1 else P1)"

definition release_unbound_seat :: "string \<Rightarrow> string \<Rightarrow> pool \<Rightarrow> pool" where
  "release_unbound_seat s scope P =
     (if s = [] then P
      else decrement_active_sessions s
        (P\<lparr>scope_recent :=
             (if scope \<noteq> [] \<and> (case lookup (scope_recent P) scope of None \<Rightarrow> False | Some (c, _) \<Rightarrow> c = s)
              then dict_del scope (scope_recent P) else scope_recent P)\<rparr>))"

definition restore_session_binding :: "string \<Rightarrow> pool \<Rightarrow> pool" where
  "restore_session_binding sid P =
     (if opt_str (lookup (session_subs P) sid) \<noteq> [] then P
      else (case lookup (bindings P) sid of
              None \<Rightarrow> P
            | Some b \<Rightarrow>
                if bd_sub b = [] then P
                else increment_active_sessions (bd_sub b)
                       (bind_session sid (bd_sub b) (bd_layer b) (bd_user b) (bd_scope b) P)))"

definition move_seat :: "string \<Rightarrow> string \<Rightarrow> string \<Rightarrow> pool \<Rightarrow> pool" where
  "move_seat old new sid P =
     (let P1 = decrement_active_sessions old (increment_active_sessions new P) in
      if sid = [] then P1
      else P1\<lparr>bindings := map (\<lambda>(k, b). (k, if k = sid then b\<lparr>bd_sub := new\<rparr> else b)) (bindings P1)\<rparr>)"

text \<open>A move lands when the session's credential file was written, if the session is still where it was.\<close>

definition rehome :: "string \<Rightarrow> string \<Rightarrow> string \<Rightarrow> pool \<Rightarrow> pool" where
  "rehome sid old new P =
     (if lookup (session_subs P) sid \<noteq> Some old then P
      else move_seat old new sid (P\<lparr>session_subs := dict_set sid new (session_subs P)\<rparr>))"

definition live_session_count :: "pool_env \<Rightarrow> int \<Rightarrow> string \<Rightarrow> pool \<Rightarrow> nat" where
  "live_session_count e now s P =
     (let live = map fst (filter (\<lambda>(_, x). x = s) (session_subs P));
          stored = (if env_boot_grace e then map fst (filter (\<lambda>(_, b). bd_sub b = s) (bindings P)) else []);
          claims = filter (\<lambda>(_, (x, ts)). x = s \<and> now - ts \<le> SCOPE_RECENT_TTL) (scope_recent P) in
      card (set (live @ stored)) + length claims)"

definition reconcile_active_sessions :: "pool_env \<Rightarrow> int \<Rightarrow> string \<Rightarrow> pool \<Rightarrow> pool \<times> nat \<times> nat" where
  "reconcile_active_sessions e now s P =
     (let stored = (case lookup (seats P) s of None \<Rightarrow> 0 | Some n \<Rightarrow> n); live = live_session_count e now s P in
      (if stored > live then lower_active_sessions s live P else P, stored, live))"

text \<open>A new process: the maps are empty and the counters are reset.\<close>

definition reboot :: "pool \<Rightarrow> pool" where
  "reboot P = reset_active_sessions (P\<lparr>throttled_until := [], throttled_hard := [], window_rests := [], scoped_rests := [],
     session_subs := [], binding_ctx := [], scope_keys := [], scope_recent := []\<rparr>)"

section \<open>What the gates ask\<close>

definition selection_contains :: "pool_env \<Rightarrow> string \<Rightarrow> string \<Rightarrow> string \<Rightarrow> bool" where
  "selection_contains e s layer user =
     (if user \<noteq> [] then
        (if s \<in> set (map sr_id (env_personal e layer user [])) then True
         else if \<not> env_platform_auth e user then False
         else list_ex (\<lambda>c. sr_id c = s \<and> sr_auth c \<in> set USER_BORROWABLE_AUTH_TYPES) (env_platform e layer []))
      else s \<in> set (map sr_id (env_platform e layer [])))"

definition borrowable_pool_available :: "pool_env \<Rightarrow> string \<Rightarrow> string \<Rightarrow> string \<Rightarrow> bool" where
  "borrowable_pool_available e layer user provider =
     (env_platform_auth e user \<and>
      list_ex (\<lambda>c. sr_auth c \<in> set USER_BORROWABLE_AUTH_TYPES) (env_platform e layer provider))"

definition user_can_run :: "pool_env \<Rightarrow> string \<Rightarrow> string \<Rightarrow> string \<Rightarrow> bool" where
  "user_can_run e layer user provider =
     (env_personal e layer user provider \<noteq> [] \<or> borrowable_pool_available e layer user provider)"

definition cap_continue_available :: "pool_env \<Rightarrow> string \<Rightarrow> string option \<Rightarrow> string \<Rightarrow> bool" where
  "cap_continue_available e layer user_sub provider =
     (if opt_str user_sub \<noteq> [] then
        (rows_without_login (env_personal e layer (opt_str user_sub) provider) \<noteq> [] \<or>
         borrowable_pool_available e layer (opt_str user_sub) provider)
      else rows_without_login (env_platform e layer provider) \<noteq> [])"

text \<open>Why a person's spawn found no credentials. \<open>expired\<close>: one of the person's rows, of any status, is expired.\<close>

fun all_throttled :: "int \<Rightarrow> sub_row list \<Rightarrow> pool \<Rightarrow> pool \<times> bool" where
  "all_throttled now [] P = (P, True)"
| "all_throttled now (c # cs) P =
     (let (P1, t) = is_throttled now (sr_id c) P in if t then all_throttled now cs P1 else (P1, False))"

datatype block_reason = BlockedCap | BlockedThrottled | BlockedExpired | BlockedAuthOff | BlockedNoPool | BlockedNone | BlockedOAuthOnly

definition user_scope_block_reason ::
  "pool_env \<Rightarrow> int \<Rightarrow> bool \<Rightarrow> string \<Rightarrow> string \<Rightarrow> string \<Rightarrow> pool \<Rightarrow> pool \<times> block_reason"
where
  "user_scope_block_reason e now expired layer user provider P =
     (if (case cap_status_of e layer user of None \<Rightarrow> False | Some c \<Rightarrow> \<not> cap_allowed c) then (P, BlockedCap)
      else
        (let own = env_personal e layer user provider;
             (P1, resting) = (if own \<noteq> [] then all_throttled now own P else (P, False));
             rows = env_platform e layer provider in
         if resting then (P1, BlockedThrottled)
         else if own = [] \<and> expired then (P1, BlockedExpired)
         else if \<not> env_platform_auth e user then (P1, BlockedAuthOff)
         else if rows = [] then (P1, BlockedNoPool)
         else if list_ex (\<lambda>c. sr_auth c \<in> set USER_BORROWABLE_AUTH_TYPES) rows then (P1, BlockedNone)
         else (P1, BlockedOAuthOnly)))"

definition layer_platform_configured :: "pool_env \<Rightarrow> string \<Rightarrow> bool" where
  "layer_platform_configured e layer = (env_platform e layer [] \<noteq> [])"

definition eligible_candidates :: "pool_env \<Rightarrow> string \<Rightarrow> string \<Rightarrow> string \<Rightarrow> sub_row list" where
  "eligible_candidates e layer user provider =
     (if user \<noteq> [] then
        env_personal e layer user provider @
        (if env_platform_auth e user
         then filter (\<lambda>c. sr_auth c \<in> set USER_BORROWABLE_AUTH_TYPES) (env_platform e layer provider) else [])
      else env_platform e layer provider)"

text \<open>Whether a session's cost is money: \<open>auth_of\<close> is the row's type, \<open>None\<close> no row.\<close>

definition session_cost_billed :: "(string \<Rightarrow> string option) \<Rightarrow> string \<Rightarrow> pool \<Rightarrow> bool" where
  "session_cost_billed auth_of sid P =
     (case get_session_subscription sid P of
        None \<Rightarrow> True
      | Some s \<Rightarrow> (case auth_of s of None \<Rightarrow> True | Some a \<Rightarrow> a \<notin> set ACTIVITY_AUTH_TYPES))"

definition get_session_payer_sub :: "string \<Rightarrow> pool \<Rightarrow> string" where
  "get_session_payer_sub sid P =
     (case lookup (binding_ctx P) sid of
        Some (_, u) \<Rightarrow> u
      | None \<Rightarrow> (case lookup (bindings P) sid of None \<Rightarrow> [] | Some b \<Rightarrow> opt_str (bd_user b)))"

end
