(* ===== verification/PoolSafety.thy ===== *)
theory PoolSafety
  imports SubscriptionPool "HOL-Library.Multiset"
begin

text \<open>
  What the subscription pool keeps: whose account a spawn runs on, which one it drains first, that a credential
  scope keeps its account, and that the seats of an account are the sessions on it.
\<close>

section \<open>Rests and their lapse\<close>

text \<open>A question about a rest drops it when it is over, and nothing else.\<close>

definition same_books :: "pool \<Rightarrow> pool \<Rightarrow> bool" where
  "same_books P P' = (session_subs P' = session_subs P \<and> seats P' = seats P \<and> scope_keys P' = scope_keys P)"

lemma same_books_refl [simp]: "same_books P P"
  by (simp add: same_books_def)

lemma same_books_trans: "same_books P Q \<Longrightarrow> same_books Q R \<Longrightarrow> same_books P R"
  by (simp add: same_books_def)

lemma throttled_spec:
  "same_books P (fst (is_throttled now s P))" "scoped_rests (fst (is_throttled now s P)) = scoped_rests P"
  "snd (is_throttled now s P) = (case lookup (throttled_until P) s of None \<Rightarrow> False | Some u \<Rightarrow> now < u)"
  "rest_end now x scope (fst (is_throttled now s P)) = rest_end now x scope P"
  by (auto simp: is_throttled_def end_rest_def same_books_def rest_end_def split: option.split)

lemma scope_resting_spec:
  "same_books P (fst (scope_resting now s scope P))"
  "throttled_until (fst (scope_resting now s scope P)) = throttled_until P"
  "snd (scope_resting now s scope P) =
     (scope \<noteq> [] \<and> (case lookup (scoped_rests P) (s, scope) of None \<Rightarrow> False | Some (u, _) \<Rightarrow> now < u))"
  "rest_end now x sc (fst (scope_resting now s scope P)) = rest_end now x sc P"
  by (auto simp: scope_resting_def same_books_def rest_end_def Let_def split: option.split)

definition at_rest :: "pool_env \<Rightarrow> int \<Rightarrow> string \<Rightarrow> pool \<Rightarrow> sub_row \<Rightarrow> bool" where
  "at_rest e now model P c = (rest_end now (sr_id c) (scope_key e (sr_layer c) model) P \<noteq> None)"

lemma rest_end_iff:
  "rest_end now s scope P \<noteq> None \<longleftrightarrow>
     (case lookup (throttled_until P) s of None \<Rightarrow> False | Some u \<Rightarrow> now < u) \<or>
     scope \<noteq> [] \<and> (case lookup (scoped_rests P) (s, scope) of None \<Rightarrow> False | Some (u, _) \<Rightarrow> now < u)"
  by (auto simp: rest_end_def Let_def split: option.splits list.splits)

lemma is_resting_spec:
  "same_books P (fst (is_resting e now model c P))"
  "snd (is_resting e now model c P) = at_rest e now model P c"
  "rest_end now x scope (fst (is_resting e now model c P)) = rest_end now x scope P"
proof -
  let ?Q = "fst (is_throttled now (sr_id c) P)"
  note t = throttled_spec [where P = P and now = now and s = "sr_id c"]
  note r = scope_resting_spec [where P = ?Q and now = now and s = "sr_id c"
      and scope = "scope_key e (sr_layer c) model"]
  have d: "is_resting e now model c P = (if snd (is_throttled now (sr_id c) P) then (?Q, True)
      else scope_resting now (sr_id c) (scope_key e (sr_layer c) model) ?Q)"
    by (simp add: is_resting_def split: prod.split)
  show "same_books P (fst (is_resting e now model c P))"
    using t(1) r(1) by (auto simp: d intro: same_books_trans)
  show "snd (is_resting e now model c P) = at_rest e now model P c"
    by (simp add: d t(2,3) r(3) at_rest_def rest_end_iff del: not_None_eq)
  show "rest_end now x scope (fst (is_resting e now model c P)) = rest_end now x scope P"
    by (simp add: d t(4) scope_resting_spec(4))
qed

lemma at_rest_lapsed: "at_rest e now model (fst (is_resting e now model c P)) d = at_rest e now model P d"
  by (simp add: at_rest_def is_resting_spec(3))

lemma resting_ids_spec:
  "same_books P (fst (resting_ids e now model cs P)) \<and>
   snd (resting_ids e now model cs P) = map sr_id (filter (at_rest e now model P) cs)"
proof (induction cs arbitrary: P)
  case (Cons c cs)
  have "filter (at_rest e now model (fst (is_resting e now model c P))) cs = filter (at_rest e now model P) cs"
    by (simp add: at_rest_lapsed [abs_def] cong: filter_cong)
  with Cons [of "fst (is_resting e now model c P)"] is_resting_spec(1,2) [where P = P and e = e and now = now
      and model = model and c = c] show ?case
    by (auto simp: Let_def split: prod.split intro: same_books_trans)
qed simp

lemma out_for_spec:
  "same_books P (fst (out_for e now c model P))"
  by (auto simp: out_for_def scope_resting_spec)

lemma others_serve_books: "same_books P (fst (others_serve e now s allowed model cs P))"
proof (induction cs arbitrary: P)
  case (Cons c cs)
  show ?case
    using Cons [of P] same_books_trans [OF out_for_spec [where e = e and now = now and c = c and model = model and P = P]
        Cons [of "fst (out_for e now c model P)"]]
    by (auto simp: Let_def split: prod.split)
qed simp

lemma scan_books: "same_books P (fst (scan_bindings e scope rows P))"
proof (induction rows arbitrary: P)
  case (Cons kv rows)
  have "same_books P (P\<lparr>bindings := x\<rparr>)" for x by (simp add: same_books_def)
  with Cons show ?case by (cases kv) (auto intro: same_books_trans)
qed simp

lemma sticky_books: "same_books P (fst (sticky_subscription_id e now scope P))"
proof -
  have "same_books Q (fst (persisted_sticky e scope Q))" for Q
    by (auto simp: persisted_sticky_def scan_books)
  moreover have "same_books P (P\<lparr>scope_recent := x\<rparr>)" for x by (simp add: same_books_def)
  ultimately show ?thesis
    by (auto simp: sticky_subscription_id_def split: option.split intro: same_books_trans)
qed

section \<open>Who is chosen\<close>

lemma find_sorted:
  assumes "find Q (sort_key f xs) = Some x"
  shows "x \<in> set xs \<and> Q x \<and> (\<forall>y\<in>set xs. Q y \<longrightarrow> f x \<le> f y)"
proof -
  have m: "find Q ys = Some x \<Longrightarrow> sorted (map f ys) \<Longrightarrow> x \<in> set ys \<and> Q x \<and> (\<forall>y\<in>set ys. Q y \<longrightarrow> f x \<le> f y)" for ys
    by (induction ys) (auto split: if_splits)
  from m [OF assms sorted_sort_key] show ?thesis by simp
qed

definition fresh :: "pool_env \<Rightarrow> int \<Rightarrow> string \<Rightarrow> pool \<Rightarrow> sub_row \<Rightarrow> bool" where
  "fresh e now model P c = (\<not> at_rest e now model P c \<and> \<not> window_exhausted_for e c model)"

lemma select_order_spec:
  assumes "distinct (map sr_id cands)"
  shows "same_books P (fst (select_order e now cands allowed model P)) \<and>
    snd (select_order e now cands allowed model P) =
      (let ok = filter (auth_allowed allowed) cands; P1 = fst (resting_ids e now model ok P) in
       if filter (fresh e now model P) ok = [] then sort_key (order_key e now model True P1) ok
       else sort_key (order_key e now model False P) (filter (fresh e now model P) ok))"
proof -
  let ?ok = "filter (auth_allowed allowed) cands"
  have i: "inj_on sr_id (set ?ok)" using assms by (auto simp: distinct_map inj_on_def)
  have f: "filter (\<lambda>c. sr_id c \<notin> set (map sr_id (filter (at_rest e now model P) ?ok)) \<and>
      sr_id c \<notin> set (map sr_id (filter (\<lambda>c. window_exhausted_for e c model) ?ok))) ?ok = filter (fresh e now model P) ?ok"
    using i by (intro filter_cong) (auto simp: fresh_def inj_on_def)
  obtain P1 ids where i: "resting_ids e now model ?ok P = (P1, ids)" by fastforce
  have k: "order_key e now model False P1 = order_key e now model False P"
    by (simp add: order_key_def order_instant_def fun_eq_iff)
  from resting_ids_spec [of P e now model ?ok] f k i show ?thesis
    by (simp add: select_order_def Let_def del: filter_filter)
qed

lemma select_order_set: "set (snd (select_order e now cands allowed model P)) \<subseteq> {c \<in> set cands. auth_allowed allowed c}"
  by (auto simp: select_order_def Let_def split: prod.splits)

lemma select_order_books: "same_books P (fst (select_order e now cands allowed model P))"
  using resting_ids_spec by (auto simp: select_order_def Let_def split: prod.split) (metis fst_conv)+

lemma select_one_Some:
  assumes "select_one e now cands allowed model P = (P', Some h)"
  shows "\<exists>c\<in>set cands. auth_allowed allowed c \<and> h = build_handle e c \<and> usable h"
proof -
  from assms obtain c where "find (\<lambda>c. usable (build_handle e c)) (snd (select_order e now cands allowed model P)) = Some c"
    "h = build_handle e c"
    by (auto simp: select_one_def Let_def split: prod.splits option.splits)
  with select_order_set show ?thesis by (fastforce simp: find_Some_iff dest: nth_mem)
qed

lemma build_handle_fields [simp]: "h_id (build_handle e c) = sr_id c" "h_auth (build_handle e c) = sr_auth c"
  by (simp_all add: build_handle_def split: prod.split)

text \<open>C34. The pool drains first what is lost first: the account a selection takes is one the caller may use and that has
  credentials; while any such candidate is neither resting nor out of window, it is one of those, and the first
  with credentials in the order of the credential's own kind before the relay, the soonest reset of its quota
  window, and the least consumed.\<close>

theorem drains_what_is_lost_first:
  assumes "select_one e now cands allowed model P = (P', Some h)" and "distinct (map sr_id cands)"
  shows "\<exists>c\<in>set cands. h = build_handle e c \<and> auth_allowed allowed c \<and> usable h \<and>
    ((\<exists>d\<in>set cands. auth_allowed allowed d \<and> fresh e now model P d) \<longrightarrow>
       fresh e now model P c \<and>
       (\<forall>d\<in>set cands. auth_allowed allowed d \<and> fresh e now model P d \<and> usable (build_handle e d) \<longrightarrow>
          order_key e now model False P c \<le> order_key e now model False P d))"
proof -
  from assms(1) obtain c where f: "find (\<lambda>c. usable (build_handle e c)) (snd (select_order e now cands allowed model P)) = Some c"
    and h: "h = build_handle e c"
    by (auto simp: select_one_def Let_def split: prod.splits option.splits)
  let ?ok = "filter (auth_allowed allowed) cands"
  show ?thesis
  proof (cases "filter (fresh e now model P) ?ok = []")
    case True
    with f select_order_spec [OF assms(2), of P e now allowed model]
    have "find (\<lambda>c. usable (build_handle e c))
        (sort_key (order_key e now model True (fst (resting_ids e now model ?ok P))) ?ok) = Some c"
      by (simp add: Let_def del: filter_filter)
    from find_sorted [OF this] h have "c \<in> set cands" "auth_allowed allowed c" "usable h" by auto
    moreover from True have "\<not> (\<exists>d\<in>set cands. auth_allowed allowed d \<and> fresh e now model P d)"
      by (auto simp: filter_empty_conv)
    ultimately show ?thesis using h by blast
  next
    case False
    with f select_order_spec [OF assms(2), of P e now allowed model]
    have "find (\<lambda>c. usable (build_handle e c))
        (sort_key (order_key e now model False P) (filter (fresh e now model P) ?ok)) = Some c"
      by (simp add: Let_def del: filter_filter)
    from find_sorted [OF this] h show ?thesis by auto
  qed
qed


section \<open>Whose account a spawn runs on\<close>

lemma sticky_match_in: "filter Q xs = c # cs \<Longrightarrow> set (c # cs) \<subseteq> set xs"
  by (metis filter_is_subset)

lemma select_sticky_Some:
  assumes "select_sticky e now scope cands allowed model P = (P', Some h)"
  shows "\<exists>c\<in>set cands. auth_allowed allowed c \<and> h = build_handle e c \<and> usable h"
proof -
  from assms obtain c cs Q where f: "set (c # cs) \<subseteq> set cands"
    and o: "select_one e now (c # cs) allowed model Q = (P', Some h)"
    by (auto simp: select_sticky_def Let_def split: if_splits prod.splits option.splits list.splits dest!: sticky_match_in)
  from select_one_Some [OF o] f show ?thesis by blast
qed

lemma select_either_Some:
  assumes "select_either e now scope cands allowed model P = (P', Some h)"
  shows "\<exists>c\<in>set cands. auth_allowed allowed c \<and> h = build_handle e c \<and> usable h"
  using assms by (auto simp: select_either_def split: prod.splits option.splits dest: select_sticky_Some select_one_Some)

lemma set_rows_without_login [simp]: "set (rows_without_login rows) = {c \<in> set rows. sr_auth c \<noteq> ''oauth''}"
  by (auto simp: rows_without_login_def)

lemma auth_borrowable:
  "auth_allowed (Some (borrowable allowed)) c \<longleftrightarrow> auth_allowed allowed c \<and> sr_auth c \<in> set USER_BORROWABLE_AUTH_TYPES"
  by (auto simp: auth_allowed_def borrowable_def split: option.splits)

lemma borrowable_not_login: "a \<in> set USER_BORROWABLE_AUTH_TYPES \<Longrightarrow> a \<noteq> ''oauth''"
  by (auto simp: USER_BORROWABLE_AUTH_TYPES_def)

text \<open>The account a scope may run on: the person's own, or a borrowable one of the platform; the platform's for an agent.\<close>

definition may_run_on :: "pool_env \<Rightarrow> string \<Rightarrow> string \<Rightarrow> string \<Rightarrow> sub_row \<Rightarrow> bool" where
  "may_run_on e layer user provider c =
     (if user \<noteq> [] then
        c \<in> set (env_personal e layer user provider) \<or>
        (env_platform_auth e user \<and> c \<in> set (env_platform e layer provider) \<and> sr_auth c \<in> set USER_BORROWABLE_AUTH_TYPES)
      else c \<in> set (env_platform e layer provider))"

definition cap_reached :: "pool_env \<Rightarrow> string \<Rightarrow> string \<Rightarrow> bool \<Rightarrow> bool" where
  "cap_reached e layer user enforce_caps =
     (enforce_caps \<and> (case cap_status_of e layer user of None \<Rightarrow> False | Some c \<Rightarrow> \<not> cap_allowed c))"

lemma user_handle_Some:
  assumes "user_handle e now layer user provider scope model drop_oauth allowed P = (P', Inr (Some h))" and "user \<noteq> []"
  shows "\<exists>c. h = build_handle e c \<and> usable h \<and> auth_allowed allowed c \<and> may_run_on e layer user provider c \<and>
    (drop_oauth \<longrightarrow> sr_auth c \<noteq> ''oauth'')"
proof -
  let ?own = "if drop_oauth then rows_without_login (env_personal e layer user provider) else env_personal e layer user provider"
  obtain P1 r where a: "select_either e now scope ?own allowed model P = (P1, r)" by fastforce
  show ?thesis
  proof (cases r)
    case (Some x)
    with assms(1) a have "x = h" by (simp add: user_handle_def Let_def)
    with select_either_Some a Some assms(2) show ?thesis
      by (fastforce simp: may_run_on_def split: if_splits)
  next
    case None
    with assms(1) a obtain P2 where "env_platform_auth e user"
      "select_either e now scope (env_platform e layer provider) (Some (borrowable allowed)) model P1 = (P2, Some h)"
      by (auto simp: user_handle_def Let_def split: if_splits prod.splits option.splits)
    with select_either_Some assms(2) show ?thesis
      by (fastforce simp: may_run_on_def auth_borrowable dest: borrowable_not_login)
  qed
qed

lemma agent_handle_Some:
  assumes "agent_handle e now layer provider scope model drop_oauth allowed P = (P', Inr (Some h))"
  shows "\<exists>c. h = build_handle e c \<and> usable h \<and> auth_allowed allowed c \<and> may_run_on e layer [] provider c \<and>
    (drop_oauth \<longrightarrow> sr_auth c \<noteq> ''oauth'')"
  using assms
  by (fastforce simp: agent_handle_def Let_def may_run_on_def split: prod.splits if_splits dest: select_either_Some)

text \<open>C17. A person's spawn never runs on another's vendor login: an acquired account has credentials and is of a type
  the caller allows; for a person it is one of their own, or, with the platform's authentication switched on, a
  key, relay or local endpoint of the platform; for an agent it is the platform's; and past a reached cap it is
  never a vendor login.\<close>

theorem never_borrows_login:
  assumes "acquire_subscription e now layer user_sub provider scope model enforce_caps allowed P = (P', Inr (Some h))"
  shows "\<exists>c. h = build_handle e c \<and> usable h \<and> auth_allowed allowed c \<and>
    may_run_on e layer (opt_str user_sub) provider c \<and>
    (cap_reached e layer (opt_str user_sub) enforce_caps \<longrightarrow> sr_auth c \<noteq> ''oauth'')"
proof -
  let ?hit = "cap_reached e layer (opt_str user_sub) enforce_caps"
  have hit: "(case (if enforce_caps then cap_status_of e layer (opt_str user_sub) else None) of
      None \<Rightarrow> False | Some c \<Rightarrow> \<not> cap_allowed c) = ?hit"
    by (simp add: cap_reached_def)
  show ?thesis
  proof (cases "opt_str user_sub = []")
    case True
    with assms obtain P1 where "agent_handle e now layer provider scope model ?hit allowed P = (P1, Inr (Some h))"
      unfolding acquire_subscription_def Let_def hit
      by (auto split: if_splits prod.splits sum.splits option.splits)
    from agent_handle_Some [OF this] True show ?thesis by simp
  next
    case False
    with assms obtain P1 where "user_handle e now layer (opt_str user_sub) provider scope model ?hit allowed P = (P1, Inr (Some h))"
      unfolding acquire_subscription_def Let_def hit
      by (auto split: if_splits prod.splits sum.splits option.splits)
    from user_handle_Some [OF this False] show ?thesis .
  qed
qed

text \<open>A pool of two accounts: one's own login whose quota is full, and a key of the platform.\<close>

definition demo_pool :: pool where
  "demo_pool = \<lparr>throttled_until = [], throttled_hard = [], window_rests = [], scoped_rests = [], session_subs = [],
     binding_ctx = [], scope_keys = [], scope_recent = [], bindings = [], seats = [(''own'', 0), (''key'', 0)]\<rparr>"

definition demo_own :: sub_row where
  "demo_own = \<lparr>sr_id = ''own'', sr_layer = ''claude-code-cli'', sr_provider = ''anthropic'', sr_auth = ''oauth''\<rparr>"

definition demo_key :: sub_row where
  "demo_key = \<lparr>sr_id = ''key'', sr_layer = ''claude-code-cli'', sr_provider = ''anthropic'', sr_auth = ''api_key''\<rparr>"

definition demo_env :: pool_env where
  "demo_env = \<lparr>
     env_personal = (\<lambda>_ u _. if u = ''ann'' then [demo_own] else []), env_platform = (\<lambda>_ _. [demo_key]),
     env_platform_auth = (\<lambda>_. True), env_windows_on = True,
     env_reading = (\<lambda>s. if s = ''own'' then Some demo_reading else None), env_scope_key = (\<lambda>_ m. m),
     env_consumption = (\<lambda>_. (0, 0)), env_credential = (\<lambda>_. (None, Some ''token'', None)),
     env_cap = (\<lambda>_ _ _. Some \<lparr>cap_allowed = False, cap_on_reached = ''continue''\<rparr>), env_live = (\<lambda>_. Some False),
     env_boot_grace = False\<rparr>"

lemma demo_acquired:
  "acquire_subscription demo_env 0 ''claude-code-cli'' (Some ''ann'') [] ''local:/w'' [] True None demo_pool =
     (fst (acquire_subscription demo_env 0 ''claude-code-cli'' (Some ''ann'') [] ''local:/w'' [] True None demo_pool),
      Inr (Some (build_handle demo_env demo_key)))"
  by code_simp

theorem never_borrows_login_witness:
  "\<exists>c. build_handle demo_env demo_key = build_handle demo_env c \<and> usable (build_handle demo_env demo_key) \<and>
     auth_allowed None c \<and> may_run_on demo_env ''claude-code-cli'' (opt_str (Some ''ann'')) [] c \<and>
     (cap_reached demo_env ''claude-code-cli'' (opt_str (Some ''ann'')) True \<longrightarrow> sr_auth c \<noteq> ''oauth'')"
  by (rule never_borrows_login [OF demo_acquired])

theorem drains_what_is_lost_first_witness:
  "\<exists>c\<in>set [demo_own, demo_key]. build_handle demo_env demo_key = build_handle demo_env c \<and> auth_allowed None c \<and>
     usable (build_handle demo_env demo_key) \<and>
     ((\<exists>d\<in>set [demo_own, demo_key]. auth_allowed None d \<and> fresh demo_env 0 ''opus'' demo_pool d) \<longrightarrow>
        fresh demo_env 0 ''opus'' demo_pool c \<and>
        (\<forall>d\<in>set [demo_own, demo_key]. auth_allowed None d \<and> fresh demo_env 0 ''opus'' demo_pool d \<and>
           usable (build_handle demo_env d) \<longrightarrow>
           order_key demo_env 0 ''opus'' False demo_pool c \<le> order_key demo_env 0 ''opus'' False demo_pool d))"
proof (rule drains_what_is_lost_first)
  show "select_one demo_env 0 [demo_own, demo_key] None ''opus'' demo_pool =
      (fst (select_one demo_env 0 [demo_own, demo_key] None ''opus'' demo_pool), Some (build_handle demo_env demo_key))"
    by code_simp
  show "distinct (map sr_id [demo_own, demo_key])" by code_simp
qed


section \<open>The seats\<close>

definition bound :: "string \<Rightarrow> (string \<times> string) list \<Rightarrow> nat" where
  "bound s kvs = length (filter (\<lambda>kv. snd kv = s) kvs)"

lemma bound_del:
  "distinct (keys kvs) \<Longrightarrow> bound s (dict_del k kvs) + (if lookup kvs k = Some s then 1 else 0) = bound s kvs"
proof (induction kvs)
  case (Cons kv kvs)
  show ?case
  proof (cases "fst kv = k")
    case True
    with Cons.prems have "dict_del k (kv # kvs) = kvs" using dict_del_absent [of k kvs] by (auto simp: dict_del_def)
    with True show ?thesis by (cases kv) (auto simp: bound_def)
  next
    case False
    with Cons show ?thesis by (cases kv) (auto simp: bound_def dict_del_def)
  qed
qed (simp add: bound_def dict_del_def)

lemma bound_set:
  "distinct (keys kvs) \<Longrightarrow>
    bound s (dict_set k v kvs) + (if lookup kvs k = Some s then 1 else 0) = bound s kvs + (if v = s then 1 else 0)"
proof (induction k v kvs rule: dict_set.induct)
  case (2 k v a w kvs)
  then show ?case by (cases "a = k") (auto simp: bound_def)
qed (simp add: bound_def)

text \<open>What the accounts count and what they should: \<open>U\<close> are the acquired seats no session is bound to.\<close>

definition owed :: "pool \<Rightarrow> string multiset \<Rightarrow> string \<Rightarrow> nat" where
  "owed P U s = bound s (session_subs P) + count U s"

definition counts :: "bool \<Rightarrow> pool \<Rightarrow> string multiset \<Rightarrow> bool" where
  "counts lowered P U \<longleftrightarrow> distinct (keys (session_subs P)) \<and>
     (\<forall>s n. s \<noteq> [] \<longrightarrow> lookup (seats P) s = Some n \<longrightarrow> (if lowered then n \<le> owed P U s else n = owed P U s))"

lemma lookup_set_seats:
  "lookup (seats (set_seats a f P)) s = (if s = a then map_option f (lookup (seats P) s) else lookup (seats P) s)"
  by (auto simp: set_seats_def split: option.split)

lemma set_seats_subs [simp]: "session_subs (set_seats a f P) = session_subs P"
  by (simp add: set_seats_def split: option.split)

lemma seat_writes_subs [simp]:
  "session_subs (increment_active_sessions a P) = session_subs P"
  "session_subs (decrement_active_sessions a P) = session_subs P"
  "session_subs (lower_active_sessions a n P) = session_subs P"
  by (simp_all add: increment_active_sessions_def decrement_active_sessions_def lower_active_sessions_def)

lemmas seat_lookups = increment_active_sessions_def decrement_active_sessions_def lower_active_sessions_def lookup_set_seats

lemma counts_books: "counts r P U \<Longrightarrow> same_books P P' \<Longrightarrow> counts r P' U"
  by (cases r) (auto simp: counts_def same_books_def owed_def)

lemma counts_increment:
  "counts r P U \<Longrightarrow> counts r (increment_active_sessions a P) (add_mset a U)"
  by (auto simp: counts_def owed_def seat_lookups split: if_splits)

lemma counts_decrement:
  assumes "counts r P U" and "distinct (keys (session_subs Q))" and "seats Q = seats P"
    and "\<And>s. s \<noteq> [] \<Longrightarrow> owed Q V s + (if s = a then 1 else 0) = owed P U s"
  shows "counts r (decrement_active_sessions a Q) V"
  unfolding counts_def
proof (intro conjI allI impI)
  fix s n assume s: "s \<noteq> []" and n: "lookup (seats (decrement_active_sessions a Q)) s = Some n"
  then obtain m where m: "lookup (seats P) s = Some m" "n = (if s = a then m - 1 else m)"
    using assms(3) by (auto simp: seat_lookups split: if_splits)
  have "if r then m \<le> owed P U s else m = owed P U s" using assms(1) s m(1) by (simp add: counts_def)
  moreover have "owed (decrement_active_sessions a Q) V s = owed Q V s" by (simp add: owed_def)
  ultimately show "if r then n \<le> owed (decrement_active_sessions a Q) V s else n = owed (decrement_active_sessions a Q) V s"
    using assms(4) [OF s] m(2) by (auto split: if_splits)
qed (use assms(2) in simp)

section \<open>The operations on the seats\<close>

lemma select_one_counts:
  assumes "counts r P U" "select_one e now cands allowed model P = (P', h)"
  shows "counts r P' (case h of None \<Rightarrow> U | Some x \<Rightarrow> add_mset (h_id x) U)"
proof -
  obtain P1 order where o: "select_order e now cands allowed model P = (P1, order)" by fastforce
  with select_order_books [of P e now cands allowed model] counts_books [OF assms(1)] have c: "counts r P1 U" by simp
  from assms(2) o c counts_increment [OF c] show ?thesis
    by (auto simp: select_one_def split: option.splits)
qed

lemma others_out_books:
  "same_books P (fst (if b then others_serve e now s allowed model cs P else (P, False)))"
  by (simp add: others_serve_books)

lemma select_sticky_counts:
  assumes "counts r P U" "select_sticky e now scope cands allowed model P = (P', h)"
  shows "counts r P' (case h of None \<Rightarrow> U | Some x \<Rightarrow> add_mset (h_id x) U)"
proof (cases "scope = []")
  case False
  obtain P1 pin where s: "sticky_subscription_id e now scope P = (P1, pin)" by fastforce
  with sticky_books [of P e now scope] counts_books [OF assms(1)] have c1: "counts r P1 U" by simp
  show ?thesis
  proof (cases "pin = None \<or> filter (\<lambda>c. sr_id c = the pin) cands = []")
    case True
    with assms(2) s c1 False show ?thesis by (auto simp: select_sticky_def split: option.splits)
  next
    case F: False
    then obtain p c match where p: "pin = Some p" "filter (\<lambda>c. sr_id c = p) cands = c # match"
      by (auto simp: neq_Nil_conv)
    obtain P2 out where o: "out_for e now c model P1 = (P2, out)" by fastforce
    with out_for_spec [of P1 e now c model] counts_books [OF c1] have c2: "counts r P2 U" by simp
    obtain P3 others where t: "(if out then others_serve e now p allowed model cands P2 else (P2, False)) = (P3, others)"
      by fastforce
    with others_out_books [of P2 out e now p allowed model cands] counts_books [OF c2] have c3: "counts r P3 U" by simp
    from assms(2) s p o t False
    have "(P', h) = (if out \<and> others then (P3, None) else select_one e now (c # match) allowed model P3)"
      by (simp add: select_sticky_def)
    with c3 select_one_counts [OF c3] show ?thesis by (auto split: if_splits)
  qed
qed (use assms in \<open>simp add: select_sticky_def\<close>)

lemma select_either_counts:
  assumes "counts r P U" "select_either e now scope cands allowed model P = (P', h)"
  shows "counts r P' (case h of None \<Rightarrow> U | Some x \<Rightarrow> add_mset (h_id x) U)"
proof -
  obtain P1 h1 where s: "select_sticky e now scope cands allowed model P = (P1, h1)" by fastforce
  note c = select_sticky_counts [OF assms(1) s]
  show ?thesis
  proof (cases h1)
    case None
    with c assms(2) s show ?thesis by (auto simp: select_either_def dest: select_one_counts)
  next
    case (Some x)
    with c assms(2) s show ?thesis by (auto simp: select_either_def)
  qed
qed

text \<open>What an acquisition leaves out: the seat of the account it hands over, none where it refuses.\<close>

definition taken :: "pool_error + handle option \<Rightarrow> string multiset" where
  "taken r = (case r of Inr (Some h) \<Rightarrow> {#h_id h#} | _ \<Rightarrow> {#})"

lemma user_handle_counts:
  assumes "counts r P U" "user_handle e now layer user provider scope model drop_oauth allowed P = (P', res)"
  shows "counts r P' (U + taken res)"
proof -
  let ?own = "if drop_oauth then rows_without_login (env_personal e layer user provider) else env_personal e layer user provider"
  obtain P1 h1 where a: "select_either e now scope ?own allowed model P = (P1, h1)" by fastforce
  note c = select_either_counts [OF assms(1) a]
  show ?thesis
  proof (cases "h1 = None \<and> env_platform_auth e user")
    case False
    with assms(2) a c show ?thesis by (auto simp: user_handle_def Let_def taken_def split: option.splits)
  next
    case True
    obtain P2 h2 where b: "select_either e now scope (env_platform e layer provider) (Some (borrowable allowed)) model P1 = (P2, h2)"
      by fastforce
    from c True have "counts r P1 U" by simp
    note d = select_either_counts [OF this b]
    have "h_auth x \<in> set USER_BORROWABLE_AUTH_TYPES" if "h2 = Some x" for x
      using select_either_Some b that by (fastforce simp: auth_borrowable)
    with assms(2) a b True d show ?thesis
      by (auto simp: user_handle_def Let_def taken_def split: option.splits)
  qed
qed

lemma agent_handle_counts:
  assumes "counts r P U" "agent_handle e now layer provider scope model drop_oauth allowed P = (P', res)"
  shows "counts r P' (U + taken res)"
  using assms(2) select_either_counts [OF assms(1)]
  by (fastforce simp: agent_handle_def Let_def taken_def split: prod.splits option.splits)

lemma acquire_counts:
  assumes "counts r P U"
    and "acquire_subscription e now layer user_sub provider scope model enforce_caps allowed P = (P', res)"
  shows "counts r P' (U + taken res)"
proof -
  define hit where "hit = cap_reached e layer (opt_str user_sub) enforce_caps"
  obtain P1 got where g: "(if opt_str user_sub \<noteq> [] then user_handle e now layer (opt_str user_sub) provider scope model hit allowed P
     else agent_handle e now layer provider scope model hit allowed P) = (P1, got)" by fastforce
  have c: "counts r P1 (U + taken got)"
    using g user_handle_counts [OF assms(1)] agent_handle_counts [OF assms(1)] by (auto split: if_splits)
  have k: "counts r (commit_scope now scope i (fst (sticky_subscription_id e now scope P1))) V" if "counts r P1 V" for i V
    by (rule counts_books [OF counts_books [OF that sticky_books]]) (simp add: commit_scope_def same_books_def)
  have h: "(case (if enforce_caps then cap_status_of e layer (opt_str user_sub) else None) of
      None \<Rightarrow> False | Some c \<Rightarrow> \<not> cap_allowed c) = hit"
    by (simp add: hit_def cap_reached_def)
  from assms c k show ?thesis
    unfolding acquire_subscription_def Let_def h g
    by (auto simp: taken_def split: if_splits sum.splits option.splits)
qed


lemma bind_counts:
  assumes "counts r P U" "s \<in># U"
  shows "counts r (bind_session sid s layer user scope P) (U - {#s#})"
proof -
  let ?prior = "opt_str (lookup (session_subs P) sid)"
  let ?Q = "bind_session sid s layer user scope P"
  have d: "distinct (keys (session_subs P))" using assms(1) by (simp add: counts_def)
  define B where "B = dict_set sid s (session_subs P)"
  have o: "bound x B + count (U - {#s#}) x + (if x = ?prior then 1 else 0) = owed P U x" if "x \<noteq> []" for x
    using bound_set [OF d, of x sid s] assms(2) that
    by (cases "lookup (session_subs P) sid") (auto simp: owed_def B_def not_in_iff opt_str_def)
  obtain P2 where P2: "?Q = (if ?prior \<noteq> [] then decrement_active_sessions ?prior P2 else P2)"
    "session_subs P2 = B" "seats P2 = seats P"
    by (simp add: bind_session_def Let_def upsert_binding_def B_def)
  have dB: "distinct (keys B)" using d by (simp add: B_def)
  show ?thesis
  proof (cases "?prior = []")
    case True
    then show ?thesis using assms(1) o P2 dB by (cases r) (auto simp: counts_def owed_def)
  next
    case False
    have "counts r (decrement_active_sessions ?prior P2) (U - {#s#})"
      by (rule counts_decrement [OF assms(1)]) (use P2 dB o in \<open>auto simp: owed_def\<close>)
    with False P2(1) show ?thesis by simp
  qed
qed

lemma release_counts:
  assumes "counts r P U"
  shows "counts r (release_subscription sid P) U"
proof -
  let ?s = "opt_str (lookup (session_subs P) sid)"
  have d: "distinct (keys (session_subs P))" using assms by (simp add: counts_def)
  have o: "bound x (dict_del sid (session_subs P)) + count U x + (if x = ?s then 1 else 0) = owed P U x" if "x \<noteq> []" for x
    using bound_del [OF d, of x sid] that
    by (cases "lookup (session_subs P) sid") (auto simp: owed_def opt_str_def)
  obtain P2 where P2: "release_subscription sid P = (if ?s \<noteq> [] then decrement_active_sessions ?s P2 else P2)"
    "session_subs P2 = dict_del sid (session_subs P)" "seats P2 = seats P"
    by (simp add: release_subscription_def Let_def)
  show ?thesis
  proof (cases "?s = []")
    case True
    then show ?thesis using assms o P2 distinct_dict_del [OF d] by (cases r) (auto simp: counts_def owed_def)
  next
    case False
    have "counts r (decrement_active_sessions ?s P2) U"
      by (rule counts_decrement [OF assms]) (use P2 distinct_dict_del [OF d] o in \<open>auto simp: owed_def\<close>)
    with False P2(1) show ?thesis by simp
  qed
qed

lemma release_unbound_counts:
  assumes "counts r P U" "s \<in># U"
  shows "counts r (release_unbound_seat s scope P) (U - {#s#})"
proof (cases "s = []")
  case True
  with assms show ?thesis by (cases r) (auto simp: release_unbound_seat_def counts_def owed_def)
next
  case False
  have "counts r (decrement_active_sessions s (P\<lparr>scope_recent := x\<rparr>)) (U - {#s#})" for x
    by (rule counts_decrement [OF assms(1)]) (use assms in \<open>auto simp: owed_def counts_def not_in_iff\<close>)
  with False show ?thesis by (simp add: release_unbound_seat_def)
qed

lemma restore_counts:
  assumes "counts r P U"
  shows "counts r (restore_session_binding sid P) U"
proof -
  have "counts r (increment_active_sessions s (bind_session sid s layer user scope P)) U"
    if p: "opt_str (lookup (session_subs P) sid) = []" for s layer user scope
  proof -
    have d: "distinct (keys (session_subs P))" using assms by (simp add: counts_def)
    let ?Q = "bind_session sid s layer user scope P"
    have Q: "session_subs ?Q = dict_set sid s (session_subs P)" "seats ?Q = seats P"
      using p by (simp_all add: bind_session_def Let_def upsert_binding_def)
    have "owed ?Q U x = owed P U x + (if x = s then 1 else 0)" if "x \<noteq> []" for x
      using bound_set [OF d, of x sid s] p that
      by (cases "lookup (session_subs P) sid") (auto simp: owed_def Q opt_str_def)
    with assms d show ?thesis by (cases r) (auto simp: counts_def Q owed_def seat_lookups split: if_splits)
  qed
  with assms show ?thesis by (auto simp: restore_session_binding_def split: option.split)
qed

lemma rehome_counts:
  assumes "counts r P U"
  shows "counts r (rehome sid old new P) U"
proof (cases "lookup (session_subs P) sid = Some old")
  case True
  have d: "distinct (keys (session_subs P))" using assms by (simp add: counts_def)
  let ?P1 = "P\<lparr>session_subs := dict_set sid new (session_subs P)\<rparr>"
  let ?Q = "increment_active_sessions new ?P1"
  have i: "counts r (increment_active_sessions new P) (add_mset new U)" using counts_increment [OF assms] .
  have seats: "seats ?Q = seats (increment_active_sessions new P)"
    by (simp add: increment_active_sessions_def set_seats_def split: option.split)
  have "owed ?Q U x + (if x = old then 1 else 0) = owed (increment_active_sessions new P) (add_mset new U) x" for x
    using bound_set [OF d, of x sid new] True by (auto simp: owed_def split: if_splits)
  then have "counts r (decrement_active_sessions old ?Q) U"
    by (intro counts_decrement [OF i _ seats]) (use d in simp_all)
  moreover have "counts r (Q\<lparr>bindings := b\<rparr>) U" if "counts r Q U" for Q b
    using that by (cases r) (auto simp: counts_def owed_def)
  ultimately show ?thesis using True by (cases "sid = []") (simp_all add: rehome_def move_seat_def Let_def)
qed (use assms in \<open>simp add: rehome_def\<close>)

lemma reboot_counts: "counts r (reboot P) {#}"
proof -
  have "lookup (map (\<lambda>(s, _). (s, 0)) kvs) s = Some n \<Longrightarrow> n = 0" for kvs :: "(string \<times> nat) list" and s n
    by (induction kvs) (auto split: if_splits)
  then show ?thesis by (cases r) (auto simp: counts_def reboot_def reset_active_sessions_def owed_def bound_def)
qed

lemma lower_counts:
  assumes "counts True P U"
  shows "counts True (lower_active_sessions s n P) U"
  using assms by (fastforce simp: counts_def owed_def seat_lookups split: if_splits)


text \<open>The protocol of the pool: what a process does to the seats after it starts, with the acquired seats still
  unbound. The reconciliation lowers a counter and is in it only where \<open>lowers\<close> is set.\<close>

inductive pool_reachable :: "bool \<Rightarrow> pool \<Rightarrow> string multiset \<Rightarrow> bool" for lowers :: bool where
  Start: "pool_reachable lowers (reboot P) {#}"
| Acquire: "pool_reachable lowers P U \<Longrightarrow>
    acquire_subscription e now layer user_sub provider scope model enforce_caps allowed P = (P', res) \<Longrightarrow>
    pool_reachable lowers P' (U + taken res)"
| Bind: "pool_reachable lowers P U \<Longrightarrow> s \<in># U \<Longrightarrow>
    pool_reachable lowers (bind_session sid s layer user scope P) (U - {#s#})"
| Unbound: "pool_reachable lowers P U \<Longrightarrow> s \<in># U \<Longrightarrow>
    pool_reachable lowers (release_unbound_seat s scope P) (U - {#s#})"
| Release: "pool_reachable lowers P U \<Longrightarrow> pool_reachable lowers (release_subscription sid P) U"
| Restore: "pool_reachable lowers P U \<Longrightarrow> pool_reachable lowers (restore_session_binding sid P) U"
| Rehome: "pool_reachable lowers P U \<Longrightarrow> pool_reachable lowers (rehome sid old new P) U"
| Rest: "pool_reachable lowers P U \<Longrightarrow> pool_reachable lowers (rest_after_limit now declared sid ending P) U"
| Clear: "pool_reachable lowers P U \<Longrightarrow> pool_reachable lowers (clear_rests_with_headroom s reading P) U"
| Lower: "pool_reachable lowers P U \<Longrightarrow> lowers \<Longrightarrow>
    pool_reachable lowers (fst (reconcile_active_sessions e now s P)) U"

lemma rest_account_books: "same_books P (fst (rest_account now s until win P))"
  by (simp add: rest_account_def same_books_def)

lemma mark_throttled_books: "same_books P (mark_subscription_throttled now sid c P)"
  using rest_account_books [of P now _ "now + c" "[]"]
  by (auto simp: mark_subscription_throttled_def same_books_def Let_def split: option.split)

lemma rest_until_reset_books: "same_books P (fst (rest_until_reset now declared sid win resets P))"
proof -
  have "same_books P ((fst (rest_account now s until win P))\<lparr>throttled_hard := h\<rparr>)" for s until h
    using rest_account_books [of P now s until win] by (simp add: same_books_def)
  moreover have "same_books P (P\<lparr>scoped_rests := h\<rparr>)" for h by (simp add: same_books_def)
  ultimately show ?thesis by (auto simp: rest_until_reset_def Let_def split: option.split)
qed

lemma rest_after_limit_books: "same_books P (rest_after_limit now declared sid ending P)"
  using rest_until_reset_books mark_throttled_books
  by (auto simp: rest_after_limit_def Let_def split: turn_end.split option.split prod.split intro: same_books_trans)
    (metis fst_conv mark_throttled_books rest_until_reset_books same_books_trans)+

lemma clear_rests_books: "same_books P (clear_rests_with_headroom s reading P)"
  by (auto simp: clear_rests_with_headroom_def same_books_def end_rest_def Let_def split: option.split)

lemma reachable_counts: "pool_reachable lowers P U \<Longrightarrow> counts lowers P U"
proof (induction rule: pool_reachable.induct)
  case (Lower P U e now s)
  then show ?case by (simp add: reconcile_active_sessions_def Let_def lower_counts)
qed (auto intro: reboot_counts acquire_counts bind_counts release_unbound_counts release_counts restore_counts
    rehome_counts counts_books [OF _ rest_after_limit_books] counts_books [OF _ clear_rests_books])

text \<open>C18. The counter of an account is its seats: from a start of the process, over every order of acquisitions, binds,
  re-binds, releases, restores and moves of sessions, each account counts the live sessions bound to it and the
  seats acquired for a spawn that has not bound yet, neither leaking a seat nor giving one up twice; with the
  reconciliation among them it never counts more.\<close>

theorem seats_balance:
  assumes "pool_reachable lowers P U" and "lookup (seats P) s = Some n" and "s \<noteq> []"
  shows "n \<le> bound s (session_subs P) + count U s \<and> (lowers \<or> n = bound s (session_subs P) + count U s)"
  using reachable_counts [OF assms(1)] assms(2,3) by (auto simp: counts_def owed_def split: if_splits)

definition demo_bound :: pool where
  "demo_bound = bind_session ''s1'' ''key'' ''claude-code-cli'' (Some ''ann'') ''local:/w''
     (fst (acquire_subscription demo_env 0 ''claude-code-cli'' (Some ''ann'') [] ''local:/w'' [] True None (reboot demo_pool)))"

lemma demo_bound_reachable: "pool_reachable False demo_bound {#}"
proof -
  have a: "acquire_subscription demo_env 0 ''claude-code-cli'' (Some ''ann'') [] ''local:/w'' [] True None (reboot demo_pool) =
      (fst (acquire_subscription demo_env 0 ''claude-code-cli'' (Some ''ann'') [] ''local:/w'' [] True None (reboot demo_pool)),
       Inr (Some (build_handle demo_env demo_key)))"
    by code_simp
  have "pool_reachable False demo_bound ({#} + taken (Inr (Some (build_handle demo_env demo_key))) - {#''key''#})"
    unfolding demo_bound_def
    by (rule Bind [OF Acquire [OF Start a]]) (simp add: taken_def demo_key_def)
  then show ?thesis by (simp add: taken_def demo_key_def)
qed

theorem seats_balance_witness:
  "(1::nat) \<le> bound ''key'' (session_subs demo_bound) + count {#} ''key'' \<and>
   (False \<or> 1 = bound ''key'' (session_subs demo_bound) + count {#} ''key'')"
proof (rule seats_balance [OF demo_bound_reachable])
  show "lookup (seats demo_bound) ''key'' = Some 1" by code_simp
  show "''key'' \<noteq> []" by simp
qed

section \<open>The credential scope keeps its account\<close>

lemma select_one_alone:
  assumes "auth_allowed allowed c" "usable (build_handle e c)"
  shows "snd (select_one e now [c] allowed model P) = Some (build_handle e c)"
proof -
  obtain P1 ids where "resting_ids e now model [c] P = (P1, ids)" by fastforce
  with assms show ?thesis
    by (auto simp: select_one_def select_order_def Let_def split: prod.splits)
qed

lemma sticky_kept:
  assumes "scope \<noteq> []" "snd (sticky_subscription_id e now scope P) = Some (sr_id c)"
    and "c \<in> set cands" "distinct (map sr_id cands)" "auth_allowed allowed c" "usable (build_handle e c)"
    and "\<not> snd (out_for e now c model (fst (sticky_subscription_id e now scope P)))"
  shows "snd (select_either e now scope cands allowed model P) = Some (build_handle e c)"
proof -
  have "filter (\<lambda>d. sr_id d = sr_id c) cands = [c]"
    using assms(3,4) by (induction cands) (auto simp: filter_empty_conv intro: rev_image_eqI)
  moreover obtain P1 where s: "sticky_subscription_id e now scope P = (P1, Some (sr_id c))"
    using assms(2) by (metis prod.collapse)
  moreover obtain P2 where "out_for e now c model P1 = (P2, False)" using assms(7) s by (metis fst_conv prod.collapse)
  moreover obtain P3 where "select_one e now [c] allowed model P2 = (P3, Some (build_handle e c))"
    using select_one_alone [OF assms(5,6)] by (metis prod.collapse)
  ultimately show ?thesis using assms(1) by (simp add: select_either_def select_sticky_def)
qed

text \<open>C35. A credential directory keeps its account: while a session of the scope is live on an account that is
  still among the rows of the caller (their own, the platform's for an agent; one row per id), of a type the
  caller allows, with credentials and not out for the model, and no cap is reached, a further spawn of the
  scope gets that very account, even while it rests as a whole and whatever account has more headroom.\<close>

theorem scope_keeps_account:
  assumes "live_sticky scope P = Some (sr_id c)" and "scope \<noteq> []"
    and "c \<in> set (if user = [] then env_platform e layer provider else env_personal e layer user provider)"
    and "distinct (map sr_id (if user = [] then env_platform e layer provider else env_personal e layer user provider))"
    and "auth_allowed allowed c" and "usable (build_handle e c)" and "\<not> snd (out_for e now c model P)"
    and "\<not> cap_reached e layer user enforce_caps"
  shows "\<exists>P'. acquire_subscription e now layer (Some user) provider scope model enforce_caps allowed P =
    (P', Inr (Some (build_handle e c)))"
proof -
  let ?rows = "if user = [] then env_platform e layer provider else env_personal e layer user provider"
  have st: "sticky_subscription_id e now scope P = (P, Some (sr_id c))"
    using assms(1) by (simp add: sticky_subscription_id_def)
  obtain P1 where s: "select_either e now scope ?rows allowed model P = (P1, Some (build_handle e c))"
    using sticky_kept [where P = P and cands = ?rows and e = e and c = c] st assms(2-7) by (metis fst_conv prod.collapse snd_conv)
  have h: "(case (if enforce_caps then cap_status_of e layer user else None) of
      None \<Rightarrow> False | Some c \<Rightarrow> \<not> cap_allowed c) = False"
    using assms(8) by (simp add: cap_reached_def)
  then have stop: "(case (if enforce_caps then cap_status_of e layer user else None) of
      None \<Rightarrow> False | Some c \<Rightarrow> \<not> cap_allowed c \<and> cap_on_reached c \<noteq> ''continue'') = False"
    by (auto split: option.splits)
  from s assms(2) show ?thesis
    unfolding acquire_subscription_def Let_def opt_str_simps h stop
    by (cases "user = []") (simp_all add: agent_handle_def user_handle_def)
qed

definition demo_resting :: pool where
  "demo_resting = demo_bound\<lparr>throttled_until := [(''key'', 900000)]\<rparr>"

theorem scope_keeps_account_witness:
  "\<exists>P'. acquire_subscription demo_env 0 ''claude-code-cli'' (Some []) [] ''local:/w'' [] False (Some [''api_key''])
     demo_resting = (P', Inr (Some (build_handle demo_env demo_key)))"
  by (rule scope_keeps_account) code_simp+

text \<open>A pool whose only fresh account has lost its credentials takes none, although a resting one has them: the rest
  does eliminate it.\<close>

lemma unusable_hides_resting:
  "let e = demo_env\<lparr>env_credential := (\<lambda>s. if s = ''key'' then (None, None, None) else (None, Some ''token'', None)),
        env_windows_on := False\<rparr>;
       P = demo_pool\<lparr>throttled_until := [(''own'', 900000)]\<rparr> in
   usable (build_handle e demo_own) \<and> snd (select_one e 0 [demo_own, demo_key] None [] P) = None"
  by code_simp

text \<open>A person with an account of their own that cannot be used is told the platform's authentication is off, as
  someone without one is.\<close>

lemma own_account_reads_auth_off:
  "let e = demo_env\<lparr>env_credential := (\<lambda>_. (None, None, None)), env_platform_auth := (\<lambda>_. False),
        env_cap := (\<lambda>_ _ _. None)\<rparr> in
   user_can_run e ''claude-code-cli'' ''ann'' [] \<and>
   snd (acquire_subscription e 0 ''claude-code-cli'' (Some ''ann'') [] [] [] True None demo_pool) = Inr None \<and>
   snd (user_scope_block_reason e 0 False ''claude-code-cli'' ''ann'' [] demo_pool) = BlockedAuthOff"
  by code_simp

end
