(* ===== verification/TokenRefresh.thy ===== *)
theory TokenRefresh
  imports SubscriptionPool
begin

text \<open>
  The refresh of a vendor login (\<open>services/engines/subscription_pool.py\<close>): the stored token and its runway, the
  attempt at the vendor's token endpoint with its backoff, and the two verdicts that expire a row. The engine's
  call is a parameter: an attempt is cut where it waits for the vendor, and the reply is an argument of the rest. An
  attempt holds the lock of its row, so nothing else of the row runs between its two halves but a write that
  ignores the lock. The reads and writes of a credential succeed (an error of theirs passes to the caller); the
  write of a row's status may fail, which the code catches. The copies of a new token in the files of the running
  sessions are not modelled. Instants are milliseconds.
\<close>

section \<open>The credential and the reply\<close>

record login_token =
  tk_access :: "string option"
  tk_refresh :: "string option"
  tk_expires :: int                  \<comment> \<open>\<open>expiresAt\<close>, 0 without one\<close>
  tk_grant :: int                    \<comment> \<open>\<open>refreshTokenExpiresAt\<close>, 0 without one\<close>
  tk_alerts :: "json option"
  tk_account :: string

record credential =
  cr_token :: "login_token option"
  cr_rest :: dict

record oauth_refresh =
  or_token :: "login_token option"
  or_extra :: dict
  or_ttl :: int
  or_status :: int
  or_body :: "dict option"

text \<open>\<open>NotRun\<close>: no engine took the refresh, or the engine raised.\<close>

datatype vendor_reply = NotRun | Reply oauth_refresh

record keeper =
  kp_pool :: pool
  kp_backoff :: "(string \<times> int \<times> nat) list"
  kp_streaks :: "(string \<times> int \<times> nat) list"
  kp_creds :: "(string \<times> credential) list"
  kp_status :: "(string \<times> string) list"
  kp_writable :: bool                \<comment> \<open>the write of a status succeeds\<close>

definition AUTH_STREAK_MIN_ATTEMPTS :: nat where "AUTH_STREAK_MIN_ATTEMPTS = 8"
definition AUTH_STREAK_MIN_SPAN :: int where "AUTH_STREAK_MIN_SPAN = 7200000"
definition REFRESH_RATELIMIT_COOLDOWN :: int where "REFRESH_RATELIMIT_COOLDOWN = 60000"
definition SPAWN_REFRESH_RUNWAY :: int where "SPAWN_REFRESH_RUNWAY = 7200000"
definition TURN_MIN_TOKEN_RUNWAY :: int where "TURN_MIN_TOKEN_RUNWAY = 2700000"
definition HARD_EXPIRY_BUFFER :: int where "HARD_EXPIRY_BUFFER = 300000"
definition STATUS_ACTIVE :: string where "STATUS_ACTIVE = ''active''"
definition STATUS_DISABLED :: string where "STATUS_DISABLED = ''disabled''"
definition STATUS_EXPIRED :: string where "STATUS_EXPIRED = ''expired''"

definition get_credential_data :: "string \<Rightarrow> keeper \<Rightarrow> credential" where
  "get_credential_data s K =
     (case lookup (kp_creds K) s of None \<Rightarrow> \<lparr>cr_token = None, cr_rest = []\<rparr> | Some c \<Rightarrow> c)"

definition update_credential_data :: "string \<Rightarrow> credential \<Rightarrow> keeper \<Rightarrow> keeper" where
  "update_credential_data s c K =
     (if s \<in> set (keys (kp_status K)) then K\<lparr>kp_creds := dict_set s c (kp_creds K)\<rparr> else K)"

section \<open>What a failure says\<close>

definition error_code :: "dict \<Rightarrow> json option" where
  "error_code body =
     (case dget body ''error'' of
        Some (JObj d) \<Rightarrow>
          if truthy (dget d ''type'') then dget d ''type''
          else if truthy (dget d ''code'') then dget d ''code'' else dget d ''error''
      | err \<Rightarrow> err)"

definition refresh_error_terminal :: "oauth_refresh \<Rightarrow> bool" where
  "refresh_error_terminal out =
     (if or_status out \<notin> {400, 401} then False
      else (case or_body out of None \<Rightarrow> False | Some body \<Rightarrow> error_code body = Some (JStr ''invalid_grant'')))"

definition auth_shaped :: "oauth_refresh \<Rightarrow> bool" where
  "auth_shaped out =
     (case or_body out of None \<Rightarrow> False
      | Some body \<Rightarrow> or_status out = 401 \<and> error_code body \<notin> {None, Some JNull})"

definition log_refresh_failure :: "int \<Rightarrow> string \<Rightarrow> oauth_refresh \<Rightarrow> keeper \<Rightarrow> keeper" where
  "log_refresh_failure now s out K =
     (let K1 = (if auth_shaped out then
                  (let (first, count) = (case lookup (kp_streaks K) s of None \<Rightarrow> (now, 0) | Some e \<Rightarrow> e) in
                   K\<lparr>kp_streaks := dict_set s (first, count + 1) (kp_streaks K)\<rparr>)
                else K) in
      if or_status out = 429
      then K1\<lparr>kp_pool := fst (rest_account now s (now + REFRESH_RATELIMIT_COOLDOWN) [] (kp_pool K1))\<rparr>
      else K1)"

definition sustained_auth_dead :: "int \<Rightarrow> string \<Rightarrow> keeper \<Rightarrow> bool" where
  "sustained_auth_dead now s K =
     (let (first, count) = (case lookup (kp_streaks K) s of None \<Rightarrow> (0, 0) | Some e \<Rightarrow> e) in
      count \<ge> AUTH_STREAK_MIN_ATTEMPTS \<and> first \<noteq> 0 \<and> now - first \<ge> AUTH_STREAK_MIN_SPAN)"

definition clear_refresh_backoff :: "string \<Rightarrow> keeper \<Rightarrow> keeper" where
  "clear_refresh_backoff s K = K\<lparr>kp_backoff := dict_del s (kp_backoff K), kp_streaks := dict_del s (kp_streaks K)\<rparr>"

definition auto_expire_subscription :: "string \<Rightarrow> keeper \<Rightarrow> keeper" where
  "auto_expire_subscription s K =
     (if \<not> kp_writable K then K
      else clear_refresh_backoff s
        (if s \<in> set (keys (kp_status K)) then K\<lparr>kp_status := dict_set s STATUS_EXPIRED (kp_status K)\<rparr> else K))"

section \<open>One refresh\<close>

definition carry_platform_keys :: "int \<Rightarrow> login_token \<Rightarrow> login_token option \<Rightarrow> int \<Rightarrow> login_token" where
  "carry_platform_keys now new_token old ttl =
     (case old of
        None \<Rightarrow> if ttl \<noteq> 0 then new_token\<lparr>tk_grant := now + 1000 * ttl\<rparr> else new_token
      | Some o' \<Rightarrow>
          (let t1 = (if ttl \<noteq> 0 then new_token\<lparr>tk_grant := now + 1000 * ttl\<rparr>
                     else if tk_grant o' \<noteq> 0 then new_token\<lparr>tk_grant := tk_grant o'\<rparr> else new_token);
               t2 = (if truthy (tk_alerts o') then t1\<lparr>tk_alerts := tk_alerts o'\<rparr> else t1) in
           if tk_account o' \<noteq> [] \<and> tk_account t2 = [] then t2\<lparr>tk_account := tk_account o'\<rparr> else t2))"

definition refresh_oauth_token ::
  "int \<Rightarrow> string \<Rightarrow> credential \<Rightarrow> vendor_reply \<Rightarrow> keeper \<Rightarrow> keeper \<times> string option \<times> bool"
where
  "refresh_oauth_token now s stored reply K =
     (case reply of
        NotRun \<Rightarrow> (K, None, False)
      | Reply out \<Rightarrow>
          (case or_token out of
             None \<Rightarrow>
               (let K1 = log_refresh_failure now s out K in
                (K1, None, refresh_error_terminal out \<or> sustained_auth_dead now s K1))
           | Some t \<Rightarrow>
               (update_credential_data s
                  \<lparr>cr_token = Some (carry_platform_keys now t (cr_token stored) (or_ttl out)),
                   cr_rest = foldl (\<lambda>d (k, v). dict_set k v d) (cr_rest stored) (or_extra out)\<rparr> K,
                tk_access t, False)))"

text \<open>What a stored token is worth: the token, its expiry, whether it may be handed out, whether it wants a refresh.\<close>

definition stored_token :: "int \<Rightarrow> int \<Rightarrow> login_token \<Rightarrow> string option \<times> int \<times> bool \<times> bool" where
  "stored_token now min_runway t =
     (if tk_expires t = 0 then (tk_access t, 0, True, False)
      else (tk_access t, tk_expires t, now < tk_expires t - HARD_EXPIRY_BUFFER, now \<ge> tk_expires t - min_runway))"

definition hand_out :: "string option \<times> int \<times> bool \<times> bool \<Rightarrow> string option \<times> int" where
  "hand_out v = (case v of (access, expires, handable, _) \<Rightarrow> if handable then (access, expires) else (None, 0))"

definition backoff_wait :: "nat \<Rightarrow> int" where
  "backoff_wait attempts = min (60000 * 2 ^ (attempts - 1)) 600000"

text \<open>The first half of an attempt, asked for at one instant and with the row's lock at a later one: the answer, where
  the vendor is not asked; else the token, the credential and the backoff entry the attempt goes on with.\<close>

datatype opened_refresh = Answered "string option" int | Asks login_token credential "(int \<times> nat) option"

definition resolve_open :: "int \<Rightarrow> int \<Rightarrow> int \<Rightarrow> string \<Rightarrow> string \<Rightarrow> login_token \<Rightarrow> keeper \<Rightarrow> opened_refresh" where
  "resolve_open asked now min_runway s status oauth_data K =
     (if or_else status STATUS_ACTIVE \<noteq> STATUS_ACTIVE then
        (if tk_expires oauth_data = 0 \<or> asked < tk_expires oauth_data - HARD_EXPIRY_BUFFER
         then Answered (tk_access oauth_data) (tk_expires oauth_data) else Answered None 0)
      else if \<not> snd (snd (snd (stored_token asked min_runway oauth_data)))
      then Answered (tk_access oauth_data) (fst (snd (stored_token asked min_runway oauth_data)))
      else
        (let cred = get_credential_data s K;
             latest = (case cr_token cred of None \<Rightarrow> oauth_data | Some t \<Rightarrow> t);
             v = stored_token now min_runway latest; entry = lookup (kp_backoff K) s in
         if \<not> snd (snd (snd v)) then Answered (fst v) (fst (snd v))
         else if (case entry of None \<Rightarrow> False | Some (failed, attempts) \<Rightarrow> now - failed < backoff_wait attempts)
         then Answered (fst (hand_out v)) (snd (hand_out v))
         else Asks latest cred entry))"

definition attempt ::
  "string \<Rightarrow> login_token \<Rightarrow> credential \<Rightarrow> int \<Rightarrow> vendor_reply \<Rightarrow> keeper \<Rightarrow> keeper \<times> string option \<times> bool"
where
  "attempt s latest cred done_at reply K =
     (if opt_str (tk_refresh latest) = [] then (K, None, False) else refresh_oauth_token done_at s cred reply K)"

definition settle ::
  "int \<Rightarrow> int \<Rightarrow> string \<Rightarrow> login_token \<Rightarrow> (int \<times> nat) option \<Rightarrow> int \<Rightarrow> keeper \<times> string option \<times> bool \<Rightarrow>
   keeper \<times> string option \<times> int"
where
  "settle now min_runway s latest entry done_at outcome =
     (let (K, new_access, terminal) = outcome; v = stored_token now min_runway latest;
          stored_now = cr_token (get_credential_data s K) in
      if opt_str new_access \<noteq> [] then
        (clear_refresh_backoff s K, new_access, (case stored_now of None \<Rightarrow> 0 | Some t \<Rightarrow> tk_expires t))
      else if opt_str (tk_refresh latest) \<noteq> [] \<and>
          (case stored_now of None \<Rightarrow> True | Some t \<Rightarrow> tk_refresh t \<noteq> tk_refresh latest) then
        (K\<lparr>kp_streaks := dict_del s (kp_streaks K)\<rparr>,
         (case stored_now of None \<Rightarrow> (None, 0) | Some t \<Rightarrow> hand_out (stored_token done_at min_runway t)))
      else if terminal then (auto_expire_subscription s K, hand_out v)
      else (K\<lparr>kp_backoff := dict_set s (now, (case entry of None \<Rightarrow> 1 | Some (_, n) \<Rightarrow> n + 1)) (kp_backoff K)\<rparr>, hand_out v))"

definition resolve_close ::
  "int \<Rightarrow> int \<Rightarrow> string \<Rightarrow> login_token \<Rightarrow> credential \<Rightarrow> (int \<times> nat) option \<Rightarrow> int \<Rightarrow> vendor_reply \<Rightarrow> keeper \<Rightarrow>
   keeper \<times> string option \<times> int"
where
  "resolve_close now min_runway s latest cred entry done_at reply K =
     settle now min_runway s latest entry done_at (attempt s latest cred done_at reply K)"

text \<open>A call: the instants it is asked at and has the lock at; when it asks the vendor, the reply is there at
  \<open>done_at\<close>.\<close>

definition resolve_oauth_access_token ::
  "int \<times> int \<Rightarrow> int \<Rightarrow> string \<Rightarrow> string \<Rightarrow> login_token \<Rightarrow> int \<Rightarrow> vendor_reply \<Rightarrow> keeper \<Rightarrow> keeper \<times> string option \<times> int"
where
  "resolve_oauth_access_token t min_runway s status oauth_data done_at reply K =
     (case resolve_open (fst t) (snd t) min_runway s status oauth_data K of
        Answered token expires \<Rightarrow> (K, token, expires)
      | Asks latest cred entry \<Rightarrow> resolve_close (snd t) min_runway s latest cred entry done_at reply K)"

text \<open>The answer of \<open>ensure_fresh_and_fan_out\<close>; \<open>ended\<close> is the clock of its last line.\<close>

definition ensure_fresh ::
  "int \<times> int \<Rightarrow> int \<Rightarrow> string \<Rightarrow> int \<Rightarrow> vendor_reply \<Rightarrow> int \<Rightarrow> keeper \<Rightarrow> keeper \<times> bool"
where
  "ensure_fresh now min_runway s done_at reply ended K =
     (case lookup (kp_status K) s of
        None \<Rightarrow> (K, False)
      | Some status \<Rightarrow>
          (case cr_token (get_credential_data s K) of
             None \<Rightarrow> (K, True)
           | Some t \<Rightarrow>
               (let (K1, token, expires) = resolve_oauth_access_token now min_runway s status t done_at reply K in
                (K1, opt_str token \<noteq> [] \<and> (expires = 0 \<or> ended < expires - min_runway)))))"

text \<open>The reconnect of a row replaces its credential under the row's lock; \<open>previous\<close> is the status it was matched
  with.\<close>

definition apply_reconnect :: "string \<Rightarrow> credential \<Rightarrow> string \<Rightarrow> keeper \<Rightarrow> keeper" where
  "apply_reconnect s c previous K =
     (let K1 = update_credential_data s c K; status = (if previous = STATUS_DISABLED then STATUS_DISABLED else STATUS_ACTIVE) in
      clear_refresh_backoff s
        (if s \<in> set (keys (kp_status K1)) then K1\<lparr>kp_status := dict_set s status (kp_status K1)\<rparr> else K1))"

section \<open>What a refresh keeps\<close>

lemma auto_expired:
  "kp_writable K \<Longrightarrow> s \<in> set (keys (kp_status K)) \<Longrightarrow> lookup (kp_status (auto_expire_subscription s K)) s = Some STATUS_EXPIRED"
  by (simp add: auto_expire_subscription_def clear_refresh_backoff_def del: set_map)

lemma truthy_token: "opt_str x \<noteq> [] \<Longrightarrow> \<exists>a. x = Some a \<and> a \<noteq> []"
  by (cases x) auto

lemma get_credential_frame [simp]:
  "get_credential_data s (K\<lparr>kp_pool := P\<rparr>) = get_credential_data s K"
  "get_credential_data s (K\<lparr>kp_streaks := x\<rparr>) = get_credential_data s K"
  "get_credential_data s (K\<lparr>kp_backoff := x\<rparr>) = get_credential_data s K"
  by (simp_all add: get_credential_data_def)

lemma log_failure_frame [simp]:
  "kp_creds (log_refresh_failure now s out K) = kp_creds K"
  "kp_status (log_refresh_failure now s out K) = kp_status K"
  "kp_backoff (log_refresh_failure now s out K) = kp_backoff K"
  "kp_writable (log_refresh_failure now s out K) = kp_writable K"
  by (simp_all add: log_refresh_failure_def Let_def split: option.split prod.split)

lemma log_failure_streaks:
  "lookup (kp_streaks (log_refresh_failure now s out K)) s =
     (if auth_shaped out
      then Some (case lookup (kp_streaks K) s of None \<Rightarrow> (now, 1) | Some (f, c) \<Rightarrow> (f, c + 1))
      else lookup (kp_streaks K) s)"
  by (simp add: log_refresh_failure_def Let_def split: option.split prod.split)

text \<open>The three ends of a refresh: a new token, a failure that changes no credential, or none.\<close>

lemma refresh_no_token:
  assumes "refresh_oauth_token now s cred reply K = (K1, a, terminal)" and "opt_str a = []"
    and "\<And>out t. reply = Reply out \<Longrightarrow> or_token out = Some t \<Longrightarrow> opt_str (tk_access t) \<noteq> []"
  shows "kp_creds K1 = kp_creds K" "kp_status K1 = kp_status K" "kp_backoff K1 = kp_backoff K"
    "terminal \<Longrightarrow> \<exists>out. reply = Reply out \<and> or_token out = None \<and> (refresh_error_terminal out \<or> sustained_auth_dead now s K1)"
  using assms by (auto simp: refresh_oauth_token_def Let_def split: vendor_reply.splits option.splits)

text \<open>A reply with a token has one the platform can use: what an engine's \<open>refresh_oauth\<close> promises.\<close>

definition well_formed :: "vendor_reply \<Rightarrow> bool" where
  "well_formed reply = (case reply of NotRun \<Rightarrow> True
     | Reply out \<Rightarrow> (case or_token out of None \<Rightarrow> True | Some t \<Rightarrow> opt_str (tk_access t) \<noteq> []))"

lemma well_formedD: "well_formed reply \<Longrightarrow> reply = Reply out \<Longrightarrow> or_token out = Some t \<Longrightarrow> opt_str (tk_access t) \<noteq> []"
  by (simp add: well_formed_def)

section \<open>A valid token is never wasted\<close>

lemma stored_usable:
  "fst (snd (snd (stored_token now min_runway t))) \<longleftrightarrow> (tk_expires t = 0 \<or> now < tk_expires t - HARD_EXPIRY_BUFFER)"
  by (simp add: stored_token_def)

lemma hand_out_usable:
  "tk_access t = Some a \<Longrightarrow> tk_expires t = 0 \<or> now < tk_expires t - HARD_EXPIRY_BUFFER \<Longrightarrow>
    hand_out (stored_token now min_runway t) = (Some a, tk_expires t)"
  by (auto simp: stored_token_def hand_out_def)

text \<open>No failure of the vendor wastes a token that is still good: whatever the vendor answers, and whether the row is
  in its backoff, active, disabled or expired by this very attempt, a login whose stored token has five minutes
  left hands out that token, with its expiry, or a token just issued.\<close>

theorem valid_token_is_handed_out:
  assumes "cr_token (get_credential_data s K) = Some t" and "tk_access t = Some a"
    and "tk_expires t = 0 \<or> now < tk_expires t - HARD_EXPIRY_BUFFER" and "well_formed reply" and "asked \<le> now"
    and "resolve_oauth_access_token (asked, now) min_runway s status t done_at reply K = (K', token, expires)"
  shows "(token, expires) = (Some a, tk_expires t) \<or>
    (\<exists>out new. reply = Reply out \<and> or_token out = Some new \<and> token = tk_access new \<and> opt_str token \<noteq> [])"
proof (cases "resolve_open asked now min_runway s status t K")
  case (Answered x y)
  with assms(6) have "token = x" "expires = y" by (simp_all add: resolve_oauth_access_token_def)
  with Answered assms(1-3,5) show ?thesis
    by (auto simp: resolve_open_def Let_def stored_token_def hand_out_def split: if_splits option.splits)
next
  case (Asks latest cred entry)
  with assms(1) have l: "latest = t" "cred = get_credential_data s K"
    by (auto simp: resolve_open_def Let_def split: if_splits)
  obtain K1 na terminal where r: "attempt s t cred done_at reply K = (K1, na, terminal)" by (metis prod_cases3)
  from assms(6) Asks l r have c: "(K', token, expires) = settle now min_runway s t entry done_at (K1, na, terminal)"
    by (simp add: resolve_oauth_access_token_def resolve_close_def)
  show ?thesis
  proof (cases "opt_str na = []")
    case True
    have "kp_creds K1 = kp_creds K"
      using r refresh_no_token(1) [of done_at s cred reply K K1 na terminal] True well_formedD [OF assms(4)]
      by (auto simp: attempt_def split: if_splits)
    then have "cr_token (get_credential_data s K1) = Some t" using assms(1) by (simp add: get_credential_data_def)
    with c True hand_out_usable [OF assms(2,3)] show ?thesis by (auto simp: settle_def Let_def split: if_splits)
  next
    case False
    with c have "token = na" by (simp add: settle_def)
    moreover from r False obtain out new where "reply = Reply out" "or_token out = Some new" "na = tk_access new"
      by (auto simp: attempt_def refresh_oauth_token_def Let_def split: if_splits vendor_reply.splits option.splits)
    ultimately show ?thesis using False by auto
  qed
qed

section \<open>A row expires by its grant's death\<close>

text \<open>A run of calls for one row, each with its clocks and its reply.\<close>

record call =
  cl_asked :: int
  cl_now :: int
  cl_done :: int
  cl_runway :: int
  cl_reply :: vendor_reply

definition stored_login :: "string \<Rightarrow> keeper \<Rightarrow> login_token" where
  "stored_login s K = (case cr_token (get_credential_data s K) of None \<Rightarrow> \<lparr>tk_access = None, tk_refresh = None,
     tk_expires = 0, tk_grant = 0, tk_alerts = None, tk_account = []\<rparr> | Some t \<Rightarrow> t)"

definition run_call :: "string \<Rightarrow> call \<Rightarrow> keeper \<Rightarrow> keeper" where
  "run_call s c K =
     fst (resolve_oauth_access_token (cl_asked c, cl_now c) (cl_runway c) s (opt_str (lookup (kp_status K) s)) (stored_login s K)
       (cl_done c) (cl_reply c) K)"

definition run_calls :: "string \<Rightarrow> call list \<Rightarrow> keeper \<Rightarrow> keeper" where
  "run_calls s cs K = foldl (\<lambda>K c. run_call s c K) K cs"

definition rejects :: "call \<Rightarrow> bool" where
  "rejects c = (case cl_reply c of NotRun \<Rightarrow> False
     | Reply out \<Rightarrow> or_token out = None \<and> or_status out = 401 \<and>
         (case or_body out of None \<Rightarrow> False | Some body \<Rightarrow> error_code body \<notin> {None, Some JNull}))"

definition grant_dead :: "call \<Rightarrow> bool" where
  "grant_dead c = (case cl_reply c of NotRun \<Rightarrow> False
     | Reply out \<Rightarrow> or_token out = None \<and> or_status out \<in> {400, 401} \<and>
         (case or_body out of None \<Rightarrow> False | Some body \<Rightarrow> error_code body = Some (JStr ''invalid_grant'')))"

text \<open>The verdict a run has earned: the vendor's own word, or eight rejections and a failure two hours after one.\<close>

definition earned :: "call list \<Rightarrow> bool" where
  "earned cs \<longleftrightarrow> (\<exists>c\<in>set cs. grant_dead c) \<or>
     (AUTH_STREAK_MIN_ATTEMPTS \<le> length (filter rejects cs) \<and>
      (\<exists>a\<in>set cs. \<exists>b\<in>set cs. rejects a \<and> cl_done b - cl_done a \<ge> AUTH_STREAK_MIN_SPAN))"

definition streak_backed :: "string \<Rightarrow> keeper \<Rightarrow> call list \<Rightarrow> bool" where
  "streak_backed s K cs \<longleftrightarrow>
     (case lookup (kp_streaks K) s of None \<Rightarrow> True
      | Some (first, count) \<Rightarrow> count \<le> length (filter rejects cs) \<and> (\<exists>a\<in>set cs. rejects a \<and> cl_done a = first))"

lemma earned_append: "earned cs \<Longrightarrow> earned (cs @ ds)"
  by (auto simp: earned_def)

lemma streak_backed_append: "streak_backed s K cs \<Longrightarrow> streak_backed s K (cs @ ds)"
  by (auto simp: streak_backed_def split: option.splits)

lemma run_call_cases:
  assumes "streak_backed s K cs"
  shows "streak_backed s (run_call s c K) (cs @ [c]) \<and>
    (lookup (kp_status (run_call s c K)) s = lookup (kp_status K) s \<or> earned (cs @ [c]))"
proof (cases "resolve_open (cl_asked c) (cl_now c) (cl_runway c) s (opt_str (lookup (kp_status K) s)) (stored_login s K) K")
  case (Answered x y)
  then have "run_call s c K = K" by (simp add: run_call_def resolve_oauth_access_token_def)
  with assms streak_backed_append show ?thesis by simp
next
  case (Asks latest cred entry)
  obtain K1 na terminal where r: "attempt s latest cred (cl_done c) (cl_reply c) K = (K1, na, terminal)" by (metis prod_cases3)
  have K1: "streak_backed s K1 (cs @ [c]) \<and> kp_status K1 = kp_status K \<and> (terminal \<longrightarrow> earned (cs @ [c]))"
  proof (cases "K1 = K \<and> \<not> terminal")
    case True
    with assms streak_backed_append show ?thesis by simp
  next
    case F: False
    with r obtain out where o: "cl_reply c = Reply out"
      and u: "refresh_oauth_token (cl_done c) s cred (Reply out) K = (K1, na, terminal)"
      by (cases "cl_reply c") (auto simp: attempt_def refresh_oauth_token_def split: if_splits)
    show ?thesis
    proof (cases "or_token out")
      case None
      with u have k: "K1 = log_refresh_failure (cl_done c) s out K"
        "terminal = (refresh_error_terminal out \<or> sustained_auth_dead (cl_done c) s K1)"
        by (auto simp: refresh_oauth_token_def Let_def)
      have rj: "rejects c = auth_shaped out" "grant_dead c = refresh_error_terminal out"
        by (auto simp: rejects_def grant_dead_def o None auth_shaped_def refresh_error_terminal_def split: option.split)
      have b: "streak_backed s K1 (cs @ [c])"
        using assms log_failure_streaks [of "cl_done c" s out K] rj(1)
        by (auto simp: k(1) streak_backed_def split: option.splits if_splits)
      have "earned (cs @ [c])" if t: terminal
      proof (cases "refresh_error_terminal out")
        case True
        with rj(2) show ?thesis by (auto simp: earned_def)
      next
        case False
        with t k(2) b show ?thesis
          by (auto simp: sustained_auth_dead_def streak_backed_def earned_def AUTH_STREAK_MIN_ATTEMPTS_def split: option.splits)
      qed
      with b k(1) show ?thesis by simp
    next
      case (Some t)
      with u assms streak_backed_append show ?thesis
        by (auto simp: refresh_oauth_token_def update_credential_data_def streak_backed_def split: option.splits if_splits)
    qed
  qed
  have d: "streak_backed s (clear_refresh_backoff s L) xs" "streak_backed s (L\<lparr>kp_streaks := dict_del s x\<rparr>) xs"
    "streak_backed s (L\<lparr>kp_backoff := y\<rparr>) xs = streak_backed s L xs"
    "streak_backed s L xs \<Longrightarrow> streak_backed s (auto_expire_subscription s L) xs" for L x y xs
    by (simp_all add: streak_backed_def clear_refresh_backoff_def auto_expire_subscription_def)
  from Asks r K1 d show ?thesis
    by (auto simp: run_call_def resolve_oauth_access_token_def resolve_close_def settle_def Let_def clear_refresh_backoff_def
        auto_expire_subscription_def split: if_splits option.splits)
qed

lemma run_calls_backed:
  "streak_backed s K [] \<Longrightarrow> streak_backed s (run_calls s cs K) cs \<and>
    (lookup (kp_status (run_calls s cs K)) s = lookup (kp_status K) s \<or> earned cs)"
proof (induction cs rule: rev_induct)
  case (snoc c cs)
  then show ?case
    using run_call_cases [of s "run_calls s cs K" cs c] earned_append [of cs "[c]"] by (auto simp: run_calls_def)
qed (simp add: run_calls_def)

text \<open>C33. An outage locks nobody out: over any run of refreshes of a login with no rejection on record, the row
  changes its status only when the vendor called the grant dead (a 400 or 401 that says invalid_grant), or when at
  least eight of the run's refreshes were rejected by the vendor itself (a 401 with an error of its own) and the
  replies of two of them, the earlier a rejection, are two hours apart. No number of timeouts, rate limits, server
  errors and challenge pages does it alone. (The later of the two may be any failure: see
  \<open>server_error_expires\<close>.)\<close>

theorem outage_expires_nobody:
  assumes "lookup (kp_streaks K) s = None" and "\<not> earned cs"
  shows "lookup (kp_status (run_calls s cs K)) s = lookup (kp_status K) s"
  using run_calls_backed [of s K cs] assms by (auto simp: streak_backed_def)

section \<open>The vendor is not hammered\<close>

lemma backoff_wait_bounds: "60000 \<le> backoff_wait n" "backoff_wait n \<le> 600000"
  by (simp_all add: backoff_wait_def)

text \<open>A failing login is retried, and not hammered: a failed attempt that did not expire the row is on record with its
  count, and until its wait is over no call of any caller reaches the vendor; the wait doubles from one minute
  with each failure and is never longer than ten. (An expiry that could not be written leaves no wait.)\<close>

theorem failed_refresh_is_paced:
  assumes "resolve_open asked now min_runway s status data K = Asks latest cred entry"
    and "resolve_close now min_runway s latest cred entry done_at reply K = (K', answer)"
    and "case reply of NotRun \<Rightarrow> True | Reply out \<Rightarrow> or_token out = None"
    and "cr_token (get_credential_data s K) = Some latest"
    and "s \<in> set (keys (kp_status K))" and "lookup (kp_status K') s \<noteq> Some STATUS_EXPIRED" and "kp_writable K"
  shows "\<exists>n. lookup (kp_backoff K') s = Some (now, n) \<and> n = (case entry of None \<Rightarrow> 1 | Some (_, m) \<Rightarrow> m + 1) \<and>
    (\<forall>asked' later m' st d l c e. later - now < min (60000 * 2 ^ (n - 1)) 600000 \<longrightarrow>
       resolve_open asked' later m' s st d K' \<noteq> Asks l c e)"
proof -
  obtain K1 na terminal where r: "attempt s latest cred done_at reply K = (K1, na, terminal)" by (metis prod_cases3)
  have k: "na = None" "kp_creds K1 = kp_creds K" "kp_status K1 = kp_status K" "kp_writable K1 = kp_writable K"
    using r assms(3) by (auto simp: attempt_def refresh_oauth_token_def Let_def split: if_splits vendor_reply.splits)
  then have g: "cr_token (get_credential_data s K1) = Some latest" using assms(4) by (simp add: get_credential_data_def)
  let ?n = "case entry of None \<Rightarrow> 1 | Some (_, m) \<Rightarrow> m + 1"
  have t: "\<not> terminal"
  proof
    assume terminal
    with assms(2) r k g have "K' = auto_expire_subscription s K1" by (simp add: resolve_close_def settle_def Let_def)
    with auto_expired [of K1 s] assms(5-7) k(3,4) show False by (simp del: set_map)
  qed
  with assms(2) r k g have "K' = K1\<lparr>kp_backoff := dict_set s (now, ?n) (kp_backoff K1)\<rparr>"
    by (simp add: resolve_close_def settle_def Let_def)
  then show ?thesis by (auto simp: resolve_open_def Let_def backoff_wait_def)
qed

section \<open>A login\<close>

definition demo_login :: login_token where
  "demo_login = \<lparr>tk_access = Some ''at'', tk_refresh = Some ''rt'', tk_expires = 3600000, tk_grant = 0, tk_alerts = None,
     tk_account = []\<rparr>"

definition demo_keeper :: keeper where
  "demo_keeper = \<lparr>
     kp_pool = \<lparr>throttled_until = [], throttled_hard = [], window_rests = [], scoped_rests = [], session_subs = [],
       binding_ctx = [], scope_keys = [], scope_recent = [], bindings = [], seats = []\<rparr>,
     kp_backoff = [], kp_streaks = [], kp_creds = [(''own'', \<lparr>cr_token = Some demo_login, cr_rest = []\<rparr>)],
     kp_status = [(''own'', ''active'')], kp_writable = True\<rparr>"

definition demo_reply :: "int \<Rightarrow> vendor_reply" where
  "demo_reply status = Reply \<lparr>or_token = None, or_extra = [], or_ttl = 0, or_status = status,
     or_body = Some [(''error'', JStr ''invalid_request_error'')]\<rparr>"

theorem valid_token_is_handed_out_witness:
  "(Some ''at'', 3600000) = (Some ''at'', tk_expires demo_login) \<or>
    (\<exists>out new. demo_reply 503 = Reply out \<and> or_token out = Some new \<and> Some ''at'' = tk_access new \<and> opt_str (Some ''at'') \<noteq> [])"
proof (rule valid_token_is_handed_out)
  show "cr_token (get_credential_data ''own'' demo_keeper) = Some demo_login" by code_simp
  show "tk_access demo_login = Some ''at''" by code_simp
  show "tk_expires demo_login = 0 \<or> 1000 < tk_expires demo_login - HARD_EXPIRY_BUFFER" by code_simp
  show "well_formed (demo_reply 503)" by code_simp
  show "(1000::int) \<le> 1000" by simp
  show "resolve_oauth_access_token (1000, 1000) SPAWN_REFRESH_RUNWAY ''own'' ''active'' demo_login 2000 (demo_reply 503) demo_keeper =
      (fst (resolve_oauth_access_token (1000, 1000) SPAWN_REFRESH_RUNWAY ''own'' ''active'' demo_login 2000 (demo_reply 503) demo_keeper),
       Some ''at'', 3600000)"
    by code_simp
qed

text \<open>Seven rejections, and server errors for as long as one likes.\<close>

definition demo_calls :: "call list" where
  "demo_calls = map (\<lambda>i. \<lparr>cl_asked = 1000000 * i, cl_now = 1000000 * i, cl_done = 1000000 * i + 1000, cl_runway = SPAWN_REFRESH_RUNWAY,
     cl_reply = demo_reply (if i \<le> 7 then 401 else 503)\<rparr>) [1, 2, 3, 4, 5, 6, 7, 8, 9, 10]"

theorem outage_expires_nobody_witness:
  "lookup (kp_status (run_calls ''own'' demo_calls demo_keeper)) ''own'' = lookup (kp_status demo_keeper) ''own''"
proof (rule outage_expires_nobody)
  show "lookup (kp_streaks demo_keeper) ''own'' = None" by code_simp
  show "\<not> earned demo_calls" by code_simp
qed

definition demo_failed :: "keeper \<times> string option \<times> int" where
  "demo_failed = resolve_close 1000 SPAWN_REFRESH_RUNWAY ''own'' demo_login \<lparr>cr_token = Some demo_login, cr_rest = []\<rparr> None 2000
     NotRun demo_keeper"

theorem failed_refresh_is_paced_witness:
  "lookup (kp_backoff (fst demo_failed)) ''own'' = Some (1000, 1) \<and>
   (\<nexists>l c e. resolve_open 60000 60999 TURN_MIN_TOKEN_RUNWAY ''own'' ''active'' demo_login (fst demo_failed) = Asks l c e)"
proof -
  have o': "resolve_open 1000 1000 SPAWN_REFRESH_RUNWAY ''own'' ''active'' demo_login demo_keeper =
      Asks demo_login \<lparr>cr_token = Some demo_login, cr_rest = []\<rparr> None"
    by code_simp
  have c: "resolve_close 1000 SPAWN_REFRESH_RUNWAY ''own'' demo_login \<lparr>cr_token = Some demo_login, cr_rest = []\<rparr> None 2000
      NotRun demo_keeper = (fst demo_failed, snd demo_failed)"
    by (simp add: demo_failed_def)
  have r: "case NotRun of NotRun \<Rightarrow> True | Reply out \<Rightarrow> or_token out = None" by simp
  have k: "cr_token (get_credential_data ''own'' demo_keeper) = Some demo_login"
    "''own'' \<in> set (keys (kp_status demo_keeper))" by code_simp+
  have e: "lookup (kp_status (fst demo_failed)) ''own'' \<noteq> Some STATUS_EXPIRED"
    unfolding demo_failed_def by code_simp
  have w: "kp_writable demo_keeper" by (simp add: demo_keeper_def)
  from failed_refresh_is_paced [OF o' c r k e w] show ?thesis by auto
qed

text \<open>The span of a streak is measured to the failure at hand: eight rejections of 45 minutes and one server error more
  than two hours after the first expire the row, though the vendor has not rejected it since.\<close>

definition demo_incident :: "call list" where
  "demo_incident = map (\<lambda>t. \<lparr>cl_asked = t, cl_now = t, cl_done = t, cl_runway = SPAWN_REFRESH_RUNWAY,
     cl_reply = demo_reply (if t < 3000000 then 401 else 503)\<rparr>)
     [1000, 61000, 181000, 421000, 901000, 1501000, 2101000, 2701000, 7201000]"

lemma server_error_expires:
  "lookup (kp_status (run_calls ''own'' demo_incident demo_keeper)) ''own'' = Some STATUS_EXPIRED"
  "cl_reply (demo_incident ! 8) = demo_reply 503" "cl_done (demo_incident ! 7) - cl_done (demo_incident ! 0) = 2700000"
  by code_simp+

text \<open>A reconnect revives an expired row at once, and the next refresh is not held back; a disabled row stays off.\<close>

lemma reconnect_revives:
  assumes "s \<in> set (keys (kp_status K))" "previous \<noteq> STATUS_DISABLED" "cr_token c = Some t" "tk_expires t \<noteq> 0"
    and "tk_expires t \<le> now + min_runway" "asked = now"
  shows "resolve_open asked now min_runway s (opt_str (lookup (kp_status (apply_reconnect s c previous K)) s)) t
      (apply_reconnect s c previous K) = Asks t c None"
  using assms
  by (simp add: apply_reconnect_def update_credential_data_def clear_refresh_backoff_def resolve_open_def stored_token_def
      get_credential_data_def STATUS_ACTIVE_def or_else_def Let_def del: set_map)

text \<open>The keys of the platform ride along a rotation.\<close>

lemma carry_keeps:
  "tk_access (carry_platform_keys now t old ttl) = tk_access t"
  "tk_refresh (carry_platform_keys now t old ttl) = tk_refresh t"
  "tk_expires (carry_platform_keys now t old ttl) = tk_expires t"
  "ttl = 0 \<Longrightarrow> old = Some u \<Longrightarrow> tk_grant u \<noteq> 0 \<Longrightarrow> tk_grant (carry_platform_keys now t old ttl) = tk_grant u"
  "old = Some u \<Longrightarrow> truthy (tk_alerts u) \<Longrightarrow> tk_alerts (carry_platform_keys now t old ttl) = tk_alerts u"
  by (auto simp: carry_platform_keys_def Let_def split: option.split)

end
