(* ===== verification/Spec2Isabelle.thy ===== *)
theory Spec2Isabelle
  imports Prelude Roles Layout ToolRoles PermissionModes SessionKind Principals OAuthStates Visibility
    Placement PathRoles PathResolver PathPolicy RemotePath ToolGate Admission Acquire
    ShellSafety ShellTotal PowerShellSafety SessionSafety PromptWaits HookSafety GithubSafety SpawnAuthz SignInSafety Revocation PoolSafety TokenRefresh
begin

text \<open>
  A verification of the decision core of the OtoDock proxy (\<open>proxy/\<close>): who a request is, what a
  session may read and write, on which machine it may run, who sees which chat, how long a session id
  lives, who answers a tool call, and how many sessions the host takes. The proxy is the server
  between the dashboard and the agents: a request resolves to a principal, a session is built with a
  role, a scope and a placement and registered in the live tables, the engine's tool calls come back
  through the permission hook, which asks the path policy first and then the session's mode, the MCP
  tiers, the engine's own records and a person, and every local session holds a slot of the admission
  ledger.

  Theories, in the order the code depends on each other.

  \<^item> \<open>Prelude\<close>: strings, dicts as association lists in insertion order, JSON values, the split,
    strip and join of Python strings, and their lemmas.
  \<^item> \<open>Roles\<close> (\<open>auth/roles.py\<close>): role words, tiers, ranks. Each tier is shown to be a floor of the
    rank order; the locales \<open>role_tier\<close> and \<open>nested_tiers\<close> state what a tier is and every tier of
    the code interprets them.
  \<^item> \<open>Layout\<close> (\<open>core/layout.py\<close>): the agent tree, and the translation of a virtual path.
  \<^item> \<open>ToolRoles\<close> (\<open>core/events/tool_roles.py\<close>), \<open>PermissionModes\<close> (\<open>core/permission_modes.py\<close>),
    \<open>SessionKind\<close> (\<open>core/session/session_kind.py\<close>): the tables the other modules ask.
  \<^item> \<open>Principals\<close> and \<open>OAuthStates\<close> (\<open>auth/providers/__init__.py\<close>): the user context, the
    credential timeline, the forced password change and enrolment with their caches, the resolution
    of a request, the guards; and the store of sign-in states with the relation of its life.
  \<^item> \<open>Visibility\<close> (\<open>core/session/visibility.py\<close>): the mode of an agent, what a session mounts, who
    owns and who opens a chat.
  \<^item> \<open>Placement\<close> (\<open>core/host_os.py\<close>, \<open>core/placement.py\<close>): host families, execution targets, who
    may run where, the state directories of a machine.
  \<^item> \<open>PathRoles\<close> (\<open>services/path_roles.py\<close>): protected paths and the virtual path of a role.
  \<^item> \<open>PathResolver\<close> (\<open>services/path_policy_v2.py\<close>): the resolver of the paths of a paired machine, its
    denials, its bands and the translation between the tree and the machine.
  \<^item> \<open>PathPolicy\<close> (\<open>auth/path_policy.py\<close>): the read and write checks, the candidates of a tool path
    and a patch, on the platform host.
  \<^item> \<open>RemotePath\<close> (\<open>auth/path_policy.py\<close>, \<open>services/path_policy_v2.py\<close>): the same checks for a paired
    machine, through PathResolver and then the role matrix; file tools, patches and the paths of a
    command.
  \<^item> \<open>PyText\<close>, \<open>PyRegex\<close>, \<open>PyNet\<close>, \<open>PyCodec\<close>: what the command gates use of Python's standard library:
    \<open>shlex\<close>, \<open>posixpath\<close>, the regular expressions of \<open>re\<close> as a datatype with a matcher, \<open>urllib.parse\<close> and
    \<open>ipaddress\<close>, base64 and UTF-16.
  \<^item> \<open>ShellSubst\<close> (\<open>auth/path_shell_subst.py\<close>), \<open>ShellWords\<close> and \<open>ShellArgs\<close> (\<open>auth/path_shell_words.py\<close>),
    \<open>ShellRemote\<close> (\<open>auth/path_shell_remote.py\<close>), \<open>ShellHosts\<close> (\<open>auth/path_shell_hosts.py\<close>),
    \<open>PathBackstop\<close> (\<open>services/path_roles.py\<close>): the readings of a command line: its substitutions, its
    words, the programs and hosts it names, the ssh inside it, the raw backstops.
  \<^item> \<open>ShellLexer\<close>, \<open>ShellUnwrap\<close>, \<open>ShellPaths\<close>, \<open>ShellFloor\<close>, \<open>ShellCheck\<close>, \<open>ShellGate\<close>
    (\<open>auth/path_shell.py\<close>): the Bash gate: segments, wrappers, the paths of each command, the floor, one
    command's checks, and the three mutually recursive checks that compose them.
  \<^item> \<open>ShellHidden\<close>, \<open>ShellSafety\<close>, \<open>ShellTotal\<close>: the relation \<open>inner_step\<close> from a text to the texts the gate
    finds in it, what an allowed command therefore guarantees of everything inside it, and that the
    gate answers.
  \<^item> \<open>PowerShell\<close>, \<open>PowerShellGate\<close>, \<open>PowerShellSafety\<close>, \<open>UrlGate\<close> (\<open>auth/path_shell.py\<close>,
    \<open>auth/path_policy.py\<close>): the PowerShell gate, the net for unknown tools and the fetch gate.
  \<^item> \<open>ToolGate\<close> (\<open>auth/path_policy.py\<close>): the dispatch of a tool call to the gates above, locally
    through PathPolicy and on a machine through RemotePath.
  \<^item> \<open>GitReads\<close> (\<open>auth/git_reads.py\<close>): the git commands a read-only profile runs. \<open>PyGlob\<close>: Python's
    \<open>fnmatch\<close>. \<open>McpTiers\<close> (\<open>services/mcp/mcp_permissions.py\<close>, \<open>mcp_manifest_parse.py\<close>): the
    permission rules of a manifest, the tier of a tool, and what a tier does in a mode.
  \<^item> \<open>SecurityIndex\<close>, \<open>SessionState\<close>, \<open>SessionLife\<close>, \<open>SessionSafety\<close>
    (\<open>core/session/session_state.py\<close>): the live tables of the sessions as one record: modes,
    security contexts and their index file, registration, the token floor, close, restart. The file is
    written as well as it can be: two fields say whether a write lands and whether a read succeeds, and an
    operation of \<open>SessionSafety\<close> changes them. \<open>SessionSafety\<close> runs the operations in any order from a
    fresh process; while the disk works (\<open>reachable_session\<close>) the invariant \<open>consistent\<close> of the tables and
    the file holds, and it proves what a crash, a close and a new life do; a close that was written stays
    final on a disk that fails afterwards.
  \<^item> \<open>PromptWaits\<close> (\<open>core/session/session_state.py\<close>): the prompts that wait on a person, with the
    relation of their life. \<open>MeetingRouting\<close> (\<open>api/hooks/routing.py\<close>): a participant's turn at the hook.
    \<open>EnginePrompts\<close> (\<open>core/session/engine_prompts.py\<close>): the hook's records of what it answered and the
    engine's asks that use them up.
  \<^item> \<open>PermissionHook\<close> and \<open>HookSafety\<close> (\<open>api/hooks/permission.py\<close>): the authority of a tool call. Its
    stages have one type, \<open>decide_call\<close> is their list, and \<open>decide_inv\<close> inverts a decision that is no
    denial into what each stage saw; the properties follow from it and from \<open>ShellSafety\<close>.
  \<^item> \<open>GhFlags\<close>, \<open>GithubReach\<close>, \<open>GithubSafety\<close> (\<open>auth/gh_flags.py\<close>, \<open>auth/github_reach.py\<close>,
    \<open>auth/request_path.py\<close>, \<open>hooks/credential_helper.py\<close>): the repositories an agent's GitHub grant reaches and
    the judges of an MCP message, a git command and a gh command against them; what is forwarded or run
    stays inside, and where the wrapper and the tables let something out.
  \<^item> \<open>SpawnAuthz\<close> (\<open>services/delegation/spawn_authz.py\<close>): who may start a delegated worker, with the
    relation \<open>chats_step\<close> of spawns and deletions under which every lane stays bounded.
  \<^item> \<open>RateLimiter\<close> (\<open>auth/rate_limiter.py\<close>): the keyed limiter, the tarpit and the trusted devices, with
    the run of any list of operations. \<open>SignIn\<close> and \<open>SignInSafety\<close> (\<open>auth/providers/local_provider.py\<close>,
    \<open>auth/totp.py\<close>, \<open>api/auth/identity.py\<close>): the password sign-in and its second step, each route cut where
    it waits for a hash. \<open>Passkey\<close> (\<open>api/auth/webauthn.py\<close>): the passkey sign-in, which takes the same step
    tokens at the second step and hands one-time tokens to the app. \<open>failing_step\<close> interleaves the requests
    of a stretch without a right password of an account, \<open>second_step\<close> the requests of both routes that
    carry a step token.
  \<^item> \<open>Revocation\<close> (\<open>auth/session_revocation.py\<close>, \<open>auth/token_holder.py\<close>): how a sign-in and a token end:
    the denylist through restarts, a logout cut where it waits so that logouts of one sign-in overlap, and the
    cached answers about a token's holder (\<open>holder_step\<close>).
  \<^item> \<open>SubscriptionWindows\<close>, \<open>SubscriptionPool\<close>, \<open>PoolSafety\<close> (\<open>services/engines/subscription_windows.py\<close>,
    \<open>subscription_pool.py\<close>, \<open>storage/billing/subscription_store.py\<close>): the vendor account a session runs on:
    the reading of its windows, its rests, the choice of one for a spawn, the credential scope that sticks to
    it, and the seats, with the relation \<open>pool_reachable\<close> of acquisitions, binds, releases and moves.
    \<open>TokenRefresh\<close> (\<open>subscription_pool.py\<close>): the refresh of a vendor login, its backoff and the verdicts that
    expire a row; the vendor's reply is an argument, so the theorems hold for every one.
  \<^item> \<open>Admission\<close> and \<open>Acquire\<close> (\<open>core/concurrency.py\<close>): the ledger of local sessions. Each hold of
    its condition variable is one function; \<open>slot_step\<close> interleaves them, so the invariants hold
    for every order of concurrent calls. \<open>Acquire\<close> composes the holds of one call and proves that
    its loops end. The locales \<open>slot_ledger\<close> and \<open>budgeted_ledger\<close> are the interface of a ledger of
    reservations; the module's ledger interprets both.

  Conventions. A definition has the name of the function it translates, without its underscore; a
  constant has the constant's. A string is a \<open>string\<close>, a string the code compares with \<open>""\<close> is
  empty, \<open>None\<close> is an option where the code tells the two apart. A dict is an association list in
  insertion order (\<open>dict_set\<close>, \<open>dict_del\<close>, \<open>lookup\<close>). A raise is an \<open>Inl\<close> or an outer \<open>None\<close>. A
  host path is the list of its segments, and \<open>Path.resolve\<close> is the segment-list function \<open>tree\<close> of
  the record \<open>host\<close>, because what a symbolic link names is the machine's. Integers are Python's:
  \<open>int\<close> where they are subtracted, \<open>nat\<close> for counts. Instants are whole seconds in the sign-in
  store, microseconds in the credential timeline, milliseconds in the ledger, in the rate limiter, the
  sign-in, the denylist and the pool, and on the process's clock of the sessions, whose wall clock is in seconds;
  memory is whole megabytes. The one float whose range matters, the tarpit's power of two, raises where
  Python's does. The text of a command is its UTF-8 bytes, and \<open>isspace\<close>, \<open>isalnum\<close> and the classes of a
  regular expression are those of the ASCII characters; no separator the gates look for is part of a
  longer character. A call that raises is an outer \<open>None\<close>, a gate's parse error a refusal. No fuel is
  used: every loop is structural or ends by a measure (the text that is left, the tracked sessions
  of the eviction loops); the gates' recursion ends because a command string deeper than
  \<open>MAX_BASH_DEPTH\<close> (8) is refused and a wrapper leaves a shorter text (the code counts no depth through
  wrappers, and Python's recursion limit, a \<open>RecursionError\<close> on a very long run of them, is not
  modelled: \<open>bash_gate_answers\<close> is about the gate below that limit). The resolver calls itself on a longer path and is a
  \<open>partial_function (option)\<close>: a call that does not return is \<open>None\<close>, and \<open>resolver_returns\<close>
  shows that it returns.

  Parameters. Token validation and the identity tables are the fields of \<open>env\<close>; the agent and run
  tables are arguments of \<open>Visibility\<close>; clocks, random ids, memory readings and session pools are
  arguments of the step that reads them. What the hook asks of the other services (the engine of a
  session, its client, the machine's SSH hosts, the MCP registry) is the record \<open>hook_env\<close>, and the person
  who answers a prompt is a function \<open>person_wait\<close> of the world: the theorems hold for every one. The
  stores a spawn reads are \<open>spawn_world\<close> and \<open>engine_world\<close>, the thresholds of the limiter \<open>limits\<close>, the
  authenticator, the digests and the NFKC form \<open>factor_env\<close>, the origin of a request \<open>origin\<close>, the rows, readings, credentials and
  caps of the pool \<open>pool_env\<close>, what git and gh say of a
  checkout \<open>judge_env\<close>; a password hash answers right, wrong or busy as it likes. The folders of protected credentials (a registry's answer)
  and the tree of the platform's file system are fields of \<open>host\<close>; nothing is assumed of them.

  What the properties show: the protected files and other people's folders are refused to every
  role and placement branch that the gate decides; the write matrix of the roles; what a machine
  admits lies in one of its bands and passes the role matrix inside the agent tree; no text hidden in
  an allowed command is tamer than it looks, escapes the floor, or reaches a path or a host its
  session may not reach; no mode, tier or person lifts the gate, Plan and the judge's profile let through
  only what they name, a critical tool and a destructive command need a person; a closed session stays
  closed, a crash loses no session, a token of an earlier life is refused; a record answers one ask, of
  its call; a bearer
  principal never passes a human guard; a sign-in state is used once and the store stays bounded;
  the ledger's sum, key sets and limits in every reachable state; eviction costs only idle chats;
  the task ring is fair; a gh command or MCP message stays in its grant's repositories; a worker is
  started within the starter's rights and a lane stays bounded; password guesses are bounded, a step token
  and a code are good once, a block is served, a logout is for good; a person's spawn runs on no one else's
  vendor login and the seats of an account are its sessions; an outage of the vendor expires no login; a tier is a rank floor; the word tables are consistent; and round trips of
  the identifiers the components exchange.

  Not modelled: the endpoints around the hook and the cards they show, the hints file of the MCP tiers,
  the session manager's processes and streams, the engines, the satellite protocol, the scheduler,
  the storage and the HTTP surfaces, which are I/O around these decisions; of the sign-in, single sign-on,
  the enrolment of passkeys, resets and invitations; of the pool, the delivery of a rotated credential and the passes
  that move whole scopes (a move itself is \<open>rehome\<close>); the hash gates and the locks per account of the sign-in (a check-and-count is one step);
  the signatures of tokens, which are a library's.
\<close>

end
